(* ===== verification/Prelude.thy ===== *)
theory Prelude
  imports Main "HOL-Library.Word" "HOL-Library.Monad_Syntax"
begin

unbundle bit_operations_syntax

text \<open>
  Shared vocabulary of the CubeSim development: the fixed-width integers of \<open>types.h\<close>, the
  access modes and permission bits of \<open>accesstypes.h\<close>, the exception codes of \<open>excnames.h\<close>,
  the exception request a \<open>DeviceExc\<close> client receives, and the generic facts on words and
  lists that the component theories rewrite with.

  Conventions used by every theory.
  A \<open>uint32\<close> is a \<open>32 word\<close>: \<open>+\<close>, \<open>-\<close>, \<open>*\<close> wrap and \<open><\<close> is the unsigned order.
  \<open>machine->num_cycles\<close> is an argument \<open>now\<close> of the operations that read it.
  An object reached through a pointer is named by its index or by a natural number, and the
  value \<^const>\<open>None\<close> of a result type stands for a run that dereferences a null or dangling
  pointer, indexes an array out of range, or calls \<open>abort()\<close>.
  \<open>client->exception(c, m, n)\<close> only records a request inside the client, so an operation that
  calls it returns the requests in order, as a list the caller delivers.
\<close>

named_theorems cube_defs \<open>definitions of the model that proofs by evaluation unfold\<close>

section \<open>Fixed-width integers (types.h)\<close>

type_synonym u8 = "8 word"
type_synonym u16 = "16 word"
type_synonym u32 = "32 word"
type_synonym u64 = "64 word"

text \<open>C's \<open>(int32) x < 0\<close> and the comparison of two values read as \<open>int32\<close>.\<close>

definition neg32 :: "u32 \<Rightarrow> bool" where
  "neg32 x \<longleftrightarrow> sint x < 0"

section \<open>Access modes and permissions (accesstypes.h)\<close>

abbreviation (input) INSTFETCH :: int where "INSTFETCH \<equiv> 0"
abbreviation (input) DATALOAD :: int where "DATALOAD \<equiv> 1"
abbreviation (input) DATASTORE :: int where "DATASTORE \<equiv> 2"
abbreviation (input) ANY_MODE :: int where "ANY_MODE \<equiv> 3"

abbreviation (input) MEM_READ :: u32 where "MEM_READ \<equiv> 0x01"
abbreviation (input) MEM_WRITE :: u32 where "MEM_WRITE \<equiv> 0x02"
abbreviation (input) MEM_READ_WRITE :: u32 where "MEM_READ_WRITE \<equiv> 0x03"

section \<open>Exception codes (excnames.h)\<close>

abbreviation (input) Exc_Int :: int where "Exc_Int \<equiv> 0"
abbreviation (input) Exc_Mod :: int where "Exc_Mod \<equiv> 1"
abbreviation (input) Exc_TLBL :: int where "Exc_TLBL \<equiv> 2"
abbreviation (input) Exc_TLBS :: int where "Exc_TLBS \<equiv> 3"
abbreviation (input) Exc_AdEL :: int where "Exc_AdEL \<equiv> 4"
abbreviation (input) Exc_AdES :: int where "Exc_AdES \<equiv> 5"
abbreviation (input) Exc_IBE :: int where "Exc_IBE \<equiv> 6"
abbreviation (input) Exc_DBE :: int where "Exc_DBE \<equiv> 7"
abbreviation (input) Exc_Sys :: int where "Exc_Sys \<equiv> 8"
abbreviation (input) Exc_Bp :: int where "Exc_Bp \<equiv> 9"
abbreviation (input) Exc_RI :: int where "Exc_RI \<equiv> 10"
abbreviation (input) Exc_CpU :: int where "Exc_CpU \<equiv> 11"
abbreviation (input) Exc_Ov :: int where "Exc_Ov \<equiv> 12"
abbreviation (input) Exc_Tr :: int where "Exc_Tr \<equiv> 13"

text \<open>
  One call of \<open>DeviceExc::exception(excCode, mode, coprocno)\<close> (\<open>deviceexc.h\<close>); it is also the
  \<open>ExcInfo\<close> object of \<open>cpu.h\<close>, which stores exactly these three values.
\<close>

record exc_info =
  excCode :: int
  mode :: int
  coprocno :: int

definition exc_req :: "int \<Rightarrow> int \<Rightarrow> exc_info" where
  "exc_req c m = \<lparr>excCode = c, mode = m, coprocno = -1\<rparr>"

text \<open>The identity of a \<open>DeviceExc\<close> object (the pointer a bus master passes as \<open>client\<close>).\<close>

type_synonym client = nat

section \<open>Generic facts\<close>

lemma bind_Some_iff [simp]:
  "Option.bind m f = Some y \<longleftrightarrow> (\<exists>x. m = Some x \<and> f x = Some y)"
  by (cases m) auto

text \<open>A run-time condition of the model: a failed check is the result \<^const>\<open>None\<close>.\<close>

definition check :: "bool \<Rightarrow> unit option" where
  "check b = (if b then Some () else None)"

lemma check_simps [simp]: "check True = Some ()" "check False = None" "check b = Some u \<longleftrightarrow> b"
  by (simp_all add: check_def)

lemma word_eqI_bits:
  fixes x y :: "'a::len word"
  assumes "\<And>n. n < LENGTH('a) \<Longrightarrow> bit x n = bit y n"
  shows "x = y"
  by (rule bit_word_eqI) (use assms in blast)

text \<open>
  Bit-wise proofs on words of a fixed width: an equation between words is the conjunction of its
  bits, spelled out by \<open>all_less_numeral\<close>; the collection \<open>bit_blast\<close> holds the rewrites for it.
\<close>

lemma all_less_numeral:
  "(\<forall>i < numeral k. P i) \<longleftrightarrow> P (pred_numeral k) \<and> (\<forall>i < pred_numeral k. P i)"
  by (simp add: numeral_eq_Suc All_less_Suc)

lemma u32_eq_bits: "(x :: u32) = y \<longleftrightarrow> (\<forall>n < 32. bit x n = bit y n)"
  by (auto intro: word_eqI_bits)

lemma u16_eq_bits: "(x :: u16) = y \<longleftrightarrow> (\<forall>n < 16. bit x n = bit y n)"
  by (auto intro: word_eqI_bits)

lemma u8_eq_bits: "(x :: u8) = y \<longleftrightarrow> (\<forall>n < 8. bit x n = bit y n)"
  by (auto intro: word_eqI_bits)

lemma bit_u32_lt: "bit (w :: u32) n \<Longrightarrow> n < 32"
  using bit_imp_le_length [of w n] by simp

lemma bit_u8_beyond: "8 \<le> n \<Longrightarrow> \<not> bit (b :: u8) n"
  using bit_imp_le_length [of b n] by auto

lemma bit_u16_beyond: "16 \<le> n \<Longrightarrow> \<not> bit (h :: u16) n"
  using bit_imp_le_length [of h n] by auto

lemmas bit_blast = u32_eq_bits u16_eq_bits u8_eq_bits all_less_numeral All_less_Suc bit_simps

text \<open>Reading back the two halves of a disjoint bit field assignment.\<close>

lemma and_or_field:
  fixes x y m :: "'a::len word"
  shows "(x AND NOT m OR y AND m) AND m = y AND m"
    and "(x AND NOT m OR y AND m) AND NOT m = x AND NOT m"
  by (auto intro!: bit_word_eqI simp: bit_simps)

lemma and_zero_iff_bits:
  fixes x m :: "'a::len word"
  shows "x AND m = 0 \<longleftrightarrow> (\<forall>n < LENGTH('a). bit m n \<longrightarrow> \<not> bit x n)"
  by (auto simp: bit_eq_iff bit_simps dest: bit_imp_le_length)

lemma word_and_mask_nonzero:
  fixes x :: "'a::len word"
  shows "x AND 2 ^ n \<noteq> 0 \<longleftrightarrow> bit x n"
proof -
  have "x AND 2 ^ n = (if bit x n then 2 ^ n else 0)"
    by (rule bit_word_eqI) (auto simp: bit_simps)
  moreover have "bit x n \<Longrightarrow> (2::'a word) ^ n \<noteq> 0"
    using bit_imp_le_length [of x n] by simp
  ultimately show ?thesis by auto
qed

lemma list_update_nth_same [simp]:
  "i < length xs \<Longrightarrow> xs[i := xs ! i] = xs"
  by simp

lemma mod4_unat: "(x :: u32) mod 4 = 0 \<longleftrightarrow> unat x mod 4 = 0"
  by (simp add: word_unat_eq_iff unat_mod_distrib)

lemma mod2_unat: "(x :: u32) mod 2 = 0 \<longleftrightarrow> unat x mod 2 = 0"
  by (simp add: word_unat_eq_iff unat_mod_distrib)

end
