(* ===== verification/Range_Memory.thy ===== *)
theory Range_Memory
  imports Prelude
begin

unbundle bit_operations_syntax

text \<open>
  \<open>range.h\<close>, \<open>range.cc\<close> and \<open>memorymodule.h\<close>: a mapped range of physical addresses and the host
  memory behind it.
  The host memory is the list of its bytes; a word or halfword is read in the byte order of the
  host machine (\<open>host_bigendian\<close>), as the casts of \<open>address\<close> to \<open>uint32 *\<close> and \<open>uint16 *\<close> do.
  The locale \<open>word_store\<close> states the contract of a word-addressed memory, read-after-write and
  framing, and proves the block transfer facts a bus master relies on; it is interpreted on
  \<open>Range\<close>.
\<close>

section \<open>Words in host memory\<close>

definition word_of_bytes :: "bool \<Rightarrow> u8 \<Rightarrow> u8 \<Rightarrow> u8 \<Rightarrow> u8 \<Rightarrow> u32" where
  "word_of_bytes big b0 b1 b2 b3 =
     (if big
      then push_bit 24 (ucast b0) OR push_bit 16 (ucast b1) OR push_bit 8 (ucast b2) OR ucast b3
      else push_bit 24 (ucast b3) OR push_bit 16 (ucast b2) OR push_bit 8 (ucast b1) OR ucast b0)"

definition word_byte :: "bool \<Rightarrow> u32 \<Rightarrow> nat \<Rightarrow> u8" where
  "word_byte big w i = ucast (drop_bit (if big then 8 * (3 - i) else 8 * i) w)"

definition half_of_bytes :: "bool \<Rightarrow> u8 \<Rightarrow> u8 \<Rightarrow> u16" where
  "half_of_bytes big b0 b1 =
     (if big then push_bit 8 (ucast b0) OR ucast b1 else push_bit 8 (ucast b1) OR ucast b0)"

definition half_byte :: "bool \<Rightarrow> u16 \<Rightarrow> nat \<Rightarrow> u8" where
  "half_byte big h i = ucast (drop_bit (if big then 8 * (1 - i) else 8 * i) h)"

definition load32 :: "bool \<Rightarrow> u8 list \<Rightarrow> nat \<Rightarrow> u32" where
  "load32 big m i = word_of_bytes big (m ! i) (m ! (i + 1)) (m ! (i + 2)) (m ! (i + 3))"

definition store32 :: "bool \<Rightarrow> u8 list \<Rightarrow> nat \<Rightarrow> u32 \<Rightarrow> u8 list" where
  "store32 big m i w =
     m[i := word_byte big w 0, i + 1 := word_byte big w 1,
       i + 2 := word_byte big w 2, i + 3 := word_byte big w 3]"

definition load16 :: "bool \<Rightarrow> u8 list \<Rightarrow> nat \<Rightarrow> u16" where
  "load16 big m i = half_of_bytes big (m ! i) (m ! (i + 1))"

definition store16 :: "bool \<Rightarrow> u8 list \<Rightarrow> nat \<Rightarrow> u16 \<Rightarrow> u8 list" where
  "store16 big m i h = m[i := half_byte big h 0, i + 1 := half_byte big h 1]"

lemma word_of_bytes_word_byte [simp]:
  "word_of_bytes big (word_byte big w 0) (word_byte big w (Suc 0)) (word_byte big w 2) (word_byte big w 3) = w"
  unfolding word_of_bytes_def word_byte_def by (cases big) (simp_all add: bit_blast)

lemma half_of_bytes_half_byte [simp]:
  "half_of_bytes big (half_byte big h 0) (half_byte big h (Suc 0)) = h"
  unfolding half_of_bytes_def half_byte_def by (cases big) (simp_all add: bit_blast)

lemma word_byte_word_of_bytes [simp]:
  "word_byte big (word_of_bytes big b0 b1 b2 b3) 0 = b0"
  "word_byte big (word_of_bytes big b0 b1 b2 b3) (Suc 0) = b1"
  "word_byte big (word_of_bytes big b0 b1 b2 b3) 2 = b2"
  "word_byte big (word_of_bytes big b0 b1 b2 b3) 3 = b3"
  unfolding word_of_bytes_def word_byte_def by (cases big; simp add: bit_blast bit_u8_beyond)+

lemma length_store [simp]:
  "length (store32 big m i w) = length m" "length (store16 big m i h) = length m"
  by (simp_all add: store32_def store16_def)

lemma load32_store32_same:
  "i + 4 \<le> length m \<Longrightarrow> load32 big (store32 big m i w) i = w"
  by (simp add: load32_def store32_def nth_list_update)

lemma load32_store32_other:
  "i + 4 \<le> j \<or> j + 4 \<le> i \<Longrightarrow> load32 big (store32 big m i w) j = load32 big m j"
  by (auto simp: load32_def store32_def nth_list_update)

lemma load16_store16_same:
  "i + 2 \<le> length m \<Longrightarrow> load16 big (store16 big m i h) i = h"
  by (simp add: load16_def store16_def nth_list_update)

section \<open>Range (range.h, range.cc)\<close>

record range_t =
  r_base :: u32
  r_extent :: u32
  r_address :: "u8 list"
  r_perms :: u32
  r_read_count :: u32
  r_write_count :: u32

definition Range_new :: "u32 \<Rightarrow> u32 \<Rightarrow> u8 list \<Rightarrow> u32 \<Rightarrow> range_t" where
  "Range_new base extent address perms =
     \<lparr>r_base = base, r_extent = extent, r_address = address, r_perms = perms,
      r_read_count = 0, r_write_count = 0\<rparr>"

definition incorporates :: "range_t \<Rightarrow> u32 \<Rightarrow> bool" where
  "incorporates r addr \<longleftrightarrow> r_base r \<le> addr \<and> addr < r_base r + r_extent r"

definition overlaps :: "range_t \<Rightarrow> range_t \<Rightarrow> bool" where
  "overlaps this r =
     (let e = r_base this + r_extent this;
          r_e = r_base r + r_extent r
      in if r_base this \<le> r_base r \<and> r_base r < e then True
         else if r_base r \<le> r_base this \<and> r_base this < r_e then True
         else if r_base r \<le> r_base this \<and> e \<le> r_e then True
         else if r_base this \<le> r_base r \<and> r_e \<le> e then True
         else False)"

definition canRead :: "range_t \<Rightarrow> bool" where
  "canRead r \<longleftrightarrow> r_perms r AND MEM_READ \<noteq> 0"

definition canWrite :: "range_t \<Rightarrow> bool" where
  "canWrite r \<longleftrightarrow> r_perms r AND MEM_WRITE \<noteq> 0"

text \<open>
  The accessors index the host array without a bounds check; an index outside the host memory is
  \<^const>\<open>None\<close>.
\<close>

definition Range_fetch_word :: "bool \<Rightarrow> range_t \<Rightarrow> u32 \<Rightarrow> (u32 \<times> range_t) option" where
  "Range_fetch_word host_big r offset =
     (let i = 4 * (unat offset div 4) in
      if i + 4 \<le> length (r_address r)
      then Some (load32 host_big (r_address r) i, r\<lparr>r_read_count := r_read_count r + 1\<rparr>)
      else None)"

definition Range_fetch_halfword :: "bool \<Rightarrow> range_t \<Rightarrow> u32 \<Rightarrow> (u16 \<times> range_t) option" where
  "Range_fetch_halfword host_big r offset =
     (let i = 2 * (unat offset div 2) in
      if i + 2 \<le> length (r_address r)
      then Some (load16 host_big (r_address r) i, r\<lparr>r_read_count := r_read_count r + 1\<rparr>)
      else None)"

definition Range_fetch_byte :: "range_t \<Rightarrow> u32 \<Rightarrow> (u8 \<times> range_t) option" where
  "Range_fetch_byte r offset =
     (if unat offset < length (r_address r)
      then Some (r_address r ! unat offset, r\<lparr>r_read_count := r_read_count r + 1\<rparr>)
      else None)"

definition Range_store_word :: "bool \<Rightarrow> range_t \<Rightarrow> u32 \<Rightarrow> u32 \<Rightarrow> range_t option" where
  "Range_store_word host_big r offset data =
     (let i = 4 * (unat offset div 4) in
      if i + 4 \<le> length (r_address r)
      then Some (r\<lparr>r_address := store32 host_big (r_address r) i data,
                   r_write_count := r_write_count r + 1\<rparr>)
      else None)"

definition Range_store_halfword :: "bool \<Rightarrow> range_t \<Rightarrow> u32 \<Rightarrow> u16 \<Rightarrow> range_t option" where
  "Range_store_halfword host_big r offset data =
     (let i = 2 * (unat offset div 2) in
      if i + 2 \<le> length (r_address r)
      then Some (r\<lparr>r_address := store16 host_big (r_address r) i data,
                   r_write_count := r_write_count r + 1\<rparr>)
      else None)"

definition Range_store_byte :: "range_t \<Rightarrow> u32 \<Rightarrow> u8 \<Rightarrow> range_t option" where
  "Range_store_byte r offset data =
     (if unat offset < length (r_address r)
      then Some (r\<lparr>r_address := (r_address r)[unat offset := data],
                   r_write_count := r_write_count r + 1\<rparr>)
      else None)"

text \<open>
  The memory of a \<open>MemoryModule\<close> is \<open>new uint32[size / 4]()\<close>, zeroed, with the file contents
  copied to its start; a file larger than the module throws.
\<close>

definition MemoryModule_new :: "nat \<Rightarrow> u8 list option \<Rightarrow> range_t option" where
  "MemoryModule_new sz init =
     (let n = 4 * (sz div 4) in
      case init of
        None \<Rightarrow> Some (Range_new 0 (of_nat sz) (replicate n 0) MEM_READ_WRITE)
      | Some d \<Rightarrow>
          if length d > sz then None
          else if length d > n then None
          else Some (Range_new 0 (of_nat sz) (d @ replicate (n - length d) 0) MEM_READ_WRITE))"

lemmas range_defs [cube_defs] =
  Range_new_def incorporates_def overlaps_def canRead_def canWrite_def
  Range_fetch_word_def Range_fetch_halfword_def Range_fetch_byte_def
  Range_store_word_def Range_store_halfword_def Range_store_byte_def MemoryModule_new_def

section \<open>What the range predicates mean\<close>

text \<open>A range that neither is empty nor wraps around the top of the address space.\<close>

definition proper_range :: "range_t \<Rightarrow> bool" where
  "proper_range r \<longleftrightarrow> 0 < r_extent r \<and> unat (r_base r) + unat (r_extent r) < 2 ^ 32"

lemma unat_range_end:
  "proper_range r \<Longrightarrow> unat (r_base r + r_extent r) = unat (r_base r) + unat (r_extent r)"
  by (simp add: proper_range_def unat_word_ariths)

lemma incorporates_nat:
  "proper_range r \<Longrightarrow>
   incorporates r a \<longleftrightarrow> unat (r_base r) \<le> unat a \<and> unat a < unat (r_base r) + unat (r_extent r)"
  by (simp add: incorporates_def word_le_nat_alt word_less_nat_alt unat_range_end)

lemma proper_range_base: "proper_range r \<Longrightarrow> incorporates r (r_base r)"
  by (simp add: incorporates_nat) (simp add: proper_range_def word_less_nat_alt)

lemma overlaps_nat:
  assumes "proper_range r" "proper_range s"
  shows "overlaps r s \<longleftrightarrow>
    unat (r_base r) < unat (r_base s) + unat (r_extent s) \<and>
    unat (r_base s) < unat (r_base r) + unat (r_extent r)"
  using assms
  by (auto simp: overlaps_def Let_def word_le_nat_alt word_less_nat_alt unat_range_end
      proper_range_def)

lemma overlaps_iff_common_address:
  assumes r: "proper_range r" and s: "proper_range s"
  shows "overlaps r s \<longleftrightarrow> (\<exists>a. incorporates r a \<and> incorporates s a)"
proof
  assume o: "overlaps r s"
  let ?a = "if r_base r \<le> r_base s then r_base s else r_base r"
  from o r s have "incorporates r ?a \<and> incorporates s ?a"
    by (auto simp: overlaps_nat incorporates_nat word_le_nat_alt proper_range_def word_less_nat_alt)
  then show "\<exists>a. incorporates r a \<and> incorporates s a" by blast
next
  assume "\<exists>a. incorporates r a \<and> incorporates s a"
  with r s show "overlaps r s" by (auto simp: overlaps_nat incorporates_nat)
qed

text \<open>A range whose end is exactly \<open>2 ^ 32\<close> wraps to 0 and incorporates no address.\<close>

lemma incorporates_wrapped_end:
  "unat (r_base r) + unat (r_extent r) = 2 ^ 32 \<Longrightarrow> \<not> incorporates r a"
proof -
  assume e: "unat (r_base r) + unat (r_extent r) = 2 ^ 32"
  have "unat (r_base r + r_extent r) = 0" using e by (simp add: unat_word_ariths)
  then have "r_base r + r_extent r = 0" by (simp only: unat_eq_0)
  then show ?thesis by (simp add: incorporates_def)
qed

section \<open>The contract of a word-addressed memory\<close>

text \<open>
  \<open>store_block\<close> and \<open>fetch_block\<close> are the transfers a bus master makes: \<open>n\<close> consecutive words,
  lowest address first, stopping at the first access that fails.
\<close>

primrec store_block :: "('s \<Rightarrow> u32 \<Rightarrow> u32 \<Rightarrow> 's option) \<Rightarrow> 's \<Rightarrow> u32 \<Rightarrow> u32 list \<Rightarrow> 's option" where
  "store_block wr s a [] = Some s"
| "store_block wr s a (v # vs) =
     (case wr s a v of None \<Rightarrow> None | Some s' \<Rightarrow> store_block wr s' (a + 4) vs)"

primrec fetch_block :: "('s \<Rightarrow> u32 \<Rightarrow> u32 option) \<Rightarrow> 's \<Rightarrow> u32 \<Rightarrow> nat \<Rightarrow> u32 list option" where
  "fetch_block rd s a 0 = Some []"
| "fetch_block rd s a (Suc n) =
     (case rd s a of None \<Rightarrow> None
      | Some v \<Rightarrow> map_option (Cons v) (fetch_block rd s (a + 4) n))"

text \<open>The word slots \<open>a, a + 4, \<dots>\<close> of a block of \<open>n\<close> words.\<close>

primrec slots :: "u32 \<Rightarrow> nat \<Rightarrow> u32 list" where
  "slots a 0 = []"
| "slots a (Suc n) = a # slots (a + 4) n"

lemma slots_nth: "i < n \<Longrightarrow> slots a n ! i = a + 4 * of_nat i"
  by (induction n arbitrary: a i) (auto simp: nth_Cons algebra_simps split: nat.splits)

lemma length_slots [simp]: "length (slots a n) = n"
  by (induction n arbitrary: a) auto

lemma distinct_slots:
  assumes "n \<le> 2 ^ 30"
  shows "distinct (slots a n)"
proof (unfold distinct_conv_nth, intro allI impI)
  fix i j assume ij: "i < length (slots a n)" "j < length (slots a n)" "i \<noteq> j"
  have "unat (4 * of_nat k :: u32) = 4 * k" if "k < n" for k
    using that assms by (simp add: unat_word_ariths unat_of_nat)
  with ij have "unat (4 * of_nat i :: u32) \<noteq> unat (4 * of_nat j :: u32)" by simp
  then have "(4 * of_nat i :: u32) \<noteq> 4 * of_nat j" by metis
  with ij show "slots a n ! i \<noteq> slots a n ! j" by (simp add: slots_nth)
qed

locale word_store =
  fixes rd :: "'s \<Rightarrow> u32 \<Rightarrow> u32 option"
    and wr :: "'s \<Rightarrow> u32 \<Rightarrow> u32 \<Rightarrow> 's option"
    and ok :: "'s \<Rightarrow> u32 \<Rightarrow> bool"
  assumes rd_ok: "ok s a \<Longrightarrow> rd s a \<noteq> None"
    and wr_ok: "ok s a \<Longrightarrow> wr s a v \<noteq> None"
    and rd_wr: "wr s a v = Some s' \<Longrightarrow> ok s a \<Longrightarrow> ok s b \<Longrightarrow>
                  rd s' b = (if b = a then Some v else rd s b)"
    and ok_wr: "wr s a v = Some s' \<Longrightarrow> ok s a \<Longrightarrow> ok s' b = ok s b"
begin

lemma store_block_total:
  "\<forall>a \<in> set (slots a (length vs)). ok s a \<Longrightarrow> \<exists>s'. store_block wr s a vs = Some s'"
proof (induction vs arbitrary: s a)
  case (Cons v vs)
  then obtain s1 where s1: "wr s a v = Some s1" using wr_ok [of s a v] by auto
  with Cons.prems have "\<forall>b \<in> set (slots (a + 4) (length vs)). ok s1 b"
    by (auto simp: ok_wr)
  from Cons.IH [OF this] show ?case by (auto simp: s1)
qed simp

lemma store_block_frame:
  assumes "store_block wr s a vs = Some s'"
    and "\<forall>b \<in> set (slots a (length vs)). ok s b" and "ok s c"
  shows "ok s' c \<and> (c \<notin> set (slots a (length vs)) \<longrightarrow> rd s' c = rd s c)"
  using assms
proof (induction vs arbitrary: s a)
  case (Cons v vs)
  then obtain s1 where s1: "wr s a v = Some s1" and rest: "store_block wr s1 (a + 4) vs = Some s'"
    by (auto split: option.splits)
  have ok1: "ok s1 b = ok s b" for b using s1 Cons.prems(2) by (simp add: ok_wr)
  have "ok s' c \<and> (c \<notin> set (slots (a + 4) (length vs)) \<longrightarrow> rd s' c = rd s1 c)"
    using Cons.prems ok1 by (intro Cons.IH [OF rest]) auto
  with s1 Cons.prems show ?case by (auto simp: rd_wr)
qed simp

text \<open>A block read back from the slots it was written to is the block written.\<close>

lemma fetch_block_store_block:
  assumes "store_block wr s a vs = Some s'" and "distinct (slots a (length vs))"
    and "\<forall>b \<in> set (slots a (length vs)). ok s b"
  shows "fetch_block rd s' a (length vs) = Some vs"
  using assms
proof (induction vs arbitrary: s a)
  case (Cons v vs)
  then obtain s1 where s1: "wr s a v = Some s1" and rest: "store_block wr s1 (a + 4) vs = Some s'"
    by (auto split: option.splits)
  have ok1: "ok s1 b = ok s b" for b using s1 Cons.prems(3) by (simp add: ok_wr)
  have "fetch_block rd s' (a + 4) (length vs) = Some vs"
    using Cons.prems ok1 by (intro Cons.IH [OF rest]) auto
  moreover have "rd s' a = rd s1 a"
    using store_block_frame [OF rest, of a] Cons.prems ok1 by auto
  ultimately show ?case using s1 Cons.prems by (simp add: rd_wr)
qed simp

end

text \<open>The words of a \<open>Range\<close> meet the contract at the word-aligned offsets inside its host memory.\<close>

definition range_rd :: "bool \<Rightarrow> range_t \<Rightarrow> u32 \<Rightarrow> u32 option" where
  "range_rd hb r a = map_option fst (Range_fetch_word hb r a)"

definition range_ok :: "range_t \<Rightarrow> u32 \<Rightarrow> bool" where
  "range_ok r a \<longleftrightarrow> unat a mod 4 = 0 \<and> unat a + 4 \<le> length (r_address r)"

interpretation range_words: word_store "range_rd hb" "Range_store_word hb" range_ok for hb
proof
  show "range_ok s a \<Longrightarrow> range_rd hb s a \<noteq> None" for s a
    by (auto simp: range_ok_def range_rd_def Range_fetch_word_def Let_def)
  show "range_ok s a \<Longrightarrow> Range_store_word hb s a v \<noteq> None" for s a v
    by (auto simp: range_ok_def Range_store_word_def Let_def)
  show "Range_store_word hb s a v = Some s' \<Longrightarrow> range_ok s a \<Longrightarrow> range_ok s' b = range_ok s b" for s a v s' b
    by (auto simp: range_ok_def Range_store_word_def Let_def split: if_splits)
  fix s a v s' b
  assume st: "Range_store_word hb s a v = Some s'" and oa: "range_ok s a" and ob: "range_ok s b"
  have ia: "4 * (unat a div 4) = unat a" and ib: "4 * (unat b div 4) = unat b"
    using oa ob by (auto simp: range_ok_def)
  have s': "r_address s' = store32 hb (r_address s) (unat a) v"
    using st oa ia by (auto simp: Range_store_word_def Let_def range_ok_def)
  have "load32 hb (r_address s') (unat b) =
        (if b = a then v else load32 hb (r_address s) (unat b))"
  proof (cases "b = a")
    case True
    with s' oa show ?thesis by (simp add: load32_store32_same range_ok_def)
  next
    case False
    then have "unat a \<noteq> unat b" by (simp add: word_unat_eq_iff)
    moreover have "unat a mod 4 = 0" "unat b mod 4 = 0" using oa ob by (auto simp: range_ok_def)
    ultimately have "unat a + 4 \<le> unat b \<or> unat b + 4 \<le> unat a" by presburger
    with s' False show ?thesis by (simp add: load32_store32_other)
  qed
  then show "range_rd hb s' b = (if b = a then Some v else range_rd hb s b)"
    using ob s' by (auto simp: range_rd_def Range_fetch_word_def Let_def ib range_ok_def)
qed

end
