(* ===== verification/Bus_Arbiter.thy ===== *)
theory Bus_Arbiter
  imports Prelude
begin

text \<open>
  \<open>busarbiter.h\<close> and \<open>busarbiter.cc\<close>: the arbiter of the system bus. It remembers the bus master
  that holds the bus and the cycle of the last release, during which nobody is granted the bus.
  The locale \<open>bus_grant\<close> is the contract a bus master relies on; exclusive ownership over any
  sequence of requests and releases is proved from it, and it is interpreted on the arbiter here
  and on the mapper that forwards to it in theory \<open>Mapper\<close>.
\<close>

section \<open>The arbiter\<close>

record bus_arbiter =
  last_released_cycle :: u32
  bus_holder :: "client option"

definition BusArbiter_new :: bus_arbiter where
  "BusArbiter_new = \<lparr>last_released_cycle = 0, bus_holder = None\<rparr>"

definition acquire_bus :: "u32 \<Rightarrow> client \<Rightarrow> bus_arbiter \<Rightarrow> bool \<times> bus_arbiter" where
  "acquire_bus now c b =
     (if last_released_cycle b = now then (False, b)
      else if bus_holder b = None then (True, b\<lparr>bus_holder := Some c\<rparr>)
      else if bus_holder b = Some c then (True, b)
      else (False, b))"

definition release_bus :: "u32 \<Rightarrow> client \<Rightarrow> bus_arbiter \<Rightarrow> bus_arbiter" where
  "release_bus now c b =
     (if bus_holder b = Some c
      then b\<lparr>bus_holder := None, last_released_cycle := now\<rparr> else b)"

lemmas bus_defs [cube_defs] = BusArbiter_new_def acquire_bus_def release_bus_def

section \<open>Exclusive ownership\<close>

datatype bus_op = Acquire u32 client | Release u32 client

fun bus_step :: "(u32 \<Rightarrow> client \<Rightarrow> 's \<Rightarrow> bool \<times> 's) \<Rightarrow> (u32 \<Rightarrow> client \<Rightarrow> 's \<Rightarrow> 's) \<Rightarrow> 's \<Rightarrow> bus_op \<Rightarrow> 's" where
  "bus_step acq rel s (Acquire t c) = snd (acq t c s)"
| "bus_step acq rel s (Release t c) = rel t c s"

definition bus_run where
  "bus_run acq rel = foldl (bus_step acq rel)"

locale bus_grant =
  fixes acq :: "u32 \<Rightarrow> client \<Rightarrow> 's \<Rightarrow> bool \<times> 's"
    and rel :: "u32 \<Rightarrow> client \<Rightarrow> 's \<Rightarrow> 's"
    and holder :: "'s \<Rightarrow> client option"
  assumes acq_grants: "acq t c s = (True, s') \<Longrightarrow> holder s' = Some c"
    and acq_refuses: "acq t c s = (False, s') \<Longrightarrow> s' = s"
    and acq_busy: "holder s = Some d \<Longrightarrow> acq t c s = (True, s') \<Longrightarrow> c = d"
    and rel_other: "holder s = Some d \<Longrightarrow> c \<noteq> d \<Longrightarrow> holder (rel t c s) = Some d"
    and rel_own: "holder (rel t c s) \<noteq> Some c"
begin

lemma acq_keeps_holder:
  assumes "holder s = Some d"
  shows "holder (snd (acq t c s)) = Some d"
proof (cases "acq t c s")
  case (Pair g s')
  with assms acq_grants acq_refuses acq_busy show ?thesis by (cases g) fastforce+
qed

lemma step_keeps_holder:
  assumes "holder s = Some d" and "\<And>t. oper \<noteq> Release t d"
  shows "holder (bus_step acq rel s oper) = Some d"
  using assms by (cases oper) (auto simp: acq_keeps_holder intro: rel_other)

lemma run_keeps_holder:
  assumes "holder s = Some d" and "\<And>t. Release t d \<notin> set ops"
  shows "holder (bus_run acq rel s ops) = Some d"
  using assms
proof (induction ops arbitrary: s)
  case (Cons x xs)
  have "holder (bus_step acq rel s x) = Some d"
    using Cons.prems by (intro step_keeps_holder) (auto simp: eq_commute)
  then show ?case using Cons by (simp add: bus_run_def)
qed (simp add: bus_run_def)

text \<open>
  Between a grant and the holder's own release, every other master is refused, whatever the
  masters do meanwhile.
\<close>

lemma exclusive:
  assumes "acq t c s = (True, s')" and "\<And>u. Release u c \<notin> set ops" and "d \<noteq> c"
  shows "\<not> fst (acq u d (bus_run acq rel s' ops))"
proof -
  let ?r = "bus_run acq rel s' ops"
  have h: "holder ?r = Some c"
    using assms(1,2) by (intro run_keeps_holder) (auto dest: acq_grants)
  show ?thesis
  proof
    assume "fst (acq u d ?r)"
    then have "acq u d ?r = (True, snd (acq u d ?r))" by (cases "acq u d ?r") auto
    from acq_busy [OF h this] assms(3) show False by simp
  qed
qed

end

interpretation arbiter: bus_grant acquire_bus release_bus bus_holder
  by unfold_locales (auto simp: acquire_bus_def release_bus_def split: if_splits)

text \<open>Liveness of the arbiter: a free bus goes to whoever asks, from the cycle after a release on.\<close>

lemma acquire_bus_free:
  "bus_holder b = None \<Longrightarrow> now \<noteq> last_released_cycle b \<Longrightarrow>
   acquire_bus now c b = (True, b\<lparr>bus_holder := Some c\<rparr>)"
  by (simp add: acquire_bus_def)

lemma acquire_bus_release_cycle:
  "bus_holder b = Some c \<Longrightarrow> \<not> fst (acquire_bus now d (release_bus now c b))"
  by (simp add: bus_defs)

end
