(* ===== verification/Dmac_Config.thy ===== *)
theory Dmac_Config
  imports Prelude
begin

unbundle bit_operations_syntax

text \<open>
  The register file of the DMA controller: class \<open>DMACConfig\<close> of \<open>dmac.h\<close> and \<open>dmac.cc\<close>, a
  \<open>Range\<close> whose accessors decode the register offset. The controller itself is in theory
  \<open>Dmac\<close>; it shares this object with the mapper, which keeps it among its ranges.
\<close>

abbreviation (input) DMAC_ADDR_BASE :: u32 where "DMAC_ADDR_BASE \<equiv> 0xBD030000"
abbreviation (input) DMAC_CONF_SIZE :: u32 where "DMAC_CONF_SIZE \<equiv> 0x20"
abbreviation (input) DMAC_ENABLE_OFFSET :: u32 where "DMAC_ENABLE_OFFSET \<equiv> 0x00"
abbreviation (input) DMAC_INTEN_OFFSET :: u32 where "DMAC_INTEN_OFFSET \<equiv> 0x04"
abbreviation (input) DMAC_CTRL_OFFSET :: u32 where "DMAC_CTRL_OFFSET \<equiv> 0x08"
abbreviation (input) DMAC_STATUS_OFFSET :: u32 where "DMAC_STATUS_OFFSET \<equiv> 0x0C"
abbreviation (input) DMAC_ATTR_OFFSET :: u32 where "DMAC_ATTR_OFFSET \<equiv> 0x10"
abbreviation (input) DMAC_LEN_OFFSET :: u32 where "DMAC_LEN_OFFSET \<equiv> 0x14"
abbreviation (input) DMAC_SRC_OFFSET :: u32 where "DMAC_SRC_OFFSET \<equiv> 0x18"
abbreviation (input) DMAC_DST_OFFSET :: u32 where "DMAC_DST_OFFSET \<equiv> 0x1C"
abbreviation (input) DMAC_DONELEN_OFFSET :: u32 where "DMAC_DONELEN_OFFSET \<equiv> 0x20"

abbreviation (input) DMAC_ENABLED_BIT :: u32 where "DMAC_ENABLED_BIT \<equiv> 0x1"
abbreviation (input) DMAC_INTEN_BIT :: u32 where "DMAC_INTEN_BIT \<equiv> 0x1"
abbreviation (input) DMAC_START_BIT :: u32 where "DMAC_START_BIT \<equiv> 0x1"
abbreviation (input) DMAC_ABORT_BIT :: u32 where "DMAC_ABORT_BIT \<equiv> 0x2"
abbreviation (input) DMAC_BUSY_BIT :: u32 where "DMAC_BUSY_BIT \<equiv> 0x1"
abbreviation (input) DMAC_DONE_BIT :: u32 where "DMAC_DONE_BIT \<equiv> 0x2"
abbreviation (input) DMAC_BUSERR_BIT :: u32 where "DMAC_BUSERR_BIT \<equiv> 0x4"
abbreviation (input) DMAC_ADRERR_BIT :: u32 where "DMAC_ADRERR_BIT \<equiv> 0x8"
abbreviation (input) DMAC_ESTATE_BIT :: u32 where "DMAC_ESTATE_BIT \<equiv> 0x10"
abbreviation (input) DMAC_BURST_BIT :: u32 where "DMAC_BURST_BIT \<equiv> 0x1"
abbreviation (input) DMAC_ZERO_BIT :: u32 where "DMAC_ZERO_BIT \<equiv> 0x2"

record dma_query =
  q_src :: u32
  q_dst :: u32
  q_len :: u32
  q_zero_write :: bool
  q_burst :: bool

record dmac_config =
  dc_byteswapped :: bool
  dc_kicked :: bool
  dc_enabled :: bool
  dc_irq_en :: bool
  dc_abort :: bool
  dc_busy :: bool
  dc_done :: bool
  dc_addr_err :: bool
  dc_bus_err :: bool
  dc_end_stat :: bool
  dc_zero_write :: bool
  dc_burst :: bool
  dc_dma_len :: u32
  dc_dma_src :: u32
  dc_dma_dst :: u32
  dc_success_len :: u32

definition DMACConfig_reset :: "dmac_config \<Rightarrow> dmac_config" where
  "DMACConfig_reset c = c\<lparr>dc_kicked := False, dc_enabled := False, dc_irq_en := False,
     dc_abort := False, dc_busy := False, dc_done := False, dc_addr_err := False,
     dc_bus_err := False, dc_end_stat := False, dc_zero_write := False, dc_burst := False,
     dc_dma_len := 0, dc_dma_src := 0, dc_dma_dst := 0, dc_success_len := 0\<rparr>"

definition DMACConfig_new :: "bool \<Rightarrow> bool \<Rightarrow> dmac_config" where
  "DMACConfig_new opt_big host_big =
     \<lparr>dc_byteswapped = (opt_big \<and> \<not> host_big \<or> \<not> opt_big \<and> host_big),
      dc_kicked = False, dc_enabled = False, dc_irq_en = False, dc_abort = False,
      dc_busy = False, dc_done = False, dc_addr_err = False, dc_bus_err = False,
      dc_end_stat = False, dc_zero_write = False, dc_burst = False,
      dc_dma_len = 0, dc_dma_src = 0, dc_dma_dst = 0, dc_success_len = 0\<rparr>"

abbreviation flag_bit :: "bool \<Rightarrow> u32 \<Rightarrow> u32" where
  "flag_bit f b \<equiv> (if f then b else 0)"

definition DMACConfig_fetch_word :: "dmac_config \<Rightarrow> u32 \<Rightarrow> u32" where
  "DMACConfig_fetch_word c offset =
     (if offset = DMAC_ENABLE_OFFSET then flag_bit (dc_enabled c) 1
      else if offset = DMAC_INTEN_OFFSET then flag_bit (dc_irq_en c) 1
      else if offset = DMAC_CTRL_OFFSET then flag_bit (dc_abort c) DMAC_ABORT_BIT
      else if offset = DMAC_STATUS_OFFSET then
        flag_bit (dc_busy c) DMAC_BUSY_BIT OR flag_bit (dc_done c) DMAC_DONE_BIT OR
        flag_bit (dc_addr_err c) DMAC_ADRERR_BIT OR flag_bit (dc_bus_err c) DMAC_BUSERR_BIT OR
        flag_bit (dc_end_stat c) DMAC_ESTATE_BIT
      else if offset = DMAC_ATTR_OFFSET then
        flag_bit (dc_zero_write c) DMAC_ZERO_BIT OR flag_bit (dc_burst c) DMAC_BURST_BIT
      else if offset = DMAC_LEN_OFFSET then dc_dma_len c
      else if offset = DMAC_SRC_OFFSET then dc_dma_src c
      else if offset = DMAC_DST_OFFSET then dc_dma_dst c
      else if offset = DMAC_DONELEN_OFFSET then dc_success_len c
      else 0)"

definition DMACConfig_fetch_halfword :: "dmac_config \<Rightarrow> u32 \<Rightarrow> u16" where
  "DMACConfig_fetch_halfword c offset =
     (let word_data =
        (if dc_byteswapped c
         then (if offset mod 4 = 2 then DMACConfig_fetch_word c (offset AND NOT 3) else 0)
         else (if offset mod 4 = 0 then DMACConfig_fetch_word c offset else 0))
      in ucast (word_data AND 0xFFFF))"

definition DMACConfig_fetch_byte :: "dmac_config \<Rightarrow> u32 \<Rightarrow> u8" where
  "DMACConfig_fetch_byte c offset =
     (let word_data =
        (if dc_byteswapped c
         then (if offset mod 4 = 3 then DMACConfig_fetch_word c (offset AND NOT 3) else 0)
         else (if offset mod 4 = 0 then DMACConfig_fetch_word c offset else 0))
      in ucast (word_data AND 0xFF))"

definition DMACConfig_store_word :: "dmac_config \<Rightarrow> u32 \<Rightarrow> u32 \<Rightarrow> dmac_config" where
  "DMACConfig_store_word c offset data =
     (if offset = DMAC_ENABLE_OFFSET then c\<lparr>dc_enabled := data AND DMAC_ENABLED_BIT \<noteq> 0\<rparr>
      else if offset = DMAC_INTEN_OFFSET then c\<lparr>dc_irq_en := data AND DMAC_INTEN_BIT \<noteq> 0\<rparr>
      else if offset = DMAC_CTRL_OFFSET then
        c\<lparr>dc_kicked := (if dc_busy c then dc_kicked c else data AND DMAC_START_BIT \<noteq> 0),
          dc_abort := data AND DMAC_ABORT_BIT \<noteq> 0\<rparr>
      else if offset = DMAC_STATUS_OFFSET then
        c\<lparr>dc_done := (dc_done c \<and> data AND DMAC_DONE_BIT = 0),
          dc_addr_err := (dc_addr_err c \<and> data AND DMAC_ADRERR_BIT = 0),
          dc_bus_err := (dc_bus_err c \<and> data AND DMAC_BUSERR_BIT = 0),
          dc_end_stat := (dc_end_stat c \<and> data AND DMAC_ESTATE_BIT = 0)\<rparr>
      else if offset = DMAC_ATTR_OFFSET then
        c\<lparr>dc_zero_write := data AND DMAC_ZERO_BIT \<noteq> 0, dc_burst := data AND DMAC_BURST_BIT \<noteq> 0\<rparr>
      else if offset = DMAC_LEN_OFFSET then c\<lparr>dc_dma_len := data\<rparr>
      else if offset = DMAC_SRC_OFFSET then c\<lparr>dc_dma_src := data\<rparr>
      else if offset = DMAC_DST_OFFSET then c\<lparr>dc_dma_dst := data\<rparr>
      else if offset = DMAC_DONELEN_OFFSET then c\<lparr>dc_success_len := data\<rparr>
      else c)"

definition DMACConfig_store_halfword :: "dmac_config \<Rightarrow> u32 \<Rightarrow> u16 \<Rightarrow> dmac_config" where
  "DMACConfig_store_halfword c offset data =
     (if dc_byteswapped c
      then (if offset mod 4 = 2 then DMACConfig_store_word c (offset AND NOT 3) (ucast data) else c)
      else (if offset mod 4 = 0 then DMACConfig_store_word c offset (ucast data) else c))"

definition DMACConfig_store_byte :: "dmac_config \<Rightarrow> u32 \<Rightarrow> u8 \<Rightarrow> dmac_config" where
  "DMACConfig_store_byte c offset data =
     (if dc_byteswapped c
      then (if offset mod 4 = 3 then DMACConfig_store_word c (offset AND NOT 3) (ucast data) else c)
      else (if offset mod 4 = 0 then DMACConfig_store_word c offset (ucast data) else c))"

definition getQuery :: "dmac_config \<Rightarrow> dma_query" where
  "getQuery c = \<lparr>q_src = dc_dma_src c, q_dst = dc_dma_dst c, q_len = dc_dma_len c,
                 q_zero_write = dc_zero_write c, q_burst = dc_burst c\<rparr>"

lemmas dmac_config_defs [cube_defs] =
  DMACConfig_reset_def DMACConfig_new_def DMACConfig_fetch_word_def DMACConfig_fetch_halfword_def
  DMACConfig_fetch_byte_def DMACConfig_store_word_def DMACConfig_store_halfword_def
  DMACConfig_store_byte_def getQuery_def

section \<open>What the registers do\<close>

text \<open>
  The value a program reads back after writing a register: plain registers return the word
  written, the flag registers the implemented bits, the status register clears the bits written
  as ones and keeps the busy bit, and the start bit of the control register reads as zero.
\<close>

lemma DMACConfig_read_back:
  "DMACConfig_fetch_word (DMACConfig_store_word c DMAC_ENABLE_OFFSET d) DMAC_ENABLE_OFFSET = d AND 1"
  "DMACConfig_fetch_word (DMACConfig_store_word c DMAC_INTEN_OFFSET d) DMAC_INTEN_OFFSET = d AND 1"
  "DMACConfig_fetch_word (DMACConfig_store_word c DMAC_CTRL_OFFSET d) DMAC_CTRL_OFFSET = d AND 2"
  "DMACConfig_fetch_word (DMACConfig_store_word c DMAC_ATTR_OFFSET d) DMAC_ATTR_OFFSET = d AND 3"
  "DMACConfig_fetch_word (DMACConfig_store_word c DMAC_LEN_OFFSET d) DMAC_LEN_OFFSET = d"
  "DMACConfig_fetch_word (DMACConfig_store_word c DMAC_SRC_OFFSET d) DMAC_SRC_OFFSET = d"
  "DMACConfig_fetch_word (DMACConfig_store_word c DMAC_DST_OFFSET d) DMAC_DST_OFFSET = d"
  unfolding DMACConfig_fetch_word_def DMACConfig_store_word_def
  by (auto simp: bit_blast)

lemma DMACConfig_status_write_one_to_clear:
  "DMACConfig_fetch_word (DMACConfig_store_word c DMAC_STATUS_OFFSET d) DMAC_STATUS_OFFSET =
   DMACConfig_fetch_word c DMAC_STATUS_OFFSET AND NOT (d AND 0x1E)"
  unfolding DMACConfig_fetch_word_def DMACConfig_store_word_def
  by (cases "dc_done c"; cases "dc_addr_err c"; cases "dc_bus_err c"; cases "dc_end_stat c";
      cases "dc_busy c") (auto simp: bit_blast)

end
