(* ===== verification/Mapper.thy ===== *)
theory Mapper
  imports Range_Memory Bus_Arbiter Dmac_Config
begin

unbundle bit_operations_syntax

text \<open>
  \<open>mapper.h\<close> and \<open>mapper.cc\<close>: the physical memory system. The mapper owns the list of ranges,
  dispatches word, halfword and byte accesses to the range that incorporates the address,
  converts between host and target byte order, and models the latency of the bus: an access must
  be requested first and succeeds once \<open>bus_latency\<close> plus the latency of the range have passed.

  A \<open>Range *\<close> is an index into the list of ranges; \<open>range_obj\<close> lists the subclasses of \<open>Range\<close>
  the model knows and the \<open>obj_\<close> functions are their virtual methods. Every operation returns
  \<^const>\<open>None\<close> where the code dereferences the null pointer \<open>find_mapping_range\<close> gave it.
\<close>

section \<open>Range objects\<close>

datatype range_obj =
    PlainRange range_t
  | MemoryModule range_t u32
  | DMACConfig range_t dmac_config

primrec obj_range :: "range_obj \<Rightarrow> range_t" where
  "obj_range (PlainRange r) = r"
| "obj_range (MemoryModule r lat) = r"
| "obj_range (DMACConfig r c) = r"

primrec obj_set_base :: "range_obj \<Rightarrow> u32 \<Rightarrow> range_obj" where
  "obj_set_base (PlainRange r) b = PlainRange (r\<lparr>r_base := b\<rparr>)"
| "obj_set_base (MemoryModule r lat) b = MemoryModule (r\<lparr>r_base := b\<rparr>) lat"
| "obj_set_base (DMACConfig r c) b = DMACConfig (r\<lparr>r_base := b\<rparr>) c"

primrec obj_extra_latency :: "range_obj \<Rightarrow> u32" where
  "obj_extra_latency (PlainRange r) = 0"
| "obj_extra_latency (MemoryModule r lat) = lat"
| "obj_extra_latency (DMACConfig r c) = 0"

definition obj_ready :: "range_obj \<Rightarrow> bool" where
  "obj_ready r = True"

fun obj_fetch_word :: "bool \<Rightarrow> range_obj \<Rightarrow> u32 \<Rightarrow> (u32 \<times> range_obj) option" where
  "obj_fetch_word hb (PlainRange r) off = map_option (apsnd PlainRange) (Range_fetch_word hb r off)"
| "obj_fetch_word hb (MemoryModule r lat) off =
     map_option (apsnd (\<lambda>r. MemoryModule r lat)) (Range_fetch_word hb r off)"
| "obj_fetch_word hb (DMACConfig r c) off = Some (DMACConfig_fetch_word c off, DMACConfig r c)"

fun obj_fetch_halfword :: "bool \<Rightarrow> range_obj \<Rightarrow> u32 \<Rightarrow> (u16 \<times> range_obj) option" where
  "obj_fetch_halfword hb (PlainRange r) off =
     map_option (apsnd PlainRange) (Range_fetch_halfword hb r off)"
| "obj_fetch_halfword hb (MemoryModule r lat) off =
     map_option (apsnd (\<lambda>r. MemoryModule r lat)) (Range_fetch_halfword hb r off)"
| "obj_fetch_halfword hb (DMACConfig r c) off = Some (DMACConfig_fetch_halfword c off, DMACConfig r c)"

fun obj_fetch_byte :: "range_obj \<Rightarrow> u32 \<Rightarrow> (u8 \<times> range_obj) option" where
  "obj_fetch_byte (PlainRange r) off = map_option (apsnd PlainRange) (Range_fetch_byte r off)"
| "obj_fetch_byte (MemoryModule r lat) off =
     map_option (apsnd (\<lambda>r. MemoryModule r lat)) (Range_fetch_byte r off)"
| "obj_fetch_byte (DMACConfig r c) off = Some (DMACConfig_fetch_byte c off, DMACConfig r c)"

fun obj_store_word :: "bool \<Rightarrow> range_obj \<Rightarrow> u32 \<Rightarrow> u32 \<Rightarrow> range_obj option" where
  "obj_store_word hb (PlainRange r) off d = map_option PlainRange (Range_store_word hb r off d)"
| "obj_store_word hb (MemoryModule r lat) off d =
     map_option (\<lambda>r. MemoryModule r lat) (Range_store_word hb r off d)"
| "obj_store_word hb (DMACConfig r c) off d = Some (DMACConfig r (DMACConfig_store_word c off d))"

fun obj_store_halfword :: "bool \<Rightarrow> range_obj \<Rightarrow> u32 \<Rightarrow> u16 \<Rightarrow> range_obj option" where
  "obj_store_halfword hb (PlainRange r) off d =
     map_option PlainRange (Range_store_halfword hb r off d)"
| "obj_store_halfword hb (MemoryModule r lat) off d =
     map_option (\<lambda>r. MemoryModule r lat) (Range_store_halfword hb r off d)"
| "obj_store_halfword hb (DMACConfig r c) off d =
     Some (DMACConfig r (DMACConfig_store_halfword c off d))"

fun obj_store_byte :: "range_obj \<Rightarrow> u32 \<Rightarrow> u8 \<Rightarrow> range_obj option" where
  "obj_store_byte (PlainRange r) off d = map_option PlainRange (Range_store_byte r off d)"
| "obj_store_byte (MemoryModule r lat) off d =
     map_option (\<lambda>r. MemoryModule r lat) (Range_store_byte r off d)"
| "obj_store_byte (DMACConfig r c) off d = Some (DMACConfig r (DMACConfig_store_byte c off d))"

section \<open>The mapper\<close>

record requests_key =
  requested_addr :: u32
  req_mode :: int
  requester :: client

record bus_error_info =
  berr_valid :: bool
  berr_client :: client
  berr_mode :: int
  berr_addr :: u32

record mapper =
  byteswapped :: bool
  host_bigendian :: bool
  opt_bigendian :: bool
  bus_latency :: u32
  access_requests_time :: "requests_key \<Rightarrow> u32 option"
  bus_arbiter :: bus_arbiter
  last_berr_info :: "bus_error_info option"
  last_used_mapping :: "nat option"
  ranges :: "range_obj list"
  debug_mode :: bool

definition Mapper_new :: "bool \<Rightarrow> bool \<Rightarrow> u32 \<Rightarrow> mapper" where
  "Mapper_new opt_big host_big latency =
     \<lparr>byteswapped = (opt_big \<and> \<not> host_big \<or> \<not> opt_big \<and> host_big),
      host_bigendian = host_big, opt_bigendian = opt_big, bus_latency = latency,
      access_requests_time = (\<lambda>k. None), bus_arbiter = BusArbiter_new,
      last_berr_info = None, last_used_mapping = None, ranges = [], debug_mode = False\<rparr>"

definition mem_acquire_bus :: "u32 \<Rightarrow> client \<Rightarrow> mapper \<Rightarrow> bool \<times> mapper" where
  "mem_acquire_bus now c m =
     (let (granted, b) = acquire_bus now c (bus_arbiter m) in (granted, m\<lparr>bus_arbiter := b\<rparr>))"

definition mem_release_bus :: "u32 \<Rightarrow> client \<Rightarrow> mapper \<Rightarrow> mapper" where
  "mem_release_bus now c m = m\<lparr>bus_arbiter := release_bus now c (bus_arbiter m)\<rparr>"

definition request_key :: "u32 \<Rightarrow> int \<Rightarrow> client \<Rightarrow> requests_key" where
  "request_key addr md c = \<lparr>requested_addr = addr, req_mode = md, requester = c\<rparr>"

primrec first_mapping :: "range_obj list \<Rightarrow> u32 \<Rightarrow> nat option" where
  "first_mapping [] p = None"
| "first_mapping (r # rs) p =
     (if incorporates (obj_range r) p then Some 0 else map_option Suc (first_mapping rs p))"

definition find_mapping_range :: "u32 \<Rightarrow> mapper \<Rightarrow> nat option \<times> mapper" where
  "find_mapping_range p m =
     (case last_used_mapping m of
        Some i \<Rightarrow>
          if incorporates (obj_range (ranges m ! i)) p then (Some i, m)
          else (case first_mapping (ranges m) p of
                  Some j \<Rightarrow> (Some j, m\<lparr>last_used_mapping := Some j\<rparr>)
                | None \<Rightarrow> (None, m))
      | None \<Rightarrow>
          (case first_mapping (ranges m) p of
             Some j \<Rightarrow> (Some j, m\<lparr>last_used_mapping := Some j\<rparr>)
           | None \<Rightarrow> (None, m)))"

definition add_range :: "range_obj \<Rightarrow> mapper \<Rightarrow> int \<times> mapper" where
  "add_range r m =
     (if \<exists>x \<in> set (ranges m). overlaps (obj_range r) (obj_range x) then (-1, m)
      else (0, m\<lparr>ranges := ranges m @ [r]\<rparr>))"

definition map_at_physical_address :: "range_obj \<Rightarrow> u32 \<Rightarrow> mapper \<Rightarrow> int \<times> mapper" where
  "map_at_physical_address r pa m = add_range (obj_set_base r pa) m"

definition bus_error :: "client \<Rightarrow> int \<Rightarrow> u32 \<Rightarrow> mapper \<Rightarrow> mapper \<times> exc_info list" where
  "bus_error c md addr m =
     (m\<lparr>last_berr_info := Some \<lparr>berr_valid = True, berr_client = c, berr_mode = md, berr_addr = addr\<rparr>\<rparr>,
      [exc_req (if md = INSTFETCH then Exc_IBE else Exc_DBE) md])"

definition mem_ready :: "u32 \<Rightarrow> u32 \<Rightarrow> int \<Rightarrow> client \<Rightarrow> mapper \<Rightarrow> (bool \<times> mapper) option" where
  "mem_ready now addr md c m =
     (if debug_mode m then Some (True, m)
      else case access_requests_time m (request_key addr md c) of
        None \<Rightarrow> Some (False, m)
      | Some issue_time \<Rightarrow>
          (case find_mapping_range addr m of
             (None, m1) \<Rightarrow> None
           | (Some i, m1) \<Rightarrow>
               let l = ranges m1 ! i;
                   isReady = bus_latency m1 + obj_extra_latency l \<le> now - issue_time
               in Some (if isReady then obj_ready l else False, m1)))"

definition request_word :: "u32 \<Rightarrow> u32 \<Rightarrow> int \<Rightarrow> client \<Rightarrow> mapper \<Rightarrow> mapper" where
  "request_word now addr md c m =
     (case access_requests_time m (request_key addr md c) of
        Some t \<Rightarrow> m
      | None \<Rightarrow> m\<lparr>access_requests_time := (access_requests_time m)(request_key addr md c \<mapsto> now)\<rparr>)"

definition erase_request :: "u32 \<Rightarrow> int \<Rightarrow> client \<Rightarrow> mapper \<Rightarrow> mapper" where
  "erase_request addr md c m =
     m\<lparr>access_requests_time := (access_requests_time m)(request_key addr md c := None)\<rparr>"

section \<open>Byte order\<close>

definition swap_word :: "u32 \<Rightarrow> u32" where
  "swap_word w =
     push_bit 24 (w AND 0x0ff) OR push_bit 16 (drop_bit 8 w AND 0x0ff) OR
     push_bit 8 (drop_bit 16 w AND 0x0ff) OR (drop_bit 24 w AND 0x0ff)"

definition swap_halfword :: "u16 \<Rightarrow> u16" where
  "swap_halfword h = push_bit 8 (h AND 0x0ff) OR (drop_bit 8 h AND 0x0ff)"

definition mips_to_host_word :: "mapper \<Rightarrow> u32 \<Rightarrow> u32" where
  "mips_to_host_word m w = (if byteswapped m then swap_word w else w)"

definition host_to_mips_word :: "mapper \<Rightarrow> u32 \<Rightarrow> u32" where
  "host_to_mips_word m w = (if byteswapped m then swap_word w else w)"

definition mips_to_host_halfword :: "mapper \<Rightarrow> u16 \<Rightarrow> u16" where
  "mips_to_host_halfword m h = (if byteswapped m then swap_halfword h else h)"

definition host_to_mips_halfword :: "mapper \<Rightarrow> u16 \<Rightarrow> u16" where
  "host_to_mips_halfword m h = (if byteswapped m then swap_halfword h else h)"

section \<open>Accesses\<close>

text \<open>
  Each access returns the value (for a load), the mapper and the exception requests sent to the
  client. The order of the checks is the code's: alignment, mapping, permission, readiness.
\<close>

definition mem_fetch_word ::
  "u32 \<Rightarrow> u32 \<Rightarrow> int \<Rightarrow> client \<Rightarrow> mapper \<Rightarrow> (u32 \<times> mapper \<times> exc_info list) option" where
  "mem_fetch_word now addr md c m =
     (if addr mod 4 \<noteq> 0 then Some (0xffffffff, m, [exc_req Exc_AdEL md])
      else case find_mapping_range addr m of
        (None, m1) \<Rightarrow> None
      | (Some i, m1) \<Rightarrow>
          let l = ranges m1 ! i; offset = addr - r_base (obj_range l) in
          if \<not> canRead (obj_range l) then Some (0xffffffff, m1, [])
          else do {
            (isReady, m2) \<leftarrow> mem_ready now addr md c m1;
            if \<not> isReady then
              let (m3, es) = bus_error c md addr m2 in Some (0xffffffff, m3, es)
            else do {
              let m3 = erase_request addr md c m2;
              (w, l') \<leftarrow> obj_fetch_word (host_bigendian m3) l offset;
              Some (host_to_mips_word m3 w, m3\<lparr>ranges := (ranges m3)[i := l']\<rparr>, [])
            }
          })"

definition mem_fetch_halfword ::
  "u32 \<Rightarrow> u32 \<Rightarrow> client \<Rightarrow> mapper \<Rightarrow> (u16 \<times> mapper \<times> exc_info list) option" where
  "mem_fetch_halfword now addr c m =
     (if addr mod 2 \<noteq> 0 then Some (0xffff, m, [exc_req Exc_AdEL DATALOAD])
      else case find_mapping_range addr m of
        (None, m1) \<Rightarrow> None
      | (Some i, m1) \<Rightarrow>
          let l = ranges m1 ! i; offset = addr - r_base (obj_range l) in
          if \<not> canRead (obj_range l) then Some (0xffff, m1, [])
          else do {
            (isReady, m2) \<leftarrow> mem_ready now addr DATALOAD c m1;
            if \<not> isReady then
              let (m3, es) = bus_error c DATALOAD addr m2 in Some (0xffff, m3, es)
            else do {
              let m3 = erase_request addr DATALOAD c m2;
              (h, l') \<leftarrow> obj_fetch_halfword (host_bigendian m3) l offset;
              Some (host_to_mips_halfword m3 h, m3\<lparr>ranges := (ranges m3)[i := l']\<rparr>, [])
            }
          })"

definition mem_fetch_byte ::
  "u32 \<Rightarrow> u32 \<Rightarrow> client \<Rightarrow> mapper \<Rightarrow> (u8 \<times> mapper \<times> exc_info list) option" where
  "mem_fetch_byte now addr c m =
     (case find_mapping_range addr m of
        (None, m1) \<Rightarrow> let (m2, es) = bus_error c DATALOAD addr m1 in Some (0xff, m2, es)
      | (Some i, m1) \<Rightarrow>
          let l = ranges m1 ! i; offset = addr - r_base (obj_range l) in
          if \<not> canRead (obj_range l) then Some (0xff, m1, [])
          else do {
            (isReady, m2) \<leftarrow> mem_ready now addr DATALOAD c m1;
            if \<not> isReady then
              let (m3, es) = bus_error c DATALOAD addr m2 in Some (0xff, m3, es)
            else do {
              let m3 = erase_request addr DATALOAD c m2;
              (b, l') \<leftarrow> obj_fetch_byte l offset;
              Some (b, m3\<lparr>ranges := (ranges m3)[i := l']\<rparr>, [])
            }
          })"

definition mem_store_word ::
  "u32 \<Rightarrow> u32 \<Rightarrow> u32 \<Rightarrow> client \<Rightarrow> mapper \<Rightarrow> (mapper \<times> exc_info list) option" where
  "mem_store_word now addr data c m =
     (if addr mod 4 \<noteq> 0 then Some (m, [exc_req Exc_AdES DATASTORE])
      else case find_mapping_range addr m of
        (None, m1) \<Rightarrow> None
      | (Some i, m1) \<Rightarrow>
          let l = ranges m1 ! i; offset = addr - r_base (obj_range l) in
          if \<not> canWrite (obj_range l) then Some (m1, [])
          else do {
            (isReady, m2) \<leftarrow> mem_ready now addr DATASTORE c m1;
            if \<not> isReady then Some (bus_error c DATASTORE addr m2)
            else do {
              let m3 = erase_request addr DATASTORE c m2;
              l' \<leftarrow> obj_store_word (host_bigendian m3) l offset (mips_to_host_word m3 data);
              Some (m3\<lparr>ranges := (ranges m3)[i := l']\<rparr>, [])
            }
          })"

definition mem_store_halfword ::
  "u32 \<Rightarrow> u32 \<Rightarrow> u16 \<Rightarrow> client \<Rightarrow> mapper \<Rightarrow> (mapper \<times> exc_info list) option" where
  "mem_store_halfword now addr data c m =
     (if addr mod 2 \<noteq> 0 then Some (m, [exc_req Exc_AdES DATASTORE])
      else case find_mapping_range addr m of
        (None, m1) \<Rightarrow> None
      | (Some i, m1) \<Rightarrow>
          let l = ranges m1 ! i; offset = addr - r_base (obj_range l) in
          if \<not> canWrite (obj_range l) then Some (m1, [])
          else do {
            (isReady, m2) \<leftarrow> mem_ready now addr DATASTORE c m1;
            if \<not> isReady then Some (bus_error c DATASTORE addr m2)
            else do {
              let m3 = erase_request addr DATASTORE c m2;
              l' \<leftarrow> obj_store_halfword (host_bigendian m3) l offset (mips_to_host_halfword m3 data);
              Some (m3\<lparr>ranges := (ranges m3)[i := l']\<rparr>, [])
            }
          })"

definition mem_store_byte ::
  "u32 \<Rightarrow> u32 \<Rightarrow> u8 \<Rightarrow> client \<Rightarrow> mapper \<Rightarrow> (mapper \<times> exc_info list) option" where
  "mem_store_byte now addr data c m =
     (case find_mapping_range addr m of
        (None, m1) \<Rightarrow> Some (bus_error c DATASTORE addr m1)
      | (Some i, m1) \<Rightarrow>
          let l = ranges m1 ! i; offset = addr - r_base (obj_range l) in
          if \<not> canWrite (obj_range l) then Some (m1, [])
          else do {
            (isReady, m2) \<leftarrow> mem_ready now addr DATASTORE c m1;
            if \<not> isReady then Some (bus_error c DATASTORE addr m2)
            else do {
              let m3 = erase_request addr DATASTORE c m2;
              l' \<leftarrow> obj_store_byte l offset data;
              Some (m3\<lparr>ranges := (ranges m3)[i := l']\<rparr>, [])
            }
          })"

definition enable_debug_mode :: "mapper \<Rightarrow> mapper" where
  "enable_debug_mode m = m\<lparr>debug_mode := True\<rparr>"

definition disable_debug_mode :: "mapper \<Rightarrow> mapper" where
  "disable_debug_mode m = m\<lparr>debug_mode := False\<rparr>"

lemmas mapper_defs [cube_defs] =
  Mapper_new_def mem_acquire_bus_def mem_release_bus_def request_key_def find_mapping_range_def
  add_range_def map_at_physical_address_def bus_error_def mem_ready_def request_word_def
  erase_request_def obj_ready_def mips_to_host_word_def host_to_mips_word_def
  mips_to_host_halfword_def host_to_mips_halfword_def mem_fetch_word_def mem_fetch_halfword_def
  mem_fetch_byte_def mem_store_word_def mem_store_halfword_def mem_store_byte_def

end
