(* ===== verification/Flat_Memory.thy ===== *)
theory Flat_Memory
  imports Mapper_Facts
begin

unbundle bit_operations_syntax

text \<open>
  The mapper against an abstract memory. \<open>mem_view\<close> maps a physical address to its byte; a word
  load returns the four bytes composed in the byte order of the target and changes nothing, a word
  store changes exactly those four bytes. Both are exact about when an access is served: after
  \<open>request_word\<close> at cycle \<open>t\<close>, from cycle \<open>t + bus_latency + extra_latency\<close> on.
\<close>

section \<open>When an access is served\<close>

definition access_ready :: "u32 \<Rightarrow> u32 \<Rightarrow> int \<Rightarrow> client \<Rightarrow> mapper \<Rightarrow> nat \<Rightarrow> bool" where
  "access_ready now addr md c m i \<longleftrightarrow>
     debug_mode m \<or>
     (case access_requests_time m (request_key addr md c) of
        None \<Rightarrow> False
      | Some t \<Rightarrow> bus_latency m + obj_extra_latency (ranges m ! i) \<le> now - t)"

lemma find_mapping_mapped:
  "mapper_wf m \<Longrightarrow> first_mapping (ranges m) addr = Some i \<Longrightarrow>
   find_mapping_range addr m = (Some i, m\<lparr>last_used_mapping := Some i\<rparr>)"
  by (simp add: find_mapping_range_wf)

lemma mem_ready_mapped:
  assumes "mapper_wf m" "first_mapping (ranges m) addr = Some i"
  shows "\<exists>m'. mem_ready now addr md c m = Some (access_ready now addr md c m i, m') \<and>
              (m' = m \<or> m' = m\<lparr>last_used_mapping := Some i\<rparr>)"
  using find_mapping_mapped [OF assms]
  by (auto simp: mem_ready_def access_ready_def obj_ready_def Let_def split: option.splits)

lemma mem_ready_used:
  assumes "mapper_wf m" "first_mapping (ranges m) addr = Some i"
  shows "mem_ready now addr md c (m\<lparr>last_used_mapping := Some i\<rparr>) =
    Some (access_ready now addr md c m i, m\<lparr>last_used_mapping := Some i\<rparr>)"
proof -
  let ?m = "m\<lparr>last_used_mapping := Some i\<rparr>"
  have "mapper_wf ?m" using assms by simp
  from mem_ready_mapped [OF this, of addr i now md c] assms(2) show ?thesis
    by (auto simp: access_ready_def cong: option.case_cong)
qed

text \<open>
  An access that was requested at cycle \<open>t\<close> and not served yet: readiness is exactly the latency.
\<close>

lemma request_then_ready:
  assumes wf: "mapper_wf m" and mp: "first_mapping (ranges m) addr = Some i"
    and nd: "\<not> debug_mode m" and new: "access_requests_time m (request_key addr md c) = None"
  shows "\<exists>m'. mem_ready now addr md c (request_word t addr md c m) =
    Some (bus_latency m + obj_extra_latency (ranges m ! i) \<le> now - t, m')"
proof -
  let ?m = "request_word t addr md c m"
  have "mapper_wf ?m" "first_mapping (ranges ?m) addr = Some i"
    using wf mp new by (auto simp: request_word_def)
  from mem_ready_mapped [OF this, of now md c] nd new show ?thesis
    by (auto simp: access_ready_def request_word_def)
qed

section \<open>Word loads and stores on the flat memory\<close>

definition view_word :: "mapper \<Rightarrow> u32 \<Rightarrow> u32 option" where
  "view_word m a = do {
     b0 \<leftarrow> mem_view m a;
     b1 \<leftarrow> mem_view m (a + 1);
     b2 \<leftarrow> mem_view m (a + 2);
     b3 \<leftarrow> mem_view m (a + 3);
     Some (word_of_bytes (opt_bigendian m) b0 b1 b2 b3) }"

lemma ram_at_bytes:
  "ram_at m addr i \<Longrightarrow> obj_bytes (ranges m ! i) = Some (r_address (obj_range (ranges m ! i)))"
  by (cases "ranges m ! i") (auto simp: ram_at_def)

lemma mem_view_ram:
  assumes "mapper_wf m" "addr mod 4 = 0" "ram_at m addr i" "k < 4"
  shows "mem_view m (addr + of_nat k) =
    Some (r_address (obj_range (ranges m ! i)) ! (unat (addr - r_base (obj_range (ranges m ! i))) + k))"
  using ram_at_offset [OF assms] ram_at_bytes [OF assms(3)] by (simp add: mem_view_def)

lemma view_word_ram:
  assumes wf: "mapper_wf m" and al: "addr mod 4 = 0" and ram: "ram_at m addr i"
  defines "r \<equiv> obj_range (ranges m ! i)"
  shows "view_word m addr =
    Some (host_to_mips_word m (load32 (host_bigendian m) (r_address r) (unat (addr - r_base r))))"
  using mem_view_ram [OF wf al ram, of 0] mem_view_ram [OF wf al ram, of 1]
    mem_view_ram [OF wf al ram, of 2] mem_view_ram [OF wf al ram, of 3]
  by (simp add: view_word_def r_def load32_def host_to_mips_of_bytes [OF wf])

lemma obj_fetch_word_ram:
  assumes "obj_bytes l \<noteq> None" "unat off mod 4 = 0" "unat off + 4 \<le> length (r_address (obj_range l))"
  shows "\<exists>l'. obj_fetch_word hb l off = Some (load32 hb (r_address (obj_range l)) (unat off), l') \<and>
    same_window l' l \<and> obj_bytes l' = obj_bytes l"
proof -
  have "4 * (unat off div 4) = unat off" using assms(2) by presburger
  with assms show ?thesis
    by (cases l) (auto simp: Range_fetch_word_def same_window_def Let_def mem_range_wf_def)
qed

lemma obj_store_word_ram:
  assumes "obj_bytes l \<noteq> None" "unat off mod 4 = 0" "unat off + 4 \<le> length (r_address (obj_range l))"
  shows "\<exists>l'. obj_store_word hb l off d = Some l' \<and> same_window l' l \<and>
    obj_bytes l' = Some (store32 hb (r_address (obj_range l)) (unat off) d)"
proof -
  have "4 * (unat off div 4) = unat off" using assms(2) by presburger
  with assms show ?thesis
    by (cases l) (auto simp: Range_store_word_def same_window_def Let_def mem_range_wf_def)
qed

lemma mem_view_update:
  assumes "same_window l (ranges m ! i)" "i < length (ranges m)"
  shows "mem_view (m\<lparr>ranges := (ranges m)[i := l]\<rparr>) p =
    (if first_mapping (ranges m) p = Some i
     then map_option (\<lambda>bs. bs ! unat (p - r_base (obj_range (ranges m ! i)))) (obj_bytes l)
     else mem_view m p)"
  using assms
  by (auto simp: mem_view_def first_mapping_update same_window_def split: option.splits)

text \<open>
  What an access to memory leaves alone: the windows, permissions and latencies of the ranges,
  which of them are memory, and the configuration of the mapper.
\<close>

definition same_layout :: "mapper \<Rightarrow> mapper \<Rightarrow> bool" where
  "same_layout a b \<longleftrightarrow>
     list_all2 (\<lambda>x y. same_window x y \<and> (obj_bytes x = None) = (obj_bytes y = None)) (ranges a) (ranges b) \<and>
     opt_bigendian a = opt_bigendian b \<and> host_bigendian a = host_bigendian b \<and>
     bus_latency a = bus_latency b \<and> debug_mode a = debug_mode b \<and> bus_arbiter a = bus_arbiter b"

lemma same_layout_update:
  assumes "i < length (ranges m)" "same_window l (ranges m ! i)"
    "(obj_bytes l = None) = (obj_bytes (ranges m ! i) = None)"
  shows "same_layout (m\<lparr>last_used_mapping := u, access_requests_time := f,
    ranges := (ranges m)[i := l]\<rparr>) m"
  using assms unfolding same_layout_def
  by (auto simp: list_all2_conv_all_nth nth_list_update same_window_def)

lemma same_layout_first_mapping:
  assumes "same_layout a b"
  shows "first_mapping (ranges a) p = first_mapping (ranges b) p"
proof -
  have "list_all2 (\<lambda>x y. same_window x y \<and> (obj_bytes x = None) = (obj_bytes y = None)) (ranges a) (ranges b)"
    using assms by (simp add: same_layout_def)
  then show ?thesis
    by (induction rule: list_all2_induct) (auto simp: same_window_incorporates)
qed

lemma same_layout_nth:
  assumes "same_layout a b" "i < length (ranges b)"
  shows "same_window (ranges a ! i) (ranges b ! i) \<and>
    (obj_bytes (ranges a ! i) = None) = (obj_bytes (ranges b ! i) = None)"
  using assms by (auto simp: same_layout_def list_all2_conv_all_nth)

lemma same_layout_ram_at:
  assumes "same_layout a b"
  shows "ram_at a p i = ram_at b p i"
proof -
  have "obj_bytes (ranges a ! i) = None \<longleftrightarrow> obj_bytes (ranges b ! i) = None"
    if "first_mapping (ranges b) p = Some i"
    using first_mapping_SomeD [OF that] same_layout_nth [OF assms] by blast
  then show ?thesis
    using same_layout_first_mapping [OF assms] by (auto simp: ram_at_def)
qed

lemma same_layout_perms:
  assumes "same_layout a b" "i < length (ranges b)"
  shows "canRead (obj_range (ranges a ! i)) = canRead (obj_range (ranges b ! i))"
    and "canWrite (obj_range (ranges a ! i)) = canWrite (obj_range (ranges b ! i))"
  using same_layout_nth [OF assms] by (auto simp: same_window_def canRead_def canWrite_def)

text \<open>
  An aligned word load of readable memory, once its latency has passed, returns the four bytes of
  the flat memory and changes none of them; the request is consumed and no exception is raised.
\<close>

lemma mem_fetch_word_ram:
  assumes wf: "mapper_wf m" and al: "addr mod 4 = 0" and ram: "ram_at m addr i"
    and rd: "canRead (obj_range (ranges m ! i))" and rdy: "access_ready now addr md c m i"
  shows "\<exists>w m'. mem_fetch_word now addr md c m = Some (w, m', []) \<and> view_word m addr = Some w \<and>
    mem_view m' = mem_view m \<and> mapper_wf m' \<and> same_layout m' m \<and>
    access_requests_time m' = (access_requests_time m)(request_key addr md c := None)"
proof -
  let ?l = "ranges m ! i" and ?off = "addr - r_base (obj_range (ranges m ! i))"
  have mp: "first_mapping (ranges m) addr = Some i" and ob: "obj_bytes ?l \<noteq> None"
    using ram by (simp_all add: ram_at_def)
  have i: "i < length (ranges m)" using first_mapping_SomeD [OF mp] by simp
  obtain l' where l': "obj_fetch_word (host_bigendian m) ?l ?off =
      Some (load32 (host_bigendian m) (r_address (obj_range ?l)) (unat ?off), l')"
    "same_window l' ?l" "obj_bytes l' = obj_bytes ?l"
    using obj_fetch_word_ram [OF ob ram_at_offset(1,2) [OF wf al ram, of 0]] by auto
  let ?m3 = "erase_request addr md c (m\<lparr>last_used_mapping := Some i\<rparr>)"
  let ?m' = "?m3\<lparr>ranges := (ranges m)[i := l']\<rparr>"
  have "mapper_wf ?m3" using wf mp by (simp add: erase_request_def)
  from mapper_wf_update [OF this, of i l'] have wf': "mapper_wf ?m'"
    using i l'(2) by (simp add: erase_request_def)
  have "mem_view ?m' p = mem_view m p" for p
    using mem_view_update [of l' ?m3 i p] l' i
    by (auto simp: erase_request_def mem_view_def split: option.splits)
  moreover have "same_layout ?m' m"
    using same_layout_update [OF i l'(2), where u = "Some i"] l'(3) by (simp add: erase_request_def)
  ultimately show ?thesis
    using wf' al rd rdy l'
    by (auto simp: mem_fetch_word_def find_mapping_mapped [OF wf mp] Let_def fun_eq_iff
        mem_ready_used [OF wf mp] view_word_ram [OF wf al ram] erase_request_def host_to_mips_word_def)
qed

lemma nth_store32:
  "i + 4 \<le> length bs \<Longrightarrow> store32 big bs i d ! j =
     (if i \<le> j \<and> j < i + 4 then word_byte big d (j - i) else bs ! j)"
  by (auto simp: store32_def nth_list_update less_Suc_eq_le dest!: le_Suc_ex split: if_splits)

text \<open>
  An aligned word store to writable memory changes exactly the four bytes at the address, to the
  bytes of the word in the byte order of the target.
\<close>

lemma mem_store_word_ram:
  assumes wf: "mapper_wf m" and al: "addr mod 4 = 0" and ram: "ram_at m addr i"
    and wr: "canWrite (obj_range (ranges m ! i))" and rdy: "access_ready now addr DATASTORE c m i"
  shows "\<exists>m'. mem_store_word now addr d c m = Some (m', []) \<and> mapper_wf m' \<and> same_layout m' m \<and>
    (\<forall>p. mem_view m' p = (if unat (p - addr) < 4
        then Some (word_byte (opt_bigendian m) d (unat (p - addr))) else mem_view m p))"
proof -
  let ?l = "ranges m ! i" and ?off = "addr - r_base (obj_range (ranges m ! i))"
  have mp: "first_mapping (ranges m) addr = Some i" and ob: "obj_bytes ?l \<noteq> None"
    using ram by (simp_all add: ram_at_def)
  have i: "i < length (ranges m)" using first_mapping_SomeD [OF mp] by simp
  note offs = ram_at_offset [OF wf al ram]
  let ?hd = "mips_to_host_word m d"
  obtain l' where l': "obj_store_word (host_bigendian m) ?l ?off ?hd = Some l'" "same_window l' ?l"
    "obj_bytes l' = Some (store32 (host_bigendian m) (r_address (obj_range ?l)) (unat ?off) ?hd)"
    using obj_store_word_ram [OF ob offs(1,2) [of 0]] by auto
  let ?m3 = "erase_request addr DATASTORE c (m\<lparr>last_used_mapping := Some i\<rparr>)"
  let ?m' = "?m3\<lparr>ranges := (ranges m)[i := l']\<rparr>"
  have "mapper_wf ?m3" using wf mp by (simp add: erase_request_def)
  from mapper_wf_update [OF this, of i l'] have wf': "mapper_wf ?m'"
    using i l'(2) by (simp add: erase_request_def)
  have "mem_view ?m' p = (if unat (p - addr) < 4
        then Some (word_byte (opt_bigendian m) d (unat (p - addr))) else mem_view m p)" for p
  proof (cases "unat (p - addr) < 4")
    case True
    then have "p = addr + of_nat (unat (p - addr))" by simp
    with offs(3,4) [OF True] offs(2) [of 0] True mem_view_update [of l' ?m3 i p] l' i show ?thesis
      by (auto simp: erase_request_def nth_store32 mips_to_host_byte [OF wf])
  next
    case False
    let ?q = "p - r_base (obj_range ?l)"
    have "\<not> (unat ?off \<le> unat ?q \<and> unat ?q < unat ?off + 4)"
      using False unat_sub [of ?off ?q] by (auto simp: word_le_nat_alt)
    with False offs(2) [of 0] mem_view_update [of l' ?m3 i p] l' i ob show ?thesis
      by (auto simp: erase_request_def nth_store32 mem_view_def ram_at_bytes [OF ram] split: option.splits)
  qed
  moreover have "same_layout ?m' m"
    using same_layout_update [OF i l'(2), where u = "Some i"] l'(3) ob by (simp add: erase_request_def)
  ultimately show ?thesis
    using wf' al wr rdy l'
    by (auto simp: mem_store_word_def find_mapping_mapped [OF wf mp] Let_def
        mem_ready_used [OF wf mp] erase_request_def mips_to_host_word_def)
qed

section \<open>The memory behind the mapper as a word store\<close>

text \<open>
  With the debug mode on, which is how the program loader and the debugger use the mapper, every
  access is ready at once, and the mapper meets the contract of a word store on the aligned
  addresses of its readable and writable memory.
\<close>

definition ram_ok :: "mapper \<Rightarrow> u32 \<Rightarrow> bool" where
  "ram_ok m a \<longleftrightarrow> mapper_wf m \<and> debug_mode m \<and> a mod 4 = 0 \<and>
     (case first_mapping (ranges m) a of None \<Rightarrow> False
      | Some i \<Rightarrow> ram_at m a i \<and> canRead (obj_range (ranges m ! i)) \<and> canWrite (obj_range (ranges m ! i)))"

definition mem_wr :: "u32 \<Rightarrow> client \<Rightarrow> mapper \<Rightarrow> u32 \<Rightarrow> u32 \<Rightarrow> mapper option" where
  "mem_wr now c m a v = map_option fst (mem_store_word now a v c m)"

definition mem_rd :: "u32 \<Rightarrow> client \<Rightarrow> mapper \<Rightarrow> u32 \<Rightarrow> u32 option" where
  "mem_rd now c m a = map_option fst (mem_fetch_word now a DATALOAD c m)"

lemma ram_ok_layout:
  assumes "same_layout m' m" "mapper_wf m'" "mapper_wf m"
  shows "ram_ok m' a = ram_ok m a"
proof -
  have "debug_mode m' = debug_mode m" using assms(1) by (simp add: same_layout_def)
  with assms(2,3) show ?thesis
    using first_mapping_SomeD [of "ranges m" a]
    by (cases "first_mapping (ranges m) a")
      (simp_all add: ram_ok_def same_layout_first_mapping [OF assms(1)]
        same_layout_ram_at [OF assms(1)] same_layout_perms [OF assms(1)])
qed

lemma mem_rd_ok: "ram_ok m a \<Longrightarrow> mem_rd now c m a = view_word m a \<and> view_word m a \<noteq> None"
  using mem_fetch_word_ram [of m a _ now DATALOAD c]
  by (fastforce simp: ram_ok_def mem_rd_def access_ready_def split: option.splits)

lemma mem_wr_ok:
  assumes "ram_ok m a"
  shows "\<exists>m'. mem_wr now c m a v = Some m' \<and> mapper_wf m' \<and> same_layout m' m \<and>
    (\<forall>p. mem_view m' p = (if unat (p - a) < 4
        then Some (word_byte (opt_bigendian m) v (unat (p - a))) else mem_view m p))"
  using assms mem_store_word_ram [of m a _ now c v]
  by (fastforce simp: ram_ok_def mem_wr_def access_ready_def split: option.splits)

lemma unat_diff_small:
  fixes a b :: u32
  assumes "unat a mod 4 = 0" "unat b mod 4 = 0" "a \<noteq> b" "k < 4"
  shows "\<not> unat (b + of_nat k - a) < 4"
proof
  assume lt: "unat (b + of_nat k - a) < 4"
  then have "b + of_nat k = a + of_nat (unat (b + of_nat k - a))" by simp
  then obtain j where j: "j < 4" "b + of_nat k = a + of_nat j" using lt by blast
  have add: "unat (x + of_nat n) = unat x + n" if "unat x mod 4 = 0" "n < 4" for x :: u32 and n
    using that unsigned_less [of x, where 'a = nat]
    by (auto simp: unat_word_ariths unat_of_nat elim!: dvdE)
  have "unat b + k = unat a + j" using j add assms by metis
  then have "unat b = unat a" using assms j by presburger
  with assms(3) show False by (simp add: word_unat_eq_iff)
qed

lemma view_word_store:
  assumes v: "\<forall>p. mem_view m' p = (if unat (p - a) < 4
        then Some (word_byte big v (unat (p - a))) else mem_view m p)"
    and big: "opt_bigendian m = big" "opt_bigendian m' = big" and al: "a mod 4 = 0" "b mod 4 = 0"
  shows "view_word m' b = (if b = a then Some v else view_word m b)"
proof (cases "b = a")
  case True
  with v big show ?thesis by (simp add: view_word_def)
next
  case False
  have "mem_view m' (b + of_nat k) = mem_view m (b + of_nat k)" if "k < 4" for k
    using unat_diff_small [of a b k] False that al v by (auto simp: mod4_unat)
  from this [of 0] this [of 1] this [of 2] this [of 3] False big show ?thesis
    by (simp add: view_word_def)
qed

interpretation ram_words: word_store "mem_rd now c" "mem_wr now c" ram_ok for now c
proof
  show "ram_ok s a \<Longrightarrow> mem_rd now c s a \<noteq> None" for s a using mem_rd_ok by metis
  show "ram_ok s a \<Longrightarrow> mem_wr now c s a v \<noteq> None" for s a v using mem_wr_ok by fastforce
  fix s a v s' b
  assume st: "mem_wr now c s a v = Some s'" and oa: "ram_ok s a"
  have w: "mapper_wf s'" "same_layout s' s" "\<forall>p. mem_view s' p = (if unat (p - a) < 4
        then Some (word_byte (opt_bigendian s) v (unat (p - a))) else mem_view s p)"
    using mem_wr_ok [OF oa, of now c v] st by auto
  then show ok: "ram_ok s' b = ram_ok s b"
    using oa by (intro ram_ok_layout) (auto simp: ram_ok_def)
  assume ob: "ram_ok s b"
  have "view_word s' b = (if b = a then Some v else view_word s b)"
    using w oa ob by (intro view_word_store) (auto simp: ram_ok_def same_layout_def)
  then show "mem_rd now c s' b = (if b = a then Some v else mem_rd now c s b)"
    using mem_rd_ok [of s' b] mem_rd_ok [OF ob] ok ob by simp
qed

section \<open>Refused accesses\<close>

lemma mem_fetch_word_unready:
  assumes wf: "mapper_wf m" and al: "addr mod 4 = 0" and mp: "first_mapping (ranges m) addr = Some i"
    and rd: "canRead (obj_range (ranges m ! i))" and nr: "\<not> access_ready now addr md c m i"
  shows "\<exists>m'. mem_fetch_word now addr md c m =
      Some (0xffffffff, m', [exc_req (if md = INSTFETCH then Exc_IBE else Exc_DBE) md]) \<and>
    mem_view m' = mem_view m"
  using al rd nr
  by (auto simp: mem_fetch_word_def find_mapping_mapped [OF wf mp] Let_def
        mem_ready_used [OF wf mp] bus_error_def mem_view_def fun_eq_iff cong: option.case_cong)

lemma mem_access_unmapped:
  assumes wf: "mapper_wf m" and al: "addr mod 4 = 0" and mp: "first_mapping (ranges m) addr = None"
  shows "mem_fetch_word now addr md c m = None" "mem_store_word now addr d c m = None"
    "\<exists>m'. mem_fetch_byte now addr c m = Some (0xff, m', [exc_req Exc_DBE DATALOAD])"
  using al
  by (simp_all add: mem_fetch_word_def mem_store_word_def mem_fetch_byte_def bus_error_def
      find_mapping_range_wf [OF wf] mp)

interpretation mapper_bus: bus_grant mem_acquire_bus mem_release_bus "bus_holder \<circ> bus_arbiter"
  by unfold_locales
    (auto simp: mem_acquire_bus_def mem_release_bus_def acquire_bus_def release_bus_def split: if_splits)

end
