(* ===== verification/Int_Ctrl.thy ===== *)
theory Int_Ctrl
  imports Prelude
begin

unbundle bit_operations_syntax

text \<open>
  \<open>deviceint.h\<close>, \<open>deviceint.cc\<close>, \<open>intctrl.h\<close> and \<open>intctrl.cc\<close>: devices that raise hardware
  interrupts and the controller that collects their lines. The controller keeps a list of device
  pointers; here a device is a number and \<open>ic_devices\<close> is the store of the device objects.
  The \<open>report\<close> routines only print and are left out.
\<close>

abbreviation (input) IRQ7 :: u32 where "IRQ7 \<equiv> 0x8000"
abbreviation (input) IRQ6 :: u32 where "IRQ6 \<equiv> 0x4000"
abbreviation (input) IRQ5 :: u32 where "IRQ5 \<equiv> 0x2000"
abbreviation (input) IRQ4 :: u32 where "IRQ4 \<equiv> 0x1000"
abbreviation (input) IRQ3 :: u32 where "IRQ3 \<equiv> 0x0800"
abbreviation (input) IRQ2 :: u32 where "IRQ2 \<equiv> 0x0400"
abbreviation (input) IRQ1 :: u32 where "IRQ1 \<equiv> 0x0200"
abbreviation (input) IRQ0 :: u32 where "IRQ0 \<equiv> 0x0100"

record device_int =
  lines_connected :: u32
  lines_asserted :: u32

definition DeviceInt_new :: device_int where
  "DeviceInt_new = \<lparr>lines_connected = 0, lines_asserted = 0\<rparr>"

definition num2irq :: "u32 \<Rightarrow> u32" where
  "num2irq num =
     (if num = 0 then IRQ0 else if num = 1 then IRQ1 else if num = 2 then IRQ2
      else if num = 3 then IRQ3 else if num = 4 then IRQ4 else if num = 5 then IRQ5
      else if num = 6 then IRQ6 else if num = 7 then IRQ7 else 0)"

definition assertInt :: "u32 \<Rightarrow> device_int \<Rightarrow> device_int" where
  "assertInt line d =
     (if line AND lines_connected d \<noteq> 0 then d\<lparr>lines_asserted := lines_asserted d OR line\<rparr> else d)"

definition deassertInt :: "u32 \<Rightarrow> device_int \<Rightarrow> device_int" where
  "deassertInt line d =
     (if line AND lines_connected d \<noteq> 0 then d\<lparr>lines_asserted := lines_asserted d AND NOT line\<rparr> else d)"

record int_ctrl =
  ic_devs :: "nat list"
  ic_devices :: "nat \<Rightarrow> device_int"

definition calculateIP :: "int_ctrl \<Rightarrow> u32" where
  "calculateIP ic = foldl (\<lambda>IP i. IP OR lines_asserted (ic_devices ic i)) 0 (ic_devs ic)"

definition connectLine :: "u32 \<Rightarrow> nat \<Rightarrow> int_ctrl \<Rightarrow> int_ctrl" where
  "connectLine line dev ic =
     (let d = ic_devices ic dev;
          ic1 = ic\<lparr>ic_devices := (ic_devices ic)(dev := d\<lparr>lines_connected := lines_connected d OR line\<rparr>)\<rparr>
      in if dev \<in> set (ic_devs ic1) then ic1 else ic1\<lparr>ic_devs := ic_devs ic1 @ [dev]\<rparr>)"

text \<open>A device drives its lines through its own object.\<close>

definition dev_assert :: "u32 \<Rightarrow> nat \<Rightarrow> int_ctrl \<Rightarrow> int_ctrl" where
  "dev_assert line dev ic = ic\<lparr>ic_devices := (ic_devices ic)(dev := assertInt line (ic_devices ic dev))\<rparr>"

definition dev_deassert :: "u32 \<Rightarrow> nat \<Rightarrow> int_ctrl \<Rightarrow> int_ctrl" where
  "dev_deassert line dev ic = ic\<lparr>ic_devices := (ic_devices ic)(dev := deassertInt line (ic_devices ic dev))\<rparr>"

lemmas int_ctrl_defs [cube_defs] =
  DeviceInt_new_def num2irq_def assertInt_def deassertInt_def calculateIP_def connectLine_def
  dev_assert_def dev_deassert_def

section \<open>What the controller reports\<close>

lemma bit_foldl_or:
  "bit (foldl (\<lambda>w i. w OR f i) (a :: u32) is) n \<longleftrightarrow> bit a n \<or> (\<exists>i \<in> set is. bit (f i) n)"
  by (induction "is" arbitrary: a) (auto simp: bit_or_iff)

text \<open>A pending bit is set exactly when some connected device asserts that line.\<close>

lemma bit_calculateIP:
  "bit (calculateIP ic) n \<longleftrightarrow> (\<exists>i \<in> set (ic_devs ic). bit (lines_asserted (ic_devices ic i)) n)"
  by (simp add: calculateIP_def bit_foldl_or)

text \<open>
  Invariant: a device only asserts lines it is connected to, and every device with a connected
  line is known to the controller.
\<close>

definition int_ctrl_wf :: "int_ctrl \<Rightarrow> bool" where
  "int_ctrl_wf ic \<longleftrightarrow>
     (\<forall>i. lines_asserted (ic_devices ic i) AND NOT (lines_connected (ic_devices ic i)) = 0 \<and>
          (lines_connected (ic_devices ic i) \<noteq> 0 \<longrightarrow> i \<in> set (ic_devs ic))) \<and> distinct (ic_devs ic)"

lemma single_bit_and: "(2 ^ k :: u32) AND c \<noteq> 0 \<longleftrightarrow> bit c k"
  using word_and_mask_nonzero [of c k] by (simp add: and.commute)

lemma or_line_connected:
  fixes a c :: u32
  assumes "a AND NOT c = 0" "bit c k"
  shows "(a OR 2 ^ k) AND NOT c = 0"
  using assms by (auto simp: and_zero_iff_bits bit_simps)

lemma assert_keeps_wf:
  "int_ctrl_wf ic \<Longrightarrow> int_ctrl_wf (dev_assert (2 ^ k) dev ic)"
  by (auto simp: int_ctrl_wf_def dev_assert_def assertInt_def single_bit_and or_line_connected)

lemma deassert_keeps_wf:
  "int_ctrl_wf ic \<Longrightarrow> int_ctrl_wf (dev_deassert line dev ic)"
  by (auto simp: int_ctrl_wf_def dev_deassert_def deassertInt_def and_zero_iff_bits bit_simps)

lemma connect_keeps_wf:
  "int_ctrl_wf ic \<Longrightarrow> int_ctrl_wf (connectLine line dev ic)"
  by (auto simp: int_ctrl_wf_def connectLine_def Let_def and_zero_iff_bits bit_simps)

text \<open>
  A shared line stays pending until every device that asserts it has deasserted it: dropping the
  line of one device leaves exactly the lines the others assert.
\<close>

lemma bit_calculateIP_deassert:
  assumes "int_ctrl_wf ic"
  shows "bit (calculateIP (dev_deassert (2 ^ k) dev ic)) k \<longleftrightarrow>
    (\<exists>i \<in> set (ic_devs ic). i \<noteq> dev \<and> bit (lines_asserted (ic_devices ic i)) k)"
proof -
  have "bit (lines_connected (ic_devices ic dev)) k" if "bit (lines_asserted (ic_devices ic dev)) k"
    using assms that bit_imp_le_length [OF that]
    by (auto simp: int_ctrl_wf_def and_zero_iff_bits bit_simps)
  then show ?thesis
    by (auto simp: bit_calculateIP dev_deassert_def deassertInt_def single_bit_and bit_simps)
qed

lemma bit_calculateIP_assert:
  assumes "int_ctrl_wf ic" "bit (lines_connected (ic_devices ic dev)) k"
  shows "bit (calculateIP (dev_assert (2 ^ k) dev ic)) k"
proof -
  have "lines_connected (ic_devices ic dev) \<noteq> 0" "k < 32"
    using assms(2) bit_imp_le_length [OF assms(2)] by auto
  with assms show ?thesis
    by (auto simp: bit_calculateIP dev_assert_def assertInt_def single_bit_and bit_simps int_ctrl_wf_def
        intro!: bexI [of _ dev])
qed

end
