(* ===== verification/CPZero.thy ===== *)
theory CPZero
  imports Int_Ctrl "HOL-Library.Signed_Division"
begin

unbundle bit_operations_syntax

text \<open>
  \<open>cpzero.h\<close>, \<open>cpzero.cc\<close>, \<open>cpzeroreg.h\<close> and \<open>tlbentry.h\<close>: the system control coprocessor of
  the R3000. It holds the 32 control registers and the 64-entry TLB, translates virtual addresses,
  and saves and restores the processor mode around an exception.

  \<open>hwip\<close> is the value of \<open>intc->calculateIP()\<close> (zero without a controller, theory \<open>Int_Ctrl\<close>).
  \<open>address_trans\<close> returns the physical address, the value written through the pointer
  \<open>cacheable\<close> (\<^const>\<open>None\<close> when it is not written), the coprocessor and the exception requests.
  The instructions that also touch the processor (\<open>mfc0\<close>, \<open>mtc0\<close>, \<open>bc0\<close>) are dispatched in the
  theory of the processor.
\<close>

section \<open>Registers and masks (cpzeroreg.h)\<close>

abbreviation (input) KSEG_SELECT_MASK :: u32 where "KSEG_SELECT_MASK \<equiv> 0xe0000000"
abbreviation (input) KUSEG :: u32 where "KUSEG \<equiv> 0"
abbreviation (input) KERNEL_SPACE_MASK :: u32 where "KERNEL_SPACE_MASK \<equiv> 0x80000000"
abbreviation (input) KSEG0 :: u32 where "KSEG0 \<equiv> 0x80000000"
abbreviation (input) KSEG0_CONST_TRANSLATION :: u32 where "KSEG0_CONST_TRANSLATION \<equiv> 0x80000000"
abbreviation (input) KSEG1 :: u32 where "KSEG1 \<equiv> 0xa0000000"
abbreviation (input) KSEG1_CONST_TRANSLATION :: u32 where "KSEG1_CONST_TRANSLATION \<equiv> 0xa0000000"
abbreviation (input) KSEG2 :: u32 where "KSEG2 \<equiv> 0xc0000000"
abbreviation (input) KSEG2_top :: u32 where "KSEG2_top \<equiv> 0xe0000000"

abbreviation (input) cp_Index :: nat where "cp_Index \<equiv> 0"
abbreviation (input) cp_Random :: nat where "cp_Random \<equiv> 1"
abbreviation (input) cp_EntryLo :: nat where "cp_EntryLo \<equiv> 2"
abbreviation (input) cp_Context :: nat where "cp_Context \<equiv> 4"
abbreviation (input) cp_BadVAddr :: nat where "cp_BadVAddr \<equiv> 8"
abbreviation (input) cp_EntryHi :: nat where "cp_EntryHi \<equiv> 10"
abbreviation (input) cp_Status :: nat where "cp_Status \<equiv> 12"
abbreviation (input) cp_Cause :: nat where "cp_Cause \<equiv> 13"
abbreviation (input) cp_EPC :: nat where "cp_EPC \<equiv> 14"
abbreviation (input) cp_PRId :: nat where "cp_PRId \<equiv> 15"
abbreviation (input) cp_CPUID :: nat where "cp_CPUID \<equiv> 20"

abbreviation (input) Index_MASK :: u32 where "Index_MASK \<equiv> 0x80003f00"
abbreviation (input) Index_Index_MASK :: u32 where "Index_Index_MASK \<equiv> 0x00003f00"
abbreviation (input) Random_MASK :: u32 where "Random_MASK \<equiv> 0x00003f00"
abbreviation (input) Random_Random_MASK :: u32 where "Random_Random_MASK \<equiv> 0x00003f00"
abbreviation (input) Random_UPPER_BOUND :: int where "Random_UPPER_BOUND \<equiv> 63"
abbreviation (input) Random_LOWER_BOUND :: int where "Random_LOWER_BOUND \<equiv> 8"
abbreviation (input) EntryLo_PFN_MASK :: u32 where "EntryLo_PFN_MASK \<equiv> 0xfffff000"
abbreviation (input) EntryLo_N_MASK :: u32 where "EntryLo_N_MASK \<equiv> 0x800"
abbreviation (input) EntryLo_D_MASK :: u32 where "EntryLo_D_MASK \<equiv> 0x400"
abbreviation (input) EntryLo_V_MASK :: u32 where "EntryLo_V_MASK \<equiv> 0x200"
abbreviation (input) EntryLo_G_MASK :: u32 where "EntryLo_G_MASK \<equiv> 0x100"
abbreviation (input) EntryLo_MASK :: u32 where "EntryLo_MASK \<equiv> 0xffffff00"
abbreviation (input) Context_BadVPN_MASK :: u32 where "Context_BadVPN_MASK \<equiv> 0x001ffffc"
abbreviation (input) Context_MASK :: u32 where "Context_MASK \<equiv> 0xfffffffc"
abbreviation (input) EntryHi_VPN_MASK :: u32 where "EntryHi_VPN_MASK \<equiv> 0xfffff000"
abbreviation (input) EntryHi_ASID_MASK :: u32 where "EntryHi_ASID_MASK \<equiv> 0xfc0"
abbreviation (input) EntryHi_MASK :: u32 where "EntryHi_MASK \<equiv> 0xffffffc0"
abbreviation (input) Status_CU3_MASK :: u32 where "Status_CU3_MASK \<equiv> 0x80000000"
abbreviation (input) Status_CU2_MASK :: u32 where "Status_CU2_MASK \<equiv> 0x40000000"
abbreviation (input) Status_CU1_MASK :: u32 where "Status_CU1_MASK \<equiv> 0x20000000"
abbreviation (input) Status_CU0_MASK :: u32 where "Status_CU0_MASK \<equiv> 0x10000000"
abbreviation (input) Status_DS_BEV_MASK :: u32 where "Status_DS_BEV_MASK \<equiv> 0x00400000"
abbreviation (input) Status_DS_TS_MASK :: u32 where "Status_DS_TS_MASK \<equiv> 0x00200000"
abbreviation (input) Status_DS_SwC_MASK :: u32 where "Status_DS_SwC_MASK \<equiv> 0x00020000"
abbreviation (input) Status_DS_IsC_MASK :: u32 where "Status_DS_IsC_MASK \<equiv> 0x00010000"
abbreviation (input) Status_IM_MASK :: u32 where "Status_IM_MASK \<equiv> 0xff00"
abbreviation (input) Status_KU_IE_MASK :: u32 where "Status_KU_IE_MASK \<equiv> 0x3f"
abbreviation (input) Status_KUc_MASK :: u32 where "Status_KUc_MASK \<equiv> 0x2"
abbreviation (input) Status_IEc_MASK :: u32 where "Status_IEc_MASK \<equiv> 0x1"
abbreviation (input) Status_MASK :: u32 where "Status_MASK \<equiv> 0xf27fff3f"
abbreviation (input) Cause_BD_MASK :: u32 where "Cause_BD_MASK \<equiv> 0x80000000"
abbreviation (input) Cause_CE_MASK :: u32 where "Cause_CE_MASK \<equiv> 0x30000000"
abbreviation (input) Cause_IP_MASK :: u32 where "Cause_IP_MASK \<equiv> 0xff00"
abbreviation (input) Cause_IP_Ext_MASK :: u32 where "Cause_IP_Ext_MASK \<equiv> 0xfc00"
abbreviation (input) Cause_IP_SW_MASK :: u32 where "Cause_IP_SW_MASK \<equiv> 0x300"
abbreviation (input) Cause_ExcCode_MASK :: u32 where "Cause_ExcCode_MASK \<equiv> 0x7c"
abbreviation (input) Cause_MASK :: u32 where "Cause_MASK \<equiv> 0xb000ff7c"

definition read_masks :: "u32 list" where
  "read_masks =
     [Index_MASK, Random_MASK, EntryLo_MASK, 0, Context_MASK,
      0, 0, 0, 0xffffffff, 0,
      EntryHi_MASK, 0, Status_MASK, Cause_MASK, 0xffffffff,
      0xffff, 0, 0, 0, 0,
      0xffffffff, 0, 0, 0, 0, 0, 0, 0, 0, 0,
      0, 0]"

definition write_masks :: "u32 list" where
  "write_masks =
     [Index_MASK, 0, EntryLo_MASK, 0, Context_MASK AND NOT Context_BadVPN_MASK,
      0, 0, 0, 0, 0,
      EntryHi_MASK, 0, Status_MASK,
      Cause_MASK AND NOT Cause_IP_Ext_MASK, 0, 0, 0, 0,
      0, 0, 0, 0, 0, 0, 0, 0, 0,
      0, 0, 0, 0, 0]"

section \<open>TLB entries (tlbentry.h)\<close>

record tlb_entry =
  entryHi :: u32
  entryLo :: u32

definition tlb_vpn :: "tlb_entry \<Rightarrow> u32" where "tlb_vpn e = entryHi e AND EntryHi_VPN_MASK"
definition tlb_asid :: "tlb_entry \<Rightarrow> u32" where "tlb_asid e = entryHi e AND EntryHi_ASID_MASK"
definition tlb_pfn :: "tlb_entry \<Rightarrow> u32" where "tlb_pfn e = entryLo e AND EntryLo_PFN_MASK"
definition tlb_noncacheable :: "tlb_entry \<Rightarrow> bool" where
  "tlb_noncacheable e \<longleftrightarrow> entryLo e AND EntryLo_N_MASK \<noteq> 0"
definition tlb_dirty :: "tlb_entry \<Rightarrow> bool" where
  "tlb_dirty e \<longleftrightarrow> entryLo e AND EntryLo_D_MASK \<noteq> 0"
definition tlb_valid :: "tlb_entry \<Rightarrow> bool" where
  "tlb_valid e \<longleftrightarrow> entryLo e AND EntryLo_V_MASK \<noteq> 0"
definition tlb_global :: "tlb_entry \<Rightarrow> bool" where
  "tlb_global e \<longleftrightarrow> entryLo e AND EntryLo_G_MASK \<noteq> 0"

section \<open>The coprocessor (cpzero.cc)\<close>

record cpzero =
  tlb :: "tlb_entry list"
  cp_reg :: "u32 list"
  cp_cpuid :: u32
  tlb_miss_user :: bool

abbreviation cpr :: "cpzero \<Rightarrow> nat \<Rightarrow> u32" where "cpr c r \<equiv> cp_reg c ! r"

definition set_cpr :: "nat \<Rightarrow> u32 \<Rightarrow> cpzero \<Rightarrow> cpzero" where
  "set_cpr r v c = c\<lparr>cp_reg := (cp_reg c)[r := v]\<rparr>"

definition CPZero_reset :: "cpzero \<Rightarrow> cpzero" where
  "CPZero_reset c0 =
     (let c1 = set_cpr cp_Cause (cpr c0 cp_Cause AND NOT Cause_IP_MASK) c0;
          c2 = set_cpr cp_Random (push_bit 8 (word_of_int Random_UPPER_BOUND)) c1;
          c3 = set_cpr cp_Status ((cpr c2 cp_Status OR Status_DS_BEV_MASK) AND
                 NOT (Status_KUc_MASK OR Status_IEc_MASK OR Status_DS_SwC_MASK OR Status_DS_TS_MASK)) c2;
          c4 = set_cpr cp_PRId 0x230 c3
      in set_cpr cp_CPUID (cp_cpuid c4) c4)"

definition kernel_mode :: "cpzero \<Rightarrow> bool" where
  "kernel_mode c \<longleftrightarrow> cpr c cp_Status AND Status_KUc_MASK = 0"

definition load_addr_trans_excp_info :: "u32 \<Rightarrow> cpzero \<Rightarrow> cpzero" where
  "load_addr_trans_excp_info va c =
     (let c1 = set_cpr cp_BadVAddr va c;
          c2 = set_cpr cp_Context ((cpr c1 cp_Context AND NOT Context_BadVPN_MASK) OR
                 drop_bit 10 (va AND 0x7ffff000)) c1
      in set_cpr cp_EntryHi ((va AND EntryHi_VPN_MASK) OR (cpr c2 cp_EntryHi AND NOT EntryHi_VPN_MASK)) c2)"

primrec find_matching :: "tlb_entry list \<Rightarrow> u32 \<Rightarrow> u32 \<Rightarrow> nat option" where
  "find_matching [] vpn asid = None"
| "find_matching (e # es) vpn asid =
     (if tlb_vpn e = vpn \<and> (tlb_global e \<or> tlb_asid e = asid) then Some 0
      else map_option Suc (find_matching es vpn asid))"

definition find_matching_tlb_entry :: "cpzero \<Rightarrow> u32 \<Rightarrow> u32 \<Rightarrow> nat option" where
  "find_matching_tlb_entry c vpn asid = find_matching (tlb c) vpn asid"

definition tlb_translate ::
  "u32 \<Rightarrow> u32 \<Rightarrow> int \<Rightarrow> cpzero \<Rightarrow> u32 \<times> bool option \<times> cpzero \<times> exc_info list" where
  "tlb_translate seg vaddr md c =
     (let asid = cpr c cp_EntryHi AND EntryHi_ASID_MASK;
          vpn = vaddr AND EntryHi_VPN_MASK;
          index = find_matching_tlb_entry c vpn asid;
          c1 = c\<lparr>tlb_miss_user := False\<rparr>;
          miss = (\<lambda>nomatch.
            let c2 = load_addr_trans_excp_info vaddr (c1\<lparr>tlb_miss_user := (seg = KUSEG \<and> nomatch)\<rparr>)
            in (0xffffffff, None, c2, [exc_req (if md = DATASTORE then Exc_TLBS else Exc_TLBL) md]))
      in case index of
           None \<Rightarrow> miss True
         | Some i \<Rightarrow>
             let match = tlb c ! i in
             if tlb_valid match then
               if md = DATASTORE \<and> \<not> tlb_dirty match then
                 (0xffffffff, None, load_addr_trans_excp_info vaddr c1, [exc_req Exc_Mod DATASTORE])
               else
                 (tlb_pfn match OR (vaddr AND NOT EntryHi_VPN_MASK), Some (\<not> tlb_noncacheable match), c1, [])
             else miss False)"

definition address_trans ::
  "u32 \<Rightarrow> int \<Rightarrow> cpzero \<Rightarrow> u32 \<times> bool option \<times> cpzero \<times> exc_info list" where
  "address_trans vaddr md c =
     (if kernel_mode c then
        (let seg = vaddr AND KSEG_SELECT_MASK in
         if seg = KSEG0 then (vaddr, Some True, c, [])
         else if seg = KSEG1 then (vaddr, Some False, c, [])
         else if seg = KSEG2 \<or> seg = KSEG2_top then tlb_translate KSEG2 vaddr md c
         else tlb_translate KUSEG vaddr md c)
      else if vaddr AND KERNEL_SPACE_MASK \<noteq> 0 then
        (0xffffffff, None, c, [exc_req (if md = DATASTORE then Exc_AdES else Exc_AdEL) md])
      else tlb_translate KUSEG vaddr md c)"

definition getIP :: "u32 \<Rightarrow> cpzero \<Rightarrow> u32" where
  "getIP hwip c = (cpr c cp_Cause AND Cause_IP_SW_MASK) OR hwip"

definition read_reg :: "u32 \<Rightarrow> nat \<Rightarrow> cpzero \<Rightarrow> u32 \<times> cpzero" where
  "read_reg hwip r c =
     (let c1 = (if r = cp_Cause
                then set_cpr cp_Cause ((cpr c cp_Cause AND NOT Cause_IP_MASK) OR getIP hwip c) c
                else c)
      in (cpr c1 r AND read_masks ! r, c1))"

definition write_reg :: "nat \<Rightarrow> u32 \<Rightarrow> cpzero \<Rightarrow> cpzero" where
  "write_reg r data c =
     set_cpr r ((cpr c r AND (read_masks ! r AND NOT (write_masks ! r))) OR (data AND write_masks ! r)) c"

definition tlb_index :: "cpzero \<Rightarrow> nat" where
  "tlb_index c = unat (drop_bit 8 (cpr c cp_Index AND Index_Index_MASK))"

definition tlbr_emulate :: "cpzero \<Rightarrow> cpzero" where
  "tlbr_emulate c =
     (let c1 = set_cpr cp_EntryHi (entryHi (tlb c ! tlb_index c) AND write_masks ! cp_EntryHi) c
      in set_cpr cp_EntryLo (entryLo (tlb c1 ! tlb_index c1) AND write_masks ! cp_EntryLo) c1)"

definition tlb_write :: "u32 \<Rightarrow> nat \<Rightarrow> cpzero \<Rightarrow> cpzero" where
  "tlb_write hwip index c =
     (let (hi, c1) = read_reg hwip cp_EntryHi c;
          c2 = c1\<lparr>tlb := (tlb c1)[index := (tlb c1 ! index)\<lparr>entryHi := hi\<rparr>]\<rparr>;
          (lo, c3) = read_reg hwip cp_EntryLo c2
      in c3\<lparr>tlb := (tlb c3)[index := (tlb c3 ! index)\<lparr>entryLo := lo\<rparr>]\<rparr>)"

definition tlbwi_emulate :: "u32 \<Rightarrow> cpzero \<Rightarrow> cpzero" where
  "tlbwi_emulate hwip c = tlb_write hwip (tlb_index c) c"

definition tlbwr_emulate :: "u32 \<Rightarrow> cpzero \<Rightarrow> cpzero" where
  "tlbwr_emulate hwip c = tlb_write hwip (unat (drop_bit 8 (cpr c cp_Random AND Random_Random_MASK))) c"

definition tlbp_emulate :: "cpzero \<Rightarrow> cpzero" where
  "tlbp_emulate c =
     (let vpn = cpr c cp_EntryHi AND EntryHi_VPN_MASK;
          asid = cpr c cp_EntryHi AND EntryHi_ASID_MASK
      in case find_matching_tlb_entry c vpn asid of
           Some idx \<Rightarrow> set_cpr cp_Index (push_bit 8 (of_nat idx)) c
         | None \<Rightarrow> set_cpr cp_Index (push_bit 31 1) c)"

definition rfe_emulate :: "cpzero \<Rightarrow> cpzero" where
  "rfe_emulate c =
     set_cpr cp_Status ((cpr c cp_Status AND 0xfffffff0) OR (drop_bit 2 (cpr c cp_Status) AND 0x0f)) c"

text \<open>
  \<open>int32\<close> arithmetic; the register is shifted right by eight first, so \<open>r\<close> is below \<open>2 ^ 24\<close> and
  no step overflows. The remainder of C is the one of \<^const>\<open>signed_modulo\<close>.
\<close>

definition adjust_random :: "cpzero \<Rightarrow> cpzero" where
  "adjust_random c =
     (let r = sint (drop_bit 8 (cpr c cp_Random));
          r' = - (((Random_UPPER_BOUND - r + 1) smod (Random_UPPER_BOUND - Random_LOWER_BOUND + 1))
                  - Random_UPPER_BOUND)
      in set_cpr cp_Random (push_bit 8 (word_of_int r')) c)"

definition enter_exception :: "u32 \<Rightarrow> u32 \<Rightarrow> u32 \<Rightarrow> u32 \<Rightarrow> bool \<Rightarrow> cpzero \<Rightarrow> cpzero" where
  "enter_exception hwip pc code ce dly c =
     (let c1 = set_cpr cp_EPC pc c;
          st = cpr c1 cp_Status;
          c2 = set_cpr cp_Status ((st AND NOT Status_KU_IE_MASK) OR push_bit 2 (st AND Status_KU_IE_MASK)) c1;
          c3 = set_cpr cp_Cause (cpr c2 cp_Cause AND
                 NOT (Cause_BD_MASK OR Cause_CE_MASK OR Cause_ExcCode_MASK)) c2;
          c4 = (if code = word_of_int Exc_CpU
                then set_cpr cp_Cause (cpr c3 cp_Cause OR push_bit 28 (ce AND 0x3)) c3 else c3);
          c5 = set_cpr cp_Cause (cpr c4 cp_Cause AND NOT Cause_IP_MASK) c4
      in set_cpr cp_Cause (cpr c5 cp_Cause OR
           (getIP hwip c5 OR push_bit 31 (of_bool dly) OR push_bit 2 code)) c5)"

definition use_boot_excp_address :: "cpzero \<Rightarrow> bool" where
  "use_boot_excp_address c \<longleftrightarrow> cpr c cp_Status AND Status_DS_BEV_MASK \<noteq> 0"

definition caches_isolated :: "cpzero \<Rightarrow> bool" where
  "caches_isolated c \<longleftrightarrow> cpr c cp_Status AND Status_DS_IsC_MASK \<noteq> 0"

definition caches_swapped :: "cpzero \<Rightarrow> bool" where
  "caches_swapped c \<longleftrightarrow> cpr c cp_Status AND Status_DS_SwC_MASK \<noteq> 0"

definition cop_usable :: "int \<Rightarrow> cpzero \<Rightarrow> bool option" where
  "cop_usable n c =
     (if n = 3 then Some (cpr c cp_Status AND Status_CU3_MASK \<noteq> 0)
      else if n = 2 then Some (cpr c cp_Status AND Status_CU2_MASK \<noteq> 0)
      else if n = 1 then Some (cpr c cp_Status AND Status_CU1_MASK \<noteq> 0)
      else if n = 0 then Some (cpr c cp_Status AND Status_CU0_MASK \<noteq> 0)
      else None)"

definition interrupts_enabled :: "cpzero \<Rightarrow> bool" where
  "interrupts_enabled c \<longleftrightarrow> cpr c cp_Status AND Status_IEc_MASK \<noteq> 0"

definition interrupt_pending :: "u32 \<Rightarrow> cpzero \<Rightarrow> bool" where
  "interrupt_pending hwip c \<longleftrightarrow>
     (if \<not> interrupts_enabled c then False
      else getIP hwip c AND (cpr c cp_Status AND Status_IM_MASK) \<noteq> 0)"

definition read_debug_info :: "cpzero \<Rightarrow> u32 \<times> u32 \<times> u32" where
  "read_debug_info c = (cpr c cp_Status, cpr c cp_BadVAddr, cpr c cp_Cause)"

definition write_debug_info :: "u32 \<Rightarrow> u32 \<Rightarrow> u32 \<Rightarrow> cpzero \<Rightarrow> cpzero" where
  "write_debug_info st bad ca c =
     set_cpr cp_Cause ca (set_cpr cp_BadVAddr bad (set_cpr cp_Status st c))"

definition debug_tlb_translate :: "u32 \<Rightarrow> cpzero \<Rightarrow> bool \<times> u32" where
  "debug_tlb_translate vaddr c =
     (if \<not> kernel_mode c \<and> vaddr AND KERNEL_SPACE_MASK \<noteq> 0 then (False, 0xffffffff)
      else if kernel_mode c \<and> vaddr AND KSEG_SELECT_MASK = KSEG0
        then (True, vaddr - KSEG0_CONST_TRANSLATION)
      else if kernel_mode c \<and> vaddr AND KSEG_SELECT_MASK = KSEG1
        then (True, vaddr - KSEG1_CONST_TRANSLATION)
      else
        (let asid = cpr c cp_EntryHi AND EntryHi_ASID_MASK;
             vpn = vaddr AND EntryHi_VPN_MASK
         in case find_matching_tlb_entry c vpn asid of
              None \<Rightarrow> (False, 0xffffffff)
            | Some i \<Rightarrow>
                if \<not> tlb_valid (tlb c ! i) then (False, 0xffffffff)
                else (True, tlb_pfn (tlb c ! i) OR (vaddr AND NOT EntryHi_VPN_MASK))))"

lemmas cpzero_defs [cube_defs] =
  set_cpr_def CPZero_reset_def kernel_mode_def load_addr_trans_excp_info_def
  find_matching_tlb_entry_def tlb_translate_def address_trans_def getIP_def read_reg_def
  write_reg_def tlb_index_def tlbr_emulate_def tlb_write_def tlbwi_emulate_def tlbwr_emulate_def
  tlbp_emulate_def rfe_emulate_def adjust_random_def enter_exception_def use_boot_excp_address_def
  caches_isolated_def caches_swapped_def cop_usable_def interrupts_enabled_def interrupt_pending_def
  debug_tlb_translate_def tlb_vpn_def tlb_asid_def tlb_pfn_def tlb_noncacheable_def tlb_dirty_def
  tlb_valid_def tlb_global_def read_masks_def write_masks_def

end
