(* ===== verification/CPZero_Facts.thy ===== *)
theory CPZero_Facts
  imports CPZero
begin

unbundle bit_operations_syntax

text \<open>
  Correctness of the system control coprocessor: the well-formedness invariant with the bounds of
  the Random register, the exception entry and return protocol, address translation through the
  TLB, the masked register file and the interrupt condition.
\<close>

section \<open>Well-formed coprocessors\<close>

definition random_ok :: "u32 \<Rightarrow> bool" where
  "random_ok w \<longleftrightarrow> (\<exists>k. 8 \<le> k \<and> k \<le> 63 \<and> w = push_bit 8 (of_nat k))"

definition cpzero_wf :: "cpzero \<Rightarrow> bool" where
  "cpzero_wf c \<longleftrightarrow> length (cp_reg c) = 32 \<and> length (tlb c) = 64 \<and> random_ok (cpr c cp_Random)"

lemma set_cpr_simps [simp]:
  "length (cp_reg (set_cpr r v c)) = length (cp_reg c)"
  "tlb (set_cpr r v c) = tlb c"
  "tlb_miss_user (set_cpr r v c) = tlb_miss_user c"
  "cp_cpuid (set_cpr r v c) = cp_cpuid c"
  by (simp_all add: set_cpr_def)

lemma cpr_set_cpr [simp]:
  "r < length (cp_reg c) \<Longrightarrow> cpr (set_cpr r v c) s = (if s = r then v else cpr c s)"
  by (simp add: set_cpr_def nth_list_update)

lemma cpr_set_other: "s \<noteq> r \<Longrightarrow> cpr (set_cpr r v c) s = cpr c s"
  by (simp add: set_cpr_def)

lemma cpzero_wf_set_cpr:
  "cpzero_wf c \<Longrightarrow> r \<noteq> cp_Random \<Longrightarrow> cpzero_wf (set_cpr r v c)"
  by (simp add: cpzero_wf_def cpr_set_other)

lemma cpzero_wf_tlb:
  "cpzero_wf c \<Longrightarrow> cpzero_wf (c\<lparr>tlb := (tlb c)[i := e]\<rparr>)"
  "cpzero_wf c \<Longrightarrow> cpzero_wf (c\<lparr>tlb_miss_user := b\<rparr>)"
  by (simp_all add: cpzero_wf_def)

text \<open>Eight words of the register file hold the state the theorems speak about.\<close>

lemma cpzero_wf_length: "cpzero_wf c \<Longrightarrow> length (cp_reg c) = 32"
  by (simp add: cpzero_wf_def)

lemma random_values:
  "\<forall>k < 64. sint (drop_bit 8 (push_bit 8 (of_nat k) :: u32)) = int k \<and>
     (push_bit 8 (of_nat k) :: u32) AND 0x3f00 = push_bit 8 (of_nat k)"
  by (simp add: all_less_numeral All_less_Suc)

lemma random_step:
  assumes "8 \<le> k" "k \<le> (63::nat)"
  shows "- ((63 - int k + 1) smod 56 - 63) = int (if k = 8 then 63 else k - 1)"
proof (cases "k = 8")
  case False
  then have "(64 - int k) smod 56 = 64 - int k"
    using assms by (simp add: signed_modulo_int_def sgn_if)
  with False assms show ?thesis by (simp add: algebra_simps of_nat_diff)
qed (simp add: signed_modulo_int_def)

text \<open>
  \<open>adjust_random\<close> counts down from 63 to 8 and starts again at 63.
\<close>

lemma adjust_random_step:
  assumes "length (cp_reg c) = 32" "cpr c cp_Random = push_bit 8 (of_nat k)" "8 \<le> k" "k \<le> 63"
  shows "adjust_random c = set_cpr cp_Random (push_bit 8 (of_nat (if k = 8 then 63 else k - 1))) c"
proof -
  have "sint (drop_bit 8 (cpr c cp_Random)) = int k"
    using assms random_values by auto
  then have "- ((Random_UPPER_BOUND - sint (drop_bit 8 (cpr c cp_Random)) + 1) smod 56 - Random_UPPER_BOUND)
      = int (if k = 8 then 63 else k - 1)"
    using random_step [OF assms(3,4)] by simp
  then show ?thesis unfolding adjust_random_def Let_def by simp
qed

lemma adjust_random_wf: "cpzero_wf c \<Longrightarrow> cpzero_wf (adjust_random c)"
proof -
  assume wf: "cpzero_wf c"
  then obtain k where k: "cpr c cp_Random = push_bit 8 (of_nat k)" "8 \<le> k" "k \<le> 63"
    by (auto simp: cpzero_wf_def random_ok_def)
  let ?k = "if k = 8 then 63 else k - 1"
  have "random_ok (push_bit 8 (of_nat ?k))"
    unfolding random_ok_def by (rule exI [of _ ?k]) (use k in auto)
  with adjust_random_step [OF cpzero_wf_length [OF wf] k] wf show ?thesis
    by (simp add: cpzero_wf_def)
qed

lemma CPZero_reset_wf:
  "length (cp_reg c) = 32 \<Longrightarrow> length (tlb c) = 64 \<Longrightarrow> cpzero_wf (CPZero_reset c)"
  unfolding CPZero_reset_def Let_def cpzero_wf_def random_ok_def
  by (auto intro!: exI [of _ 63])

lemma write_reg_wf:
  assumes wf: "cpzero_wf c" and r: "r < 32"
  shows "cpzero_wf (write_reg r d c)"
proof (cases "r = cp_Random")
  case True
  obtain k where k: "cpr c cp_Random = push_bit 8 (of_nat k)" "8 \<le> k" "k \<le> 63"
    using wf by (auto simp: cpzero_wf_def random_ok_def)
  then have "cpr c cp_Random AND 0x3f00 = cpr c cp_Random" using random_values by auto
  with wf True show ?thesis
    by (simp add: write_reg_def read_masks_def write_masks_def cpzero_wf_def)
next
  case False
  with wf show ?thesis by (simp add: write_reg_def cpzero_wf_set_cpr)
qed

lemma load_info_wf: "cpzero_wf c \<Longrightarrow> cpzero_wf (load_addr_trans_excp_info va c)"
  by (simp add: load_addr_trans_excp_info_def Let_def cpzero_wf_set_cpr)

lemma enter_exception_wf: "cpzero_wf c \<Longrightarrow> cpzero_wf (enter_exception hwip pc code ce dly c)"
  by (simp add: enter_exception_def Let_def cpzero_wf_set_cpr)

lemma tlb_write_wf: "cpzero_wf c \<Longrightarrow> cpzero_wf (tlb_write hwip i c)"
  by (simp add: tlb_write_def read_reg_def Let_def cpzero_wf_tlb)

lemma cp_instr_wf:
  "cpzero_wf c \<Longrightarrow> cpzero_wf (tlbr_emulate c)"
  "cpzero_wf c \<Longrightarrow> cpzero_wf (tlbwi_emulate hwip c)"
  "cpzero_wf c \<Longrightarrow> cpzero_wf (tlbwr_emulate hwip c)"
  "cpzero_wf c \<Longrightarrow> cpzero_wf (tlbp_emulate c)"
  "cpzero_wf c \<Longrightarrow> cpzero_wf (rfe_emulate c)"
  "cpzero_wf c \<Longrightarrow> cpzero_wf (snd (read_reg hwip r c))"
  by (simp_all add: tlbr_emulate_def tlbwi_emulate_def tlbwr_emulate_def tlbp_emulate_def
      rfe_emulate_def read_reg_def Let_def cpzero_wf_set_cpr tlb_write_wf split: option.split)

lemma address_trans_wf:
  assumes "cpzero_wf c" "address_trans vaddr md c = (pa, ca, c', es)"
  shows "cpzero_wf c'"
  using assms
  by (auto simp: address_trans_def tlb_translate_def Let_def cpzero_wf_tlb load_info_wf
      split: if_splits option.splits)

section \<open>Exception entry and return\<close>

text \<open>The two words an exception changes, and what it keeps.\<close>

lemma enter_exception_words:
  assumes "length (cp_reg c) = 32"
  shows "cpr (enter_exception hwip pc code ce dly c) cp_EPC = pc"
    "cpr (enter_exception hwip pc code ce dly c) cp_Status =
      (cpr c cp_Status AND NOT Status_KU_IE_MASK) OR push_bit 2 (cpr c cp_Status AND Status_KU_IE_MASK)"
    "cpr (enter_exception hwip pc code ce dly c) cp_Cause =
      (cpr c cp_Cause AND NOT 0xb000ff7c) OR
      (if code = 11 then push_bit 28 (ce AND 3) else 0) OR
      hwip OR push_bit 31 (of_bool dly) OR push_bit 2 code"
    "r \<notin> {cp_EPC, cp_Status, cp_Cause} \<Longrightarrow> cpr (enter_exception hwip pc code ce dly c) r = cpr c r"
    "tlb (enter_exception hwip pc code ce dly c) = tlb c"
  using assms
  by (auto simp: enter_exception_def Let_def getIP_def cpr_set_other bit_blast)

text \<open>
  Entering an exception saves the program counter, switches to kernel mode with interrupts off,
  and records the code and the branch-delay flag.
\<close>

lemma enter_exception_spec:
  assumes wf: "cpzero_wf c" and code: "code < 32" and hw: "hwip AND NOT Cause_IP_Ext_MASK = 0"
  shows "kernel_mode (enter_exception hwip pc code ce dly c)"
    "\<not> interrupts_enabled (enter_exception hwip pc code ce dly c)"
    "drop_bit 2 (cpr (enter_exception hwip pc code ce dly c) cp_Cause AND Cause_ExcCode_MASK) = code"
    "cpr (enter_exception hwip pc code ce dly c) cp_Cause AND Cause_BD_MASK = (if dly then Cause_BD_MASK else 0)"
    "cpr (enter_exception hwip pc code ce dly c) cp_Cause AND Cause_IP_MASK = hwip"
proof -
  note w = enter_exception_words [OF cpzero_wf_length [OF wf]]
  have cb: "\<not> bit code n" if "5 \<le> n" for n
    using less_mask_eq [of code 5] code that by (auto simp: bit_simps dest: arg_cong [of _ _ "\<lambda>w. bit w n"])
  have hb: "\<not> bit hwip n" if "n < 10 \<or> 15 < n" for n
    using hw that bit_imp_le_length [of hwip n] by (auto simp: bit_blast) (auto simp: less_Suc_eq numeral_eq_Suc)
  show "kernel_mode (enter_exception hwip pc code ce dly c)"
    "\<not> interrupts_enabled (enter_exception hwip pc code ce dly c)"
    by (simp_all add: kernel_mode_def interrupts_enabled_def w) (simp_all add: bit_blast)
  show "drop_bit 2 (cpr (enter_exception hwip pc code ce dly c) cp_Cause AND Cause_ExcCode_MASK) = code"
    "cpr (enter_exception hwip pc code ce dly c) cp_Cause AND Cause_BD_MASK = (if dly then Cause_BD_MASK else 0)"
    "cpr (enter_exception hwip pc code ce dly c) cp_Cause AND Cause_IP_MASK = hwip"
    unfolding w by (simp_all add: bit_blast cb hb)
qed

text \<open>
  The return from an exception restores the mode bits the entry pushed: current and previous
  kernel/user and interrupt-enable bits and every bit above the mode stack's reserved bits.
\<close>

lemma rfe_after_enter:
  assumes wf: "cpzero_wf c"
  shows "cpr (rfe_emulate (enter_exception hwip pc code ce dly c)) cp_Status AND NOT 0xf0 =
    cpr c cp_Status AND NOT 0xf0"
proof -
  have l: "length (cp_reg (enter_exception hwip pc code ce dly c)) = 32"
    using enter_exception_wf [OF wf] by (rule cpzero_wf_length)
  show ?thesis
    using l unfolding rfe_emulate_def
    by (simp add: enter_exception_words [OF cpzero_wf_length [OF wf]]) (simp add: bit_blast)
qed

section \<open>The TLB\<close>

definition tlb_matches :: "tlb_entry \<Rightarrow> u32 \<Rightarrow> u32 \<Rightarrow> bool" where
  "tlb_matches e vpn asid \<longleftrightarrow> tlb_vpn e = vpn \<and> (tlb_global e \<or> tlb_asid e = asid)"

lemma find_matching_Some:
  "find_matching es vpn asid = Some i \<longleftrightarrow>
     i < length es \<and> tlb_matches (es ! i) vpn asid \<and> (\<forall>j < i. \<not> tlb_matches (es ! j) vpn asid)"
proof (induction es arbitrary: i)
  case (Cons e es)
  then show ?case by (cases i) (auto simp: tlb_matches_def All_less_Suc2)
qed simp

lemma find_matching_None:
  "find_matching es vpn asid = None \<longleftrightarrow> (\<forall>e \<in> set es. \<not> tlb_matches e vpn asid)"
  by (induction es) (auto simp: tlb_matches_def)

lemma tlb_index_less: "tlb_index c < 64"
proof -
  have "drop_bit 8 (cpr c cp_Index AND Index_Index_MASK) = drop_bit 8 (cpr c cp_Index) AND mask 6"
    by (simp add: bit_blast mask_numeral)
  also have "\<dots> < 2 ^ 6" by (rule and_mask_less') simp
  finally show ?thesis by (simp add: tlb_index_def word_less_nat_alt)
qed

lemma tlb_entry_overwritten [simp]:
  "(e :: tlb_entry)\<lparr>entryHi := hi, entryLo := lo\<rparr> = \<lparr>entryHi = hi, entryLo = lo\<rparr>"
  by (cases e) simp

lemma page_offset_mask [simp]: "(- 4294963201 :: u32) = 0xfff"
  by simp

lemma tlbwi_effect:
  assumes "cpzero_wf c"
  shows "tlb (tlbwi_emulate hwip c) = (tlb c)[tlb_index c :=
      \<lparr>entryHi = cpr c cp_EntryHi AND EntryHi_MASK, entryLo = cpr c cp_EntryLo AND EntryLo_MASK\<rparr>]"
    "cp_reg (tlbwi_emulate hwip c) = cp_reg c"
  using assms tlb_index_less [of c]
  by (simp_all add: tlbwi_emulate_def tlb_write_def read_reg_def read_masks_def Let_def cpzero_wf_def)

lemma written_entry_matches:
  "tlb_matches \<lparr>entryHi = hi AND EntryHi_MASK, entryLo = lo AND EntryLo_MASK\<rparr>
     (hi AND EntryHi_VPN_MASK) (hi AND EntryHi_ASID_MASK)"
  unfolding tlb_matches_def tlb_vpn_def tlb_asid_def by (simp add: bit_blast)

text \<open>
  An entry written with \<open>tlbwi\<close> is the one a probe for its page finds, provided no entry with a
  smaller index matches the page.
\<close>

lemma find_after_tlbwi:
  assumes wf: "cpzero_wf c"
    and first: "\<forall>j < tlb_index c. \<not> tlb_matches (tlb c ! j)
      (cpr c cp_EntryHi AND EntryHi_VPN_MASK) (cpr c cp_EntryHi AND EntryHi_ASID_MASK)"
  shows "find_matching_tlb_entry (tlbwi_emulate hwip c)
      (cpr c cp_EntryHi AND EntryHi_VPN_MASK) (cpr c cp_EntryHi AND EntryHi_ASID_MASK) = Some (tlb_index c)"
  using wf first tlb_index_less [of c]
  by (simp add: find_matching_tlb_entry_def find_matching_Some tlbwi_effect written_entry_matches
      cpzero_wf_def)

lemma tlbp_after_tlbwi:
  assumes "cpzero_wf c"
    and "\<forall>j < tlb_index c. \<not> tlb_matches (tlb c ! j)
      (cpr c cp_EntryHi AND EntryHi_VPN_MASK) (cpr c cp_EntryHi AND EntryHi_ASID_MASK)"
  shows "cpr (tlbp_emulate (tlbwi_emulate hwip c)) cp_Index = push_bit 8 (of_nat (tlb_index c))"
  using find_after_tlbwi [OF assms] assms(1)
  by (simp add: tlbp_emulate_def tlbwi_effect Let_def cpzero_wf_def)

lemma translate_after_tlbwi:
  assumes wf: "cpzero_wf c"
    and first: "\<forall>j < tlb_index c. \<not> tlb_matches (tlb c ! j)
      (cpr c cp_EntryHi AND EntryHi_VPN_MASK) (cpr c cp_EntryHi AND EntryHi_ASID_MASK)"
    and page: "vaddr AND EntryHi_VPN_MASK = cpr c cp_EntryHi AND EntryHi_VPN_MASK"
    and valid: "cpr c cp_EntryLo AND EntryLo_V_MASK \<noteq> 0"
    and dirty: "md = DATASTORE \<longrightarrow> cpr c cp_EntryLo AND EntryLo_D_MASK \<noteq> 0"
  shows "tlb_translate seg vaddr md (tlbwi_emulate hwip c) =
    ((cpr c cp_EntryLo AND EntryLo_PFN_MASK) OR (vaddr AND 0xfff),
     Some (cpr c cp_EntryLo AND EntryLo_N_MASK = 0), (tlbwi_emulate hwip c)\<lparr>tlb_miss_user := False\<rparr>, [])"
proof -
  have m: "(w AND EntryLo_MASK) AND EntryLo_V_MASK = w AND EntryLo_V_MASK"
    "(w AND EntryLo_MASK) AND EntryLo_D_MASK = w AND EntryLo_D_MASK"
    "(w AND EntryLo_MASK) AND EntryLo_N_MASK = w AND EntryLo_N_MASK"
    "(w AND EntryLo_MASK) AND EntryLo_PFN_MASK = w AND EntryLo_PFN_MASK"
    for w :: u32
    by (simp_all add: bit_blast)
  have "tlb (tlbwi_emulate hwip c) ! tlb_index c =
      \<lparr>entryHi = cpr c cp_EntryHi AND EntryHi_MASK, entryLo = cpr c cp_EntryLo AND EntryLo_MASK\<rparr>"
    using wf tlb_index_less [of c] by (simp add: tlbwi_effect cpzero_wf_def)
  then show ?thesis
    using find_after_tlbwi [OF wf first] valid dirty
    by (simp add: tlb_translate_def tlbwi_effect [OF wf] page Let_def tlb_valid_def tlb_dirty_def
        tlb_noncacheable_def tlb_pfn_def m)
qed

text \<open>
  A translation that raises no exception keeps the offset in the page and tells whether the page
  is cacheable; in user mode it never starts from an address of the kernel segments.
\<close>

lemma address_trans_ok:
  assumes "address_trans vaddr md c = (pa, ca, c', es)"
  shows "(es = [] \<longleftrightarrow> ca \<noteq> None) \<and>
    (es = [] \<longrightarrow> pa AND 0xfff = vaddr AND 0xfff \<and> (kernel_mode c \<or> vaddr AND KERNEL_SPACE_MASK = 0)) \<and>
    cp_reg c' ! cp_Status = cp_reg c ! cp_Status \<and> tlb c' = tlb c"
proof -
  have off: "((x AND EntryLo_PFN_MASK) OR (v AND 0xfff)) AND 0xfff = v AND 0xfff" for x v :: u32
    by (simp add: bit_blast)
  show ?thesis
    using assms
    by (auto simp: address_trans_def tlb_translate_def Let_def off tlb_pfn_def exc_req_def
        load_addr_trans_excp_info_def cpr_set_other split: if_splits option.splits)
qed

section \<open>The masked register file\<close>

lemma write_masks_readable:
  "r < 32 \<Longrightarrow> write_masks ! r AND NOT (read_masks ! r) = 0"
proof -
  have "\<forall>r < 32. write_masks ! r AND NOT (read_masks ! r) = 0"
    by (simp add: all_less_numeral All_less_Suc read_masks_def write_masks_def)
  then show "r < 32 \<Longrightarrow> write_masks ! r AND NOT (read_masks ! r) = 0" by blast
qed

text \<open>
  Reading a register after writing it: the writable bits come from the word written, the readable
  but not writable bits keep their value, all others read as zero.
\<close>

lemma read_after_write:
  assumes wf: "cpzero_wf c" and r: "r < 32" "r \<noteq> cp_Cause"
  shows "fst (read_reg hwip r (write_reg r d c)) =
    (d AND write_masks ! r) OR (cpr c r AND (read_masks ! r AND NOT (write_masks ! r)))"
proof -
  have sub: "bit (write_masks ! r) n \<Longrightarrow> bit (read_masks ! r) n" for n
    using write_masks_readable [OF r(1)] bit_imp_le_length [of "write_masks ! r" n]
    by (auto simp: and_zero_iff_bits bit_simps)
  have "((a AND (rm AND NOT wm)) OR (d AND wm)) AND rm = (d AND wm) OR (a AND (rm AND NOT wm))"
    if "\<And>n. bit wm n \<Longrightarrow> bit rm n" for a rm wm :: u32
    using that by (auto intro!: word_eqI_bits simp: bit_simps)
  with sub r wf show ?thesis
    by (simp add: read_reg_def write_reg_def cpzero_wf_def Let_def)
qed

section \<open>Interrupts\<close>

lemma interrupt_pending_iff:
  "interrupt_pending hwip c \<longleftrightarrow> interrupts_enabled c \<and>
     (\<exists>n \<in> {8..<16}. bit (cpr c cp_Status) n \<and> (bit hwip n \<or> n < 10 \<and> bit (cpr c cp_Cause) n))"
proof -
  have "(x :: u32) AND (s AND Status_IM_MASK) \<noteq> 0 \<longleftrightarrow> (\<exists>n \<in> {8..<16}. bit s n \<and> bit x n)" for x s
    by (simp add: bit_blast atLeastLessThan_nat_numeral)
  moreover have "n \<in> {8..<16} \<Longrightarrow> bit (getIP hwip c) n \<longleftrightarrow> bit hwip n \<or> n < 10 \<and> bit (cpr c cp_Cause) n" for n
    unfolding getIP_def by (auto simp: bit_simps less_Suc_eq numeral_eq_Suc elim!: less_natE)
  ultimately show ?thesis unfolding interrupt_pending_def by auto
qed

text \<open>
  With the interrupt controller attached: an interrupt is pending exactly when interrupts are on
  and some unmasked line is asserted by a connected device or set in software.
\<close>

lemma interrupt_pending_devices:
  "interrupt_pending (calculateIP ic) c \<longleftrightarrow> interrupts_enabled c \<and>
     (\<exists>n \<in> {8..<16}. bit (cpr c cp_Status) n \<and>
        ((\<exists>i \<in> set (ic_devs ic). bit (lines_asserted (ic_devices ic i)) n) \<or>
         n < 10 \<and> bit (cpr c cp_Cause) n))"
  by (simp add: interrupt_pending_iff bit_calculateIP)

end
