(* ===== verification/CPZero_Props.thy ===== *)
theory CPZero_Props
  imports CPZero_Facts
begin

unbundle bit_operations_syntax

text \<open>
  The properties of the system control coprocessor and of the interrupt lines, each with a witness
  on the coprocessor after a reset.
\<close>

text \<open>A coprocessor after reset, and one with a valid and writable page in the entry it points at.\<close>

definition cp0_reset :: cpzero where
  "cp0_reset = CPZero_reset \<lparr>tlb = replicate 64 \<lparr>entryHi = 0, entryLo = 0\<rparr>, cp_reg = replicate 32 0,
     cp_cpuid = 0, tlb_miss_user = False\<rparr>"

definition cp0_page :: cpzero where
  "cp0_page = set_cpr 0 0 (set_cpr 2 0x00123600 (set_cpr 10 0x00456040 cp0_reset))"

lemma cp0_reset_wf: "cpzero_wf cp0_reset"
  unfolding cp0_reset_def by (rule CPZero_reset_wf) simp_all

lemma cp0_page_simps:
  "cpzero_wf cp0_page" "cpr cp0_page 0 = 0" "cpr cp0_page 2 = 0x00123600" "cpr cp0_page 10 = 0x00456040"
  using cp0_reset_wf
  by (simp_all add: cp0_page_def cpzero_wf_def cpr_set_cpr cp0_reset_def CPZero_reset_def Let_def random_ok_def)

text \<open>
  (C26) A page entered into the TLB with \<open>tlbwi\<close> translates: unless an earlier entry already matches
  the page, every address in it is mapped to the entered frame with the same page offset, cached
  or not as the entry says, without an exception, for a store only when the entry is dirty.
\<close>

theorem tlbwi_then_translate:
  assumes "cpzero_wf c"
    and "\<forall>j < tlb_index c. \<not> tlb_matches (tlb c ! j)
      (cpr c cp_EntryHi AND EntryHi_VPN_MASK) (cpr c cp_EntryHi AND EntryHi_ASID_MASK)"
    and "vaddr AND EntryHi_VPN_MASK = cpr c cp_EntryHi AND EntryHi_VPN_MASK"
    and "cpr c cp_EntryLo AND EntryLo_V_MASK \<noteq> 0"
    and "md = DATASTORE \<longrightarrow> cpr c cp_EntryLo AND EntryLo_D_MASK \<noteq> 0"
  shows "tlb_translate seg vaddr md (tlbwi_emulate hwip c) =
    ((cpr c cp_EntryLo AND EntryLo_PFN_MASK) OR (vaddr AND 0xfff),
     Some (cpr c cp_EntryLo AND EntryLo_N_MASK = 0), (tlbwi_emulate hwip c)\<lparr>tlb_miss_user := False\<rparr>, [])"
  using assms by (rule translate_after_tlbwi)

theorem tlbwi_then_translate_witness:
  "fst (tlb_translate KUSEG 0x00456abc DATASTORE (tlbwi_emulate 0 cp0_page)) = 0x00123abc"
  using tlbwi_then_translate [OF cp0_page_simps(1), where vaddr = "0x00456abc" and md = DATASTORE and seg = KUSEG and hwip = 0]
  by (simp add: cp0_page_simps tlb_index_def)

text \<open>
  (C27) Exception entry puts the processor into kernel mode with interrupts disabled and records the
  code, the pending lines and the branch-delay bit in Cause; \<open>rfe\<close> then restores the mode and
  interrupt-enable bits the exception saved.
\<close>

theorem exception_entry_and_return:
  assumes "cpzero_wf c" and "code < 32" and "hwip AND NOT Cause_IP_Ext_MASK = 0"
  shows "let e = enter_exception hwip pc code ce dly c in
    kernel_mode e \<and> \<not> interrupts_enabled e \<and>
    drop_bit 2 (cpr e cp_Cause AND Cause_ExcCode_MASK) = code \<and>
    cpr e cp_Cause AND Cause_BD_MASK = (if dly then Cause_BD_MASK else 0) \<and>
    cpr e cp_Cause AND Cause_IP_MASK = hwip \<and>
    cpr (rfe_emulate e) cp_Status AND NOT 0xf0 = cpr c cp_Status AND NOT 0xf0"
  using enter_exception_spec [OF assms] rfe_after_enter [OF assms(1)] by (simp add: Let_def)

theorem exception_entry_and_return_witness:
  "let e = enter_exception 0x400 0xbfc00000 8 0 False cp0_page in
    kernel_mode e \<and> cpr e cp_Cause AND Cause_IP_MASK = 0x400"
proof -
  have "(8 :: u32) < 32" "(0x400 :: u32) AND NOT Cause_IP_Ext_MASK = 0" by simp_all
  from exception_entry_and_return [OF cp0_page_simps(1) this, of "0xbfc00000" 0 False]
  show ?thesis by (simp add: Let_def)
qed

text \<open>
  (C31) The coprocessor stays well formed: 32 registers, 64 TLB entries, and a Random register that
  holds an index between 8 and 63 in the right field, whatever a clock step, a coprocessor
  instruction, a translation or an exception does.
\<close>

theorem cpzero_type_preserved:
  assumes "cpzero_wf c" and "r < 32"
  shows "cpzero_wf (adjust_random c) \<and> cpzero_wf (write_reg r d c) \<and> cpzero_wf (snd (read_reg hwip r c)) \<and>
    cpzero_wf (tlbr_emulate c) \<and> cpzero_wf (tlbwi_emulate hwip c) \<and> cpzero_wf (tlbwr_emulate hwip c) \<and>
    cpzero_wf (tlbp_emulate c) \<and> cpzero_wf (rfe_emulate c) \<and>
    cpzero_wf (enter_exception hwip pc code ce dly c) \<and>
    (address_trans va md c = (pa, ca, c', es) \<longrightarrow> cpzero_wf c')"
  using assms by (auto intro: adjust_random_wf write_reg_wf cp_instr_wf enter_exception_wf address_trans_wf)

theorem cpzero_type_preserved_witness: "cpzero_wf (write_reg 1 0xffffffff cp0_reset)"
  using cpzero_type_preserved [OF cp0_reset_wf, where r = 1 and d = "0xffffffff"] by simp

text \<open>
  (C32) The Random register counts down from 63 to 8 and wraps, so it never leaves that range, it
  returns to its value after 56 clock steps, and \<open>tlbwr\<close> never replaces one of the eight wired
  entries.
\<close>

lemma random_iterate:
  assumes "length (cp_reg c) = 32" "cpr c cp_Random = push_bit 8 (of_nat k)" "8 \<le> k" "k \<le> 63"
  shows "(adjust_random ^^ n) c =
    set_cpr cp_Random (push_bit 8 (of_nat (8 + (k - 8 + 55 * n) mod 56))) c"
proof (induction n)
  case 0
  then show ?case using assms(2-4) by (simp add: set_cpr_def mod_less flip: assms(2))
next
  case (Suc n)
  let ?k = "8 + (k - 8 + 55 * n) mod 56"
  have "k - 8 + 55 * Suc n = (k - 8 + 55 * n) + 55" by simp
  then have "(k - 8 + 55 * Suc n) mod 56 = ((k - 8 + 55 * n) mod 56 + 55) mod 56"
    by (simp only: mod_add_left_eq)
  also have "\<dots> = (if ?k = 8 then 55 else ?k - 8 - 1)"
    by (cases "(k - 8 + 55 * n) mod 56") (auto simp: mod_less_divisor le_mod_geq dest: mod_less_divisor [of 56 "k - 8 + 55 * n"])
  finally have k: "8 + (k - 8 + 55 * Suc n) mod 56 = (if ?k = 8 then 63 else ?k - 1)" by auto
  have b: "8 \<le> ?k" "?k \<le> 63" using mod_less_divisor [of 56 "k - 8 + 55 * n"] by linarith+
  let ?c = "set_cpr cp_Random (push_bit 8 (of_nat ?k)) c"
  have "length (cp_reg ?c) = 32" "cpr ?c cp_Random = push_bit 8 (of_nat ?k)"
    using assms(1) by (simp_all add: cpr_set_cpr)
  from adjust_random_step [OF this b] show ?case
    unfolding k using Suc.IH by (simp add: set_cpr_def)
qed

lemma tlb_write_other: "j \<noteq> i \<Longrightarrow> tlb (tlb_write hwip i c) ! j = tlb c ! j"
  by (simp add: tlb_write_def read_reg_def Let_def)

lemma random_index:
  assumes "k < 64"
  shows "unat (drop_bit 8 ((push_bit 8 (of_nat k) :: u32) AND Random_Random_MASK)) = k"
proof -
  have "\<forall>k < 64. unat (drop_bit 8 ((push_bit 8 (of_nat k) :: u32) AND Random_Random_MASK)) = k"
    by (simp add: all_less_numeral All_less_Suc)
  with assms show ?thesis by blast
qed

theorem random_register_cycle:
  assumes "cpzero_wf c"
  shows "(adjust_random ^^ 56) c = c \<and>
    (let r = unat (drop_bit 8 (cpr ((adjust_random ^^ n) c) cp_Random AND Random_Random_MASK))
     in 8 \<le> r \<and> r \<le> 63) \<and>
    (j < 8 \<longrightarrow> tlb (tlbwr_emulate hwip ((adjust_random ^^ n) c)) ! j = tlb c ! j)"
proof -
  obtain k where k: "8 \<le> k" "k \<le> 63" "cpr c cp_Random = push_bit 8 (of_nat k)" "length (cp_reg c) = 32"
    using assms by (auto simp: cpzero_wf_def random_ok_def)
  note it = random_iterate [OF k(4,3,1,2)]
  have "(k - 8 + 55 * 56) mod 56 = k - 8"
    using k(2) mod_mult_self1 [of "k - 8" 55 56] by (simp add: mod_less)
  then have "(adjust_random ^^ 56) c = set_cpr cp_Random (cpr c cp_Random) c"
    unfolding it k(3) using k(1) by simp
  then have one: "(adjust_random ^^ 56) c = c" by (simp add: set_cpr_def)
  let ?k = "8 + (k - 8 + 55 * n) mod 56" and ?c = "(adjust_random ^^ n) c"
  have b: "8 \<le> ?k" "?k < 64" using mod_less_divisor [of 56 "k - 8 + 55 * n"] by linarith+
  have r: "unat (drop_bit 8 (cpr ?c cp_Random AND Random_Random_MASK)) = ?k"
    using random_index [OF b(2)] k(4) by (simp add: it cpr_set_cpr)
  have "tlb ?c = tlb c" by (simp add: it)
  then have "tlb (tlbwr_emulate hwip ?c) ! j = tlb c ! j" if "j < 8"
    unfolding tlbwr_emulate_def r using b(1) that by (simp add: tlb_write_other)
  with one b r show ?thesis by (simp add: Let_def)
qed

theorem random_register_cycle_witness:
  "(adjust_random ^^ 56) cp0_reset = cp0_reset \<and>
   tlb (tlbwr_emulate 0 ((adjust_random ^^ 3) cp0_reset)) ! 7 = tlb cp0_reset ! 7"
  using random_register_cycle [OF cp0_reset_wf, where n = 3 and j = 7 and hwip = 0] by simp

text \<open>
  (C35) An address translation raises an exception exactly when it yields no physical address. When
  it yields one, the offset in the page is kept and a user program stays out of kernel space; the
  mode and the TLB are never changed by a translation.
\<close>

theorem address_translation_protects:
  assumes "address_trans vaddr md c = (pa, ca, c', es)"
  shows "(es = [] \<longleftrightarrow> ca \<noteq> None) \<and>
    (es = [] \<longrightarrow> pa AND 0xfff = vaddr AND 0xfff \<and> (kernel_mode c \<or> vaddr AND KERNEL_SPACE_MASK = 0)) \<and>
    cp_reg c' ! cp_Status = cp_reg c ! cp_Status \<and> tlb c' = tlb c"
  using assms by (rule address_trans_ok)

theorem address_translation_protects_witness:
  "address_trans 0xbfc00123 INSTFETCH cp0_reset = (0xbfc00123, Some False, cp0_reset, []) \<and>
   (0xbfc00123 :: u32) AND 0xfff = 0xbfc00123 AND 0xfff"
proof -
  have k: "kernel_mode cp0_reset"
    by (simp add: cp0_reset_def CPZero_reset_def kernel_mode_def Let_def cpr_set_cpr)
  have t: "address_trans 0xbfc00123 INSTFETCH cp0_reset = (0xbfc00123, Some False, cp0_reset, [])"
    by (simp add: address_trans_def k)
  from address_translation_protects [OF t] t show ?thesis by simp
qed

text \<open>
  A register reads back the writable bits just written and the old value of its other readable
  bits. Cause is the exception: its pending bits follow the lines.
\<close>

lemma register_read_after_write:
  assumes "cpzero_wf c" and "r < 32" and "r \<noteq> cp_Cause"
  shows "fst (read_reg hwip r (write_reg r d c)) =
    (d AND write_masks ! r) OR (cpr c r AND (read_masks ! r AND NOT (write_masks ! r)))"
  using assms by (rule read_after_write)

text \<open>
  An interrupt is pending exactly when interrupts are enabled and some unmasked line is
  asserted by a device connected to the controller, or is one of the two software bits of Cause.
\<close>

lemma interrupt_condition:
  "interrupt_pending (calculateIP ic) c \<longleftrightarrow> interrupts_enabled c \<and>
     (\<exists>n \<in> {8..<16}. bit (cpr c cp_Status) n \<and>
        ((\<exists>i \<in> set (ic_devs ic). bit (lines_asserted (ic_devices ic i)) n) \<or>
         n < 10 \<and> bit (cpr c cp_Cause) n))"
  by (rule interrupt_pending_devices)

end
