(* ===== verification/Cache.thy ===== *)
theory Cache
  imports Mapper
begin

unbundle bit_operations_syntax

text \<open>
  \<open>cache.h\<close>, \<open>cache.cc\<close> and \<open>cacheinstr.h\<close>: the set-associative write-back cache in front of the
  mapper. A miss is served by a state machine that first writes back a dirty victim, then fills
  the block, one word per ready bus access.

  \<open>cache_op_state\<close> is the object the pointer of that name points to, \<^const>\<open>None\<close> before the first
  request; \<open>op_deleted\<close> says that the object has been deleted. \<open>delete\<close> leaves the pointer as it is, and
  three places of the code follow it afterwards: both ends of a transfer release the bus with the client
  of the object deleted on the line before, and a transfer that \<open>reset_stat\<close> has abandoned goes on. Everywhere the
  model takes the members of a deleted object to keep their values until the next request replaces
  the object; deleting an object a second time is \<^const>\<open>None\<close>. Tags and data of a
  new cache are not initialised by the constructor, so they are arguments of \<open>Cache_new\<close>.
  \<open>CACHE_DEBUG\<close> is off.
\<close>

abbreviation (input) CACHE_IDLE :: nat where "CACHE_IDLE \<equiv> 0"
abbreviation (input) CACHE_WB :: nat where "CACHE_WB \<equiv> 1"
abbreviation (input) CACHE_FETCH :: nat where "CACHE_FETCH \<equiv> 2"
abbreviation (input) CACHE_OP_WB :: nat where "CACHE_OP_WB \<equiv> 3"

abbreviation (input) DCACHE_OPCODE_START :: u32 where "DCACHE_OPCODE_START \<equiv> 0x10"
abbreviation (input) ICACHE_OP_HIT_INV :: u32 where "ICACHE_OP_HIT_INV \<equiv> 0x09"
abbreviation (input) DCACHE_OP_SETLINE :: u32 where "DCACHE_OP_SETLINE \<equiv> 0x18"
abbreviation (input) DCACHE_OP_HIT_INV :: u32 where "DCACHE_OP_HIT_INV \<equiv> 0x19"
abbreviation (input) DCACHE_OP_HIT_WB :: u32 where "DCACHE_OP_HIT_WB \<equiv> 0x1A"
abbreviation (input) DCACHE_OP_HIT_WBINV :: u32 where "DCACHE_OP_HIT_WBINV \<equiv> 0x1B"
abbreviation (input) DCACHE_OP_HIT_FWB :: u32 where "DCACHE_OP_HIT_FWB \<equiv> 0x1E"
abbreviation (input) DCACHE_OP_HIT_FWBINV :: u32 where "DCACHE_OP_HIT_FWBINV \<equiv> 0x1F"

record cache_entry =
  ce_valid :: bool
  ce_dirty :: bool
  ce_last_access :: u32
  ce_tag :: u32
  ce_data :: "u32 list"

record cache_op =
  co_counter :: u32
  co_requested_addr :: u32
  co_way :: nat
  co_index :: nat
  co_mode :: int
  co_last_invalidate :: bool
  co_client :: client

record cache =
  block_count :: u32
  block_size :: u32
  way_size :: u32
  word_size :: u32
  offset_len :: nat
  index_len :: nat
  cache_miss_counts :: u32
  cache_hit_counts :: u32
  cache_wb_counts :: u32
  blocks :: "cache_entry list list"
  isisolated :: bool
  status :: nat
  next_status :: nat
  last_state_update_time :: u32
  cache_op_state :: "cache_op option"
  op_deleted :: bool

text \<open>\<open>int(std::log2(n))\<close> for \<open>n > 0\<close>; \<open>log2(0)\<close> is minus infinity and has no \<open>int\<close> value.\<close>

fun int_log2 :: "nat \<Rightarrow> nat" where
  "int_log2 n = (if n \<le> 1 then 0 else Suc (int_log2 (n div 2)))"

declare int_log2.simps [simp del]

definition Cache_new :: "u32 \<Rightarrow> u32 \<Rightarrow> u32 \<Rightarrow> u32 \<Rightarrow> (nat \<Rightarrow> nat \<Rightarrow> u32) \<Rightarrow> (nat \<Rightarrow> nat \<Rightarrow> nat \<Rightarrow> u32) \<Rightarrow> cache option" where
  "Cache_new now bcount bsize ways junk_tag junk_data =
     (if bcount = 0 \<or> bsize = 0 then None else Some
       \<lparr>block_count = bcount, block_size = bsize, way_size = ways, word_size = bsize div 4,
        offset_len = int_log2 (unat bsize), index_len = int_log2 (unat bcount),
        cache_miss_counts = 0, cache_hit_counts = 0, cache_wb_counts = 0,
        blocks = map (\<lambda>i. map (\<lambda>j.
          \<lparr>ce_valid = False, ce_dirty = False, ce_last_access = now, ce_tag = junk_tag i j,
           ce_data = map (junk_data i j) [0..<unat (bsize div 4)]\<rparr>) [0..<unat bcount]) [0..<unat ways],
        isisolated = False, status = CACHE_IDLE, next_status = CACHE_IDLE,
        last_state_update_time = 0, cache_op_state = None, op_deleted = False\<rparr>)"

section \<open>Addresses and lookup\<close>

definition addr_separete :: "cache \<Rightarrow> u32 \<Rightarrow> u32 \<times> u32 \<times> u32" where
  "addr_separete c addr =
     (drop_bit (offset_len c + index_len c) addr,
      drop_bit (offset_len c) (addr AND (push_bit (index_len c + offset_len c) 1 - 1)),
      addr AND (push_bit (offset_len c) 1 - 1))"

abbreviation blk :: "cache \<Rightarrow> nat \<Rightarrow> nat \<Rightarrow> cache_entry" where
  "blk c way index \<equiv> blocks c ! way ! index"

definition set_blk :: "nat \<Rightarrow> nat \<Rightarrow> cache_entry \<Rightarrow> cache \<Rightarrow> cache" where
  "set_blk way index e c = c\<lparr>blocks := (blocks c)[way := (blocks c ! way)[index := e]]\<rparr>"

definition calc_addr :: "cache \<Rightarrow> nat \<Rightarrow> nat \<Rightarrow> u32" where
  "calc_addr c way index =
     push_bit (offset_len c + index_len c) (ce_tag (blk c way index)) + push_bit (offset_len c) (of_nat index)"

primrec find_way :: "cache \<Rightarrow> u32 \<Rightarrow> nat \<Rightarrow> nat list \<Rightarrow> nat option" where
  "find_way c tag index [] = None"
| "find_way c tag index (way # ways) =
     (if ce_tag (blk c way index) = tag \<and> ce_valid (blk c way index) then Some way
      else find_way c tag index ways)"

text \<open>The outcome of \<open>cache_hit\<close>: \<^const>\<open>None\<close> on a miss, else the values of \<open>index\<close>, \<open>way\<close>, \<open>offset\<close>.\<close>

definition cache_hit :: "cache \<Rightarrow> u32 \<Rightarrow> (nat \<times> nat \<times> u32) option" where
  "cache_hit c addr =
     (let (tag, index, offset) = addr_separete c addr in
      map_option (\<lambda>way. (unat index, way, offset))
        (find_way c tag (unat index) [0..<unat (way_size c)]))"

definition cache_ready :: "cache \<Rightarrow> u32 \<Rightarrow> bool" where
  "cache_ready c addr \<longleftrightarrow> cache_hit c addr \<noteq> None"

section \<open>Requests\<close>

text \<open>
  The loop of \<open>request_block\<close>: \<open>(True, way)\<close> for a free block, else \<open>(False, way)\<close> with the least
  recently used one. \<open>last_access\<close> is an \<open>int\<close>, so it is compared as a signed number.
\<close>

primrec find_victim :: "cache \<Rightarrow> nat \<Rightarrow> nat list \<Rightarrow> nat \<Rightarrow> bool \<times> nat" where
  "find_victim c index [] lru = (False, lru)"
| "find_victim c index (way # ways) lru =
     (let lru' = (if sint (ce_last_access (blk c lru index)) > sint (ce_last_access (blk c way index))
                  then way else lru)
      in if \<not> ce_valid (blk c way index) then (True, way) else find_victim c index ways lru')"

definition request_block :: "u32 \<Rightarrow> u32 \<Rightarrow> int \<Rightarrow> client \<Rightarrow> cache \<Rightarrow> mapper \<Rightarrow> (cache \<times> mapper) option" where
  "request_block now addr md cl c m =
     (let (tag, idx, offset) = addr_separete c addr; index = unat idx in
      if status c \<noteq> CACHE_IDLE then Some (c, m)
      else
        let (granted, m1) = mem_acquire_bus now cl m in
        if \<not> granted then Some (c, m1)
        else if way_size c = 0 then None
        else
          let (find, way) = find_victim c index [0..<unat (way_size c)] 0;
              ns = (if \<not> find
                    then if \<not> isisolated c \<and> md \<noteq> INSTFETCH \<and> ce_dirty (blk c way index)
                         then CACHE_WB else CACHE_FETCH
                    else CACHE_FETCH)
          in Some (c\<lparr>next_status := ns,
                     cache_op_state := Some \<lparr>co_counter = word_size c, co_requested_addr = addr,
                       co_way = way, co_index = index, co_mode = md, co_last_invalidate = False,
                       co_client = cl\<rparr>, op_deleted := False,
                     cache_miss_counts := cache_miss_counts c + 1\<rparr>, m1))"

section \<open>The refill machine\<close>

text \<open>\<open>delete cache_op_state\<close>.\<close>

definition delete_op :: "cache \<Rightarrow> cache option" where
  "delete_op c = (if op_deleted c then None else Some (c\<lparr>op_deleted := True\<rparr>))"

definition request_words :: "u32 \<Rightarrow> u32 \<Rightarrow> int \<Rightarrow> client \<Rightarrow> nat \<Rightarrow> mapper \<Rightarrow> mapper" where
  "request_words now addr md cl n m =
     foldl (\<lambda>m i. request_word now (addr + 4 * of_nat i) md cl m) m [0..<n]"

definition cache_wb :: "u32 \<Rightarrow> cache \<Rightarrow> mapper \<Rightarrow> (cache \<times> mapper \<times> exc_info list) option" where
  "cache_wb now c m = do {
     op \<leftarrow> cache_op_state c;
     let way = co_way op;
     let index = co_index op;
     let cl = co_client op;
     let wb_addr = calc_addr c way index + (word_size c - co_counter op) * 4;
     let m1 = (if co_counter op = word_size c
               then request_words now wb_addr DATASTORE cl (unat (word_size c)) m else m);
     (isReady, m2) \<leftarrow> mem_ready now wb_addr DATASTORE cl m1;
     if \<not> isReady then Some (c, m2, [])
     else do {
       let k = unat (word_size c - co_counter op);
       check (k < length (ce_data (blk c way index)));
       (m3, es) \<leftarrow> mem_store_word now wb_addr
                     (host_to_mips_word m2 (ce_data (blk c way index) ! k)) cl m2;
       let counter = co_counter op - 1;
       if counter = 0 then
         if status c = CACHE_OP_WB then
           let e = (blk c way index)\<lparr>ce_dirty := False\<rparr>;
               e' = (if co_last_invalidate op then e\<lparr>ce_valid := False\<rparr> else e)
           in do {
             c1 \<leftarrow> delete_op ((set_blk way index e' c)\<lparr>next_status := CACHE_IDLE,
                     cache_op_state := Some (op\<lparr>co_counter := counter\<rparr>)\<rparr>);
             Some (c1\<lparr>cache_wb_counts := cache_wb_counts c + 1\<rparr>, mem_release_bus now cl m3, es) }
         else Some (c\<lparr>next_status := CACHE_FETCH, cache_op_state := Some (op\<lparr>co_counter := word_size c\<rparr>),
                      cache_wb_counts := cache_wb_counts c + 1\<rparr>, m3, es)
       else Some (c\<lparr>cache_op_state := Some (op\<lparr>co_counter := counter\<rparr>)\<rparr>, m3, es)
     }
   }"

definition cache_fetch :: "u32 \<Rightarrow> cache \<Rightarrow> mapper \<Rightarrow> (cache \<times> mapper \<times> exc_info list) option" where
  "cache_fetch now c m = do {
     op \<leftarrow> cache_op_state c;
     let fetch_addr = (co_requested_addr op AND NOT (push_bit (offset_len c) 1 - 1))
                        + (word_size c - co_counter op) * 4;
     let way = co_way op;
     let index = co_index op;
     let cl = co_client op;
     let md = (if co_mode op = INSTFETCH then INSTFETCH else DATALOAD);
     let m1 = (if co_counter op = word_size c
               then request_words now fetch_addr md cl (unat (word_size c)) m else m);
     (isReady, m2) \<leftarrow> mem_ready now fetch_addr md cl m1;
     if \<not> isReady then Some (c, m2, [])
     else do {
       (w, m3, es) \<leftarrow> mem_fetch_word now fetch_addr md cl m2;
       let k = unat (word_size c - co_counter op);
       check (k < length (ce_data (blk c way index)));
       let e = (blk c way index)\<lparr>ce_data := (ce_data (blk c way index))[k := host_to_mips_word m3 w]\<rparr>;
       let c1 = set_blk way index e c;
       let counter = co_counter op - 1;
       if counter = 0 then
         let (tag, idx, offset) = addr_separete c fetch_addr;
             index' = unat idx;
             e' = (blk c1 way index')\<lparr>ce_tag := tag, ce_valid := True, ce_dirty := False\<rparr>
         in do {
          c2 \<leftarrow> delete_op ((set_blk way index' e' c1)\<lparr>next_status := CACHE_IDLE,
                  cache_op_state := Some (op\<lparr>co_counter := counter\<rparr>)\<rparr>);
          Some (c2, mem_release_bus now cl m3, es) }
       else Some (c1\<lparr>cache_op_state := Some (op\<lparr>co_counter := counter\<rparr>)\<rparr>, m3, es)
     }
   }"

definition Cache_step :: "u32 \<Rightarrow> cache \<Rightarrow> mapper \<Rightarrow> (cache \<times> mapper \<times> exc_info list) option" where
  "Cache_step now c m =
     (let c1 = (if now > last_state_update_time c
                then c\<lparr>status := next_status c, last_state_update_time := now\<rparr> else c)
      in if status c1 = CACHE_WB \<or> status c1 = CACHE_OP_WB then cache_wb now c1 m
         else if status c1 = CACHE_FETCH then cache_fetch now c1 m
         else Some (c1, m, []))"

definition reset_stat :: "u32 \<Rightarrow> cache \<Rightarrow> mapper \<Rightarrow> (cache \<times> mapper) option" where
  "reset_stat now c m =
     (if status c \<noteq> CACHE_IDLE then do {
        op \<leftarrow> cache_op_state c;
        c1 \<leftarrow> delete_op (c\<lparr>status := CACHE_IDLE\<rparr>);
        Some (c1, mem_release_bus now (co_client op) m)
      } else Some (c, m))"

definition cache_isolate :: "bool \<Rightarrow> cache \<Rightarrow> cache" where
  "cache_isolate flag c = c\<lparr>isisolated := flag\<rparr>"

section \<open>Cache instructions\<close>

primrec setline_victim :: "cache \<Rightarrow> nat \<Rightarrow> nat list \<Rightarrow> nat \<Rightarrow> bool \<times> nat" where
  "setline_victim c index [] lru = (False, lru)"
| "setline_victim c index (way # ways) lru =
     (if \<not> ce_valid (blk c way index) then (True, way)
      else setline_victim c index ways
        (if sint (ce_last_access (blk c lru index)) > sint (ce_last_access (blk c way index))
         then way else lru))"

text \<open>
  The switch of \<open>exec_cache_op\<close>: the values of \<open>way\<close> and \<open>index\<close> it leaves behind, \<^const>\<open>None\<close>
  when they are uninitialised or beyond the last way, and the cache. The cases that only print
  \<open>not implemented\<close> and the opcodes outside the switch change nothing.
\<close>

definition cache_op_switch :: "u32 \<Rightarrow> u32 \<Rightarrow> cache \<Rightarrow> ((nat \<times> nat) option \<times> cache) option" where
  "cache_op_switch opcode addr c =
     (if opcode = DCACHE_OP_SETLINE then
        (case cache_hit c addr of
           Some (index, way, offset) \<Rightarrow> Some (Some (way, index), c)
         | None \<Rightarrow>
             let (tag, idx, offset) = addr_separete c addr; index = unat idx in
             if way_size c = 0 then None
             else
               let way = snd (setline_victim c index [0..<unat (way_size c)] 0) in
               if ce_dirty (blk c way index) then Some (Some (way, index), c\<lparr>next_status := CACHE_OP_WB\<rparr>)
               else Some (Some (way, index),
                 set_blk way index ((blk c way index)\<lparr>ce_valid := True, ce_tag := tag, ce_dirty := False\<rparr>) c))
      else if opcode = ICACHE_OP_HIT_INV \<or> opcode = DCACHE_OP_HIT_INV then
        (case cache_hit c addr of
           Some (index, way, offset) \<Rightarrow>
             Some (Some (way, index), set_blk way index ((blk c way index)\<lparr>ce_valid := False\<rparr>) c)
         | None \<Rightarrow> Some (None, c))
      else if opcode = DCACHE_OP_HIT_WBINV \<or> opcode = DCACHE_OP_HIT_FWBINV \<or>
              opcode = DCACHE_OP_HIT_WB \<or> opcode = DCACHE_OP_HIT_FWB then
        (case cache_hit c addr of
           Some (index, way, offset) \<Rightarrow>
             Some (Some (way, index),
               if ce_dirty (blk c way index) then c\<lparr>next_status := CACHE_OP_WB\<rparr>
               else if opcode = DCACHE_OP_HIT_FWB then c\<lparr>next_status := CACHE_OP_WB\<rparr>
               else c)
         | None \<Rightarrow> Some (None, c))
      else Some (None, c))"

definition exec_cache_op :: "u32 \<Rightarrow> u32 \<Rightarrow> u32 \<Rightarrow> client \<Rightarrow> cache \<Rightarrow> mapper \<Rightarrow> (bool \<times> cache \<times> mapper) option" where
  "exec_cache_op now opcode addr cl c m =
     (if status c \<noteq> CACHE_IDLE then Some (False, c, m)
      else
        let (granted, m1) = mem_acquire_bus now cl m in
        if \<not> granted then Some (False, c, m1)
        else do {
          (sel, c1) \<leftarrow> cache_op_switch opcode addr c;
          let md = (if opcode = 0x01 \<or> opcode = 0x04 \<or> opcode = 0x05 \<or> opcode = ICACHE_OP_HIT_INV
                    then INSTFETCH else DATALOAD);
          if next_status c1 = CACHE_OP_WB then do {
            (way, index) \<leftarrow> sel;
            Some (False, c1\<lparr>cache_op_state := Some \<lparr>co_counter = word_size c1, co_requested_addr = addr,
                     co_way = way, co_index = index, co_mode = md,
                     co_last_invalidate = (opcode = DCACHE_OP_HIT_WBINV \<or> opcode = DCACHE_OP_HIT_FWBINV),
                     co_client = cl\<rparr>, op_deleted := False\<rparr>, m1)
          }
          else Some (True, c1, m1)
        })"

section \<open>Accesses\<close>

text \<open>
  The access to the word a hit selects, with the hit counter and the time of the access; the data
  index is checked against the array of the block. \<open>upd\<close> gives the new word of a store.
\<close>

definition hit_access ::
  "u32 \<Rightarrow> u32 \<Rightarrow> (u32 \<Rightarrow> u32 \<Rightarrow> u32) option \<Rightarrow> cache \<Rightarrow> ((u32 \<times> u32) option \<times> cache) option" where
  "hit_access now addr upd c =
     (case cache_hit c addr of
        None \<Rightarrow> Some (None, c)
      | Some (index, way, offset) \<Rightarrow>
          let c1 = c\<lparr>cache_hit_counts := cache_hit_counts c + 1\<rparr>;
              e = blk c1 way index;
              k = unat (drop_bit 2 offset)
          in if \<not> k < length (ce_data e) then None
             else
               let e' = (case upd of
                     None \<Rightarrow> e
                   | Some f \<Rightarrow> e\<lparr>ce_data := (ce_data e)[k := f offset (ce_data e ! k)], ce_dirty := True\<rparr>)
               in Some (Some (offset, ce_data e ! k),
                        set_blk way index (e'\<lparr>ce_last_access := now\<rparr>) c1))"

text \<open>\<open>((uint16 *) &w)[n]\<close> and \<open>((uint8 *) &w)[n]\<close> on the host, and the assignments to them.\<close>

definition half_at :: "bool \<Rightarrow> u32 \<Rightarrow> u32 \<Rightarrow> u16" where
  "half_at hb w n = half_of_bytes hb (word_byte hb w (2 * unat n)) (word_byte hb w (2 * unat n + 1))"

definition byte_at :: "bool \<Rightarrow> u32 \<Rightarrow> u32 \<Rightarrow> u8" where
  "byte_at hb w n = word_byte hb w (unat n)"

definition word_bytes :: "bool \<Rightarrow> u32 \<Rightarrow> u8 list" where
  "word_bytes hb w = map (word_byte hb w) [0, 1, 2, 3]"

definition word_from_bytes :: "bool \<Rightarrow> u8 list \<Rightarrow> u32" where
  "word_from_bytes hb bs = word_of_bytes hb (bs ! 0) (bs ! 1) (bs ! 2) (bs ! 3)"

definition put_half :: "bool \<Rightarrow> u32 \<Rightarrow> u32 \<Rightarrow> u16 \<Rightarrow> u32" where
  "put_half hb w n h = word_from_bytes hb
     ((word_bytes hb w)[2 * unat n := half_byte hb h 0, 2 * unat n + 1 := half_byte hb h 1])"

definition put_byte :: "bool \<Rightarrow> u32 \<Rightarrow> u32 \<Rightarrow> u8 \<Rightarrow> u32" where
  "put_byte hb w n b = word_from_bytes hb ((word_bytes hb w)[unat n := b])"

definition half_no :: "mapper \<Rightarrow> u32 \<Rightarrow> u32" where
  "half_no m offset = (let n = drop_bit 1 offset AND 0x1 in if byteswapped m then 1 - n else n)"

definition byte_no :: "mapper \<Rightarrow> u32 \<Rightarrow> u32" where
  "byte_no m offset = (let n = offset AND 0x3 in if byteswapped m then 3 - n else n)"

definition cache_fetch_word :: "u32 \<Rightarrow> u32 \<Rightarrow> int \<Rightarrow> cache \<Rightarrow> (u32 \<times> cache \<times> exc_info list) option" where
  "cache_fetch_word now addr md c =
     (if addr mod 4 \<noteq> 0 then Some (0xffffffff, c, [exc_req Exc_AdEL md])
      else do {
        (r, c1) \<leftarrow> hit_access now addr None c;
        Some ((case r of None \<Rightarrow> 0xffffffff | Some (offset, w) \<Rightarrow> w), c1, [])
      })"

definition cache_fetch_halfword :: "u32 \<Rightarrow> u32 \<Rightarrow> cache \<Rightarrow> mapper \<Rightarrow> (u16 \<times> cache \<times> exc_info list) option" where
  "cache_fetch_halfword now addr c m =
     (if addr mod 2 \<noteq> 0 then Some (0xffff, c, [exc_req Exc_AdEL DATALOAD])
      else do {
        (r, c1) \<leftarrow> hit_access now addr None c;
        Some ((case r of None \<Rightarrow> 0xffff
               | Some (offset, w) \<Rightarrow> half_at (host_bigendian m) w (half_no m offset)), c1, [])
      })"

definition cache_fetch_byte :: "u32 \<Rightarrow> u32 \<Rightarrow> cache \<Rightarrow> mapper \<Rightarrow> (u8 \<times> cache) option" where
  "cache_fetch_byte now addr c m = do {
     (r, c1) \<leftarrow> hit_access now addr None c;
     Some ((case r of None \<Rightarrow> 0xff
            | Some (offset, w) \<Rightarrow> byte_at (host_bigendian m) w (byte_no m offset)), c1)
   }"

definition cache_store_word :: "u32 \<Rightarrow> u32 \<Rightarrow> u32 \<Rightarrow> cache \<Rightarrow> (cache \<times> exc_info list) option" where
  "cache_store_word now addr data c =
     (if addr mod 4 \<noteq> 0 then Some (c, [exc_req Exc_AdES DATASTORE])
      else do {
        (r, c1) \<leftarrow> hit_access now addr (Some (\<lambda>offset w. data)) c;
        Some (c1, [])
      })"

definition cache_store_halfword :: "u32 \<Rightarrow> u32 \<Rightarrow> u16 \<Rightarrow> cache \<Rightarrow> mapper \<Rightarrow> (cache \<times> exc_info list) option" where
  "cache_store_halfword now addr data c m =
     (if addr mod 2 \<noteq> 0 then Some (c, [exc_req Exc_AdES DATASTORE])
      else do {
        (r, c1) \<leftarrow> hit_access now addr
          (Some (\<lambda>offset w. put_half (host_bigendian m) w (half_no m offset) data)) c;
        Some (c1, [])
      })"

definition cache_store_byte :: "u32 \<Rightarrow> u32 \<Rightarrow> u8 \<Rightarrow> cache \<Rightarrow> mapper \<Rightarrow> cache option" where
  "cache_store_byte now addr data c m = do {
     (r, c1) \<leftarrow> hit_access now addr
       (Some (\<lambda>offset w. put_byte (host_bigendian m) w (byte_no m offset) data)) c;
     Some c1
   }"

lemmas cache_defs [cube_defs] =
  Cache_new_def addr_separete_def set_blk_def calc_addr_def cache_hit_def cache_ready_def
  request_block_def request_words_def cache_wb_def cache_fetch_def Cache_step_def reset_stat_def
  cache_isolate_def cache_op_switch_def exec_cache_op_def hit_access_def half_at_def byte_at_def
  word_bytes_def word_from_bytes_def put_half_def put_byte_def half_no_def byte_no_def
  cache_fetch_word_def cache_fetch_halfword_def cache_fetch_byte_def cache_store_word_def
  cache_store_halfword_def cache_store_byte_def

end
