(* ===== verification/Cache_Facts.thy ===== *)
theory Cache_Facts
  imports Cache Flat_Memory
begin

unbundle bit_operations_syntax

text \<open>
  Correctness of the cache: splitting an address into tag, index and offset loses nothing; stores
  and loads that hit implement a word store; the victim is a free way or the least recently used
  one; the refill machine copies a block of memory into the cache and the write-back machine
  copies it out.
\<close>

section \<open>Addresses\<close>

lemma exp_minus_1_mask: "(push_bit n 1 - 1 :: u32) = mask n"
  by (simp add: mask_eq_exp_minus_1 push_bit_of_1)

lemma addr_separete_bits:
  assumes "addr_separete c addr = (tag, index, offset)"
  shows "bit tag n \<longleftrightarrow> bit addr (offset_len c + index_len c + n)"
    "bit index n \<longleftrightarrow> n < index_len c \<and> bit addr (offset_len c + n)"
    "bit offset n \<longleftrightarrow> n < offset_len c \<and> bit addr n"
proof -
  have w: "bit addr k \<Longrightarrow> k < 32" for k using bit_imp_le_length [of addr k] by simp
  show "bit tag n \<longleftrightarrow> bit addr (offset_len c + index_len c + n)"
    using assms by (auto simp: addr_separete_def bit_drop_bit_eq)
  show "bit index n \<longleftrightarrow> n < index_len c \<and> bit addr (offset_len c + n)"
    using assms w [of "offset_len c + n"] unfolding addr_separete_def exp_minus_1_mask
    by (auto simp: bit_drop_bit_eq bit_and_iff bit_mask_iff)
  show "bit offset n \<longleftrightarrow> n < offset_len c \<and> bit addr n"
    using assms w [of n] unfolding addr_separete_def exp_minus_1_mask
    by (auto simp: bit_and_iff bit_mask_iff)
qed

text \<open>The three parts determine the address, and give it back as the code recomposes it.\<close>

lemma addr_separete_inj:
  assumes "addr_separete c a = addr_separete c b"
  shows "a = b"
proof (rule bit_word_eqI)
  fix n
  obtain t i off where s: "addr_separete c a = (t, i, off)" by (cases "addr_separete c a")
  note ab = addr_separete_bits [OF s] addr_separete_bits [of c b t i off]
  consider "n < offset_len c" | "offset_len c \<le> n" "n < offset_len c + index_len c"
    | "offset_len c + index_len c \<le> n" by linarith
  then show "bit a n = bit b n"
  proof cases
    case 1 then show ?thesis using ab(3) [of n] ab(6) [of n] s assms by simp
  next
    case 2
    then have "n - offset_len c < index_len c" by linarith
    with 2 show ?thesis
      using ab(2) [of "n - offset_len c"] ab(5) [of "n - offset_len c"] s assms by simp
  next
    case 3 then show ?thesis
      using ab(1) [of "n - (offset_len c + index_len c)"] ab(4) [of "n - (offset_len c + index_len c)"]
        s assms by simp
  qed
qed

lemma addr_merge:
  assumes s: "addr_separete c addr = (tag, index, offset)"
  shows "push_bit (offset_len c + index_len c) tag + push_bit (offset_len c) index + offset = addr"
proof -
  let ?t = "push_bit (offset_len c + index_len c) tag" and ?i = "push_bit (offset_len c) index"
  note b = addr_separete_bits [OF s]
  have ti: "?t + ?i = ?t OR ?i"
    by (rule disjunctive_add) (auto simp: bit_simps b)
  have "(?t OR ?i) + offset = (?t OR ?i) OR offset"
    by (rule disjunctive_add) (auto simp: bit_simps b)
  also have "\<dots> = addr"
  proof (rule bit_word_eqI)
    fix n
    have "n - offset_len c < index_len c \<longleftrightarrow> n < offset_len c + index_len c" if "offset_len c \<le> n"
      using that by linarith
    then show "bit ((?t OR ?i) OR offset) n = bit addr n" if "n < LENGTH(32)"
      using that by (auto simp: bit_simps b not_less not_le)
  qed
  finally show ?thesis by (simp add: ti)
qed

text \<open>The address \<open>calc_addr\<close> gives for the block that holds an address is the block's base.\<close>

lemma calc_addr_hit:
  assumes "addr_separete c addr = (tag, index, offset)" "ce_tag (blk c way (unat index)) = tag"
  shows "calc_addr c way (unat index) + offset = addr"
  using addr_merge [OF assms(1)] assms(2) by (simp add: calc_addr_def)

section \<open>Well-formed caches\<close>

definition cache_wf :: "cache \<Rightarrow> bool" where
  "cache_wf c \<longleftrightarrow>
     2 \<le> offset_len c \<and> offset_len c + index_len c < 32 \<and>
     unat (word_size c) = 2 ^ (offset_len c - 2) \<and> 0 < way_size c \<and>
     length (blocks c) = unat (way_size c) \<and>
     (\<forall>way < length (blocks c). length (blocks c ! way) = 2 ^ index_len c \<and>
        (\<forall>e \<in> set (blocks c ! way). length (ce_data e) = unat (word_size c)))"

lemma int_log2_pow: "int_log2 (2 ^ n) = n"
proof (induction n)
  case (Suc n)
  have "\<not> (2::nat) ^ Suc n \<le> 1" by (metis one_less_numeral_iff one_less_power semiring_norm(76) zero_less_Suc not_less)
  with Suc show ?case by (subst int_log2.simps) simp
qed (simp add: int_log2.simps)

lemma Cache_new_wf:
  assumes "unat bcount = 2 ^ p" "unat bsize = 2 ^ q" "2 \<le> q" "q + p < 32" "0 < ways"
    and "Cache_new now bcount bsize ways jt jd = Some c"
  shows "cache_wf c"
proof -
  have "(2::nat) ^ q div 4 = 2 ^ (q - 2)"
    using assms(3) power_diff [of "2::nat" 2 q] by simp
  with assms show ?thesis
    by (auto simp: Cache_new_def cache_wf_def int_log2_pow unat_div_distrib split: if_splits)
qed

lemma index_in_range:
  assumes s: "addr_separete c addr = (tag, index, offset)" and il: "index_len c < 32"
  shows "unat index < 2 ^ index_len c"
proof -
  have "index = take_bit (index_len c) index"
    by (rule bit_word_eqI) (use addr_separete_bits(2) [OF s] in \<open>auto simp: bit_simps\<close>)
  then have "unat index = take_bit (index_len c) (unat index)"
    by (metis unsigned_take_bit_eq)
  then show ?thesis by (metis take_bit_nat_less_exp)
qed

lemma offset_in_range:
  assumes s: "addr_separete c addr = (tag, index, offset)" and ol: "offset_len c < 32"
  shows "unat offset < 2 ^ offset_len c"
proof -
  have "offset = take_bit (offset_len c) offset"
    by (rule bit_word_eqI) (use addr_separete_bits(3) [OF s] in \<open>auto simp: bit_simps\<close>)
  then have "unat offset = take_bit (offset_len c) (unat offset)"
    by (metis unsigned_take_bit_eq)
  then show ?thesis by (metis take_bit_nat_less_exp)
qed

lemma word_index_in_range:
  assumes wf: "cache_wf c" and s: "addr_separete c addr = (tag, index, offset)"
  shows "unat (drop_bit 2 offset) < unat (word_size c)"
proof -
  have "unat (drop_bit 2 offset) = unat offset div 4"
    by (simp add: unat_drop_bit_eq) (simp add: drop_bit_eq_div)
  moreover have "unat offset < 4 * 2 ^ (offset_len c - 2)"
  proof -
    obtain k where "offset_len c = 2 + k" using wf le_Suc_ex [of 2 "offset_len c"] unfolding cache_wf_def by blast
    then have "(2::nat) ^ offset_len c = 4 * 2 ^ (offset_len c - 2)" by (simp add: power_add)
    with offset_in_range [OF s] wf show ?thesis by (simp add: cache_wf_def)
  qed
  ultimately show ?thesis using wf by (simp add: cache_wf_def)
qed

lemma find_way_Some:
  "find_way c tag i ws = Some w \<Longrightarrow> w \<in> set ws \<and> ce_tag (blk c w i) = tag \<and> ce_valid (blk c w i)"
  by (induction ws) (auto split: if_splits)

lemma find_way_cong:
  "(\<And>w. w \<in> set ws \<Longrightarrow> ce_tag (blk c' w i) = ce_tag (blk c w i) \<and> ce_valid (blk c' w i) = ce_valid (blk c w i)) \<Longrightarrow>
   find_way c' tag i ws = find_way c tag i ws"
  by (induction ws) auto

lemma cache_hitD:
  assumes wf: "cache_wf c" and h: "cache_hit c addr = Some (index, way, offset)"
  shows "way < length (blocks c)" "index < length (blocks c ! way)"
    "length (ce_data (blk c way index)) = unat (word_size c)"
    "ce_valid (blk c way index)" "\<exists>idx. addr_separete c addr = (ce_tag (blk c way index), idx, offset) \<and> index = unat idx"
    "unat (drop_bit 2 offset) < unat (word_size c)"
proof -
  obtain tag idx where s: "addr_separete c addr = (tag, idx, offset)" and i: "index = unat idx"
    and f: "find_way c tag index [0..<unat (way_size c)] = Some way"
    using h by (auto simp: cache_hit_def split: prod.splits)
  from find_way_Some [OF f] have w: "way < unat (way_size c)" and t: "ce_tag (blk c way index) = tag"
    and v: "ce_valid (blk c way index)" by auto
  show wl: "way < length (blocks c)" using w wf by (simp add: cache_wf_def)
  show il: "index < length (blocks c ! way)"
    using wl wf index_in_range [OF s] i by (simp add: cache_wf_def)
  show "length (ce_data (blk c way index)) = unat (word_size c)"
    using wl il wf by (auto simp: cache_wf_def)
  show "ce_valid (blk c way index)" by (rule v)
  show "\<exists>idx. addr_separete c addr = (ce_tag (blk c way index), idx, offset) \<and> index = unat idx"
    using s t i by blast
  show "unat (drop_bit 2 offset) < unat (word_size c)" by (rule word_index_in_range [OF wf s])
qed

section \<open>Hits are a word store\<close>

text \<open>Changing data, dirty bit or access time of a block changes no lookup and no shape.\<close>

lemma blk_set_blk:
  "way < length (blocks c) \<Longrightarrow> index < length (blocks c ! way) \<Longrightarrow>
   blk (set_blk way index e c) w i = (if w = way \<and> i = index then e else blk c w i)"
  by (auto simp: set_blk_def nth_list_update)

lemma set_blk_simps [simp]:
  "offset_len (set_blk w i e c) = offset_len c" "index_len (set_blk w i e c) = index_len c"
  "word_size (set_blk w i e c) = word_size c" "way_size (set_blk w i e c) = way_size c"
  "addr_separete (set_blk w i e c) = addr_separete c"
  "status (set_blk w i e c) = status c" "next_status (set_blk w i e c) = next_status c"
  "cache_op_state (set_blk w i e c) = cache_op_state c" "op_deleted (set_blk w i e c) = op_deleted c"
  "length (blocks (set_blk w i e c)) = length (blocks c)"
  by (simp_all add: set_blk_def addr_separete_def fun_eq_iff)

lemma cache_wf_set_blk:
  assumes "cache_wf c" "way < length (blocks c)" "length (ce_data e) = unat (word_size c)"
  shows "cache_wf (set_blk way index e c)"
  using assms
  by (auto simp: cache_wf_def set_blk_def nth_list_update dest!: set_update_subset_insert [THEN subsetD])

lemma cache_wf_counts [simp]:
  "cache_wf (c\<lparr>cache_hit_counts := n\<rparr>) = cache_wf c"
  "cache_wf (c\<lparr>next_status := s\<rparr>) = cache_wf c"
  "cache_wf (c\<lparr>cache_op_state := op\<rparr>) = cache_wf c"
  "cache_wf (c\<lparr>op_deleted := b\<rparr>) = cache_wf c"
  by (simp_all add: cache_wf_def)

lemma addr_separete_counts [simp]:
  "addr_separete (c\<lparr>cache_hit_counts := n\<rparr>) = addr_separete c"
  "addr_separete (c\<lparr>next_status := s\<rparr>) = addr_separete c"
  "addr_separete (c\<lparr>cache_op_state := op\<rparr>) = addr_separete c"
  "addr_separete (c\<lparr>op_deleted := b\<rparr>) = addr_separete c"
  by (simp_all add: addr_separete_def fun_eq_iff)

lemma cache_hit_cong:
  assumes "addr_separete c' = addr_separete c" "way_size c' = way_size c"
    "\<And>w i. ce_tag (blk c' w i) = ce_tag (blk c w i) \<and> ce_valid (blk c' w i) = ce_valid (blk c w i)"
  shows "cache_hit c' a = cache_hit c a"
  using assms find_way_cong [of _ c' _ c] by (simp add: cache_hit_def split: prod.splits)

text \<open>What an access that hits does, for a load and for a store.\<close>

lemma hit_access_hit:
  assumes wf: "cache_wf c" and h: "cache_hit c addr = Some (index, way, offset)"
  shows "\<exists>c'. hit_access now addr upd c =
      Some (Some (offset, ce_data (blk c way index) ! unat (drop_bit 2 offset)), c') \<and>
    cache_wf c' \<and> (\<forall>a. cache_hit c' a = cache_hit c a) \<and>
    (\<forall>w i. ce_data (blk c' w i) = (if w = way \<and> i = index then
        (case upd of None \<Rightarrow> ce_data (blk c w i)
         | Some f \<Rightarrow> (ce_data (blk c w i))[unat (drop_bit 2 offset) :=
             f offset (ce_data (blk c w i) ! unat (drop_bit 2 offset))]) else ce_data (blk c w i)))"
proof -
  note d = cache_hitD [OF wf h]
  let ?e = "blk c way index" and ?k = "unat (drop_bit 2 offset)"
  let ?e1 = "case upd of None \<Rightarrow> ?e
    | Some f \<Rightarrow> ?e\<lparr>ce_data := (ce_data ?e)[?k := f offset (ce_data ?e ! ?k)], ce_dirty := True\<rparr>"
  let ?e' = "?e1\<lparr>ce_last_access := now\<rparr>" and ?c1 = "c\<lparr>cache_hit_counts := cache_hit_counts c + 1\<rparr>"
  let ?c' = "set_blk way index ?e' ?c1"
  have "hit_access now addr upd c = Some (Some (offset, ce_data ?e ! ?k), ?c')"
    using h d by (cases upd) (simp_all add: hit_access_def Let_def)
  moreover have "cache_wf ?c'"
    using wf d by (intro cache_wf_set_blk) (auto split: option.splits)
  moreover have "cache_hit ?c' a = cache_hit c a" for a
    using d by (intro cache_hit_cong) (auto simp: blk_set_blk split: option.splits)
  moreover have "ce_data (blk ?c' w i) = (if w = way \<and> i = index then
        (case upd of None \<Rightarrow> ce_data (blk c w i)
         | Some f \<Rightarrow> (ce_data (blk c w i))[?k := f offset (ce_data (blk c w i) ! ?k)])
        else ce_data (blk c w i))" for w i
    using d by (auto simp: blk_set_blk split: option.splits)
  ultimately show ?thesis by blast
qed

definition cache_ok :: "cache \<Rightarrow> u32 \<Rightarrow> bool" where
  "cache_ok c a \<longleftrightarrow> cache_wf c \<and> a mod 4 = 0 \<and> cache_hit c a \<noteq> None"

definition cache_rd :: "u32 \<Rightarrow> cache \<Rightarrow> u32 \<Rightarrow> u32 option" where
  "cache_rd now c a = map_option fst (cache_fetch_word now a DATALOAD c)"

definition cache_wr :: "u32 \<Rightarrow> cache \<Rightarrow> u32 \<Rightarrow> u32 \<Rightarrow> cache option" where
  "cache_wr now c a v = map_option fst (cache_store_word now a v c)"

lemma cache_rd_hit:
  assumes "cache_wf c" "a mod 4 = 0" "cache_hit c a = Some (index, way, offset)"
  shows "cache_rd now c a = Some (ce_data (blk c way index) ! unat (drop_bit 2 offset))"
  using hit_access_hit [OF assms(1,3), of now None] assms(2)
  by (auto simp: cache_rd_def cache_fetch_word_def)

lemma cache_wr_hit:
  assumes "cache_wf c" "a mod 4 = 0" "cache_hit c a = Some (index, way, offset)"
  shows "\<exists>c'. cache_wr now c a v = Some c' \<and> cache_wf c' \<and> (\<forall>b. cache_hit c' b = cache_hit c b) \<and>
    (\<forall>w i. ce_data (blk c' w i) = (if w = way \<and> i = index
       then (ce_data (blk c w i))[unat (drop_bit 2 offset) := v] else ce_data (blk c w i)))"
  using hit_access_hit [OF assms(1,3), of now "Some (\<lambda>offset w. v)"] assms(2)
  by (auto simp: cache_wr_def cache_store_word_def)

text \<open>Two aligned addresses that hit the same word of the same block are equal.\<close>

lemma hit_word_inj:
  assumes wf: "cache_wf c" and al: "a mod 4 = 0" "b mod 4 = 0"
    and ha: "cache_hit c a = Some (index, way, oa)" and hb: "cache_hit c b = Some (index, way, ob)"
    and eq: "unat (drop_bit 2 oa) = unat (drop_bit 2 ob)"
  shows "a = b"
proof -
  obtain i j where sa: "addr_separete c a = (ce_tag (blk c way index), i, oa)" "index = unat i"
    and sb: "addr_separete c b = (ce_tag (blk c way index), j, ob)" "index = unat j"
    using cache_hitD(5) [OF wf ha] cache_hitD(5) [OF wf hb] by blast
  have low: "\<not> bit x n" if "x mod 4 = 0" "n < 2" for x :: u32 and n
  proof -
    have "take_bit 2 x = 0" using that(1) by (simp add: take_bit_eq_mod)
    then have "\<not> bit (take_bit 2 x) n" by simp
    with that(2) show ?thesis by (simp add: bit_take_bit_iff)
  qed
  have "drop_bit 2 oa = drop_bit 2 ob" using eq by (simp add: word_unat_eq_iff)
  then have "bit (drop_bit 2 oa) n = bit (drop_bit 2 ob) n" for n by simp
  then have hi: "bit oa (n + 2) = bit ob (n + 2)" for n by (simp add: bit_drop_bit_eq)
  have "oa = ob"
  proof (rule bit_word_eqI)
    fix n
    show "bit oa n = bit ob n"
    proof (cases "n < 2")
      case True
      then show ?thesis
        using low [OF al(1)] low [OF al(2)] addr_separete_bits(3) [OF sa(1)] addr_separete_bits(3) [OF sb(1)]
        by simp
    next
      case False
      then have "n - 2 + 2 = n" by simp
      then show ?thesis using hi [of "n - 2"] by metis
    qed
  qed
  moreover have "i = j" using sa(2) sb(2) by (simp add: word_unat_eq_iff)
  ultimately show ?thesis using sa(1) sb(1) addr_separete_inj [of c a b] by simp
qed

interpretation cache_words: word_store "cache_rd now" "cache_wr now" cache_ok for now
proof
  show "cache_ok s a \<Longrightarrow> cache_rd now s a \<noteq> None" for s a
    using cache_rd_hit [of s a] by (cases "cache_hit s a") (fastforce simp: cache_ok_def)+
  show "cache_ok s a \<Longrightarrow> cache_wr now s a v \<noteq> None" for s a v
    using cache_wr_hit [of s a _ _ _ now v] by (cases "cache_hit s a") (fastforce simp: cache_ok_def)+
  fix s a v s' b
  assume st: "cache_wr now s a v = Some s'" and oa: "cache_ok s a"
  obtain ia wa fa where ha: "cache_hit s a = Some (ia, wa, fa)" using oa by (auto simp: cache_ok_def)
  have wf: "cache_wf s" and al: "a mod 4 = 0" using oa by (simp_all add: cache_ok_def)
  have w: "cache_wf s'" "\<forall>b. cache_hit s' b = cache_hit s b"
    "\<forall>w i. ce_data (blk s' w i) = (if w = wa \<and> i = ia
       then (ce_data (blk s w i))[unat (drop_bit 2 fa) := v] else ce_data (blk s w i))"
    using cache_wr_hit [OF wf al ha, of now v] st by auto
  show "cache_ok s' b = cache_ok s b" using w wf by (simp add: cache_ok_def)
  assume ob: "cache_ok s b"
  obtain ib wb fb where hb: "cache_hit s b = Some (ib, wb, fb)" using ob by (auto simp: cache_ok_def)
  have alb: "b mod 4 = 0" using ob by (simp add: cache_ok_def)
  have rb: "cache_rd now s b = Some (ce_data (blk s wb ib) ! unat (drop_bit 2 fb))"
    and rb': "cache_rd now s' b = Some (ce_data (blk s' wb ib) ! unat (drop_bit 2 fb))"
    using cache_rd_hit [OF wf alb hb] cache_rd_hit [OF w(1) alb, of ib wb fb] w(2) hb by simp_all
  show "cache_rd now s' b = (if b = a then Some v else cache_rd now s b)"
  proof (cases "b = a")
    case True
    with ha hb rb' w(3) cache_hitD(3,6) [OF wf ha] show ?thesis by simp
  next
    case False
    then have "\<not> (wb = wa \<and> ib = ia \<and> unat (drop_bit 2 fa) = unat (drop_bit 2 fb))"
      using hit_word_inj [OF wf al alb ha] hb by metis
    with False rb rb' w(3) show ?thesis by (auto simp: nth_list_update)
  qed
qed

end
