(* ===== verification/Cache_Fill.thy ===== *)
theory Cache_Fill
  imports Cache_Facts
begin

unbundle bit_operations_syntax

text \<open>
  The victim selection and the two data movers of the cache: the refill machine and the write-back
  machine, each a run of single steps over the bus.
\<close>

section \<open>The victim\<close>

lemma setline_victim_eq: "setline_victim c i ws lru = find_victim c i ws lru"
  by (induction ws arbitrary: lru) (auto simp: Let_def)

definition older :: "cache \<Rightarrow> nat \<Rightarrow> nat \<Rightarrow> nat \<Rightarrow> bool" where
  "older c i v w \<longleftrightarrow> sint (ce_last_access (blk c v i)) \<le> sint (ce_last_access (blk c w i))"

text \<open>
  The loop returns the first free way if there is one, and otherwise a way that was accessed no
  later than any other.
\<close>

lemma find_victim_spec:
  assumes "find_victim c i ws lru = (free, v)"
  shows "if free then v \<in> set ws \<and> \<not> ce_valid (blk c v i)
    else (\<forall>w \<in> set ws. ce_valid (blk c w i)) \<and> (v = lru \<or> v \<in> set ws) \<and>
      (\<forall>w \<in> insert lru (set ws). older c i v w)"
  using assms
proof (induction ws arbitrary: lru)
  case Nil
  then show ?case by (simp add: older_def)
next
  case (Cons w ws)
  let ?lru = "if sint (ce_last_access (blk c lru i)) > sint (ce_last_access (blk c w i)) then w else lru"
  show ?case
  proof (cases "ce_valid (blk c w i)")
    case True
    then have "find_victim c i ws ?lru = (free, v)" using Cons.prems by (simp add: Let_def)
    from Cons.IH [OF this] True show ?thesis by (auto simp: older_def split: if_splits)
  next
    case False
    with Cons.prems show ?thesis by (auto simp: Let_def)
  qed
qed

section \<open>The words of a block\<close>

definition block_base :: "cache \<Rightarrow> u32 \<Rightarrow> u32" where
  "block_base c addr = addr AND NOT (push_bit (offset_len c) 1 - 1)"

lemma bit_block_base: "bit (block_base c addr) n \<longleftrightarrow> offset_len c \<le> n \<and> bit addr n"
  unfolding block_base_def exp_minus_1_mask
  using bit_u32_lt [of addr n] by (auto simp: bit_simps)

lemma bit_small_offset:
  assumes "x < 2 ^ offset_len c" "x < 2 ^ 32" "bit (of_nat x :: u32) n"
  shows "n < offset_len c"
proof (rule ccontr)
  assume "\<not> n < offset_len c"
  then have "(2::nat) ^ offset_len c \<le> 2 ^ n" by (intro power_increasing) auto
  with assms(1) have "x < 2 ^ n" by (rule less_le_trans)
  then have "\<not> bit x n" by (simp add: bit_iff_odd)
  moreover have "bit x n" using assms(3) by (simp add: bit_of_nat_iff)
  ultimately show False by simp
qed

lemma block_word_or:
  assumes "x < 2 ^ offset_len c" "x < 2 ^ 32"
  shows "block_base c addr + of_nat x = block_base c addr OR of_nat x"
  by (rule disjunctive_add) (use bit_small_offset [OF assms] in \<open>force simp: bit_block_base\<close>)

text \<open>Every word of a block has the tag and the index of the block.\<close>

lemma addr_separete_block:
  assumes s: "addr_separete c addr = (tag, idx, off)" and x: "x < 2 ^ offset_len c" "x < 2 ^ 32"
  shows "addr_separete c (block_base c addr + of_nat x) = (tag, idx, of_nat x)"
proof -
  let ?a = "block_base c addr + of_nat x"
  obtain t i f where s': "addr_separete c ?a = (t, i, f)" by (cases "addr_separete c ?a")
  have b: "bit ?a n \<longleftrightarrow> (if n < offset_len c then bit (of_nat x :: u32) n else bit addr n)" for n
    unfolding block_word_or [OF x] using bit_small_offset [OF x] by (auto simp: bit_or_iff bit_block_base)
  note p = addr_separete_bits [OF s] and q = addr_separete_bits [OF s']
  have "t = tag" by (rule bit_word_eqI) (simp add: p q b)
  moreover have "i = idx" by (rule bit_word_eqI) (simp add: p q b)
  moreover have "f = of_nat x"
    by (rule bit_word_eqI) (use bit_small_offset [OF x] in \<open>auto simp: q b\<close>)
  ultimately show ?thesis using s' by simp
qed

lemma block_base_offset:
  assumes "addr_separete c addr = (tag, idx, off)"
  shows "block_base c addr + off = addr"
proof -
  have "block_base c addr + off = block_base c addr OR off"
    by (rule disjunctive_add) (auto simp: bit_block_base addr_separete_bits(3) [OF assms])
  also have "\<dots> = addr"
    by (rule bit_word_eqI) (auto simp: bit_or_iff bit_block_base addr_separete_bits(3) [OF assms])
  finally show ?thesis .
qed

lemma mod4_bits: "(x :: u32) mod 4 = 0 \<longleftrightarrow> \<not> bit x 0 \<and> \<not> bit x 1"
proof -
  have "x mod 4 = take_bit 2 x" by (simp add: take_bit_eq_mod)
  moreover have "take_bit 2 x = 0 \<longleftrightarrow> \<not> bit x 0 \<and> \<not> bit x 1"
    by (auto simp: bit_blast)
  ultimately show ?thesis by simp
qed

lemma block_size_words:
  assumes "cache_wf c"
  shows "4 * unat (word_size c) = 2 ^ offset_len c"
proof -
  obtain k where "offset_len c = 2 + k" using assms le_Suc_ex [of 2 "offset_len c"] unfolding cache_wf_def by blast
  with assms show ?thesis by (simp add: cache_wf_def power_add)
qed

lemma word_addr_facts:
  assumes wf: "cache_wf c" and k: "k < unat (word_size c)"
  shows "4 * k < 2 ^ offset_len c" "4 * k < 2 ^ 32" "(block_base c addr + 4 * of_nat k) mod 4 = 0"
proof -
  show 1: "4 * k < 2 ^ offset_len c" using block_size_words [OF wf] k by simp
  have "(2::nat) ^ offset_len c \<le> 2 ^ 32" using wf by (intro power_increasing) (auto simp: cache_wf_def)
  with 1 show 2: "4 * k < 2 ^ 32" by simp
  have "\<not> bit (of_nat (4 * k) :: u32) n" if "n < 2" for n
  proof -
    have "bit (4 * k) n = bit (push_bit 2 k) n" by (simp add: push_bit_eq_mult mult.commute)
    with that have "\<not> bit (4 * k) n" by (simp add: bit_push_bit_iff)
    then show ?thesis by (simp only: bit_of_nat_iff) simp
  qed
  then have "\<not> bit (block_base c addr + of_nat (4 * k)) n" if "n < 2" for n
    unfolding block_word_or [OF 1 2] using that wf by (auto simp: bit_or_iff bit_block_base cache_wf_def)
  then show "(block_base c addr + 4 * of_nat k) mod 4 = 0"
    unfolding mod4_bits by simp
qed

section \<open>Words that the bus can deliver\<close>

text \<open>\<open>word_avail\<close>: the address is readable memory and its access would be served now.\<close>

definition word_avail :: "u32 \<Rightarrow> u32 \<Rightarrow> int \<Rightarrow> client \<Rightarrow> mapper \<Rightarrow> bool" where
  "word_avail now addr md cl m \<longleftrightarrow>
     (case first_mapping (ranges m) addr of None \<Rightarrow> False
      | Some i \<Rightarrow> ram_at m addr i \<and> canRead (obj_range (ranges m ! i)) \<and> access_ready now addr md cl m i)"

lemma request_word_other:
  "ranges (request_word now a md cl m) = ranges m"
  "mapper_wf (request_word now a md cl m) = mapper_wf m"
  "debug_mode (request_word now a md cl m) = debug_mode m"
  "bus_latency (request_word now a md cl m) = bus_latency m"
  "byteswapped (request_word now a md cl m) = byteswapped m"
  "opt_bigendian (request_word now a md cl m) = opt_bigendian m"
  "bus_arbiter (request_word now a md cl m) = bus_arbiter m"
  by (auto simp: request_word_def split: option.split)

lemma request_word_keeps:
  "access_requests_time m key = Some t \<Longrightarrow>
   access_requests_time (request_word now a md cl m) key = Some t"
  by (auto simp: request_word_def split: option.split)

lemma word_avail_request:
  "word_avail t a md cl m \<Longrightarrow> word_avail t a md cl (request_word now b md' cl' m)"
  by (auto simp: word_avail_def ram_at_def access_ready_def request_word_other request_word_keeps
      split: option.splits)

lemma mem_view_cong: "ranges m' = ranges m \<Longrightarrow> mem_view m' = mem_view m"
  by (simp add: mem_view_def fun_eq_iff cong: option.case_cong)

lemma request_words_keeps:
  assumes "mapper_wf m"
  shows "mapper_wf (request_words now a md cl n m)" "mem_view (request_words now a md cl n m) = mem_view m"
    "byteswapped (request_words now a md cl n m) = byteswapped m"
    "opt_bigendian (request_words now a md cl n m) = opt_bigendian m"
    "word_avail t b md' cl' m \<Longrightarrow> word_avail t b md' cl' (request_words now a md cl n m)"
  using assms unfolding request_words_def
  by (induction n) (auto simp: request_word_other word_avail_request mem_view_def fun_eq_iff cong: option.case_cong)

lemma same_layout_access_ready:
  assumes "same_layout m' m" "i < length (ranges m)"
    "access_requests_time m' (request_key a md c) = access_requests_time m (request_key a md c)"
  shows "access_ready now a md c m' i = access_ready now a md c m i"
  using assms same_layout_nth [OF assms(1,2)]
  by (auto simp: access_ready_def same_layout_def same_window_def split: option.splits)

text \<open>An available word is delivered at once, and the other words stay available.\<close>

lemma deliver_word:
  assumes wf: "mapper_wf m" and al: "addr mod 4 = 0" and av: "word_avail now addr md cl m"
  shows "\<exists>w m2 m3. mem_ready now addr md cl m = Some (True, m2) \<and>
    mem_fetch_word now addr md cl m2 = Some (w, m3, []) \<and> view_word m addr = Some w \<and>
    mem_view m3 = mem_view m \<and> mapper_wf m3 \<and> byteswapped m3 = byteswapped m \<and>
    opt_bigendian m3 = opt_bigendian m \<and>
    (\<forall>t a. a \<noteq> addr \<longrightarrow> word_avail t a md cl m \<longrightarrow> word_avail t a md cl m3)"
proof -
  obtain i where mp: "first_mapping (ranges m) addr = Some i" and ram: "ram_at m addr i"
    and rd: "canRead (obj_range (ranges m ! i))" and rdy: "access_ready now addr md cl m i"
    using av by (auto simp: word_avail_def split: option.splits)
  obtain m2 where m2: "mem_ready now addr md cl m = Some (True, m2)"
    and m2': "m2 = m \<or> m2 = m\<lparr>last_used_mapping := Some i\<rparr>"
    using mem_ready_mapped [OF wf mp, of now md cl] rdy by auto
  have wf2: "mapper_wf m2" using m2' wf mp by auto
  have eq2: "ranges m2 = ranges m" "access_requests_time m2 = access_requests_time m"
    "opt_bigendian m2 = opt_bigendian m" "same_layout m2 m"
    using m2' by (auto simp: same_layout_def list_all2_conv_all_nth same_window_def)
  then have v2: "mem_view m2 = mem_view m" by (intro mem_view_cong)
  have rdy2: "access_ready now addr md cl m2 i"
    using rdy m2' by (auto simp: access_ready_def cong: option.case_cong)
  obtain w m3 where f: "mem_fetch_word now addr md cl m2 = Some (w, m3, [])" "view_word m2 addr = Some w"
    "mem_view m3 = mem_view m2" "mapper_wf m3" "same_layout m3 m2"
    "access_requests_time m3 = (access_requests_time m2)(request_key addr md cl := None)"
    using mem_fetch_word_ram [OF wf2 al _ _ rdy2] ram rd eq2(1) by (auto simp: ram_at_def)
  have lay: "same_layout m3 m"
    using f(5) m2' by (auto simp: same_layout_def)
  have "word_avail t a md cl m3" if "a \<noteq> addr" "word_avail t a md cl m" for t a
  proof -
    have "access_requests_time m3 (request_key a md cl) = access_requests_time m (request_key a md cl)"
      using that(1) f(6) eq2(2) by (simp add: request_key_def)
    with that(2) show ?thesis
      by (auto simp: word_avail_def same_layout_first_mapping [OF lay] same_layout_ram_at [OF lay]
          same_layout_perms [OF lay] same_layout_access_ready [OF lay] dest!: first_mapping_SomeD
          split: option.splits)
  qed
  moreover have "byteswapped m3 = byteswapped m" "opt_bigendian m3 = opt_bigendian m"
    using f(4) wf lay by (auto simp: mapper_wf_def same_layout_def)
  moreover have "view_word m addr = Some w" using f(2) v2 eq2(3) by (simp add: view_word_def)
  ultimately show ?thesis using m2 f v2 by auto
qed

section \<open>The refill machine\<close>

text \<open>
  \<open>filling c addr tag idx way md cl k\<close>: the machine is filling the block of \<open>addr\<close> into way
  \<open>way\<close> and has \<open>k\<close> words so far.
\<close>

definition fill_op :: "cache \<Rightarrow> u32 \<Rightarrow> u32 \<Rightarrow> nat \<Rightarrow> int \<Rightarrow> bool \<Rightarrow> client \<Rightarrow> nat \<Rightarrow> cache_op" where
  "fill_op c addr idx way md iv cl k =
     \<lparr>co_counter = word_size c - of_nat k, co_requested_addr = addr, co_way = way, co_index = unat idx,
      co_mode = md, co_last_invalidate = iv, co_client = cl\<rparr>"

definition filling :: "cache \<Rightarrow> u32 \<Rightarrow> u32 \<Rightarrow> u32 \<Rightarrow> nat \<Rightarrow> int \<Rightarrow> client \<Rightarrow> nat \<Rightarrow> bool" where
  "filling c addr tag idx way md cl k \<longleftrightarrow>
     cache_wf c \<and> (\<exists>off. addr_separete c addr = (tag, idx, off)) \<and> way < length (blocks c) \<and>
     (md = INSTFETCH \<or> md = DATALOAD) \<and> \<not> op_deleted c \<and>
     (\<exists>md' iv. cache_op_state c = Some (fill_op c addr idx way md' iv cl k) \<and>
        md = (if md' = INSTFETCH then INSTFETCH else DATALOAD))"

definition put_word :: "nat \<Rightarrow> nat \<Rightarrow> nat \<Rightarrow> u32 \<Rightarrow> cache \<Rightarrow> cache" where
  "put_word way index k w c =
     set_blk way index ((blk c way index)\<lparr>ce_data := (ce_data (blk c way index))[k := w]\<rparr>) c"

definition seal_block :: "nat \<Rightarrow> nat \<Rightarrow> u32 \<Rightarrow> cache \<Rightarrow> cache" where
  "seal_block way index tag c =
     (set_blk way index ((blk c way index)\<lparr>ce_tag := tag, ce_valid := True, ce_dirty := False\<rparr>) c)
       \<lparr>next_status := CACHE_IDLE, cache_op_state := map_option (co_counter_update (\<lambda>_. 0)) (cache_op_state c),
        op_deleted := True\<rparr>"

lemma fill_counter:
  fixes n :: u32
  assumes "k < unat n"
  shows "unat (n - (n - of_nat k)) = k" "n - of_nat k - 1 = n - of_nat (Suc k)"
    "n - of_nat k - 1 = 0 \<longleftrightarrow> Suc k = unat n"
proof -
  have "k < 2 ^ 32" using assms unsigned_less [of n, where 'a = nat] by simp
  then show "unat (n - (n - of_nat k)) = k" by (simp add: unat_of_nat)
  show e: "n - of_nat k - 1 = n - of_nat (Suc k)" by simp
  have "n - of_nat (Suc k) = 0 \<longleftrightarrow> n = of_nat (Suc k)" by simp
  also have "\<dots> \<longleftrightarrow> unat n = Suc k"
  proof -
    have "Suc k < 2 ^ 32" using assms unsigned_less [of n, where 'a = nat] by simp
    then have "unat (of_nat (Suc k) :: u32) = Suc k" by (simp only: unat_of_nat) simp
    then show ?thesis by (metis word_unat_eq_iff)
  qed
  finally show "n - of_nat k - 1 = 0 \<longleftrightarrow> Suc k = unat n" unfolding e by auto
qed

text \<open>One step of the machine when the bus serves the access.\<close>

lemma cache_fetch_served:
  assumes "cache_op_state c = Some op" and "\<not> op_deleted c"
    and "fa = (co_requested_addr op AND NOT (push_bit (offset_len c) 1 - 1)) + (word_size c - co_counter op) * 4"
    and "md = (if co_mode op = INSTFETCH then INSTFETCH else DATALOAD)"
    and "m1 = (if co_counter op = word_size c
               then request_words now fa md (co_client op) (unat (word_size c)) m else m)"
    and "mem_ready now fa md (co_client op) m1 = Some (True, m2)"
    and "mem_fetch_word now fa md (co_client op) m2 = Some (w, m3, es)"
    and "k = unat (word_size c - co_counter op)" "k < length (ce_data (blk c (co_way op) (co_index op)))"
    and "addr_separete c fa = (tag, idx, off)" "co_index op = unat idx"
  shows "cache_fetch now c m = Some
    (if co_counter op - 1 = 0
     then (seal_block (co_way op) (unat idx) tag (put_word (co_way op) (unat idx) k (host_to_mips_word m3 w) c),
           mem_release_bus now (co_client op) m3, es)
     else ((put_word (co_way op) (unat idx) k (host_to_mips_word m3 w) c)
             \<lparr>cache_op_state := Some (op\<lparr>co_counter := co_counter op - 1\<rparr>)\<rparr>, m3, es))"
  unfolding cache_fetch_def assms(1) Let_def Option.bind.simps assms(3) [symmetric] assms(4) [symmetric]
    assms(5) [symmetric] assms(6)
  using assms(1,2,7-) by (simp add: put_word_def seal_block_def delete_op_def)

lemma fill_step:
  assumes fl: "filling c addr tag idx way md cl k" and k: "k < unat (word_size c)" and mwf: "mapper_wf m"
    and av: "word_avail now (block_base c addr + 4 * of_nat k) md cl m"
  shows "\<exists>w m3. view_word m (block_base c addr + 4 * of_nat k) = Some w \<and>
    mem_view m3 = mem_view m \<and> mapper_wf m3 \<and> byteswapped m3 = byteswapped m \<and>
    opt_bigendian m3 = opt_bigendian m \<and>
    (\<forall>t a. a \<noteq> block_base c addr + 4 * of_nat k \<longrightarrow> word_avail t a md cl m \<longrightarrow> word_avail t a md cl m3) \<and>
    cache_fetch now c m = Some
      (if Suc k = unat (word_size c)
       then (seal_block way (unat idx) tag (put_word way (unat idx) k (host_to_mips_word m w) c),
             mem_release_bus now cl m3, [])
       else ((put_word way (unat idx) k (host_to_mips_word m w) c)
               \<lparr>cache_op_state := map_option (co_counter_update (\<lambda>_. word_size c - of_nat (Suc k))) (cache_op_state c)\<rparr>,
             m3, []))"
proof -
  let ?a = "block_base c addr + 4 * of_nat k"
  obtain off md' iv where wf: "cache_wf c" and s: "addr_separete c addr = (tag, idx, off)"
    and w: "way < length (blocks c)" and op: "cache_op_state c = Some (fill_op c addr idx way md' iv cl k)"
    and md: "md = (if md' = INSTFETCH then INSTFETCH else DATALOAD)" and del: "\<not> op_deleted c"
    using fl by (auto simp: filling_def)
  note wa = word_addr_facts(1,2) [OF wf k] word_addr_facts(3) [OF wf k, of addr]
  have sk: "addr_separete c ?a = (tag, idx, of_nat (4 * k))"
    using addr_separete_block [OF s wa(1,2)] by simp
  have il: "unat idx < length (blocks c ! way)" and dl: "length (ce_data (blk c way (unat idx))) = unat (word_size c)"
    using wf w index_in_range [OF s] by (auto simp: cache_wf_def)
  let ?m1 = "if word_size c - of_nat k = word_size c
    then request_words now ?a md cl (unat (word_size c)) m else m"
  have m1: "mapper_wf ?m1" "mem_view ?m1 = mem_view m" "byteswapped ?m1 = byteswapped m"
    "opt_bigendian ?m1 = opt_bigendian m" "word_avail t b md cl m \<Longrightarrow> word_avail t b md cl ?m1" for t b
    using request_words_keeps [OF mwf] mwf by auto
  obtain w m2 m3 where d: "mem_ready now ?a md cl ?m1 = Some (True, m2)"
    "mem_fetch_word now ?a md cl m2 = Some (w, m3, [])" "view_word ?m1 ?a = Some w"
    "mem_view m3 = mem_view ?m1" "mapper_wf m3" "byteswapped m3 = byteswapped ?m1"
    "opt_bigendian m3 = opt_bigendian ?m1"
    "\<forall>t a. a \<noteq> ?a \<longrightarrow> word_avail t a md cl ?m1 \<longrightarrow> word_avail t a md cl m3"
    using deliver_word [OF m1(1) wa(3) m1(5) [OF av]] by blast
  have v: "view_word m ?a = Some w" using d(3) m1(2,4) by (simp add: view_word_def)
  have h: "host_to_mips_word m3 w = host_to_mips_word m w" using d(6) m1(3) by (simp add: host_to_mips_word_def)
  let ?op = "fill_op c addr idx way md' iv cl k"
  have ops: "co_way ?op = way" "co_client ?op = cl" "co_index ?op = unat idx" "co_mode ?op = md'"
    "co_requested_addr ?op = addr" "co_counter ?op = word_size c - of_nat k"
    by (simp_all add: fill_op_def)
  have "cache_fetch now c m = Some
    (if co_counter ?op - 1 = 0
     then (seal_block (co_way ?op) (unat idx) tag (put_word (co_way ?op) (unat idx) k (host_to_mips_word m3 w) c),
           mem_release_bus now (co_client ?op) m3, [])
     else ((put_word (co_way ?op) (unat idx) k (host_to_mips_word m3 w) c)
             \<lparr>cache_op_state := Some (?op\<lparr>co_counter := co_counter ?op - 1\<rparr>)\<rparr>, m3, []))"
  proof (rule cache_fetch_served [OF op del])
    show "?a = (co_requested_addr ?op AND NOT (push_bit (offset_len c) 1 - 1)) + (word_size c - co_counter ?op) * 4"
      unfolding ops block_base_def by simp
    show "k = unat (word_size c - co_counter ?op)" using fill_counter(1) [OF k] by (simp only: ops)
    show "md = (if co_mode ?op = INSTFETCH then INSTFETCH else DATALOAD)" using md by (simp only: ops)
    show "addr_separete c ?a = (tag, idx, of_nat (4 * k))" by (rule sk)
    show "mem_ready now ?a md (co_client ?op) ?m1 = Some (True, m2)" using d(1) by (simp only: ops)
    show "mem_fetch_word now ?a md (co_client ?op) m2 = Some (w, m3, [])" using d(2) by (simp only: ops)
  qed (simp_all add: ops k dl)
  then have "cache_fetch now c m = Some
      (if Suc k = unat (word_size c)
       then (seal_block way (unat idx) tag (put_word way (unat idx) k (host_to_mips_word m w) c),
             mem_release_bus now cl m3, [])
       else ((put_word way (unat idx) k (host_to_mips_word m w) c)
               \<lparr>cache_op_state := map_option (co_counter_update (\<lambda>_. word_size c - of_nat (Suc k))) (cache_op_state c)\<rparr>,
             m3, []))"
    unfolding op h ops fill_counter(3) [OF k] unfolding fill_counter(2) [OF k] option.map .
  moreover have "\<forall>t a. a \<noteq> ?a \<longrightarrow> word_avail t a md cl m \<longrightarrow> word_avail t a md cl m3"
    using d(8) m1(5) by blast
  ultimately show ?thesis using v d m1(2,3,4) by (intro exI conjI) auto
qed

text \<open>A run of cache steps at the given cycles, with the exceptions it raises.\<close>

primrec cache_run :: "u32 list \<Rightarrow> cache \<Rightarrow> mapper \<Rightarrow> (cache \<times> mapper \<times> exc_info list) option" where
  "cache_run [] c m = Some (c, m, [])"
| "cache_run (t # ts) c m = do {
     (c1, m1, es1) \<leftarrow> Cache_step t c m;
     (c2, m2, es2) \<leftarrow> cache_run ts c1 m1;
     Some (c2, m2, es1 @ es2)
   }"

text \<open>What a step sees of the cache does not depend on the bookkeeping of the cycle.\<close>

definition tick :: "u32 \<Rightarrow> cache \<Rightarrow> cache" where
  "tick t c = (if t > last_state_update_time c
     then c\<lparr>status := next_status c, last_state_update_time := t\<rparr> else c)"

lemma tick_simps [simp]:
  "blocks (tick t c) = blocks c" "word_size (tick t c) = word_size c" "offset_len (tick t c) = offset_len c"
  "index_len (tick t c) = index_len c" "way_size (tick t c) = way_size c"
  "cache_op_state (tick t c) = cache_op_state c" "op_deleted (tick t c) = op_deleted c" "next_status (tick t c) = next_status c"
  "addr_separete (tick t c) = addr_separete c" "cache_wf (tick t c) = cache_wf c"
  "block_base (tick t c) = block_base c"
  by (auto simp: tick_def addr_separete_def cache_wf_def block_base_def fun_eq_iff)

lemma tick_status: "status c = next_status c \<Longrightarrow> status (tick t c) = next_status c"
  by (simp add: tick_def)

lemma filling_tick: "filling (tick t c) addr tag idx way md cl k = filling c addr tag idx way md cl k"
  by (simp add: filling_def fill_op_def)

lemma Cache_step_fetch:
  "status c = CACHE_FETCH \<Longrightarrow> next_status c = CACHE_FETCH \<Longrightarrow> Cache_step t c m = cache_fetch t (tick t c) m"
  by (simp add: Cache_step_def tick_def)

text \<open>
  The block after the fill: the words delivered so far, then what was there; sealed at the end.
\<close>

definition block_words :: "mapper \<Rightarrow> u32 \<Rightarrow> nat \<Rightarrow> u32 list" where
  "block_words m base n = map (\<lambda>j. host_to_mips_word m (the (view_word m (base + 4 * of_nat j)))) [0..<n]"

lemma put_word_simps:
  assumes "way < length (blocks c)" "index < length (blocks c ! way)"
  shows "ce_data (blk (put_word way index k w c) way index) = (ce_data (blk c way index))[k := w]"
    "(v, i) \<noteq> (way, index) \<Longrightarrow> blk (put_word way index k w c) v i = blk c v i"
    "addr_separete (put_word way index k w c) = addr_separete c"
    "word_size (put_word way index k w c) = word_size c"
    "length (blocks (put_word way index k w c)) = length (blocks c)"
    "cache_op_state (put_word way index k w c) = cache_op_state c" "op_deleted (put_word way index k w c) = op_deleted c"
    "status (put_word way index k w c) = status c" "next_status (put_word way index k w c) = next_status c"
    "offset_len (put_word way index k w c) = offset_len c"
  using assms by (auto simp: put_word_def blk_set_blk)

lemma cache_wf_put_word:
  assumes "cache_wf c" "way < length (blocks c)" "index < length (blocks c ! way)"
  shows "cache_wf (put_word way index k w c)"
  using assms unfolding put_word_def
  by (intro cache_wf_set_blk) (auto simp: cache_wf_def)

lemma block_words_cong:
  "mem_view m' = mem_view m \<Longrightarrow> opt_bigendian m' = opt_bigendian m \<Longrightarrow> byteswapped m' = byteswapped m \<Longrightarrow>
   block_words m' base n = block_words m base n"
  by (simp add: block_words_def view_word_def host_to_mips_word_def)

lemma word_addr_inj:
  assumes "cache_wf c" "j < unat (word_size c)" "k < unat (word_size c)" "j \<noteq> k"
  shows "block_base c addr + 4 * of_nat j \<noteq> block_base c addr + 4 * of_nat k"
proof
  assume "block_base c addr + 4 * of_nat j = block_base c addr + 4 * of_nat k"
  then have "unat (of_nat (4 * j) :: u32) = unat (of_nat (4 * k) :: u32)" by simp
  with word_addr_facts(2) [OF assms(1,2)] word_addr_facts(2) [OF assms(1,3)] assms(4) show False
    by (simp only: unat_of_nat) simp
qed

definition filled :: "cache \<Rightarrow> cache \<Rightarrow> mapper \<Rightarrow> u32 \<Rightarrow> u32 \<Rightarrow> nat \<Rightarrow> u32 \<Rightarrow> bool" where
  "filled c' c m tag base way idx \<longleftrightarrow>
     cache_wf c' \<and> next_status c' = CACHE_IDLE \<and> op_deleted c' \<and>
     addr_separete c' = addr_separete c \<and> way_size c' = way_size c \<and>
     ce_data (blk c' way (unat idx)) = block_words m base (unat (word_size c)) \<and>
     ce_tag (blk c' way (unat idx)) = tag \<and> ce_valid (blk c' way (unat idx)) \<and>
     \<not> ce_dirty (blk c' way (unat idx)) \<and>
     (\<forall>v i. (v, i) \<noteq> (way, unat idx) \<longrightarrow> blk c' v i = blk c v i)"

lemma fill_sealed:
  assumes wf: "cache_wf c" and w: "way < length (blocks c)" and i: "unat idx < length (blocks c ! way)"
    and n: "Suc k = unat (word_size c)"
    and pre: "take k (ce_data (blk c way (unat idx))) = block_words m base k"
    and v: "view_word m (base + 4 * of_nat k) = Some x"
  shows "filled (seal_block way (unat idx) tag (put_word way (unat idx) k (host_to_mips_word m x) c))
    c m tag base way idx"
proof -
  let ?c1 = "put_word way (unat idx) k (host_to_mips_word m x) c"
  let ?e = "(blk ?c1 way (unat idx))\<lparr>ce_tag := tag, ce_valid := True, ce_dirty := False\<rparr>"
  let ?d = "ce_data (blk c way (unat idx))"
  have wf1: "cache_wf ?c1" by (rule cache_wf_put_word [OF wf w i])
  have w1: "way < length (blocks ?c1)" "unat idx < length (blocks ?c1 ! way)"
    using w i by (simp_all add: put_word_def set_blk_def)
  have dl: "length ?d = Suc k" using wf w i n by (auto simp: cache_wf_def)
  then have "?d[k := host_to_mips_word m x] = block_words m base (Suc k)"
    using pre v by (simp add: block_words_def list_update_append upd_conv_take_nth_drop)
  then have data: "ce_data (blk ?c1 way (unat idx)) = block_words m base (Suc k)"
    using put_word_simps(1) [OF w i] by simp
  have "cache_wf (set_blk way (unat idx) ?e ?c1)"
    using w1 data n wf1 by (intro cache_wf_set_blk) (simp_all add: block_words_def put_word_simps [OF w i])
  then show ?thesis
    using w1 data n unfolding filled_def seal_block_def
    by (auto simp: blk_set_blk put_word_simps [OF w i]) (simp add: put_word_def)
qed

lemma fill_run:
  assumes "filling c addr tag idx way md cl k" "status c = CACHE_FETCH" "next_status c = CACHE_FETCH"
    and "mapper_wf m" "k < unat (word_size c)" "k + length ts \<le> unat (word_size c)"
    and "take k (ce_data (blk c way (unat idx))) = block_words m (block_base c addr) k"
    and "\<forall>t \<in> set ts. \<forall>j < unat (word_size c). k \<le> j \<longrightarrow> word_avail t (block_base c addr + 4 * of_nat j) md cl m"
  shows "\<exists>c' m'. cache_run ts c m = Some (c', m', []) \<and>
    (if k + length ts = unat (word_size c)
     then filled c' c m tag (block_base c addr) way idx \<and>
       mem_view m' = mem_view m \<and> mapper_wf m' \<and> bus_holder (bus_arbiter m') \<noteq> Some cl
     else next_status c' = CACHE_FETCH)"
  using assms
proof (induction ts arbitrary: c m k)
  case (Cons t ts)
  let ?c = "tick t c" and ?b = "block_base c addr" and ?i = "unat idx"
  have k: "k < unat (word_size c)" by (rule Cons.prems(5))
  obtain off where wf: "cache_wf c" and s: "addr_separete c addr = (tag, idx, off)" and w: "way < length (blocks c)"
    using Cons.prems(1) by (auto simp: filling_def)
  have i: "?i < length (blocks c ! way)"
    using wf w index_in_range [OF s] by (auto simp: cache_wf_def)
  have "filling ?c addr tag idx way md cl k" using Cons.prems(1) by (simp add: filling_tick)
  from fill_step [OF this _ Cons.prems(4), of t] k Cons.prems(8) obtain x m3 where
    v: "view_word m (?b + 4 * of_nat k) = Some x" and m3: "mem_view m3 = mem_view m" "mapper_wf m3"
      "byteswapped m3 = byteswapped m" "opt_bigendian m3 = opt_bigendian m"
    and av: "\<forall>t a. a \<noteq> ?b + 4 * of_nat k \<longrightarrow> word_avail t a md cl m \<longrightarrow> word_avail t a md cl m3"
    and st: "cache_fetch t ?c m = Some
      (if Suc k = unat (word_size c)
       then (seal_block way ?i tag (put_word way ?i k (host_to_mips_word m x) ?c), mem_release_bus t cl m3, [])
       else ((put_word way ?i k (host_to_mips_word m x) ?c)
               \<lparr>cache_op_state := map_option (co_counter_update (\<lambda>_. word_size c - of_nat (Suc k))) (cache_op_state c)\<rparr>,
             m3, []))" by auto
  note step = Cache_step_fetch [OF Cons.prems(2,3), of t m] st
  show ?case
  proof (cases "Suc k = unat (word_size c)")
    case n: True
    have "k + Suc (length ts) \<le> unat (word_size c)" using Cons.prems(6) by simp
    with n have True: "ts = []" by (metis add_Suc_right add_Suc_shift add_le_same_cancel1 le_zero_eq length_0_conv)
    have "filled (seal_block way ?i tag (put_word way ?i k (host_to_mips_word m x) ?c)) ?c m tag ?b way idx"
      using fill_sealed [of ?c way idx k m ?b x tag] wf w i n Cons.prems(7) v by simp
    then have "filled (seal_block way ?i tag (put_word way ?i k (host_to_mips_word m x) ?c)) c m tag ?b way idx"
      by (simp add: filled_def)
    moreover have "mem_view (mem_release_bus t cl m3) = mem_view m" "mapper_wf (mem_release_bus t cl m3)"
      using m3 mem_view_cong [of "mem_release_bus t cl m3" m3] by (simp_all add: mem_release_bus_def)
    moreover have "bus_holder (bus_arbiter (mem_release_bus t cl m3)) \<noteq> Some cl"
      using mapper_bus.rel_own by simp
    ultimately show ?thesis using True n by (simp add: step)
  next
    case n: False
    let ?c1 = "(put_word way ?i k (host_to_mips_word m x) ?c)
      \<lparr>cache_op_state := map_option (co_counter_update (\<lambda>_. word_size c - of_nat (Suc k))) (cache_op_state c)\<rparr>"
    have pw: "ce_data (blk ?c1 way ?i) = (ce_data (blk c way ?i))[k := host_to_mips_word m x]"
      "(v', i') \<noteq> (way, ?i) \<Longrightarrow> blk ?c1 v' i' = blk c v' i'" for v' i'
      using put_word_simps(1,2) [of way ?c ?i] w i by simp_all
    have base1: "block_base ?c1 addr = ?b" "word_size ?c1 = word_size c" "addr_separete ?c1 = addr_separete c"
      using w i by (simp_all add: block_base_def put_word_simps)
    have wf1: "cache_wf ?c1" using cache_wf_put_word [of ?c way ?i] wf w i by simp
    have f1: "filling ?c1 addr tag idx way md cl (Suc k)"
      using Cons.prems(1) wf1 base1 w i by (auto simp: filling_def fill_op_def put_word_simps)
    have st1: "status ?c1 = CACHE_FETCH" "next_status ?c1 = CACHE_FETCH"
      using Cons.prems(2,3) w i tick_status [of c t] by (simp_all add: put_word_simps)
    have dl: "k < length (ce_data (blk c way ?i))" using wf w i k by (auto simp: cache_wf_def)
    have "take (Suc k) (ce_data (blk ?c1 way ?i)) = block_words m ?b (Suc k)"
      using Cons.prems(7) v dl unfolding pw by (simp add: take_Suc_conv_app_nth block_words_def)
    then have pre: "take (Suc k) (ce_data (blk ?c1 way ?i)) = block_words m3 (block_base ?c1 addr) (Suc k)"
      unfolding block_words_cong [OF m3(1,4,3)] base1 .
    have avs: "\<forall>t \<in> set ts. \<forall>j < unat (word_size ?c1). Suc k \<le> j \<longrightarrow>
        word_avail t (block_base ?c1 addr + 4 * of_nat j) md cl m3"
      using av Cons.prems(8) word_addr_inj [OF wf _ k] unfolding base1 by simp
    have len: "Suc k < unat (word_size ?c1)" "Suc k + length ts \<le> unat (word_size ?c1)"
      using k n Cons.prems(6) base1 by simp_all
    obtain c' m' where r: "cache_run ts ?c1 m3 = Some (c', m', [])"
      "if Suc k + length ts = unat (word_size ?c1)
       then filled c' ?c1 m3 tag (block_base ?c1 addr) way idx \<and>
         mem_view m' = mem_view m3 \<and> mapper_wf m' \<and> bus_holder (bus_arbiter m') \<noteq> Some cl
       else next_status c' = CACHE_FETCH"
      using Cons.IH [OF f1 st1 m3(2) len pre avs] by blast
    have "filled c' ?c1 m3 tag (block_base ?c1 addr) way idx \<Longrightarrow> filled c' c m tag ?b way idx"
      using pw(2) base1 block_words_cong [OF m3(1,4,3)] by (auto simp: filled_def put_word_def)
    with r m3 n base1 show ?thesis by (auto simp: step)
  qed
qed simp

end
