(* ===== verification/Cache_Miss.thy ===== *)
theory Cache_Miss
  imports Cache_Fill
begin

unbundle bit_operations_syntax

text \<open>
  A cache miss from the request to the hit: the request selects a victim and takes the bus, the
  refill machine fills the block, and every word of the block then hits with the value memory has.
  The last section is the write-back machine.
\<close>

section \<open>Requests\<close>

lemma request_block_starts:
  assumes wf: "cache_wf c" and s: "addr_separete c addr = (tag, idx, off)"
    and r: "request_block now addr md cl c m = Some (c1, m1)"
    and idle: "status c = CACHE_IDLE" "fst (mem_acquire_bus now cl m)"
  shows "\<exists>way free. find_victim c (unat idx) [0..<unat (way_size c)] 0 = (free, way) \<and>
    way < length (blocks c) \<and> m1 = snd (mem_acquire_bus now cl m) \<and>
    next_status c1 = (if \<not> free \<and> \<not> isisolated c \<and> md \<noteq> INSTFETCH \<and> ce_dirty (blk c way (unat idx))
                      then CACHE_WB else CACHE_FETCH) \<and>
    cache_op_state c1 = Some (fill_op c addr idx way md False cl 0) \<and> \<not> op_deleted c1 \<and> blocks c1 = blocks c \<and>
    status c1 = CACHE_IDLE \<and> addr_separete c1 = addr_separete c \<and> cache_wf c1 \<and>
    way_size c1 = way_size c \<and> word_size c1 = word_size c \<and> offset_len c1 = offset_len c \<and>
    last_state_update_time c1 = last_state_update_time c"
proof -
  obtain free way where v: "find_victim c (unat idx) [0..<unat (way_size c)] 0 = (free, way)"
    by (cases "find_victim c (unat idx) [0..<unat (way_size c)] 0")
  have "0 < way_size c" using wf by (simp add: cache_wf_def)
  then have "way < unat (way_size c)"
    using find_victim_spec [OF v] by (cases free) (auto simp: word_less_nat_alt)
  then have "way < length (blocks c)" using wf by (simp add: cache_wf_def)
  moreover have "cache_wf (c\<lparr>next_status := a, cache_op_state := b, op_deleted := e, cache_miss_counts := d\<rparr>)" for a b d e
    using wf by (simp add: cache_wf_def)
  moreover have "way_size c \<noteq> 0" using \<open>0 < way_size c\<close> by auto
  ultimately show ?thesis
    using r idle s v
    by (auto simp: request_block_def Let_def fill_op_def addr_separete_def fun_eq_iff split: prod.splits if_splits)
qed

lemma find_way_only:
  assumes "w \<in> set ws" "ce_tag (blk c w i) = tag" "ce_valid (blk c w i)"
    and "\<forall>v \<in> set ws. v \<noteq> w \<longrightarrow> \<not> (ce_tag (blk c v i) = tag \<and> ce_valid (blk c v i))"
  shows "find_way c tag i ws = Some w"
  using assms by (induction ws) auto

lemma find_way_None:
  "find_way c tag i ws = None \<longleftrightarrow> (\<forall>w \<in> set ws. \<not> (ce_tag (blk c w i) = tag \<and> ce_valid (blk c w i)))"
  by (induction ws) auto

text \<open>After a fill of a block that was missing, every word of the block hits and has its value.\<close>

lemma filled_hits:
  assumes f: "filled c' c m tag (block_base c addr) way idx" and wf: "cache_wf c"
    and s: "addr_separete c addr = (tag, idx, off)" and w: "way < length (blocks c)"
    and miss: "cache_hit c addr = None" and j: "j < unat (word_size c)"
  shows "cache_rd now c' (block_base c addr + 4 * of_nat j) =
    Some (host_to_mips_word m (the (view_word m (block_base c addr + 4 * of_nat j))))"
proof -
  let ?a = "block_base c addr + 4 * of_nat j"
  have wf': "cache_wf c'" and sep: "addr_separete c' = addr_separete c" "way_size c' = way_size c"
    using f by (auto simp: filled_def)
  note wa = word_addr_facts(1,2) [OF wf j] word_addr_facts(3) [OF wf j, of addr]
  have sa: "addr_separete c ?a = (tag, idx, of_nat (4 * j))"
    using addr_separete_block [OF s wa(1,2)] by simp
  have no: "\<forall>v \<in> set [0..<unat (way_size c)]. \<not> (ce_tag (blk c v (unat idx)) = tag \<and> ce_valid (blk c v (unat idx)))"
    using miss s unfolding cache_hit_def by (simp add: find_way_None)
  have "find_way c' tag (unat idx) [0..<unat (way_size c')] = Some way"
    using f no w wf sep by (intro find_way_only) (auto simp: filled_def cache_wf_def)
  then have h: "cache_hit c' ?a = Some (unat idx, way, of_nat (4 * j))"
    using sa sep by (simp add: cache_hit_def)
  have "unat (drop_bit 2 (of_nat (4 * j) :: u32)) = j"
    using wa(2) by (simp only: unat_drop_bit_eq unat_of_nat) (simp add: drop_bit_eq_div)
  then have "cache_rd now c' ?a = Some (ce_data (blk c' way (unat idx)) ! j)"
    using cache_rd_hit [OF wf' wa(3) h] by simp
  then show ?thesis using f j by (simp add: filled_def block_words_def)
qed

lemma aligned_word_index: "(x :: u32) mod 4 = 0 \<Longrightarrow> x = 4 * of_nat (unat (drop_bit 2 x))"
proof -
  assume "x mod 4 = 0"
  then have "x = push_bit 2 (drop_bit 2 x)"
    unfolding mod4_bits by (simp add: bit_blast) (simp add: numeral_2_eq_2 numeral_3_eq_3)
  then show ?thesis by (simp add: push_bit_eq_mult mult.commute)
qed

text \<open>A granted request for a missing block that needs no write-back leaves the machine ready to fill.\<close>

lemma miss_starts:
  assumes wf: "cache_wf c" and mwf: "mapper_wf m"
    and r: "request_block now addr md cl c m = Some (c1, m1)"
    and idle: "status c = CACHE_IDLE" "fst (mem_acquire_bus now cl m)" and clean: "next_status c1 = CACHE_FETCH"
    and s: "addr_separete c addr = (tag, idx, off)"
  shows "\<exists>way. way < length (blocks c) \<and>
    filling (c1\<lparr>status := CACHE_FETCH\<rparr>) addr tag idx way (if md = INSTFETCH then INSTFETCH else DATALOAD) cl 0 \<and>
    blocks c1 = blocks c \<and> addr_separete c1 = addr_separete c \<and> way_size c1 = way_size c \<and>
    word_size c1 = word_size c \<and> offset_len c1 = offset_len c \<and>
    last_state_update_time c1 = last_state_update_time c \<and>
    m1 = m\<lparr>bus_arbiter := bus_arbiter m1\<rparr> \<and> mapper_wf m1"
proof -
  obtain way free where w: "way < length (blocks c)" and m1: "m1 = snd (mem_acquire_bus now cl m)"
    and op: "cache_op_state c1 = Some (fill_op c addr idx way md False cl 0)" "\<not> op_deleted c1"
    and c1: "blocks c1 = blocks c" "addr_separete c1 = addr_separete c" "cache_wf c1" "status c1 = CACHE_IDLE"
      "way_size c1 = way_size c" "word_size c1 = word_size c" "offset_len c1 = offset_len c"
      "last_state_update_time c1 = last_state_update_time c"
    using request_block_starts [OF wf s r idle] by auto
  let ?c = "c1\<lparr>status := CACHE_FETCH\<rparr>"
  have eqs: "block_base ?c = block_base c" "addr_separete ?c = addr_separete c"
    using c1 by (simp_all add: block_base_def addr_separete_def fun_eq_iff)
  have "filling ?c addr tag idx way (if md = INSTFETCH then INSTFETCH else DATALOAD) cl 0"
    using op s w c1 eqs by (auto simp: filling_def fill_op_def cache_wf_def)
  moreover have "m1 = m\<lparr>bus_arbiter := bus_arbiter m1\<rparr>" "mapper_wf m1"
    using m1 mwf by (simp_all add: mem_acquire_bus_def split: prod.splits)
  ultimately show ?thesis using w c1 by blast
qed

lemma miss_filled:
  assumes f: "filled c' c m tag (block_base c addr) way idx" and wf: "cache_wf c"
    and s: "addr_separete c addr = (tag, idx, off)" and w: "way < length (blocks c)"
    and miss: "cache_hit c addr = None" and al: "addr mod 4 = 0"
  shows "cache_rd now c' addr = Some (host_to_mips_word m (the (view_word m addr)))"
proof -
  let ?j = "unat (drop_bit 2 off)"
  have "off mod 4 = 0"
    using al addr_separete_bits(3) [OF s] by (simp add: mod4_bits)
  then have "off = 4 * of_nat ?j" by (rule aligned_word_index)
  then have "addr = block_base c addr + 4 * of_nat ?j" using block_base_offset [OF s] by simp
  then show ?thesis
    using filled_hits [OF f wf s w miss word_index_in_range [OF wf s], of now] by metis
qed

section \<open>Waiting for the memory\<close>

text \<open>
  \<open>word_mapped L\<close>: readable memory with latency \<open>L\<close>. Its access is served \<open>L\<close> cycles after the
  request; until then the refill machine repeats its first step.
\<close>

definition word_mapped :: "u32 \<Rightarrow> u32 \<Rightarrow> mapper \<Rightarrow> bool" where
  "word_mapped L addr m \<longleftrightarrow>
     (case first_mapping (ranges m) addr of None \<Rightarrow> False
      | Some i \<Rightarrow> ram_at m addr i \<and> canRead (obj_range (ranges m ! i)) \<and>
          bus_latency m + obj_extra_latency (ranges m ! i) = L)"

definition requested_at :: "u32 \<Rightarrow> u32 \<Rightarrow> int \<Rightarrow> client \<Rightarrow> mapper \<Rightarrow> bool" where
  "requested_at t a md cl m \<longleftrightarrow> access_requests_time m (request_key a md cl) = Some t"

lemma requested_avail:
  assumes "word_mapped L a m" "requested_at t0 a md cl m" "\<not> debug_mode m"
  shows "word_avail t a md cl m \<longleftrightarrow> L \<le> t - t0"
  using assms by (auto simp: word_mapped_def requested_at_def word_avail_def access_ready_def split: option.splits)

lemma request_words_time:
  "access_requests_time (request_words now a md cl n m) key =
     (case access_requests_time m key of Some t \<Rightarrow> Some t
      | None \<Rightarrow> if \<exists>j < n. key = request_key (a + 4 * of_nat j) md cl then Some now else None)"
proof (induction n)
  case (Suc n)
  have "request_words now a md cl (Suc n) m =
      request_word now (a + 4 * of_nat n) md cl (request_words now a md cl n m)"
    by (simp add: request_words_def)
  with Suc show ?case
    by (auto simp: request_word_def less_Suc_eq split: option.splits if_splits)
qed (simp add: request_words_def split: option.splits)

lemma request_words_same:
  "\<forall>j < n. access_requests_time m (request_key (a + 4 * of_nat j) md cl) \<noteq> None \<Longrightarrow>
   request_words now a md cl n m = m"
  unfolding request_words_def by (induction n) (auto simp: request_word_def)

lemma request_words_other:
  "ranges (request_words now a md cl n m) = ranges m"
  "bus_latency (request_words now a md cl n m) = bus_latency m"
  "debug_mode (request_words now a md cl n m) = debug_mode m"
  unfolding request_words_def by (induction n) (simp_all add: request_word_other)

text \<open>A waiting step changes nothing but the bookkeeping of the cycle and the lookup cache.\<close>

lemma wait_step:
  assumes fl: "filling c addr tag idx way md cl 0" and st: "status c = CACHE_FETCH" "next_status c = CACHE_FETCH"
    and wf: "mapper_wf m" "\<not> debug_mode m"
    and mp: "\<forall>j < unat (word_size c). word_mapped L (block_base c addr + 4 * of_nat j) m"
    and rq: "\<forall>j < unat (word_size c). requested_at t0 (block_base c addr + 4 * of_nat j) md cl m"
    and early: "\<not> L \<le> t - t0"
  shows "\<exists>l. Cache_step t c m = Some (tick t c, m\<lparr>last_used_mapping := l\<rparr>, []) \<and> mapper_wf (m\<lparr>last_used_mapping := l\<rparr>)"
proof -
  let ?b = "block_base c addr"
  obtain md' iv where op: "cache_op_state c = Some (fill_op c addr idx way md' iv cl 0)"
    and md: "md = (if md' = INSTFETCH then INSTFETCH else DATALOAD)" and cwf: "cache_wf c"
    using fl by (auto simp: filling_def)
  have n: "0 < unat (word_size c)" using cwf by (simp add: cache_wf_def)
  have "request_words t ?b md cl (unat (word_size c)) m = m"
    using rq by (intro request_words_same) (simp add: requested_at_def)
  moreover obtain i where i: "first_mapping (ranges m) ?b = Some i"
    using mp [rule_format, OF n] by (auto simp: word_mapped_def split: option.splits)
  moreover obtain m2 where m2: "mem_ready t ?b md cl m = Some (False, m2)" "m2 = m \<or> m2 = m\<lparr>last_used_mapping := Some i\<rparr>"
    using mem_ready_mapped [OF wf(1) i, of t md cl] requested_avail [OF mp [rule_format, OF n] rq [rule_format, OF n] wf(2), of t]
      early mp [rule_format, OF n] i
    by (auto simp: word_avail_def word_mapped_def)
  moreover have "mapper_wf m2" using m2(2) wf(1) i by auto
  moreover have "\<exists>l. m2 = m\<lparr>last_used_mapping := l\<rparr>" using m2(2) by (auto intro: exI [of _ "last_used_mapping m"])
  ultimately show ?thesis
    using op md Cache_step_fetch [OF st, of t m]
    by (auto simp: cache_fetch_def fill_op_def block_base_def Let_def)
qed

lemma wait_run:
  assumes "filling c addr tag idx way md cl 0" "status c = CACHE_FETCH" "next_status c = CACHE_FETCH"
    and "mapper_wf m" "\<not> debug_mode m"
    and "\<forall>j < unat (word_size c). word_mapped L (block_base c addr + 4 * of_nat j) m"
    and "\<forall>j < unat (word_size c). requested_at t0 (block_base c addr + 4 * of_nat j) md cl m"
    and "\<forall>t \<in> set ts. \<not> L \<le> t - t0"
  shows "\<exists>l. cache_run ts c m = Some (foldl (\<lambda>c t. tick t c) c ts, m\<lparr>last_used_mapping := l\<rparr>, []) \<and>
    mapper_wf (m\<lparr>last_used_mapping := l\<rparr>)"
  using assms
proof (induction ts arbitrary: c m)
  case Nil
  then show ?case by (auto intro: exI [of _ "last_used_mapping m"])
next
  case (Cons t ts)
  obtain l where l: "Cache_step t c m = Some (tick t c, m\<lparr>last_used_mapping := l\<rparr>, [])"
    "mapper_wf (m\<lparr>last_used_mapping := l\<rparr>)"
    using wait_step [OF Cons.prems(1-7), of t] Cons.prems(8) by auto
  let ?m = "m\<lparr>last_used_mapping := l\<rparr>"
  have keep: "word_mapped L a ?m = word_mapped L a m" "requested_at t0 a md cl ?m = requested_at t0 a md cl m" for a
    by (simp_all add: word_mapped_def requested_at_def ram_at_def cong: option.case_cong)
  have "\<exists>l'. cache_run ts (tick t c) ?m =
      Some (foldl (\<lambda>c t. tick t c) (tick t c) ts, ?m\<lparr>last_used_mapping := l'\<rparr>, []) \<and>
      mapper_wf (?m\<lparr>last_used_mapping := l'\<rparr>)"
    using Cons.prems l(2) tick_status [of c t] by (intro Cons.IH) (simp_all add: filling_tick keep)
  then show ?case using l(1) by auto
qed

lemma cache_run_append:
  "cache_run (ts @ us) c m = do {
     (c1, m1, es1) \<leftarrow> cache_run ts c m;
     (c2, m2, es2) \<leftarrow> cache_run us c1 m1;
     Some (c2, m2, es1 @ es2)
   }"
  by (induction ts arbitrary: c m) (auto split: prod.splits Option.bind_splits)

lemma foldl_tick_simps:
  "blocks (foldl (\<lambda>c t. tick t c) c ts) = blocks c" "word_size (foldl (\<lambda>c t. tick t c) c ts) = word_size c"
  "addr_separete (foldl (\<lambda>c t. tick t c) c ts) = addr_separete c"
  "way_size (foldl (\<lambda>c t. tick t c) c ts) = way_size c"
  "block_base (foldl (\<lambda>c t. tick t c) c ts) = block_base c"
  "filling (foldl (\<lambda>c t. tick t c) c ts) addr tag idx way md cl k = filling c addr tag idx way md cl k"
  "next_status (foldl (\<lambda>c t. tick t c) c ts) = next_status c"
  "status c = next_status c \<Longrightarrow> status (foldl (\<lambda>c t. tick t c) c ts) = next_status c"
  by (induction ts arbitrary: c) (simp_all add: filling_tick tick_status)

text \<open>
  A miss that needs no write-back, served: from the granted request, the block is filled after the
  latency of the memory and one cycle per word and not before, the bus is free again, and the access hits
  with the value memory has.
\<close>

lemma miss_served:
  assumes wf: "cache_wf c" and mwf: "mapper_wf m" and al: "addr mod 4 = 0"
    and miss: "cache_hit c addr = None"
    and r: "request_block now addr md cl c m = Some (c1, m1)"
    and idle: "status c = CACHE_IDLE" "fst (mem_acquire_bus now cl m)" and clean: "next_status c1 = CACHE_FETCH"
    and later: "last_state_update_time c < t0" and nd: "\<not> debug_mode m"
    and mp: "\<forall>j < unat (word_size c). word_mapped L (block_base c addr + 4 * of_nat j) m"
    and new: "\<forall>j < unat (word_size c). access_requests_time m (request_key (block_base c addr + 4 * of_nat j)
      (if md = INSTFETCH then INSTFETCH else DATALOAD) cl) = None"
    and time: "unat L + unat (word_size c) < 2 ^ 32"
    and le: "i \<le> unat L + unat (word_size c)"
  shows "\<exists>c' m'. cache_run (map (\<lambda>k. t0 + of_nat k) [0..<i]) c1 m1 = Some (c', m', []) \<and>
    (if i < unat L + unat (word_size c) then next_status c' = CACHE_FETCH
     else cache_wf c' \<and> next_status c' = CACHE_IDLE \<and> mem_view m' = mem_view m \<and>
       bus_holder (bus_arbiter m') \<noteq> Some cl \<and>
       cache_rd now' c' addr = Some (host_to_mips_word m (the (view_word m addr))))"
proof (cases "i = 0")
  case True
  then show ?thesis using clean wf by (auto simp: cache_wf_def)
next
  case False
  obtain tag idx off where s: "addr_separete c addr = (tag, idx, off)" by (cases "addr_separete c addr")
  let ?md = "if md = INSTFETCH then INSTFETCH else DATALOAD"
  obtain way where w: "way < length (blocks c)"
    and fl: "filling (c1\<lparr>status := CACHE_FETCH\<rparr>) addr tag idx way ?md cl 0"
    and c1: "blocks c1 = blocks c" "addr_separete c1 = addr_separete c" "way_size c1 = way_size c"
      "word_size c1 = word_size c" "offset_len c1 = offset_len c"
      "last_state_update_time c1 = last_state_update_time c"
    and m1: "m1 = m\<lparr>bus_arbiter := bus_arbiter m1\<rparr>" "mapper_wf m1"
    using miss_starts [OF wf mwf r idle clean s] by blast
  let ?c = "c1\<lparr>status := CACHE_FETCH\<rparr>" and ?b = "block_base c addr" and ?n = "unat (word_size c)"
  let ?m = "request_words t0 ?b ?md cl ?n m1"
  have n: "0 < ?n" using wf by (simp add: cache_wf_def)
  have eqs: "block_base ?c = block_base c" "word_size ?c = word_size c" "blocks ?c = blocks c"
    "addr_separete ?c = addr_separete c"
    using c1 by (simp_all add: block_base_def addr_separete_def fun_eq_iff)
  have m1f: "ranges m1 = ranges m" "bus_latency m1 = bus_latency m" "debug_mode m1 = debug_mode m"
    "access_requests_time m1 = access_requests_time m" "opt_bigendian m1 = opt_bigendian m"
    "byteswapped m1 = byteswapped m"
    by (subst m1(1), simp)+
  have mf: "ranges ?m = ranges m" "bus_latency ?m = bus_latency m" "\<not> debug_mode ?m" "mapper_wf ?m"
    "opt_bigendian ?m = opt_bigendian m" "byteswapped ?m = byteswapped m" "mem_view ?m = mem_view m"
    using nd request_words_keeps [OF m1(2)] mem_view_cong [OF m1f(1)]
    by (simp_all add: request_words_other m1f)
  have mp': "\<forall>j < ?n. word_mapped L (?b + 4 * of_nat j) ?m"
    using mp by (simp add: word_mapped_def ram_at_def mf cong: option.case_cong)
  have rq: "\<forall>j < ?n. requested_at t0 (?b + 4 * of_nat j) ?md cl ?m"
    using new by (auto simp: requested_at_def request_words_time m1f)
  let ?f = "\<lambda>k. t0 + of_nat k :: u32"
  have st: "status ?c = CACHE_FETCH" "next_status ?c = CACHE_FETCH" using clean by simp_all
  have wait: "\<exists>l. cache_run (map ?f [0..<n]) ?c ?m =
      Some (foldl (\<lambda>c t. tick t c) ?c (map ?f [0..<n]), ?m\<lparr>last_used_mapping := l\<rparr>, []) \<and>
      mapper_wf (?m\<lparr>last_used_mapping := l\<rparr>)" if "n \<le> unat L" for n
  proof -
    have "\<forall>t \<in> set (map ?f [0..<n]). \<not> L \<le> t - t0"
      using that time by (auto simp: word_le_nat_alt unat_of_nat)
    then show ?thesis
      using wait_run [OF fl st mf(4,3), of L t0 "map ?f [0..<n]"] mp' rq by (auto simp: eqs)
  qed
  have same: "request_words t0 ?b ?md cl ?n ?m = ?m"
    using rq by (intro request_words_same) (auto simp: requested_at_def)
  have tick: "tick t0 c1 = tick t0 ?c" using later c1(6) by (simp add: tick_def)
  obtain md' iv where op: "cache_op_state c1 = Some (fill_op c1 addr idx way md' iv cl 0)"
    "?md = (if md' = INSTFETCH then INSTFETCH else DATALOAD)"
    using fl by (auto simp: filling_def fill_op_def)
  have "cache_fetch t0 (tick t0 c1) m1 = cache_fetch t0 (tick t0 c1) ?m"
    using op same c1(4) eqs(1)
    by (simp add: cache_fetch_def fill_op_def block_base_def Let_def c1(5) flip: op(2))
  moreover have "Cache_step t0 c1 m1 = cache_fetch t0 (tick t0 c1) m1"
    using later c1(6) clean by (simp add: Cache_step_def tick_def)
  ultimately have first: "Cache_step t0 c1 m1 = Cache_step t0 ?c ?m"
    using Cache_step_fetch [OF st, of t0 ?m] tick by simp
  have "[0..<i] = 0 # [Suc 0..<i]" using False by (intro upt_conv_Cons) simp
  then have start: "cache_run (map ?f [0..<i]) c1 m1 = cache_run (map ?f [0..<i]) ?c ?m" by (simp add: first)
  show ?thesis
  proof (cases "i \<le> unat L")
    case True
    have "next_status (foldl (\<lambda>c t. tick t c) ?c (map ?f [0..<i])) = CACHE_FETCH"
      using foldl_tick_simps(7) [of ?c "map ?f [0..<i]"] clean by simp
    then show ?thesis using wait [OF True] True n by (auto simp: start)
  next
    case late: False
    let ?ts = "map ?f [0..<unat L]" and ?us = "map ?f [unat L..<i]"
    have split: "map ?f [0..<i] = ?ts @ ?us"
      using late upt_add_eq_append [of 0 "unat L" "i - unat L"] by simp
    obtain l where l: "cache_run ?ts ?c ?m = Some (foldl (\<lambda>c t. tick t c) ?c ?ts, ?m\<lparr>last_used_mapping := l\<rparr>, [])"
      "mapper_wf (?m\<lparr>last_used_mapping := l\<rparr>)" using wait by blast
    let ?c2 = "foldl (\<lambda>c t. tick t c) ?c ?ts" and ?m2 = "?m\<lparr>last_used_mapping := l\<rparr>"
    have "\<forall>t \<in> set ?us. L \<le> t - t0"
      using time le by (auto simp: word_le_nat_alt unat_of_nat)
    then have av: "\<forall>t \<in> set ?us. \<forall>j < ?n. word_avail t (?b + 4 * of_nat j) ?md cl ?m2"
      using requested_avail [OF mp' [rule_format] rq [rule_format] mf(3)]
      by (simp add: word_avail_def ram_at_def access_ready_def cong: option.case_cong)
    have v2: "mem_view ?m2 = mem_view m" using mem_view_cong [of ?m2 ?m] mf(7) by simp
    have len: "0 + length ?us = unat (word_size ?c2) \<longleftrightarrow> i = unat L + ?n"
      using late le by (auto simp: foldl_tick_simps eqs)
    have "\<exists>c' m'. cache_run ?us ?c2 ?m2 = Some (c', m', []) \<and>
        (if 0 + length ?us = unat (word_size ?c2)
         then filled c' ?c2 ?m2 tag (block_base ?c2 addr) way idx \<and>
           mem_view m' = mem_view ?m2 \<and> mapper_wf m' \<and> bus_holder (bus_arbiter m') \<noteq> Some cl
         else next_status c' = CACHE_FETCH)"
      using fl st l(2) av n late le by (intro fill_run [where k = 0 and md = ?md])
        (simp_all add: foldl_tick_simps eqs block_words_def)
    then obtain c' m' where res: "cache_run ?us ?c2 ?m2 = Some (c', m', [])"
      "if i = unat L + ?n
       then filled c' ?c2 ?m2 tag (block_base ?c2 addr) way idx \<and>
         mem_view m' = mem_view ?m2 \<and> mapper_wf m' \<and> bus_holder (bus_arbiter m') \<noteq> Some cl
       else next_status c' = CACHE_FETCH"
      unfolding len by blast
    have run: "cache_run (map ?f [0..<i]) c1 m1 = Some (c', m', [])"
      unfolding start unfolding split by (simp add: cache_run_append l(1) res(1))
    show ?thesis
    proof (cases "i = unat L + ?n")
      case True
      have "block_words ?m2 b k = block_words m b k" for b k
        using v2 by (intro block_words_cong) (simp_all add: mf)
      then have fd: "filled c' c m tag ?b way idx"
        using res(2) c1 True by (simp add: filled_def foldl_tick_simps eqs)
      then show ?thesis
        using run res(2) True v2 miss_filled [OF fd wf s w miss al, of now'] by (auto simp: filled_def)
    next
      case False
      then show ?thesis using run res(2) le by auto
    qed
  qed
qed

section \<open>The write-back machine\<close>

text \<open>
  \<open>word_writable\<close>: the address is writable memory and its store would be served now.
\<close>

definition word_writable :: "u32 \<Rightarrow> u32 \<Rightarrow> client \<Rightarrow> mapper \<Rightarrow> bool" where
  "word_writable now addr cl m \<longleftrightarrow>
     (case first_mapping (ranges m) addr of None \<Rightarrow> False
      | Some i \<Rightarrow> ram_at m addr i \<and> canWrite (obj_range (ranges m ! i)) \<and> access_ready now addr DATASTORE cl m i)"

lemma word_writable_request:
  "word_writable t a cl m \<Longrightarrow> word_writable t a cl (request_word now b md' cl' m)"
  by (auto simp: word_writable_def ram_at_def access_ready_def request_word_other request_word_keeps
      split: option.splits)

lemma word_writable_requests:
  "word_writable t b cl' m \<Longrightarrow> word_writable t b cl' (request_words now a md cl n m)"
  unfolding request_words_def by (induction n) (auto simp: word_writable_request)

lemma accept_word:
  assumes wf: "mapper_wf m" and al: "addr mod 4 = 0" and av: "word_writable now addr cl m"
  shows "\<exists>m2 m3. mem_ready now addr DATASTORE cl m = Some (True, m2) \<and> byteswapped m2 = byteswapped m \<and>
    mem_store_word now addr d cl m2 = Some (m3, []) \<and> mapper_wf m3 \<and> same_layout m3 m \<and>
    (\<forall>p. mem_view m3 p = (if unat (p - addr) < 4
        then Some (word_byte (opt_bigendian m) d (unat (p - addr))) else mem_view m p))"
proof -
  obtain i where mp: "first_mapping (ranges m) addr = Some i" and ram: "ram_at m addr i"
    and wr: "canWrite (obj_range (ranges m ! i))" and rdy: "access_ready now addr DATASTORE cl m i"
    using av by (auto simp: word_writable_def split: option.splits)
  obtain m2 where m2: "mem_ready now addr DATASTORE cl m = Some (True, m2)"
    and m2': "m2 = m \<or> m2 = m\<lparr>last_used_mapping := Some i\<rparr>"
    using mem_ready_mapped [OF wf mp, of now DATASTORE cl] rdy by auto
  have wf2: "mapper_wf m2" and eq2: "ranges m2 = ranges m" "opt_bigendian m2 = opt_bigendian m"
    "byteswapped m2 = byteswapped m"
    using m2' wf mp by auto
  have rdy2: "access_ready now addr DATASTORE cl m2 i"
    using rdy m2' by (auto simp: access_ready_def cong: option.case_cong)
  obtain m3 where f: "mem_store_word now addr d cl m2 = Some (m3, [])" "mapper_wf m3" "same_layout m3 m2"
    "\<forall>p. mem_view m3 p = (if unat (p - addr) < 4
        then Some (word_byte (opt_bigendian m2) d (unat (p - addr))) else mem_view m2 p)"
    using mem_store_word_ram [OF wf2 al _ _ rdy2, of d] ram wr eq2(1) by (auto simp: ram_at_def)
  have "same_layout m3 m" using f(3) m2' by (auto simp: same_layout_def)
  with m2 eq2 f mem_view_cong [OF eq2(1)] show ?thesis by auto
qed

text \<open>
  One step of the machine when the bus takes the store: the \<open>k\<close>-th word of the block goes to the
  \<open>k\<close>-th word of the block's address in memory and nothing else changes there; after the last word
  the machine goes on to fill the block, or, for a cache instruction, ends with the block clean.
\<close>

lemma cache_wb_step:
  assumes op: "cache_op_state c = Some op" "\<not> op_deleted c" and wf: "cache_wf c" and mwf: "mapper_wf m"
    and cnt: "co_counter op = word_size c - of_nat k" and k: "k < unat (word_size c)"
    and blk: "co_way op < length (blocks c)" "co_index op < length (blocks c ! co_way op)"
    and al: "(calc_addr c (co_way op) (co_index op) + 4 * of_nat k) mod 4 = 0"
    and av: "word_writable now (calc_addr c (co_way op) (co_index op) + 4 * of_nat k) (co_client op) m"
  shows "\<exists>c' m3 m'. cache_wb now c m = Some (c', m', []) \<and> mapper_wf m' \<and> mem_view m' = mem_view m3 \<and>
    (\<forall>p. mem_view m3 p = (let a = calc_addr c (co_way op) (co_index op) + 4 * of_nat k in
       if unat (p - a) < 4
       then Some (word_byte (opt_bigendian m)
              (host_to_mips_word m (ce_data (blk c (co_way op) (co_index op)) ! k)) (unat (p - a)))
       else mem_view m p)) \<and>
    (if Suc k < unat (word_size c)
     then c' = c\<lparr>cache_op_state := Some (op\<lparr>co_counter := word_size c - of_nat (Suc k)\<rparr>)\<rparr>
     else if status c = CACHE_OP_WB
     then next_status c' = CACHE_IDLE \<and> \<not> ce_dirty (blk c' (co_way op) (co_index op)) \<and>
          op_deleted c' \<and> bus_holder (bus_arbiter m') \<noteq> Some (co_client op)
     else next_status c' = CACHE_FETCH \<and> blocks c' = blocks c \<and>
          cache_op_state c' = Some (op\<lparr>co_counter := word_size c\<rparr>))"
proof -
  let ?a = "calc_addr c (co_way op) (co_index op) + 4 * of_nat k" and ?cl = "co_client op"
  let ?e = "blk c (co_way op) (co_index op)"
  have fa: "calc_addr c (co_way op) (co_index op) + (word_size c - co_counter op) * 4 = ?a"
    using cnt by simp
  have ki: "unat (word_size c - co_counter op) = k" using fill_counter(1) [OF k] cnt by simp
  have kl: "k < length (ce_data ?e)" using wf blk k by (auto simp: cache_wf_def)
  let ?m1 = "if co_counter op = word_size c then request_words now ?a DATASTORE ?cl (unat (word_size c)) m else m"
  have m1: "mapper_wf ?m1" "mem_view ?m1 = mem_view m" "opt_bigendian ?m1 = opt_bigendian m"
    "byteswapped ?m1 = byteswapped m" "word_writable now ?a ?cl ?m1"
    using request_words_keeps [OF mwf] mwf av by (auto simp: word_writable_requests)
  let ?d = "host_to_mips_word m (ce_data ?e ! k)"
  obtain m2 m3 where d: "mem_ready now ?a DATASTORE ?cl ?m1 = Some (True, m2)" "byteswapped m2 = byteswapped ?m1"
    "mem_store_word now ?a ?d ?cl m2 = Some (m3, [])" "mapper_wf m3"
    "\<forall>p. mem_view m3 p = (if unat (p - ?a) < 4
        then Some (word_byte (opt_bigendian ?m1) ?d (unat (p - ?a))) else mem_view ?m1 p)"
    using accept_word [OF m1(1) al m1(5), of ?d] by blast
  have h: "host_to_mips_word m2 w = host_to_mips_word m w" for w
    using d(2) m1(4) by (simp add: host_to_mips_word_def)
  have z: "co_counter op - 1 = 0 \<longleftrightarrow> Suc k = unat (word_size c)"
    "co_counter op - 1 = word_size c - of_nat (Suc k)"
    using fill_counter(2,3) [OF k] unfolding cnt by simp_all
  note v = d(5) [unfolded m1(2,3)]
  have rel: "mapper_wf (mem_release_bus now ?cl m3)" "mem_view (mem_release_bus now ?cl m3) = mem_view m3"
    using d(4) mem_view_cong [of "mem_release_bus now ?cl m3" m3] by (simp_all add: mem_release_bus_def)
  have own: "bus_holder (bus_arbiter (mem_release_bus now ?cl m3)) \<noteq> Some ?cl"
    using mapper_bus.rel_own by simp
  consider "Suc k < unat (word_size c)" | "Suc k = unat (word_size c)" "status c = CACHE_OP_WB"
    | "Suc k = unat (word_size c)" "status c \<noteq> CACHE_OP_WB" using k by linarith
  then show ?thesis
  proof cases
    case 1
    then have "cache_wb now c m = Some (c\<lparr>cache_op_state := Some (op\<lparr>co_counter := co_counter op - 1\<rparr>)\<rparr>, m3, [])"
      unfolding cache_wb_def op(1) Let_def Option.bind.simps fa d(1) ki
      using d(3) kl z(1) h by simp
    with 1 d(4) v show ?thesis unfolding z(2) by (auto simp: Let_def)
  next
    case 2
    let ?c' = "(set_blk (co_way op) (co_index op) (if co_last_invalidate op
        then ?e\<lparr>ce_dirty := False, ce_valid := False\<rparr> else ?e\<lparr>ce_dirty := False\<rparr>) c)
        \<lparr>next_status := CACHE_IDLE, cache_op_state := Some (op\<lparr>co_counter := co_counter op - 1\<rparr>), op_deleted := True,
          cache_wb_counts := cache_wb_counts c + 1\<rparr>"
    have "cache_wb now c m = Some (?c', mem_release_bus now ?cl m3, [])"
      unfolding cache_wb_def op(1) Let_def Option.bind.simps fa d(1) ki
      using 2 d(3) kl z(1) h op(2) by (simp add: delete_op_def)
    with 2 v rel own blk show ?thesis by (auto simp: Let_def blk_set_blk)
  next
    case 3
    have "cache_wb now c m = Some (c\<lparr>next_status := CACHE_FETCH, cache_op_state := Some (op\<lparr>co_counter := word_size c\<rparr>),
                      cache_wb_counts := cache_wb_counts c + 1\<rparr>, m3, [])"
      unfolding cache_wb_def op(1) Let_def Option.bind.simps fa d(1) ki
      using 3 d(3) kl z(1) h by simp
    with 3 d(4) v show ?thesis by (auto simp: Let_def)
  qed
qed

section \<open>Reset during a transfer\<close>

text \<open>
  \<open>reset_stat\<close> makes the machine idle, gives the bus back and deletes its request, but leaves
  \<open>next_status\<close>: the next step goes on with the transfer of the deleted request, whose end deletes it
  again.
\<close>

lemma reset_stat_resumes:
  assumes "status c = CACHE_FETCH" "next_status c = CACHE_FETCH" "cache_op_state c = Some op" "\<not> op_deleted c"
    and "last_state_update_time c < now'"
  shows "\<exists>c1. reset_stat now c m = Some (c1, mem_release_bus now (co_client op) m) \<and> op_deleted c1 \<and>
    Cache_step now' c1 m' = cache_fetch now' (c\<lparr>op_deleted := True, status := CACHE_FETCH, last_state_update_time := now'\<rparr>) m'"
  using assms by (simp add: reset_stat_def delete_op_def Cache_step_def)

lemma deleted_twice: "op_deleted c \<Longrightarrow> delete_op c = None"
  by (simp add: delete_op_def)

end
