(* ===== verification/Cache_Props.thy ===== *)
theory Cache_Props
  imports Cache_Miss
begin

unbundle bit_operations_syntax

text \<open>
  The properties of the cache, each with a witness on a small machine: 16 bytes of memory with
  latency 2 at address \<open>0x1000\<close> behind a bus of latency 1, and a cache with one way of two blocks
  of two words.
\<close>

definition tiny_mem :: mapper where
  "tiny_mem = snd (map_at_physical_address
     (MemoryModule (Range_new 0 16 (replicate 16 0x5A) MEM_READ_WRITE) 2) 0x1000 (Mapper_new True False 1))"

definition tiny_cache :: cache where
  "tiny_cache = the (Cache_new 0 2 8 1 (\<lambda>i j. 0) (\<lambda>i j k. 0))"

lemma tiny_mem_wf: "mapper_wf tiny_mem"
  by (simp add: tiny_mem_def cube_defs mapper_wf_def proper_range_def mem_range_wf_def)

lemma tiny_cache_eq:
  "Cache_new 0 2 8 1 (\<lambda>i j. 0) (\<lambda>i j k. 0) = Some tiny_cache"
  by (simp add: tiny_cache_def Cache_new_def)

lemma tiny_cache_wf: "cache_wf tiny_cache"
  by (rule Cache_new_wf [OF _ _ _ _ _ tiny_cache_eq, of 1 3]) simp_all

lemma tiny_logs: "int_log2 8 = 3" "int_log2 2 = 1"
  using int_log2_pow [of 3] int_log2_pow [of 1] by simp_all

lemma tiny_cache_simps:
  "word_size tiny_cache = 2" "offset_len tiny_cache = 3" "index_len tiny_cache = 1" "way_size tiny_cache = 1"
  "status tiny_cache = CACHE_IDLE" "next_status tiny_cache = CACHE_IDLE" "last_state_update_time tiny_cache = 0"
  "\<not> ce_valid (blk tiny_cache 0 0)" "\<not> isisolated tiny_cache" "block_base tiny_cache 0x1004 = 0x1000"
  by (simp_all add: tiny_cache_def Cache_new_def tiny_logs block_base_def)

lemma tiny_cache_addr: "addr_separete tiny_cache 0x1004 = (0x100, 0, 4)"
  by (simp add: addr_separete_def tiny_cache_simps)

lemma tiny_cache_miss: "cache_hit tiny_cache 0x1004 = None"
  by (simp add: cache_hit_def tiny_cache_addr tiny_cache_simps)

text \<open>
  (C4) A miss on a clean victim is served in exactly the latency of the memory plus one cycle per word: an
  idle cache whose request for a block is granted the bus, and that has nothing to write back, is
  still filling the block in every cycle before, and after that many cycles from its first one it is idle, has
  given the bus back, left the memory as it was, and hits with the value of memory. The memory is
  readable at one latency over the whole block, and none of its words was requested before. A
  request whose victim is dirty, or that does not get the bus, is not covered.
\<close>

theorem cache_miss_served:
  assumes "cache_wf c" and "mapper_wf m" and "addr mod 4 = 0" and "cache_hit c addr = None"
    and "request_block now addr md cl c m = Some (c1, m1)"
    and "status c = CACHE_IDLE" and "fst (mem_acquire_bus now cl m)" and "next_status c1 = CACHE_FETCH"
    and "last_state_update_time c < t0" and "\<not> debug_mode m"
    and "\<forall>j < unat (word_size c). word_mapped L (block_base c addr + 4 * of_nat j) m"
    and "\<forall>j < unat (word_size c). access_requests_time m (request_key (block_base c addr + 4 * of_nat j)
      (if md = INSTFETCH then INSTFETCH else DATALOAD) cl) = None"
    and "unat L + unat (word_size c) < 2 ^ 32"
  shows "(\<forall>i < unat L + unat (word_size c).
      \<exists>c' m'. cache_run (map (\<lambda>k. t0 + of_nat k) [0..<i]) c1 m1 = Some (c', m', []) \<and> next_status c' = CACHE_FETCH) \<and>
    (\<exists>c' m'. cache_run (map (\<lambda>k. t0 + of_nat k) [0..<unat L + unat (word_size c)]) c1 m1 = Some (c', m', []) \<and>
      cache_wf c' \<and> next_status c' = CACHE_IDLE \<and> mem_view m' = mem_view m \<and>
      bus_holder (bus_arbiter m') \<noteq> Some cl \<and>
      cache_rd now' c' addr = Some (host_to_mips_word m (the (view_word m addr))))"
proof (intro conjI allI impI)
  note run = miss_served [OF assms]
  show "\<exists>c' m'. cache_run (map (\<lambda>k. t0 + of_nat k) [0..<i]) c1 m1 = Some (c', m', []) \<and> next_status c' = CACHE_FETCH"
    if "i < unat L + unat (word_size c)" for i
    using run [of i] that by simp
  show "\<exists>c' m'. cache_run (map (\<lambda>k. t0 + of_nat k) [0..<unat L + unat (word_size c)]) c1 m1 = Some (c', m', []) \<and>
      cache_wf c' \<and> next_status c' = CACHE_IDLE \<and> mem_view m' = mem_view m \<and>
      bus_holder (bus_arbiter m') \<noteq> Some cl \<and>
      cache_rd now' c' addr = Some (host_to_mips_word m (the (view_word m addr)))"
    using run [of "unat L + unat (word_size c)"] by simp
qed

theorem cache_miss_served_witness:
  "\<exists>c1 m1 c' m'. request_block 10 0x1004 DATALOAD 7 tiny_cache tiny_mem = Some (c1, m1) \<and>
    cache_run [11, 12, 13, 14, 15] c1 m1 = Some (c', m', []) \<and> cache_rd 20 c' 0x1004 = Some 0x5A5A5A5A"
proof -
  have m: "\<forall>j < unat (word_size tiny_cache). word_mapped 3 (block_base tiny_cache 0x1004 + 4 * of_nat j) tiny_mem"
    by (simp add: tiny_cache_simps all_less_numeral All_less_Suc word_mapped_def ram_at_def)
      (simp add: tiny_mem_def cube_defs ram_at_def)
  have r: "\<forall>j < unat (word_size tiny_cache). access_requests_time tiny_mem
      (request_key (block_base tiny_cache 0x1004 + 4 * of_nat j)
        (if DATALOAD = INSTFETCH then INSTFETCH else DATALOAD) 7) = None"
    by (simp add: tiny_mem_def cube_defs)
  have g: "fst (mem_acquire_bus 10 7 tiny_mem)" "\<not> debug_mode tiny_mem"
    by (simp_all add: tiny_mem_def cube_defs)
  have "\<exists>c1 m1. request_block 10 0x1004 DATALOAD 7 tiny_cache tiny_mem = Some (c1, m1) \<and>
      next_status c1 = CACHE_FETCH"
    using g(1) by (cases "mem_acquire_bus 10 7 tiny_mem")
      (simp add: request_block_def tiny_cache_addr tiny_cache_simps)
  then obtain c1 m1 where q: "request_block 10 0x1004 DATALOAD 7 tiny_cache tiny_mem = Some (c1, m1)"
    "next_status c1 = CACHE_FETCH" by blast
  have v: "host_to_mips_word tiny_mem (the (view_word tiny_mem 0x1004)) = 0x5A5A5A5A"
    by (simp add: tiny_mem_def cube_defs view_word_def mem_view_def swap_word_def word_of_bytes_def)
  have "(0x1004 :: u32) mod 4 = 0" "last_state_update_time tiny_cache < 11"
    "unat (3 :: u32) + unat (word_size tiny_cache) < 2 ^ 32" by (simp_all add: tiny_cache_simps)
  note run = cache_miss_served [OF tiny_cache_wf tiny_mem_wf this(1) tiny_cache_miss q(1) _ g(1) q(2) this(2) g(2) m r this(3),
      where now' = 20]
  from run [THEN conjunct2] show ?thesis using q(1) v by (fastforce simp: tiny_cache_simps upt_rec)
qed

text \<open>
  The replacement loop returns the first free way when there is one; otherwise it returns a
  valid way that was accessed no later than any other (times compared as signed numbers).
\<close>

lemma lru_victim:
  assumes "find_victim c i ws lru = (free, v)"
  shows "if free then v \<in> set ws \<and> \<not> ce_valid (blk c v i)
    else (\<forall>w \<in> set ws. ce_valid (blk c w i)) \<and> (v = lru \<or> v \<in> set ws) \<and>
      (\<forall>w \<in> insert lru (set ws). sint (ce_last_access (blk c v i)) \<le> sint (ce_last_access (blk c w i)))"
  using find_victim_spec [OF assms] by (simp add: older_def split: if_splits)

text \<open>
  (C28) Words stored into blocks the cache holds read back as stored, over any block of consecutive
  words, and every store and load of the block succeeds.
\<close>

theorem cached_block_roundtrip:
  assumes "length vs \<le> 2 ^ 30" and "\<forall>b \<in> set (slots a (length vs)). cache_ok c b"
  shows "\<exists>c'. store_block (cache_wr now) c a vs = Some c' \<and>
    fetch_block (cache_rd now) c' a (length vs) = Some vs"
  using cache_words.store_block_total [OF assms(2)]
    cache_words.fetch_block_store_block [OF _ distinct_slots [OF assms(1)] assms(2)] by blast

definition held_cache :: cache where
  "held_cache = set_blk 0 0 ((blk tiny_cache 0 0)\<lparr>ce_tag := 0x100, ce_valid := True\<rparr>) tiny_cache"

theorem cached_block_roundtrip_witness:
  "\<exists>c'. store_block (cache_wr 5) held_cache 0x1000 [3, 4] = Some c' \<and>
    fetch_block (cache_rd 5) c' 0x1000 2 = Some [3, 4]"
proof -
  have b: "0 < length (blocks tiny_cache)" "0 < length (blocks tiny_cache ! 0)"
    "length (ce_data (blk tiny_cache 0 0)) = 2"
    by (simp_all add: tiny_cache_def Cache_new_def tiny_logs)
  then have wf: "cache_wf held_cache"
    unfolding held_cache_def by (intro cache_wf_set_blk [OF tiny_cache_wf]) (simp_all add: tiny_cache_simps)
  have "addr_separete held_cache 0x1000 = (0x100, 0, 0)" "addr_separete held_cache 0x1004 = (0x100, 0, 4)"
    by (simp_all add: addr_separete_def held_cache_def tiny_cache_simps)
  then have "cache_hit held_cache 0x1000 \<noteq> None" "cache_hit held_cache 0x1004 \<noteq> None"
    using b by (simp_all add: cache_hit_def held_cache_def tiny_cache_simps blk_set_blk)
  with wf have "\<forall>x \<in> set (slots 0x1000 (length [3, 4 :: u32])). cache_ok held_cache x"
    by (simp add: cache_ok_def)
  moreover have l: "length [3, 4 :: u32] = 2" "length [3, 4 :: u32] \<le> 2 ^ 30" by simp_all
  ultimately show ?thesis using cached_block_roundtrip [OF l(2), where a = "0x1000" and c = held_cache and now = 5] unfolding l(1) by blast
qed

text \<open>
  Exception entry abandons a refill without clearing the next state of the machine: the bus is given
  back and the request deleted, but the next clock step goes on filling the block from the deleted request, without
  holding the bus, and its end deletes the request a second time.
\<close>

lemma abandoned_fill_resumes:
  assumes "status c = CACHE_FETCH" and "next_status c = CACHE_FETCH" and "cache_op_state c = Some op"
    and "\<not> op_deleted c" and "last_state_update_time c < now'"
  shows "\<exists>c1. reset_stat now c m = Some (c1, mem_release_bus now (co_client op) m) \<and> op_deleted c1 \<and>
    Cache_step now' c1 m' =
      cache_fetch now' (c\<lparr>op_deleted := True, status := CACHE_FETCH, last_state_update_time := now'\<rparr>) m'"
  using assms by (rule reset_stat_resumes)

end
