(* ===== verification/ISA.thy ===== *)
theory ISA
  imports Prelude
begin

unbundle bit_operations_syntax

text \<open>
  \<open>ISA.h\<close> and the instruction field accessors of \<open>cpu.h\<close>: the decoding tables of the R3000
  instruction set, indexed by opcode, by function code or by the \<open>rt\<close> field. A table of
  \<open>operand_decodepr\<close> function pointers is a list of \<open>operand_dec\<close> values; \<open>DecNull\<close> is the null
  pointer, whose call is the result \<^const>\<open>None\<close>.
\<close>

section \<open>Instruction fields (cpu.h)\<close>

definition opcode :: "u32 \<Rightarrow> nat" where "opcode i = unat (drop_bit 26 i AND 0x3f)"
definition rs :: "u32 \<Rightarrow> nat" where "rs i = unat (drop_bit 21 i AND 0x1f)"
definition rt :: "u32 \<Rightarrow> nat" where "rt i = unat (drop_bit 16 i AND 0x1f)"
definition rd :: "u32 \<Rightarrow> nat" where "rd i = unat (drop_bit 11 i AND 0x1f)"
definition immed :: "u32 \<Rightarrow> u16" where "immed i = ucast (i AND 0xffff)"
definition s_immed :: "u32 \<Rightarrow> u16" where "s_immed i = ucast (i AND 0xffff)"
definition shamt :: "u32 \<Rightarrow> u16" where "shamt i = ucast (drop_bit 6 i AND 0x1f)"
definition funct :: "u32 \<Rightarrow> nat" where "funct i = unat (i AND 0x3f)"
definition jumptarg :: "u32 \<Rightarrow> u32" where "jumptarg i = i AND 0x3ffffff"

abbreviation (input) NOP_INSTR :: u32 where "NOP_INSTR \<equiv> 0"
abbreviation (input) NONE_REG :: nat where "NONE_REG \<equiv> 32"
abbreviation (input) RA_REG :: nat where "RA_REG \<equiv> 31"

abbreviation (input) OP_SPECIAL :: nat where "OP_SPECIAL \<equiv> 0"
abbreviation (input) OP_BCOND :: nat where "OP_BCOND \<equiv> 1"
abbreviation (input) OP_COP0 :: nat where "OP_COP0 \<equiv> 16"
abbreviation (input) OP_COP3 :: nat where "OP_COP3 \<equiv> 19"
abbreviation (input) OP_LB :: nat where "OP_LB \<equiv> 32"
abbreviation (input) OP_LH :: nat where "OP_LH \<equiv> 33"
abbreviation (input) OP_LWL :: nat where "OP_LWL \<equiv> 34"
abbreviation (input) OP_LW :: nat where "OP_LW \<equiv> 35"
abbreviation (input) OP_LBU :: nat where "OP_LBU \<equiv> 36"
abbreviation (input) OP_LHU :: nat where "OP_LHU \<equiv> 37"
abbreviation (input) OP_LWR :: nat where "OP_LWR \<equiv> 38"
abbreviation (input) OP_SB :: nat where "OP_SB \<equiv> 40"
abbreviation (input) OP_SH :: nat where "OP_SH \<equiv> 41"
abbreviation (input) OP_SWL :: nat where "OP_SWL \<equiv> 42"
abbreviation (input) OP_SW :: nat where "OP_SW \<equiv> 43"
abbreviation (input) OP_SWR :: nat where "OP_SWR \<equiv> 46"
abbreviation (input) OP_CACHE :: nat where "OP_CACHE \<equiv> 47"
abbreviation (input) BCONDE_BLTZAL :: nat where "BCONDE_BLTZAL \<equiv> 16"
abbreviation (input) BCONDE_BGEZAL :: nat where "BCONDE_BGEZAL \<equiv> 17"
abbreviation (input) COP_OP_MFC :: nat where "COP_OP_MFC \<equiv> 0"
abbreviation (input) COP_OP_MTC :: nat where "COP_OP_MTC \<equiv> 4"
abbreviation (input) CPZERO_OP_SUSPEND :: int where "CPZERO_OP_SUSPEND \<equiv> 5"

section \<open>Decoding tables (ISA.h)\<close>

datatype operand_dec = DecNull | DecNone | DecRs | DecRt | DecRd | DecRa

fun dec_reg :: "operand_dec \<Rightarrow> u32 \<Rightarrow> nat option" where
  "dec_reg DecNull i = None"
| "dec_reg DecNone i = Some NONE_REG"
| "dec_reg DecRs i = Some (rs i)"
| "dec_reg DecRt i = Some (rt i)"
| "dec_reg DecRd i = Some (rd i)"
| "dec_reg DecRa i = Some RA_REG"

definition firstSrcDecSpecialTable :: "operand_dec list" where
  "firstSrcDecSpecialTable =
     [DecRt, DecNone, DecRt, DecRt, DecRt, DecNone, DecRt, DecRt,
      DecRs, DecRs, DecNone, DecNone, DecNone, DecNone, DecNone, DecNone,
      DecNone, DecRd, DecNone, DecRd, DecNone, DecNone, DecNone, DecNone,
      DecRs, DecRs, DecRs, DecRs, DecNone, DecNone, DecNone, DecNone,
      DecRs, DecRs, DecRs, DecRs, DecRs, DecRs, DecRs, DecRs,
      DecNone, DecNone, DecRs, DecRs, DecNone, DecNone, DecNone, DecNone,
      DecNone, DecNone, DecNone, DecNone, DecNone, DecNone, DecNone, DecNone,
      DecNone, DecNone, DecNone, DecNone, DecNone, DecNone, DecNone, DecNone]"

definition firstSrcDecBcondTable :: "operand_dec list" where
  "firstSrcDecBcondTable =
     [DecRs, DecRs, DecNone, DecNone, DecNone, DecNone, DecNone, DecNone,
      DecNone, DecNone, DecNone, DecNone, DecNone, DecNone, DecNone, DecNone,
      DecRs, DecRs, DecNone, DecNone, DecNone, DecNone, DecNone, DecNone,
      DecNone, DecNone, DecNone, DecNone, DecNone, DecNone, DecNone, DecNone]"

definition firstSrcDecTable :: "operand_dec list" where
  "firstSrcDecTable =
     [DecNull, DecNull, DecNone, DecNone, DecRs, DecRs, DecRs, DecRs,
      DecRs, DecRs, DecRs, DecRs, DecRs, DecRs, DecRs, DecNone,
      DecNull, DecNull, DecNull, DecNull, DecNone, DecNone, DecNone, DecNone,
      DecNone, DecNone, DecNone, DecNone, DecNone, DecNone, DecNone, DecNone,
      DecRs, DecRs, DecRs, DecRs, DecRs, DecRs, DecRs, DecNone,
      DecRs, DecRs, DecRs, DecRs, DecNone, DecNone, DecRs, DecRs,
      DecNone, DecNone, DecNone, DecNone, DecNone, DecNone, DecNone, DecNone,
      DecNone, DecNone, DecNone, DecNone, DecNone, DecNone, DecNone, DecNone]"

definition secondSrcDecSpecialTable :: "operand_dec list" where
  "secondSrcDecSpecialTable =
     [DecNone, DecNone, DecNone, DecNone, DecRs, DecNone, DecRs, DecRs,
      DecNone, DecNone, DecNone, DecNone, DecNone, DecNone, DecNone, DecNone,
      DecNone, DecNone, DecNone, DecNone, DecNone, DecNone, DecNone, DecNone,
      DecRt, DecRt, DecRt, DecRt, DecNone, DecNone, DecNone, DecNone,
      DecRt, DecRt, DecRt, DecRt, DecRt, DecRt, DecRt, DecRt,
      DecNone, DecNone, DecRt, DecRt, DecNone, DecNone, DecNone, DecNone,
      DecNone, DecNone, DecNone, DecNone, DecNone, DecNone, DecNone, DecNone,
      DecNone, DecNone, DecNone, DecNone, DecNone, DecNone, DecNone, DecNone]"

definition secondSrcDecTable :: "operand_dec list" where
  "secondSrcDecTable =
     [DecNull, DecNone, DecNone, DecNone, DecRt, DecRt, DecNone, DecNone,
      DecNone, DecNone, DecNone, DecNone, DecNone, DecNone, DecNone, DecNone,
      DecNone, DecNone, DecNone, DecNone, DecNone, DecNone, DecNone, DecNone,
      DecNone, DecNone, DecNone, DecNone, DecNone, DecNone, DecNone, DecNone,
      DecNone, DecNone, DecNone, DecNone, DecNone, DecNone, DecNone, DecNone,
      DecNone, DecNone, DecNone, DecNone, DecNone, DecNone, DecNone, DecNone,
      DecNone, DecNone, DecNone, DecNone, DecNone, DecNone, DecNone, DecNone,
      DecNone, DecNone, DecNone, DecNone, DecNone, DecNone, DecNone, DecNone]"

definition dstDecSpecialTable :: "operand_dec list" where
  "dstDecSpecialTable =
     [DecRd, DecNone, DecRd, DecRd, DecRd, DecNone, DecRd, DecRd,
      DecNone, DecRa, DecNone, DecNone, DecNone, DecNone, DecNone, DecNone,
      DecRd, DecNone, DecRd, DecNone, DecNone, DecNone, DecNone, DecNone,
      DecNone, DecNone, DecNone, DecNone, DecNone, DecNone, DecNone, DecNone,
      DecRd, DecRd, DecRd, DecRd, DecRd, DecRd, DecRd, DecRd,
      DecNone, DecNone, DecRd, DecRd, DecNone, DecNone, DecNone, DecNone,
      DecNone, DecNone, DecNone, DecNone, DecNone, DecNone, DecNone, DecNone,
      DecNone, DecNone, DecNone, DecNone, DecNone, DecNone, DecNone, DecNone]"

definition dstDecTable :: "operand_dec list" where
  "dstDecTable =
     [DecNull, DecNone, DecNone, DecRa, DecNone, DecNone, DecNone, DecNone,
      DecRt, DecRt, DecRt, DecRt, DecRt, DecRt, DecRt, DecRt,
      DecNull, DecNull, DecNull, DecNull, DecNone, DecNone, DecNone, DecNone,
      DecNone, DecNone, DecNone, DecNone, DecNone, DecNone, DecNone, DecNone,
      DecRt, DecRt, DecRt, DecRt, DecRt, DecRt, DecRt, DecNone,
      DecNone, DecNone, DecNone, DecNone, DecNone, DecNone, DecNone, DecNone,
      DecNone, DecNone, DecNone, DecNone, DecNone, DecNone, DecNone, DecNone,
      DecNone, DecNone, DecNone, DecNone, DecNone, DecNone, DecNone, DecNone]"

definition shamt_flag :: "bool list" where
  "shamt_flag =
     [True, False, True, True, False, False, False, False,
      False, False, False, False, False, False, False, False,
      False, False, False, False, False, False, False, False,
      False, False, False, False, False, False, False, False,
      False, False, False, False, False, False, False, False,
      False, False, False, False, False, False, False, False,
      False, False, False, False, False, False, False, False,
      False, False, False, False, False, False, False, False]"

definition s_imm_flag :: "bool list" where
  "s_imm_flag =
     [False, True, False, False, True, True, True, True,
      True, True, True, True, False, False, False, False,
      False, False, False, False, False, False, False, False,
      False, False, False, False, False, False, False, False,
      True, True, True, True, True, True, True, False,
      True, True, True, True, False, False, True, False,
      False, False, False, False, False, False, False, False,
      False, False, False, False, False, False, False, False]"

definition imm_flag :: "bool list" where
  "imm_flag =
     [False, False, False, False, False, False, False, False,
      False, False, False, False, True, True, True, True,
      False, False, False, False, False, False, False, False,
      False, False, False, False, False, False, False, False,
      False, False, False, False, False, False, False, False,
      False, False, False, False, False, False, False, False,
      False, False, False, False, False, False, False, False,
      False, False, False, False, False, False, False, False]"

definition mem_write_flag :: "bool list" where
  "mem_write_flag =
     [False, False, False, False, False, False, False, False,
      False, False, False, False, False, False, False, False,
      False, False, False, False, False, False, False, False,
      False, False, False, False, False, False, False, False,
      False, False, False, False, False, False, False, False,
      True, True, True, True, False, False, True, False,
      False, False, False, False, False, False, False, False,
      False, False, False, False, False, False, False, False]"

definition mem_read_flag :: "bool list" where
  "mem_read_flag =
     [False, False, False, False, False, False, False, False,
      False, False, False, False, False, False, False, False,
      False, False, False, False, False, False, False, False,
      False, False, False, False, False, False, False, False,
      True, True, True, True, True, True, True, False,
      False, False, False, False, False, False, False, False,
      False, False, False, False, False, False, False, False,
      False, False, False, False, False, False, False, False]"

definition RI_flag :: "bool list" where
  "RI_flag =
     [False, False, False, False, False, False, False, False,
      False, False, False, False, False, False, False, False,
      False, False, False, False, True, True, True, True,
      True, True, True, True, True, True, True, True,
      False, False, False, False, False, False, False, True,
      False, False, False, False, True, True, False, False,
      False, False, False, False, True, True, True, True,
      False, False, False, False, True, True, True, True]"

definition RI_special_flag :: "bool list" where
  "RI_special_flag =
     [False, True, False, False, False, True, False, False,
      False, False, True, True, False, False, True, True,
      False, False, False, False, True, True, True, True,
      False, False, False, False, True, True, True, True,
      False, False, False, False, False, False, False, False,
      True, True, False, False, True, True, True, True,
      True, True, True, True, True, True, True, True,
      True, True, True, True, True, True, True, True]"

definition RI_cache_op_flag :: "bool list" where
  "RI_cache_op_flag =
     [True, False, True, True, False, False, True, True,
      True, False, True, True, True, True, True, True,
      True, False, False, False, False, False, False, False,
      False, False, False, False, False, False, False, False]"

definition mul_div_flag :: "bool list" where
  "mul_div_flag =
     [False, False, False, False, False, False, False, False,
      False, False, False, False, False, False, False, False,
      True, True, True, True, False, False, False, False,
      True, True, True, True, False, False, False, False,
      False, False, False, False, False, False, False, False,
      False, False, False, False, False, False, False, False,
      False, False, False, False, False, False, False, False,
      False, False, False, False, False, False, False, False]"

definition cop_flag :: "bool list" where
  "cop_flag =
     [False, False, False, False, False, False, False, False,
      False, False, False, False, False, False, False, False,
      True, True, True, True, False, False, False, False,
      False, False, False, False, False, False, False, False,
      False, False, False, False, False, False, False, False,
      False, False, False, False, False, False, False, False,
      False, False, False, False, False, False, False, False,
      False, False, False, False, False, False, False, False]"

text \<open>
  \<open>mul_div_delay[f]\<close> on the \<open>std::map\<close>; a key that is not in the map is inserted with value 0.
\<close>

definition mul_div_delay :: "nat \<Rightarrow> int" where
  "mul_div_delay f =
     (if f = 19 then 2 else if f = 17 then 2 else if f = 25 then 3 else if f = 24 then 3
      else if f = 26 then 9 else if f = 27 then 9 else 0)"

lemmas isa_fields [cube_defs] =
  opcode_def rs_def rt_def rd_def immed_def s_immed_def shamt_def funct_def jumptarg_def

lemmas isa_tables =
  firstSrcDecSpecialTable_def firstSrcDecBcondTable_def firstSrcDecTable_def
  secondSrcDecSpecialTable_def secondSrcDecTable_def dstDecSpecialTable_def dstDecTable_def
  shamt_flag_def s_imm_flag_def imm_flag_def mem_write_flag_def mem_read_flag_def RI_flag_def
  RI_special_flag_def RI_cache_op_flag_def mul_div_flag_def cop_flag_def

section \<open>Bounds of the fields\<close>

lemma field_mask_less: "unat (x AND mask n :: u32) < 2 ^ n"
  by (metis take_bit_eq_mask take_bit_nat_less_exp unsigned_take_bit_eq)

lemma isa_field_bounds [simp]:
  "opcode i < 64" "rs i < 32" "rt i < 32" "rd i < 32" "funct i < 64"
  using field_mask_less [of "drop_bit 26 i" 6] field_mask_less [of "drop_bit 21 i" 5]
    field_mask_less [of "drop_bit 16 i" 5] field_mask_less [of "drop_bit 11 i" 5] field_mask_less [of i 6]
  by (simp_all add: opcode_def rs_def rt_def rd_def funct_def mask_numeral)

lemma isa_table_lengths [simp]:
  "length firstSrcDecSpecialTable = 64" "length firstSrcDecBcondTable = 32" "length firstSrcDecTable = 64"
  "length secondSrcDecSpecialTable = 64" "length secondSrcDecTable = 64" "length dstDecSpecialTable = 64"
  "length dstDecTable = 64" "length shamt_flag = 64" "length s_imm_flag = 64" "length imm_flag = 64"
  "length mem_write_flag = 64" "length mem_read_flag = 64" "length RI_flag = 64"
  "length RI_special_flag = 64" "length RI_cache_op_flag = 32" "length mul_div_flag = 64"
  "length cop_flag = 64"
  by (simp_all add: isa_tables)

end
