(* ===== verification/ALU_Facts.thy ===== *)
theory ALU_Facts
  imports ALU Range_Memory
begin

unbundle bit_operations_syntax

text \<open>
  The arithmetic routines against their mathematical meaning.
\<close>

section \<open>Shifts\<close>

lemma push_one_minus_one: "(push_bit n 1 - 1 :: u32) = mask n"
  by (simp add: mask_eq_exp_minus_1 push_bit_of_1)

lemma unat_32_minus: "b \<le> 32 \<Longrightarrow> unat (32 - b :: u32) = 32 - unat b"
  by (simp add: unat_sub)

lemma srl_drop_bit:
  assumes "b < 32"
  shows "srl a b = drop_bit (unat b) a"
proof -
  have b: "unat b < 32" "unat (32 - b) = 32 - unat b"
    using assms unat_32_minus [of b] by (simp_all add: word_less_nat_alt word_le_nat_alt)
  show ?thesis
  proof (rule bit_word_eqI)
    fix n
    have "b \<noteq> 32" using assms by auto
    with b bit_u32_lt [of a "unat b + n"] show "bit (srl a b) n = bit (drop_bit (unat b) a) n" if "n < LENGTH(32)"
      unfolding srl_def push_one_minus_one using that by (auto simp: bit_simps)
  qed
qed

lemma sign_bit_word: "signed_drop_bit 31 (a :: u32) AND 1 = of_bool (bit a 31)"
  by (rule bit_word_eqI) (auto simp: bit_simps not_le less_Suc_eq)

lemma sra_signed_drop_bit:
  assumes "b < 32"
  shows "sra a b = signed_drop_bit (unat b) a"
proof -
  have b: "unat b < 32" "unat (32 - b) = 32 - unat b"
    using assms unat_32_minus [of b] by (simp_all add: word_less_nat_alt word_le_nat_alt)
  show ?thesis
    using assms b unfolding sra_def push_one_minus_one sign_bit_word
    by (cases "bit a 31") (auto intro!: bit_word_eqI simp: bit_simps)
qed

section \<open>Addition and subtraction\<close>

lemma sint_u32_range: "- (2 ^ 31) \<le> sint (a :: u32)" "sint a < 2 ^ 31"
  using sint_range_size [of a] by (simp_all add: word_size)

text \<open>Reading a sum back from its 32 bits: it is off by \<open>2 ^ 32\<close> exactly when it is out of range.\<close>

lemma signed_wrap:
  fixes s :: int
  assumes "- (2 ^ 32) \<le> s" "s < 2 ^ 32"
  shows "signed_take_bit 31 s =
    (if s < - (2 ^ 31) then s + 2 ^ 32 else if 2 ^ 31 \<le> s then s - 2 ^ 32 else s)"
proof -
  have e: "signed_take_bit 31 s = (s + 2 ^ 31) mod 2 ^ 32 - 2 ^ 31"
    by (simp add: signed_take_bit_eq_take_bit_shift take_bit_eq_mod)
  consider "s < - (2 ^ 31)" | "2 ^ 31 \<le> s" | "- (2 ^ 31) \<le> s" "s < 2 ^ 31" by linarith
  then show ?thesis
  proof cases
    case 1
    have "(s + 2 ^ 31) mod 2 ^ 32 = (s + 2 ^ 31 + 2 ^ 32) mod 2 ^ 32" by (simp only: mod_add_self2)
    also have "\<dots> = s + 2 ^ 31 + 2 ^ 32" using 1 assms by (intro mod_pos_pos_trivial) auto
    finally show ?thesis using 1 e by simp
  next
    case 2
    have "(s + 2 ^ 31) mod 2 ^ 32 = (s + 2 ^ 31 - 2 ^ 32) mod 2 ^ 32"
      by (metis mod_add_self2 diff_add_cancel)
    also have "\<dots> = s + 2 ^ 31 - 2 ^ 32" using 2 assms by (intro mod_pos_pos_trivial) auto
    finally show ?thesis using 2 e by simp
  next
    case 3
    then have "(s + 2 ^ 31) mod 2 ^ 32 = s + 2 ^ 31" by (intro mod_pos_pos_trivial) auto
    with 3 e show ?thesis by simp
  qed
qed

lemma sint_add_wrap: "sint (a + b :: u32) = signed_take_bit 31 (sint a + sint b)"
  by (simp add: sint_word_ariths)

lemma sint_sub_wrap: "sint (a - b :: u32) = signed_take_bit 31 (sint a - sint b)"
  by (simp add: sint_word_ariths)

text \<open>\<open>ADD\<close> traps exactly when the mathematical sum does not fit; otherwise the result is the sum.\<close>

lemma add_op_correct:
  "add_op a b = (if - (2 ^ 31) \<le> sint a + sint b \<and> sint a + sint b < 2 ^ 31 then Inr (a + b) else Inl Exc_Ov)"
  "- (2 ^ 31) \<le> sint a + sint b \<Longrightarrow> sint a + sint b < 2 ^ 31 \<Longrightarrow> sint (a + b) = sint a + sint b"
  using sint_u32_range [of a] sint_u32_range [of b] signed_wrap [of "sint a + sint b"]
  by (auto simp: add_op_def Let_def neg32_def sint_add_wrap)

lemma sub_op_correct:
  "sub_op a b = (if - (2 ^ 31) \<le> sint a - sint b \<and> sint a - sint b < 2 ^ 31 then Inr (a - b) else Inl Exc_Ov)"
  "- (2 ^ 31) \<le> sint a - sint b \<Longrightarrow> sint a - sint b < 2 ^ 31 \<Longrightarrow> sint (a - b) = sint a - sint b"
  using sint_u32_range [of a] sint_u32_range [of b] signed_wrap [of "sint a - sint b"]
  by (auto simp: sub_op_def Let_def neg32_def sint_sub_wrap)

section \<open>Unaligned loads and stores\<close>

lemma offset_cases: "(o4 :: u32) < 4 \<Longrightarrow> o4 = 0 \<or> o4 = 1 \<or> o4 = 2 \<or> o4 = 3"
proof -
  assume "o4 < 4"
  then have "unat o4 < 4" by (simp add: word_less_nat_alt)
  then have "unat o4 = 0 \<or> unat o4 = 1 \<or> unat o4 = 2 \<or> unat o4 = 3" by linarith
  then show ?thesis by (auto simp: word_unat_eq_iff)
qed

text \<open>
  The unaligned load idiom: \<open>LWR\<close> at the address and \<open>LWL\<close> at the address plus three on a
  little-endian target, the other way round on a big-endian one, assemble the four bytes at the
  address from the two aligned words around it, whatever was in the register.
\<close>

lemma unaligned_load_little:
  assumes "k < 4" and bs_def: "bs = [b0, b1, b2, b3, b4, b5, b6, b7]"
  shows "Option.bind (lwr False r (word_of_bytes False b0 b1 b2 b3) (of_nat k))
      (\<lambda>r'. lwl False r' (if k = 0 then word_of_bytes False b0 b1 b2 b3 else word_of_bytes False b4 b5 b6 b7)
         (of_nat ((k + 3) mod 4))) =
    Some (word_of_bytes False (bs ! k) (bs ! (k + 1)) (bs ! (k + 2)) (bs ! (k + 3)))"
proof -
  from assms(1) consider "k = 0" | "k = 1" | "k = 2" | "k = 3" by linarith
  then show ?thesis
    by cases (simp add: bs_def lwr_def lwl_def; simp add: word_of_bytes_def bit_blast bit_u8_beyond)+
qed

lemma unaligned_load_big:
  assumes "k < 4" and bs_def: "bs = [b0, b1, b2, b3, b4, b5, b6, b7]"
  shows "Option.bind (lwl True r (word_of_bytes True b0 b1 b2 b3) (of_nat k))
      (\<lambda>r'. lwr True r' (if k = 0 then word_of_bytes True b0 b1 b2 b3 else word_of_bytes True b4 b5 b6 b7)
         (of_nat ((k + 3) mod 4))) =
    Some (word_of_bytes True (bs ! k) (bs ! (k + 1)) (bs ! (k + 2)) (bs ! (k + 3)))"
proof -
  from assms(1) consider "k = 0" | "k = 1" | "k = 2" | "k = 3" by linarith
  then show ?thesis
    by cases (simp add: bs_def lwr_def lwl_def; simp add: word_of_bytes_def bit_blast bit_u8_beyond)+
qed

text \<open>
  The bytes the store stage writes one by one are the word the merging routines \<open>swl\<close> and \<open>swr\<close>
  compute at once.
\<close>

definition patch_word :: "bool \<Rightarrow> u32 \<Rightarrow> (nat \<times> u32) list \<Rightarrow> u32" where
  "patch_word big w ps =
     (let bs = foldl (\<lambda>bs (i, v). bs[i := ucast v]) (map (word_byte big w) [0, 1, 2, 3]) ps
      in word_of_bytes big (bs ! 0) (bs ! 1) (bs ! 2) (bs ! 3))"

lemma swl_bytes_patch:
  assumes "k < 4"
  shows "swl False data w (of_nat k) = Some (patch_word False w (swl_bytes False data k))"
proof -
  from assms consider "k = 0" | "k = 1" | "k = 2" | "k = 3" by linarith
  then show ?thesis
    by cases (simp add: patch_word_def swl_bytes_def swl_def upt_rec;
        simp add: word_of_bytes_def word_byte_def bit_blast bit_u8_beyond)+
qed

text \<open>
  On a big-endian target the loop of \<open>SWL\<close> shifts by the byte number in the word instead of the
  distance from the first byte stored, so away from offset 0 it stores the low bytes of the
  register where \<open>swl\<close> stores the high ones.
\<close>

lemma swl_bytes_big_differs:
  "swl True 0x11223344 0 1 = Some 0x00112233" "patch_word True 0 (swl_bytes True 0x11223344 1) = 0x00223344"
  by (simp_all add: swl_def patch_word_def swl_bytes_def upt_rec word_of_bytes_def word_byte_def)

lemma swr_bytes_patch:
  assumes "k < 4"
  shows "swr big data w (of_nat k) = Some (patch_word big w (swr_bytes big data k))"
proof -
  from assms consider "k = 0" | "k = 1" | "k = 2" | "k = 3" by linarith
  then show ?thesis
    by cases (cases big; simp add: patch_word_def swr_bytes_def swr_def upt_rec;
        simp add: word_of_bytes_def word_byte_def bit_blast bit_u8_beyond)+
qed

section \<open>Multiplication and division\<close>

lemma mult64_product: "mult64 n m = (hi, lo) \<Longrightarrow> uint hi * 2 ^ 32 + uint lo = uint n * uint m"
proof -
  assume "mult64 n m = (hi, lo)"
  then have hl: "hi = ucast (drop_bit 32 ((ucast n :: u64) * ucast m))" "lo = ucast ((ucast n :: u64) * ucast m)"
    by (simp_all add: mult64_def Let_def)
  let ?p = "uint n * uint m"
  have "uint n < 2 ^ 32" "uint m < 2 ^ 32" using unsigned_less [of n] unsigned_less [of m] by simp_all
  then have "?p < 2 ^ 32 * 2 ^ 32" by (intro mult_strict_mono) auto
  then have p: "0 \<le> ?p" "?p < 2 ^ 64" by simp_all
  have w: "uint ((ucast n :: u64) * ucast m) = ?p"
    using p by (simp add: uint_word_ariths unsigned_ucast_eq take_bit_eq_mod mod_mult_eq)
  have "uint (drop_bit 32 ((ucast n :: u64) * ucast m)) = ?p div 2 ^ 32"
    unfolding unsigned_drop_bit_eq w using p by (simp add: drop_bit_eq_div take_bit_eq_mod)
  moreover have "x div 2 ^ 32 mod 2 ^ 32 = x div 2 ^ 32" if "0 \<le> x" "x < 2 ^ 64" for x :: int
    using that by (intro mod_pos_pos_trivial) simp_all
  note this [OF p]
  ultimately have "uint hi = ?p div 2 ^ 32"
    using p unfolding hl unsigned_ucast_eq by (simp add: take_bit_eq_mod)
  moreover have "uint lo = ?p mod 2 ^ 32"
    using w unfolding hl by (simp add: unsigned_ucast_eq take_bit_eq_mod)
  ultimately show ?thesis by (simp add: div_mult_mod_eq)
qed

lemma mult64_unique:
  assumes "unat hi * 2 ^ 32 + unat lo = unat n * unat m"
  shows "mult64 n m = (hi, lo)"
proof -
  obtain hi' lo' where m: "mult64 n m = (hi', lo')" by (cases "mult64 n m")
  have "int (unat hi' * 2 ^ 32 + unat lo') = int (unat n * unat m)"
    using mult64_product [OF m] by simp
  then have eq: "unat hi' * 2 ^ 32 + unat lo' = unat hi * 2 ^ 32 + unat lo"
    using assms by (simp only: of_nat_eq_iff)
  have l: "unat lo < 2 ^ 32" "unat lo' < 2 ^ 32"
    using unsigned_less [of lo, where 'a = nat] unsigned_less [of lo', where 'a = nat] by simp_all
  have "unat hi' = unat hi" using arg_cong [OF eq, of "\<lambda>v. v div 2 ^ 32"] l by simp
  moreover have "unat lo' = unat lo" using arg_cong [OF eq, of "\<lambda>v. v mod 2 ^ 32"] l by simp
  ultimately show ?thesis using m by (simp add: word_unat_eq_iff)
qed

text \<open>The schoolbook product of two numbers of two 16-bit digits, with its carries.\<close>

lemma limb_product:
  fixes w x y z p :: nat
  assumes p: "0 < p"
  defines "c \<equiv> z * x mod p" and "b \<equiv> (z * w + z * x div p) mod p" and "a \<equiv> (z * w + z * x div p) div p"
    and "f \<equiv> y * x mod p" and "e \<equiv> (y * w + y * x div p) mod p" and "d \<equiv> (y * w + y * x div p) div p"
  defines "h \<equiv> (b + f) mod p" and "g \<equiv> (a + e + (b + f) div p) mod p"
    and "i \<equiv> d + (a + e + (b + f) div p) div p"
  shows "((i * p + g) * p + h) * p + c = (w * p + x) * (y * p + z)"
proof -
  have 1: "z * x = z * x div p * p + c" "z * w + z * x div p = a * p + b"
    "y * x = y * x div p * p + f" "y * w + y * x div p = d * p + e"
    "b + f = (b + f) div p * p + h" "a + e + (b + f) div p = (a + e + (b + f) div p) div p * p + g"
    by (simp_all add: c_def b_def a_def f_def e_def d_def h_def g_def)
  have "((i * p + g) * p + h) * p + c =
      ((d * p + ((a + e + (b + f) div p) div p * p + g)) * p + h) * p + c"
    by (simp add: i_def algebra_simps)
  also have "\<dots> = ((d * p + (a + e + (b + f) div p)) * p + h) * p + c" using 1(6) by simp
  also have "\<dots> = ((d * p + e) * p + (a * p + ((b + f) div p * p + h))) * p + c" by (simp add: algebra_simps)
  also have "\<dots> = ((y * w + y * x div p) * p + (a * p + (b + f))) * p + c" using 1(4,5) by simp
  also have "\<dots> = (y * w * p + (y * x div p * p + f) + (a * p + b)) * p + c" by (simp add: algebra_simps)
  also have "\<dots> = (y * w * p + y * x + (z * w + z * x div p)) * p + c" using 1(2,3) by simp
  also have "\<dots> = (y * w * p + y * x + z * w) * p + (z * x div p * p + c)" by (simp add: algebra_simps)
  also have "\<dots> = (w * p + x) * (y * p + z)" using 1(1) by (simp add: algebra_simps)
  finally show ?thesis .
qed

text \<open>Values of 16 bits in 32-bit words: sums and products of two of them do not wrap.\<close>

lemma half_less: "unat (x AND 0xffff :: u32) < 2 ^ 16"
proof -
  have "unat (x AND mask 16) < 2 ^ 16"
    by (metis take_bit_eq_mask take_bit_nat_less_exp unsigned_take_bit_eq)
  then show ?thesis by (simp add: mask_numeral)
qed

lemma unat_limb_step:
  fixes z w x :: u32
  assumes "unat z < 2 ^ 16" "unat w < 2 ^ 16" "unat x < 2 ^ 16"
  shows "unat (z * x) = unat z * unat x"
    "unat (z * w + z * x div 65536) = unat z * unat w + unat z * unat x div 65536"
proof -
  have 1: "unat z * unat x \<le> 65535 * 65535" "unat z * unat w \<le> 65535 * 65535"
    using assms mult_mono [of "unat z" 65535 "unat x" 65535] mult_mono [of "unat z" 65535 "unat w" 65535]
    by simp_all
  show 2: "unat (z * x) = unat z * unat x" using 1 by (simp add: unat_word_ariths)
  have "unat (z * w) = unat z * unat w" using 1 by (simp add: unat_word_ariths)
  moreover have "unat (z * x div 65536) = unat z * unat x div 65536" by (simp add: unat_div_distrib 2)
  moreover have "unat z * unat x div 65536 \<le> 65534" using 1 by (simp add: div_le_mono less_Suc_eq_le)
  ultimately show "unat (z * w + z * x div 65536) = unat z * unat w + unat z * unat x div 65536"
    using 1 by (simp add: unat_word_ariths)
qed

lemma unat_join:
  fixes i g :: u32
  assumes "unat i < 2 ^ 16" "unat g < 2 ^ 16"
  shows "unat (push_bit 16 i OR g) = unat i * 65536 + unat g"
proof -
  have "\<not> bit g n" if "16 \<le> n" for n
    using assms(2) that less_mask_eq [of g 16]
    by (auto simp: word_less_nat_alt bit_simps dest: arg_cong [of _ _ "\<lambda>w. bit w n"])
  then have "push_bit 16 i OR g = push_bit 16 i + g"
    by (intro disjunctive_add [symmetric]) (auto simp: bit_simps)
  moreover have "push_bit 16 i = i * 65536" by (simp add: push_bit_eq_mult)
  moreover have "unat i * 65536 \<le> 65535 * 65536" using assms by (intro mult_right_mono) auto
  ultimately show ?thesis using assms by (simp add: unat_word_ariths)
qed

lemma mult64_limbs_eq: "mult64_limbs n m = mult64 n m"
proof -
  define w x y z where wx: "w = drop_bit 16 n AND 0xffff" "x = n AND 0xffff"
    "y = drop_bit 16 m AND 0xffff" "z = m AND 0xffff"
  have lim: "unat w < 2 ^ 16" "unat x < 2 ^ 16" "unat y < 2 ^ 16" "unat z < 2 ^ 16"
    unfolding wx by (rule half_less)+
  define c b a f e d h g i where dd: "c = (z * x) mod 65536" "b = (z * w + (z * x) div 65536) mod 65536"
    "a = (z * w + (z * x) div 65536) div 65536" "f = (y * x) mod 65536"
    "e = (y * w + (y * x) div 65536) mod 65536" "d = (y * w + (y * x) div 65536) div 65536"
    "h = (b + f) mod 65536" "g = ((a + e) + (b + f) div 65536) mod 65536"
    "i = (d + ((a + e) + (b + f) div 65536) div 65536) mod 65536"
  have res: "mult64_limbs n m = (push_bit 16 i OR g, push_bit 16 h OR c)"
    unfolding mult64_limbs_def Let_def wx dd by simp
  note zs = unat_limb_step [OF lim(4,1,2)] and ys = unat_limb_step [OF lim(3,1,2)]
  have ul: "unat c = unat z * unat x mod 65536" "unat b = (unat z * unat w + unat z * unat x div 65536) mod 65536"
    "unat a = (unat z * unat w + unat z * unat x div 65536) div 65536" "unat f = unat y * unat x mod 65536"
    "unat e = (unat y * unat w + unat y * unat x div 65536) mod 65536"
    "unat d = (unat y * unat w + unat y * unat x div 65536) div 65536"
    unfolding dd by (simp_all add: unat_mod_distrib unat_div_distrib zs ys)
  have "unat z * unat w + unat z * unat x div 65536 < 65536 * 65536"
    "unat y * unat w + unat y * unat x div 65536 < 65536 * 65536"
    using unsigned_less [of "z * w + z * x div 65536", where 'a = nat]
      unsigned_less [of "y * w + y * x div 65536", where 'a = nat] zs ys by simp_all
  then have s: "unat c < 65536" "unat b < 65536" "unat f < 65536" "unat e < 65536" "unat a < 65536" "unat d < 65536"
    unfolding ul by (simp_all add: less_mult_imp_div_less)
  have bf: "unat (b + f) = unat b + unat f" using s by (simp add: unat_word_ariths)
  have ae: "unat ((a + e) + (b + f) div 65536) = unat a + unat e + (unat b + unat f) div 65536"
  proof -
    have "(unat b + unat f) div 65536 \<le> 2" using s by (simp add: div_le_mono less_Suc_eq_le)
    moreover have "unat ((b + f) div 65536) = (unat b + unat f) div 65536" by (simp add: unat_div_distrib bf)
    ultimately show ?thesis using s by (simp add: unat_word_ariths)
  qed
  let ?i = "unat d + (unat a + unat e + (unat b + unat f) div 65536) div 65536"
  have ui: "unat i = ?i mod 65536"
  proof -
    let ?q = "((a + e) + (b + f) div 65536) div 65536"
    have q: "unat ?q = (unat a + unat e + (unat b + unat f) div 65536) div 65536"
      by (simp only: unat_div_distrib ae) simp
    then have "unat ?q \<le> 65536 * 2" using s by (simp add: div_le_mono less_Suc_eq_le)
    then have "unat (d + ?q) = unat d + unat ?q" using s by (simp add: unat_word_ariths)
    then show ?thesis unfolding dd(9) unat_mod_distrib q by simp
  qed
  have uhg: "unat h = (unat b + unat f) mod 65536" "unat g = (unat a + unat e + (unat b + unat f) div 65536) mod 65536"
    unfolding dd(7,8) by (simp_all add: unat_mod_distrib bf ae)
  have prod: "((?i * 65536 + unat g) * 65536 + unat h) * 65536 + unat c =
      (unat w * 65536 + unat x) * (unat y * 65536 + unat z)"
    unfolding uhg ul by (rule limb_product) simp
  have nm: "unat n = unat w * 65536 + unat x" "unat m = unat y * 65536 + unat z"
  proof -
    have "v = push_bit 16 (drop_bit 16 v AND 0xffff) OR (v AND 0xffff)" for v :: u32 by (simp add: bit_blast)
    then show "unat n = unat w * 65536 + unat x" "unat m = unat y * 65536 + unat z"
      unfolding wx using unat_join [OF half_less half_less] by metis+
  qed
  have "unat n * unat m < 2 ^ 32 * 2 ^ 32"
    using unsigned_less [of n, where 'a = nat] unsigned_less [of m, where 'a = nat] by (intro mult_strict_mono) auto
  then have "?i < 65536" using prod nm by simp
  then have i: "unat i = ?i" using ui by simp
  have lim': "unat i < 2 ^ 16" "unat g < 2 ^ 16" "unat h < 2 ^ 16" "unat c < 2 ^ 16"
    using s uhg ui by simp_all
  have "unat (push_bit 16 i OR g) * 2 ^ 32 + unat (push_bit 16 h OR c) = unat n * unat m"
    unfolding unat_join [OF lim'(1,2)] unat_join [OF lim'(3,4)] i
    using prod unfolding nm by (simp add: algebra_simps)
  with mult64_unique show ?thesis unfolding res by metis
qed

end
