(* ===== verification/CPU_State.thy ===== *)
theory CPU_State
  imports CPZero Cache ISA ALU
begin

unbundle bit_operations_syntax

text \<open>
  \<open>cpu.h\<close> and the first part of \<open>cpu.cc\<close>: the state of the five-stage R3000 pipeline and its
  exception entry.

  A \<open>PipelineRegs\<close> object holds the latches of one instruction on its way through the pipeline.
  Its operand fields are pointers into the register file or into the latches of an older
  instruction (the forwarding paths), so the objects live in a store \<open>pregs\<close> indexed by number,
  \<open>data_ptr\<close> is a pointer into them, and \<open>delete\<close> removes an object from the store: following a
  null or dangling pointer is the result \<^const>\<open>None\<close>. \<open>PL_REGS\<close>, \<open>late_preg\<close> and
  \<open>late_late_preg\<close> hold numbers of objects.

  \<open>now\<close> is \<open>machine->num_cycles\<close>, \<open>hwip\<close> is \<open>intc->calculateIP()\<close>. Members the constructor does
  not initialise keep the value they have in the record it starts from. The fields \<open>halted\<close> and
  \<open>stall_count\<close> stand for \<open>machine->halt()\<close> and \<open>machine->stall_count\<close>. Messages, the instruction
  dump and the trace file are left out.
\<close>

section \<open>Pipeline registers\<close>

datatype data_ptr = NullPtr | RegPtr nat | ResultPtr nat | RMemPtr nat | ImmPtr nat | ShamtPtr nat

record preg =
  p_instr :: u32
  p_pc :: u32
  alu_src_a :: data_ptr
  alu_src_b :: data_ptr
  w_reg_data :: data_ptr
  w_mem_data :: data_ptr
  lwrl_reg_prev :: data_ptr
  src_a :: nat
  src_b :: nat
  dst :: nat
  result :: u32
  r_mem_data :: u32
  imm :: u32
  p_shamt :: u32
  mem_read_op :: bool
  delay_slot :: bool
  excBuf :: "exc_info list"

abbreviation (input) PIPELINE_STAGES :: nat where "PIPELINE_STAGES \<equiv> 5"
abbreviation (input) IF_STAGE :: nat where "IF_STAGE \<equiv> 0"
abbreviation (input) ID_STAGE :: nat where "ID_STAGE \<equiv> 1"
abbreviation (input) EX_STAGE :: nat where "EX_STAGE \<equiv> 2"
abbreviation (input) MEM_STAGE :: nat where "MEM_STAGE \<equiv> 3"
abbreviation (input) WB_STAGE :: nat where "WB_STAGE \<equiv> 4"

record cpu =
  pc :: u32
  reg :: "u32 list"
  cpu_instr :: u32
  hi_reg :: u32
  lo_reg :: u32
  hi_temp :: u32
  lo_temp :: u32
  hi_write :: bool
  lo_write :: bool
  PL_REGS :: "nat option list"
  late_preg :: nat
  late_late_preg :: nat
  pregs :: "nat \<Rightarrow> preg option"
  next_preg :: nat
  memsys :: mapper
  cp0 :: cpzero
  mul_div_remain :: int
  cop_remain :: int
  suspend :: bool
  exc_signal :: "exc_info option"
  exception_pending :: bool
  opt_fpu :: bool
  opt_haltbreak :: bool
  opt_haltibe :: bool
  cpu_bigendian :: bool
  opt_icache :: "u32 \<times> u32 \<times> u32"
  opt_dcache :: "u32 \<times> u32 \<times> u32"
  mem_bandwidth :: nat
  icache :: "cache option"
  dcache :: "cache option"
  cpu_client :: client
  halted :: bool
  stall_count :: u32

definition PipelineRegs_new :: "nat \<Rightarrow> u32 \<Rightarrow> u32 \<Rightarrow> preg" where
  "PipelineRegs_new i p ins =
     \<lparr>p_instr = ins, p_pc = p, alu_src_a = ShamtPtr i, alu_src_b = ShamtPtr i,
      w_reg_data = NullPtr, w_mem_data = NullPtr, lwrl_reg_prev = NullPtr,
      src_a = NONE_REG, src_b = NONE_REG, dst = NONE_REG,
      result = 0, r_mem_data = 0, imm = 0, p_shamt = 0,
      mem_read_op = False, delay_slot = False, excBuf = []\<rparr>"

text \<open>\<open>new PipelineRegs(p, ins)\<close>, \<open>delete\<close>, and access through a stage pointer.\<close>

definition new_preg :: "u32 \<Rightarrow> u32 \<Rightarrow> cpu \<Rightarrow> nat \<times> cpu" where
  "new_preg p ins s =
     (let i = next_preg s
      in (i, s\<lparr>pregs := (pregs s)(i \<mapsto> PipelineRegs_new i p ins), next_preg := Suc i\<rparr>))"

definition delete_preg :: "nat \<Rightarrow> cpu \<Rightarrow> cpu option" where
  "delete_preg i s = (if pregs s i = None then None else Some (s\<lparr>pregs := (pregs s)(i := None)\<rparr>))"

definition stage :: "nat \<Rightarrow> cpu \<Rightarrow> nat option" where
  "stage k s = PL_REGS s ! k"

definition stage_preg :: "nat \<Rightarrow> cpu \<Rightarrow> preg option" where
  "stage_preg k s = Option.bind (stage k s) (pregs s)"

definition set_stage :: "nat \<Rightarrow> nat option \<Rightarrow> cpu \<Rightarrow> cpu" where
  "set_stage k p s = s\<lparr>PL_REGS := (PL_REGS s)[k := p]\<rparr>"

definition upd_preg :: "nat \<Rightarrow> (preg \<Rightarrow> preg) \<Rightarrow> cpu \<Rightarrow> cpu option" where
  "upd_preg i f s = map_option (\<lambda>p. s\<lparr>pregs := (pregs s)(i \<mapsto> f p)\<rparr>) (pregs s i)"

definition upd_stage :: "nat \<Rightarrow> (preg \<Rightarrow> preg) \<Rightarrow> cpu \<Rightarrow> cpu option" where
  "upd_stage k f s = Option.bind (stage k s) (\<lambda>i. upd_preg i f s)"

fun deref :: "cpu \<Rightarrow> data_ptr \<Rightarrow> u32 option" where
  "deref s NullPtr = None"
| "deref s (RegPtr r) = (if r < length (reg s) then Some (reg s ! r) else None)"
| "deref s (ResultPtr i) = map_option result (pregs s i)"
| "deref s (RMemPtr i) = map_option r_mem_data (pregs s i)"
| "deref s (ImmPtr i) = map_option imm (pregs s i)"
| "deref s (ShamtPtr i) = map_option p_shamt (pregs s i)"

definition volatilize_stage :: "nat \<Rightarrow> cpu \<Rightarrow> cpu" where
  "volatilize_stage k s = (let (i, s1) = new_preg (pc s + 4) NOP_INSTR s in set_stage k (Some i) s1)"

definition volatilize_pipeline :: "cpu \<Rightarrow> cpu" where
  "volatilize_pipeline s =
     (let s1 = foldl (\<lambda>s k. volatilize_stage k s) s [0..<PIPELINE_STAGES];
          (i, s2) = new_preg (pc s1 + 4) NOP_INSTR s1;
          s3 = s2\<lparr>late_preg := i\<rparr>;
          (j, s4) = new_preg (pc s3 + 4) NOP_INSTR s3
      in s4\<lparr>late_late_preg := j\<rparr>)"

definition CPU_new :: "mapper \<Rightarrow> cpzero \<Rightarrow> cpu \<Rightarrow> cpu" where
  "CPU_new m z s =
     volatilize_pipeline
       (s\<lparr>memsys := m, cp0 := z, mul_div_remain := 0, suspend := False, icache := None, dcache := None,
          reg := (reg s)[0 := 0], exception_pending := False\<rparr>)"

definition CPU_reset ::
  "u32 \<Rightarrow> (nat \<Rightarrow> nat \<Rightarrow> u32) \<Rightarrow> (nat \<Rightarrow> nat \<Rightarrow> nat \<Rightarrow> u32) \<Rightarrow> cpu \<Rightarrow> cpu option" where
  "CPU_reset now junk_tag junk_data s = do {
     let s1 = s\<lparr>reg := (reg s)[0 := 0], pc := 0xbfc00000 - 4, cp0 := CPZero_reset (cp0 s)\<rparr>;
     let (ibnum, ibsize, iway) = opt_icache s1;
     ic \<leftarrow> Cache_new now ibnum ibsize iway junk_tag junk_data;
     let (dbnum, dbsize, dway) = opt_dcache s1;
     dc \<leftarrow> Cache_new now dbnum dbsize dway junk_tag junk_data;
     Some (volatilize_pipeline (s1\<lparr>icache := Some ic, dcache := Some dc\<rparr>))
   }"

section \<open>Exceptions\<close>

record exc_prio =
  ep_priority :: int
  ep_excCode :: int
  ep_mode :: int

definition prio_table :: "exc_prio list" where
  "prio_table = map (\<lambda>(p, c, m). \<lparr>ep_priority = p, ep_excCode = c, ep_mode = m\<rparr>)
     [(1, Exc_AdEL, INSTFETCH),
      (2, Exc_TLBL, INSTFETCH), (2, Exc_TLBS, INSTFETCH),
      (3, Exc_IBE, ANY_MODE),
      (4, Exc_Ov, ANY_MODE), (4, Exc_Tr, ANY_MODE), (4, Exc_Sys, ANY_MODE),
      (4, Exc_Bp, ANY_MODE), (4, Exc_RI, ANY_MODE), (4, Exc_CpU, ANY_MODE),
      (5, Exc_AdEL, DATALOAD), (5, Exc_AdES, ANY_MODE),
      (6, Exc_TLBL, DATALOAD), (6, Exc_TLBS, DATALOAD),
      (6, Exc_TLBL, DATASTORE), (6, Exc_TLBS, DATASTORE),
      (7, Exc_Mod, ANY_MODE),
      (8, Exc_DBE, ANY_MODE),
      (9, Exc_Int, ANY_MODE),
      (0, ANY_MODE, ANY_MODE)]"

primrec prio_search :: "exc_prio list \<Rightarrow> int \<Rightarrow> int \<Rightarrow> int" where
  "prio_search [] c m = 0"
| "prio_search (p # ps) c m =
     (if ep_priority p = 0 then 0
      else if (c = ep_excCode p \<or> ep_excCode p = ANY_MODE) \<and> (m = ep_mode p \<or> ep_mode p = ANY_MODE)
      then ep_priority p else prio_search ps c m)"

definition exception_priority :: "int \<Rightarrow> int \<Rightarrow> int" where
  "exception_priority c m = prio_search prio_table c m"

definition raise_exc :: "exc_info \<Rightarrow> cpu \<Rightarrow> cpu" where
  "raise_exc e s = s\<lparr>exc_signal := Some e, exception_pending := True\<rparr>"

text \<open>\<open>exception(c)\<close> with its default arguments, and the requests a component sent to the processor.\<close>

definition cpu_exception :: "int \<Rightarrow> cpu \<Rightarrow> cpu" where
  "cpu_exception c s = raise_exc (exc_req c ANY_MODE) s"

definition raise_all :: "exc_info list \<Rightarrow> cpu \<Rightarrow> cpu" where
  "raise_all es s = foldl (\<lambda>s e. raise_exc e s) s es"

text \<open>The statement that ends most stages: move a pending signal into the latch of the instruction.\<close>

definition store_exc :: "nat \<Rightarrow> cpu \<Rightarrow> cpu option" where
  "store_exc i s =
     (if exception_pending s then do {
        e \<leftarrow> exc_signal s;
        s1 \<leftarrow> upd_preg i (\<lambda>p. p\<lparr>excBuf := excBuf p @ [e]\<rparr>) s;
        Some (s1\<lparr>exception_pending := False\<rparr>)
      } else Some s)"

text \<open>The selection loop of \<open>exc_handle\<close>: \<open>max_prio\<close> keeps its initial value.\<close>

definition select_exc :: "exc_info list \<Rightarrow> exc_info option" where
  "select_exc es =
     (let max_prio = -1 in
      foldl (\<lambda>sel e. if exception_priority (excCode e) (mode e) > max_prio then Some e else sel) None es)"

definition reset_cache :: "u32 \<Rightarrow> cache option \<Rightarrow> mapper \<Rightarrow> (cache option \<times> mapper) option" where
  "reset_cache now oc m = do {
     c \<leftarrow> oc;
     (c', m') \<leftarrow> reset_stat now c m;
     Some (Some c', m')
   }"

text \<open>The options that stop the machine at a breakpoint or an instruction bus error.\<close>

definition exc_halt :: "exc_info \<Rightarrow> cpu \<Rightarrow> cpu" where
  "exc_halt e s =
     (let s1 = (if opt_haltbreak s \<and> excCode e = Exc_Bp then s\<lparr>halted := True\<rparr> else s)
      in if opt_haltibe s1 \<and> excCode e = Exc_IBE then s1\<lparr>halted := True\<rparr> else s1)"

lemma exc_halt_simps [simp]:
  "icache (exc_halt e s) = icache s" "dcache (exc_halt e s) = dcache s" "memsys (exc_halt e s) = memsys s"
  "cp0 (exc_halt e s) = cp0 s" "PL_REGS (exc_halt e s) = PL_REGS s" "pregs (exc_halt e s) = pregs s"
  "next_preg (exc_halt e s) = next_preg s" "reg (exc_halt e s) = reg s" "hi_reg (exc_halt e s) = hi_reg s"
  "lo_reg (exc_halt e s) = lo_reg s" "cpu_client (exc_halt e s) = cpu_client s"
  "late_preg (exc_halt e s) = late_preg s" "late_late_preg (exc_halt e s) = late_late_preg s"
  by (simp_all add: exc_halt_def Let_def)

definition exc_handle :: "u32 \<Rightarrow> u32 \<Rightarrow> nat \<Rightarrow> cpu \<Rightarrow> cpu option" where
  "exc_handle now hwip i s = do {
     p \<leftarrow> pregs s i;
     if excBuf p = [] then Some s
     else do {
       e \<leftarrow> select_exc (excBuf p);
       let s2 = exc_halt e s;
       let epc = (if delay_slot p then p_pc p - 4 else p_pc p);
       (ic, m1) \<leftarrow> reset_cache now (icache s2) (memsys s2);
       (dc, m2) \<leftarrow> reset_cache now (dcache s2) m1;
       let m3 = mem_release_bus now (cpu_client s2) m2;
       let z = enter_exception hwip epc (word_of_int (excCode e)) (word_of_int (coprocno e)) False (cp0 s2);
       let base = (if use_boot_excp_address z then 0xbfc00100 else 0x80000000);
       let vector = (if (excCode e = Exc_TLBL \<or> excCode e = Exc_TLBS) \<and> tlb_miss_user z
                     then 0x000 else 0x080);
       Some (volatilize_pipeline
         (s2\<lparr>icache := ic, dcache := dc, memsys := m3, cp0 := z, pc := base + vector - 4\<rparr>))
     }
   }"

section \<open>Debugger access\<close>

definition debug_set_pc :: "u32 \<Rightarrow> cpu \<Rightarrow> cpu" where
  "debug_set_pc newpc s = s\<lparr>pc := newpc\<rparr>"

definition debug_get_pc :: "cpu \<Rightarrow> u32 option" where
  "debug_get_pc s = map_option p_pc (stage_preg WB_STAGE s)"

definition pending_exception :: "cpu \<Rightarrow> u8" where
  "pending_exception s =
     (if \<not> exception_pending s then 0
      else let (sr, bad, cause) = read_debug_info (cp0 s)
           in ucast (drop_bit 2 (cause AND Cause_ExcCode_MASK)))"

lemmas cpu_state_defs [cube_defs] =
  PipelineRegs_new_def new_preg_def delete_preg_def stage_def stage_preg_def set_stage_def
  upd_preg_def upd_stage_def volatilize_stage_def volatilize_pipeline_def CPU_new_def CPU_reset_def
  prio_table_def exception_priority_def raise_exc_def cpu_exception_def raise_all_def store_exc_def
  select_exc_def reset_cache_def exc_halt_def exc_handle_def debug_set_pc_def debug_get_pc_def pending_exception_def

end
