(* ===== verification/CPU_Exec.thy ===== *)
theory CPU_Exec
  imports CPU_State
begin

unbundle bit_operations_syntax

text \<open>
  The instruction routines of \<open>cpu.cc\<close> (the \<open>_exec\<close> methods), with \<open>cpzero_emulate\<close> and the
  coprocessor 0 instructions of \<open>cpzero.cc\<close> that reach into the processor, and \<open>fpu.cc\<close>.
  Arithmetic instructions work on the instruction in the EX stage, control transfers and
  coprocessor instructions on the one in the ID stage. The dispatch tables of method pointers
  are lists of optional functions; an entry that is absent is the null pointer the code skips.
\<close>

definition operand_a :: "nat \<Rightarrow> cpu \<Rightarrow> u32 option" where
  "operand_a k s = do { p \<leftarrow> stage_preg k s; deref s (alu_src_a p) }"

definition operand_b :: "nat \<Rightarrow> cpu \<Rightarrow> u32 option" where
  "operand_b k s = do { p \<leftarrow> stage_preg k s; deref s (alu_src_b p) }"

definition set_result :: "nat \<Rightarrow> u32 \<Rightarrow> cpu \<Rightarrow> cpu option" where
  "set_result k v s = upd_stage k (\<lambda>p. p\<lparr>result := v\<rparr>) s"

definition mark_delay_slot :: "cpu \<Rightarrow> cpu option" where
  "mark_delay_slot s = upd_stage IF_STAGE (\<lambda>p. p\<lparr>delay_slot := True\<rparr>) s"

definition call_entry :: "(cpu \<Rightarrow> cpu option) option \<Rightarrow> cpu \<Rightarrow> cpu option" where
  "call_entry f s = (case f of None \<Rightarrow> Some s | Some g \<Rightarrow> g s)"

text \<open>An EX-stage routine whose result is a function of its two operands.\<close>

definition alu2 :: "(u32 \<Rightarrow> u32 \<Rightarrow> u32) \<Rightarrow> cpu \<Rightarrow> cpu option" where
  "alu2 f s = do { a \<leftarrow> operand_a EX_STAGE s; b \<leftarrow> operand_b EX_STAGE s; set_result EX_STAGE (f a b) s }"

definition alu2_ov :: "(u32 \<Rightarrow> u32 \<Rightarrow> int + u32) \<Rightarrow> cpu \<Rightarrow> cpu option" where
  "alu2_ov f s = do {
     a \<leftarrow> operand_a EX_STAGE s;
     b \<leftarrow> operand_b EX_STAGE s;
     case f a b of Inl e \<Rightarrow> Some (cpu_exception e s) | Inr r \<Rightarrow> set_result EX_STAGE r s
   }"

section \<open>Arithmetic and logic (EX stage)\<close>

definition sll_exec :: "cpu \<Rightarrow> cpu option" where
  "sll_exec = alu2 (\<lambda>a b. push_bit (unat (b AND 0x1f)) a)"
definition srl_exec :: "cpu \<Rightarrow> cpu option" where
  "srl_exec = alu2 (\<lambda>a b. srl a (b AND 0x1f))"
definition sra_exec :: "cpu \<Rightarrow> cpu option" where
  "sra_exec = alu2 (\<lambda>a b. sra a (b AND 0x1f))"
definition add_exec :: "cpu \<Rightarrow> cpu option" where
  "add_exec = alu2_ov add_op"
definition addu_exec :: "cpu \<Rightarrow> cpu option" where
  "addu_exec = alu2 (\<lambda>a b. a + b)"
definition sub_exec :: "cpu \<Rightarrow> cpu option" where
  "sub_exec = alu2_ov sub_op"
definition subu_exec :: "cpu \<Rightarrow> cpu option" where
  "subu_exec = alu2 (\<lambda>a b. a - b)"
definition and_exec :: "cpu \<Rightarrow> cpu option" where
  "and_exec = alu2 (\<lambda>a b. a AND b)"
definition or_exec :: "cpu \<Rightarrow> cpu option" where
  "or_exec = alu2 (\<lambda>a b. a OR b)"
definition xor_exec :: "cpu \<Rightarrow> cpu option" where
  "xor_exec = alu2 (\<lambda>a b. a XOR b)"
definition nor_exec :: "cpu \<Rightarrow> cpu option" where
  "nor_exec = alu2 (\<lambda>a b. NOT (a OR b))"
definition slt_exec :: "cpu \<Rightarrow> cpu option" where
  "slt_exec = alu2 slt_op"
definition sltu_exec :: "cpu \<Rightarrow> cpu option" where
  "sltu_exec = alu2 sltu_op"

definition lui_exec :: "cpu \<Rightarrow> cpu option" where
  "lui_exec s = do { b \<leftarrow> operand_b EX_STAGE s; set_result EX_STAGE (push_bit 16 b) s }"

definition syscall_exec :: "cpu \<Rightarrow> cpu option" where
  "syscall_exec s = Some (cpu_exception Exc_Sys s)"
definition break_exec :: "cpu \<Rightarrow> cpu option" where
  "break_exec s = Some (cpu_exception Exc_Bp s)"

definition mfhi_exec :: "cpu \<Rightarrow> cpu option" where
  "mfhi_exec s = set_result EX_STAGE (hi_reg s) s"
definition mflo_exec :: "cpu \<Rightarrow> cpu option" where
  "mflo_exec s = set_result EX_STAGE (lo_reg s) s"
definition mthi_exec :: "cpu \<Rightarrow> cpu option" where
  "mthi_exec s = do { a \<leftarrow> operand_a EX_STAGE s; Some (s\<lparr>hi_temp := a, hi_write := True\<rparr>) }"
definition mtlo_exec :: "cpu \<Rightarrow> cpu option" where
  "mtlo_exec s = do { a \<leftarrow> operand_a EX_STAGE s; Some (s\<lparr>lo_temp := a, lo_write := True\<rparr>) }"

definition set_hi_lo :: "u32 \<times> u32 \<Rightarrow> cpu \<Rightarrow> cpu" where
  "set_hi_lo hl s = s\<lparr>hi_temp := fst hl, lo_temp := snd hl, hi_write := True, lo_write := True\<rparr>"

definition mult_exec :: "cpu \<Rightarrow> cpu option" where
  "mult_exec s = do {
     a \<leftarrow> operand_a EX_STAGE s; b \<leftarrow> operand_b EX_STAGE s; Some (set_hi_lo (mult64s a b) s) }"
definition multu_exec :: "cpu \<Rightarrow> cpu option" where
  "multu_exec s = do {
     a \<leftarrow> operand_a EX_STAGE s; b \<leftarrow> operand_b EX_STAGE s; Some (set_hi_lo (mult64 a b) s) }"

text \<open>Division traps on the host when \<open>div_op\<close> or \<open>divu_op\<close> has no result.\<close>

definition div_exec :: "cpu \<Rightarrow> cpu option" where
  "div_exec s = do {
     a \<leftarrow> operand_a EX_STAGE s; b \<leftarrow> operand_b EX_STAGE s; hl \<leftarrow> div_op a b; Some (set_hi_lo hl s) }"
definition divu_exec :: "cpu \<Rightarrow> cpu option" where
  "divu_exec s = do {
     a \<leftarrow> operand_a EX_STAGE s; b \<leftarrow> operand_b EX_STAGE s; hl \<leftarrow> divu_op a b; Some (set_hi_lo hl s) }"

section \<open>Coprocessors\<close>

text \<open>Both branches of \<open>cop_unimpl\<close> raise the exception; they differ in a message.\<close>

definition cop_unimpl :: "int \<Rightarrow> cpu \<Rightarrow> cpu option" where
  "cop_unimpl n s = do {
     usable \<leftarrow> cop_usable n (cp0 s);
     Some (raise_exc \<lparr>excCode = Exc_CpU, mode = ANY_MODE, coprocno = n\<rparr> s)
   }"

definition branch :: "u32 \<Rightarrow> u32 \<Rightarrow> cpu \<Rightarrow> cpu option" where
  "branch ins current_pc s = mark_delay_slot (s\<lparr>pc := current_pc + push_bit 2 (scast (s_immed ins))\<rparr>)"

definition mfc0_emulate :: "u32 \<Rightarrow> nat \<Rightarrow> cpu \<Rightarrow> cpu option" where
  "mfc0_emulate hwip i s = do {
     p \<leftarrow> pregs s i;
     let (v, z) = read_reg hwip (rd (p_instr p)) (cp0 s);
     upd_preg i (\<lambda>p. p\<lparr>result := v, dst := rt (p_instr p), w_reg_data := ResultPtr i\<rparr>) (s\<lparr>cp0 := z\<rparr>)
   }"

definition mtc0_emulate :: "u32 \<Rightarrow> cpu \<Rightarrow> cpu" where
  "mtc0_emulate ins s = s\<lparr>cp0 := write_reg (rd ins) (reg s ! rt ins) (cp0 s)\<rparr>"

definition cpCond :: bool where
  "cpCond = True"

definition bc0x_emulate :: "u32 \<Rightarrow> u32 \<Rightarrow> cpu \<Rightarrow> cpu option" where
  "bc0x_emulate ins p s =
     (let condition = rt ins in
      if condition = 0 then (if \<not> cpCond then branch ins p s else Some s)
      else if condition = 1 then (if cpCond then branch ins p s else Some s)
      else if condition = 2 \<or> condition = 3 then Some s
      else Some (cpu_exception Exc_RI s))"

definition cpzero_emulate :: "u32 \<Rightarrow> nat \<Rightarrow> cpu \<Rightarrow> cpu option" where
  "cpzero_emulate hwip i s = do {
     p \<leftarrow> pregs s i;
     let ins = p_instr p;
     let reserved = Some (raise_exc \<lparr>excCode = Exc_RI, mode = ANY_MODE, coprocno = 0\<rparr> s);
     if rs ins > 15 then
       (if funct ins = 1 then Some (s\<lparr>cp0 := tlbr_emulate (cp0 s)\<rparr>)
        else if funct ins = 2 then Some (s\<lparr>cp0 := tlbwi_emulate hwip (cp0 s)\<rparr>)
        else if funct ins = 6 then Some (s\<lparr>cp0 := tlbwr_emulate hwip (cp0 s)\<rparr>)
        else if funct ins = 8 then Some (s\<lparr>cp0 := tlbp_emulate (cp0 s)\<rparr>)
        else if funct ins = 16 then Some (s\<lparr>cp0 := rfe_emulate (cp0 s)\<rparr>)
        else reserved)
     else if rs ins = 0 then mfc0_emulate hwip i s
     else if rs ins = 4 then Some (mtc0_emulate ins s)
     else if rs ins = 8 then bc0x_emulate ins (p_pc p) s
     else reserved
   }"

definition cpzero_exec :: "u32 \<Rightarrow> cpu \<Rightarrow> cpu option" where
  "cpzero_exec hwip s = do {
     i \<leftarrow> stage ID_STAGE s;
     s1 \<leftarrow> cpzero_emulate hwip i s;
     dc \<leftarrow> dcache s1;
     Some (s1\<lparr>dcache := Some (cache_isolate (caches_isolated (cp0 s1)) dc)\<rparr>)
   }"

definition FPU_cpone_emulate :: "cpu \<Rightarrow> cpu" where
  "FPU_cpone_emulate s = raise_exc \<lparr>excCode = Exc_CpU, mode = ANY_MODE, coprocno = 1\<rparr> s"

definition cpone_exec :: "cpu \<Rightarrow> cpu option" where
  "cpone_exec s = do {
     i \<leftarrow> stage ID_STAGE s;
     p \<leftarrow> pregs s i;
     if opt_fpu s then Some (FPU_cpone_emulate s)
     else do {
       usable \<leftarrow> cop_usable 1 (cp0 s);
       if usable \<and> rs (p_instr p) = 2 \<and> rd (p_instr p) = 0 then
         upd_preg i (\<lambda>p. p\<lparr>dst := rt (cpu_instr s), result := 0, w_reg_data := ResultPtr i\<rparr>) s
       else cop_unimpl 1 s
     }
   }"

definition cptwo_exec :: "cpu \<Rightarrow> cpu option" where "cptwo_exec = cop_unimpl 2"
definition cpthree_exec :: "cpu \<Rightarrow> cpu option" where "cpthree_exec = cop_unimpl 3"
definition lwc1_exec :: "cpu \<Rightarrow> cpu option" where "lwc1_exec = cop_unimpl 1"
definition lwc2_exec :: "cpu \<Rightarrow> cpu option" where "lwc2_exec = cop_unimpl 2"
definition lwc3_exec :: "cpu \<Rightarrow> cpu option" where "lwc3_exec = cop_unimpl 3"
definition swc1_exec :: "cpu \<Rightarrow> cpu option" where "swc1_exec = cop_unimpl 1"
definition swc2_exec :: "cpu \<Rightarrow> cpu option" where "swc2_exec = cop_unimpl 2"
definition swc3_exec :: "cpu \<Rightarrow> cpu option" where "swc3_exec = cop_unimpl 3"

section \<open>Jumps and branches (ID stage)\<close>

text \<open>In the C++ expression the subtraction binds tighter than the disjunction.\<close>

definition jump_pc :: "preg \<Rightarrow> u32" where
  "jump_pc p = ((p_pc p + 4) AND 0xf0000000) OR (push_bit 2 (jumptarg (p_instr p)) - 4)"

definition j_exec :: "cpu \<Rightarrow> cpu option" where
  "j_exec s = do { p \<leftarrow> stage_preg ID_STAGE s; mark_delay_slot (s\<lparr>pc := jump_pc p\<rparr>) }"

definition jal_exec :: "cpu \<Rightarrow> cpu option" where
  "jal_exec s = do {
     p \<leftarrow> stage_preg ID_STAGE s;
     s1 \<leftarrow> set_result ID_STAGE (p_pc p + 8) (s\<lparr>pc := jump_pc p\<rparr>);
     mark_delay_slot s1
   }"

definition jr_exec :: "cpu \<Rightarrow> cpu option" where
  "jr_exec s = do { a \<leftarrow> operand_a ID_STAGE s; mark_delay_slot (s\<lparr>pc := a - 4\<rparr>) }"

definition jalr_exec :: "cpu \<Rightarrow> cpu option" where
  "jalr_exec s = do {
     p \<leftarrow> stage_preg ID_STAGE s;
     a \<leftarrow> operand_a ID_STAGE s;
     s1 \<leftarrow> set_result ID_STAGE (p_pc p + 8) (s\<lparr>pc := a - 4\<rparr>);
     mark_delay_slot s1
   }"

text \<open>The body of a taken branch; \<open>extra\<close> is the added constant of the target expression.\<close>

definition take_branch :: "u32 \<Rightarrow> bool \<Rightarrow> cpu \<Rightarrow> cpu option" where
  "take_branch extra taken s =
     (if taken then do {
        p \<leftarrow> stage_preg ID_STAGE s;
        mark_delay_slot (s\<lparr>pc := p_pc p + extra + push_bit 2 (imm p)\<rparr>)
      } else Some s)"

definition beq_exec :: "cpu \<Rightarrow> cpu option" where
  "beq_exec s = do { a \<leftarrow> operand_a ID_STAGE s; b \<leftarrow> operand_b ID_STAGE s; take_branch 0 (a = b) s }"
definition bne_exec :: "cpu \<Rightarrow> cpu option" where
  "bne_exec s = do { a \<leftarrow> operand_a ID_STAGE s; b \<leftarrow> operand_b ID_STAGE s; take_branch 0 (a \<noteq> b) s }"
definition blez_exec :: "cpu \<Rightarrow> cpu option" where
  "blez_exec s = do { a \<leftarrow> operand_a ID_STAGE s; take_branch 0 (a = 0 \<or> a AND 0x80000000 \<noteq> 0) s }"
definition bgtz_exec :: "cpu \<Rightarrow> cpu option" where
  "bgtz_exec s = do { a \<leftarrow> operand_a ID_STAGE s; take_branch 0 (a \<noteq> 0 \<and> a AND 0x80000000 = 0) s }"
definition bltz_exec :: "cpu \<Rightarrow> cpu option" where
  "bltz_exec s = do { a \<leftarrow> operand_a ID_STAGE s; take_branch 0 (sint a < 0) s }"
definition bgez_exec :: "cpu \<Rightarrow> cpu option" where
  "bgez_exec s = do { a \<leftarrow> operand_a ID_STAGE s; take_branch 0 (sint a \<ge> 0) s }"

definition link_result :: "cpu \<Rightarrow> cpu option" where
  "link_result s = do { p \<leftarrow> stage_preg ID_STAGE s; set_result ID_STAGE (p_pc p + 8) s }"

definition bltzal_exec :: "cpu \<Rightarrow> cpu option" where
  "bltzal_exec s = do {
     a \<leftarrow> operand_a ID_STAGE s; s1 \<leftarrow> take_branch 4 (sint a < 0) s; link_result s1 }"
definition bgezal_exec :: "cpu \<Rightarrow> cpu option" where
  "bgezal_exec s = do {
     a \<leftarrow> operand_a ID_STAGE s; s1 \<leftarrow> take_branch 0 (sint a \<ge> 0) s; link_result s1 }"

section \<open>Dispatch tables\<close>

definition funct_ctrl_table :: "(cpu \<Rightarrow> cpu option) option list" where
  "funct_ctrl_table = replicate 8 None @ [Some jr_exec, Some jal_exec] @ replicate 54 None"

definition funct_ctrl :: "cpu \<Rightarrow> cpu option" where
  "funct_ctrl s = do {
     p \<leftarrow> stage_preg ID_STAGE s; call_entry (funct_ctrl_table ! funct (p_instr p)) s }"

definition funct_exec_table :: "(cpu \<Rightarrow> cpu option) option list" where
  "funct_exec_table =
     [Some sll_exec, None, Some srl_exec, Some sra_exec, Some sll_exec, None, Some srl_exec, Some sra_exec,
      None, None, None, None, Some syscall_exec, Some break_exec, None, None,
      Some mfhi_exec, Some mthi_exec, Some mflo_exec, Some mtlo_exec, None, None, None, None,
      Some mult_exec, Some multu_exec, Some div_exec, Some divu_exec, None, None, None, None,
      Some add_exec, Some addu_exec, Some sub_exec, Some subu_exec,
      Some and_exec, Some or_exec, Some xor_exec, Some nor_exec,
      None, None, Some slt_exec, Some sltu_exec, None, None, None, None,
      None, None, None, None, None, None, None, None,
      None, None, None, None, None, None, None, None]"

definition funct_exec :: "cpu \<Rightarrow> cpu option" where
  "funct_exec s = do {
     p \<leftarrow> stage_preg EX_STAGE s; call_entry (funct_exec_table ! funct (p_instr p)) s }"

definition bcond_table :: "(cpu \<Rightarrow> cpu option) option list" where
  "bcond_table =
     [Some bltz_exec, Some bgez_exec] @ replicate 14 None @
     [Some bltzal_exec, Some bgezal_exec] @ replicate 14 None"

definition bcond_exec :: "cpu \<Rightarrow> cpu option" where
  "bcond_exec s = do {
     p \<leftarrow> stage_preg ID_STAGE s; call_entry (bcond_table ! rt (p_instr p)) s }"

definition decode_table :: "u32 \<Rightarrow> (cpu \<Rightarrow> cpu option) option list" where
  "decode_table hwip =
     [Some funct_ctrl, Some bcond_exec, Some j_exec, Some jal_exec,
      Some beq_exec, Some bne_exec, Some blez_exec, Some bgtz_exec,
      None, None, None, None, None, None, None, None,
      Some (cpzero_exec hwip), Some cpone_exec, Some cptwo_exec, Some cpthree_exec] @ replicate 44 None"

text \<open>
  The seventh row of \<open>execTable\<close> in \<open>execute\<close> has seven entries, so the eighth row starts at index
  55; the entries the initialiser leaves out are null.
\<close>

definition execute_table :: "(cpu \<Rightarrow> cpu option) option list" where
  "execute_table =
     [Some funct_exec, None, None, None, None, None, None, None,
      Some add_exec, Some addu_exec, Some slt_exec, Some sltu_exec,
      Some and_exec, Some or_exec, Some xor_exec, Some lui_exec,
      None, None, None, None, None, None, None, None,
      None, None, None, None, None, None, None, None,
      Some addu_exec, Some addu_exec, Some addu_exec, Some addu_exec,
      Some addu_exec, Some addu_exec, Some addu_exec, None,
      Some addu_exec, Some addu_exec, Some addu_exec, Some addu_exec,
      None, None, Some addu_exec, Some addu_exec,
      Some lwc1_exec, Some lwc2_exec, Some lwc3_exec, None, None, None, None,
      Some swc1_exec, Some swc2_exec, Some swc3_exec, None, None, None, None,
      None, None]"

lemmas cpu_exec_defs [cube_defs] =
  operand_a_def operand_b_def set_result_def mark_delay_slot_def call_entry_def alu2_def alu2_ov_def
  sll_exec_def srl_exec_def sra_exec_def add_exec_def addu_exec_def sub_exec_def subu_exec_def
  and_exec_def or_exec_def xor_exec_def nor_exec_def slt_exec_def sltu_exec_def lui_exec_def
  syscall_exec_def break_exec_def mfhi_exec_def mflo_exec_def mthi_exec_def mtlo_exec_def
  set_hi_lo_def mult_exec_def multu_exec_def div_exec_def divu_exec_def cop_unimpl_def branch_def
  mfc0_emulate_def mtc0_emulate_def cpCond_def bc0x_emulate_def cpzero_emulate_def cpzero_exec_def
  FPU_cpone_emulate_def cpone_exec_def cptwo_exec_def cpthree_exec_def lwc1_exec_def lwc2_exec_def
  lwc3_exec_def swc1_exec_def swc2_exec_def swc3_exec_def jump_pc_def j_exec_def jal_exec_def
  jr_exec_def jalr_exec_def take_branch_def beq_exec_def bne_exec_def blez_exec_def bgtz_exec_def
  bltz_exec_def bgez_exec_def link_result_def bltzal_exec_def bgezal_exec_def funct_ctrl_def
  funct_exec_def bcond_exec_def

lemma exec_table_lengths [simp]:
  "length funct_ctrl_table = 64" "length funct_exec_table = 64" "length bcond_table = 32"
  "length (decode_table hwip) = 64" "length execute_table = 64"
  by (simp_all add: funct_ctrl_table_def funct_exec_table_def bcond_table_def decode_table_def
      execute_table_def)

end
