(* ===== verification/CPU.thy ===== *)
theory CPU
  imports CPU_Exec
begin

unbundle bit_operations_syntax

text \<open>
  The five stages of the pipeline and \<open>CPU::step\<close> (\<open>cpu.cc\<close>). The stages run in the order of the
  code: decoding and the address checks first, then the fetch, exception entry, the caches, and
  finally, when nothing stalls, commit, memory access, execution and control transfer.

  \<open>junk\<close> is the value of the uninitialised variable \<open>cacheable\<close>, which \<open>pre_mem_access\<close> and
  \<open>mem_access\<close> read after a translation that failed. \<open>int8\<close> is a signed \<open>char\<close>.
\<close>

section \<open>Caches and translation\<close>

datatype cache_sel = ICache | DCache

primrec get_cache :: "cache_sel \<Rightarrow> cpu \<Rightarrow> cache option" where
  "get_cache ICache s = icache s"
| "get_cache DCache s = dcache s"

primrec put_cache :: "cache_sel \<Rightarrow> cache \<Rightarrow> cpu \<Rightarrow> cpu" where
  "put_cache ICache c s = s\<lparr>icache := Some c\<rparr>"
| "put_cache DCache c s = s\<lparr>dcache := Some c\<rparr>"

definition fetch_cache :: "cpu \<Rightarrow> cache_sel" where
  "fetch_cache s = (if caches_swapped (cp0 s) then DCache else ICache)"

definition data_cache :: "cpu \<Rightarrow> cache_sel" where
  "data_cache s = (if caches_swapped (cp0 s) then ICache else DCache)"

definition cache_op_mux :: "u32 \<Rightarrow> cpu \<Rightarrow> cache_sel" where
  "cache_op_mux opc s =
     (if caches_swapped (cp0 s)
      then (if opc \<ge> DCACHE_OPCODE_START then ICache else DCache)
      else (if opc \<ge> DCACHE_OPCODE_START then DCache else ICache))"

definition cpu_translate :: "bool \<Rightarrow> u32 \<Rightarrow> int \<Rightarrow> cpu \<Rightarrow> u32 \<times> bool \<times> cpu" where
  "cpu_translate junk va md s =
     (let (pa, ca, z, es) = address_trans va md (cp0 s)
      in (pa, (case ca of None \<Rightarrow> junk | Some b \<Rightarrow> b), raise_all es (s\<lparr>cp0 := z\<rparr>)))"

section \<open>Instruction fetch\<close>

definition fetch_nop :: "cpu \<Rightarrow> cpu option" where
  "fetch_nop s = (let (i, s1) = new_preg (pc s) NOP_INSTR s in store_exc i (set_stage IF_STAGE (Some i) s1))"

text \<open>The loads \<open>fetch_instr\<close> comes from, and what \<open>fetch\<close> does with it.\<close>

definition fetch_load :: "u32 \<Rightarrow> u32 \<Rightarrow> bool \<Rightarrow> cpu \<Rightarrow> (u32 \<times> cpu) option" where
  "fetch_load now real_pc cacheable s =
     (if cacheable then do {
        c \<leftarrow> get_cache (fetch_cache s) s;
        (w, c', es) \<leftarrow> cache_fetch_word now real_pc INSTFETCH c;
        Some (w, raise_all es (put_cache (fetch_cache s) c' s))
      } else do {
        (w, m, es) \<leftarrow> mem_fetch_word now real_pc INSTFETCH (cpu_client s) (memsys s);
        Some (w, raise_all es (s\<lparr>memsys := mem_release_bus now (cpu_client s) m\<rparr>))
      })"

definition fetch_request :: "u32 \<Rightarrow> u32 \<Rightarrow> bool \<Rightarrow> bool \<Rightarrow> cpu \<Rightarrow> (bool \<times> cpu) option" where
  "fetch_request now real_pc cacheable data_miss s =
     (if cacheable then do {
        c \<leftarrow> get_cache (fetch_cache s) s;
        let miss = (\<not> cache_ready c real_pc);
        if miss \<and> \<not> data_miss then do {
          (c', m) \<leftarrow> request_block now real_pc INSTFETCH (cpu_client s) c (memsys s);
          Some (miss, put_cache (fetch_cache s) c' (s\<lparr>memsys := m\<rparr>))
        } else Some (miss, s)
      } else do {
        let (granted, m) = mem_acquire_bus now (cpu_client s) (memsys s);
        if \<not> granted then Some (True, s\<lparr>memsys := m\<rparr>)
        else do {
          (r, m1) \<leftarrow> mem_ready now real_pc INSTFETCH (cpu_client s) m;
          let m2 = (if \<not> r \<and> \<not> data_miss
                    then request_word now real_pc INSTFETCH (cpu_client s) m1 else m1);
          Some (\<not> r, s\<lparr>memsys := m2\<rparr>)
        }
      })"

definition fetch :: "u32 \<Rightarrow> bool \<Rightarrow> cpu \<Rightarrow> (bool \<times> cpu) option" where
  "fetch now data_miss s =
     (let (real_pc, cacheable, s1) =
        (if pc s mod 4 \<noteq> 0 then (0, False, cpu_exception Exc_AdEL s)
         else cpu_translate False (pc s) INSTFETCH s)
      in if exception_pending s1 then map_option (Pair True) (fetch_nop s1)
         else do {
           (miss, s2) \<leftarrow> fetch_request now real_pc cacheable data_miss s1;
           if miss then Some (True, s2)
           else do {
             (w, s3) \<leftarrow> fetch_load now real_pc cacheable s2;
             let (i, s4) = new_preg (pc s3) w s3;
             let s5 = set_stage IF_STAGE (Some i) s4;
             if exception_pending s5 then map_option (Pair False) (fetch_nop s5)
             else Some (False, s5)
           }
         })"

section \<open>Instruction decode\<close>

definition reserved_instr :: "u32 \<Rightarrow> bool" where
  "reserved_instr ins =
     (if opcode ins = OP_SPECIAL then RI_special_flag ! funct ins
      else (opcode ins = OP_CACHE \<and> RI_cache_op_flag ! rt ins) \<or> RI_flag ! opcode ins)"

definition is_cop :: "u32 \<Rightarrow> bool" where
  "is_cop ins \<longleftrightarrow> OP_COP0 \<le> opcode ins \<and> opcode ins \<le> OP_COP3"

definition decode_src_a :: "u32 \<Rightarrow> nat option" where
  "decode_src_a ins =
     (if opcode ins = OP_SPECIAL then dec_reg (firstSrcDecSpecialTable ! funct ins) ins
      else if opcode ins = OP_BCOND then dec_reg (firstSrcDecBcondTable ! rt ins) ins
      else if is_cop ins then Some (if rs ins = COP_OP_MTC then rt ins else NONE_REG)
      else dec_reg (firstSrcDecTable ! opcode ins) ins)"

definition decode_src_b :: "u32 \<Rightarrow> nat option" where
  "decode_src_b ins =
     (if opcode ins = OP_SPECIAL then dec_reg (secondSrcDecSpecialTable ! funct ins) ins
      else dec_reg (secondSrcDecTable ! opcode ins) ins)"

definition decode_dst :: "u32 \<Rightarrow> nat option" where
  "decode_dst ins = map_option (\<lambda>d. if d = 0 then NONE_REG else d)
     (if opcode ins = OP_SPECIAL then dec_reg (dstDecSpecialTable ! funct ins) ins
      else if is_cop ins then Some (if rs ins = COP_OP_MFC then rt ins else NONE_REG)
      else if opcode ins = OP_BCOND
        then Some (if rt ins = BCONDE_BLTZAL \<or> rt ins = BCONDE_BGEZAL then RA_REG else NONE_REG)
      else dec_reg (dstDecTable ! opcode ins) ins)"

definition decode_shamt :: "u32 \<Rightarrow> u32 \<Rightarrow> u32" where
  "decode_shamt ins old =
     (if opcode ins = OP_SPECIAL \<and> shamt_flag ! funct ins then ucast (shamt ins) else old)"

definition decode_imm :: "u32 \<Rightarrow> u32 \<Rightarrow> u32" where
  "decode_imm ins old =
     (if opcode ins = OP_SPECIAL then old
      else if imm_flag ! opcode ins then ucast (immed ins)
      else if s_imm_flag ! opcode ins then scast (s_immed ins)
      else old)"

text \<open>
  The forwarding network: the pointer to the newest value of register \<open>r\<close> and whether it is still
  being loaded. \<open>ex\<close>, \<open>me\<close> and \<open>wb\<close> are the instructions in the three later stages.
\<close>

definition forward :: "preg \<Rightarrow> preg \<Rightarrow> preg \<Rightarrow> nat \<Rightarrow> data_ptr \<times> bool" where
  "forward ex me wb r =
     (if r = dst ex then (w_reg_data ex, mem_read_op ex)
      else if r = dst me then (w_reg_data me, False)
      else if r = dst wb then (w_reg_data wb, False)
      else (RegPtr r, False))"

definition decode_alu_b :: "u32 \<Rightarrow> nat \<Rightarrow> data_ptr \<Rightarrow> data_ptr" where
  "decode_alu_b ins i old =
     (if opcode ins = OP_SPECIAL then (if shamt_flag ! funct ins then ShamtPtr i else old)
      else if imm_flag ! opcode ins \<or> s_imm_flag ! opcode ins then ImmPtr i else old)"

text \<open>What \<open>pre_decode\<close> writes into the latch of the instruction, and its \<open>data_hazard\<close>.\<close>

definition pre_decode_latch ::
  "u32 \<Rightarrow> nat \<Rightarrow> nat \<Rightarrow> nat \<Rightarrow> nat \<Rightarrow> preg \<Rightarrow> preg \<Rightarrow> preg \<Rightarrow> preg \<Rightarrow> preg \<times> bool" where
  "pre_decode_latch ins i a b d ex me wb p =
     (let op = opcode ins;
          p1 = p\<lparr>src_a := a, src_b := b, dst := d\<rparr>;
          fa = forward ex me wb a;
          p2 = (if a \<noteq> NONE_REG then p1\<lparr>alu_src_a := fst fa\<rparr> else p1);
          p3 = p2\<lparr>p_shamt := decode_shamt ins (p_shamt p2), imm := decode_imm ins (imm p2)\<rparr>;
          fb = forward ex me wb b;
          p4 = (if b \<noteq> NONE_REG then p3\<lparr>alu_src_b := fst fb\<rparr>
                else p3\<lparr>alu_src_b := decode_alu_b ins i (alu_src_b p3)\<rparr>);
          p5 = (if op = OP_LWL \<or> op = OP_LWR
                then p4\<lparr>lwrl_reg_prev := (if d = dst ex then w_reg_data ex else RegPtr d)\<rparr> else p4);
          p6 = (if d \<noteq> NONE_REG
                then (if mem_read_flag ! op then p5\<lparr>mem_read_op := True, w_reg_data := RMemPtr i\<rparr>
                      else p5\<lparr>w_reg_data := ResultPtr i\<rparr>) else p5);
          p7 = (if mem_write_flag ! op
                then p6\<lparr>w_mem_data := (if rt ins = dst ex then w_reg_data ex else RegPtr (rt ins))\<rparr>
                else p6)
      in (p7, (a \<noteq> NONE_REG \<and> snd fa) \<or> (b \<noteq> NONE_REG \<and> snd fb)))"

definition pre_decode :: "cpu \<Rightarrow> (bool \<times> cpu) option" where
  "pre_decode s = do {
     i \<leftarrow> stage ID_STAGE s;
     p0 \<leftarrow> pregs s i;
     let ins = p_instr p0;
     let ri = reserved_instr ins;
     let s1 = (if ri then cpu_exception Exc_RI s else s);
     s2 \<leftarrow> (if ri then upd_preg i (\<lambda>p. p\<lparr>p_instr := NOP_INSTR\<rparr>) s1 else Some s1);
     a \<leftarrow> decode_src_a ins;
     b \<leftarrow> decode_src_b ins;
     d \<leftarrow> decode_dst ins;
     ex \<leftarrow> stage_preg EX_STAGE s2;
     me \<leftarrow> stage_preg MEM_STAGE s2;
     wb \<leftarrow> stage_preg WB_STAGE s2;
     p \<leftarrow> pregs s2 i;
     let (p', hazard) = pre_decode_latch ins i a b d ex me wb p;
     s3 \<leftarrow> upd_preg i (\<lambda>q. p') s2;
     s4 \<leftarrow> store_exc i s3;
     Some (hazard, s4)
   }"

definition decode :: "u32 \<Rightarrow> cpu \<Rightarrow> cpu option" where
  "decode hwip s = do {
     i \<leftarrow> stage ID_STAGE s;
     p \<leftarrow> pregs s i;
     let op = opcode (p_instr p);
     if suspend s \<and> cop_remain s \<noteq> 0 then Some s
     else if \<not> suspend s \<and> cop_flag ! op then
       Some (s\<lparr>suspend := True, cop_remain := CPZERO_OP_SUSPEND\<rparr>)
     else do {
       s1 \<leftarrow> call_entry (decode_table hwip ! op) (s\<lparr>suspend := False\<rparr>);
       store_exc i s1
     }
   }"

section \<open>Execution\<close>

definition pre_execute :: "cpu \<Rightarrow> bool option" where
  "pre_execute s = do {
     p \<leftarrow> stage_preg EX_STAGE s;
     Some (opcode (p_instr p) = OP_SPECIAL \<and> mul_div_flag ! funct (p_instr p) \<and> mul_div_remain s > 0)
   }"

definition execute :: "cpu \<Rightarrow> cpu option" where
  "execute s = do {
     i \<leftarrow> stage EX_STAGE s;
     p \<leftarrow> pregs s i;
     let ins = p_instr p;
     s1 \<leftarrow> call_entry (execute_table ! opcode ins) s;
     let s2 = (if opcode ins = OP_SPECIAL \<and> mul_div_flag ! funct ins
               then s1\<lparr>mul_div_remain := mul_div_delay (funct ins)\<rparr> else s1);
     store_exc i s2
   }"

section \<open>Memory access\<close>

text \<open>The alignment check of \<open>pre_mem_access\<close>: the address it goes on with and its exception.\<close>

definition align_check :: "nat \<Rightarrow> u32 \<Rightarrow> u32 \<times> bool" where
  "align_check op va =
     (if op = OP_LH \<or> op = OP_LHU \<or> op = OP_SH then (va, va mod 2 \<noteq> 0)
      else if op = OP_LW \<or> op = OP_SW then (va AND NOT 0x03, va mod 4 \<noteq> 0)
      else if op = OP_LWL \<or> op = OP_LWR \<or> op = OP_SWL \<or> op = OP_SWR then (va AND NOT 0x03, False)
      else (va, False))"

definition data_request :: "u32 \<Rightarrow> u32 \<Rightarrow> int \<Rightarrow> bool \<Rightarrow> cpu \<Rightarrow> (bool \<times> cpu) option" where
  "data_request now phys md cacheable s =
     (if cacheable then do {
        let w = data_cache s;
        c \<leftarrow> get_cache w s;
        if cache_ready c phys then Some (False, s)
        else do {
          (c', m) \<leftarrow> request_block now phys md (cpu_client s) c (memsys s);
          Some (True, put_cache w c' (s\<lparr>memsys := m\<rparr>))
        }
      } else do {
        let (granted, m) = mem_acquire_bus now (cpu_client s) (memsys s);
        if \<not> granted then Some (True, s\<lparr>memsys := m\<rparr>)
        else do {
          (r, m1) \<leftarrow> mem_ready now phys md (cpu_client s) m;
          Some (\<not> r, s\<lparr>memsys := (if r then m1 else request_word now phys md (cpu_client s) m1)\<rparr>)
        }
      })"

definition cache_instr :: "bool \<Rightarrow> u32 \<Rightarrow> u32 \<Rightarrow> u32 \<Rightarrow> cpu \<Rightarrow> (bool \<times> cpu) option" where
  "cache_instr junk now opc va s =
     (let (phys, cacheable, s1) = cpu_translate junk va ANY_MODE s in
      if \<not> cacheable then Some (False, cpu_exception Exc_AdEL s1)
      else do {
        let w = cache_op_mux opc s1;
        c \<leftarrow> get_cache w s1;
        (ok, c', m) \<leftarrow> exec_cache_op now opc phys (cpu_client s1) c (memsys s1);
        Some (\<not> ok, put_cache w c' (s1\<lparr>memsys := m\<rparr>))
      })"

definition pre_mem_access :: "bool \<Rightarrow> u32 \<Rightarrow> cpu \<Rightarrow> (bool \<times> cpu) option" where
  "pre_mem_access junk now s = do {
     i \<leftarrow> stage MEM_STAGE s;
     p \<leftarrow> pregs s i;
     let op = opcode (p_instr p);
     let (va, bad) = align_check op (result p);
     let s1 = (if bad then cpu_exception Exc_AdEL s else s);
     (miss, s2) \<leftarrow>
       (if op = OP_CACHE then cache_instr junk now (of_nat (rt (p_instr p))) va s1
        else if mem_write_flag ! op \<or> mem_read_flag ! op then
          let md = (if mem_write_flag ! op then DATASTORE else DATALOAD);
              (phys, cacheable, s') = cpu_translate junk va md s1
          in data_request now phys md cacheable s'
        else Some (False, s1));
     s3 \<leftarrow> store_exc i s2;
     Some (miss, s3)
   }"

text \<open>Storing the bytes of an unaligned store into the cache, at the \<^emph>\<open>virtual\<close> word address.\<close>

primrec store_bytes :: "u32 \<Rightarrow> cache_sel \<Rightarrow> u32 \<Rightarrow> (nat \<times> u32) list \<Rightarrow> cpu \<Rightarrow> cpu option" where
  "store_bytes now w wordvirt [] s = Some s"
| "store_bytes now w wordvirt (x # xs) s = do {
     c \<leftarrow> get_cache w s;
     c' \<leftarrow> cache_store_byte now (wordvirt + of_nat (fst x)) (ucast (snd x)) c (memsys s);
     store_bytes now w wordvirt xs (put_cache w c' s)
   }"

definition cached_store :: "u32 \<Rightarrow> nat \<Rightarrow> u32 \<Rightarrow> u32 \<Rightarrow> u32 \<Rightarrow> cpu \<Rightarrow> cpu option" where
  "cached_store now op vaddr phys data s = do {
     let w = data_cache s;
     c \<leftarrow> get_cache w s;
     if op = OP_SB then
       map_option (\<lambda>c'. put_cache w c' s) (cache_store_byte now phys (ucast (data AND 0xff)) c (memsys s))
     else if op = OP_SH then
       map_option (\<lambda>(c', es). raise_all es (put_cache w c' s))
         (cache_store_halfword now phys (ucast (data AND 0xffff)) c (memsys s))
     else if op = OP_SWL then
       store_bytes now w (vaddr AND NOT 0x03) (swl_bytes (cpu_bigendian s) data (unat (vaddr AND 0x03))) s
     else if op = OP_SW then
       map_option (\<lambda>(c', es). raise_all es (put_cache w c' s)) (cache_store_word now phys data c)
     else if op = OP_SWR then
       store_bytes now w (vaddr AND NOT 0x03) (swr_bytes (cpu_bigendian s) data (unat (vaddr AND 0x03))) s
     else Some s
   }"

definition uncached_store :: "u32 \<Rightarrow> nat \<Rightarrow> u32 \<Rightarrow> u32 \<Rightarrow> cpu \<Rightarrow> cpu option" where
  "uncached_store now op phys data s = do {
     (m, es) \<leftarrow>
       (if op = OP_SB then mem_store_byte now phys (ucast data) (cpu_client s) (memsys s)
        else if op = OP_SH then mem_store_halfword now phys (ucast data) (cpu_client s) (memsys s)
        else if op = OP_SWL \<or> op = OP_SW \<or> op = OP_SWR
          then mem_store_word now phys data (cpu_client s) (memsys s)
        else Some (memsys s, []));
     Some (raise_all es (s\<lparr>memsys := mem_release_bus now (cpu_client s) m\<rparr>))
   }"

text \<open>\<open>r_mem_data\<close> after the access; \<open>old\<close> is its previous value.\<close>

definition cached_load :: "u32 \<Rightarrow> nat \<Rightarrow> u32 \<Rightarrow> u32 \<Rightarrow> cpu \<Rightarrow> (u32 \<times> cpu) option" where
  "cached_load now op phys old s = do {
     let w = data_cache s;
     c \<leftarrow> get_cache w s;
     if op = OP_LB \<or> op = OP_LBU then
       map_option (\<lambda>(b, c'). (ucast b, put_cache w c' s)) (cache_fetch_byte now phys c (memsys s))
     else if op = OP_LH \<or> op = OP_LHU then
       map_option (\<lambda>(h, c', es). (ucast h, raise_all es (put_cache w c' s)))
         (cache_fetch_halfword now phys c (memsys s))
     else if op = OP_LWL \<or> op = OP_LWR \<or> op = OP_LW then
       map_option (\<lambda>(d, c', es). (d, raise_all es (put_cache w c' s)))
         (cache_fetch_word now (if op = OP_LW then phys else phys AND NOT 0x03) DATALOAD c)
     else Some (old, s)
   }"

definition uncached_load :: "u32 \<Rightarrow> nat \<Rightarrow> u32 \<Rightarrow> u32 \<Rightarrow> cpu \<Rightarrow> (u32 \<times> cpu) option" where
  "uncached_load now op phys old s = do {
     (d, m, es) \<leftarrow>
       (if op = OP_LB \<or> op = OP_LBU then
          map_option (\<lambda>(b, m, es). (ucast b, m, es)) (mem_fetch_byte now phys (cpu_client s) (memsys s))
        else if op = OP_LH \<or> op = OP_LHU then
          map_option (\<lambda>(h, m, es). (scast h, m, es)) (mem_fetch_halfword now phys (cpu_client s) (memsys s))
        else if op = OP_LWL \<or> op = OP_LWR \<or> op = OP_LW then
          mem_fetch_word now (if op = OP_LW then phys else phys AND NOT 0x03) DATALOAD
            (cpu_client s) (memsys s)
        else Some (old, memsys s, []));
     Some (d, raise_all es (s\<lparr>memsys := mem_release_bus now (cpu_client s) m\<rparr>))
   }"

text \<open>The last switch of \<open>mem_access\<close>.\<close>

definition finalize_load :: "nat \<Rightarrow> u32 \<Rightarrow> u32 \<Rightarrow> preg \<Rightarrow> cpu \<Rightarrow> u32 option" where
  "finalize_load op vaddr d p s =
     (if op = OP_LB then Some (scast (ucast d :: u8))
      else if op = OP_LH then Some (scast (ucast d :: u16))
      else if op = OP_LWL then
        do { old \<leftarrow> deref s (lwrl_reg_prev p); lwl (cpu_bigendian s) old d (vaddr AND 0x03) }
      else if op = OP_LWR then
        do { old \<leftarrow> deref s (lwrl_reg_prev p); lwr (cpu_bigendian s) old d (vaddr AND 0x03) }
      else if op = OP_LBU then Some (d AND 0xff)
      else if op = OP_LHU then Some (d AND 0xffff)
      else Some d)"

definition mem_access :: "bool \<Rightarrow> u32 \<Rightarrow> cpu \<Rightarrow> cpu option" where
  "mem_access junk now s = do {
     i \<leftarrow> stage MEM_STAGE s;
     p \<leftarrow> pregs s i;
     let op = opcode (p_instr p);
     let vaddr = result p;
     if mem_write_flag ! op then
       (if excBuf p \<noteq> [] then Some (s\<lparr>memsys := mem_release_bus now (cpu_client s) (memsys s)\<rparr>)
        else do {
          data \<leftarrow> deref s (w_mem_data p);
          let (phys, cacheable, s1) = cpu_translate junk vaddr DATASTORE s;
          if cacheable then cached_store now op vaddr phys data s1
          else uncached_store now op phys data s1
        })
     else if mem_read_flag ! op then do {
       let (phys, cacheable, s1) = cpu_translate junk vaddr DATALOAD s;
       (d, s2) \<leftarrow> (if cacheable then cached_load now op phys (r_mem_data p) s1
                   else uncached_load now op phys (r_mem_data p) s1);
       s3 \<leftarrow> upd_preg i (\<lambda>p. p\<lparr>r_mem_data := d\<rparr>) s2;
       v \<leftarrow> finalize_load op vaddr d p s3;
       upd_preg i (\<lambda>p. p\<lparr>r_mem_data := v\<rparr>) s3
     }
     else Some s
   }"

section \<open>Write back and the clock step\<close>

definition reg_commit :: "cpu \<Rightarrow> cpu option" where
  "reg_commit s = do {
     p \<leftarrow> stage_preg WB_STAGE s;
     if w_reg_data p = NullPtr then Some s
     else do {
       v \<leftarrow> deref s (w_reg_data p);
       check (dst p < length (reg s));
       Some (s\<lparr>reg := (reg s)[dst p := v]\<rparr>)
     }
   }"

definition wb_exception :: "u32 \<Rightarrow> u32 \<Rightarrow> cpu \<Rightarrow> cpu option" where
  "wb_exception now hwip s =
     (if exception_pending s then do {
        i \<leftarrow> stage WB_STAGE s;
        s1 \<leftarrow> store_exc i s;
        exc_handle now hwip i s1
      } else Some s)"

definition mul_div_tick :: "cpu \<Rightarrow> cpu" where
  "mul_div_tick s =
     (if mul_div_remain s > 0 then
        let s1 = s\<lparr>mul_div_remain := mul_div_remain s - 1\<rparr> in
        if mul_div_remain s1 = 0 then
          s1\<lparr>hi_reg := (if hi_write s1 then hi_temp s1 else hi_reg s1),
             lo_reg := (if lo_write s1 then lo_temp s1 else lo_reg s1),
             hi_write := False, lo_write := False\<rparr>
        else s1
      else s)"

definition cop_tick :: "cpu \<Rightarrow> cpu" where
  "cop_tick s = (if cop_remain s > 0 then s\<lparr>cop_remain := cop_remain s - 1\<rparr> else s)"

primrec run_cache :: "u32 \<Rightarrow> cache_sel \<Rightarrow> nat \<Rightarrow> cpu \<Rightarrow> cpu option" where
  "run_cache now w 0 s = Some s"
| "run_cache now w (Suc n) s = do {
     c \<leftarrow> get_cache w s;
     (c', m, es) \<leftarrow> Cache_step now c (memsys s);
     run_cache now w n (raise_all es (put_cache w c' (s\<lparr>memsys := m\<rparr>)))
   }"

text \<open>The two shifts of the pipeline: \<open>drain\<close> keeps IF and ID and puts a bubble into EX.\<close>

definition retire :: "cpu \<Rightarrow> cpu option" where
  "retire s = do {
     s1 \<leftarrow> delete_preg (late_late_preg s) s;
     w \<leftarrow> stage WB_STAGE s1;
     Some (s1\<lparr>late_late_preg := late_preg s1, late_preg := w\<rparr>)
   }"

definition drain :: "cpu \<Rightarrow> cpu option" where
  "drain s = do {
     s1 \<leftarrow> retire s;
     let s2 = foldl (\<lambda>s i. set_stage i (stage (i - 1) s) s) s1 [4, 3];
     let (i, s3) = new_preg (pc s2) NOP_INSTR s2;
     Some (set_stage EX_STAGE (Some i) s3)
   }"

definition advance :: "cpu \<Rightarrow> cpu option" where
  "advance s = do {
     s1 \<leftarrow> retire s;
     let s2 = foldl (\<lambda>s i. set_stage i (stage (i - 1) s) s) s1 [4, 3, 2, 1];
     Some (set_stage IF_STAGE None (s2\<lparr>pc := pc s2 + 4\<rparr>))
   }"

text \<open>The last part of \<open>step\<close>: what happens in a cycle without a stall.\<close>

definition proceed :: "bool \<Rightarrow> u32 \<Rightarrow> u32 \<Rightarrow> bool \<Rightarrow> cpu \<Rightarrow> cpu option" where
  "proceed junk now hwip data_hazard s = do {
     s1 \<leftarrow> reg_commit s;
     s2 \<leftarrow> mem_access junk now s1;
     s3 \<leftarrow> execute s2;
     s4 \<leftarrow> (if \<not> data_hazard then decode hwip s3 else Some s3);
     if suspend s4 \<or> data_hazard then drain s4 else advance s4
   }"

definition interrupt_check :: "u32 \<Rightarrow> cpu \<Rightarrow> cpu option" where
  "interrupt_check hwip s =
     (if interrupt_pending hwip (cp0 s) then do {
        i \<leftarrow> stage WB_STAGE s;
        store_exc i (cpu_exception Exc_Int s)
      } else Some s)"

definition step :: "bool \<Rightarrow> u32 \<Rightarrow> u32 \<Rightarrow> cpu \<Rightarrow> cpu option" where
  "step junk now hwip s = do {
     s1 \<leftarrow> interrupt_check hwip (s\<lparr>cp0 := adjust_random (cp0 s)\<rparr>);
     (data_hazard, s2) \<leftarrow> pre_decode s1;
     (data_miss, s3) \<leftarrow> pre_mem_access junk now s2;
     interlock \<leftarrow> pre_execute s3;
     (fetch_miss, s4) \<leftarrow> (if stage IF_STAGE s3 = None then fetch now data_miss s3 else Some (False, s3));
     i \<leftarrow> stage WB_STAGE s4;
     s5 \<leftarrow> exc_handle now hwip i s4;
     let s6 = cop_tick (mul_div_tick s5);
     s7 \<leftarrow> run_cache now DCache (mem_bandwidth s6) s6;
     s8 \<leftarrow> wb_exception now hwip s7;
     s9 \<leftarrow> run_cache now ICache (mem_bandwidth s8) s8;
     s10 \<leftarrow> wb_exception now hwip s9;
     if \<not> interlock \<and> \<not> data_miss \<and> \<not> fetch_miss then proceed junk now hwip data_hazard s10
     else Some (s10\<lparr>stall_count := stall_count s10 + 1\<rparr>)
   }"

lemmas cpu_defs [cube_defs] =
  fetch_cache_def data_cache_def cache_op_mux_def cpu_translate_def fetch_nop_def fetch_load_def
  fetch_request_def fetch_def reserved_instr_def is_cop_def decode_src_a_def decode_src_b_def
  decode_dst_def decode_shamt_def decode_imm_def forward_def decode_alu_b_def pre_decode_latch_def
  pre_decode_def decode_def pre_execute_def execute_def align_check_def data_request_def
  cache_instr_def pre_mem_access_def cached_store_def uncached_store_def cached_load_def
  uncached_load_def finalize_load_def mem_access_def reg_commit_def wb_exception_def
  mul_div_tick_def cop_tick_def retire_def drain_def advance_def proceed_def interrupt_check_def
  step_def

end
