(* ===== verification/CPU_Exec_Facts.thy ===== *)
theory CPU_Exec_Facts
  imports CPU_Facts
begin

unbundle bit_operations_syntax

text \<open>
  What the execution stages compute: taken and untaken branches, the arithmetic instructions
  against the MIPS I definition, the delayed update of \<open>hi\<close> and \<open>lo\<close>, and exception entry.
\<close>

section \<open>Access to the latches\<close>

lemma upd_stage_eq:
  assumes "stage k s = Some i" "pregs s i = Some p"
  shows "upd_stage k f s = Some (s\<lparr>pregs := (pregs s)(i \<mapsto> f p)\<rparr>)"
  using assms by (simp add: upd_stage_def upd_preg_def)

lemma stage_preg_eq: "stage k s = Some i \<Longrightarrow> stage_preg k s = pregs s i"
  by (simp add: stage_preg_def)

section \<open>Branches\<close>

text \<open>
  The next address after a branch: \<open>advance\<close> adds four to \<open>pc\<close>, so a taken branch continues at
  the address of the delay slot plus the offset. \<open>extra\<close> is zero except for \<open>BLTZAL\<close>. \<open>BGEZAL\<close>
  also writes the return address, the one after the delay slot, into its result.
\<close>

lemma take_branch_target:
  assumes "stage ID_STAGE s = Some i" "pregs s i = Some p" "stage IF_STAGE s = Some j" "pregs s j = Some q"
  shows "\<exists>s'. take_branch extra taken s = Some s' \<and>
    pc s' + 4 = (if taken then p_pc p + 4 + extra + push_bit 2 (imm p) else pc s + 4) \<and>
    map_option delay_slot (pregs s' j) = Some (taken \<or> delay_slot q)"
  using assms
  by (auto simp: take_branch_def mark_delay_slot_def upd_stage_def upd_preg_def stage_preg_def stage_def)

text \<open>The conditions under which the branch instructions of MIPS I are taken.\<close>

definition branch_taken :: "u32 \<Rightarrow> u32 \<Rightarrow> u32 \<Rightarrow> bool option" where
  "branch_taken ins a b =
     (if opcode ins = 4 then Some (a = b)
      else if opcode ins = 5 then Some (a \<noteq> b)
      else if opcode ins = 6 then Some (sint a \<le> 0)
      else if opcode ins = 7 then Some (0 < sint a)
      else if opcode ins = 1 \<and> rt ins = 0 then Some (sint a < 0)
      else if opcode ins = 1 \<and> (rt ins = 1 \<or> rt ins = 17) then Some (0 \<le> sint a)
      else None)"

lemma sign_bit_test: "(a :: u32) AND 0x80000000 \<noteq> 0 \<longleftrightarrow> sint a < 0"
  using word_and_mask_nonzero [of a 31] bit_last_iff [of a] by simp

lemma sint_zero_iff: "sint (a :: u32) = 0 \<longleftrightarrow> a = 0"
  by (metis signed_0 signed_word_eqI)

lemma store_exc_idle: "\<not> exception_pending s \<Longrightarrow> store_exc i s = Some s"
  by (simp add: store_exc_def)

lemma cop_flag_iff: "op < 64 \<Longrightarrow> cop_flag ! op \<longleftrightarrow> 16 \<le> op \<and> op \<le> 19"
proof -
  have "\<forall>op < 64. cop_flag ! op \<longleftrightarrow> 16 \<le> op \<and> op \<le> 19"
    by (simp add: cop_flag_def all_less_numeral All_less_Suc)
  then show "op < 64 \<Longrightarrow> cop_flag ! op \<longleftrightarrow> 16 \<le> op \<and> op \<le> 19" by blast
qed

lemma take_branch_pending:
  "take_branch extra t s = Some s' \<Longrightarrow> exception_pending s' = exception_pending s"
  by (auto simp: take_branch_def mark_delay_slot_def upd_stage_def upd_preg_def split: if_splits)

definition links :: "u32 \<Rightarrow> bool" where
  "links ins \<longleftrightarrow> opcode ins = 1 \<and> rt ins = 17"

lemma branch_and_link:
  assumes "stage ID_STAGE s = Some i" "pregs s i = Some p" "stage IF_STAGE s = Some j" "pregs s j = Some q"
  shows "\<exists>s'. Option.bind (take_branch 0 t s) link_result = Some s' \<and>
    pc s' + 4 = (if t then p_pc p + 4 + push_bit 2 (imm p) else pc s + 4) \<and>
    map_option delay_slot (pregs s' j) = Some (t \<or> delay_slot q) \<and>
    map_option result (pregs s' i) = Some (p_pc p + 8) \<and> exception_pending s' = exception_pending s"
  using assms
  by (cases t; cases "i = j")
    (simp_all add: take_branch_def mark_delay_slot_def link_result_def set_result_def upd_stage_def upd_preg_def
      stage_preg_def stage_def)

lemma branch_dispatch:
  assumes id: "stage ID_STAGE s = Some i" "pregs s i = Some p"
    and ops: "operand_a ID_STAGE s = Some a" "operand_b ID_STAGE s = Some b"
    and br: "branch_taken (p_instr p) a b = Some t"
  shows "call_entry (decode_table hwip ! opcode (p_instr p)) s =
    (if links (p_instr p) then Option.bind (take_branch 0 t s) link_result else take_branch 0 t s)"
proof -
  have "a AND 0x80000000 = 0 \<longleftrightarrow> 0 \<le> sint a" using sign_bit_test [of a] by auto
  moreover have "a = 0 \<or> sint a < 0 \<longleftrightarrow> sint a \<le> 0" "a \<noteq> 0 \<and> 0 \<le> sint a \<longleftrightarrow> 0 < sint a"
    using sint_zero_iff [of a] by auto
  moreover have "bcond_table ! 17 = Some bgezal_exec" "bcond_table ! 0 = Some bltz_exec"
    "bcond_table ! 1 = Some bgez_exec"
    by (simp_all add: bcond_table_def nth_append)
  ultimately show ?thesis
    using id ops br sign_bit_test [of a] unfolding branch_taken_def links_def
    by (auto simp: call_entry_def decode_table_def bcond_exec_def stage_preg_def
        beq_exec_def bne_exec_def blez_exec_def bgtz_exec_def bltz_exec_def bgez_exec_def bgezal_exec_def
        split: if_splits)
qed

lemma decode_branch:
  assumes id: "stage ID_STAGE s = Some i" "pregs s i = Some p"
    and fi: "stage IF_STAGE s = Some j" "pregs s j = Some q"
    and ops: "operand_a ID_STAGE s = Some a" "operand_b ID_STAGE s = Some b"
    and br: "branch_taken (p_instr p) a b = Some t"
    and idle: "\<not> suspend s" "\<not> exception_pending s"
  shows "\<exists>s'. decode hwip s = Some s' \<and>
    pc s' + 4 = (if t then p_pc p + 4 + push_bit 2 (imm p) else pc s + 4) \<and>
    map_option delay_slot (pregs s' j) = Some (t \<or> delay_slot q) \<and>
    (links (p_instr p) \<longrightarrow> map_option result (pregs s' i) = Some (p_pc p + 8))"
proof -
  have op: "opcode (p_instr p) < 16" using br by (auto simp: branch_taken_def split: if_splits)
  let ?run = "if links (p_instr p) then Option.bind (take_branch 0 t s) link_result else take_branch 0 t s"
  obtain s' where s': "?run = Some s'"
    "pc s' + 4 = (if t then p_pc p + 4 + push_bit 2 (imm p) else pc s + 4)"
    "map_option delay_slot (pregs s' j) = Some (t \<or> delay_slot q)"
    "links (p_instr p) \<longrightarrow> map_option result (pregs s' i) = Some (p_pc p + 8)"
    "exception_pending s' = exception_pending s"
    using take_branch_target [OF id fi, of 0 t] branch_and_link [OF id fi, of t] take_branch_pending [of 0 t s]
    by (cases "links (p_instr p)") auto
  have sus: "s\<lparr>suspend := False\<rparr> = s" using idle by simp
  have "decode hwip s = store_exc i s'"
    using id idle op branch_dispatch [OF id ops br, of hwip] s'(1)
    by (simp add: decode_def cop_flag_iff sus)
  also have "\<dots> = Some s'" using s'(5) idle by (simp add: store_exc_idle)
  finally show ?thesis using s' by simp
qed

text \<open>\<open>BLTZAL\<close> jumps four bytes too far.\<close>

lemma bltzal_target:
  assumes "stage ID_STAGE s = Some i" "pregs s i = Some p" "stage IF_STAGE s = Some j" "pregs s j = Some q"
    and "operand_a ID_STAGE s = Some a" "sint a < 0"
  shows "\<exists>s'. bltzal_exec s = Some s' \<and> pc s' + 4 = p_pc p + 8 + push_bit 2 (imm p)"
proof -
  have b: "take_branch 4 True s =
      Some (s\<lparr>pc := p_pc p + 4 + push_bit 2 (imm p), pregs := (pregs s)(j \<mapsto> q\<lparr>delay_slot := True\<rparr>)\<rparr>)"
    using assms by (simp add: take_branch_def mark_delay_slot_def upd_stage_def upd_preg_def
        stage_preg_def stage_def)
  show ?thesis
    using assms unfolding bltzal_exec_def
    by (cases "i = j") (simp_all add: b link_result_def set_result_def upd_stage_def upd_preg_def
        stage_preg_def stage_def)
qed

section \<open>Arithmetic\<close>

text \<open>
  The three-register and immediate instructions of MIPS I as functions of their operands: a
  result or the exception that replaces it.
\<close>

definition checked :: "int \<Rightarrow> int + u32" where
  "checked z = (if - (2 ^ 31) \<le> z \<and> z < 2 ^ 31 then Inr (word_of_int z) else Inl Exc_Ov)"

definition mips_alu :: "nat \<Rightarrow> u32 \<Rightarrow> u32 \<Rightarrow> (int + u32) option" where
  "mips_alu f a b =
     (if f = 0 \<or> f = 4 then Some (Inr (push_bit (unat b mod 32) a))
      else if f = 2 \<or> f = 6 then Some (Inr (drop_bit (unat b mod 32) a))
      else if f = 3 \<or> f = 7 then Some (Inr (signed_drop_bit (unat b mod 32) a))
      else if f = 32 then Some (checked (sint a + sint b))
      else if f = 33 then Some (Inr (word_of_int (sint a + sint b)))
      else if f = 34 then Some (checked (sint a - sint b))
      else if f = 35 then Some (Inr (word_of_int (sint a - sint b)))
      else if f = 36 then Some (Inr (a AND b))
      else if f = 37 then Some (Inr (a OR b))
      else if f = 38 then Some (Inr (a XOR b))
      else if f = 39 then Some (Inr (NOT (a OR b)))
      else if f = 42 then Some (Inr (of_bool (sint a < sint b)))
      else if f = 43 then Some (Inr (of_bool (a < b)))
      else None)"

text \<open>The function a computational instruction selects: the immediate forms share it.\<close>

definition alu_function :: "u32 \<Rightarrow> nat option" where
  "alu_function ins =
     (if opcode ins = 0 then Some (funct ins)
      else if opcode ins = 8 then Some 32
      else if opcode ins = 9 then Some 33
      else if opcode ins = 10 then Some 42
      else if opcode ins = 11 then Some 43
      else if opcode ins = 12 then Some 36
      else if opcode ins = 13 then Some 37
      else if opcode ins = 14 then Some 38
      else None)"

lemma shift_amount: "unat ((b :: u32) AND 31) = unat b mod 32" "(b :: u32) AND 31 < 32"
proof -
  have "b AND 31 = b AND mask 5" by (simp add: mask_numeral)
  then show "unat (b AND 31) = unat b mod 32" by (simp add: take_bit_eq_mod unat_mod_distrib flip: take_bit_eq_mask)
  then show "b AND 31 < 32" by (simp add: word_less_nat_alt)
qed

lemma checked_add: "add_op a b = checked (sint a + sint b)"
  and checked_sub: "sub_op a b = checked (sint a - sint b)"
  using add_op_correct(1) [of a b] sub_op_correct(1) [of a b] by (simp_all add: checked_def)

definition alu_result :: "(int + u32) \<Rightarrow> cpu \<Rightarrow> cpu option" where
  "alu_result r s = (case r of Inl e \<Rightarrow> Some (cpu_exception e s) | Inr v \<Rightarrow> set_result EX_STAGE v s)"

lemma alu2_result:
  assumes "operand_a EX_STAGE s = Some a" "operand_b EX_STAGE s = Some b"
  shows "alu2 f s = alu_result (Inr (f a b)) s" "alu2_ov g s = alu_result (g a b) s"
  using assms by (auto simp: alu2_def alu2_ov_def alu_result_def split: sum.split)

lemma alu_dispatch:
  assumes ex: "stage EX_STAGE s = Some i" "pregs s i = Some p"
    and ops: "operand_a EX_STAGE s = Some a" "operand_b EX_STAGE s = Some b"
    and f: "alu_function (p_instr p) = Some f" "mips_alu f a b = Some r"
  shows "call_entry (execute_table ! opcode (p_instr p)) s = alu_result r s"
proof -
  note execs = sll_exec_def srl_exec_def sra_exec_def add_exec_def addu_exec_def sub_exec_def
    subu_exec_def and_exec_def or_exec_def xor_exec_def nor_exec_def slt_exec_def sltu_exec_def
  have fe: "call_entry (funct_exec_table ! f) s = alu_result r s"
    using f(2) unfolding mips_alu_def
    by (auto simp: call_entry_def funct_exec_table_def execs alu2_result [OF ops] checked_add checked_sub
        slt_op_def sltu_op_def of_bool_def srl_drop_bit sra_signed_drop_bit shift_amount split: if_splits)
  show ?thesis
  proof (cases "opcode (p_instr p) = 0")
    case True
    then show ?thesis
      using f(1) ex fe by (simp add: alu_function_def call_entry_def execute_table_def funct_exec_def stage_preg_def)
  next
    case False
    have "execute_table ! opcode (p_instr p) = funct_exec_table ! f"
      using f(1) False
      by (auto simp: alu_function_def execute_table_def funct_exec_table_def split: if_splits)
    with fe show ?thesis by simp
  qed
qed

lemma mips_alu_not_mul_div: "mips_alu f a b = Some r \<Longrightarrow> \<not> mul_div_flag ! f"
  by (auto simp: mips_alu_def mul_div_flag_def split: if_splits)

lemma execute_alu:
  assumes ex: "stage EX_STAGE s = Some i" "pregs s i = Some p"
    and ops: "operand_a EX_STAGE s = Some a" "operand_b EX_STAGE s = Some b"
    and f: "alu_function (p_instr p) = Some f" "mips_alu f a b = Some r"
    and idle: "\<not> exception_pending s"
  shows "\<exists>s'. execute s = Some s' \<and> reg s' = reg s \<and> \<not> exception_pending s' \<and>
    pregs s' i = Some (case r of Inl e \<Rightarrow> p\<lparr>excBuf := excBuf p @ [exc_req e ANY_MODE]\<rparr>
                       | Inr v \<Rightarrow> p\<lparr>result := v\<rparr>)"
proof -
  have nf: "\<not> (opcode (p_instr p) = 0 \<and> mul_div_flag ! funct (p_instr p))"
    using f mips_alu_not_mul_div [OF f(2)] by (auto simp: alu_function_def)
  have "execute s = Option.bind (alu_result r s) (store_exc i)"
    using ex nf by (simp add: execute_def Let_def if_not_P [OF nf] alu_dispatch [OF ex ops f])
  then show ?thesis
    using ex idle
    by (cases r) (simp_all add: alu_result_def cpu_exception_def raise_exc_def store_exc_def
        upd_preg_def set_result_def upd_stage_def stage_def)
qed

section \<open>The multiplier\<close>

lemma mul_div_tick_busy:
  "1 < mul_div_remain s \<Longrightarrow> mul_div_tick s = s\<lparr>mul_div_remain := mul_div_remain s - 1\<rparr>"
  by (simp add: mul_div_tick_def Let_def)

text \<open>\<open>hi\<close> and \<open>lo\<close> keep their values until the delay has passed and take the new ones then.\<close>

lemma mul_div_ticks:
  assumes "mul_div_remain s = int n" "0 < n"
  shows "k < n \<Longrightarrow> (mul_div_tick ^^ k) s = s\<lparr>mul_div_remain := int (n - k)\<rparr>"
    "(mul_div_tick ^^ n) s = s\<lparr>mul_div_remain := 0, hi_reg := (if hi_write s then hi_temp s else hi_reg s),
        lo_reg := (if lo_write s then lo_temp s else lo_reg s), hi_write := False, lo_write := False\<rparr>"
proof -
  show k: "(mul_div_tick ^^ k) s = s\<lparr>mul_div_remain := int (n - k)\<rparr>" if "k < n" for k
    using that
  proof (induction k)
    case 0
    then show ?case using assms by simp
  next
    case (Suc k)
    then show ?case by (simp add: mul_div_tick_busy)
  qed
  show "(mul_div_tick ^^ n) s = s\<lparr>mul_div_remain := 0, hi_reg := (if hi_write s then hi_temp s else hi_reg s),
        lo_reg := (if lo_write s then lo_temp s else lo_reg s), hi_write := False, lo_write := False\<rparr>"
    using k [of "n - 1"] assms(2) by (cases n) (simp_all add: mul_div_tick_def Let_def)
qed

section \<open>Exception entry\<close>

lemma stage_set_stage [simp]:
  "k < length (PL_REGS s) \<Longrightarrow> stage j (set_stage k x s) = (if j = k then x else stage j s)"
  by (auto simp: stage_def set_stage_def)

text \<open>An empty pipeline: in every latch a bubble without exception, destination or memory access.\<close>

definition bubble :: "preg \<Rightarrow> bool" where
  "bubble p \<longleftrightarrow> p_instr p = NOP_INSTR \<and> excBuf p = [] \<and> w_reg_data p = NullPtr \<and> dst p = NONE_REG \<and>
     \<not> delay_slot p"

lemma bubble_new: "bubble (PipelineRegs_new i a NOP_INSTR)"
  by (simp add: bubble_def PipelineRegs_new_def)

lemma volatilize_pipeline_eq:
  assumes "length (PL_REGS s) = 5"
  shows "volatilize_pipeline s = (let n = next_preg s; f = (\<lambda>i. PipelineRegs_new i (pc s + 4) NOP_INSTR) in
    s\<lparr>PL_REGS := [Some n, Some (n + 1), Some (n + 2), Some (n + 3), Some (n + 4)],
      late_preg := n + 5, late_late_preg := n + 6, next_preg := n + 7,
      pregs := (pregs s)(n \<mapsto> f n, n + 1 \<mapsto> f (n + 1), n + 2 \<mapsto> f (n + 2), n + 3 \<mapsto> f (n + 3),
        n + 4 \<mapsto> f (n + 4), n + 5 \<mapsto> f (n + 5), n + 6 \<mapsto> f (n + 6))\<rparr>)"
proof -
  have up: "[0..<5] = [0, 1, 2, 3, 4 :: nat]" by (simp add: upt_rec)
  obtain a b c d e where "PL_REGS s = [a, b, c, d, e]"
    using assms by (auto simp: length_Suc_conv numeral_eq_Suc)
  then show ?thesis
    by (simp add: volatilize_pipeline_def volatilize_stage_def new_preg_def set_stage_def up Let_def
        list_update_code numeral_eq_Suc)
qed

lemma volatilize_pipeline_stage:
  assumes "length (PL_REGS s) = 5" "k < 5"
  shows "stage k (volatilize_pipeline s) = Some (next_preg s + k)"
    "pregs (volatilize_pipeline s) (next_preg s + k) =
       Some (PipelineRegs_new (next_preg s + k) (pc s + 4) NOP_INSTR)"
  using assms(2)
  by (auto simp: volatilize_pipeline_eq [OF assms(1)] Let_def stage_def numeral_eq_Suc less_Suc_eq)

lemma volatilize_pipeline_flush:
  assumes "length (PL_REGS s) = 5"
  shows "k < 5 \<Longrightarrow> \<exists>p. stage_preg k (volatilize_pipeline s) = Some p \<and> bubble p"
    "pc (volatilize_pipeline s) = pc s" "reg (volatilize_pipeline s) = reg s"
    "hi_reg (volatilize_pipeline s) = hi_reg s" "lo_reg (volatilize_pipeline s) = lo_reg s"
    "memsys (volatilize_pipeline s) = memsys s" "cp0 (volatilize_pipeline s) = cp0 s"
  using volatilize_pipeline_stage [OF assms] bubble_new
  by (auto simp: stage_preg_eq) (simp_all add: volatilize_pipeline_eq [OF assms] Let_def)

text \<open>The address exceptions are taken at, from the boot flag and the kind of miss.\<close>

definition exc_vector :: "int \<Rightarrow> cpzero \<Rightarrow> u32" where
  "exc_vector code z =
     (if use_boot_excp_address z then 0xbfc00100 else 0x80000000) +
     (if (code = Exc_TLBL \<or> code = Exc_TLBS) \<and> tlb_miss_user z then 0 else 0x80)"

lemma release_not_held: "bus_holder (release_bus now c b) \<noteq> Some c"
  by (simp add: release_bus_def)

lemma reset_cache_ok:
  assumes "status c = CACHE_IDLE \<or> cache_op_state c \<noteq> None \<and> \<not> op_deleted c"
  shows "\<exists>c' m'. reset_cache now (Some c) m = Some (Some c', m') \<and> ranges m' = ranges m"
  using assms
  by (cases "status c = CACHE_IDLE")
    (auto simp: reset_cache_def reset_stat_def delete_op_def mem_release_bus_def)

lemma exc_handle_spec:
  assumes p: "pregs s i = Some p" "excBuf p \<noteq> []" and pl: "length (PL_REGS s) = 5"
    and caches: "icache s = Some ic" "dcache s = Some dc"
      "status ic = CACHE_IDLE \<or> cache_op_state ic \<noteq> None \<and> \<not> op_deleted ic"
      "status dc = CACHE_IDLE \<or> cache_op_state dc \<noteq> None \<and> \<not> op_deleted dc"
  shows "\<exists>s'. exc_handle now hwip i s = Some s' \<and>
    (let e = last (excBuf p);
         z = enter_exception hwip (if delay_slot p then p_pc p - 4 else p_pc p)
               (word_of_int (excCode e)) (word_of_int (coprocno e)) False (cp0 s)
     in cp0 s' = z \<and> pc s' + 4 = exc_vector (excCode e) z) \<and>
    (\<forall>k < 5. \<exists>q. stage_preg k s' = Some q \<and> bubble q) \<and>
    reg s' = reg s \<and> hi_reg s' = hi_reg s \<and> lo_reg s' = lo_reg s \<and>
    mem_view (memsys s') = mem_view (memsys s) \<and> bus_holder (bus_arbiter (memsys s')) \<noteq> Some (cpu_client s)"
proof -
  obtain ic' m1 where r1: "reset_cache now (Some ic) (memsys s) = Some (Some ic', m1)"
      "ranges m1 = ranges (memsys s)"
    using reset_cache_ok [OF caches(3)] by blast
  obtain dc' m2 where r2: "reset_cache now (Some dc) m1 = Some (Some dc', m2)" "ranges m2 = ranges m1"
    using reset_cache_ok [OF caches(4)] by blast
  define e where "e = last (excBuf p)"
  define z where "z = enter_exception hwip (if delay_slot p then p_pc p - 4 else p_pc p)
    (word_of_int (excCode e)) (word_of_int (coprocno e)) False (cp0 s)"
  define s3 where "s3 = (exc_halt e s)\<lparr>icache := Some ic', dcache := Some dc',
    memsys := mem_release_bus now (cpu_client s) m2, cp0 := z, pc := exc_vector (excCode e) z - 4\<rparr>"
  have sel: "select_exc (excBuf p) = Some e" using p(2) by (simp add: select_exc_last e_def)
  have view: "mem_view (mem_release_bus now c m2) = mem_view (memsys s)" for c
    by (rule mem_view_cong) (simp add: mem_release_bus_def r1 r2)
  have eh: "exc_handle now hwip i s = Some (volatilize_pipeline s3)"
    unfolding exc_handle_def s3_def z_def exc_vector_def
    using p sel r1(1) r2(1) caches(1,2) by (simp add: Let_def)
  have pl3: "length (PL_REGS s3) = 5" using pl by (simp add: s3_def)
  show ?thesis
    unfolding eh using volatilize_pipeline_flush(1) [OF pl3]
    by (simp add: volatilize_pipeline_flush(2-) [OF pl3] Let_def view flip: e_def z_def)
      (simp add: s3_def view, simp add: mem_release_bus_def release_not_held)
qed

end
