(* ===== verification/CPU_Wf.thy ===== *)
theory CPU_Wf
  imports CPU_Exec_Facts
begin

unbundle bit_operations_syntax

text \<open>
  Memory safety of the pipeline. The latches of an instruction are freed two cycles after it left
  the pipeline, while younger instructions still hold pointers into them. \<open>pipe_wf\<close> is the
  invariant between clock steps and \<open>pipe_mid\<close> the stronger one after decoding; with them no stage
  follows a null or dangling pointer.
\<close>

section \<open>The invariant\<close>

fun ptr_in :: "nat set \<Rightarrow> data_ptr \<Rightarrow> bool" where
  "ptr_in ids NullPtr = False"
| "ptr_in ids (RegPtr r) = (r < 32)"
| "ptr_in ids (ResultPtr i) = (i \<in> ids)"
| "ptr_in ids (RMemPtr i) = (i \<in> ids)"
| "ptr_in ids (ImmPtr i) = (i \<in> ids)"
| "ptr_in ids (ShamtPtr i) = (i \<in> ids)"

lemma ptr_in_mono: "ptr_in ids q \<Longrightarrow> ids \<subseteq> ids' \<Longrightarrow> ptr_in ids' q"
  by (cases q) auto

lemma ptr_in_deref:
  assumes "ptr_in ids q" "\<forall>i \<in> ids. pregs s i \<noteq> None" "length (reg s) = 32"
  shows "\<exists>v. deref s q = Some v"
  using assms by (cases q) auto

definition data_refs :: "nat set \<Rightarrow> preg \<Rightarrow> bool" where
  "data_refs ids p \<longleftrightarrow>
     (mem_write_flag ! opcode (p_instr p) \<longrightarrow> ptr_in ids (w_mem_data p)) \<and>
     ((opcode (p_instr p) = OP_LWL \<or> opcode (p_instr p) = OP_LWR) \<and> dst p < 32 \<longrightarrow>
        ptr_in ids (lwrl_reg_prev p))"

definition refs_ok :: "nat set \<Rightarrow> preg \<Rightarrow> bool" where
  "refs_ok ids p \<longleftrightarrow> ptr_in ids (alu_src_a p) \<and> ptr_in ids (alu_src_b p) \<and> data_refs ids p"

definition own_src :: "nat \<Rightarrow> data_ptr \<Rightarrow> bool" where
  "own_src i q \<longleftrightarrow> q = ShamtPtr i \<or> q = ImmPtr i"

text \<open>A latch in the ID stage that may or may not have been decoded before.\<close>

definition id_latch :: "nat \<Rightarrow> preg \<Rightarrow> bool" where
  "id_latch i p \<longleftrightarrow>
     (w_reg_data p \<noteq> NullPtr \<longrightarrow> (w_reg_data p = ResultPtr i \<or> w_reg_data p = RMemPtr i) \<and>
        decode_dst (p_instr p) = Some (dst p) \<and> dst p < 32) \<and>
     (decode_src_a (p_instr p) = Some NONE_REG \<longrightarrow> own_src i (alu_src_a p)) \<and>
     (decode_src_b (p_instr p) = Some NONE_REG \<longrightarrow> own_src i (alu_src_b p))"

definition latch_at :: "cpu \<Rightarrow> nat \<Rightarrow> (preg \<Rightarrow> bool) \<Rightarrow> bool" where
  "latch_at s i P \<longleftrightarrow> (\<exists>p. pregs s i = Some p \<and> P p)"

definition in_use :: "cpu \<Rightarrow> nat option \<Rightarrow> nat \<Rightarrow> nat \<Rightarrow> nat \<Rightarrow> nat \<Rightarrow> nat list" where
  "in_use s x0 x1 x2 x3 x4 =
     (case x0 of None \<Rightarrow> [] | Some i \<Rightarrow> [i]) @ [x1, x2, x3, x4, late_preg s, late_late_preg s]"

definition pipe_shape :: "cpu \<Rightarrow> nat option \<Rightarrow> nat \<Rightarrow> nat \<Rightarrow> nat \<Rightarrow> nat \<Rightarrow> bool" where
  "pipe_shape s x0 x1 x2 x3 x4 \<longleftrightarrow>
     PL_REGS s = [x0, Some x1, Some x2, Some x3, Some x4] \<and> length (reg s) = 32 \<and>
     distinct (in_use s x0 x1 x2 x3 x4) \<and> (\<forall>i \<in> set (in_use s x0 x1 x2 x3 x4). pregs s i \<noteq> None) \<and>
     (\<forall>i. next_preg s \<le> i \<longrightarrow> pregs s i = None)"

definition pipe_wf :: "cpu \<Rightarrow> nat option \<Rightarrow> nat \<Rightarrow> nat \<Rightarrow> nat \<Rightarrow> nat \<Rightarrow> bool" where
  "pipe_wf s x0 x1 x2 x3 x4 \<longleftrightarrow> pipe_shape s x0 x1 x2 x3 x4 \<and>
     (\<forall>i. x0 = Some i \<longrightarrow> latch_at s i (id_latch i)) \<and> latch_at s x1 (id_latch x1) \<and>
     latch_at s x2 (\<lambda>p. latch_ok x2 p \<and> refs_ok {x2, x3, x4, late_preg s} p) \<and>
     latch_at s x3 (\<lambda>p. latch_ok x3 p \<and> data_refs {x3, x4, late_preg s, late_late_preg s} p) \<and>
     latch_at s x4 (latch_ok x4)"

definition pipe_mid :: "cpu \<Rightarrow> nat option \<Rightarrow> nat \<Rightarrow> nat \<Rightarrow> nat \<Rightarrow> nat \<Rightarrow> bool" where
  "pipe_mid s x0 x1 x2 x3 x4 \<longleftrightarrow> pipe_wf s x0 x1 x2 x3 x4 \<and>
     latch_at s x1 (\<lambda>p. latch_ok x1 p \<and> refs_ok {x1, x2, x3, x4} p)"

text \<open>After the control instructions ran, the ID latch may have a destination of its own making.\<close>

definition pipe_ready :: "cpu \<Rightarrow> nat option \<Rightarrow> nat \<Rightarrow> nat \<Rightarrow> nat \<Rightarrow> nat \<Rightarrow> bool" where
  "pipe_ready s x0 x1 x2 x3 x4 \<longleftrightarrow> pipe_shape s x0 x1 x2 x3 x4 \<and>
     (\<forall>i. x0 = Some i \<longrightarrow> latch_at s i (id_latch i)) \<and>
     latch_at s x1 (\<lambda>p. latch_ok x1 p \<and> refs_ok {x1, x2, x3, x4} p) \<and>
     latch_at s x2 (\<lambda>p. latch_ok x2 p \<and> refs_ok {x2, x3, x4, late_preg s} p) \<and>
     latch_at s x3 (\<lambda>p. latch_ok x3 p \<and> data_refs {x3, x4, late_preg s, late_late_preg s} p) \<and>
     latch_at s x4 (latch_ok x4)"

lemma pipe_mid_ready: "pipe_mid s x0 x1 x2 x3 x4 \<longleftrightarrow> pipe_ready s x0 x1 x2 x3 x4 \<and> latch_at s x1 (id_latch x1)"
  by (auto simp: pipe_mid_def pipe_ready_def pipe_wf_def)

section \<open>Operations that leave the pointers alone\<close>

text \<open>
  The part of a latch and of the state the invariant speaks about. Two states with the same
  skeleton satisfy the same invariants.
\<close>

definition skel :: "preg \<Rightarrow> u32 \<times> nat \<times> data_ptr \<times> data_ptr \<times> data_ptr \<times> data_ptr \<times> data_ptr" where
  "skel p = (p_instr p, dst p, w_reg_data p, alu_src_a p, alu_src_b p, w_mem_data p, lwrl_reg_prev p)"

definition same_skel :: "cpu \<Rightarrow> cpu \<Rightarrow> bool" where
  "same_skel s' s \<longleftrightarrow> PL_REGS s' = PL_REGS s \<and> late_preg s' = late_preg s \<and>
     late_late_preg s' = late_late_preg s \<and> next_preg s' = next_preg s \<and> length (reg s') = length (reg s) \<and>
     (\<forall>i. map_option skel (pregs s' i) = map_option skel (pregs s i))"

lemma same_skel_refl [simp]: "same_skel s s"
  by (simp add: same_skel_def)

lemma same_skel_trans: "same_skel s2 s1 \<Longrightarrow> same_skel s1 s \<Longrightarrow> same_skel s2 s"
  by (simp add: same_skel_def)

lemma same_skelI:
  assumes "PL_REGS s' = PL_REGS s" "late_preg s' = late_preg s" "late_late_preg s' = late_late_preg s"
    "next_preg s' = next_preg s" "length (reg s') = length (reg s)" "pregs s' = pregs s"
  shows "same_skel s' s"
  using assms by (simp add: same_skel_def)

lemma skel_cong:
  assumes "skel p' = skel p"
  shows "latch_ok i p' = latch_ok i p" "id_latch i p' = id_latch i p" "refs_ok ids p' = refs_ok ids p"
    "data_refs ids p' = data_refs ids p"
  using assms by (simp_all add: skel_def latch_ok_def id_latch_def refs_ok_def data_refs_def)

lemma latch_at_skel:
  assumes "same_skel s' s" and cong: "\<And>p p'. skel p' = skel p \<Longrightarrow> P p' = P p"
  shows "latch_at s' i P = latch_at s i P"
proof -
  have "map_option skel (pregs s' i) = map_option skel (pregs s i)"
    using assms(1) by (simp add: same_skel_def)
  then consider "pregs s' i = None" "pregs s i = None"
    | p' p where "pregs s' i = Some p'" "pregs s i = Some p" "skel p' = skel p"
    by (cases "pregs s i"; cases "pregs s' i") auto
  then show ?thesis
  proof cases
    case 2
    then show ?thesis using cong [OF 2(3)] by (simp add: latch_at_def)
  qed (simp add: latch_at_def)
qed

lemma latch_at_skels:
  assumes "same_skel s' s"
  shows "latch_at s' i (id_latch i) = latch_at s i (id_latch i)"
    "latch_at s' i (latch_ok i) = latch_at s i (latch_ok i)"
    "latch_at s' i (\<lambda>p. latch_ok i p \<and> refs_ok ids p) = latch_at s i (\<lambda>p. latch_ok i p \<and> refs_ok ids p)"
    "latch_at s' i (\<lambda>p. latch_ok i p \<and> data_refs ids p) = latch_at s i (\<lambda>p. latch_ok i p \<and> data_refs ids p)"
proof -
  note r = latch_at_skel [OF assms]
  show "latch_at s' i (id_latch i) = latch_at s i (id_latch i)"
    using skel_cong(2) by (intro r)
  show "latch_at s' i (latch_ok i) = latch_at s i (latch_ok i)"
    using skel_cong(1) by (intro r)
  show "latch_at s' i (\<lambda>p. latch_ok i p \<and> refs_ok ids p) = latch_at s i (\<lambda>p. latch_ok i p \<and> refs_ok ids p)"
    by (rule r) (rule conj_cong [OF skel_cong(1) skel_cong(3)])
  show "latch_at s' i (\<lambda>p. latch_ok i p \<and> data_refs ids p) = latch_at s i (\<lambda>p. latch_ok i p \<and> data_refs ids p)"
    by (rule r) (rule conj_cong [OF skel_cong(1) skel_cong(4)])
qed

lemma pipe_shape_skel:
  assumes "same_skel s' s"
  shows "pipe_shape s' x0 x1 x2 x3 x4 = pipe_shape s x0 x1 x2 x3 x4"
proof -
  have "pregs s' i = None \<longleftrightarrow> pregs s i = None" for i
    using assms unfolding same_skel_def by (metis map_option_is_None)
  then show ?thesis using assms by (simp add: pipe_shape_def same_skel_def in_use_def)
qed

lemma pipe_wf_skel:
  assumes "same_skel s' s"
  shows "pipe_wf s' x0 x1 x2 x3 x4 = pipe_wf s x0 x1 x2 x3 x4"
    "pipe_mid s' x0 x1 x2 x3 x4 = pipe_mid s x0 x1 x2 x3 x4"
    "pipe_ready s' x0 x1 x2 x3 x4 = pipe_ready s x0 x1 x2 x3 x4"
proof -
  have l: "late_preg s' = late_preg s" "late_late_preg s' = late_late_preg s"
    using assms by (simp_all add: same_skel_def)
  note la = latch_at_skels [OF assms]
  show wf: "pipe_wf s' x0 x1 x2 x3 x4 = pipe_wf s x0 x1 x2 x3 x4"
    by (simp only: pipe_wf_def l pipe_shape_skel [OF assms] la)
  show "pipe_mid s' x0 x1 x2 x3 x4 = pipe_mid s x0 x1 x2 x3 x4"
    by (simp only: pipe_mid_def wf la)
  show "pipe_ready s' x0 x1 x2 x3 x4 = pipe_ready s x0 x1 x2 x3 x4"
    by (simp only: pipe_ready_def l pipe_shape_skel [OF assms] la)
qed

lemma same_skel_upd_preg:
  assumes "upd_preg i f s = Some s'" "\<And>p. skel (f p) = skel p"
  shows "same_skel s' s"
  using assms by (auto simp: upd_preg_def same_skel_def)

lemma same_skel_upd_stage:
  assumes "upd_stage k f s = Some s'" "\<And>p. skel (f p) = skel p"
  shows "same_skel s' s"
  using assms same_skel_upd_preg by (auto simp: upd_stage_def)

lemma same_skel_raise [simp]: "same_skel (raise_exc e s) s" "same_skel (cpu_exception c s) s"
  by (auto simp: raise_exc_def cpu_exception_def intro: same_skelI)

lemma same_skel_raise_all [simp]: "same_skel (raise_all es s) s"
proof -
  have "same_skel (foldl (\<lambda>s e. raise_exc e s) s es) s"
  proof (induction es arbitrary: s)
    case (Cons e es)
    show ?case using same_skel_trans [OF Cons.IH same_skel_raise(1)] by simp
  qed simp
  then show ?thesis by (simp add: raise_all_def)
qed

lemma same_skel_store_exc: "store_exc i s = Some s' \<Longrightarrow> same_skel s' s"
  by (auto simp: store_exc_def upd_preg_def same_skel_def skel_def split: if_splits)

lemma same_skel_set_result: "set_result k v s = Some s' \<Longrightarrow> same_skel s' s"
  unfolding set_result_def by (erule same_skel_upd_stage) (simp add: skel_def)

lemma same_skel_mark: "mark_delay_slot s = Some s' \<Longrightarrow> same_skel s' s"
  unfolding mark_delay_slot_def by (erule same_skel_upd_stage) (simp add: skel_def)

lemma same_skel_put_cache [simp]: "same_skel (put_cache w c s) s"
  by (cases w) (auto intro: same_skelI)

end
