(* ===== verification/CPU_Frame.thy ===== *)
theory CPU_Frame
  imports CPU_Wf
begin

unbundle bit_operations_syntax

text \<open>
  Every operation of the processor that does not move instructions between the stages keeps the
  skeleton of the pipeline: the memory stages, the caches, the instruction routines, write back.
\<close>

lemma same_skel_fields [simp]:
  "same_skel (s\<lparr>memsys := m\<rparr>) t = same_skel s t" "same_skel t (s\<lparr>memsys := m\<rparr>) = same_skel t s"
  "same_skel (s\<lparr>cp0 := z\<rparr>) t = same_skel s t" "same_skel t (s\<lparr>cp0 := z\<rparr>) = same_skel t s"
  "same_skel (s\<lparr>dcache := c\<rparr>) t = same_skel s t" "same_skel t (s\<lparr>dcache := c\<rparr>) = same_skel t s"
  "same_skel (s\<lparr>icache := c\<rparr>) t = same_skel s t" "same_skel t (s\<lparr>icache := c\<rparr>) = same_skel t s"
  "same_skel (s\<lparr>pc := a\<rparr>) t = same_skel s t" "same_skel t (s\<lparr>pc := a\<rparr>) = same_skel t s"
  "same_skel (s\<lparr>suspend := b\<rparr>) t = same_skel s t" "same_skel t (s\<lparr>suspend := b\<rparr>) = same_skel t s"
  "same_skel (s\<lparr>cop_remain := n\<rparr>) t = same_skel s t" "same_skel t (s\<lparr>cop_remain := n\<rparr>) = same_skel t s"
  "same_skel (s\<lparr>mul_div_remain := n\<rparr>) t = same_skel s t" "same_skel t (s\<lparr>mul_div_remain := n\<rparr>) = same_skel t s"
  "same_skel (s\<lparr>hi_temp := a\<rparr>) t = same_skel s t" "same_skel t (s\<lparr>hi_temp := a\<rparr>) = same_skel t s"
  "same_skel (s\<lparr>lo_temp := a\<rparr>) t = same_skel s t" "same_skel t (s\<lparr>lo_temp := a\<rparr>) = same_skel t s"
  "same_skel (s\<lparr>hi_write := b\<rparr>) t = same_skel s t" "same_skel t (s\<lparr>hi_write := b\<rparr>) = same_skel t s"
  "same_skel (s\<lparr>lo_write := b\<rparr>) t = same_skel s t" "same_skel t (s\<lparr>lo_write := b\<rparr>) = same_skel t s"
  "same_skel (s\<lparr>hi_reg := a\<rparr>) t = same_skel s t" "same_skel t (s\<lparr>hi_reg := a\<rparr>) = same_skel t s"
  "same_skel (s\<lparr>lo_reg := a\<rparr>) t = same_skel s t" "same_skel t (s\<lparr>lo_reg := a\<rparr>) = same_skel t s"
  "same_skel (s\<lparr>stall_count := a\<rparr>) t = same_skel s t" "same_skel t (s\<lparr>stall_count := a\<rparr>) = same_skel t s"
  "same_skel (s\<lparr>exception_pending := b\<rparr>) t = same_skel s t" "same_skel t (s\<lparr>exception_pending := b\<rparr>) = same_skel t s"
  by (simp_all add: same_skel_def)

lemma same_skel_over [simp]:
  "same_skel (raise_all es s) t = same_skel s t" "same_skel t (raise_all es s) = same_skel t s"
  "same_skel (put_cache w c s) t = same_skel s t" "same_skel t (put_cache w c s) = same_skel t s"
  "same_skel (raise_exc e s) t = same_skel s t" "same_skel t (raise_exc e s) = same_skel t s"
  "same_skel (cpu_exception x s) t = same_skel s t" "same_skel t (cpu_exception x s) = same_skel t s"
  using same_skel_raise_all [of es s] same_skel_put_cache [of w c s] same_skel_raise(1) [of e s]
    same_skel_raise(2) [of x s]
  unfolding same_skel_def by simp_all

section \<open>Translation, caches and memory access\<close>

lemma same_skel_translate: "cpu_translate junk va md s = (pa, ca, s') \<Longrightarrow> same_skel s' s"
  by (auto simp: cpu_translate_def split: prod.splits)

lemma same_skel_run_cache: "run_cache now w n s = Some s' \<Longrightarrow> same_skel s' s"
proof (induction n arbitrary: s)
  case (Suc n)
  obtain c where c: "get_cache w s = Some c" using Suc.prems by (cases "get_cache w s") simp_all
  obtain c' m es where st: "Cache_step now c (memsys s) = Some (c', m, es)"
    using Suc.prems c by (cases "Cache_step now c (memsys s)") auto
  from Suc.prems have "run_cache now w n (raise_all es (put_cache w c' (s\<lparr>memsys := m\<rparr>))) = Some s'"
    by (simp add: c st)
  from Suc.IH [OF this] show ?case by simp
qed simp

lemma same_skel_data_request:
  assumes r: "data_request now pa md ca s = Some (b, s')"
  shows "same_skel s' s"
proof (cases ca)
  case True
  then obtain c where c: "get_cache (data_cache s) s = Some c"
    using r by (auto simp: data_request_def Let_def)
  show ?thesis
  proof (cases "cache_ready c pa")
    case False
    then show ?thesis using r \<open>ca\<close> c by (auto simp: data_request_def Let_def)
  qed (use r \<open>ca\<close> c in \<open>simp add: data_request_def\<close>)
next
  case False
  obtain g m where m: "mem_acquire_bus now (cpu_client s) (memsys s) = (g, m)" by (rule prod.exhaust)
  with r False have "s' = s\<lparr>memsys := m\<rparr> \<or> (\<exists>m'. s' = s\<lparr>memsys := m'\<rparr>)"
    by (cases g) (auto simp: data_request_def)
  then show ?thesis by auto
qed

lemma same_skel_cache_instr: "cache_instr junk now opc va s = Some (b, s') \<Longrightarrow> same_skel s' s"
  by (auto simp: cache_instr_def Let_def dest: same_skel_translate split: if_splits prod.splits)

lemma same_skel_pre_mem_access:
  assumes "pre_mem_access junk now s = Some (b, s')"
  shows "same_skel s' s"
  using assms unfolding pre_mem_access_def
  by (auto simp: Let_def dest!: same_skel_cache_instr same_skel_data_request same_skel_store_exc
      same_skel_translate elim: same_skel_trans split: if_splits prod.splits)
    (meson same_skel_trans)+

lemma same_skel_store_bytes: "store_bytes now w wv bs s = Some s' \<Longrightarrow> same_skel s' s"
proof (induction bs arbitrary: s)
  case (Cons x xs)
  then obtain c' where "store_bytes now w wv xs (put_cache w c' s) = Some s'" by auto
  from Cons.IH [OF this] show ?case by simp
qed simp

lemma same_skel_stores:
  "cached_store now op va pa d s = Some s' \<Longrightarrow> same_skel s' s"
  "uncached_store now op pa d s = Some s' \<Longrightarrow> same_skel s' s"
  by (auto simp: cached_store_def uncached_store_def Let_def dest: same_skel_store_bytes split: if_splits)

lemma same_skel_loads:
  "cached_load now op pa d s = Some (v, s') \<Longrightarrow> same_skel s' s"
  "uncached_load now op pa d s = Some (v, s') \<Longrightarrow> same_skel s' s"
  by (auto simp: cached_load_def uncached_load_def Let_def split: if_splits)

lemma same_skel_set_mem_data:
  "upd_preg i (\<lambda>p. p\<lparr>r_mem_data := v\<rparr>) s = Some s' \<Longrightarrow> same_skel s' s"
  by (erule same_skel_upd_preg) (simp add: skel_def)

lemma same_skel_mem_access:
  assumes "mem_access junk now s = Some s'"
  shows "same_skel s' s"
proof -
  obtain i p where ip: "stage MEM_STAGE s = Some i" "pregs s i = Some p"
    using assms by (auto simp: mem_access_def)
  obtain pa ca s1 where st: "cpu_translate junk (result p) DATASTORE s = (pa, ca, s1)" by (rule prod_cases3)
  obtain pb cb s2 where ld: "cpu_translate junk (result p) DATALOAD s = (pb, cb, s2)" by (rule prod_cases3)
  note tr = same_skel_translate [OF st] same_skel_translate [OF ld]
  show ?thesis
    using assms ip tr
    by (auto simp: mem_access_def Let_def st ld dest!: same_skel_set_mem_data same_skel_stores same_skel_loads
        split: if_splits) (meson same_skel_trans)+
qed

section \<open>Execution, write back and the clock\<close>

lemma same_skel_alu2: "alu2 f s = Some s' \<Longrightarrow> same_skel s' s" "alu2_ov g s = Some s' \<Longrightarrow> same_skel s' s"
proof -
  show "alu2 f s = Some s' \<Longrightarrow> same_skel s' s" by (auto simp: alu2_def dest: same_skel_set_result)
  assume "alu2_ov g s = Some s'"
  then obtain a b where "(case g a b of Inl e \<Rightarrow> Some (cpu_exception e s) | Inr r \<Rightarrow> set_result EX_STAGE r s) = Some s'"
    by (auto simp: alu2_ov_def)
  then show "same_skel s' s" by (cases "g a b") (auto dest: same_skel_set_result)
qed

lemma same_skel_cop_unimpl: "cop_unimpl n s = Some s' \<Longrightarrow> same_skel s' s"
  by (auto simp: cop_unimpl_def)

lemma same_skel_funct_exec:
  "f < 64 \<Longrightarrow> call_entry (funct_exec_table ! f) s = Some s' \<Longrightarrow> same_skel s' s"
proof -
  have "list_all (\<lambda>e. \<forall>s s'. call_entry e s = Some s' \<longrightarrow> same_skel s' s) funct_exec_table"
    by (auto simp: funct_exec_table_def call_entry_def sll_exec_def srl_exec_def sra_exec_def add_exec_def
        addu_exec_def sub_exec_def subu_exec_def and_exec_def or_exec_def xor_exec_def nor_exec_def
        slt_exec_def sltu_exec_def syscall_exec_def break_exec_def mfhi_exec_def mflo_exec_def
        mthi_exec_def mtlo_exec_def mult_exec_def multu_exec_def div_exec_def divu_exec_def set_hi_lo_def
        dest: same_skel_alu2 same_skel_set_result)
  from table_all [OF this, of f] show "f < 64 \<Longrightarrow> call_entry (funct_exec_table ! f) s = Some s' \<Longrightarrow> same_skel s' s"
    by simp
qed

lemma same_skel_execute_entry:
  "op < 64 \<Longrightarrow> call_entry (execute_table ! op) s = Some s' \<Longrightarrow> same_skel s' s"
proof -
  have "list_all (\<lambda>e. \<forall>s s'. call_entry e s = Some s' \<longrightarrow> same_skel s' s) execute_table"
    by (auto simp: execute_table_def call_entry_def funct_exec_def add_exec_def addu_exec_def and_exec_def
        or_exec_def xor_exec_def slt_exec_def sltu_exec_def lui_exec_def lwc1_exec_def lwc2_exec_def
        lwc3_exec_def swc1_exec_def swc2_exec_def swc3_exec_def
        dest: same_skel_alu2 same_skel_set_result same_skel_cop_unimpl
        dest!: same_skel_funct_exec [OF isa_field_bounds(5), unfolded call_entry_def])
  from table_all [OF this, of op] show "op < 64 \<Longrightarrow> call_entry (execute_table ! op) s = Some s' \<Longrightarrow> same_skel s' s"
    by simp
qed

lemma same_skel_execute:
  assumes "execute s = Some s'"
  shows "same_skel s' s"
proof -
  obtain i p where ip: "stage EX_STAGE s = Some i" "pregs s i = Some p"
    using assms by (auto simp: execute_def)
  obtain s1 where s1: "call_entry (execute_table ! opcode (p_instr p)) s = Some s1"
    using assms ip by (cases "call_entry (execute_table ! opcode (p_instr p)) s") (auto simp: execute_def Let_def)
  let ?md = "opcode (p_instr p) = OP_SPECIAL \<and> mul_div_flag ! funct (p_instr p)"
  have "store_exc i (if ?md then s1\<lparr>mul_div_remain := mul_div_delay (funct (p_instr p))\<rparr> else s1) = Some s'"
    using assms ip s1 unfolding execute_def by (simp only: bind.simps Let_def option.case)
  then have "same_skel s' s1" by (cases ?md) (auto dest: same_skel_store_exc)
  with same_skel_execute_entry [OF isa_field_bounds(1) s1] show ?thesis by (rule same_skel_trans [rotated])
qed

lemma same_skel_reg_commit: "reg_commit s = Some s' \<Longrightarrow> same_skel s' s"
  by (auto simp: reg_commit_def same_skel_def split: if_splits)

lemma same_skel_interrupt_check: "interrupt_check hwip s = Some s' \<Longrightarrow> same_skel s' s"
  by (auto simp: interrupt_check_def dest: same_skel_store_exc split: if_splits)

lemma same_skel_ticks [simp]: "same_skel (mul_div_tick s) s" "same_skel (cop_tick s) s"
  by (simp_all add: mul_div_tick_def cop_tick_def Let_def)

end
