(* ===== verification/CPU_Pipe.thy ===== *)
theory CPU_Pipe
  imports CPU_Frame
begin

unbundle bit_operations_syntax

text \<open>
  The pipeline invariant is preserved by every clock step: decoding establishes the pointers of
  the instruction in the ID stage, fetching and exception entry install fresh latches, and the
  two ways the pipeline moves keep every pointer inside the latches that are still allocated.
\<close>

section \<open>Decoding\<close>

lemma reserved_no_src_b: "reserved_instr ins \<Longrightarrow> decode_src_b ins = Some NONE_REG"
proof -
  have "\<forall>f < 64. RI_special_flag ! f \<longrightarrow> secondSrcDecSpecialTable ! f = DecNone"
    "\<forall>op < 64. RI_flag ! op \<longrightarrow> secondSrcDecTable ! op = DecNone" "secondSrcDecTable ! 47 = DecNone"
    by (simp_all add: isa_tables all_less_numeral All_less_Suc)
  then show "reserved_instr ins \<Longrightarrow> decode_src_b ins = Some NONE_REG"
    using isa_field_bounds [of ins] by (auto simp: reserved_instr_def decode_src_b_def split: if_splits)
qed

lemma decode_nop: "decode_src_a NOP_INSTR = Some 0" "opcode NOP_INSTR = 0"
  by (simp_all add: decode_src_a_def opcode_def funct_def rt_def firstSrcDecSpecialTable_def)

lemma store_load_nop: "\<not> mem_write_flag ! opcode NOP_INSTR" "\<not> mem_read_flag ! opcode NOP_INSTR"
  by (simp_all add: decode_nop mem_write_flag_def mem_read_flag_def)

lemma latch_ok_ptr: "latch_ok i p \<Longrightarrow> dst p = r \<Longrightarrow> r < 32 \<Longrightarrow> i \<in> ids \<Longrightarrow> ptr_in ids (w_reg_data p)"
  by (auto simp: latch_ok_def)

lemma forward_ptr_in:
  assumes "latch_ok x2 ex" "latch_ok x3 me" "latch_ok x4 wb" "r < 32" "{x2, x3, x4} \<subseteq> ids"
  shows "ptr_in ids (fst (forward ex me wb r))"
  using assms latch_ok_ptr [of x2 ex r ids] latch_ok_ptr [of x3 me r ids] latch_ok_ptr [of x4 wb r ids]
  by (auto simp: forward_def)

lemma pre_decode_latch_fields:
  fixes ins i a b d ex me wb p
  defines "q \<equiv> fst (pre_decode_latch ins i a b d ex me wb p)"
  shows "p_instr q = p_instr p" "dst q = d"
    "alu_src_a q = (if a \<noteq> NONE_REG then fst (forward ex me wb a) else alu_src_a p)"
    "alu_src_b q = (if b \<noteq> NONE_REG then fst (forward ex me wb b) else decode_alu_b ins i (alu_src_b p))"
    "w_reg_data q = (if d \<noteq> NONE_REG then if mem_read_flag ! opcode ins then RMemPtr i else ResultPtr i
                     else w_reg_data p)"
    "opcode ins = OP_LWL \<or> opcode ins = OP_LWR \<Longrightarrow>
       lwrl_reg_prev q = (if d = dst ex then w_reg_data ex else RegPtr d)"
    "mem_write_flag ! opcode ins \<Longrightarrow>
       w_mem_data q = (if rt ins = dst ex then w_reg_data ex else RegPtr (rt ins))"
  by (auto simp: q_def pre_decode_latch_def Let_def)

lemma pre_decode_latch_ok:
  assumes dec: "decode_src_a ins = Some a" "decode_src_b ins = Some b" "decode_dst ins = Some d"
    and old: "id_latch i p0" "p_instr p0 = ins"
    and p: "p = (if reserved_instr ins then p0\<lparr>p_instr := NOP_INSTR\<rparr> else p0)"
    and stages: "latch_ok x2 ex" "latch_ok x3 me" "latch_ok x4 wb"
  defines "q \<equiv> fst (pre_decode_latch ins i a b d ex me wb p)"
  shows "id_latch i q" "latch_ok i q" "refs_ok {i, x2, x3, x4} q"
proof -
  note f = pre_decode_latch_fields [of ins i a b d ex me wb p, folded q_def]
  have bounds: "a \<le> 32" "b \<le> 32" "d \<le> 32"
    using decode_total [of ins] dec by auto
  have ptrs: "alu_src_a p = alu_src_a p0" "alu_src_b p = alu_src_b p0" "w_reg_data p = w_reg_data p0"
    using p by simp_all
  have w: "d = NONE_REG \<Longrightarrow> w_reg_data p0 = NullPtr"
    using old dec(3) by (auto simp: id_latch_def)
  have a_own: "a = NONE_REG \<Longrightarrow> own_src i (alu_src_a p0)" and b_own: "b = NONE_REG \<Longrightarrow> own_src i (alu_src_b p0)"
    using old dec by (auto simp: id_latch_def)
  have alu_b: "b = NONE_REG \<Longrightarrow> own_src i (decode_alu_b ins i (alu_src_b p0))"
    using b_own by (auto simp: decode_alu_b_def own_src_def)
  show lok: "latch_ok i q"
    using w bounds by (auto simp: latch_ok_def f ptrs)
  have fwd: "r < 32 \<Longrightarrow> ptr_in {i, x2, x3, x4} (fst (forward ex me wb r))" for r
    by (rule forward_ptr_in [OF stages]) auto
  have own: "own_src i x \<Longrightarrow> ptr_in {i, x2, x3, x4} x" for x by (auto simp: own_src_def)
  have res: "reserved_instr ins \<Longrightarrow> d = NONE_REG \<and> b = NONE_REG"
    using dec reserved_no_dst [of ins] reserved_no_src_b [of ins] by auto
  show "id_latch i q"
    using w bounds dec res a_own alu_b old(2) by (auto simp: id_latch_def f ptrs p decode_nop)
  have "mem_write_flag ! opcode (p_instr p) \<Longrightarrow> ptr_in {i, x2, x3, x4} (w_mem_data q)"
    using latch_ok_ptr [OF stages(1), of "rt ins"] f(7) p old(2) store_load_nop
    by (auto split: if_splits)
  moreover have "opcode (p_instr p) = OP_LWL \<or> opcode (p_instr p) = OP_LWR \<Longrightarrow> d < 32 \<Longrightarrow>
      ptr_in {i, x2, x3, x4} (lwrl_reg_prev q)"
    using latch_ok_ptr [OF stages(1), of d] f(6) p old(2) decode_nop
    by (auto split: if_splits)
  ultimately show "refs_ok {i, x2, x3, x4} q"
    using bounds a_own alu_b fwd own by (auto simp: refs_ok_def data_refs_def f ptrs)
qed

text \<open>A pending exception always comes with its signal.\<close>

definition sig_ok :: "cpu \<Rightarrow> bool" where
  "sig_ok s \<longleftrightarrow> (exception_pending s \<longrightarrow> exc_signal s \<noteq> None)"

lemma store_exc_total:
  assumes "sig_ok s" "pregs s i \<noteq> None"
  shows "\<exists>s'. store_exc i s = Some s' \<and> same_skel s' s \<and> \<not> exception_pending s'"
proof -
  obtain s' where s': "store_exc i s = Some s'" "\<not> exception_pending s'"
    using assms by (cases "exception_pending s") (auto simp: store_exc_def sig_ok_def upd_preg_def)
  with same_skel_store_exc [OF s'(1)] show ?thesis by blast
qed

lemma latch_at_pregs: "latch_at s i P \<Longrightarrow> \<exists>p. pregs s i = Some p \<and> P p"
  by (simp add: latch_at_def)

lemma pipe_wf_stages:
  assumes "pipe_shape s x0 x1 x2 x3 x4"
  shows "stage 0 s = x0" "stage ID_STAGE s = Some x1" "stage EX_STAGE s = Some x2"
    "stage MEM_STAGE s = Some x3" "stage WB_STAGE s = Some x4"
  using assms by (simp_all add: pipe_shape_def stage_def numeral_eq_Suc)

lemma pre_decode_mid:
  assumes wf: "pipe_wf s x0 x1 x2 x3 x4" and sig: "sig_ok s"
  shows "\<exists>h s'. pre_decode s = Some (h, s') \<and> pipe_mid s' x0 x1 x2 x3 x4 \<and> \<not> exception_pending s'"
proof -
  have sh: "pipe_shape s x0 x1 x2 x3 x4" using wf by (simp add: pipe_wf_def)
  note st = pipe_wf_stages [OF sh]
  obtain p0 where p0: "pregs s x1 = Some p0" "id_latch x1 p0"
    using wf by (auto simp: pipe_wf_def latch_at_def)
  obtain ex where ex: "pregs s x2 = Some ex" "latch_ok x2 ex"
    using wf by (auto simp: pipe_wf_def latch_at_def)
  obtain me where me: "pregs s x3 = Some me" "latch_ok x3 me"
    using wf by (auto simp: pipe_wf_def latch_at_def)
  obtain wb where wb: "pregs s x4 = Some wb" "latch_ok x4 wb"
    using wf by (auto simp: pipe_wf_def latch_at_def)
  have neq: "x1 \<noteq> x2" "x1 \<noteq> x3" "x1 \<noteq> x4" "x0 \<noteq> Some x1"
    using sh by (auto simp: pipe_shape_def in_use_def split: option.splits)
  define ins where "ins = p_instr p0"
  obtain a b d where abd: "decode_src_a ins = Some a" "decode_src_b ins = Some b" "decode_dst ins = Some d"
    using decode_total [of ins] by blast
  define p where "p = (if reserved_instr ins then p0\<lparr>p_instr := NOP_INSTR\<rparr> else p0)"
  define q where "q = fst (pre_decode_latch ins x1 a b d ex me wb p)"
  define s3 where "s3 = (if reserved_instr ins then cpu_exception Exc_RI s else s)\<lparr>pregs := (pregs s)(x1 \<mapsto> q)\<rparr>"
  note qok = pre_decode_latch_ok [OF abd p0(2) ins_def [symmetric] p_def ex(2) me(2) wb(2), folded q_def]
  obtain h where h: "pre_decode_latch ins x1 a b d ex me wb p = (q, h)"
    by (cases "pre_decode_latch ins x1 a b d ex me wb p") (simp add: q_def)
  have pd: "pre_decode s = Option.bind (store_exc x1 s3) (\<lambda>s4. Some (h, s4))"
    using st p0(1) ex(1) me(1) wb(1) neq abd h
    by (cases "reserved_instr ins")
      (simp_all add: pre_decode_def Let_def upd_preg_def stage_preg_def s3_def p_def
        cpu_exception_def raise_exc_def stage_def flip: ins_def)
  have "sig_ok s3" using sig by (auto simp: s3_def sig_ok_def cpu_exception_def raise_exc_def)
  moreover have p3: "pregs s3 = (pregs s)(x1 \<mapsto> q)" by (simp add: s3_def)
  ultimately obtain s4 where s4: "store_exc x1 s3 = Some s4" "same_skel s4 s3" "\<not> exception_pending s4"
    using store_exc_total [of s3 x1] by auto
  have same: "PL_REGS s3 = PL_REGS s" "reg s3 = reg s" "late_preg s3 = late_preg s"
    "late_late_preg s3 = late_late_preg s" "next_preg s3 = next_preg s"
    by (simp_all add: s3_def cpu_exception_def raise_exc_def)
  have "x1 < next_preg s" using sh p0(1) unfolding pipe_shape_def by (metis not_less option.distinct(1))
  then have "pipe_shape s3 x0 x1 x2 x3 x4"
    using sh by (auto simp: pipe_shape_def in_use_def same p3)
  then have "pipe_mid s3 x0 x1 x2 x3 x4"
    using wf qok neq by (auto simp: pipe_mid_def pipe_wf_def latch_at_def p3 same)
  then show ?thesis
    using pd s4 pipe_wf_skel(2) [OF s4(2)] by simp
qed

section \<open>Fresh latches\<close>

lemma pipe_shape_bound: "pipe_shape s x0 x1 x2 x3 x4 \<Longrightarrow> pregs s i \<noteq> None \<Longrightarrow> i < next_preg s"
  unfolding pipe_shape_def by (metis not_less)

lemma fresh_latch: "id_latch i (PipelineRegs_new i a ins)"
  by (simp add: id_latch_def PipelineRegs_new_def own_src_def)

lemma fresh_bubble:
  "i \<in> ids \<Longrightarrow> refs_ok ids (PipelineRegs_new i a NOP_INSTR)" "latch_ok i (PipelineRegs_new i a ins)"
  "data_refs ids (PipelineRegs_new i a NOP_INSTR)"
  using decode_nop(2) store_load_nop
  by (auto simp: refs_ok_def data_refs_def latch_ok_def PipelineRegs_new_def)

text \<open>A new instruction in the IF stage.\<close>

lemma install_if:
  assumes mid: "pipe_mid s x0 x1 x2 x3 x4" and n: "new_preg a ins s = (i, s1)"
  shows "pipe_mid (set_stage IF_STAGE (Some i) s1) (Some i) x1 x2 x3 x4" "pregs s1 i \<noteq> None"
proof -
  have sh: "pipe_shape s x0 x1 x2 x3 x4" using mid by (simp add: pipe_mid_def pipe_wf_def)
  have i: "i = next_preg s" and s1: "s1 = s\<lparr>pregs := (pregs s)(i \<mapsto> PipelineRegs_new i a ins), next_preg := Suc i\<rparr>"
    using n by (auto simp: new_preg_def Let_def)
  let ?s = "set_stage IF_STAGE (Some i) s1"
  have new: "\<forall>j \<in> {x1, x2, x3, x4, late_preg s, late_late_preg s}. j \<noteq> i"
    using sh pipe_shape_bound [OF sh] unfolding i pipe_shape_def in_use_def by fastforce
  have same: "pregs ?s = (pregs s)(i \<mapsto> PipelineRegs_new i a ins)" "late_preg ?s = late_preg s"
    "late_late_preg ?s = late_late_preg s" "next_preg ?s = Suc i" "reg ?s = reg s"
    "PL_REGS ?s = (PL_REGS s)[0 := Some i]"
    by (simp_all add: s1 set_stage_def)
  have "pipe_shape ?s (Some i) x1 x2 x3 x4"
    using sh new by (auto simp: pipe_shape_def in_use_def same i [symmetric] split: option.splits)
  then show "pipe_mid ?s (Some i) x1 x2 x3 x4"
    using mid new fresh_latch [of i a ins]
    by (simp add: pipe_mid_def pipe_wf_def latch_at_def same)
  show "pregs s1 i \<noteq> None" by (simp add: s1)
qed

lemma sig_ok_new_preg: "new_preg a ins s = (i, s1) \<Longrightarrow> sig_ok s \<Longrightarrow> sig_ok (set_stage k x s1)"
  by (auto simp: new_preg_def Let_def sig_ok_def set_stage_def)

lemma fetch_nop_mid:
  assumes "pipe_mid s x0 x1 x2 x3 x4" "fetch_nop s = Some s'"
  shows "\<exists>i. pipe_mid s' (Some i) x1 x2 x3 x4"
proof -
  obtain i s1 where n: "new_preg (pc s) NOP_INSTR s = (i, s1)" by (rule prod.exhaust)
  then have "store_exc i (set_stage IF_STAGE (Some i) s1) = Some s'"
    using assms(2) by (simp add: fetch_nop_def)
  then show ?thesis
    using install_if(1) [OF assms(1) n] pipe_wf_skel(2) [OF same_skel_store_exc] by blast
qed

lemma same_skel_fetch_parts:
  "fetch_request now a ca dm s = Some (b, s') \<Longrightarrow> same_skel s' s"
  "fetch_load now a ca s = Some (w, s') \<Longrightarrow> same_skel s' s"
proof -
  assume r: "fetch_request now a ca dm s = Some (b, s')"
  show "same_skel s' s"
  proof (cases ca)
    case True
    then obtain c where "get_cache (fetch_cache s) s = Some c" using r by (auto simp: fetch_request_def)
    with r True show ?thesis
      by (cases "\<not> cache_ready c a \<and> \<not> dm") (auto simp: fetch_request_def Let_def)
  next
    case False
    obtain g m where m: "mem_acquire_bus now (cpu_client s) (memsys s) = (g, m)" by (rule prod.exhaust)
    with r False have "\<exists>m'. s' = s\<lparr>memsys := m'\<rparr>"
      by (cases g) (auto simp: fetch_request_def Let_def)
    then show ?thesis by auto
  qed
next
  assume "fetch_load now a ca s = Some (w, s')"
  then show "same_skel s' s" by (cases ca) (auto simp: fetch_load_def)
qed

lemma fetch_mid:
  assumes mid: "pipe_mid s x0 x1 x2 x3 x4" and f: "fetch now dm s = Some (miss, s')"
  shows "\<exists>y0. pipe_mid s' y0 x1 x2 x3 x4 \<and> (\<not> miss \<longrightarrow> y0 \<noteq> None)"
proof -
  obtain pa ca s1 where t: "(if pc s mod 4 \<noteq> 0 then (0, False, cpu_exception Exc_AdEL s)
      else cpu_translate False (pc s) INSTFETCH s) = (pa, ca, s1)" by (rule prod_cases3)
  then have "same_skel s1 s" by (auto dest: same_skel_translate split: if_splits)
  then have m1: "pipe_mid s1 x0 x1 x2 x3 x4" using mid by (simp add: pipe_wf_skel(2))
  show ?thesis
  proof (cases "exception_pending s1")
    case True
    then have "fetch_nop s1 = Some s'" "miss" using f t by (auto simp: fetch_def)
    with fetch_nop_mid [OF m1] show ?thesis by blast
  next
    case False
    then obtain b s2 where r: "fetch_request now pa ca dm s1 = Some (b, s2)"
      using f t by (auto simp: fetch_def)
    have m2: "pipe_mid s2 x0 x1 x2 x3 x4"
      using m1 pipe_wf_skel(2) [OF same_skel_fetch_parts(1) [OF r]] by simp
    show ?thesis
    proof (cases b)
      case True
      then have "s' = s2" "miss" using f t r False by (auto simp: fetch_def)
      with m2 show ?thesis by blast
    next
      case nb: False
      then obtain w s3 where l: "fetch_load now pa ca s2 = Some (w, s3)"
        using f t r False by (auto simp: fetch_def)
      have m3: "pipe_mid s3 x0 x1 x2 x3 x4"
        using m2 pipe_wf_skel(2) [OF same_skel_fetch_parts(2) [OF l]] by simp
      obtain i s4 where n: "new_preg (pc s3) w s3 = (i, s4)" by (rule prod.exhaust)
      let ?s5 = "set_stage IF_STAGE (Some i) s4"
      have "(if exception_pending ?s5 then map_option (Pair False) (fetch_nop ?s5) else Some (False, ?s5)) =
          Some (miss, s')"
        using f t r l n False nb by (simp add: fetch_def Let_def)
      then show ?thesis
        using install_if(1) [OF m3 n] fetch_nop_mid [OF install_if(1) [OF m3 n]] by (auto split: if_splits)
    qed
  qed
qed

section \<open>Exception entry\<close>

definition heap_wf :: "cpu \<Rightarrow> bool" where
  "heap_wf s \<longleftrightarrow> length (PL_REGS s) = 5 \<and> length (reg s) = 32"

lemma pipe_shape_heap: "pipe_shape s x0 x1 x2 x3 x4 \<Longrightarrow> heap_wf s"
  by (simp add: pipe_shape_def heap_wf_def)

text \<open>A flushed pipeline satisfies the invariant whatever it held before.\<close>

lemma volatilize_mid:
  assumes "heap_wf s" "\<forall>i. next_preg s \<le> i \<longrightarrow> pregs s i = None"
  shows "\<exists>i x1 x2 x3 x4. pipe_mid (volatilize_pipeline s) (Some i) x1 x2 x3 x4"
proof -
  have len: "length (PL_REGS s) = 5" "length (reg s) = 32" using assms(1) by (simp_all add: heap_wf_def)
  let ?n = "next_preg s"
  have "pipe_mid (volatilize_pipeline s) (Some ?n) (?n + 1) (?n + 2) (?n + 3) (?n + 4)"
    unfolding volatilize_pipeline_eq [OF len(1)] Let_def pipe_mid_def pipe_wf_def
    using assms(2) len(2)
    by (auto simp: pipe_shape_def in_use_def latch_at_def fresh_latch fresh_bubble)
  then show ?thesis by blast
qed

lemma exc_handle_flush:
  assumes "exc_handle now hwip i s = Some s'"
  shows "s' = s \<or> (\<exists>t. s' = volatilize_pipeline t \<and> PL_REGS t = PL_REGS s \<and> reg t = reg s \<and>
    pregs t = pregs s \<and> next_preg t = next_preg s \<and> exception_pending t = exception_pending s)"
proof (cases "map_option excBuf (pregs s i) = Some []")
  case True
  then show ?thesis using assms by (auto simp: exc_handle_def)
next
  case False
  then obtain e ic dc m z a where
    "s' = volatilize_pipeline ((exc_halt e s)\<lparr>icache := ic, dcache := dc, memsys := m, cp0 := z, pc := a\<rparr>)"
    (is "_ = volatilize_pipeline ?t")
    using assms by (auto simp: exc_handle_def Let_def)
  moreover have "exception_pending (exc_halt e s) = exception_pending s"
    by (simp add: exc_halt_def Let_def)
  ultimately show ?thesis by (intro disjI2 exI [of _ ?t]) simp
qed

lemma exc_handle_mid:
  assumes mid: "pipe_mid s x0 x1 x2 x3 x4" and e: "exc_handle now hwip i s = Some s'"
  shows "\<exists>y0 y1 y2 y3 y4. pipe_mid s' y0 y1 y2 y3 y4 \<and> (x0 \<noteq> None \<longrightarrow> y0 \<noteq> None)"
proof -
  have sh: "pipe_shape s x0 x1 x2 x3 x4" using mid by (simp add: pipe_mid_def pipe_wf_def)
  consider "s' = s" | t where "s' = volatilize_pipeline t" "PL_REGS t = PL_REGS s" "reg t = reg s"
      "pregs t = pregs s" "next_preg t = next_preg s"
    using exc_handle_flush [OF e] by blast
  then show ?thesis
  proof cases
    case 2
    then have "heap_wf t" "\<forall>i. next_preg t \<le> i \<longrightarrow> pregs t i = None"
      using sh pipe_shape_heap [OF sh] by (auto simp: heap_wf_def pipe_shape_def)
    with 2(1) volatilize_mid [of t] show ?thesis by blast
  qed (use mid in blast)
qed

lemma wb_exception_mid:
  assumes mid: "pipe_mid s x0 x1 x2 x3 x4" and e: "wb_exception now hwip s = Some s'"
  shows "\<exists>y0 y1 y2 y3 y4. pipe_mid s' y0 y1 y2 y3 y4 \<and> (x0 \<noteq> None \<longrightarrow> y0 \<noteq> None)"
proof (cases "exception_pending s")
  case True
  then obtain i s1 where "store_exc i s = Some s1" "exc_handle now hwip i s1 = Some s'"
    using e by (auto simp: wb_exception_def)
  moreover have "pipe_mid s1 x0 x1 x2 x3 x4"
    using mid pipe_wf_skel(2) [OF same_skel_store_exc] calculation(1) by blast
  ultimately show ?thesis using exc_handle_mid by blast
next
  case False
  then have "s' = s" using e by (simp add: wb_exception_def)
  with mid show ?thesis by blast
qed

section \<open>Control instructions\<close>

lemma same_skel_branches:
  "take_branch x t s = Some s' \<Longrightarrow> same_skel s' s"
  "branch ins a s = Some s' \<Longrightarrow> same_skel s' s"
  "link_result s = Some s' \<Longrightarrow> same_skel s' s"
  by (auto simp: take_branch_def branch_def link_result_def
      dest!: same_skel_mark same_skel_set_result split: if_splits)

lemma same_skel_control:
  "f < 64 \<Longrightarrow> call_entry (funct_ctrl_table ! f) s = Some s' \<Longrightarrow> same_skel s' s"
  "r < 32 \<Longrightarrow> call_entry (bcond_table ! r) s = Some s' \<Longrightarrow> same_skel s' s"
proof -
  have "list_all (\<lambda>e. \<forall>s s'. call_entry e s = Some s' \<longrightarrow> same_skel s' s) funct_ctrl_table"
    by (auto simp: list_all_iff funct_ctrl_table_def call_entry_def jr_exec_def jal_exec_def
        dest!: same_skel_mark same_skel_set_result elim: same_skel_trans)
  from table_all [OF this, of f]
  show "f < 64 \<Longrightarrow> call_entry (funct_ctrl_table ! f) s = Some s' \<Longrightarrow> same_skel s' s" by simp
  have "list_all (\<lambda>e. \<forall>s s'. call_entry e s = Some s' \<longrightarrow> same_skel s' s) bcond_table"
    by (auto simp: list_all_iff bcond_table_def call_entry_def bltz_exec_def bgez_exec_def bltzal_exec_def
        bgezal_exec_def dest!: same_skel_branches elim: same_skel_trans)
  from table_all [OF this, of r]
  show "r < 32 \<Longrightarrow> call_entry (bcond_table ! r) s = Some s' \<Longrightarrow> same_skel s' s" by simp
qed

text \<open>
  The coprocessor instructions that write a register give the ID latch a destination of their own;
  everything else keeps the skeleton.
\<close>

definition new_dst :: "nat \<Rightarrow> cpu \<Rightarrow> cpu \<Rightarrow> bool" where
  "new_dst i s' s \<longleftrightarrow> (\<exists>p v d. pregs s i = Some p \<and> d < 32 \<and> cop_flag ! opcode (p_instr p) \<and>
     same_skel s' (s\<lparr>pregs := (pregs s)(i \<mapsto> p\<lparr>result := v, dst := d, w_reg_data := ResultPtr i\<rparr>)\<rparr>))"

lemma new_dst_ready:
  assumes mid: "pipe_mid s x0 x1 x2 x3 x4" and n: "new_dst x1 s' s"
  shows "pipe_ready s' x0 x1 x2 x3 x4"
proof -
  obtain p v d where p: "pregs s x1 = Some p" "d < 32" "cop_flag ! opcode (p_instr p)"
    and sk: "same_skel s' (s\<lparr>pregs := (pregs s)(x1 \<mapsto> p\<lparr>result := v, dst := d, w_reg_data := ResultPtr x1\<rparr>)\<rparr>)"
    (is "same_skel s' ?s")
    using n unfolding new_dst_def by blast
  have sh: "pipe_shape s x0 x1 x2 x3 x4" using mid by (simp add: pipe_mid_def pipe_wf_def)
  have "x1 < next_preg s" using pipe_shape_bound [OF sh] p(1) by simp
  then have sh': "pipe_shape ?s x0 x1 x2 x3 x4"
    using sh by (auto simp: pipe_shape_def in_use_def split: option.splits)
  have op: "opcode (p_instr p) \<noteq> OP_LWL" "opcode (p_instr p) \<noteq> OP_LWR"
    using p(3) isa_field_bounds(1) [of "p_instr p"] by (auto simp: cop_flag_iff)
  have "x1 \<noteq> x2" "x1 \<noteq> x3" "x1 \<noteq> x4" "x0 \<noteq> Some x1"
    using sh by (auto simp: pipe_shape_def in_use_def split: option.splits)
  then have "pipe_ready ?s x0 x1 x2 x3 x4"
    using mid sh' p op
    by (auto simp: pipe_mid_ready pipe_ready_def latch_at_def latch_ok_def refs_ok_def data_refs_def)
  then show ?thesis using pipe_wf_skel(3) [OF sk] by simp
qed

lemma cpzero_emulate_skel:
  assumes "cpzero_emulate hwip i s = Some s'" "pregs s i = Some p" "cop_flag ! opcode (p_instr p)"
  shows "same_skel s' s \<or> new_dst i s' s"
proof -
  have nd: "new_dst i (s\<lparr>cp0 := z, pregs := (pregs s)(i \<mapsto> p\<lparr>result := v, dst := rt (p_instr p),
      w_reg_data := ResultPtr i\<rparr>)\<rparr>) s" for z v
    unfolding new_dst_def using assms(2,3) isa_field_bounds(3)
    by (intro exI [of _ p] exI [of _ v] exI [of _ "rt (p_instr p)"]) (simp add: same_skel_def skel_def)
  show ?thesis
    using assms(1,2) nd
    by (auto simp: cpzero_emulate_def Let_def mfc0_emulate_def mtc0_emulate_def bc0x_emulate_def
        upd_preg_def dest: same_skel_branches split: if_splits prod.splits)
qed

end
