(* ===== verification/CPU_Step.thy ===== *)
theory CPU_Step
  imports CPU_Pipe
begin

unbundle bit_operations_syntax

text \<open>
  The clock step keeps the pipeline invariant. Control instructions run after the pointers of the
  ID stage are settled; then the pipeline drains or advances, frees the oldest latch and hands the
  others on. From a state with the invariant, a step reaches a state with the invariant, whatever
  the caches, the memory and the coprocessor do.
\<close>

section \<open>Control instructions\<close>

lemma suspend_upd: "upd_preg i f s = Some s' \<Longrightarrow> suspend s' = suspend s"
  "upd_stage k f s = Some s' \<Longrightarrow> suspend s' = suspend s"
  by (auto simp: upd_preg_def upd_stage_def)

lemma suspend_exc [simp]: "suspend (raise_exc e s) = suspend s" "suspend (cpu_exception c s) = suspend s"
  by (simp_all add: raise_exc_def cpu_exception_def)

lemma suspend_store_exc: "store_exc i s = Some s' \<Longrightarrow> suspend s' = suspend s"
  by (auto simp: store_exc_def dest: suspend_upd split: if_splits)

lemma suspend_control_prims:
  "mark_delay_slot s = Some s' \<Longrightarrow> suspend s' = suspend s"
  "set_result k v s = Some s' \<Longrightarrow> suspend s' = suspend s"
  "take_branch x t s = Some s' \<Longrightarrow> suspend s' = suspend s"
  "branch ins a s = Some s' \<Longrightarrow> suspend s' = suspend s"
  "link_result s = Some s' \<Longrightarrow> suspend s' = suspend s"
  "cop_unimpl n s = Some s' \<Longrightarrow> suspend s' = suspend s"
  by (auto simp: mark_delay_slot_def set_result_def take_branch_def branch_def link_result_def cop_unimpl_def
      dest!: suspend_upd split: if_splits)

lemma suspend_control:
  "f < 64 \<Longrightarrow> call_entry (funct_ctrl_table ! f) s = Some s' \<Longrightarrow> suspend s' = suspend s"
  "r < 32 \<Longrightarrow> call_entry (bcond_table ! r) s = Some s' \<Longrightarrow> suspend s' = suspend s"
proof -
  have "list_all (\<lambda>e. \<forall>s s'. call_entry e s = Some s' \<longrightarrow> suspend s' = suspend s) funct_ctrl_table"
    by (auto simp: list_all_iff funct_ctrl_table_def call_entry_def jr_exec_def jal_exec_def
        dest!: suspend_control_prims)
  from table_all [OF this, of f]
  show "f < 64 \<Longrightarrow> call_entry (funct_ctrl_table ! f) s = Some s' \<Longrightarrow> suspend s' = suspend s" by simp
  have "list_all (\<lambda>e. \<forall>s s'. call_entry e s = Some s' \<longrightarrow> suspend s' = suspend s) bcond_table"
    by (auto simp: list_all_iff bcond_table_def call_entry_def bltz_exec_def bgez_exec_def bltzal_exec_def
        bgezal_exec_def dest!: suspend_control_prims)
  from table_all [OF this, of r]
  show "r < 32 \<Longrightarrow> call_entry (bcond_table ! r) s = Some s' \<Longrightarrow> suspend s' = suspend s" by simp
qed

lemma suspend_cpzero:
  assumes "cpzero_emulate hwip i s = Some s'"
  shows "suspend s' = suspend s"
proof -
  obtain p where p: "pregs s i = Some p" using assms by (auto simp: cpzero_emulate_def)
  obtain v z where "read_reg hwip (rd (p_instr p)) (cp0 s) = (v, z)" by (rule prod.exhaust)
  with assms p show ?thesis
    by (auto simp: cpzero_emulate_def Let_def mfc0_emulate_def mtc0_emulate_def bc0x_emulate_def
        upd_preg_def dest!: suspend_control_prims split: if_splits)
qed

text \<open>The rows of the decode table.\<close>

lemma decode_entry_cases:
  assumes "op < 64" and "call_entry (decode_table hwip ! op) s = Some s'"
  shows "funct_ctrl s = Some s' \<and> op = 0 \<or> bcond_exec s = Some s' \<and> op = 1 \<or> j_exec s = Some s' \<and> op = 2 \<or>
    jal_exec s = Some s' \<and> op = 3 \<or> beq_exec s = Some s' \<and> op = 4 \<or> bne_exec s = Some s' \<and> op = 5 \<or>
    blez_exec s = Some s' \<and> op = 6 \<or> bgtz_exec s = Some s' \<and> op = 7 \<or>
    cpzero_exec hwip s = Some s' \<and> op = 16 \<or> cpone_exec s = Some s' \<and> op = 17 \<or>
    cop_unimpl 2 s = Some s' \<and> op = 18 \<or> cop_unimpl 3 s = Some s' \<and> op = 19 \<or> s' = s"
proof -
  have "\<forall>op < 64. decode_table hwip ! op =
     (if op = 0 then Some funct_ctrl else if op = 1 then Some bcond_exec else if op = 2 then Some j_exec
      else if op = 3 then Some jal_exec else if op = 4 then Some beq_exec else if op = 5 then Some bne_exec
      else if op = 6 then Some blez_exec else if op = 7 then Some bgtz_exec
      else if op = 16 then Some (cpzero_exec hwip) else if op = 17 then Some cpone_exec
      else if op = 18 then Some (cop_unimpl 2) else if op = 19 then Some (cop_unimpl 3) else None)"
    by (simp add: decode_table_def all_less_numeral All_less_Suc cptwo_exec_def cpthree_exec_def)
  with assms show ?thesis by (simp add: call_entry_def split: if_splits)
qed

lemma suspend_decode_entry:
  assumes "op < 64" and "call_entry (decode_table hwip ! op) s = Some s'"
  shows "suspend s' = suspend s"
  using decode_entry_cases [OF assms]
  by (elim disjE)
    (auto simp: funct_ctrl_def bcond_exec_def j_exec_def jal_exec_def beq_exec_def bne_exec_def blez_exec_def
      bgtz_exec_def cpzero_exec_def cpone_exec_def FPU_cpone_emulate_def
      dest!: suspend_control_prims suspend_cpzero suspend_upd suspend_control(1) [OF isa_field_bounds(5)]
        suspend_control(2) [OF isa_field_bounds(3)] split: if_splits)

lemma decode_entry_skel:
  assumes st: "stage ID_STAGE s = Some i" "pregs s i = Some p"
    and c: "call_entry (decode_table hwip ! opcode (p_instr p)) s = Some s'"
  shows "same_skel s' s \<or> new_dst i s' s"
  using decode_entry_cases [OF isa_field_bounds(1) c]
proof (elim disjE conjE)
  assume op: "opcode (p_instr p) = 16" and c: "cpzero_exec hwip s = Some s'"
  have cop: "cop_flag ! opcode (p_instr p)" by (simp add: op cop_flag_iff)
  obtain s1 dc where "cpzero_emulate hwip i s = Some s1"
    "s' = s1\<lparr>dcache := Some (cache_isolate (caches_isolated (cp0 s1)) dc)\<rparr>"
    using c st by (auto simp: cpzero_exec_def)
  with cpzero_emulate_skel [OF _ st(2) cop] show ?thesis by (auto simp: new_dst_def)
next
  assume op: "opcode (p_instr p) = 17" and c: "cpone_exec s = Some s'"
  have cop: "cop_flag ! opcode (p_instr p)" by (simp add: op cop_flag_iff)
  have "new_dst i (s\<lparr>pregs := (pregs s)(i \<mapsto> p\<lparr>dst := rt (cpu_instr s), result := 0,
      w_reg_data := ResultPtr i\<rparr>)\<rparr>) s"
    unfolding new_dst_def using st(2) cop isa_field_bounds(3)
    by (intro exI [of _ p] exI [of _ 0] exI [of _ "rt (cpu_instr s)"]) (simp add: same_skel_def skel_def)
  then show ?thesis
    using c st by (auto simp: cpone_exec_def FPU_cpone_emulate_def upd_preg_def
        dest: same_skel_cop_unimpl split: if_splits)
qed (auto simp: funct_ctrl_def bcond_exec_def j_exec_def jal_exec_def beq_exec_def bne_exec_def
    blez_exec_def bgtz_exec_def elim: same_skel_trans
    dest!: same_skel_branches same_skel_mark same_skel_set_result same_skel_cop_unimpl
      same_skel_control(1) [OF isa_field_bounds(5)] same_skel_control(2) [OF isa_field_bounds(3)])

lemma decode_cases:
  assumes d: "decode hwip s = Some s'" and st: "stage ID_STAGE s = Some i" "pregs s i = Some p"
  obtains (same) "s' = s" "suspend s"
  | (wait) "s' = s\<lparr>suspend := True, cop_remain := CPZERO_OP_SUSPEND\<rparr>"
  | (run) s1 where "call_entry (decode_table hwip ! opcode (p_instr p)) (s\<lparr>suspend := False\<rparr>) = Some s1"
      "store_exc i s1 = Some s'"
proof (cases "suspend s \<and> cop_remain s \<noteq> 0")
  case True
  then show ?thesis using d st same by (simp add: decode_def)
next
  case run: False
  show ?thesis
  proof (cases "\<not> suspend s \<and> cop_flag ! opcode (p_instr p)")
    case True
    then show ?thesis using d st wait by (simp add: decode_def)
  next
    case False
    with d st run obtain s1 where
      "call_entry (decode_table hwip ! opcode (p_instr p)) (s\<lparr>suspend := False\<rparr>) = Some s1"
      "store_exc i s1 = Some s'"
      unfolding decode_def by (simp only: bind.simps Let_def option.case if_False bind_Some_iff) blast
    then show ?thesis by (rule that(3))
  qed
qed

lemma decode_ready:
  assumes mid: "pipe_mid s x0 x1 x2 x3 x4" and d: "decode hwip s = Some s'"
  shows "pipe_ready s' x0 x1 x2 x3 x4 \<and> (suspend s' \<longrightarrow> pipe_mid s' x0 x1 x2 x3 x4)"
proof -
  have sh: "pipe_shape s x0 x1 x2 x3 x4" using mid by (simp add: pipe_mid_def pipe_wf_def)
  obtain p where p: "pregs s x1 = Some p" using mid by (auto simp: pipe_mid_def latch_at_def)
  note st = pipe_wf_stages(2) [OF sh]
  let ?s = "s\<lparr>suspend := False\<rparr>"
  from d st p show ?thesis
  proof (cases rule: decode_cases)
    case same
    with mid show ?thesis by (simp add: pipe_mid_ready)
  next
    case wait
    then have "same_skel s' s" by simp
    with mid show ?thesis by (simp add: pipe_wf_skel) (simp add: pipe_mid_ready)
  next
    case (run s1)
    have mid': "pipe_mid ?s x0 x1 x2 x3 x4"
      using mid pipe_wf_skel(2) [of ?s s] by simp
    have "stage ID_STAGE ?s = Some x1" using st by (simp add: stage_def)
    from decode_entry_skel [OF this _ run(1)] p
    have "same_skel s1 ?s \<or> new_dst x1 s1 ?s" by simp
    then have "pipe_ready s1 x0 x1 x2 x3 x4"
      using mid' pipe_wf_skel(3) [of s1 ?s] new_dst_ready [OF mid'] by (auto simp: pipe_mid_ready)
    moreover have "same_skel s' s1" using run(2) by (rule same_skel_store_exc)
    moreover have "\<not> suspend s'"
      using suspend_decode_entry [OF isa_field_bounds(1) run(1)] suspend_store_exc [OF run(2)] by simp
    ultimately show ?thesis by (simp add: pipe_wf_skel)
  qed
qed

section \<open>The pipeline moves\<close>

lemma retire_eq:
  assumes "pipe_shape s x0 x1 x2 x3 x4"
  shows "retire s = Some (s\<lparr>pregs := (pregs s)(late_late_preg s := None), late_late_preg := late_preg s,
    late_preg := x4\<rparr>)"
  using assms by (auto simp: retire_def delete_preg_def stage_def pipe_shape_def in_use_def)

lemma refs_data: "refs_ok ids p \<Longrightarrow> data_refs ids p"
  by (simp add: refs_ok_def)

lemma drain_wf:
  assumes mid: "pipe_mid s x0 x1 x2 x3 x4" and d: "drain s = Some s'"
  shows "\<exists>y2. pipe_wf s' x0 x1 y2 x2 x3"
proof -
  have sh: "pipe_shape s x0 x1 x2 x3 x4" using mid by (simp add: pipe_mid_def pipe_wf_def)
  let ?n = "next_preg s"
  have new: "\<forall>j \<in> set (in_use s x0 x1 x2 x3 x4). j < ?n"
    using sh pipe_shape_bound [OF sh] by (auto simp: pipe_shape_def)
  have s': "s' = s\<lparr>late_late_preg := late_preg s, late_preg := x4,
      pregs := (pregs s)(late_late_preg s := None, ?n \<mapsto> PipelineRegs_new ?n (pc s) NOP_INSTR),
      next_preg := Suc ?n, PL_REGS := [x0, Some x1, Some ?n, Some x2, Some x3]\<rparr>"
    using d sh
    by (simp add: drain_def retire_eq [OF sh] set_stage_def stage_def new_preg_def Let_def pipe_shape_def
        numeral_eq_Suc [symmetric])
  have "pipe_shape s' x0 x1 ?n x2 x3"
    using sh new by (auto simp: s' pipe_shape_def in_use_def split: option.splits)
  then have "pipe_wf s' x0 x1 ?n x2 x3"
    using mid new sh
    by (auto simp: s' pipe_mid_def pipe_wf_def latch_at_def in_use_def fresh_bubble pipe_shape_def
        dest: refs_data)
  then show ?thesis ..
qed

lemma advance_wf:
  assumes r: "pipe_ready s (Some x0) x1 x2 x3 x4" and a: "advance s = Some s'"
  shows "pipe_wf s' None x0 x1 x2 x3"
proof -
  have sh: "pipe_shape s (Some x0) x1 x2 x3 x4" using r by (simp add: pipe_ready_def)
  have s': "s' = s\<lparr>pregs := (pregs s)(late_late_preg s := None),
      late_late_preg := late_preg s, late_preg := x4, pc := pc s + 4,
      PL_REGS := [None, Some x0, Some x1, Some x2, Some x3]\<rparr>"
    using a sh
    by (simp add: advance_def retire_eq [OF sh] set_stage_def stage_def Let_def pipe_shape_def
        numeral_eq_Suc)
  have "pipe_shape s' None x0 x1 x2 x3"
    using sh by (auto simp: s' pipe_shape_def in_use_def)
  then show ?thesis
    using r sh
    by (auto simp: s' pipe_ready_def pipe_wf_def latch_at_def in_use_def pipe_shape_def dest: refs_data)
qed

section \<open>The clock step\<close>

text \<open>Every pending exception has found its way into a latch when a step ends.\<close>

lemma pending_decode:
  assumes d: "decode hwip s = Some s'" and idle: "\<not> exception_pending s"
  shows "\<not> exception_pending s'"
proof -
  obtain i p where st: "stage ID_STAGE s = Some i" "pregs s i = Some p" using d by (auto simp: decode_def)
  show ?thesis
    using d st
  proof (cases rule: decode_cases)
    case (run s1)
    then show ?thesis by (auto simp: store_exc_def split: if_splits)
  qed (use idle in simp_all)
qed

lemma pending_execute: "execute s = Some s' \<Longrightarrow> \<not> exception_pending s'"
proof -
  assume e: "execute s = Some s'"
  then obtain i s2 where "store_exc i s2 = Some s'" by (auto simp: execute_def Let_def)
  then show ?thesis by (auto simp: store_exc_def split: if_splits)
qed

lemma pending_moves:
  "drain s = Some s' \<Longrightarrow> exception_pending s' = exception_pending s"
  "advance s = Some s' \<Longrightarrow> exception_pending s' = exception_pending s"
  by (auto simp: drain_def advance_def retire_def delete_preg_def set_stage_def new_preg_def Let_def
      split: if_splits)

lemma proceed_keeps_wf:
  assumes mid: "pipe_mid s (Some x0) x1 x2 x3 x4" and p: "proceed junk now hwip hz s = Some s'"
  shows "(\<exists>y0 y1 y2 y3 y4. pipe_wf s' y0 y1 y2 y3 y4) \<and> \<not> exception_pending s'"
proof -
  obtain s1 s2 s3 s4 where st: "reg_commit s = Some s1" "mem_access junk now s1 = Some s2" "execute s2 = Some s3"
    and d: "(if \<not> hz then decode hwip s3 else Some s3) = Some s4"
    and m: "(if suspend s4 \<or> hz then drain s4 else advance s4) = Some s'"
    using p by (auto simp: proceed_def)
  have "same_skel s3 s"
    using same_skel_reg_commit [OF st(1)] same_skel_mem_access [OF st(2)] same_skel_execute [OF st(3)]
    by (blast intro: same_skel_trans)
  then have m3: "pipe_mid s3 (Some x0) x1 x2 x3 x4" using mid by (simp add: pipe_wf_skel)
  note idle = pending_execute [OF st(3)]
  show ?thesis
  proof (cases hz)
    case True
    then have "drain s3 = Some s'" using d m by simp
    with drain_wf [OF m3] idle show ?thesis by (auto simp: pending_moves) blast
  next
    case False
    then have d': "decode hwip s3 = Some s4" using d by simp
    note r = decode_ready [OF m3 d'] and idle' = pending_decode [OF d' idle]
    show ?thesis
    proof (cases "suspend s4")
      case True
      then have "drain s4 = Some s'" using m by simp
      with drain_wf r True idle' show ?thesis by (auto simp: pending_moves) blast
    next
      case F: False
      then have "advance s4 = Some s'" using m False by simp
      with advance_wf [OF conjunct1 [OF r]] idle' show ?thesis using pending_moves(2) by blast
    qed
  qed
qed

lemma sig_ok_interrupt_check:
  assumes "interrupt_check hwip s = Some s'" "sig_ok s"
  shows "sig_ok s'"
  using assms
  by (auto simp: interrupt_check_def store_exc_def sig_ok_def cpu_exception_def raise_exc_def upd_preg_def
      split: if_splits)

lemma pending_wb_exception:
  assumes "wb_exception now hwip s = Some s'"
  shows "\<not> exception_pending s'"
proof (cases "exception_pending s")
  case True
  then obtain i s1 where s1: "store_exc i s = Some s1" "exc_handle now hwip i s1 = Some s'"
    using assms by (auto simp: wb_exception_def)
  then have "\<not> exception_pending s1" using True by (auto simp: store_exc_def)
  moreover have "exception_pending (volatilize_pipeline t) = exception_pending t" for t
    by (simp add: volatilize_pipeline_def volatilize_stage_def new_preg_def set_stage_def Let_def
        numeral_eq_Suc upt_rec)
  ultimately show ?thesis using exc_handle_flush [OF s1(2)] by auto
qed (use assms in \<open>simp add: wb_exception_def\<close>)

lemma step_keeps_wf:
  assumes wf: "pipe_wf s x0 x1 x2 x3 x4" and sig: "sig_ok s" and st: "step junk now hwip s = Some s'"
  shows "(\<exists>y0 y1 y2 y3 y4. pipe_wf s' y0 y1 y2 y3 y4) \<and> \<not> exception_pending s'"
proof -
  let ?s0 = "s\<lparr>cp0 := adjust_random (cp0 s)\<rparr>"
  obtain s1 hz s2 dm s3 il fm s4 i s5 s7 s8 s9 s10 where
    p: "interrupt_check hwip ?s0 = Some s1" "pre_decode s1 = Some (hz, s2)"
      "pre_mem_access junk now s2 = Some (dm, s3)" "pre_execute s3 = Some il"
      "(if stage IF_STAGE s3 = None then fetch now dm s3 else Some (False, s3)) = Some (fm, s4)"
      "stage WB_STAGE s4 = Some i" "exc_handle now hwip i s4 = Some s5"
      "run_cache now DCache (mem_bandwidth (cop_tick (mul_div_tick s5))) (cop_tick (mul_div_tick s5)) = Some s7"
      "wb_exception now hwip s7 = Some s8" "run_cache now ICache (mem_bandwidth s8) s8 = Some s9"
      "wb_exception now hwip s9 = Some s10"
    and fin: "(if \<not> il \<and> \<not> dm \<and> \<not> fm then proceed junk now hwip hz s10
      else Some (s10\<lparr>stall_count := stall_count s10 + 1\<rparr>)) = Some s'"
    using st by (auto simp: step_def Let_def)
  have "same_skel s1 s"
    using same_skel_interrupt_check [OF p(1)] by (rule same_skel_trans) simp
  then have "pipe_wf s1 x0 x1 x2 x3 x4" using wf by (simp add: pipe_wf_skel)
  moreover have "sig_ok s1" using sig sig_ok_interrupt_check [OF p(1)] by (simp add: sig_ok_def)
  ultimately have "pipe_mid s2 x0 x1 x2 x3 x4"
    using pre_decode_mid [of s1 x0 x1 x2 x3 x4] p(2) by auto
  then have m3: "pipe_mid s3 x0 x1 x2 x3 x4"
    using pipe_wf_skel(2) [OF same_skel_pre_mem_access [OF p(3)]] by simp
  have st3: "stage IF_STAGE s3 = x0"
    using pipe_wf_stages(1) m3 by (auto simp: pipe_mid_def pipe_wf_def)
  obtain y0 where m4: "pipe_mid s4 y0 x1 x2 x3 x4" "\<not> fm \<longrightarrow> y0 \<noteq> None"
  proof (cases "x0 = None")
    case True
    then have "fetch now dm s3 = Some (fm, s4)" using p(5) st3 by simp
    from fetch_mid [OF m3 this] that show ?thesis by blast
  next
    case False
    then show ?thesis using p(5) st3 m3 that by auto
  qed
  obtain z0 z1 z2 z3 z4 where m5: "pipe_mid s5 z0 z1 z2 z3 z4" "y0 \<noteq> None \<longrightarrow> z0 \<noteq> None"
    using exc_handle_mid [OF m4(1) p(7)] by blast
  have "same_skel s7 s5"
    using same_skel_run_cache [OF p(8)] same_skel_ticks by (blast intro: same_skel_trans)
  then have m7: "pipe_mid s7 z0 z1 z2 z3 z4" using m5 by (simp add: pipe_wf_skel)
  obtain u0 u1 u2 u3 u4 where m8: "pipe_mid s8 u0 u1 u2 u3 u4" "z0 \<noteq> None \<longrightarrow> u0 \<noteq> None"
    using wb_exception_mid [OF m7 p(9)] by blast
  have m9: "pipe_mid s9 u0 u1 u2 u3 u4"
    using m8 pipe_wf_skel(2) [OF same_skel_run_cache [OF p(10)]] by simp
  obtain w0 w1 w2 w3 w4 where m10: "pipe_mid s10 w0 w1 w2 w3 w4" "u0 \<noteq> None \<longrightarrow> w0 \<noteq> None"
    using wb_exception_mid [OF m9 p(11)] by blast
  show ?thesis
  proof (cases "\<not> il \<and> \<not> dm \<and> \<not> fm")
    case True
    then obtain v where "w0 = Some v" using m4(2) m5(2) m8(2) m10(2) by auto
    then show ?thesis using proceed_keeps_wf m10(1) fin True by simp
  next
    case False
    then have s': "s' = s10\<lparr>stall_count := stall_count s10 + 1\<rparr>" using fin by auto
    then have "same_skel s' s10" by simp
    then have "pipe_wf s' w0 w1 w2 w3 w4" using m10(1) by (simp add: pipe_wf_skel pipe_mid_def)
    moreover have "\<not> exception_pending s'" using pending_wb_exception [OF p(11)] s' by simp
    ultimately show ?thesis by blast
  qed
qed

text \<open>No pointer the stages follow is null or dangling.\<close>

lemma mid_pointers:
  assumes mid: "pipe_mid s x0 x1 x2 x3 x4"
  shows "operand_a ID_STAGE s \<noteq> None" "operand_b ID_STAGE s \<noteq> None"
    "operand_a EX_STAGE s \<noteq> None" "operand_b EX_STAGE s \<noteq> None" "reg_commit s \<noteq> None"
    "pregs s x3 = Some p \<Longrightarrow> mem_write_flag ! opcode (p_instr p) \<Longrightarrow> deref s (w_mem_data p) \<noteq> None"
    "pregs s x3 = Some p \<Longrightarrow> opcode (p_instr p) = OP_LWL \<or> opcode (p_instr p) = OP_LWR \<Longrightarrow> dst p < 32 \<Longrightarrow>
       deref s (lwrl_reg_prev p) \<noteq> None"
proof -
  have sh: "pipe_shape s x0 x1 x2 x3 x4" using mid by (simp add: pipe_mid_def pipe_wf_def)
  note st = pipe_wf_stages [OF sh]
  let ?live = "{x1, x2, x3, x4, late_preg s, late_late_preg s}"
  have live: "\<forall>i \<in> ?live. pregs s i \<noteq> None" "length (reg s) = 32"
    using sh by (auto simp: pipe_shape_def in_use_def)
  have d: "deref s q \<noteq> None" if "ptr_in ids q" "ids \<subseteq> ?live" for ids q
    using ptr_in_deref [OF ptr_in_mono [OF that] live] by auto
  obtain id where id: "pregs s x1 = Some id" "refs_ok {x1, x2, x3, x4} id"
    using mid by (auto simp: pipe_mid_def latch_at_def)
  show "operand_a ID_STAGE s \<noteq> None" "operand_b ID_STAGE s \<noteq> None"
    using id st d [of "{x1, x2, x3, x4}"] by (auto simp: operand_a_def operand_b_def stage_preg_def refs_ok_def)
  obtain ex where ex: "pregs s x2 = Some ex" "refs_ok {x2, x3, x4, late_preg s} ex"
    using mid by (auto simp: pipe_mid_def pipe_wf_def latch_at_def)
  show "operand_a EX_STAGE s \<noteq> None" "operand_b EX_STAGE s \<noteq> None"
    using ex st d [of "{x2, x3, x4, late_preg s}"]
    by (auto simp: operand_a_def operand_b_def stage_preg_def refs_ok_def)
  obtain wb where "pregs s x4 = Some wb" "latch_ok x4 wb"
    using mid by (auto simp: pipe_mid_def pipe_wf_def latch_at_def)
  then show "reg_commit s \<noteq> None"
    using st live by (auto simp: reg_commit_def stage_preg_def latch_ok_def)
  assume p: "pregs s x3 = Some p"
  have m: "data_refs {x3, x4, late_preg s, late_late_preg s} p"
    using mid p by (auto simp: pipe_mid_def pipe_wf_def latch_at_def)
  show "mem_write_flag ! opcode (p_instr p) \<Longrightarrow> deref s (w_mem_data p) \<noteq> None"
    using m d [of "{x3, x4, late_preg s, late_late_preg s}"] by (auto simp: data_refs_def)
  show "opcode (p_instr p) = OP_LWL \<or> opcode (p_instr p) = OP_LWR \<Longrightarrow> dst p < 32 \<Longrightarrow>
       deref s (lwrl_reg_prev p) \<noteq> None"
    using m d [of "{x3, x4, late_preg s, late_late_preg s}"] by (auto simp: data_refs_def)
qed

section \<open>Runs\<close>

text \<open>
  \<open>cpu_run s t\<close>: the processor gets from \<open>s\<close> to \<open>t\<close> by clock steps, each at a time and with
  interrupt lines of its own.
\<close>

inductive cpu_run :: "cpu \<Rightarrow> cpu \<Rightarrow> bool" for s where
  run_start: "cpu_run s s"
| run_tick: "cpu_run s t \<Longrightarrow> step junk now hwip t = Some u \<Longrightarrow> cpu_run s u"

definition safe_state :: "cpu \<Rightarrow> bool" where
  "safe_state s \<longleftrightarrow> (\<exists>x0 x1 x2 x3 x4. pipe_wf s x0 x1 x2 x3 x4) \<and> \<not> exception_pending s"

lemma safe_state_step: "safe_state s \<Longrightarrow> step junk now hwip s = Some s' \<Longrightarrow> safe_state s'"
  unfolding safe_state_def using step_keeps_wf sig_ok_def by blast

lemma safe_state_run: "cpu_run s t \<Longrightarrow> safe_state s \<Longrightarrow> safe_state t"
  by (induction rule: cpu_run.induct) (auto dest: safe_state_step)

lemma volatilize_safe:
  assumes "heap_wf s" "\<forall>i. next_preg s \<le> i \<longrightarrow> pregs s i = None" "\<not> exception_pending s"
  shows "safe_state (volatilize_pipeline s)"
proof -
  have "exception_pending (volatilize_pipeline s) = exception_pending s"
    by (simp add: volatilize_pipeline_def volatilize_stage_def new_preg_def set_stage_def Let_def
        numeral_eq_Suc upt_rec)
  with volatilize_mid [OF assms(1,2)] assms(3) show ?thesis unfolding safe_state_def pipe_mid_def by blast
qed

text \<open>The constructor and a reset reach a safe state.\<close>

lemma CPU_new_safe:
  assumes "heap_wf s" "\<forall>i. next_preg s \<le> i \<longrightarrow> pregs s i = None"
  shows "safe_state (CPU_new m z s)"
  unfolding CPU_new_def using assms by (intro volatilize_safe) (simp_all add: heap_wf_def)

lemma CPU_reset_safe:
  assumes "heap_wf s" "\<forall>i. next_preg s \<le> i \<longrightarrow> pregs s i = None" "\<not> exception_pending s"
    and r: "CPU_reset now jt jd s = Some s'"
  shows "safe_state s'"
proof -
  obtain ib isz iw db dsz dw where o: "opt_icache s = (ib, isz, iw)" "opt_dcache s = (db, dsz, dw)"
    by (meson prod_cases3)
  then obtain ic dc where "s' = volatilize_pipeline (s\<lparr>reg := (reg s)[0 := 0], pc := 0xbfc00000 - 4,
      cp0 := CPZero_reset (cp0 s), icache := Some ic, dcache := Some dc\<rparr>)"
    using r by (auto simp: CPU_reset_def Let_def)
  then show ?thesis using assms(1-3) by (auto intro!: volatilize_safe simp: heap_wf_def)
qed

lemma safe_state_reset:
  assumes "safe_state s" and "CPU_reset now jt jd s = Some s'"
  shows "safe_state s'"
proof -
  obtain x0 x1 x2 x3 x4 where "pipe_shape s x0 x1 x2 x3 x4"
    using assms(1) by (auto simp: safe_state_def pipe_wf_def)
  then show ?thesis
    using assms(1) pipe_shape_heap by (intro CPU_reset_safe [OF _ _ _ assms(2)])
      (auto simp: safe_state_def pipe_shape_def)
qed

end
