(* ===== verification/CPU_Props.thy ===== *)
theory CPU_Props
  imports CPU_Step CPZero_Props Cache_Props
begin

unbundle bit_operations_syntax

text \<open>
  The properties of the processor, each with a witness. \<open>demo_state\<close> is the processor after a
  reset, with two-block caches and 64 bytes of zeros (\<open>NOP\<close>s) at the reset vector; \<open>pipe_of f\<close> is
  a processor whose five stages hold the latches \<open>f 0\<close> to \<open>f 4\<close>.
\<close>

section \<open>Demonstration states\<close>

definition demo_bus :: mapper where
  "demo_bus = enable_debug_mode (snd (map_at_physical_address
     (MemoryModule (Range_new 0 64 (replicate 64 0) MEM_READ_WRITE) 2) 0xbfc00000 (Mapper_new False False 1)))"

definition blank_cpu :: cpu where
  "blank_cpu = \<lparr>pc = 0, reg = replicate 32 0, cpu_instr = 0, hi_reg = 0, lo_reg = 0, hi_temp = 0, lo_temp = 0,
     hi_write = False, lo_write = False, PL_REGS = replicate 5 None, late_preg = 0, late_late_preg = 0,
     pregs = \<lambda>i. None, next_preg = 0, memsys = demo_bus, cp0 = cp0_reset, mul_div_remain = 0, cop_remain = 0,
     suspend = False, exc_signal = None, exception_pending = False, opt_fpu = False, opt_haltbreak = False,
     opt_haltibe = False, cpu_bigendian = False, opt_icache = (2, 8, 1), opt_dcache = (2, 8, 1),
     mem_bandwidth = 1, icache = None, dcache = None, cpu_client = 0, halted = False, stall_count = 0\<rparr>"


definition pipe_of :: "(nat \<Rightarrow> preg option) \<Rightarrow> cpu" where
  "pipe_of f = blank_cpu\<lparr>PL_REGS := [Some 0, Some 1, Some 2, Some 3, Some 4], pregs := f, next_preg := 7,
     icache := Some tiny_cache, dcache := Some tiny_cache\<rparr>"

lemma pipe_of_simps [simp]:
  "stage 0 (pipe_of f) = Some 0" "stage ID_STAGE (pipe_of f) = Some 1" "stage EX_STAGE (pipe_of f) = Some 2"
  "stage MEM_STAGE (pipe_of f) = Some 3" "stage WB_STAGE (pipe_of f) = Some 4" "pregs (pipe_of f) = f"
  "reg (pipe_of f) = replicate 32 0" "\<not> suspend (pipe_of f)" "\<not> exception_pending (pipe_of f)"
  "length (PL_REGS (pipe_of f)) = 5" "icache (pipe_of f) = Some tiny_cache" "dcache (pipe_of f) = Some tiny_cache"
  "pc (pipe_of f) = 0"
  by (simp_all add: pipe_of_def stage_def blank_cpu_def)







section \<open>Memory safety\<close>



section \<open>Operands and execution\<close>

text \<open>
  (C22) The forwarding network of \<open>pre_decode\<close> yields the value the register file will hold after
  the three older instructions in the pipeline have written their results, for every register, and
  signals a hazard exactly when that value is still being loaded by the instruction in the EX stage.
\<close>

theorem forwarding_correct:
  assumes "pregs s i = Some ex" and "pregs s j = Some me" and "pregs s k = Some wb"
    and "latch_ok i ex" and "latch_ok j me" and "latch_ok k wb" and "length (reg s) = 32" and "r < 32"
  shows "deref s (fst (forward ex me wb r)) =
      Some (commit_latch s ex (commit_latch s me (commit_latch s wb (reg s))) ! r) \<and>
    (snd (forward ex me wb r) \<longleftrightarrow> r = dst ex \<and> mem_read_op ex)"
  using forward_value [OF assms] by blast

theorem forwarding_correct_witness:
  "let ex = (PipelineRegs_new 2 0 0)\<lparr>result := 11, dst := 5, w_reg_data := ResultPtr 2\<rparr>;
       me = (PipelineRegs_new 3 0 0)\<lparr>result := 22, dst := 6, w_reg_data := ResultPtr 3\<rparr>;
       wb = (PipelineRegs_new 4 0 0)\<lparr>result := 33, dst := 5, w_reg_data := ResultPtr 4\<rparr>
   in deref (pipe_of [2 \<mapsto> ex, 3 \<mapsto> me, 4 \<mapsto> wb]) (fst (forward ex me wb 5)) = Some 11"
proof -
  let ?ex = "(PipelineRegs_new 2 0 0)\<lparr>result := 11, dst := 5, w_reg_data := ResultPtr 2\<rparr>"
  let ?me = "(PipelineRegs_new 3 0 0)\<lparr>result := 22, dst := 6, w_reg_data := ResultPtr 3\<rparr>"
  let ?wb = "(PipelineRegs_new 4 0 0)\<lparr>result := 33, dst := 5, w_reg_data := ResultPtr 4\<rparr>"
  let ?s = "pipe_of [2 \<mapsto> ?ex, 3 \<mapsto> ?me, 4 \<mapsto> ?wb]"
  have "pregs ?s 2 = Some ?ex" "pregs ?s 3 = Some ?me" "pregs ?s 4 = Some ?wb"
    "latch_ok 2 ?ex" "latch_ok 3 ?me" "latch_ok 4 ?wb" "length (reg ?s) = 32" by (simp_all add: latch_ok_def)
  from forwarding_correct [OF this, of 5] show ?thesis by (simp add: Let_def commit_latch_def)
qed

text \<open>
  (C21) The EX stage computes what the MIPS I definition says: the instruction in the stage gets the
  value of the architectural function of its operands as its result, or an overflow exception in
  its buffer exactly when the exact sum or difference does not fit, and nothing else is written.
\<close>

theorem execute_refines_mips:
  assumes "stage EX_STAGE s = Some i" and "pregs s i = Some p"
    and "operand_a EX_STAGE s = Some a" and "operand_b EX_STAGE s = Some b"
    and "alu_function (p_instr p) = Some f" and "mips_alu f a b = Some r" and "\<not> exception_pending s"
  shows "\<exists>s'. execute s = Some s' \<and> reg s' = reg s \<and> \<not> exception_pending s' \<and>
    pregs s' i = Some (case r of Inl e \<Rightarrow> p\<lparr>excBuf := excBuf p @ [exc_req e ANY_MODE]\<rparr>
                       | Inr v \<Rightarrow> p\<lparr>result := v\<rparr>)"
  using assms by (rule execute_alu)

theorem execute_refines_mips_witness:
  "let p = (PipelineRegs_new 2 0 0x20000005)\<lparr>alu_src_a := ImmPtr 2, alu_src_b := ImmPtr 2, imm := 0x7fffffff\<rparr>
   in \<exists>s'. execute (pipe_of [2 \<mapsto> p]) = Some s' \<and>
     pregs s' 2 = Some (p\<lparr>excBuf := [exc_req Exc_Ov ANY_MODE]\<rparr>)"
proof -
  let ?p = "(PipelineRegs_new 2 0 0x20000005)\<lparr>alu_src_a := ImmPtr 2, alu_src_b := ImmPtr 2, imm := 0x7fffffff\<rparr>"
  let ?s = "pipe_of [2 \<mapsto> ?p]"
  have "pregs ?s 2 = Some ?p" "operand_a EX_STAGE ?s = Some 0x7fffffff" "operand_b EX_STAGE ?s = Some 0x7fffffff"
    "alu_function (p_instr ?p) = Some 32" "mips_alu 32 0x7fffffff 0x7fffffff = Some (Inl Exc_Ov)"
    by (simp_all add: operand_a_def operand_b_def stage_preg_def PipelineRegs_new_def alu_function_def
        opcode_def mips_alu_def checked_def)
  from execute_refines_mips [OF pipe_of_simps(3) this pipe_of_simps(9)]
  show ?thesis by (fastforce simp: Let_def PipelineRegs_new_def)
qed

text \<open>
  Multiplication is exact: the two result words are the 64-bit product, and the version on
  16-bit limbs the program compiles without a 64-bit type computes the same words.
\<close>

lemma multiplication_exact:
  "mult64_limbs n m = mult64 n m \<and>
   (case mult64 n m of (hi, lo) \<Rightarrow> uint hi * 2 ^ 32 + uint lo = uint n * uint m)"
  using mult64_limbs_eq mult64_product by (cases "mult64 n m") simp

text \<open>
  The results of a multiplication or division reach \<open>hi\<close> and \<open>lo\<close> after exactly as many clock
  steps as the delay of the instruction says; until then both registers keep their values.
\<close>

lemma mul_div_delay_exact:
  assumes "mul_div_remain s = int n" and "0 < n"
  shows "(\<forall>k < n. hi_reg ((mul_div_tick ^^ k) s) = hi_reg s \<and> lo_reg ((mul_div_tick ^^ k) s) = lo_reg s \<and>
      mul_div_remain ((mul_div_tick ^^ k) s) = int (n - k)) \<and>
    hi_reg ((mul_div_tick ^^ n) s) = (if hi_write s then hi_temp s else hi_reg s) \<and>
    lo_reg ((mul_div_tick ^^ n) s) = (if lo_write s then lo_temp s else lo_reg s) \<and>
    mul_div_remain ((mul_div_tick ^^ n) s) = 0"
  using mul_div_ticks [OF assms] by auto

text \<open>
  (C36) An unaligned word is loaded by \<open>LWL\<close> and \<open>LWR\<close> together, in either byte order: at offset
  \<open>k\<close> of two adjacent words the pair yields the four bytes from \<open>k\<close> on, whatever the register held.
\<close>

theorem unaligned_load:
  assumes "k < 4" and "bs = [b0, b1, b2, b3, b4, b5, b6, b7]"
  shows "Option.bind (lwr False r (word_of_bytes False b0 b1 b2 b3) (of_nat k))
      (\<lambda>r'. lwl False r' (if k = 0 then word_of_bytes False b0 b1 b2 b3 else word_of_bytes False b4 b5 b6 b7)
         (of_nat ((k + 3) mod 4))) =
      Some (word_of_bytes False (bs ! k) (bs ! (k + 1)) (bs ! (k + 2)) (bs ! (k + 3))) \<and>
    Option.bind (lwl True r (word_of_bytes True b0 b1 b2 b3) (of_nat k))
      (\<lambda>r'. lwr True r' (if k = 0 then word_of_bytes True b0 b1 b2 b3 else word_of_bytes True b4 b5 b6 b7)
         (of_nat ((k + 3) mod 4))) =
      Some (word_of_bytes True (bs ! k) (bs ! (k + 1)) (bs ! (k + 2)) (bs ! (k + 3)))"
  using unaligned_load_little [OF assms] unaligned_load_big [OF assms] by blast

theorem unaligned_load_witness:
  "Option.bind (lwl True 0 (word_of_bytes True 1 2 3 4) 1) (\<lambda>r. lwr True r (word_of_bytes True 5 6 7 8) 0) =
   Some (word_of_bytes True 2 3 4 5)"
  using unaligned_load [of 1 "[1, 2, 3, 4, 5, 6, 7, 8]" 1 2 3 4 5 6 7 8 0] by simp

text \<open>
  The functions \<open>swl\<close> and \<open>swr\<close> of the code, which nothing calls, against the bytes the MEM stage sends to
  the cache: for \<open>SWR\<close> they agree in both byte orders, for \<open>SWL\<close> in the little-endian order only.
\<close>

lemma unaligned_store_paths:
  assumes "k < 4"
  shows "swr big data w (of_nat k) = Some (patch_word big w (swr_bytes big data k)) \<and>
    swl False data w (of_nat k) = Some (patch_word False w (swl_bytes False data k)) \<and>
    swl True 0x11223344 0 1 \<noteq> Some (patch_word True 0 (swl_bytes True 0x11223344 1))"
  using swr_bytes_patch [OF assms] swl_bytes_patch [OF assms] swl_bytes_big_differs by simp

section \<open>Decoding and control transfer\<close>

text \<open>
  The register decoder is total and stays within the register file: for every instruction
  word, valid or not, both sources and the destination are a register number or the marker for
  none, register 0 is never a destination, and a reserved instruction has no destination.
\<close>

lemma decode_register_bounds:
  "\<exists>a b d. decode_src_a ins = Some a \<and> decode_src_b ins = Some b \<and> decode_dst ins = Some d \<and>
     a \<le> NONE_REG \<and> b \<le> NONE_REG \<and> d \<noteq> 0 \<and> (if reserved_instr ins then d = NONE_REG else d \<le> NONE_REG)"
proof -
  obtain a b d where abd: "decode_src_a ins = Some a" "a \<le> 32" "decode_src_b ins = Some b" "b \<le> 32"
    "decode_dst ins = Some d" "d \<le> 32" "d \<noteq> 0"
    using decode_total [of ins] by blast
  then have "reserved_instr ins \<Longrightarrow> d = NONE_REG" using reserved_no_dst [of ins] by simp
  with abd show ?thesis by (intro exI [of _ a] exI [of _ b] exI [of _ d]) simp
qed

text \<open>
  (C24) The branches \<open>BEQ\<close>, \<open>BNE\<close>, \<open>BLEZ\<close>, \<open>BGTZ\<close>, \<open>BLTZ\<close>, \<open>BGEZ\<close> and \<open>BGEZAL\<close> in the ID stage transfer control
  as the architecture says: the next instruction fetched after the delay slot is at the branch
  target when the condition holds on the operands, as signed numbers, and at the following address
  otherwise, the instruction in the IF stage is marked as a delay slot when the branch is taken, and
  \<open>BGEZAL\<close> has the address after the delay slot as its result, taken or not. \<open>BLTZAL\<close>, which misses its
  target, and the branches of the coprocessors are not covered.
\<close>

theorem branch_transfers_control:
  assumes "stage ID_STAGE s = Some i" and "pregs s i = Some p"
    and "stage IF_STAGE s = Some j" and "pregs s j = Some q"
    and "operand_a ID_STAGE s = Some a" and "operand_b ID_STAGE s = Some b"
    and "branch_taken (p_instr p) a b = Some t" and "\<not> suspend s" and "\<not> exception_pending s"
  shows "\<exists>s'. decode hwip s = Some s' \<and>
    pc s' + 4 = (if t then p_pc p + 4 + push_bit 2 (imm p) else pc s + 4) \<and>
    map_option delay_slot (pregs s' j) = Some (t \<or> delay_slot q) \<and>
    (links (p_instr p) \<longrightarrow> map_option result (pregs s' i) = Some (p_pc p + 8))"
  using assms by (rule decode_branch)

definition branch_pipe :: "u32 \<Rightarrow> u32 \<Rightarrow> cpu" where
  "branch_pipe ins off = pipe_of [0 \<mapsto> PipelineRegs_new 0 0x104 0,
     1 \<mapsto> (PipelineRegs_new 1 0x100 ins)\<lparr>alu_src_a := ImmPtr 1, alu_src_b := ImmPtr 1, imm := off\<rparr>]"

lemma branch_pipe_simps:
  "stage ID_STAGE (branch_pipe ins off) = Some 1" "stage IF_STAGE (branch_pipe ins off) = Some 0"
  "pregs (branch_pipe ins off) 1 =
     Some ((PipelineRegs_new 1 0x100 ins)\<lparr>alu_src_a := ImmPtr 1, alu_src_b := ImmPtr 1, imm := off\<rparr>)"
  "pregs (branch_pipe ins off) 0 = Some (PipelineRegs_new 0 0x104 0)"
  "operand_a ID_STAGE (branch_pipe ins off) = Some off" "operand_b ID_STAGE (branch_pipe ins off) = Some off"
  "\<not> suspend (branch_pipe ins off)" "\<not> exception_pending (branch_pipe ins off)"
  by (simp_all add: branch_pipe_def operand_a_def operand_b_def stage_preg_def del: One_nat_def)

theorem branch_transfers_control_witness:
  "\<exists>s'. decode 0 (branch_pipe 0x10000003 3) = Some s' \<and> pc s' + 4 = 0x110"
proof -
  note b = branch_pipe_simps [of "0x10000003" 3]
  have "branch_taken (p_instr ((PipelineRegs_new 1 0x100 0x10000003)\<lparr>alu_src_a := ImmPtr 1,
      alu_src_b := ImmPtr 1, imm := 3\<rparr>)) 3 3 = Some True"
    by (simp add: branch_taken_def opcode_def PipelineRegs_new_def)
  from branch_transfers_control [OF b(1,3,2,4,5,6) this b(7,8), of 0]
  show ?thesis by (auto simp: PipelineRegs_new_def)
qed

text \<open>
  \<open>J\<close> and \<open>JAL\<close> go to the target field in the region of the delay slot, except that a target
  field of zero always goes to address 0: the subtraction of four binds tighter than the
  disjunction in the expression of the code.
\<close>

lemma jump_target_region:
  "jump_pc p + 4 = (if jumptarg (p_instr p) = 0 then 0
     else ((p_pc p + 4) AND 0xf0000000) OR push_bit 2 (jumptarg (p_instr p)))"
  using jump_target [of p] jump_target_zero [of p] by simp

text \<open>
  (C38) A taken \<open>BLTZAL\<close> goes one instruction beyond its architectural target.
\<close>

theorem bltzal_off_by_one:
  assumes "stage ID_STAGE s = Some i" and "pregs s i = Some p"
    and "stage IF_STAGE s = Some j" and "pregs s j = Some q"
    and "operand_a ID_STAGE s = Some a" and "sint a < 0"
  shows "\<exists>s'. bltzal_exec s = Some s' \<and> pc s' + 4 = p_pc p + 8 + push_bit 2 (imm p)"
  using assms by (rule bltzal_target)

theorem bltzal_off_by_one_witness:
  "\<exists>s'. bltzal_exec (branch_pipe 0x04100000 (- 3)) = Some s' \<and> pc s' + 4 = 0xfc"
  using bltzal_off_by_one [OF branch_pipe_simps(1,3,2,4,5), of "- 3" "0x04100000"]
  by (simp add: PipelineRegs_new_def)

section \<open>Exceptions\<close>

text \<open>
  (C23) Exception entry of an instruction whose buffer is not empty, for the exception recorded last (the
  comment in the code asks for the one of the highest priority): the coprocessor enters the
  exception with the address of the instruction, or of the branch before it, execution continues
  at the vector of the cause, every stage holds a bubble, registers and memory are unchanged, and
  the bus is free. Each cache has to be idle or to work on a request that no exception has abandoned
  before: the request of a cache at work is deleted here, and a second time would be an error.
\<close>

theorem exception_entry_flushes:
  assumes "pregs s i = Some p" and "excBuf p \<noteq> []" and "length (PL_REGS s) = 5"
    and "icache s = Some ic" and "dcache s = Some dc"
    and "status ic = CACHE_IDLE \<or> cache_op_state ic \<noteq> None \<and> \<not> op_deleted ic"
    and "status dc = CACHE_IDLE \<or> cache_op_state dc \<noteq> None \<and> \<not> op_deleted dc"
  shows "\<exists>s'. exc_handle now hwip i s = Some s' \<and>
    (let e = last (excBuf p);
         z = enter_exception hwip (if delay_slot p then p_pc p - 4 else p_pc p)
               (word_of_int (excCode e)) (word_of_int (coprocno e)) False (cp0 s)
     in cp0 s' = z \<and> pc s' + 4 = exc_vector (excCode e) z) \<and>
    (\<forall>k < 5. \<exists>q. stage_preg k s' = Some q \<and> bubble q) \<and>
    reg s' = reg s \<and> hi_reg s' = hi_reg s \<and> lo_reg s' = lo_reg s \<and>
    mem_view (memsys s') = mem_view (memsys s) \<and> bus_holder (bus_arbiter (memsys s')) \<noteq> Some (cpu_client s)"
  using assms by (rule exc_handle_spec)

theorem exception_entry_flushes_witness:
  "let s = pipe_of [4 \<mapsto> (PipelineRegs_new 4 0x100 0)\<lparr>excBuf := [exc_req Exc_Sys ANY_MODE]\<rparr>]
   in \<exists>s'. exc_handle 3 0 4 s = Some s' \<and> reg s' = reg s"
proof -
  let ?p = "(PipelineRegs_new 4 0x100 0)\<lparr>excBuf := [exc_req Exc_Sys ANY_MODE]\<rparr>"
  let ?s = "pipe_of [4 \<mapsto> ?p]"
  have "pregs ?s 4 = Some ?p" "excBuf ?p \<noteq> []" "status tiny_cache = CACHE_IDLE \<or> cache_op_state tiny_cache \<noteq> None \<and> \<not> op_deleted tiny_cache"
    by (simp_all add: tiny_cache_simps)
  from exception_entry_flushes [OF this(1,2) pipe_of_simps(10,11,12) this(3) this(3), of 3 0]
  show ?thesis by (auto simp: Let_def)
qed

text \<open>
  Of several exceptions of one instruction the last one recorded is taken, whatever their
  priorities: the selection loop never updates the priority it compares with.
\<close>

lemma exception_selection:
  "select_exc es = (if es = [] then None else Some (last es)) \<and>
   exception_priority Exc_AdEL DATALOAD \<noteq> exception_priority Exc_Int ANY_MODE"
  using select_exc_last by (simp add: exception_priority_def prio_table_def)

end
