(* ===== verification/Router.thy ===== *)
theory Router
  imports Prelude
begin

unbundle bit_operations_syntax

text \<open>
  \<open>router.h\<close> and \<open>router.cc\<close>: the virtual-channel router of a chip in the stack. A router has a
  port to its own core (local) and one to the chip above and below. A flit received on a port is
  queued per virtual channel by the input channel, which computes the output port, asks for the
  grant among its virtual channels and for the output at the crossbar, and then sends the packet
  flit by flit; the output channel sends one flit per cycle and returns acknowledgements that give
  the sender its buffer credits back.

  The objects of a router are fields of one record, functions of the port they belong to; a port
  object is the queue of the flits it received. Following the connections, a step returns the flits
  its three masters send. \<open>now\<close> is \<open>machine->num_cycles\<close>. Calls of \<open>abort()\<close>, accesses outside an
  array and \<open>front()\<close> of an empty queue are the result \<^const>\<open>None\<close>. Fields a constructor does not
  set keep the value they have in the record it starts from. Messages are left out.
\<close>

section \<open>Flits (RouterUtils)\<close>

abbreviation (input) FTYPE_IDLE :: u32 where "FTYPE_IDLE \<equiv> 0"
abbreviation (input) FTYPE_HEAD :: u32 where "FTYPE_HEAD \<equiv> 1"
abbreviation (input) FTYPE_TAIL :: u32 where "FTYPE_TAIL \<equiv> 2"
abbreviation (input) FTYPE_HEADTAIL :: u32 where "FTYPE_HEADTAIL \<equiv> 3"
abbreviation (input) FTYPE_DATA :: u32 where "FTYPE_DATA \<equiv> 4"
abbreviation (input) FTYPE_ACK1 :: u32 where "FTYPE_ACK1 \<equiv> 6"
abbreviation (input) FTYPE_ACK2 :: u32 where "FTYPE_ACK2 \<equiv> 7"
abbreviation (input) MTYPE_SW :: u32 where "MTYPE_SW \<equiv> 1"
abbreviation (input) MTYPE_BW :: u32 where "MTYPE_BW \<equiv> 2"
abbreviation (input) MTYPE_SR :: u32 where "MTYPE_SR \<equiv> 3"
abbreviation (input) MTYPE_BR :: u32 where "MTYPE_BR \<equiv> 4"
abbreviation (input) MTYPE_DONE :: u32 where "MTYPE_DONE \<equiv> 7"
abbreviation (input) FLIT_DST_MASK :: u32 where "FLIT_DST_MASK \<equiv> 0x3"
abbreviation (input) FLIT_SRC_LSB :: nat where "FLIT_SRC_LSB \<equiv> 2"
abbreviation (input) FLIT_SRC_MASK :: u32 where "FLIT_SRC_MASK \<equiv> 0xC"
abbreviation (input) FLIT_VCH_LSB :: nat where "FLIT_VCH_LSB \<equiv> 4"
abbreviation (input) FLIT_VCH_MASK :: u32 where "FLIT_VCH_MASK \<equiv> 0x70"
abbreviation (input) FLIT_MT_LSB :: nat where "FLIT_MT_LSB \<equiv> 7"
abbreviation (input) FLIT_MT_MASK :: u32 where "FLIT_MT_MASK \<equiv> 0x380"
abbreviation (input) FLIT_MEMA_LSB :: nat where "FLIT_MEMA_LSB \<equiv> 10"
abbreviation (input) FLIT_ACK_CNT_BIT :: nat where "FLIT_ACK_CNT_BIT \<equiv> 4"
abbreviation (input) ACK_COUNT_MAX :: int where "ACK_COUNT_MAX \<equiv> 15"
abbreviation (input) VCH_SIZE :: nat where "VCH_SIZE \<equiv> 8"
abbreviation (input) ACK_VCH :: nat where "ACK_VCH \<equiv> 0"
abbreviation (input) VC_STATE_RC :: nat where "VC_STATE_RC \<equiv> 0"
abbreviation (input) VC_STATE_VSA :: nat where "VC_STATE_VSA \<equiv> 1"
abbreviation (input) VC_STATE_ST :: nat where "VC_STATE_ST \<equiv> 2"
abbreviation (input) LOCAL_PORT :: u32 where "LOCAL_PORT \<equiv> 0"
abbreviation (input) LOWER_PORT :: u32 where "LOWER_PORT \<equiv> 1"
abbreviation (input) UPPER_PORT :: u32 where "UPPER_PORT \<equiv> 2"

record flit =
  ftype :: u32
  fdata :: u32

record flit_entry =
  e_flit :: flit
  e_vch :: nat

definition make_head_flit :: "u32 \<Rightarrow> u32 \<Rightarrow> u32 \<Rightarrow> u32 \<Rightarrow> u32 \<Rightarrow> bool \<Rightarrow> flit" where
  "make_head_flit addr mtype vch src dst tail =
     \<lparr>ftype = (if tail then FTYPE_HEADTAIL else FTYPE_HEAD),
      fdata = push_bit FLIT_MEMA_LSB addr + (push_bit FLIT_MT_LSB mtype AND FLIT_MT_MASK) +
        (push_bit FLIT_SRC_LSB src AND FLIT_SRC_MASK) + (push_bit FLIT_VCH_LSB vch AND FLIT_VCH_MASK) +
        (dst AND FLIT_DST_MASK)\<rparr>"

definition make_data_flit :: "u32 \<Rightarrow> bool \<Rightarrow> flit" where
  "make_data_flit d tail = \<lparr>ftype = (if tail then FTYPE_TAIL else FTYPE_DATA), fdata = d\<rparr>"

text \<open>\<open>cnt\<close> points at the first of four counters.\<close>

definition make_ack_flit :: "u32 \<Rightarrow> int list \<Rightarrow> flit" where
  "make_ack_flit ft cnt =
     \<lparr>ftype = ft,
      fdata = foldl (\<lambda>d i. d OR push_bit (FLIT_ACK_CNT_BIT * i)
          (if cnt ! i \<ge> 16 then 15 else word_of_int (cnt ! i) AND 15)) 0 [0..<4]\<rparr>"

definition decode_headflit :: "flit \<Rightarrow> u32 \<times> u32 \<times> u32 \<times> u32 \<times> u32" where
  "decode_headflit f =
     (if ftype f = FTYPE_HEAD \<or> ftype f = FTYPE_HEADTAIL then
        (drop_bit FLIT_MEMA_LSB (fdata f),
         drop_bit FLIT_MT_LSB (fdata f AND FLIT_MT_MASK),
         drop_bit FLIT_VCH_LSB (fdata f AND FLIT_VCH_MASK),
         drop_bit FLIT_SRC_LSB (fdata f AND FLIT_SRC_MASK),
         fdata f AND FLIT_DST_MASK)
      else (0, 0, 0, 0, 0))"

definition decode_ack :: "flit \<Rightarrow> int list" where
  "decode_ack f =
     (let offset = (if ftype f = FTYPE_ACK2 then VCH_SIZE div 2 else 0)
      in foldl (\<lambda>cnt i. cnt[i + offset := uint (drop_bit (FLIT_ACK_CNT_BIT * i) (fdata f) AND 15)])
           (replicate VCH_SIZE 0) [0..<VCH_SIZE div 2])"

definition extractDst :: "flit \<Rightarrow> u32" where
  "extractDst f = fdata f AND FLIT_DST_MASK"

definition is_ack :: "flit \<Rightarrow> bool" where
  "is_ack f \<longleftrightarrow> ftype f = FTYPE_ACK1 \<or> ftype f = FTYPE_ACK2"

section \<open>Ports\<close>

text \<open>The queue of a \<open>RouterPortSlave\<close>, and the ready signals registered with it, if any.\<close>

definition port_isReady :: "bool list option \<Rightarrow> nat \<Rightarrow> bool option" where
  "port_isReady rdy vch =
     (case rdy of None \<Rightarrow> Some True | Some bs \<Rightarrow> if vch < length bs then Some (bs ! vch) else None)"

definition port_pushData :: "flit \<Rightarrow> nat \<Rightarrow> flit_entry list \<Rightarrow> flit_entry list" where
  "port_pushData f vch q = q @ [\<lparr>e_flit = f, e_vch = vch\<rparr>]"

definition port_haveData :: "flit_entry list \<Rightarrow> bool" where
  "port_haveData q \<longleftrightarrow> q \<noteq> []"

fun port_getData :: "flit_entry list \<Rightarrow> (flit \<times> nat \<times> flit_entry list) option" where
  "port_getData [] = None"
| "port_getData (e # q) = Some (e_flit e, e_vch e, q)"

section \<open>State of a router\<close>

datatype dir = Local | Lower | Upper

record input_channel =
  vc_state :: "nat list"
  vc_next_state :: "nat list"
  vc_last_state_update_time :: "u32 list"
  granted_vc :: nat
  grant_release_time :: u32
  request_pending :: "bool list"
  holding :: bool
  ibuf :: "flit list list"
  send_port :: "u32 list"
  ic_bufMaxSize :: int
  ic_packetMaxSize :: int

record output_channel =
  oc_readyStat :: "bool list"
  obuf :: "flit_entry list"
  ackEnabled :: bool
  iackbuf :: "flit list"
  send_count :: "int list"
  ack_count :: "int list"
  oc_bufMaxSize :: int
  oc_packetMaxSize :: int
  send_flit_count :: int

text \<open>
  \<open>rx d\<close> is the queue of the slave port of direction \<open>d\<close>. The maps of the crossbar from channels to
  channels and flags are functions of the direction: \<open>oc_last_sender d\<close> is the input channel that
  owns the output \<open>d\<close>, and \<open>ic_oc_map\<close> takes an input channel to the output channel of its port.
\<close>

record router =
  router_id :: u32
  ic :: "dir \<Rightarrow> input_channel"
  oc :: "dir \<Rightarrow> output_channel"
  rx :: "dir \<Rightarrow> flit_entry list"
  icLocalRdy :: "bool list"
  oc_last_sender :: "dir \<Rightarrow> dir option"
  close_pending :: "dir \<Rightarrow> bool"
  sender_update_time :: u32

definition port_of :: "u32 \<Rightarrow> dir option" where
  "port_of p = (if p = LOCAL_PORT then Some Local else if p = LOWER_PORT then Some Lower
     else if p = UPPER_PORT then Some Upper else None)"

section \<open>Output channels\<close>

definition OutputChannel_new :: "int \<Rightarrow> int \<Rightarrow> bool \<Rightarrow> output_channel \<Rightarrow> output_channel" where
  "OutputChannel_new vcbufsize dcachebsize ackEn c =
     c\<lparr>ackEnabled := ackEn, oc_bufMaxSize := vcbufsize, oc_packetMaxSize := dcachebsize div 4 + 1\<rparr>"

definition OutputChannel_reset :: "output_channel \<Rightarrow> output_channel" where
  "OutputChannel_reset c =
     c\<lparr>obuf := [], iackbuf := [], oc_readyStat := replicate VCH_SIZE True,
       send_count := replicate VCH_SIZE 0, ack_count := replicate VCH_SIZE 0, send_flit_count := 0\<rparr>"

definition ackFormer :: "u32 \<Rightarrow> bool" where
  "ackFormer now \<longleftrightarrow> now mod 2 = 0"

text \<open>
  The acknowledgements of four channels starting at \<open>base\<close>. The second branch of the code, for the
  upper four channels, does not subtract what it sent from a counter above the maximum.
\<close>

definition ack_half :: "nat \<Rightarrow> u32 \<Rightarrow> (int \<Rightarrow> int) \<Rightarrow> output_channel \<Rightarrow> flit_entry list \<times> output_channel" where
  "ack_half base ft after c =
     (if \<exists>i \<in> set [base..<base + 4]. ack_count c ! i \<noteq> 0 then
        ([\<lparr>e_flit = make_ack_flit ft (drop base (ack_count c)), e_vch = ACK_VCH\<rparr>],
         c\<lparr>send_flit_count := send_flit_count c + 1,
           ack_count := foldl (\<lambda>a i. a[i := after (a ! i)]) (ack_count c) [base..<base + 4]\<rparr>)
      else ([], c))"

definition ackSend :: "u32 \<Rightarrow> output_channel \<Rightarrow> flit_entry list \<times> output_channel" where
  "ackSend now c =
     (if ackFormer now
      then ack_half 0 FTYPE_ACK1 (\<lambda>n. if n > ACK_COUNT_MAX then n - ACK_COUNT_MAX else 0) c
      else ack_half (VCH_SIZE div 2) FTYPE_ACK2 (\<lambda>n. if n > ACK_COUNT_MAX then n else 0) c)"

text \<open>\<open>oc_send\<close> is the first part of \<open>OutputChannel::step\<close>; the list holds the flit sent, if any.\<close>

definition oc_send :: "u32 \<Rightarrow> output_channel \<Rightarrow> (flit_entry list \<times> bool \<times> output_channel) option" where
  "oc_send now c =
     (case obuf c of
        e # q \<Rightarrow>
          let c1 = c\<lparr>send_flit_count := send_flit_count c + 1, obuf := q\<rparr>
          in if \<not> ackEnabled c then Some ([e], False, c1)
             else do {
               check (e_vch e < length (send_count c1));
               Some ([e], True, c1\<lparr>send_count := (send_count c1)[e_vch e := send_count c1 ! e_vch e + 1]\<rparr>)
             }
      | [] \<Rightarrow> let (out, c1) = (if ackEnabled c then ackSend now c else ([], c)) in Some (out, False, c1))"

definition oc_credit :: "output_channel \<Rightarrow> bool \<times> output_channel" where
  "oc_credit c =
     (case iackbuf c of
        [] \<Rightarrow> (False, c)
      | f # q \<Rightarrow> (True, c\<lparr>iackbuf := q, send_count := map2 (-) (send_count c) (decode_ack f)\<rparr>))"

definition OutputChannel_step :: "u32 \<Rightarrow> output_channel \<Rightarrow> (flit_entry list \<times> output_channel) option" where
  "OutputChannel_step now c = do {
     (out, changed1, c1) \<leftarrow> oc_send now c;
     let (changed2, c2) = oc_credit c1;
     Some (out, if (changed1 \<or> changed2) \<and> ackEnabled c2
       then c2\<lparr>oc_readyStat := map (\<lambda>n. oc_bufMaxSize c2 - n \<ge> oc_packetMaxSize c2) (send_count c2)\<rparr>
       else c2)
   }"

definition oc_pushData :: "flit \<Rightarrow> nat \<Rightarrow> output_channel \<Rightarrow> output_channel" where
  "oc_pushData f vch c = c\<lparr>obuf := obuf c @ [\<lparr>e_flit = f, e_vch = vch\<rparr>]\<rparr>"

definition oc_pushAck :: "flit \<Rightarrow> output_channel \<Rightarrow> output_channel" where
  "oc_pushAck f c = c\<lparr>iackbuf := iackbuf c @ [f]\<rparr>"

definition ackIncrement :: "nat \<Rightarrow> output_channel \<Rightarrow> output_channel" where
  "ackIncrement vch c = c\<lparr>ack_count := (ack_count c)[vch := ack_count c ! vch + 1]\<rparr>"

definition ocReady :: "nat \<Rightarrow> output_channel \<Rightarrow> bool" where
  "ocReady vch c = (if ackEnabled c then oc_readyStat c ! vch else True)"

section \<open>Crossbar\<close>

definition upd_oc :: "dir \<Rightarrow> (output_channel \<Rightarrow> output_channel) \<Rightarrow> router \<Rightarrow> router" where
  "upd_oc d f r = r\<lparr>oc := (oc r)(d := f (oc r d))\<rparr>"

definition Crossbar_reset :: "u32 \<Rightarrow> router \<Rightarrow> router" where
  "Crossbar_reset now r =
     r\<lparr>sender_update_time := now, oc_last_sender := \<lambda>d. None, close_pending := \<lambda>d. False\<rparr>"

definition Crossbar_step :: "router \<Rightarrow> router" where
  "Crossbar_step r =
     r\<lparr>oc_last_sender := \<lambda>d. if close_pending r d then None else oc_last_sender r d,
       close_pending := \<lambda>d. False\<rparr>"

definition Crossbar_send :: "dir \<Rightarrow> flit \<Rightarrow> nat \<Rightarrow> u32 \<Rightarrow> router \<Rightarrow> router option" where
  "Crossbar_send d f vch port r = do {
     o' \<leftarrow> port_of port;
     Some (upd_oc d (ackIncrement vch) (upd_oc o' (oc_pushData f vch) r))
   }"

definition Crossbar_ready :: "dir \<Rightarrow> nat \<Rightarrow> u32 \<Rightarrow> router \<Rightarrow> (bool \<times> router) option" where
  "Crossbar_ready d vch port r = do {
     o' \<leftarrow> port_of port;
     Some (if ocReady vch (oc r o') then
             let r1 = (if oc_last_sender r o' = None
                       then r\<lparr>oc_last_sender := (oc_last_sender r)(o' := Some d)\<rparr> else r)
             in (oc_last_sender r1 o' = Some d, r1)
           else (False, r))
   }"

definition Crossbar_close :: "u32 \<Rightarrow> router \<Rightarrow> router option" where
  "Crossbar_close port r = do {
     o' \<leftarrow> port_of port;
     Some (r\<lparr>close_pending := (close_pending r)(o' := True)\<rparr>)
   }"

definition forwardAck :: "dir \<Rightarrow> flit \<Rightarrow> router \<Rightarrow> router" where
  "forwardAck d f r = upd_oc d (oc_pushAck f) r"

section \<open>Input channels\<close>

definition upd_ic :: "dir \<Rightarrow> (input_channel \<Rightarrow> input_channel) \<Rightarrow> router \<Rightarrow> router" where
  "upd_ic d f r = r\<lparr>ic := (ic r)(d := f (ic r d))\<rparr>"

definition InputChannel_new :: "int \<Rightarrow> int \<Rightarrow> input_channel \<Rightarrow> input_channel" where
  "InputChannel_new vcbufsize dcachebsize c =
     c\<lparr>vc_last_state_update_time := replicate VCH_SIZE 0, ic_bufMaxSize := vcbufsize,
       ic_packetMaxSize := dcachebsize div 4 + 1\<rparr>"

definition ic_reset :: "u32 \<Rightarrow> input_channel \<Rightarrow> input_channel" where
  "ic_reset now c =
     c\<lparr>ibuf := replicate VCH_SIZE [], vc_state := replicate VCH_SIZE VC_STATE_RC,
       vc_next_state := replicate VCH_SIZE VC_STATE_RC, request_pending := replicate VCH_SIZE False,
       granted_vc := 0, holding := False, grant_release_time := now\<rparr>"

definition InputChannel_reset :: "u32 \<Rightarrow> dir \<Rightarrow> router \<Rightarrow> router" where
  "InputChannel_reset now d r =
     (let r1 = (upd_ic d (ic_reset now) r)\<lparr>rx := (rx r)(d := [])\<rparr>
      in if d = Local then r1\<lparr>icLocalRdy := replicate VCH_SIZE True\<rparr> else r1)"

definition rtcomp :: "u32 \<Rightarrow> u32 \<Rightarrow> u32" where
  "rtcomp xpos dst = (if dst = xpos then LOCAL_PORT else if dst > xpos then LOWER_PORT else UPPER_PORT)"

definition isGranted :: "nat \<Rightarrow> input_channel \<Rightarrow> bool" where
  "isGranted vch c \<longleftrightarrow> granted_vc c = vch"

definition ic_hold :: "input_channel \<Rightarrow> input_channel" where
  "ic_hold c = c\<lparr>holding := True\<rparr>"

definition ic_release :: "u32 \<Rightarrow> input_channel \<Rightarrow> input_channel" where
  "ic_release now c = c\<lparr>holding := False, grant_release_time := now\<rparr>"

definition ic_request :: "nat \<Rightarrow> input_channel \<Rightarrow> input_channel" where
  "ic_request i c = c\<lparr>request_pending := (request_pending c)[i := True]\<rparr>"

definition set_next :: "nat \<Rightarrow> nat \<Rightarrow> input_channel \<Rightarrow> input_channel" where
  "set_next i st c = c\<lparr>vc_next_state := (vc_next_state c)[i := st]\<rparr>"

definition pop_ibuf :: "nat \<Rightarrow> input_channel \<Rightarrow> input_channel" where
  "pop_ibuf i c = c\<lparr>ibuf := (ibuf c)[i := tl (ibuf c ! i)]\<rparr>"

text \<open>
  The body of the loop over the virtual channels: the three states of the switch, with the flag
  \<open>vc_hold\<close> that one virtual channel passes to the next. Both operands of the \<open>&\<close> in the second
  state are evaluated, so the crossbar is asked, and may reserve the output, without the grant.
\<close>

definition vc_st :: "u32 \<Rightarrow> dir \<Rightarrow> nat \<Rightarrow> flit \<Rightarrow> router \<Rightarrow> router option" where
  "vc_st now d i f r =
     (if vc_next_state (ic r d) ! i \<noteq> VC_STATE_RC then do {
        let port = send_port (ic r d) ! i;
        r2 \<leftarrow> Crossbar_send d f i port (upd_ic d (pop_ibuf i) r);
        if ftype f = FTYPE_HEADTAIL \<or> ftype f = FTYPE_TAIL then
          Crossbar_close port (upd_ic d (\<lambda>c. ic_release now (set_next i VC_STATE_RC c)) r2)
        else Some r2
      } else Some r)"

definition vc_vsa :: "dir \<Rightarrow> nat \<Rightarrow> bool \<Rightarrow> router \<Rightarrow> (bool \<times> router) option" where
  "vc_vsa d i vc_hold r =
     (if \<not> isGranted i (ic r d) \<and> \<not> vc_hold then Some (True, upd_ic d (ic_request i) r)
      else do {
        (rdy, r1) \<leftarrow> Crossbar_ready d i (send_port (ic r d) ! i) r;
        if isGranted i (ic r d) \<and> rdy
        then Some (True, upd_ic d (\<lambda>c. ic_hold (set_next i VC_STATE_ST c)) r1)
        else Some (vc_hold, r1)
      })"

definition vc_rc :: "dir \<Rightarrow> nat \<Rightarrow> flit \<Rightarrow> router \<Rightarrow> router" where
  "vc_rc d i f r =
     (if ftype f = FTYPE_HEAD \<or> ftype f = FTYPE_HEADTAIL
      then upd_ic d (\<lambda>c. (set_next i VC_STATE_VSA c)
             \<lparr>send_port := (send_port c)[i := rtcomp (router_id r) (extractDst f)]\<rparr>) r
      else r)"

definition vc_switch :: "u32 \<Rightarrow> dir \<Rightarrow> nat \<Rightarrow> bool \<Rightarrow> router \<Rightarrow> (bool \<times> router) option" where
  "vc_switch now d i vc_hold r =
     (case ibuf (ic r d) ! i of
        [] \<Rightarrow> Some (vc_hold, r)
      | f # q \<Rightarrow>
          if is_ack f then Some (vc_hold, upd_ic d (pop_ibuf i) (forwardAck d f r))
          else if vc_state (ic r d) ! i = VC_STATE_ST then map_option (Pair True) (vc_st now d i f r)
          else if vc_state (ic r d) ! i = VC_STATE_VSA then vc_vsa d i vc_hold r
          else if vc_state (ic r d) ! i = VC_STATE_RC then Some (vc_hold, vc_rc d i f r)
          else Some (vc_hold, r))"

definition vc_update :: "u32 \<Rightarrow> nat \<Rightarrow> input_channel \<Rightarrow> input_channel" where
  "vc_update now i c =
     (if sint now > sint (vc_last_state_update_time c ! i)
      then c\<lparr>vc_state := (vc_state c)[i := vc_next_state c ! i],
             vc_last_state_update_time := (vc_last_state_update_time c)[i := now]\<rparr>
      else c)"

primrec vc_loop :: "u32 \<Rightarrow> dir \<Rightarrow> nat list \<Rightarrow> bool \<Rightarrow> router \<Rightarrow> router option" where
  "vc_loop now d [] vc_hold r = Some r"
| "vc_loop now d (i # is) vc_hold r = do {
     (h, r1) \<leftarrow> vc_switch now d i vc_hold r;
     vc_loop now d is h (upd_ic d (vc_update now i) r1)
   }"

definition ic_receive :: "dir \<Rightarrow> router \<Rightarrow> router option" where
  "ic_receive d r =
     (case rx r d of
        [] \<Rightarrow> Some r
      | e # q \<Rightarrow> do {
          check (e_vch e < VCH_SIZE);
          Some ((upd_ic d (\<lambda>c. c\<lparr>ibuf := (ibuf c)[e_vch e := ibuf c ! e_vch e @ [e_flit e]]\<rparr>) r)
                  \<lparr>rx := (rx r)(d := q)\<rparr>)
        })"

text \<open>
  The ready signals of the local port: the difference of an \<open>int\<close> and a \<open>size_t\<close> is computed
  without a sign in 64 bits, so it is large when the queue is longer than the buffer.
\<close>

definition ic_space :: "input_channel \<Rightarrow> nat \<Rightarrow> bool" where
  "ic_space c i \<longleftrightarrow>
     (word_of_int (ic_bufMaxSize c) - of_nat (length (ibuf c ! i)) :: 64 word) \<ge> word_of_int (ic_packetMaxSize c)"

definition ic_ordy :: "dir \<Rightarrow> router \<Rightarrow> router" where
  "ic_ordy d r =
     (if d = Local then r\<lparr>icLocalRdy := map (ic_space (ic r d)) [0..<VCH_SIZE]\<rparr> else r)"

definition ic_arbitrate :: "u32 \<Rightarrow> input_channel \<Rightarrow> input_channel" where
  "ic_arbitrate now c =
     (if \<not> holding c \<and> now > grant_release_time c then
        (case filter (\<lambda>i. request_pending c ! i) [0..<VCH_SIZE] of
           [] \<Rightarrow> c
         | i # is \<Rightarrow> c\<lparr>request_pending := (request_pending c)[i := False], granted_vc := i\<rparr>)
      else c)"

definition InputChannel_step :: "u32 \<Rightarrow> dir \<Rightarrow> router \<Rightarrow> router option" where
  "InputChannel_step now d r = do {
     r1 \<leftarrow> vc_loop now d [0..<VCH_SIZE] False r;
     r2 \<leftarrow> ic_receive d r1;
     Some (upd_ic d (ic_arbitrate now) (ic_ordy d r2))
   }"

section \<open>Routers\<close>

definition Router_new :: "int \<Rightarrow> int \<Rightarrow> u32 \<Rightarrow> router \<Rightarrow> router" where
  "Router_new vcbufsize dcachebsize myid r =
     r\<lparr>router_id := myid, rx := \<lambda>d. [],
       ic := \<lambda>d. InputChannel_new vcbufsize dcachebsize (ic r d),
       oc := \<lambda>d. OutputChannel_new vcbufsize dcachebsize (d \<noteq> Local) (oc r d)\<rparr>"

definition Router_reset :: "u32 \<Rightarrow> router \<Rightarrow> router" where
  "Router_reset now r =
     (let r1 = foldl (\<lambda>r d. InputChannel_reset now d r) r [Local, Upper, Lower];
          r2 = Crossbar_reset now r1
      in foldl (\<lambda>r d. upd_oc d OutputChannel_reset r) r2 [Local, Upper, Lower])"

definition oc_step_at :: "u32 \<Rightarrow> dir \<Rightarrow> router \<Rightarrow> (flit_entry list \<times> router) option" where
  "oc_step_at now d r =
     map_option (\<lambda>(out, c). (out, upd_oc d (\<lambda>_. c) r)) (OutputChannel_step now (oc r d))"

text \<open>The flits a step sends, per master port.\<close>

definition Router_step :: "u32 \<Rightarrow> router \<Rightarrow> ((dir \<Rightarrow> flit_entry list) \<times> router) option" where
  "Router_step now r = do {
     (ol, r1) \<leftarrow> oc_step_at now Local r;
     (ou, r2) \<leftarrow> oc_step_at now Upper r1;
     (od, r3) \<leftarrow> oc_step_at now Lower r2;
     r4 \<leftarrow> InputChannel_step now Local r3;
     r5 \<leftarrow> InputChannel_step now Upper r4;
     r6 \<leftarrow> InputChannel_step now Lower r5;
     Some (\<lambda>d. (case d of Local \<Rightarrow> ol | Upper \<Rightarrow> ou | Lower \<Rightarrow> od), Crossbar_step r6)
   }"

definition setID :: "u32 \<Rightarrow> router \<Rightarrow> router" where
  "setID i r = r\<lparr>router_id := i\<rparr>"

lemmas router_defs [cube_defs] =
  make_head_flit_def make_data_flit_def make_ack_flit_def decode_headflit_def decode_ack_def extractDst_def
  is_ack_def port_isReady_def port_pushData_def port_haveData_def port_of_def OutputChannel_new_def
  OutputChannel_reset_def ackFormer_def ack_half_def ackSend_def oc_send_def oc_credit_def
  OutputChannel_step_def oc_pushData_def oc_pushAck_def ackIncrement_def ocReady_def upd_oc_def
  Crossbar_reset_def Crossbar_step_def Crossbar_send_def Crossbar_ready_def Crossbar_close_def
  forwardAck_def upd_ic_def InputChannel_new_def ic_reset_def InputChannel_reset_def rtcomp_def
  isGranted_def ic_hold_def ic_release_def ic_request_def set_next_def pop_ibuf_def vc_st_def vc_vsa_def
  vc_rc_def vc_switch_def vc_update_def ic_receive_def ic_space_def ic_ordy_def ic_arbitrate_def
  InputChannel_step_def Router_new_def Router_reset_def oc_step_at_def Router_step_def setID_def

end
