(* ===== verification/Router_Facts.thy ===== *)
theory Router_Facts
  imports Router "HOL-Library.Multiset"
begin

unbundle bit_operations_syntax

text \<open>
  Facts about the router: the flit formats, the routing function, the conservation of flits, the
  exclusive use of an output by the owner of a packet, and the buffer credits.
\<close>

section \<open>Flit formats\<close>

lemma fields_or:
  fixes a m v s d :: u32
  shows "push_bit 10 a + (push_bit 7 m AND 0x380) + (push_bit 2 s AND 0xC) + (push_bit 4 v AND 0x70) + (d AND 0x3) =
    (((push_bit 10 a OR (push_bit 7 m AND 0x380)) OR (push_bit 2 s AND 0xC)) OR (push_bit 4 v AND 0x70)) OR (d AND 0x3)"
proof -
  have "push_bit 10 a AND (push_bit 7 m AND 0x380) = 0"
    "(push_bit 10 a OR (push_bit 7 m AND 0x380)) AND (push_bit 2 s AND 0xC) = 0"
    "((push_bit 10 a OR (push_bit 7 m AND 0x380)) OR (push_bit 2 s AND 0xC)) AND (push_bit 4 v AND 0x70) = 0"
    "(((push_bit 10 a OR (push_bit 7 m AND 0x380)) OR (push_bit 2 s AND 0xC)) OR (push_bit 4 v AND 0x70)) AND
      (d AND 0x3) = 0"
    by (simp_all add: bit_blast)
  then show ?thesis by (simp only: disjunctive_add_eq_or)
qed

lemma small_bits: "(x :: u32) < 2 ^ n \<Longrightarrow> n \<le> k \<Longrightarrow> \<not> bit x k"
proof
  assume a: "x < 2 ^ n" "n \<le> k" and b: "bit x k"
  have "unat x < unat ((2 :: u32) ^ n)" using a(1) by (simp add: word_less_nat_alt)
  also have "(2 :: u32) ^ n = of_nat (2 ^ n)" by simp
  also have "unat (of_nat (2 ^ n) :: u32) \<le> 2 ^ n" by (simp only: unat_of_nat mod_less_eq_dividend)
  also have "\<dots> \<le> 2 ^ k" using a(2) by simp
  finally have "unat x div 2 ^ k = 0" by simp
  moreover have "bit (unat x) k" using b by (simp add: bit_unsigned_iff)
  ultimately show False by (simp add: bit_iff_odd)
qed

lemma head_flit_decode:
  assumes "addr < 2 ^ 22" "mtype < 2 ^ 3" "vch < 2 ^ 3" "src < 2 ^ 2" "dst < 2 ^ 2"
  shows "decode_headflit (make_head_flit addr mtype vch src dst tail) = (addr, mtype, vch, src, dst)"
    "extractDst (make_head_flit addr mtype vch src dst tail) = dst"
proof -
  note s = small_bits [OF assms(1)] small_bits [OF assms(2)] small_bits [OF assms(3)] small_bits [OF assms(4)]
    small_bits [OF assms(5)]
  show "decode_headflit (make_head_flit addr mtype vch src dst tail) = (addr, mtype, vch, src, dst)"
    unfolding decode_headflit_def make_head_flit_def fields_or
    by (simp add: bit_blast s)
  show "extractDst (make_head_flit addr mtype vch src dst tail) = dst"
    unfolding extractDst_def make_head_flit_def fields_or
    by (simp add: bit_blast s)
qed

lemma fill_counters:
  "foldl (\<lambda>c i. c[i + 0 := g i]) (replicate 8 z) [0..<4] = map g [0..<4] @ replicate 4 z"
  "foldl (\<lambda>c i. c[i + 4 := g i]) (replicate 8 z) [0..<4] = replicate 4 z @ map g [0..<4]"
  by (simp_all add: upt_rec numeral_eq_Suc)

lemma decode_ack_map:
  "decode_ack f = (let xs = map (\<lambda>i. uint (drop_bit (4 * i) (fdata f) AND 15)) [0..<4]
     in if ftype f = FTYPE_ACK2 then replicate 4 0 @ xs else xs @ replicate 4 0)"
  using fill_counters [of "\<lambda>i. uint (drop_bit (4 * i) (fdata f) AND 15)" 0]
  by (simp add: decode_ack_def Let_def)

lemma ack_flit_decode:
  assumes "\<forall>i < 4. 0 \<le> cnt ! i"
  shows "decode_ack (make_ack_flit FTYPE_ACK1 cnt) = map (\<lambda>i. min (cnt ! i) 15) [0..<4] @ replicate 4 0"
    "decode_ack (make_ack_flit FTYPE_ACK2 cnt) = replicate 4 0 @ map (\<lambda>i. min (cnt ! i) 15) [0..<4]"
proof -
  define w where "w i = (word_of_int (min (cnt ! i) 15) :: u32)" for i
  have f: "(if cnt ! i \<ge> 16 then 15 else word_of_int (cnt ! i) AND 15) = w i" if "i < 4" for i
  proof (cases "cnt ! i \<ge> 16")
    case False
    then have "take_bit 4 (cnt ! i) = cnt ! i" using assms that by (simp add: take_bit_int_eq_self)
    then have c: "cnt ! i AND 15 = cnt ! i" by (simp add: take_bit_eq_mask mask_numeral)
    have "(word_of_int (cnt ! i) :: u32) AND 15 = word_of_int (cnt ! i AND 15)"
      by (simp add: of_int_and_eq)
    with False c show ?thesis by (simp add: w_def)
  qed (simp add: w_def)
  have v: "uint (w i) = min (cnt ! i) 15" if "i < 4" for i
    using assms that by (simp add: w_def uint_word_of_int)
  have b: "\<not> bit (w i) k" if "i < 4" "4 \<le> k" for i k
    using small_bits [of "w i" 4 k] that v [OF that(1)] by (simp add: word_less_def)
  have d: "fdata (make_ack_flit ft cnt) =
      ((w 0 OR push_bit 4 (w 1)) OR push_bit 8 (w 2)) OR push_bit 12 (w 3)" for ft
    by (simp add: make_ack_flit_def upt_rec f numeral_2_eq_2 numeral_3_eq_3)
  have x: "drop_bit (4 * i) (fdata (make_ack_flit ft cnt)) AND 15 = w i" if "i < 4" for i ft
  proof -
    have "\<forall>i < 4. drop_bit (4 * i) (fdata (make_ack_flit ft cnt)) AND 15 = w i"
      unfolding d by (simp add: bit_blast b) (simp add: numeral_2_eq_2 numeral_3_eq_3)
    with that show ?thesis by blast
  qed
  have t: "ftype (make_ack_flit ft cnt) = ft" for ft by (simp add: make_ack_flit_def)
  have "map (\<lambda>i. uint (drop_bit (4 * i) (fdata (make_ack_flit ft cnt)) AND 15)) [0..<4] =
      map (\<lambda>i. min (cnt ! i) 15) [0..<4]" for ft
    by (rule map_cong) (simp_all add: x v)
  then show "decode_ack (make_ack_flit FTYPE_ACK1 cnt) = map (\<lambda>i. min (cnt ! i) 15) [0..<4] @ replicate 4 0"
    "decode_ack (make_ack_flit FTYPE_ACK2 cnt) = replicate 4 0 @ map (\<lambda>i. min (cnt ! i) 15) [0..<4]"
    unfolding decode_ack_map Let_def t by simp_all
qed

section \<open>Routing\<close>

text \<open>The router the flit is at after one hop, in a stack whose nodes are numbered from the top.\<close>

definition hop :: "u32 \<Rightarrow> u32 \<Rightarrow> u32" where
  "hop dst x = (case port_of (rtcomp x dst) of Some Lower \<Rightarrow> x + 1 | Some Upper \<Rightarrow> x - 1 | _ \<Rightarrow> x)"

lemma rtcomp_port: "\<exists>d. port_of (rtcomp x dst) = Some d"
  by (simp add: rtcomp_def port_of_def)

lemma hop_cases:
  "hop dst x = (if dst = x then x else if dst > x then x + 1 else x - 1)"
  by (simp add: hop_def rtcomp_def port_of_def)

lemma hops_down:
  "uint dst = uint x + int n \<Longrightarrow> (hop dst ^^ n) x = dst \<and> (\<forall>k < n. uint ((hop dst ^^ k) x) = uint x + int k)"
proof (induction n arbitrary: x)
  case 0
  then show ?case by (simp add: word_uint_eq_iff)
next
  case (Suc n)
  have lt: "x < dst" "dst \<noteq> x" using Suc.prems by (auto simp: word_less_def word_uint_eq_iff)
  then have h: "hop dst x = x + 1" by (simp add: hop_cases)
  have "uint x + 1 < 2 ^ 32" using Suc.prems uint_lt2p [of dst] by simp
  then have u: "uint (x + 1) = uint x + 1" by (simp add: uint_word_ariths)
  then have "uint dst = uint (x + 1) + int n" using Suc.prems by simp
  note ih = Suc.IH [OF this]
  have "uint ((hop dst ^^ k) x) = uint x + int k" if "k < Suc n" for k
    using ih u h that by (cases k) (auto simp: funpow_Suc_right simp del: funpow.simps(2))
  then show ?case using ih h by (simp add: funpow_Suc_right del: funpow.simps(2))
qed

lemma hops_up:
  "uint x = uint dst + int n \<Longrightarrow> (hop dst ^^ n) x = dst \<and> (\<forall>k < n. uint ((hop dst ^^ k) x) = uint x - int k)"
proof (induction n arbitrary: x)
  case 0
  then show ?case by (simp add: word_uint_eq_iff)
next
  case (Suc n)
  have lt: "\<not> dst > x" "dst \<noteq> x" using Suc.prems by (auto simp: word_less_def word_uint_eq_iff)
  then have h: "hop dst x = x - 1" by (simp add: hop_cases)
  have "0 \<le> uint dst" "uint x < 2 ^ 32" using uint_lt2p [of x] by simp_all
  then have "0 < uint x" "uint x < 2 ^ 32" using Suc.prems by linarith+
  then have u: "uint (x - 1) = uint x - 1" by (simp add: uint_word_ariths)
  then have "uint (x - 1) = uint dst + int n" using Suc.prems by simp
  note ih = Suc.IH [OF this]
  have "uint ((hop dst ^^ k) x) = uint x - int k" if "k < Suc n" for k
    using ih u h that by (cases k) (auto simp: funpow_Suc_right simp del: funpow.simps(2))
  then show ?case using ih h by (simp add: funpow_Suc_right del: funpow.simps(2))
qed

section \<open>Acknowledgements\<close>

definition credits :: "flit_entry list \<Rightarrow> int list" where
  "credits out = (case out of [] \<Rightarrow> replicate 8 0 | e # _ \<Rightarrow> decode_ack (e_flit e))"

lemma foldl_after:
  assumes "length xs = 8"
  shows "foldl (\<lambda>a i. a[i := f (a ! i)]) xs [0..<4] = map f (take 4 xs) @ drop 4 xs"
    "foldl (\<lambda>a i. a[i := f (a ! i)]) xs [4..<8] = take 4 xs @ map f (drop 4 xs)"
proof -
  obtain a b c d e g h i where "xs = [a, b, c, d, e, g, h, i]"
    using assms by (auto simp: length_Suc_conv numeral_eq_Suc)
  then show "foldl (\<lambda>a i. a[i := f (a ! i)]) xs [0..<4] = map f (take 4 xs) @ drop 4 xs"
    "foldl (\<lambda>a i. a[i := f (a ! i)]) xs [4..<8] = take 4 xs @ map f (drop 4 xs)"
    by (simp_all add: upt_rec numeral_eq_Suc)
qed

text \<open>
  What is acknowledged is taken from the counters, except for a counter of the upper half above 15:
  15 are acknowledged and none taken off.
\<close>

lemma ackSend_credits:
  assumes len: "length (ack_count c) = 8" and pos: "\<forall>n \<in> set (ack_count c). 0 \<le> n"
    and a: "ackSend now c = (out, c')" and i: "i < 8"
  shows "credits out ! i + ack_count c' ! i =
    ack_count c ! i + (if now mod 2 \<noteq> 0 \<and> 4 \<le> i \<and> ack_count c ! i > 15 then 15 else 0)"
proof -
  have p: "\<forall>i < 8. 0 \<le> ack_count c ! i" using pos len by simp
  have sub: "4 \<le> i \<Longrightarrow> drop 4 (ack_count c) ! (i - 4) = ack_count c ! i" using len by simp
  note f1 = foldl_after(1) [OF len, of "\<lambda>n. if n > ACK_COUNT_MAX then n - ACK_COUNT_MAX else 0"]
    and f2 = foldl_after(2) [OF len, of "\<lambda>n. if n > ACK_COUNT_MAX then n else 0"]
  show ?thesis
  proof (cases "ackFormer now")
    case True
    have p0: "\<forall>i < 4. 0 \<le> ack_count c ! i" using p by simp
    show ?thesis
      using a True i p len ack_flit_decode(1) [OF p0]
      by (auto simp: ackSend_def ack_half_def ackFormer_def f1 credits_def nth_append split: if_splits)
  next
    case False
    have p4: "\<forall>i < 4. 0 \<le> drop 4 (ack_count c) ! i" using p len by simp
    let ?d = "drop 4 (ack_count c)" and ?F = "\<lambda>n. if n > ACK_COUNT_MAX then n else 0"
    show ?thesis
    proof (cases "out = []")
      case True
      then have "c' = c" using a False by (auto simp: ackSend_def ack_half_def split: if_splits)
      moreover have "\<forall>i \<in> set [4..<8]. ack_count c ! i = 0"
        using a False True by (auto simp: ackSend_def ack_half_def split: if_splits)
      moreover have "i = 4 \<or> i = 5 \<or> i = 6 \<or> i = 7" if "4 \<le> i" using i that by linarith
      ultimately show ?thesis using True i by (auto simp: credits_def)
    next
      case o: False
      have out: "credits out = replicate 4 0 @ map (\<lambda>i. min (?d ! i) 15) [0..<4]"
        "ack_count c' = take 4 (ack_count c) @ map ?F ?d"
        using a False o f2 ack_flit_decode(2) [OF p4]
        by (auto simp: ackSend_def ack_half_def credits_def split: if_splits)
      show ?thesis
      proof (cases "i < 4")
        case True
        then show ?thesis using len unfolding out by (simp add: nth_append)
      next
        case False
        then obtain k where k: "i = 4 + k" "k < 4" using i by (metis add_less_cancel_left le_Suc_ex not_less numeral_Bit0)
        then show ?thesis
          using len \<open>\<not> ackFormer now\<close> p unfolding out
          by (auto simp: nth_append ackFormer_def min_def)
      qed
    qed
  qed
qed

end
