(* ===== verification/Router_Flow.thy ===== *)
theory Router_Flow
  imports Router_Facts
begin

unbundle bit_operations_syntax

text \<open>
  A router neither loses nor duplicates a flit and never runs into \<open>abort()\<close> or an empty queue:
  the invariant \<open>router_wf\<close> is kept by every step, every step is defined, and the data flits held
  before a step are those held after it and those sent.
\<close>

section \<open>The invariant and the flits held\<close>

definition ic_wf :: "input_channel \<Rightarrow> bool" where
  "ic_wf c \<longleftrightarrow> length (vc_state c) = 8 \<and> length (vc_next_state c) = 8 \<and>
     length (vc_last_state_update_time c) = 8 \<and> length (request_pending c) = 8 \<and> length (ibuf c) = 8 \<and>
     length (send_port c) = 8 \<and>
     (\<forall>i < 8. vc_state c ! i \<noteq> VC_STATE_RC \<or> vc_next_state c ! i \<noteq> VC_STATE_RC \<longrightarrow> port_of (send_port c ! i) \<noteq> None)"

definition oc_wf :: "output_channel \<Rightarrow> bool" where
  "oc_wf c \<longleftrightarrow> length (oc_readyStat c) = 8 \<and> length (send_count c) = 8 \<and> length (ack_count c) = 8 \<and>
     (\<forall>e \<in> set (obuf c). e_vch e < 8)"

definition router_wf :: "router \<Rightarrow> bool" where
  "router_wf r \<longleftrightarrow> (\<forall>d. ic_wf (ic r d) \<and> oc_wf (oc r d) \<and> (\<forall>e \<in> set (rx r d). e_vch e < 8))"

definition data_flits :: "flit list \<Rightarrow> flit multiset" where
  "data_flits fs = filter_mset (\<lambda>f. \<not> is_ack f) (mset fs)"

lemma data_flits_simps [simp]:
  "data_flits [] = {#}" "data_flits (xs @ ys) = data_flits xs + data_flits ys"
  "data_flits (f # fs) = (if is_ack f then {#} else {#f#}) + data_flits fs"
  by (simp_all add: data_flits_def)

definition part :: "router \<Rightarrow> dir \<Rightarrow> flit multiset" where
  "part r d = data_flits (map e_flit (rx r d)) + data_flits (concat (ibuf (ic r d))) +
     data_flits (map e_flit (obuf (oc r d)))"

definition held :: "router \<Rightarrow> flit multiset" where
  "held r = part r Local + part r Lower + part r Upper"

lemma data_flits_update:
  assumes "i < length xss"
  shows "data_flits (concat (xss[i := ys])) + data_flits (xss ! i) = data_flits (concat xss) + data_flits ys"
  using assms
proof (induction xss arbitrary: i)
  case (Cons x xss)
  then show ?case by (cases i) (auto simp: ac_simps)
qed simp

lemma multiset_move:
  fixes h :: "'a multiset"
  assumes "h' + c = h + c'" "c' + x = c"
  shows "h' + x = h"
proof -
  have "h' + x + c' = h + c'" unfolding assms(1) [symmetric] assms(2) [symmetric] by (simp add: ac_simps)
  then show ?thesis by simp
qed

lemma all_dir: "(\<forall>d. P d) \<longleftrightarrow> P Local \<and> P Lower \<and> P Upper"
  by (metis dir.exhaust)

text \<open>Updates of one channel.\<close>

lemma router_wf_upd:
  "router_wf r \<Longrightarrow> (ic_wf (ic r d) \<Longrightarrow> ic_wf (f (ic r d))) \<Longrightarrow> router_wf (upd_ic d f r)"
  "router_wf r \<Longrightarrow> (oc_wf (oc r d) \<Longrightarrow> oc_wf (g (oc r d))) \<Longrightarrow> router_wf (upd_oc d g r)"
  by (simp_all add: router_wf_def upd_ic_def upd_oc_def)

lemma held_upd_ic:
  "held (upd_ic d f r) + data_flits (concat (ibuf (ic r d))) =
   held r + data_flits (concat (ibuf (f (ic r d))))"
  by (cases d) (simp_all add: held_def part_def upd_ic_def ac_simps)

lemma held_upd_oc:
  "held (upd_oc d g r) + data_flits (map e_flit (obuf (oc r d))) =
   held r + data_flits (map e_flit (obuf (g (oc r d))))"
  by (cases d) (simp_all add: held_def part_def upd_oc_def ac_simps)

lemma held_upd_same:
  "ibuf (f (ic r d)) = ibuf (ic r d) \<Longrightarrow> held (upd_ic d f r) = held r"
  "obuf (g (oc r d)) = obuf (oc r d) \<Longrightarrow> held (upd_oc d g r) = held r"
  using held_upd_ic [of d f r] held_upd_oc [of d g r] by simp_all

text \<open>\<open>keeps r' r\<close>: the result of an internal operation.\<close>

definition keeps :: "router \<Rightarrow> router \<Rightarrow> bool" where
  "keeps r' r \<longleftrightarrow> router_wf r' \<and> held r' = held r"

lemma keeps_trans: "keeps r2 r1 \<Longrightarrow> keeps r1 r \<Longrightarrow> keeps r2 r"
  by (simp add: keeps_def)

lemma keeps_upd:
  "router_wf r \<Longrightarrow> (ic_wf (ic r d) \<Longrightarrow> ic_wf (f (ic r d))) \<Longrightarrow> ibuf (f (ic r d)) = ibuf (ic r d) \<Longrightarrow>
    keeps (upd_ic d f r) r"
  "router_wf r \<Longrightarrow> (oc_wf (oc r d) \<Longrightarrow> oc_wf (g (oc r d))) \<Longrightarrow> obuf (g (oc r d)) = obuf (oc r d) \<Longrightarrow>
    keeps (upd_oc d g r) r"
  by (simp_all add: keeps_def router_wf_upd held_upd_same)

lemma keeps_crossbar:
  "router_wf r \<Longrightarrow> Crossbar_close port r = Some r' \<Longrightarrow> keeps r' r"
  "router_wf r \<Longrightarrow> Crossbar_ready d v port r = Some (b, r') \<Longrightarrow> keeps r' r \<and> ic r' = ic r"
  "router_wf r \<Longrightarrow> keeps (Crossbar_step r) r"
  by (auto simp: Crossbar_close_def Crossbar_ready_def Crossbar_step_def Let_def keeps_def router_wf_def held_def
      part_def split: if_splits)

section \<open>The states of a virtual channel\<close>

lemma ic_wf_next:
  "ic_wf c \<Longrightarrow> i < 8 \<Longrightarrow> st \<noteq> VC_STATE_RC \<longrightarrow> port_of (send_port c ! i) \<noteq> None \<Longrightarrow> ic_wf (set_next i st c)"
  by (auto simp: ic_wf_def set_next_def nth_list_update)

lemma ic_wf_update: "ic_wf c \<Longrightarrow> ic_wf (vc_update now i c)"
proof (cases "i < 8")
  case True
  then show "ic_wf c \<Longrightarrow> ic_wf (vc_update now i c)"
    by (simp add: ic_wf_def vc_update_def nth_list_update)
next
  case False
  then show "ic_wf c \<Longrightarrow> ic_wf (vc_update now i c)"
    by (simp add: ic_wf_def vc_update_def list_update_beyond)
qed

lemma ic_wf_misc:
  "ic_wf c \<Longrightarrow> ic_wf (ic_release now c)" "ic_wf c \<Longrightarrow> ic_wf (ic_hold c)" "ic_wf c \<Longrightarrow> ic_wf (ic_request i c)"
  "ic_wf c \<Longrightarrow> ic_wf (pop_ibuf i c)" "ic_wf c \<Longrightarrow> ic_wf (ic_arbitrate now c)"
  by (simp_all add: ic_wf_def ic_release_def ic_hold_def ic_request_def pop_ibuf_def ic_arbitrate_def
      split: list.splits)

lemma ibuf_same:
  "ibuf (set_next i st c) = ibuf c" "ibuf (ic_release now c) = ibuf c" "ibuf (ic_hold c) = ibuf c"
  "ibuf (ic_request i c) = ibuf c" "ibuf (vc_update now i c) = ibuf c" "ibuf (ic_arbitrate now c) = ibuf c"
  by (simp_all add: set_next_def ic_release_def ic_hold_def ic_request_def vc_update_def ic_arbitrate_def
      split: list.splits)

lemma pop_held:
  assumes "router_wf r" "i < 8" "ibuf (ic r d) ! i = f # q"
  shows "router_wf (upd_ic d (pop_ibuf i) r)"
    "held (upd_ic d (pop_ibuf i) r) + (if is_ack f then {#} else {#f#}) = held r"
proof -
  have len: "i < length (ibuf (ic r d))" using assms(1,2) by (simp add: router_wf_def ic_wf_def)
  show "router_wf (upd_ic d (pop_ibuf i) r)" by (rule router_wf_upd(1) [OF assms(1) ic_wf_misc(4)])
  show "held (upd_ic d (pop_ibuf i) r) + (if is_ack f then {#} else {#f#}) = held r"
  proof (rule multiset_move [OF held_upd_ic])
    have "data_flits (concat ((ibuf (ic r d))[i := q])) + data_flits (f # q) =
        data_flits (concat (ibuf (ic r d))) + data_flits q"
      using data_flits_update [OF len, of q] assms(3) by simp
    moreover have "ibuf (pop_ibuf i (ic r d)) = (ibuf (ic r d))[i := q]"
      using assms(3) by (simp add: pop_ibuf_def)
    ultimately show "data_flits (concat (ibuf (pop_ibuf i (ic r d)))) + (if is_ack f then {#} else {#f#}) =
        data_flits (concat (ibuf (ic r d)))"
      by (simp del: add_mset_add_single add: ac_simps)
  qed
qed

lemma send_held:
  assumes "router_wf r" "i < 8" "Crossbar_send d f i port r = Some r'"
  shows "router_wf r'" "held r' = held r + (if is_ack f then {#} else {#f#})" "ic r' = ic r"
proof -
  obtain o' where r': "r' = upd_oc d (ackIncrement i) (upd_oc o' (oc_pushData f i) r)"
    using assms(3) by (auto simp: Crossbar_send_def)
  have w1: "router_wf (upd_oc o' (oc_pushData f i) r)"
    using assms(1,2) by (auto simp: router_wf_def oc_wf_def upd_oc_def oc_pushData_def)
  have "held (upd_oc o' (oc_pushData f i) r) = held r + (if is_ack f then {#} else {#f#})"
    using held_upd_oc [of o' "oc_pushData f i" r] by (simp add: oc_pushData_def ac_simps)
  then show "held r' = held r + (if is_ack f then {#} else {#f#})"
    unfolding r' by (simp add: held_upd_same ackIncrement_def)
  show "router_wf r'" unfolding r'
    by (rule router_wf_upd(2) [OF w1]) (simp add: oc_wf_def ackIncrement_def)
  show "ic r' = ic r" unfolding r' by (simp add: upd_oc_def)
qed

lemma vc_st_keeps:
  assumes wf: "router_wf r" and i: "i < 8" and b: "ibuf (ic r d) ! i = f # q" and f: "\<not> is_ack f"
    and st: "vc_state (ic r d) ! i = VC_STATE_ST"
  shows "\<exists>r'. vc_st now d i f r = Some r' \<and> keeps r' r"
proof (cases "vc_next_state (ic r d) ! i = VC_STATE_RC")
  case True
  then show ?thesis using wf by (simp add: vc_st_def keeps_def)
next
  case False
  let ?port = "send_port (ic r d) ! i"
  have "port_of ?port \<noteq> None" using wf i st by (auto simp: router_wf_def ic_wf_def)
  then obtain o' where o': "port_of ?port = Some o'" by blast
  note pop = pop_held [OF wf i b]
  obtain r2 where r2: "Crossbar_send d f i ?port (upd_ic d (pop_ibuf i) r) = Some r2"
    using o' by (auto simp: Crossbar_send_def)
  note send = send_held [OF pop(1) i r2]
  have k2: "keeps r2 r" using send pop(2) f by (simp add: keeps_def)
  show ?thesis
  proof (cases "ftype f = FTYPE_HEADTAIL \<or> ftype f = FTYPE_TAIL")
    case fin: True
    let ?r3 = "upd_ic d (\<lambda>c. ic_release now (set_next i VC_STATE_RC c)) r2"
    have k3: "keeps ?r3 r2"
      using send(1) i by (intro keeps_upd(1)) (auto simp: ibuf_same intro!: ic_wf_misc ic_wf_next)
    obtain r4 where r4: "Crossbar_close ?port ?r3 = Some r4" using o' by (auto simp: Crossbar_close_def)
    have "keeps r4 ?r3" using keeps_crossbar(1) [OF _ r4] k3 by (simp add: keeps_def)
    with k2 k3 have "keeps r4 r" by (blast intro: keeps_trans)
    with r2 r4 fin False show ?thesis by (simp add: vc_st_def)
  next
    case nofin: False
    with r2 k2 False show ?thesis by (simp add: vc_st_def)
  qed
qed

lemma Crossbar_ready_some: "port_of port \<noteq> None \<Longrightarrow> \<exists>x. Crossbar_ready d i port r = Some x"
  by (cases "port_of port") (simp_all add: Crossbar_ready_def)

lemma vc_vsa_keeps:
  assumes wf: "router_wf r" and i: "i < 8" and st: "vc_state (ic r d) ! i = VC_STATE_VSA"
  shows "\<exists>h' r'. vc_vsa d i h r = Some (h', r') \<and> keeps r' r"
proof (cases "\<not> isGranted i (ic r d) \<and> \<not> h")
  case True
  then show ?thesis
    using wf by (auto simp: vc_vsa_def ibuf_same intro!: keeps_upd(1) ic_wf_misc)
next
  case False
  let ?port = "send_port (ic r d) ! i"
  have p: "port_of ?port \<noteq> None" using wf i st by (auto simp: router_wf_def ic_wf_def)
  then obtain x where "Crossbar_ready d i ?port r = Some x" using Crossbar_ready_some by blast
  then obtain b r1 where r1: "Crossbar_ready d i ?port r = Some (b, r1)" by (cases x) simp
  note k1 = keeps_crossbar(2) [OF wf r1]
  have "keeps (upd_ic d (\<lambda>c. ic_hold (set_next i VC_STATE_ST c)) r1) r1"
    using k1 i p by (intro keeps_upd(1)) (auto simp: keeps_def ibuf_same intro!: ic_wf_misc ic_wf_next)
  with k1 have "keeps (upd_ic d (\<lambda>c. ic_hold (set_next i VC_STATE_ST c)) r1) r" by (blast intro: keeps_trans)
  moreover have "vc_vsa d i h r = Some (if isGranted i (ic r d) \<and> b
      then (True, upd_ic d (\<lambda>c. ic_hold (set_next i VC_STATE_ST c)) r1) else (h, r1))"
    using False r1 by (simp add: vc_vsa_def)
  ultimately show ?thesis using k1 by (cases "isGranted i (ic r d) \<and> b") auto
qed

lemma vc_rc_keeps:
  assumes "router_wf r" "i < 8"
  shows "keeps (vc_rc d i f r) r"
proof -
  have "keeps (upd_ic d (\<lambda>c. (set_next i VC_STATE_VSA c)
      \<lparr>send_port := (send_port c)[i := rtcomp (router_id r) (extractDst f)]\<rparr>) r) r"
    using assms rtcomp_port [of "router_id r" "extractDst f"]
    by (intro keeps_upd(1)) (auto simp: ic_wf_def set_next_def nth_list_update)
  then show ?thesis using assms by (simp add: vc_rc_def keeps_def)
qed

lemma vc_switch_keeps:
  assumes wf: "router_wf r" and i: "i < 8"
  shows "\<exists>h' r'. vc_switch now d i h r = Some (h', r') \<and> keeps r' r"
proof (cases "ibuf (ic r d) ! i")
  case Nil
  then show ?thesis using wf by (simp add: vc_switch_def keeps_def)
next
  case b: (Cons f q)
  show ?thesis
  proof (cases "is_ack f")
    case True
    let ?r1 = "forwardAck d f r"
    have k: "keeps ?r1 r" and same: "ic ?r1 = ic r"
      using wf by (auto simp: forwardAck_def oc_pushAck_def oc_wf_def upd_oc_def intro!: keeps_upd(2))
        (simp add: keeps_def router_wf_def oc_wf_def held_def part_def)
    have "keeps (upd_ic d (pop_ibuf i) ?r1) ?r1"
      using pop_held [of ?r1 i d f q] k i b same True by (simp add: keeps_def)
    with k have "keeps (upd_ic d (pop_ibuf i) ?r1) r" by (rule keeps_trans [rotated])
    then show ?thesis using b True by (simp add: vc_switch_def)
  next
    case False
    have same: "keeps r r" using wf by (simp add: keeps_def)
    consider "vc_state (ic r d) ! i = VC_STATE_ST" | "vc_state (ic r d) ! i = VC_STATE_VSA"
      | "vc_state (ic r d) ! i \<noteq> VC_STATE_ST" "vc_state (ic r d) ! i \<noteq> VC_STATE_VSA" by blast
    then show ?thesis
    proof cases
      case 1
      with vc_st_keeps [OF wf i b False] obtain r' where "vc_st now d i f r = Some r'" "keeps r' r" by blast
      with 1 b False show ?thesis by (intro exI [of _ True] exI [of _ r']) (simp add: vc_switch_def)
    next
      case 2
      with vc_vsa_keeps [OF wf i] b False show ?thesis by (simp add: vc_switch_def)
    next
      case 3
      with same vc_rc_keeps [OF wf i] b False show ?thesis by (simp add: vc_switch_def)
    qed
  qed
qed

lemma vc_loop_keeps:
  assumes "router_wf r" "\<forall>i \<in> set is. i < 8"
  shows "\<exists>r'. vc_loop now d is h r = Some r' \<and> keeps r' r"
  using assms
proof (induction "is" arbitrary: h r)
  case (Cons i "is")
  obtain h1 r1 where s: "vc_switch now d i h r = Some (h1, r1)" "keeps r1 r"
    using vc_switch_keeps [OF Cons.prems(1)] Cons.prems(2) by fastforce
  let ?r2 = "upd_ic d (vc_update now i) r1"
  have k2: "keeps ?r2 r1"
    using s(2) by (intro keeps_upd(1)) (auto simp: keeps_def ibuf_same intro!: ic_wf_update)
  then obtain r' where "vc_loop now d is h1 ?r2 = Some r'" "keeps r' ?r2"
    using Cons.IH [of ?r2 h1] Cons.prems(2) by (auto simp: keeps_def)
  with s k2 show ?case by (auto intro: keeps_trans)
qed (simp add: keeps_def)

section \<open>A step of a router\<close>

lemma ic_receive_keeps:
  assumes wf: "router_wf r"
  shows "\<exists>r'. ic_receive d r = Some r' \<and> keeps r' r"
proof (cases "rx r d")
  case Nil
  then show ?thesis using wf by (simp add: ic_receive_def keeps_def)
next
  case (Cons e q)
  let ?v = "e_vch e"
  let ?g = "\<lambda>c. c\<lparr>ibuf := (ibuf c)[?v := ibuf c ! ?v @ [e_flit e]]\<rparr>"
  let ?r1 = "upd_ic d ?g r"
  have "\<forall>e \<in> set (rx r d). e_vch e < 8" using wf by (simp add: router_wf_def)
  then have v: "?v < 8" and q: "\<forall>e \<in> set q. e_vch e < 8" using Cons by simp_all
  have len: "?v < length (ibuf (ic r d))" using wf v by (simp add: router_wf_def ic_wf_def)
  have w1: "router_wf ?r1" using wf by (intro router_wf_upd(1)) (simp_all add: ic_wf_def)
  have h: "held ?r1 = held r + (if is_ack (e_flit e) then {#} else {#e_flit e#})"
    using held_upd_ic [of d ?g r] data_flits_update [OF len, of "ibuf (ic r d) ! ?v @ [e_flit e]"]
    by (simp add: ac_simps)
  have "held (?r1\<lparr>rx := (rx r)(d := q)\<rparr>) + (if is_ack (e_flit e) then {#} else {#e_flit e#}) = held ?r1"
    using Cons by (cases d) (simp_all add: held_def part_def upd_ic_def ac_simps)
  with h have "held (?r1\<lparr>rx := (rx r)(d := q)\<rparr>) = held r" by simp
  moreover have "router_wf (?r1\<lparr>rx := (rx r)(d := q)\<rparr>)"
    using w1 wf q by (simp add: router_wf_def)
  ultimately show ?thesis using Cons v by (simp add: ic_receive_def keeps_def)
qed

lemma InputChannel_step_keeps:
  assumes "router_wf r"
  shows "\<exists>r'. InputChannel_step now d r = Some r' \<and> keeps r' r"
proof -
  obtain r1 where r1: "vc_loop now d [0..<8] False r = Some r1" "keeps r1 r"
    using vc_loop_keeps [OF assms, of "[0..<8]" now d False] by auto
  obtain r2 where r2: "ic_receive d r1 = Some r2" "keeps r2 r1"
    using ic_receive_keeps [of r1 d] r1(2) unfolding keeps_def by blast
  have k3: "keeps (ic_ordy d r2) r2"
    using r2(2) by (auto simp: keeps_def ic_ordy_def router_wf_def held_def part_def)
  have "keeps (upd_ic d (ic_arbitrate now) (ic_ordy d r2)) (ic_ordy d r2)"
    using k3 by (intro keeps_upd(1)) (auto simp: keeps_def ibuf_same intro!: ic_wf_misc)
  with r1 r2 k3 show ?thesis by (auto simp: InputChannel_step_def intro: keeps_trans)
qed

lemma make_ack_is_ack: "is_ack (make_ack_flit FTYPE_ACK1 cnt)" "is_ack (make_ack_flit FTYPE_ACK2 cnt)"
  by (simp_all add: is_ack_def make_ack_flit_def)

lemma length_foldl_update: "length (foldl (\<lambda>a i. a[i := f (a ! i)]) xs is) = length xs"
  by (induction "is" arbitrary: xs) simp_all

lemma ack_half_keeps:
  assumes "ft = FTYPE_ACK1 \<or> ft = FTYPE_ACK2" "ack_half base ft g c = (out, c')"
  shows "obuf c' = obuf c \<and> data_flits (map e_flit out) = {#} \<and> (oc_wf c \<longrightarrow> oc_wf c')"
proof (cases "\<exists>i \<in> set [base..<base + 4]. ack_count c ! i \<noteq> 0")
  case True
  then show ?thesis
    using assms length_foldl_update [of g "ack_count c" "[base..<base + 4]"] make_ack_is_ack
    by (auto simp: ack_half_def oc_wf_def)
next
  case False
  then show ?thesis using assms(2) by (auto simp: ack_half_def)
qed

lemma ackSend_keeps:
  assumes "ackSend now c = (out, c')"
  shows "obuf c' = obuf c" "data_flits (map e_flit out) = {#}" "oc_wf c \<Longrightarrow> oc_wf c'"
  using assms ack_half_keeps [of _ _ _ c out c'] by (auto simp: ackSend_def split: if_splits)

lemma OutputChannel_step_keeps:
  assumes wf: "oc_wf c"
  shows "\<exists>out c'. OutputChannel_step now c = Some (out, c') \<and> oc_wf c' \<and>
    data_flits (map e_flit out) + data_flits (map e_flit (obuf c')) = data_flits (map e_flit (obuf c))"
proof -
  obtain out ch c1 where s: "oc_send now c = Some (out, ch, c1)" "oc_wf c1"
    "data_flits (map e_flit out) + data_flits (map e_flit (obuf c1)) = data_flits (map e_flit (obuf c))"
  proof (cases "obuf c")
    case Nil
    obtain out c1 where a: "(if ackEnabled c then ackSend now c else ([], c)) = (out, c1)" by (rule prod.exhaust)
    then have "oc_send now c = Some (out, False, c1)" using Nil by (simp add: oc_send_def)
    moreover have "obuf c1 = obuf c" "data_flits (map e_flit out) = {#}" "oc_wf c1"
      using a wf ackSend_keeps [of now c out c1] by (auto split: if_splits)
    ultimately show ?thesis using Nil by (intro that [of out False c1]) simp_all
  next
    case (Cons e q)
    then have "e_vch e < length (send_count c)" using wf by (auto simp: oc_wf_def)
    then show ?thesis
      using Cons wf by (intro that [of "[e]" "ackEnabled c" "if ackEnabled c
          then c\<lparr>send_flit_count := send_flit_count c + 1, obuf := q,
                 send_count := (send_count c)[e_vch e := send_count c ! e_vch e + 1]\<rparr>
          else c\<lparr>send_flit_count := send_flit_count c + 1, obuf := q\<rparr>"])
        (simp_all add: oc_send_def Let_def oc_wf_def)
  qed
  obtain ch2 c2 where cr: "oc_credit c1 = (ch2, c2)" by (rule prod.exhaust)
  have "length (decode_ack f) = 8" for f by (simp add: decode_ack_map Let_def)
  then have c2: "oc_wf c2" "obuf c2 = obuf c1"
    using cr s(2) by (auto simp: oc_credit_def oc_wf_def split: list.splits)
  let ?c3 = "if (ch \<or> ch2) \<and> ackEnabled c2
       then c2\<lparr>oc_readyStat := map (\<lambda>n. oc_bufMaxSize c2 - n \<ge> oc_packetMaxSize c2) (send_count c2)\<rparr>
       else c2"
  have "OutputChannel_step now c = Some (out, ?c3)" using s(1) cr by (simp add: OutputChannel_step_def)
  moreover have "oc_wf ?c3" "obuf ?c3 = obuf c1" using c2 by (auto simp: oc_wf_def)
  ultimately show ?thesis using s(3) by metis
qed

lemma oc_step_at_keeps:
  assumes "router_wf r"
  shows "\<exists>out r'. oc_step_at now d r = Some (out, r') \<and> router_wf r' \<and>
    data_flits (map e_flit out) + held r' = held r"
proof -
  have "oc_wf (oc r d)" using assms by (simp add: router_wf_def)
  then obtain out c' where s: "OutputChannel_step now (oc r d) = Some (out, c')" "oc_wf c'"
    "data_flits (map e_flit out) + data_flits (map e_flit (obuf c')) = data_flits (map e_flit (obuf (oc r d)))"
    using OutputChannel_step_keeps by blast
  have "router_wf (upd_oc d (\<lambda>_. c') r)" by (rule router_wf_upd(2) [OF assms s(2)])
  moreover have "data_flits (map e_flit out) + held (upd_oc d (\<lambda>_. c') r) = held r"
    using multiset_move [OF held_upd_oc [of d "\<lambda>_. c'" r], of "data_flits (map e_flit out)"] s(3)
    by (simp add: add.commute)
  ultimately show ?thesis using s(1) by (simp add: oc_step_at_def)
qed

lemma Router_step_keeps:
  assumes "router_wf r"
  shows "\<exists>out r'. Router_step now r = Some (out, r') \<and> router_wf r' \<and>
    data_flits (map e_flit (out Local)) + data_flits (map e_flit (out Lower)) +
      data_flits (map e_flit (out Upper)) + held r' = held r"
proof -
  obtain ol r1 where 1: "oc_step_at now Local r = Some (ol, r1)" "router_wf r1"
    "data_flits (map e_flit ol) + held r1 = held r" using oc_step_at_keeps [OF assms] by blast
  obtain ou r2 where 2: "oc_step_at now Upper r1 = Some (ou, r2)" "router_wf r2"
    "data_flits (map e_flit ou) + held r2 = held r1" using oc_step_at_keeps [OF 1(2)] by blast
  obtain od r3 where 3: "oc_step_at now Lower r2 = Some (od, r3)" "router_wf r3"
    "data_flits (map e_flit od) + held r3 = held r2" using oc_step_at_keeps [OF 2(2)] by blast
  obtain r4 where 4: "InputChannel_step now Local r3 = Some r4" "keeps r4 r3"
    using InputChannel_step_keeps [OF 3(2)] by blast
  obtain r5 where 5: "InputChannel_step now Upper r4 = Some r5" "keeps r5 r4"
    using InputChannel_step_keeps [of r4] 4(2) by (auto simp: keeps_def)
  obtain r6 where 6: "InputChannel_step now Lower r5 = Some r6" "keeps r6 r5"
    using InputChannel_step_keeps [of r5] 5(2) by (auto simp: keeps_def)
  have 7: "keeps (Crossbar_step r6) r6" using keeps_crossbar(3) 6(2) by (simp add: keeps_def)
  have "router_wf (Crossbar_step r6)" "held (Crossbar_step r6) = held r3"
    using 4(2) 5(2) 6(2) 7 by (simp_all add: keeps_def)
  moreover have "held r = data_flits (map e_flit ol) + data_flits (map e_flit od) +
      data_flits (map e_flit ou) + held r3"
    unfolding 1(3) [symmetric] 2(3) [symmetric] 3(3) [symmetric] by (simp add: ac_simps)
  ultimately show ?thesis
    using 1(1) 2(1) 3(1) 4(1) 5(1) 6(1) by (simp add: Router_step_def)
qed

lemma Router_reset_wf:
  assumes "\<forall>d. length (vc_last_state_update_time (ic r d)) = 8 \<and> length (send_port (ic r d)) = 8"
  shows "router_wf (Router_reset now r)" "held (Router_reset now r) = {#}"
  using assms
  by (simp_all add: router_wf_def all_dir Router_reset_def InputChannel_reset_def upd_ic_def upd_oc_def ic_reset_def
      Crossbar_reset_def OutputChannel_reset_def ic_wf_def oc_wf_def held_def part_def)

end
