(* ===== verification/Router_Net.thy ===== *)
theory Router_Net
  imports Router_Flow
begin

text \<open>
  The routers of a stack of chips, connected as the constructor of \<open>Router\<close> connects a router to the
  one above it: router \<open>i\<close> sends down to the upper port of router \<open>i + 1\<close> and up to the lower port of
  router \<open>i - 1\<close>, and its local output fills the receive queue of its chip. A flit sent on a port
  without a connection is dropped, as \<open>RouterPortMaster::send\<close> does. The chips are stepped in any
  order and any number of times, and put flits on their local ports.
\<close>

record chip_net =
  routers :: "router list"
  chip_rx :: "flit_entry list list"

definition slave_receive :: "dir \<Rightarrow> flit_entry list \<Rightarrow> router \<Rightarrow> router" where
  "slave_receive d es r =
     r\<lparr>rx := (rx r)(d := foldl (\<lambda>q e. port_pushData (e_flit e) (e_vch e) q) (rx r d) es)\<rparr>"

definition connect_lower :: "nat \<Rightarrow> flit_entry list \<Rightarrow> router list \<Rightarrow> router list \<times> flit_entry list" where
  "connect_lower i es rs =
     (if i + 1 < length rs then (rs[i + 1 := slave_receive Upper es (rs ! (i + 1))], []) else (rs, es))"

definition connect_upper :: "nat \<Rightarrow> flit_entry list \<Rightarrow> router list \<Rightarrow> router list \<times> flit_entry list" where
  "connect_upper i es rs =
     (if i > 0 then (rs[i - 1 := slave_receive Lower es (rs ! (i - 1))], []) else (rs, es))"

text \<open>A step of router \<open>i\<close>: the network after it, and the flits dropped.\<close>

definition net_step :: "u32 \<Rightarrow> nat \<Rightarrow> chip_net \<Rightarrow> (flit_entry list \<times> chip_net) option" where
  "net_step now i n = do {
     (out, r) \<leftarrow> Router_step now (routers n ! i);
     let (rs1, lost1) = connect_upper i (out Upper) ((routers n)[i := r]);
     let (rs2, lost2) = connect_lower i (out Lower) rs1;
     Some (lost1 @ lost2, n\<lparr>routers := rs2, chip_rx := (chip_rx n)[i := chip_rx n ! i @ out Local]\<rparr>)
   }"

definition net_send :: "nat \<Rightarrow> flit \<Rightarrow> nat \<Rightarrow> chip_net \<Rightarrow> chip_net" where
  "net_send i f v n =
     n\<lparr>routers := (routers n)[i := slave_receive Local [\<lparr>e_flit = f, e_vch = v\<rparr>] (routers n ! i)]\<rparr>"

datatype net_event = Tick u32 nat | Send nat flit nat

primrec net_run :: "net_event list \<Rightarrow> chip_net \<Rightarrow> (flit_entry list \<times> chip_net) option" where
  "net_run [] n = Some ([], n)"
| "net_run (e # es) n =
     (case e of
        Tick now i \<Rightarrow> do { (l, n1) \<leftarrow> net_step now i n; (l', n2) \<leftarrow> net_run es n1; Some (l @ l', n2) }
      | Send i f v \<Rightarrow> net_run es (net_send i f v n))"

definition sent :: "net_event list \<Rightarrow> flit list" where
  "sent es = concat (map (\<lambda>e. case e of Tick _ _ \<Rightarrow> [] | Send _ f _ \<Rightarrow> [f]) es)"

definition event_ok :: "nat \<Rightarrow> net_event \<Rightarrow> bool" where
  "event_ok k e \<longleftrightarrow> (case e of Tick _ i \<Rightarrow> i < k | Send i _ v \<Rightarrow> i < k \<and> v < 8)"

definition net_wf :: "chip_net \<Rightarrow> bool" where
  "net_wf n \<longleftrightarrow> (\<forall>r \<in> set (routers n). router_wf r) \<and> length (chip_rx n) = length (routers n)"

text \<open>The data flits in the routers and in the receive queues of the chips.\<close>

definition in_net :: "chip_net \<Rightarrow> flit multiset" where
  "in_net n = sum_list (map held (routers n)) + sum_list (map (\<lambda>q. data_flits (map e_flit q)) (chip_rx n))"

section \<open>Nothing is lost on a connection\<close>

lemma sum_list_update_add:
  fixes f :: "'a \<Rightarrow> 'b :: comm_monoid_add"
  shows "i < length xs \<Longrightarrow> sum_list (map f (xs[i := y])) + f (xs ! i) = sum_list (map f xs) + f y"
proof (induction xs arbitrary: i)
  case (Cons x xs)
  then show ?case by (cases i) (auto simp: ac_simps)
qed simp

lemma slave_receive_eq: "slave_receive d es r = r\<lparr>rx := (rx r)(d := rx r d @ es)\<rparr>"
proof -
  have "foldl (\<lambda>q e. port_pushData (e_flit e) (e_vch e) q) q es = q @ es" for q
    by (induction es arbitrary: q) (simp_all add: port_pushData_def)
  then show ?thesis by (simp add: slave_receive_def)
qed

lemma slave_receive_keeps:
  assumes "router_wf r" "\<forall>e \<in> set es. e_vch e < 8"
  shows "router_wf (slave_receive d es r)" "held (slave_receive d es r) = held r + data_flits (map e_flit es)"
  using assms by (auto simp: slave_receive_eq router_wf_def)
    (cases d, simp_all add: held_def part_def slave_receive_eq ac_simps)

lemma router_list_update:
  assumes "\<forall>r \<in> set rs. router_wf r" "i < length rs" "\<forall>e \<in> set es. e_vch e < 8"
  shows "\<forall>r \<in> set (rs[i := slave_receive d es (rs ! i)]). router_wf r"
    "sum_list (map held (rs[i := slave_receive d es (rs ! i)])) = sum_list (map held rs) + data_flits (map e_flit es)"
proof -
  have w: "router_wf (rs ! i)" using assms(1,2) by simp
  note k = slave_receive_keeps [OF w assms(3), of d]
  show "\<forall>r \<in> set (rs[i := slave_receive d es (rs ! i)]). router_wf r"
    using assms(1) k(1) set_update_subset_insert by fastforce
  have "sum_list (map held (rs[i := slave_receive d es (rs ! i)])) + held (rs ! i) =
      (sum_list (map held rs) + data_flits (map e_flit es)) + held (rs ! i)"
    using sum_list_update_add [OF assms(2), of held "slave_receive d es (rs ! i)"] k(2) by (simp add: ac_simps)
  then show "sum_list (map held (rs[i := slave_receive d es (rs ! i)])) =
      sum_list (map held rs) + data_flits (map e_flit es)" by simp
qed

lemma connect_keeps:
  assumes "\<forall>r \<in> set rs. router_wf r" "i < length rs" "\<forall>e \<in> set es. e_vch e < 8"
    "connect_lower i es rs = (rs', lost) \<or> connect_upper i es rs = (rs', lost)"
  shows "(\<forall>r \<in> set rs'. router_wf r) \<and> length rs' = length rs \<and>
    sum_list (map held rs') + data_flits (map e_flit lost) = sum_list (map held rs) + data_flits (map e_flit es)"
proof -
  have "rs' = rs \<and> lost = es \<or> (\<exists>j d. j < length rs \<and> lost = [] \<and> rs' = rs[j := slave_receive d es (rs ! j)])"
    (is "_ \<or> ?upd")
  proof (rule disjE [OF assms(4)])
    assume c: "connect_lower i es rs = (rs', lost)"
    show ?thesis
    proof (cases "i + 1 < length rs")
      case True
      then have ?upd using c by (intro exI [of _ "i + 1"] exI [of _ Upper]) (simp add: connect_lower_def)
      then show ?thesis ..
    qed (use c in \<open>simp add: connect_lower_def\<close>)
  next
    assume c: "connect_upper i es rs = (rs', lost)"
    show ?thesis
    proof (cases "i > 0")
      case True
      then have ?upd using c assms(2)
        by (intro exI [of _ "i - 1"] exI [of _ Lower]) (simp add: connect_upper_def del: One_nat_def)
      then show ?thesis ..
    qed (use c in \<open>simp add: connect_upper_def\<close>)
  qed
  then show ?thesis
  proof
    assume "\<exists>j d. j < length rs \<and> lost = [] \<and> rs' = rs[j := slave_receive d es (rs ! j)]"
    then obtain j d where j: "j < length rs" "lost = []" "rs' = rs[j := slave_receive d es (rs ! j)]" by blast
    show ?thesis using router_list_update [OF assms(1) j(1) assms(3), of d] j(2,3) by simp
  qed (use assms(1) in simp)
qed

lemma ackSend_vch: "ackSend now c = (out, c') \<Longrightarrow> e \<in> set out \<Longrightarrow> e_vch e = 0"
  by (auto simp: ackSend_def ack_half_def split: if_splits)

lemma oc_send_vch:
  assumes "oc_wf c" "oc_send now c = Some (out, ch, c')" "e \<in> set out"
  shows "e_vch e < 8"
proof (cases "obuf c")
  case Nil
  then show ?thesis
    using assms(2,3) ackSend_vch [of now c out c' e] by (cases "ackEnabled c") (auto simp: oc_send_def split: prod.splits)
next
  case (Cons a q)
  then have "e = a" using assms(2,3) by (auto simp: oc_send_def Let_def split: if_splits)
  then show ?thesis using assms(1) Cons by (simp add: oc_wf_def)
qed

lemma out_vch:
  assumes "oc_wf c" "OutputChannel_step now c = Some (out, c')"
  shows "\<forall>e \<in> set out. e_vch e < 8"
proof -
  obtain ch c1 where "oc_send now c = Some (out, ch, c1)"
    using assms(2) by (cases "oc_send now c") (auto simp: OutputChannel_step_def split: prod.splits)
  with assms(1) show ?thesis using oc_send_vch by blast
qed

lemma oc_step_at_vch:
  assumes "router_wf r" "oc_step_at now d r = Some (out, r')"
  shows "\<forall>e \<in> set out. e_vch e < 8"
  using assms out_vch [of "oc r d"] by (auto simp: oc_step_at_def router_wf_def)

lemma Router_step_vch:
  assumes "router_wf r" "Router_step now r = Some (out, r')"
  shows "\<forall>e \<in> set (out d). e_vch e < 8"
proof -
  obtain ol r1 where 1: "oc_step_at now Local r = Some (ol, r1)"
    using assms(2) by (auto simp: Router_step_def)
  obtain ou r2 where 2: "oc_step_at now Upper r1 = Some (ou, r2)"
    using assms(2) 1 by (auto simp: Router_step_def)
  obtain od r3 where 3: "oc_step_at now Lower r2 = Some (od, r3)"
    using assms(2) 1 2 by (auto simp: Router_step_def)
  have out: "out = (\<lambda>d. case d of Local \<Rightarrow> ol | Upper \<Rightarrow> ou | Lower \<Rightarrow> od)"
    using assms(2) 1 2 3 by (auto simp: Router_step_def)
  have w1: "router_wf r1" using oc_step_at_keeps [OF assms(1), of now Local] 1 by auto
  have w2: "router_wf r2" using oc_step_at_keeps [OF w1, of now Upper] 2 by auto
  show ?thesis
    using oc_step_at_vch [OF assms(1) 1] oc_step_at_vch [OF w1 2] oc_step_at_vch [OF w2 3] out by (cases d) simp_all
qed

section \<open>The network keeps the data flits\<close>

lemma net_step_keeps:
  assumes wf: "net_wf n" and i: "i < length (routers n)"
  shows "\<exists>lost n'. net_step now i n = Some (lost, n') \<and> net_wf n' \<and> length (routers n') = length (routers n) \<and>
    in_net n' + data_flits (map e_flit lost) = in_net n"
proof -
  have w: "router_wf (routers n ! i)" using wf i by (simp add: net_wf_def)
  obtain out r where s: "Router_step now (routers n ! i) = Some (out, r)" "router_wf r"
    "data_flits (map e_flit (out Local)) + data_flits (map e_flit (out Lower)) +
      data_flits (map e_flit (out Upper)) + held r = held (routers n ! i)"
    using Router_step_keeps [OF w] by blast
  note v = Router_step_vch [OF w s(1)]
  let ?rs = "(routers n)[i := r]"
  have w0: "\<forall>r \<in> set ?rs. router_wf r"
    using wf s(2) set_update_subset_insert [of "routers n" i r] by (fastforce simp: net_wf_def)
  obtain rs1 l1 where c1: "connect_upper i (out Upper) ?rs = (rs1, l1)" by (rule prod.exhaust)
  have k1: "(\<forall>r \<in> set rs1. router_wf r) \<and> length rs1 = length ?rs \<and>
    sum_list (map held rs1) + data_flits (map e_flit l1) = sum_list (map held ?rs) + data_flits (map e_flit (out Upper))"
    by (rule connect_keeps [OF w0 _ v disjI2 [OF c1]]) (use i in simp)
  obtain rs2 l2 where c2: "connect_lower i (out Lower) rs1 = (rs2, l2)" by (rule prod.exhaust)
  have k2: "(\<forall>r \<in> set rs2. router_wf r) \<and> length rs2 = length rs1 \<and>
    sum_list (map held rs2) + data_flits (map e_flit l2) = sum_list (map held rs1) + data_flits (map e_flit (out Lower))"
    by (rule connect_keeps [OF conjunct1 [OF k1] _ v disjI1 [OF c2]]) (use i k1 in simp)
  let ?g = "\<lambda>q. data_flits (map e_flit q)"
  let ?n = "n\<lparr>routers := rs2, chip_rx := (chip_rx n)[i := chip_rx n ! i @ out Local]\<rparr>"
  have len: "i < length (chip_rx n)" using wf i by (simp add: net_wf_def)
  have "sum_list (map ?g (chip_rx ?n)) + ?g (chip_rx n ! i) =
      (sum_list (map ?g (chip_rx n)) + ?g (out Local)) + ?g (chip_rx n ! i)"
    using sum_list_update_add [OF len, of ?g "chip_rx n ! i @ out Local"] by (simp add: ac_simps)
  then have rxs: "sum_list (map ?g (chip_rx ?n)) = sum_list (map ?g (chip_rx n)) + ?g (out Local)" by simp
  have hs: "sum_list (map held ?rs) + held (routers n ! i) = sum_list (map held (routers n)) + held r"
    by (rule sum_list_update_add [OF i])
  have "in_net ?n + ?g (l1 @ l2) + held (routers n ! i) = in_net n + held (routers n ! i)"
  proof -
    have "in_net ?n + ?g (l1 @ l2) + held (routers n ! i) =
        (sum_list (map held rs2) + ?g l2) + ?g l1 + sum_list (map ?g (chip_rx ?n)) + held (routers n ! i)"
      by (simp add: in_net_def ac_simps)
    also have "\<dots> = (sum_list (map held rs1) + ?g l1) + ?g (out Lower) + sum_list (map ?g (chip_rx ?n)) +
        held (routers n ! i)" using k2 by (simp add: ac_simps)
    also have "\<dots> = (sum_list (map held ?rs) + held (routers n ! i)) + ?g (out Upper) + ?g (out Lower) +
        sum_list (map ?g (chip_rx ?n))" using k1 by (simp add: ac_simps)
    also have "\<dots> = sum_list (map held (routers n)) + sum_list (map ?g (chip_rx n)) +
        (?g (out Local) + ?g (out Lower) + ?g (out Upper) + held r)" unfolding hs rxs by (simp add: ac_simps)
    finally show ?thesis unfolding s(3) by (simp add: in_net_def)
  qed
  then have "in_net ?n + ?g (l1 @ l2) = in_net n" by simp
  moreover have "net_step now i n = Some (l1 @ l2, ?n)" using s(1) c1 c2 by (simp add: net_step_def)
  moreover have "net_wf ?n" "length (routers ?n) = length (routers n)" using k1 k2 wf by (simp_all add: net_wf_def)
  ultimately show ?thesis by blast
qed

lemma net_send_keeps:
  assumes "net_wf n" "i < length (routers n)" "v < 8"
  shows "net_wf (net_send i f v n)" "length (routers (net_send i f v n)) = length (routers n)"
    "in_net (net_send i f v n) = in_net n + data_flits [f]"
  using assms router_list_update [of "routers n" i "[\<lparr>e_flit = f, e_vch = v\<rparr>]" Local]
  by (simp_all add: net_wf_def net_send_def in_net_def ac_simps)

lemma net_run_keeps:
  assumes "net_wf n" "\<forall>e \<in> set es. event_ok (length (routers n)) e"
  shows "\<exists>lost n'. net_run es n = Some (lost, n') \<and> net_wf n' \<and>
    in_net n' + data_flits (map e_flit lost) = in_net n + data_flits (sent es)"
  using assms
proof (induction es arbitrary: n)
  case (Cons e es)
  show ?case
  proof (cases e)
    case (Tick now i)
    obtain l1 n1 where 1: "net_step now i n = Some (l1, n1)" "net_wf n1" "length (routers n1) = length (routers n)"
      "in_net n1 + data_flits (map e_flit l1) = in_net n"
      using net_step_keeps [OF Cons.prems(1), of i now] Cons.prems(2) Tick by (auto simp: event_ok_def)
    obtain l2 n2 where 2: "net_run es n1 = Some (l2, n2)" "net_wf n2"
      "in_net n2 + data_flits (map e_flit l2) = in_net n1 + data_flits (sent es)"
      using Cons.IH [OF 1(2)] 1(3) Cons.prems(2) by auto
    have "in_net n2 + data_flits (map e_flit (l1 @ l2)) = in_net n + data_flits (sent es)"
      using 1(4) 2(3) by (simp add: ac_simps) (metis add.assoc add.commute)
    then show ?thesis using Tick 1(1) 2(1,2) by (simp add: sent_def)
  next
    case (Send i f v)
    then have iv: "i < length (routers n)" "v < 8" using Cons.prems(2) by (simp_all add: event_ok_def)
    note k = net_send_keeps [OF Cons.prems(1) iv, of f]
    have "sent (e # es) = f # sent es" using Send by (simp add: sent_def)
    then show ?thesis
      using Cons.IH [OF k(1)] k(2,3) Cons.prems(2) Send by (simp add: ac_simps)
  qed
qed (simp add: sent_def)

end
