(* ===== verification/Router_Excl.thy ===== *)
theory Router_Excl
  imports Router_Flow
begin

text \<open>
  Switch allocation: a virtual channel that may send owns its output at the crossbar, and the input
  channel it belongs to has granted and holds it. So no two virtual channels of a router, of the
  same or of different inputs, ever send to one output between a head and its tail. The delicate
  point is the cycle in which an output is closed: the owner is forgotten only at the end of the
  step, and until then no other channel of the closing input may take the output over.
\<close>

section \<open>The invariant of the switch\<close>

definition phase_ok :: "input_channel \<Rightarrow> nat \<Rightarrow> bool" where
  "phase_ok c i \<longleftrightarrow> (vc_state c ! i, vc_next_state c ! i) \<in> {(0, 0), (0, 1), (1, 1), (1, 2), (2, 2), (2, 0)}"

definition sending :: "router \<Rightarrow> dir \<Rightarrow> nat \<Rightarrow> bool" where
  "sending r d i \<longleftrightarrow> i < 8 \<and> vc_next_state (ic r d) ! i = VC_STATE_ST"

definition owns :: "router \<Rightarrow> dir \<Rightarrow> nat \<Rightarrow> bool" where
  "owns r d i \<longleftrightarrow> holding (ic r d) \<and> granted_vc (ic r d) = i \<and>
     (\<exists>p. port_of (send_port (ic r d) ! i) = Some p \<and> oc_last_sender r p = Some d \<and> \<not> close_pending r p)"

definition switch_ok :: "router \<Rightarrow> bool" where
  "switch_ok r \<longleftrightarrow> router_wf r \<and> (\<forall>d. \<forall>i < 8. phase_ok (ic r d) i) \<and> (\<forall>d i. sending r d i \<longrightarrow> owns r d i)"

text \<open>
  In the middle of a step: the inputs in \<open>D\<close> are done and the virtual channels \<open>is\<close> of the input
  \<open>d\<close> are still to come; an output that is being closed was closed by a channel already served.
\<close>

definition closed_by :: "dir set \<Rightarrow> dir \<Rightarrow> nat list \<Rightarrow> router \<Rightarrow> bool" where
  "closed_by D d is r \<longleftrightarrow> (\<forall>p. close_pending r p \<longrightarrow>
     (\<exists>e. oc_last_sender r p = Some e \<and> (e \<in> D \<or> e = d \<and> granted_vc (ic r d) \<notin> set is)))"

definition mid_ok :: "dir set \<Rightarrow> dir \<Rightarrow> nat list \<Rightarrow> router \<Rightarrow> bool" where
  "mid_ok D d is r \<longleftrightarrow> switch_ok r \<and> closed_by D d is r \<and> d \<notin> D"

lemma switch_okI:
  "router_wf r \<Longrightarrow> (\<And>d i. i < 8 \<Longrightarrow> phase_ok (ic r d) i) \<Longrightarrow> (\<And>d i. sending r d i \<Longrightarrow> owns r d i) \<Longrightarrow> switch_ok r"
  by (simp add: switch_ok_def)

lemma switch_okD:
  "switch_ok r \<Longrightarrow> router_wf r" "switch_ok r \<Longrightarrow> i < 8 \<Longrightarrow> phase_ok (ic r d) i"
  "switch_ok r \<Longrightarrow> sending r d i \<Longrightarrow> owns r d i"
  by (simp_all add: switch_ok_def)

text \<open>What a change of the next state does.\<close>

lemma next_nth:
  "length (vc_next_state c) = 8 \<Longrightarrow> i < 8 \<Longrightarrow>
    vc_next_state (set_next i st c) ! j = (if j = i then st else vc_next_state c ! j)"
  by (simp add: set_next_def)

lemma phase_next:
  assumes "length (vc_next_state c) = 8" "i < 8" "phase_ok c j"
    "(vc_state c ! i, st) \<in> {(0, 0), (0, 1), (1, 1), (1, 2), (2, 2), (2, 0)}"
  shows "phase_ok (ic_release now (set_next i st c)) j" "phase_ok (ic_hold (set_next i st c)) j"
    "phase_ok ((set_next i st c)\<lparr>send_port := ps\<rparr>) j"
  using assms by (cases "j = i"; simp add: phase_ok_def ic_release_def ic_hold_def set_next_def)+

text \<open>An operation that leaves these fields alone keeps the invariant.\<close>

definition same_switch :: "router \<Rightarrow> router \<Rightarrow> bool" where
  "same_switch r' r \<longleftrightarrow> oc_last_sender r' = oc_last_sender r \<and> close_pending r' = close_pending r \<and>
     (\<forall>d. vc_state (ic r' d) = vc_state (ic r d) \<and> vc_next_state (ic r' d) = vc_next_state (ic r d) \<and>
        granted_vc (ic r' d) = granted_vc (ic r d) \<and> holding (ic r' d) = holding (ic r d) \<and>
        send_port (ic r' d) = send_port (ic r d))"

lemma same_switch_trans: "same_switch r2 r1 \<Longrightarrow> same_switch r1 r \<Longrightarrow> same_switch r2 r"
  by (simp add: same_switch_def)

lemma same_switch_ok:
  assumes "same_switch r' r" "router_wf r'"
  shows "switch_ok r \<Longrightarrow> switch_ok r'" "mid_ok D d is r \<Longrightarrow> mid_ok D d is r'"
  using assms by (simp_all add: same_switch_def switch_ok_def mid_ok_def closed_by_def sending_def owns_def phase_ok_def)

lemma same_switch_ops:
  "same_switch (upd_oc d f r) r" "same_switch (upd_ic d (pop_ibuf i) r) r" "same_switch (upd_ic d (ic_request i) r) r"
  "same_switch (forwardAck d g r) r" "same_switch (ic_ordy d r) r"
  "Crossbar_send d g i port r = Some r' \<Longrightarrow> same_switch r' r"
  by (auto simp: same_switch_def upd_oc_def upd_ic_def pop_ibuf_def ic_request_def forwardAck_def ic_ordy_def
      Crossbar_send_def)

lemma same_switch_receive: "ic_receive d r = Some r' \<Longrightarrow> same_switch r' r"
  by (cases "rx r d") (auto simp: same_switch_def upd_ic_def ic_receive_def split: if_splits)

section \<open>The three states of a virtual channel\<close>

text \<open>A channel that finishes its packet gives the output up.\<close>

lemma finish_ok:
  assumes m: "mid_ok D d (i # is) r" and i: "i < 8" "i \<notin> set is" and st: "vc_state (ic r d) ! i = VC_STATE_ST"
    and snd: "sending r d i" and c: "Crossbar_close (send_port (ic r d) ! i)
      (upd_ic d (\<lambda>c. ic_release now (set_next i VC_STATE_RC c)) r) = Some r'" and wf: "router_wf r'"
  shows "mid_ok D d is r'"
proof -
  have ok: "switch_ok r" and cl: "closed_by D d (i # is) r" and dD: "d \<notin> D" using m by (simp_all add: mid_ok_def)
  obtain p where p: "port_of (send_port (ic r d) ! i) = Some p" "oc_last_sender r p = Some d" "granted_vc (ic r d) = i"
    using switch_okD(3) [OF ok snd] by (auto simp: owns_def)
  let ?c = "ic_release now (set_next i VC_STATE_RC (ic r d))"
  have r': "r' = (upd_ic d (\<lambda>c. ic_release now (set_next i VC_STATE_RC c)) r)\<lparr>close_pending := (close_pending r)(p := True)\<rparr>"
    using c p(1) by (simp add: Crossbar_close_def upd_ic_def)
  have len: "length (vc_next_state (ic r d)) = 8" using ok by (simp add: switch_ok_def router_wf_def ic_wf_def)
  have "phase_ok (ic r' e) j" if "j < 8" for e j
    using switch_okD(2) [OF ok that] phase_next(1) [OF len i(1)] st by (simp add: r' upd_ic_def)
  moreover have "owns r' e j" if s: "sending r' e j" for e j
  proof -
    have se: "sending r e j" "e = d \<longrightarrow> j \<noteq> i"
      using s next_nth [OF len i(1)] by (auto simp: r' upd_ic_def sending_def ic_release_def split: if_splits)
    note o = switch_okD(3) [OF ok se(1)]
    have ed: "e \<noteq> d" using se(2) o p(3) by (auto simp: owns_def)
    obtain q where q: "port_of (send_port (ic r e) ! j) = Some q" "oc_last_sender r q = Some e" "\<not> close_pending r q"
      "holding (ic r e)" "granted_vc (ic r e) = j" using o by (auto simp: owns_def)
    moreover have "q \<noteq> p" using q(2) p(2) ed by auto
    ultimately show ?thesis using ed by (simp add: r' owns_def upd_ic_def)
  qed
  moreover have "closed_by D d is r'"
    using cl p i(2) by (auto simp: closed_by_def r' upd_ic_def ic_release_def set_next_def)
  ultimately show ?thesis using wf dD by (simp add: mid_ok_def switch_ok_def)
qed

lemma mid_next: "mid_ok D d (i # is) r \<Longrightarrow> mid_ok D d is r"
  by (auto simp: mid_ok_def closed_by_def)

lemma ready_ok:
  assumes m: "mid_ok D d is r" and r: "Crossbar_ready d i port r = Some (b, r1)"
  shows "mid_ok D d is r1" "ic r1 = ic r" "close_pending r1 = close_pending r"
    "b \<Longrightarrow> \<exists>p. port_of port = Some p \<and> oc_last_sender r1 p = Some d"
proof -
  have wf: "router_wf r" using m by (simp add: mid_ok_def switch_ok_def)
  obtain p where p: "port_of port = Some p" using r by (auto simp: Crossbar_ready_def)
  have cases: "r1 = r \<or> oc_last_sender r p = None \<and> r1 = r\<lparr>oc_last_sender := (oc_last_sender r)(p := Some d)\<rparr>"
    and b: "b \<Longrightarrow> oc_last_sender r1 p = Some d"
    using r p by (auto simp: Crossbar_ready_def Let_def split: if_splits)
  from cases show "ic r1 = ic r" "close_pending r1 = close_pending r" by auto
  from b p show "b \<Longrightarrow> \<exists>p. port_of port = Some p \<and> oc_last_sender r1 p = Some d" by blast
  from cases show "mid_ok D d is r1"
  proof
    assume c: "oc_last_sender r p = None \<and> r1 = r\<lparr>oc_last_sender := (oc_last_sender r)(p := Some d)\<rparr>"
    have n: "\<not> close_pending r p" using m c by (fastforce simp: mid_ok_def closed_by_def)
    have "owns r1 e j" if "sending r1 e j" for e j
    proof -
      have "sending r e j" using that c by (simp add: sending_def)
      with m have "owns r e j" by (simp add: mid_ok_def switch_ok_def)
      with c show ?thesis by (auto simp: owns_def)
    qed
    moreover have "router_wf r1" using wf c by (simp add: router_wf_def)
    ultimately show ?thesis
      using m c n by (auto simp: mid_ok_def switch_ok_def closed_by_def)
  qed (use m in simp)
qed

text \<open>A granted channel that owns its output becomes a sender.\<close>

lemma grant_ok:
  assumes m: "mid_ok D d (i # is) r" and i: "i < 8" and st: "vc_state (ic r d) ! i = VC_STATE_VSA"
    and g: "granted_vc (ic r d) = i" and p: "port_of (send_port (ic r d) ! i) = Some p" "oc_last_sender r p = Some d"
  shows "mid_ok D d is (upd_ic d (\<lambda>c. ic_hold (set_next i VC_STATE_ST c)) r)"
proof -
  let ?r = "upd_ic d (\<lambda>c. ic_hold (set_next i VC_STATE_ST c)) r"
  have ok: "switch_ok r" and cl: "closed_by D d (i # is) r" and dD: "d \<notin> D" using m by (simp_all add: mid_ok_def)
  have len: "length (vc_next_state (ic r d)) = 8" using ok by (simp add: switch_ok_def router_wf_def ic_wf_def)
  have wf: "router_wf ?r"
    using switch_okD(1) [OF ok] i p by (intro router_wf_upd(1)) (auto intro!: ic_wf_misc ic_wf_next)
  have notclosed: "\<not> close_pending r p" using cl p(2) g dD by (auto simp: closed_by_def)
  have "phase_ok (ic ?r e) j" if "j < 8" for e j
    using switch_okD(2) [OF ok that] phase_next(2) [OF len i] st by (simp add: upd_ic_def)
  moreover have "owns ?r e j" if s: "sending ?r e j" for e j
  proof (cases "e = d \<and> j = i")
    case True
    with g p notclosed show ?thesis by (auto simp: owns_def upd_ic_def ic_hold_def set_next_def)
  next
    case False
    then have "sending r e j"
      using s next_nth [OF len i] by (auto simp: upd_ic_def sending_def ic_hold_def split: if_splits)
    then have "owns r e j" by (rule switch_okD(3) [OF ok])
    then show ?thesis by (auto simp: owns_def upd_ic_def ic_hold_def set_next_def)
  qed
  moreover have "closed_by D d is ?r" using cl by (auto simp: closed_by_def upd_ic_def ic_hold_def set_next_def)
  ultimately show ?thesis using wf dD by (simp add: mid_ok_def switch_ok_def)
qed

lemma rc_ok:
  assumes m: "mid_ok D d is r" and i: "i < 8" and st: "vc_state (ic r d) ! i \<noteq> VC_STATE_ST"
    "vc_state (ic r d) ! i \<noteq> VC_STATE_VSA"
  shows "mid_ok D d is (vc_rc d i f r)"
proof (cases "ftype f = FTYPE_HEAD \<or> ftype f = FTYPE_HEADTAIL")
  case True
  have ok: "switch_ok r" and cl: "closed_by D d is r" and dD: "d \<notin> D" using m by (simp_all add: mid_ok_def)
  have len: "length (vc_next_state (ic r d)) = 8" using ok by (simp add: switch_ok_def router_wf_def ic_wf_def)
  have st0: "vc_state (ic r d) ! i = 0" "vc_next_state (ic r d) ! i \<noteq> 2"
    using switch_okD(2) [OF ok i, of d] st by (auto simp: phase_ok_def)
  let ?ps = "(send_port (ic r d))[i := rtcomp (router_id r) (extractDst f)]"
  have eq: "vc_rc d i f r = upd_ic d (\<lambda>c. (set_next i VC_STATE_VSA c)\<lparr>send_port := ?ps\<rparr>) r"
    using True by (simp add: vc_rc_def upd_ic_def)
  have wf: "router_wf (vc_rc d i f r)"
    using vc_rc_keeps [OF switch_okD(1) [OF ok] i] by (simp add: keeps_def)
  have "phase_ok (ic (vc_rc d i f r) e) j" if "j < 8" for e j
    using switch_okD(2) [OF ok that] phase_next(3) [OF len i] st0 by (simp add: eq upd_ic_def)
  moreover have "owns (vc_rc d i f r) e j" if s: "sending (vc_rc d i f r) e j" for e j
  proof -
    have "sending r e j" "e = d \<longrightarrow> j \<noteq> i"
      using s next_nth [OF len i] st0 by (auto simp: eq upd_ic_def sending_def split: if_splits)
    with switch_okD(3) [OF ok] have "owns r e j" "e = d \<longrightarrow> j \<noteq> i" by blast+
    then show ?thesis by (auto simp: eq owns_def upd_ic_def set_next_def)
  qed
  moreover have "closed_by D d is (vc_rc d i f r)" using cl by (auto simp: eq closed_by_def upd_ic_def set_next_def)
  ultimately show ?thesis using wf dD by (simp add: mid_ok_def switch_ok_def)
qed (use m in \<open>simp add: vc_rc_def\<close>)

section \<open>A step keeps the invariant\<close>

lemma vc_st_ok:
  assumes m: "mid_ok D d (i # is) r" and i: "i < 8" "i \<notin> set is" and st: "vc_state (ic r d) ! i = VC_STATE_ST"
    and b: "ibuf (ic r d) ! i = f # q" "\<not> is_ack f" and s: "vc_st now d i f r = Some r'"
  shows "mid_ok D d is r'"
proof (cases "vc_next_state (ic r d) ! i = VC_STATE_RC")
  case True
  then show ?thesis using s mid_next [OF m] by (simp add: vc_st_def)
next
  case False
  have ok: "switch_ok r" using m by (simp add: mid_ok_def)
  have snd: "sending r d i" using switch_okD(2) [OF ok i(1), of d] st False i(1) by (auto simp: phase_ok_def sending_def)
  have wf': "router_wf r'" using vc_st_keeps [OF switch_okD(1) [OF ok] i(1) b st, of now] s by (auto simp: keeps_def)
  let ?port = "send_port (ic r d) ! i"
  obtain r2 where r2: "Crossbar_send d f i ?port (upd_ic d (pop_ibuf i) r) = Some r2"
    using s False by (cases "Crossbar_send d f i ?port (upd_ic d (pop_ibuf i) r)") (simp_all add: vc_st_def)
  have pop: "router_wf (upd_ic d (pop_ibuf i) r)" by (rule pop_held(1) [OF switch_okD(1) [OF ok] i(1) b(1)])
  have same: "same_switch r2 r"
    by (rule same_switch_trans [OF same_switch_ops(6) [OF r2] same_switch_ops(2)])
  have m2: "mid_ok D d (i # is) r2" by (rule same_switch_ok(2) [OF same send_held(1) [OF pop i(1) r2] m])
  show ?thesis
  proof (cases "ftype f = FTYPE_HEADTAIL \<or> ftype f = FTYPE_TAIL")
    case True
    then have c: "Crossbar_close ?port (upd_ic d (\<lambda>c. ic_release now (set_next i VC_STATE_RC c)) r2) = Some r'"
      using s r2 False by (simp add: vc_st_def)
    have eq: "send_port (ic r2 d) = send_port (ic r d)" "vc_state (ic r2 d) = vc_state (ic r d)" "sending r2 d i"
      using same snd by (simp_all add: same_switch_def sending_def)
    show ?thesis by (rule finish_ok [OF m2 i]) (use eq c st wf' in simp_all)
  next
    case no: False
    then have "r' = r2" using s r2 False by (simp add: vc_st_def)
    then show ?thesis using mid_next [OF m2] by simp
  qed
qed

lemma vc_vsa_ok:
  assumes m: "mid_ok D d (i # is) r" and i: "i < 8" and st: "vc_state (ic r d) ! i = VC_STATE_VSA"
    and s: "vc_vsa d i h r = Some (h', r')"
  shows "mid_ok D d is r'"
proof (cases "\<not> isGranted i (ic r d) \<and> \<not> h")
  case True
  then have r': "r' = upd_ic d (ic_request i) r" using s by (simp add: vc_vsa_def)
  have "router_wf r'" unfolding r'
    using m by (intro router_wf_upd(1) ic_wf_misc) (simp_all add: mid_ok_def switch_ok_def)
  then show ?thesis
    using same_switch_ok(2) [of r' r D d "i # is"] same_switch_ops(3) m mid_next unfolding r' by blast
next
  case False
  let ?port = "send_port (ic r d) ! i"
  obtain b r1 where r1: "Crossbar_ready d i ?port r = Some (b, r1)"
    using s False by (cases "Crossbar_ready d i ?port r") (auto simp: vc_vsa_def)
  note rdy = ready_ok [OF m r1]
  show ?thesis
  proof (cases "isGranted i (ic r d) \<and> b")
    case True
    then have r': "r' = upd_ic d (\<lambda>c. ic_hold (set_next i VC_STATE_ST c)) r1"
      using s r1 by (simp add: vc_vsa_def)
    obtain p where "port_of ?port = Some p" "oc_last_sender r1 p = Some d" using rdy(4) True by blast
    then show ?thesis unfolding r'
      using rdy(2) st True by (intro grant_ok [OF rdy(1) i]) (simp_all add: isGranted_def)
  next
    case no: False
    then have "r' = r1" using s r1 False by (auto simp: vc_vsa_def)
    then show ?thesis using mid_next [OF rdy(1)] by simp
  qed
qed

lemma vc_switch_ok:
  assumes m: "mid_ok D d (i # is) r" and i: "i < 8" "i \<notin> set is" and s: "vc_switch now d i h r = Some (h', r')"
  shows "mid_ok D d is r'"
proof (cases "ibuf (ic r d) ! i")
  case Nil
  then show ?thesis using s mid_next [OF m] by (simp add: vc_switch_def)
next
  case b: (Cons f q)
  have wf: "router_wf r" using m by (simp add: mid_ok_def switch_ok_def)
  show ?thesis
  proof (cases "is_ack f")
    case True
    then have r': "r' = upd_ic d (pop_ibuf i) (forwardAck d f r)" using s b by (simp add: vc_switch_def)
    have "router_wf r'" using vc_switch_keeps [OF wf i(1), of now d h] s by (auto simp: keeps_def)
    moreover have "same_switch r' r"
      unfolding r' by (rule same_switch_trans [OF same_switch_ops(2) same_switch_ops(4)])
    ultimately show ?thesis using same_switch_ok(2) m mid_next by blast
  next
    case False
    consider "vc_state (ic r d) ! i = VC_STATE_ST" | "vc_state (ic r d) ! i = VC_STATE_VSA"
      | "vc_state (ic r d) ! i \<noteq> VC_STATE_ST" "vc_state (ic r d) ! i \<noteq> VC_STATE_VSA" by blast
    then show ?thesis
    proof cases
      case 1
      then have "vc_st now d i f r = Some r'" using s b False by (simp add: vc_switch_def)
      then show ?thesis by (rule vc_st_ok [OF m i 1 b False])
    next
      case 2
      then have "vc_vsa d i h r = Some (h', r')" using s b False by (simp add: vc_switch_def)
      then show ?thesis by (rule vc_vsa_ok [OF m i(1) 2])
    next
      case 3
      then have "r' = r \<or> r' = vc_rc d i f r" using s b False by (auto simp: vc_switch_def split: if_splits)
      then show ?thesis using rc_ok [OF m i(1) 3] m mid_next by blast
    qed
  qed
qed

lemma update_ok:
  assumes m: "mid_ok D d is r" and i: "i < 8"
  shows "mid_ok D d is (upd_ic d (vc_update now i) r)"
proof -
  have ok: "switch_ok r" using m by (simp add: mid_ok_def)
  have len: "length (vc_state (ic r d)) = 8" using ok by (simp add: switch_ok_def router_wf_def ic_wf_def)
  have wf: "router_wf (upd_ic d (vc_update now i) r)"
    by (rule router_wf_upd(1) [OF switch_okD(1) [OF ok] ic_wf_update])
  have "phase_ok (vc_update now i (ic r d)) j" if j: "j < 8" for j
    using switch_okD(2) [OF ok j, of d] len i
    by (cases "j = i") (auto simp: phase_ok_def vc_update_def)
  then have "phase_ok (ic (upd_ic d (vc_update now i) r) e) j" if "j < 8" for e j
    using switch_okD(2) [OF ok that] that by (simp add: upd_ic_def)
  moreover have "vc_next_state (vc_update now i c) = vc_next_state c" "granted_vc (vc_update now i c) = granted_vc c"
    "holding (vc_update now i c) = holding c" "send_port (vc_update now i c) = send_port c" for c
    by (simp_all add: vc_update_def)
  ultimately show ?thesis
    using m wf by (simp add: mid_ok_def switch_ok_def closed_by_def sending_def owns_def upd_ic_def)
qed

lemma vc_loop_ok:
  "mid_ok D d is r \<Longrightarrow> \<forall>i \<in> set is. i < 8 \<Longrightarrow> distinct is \<Longrightarrow> vc_loop now d is h r = Some r' \<Longrightarrow> mid_ok D d [] r'"
proof (induction "is" arbitrary: h r)
  case (Cons i "is")
  obtain h1 r1 where s: "vc_switch now d i h r = Some (h1, r1)"
    using Cons.prems(4) by (cases "vc_switch now d i h r") auto
  have "mid_ok D d is r1" using vc_switch_ok [OF Cons.prems(1) _ _ s] Cons.prems(2,3) by simp
  then have "mid_ok D d is (upd_ic d (vc_update now i) r1)" using Cons.prems(2) by (intro update_ok) simp_all
  then show ?case using Cons.IH [of "upd_ic d (vc_update now i) r1" h1] Cons.prems(2-4) s by simp
qed simp

text \<open>An input may be granted to another channel only when no channel of it sends.\<close>

lemma arbitrate_ok:
  assumes ok: "switch_ok r"
  shows "switch_ok (upd_ic d (ic_arbitrate now) r)"
proof -
  have wf: "router_wf (upd_ic d (ic_arbitrate now) r)"
    by (rule router_wf_upd(1) [OF switch_okD(1) [OF ok] ic_wf_misc(5)])
  have same: "vc_state (ic_arbitrate now c) = vc_state c" "vc_next_state (ic_arbitrate now c) = vc_next_state c"
    "send_port (ic_arbitrate now c) = send_port c" "holding (ic_arbitrate now c) = holding c"
    "holding c \<Longrightarrow> granted_vc (ic_arbitrate now c) = granted_vc c" for c
    by (simp_all add: ic_arbitrate_def split: list.splits)
  show ?thesis
  proof (rule switch_okI [OF wf])
    fix e j assume "j < (8 :: nat)"
    then show "phase_ok (ic (upd_ic d (ic_arbitrate now) r) e) j"
      using switch_okD(2) [OF ok] by (simp add: upd_ic_def phase_ok_def same)
  next
    fix e j assume "sending (upd_ic d (ic_arbitrate now) r) e j"
    then have "sending r e j" by (auto simp: sending_def upd_ic_def same split: if_splits)
    then have "owns r e j" by (rule switch_okD(3) [OF ok])
    then show "owns (upd_ic d (ic_arbitrate now) r) e j" by (auto simp: owns_def upd_ic_def same)
  qed
qed

lemma InputChannel_step_ok:
  assumes "mid_ok D d [0..<8] r" "InputChannel_step now d r = Some r'"
  shows "switch_ok r' \<and> closed_by (insert d D) e [] r' \<and> (e \<notin> insert d D \<longrightarrow> mid_ok (insert d D) e [0..<8] r')"
proof -
  obtain r1 r2 where s: "vc_loop now d [0..<8] False r = Some r1" "ic_receive d r1 = Some r2"
    "r' = upd_ic d (ic_arbitrate now) (ic_ordy d r2)"
    using assms(2) by (auto simp: InputChannel_step_def)
  have m1: "mid_ok D d [] r1" using vc_loop_ok [OF assms(1) _ _ s(1)] by simp
  have w1: "router_wf r1" using m1 by (simp add: mid_ok_def switch_ok_def)
  have w2: "router_wf r2" using ic_receive_keeps [OF w1, of d] s(2) by (auto simp: keeps_def)
  have w3: "router_wf (ic_ordy d r2)" using w2 by (simp add: router_wf_def ic_ordy_def)
  have same: "same_switch (ic_ordy d r2) r1"
    by (rule same_switch_trans [OF same_switch_ops(5) same_switch_receive [OF s(2)]])
  have m3: "mid_ok D d [] (ic_ordy d r2)" by (rule same_switch_ok(2) [OF same w3 m1])
  then have ok: "switch_ok r'" unfolding s(3) by (intro arbitrate_ok) (simp add: mid_ok_def)
  have cl: "closed_by (insert d D) e' is r'" for e' "is"
    using m3 unfolding s(3) mid_ok_def closed_by_def by (auto simp: upd_ic_def)
  with ok show ?thesis by (simp add: mid_ok_def)
qed

lemma oc_step_at_same:
  assumes "router_wf r" "oc_step_at now d r = Some (out, r')"
  shows "same_switch r' r" "router_wf r'"
  using assms oc_step_at_keeps [OF assms(1), of now d]
  by (auto simp: oc_step_at_def intro: same_switch_ops)

lemma Router_step_ok:
  assumes ok: "switch_ok r" and nc: "\<forall>p. \<not> close_pending r p" and s: "Router_step now r = Some (out, r')"
  shows "switch_ok r' \<and> (\<forall>p. \<not> close_pending r' p)"
proof -
  obtain ol r1 where 1: "oc_step_at now Local r = Some (ol, r1)" using s by (auto simp: Router_step_def)
  obtain ou r2 where 2: "oc_step_at now Upper r1 = Some (ou, r2)" using s 1 by (auto simp: Router_step_def)
  obtain od r3 where 3: "oc_step_at now Lower r2 = Some (od, r3)" using s 1 2 by (auto simp: Router_step_def)
  obtain r4 where 4: "InputChannel_step now Local r3 = Some r4" using s 1 2 3 by (auto simp: Router_step_def)
  obtain r5 where 5: "InputChannel_step now Upper r4 = Some r5" using s 1 2 3 4 by (auto simp: Router_step_def)
  obtain r6 where 6: "InputChannel_step now Lower r5 = Some r6" "r' = Crossbar_step r6"
    using s 1 2 3 4 5 by (auto simp: Router_step_def)
  note o1 = oc_step_at_same [OF switch_okD(1) [OF ok] 1]
  note o2 = oc_step_at_same [OF o1(2) 2]
  note o3 = oc_step_at_same [OF o2(2) 3]
  have same: "same_switch r3 r" by (rule same_switch_trans [OF o3(1) same_switch_trans [OF o2(1) o1(1)]])
  have "mid_ok {} Local [0..<8] r3"
    using same_switch_ok(1) [OF same o3(2) ok] same nc by (simp add: mid_ok_def closed_by_def same_switch_def)
  from InputChannel_step_ok [OF this 4, of Upper] have "mid_ok {Local} Upper [0..<8] r4" by simp
  from InputChannel_step_ok [OF this 5, of Lower] have "mid_ok {Upper, Local} Lower [0..<8] r5" by simp
  from InputChannel_step_ok [OF this 6(1), of Lower] have ok6: "switch_ok r6" by simp
  have wf: "router_wf r'" using keeps_crossbar(3) [OF switch_okD(1) [OF ok6]] 6(2) by (simp add: keeps_def)
  have "owns r' e j" if "sending r' e j" for e j
  proof -
    have "sending r6 e j" using that 6(2) by (simp add: sending_def Crossbar_step_def)
    then have "owns r6 e j" by (rule switch_okD(3) [OF ok6])
    then show ?thesis using 6(2) by (auto simp: owns_def Crossbar_step_def)
  qed
  moreover have "ic r' = ic r6" "\<forall>p. \<not> close_pending r' p" using 6(2) by (simp_all add: Crossbar_step_def)
  ultimately show ?thesis using wf switch_okD(2) [OF ok6] by (simp add: switch_ok_def)
qed

section \<open>The states a router reaches\<close>

text \<open>
  The arrays of a router exist from its construction on. From a reset on, flits arrive on its ports
  and it is stepped, any number of times in a cycle, and it may be reset or be given another number.
\<close>

definition has_arrays :: "router \<Rightarrow> bool" where
  "has_arrays r \<longleftrightarrow>
     (\<forall>d. length (vc_last_state_update_time (ic r d)) = 8 \<and> length (send_port (ic r d)) = 8)"

inductive router_reaches :: "router \<Rightarrow> bool" where
  reset: "has_arrays r \<Longrightarrow> router_reaches (Router_reset now r)"
| arrival: "router_reaches r \<Longrightarrow> v < 8 \<Longrightarrow> router_reaches (r\<lparr>rx := (rx r)(d := port_pushData f v (rx r d))\<rparr>)"
| tick: "router_reaches r \<Longrightarrow> Router_step now r = Some (out, r') \<Longrightarrow> router_reaches r'"
| rename: "router_reaches r \<Longrightarrow> router_reaches (setID i r)"

lemma router_reaches_ok: "router_reaches r \<Longrightarrow> switch_ok r \<and> (\<forall>p. \<not> close_pending r p)"
proof (induction rule: router_reaches.induct)
  case (reset r now)
  then have "router_wf (Router_reset now r)" by (intro Router_reset_wf(1)) (simp add: has_arrays_def)
  moreover have "vc_state (ic (Router_reset now r) d) = replicate 8 0 \<and>
      vc_next_state (ic (Router_reset now r) d) = replicate 8 0 \<and> \<not> close_pending (Router_reset now r) d" for d
    by (cases d) (simp_all add: Router_reset_def InputChannel_reset_def upd_ic_def upd_oc_def ic_reset_def
        Crossbar_reset_def)
  ultimately show ?case by (auto simp: switch_ok_def phase_ok_def sending_def)
next
  case (arrival r v d f)
  let ?r = "r\<lparr>rx := (rx r)(d := port_pushData f v (rx r d))\<rparr>"
  have "router_wf ?r" using arrival switch_okD(1) by (auto simp: router_wf_def port_pushData_def)
  moreover have "same_switch ?r r" by (simp add: same_switch_def)
  ultimately show ?case using same_switch_ok(1) arrival by simp
next
  case (tick r now out r')
  then show ?case using Router_step_ok by blast
next
  case (rename r i)
  have "router_wf (setID i r)" using rename switch_okD(1) [of r] by (simp add: router_wf_def setID_def)
  moreover have "same_switch (setID i r) r" by (simp add: same_switch_def setID_def)
  ultimately show ?case using same_switch_ok(1) rename by (simp add: setID_def)
qed

lemma sender_unique:
  assumes "switch_ok r" "sending r d i" "sending r e j"
    "port_of (send_port (ic r d) ! i) = port_of (send_port (ic r e) ! j) \<or> d = e"
  shows "d = e \<and> i = j"
proof -
  have "owns r d i" "owns r e j" using assms(2,3) switch_okD(3) [OF assms(1)] by blast+
  then show ?thesis using assms(4) by (auto simp: owns_def)
qed

end
