(* ===== verification/Router_Props.thy ===== *)
theory Router_Props
  imports Router_Net Router_Excl
begin

text \<open>The properties of the routers and of the network they form.\<close>

section \<open>Concrete routers\<close>

definition demo_ic :: input_channel where
  "demo_ic = \<lparr>vc_state = [], vc_next_state = [], vc_last_state_update_time = [], granted_vc = 0, grant_release_time = 0,
     request_pending = [], holding = False, ibuf = [], send_port = replicate 8 0, ic_bufMaxSize = 0, ic_packetMaxSize = 0\<rparr>"

definition demo_oc :: output_channel where
  "demo_oc = \<lparr>oc_readyStat = [], obuf = [], ackEnabled = False, iackbuf = [], send_count = [], ack_count = [],
     oc_bufMaxSize = 0, oc_packetMaxSize = 0, send_flit_count = 0\<rparr>"

definition demo_router :: "u32 \<Rightarrow> router" where
  "demo_router k = Router_reset 1 (Router_new 20 16 k
     \<lparr>router_id = 0, ic = \<lambda>d. demo_ic, oc = \<lambda>d. demo_oc, rx = \<lambda>d. [], icLocalRdy = [], oc_last_sender = \<lambda>d. None,
      close_pending = \<lambda>d. False, sender_update_time = 0\<rparr>)"

text \<open>A packet of a head and a tail flit for node 1, on virtual channel 2.\<close>

definition demo_head :: flit where
  "demo_head = make_head_flit 0x40 MTYPE_SW 2 0 1 False"

definition demo_net :: chip_net where
  "demo_net = \<lparr>routers = [demo_router 0, demo_router 1], chip_rx = [[], []]\<rparr>"

definition demo_events :: "net_event list" where
  "demo_events = [Send 0 demo_head 2, Tick 2 0, Tick 2 1, Send 0 (make_data_flit 0xABCD True) 2, Tick 3 0, Tick 3 0]"

fun ticks :: "u32 list \<Rightarrow> router \<Rightarrow> router option" where
  "ticks [] r = Some r"
| "ticks (t # ts) r = (case Router_step t r of None \<Rightarrow> None | Some (out, r') \<Rightarrow> ticks ts r')"

lemma ticks_reaches: "router_reaches r \<Longrightarrow> ticks ts r = Some r' \<Longrightarrow> router_reaches r'"
  by (induction ts arbitrary: r) (auto split: option.splits intro: router_reaches.tick)

lemma demo_router_arrays:
  "has_arrays (Router_new 20 16 k
     \<lparr>router_id = 0, ic = \<lambda>d. demo_ic, oc = \<lambda>d. demo_oc, rx = \<lambda>d. [], icLocalRdy = [], oc_last_sender = \<lambda>d. None,
      close_pending = \<lambda>d. False, sender_update_time = 0\<rparr>)"
  by (simp add: has_arrays_def Router_new_def InputChannel_new_def demo_ic_def)

lemma demo_router_ok: "router_reaches (demo_router k)" "router_wf (demo_router k)" "held (demo_router k) = {#}"
  using router_reaches.reset [OF demo_router_arrays] Router_reset_wf demo_router_arrays
  by (simp_all add: demo_router_def has_arrays_def)

lemma demo_net_wf: "net_wf demo_net" "in_net demo_net = {#}"
  by (simp_all add: net_wf_def demo_net_def in_net_def demo_router_ok)

text \<open>In cycle 5 the head has passed the three stages and its channel may send.\<close>

lemma upt_eval: "[0..<8] = [0, 1, 2, 3, 4, 5, 6, 7 :: nat]" "[0..<4] = [0, 1, 2, 3 :: nat]" "[4..<8] = [4, 5, 6, 7 :: nat]"
  "replicate 8 x = [x, x, x, x, x, x, x, x]"
  by (simp_all add: upt_rec numeral_eq_Suc)

lemma demo_ticks:
  "\<exists>r. ticks [2, 3, 4, 5] (slave_receive Local [\<lparr>e_flit = demo_head, e_vch = 2\<rparr>] (demo_router 0)) = Some r \<and>
     vc_next_state (ic r Local) ! 2 = VC_STATE_ST"
  by (simp del: bind_Some_iff
      add: demo_router_def demo_ic_def demo_oc_def router_defs upt_eval demo_head_def slave_receive_def)

lemma demo_sender: "\<exists>r. router_reaches r \<and> sending r Local 2"
proof -
  let ?r = "(demo_router 0)\<lparr>rx := (rx (demo_router 0))(Local := port_pushData demo_head 2 (rx (demo_router 0) Local))\<rparr>"
  have "router_reaches ?r" by (intro router_reaches.arrival demo_router_ok(1)) simp
  moreover have "?r = slave_receive Local [\<lparr>e_flit = demo_head, e_vch = 2\<rparr>] (demo_router 0)"
    by (simp add: slave_receive_def)
  ultimately show ?thesis using demo_ticks ticks_reaches by (fastforce simp: sending_def)
qed

section \<open>Properties\<close>

text \<open>
  C5. The network of chips loses, duplicates and alters nothing: whatever the order and the number of the
  steps of the routers and whatever is sent, no router runs into \<open>abort()\<close> or reads an empty queue,
  and the data flits in the routers and in the receive queues of the chips at the end, with those
  dropped at a port without a connection, are exactly those at the start and those sent.
\<close>
theorem network_conserves_flits:
  assumes "net_wf n" "\<forall>e \<in> set es. event_ok (length (routers n)) e"
  shows "\<exists>lost n'. net_run es n = Some (lost, n') \<and> net_wf n' \<and>
    in_net n' + data_flits (map e_flit lost) = in_net n + data_flits (sent es)"
  by (rule net_run_keeps [OF assms])

theorem network_conserves_flits_witness:
  "\<exists>lost n'. net_run demo_events demo_net = Some (lost, n') \<and>
    in_net n' + data_flits (map e_flit lost) = {#demo_head, make_data_flit 0xABCD True#}"
proof -
  have "\<forall>e \<in> set demo_events. event_ok (length (routers demo_net)) e"
    by (simp add: demo_events_def demo_net_def event_ok_def)
  from network_conserves_flits [OF demo_net_wf(1) this] obtain lost n' where
    "net_run demo_events demo_net = Some (lost, n')"
    "in_net n' + data_flits (map e_flit lost) = in_net demo_net + data_flits (sent demo_events)" by blast
  moreover have "sent demo_events = [demo_head, make_data_flit 0xABCD True]"
    by (simp add: sent_def demo_events_def)
  moreover have "\<not> is_ack demo_head" "\<not> is_ack (make_data_flit 0xABCD True)"
    by (simp_all add: is_ack_def demo_head_def make_head_flit_def make_data_flit_def)
  ultimately show ?thesis using demo_net_wf(2) by simp
qed

text \<open>
  C25. In every state a router reaches, the virtual channels that may send use different outputs, and an input
  has at most one of them: two packets never share an output between their heads and their tails.
\<close>
theorem outputs_are_exclusive:
  assumes "router_reaches r" "sending r d i" "sending r e j"
    "port_of (send_port (ic r d) ! i) = port_of (send_port (ic r e) ! j) \<or> d = e"
  shows "d = e \<and> i = j"
  using sender_unique [OF conjunct1 [OF router_reaches_ok [OF assms(1)]] assms(2-4)] .

theorem outputs_are_exclusive_witness:
  "\<exists>r. router_reaches r \<and> sending r Local 2 \<and> (\<forall>j. sending r Local j \<longrightarrow> 2 = j)"
proof -
  obtain r where r: "router_reaches r" "sending r Local 2" using demo_sender by blast
  then have "\<forall>j. sending r Local j \<longrightarrow> 2 = j" using outputs_are_exclusive [OF r, of Local] by blast
  with r show ?thesis by blast
qed

text \<open>
  C33. A packet reaches its chip along the shortest way: from the chip \<open>x\<close> the routers lead to \<open>dst\<close> in
  exactly as many hops as their numbers differ, and it does not come to \<open>dst\<close> before.
\<close>
theorem routing_is_shortest:
  "(hop dst ^^ nat \<bar>uint dst - uint x\<bar>) x = dst \<and> (\<forall>k < nat \<bar>uint dst - uint x\<bar>. (hop dst ^^ k) x \<noteq> dst)"
proof (cases "uint x \<le> uint dst")
  case True
  then have "uint dst = uint x + int (nat \<bar>uint dst - uint x\<bar>)" by simp
  from hops_down [OF this] True show ?thesis by (force simp: word_uint_eq_iff)
next
  case False
  then have "uint x = uint dst + int (nat \<bar>uint dst - uint x\<bar>)" by simp
  from hops_up [OF this] False show ?thesis by (force simp: word_uint_eq_iff)
qed

theorem routing_is_shortest_witness:
  "(hop 3 ^^ 2) 1 = 3 \<and> (hop 3 ^^ 1) 1 \<noteq> 3"
proof -
  have n: "nat \<bar>uint (3 :: u32) - uint (1 :: u32)\<bar> = 2" by simp
  show ?thesis using routing_is_shortest [of 3 1] unfolding n by (simp del: funpow.simps One_nat_def)
qed

text \<open>
  The acknowledgements a router sends give back what it counted, with one exception: in an odd cycle a
  counter of the upper four virtual channels that is above the maximum of the field is not lowered,
  so its fifteen credits are given back again in every later odd cycle.
\<close>
lemma acknowledged_credits:
  assumes "length (ack_count c) = 8" "\<forall>n \<in> set (ack_count c). 0 \<le> n" "ackSend now c = (out, c')" "i < 8"
  shows "credits out ! i + ack_count c' ! i =
    ack_count c ! i + (if now mod 2 \<noteq> 0 \<and> 4 \<le> i \<and> ack_count c ! i > 15 then 15 else 0)"
  by (rule ackSend_credits [OF assms])

text \<open>
  Encoding a head flit and decoding it gives every field back, for field values that fit: an
  address of 22 bits, a message type and a virtual channel of three, and node numbers of two.
\<close>
lemma head_flit_roundtrip:
  assumes "addr < 2 ^ 22" "mtype < 2 ^ 3" "vch < 2 ^ 3" "src < 2 ^ 2" "dst < 2 ^ 2"
  shows "decode_headflit (make_head_flit addr mtype vch src dst tail) = (addr, mtype, vch, src, dst) \<and>
    extractDst (make_head_flit addr mtype vch src dst tail) = dst"
  using head_flit_decode [OF assms] by simp

end
