(* ===== verification/Dmac.thy ===== *)
theory Dmac
  imports Mapper Int_Ctrl
begin

unbundle bit_operations_syntax

text \<open>
  \<open>dmac.h\<close> and \<open>dmac.cc\<close>: the DMA controller. It moves a query of \<open>q_len\<close> words, or of blocks of
  \<open>block_words\<close> words in burst mode, through its buffer: it takes the bus, requests and reads, gives
  the bus up, takes it again, requests and writes. One call of \<open>DMAC_step\<close> is one cycle.

  Its registers are the \<open>DMACConfig\<close> object at the index \<open>dma_cfg\<close> of the ranges of the mapper, where
  the processor reaches them too. The controller is the bus master \<open>dma_client\<close> and the interrupt
  device \<open>dma_dev\<close>. Leaving the buffer is the result \<^const>\<open>None\<close>.
\<close>

abbreviation (input) DMAC_STAT_IDLE :: nat where "DMAC_STAT_IDLE \<equiv> 0"
abbreviation (input) DMAC_STAT_READING :: nat where "DMAC_STAT_READING \<equiv> 1"
abbreviation (input) DMAC_STAT_READ_REQ :: nat where "DMAC_STAT_READ_REQ \<equiv> 2"
abbreviation (input) DMAC_STAT_WRITING :: nat where "DMAC_STAT_WRITING \<equiv> 3"
abbreviation (input) DMAC_STAT_WRITE_REQ :: nat where "DMAC_STAT_WRITE_REQ \<equiv> 4"
abbreviation (input) DMAC_STAT_READ_DONE :: nat where "DMAC_STAT_READ_DONE \<equiv> 5"
abbreviation (input) DMAC_STAT_WRITE_DONE :: nat where "DMAC_STAT_WRITE_DONE \<equiv> 6"
abbreviation (input) DMAC_STAT_EXIT :: nat where "DMAC_STAT_EXIT \<equiv> 7"

record dmac =
  dma_client :: client
  dma_cfg :: nat
  dma_dev :: nat
  dma_buffer :: "u32 list"
  dma_status :: nat
  dma_next_status :: nat
  dma_block_words :: nat
  dma_query :: dma_query
  dma_counter :: u32
  dma_word_counter :: nat
  dma_bandwidth :: nat
  dma_exception_pending :: bool

section \<open>The registers\<close>

definition dma_config :: "dmac \<Rightarrow> mapper \<Rightarrow> dmac_config option" where
  "dma_config d m = (case ranges m ! dma_cfg d of DMACConfig r c \<Rightarrow> Some c | _ \<Rightarrow> None)"

definition upd_config :: "dmac \<Rightarrow> (dmac_config \<Rightarrow> dmac_config) \<Rightarrow> mapper \<Rightarrow> mapper" where
  "upd_config d f m =
     (case ranges m ! dma_cfg d of
        DMACConfig r c \<Rightarrow> m\<lparr>ranges := (ranges m)[dma_cfg d := DMACConfig r (f c)]\<rparr>
      | _ \<Rightarrow> m)"

section \<open>Construction and reset\<close>

text \<open>The fields the constructor does not set keep the values of the object it starts from.\<close>

definition DMAC_new :: "client \<Rightarrow> nat \<Rightarrow> nat \<Rightarrow> nat \<Rightarrow> mapper \<Rightarrow> dmac \<Rightarrow> dmac \<times> mapper" where
  "DMAC_new cl dev dcachebsize bandwidth m d =
     (d\<lparr>dma_client := cl, dma_dev := dev, dma_cfg := length (ranges m), dma_block_words := dcachebsize div 4,
        dma_buffer := replicate (dcachebsize div 4) 0, dma_bandwidth := bandwidth\<rparr>,
      snd (map_at_physical_address
        (DMACConfig (Range_new 0 DMAC_CONF_SIZE [] MEM_READ_WRITE) (DMACConfig_new (opt_bigendian m) (host_bigendian m)))
        DMAC_ADDR_BASE m))"

definition DMAC_reset :: "dmac \<Rightarrow> mapper \<Rightarrow> dmac \<times> mapper" where
  "DMAC_reset d m =
     (d\<lparr>dma_status := DMAC_STAT_IDLE, dma_exception_pending := False\<rparr>, upd_config d DMACConfig_reset m)"

definition DMAC_exception :: "exc_info list \<Rightarrow> dmac \<Rightarrow> dmac" where
  "DMAC_exception es d =
     d\<lparr>dma_exception_pending := dma_exception_pending d \<or> (\<exists>e \<in> set es. excCode e = Exc_DBE)\<rparr>"

section \<open>The states\<close>

definition address_valid :: "dmac \<Rightarrow> u32 \<Rightarrow> bool" where
  "address_valid d addr \<longleftrightarrow>
     addr mod (if q_burst (dma_query d) then of_nat (dma_block_words d) * 4 else 4) = 0"

definition goto :: "nat \<Rightarrow> dmac \<Rightarrow> dmac" where
  "goto st d = d\<lparr>dma_next_status := st\<rparr>"

definition dma_idle :: "mapper \<Rightarrow> dmac \<Rightarrow> (dmac \<times> mapper) option" where
  "dma_idle m d = do {
     c \<leftarrow> dma_config d m;
     Some (if dc_kicked c then
        let m1 = upd_config d (\<lambda>c. c\<lparr>dc_busy := True, dc_kicked := False\<rparr>) m;
            d1 = d\<lparr>dma_query := getQuery c, dma_counter := 0, dma_word_counter := 0\<rparr>
        in if address_valid d1 (q_src (dma_query d1))
           then (goto (if q_zero_write (dma_query d1) then DMAC_STAT_WRITE_REQ else DMAC_STAT_READ_REQ) d1, m1)
           else (goto DMAC_STAT_EXIT d1, upd_config d (\<lambda>c. c\<lparr>dc_addr_err := True\<rparr>) m1)
      else (d, m))
   }"

text \<open>The address of the current word of a transfer at \<open>base\<close>.\<close>

definition dma_addr :: "dmac \<Rightarrow> u32 \<Rightarrow> nat \<Rightarrow> u32" where
  "dma_addr d base i =
     (if q_burst (dma_query d) then base + of_nat (dma_block_words d) * dma_counter d * 4 + 4 * of_nat i
      else base + 4 * dma_counter d)"

definition dma_request :: "u32 \<Rightarrow> u32 \<Rightarrow> int \<Rightarrow> nat \<Rightarrow> mapper \<Rightarrow> dmac \<Rightarrow> dmac \<times> mapper" where
  "dma_request now base md st m d =
     (let (granted, m1) = mem_acquire_bus now (dma_client d) m
      in if granted then
           (goto st (d\<lparr>dma_word_counter := 0\<rparr>),
            if q_burst (dma_query d)
            then foldl (\<lambda>m i. request_word now (dma_addr d base i) md (dma_client d) m) m1 [0..<dma_block_words d]
            else request_word now (dma_addr d base 0) md (dma_client d) m1)
         else (d, m1))"

definition dma_finished :: "dmac \<Rightarrow> bool" where
  "dma_finished d \<longleftrightarrow> dma_word_counter d = dma_block_words d \<or> \<not> q_burst (dma_query d)"

primrec dma_reading :: "u32 \<Rightarrow> nat \<Rightarrow> mapper \<Rightarrow> dmac \<Rightarrow> (dmac \<times> mapper) option" where
  "dma_reading now 0 m d = Some (d, m)"
| "dma_reading now (Suc n) m d = do {
     let addr = dma_addr d (q_src (dma_query d)) (dma_word_counter d);
     (rdy, m1) \<leftarrow> mem_ready now addr DATALOAD (dma_client d) m;
     if rdy then do {
       check (dma_word_counter d < length (dma_buffer d));
       (w, m2, es) \<leftarrow> mem_fetch_word now addr DATALOAD (dma_client d) m1;
       let d1 = DMAC_exception es
         (d\<lparr>dma_buffer := (dma_buffer d)[dma_word_counter d := w], dma_word_counter := dma_word_counter d + 1\<rparr>);
       if dma_finished d1 then Some (goto DMAC_STAT_READ_DONE d1, m2) else dma_reading now n m2 d1
     } else dma_reading now n m1 d
   }"

definition dma_read_done :: "u32 \<Rightarrow> mapper \<Rightarrow> dmac \<Rightarrow> (dmac \<times> mapper) option" where
  "dma_read_done now m d = do {
     let m1 = mem_release_bus now (dma_client d) m;
     c \<leftarrow> dma_config d m1;
     Some (if address_valid d (q_dst (dma_query d))
       then (goto DMAC_STAT_WRITE_REQ d, upd_config d (\<lambda>c. c\<lparr>dc_end_stat := False\<rparr>) m1)
       else if dc_abort c then (goto DMAC_STAT_EXIT d, m1)
       else (goto DMAC_STAT_EXIT d, upd_config d (\<lambda>c. c\<lparr>dc_end_stat := True, dc_addr_err := True\<rparr>) m1))
   }"

primrec dma_writing :: "u32 \<Rightarrow> nat \<Rightarrow> mapper \<Rightarrow> dmac \<Rightarrow> (dmac \<times> mapper) option" where
  "dma_writing now 0 m d = Some (d, m)"
| "dma_writing now (Suc n) m d = do {
     check (q_zero_write (dma_query d) \<or> dma_word_counter d < length (dma_buffer d));
     let data = (if q_zero_write (dma_query d) then 0 else dma_buffer d ! dma_word_counter d);
     let addr = dma_addr d (q_dst (dma_query d)) (dma_word_counter d);
     (rdy, m1) \<leftarrow> mem_ready now addr DATASTORE (dma_client d) m;
     if rdy then do {
       (m2, es) \<leftarrow> mem_store_word now addr data (dma_client d) m1;
       let d1 = DMAC_exception es (d\<lparr>dma_word_counter := dma_word_counter d + 1\<rparr>);
       if dma_finished d1 then Some (goto DMAC_STAT_WRITE_DONE d1, m2) else dma_writing now n m2 d1
     } else dma_writing now n m1 d
   }"

definition dma_write_done :: "mapper \<Rightarrow> dmac \<Rightarrow> (dmac \<times> mapper) option" where
  "dma_write_done m d = do {
     c \<leftarrow> dma_config d m;
     let d1 = d\<lparr>dma_counter := dma_counter d + 1\<rparr>;
     Some (goto (if dma_counter d1 = q_len (dma_query d) then DMAC_STAT_EXIT
         else if dc_abort c then DMAC_STAT_EXIT
         else if q_zero_write (dma_query d) then DMAC_STAT_WRITE_REQ else DMAC_STAT_READ_REQ) d1,
       upd_config d (\<lambda>c. c\<lparr>dc_end_stat := True\<rparr>) m)
   }"

definition dma_exit :: "u32 \<Rightarrow> mapper \<Rightarrow> dmac \<Rightarrow> dmac \<times> mapper" where
  "dma_exit now m d =
     (goto DMAC_STAT_IDLE d,
      upd_config d (\<lambda>c. c\<lparr>dc_done := True, dc_busy := False, dc_success_len := dma_counter d\<rparr>)
        (mem_release_bus now (dma_client d) m))"

section \<open>A cycle\<close>

definition dma_state_step :: "u32 \<Rightarrow> mapper \<Rightarrow> dmac \<Rightarrow> (dmac \<times> mapper) option" where
  "dma_state_step now m d =
     (if dma_status d = DMAC_STAT_IDLE then dma_idle m d
      else if dma_status d = DMAC_STAT_READ_REQ then
        Some (dma_request now (q_src (dma_query d)) DATALOAD DMAC_STAT_READING m d)
      else if dma_status d = DMAC_STAT_READING then dma_reading now (dma_bandwidth d) m d
      else if dma_status d = DMAC_STAT_READ_DONE then dma_read_done now m d
      else if dma_status d = DMAC_STAT_WRITE_REQ then
        Some (dma_request now (q_dst (dma_query d)) DATASTORE DMAC_STAT_WRITING m d)
      else if dma_status d = DMAC_STAT_WRITING then dma_writing now (dma_bandwidth d) m d
      else if dma_status d = DMAC_STAT_WRITE_DONE then dma_write_done m d
      else if dma_status d = DMAC_STAT_EXIT then Some (dma_exit now m d)
      else Some (d, m))"

definition dma_update :: "dmac \<times> mapper \<Rightarrow> dmac \<times> mapper" where
  "dma_update dm =
     (let (d, m) = dm;
          (d1, m1) = (if dma_exception_pending d
            then (goto DMAC_STAT_EXIT d\<lparr>dma_exception_pending := False\<rparr>,
                  upd_config d (\<lambda>c. c\<lparr>dc_bus_err := True\<rparr>) m)
            else (d, m))
      in (d1\<lparr>dma_status := dma_next_status d1\<rparr>, m1))"

definition dma_interrupt :: "dmac \<Rightarrow> mapper \<Rightarrow> int_ctrl \<Rightarrow> int_ctrl option" where
  "dma_interrupt d m ic = do {
     c \<leftarrow> dma_config d m;
     Some (if dc_done c \<and> dc_irq_en c then dev_assert IRQ5 (dma_dev d) ic else dev_deassert IRQ5 (dma_dev d) ic)
   }"

definition DMAC_step :: "u32 \<Rightarrow> mapper \<Rightarrow> int_ctrl \<Rightarrow> dmac \<Rightarrow> (dmac \<times> mapper \<times> int_ctrl) option" where
  "DMAC_step now m ic d = do {
     c \<leftarrow> dma_config d m;
     (d1, m1) \<leftarrow> (if dc_enabled c
        then map_option dma_update (dma_state_step now m (goto (dma_status d) d))
        else Some (d, m));
     ic1 \<leftarrow> dma_interrupt d1 m1 ic;
     Some (d1, m1, ic1)
   }"

text \<open>\<open>n\<close> cycles from cycle \<open>t\<close> on.\<close>

primrec dma_cycles :: "u32 \<Rightarrow> nat \<Rightarrow> mapper \<Rightarrow> int_ctrl \<Rightarrow> dmac \<Rightarrow> (dmac \<times> mapper \<times> int_ctrl) option" where
  "dma_cycles t 0 m ic d = Some (d, m, ic)"
| "dma_cycles t (Suc n) m ic d = do { (d1, m1, ic1) \<leftarrow> DMAC_step t m ic d; dma_cycles (t + 1) n m1 ic1 d1 }"

lemmas dmac_defs [cube_defs] =
  dma_config_def upd_config_def DMAC_new_def DMAC_reset_def DMAC_exception_def address_valid_def goto_def
  dma_idle_def dma_addr_def dma_request_def dma_finished_def dma_read_done_def dma_write_done_def dma_exit_def
  dma_state_step_def dma_update_def dma_interrupt_def DMAC_step_def

end
