(* ===== verification/Dmac_Copy.thy ===== *)
theory Dmac_Copy
  imports Dmac Flat_Memory
begin

unbundle bit_operations_syntax

text \<open>
  What the DMA controller does with the bus to itself: word by word it copies the source to the
  destination, each word in the latencies of the two words plus four cycles, and then reports done.
\<close>

section \<open>The memory seen by the controller\<close>

text \<open>\<open>port L md a m\<close>: the word at \<open>a\<close> is memory of latency \<open>L\<close> that allows the access \<open>md\<close>.\<close>

definition port :: "u32 \<Rightarrow> int \<Rightarrow> u32 \<Rightarrow> mapper \<Rightarrow> bool" where
  "port L md a m \<longleftrightarrow> unat a mod 4 = 0 \<and>
     (\<exists>i. ram_at m a i \<and> (if md = DATALOAD then canRead else canWrite) (obj_range (ranges m ! i)) \<and>
        bus_latency m + obj_extra_latency (ranges m ! i) = L)"

definition same_ram :: "mapper \<Rightarrow> mapper \<Rightarrow> bool" where
  "same_ram m' m \<longleftrightarrow> opt_bigendian m' = opt_bigendian m \<and> debug_mode m' = debug_mode m \<and>
     (\<forall>L md a. port L md a m' = port L md a m)"

lemma same_ram_refl [simp]: "same_ram m m"
  by (simp add: same_ram_def)

lemma same_ram_trans: "same_ram m2 m1 \<Longrightarrow> same_ram m1 m \<Longrightarrow> same_ram m2 m"
  by (simp add: same_ram_def)

lemma same_layout_same_ram:
  assumes "same_layout m' m"
  shows "same_ram m' m"
proof -
  let ?ok = "\<lambda>m L md a i. (if md = DATALOAD then canRead else canWrite) (obj_range (ranges m ! i)) \<and>
      bus_latency m + obj_extra_latency (ranges m ! i) = L"
  have "(ram_at m' a i \<and> ?ok m' L md a i) = (ram_at m a i \<and> ?ok m L md a i)" for L md a i
  proof (cases "ram_at m a i")
    case True
    then have i: "i < length (ranges m)" using first_mapping_SomeD by (auto simp: ram_at_def)
    show ?thesis
      using True same_layout_ram_at [OF assms] same_layout_perms [OF assms i] same_layout_nth [OF assms i] assms
      by (simp add: same_layout_def same_window_def)
  qed (use same_layout_ram_at [OF assms] in simp)
  then have "port L md a m' = port L md a m" for L md a by (simp add: port_def)
  then show ?thesis using assms by (simp add: same_ram_def same_layout_def)
qed

lemma same_ram_fields:
  "same_ram (m\<lparr>last_used_mapping := l\<rparr>) m" "same_ram (m\<lparr>bus_arbiter := b\<rparr>) m"
  "same_ram (m\<lparr>access_requests_time := f\<rparr>) m"
  by (simp_all add: same_ram_def port_def ram_at_def)

lemma mem_view_fields:
  "mem_view (m\<lparr>last_used_mapping := l\<rparr>) = mem_view m" "mem_view (m\<lparr>bus_arbiter := b\<rparr>) = mem_view m"
  "mem_view (m\<lparr>access_requests_time := f\<rparr>) = mem_view m"
  by (auto simp: mem_view_def fun_eq_iff split: option.splits)

lemma fetch_other_ranges:
  assumes "mapper_wf m" "first_mapping (ranges m) a = Some i" "mem_fetch_word now a md c m = Some (w, m', es)" "j \<noteq> i"
  shows "ranges m' ! j = ranges m ! j" "length (ranges m') = length (ranges m)"
  using assms
  by (auto simp: mem_fetch_word_def find_mapping_mapped Let_def mem_ready_used erase_request_def bus_error_def
      split: if_splits)

lemma store_other_ranges:
  assumes "mapper_wf m" "first_mapping (ranges m) a = Some i" "mem_store_word now a v c m = Some (m', es)" "j \<noteq> i"
  shows "ranges m' ! j = ranges m ! j" "length (ranges m') = length (ranges m)"
  using assms
  by (auto simp: mem_store_word_def find_mapping_mapped Let_def mem_ready_used erase_request_def bus_error_def
      split: if_splits)

section \<open>The registers\<close>

lemma config_upd:
  assumes "dma_config d m = Some c" "dma_cfg d < length (ranges m)"
  shows "dma_config d (upd_config d f m) = Some (f c)" "length (ranges (upd_config d f m)) = length (ranges m)"
    "access_requests_time (upd_config d f m) = access_requests_time m"
    "bus_arbiter (upd_config d f m) = bus_arbiter m"
    "mem_view (upd_config d f m) = mem_view m" "same_ram (upd_config d f m) m"
    "mapper_wf m \<Longrightarrow> mapper_wf (upd_config d f m)"
proof -
  obtain r where r: "ranges m ! dma_cfg d = DMACConfig r c"
    using assms(1) by (auto simp: dma_config_def split: range_obj.splits)
  let ?l = "DMACConfig r (f c)"
  have eq: "upd_config d f m = m\<lparr>ranges := (ranges m)[dma_cfg d := ?l]\<rparr>" using r by (simp add: upd_config_def)
  have win: "same_window ?l (ranges m ! dma_cfg d)" using r by (simp add: same_window_def)
  show "dma_config d (upd_config d f m) = Some (f c)" "length (ranges (upd_config d f m)) = length (ranges m)"
    "access_requests_time (upd_config d f m) = access_requests_time m"
    "bus_arbiter (upd_config d f m) = bus_arbiter m"
    using assms(2) by (simp_all add: eq dma_config_def)
  have "mem_view (upd_config d f m) p = mem_view m p" for p
    using mem_view_update [OF win assms(2), of p] r by (auto simp: eq mem_view_def split: option.splits)
  then show "mem_view (upd_config d f m) = mem_view m" by blast
  have "same_layout (upd_config d f m) m"
    using same_layout_update [OF assms(2) win, where u = "last_used_mapping m" and f = "access_requests_time m"] r by (simp add: eq)
  then show "same_ram (upd_config d f m) m" by (rule same_layout_same_ram)
  show "mapper_wf m \<Longrightarrow> mapper_wf (upd_config d f m)" using mapper_wf_update [OF _ assms(2) win] by (simp add: eq)
qed

section \<open>Runs of the controller\<close>

text \<open>
  \<open>goes t n\<close>: in the \<open>n\<close> cycles from \<open>t\<close> on the controller and the memory go from one state to the
  other; what happens to the interrupt line is left open.
\<close>

definition goes :: "u32 \<Rightarrow> nat \<Rightarrow> dmac \<times> mapper \<Rightarrow> dmac \<times> mapper \<Rightarrow> bool" where
  "goes t n s s' \<longleftrightarrow> (\<forall>ic. \<exists>ic'. dma_cycles t n (snd s) ic (fst s) = Some (fst s', snd s', ic'))"

lemma goes_0: "goes t 0 s s"
  by (simp add: goes_def)

lemma dma_cycles_append:
  "dma_cycles t (n + k) m ic d = do {
     (d1, m1, ic1) \<leftarrow> dma_cycles t n m ic d;
     dma_cycles (t + of_nat n) k m1 ic1 d1
   }"
proof (induction n arbitrary: t m ic d)
  case (Suc n)
  show ?case by (cases "DMAC_step t m ic d") (auto simp: Suc.IH add.assoc)
qed simp

lemma goes_append: "goes t n s s1 \<Longrightarrow> goes (t + of_nat n) k s1 s2 \<Longrightarrow> goes t (n + k) s s2"
  unfolding goes_def dma_cycles_append by fastforce

lemma goes_step:
  assumes "dma_config d m = Some c" "dc_enabled c" "dma_state_step now m (goto (dma_status d) d) = Some (d1, m1)"
    "\<not> dma_exception_pending d1" "dma_config d1 m1 = Some c1"
  shows "goes now 1 (d, m) (d1\<lparr>dma_status := dma_next_status d1\<rparr>, m1)"
proof -
  have "dma_config (d1\<lparr>dma_status := dma_next_status d1\<rparr>) m1 = Some c1" using assms(5) by (simp add: dma_config_def)
  then show ?thesis
    using assms by (simp add: goes_def DMAC_step_def dma_update_def dma_interrupt_def)
qed

text \<open>\<open>engine c st d m\<close>: the controller copies words and is in the state \<open>st\<close>, with registers \<open>c\<close>.\<close>

definition engine :: "dmac_config \<Rightarrow> nat \<Rightarrow> dmac \<Rightarrow> mapper \<Rightarrow> bool" where
  "engine c st d m \<longleftrightarrow> dma_status d = st \<and> dma_next_status d = st \<and> \<not> dma_exception_pending d \<and>
     0 < dma_bandwidth d \<and> 0 < length (dma_buffer d) \<and> \<not> q_burst (dma_query d) \<and> \<not> q_zero_write (dma_query d) \<and>
     mapper_wf m \<and> \<not> debug_mode m \<and> dma_cfg d < length (ranges m) \<and> dma_config d m = Some c \<and>
     dc_enabled c \<and> \<not> dc_abort c"

definition wait_time :: "u32 \<Rightarrow> u32 \<Rightarrow> int \<Rightarrow> dmac \<Rightarrow> mapper \<Rightarrow> bool" where
  "wait_time t a md d m \<longleftrightarrow> access_requests_time m (request_key a md (dma_client d)) = Some t"

lemma engine_goto: "engine c st d m \<Longrightarrow> goto (dma_status d) d = d"
  by (simp add: engine_def goto_def)

lemma config_cong: "dma_cfg d' = dma_cfg d \<Longrightarrow> ranges m' ! dma_cfg d = ranges m ! dma_cfg d \<Longrightarrow> dma_config d' m' = dma_config d m"
  by (simp add: dma_config_def)

lemma engine_move:
  assumes "engine c st d m" "dma_cfg d' = dma_cfg d" "dma_query d' = dma_query d" "dma_bandwidth d' = dma_bandwidth d"
    "length (dma_buffer d') = length (dma_buffer d)" "\<not> dma_exception_pending d'" "mapper_wf m'" "same_ram m' m"
    "length (ranges m') = length (ranges m)" "dma_config d' m' = Some c'" "dc_enabled c'" "\<not> dc_abort c'"
  shows "engine c' st' (d'\<lparr>dma_status := st', dma_next_status := st'\<rparr>) m'"
  using assms by (simp add: engine_def same_ram_def dma_config_def)

lemma port_first: "port L md a m \<Longrightarrow> \<exists>i. ram_at m a i \<and> first_mapping (ranges m) a = Some i"
  by (auto simp: port_def ram_at_def)

lemma port_not_config:
  assumes "port L md a m" "dma_config d m = Some c" "first_mapping (ranges m) a = Some i"
  shows "dma_cfg d \<noteq> i"
  using assms by (auto simp: port_def ram_at_def dma_config_def split: range_obj.splits)

lemma port_access:
  assumes "port L md a m" "wait_time t0 a md d m" "\<not> debug_mode m" "first_mapping (ranges m) a = Some i"
  shows "access_ready now a md (dma_client d) m i \<longleftrightarrow> L \<le> now - t0"
  using assms by (auto simp: port_def wait_time_def access_ready_def ram_at_def)

section \<open>Waiting\<close>

lemma not_ready_again:
  assumes "mapper_wf m" "first_mapping (ranges m) a = Some i" "\<not> access_ready now a md cl m i"
  shows "\<exists>l. mem_ready now a md cl m = Some (False, m\<lparr>last_used_mapping := l\<rparr>) \<and>
    mapper_wf (m\<lparr>last_used_mapping := l\<rparr>)"
  using mem_ready_mapped [OF assms(1,2), of now md cl] assms
  by (auto intro: exI [of _ "last_used_mapping m"])

lemma access_ready_last_used:
  "access_ready now a md cl (m\<lparr>last_used_mapping := l\<rparr>) i = access_ready now a md cl m i"
  by (simp add: access_ready_def cong: option.case_cong)

lemma reading_waits:
  assumes "mapper_wf m" "first_mapping (ranges m) (dma_addr d (q_src (dma_query d)) (dma_word_counter d)) = Some i"
    "\<not> access_ready now (dma_addr d (q_src (dma_query d)) (dma_word_counter d)) DATALOAD (dma_client d) m i"
  shows "\<exists>l. dma_reading now n m d = Some (d, m\<lparr>last_used_mapping := l\<rparr>) \<and> mapper_wf (m\<lparr>last_used_mapping := l\<rparr>)"
  using assms
proof (induction n arbitrary: m)
  case 0
  then show ?case by (auto intro: exI [of _ "last_used_mapping m"])
next
  case (Suc n)
  obtain l where l: "mem_ready now (dma_addr d (q_src (dma_query d)) (dma_word_counter d)) DATALOAD (dma_client d) m =
      Some (False, m\<lparr>last_used_mapping := l\<rparr>)" "mapper_wf (m\<lparr>last_used_mapping := l\<rparr>)"
    using not_ready_again [OF Suc.prems] by blast
  from Suc.IH [OF l(2)] Suc.prems(2,3) l(1) show ?case by (simp add: Let_def access_ready_last_used)
qed

lemma writing_waits:
  assumes "mapper_wf m" "first_mapping (ranges m) (dma_addr d (q_dst (dma_query d)) (dma_word_counter d)) = Some i"
    "\<not> access_ready now (dma_addr d (q_dst (dma_query d)) (dma_word_counter d)) DATASTORE (dma_client d) m i"
    "dma_word_counter d < length (dma_buffer d)"
  shows "\<exists>l. dma_writing now n m d = Some (d, m\<lparr>last_used_mapping := l\<rparr>) \<and> mapper_wf (m\<lparr>last_used_mapping := l\<rparr>)"
  using assms
proof (induction n arbitrary: m)
  case 0
  then show ?case by (auto intro: exI [of _ "last_used_mapping m"])
next
  case (Suc n)
  obtain l where l: "mem_ready now (dma_addr d (q_dst (dma_query d)) (dma_word_counter d)) DATASTORE (dma_client d) m =
      Some (False, m\<lparr>last_used_mapping := l\<rparr>)" "mapper_wf (m\<lparr>last_used_mapping := l\<rparr>)"
    using not_ready_again [OF Suc.prems(1-3)] by blast
  from Suc.IH [OF l(2)] Suc.prems(2-4) l(1) show ?case by (simp add: Let_def access_ready_last_used)
qed

text \<open>The access of the state \<open>st\<close>, which is reading or writing.\<close>

definition io_state :: "nat \<Rightarrow> int \<Rightarrow> dmac \<Rightarrow> u32 \<Rightarrow> bool" where
  "io_state st md d a \<longleftrightarrow> dma_word_counter d = 0 \<and>
     (st = DMAC_STAT_READING \<and> md = DATALOAD \<and> a = q_src (dma_query d) + 4 * dma_counter d \<or>
      st = DMAC_STAT_WRITING \<and> md = DATASTORE \<and> a = q_dst (dma_query d) + 4 * dma_counter d)"

lemma word_addr: "\<not> q_burst (dma_query d) \<Longrightarrow> dma_addr d base i = base + 4 * dma_counter d"
  by (simp add: dma_addr_def)

lemma wait_cycle:
  assumes e: "engine c st d m" and io: "io_state st md d a" and p: "port L md a m"
    and w: "wait_time t0 a md d m" and early: "\<not> L \<le> now - t0"
  shows "\<exists>l. goes now 1 (d, m) (d, m\<lparr>last_used_mapping := l\<rparr>) \<and> mapper_wf (m\<lparr>last_used_mapping := l\<rparr>)"
proof -
  have nb: "\<not> q_burst (dma_query d)" and wf: "mapper_wf m" and cfg: "dma_config d m = Some c" "dc_enabled c"
    and nd: "\<not> debug_mode m" and buf: "0 < length (dma_buffer d)" and ne: "\<not> dma_exception_pending d"
    and st: "dma_status d = st" "dma_next_status d = st" using e by (simp_all add: engine_def)
  obtain i where i: "first_mapping (ranges m) a = Some i" using port_first [OF p] by blast
  have nr: "\<not> access_ready now a md (dma_client d) m i" using port_access [OF p w nd i] early by simp
  have "\<exists>l. dma_state_step now m d = Some (d, m\<lparr>last_used_mapping := l\<rparr>) \<and> mapper_wf (m\<lparr>last_used_mapping := l\<rparr>)"
    using io reading_waits [OF wf, of d i now "dma_bandwidth d"] writing_waits [OF wf, of d i now "dma_bandwidth d"]
      i nr st buf by (auto simp: io_state_def dma_state_step_def word_addr [OF nb])
  then obtain l where l: "dma_state_step now m d = Some (d, m\<lparr>last_used_mapping := l\<rparr>)"
    "mapper_wf (m\<lparr>last_used_mapping := l\<rparr>)" by blast
  have "goes now 1 (d, m) (d\<lparr>dma_status := dma_next_status d\<rparr>, m\<lparr>last_used_mapping := l\<rparr>)"
    using l(1) engine_goto [OF e] ne cfg by (intro goes_step [OF cfg]) (simp_all add: dma_config_def)
  moreover have "d\<lparr>dma_status := dma_next_status d\<rparr> = d" using st by simp
  ultimately show ?thesis using l(2) by auto
qed

lemma engine_last_used:
  "mapper_wf (m\<lparr>last_used_mapping := l\<rparr>) \<Longrightarrow> engine c st d m \<Longrightarrow> engine c st d (m\<lparr>last_used_mapping := l\<rparr>)"
  by (simp add: engine_def dma_config_def)

lemma port_last_used: "port L md a (m\<lparr>last_used_mapping := l\<rparr>) = port L md a m"
  using same_ram_fields(1) by (simp add: same_ram_def)

lemma wait_cycles:
  assumes "engine c st d m" "io_state st md d a" "port L md a m" "wait_time t0 a md d m" "k < unat L"
  shows "\<exists>l. goes (t0 + 1) k (d, m) (d, m\<lparr>last_used_mapping := l\<rparr>) \<and> mapper_wf (m\<lparr>last_used_mapping := l\<rparr>)"
  using assms(5)
proof (induction k)
  case 0
  then show ?case using assms(1) goes_0 by (auto simp: engine_def intro: exI [of _ "last_used_mapping m"])
next
  case (Suc k)
  then obtain l where l: "goes (t0 + 1) k (d, m) (d, m\<lparr>last_used_mapping := l\<rparr>)"
    "mapper_wf (m\<lparr>last_used_mapping := l\<rparr>)" by auto
  let ?m = "m\<lparr>last_used_mapping := l\<rparr>"
  have early: "\<not> L \<le> (t0 + 1 + of_nat k) - t0"
  proof -
    have "t0 + 1 + of_nat k - t0 = of_nat (Suc k)" by simp
    then show ?thesis
      using Suc.prems mod_less_eq_dividend [of "Suc k" "2 ^ 32"]
      by (simp add: word_le_nat_alt unat_of_nat del: of_nat_Suc)
  qed
  obtain l' where "goes (t0 + 1 + of_nat k) 1 (d, ?m) (d, ?m\<lparr>last_used_mapping := l'\<rparr>)"
    "mapper_wf (?m\<lparr>last_used_mapping := l'\<rparr>)"
    using wait_cycle [OF engine_last_used [OF l(2) assms(1)] assms(2) _ _ early, unfolded port_last_used, OF assms(3)]
      assms(4) by (auto simp: wait_time_def)
  then have "goes (t0 + 1) (k + 1) (d, m) (d, ?m\<lparr>last_used_mapping := l'\<rparr>)" using goes_append [OF l(1)] by blast
  with \<open>mapper_wf (?m\<lparr>last_used_mapping := l'\<rparr>)\<close> show ?case by auto
qed

section \<open>The accesses\<close>

lemma ready_now:
  assumes "mapper_wf m" "first_mapping (ranges m) a = Some i" "access_ready now a md cl m i"
  shows "\<exists>l. mem_ready now a md cl m = Some (True, m\<lparr>last_used_mapping := l\<rparr>) \<and>
    mapper_wf (m\<lparr>last_used_mapping := l\<rparr>)"
  using mem_ready_mapped [OF assms(1,2), of now md cl] assms
  by (auto intro: exI [of _ "last_used_mapping m"])

lemma view_word_last_used: "view_word (m\<lparr>last_used_mapping := l\<rparr>) a = view_word m a"
  by (simp add: view_word_def mem_view_fields)

text \<open>A load, or a store, of a ready word leaves everything else to the controller as it was.\<close>

definition accessed :: "dmac \<Rightarrow> u32 \<Rightarrow> int \<Rightarrow> mapper \<Rightarrow> mapper \<Rightarrow> bool" where
  "accessed d a md m' m \<longleftrightarrow> mapper_wf m' \<and> same_ram m' m \<and> bus_arbiter m' = bus_arbiter m \<and>
     length (ranges m') = length (ranges m) \<and> dma_config d m' = dma_config d m \<and>
     access_requests_time m' = (access_requests_time m)(request_key a md (dma_client d) := None)"

lemma load_word:
  assumes e: "engine c st d m" and p: "port L DATALOAD a m" and w: "wait_time t0 a DATALOAD d m" and r: "L \<le> now - t0"
  shows "\<exists>v m'. mem_fetch_word now a DATALOAD (dma_client d) m = Some (v, m', []) \<and> view_word m a = Some v \<and>
    mem_view m' = mem_view m \<and> accessed d a DATALOAD m' m"
proof -
  have wf: "mapper_wf m" and nd: "\<not> debug_mode m" and cfg: "dma_config d m = Some c" using e by (simp_all add: engine_def)
  obtain i where i: "first_mapping (ranges m) a = Some i" "ram_at m a i" using port_first [OF p] by blast
  have rdy: "access_ready now a DATALOAD (dma_client d) m i" using port_access [OF p w nd i(1)] r by simp
  have al: "a mod 4 = 0" and rd: "canRead (obj_range (ranges m ! i))"
    using p i by (auto simp: port_def mod4_unat ram_at_def)
  obtain v m' where f: "mem_fetch_word now a DATALOAD (dma_client d) m = Some (v, m', [])" "view_word m a = Some v"
    "mem_view m' = mem_view m" "mapper_wf m'" "same_layout m' m"
    "access_requests_time m' = (access_requests_time m)(request_key a DATALOAD (dma_client d) := None)"
    using mem_fetch_word_ram [OF wf al i(2) rd rdy] by blast
  have "ranges m' ! dma_cfg d = ranges m ! dma_cfg d" "length (ranges m') = length (ranges m)"
    using fetch_other_ranges [OF wf i(1) f(1) port_not_config [OF p cfg i(1)]] by simp_all
  then show ?thesis
    using f same_layout_same_ram [OF f(5)] config_cong [of d d m' m] by (auto simp: accessed_def same_layout_def)
qed

lemma store_word_requests:
  assumes "mapper_wf m" "first_mapping (ranges m) a = Some i" "mem_store_word now a v cl m = Some (m', [])"
    "a mod 4 = 0" "canWrite (obj_range (ranges m ! i))" "access_ready now a DATASTORE cl m i"
  shows "access_requests_time m' = (access_requests_time m)(request_key a DATASTORE cl := None)"
  using assms
  by (auto simp: mem_store_word_def find_mapping_mapped Let_def mem_ready_used erase_request_def)

lemma store_word:
  assumes e: "engine c st d m" and p: "port L DATASTORE a m" and w: "wait_time t0 a DATASTORE d m" and r: "L \<le> now - t0"
  shows "\<exists>m'. mem_store_word now a v (dma_client d) m = Some (m', []) \<and> accessed d a DATASTORE m' m \<and>
    (\<forall>p. mem_view m' p = (if unat (p - a) < 4
        then Some (word_byte (opt_bigendian m) v (unat (p - a))) else mem_view m p))"
proof -
  have wf: "mapper_wf m" and nd: "\<not> debug_mode m" and cfg: "dma_config d m = Some c" using e by (simp_all add: engine_def)
  obtain i where i: "first_mapping (ranges m) a = Some i" "ram_at m a i" using port_first [OF p] by blast
  have rdy: "access_ready now a DATASTORE (dma_client d) m i" using port_access [OF p w nd i(1)] r by simp
  have al: "a mod 4 = 0" and wr: "canWrite (obj_range (ranges m ! i))"
    using p i by (auto simp: port_def mod4_unat ram_at_def)
  obtain m' where f: "mem_store_word now a v (dma_client d) m = Some (m', [])" "mapper_wf m'" "same_layout m' m"
    "\<forall>p. mem_view m' p = (if unat (p - a) < 4
        then Some (word_byte (opt_bigendian m) v (unat (p - a))) else mem_view m p)"
    using mem_store_word_ram [OF wf al i(2) wr rdy] by blast
  have "ranges m' ! dma_cfg d = ranges m ! dma_cfg d" "length (ranges m') = length (ranges m)"
    using store_other_ranges [OF wf i(1) f(1) port_not_config [OF p cfg i(1)]] by simp_all
  then show ?thesis
    using f same_layout_same_ram [OF f(3)] config_cong [of d d m' m] store_word_requests [OF wf i(1) f(1) al wr rdy]
    by (auto simp: accessed_def same_layout_def)
qed

lemma engine_status: "engine c st d m \<Longrightarrow> dma_status d = st \<and> dma_next_status d = st"
  by (simp add: engine_def)

lemma accessed_last_used:
  assumes "accessed d a md m' (m\<lparr>last_used_mapping := l\<rparr>)"
  shows "accessed d a md m' m"
  using assms same_ram_trans [OF _ same_ram_fields(1)] by (auto simp: accessed_def dma_config_def)

lemma status_order: "d\<lparr>dma_next_status := a, dma_status := b\<rparr> = d\<lparr>dma_status := b, dma_next_status := a\<rparr>"
  by (cases d) simp

lemma serve_read:
  assumes e: "engine c DMAC_STAT_READING d m" and io: "io_state DMAC_STAT_READING DATALOAD d a"
    and p: "port L DATALOAD a m" and w: "wait_time t0 a DATALOAD d m" and r: "L \<le> now - t0"
  shows "\<exists>v m'. goes now 1 (d, m) (d\<lparr>dma_buffer := (dma_buffer d)[0 := v], dma_word_counter := 1,
        dma_status := DMAC_STAT_READ_DONE, dma_next_status := DMAC_STAT_READ_DONE\<rparr>, m') \<and>
    view_word m a = Some v \<and> mem_view m' = mem_view m \<and> accessed d a DATALOAD m' m"
proof -
  have nb: "\<not> q_burst (dma_query d)" and wf: "mapper_wf m" and cfg: "dma_config d m = Some c" "dc_enabled c"
    and nd: "\<not> debug_mode m" and buf: "0 < length (dma_buffer d)" and ne: "\<not> dma_exception_pending d"
    and bw: "0 < dma_bandwidth d" using e by (simp_all add: engine_def)
  obtain n where n: "dma_bandwidth d = Suc n" using bw by (cases "dma_bandwidth d") auto
  have k: "dma_word_counter d = 0" "dma_addr d (q_src (dma_query d)) 0 = a"
    using io word_addr [OF nb] by (simp_all add: io_state_def)
  obtain i where i: "first_mapping (ranges m) a = Some i" using port_first [OF p] by blast
  obtain l where l: "mem_ready now a DATALOAD (dma_client d) m = Some (True, m\<lparr>last_used_mapping := l\<rparr>)"
    "mapper_wf (m\<lparr>last_used_mapping := l\<rparr>)"
    using ready_now [OF wf i] port_access [OF p w nd i] r by blast
  obtain v m' where f: "mem_fetch_word now a DATALOAD (dma_client d) (m\<lparr>last_used_mapping := l\<rparr>) = Some (v, m', [])"
    "view_word m a = Some v" "mem_view m' = mem_view m" "accessed d a DATALOAD m' m"
    using load_word [OF engine_last_used [OF l(2) e], of L a t0 now] p w r accessed_last_used
    by (auto simp: port_last_used wait_time_def view_word_last_used mem_view_fields)
  let ?d = "d\<lparr>dma_buffer := (dma_buffer d)[0 := v], dma_word_counter := 1, dma_next_status := DMAC_STAT_READ_DONE\<rparr>"
  have "dma_state_step now m (goto (dma_status d) d) = Some (?d, m')"
    unfolding engine_goto [OF e]
    using engine_status [OF e] n k l(1) f(1) buf nb ne
    by (simp add: dma_state_step_def Let_def DMAC_exception_def dma_finished_def goto_def)
  moreover have "dma_config ?d m' = Some c" using f(4) cfg(1) by (simp add: accessed_def dma_config_def)
  ultimately have "goes now 1 (d, m) (?d\<lparr>dma_status := dma_next_status ?d\<rparr>, m')"
    using ne by (intro goes_step [OF cfg]) simp_all
  then show ?thesis using f by (fastforce simp: status_order)
qed

lemma serve_write:
  assumes e: "engine c DMAC_STAT_WRITING d m" and io: "io_state DMAC_STAT_WRITING DATASTORE d a"
    and p: "port L DATASTORE a m" and w: "wait_time t0 a DATASTORE d m" and r: "L \<le> now - t0"
  shows "\<exists>m'. goes now 1 (d, m) (d\<lparr>dma_word_counter := 1,
        dma_status := DMAC_STAT_WRITE_DONE, dma_next_status := DMAC_STAT_WRITE_DONE\<rparr>, m') \<and>
    accessed d a DATASTORE m' m \<and>
    (\<forall>p. mem_view m' p = (if unat (p - a) < 4
        then Some (word_byte (opt_bigendian m) (dma_buffer d ! 0) (unat (p - a))) else mem_view m p))"
proof -
  have nb: "\<not> q_burst (dma_query d)" "\<not> q_zero_write (dma_query d)" and wf: "mapper_wf m"
    and cfg: "dma_config d m = Some c" "dc_enabled c"
    and nd: "\<not> debug_mode m" and buf: "0 < length (dma_buffer d)" and ne: "\<not> dma_exception_pending d"
    and bw: "0 < dma_bandwidth d" using e by (simp_all add: engine_def)
  obtain n where n: "dma_bandwidth d = Suc n" using bw by (cases "dma_bandwidth d") auto
  have k: "dma_word_counter d = 0" "dma_addr d (q_dst (dma_query d)) 0 = a"
    using io word_addr [OF nb(1)] by (simp_all add: io_state_def)
  obtain i where i: "first_mapping (ranges m) a = Some i" using port_first [OF p] by blast
  obtain l where l: "mem_ready now a DATASTORE (dma_client d) m = Some (True, m\<lparr>last_used_mapping := l\<rparr>)"
    "mapper_wf (m\<lparr>last_used_mapping := l\<rparr>)"
    using ready_now [OF wf i] port_access [OF p w nd i] r by blast
  let ?v = "dma_buffer d ! 0"
  obtain m' where f: "mem_store_word now a ?v (dma_client d) (m\<lparr>last_used_mapping := l\<rparr>) = Some (m', [])"
    "accessed d a DATASTORE m' m" "\<forall>p. mem_view m' p = (if unat (p - a) < 4
        then Some (word_byte (opt_bigendian m) ?v (unat (p - a))) else mem_view m p)"
    using store_word [OF engine_last_used [OF l(2) e], of L a t0 now ?v] p w r accessed_last_used
    by (auto simp: port_last_used wait_time_def mem_view_fields)
  let ?d = "d\<lparr>dma_word_counter := 1, dma_next_status := DMAC_STAT_WRITE_DONE\<rparr>"
  have "dma_state_step now m (goto (dma_status d) d) = Some (?d, m')"
    unfolding engine_goto [OF e]
    using engine_status [OF e] n k l(1) f(1) buf nb ne
    by (simp add: dma_state_step_def Let_def DMAC_exception_def dma_finished_def goto_def)
  moreover have "dma_config ?d m' = Some c" using f(2) cfg(1) by (simp add: accessed_def dma_config_def)
  ultimately have "goes now 1 (d, m) (?d\<lparr>dma_status := dma_next_status ?d\<rparr>, m')"
    using ne by (intro goes_step [OF cfg]) simp_all
  then show ?thesis using f by (fastforce simp: status_order)
qed

section \<open>The other states\<close>

lemma mem_view_request: "mem_view (request_word now a md cl m) = mem_view m"
  by (simp add: request_word_def mem_view_fields split: option.splits)

lemma request_take:
  assumes e: "engine c st d m" and st: "st = DMAC_STAT_READ_REQ \<and> st' = DMAC_STAT_READING \<and> md = DATALOAD \<and> base = q_src (dma_query d) \<or>
      st = DMAC_STAT_WRITE_REQ \<and> st' = DMAC_STAT_WRITING \<and> md = DATASTORE \<and> base = q_dst (dma_query d)"
    and acq: "fst (mem_acquire_bus now (dma_client d) m)"
    and none: "access_requests_time m (request_key (base + 4 * dma_counter d) md (dma_client d)) = None"
  defines "d' \<equiv> d\<lparr>dma_word_counter := 0, dma_status := st', dma_next_status := st'\<rparr>"
  shows "\<exists>m'. goes now 1 (d, m) (d', m') \<and> engine c st' d' m' \<and> io_state st' md d' (base + 4 * dma_counter d) \<and>
    wait_time now (base + 4 * dma_counter d) md d' m' \<and>
    bus_holder (bus_arbiter m') = Some (dma_client d) \<and> last_released_cycle (bus_arbiter m') = last_released_cycle (bus_arbiter m) \<and>
    mem_view m' = mem_view m \<and> same_ram m' m \<and>
    access_requests_time m' = (access_requests_time m)(request_key (base + 4 * dma_counter d) md (dma_client d) := Some now)"
proof -
  have nb: "\<not> q_burst (dma_query d)" and wf: "mapper_wf m" and cfg: "dma_config d m = Some c" "dc_enabled c"
    and ne: "\<not> dma_exception_pending d" using e by (simp_all add: engine_def)
  obtain b where b: "mem_acquire_bus now (dma_client d) m = (True, m\<lparr>bus_arbiter := b\<rparr>)"
    "bus_holder b = Some (dma_client d)" "last_released_cycle b = last_released_cycle (bus_arbiter m)"
  proof (rule that [of "snd (acquire_bus now (dma_client d) (bus_arbiter m))"])
  qed (use acq in \<open>auto simp: mem_acquire_bus_def acquire_bus_def split: if_splits\<close>)
  let ?a = "base + 4 * dma_counter d"
  let ?m = "request_word now ?a md (dma_client d) (m\<lparr>bus_arbiter := b\<rparr>)"
  let ?d = "d\<lparr>dma_word_counter := 0, dma_next_status := st'\<rparr>"
  have m: "?m = m\<lparr>bus_arbiter := b, access_requests_time :=
      (access_requests_time m)(request_key ?a md (dma_client d) := Some now)\<rparr>"
    using none by (simp add: request_word_def)
  have "dma_request now base md st' m d = (?d, ?m)"
    using b(1) nb by (simp add: dma_request_def goto_def word_addr)
  then have "dma_state_step now m (goto (dma_status d) d) = Some (?d, ?m)"
    unfolding engine_goto [OF e] using engine_status [OF e] st by (auto simp: dma_state_step_def)
  moreover have "dma_config ?d ?m = Some c" using cfg(1) by (simp add: m dma_config_def)
  ultimately have "goes now 1 (d, m) (?d\<lparr>dma_status := dma_next_status ?d\<rparr>, ?m)"
    using ne by (intro goes_step [OF cfg]) simp_all
  then have go: "goes now 1 (d, m) (d', ?m)" by (simp add: status_order d'_def)
  have "same_ram ?m m" unfolding m by (rule same_ram_trans [OF same_ram_fields(3) same_ram_fields(2)])
  moreover have "engine c st' d' ?m" using e by (simp add: engine_def m d'_def dma_config_def)
  moreover have "io_state st' md d' ?a" using st by (auto simp: io_state_def d'_def)
  moreover have "mem_view ?m = mem_view m" by (simp add: mem_view_request mem_view_fields)
  ultimately show ?thesis using go b by (intro exI [of _ ?m]) (simp add: m d'_def wait_time_def)
qed

lemma read_done:
  assumes e: "engine c DMAC_STAT_READ_DONE d m" and al: "unat (q_dst (dma_query d)) mod 4 = 0"
    and own: "bus_holder (bus_arbiter m) = Some (dma_client d)"
  defines "d' \<equiv> d\<lparr>dma_status := DMAC_STAT_WRITE_REQ, dma_next_status := DMAC_STAT_WRITE_REQ\<rparr>"
  shows "\<exists>m'. goes now 1 (d, m) (d', m') \<and> engine (c\<lparr>dc_end_stat := False\<rparr>) DMAC_STAT_WRITE_REQ d' m' \<and>
    bus_holder (bus_arbiter m') = None \<and> last_released_cycle (bus_arbiter m') = now \<and>
    mem_view m' = mem_view m \<and> same_ram m' m \<and> access_requests_time m' = access_requests_time m"
proof -
  have cfg: "dma_config d m = Some c" "dc_enabled c" "dma_cfg d < length (ranges m)" and wf: "mapper_wf m"
    and ne: "\<not> dma_exception_pending d" and nb: "\<not> q_burst (dma_query d)" using e by (simp_all add: engine_def)
  let ?m1 = "mem_release_bus now (dma_client d) m"
  let ?m = "upd_config d (\<lambda>c. c\<lparr>dc_end_stat := False\<rparr>) ?m1"
  have m1: "?m1 = m\<lparr>bus_arbiter := \<lparr>last_released_cycle = now, bus_holder = None\<rparr>\<rparr>"
    using own by (simp add: mem_release_bus_def release_bus_def)
  have c1: "dma_config d ?m1 = Some c" "dma_cfg d < length (ranges ?m1)" using cfg by (simp_all add: m1 dma_config_def)
  note u = config_upd [OF c1, of "\<lambda>c. c\<lparr>dc_end_stat := False\<rparr>"]
  have "address_valid d (q_dst (dma_query d))" using al nb by (simp add: address_valid_def mod4_unat)
  then have "dma_state_step now m (goto (dma_status d) d) = Some (goto DMAC_STAT_WRITE_REQ d, ?m)"
    unfolding engine_goto [OF e] using engine_status [OF e] c1 by (simp add: dma_state_step_def dma_read_done_def Let_def)
  then have "goes now 1 (d, m) ((goto DMAC_STAT_WRITE_REQ d)\<lparr>dma_status := dma_next_status (goto DMAC_STAT_WRITE_REQ d)\<rparr>, ?m)"
    using ne u(1) by (intro goes_step [OF cfg(1,2)]) (simp_all add: goto_def dma_config_def)
  then have go: "goes now 1 (d, m) (d', ?m)" by (simp add: goto_def status_order d'_def)
  have "engine (c\<lparr>dc_end_stat := False\<rparr>) DMAC_STAT_WRITE_REQ d' ?m"
    using e u wf by (simp add: engine_def d'_def m1 same_ram_def dma_config_def)
  moreover have "same_ram ?m m" by (rule same_ram_trans [OF u(6)]) (simp add: m1 same_ram_fields)
  ultimately show ?thesis using go u(3,4,5) by (intro exI [of _ ?m]) (simp add: m1 mem_view_fields)
qed

lemma write_done:
  assumes e: "engine c DMAC_STAT_WRITE_DONE d m"
  defines "st \<equiv> (if dma_counter d + 1 = q_len (dma_query d) then DMAC_STAT_EXIT else DMAC_STAT_READ_REQ)"
  defines "d' \<equiv> d\<lparr>dma_counter := dma_counter d + 1, dma_status := st, dma_next_status := st\<rparr>"
  shows "\<exists>m'. goes now 1 (d, m) (d', m') \<and> engine (c\<lparr>dc_end_stat := True\<rparr>) st d' m' \<and>
    bus_arbiter m' = bus_arbiter m \<and> mem_view m' = mem_view m \<and> same_ram m' m \<and>
    access_requests_time m' = access_requests_time m"
proof -
  have cfg: "dma_config d m = Some c" "dc_enabled c" "dma_cfg d < length (ranges m)" and wf: "mapper_wf m"
    and ne: "\<not> dma_exception_pending d" and nz: "\<not> q_zero_write (dma_query d)" "\<not> dc_abort c"
    using e by (simp_all add: engine_def)
  let ?m = "upd_config d (\<lambda>c. c\<lparr>dc_end_stat := True\<rparr>) m"
  note u = config_upd [OF cfg(1,3), of "\<lambda>c. c\<lparr>dc_end_stat := True\<rparr>"]
  let ?d = "d\<lparr>dma_counter := dma_counter d + 1, dma_next_status := st\<rparr>"
  have "dma_state_step now m (goto (dma_status d) d) = Some (?d, ?m)"
    unfolding engine_goto [OF e] using engine_status [OF e] cfg(1) nz
    by (simp add: dma_state_step_def dma_write_done_def Let_def goto_def st_def)
  then have "goes now 1 (d, m) (?d\<lparr>dma_status := dma_next_status ?d\<rparr>, ?m)"
    using ne u(1) by (intro goes_step [OF cfg(1,2)]) (simp_all add: dma_config_def)
  then have go: "goes now 1 (d, m) (d', ?m)" by (simp add: status_order d'_def)
  have "engine (c\<lparr>dc_end_stat := True\<rparr>) st d' ?m"
    using e u wf by (simp add: engine_def d'_def same_ram_def dma_config_def)
  then show ?thesis using go u(3,4,5,6) by blast
qed

section \<open>One word\<close>

lemma view_word_cong:
  "mem_view m' = mem_view m \<Longrightarrow> opt_bigendian m' = opt_bigendian m \<Longrightarrow> view_word m' a = view_word m a"
  by (simp add: view_word_def)

text \<open>The fields of the controller that the transfer of a word leaves alone.\<close>

definition same_dma :: "dmac \<Rightarrow> dmac \<Rightarrow> bool" where
  "same_dma d' d \<longleftrightarrow> dma_query d' = dma_query d \<and> dma_client d' = dma_client d \<and> dma_counter d' = dma_counter d"

lemma engine_next:
  assumes "engine c st d m" "accessed d a md m' m"
  shows "engine c st' (d\<lparr>dma_word_counter := w, dma_status := st', dma_next_status := st'\<rparr>) m'"
    "engine c st' (d\<lparr>dma_buffer := (dma_buffer d)[0 := v], dma_word_counter := w, dma_status := st', dma_next_status := st'\<rparr>) m'"
  using assms by (simp_all add: engine_def accessed_def same_ram_def dma_config_def)

lemma last_wait: "0 < unat (L :: u32) \<Longrightarrow> t + 1 + of_nat (unat L - 1) = t + L"
  by (simp add: of_nat_diff Suc_leI)

lemma requests_restored:
  "f k = None \<Longrightarrow> (f(k := Some t))(k := None) = f"
  by auto

text \<open>From the request of a word to its arrival in the buffer, and from its request to its write.\<close>

lemma read_phase:
  assumes e: "engine c DMAC_STAT_READ_REQ d m" and acq: "fst (mem_acquire_bus t (dma_client d) m)"
    and p: "port L DATALOAD a m" and L: "0 < unat L" and a: "a = q_src (dma_query d) + 4 * dma_counter d"
    and n: "access_requests_time m (request_key a DATALOAD (dma_client d)) = None"
  shows "\<exists>v d' m'. goes t (unat L + 1) (d, m) (d', m') \<and> engine c DMAC_STAT_READ_DONE d' m' \<and> same_dma d' d \<and>
    view_word m a = Some v \<and> dma_buffer d' ! 0 = v \<and> mem_view m' = mem_view m \<and> same_ram m' m \<and>
    bus_holder (bus_arbiter m') = Some (dma_client d) \<and> access_requests_time m' = access_requests_time m"
proof -
  let ?d1 = "d\<lparr>dma_word_counter := 0, dma_status := DMAC_STAT_READING, dma_next_status := DMAC_STAT_READING\<rparr>"
  obtain m1 where r: "goes t 1 (d, m) (?d1, m1)" "engine c DMAC_STAT_READING ?d1 m1"
    "io_state DMAC_STAT_READING DATALOAD ?d1 a" "wait_time t a DATALOAD ?d1 m1"
    "bus_holder (bus_arbiter m1) = Some (dma_client d)" "mem_view m1 = mem_view m" "same_ram m1 m"
    "access_requests_time m1 = (access_requests_time m)(request_key a DATALOAD (dma_client d) := Some t)"
    using request_take [OF e _ acq, of DMAC_STAT_READING DATALOAD "q_src (dma_query d)"] n a by auto
  have p1: "port L DATALOAD a m1" using r(7) p by (simp add: same_ram_def)
  obtain l where w: "goes (t + 1) (unat L - 1) (?d1, m1) (?d1, m1\<lparr>last_used_mapping := l\<rparr>)"
    "mapper_wf (m1\<lparr>last_used_mapping := l\<rparr>)"
    using wait_cycles [OF r(2,3) p1 r(4), of "unat L - 1"] L by auto
  let ?m1 = "m1\<lparr>last_used_mapping := l\<rparr>"
  note e1 = engine_last_used [OF w(2) r(2)]
  obtain v m2 where s: "goes (t + L) 1 (?d1, ?m1) (?d1\<lparr>dma_buffer := (dma_buffer ?d1)[0 := v], dma_word_counter := 1,
        dma_status := DMAC_STAT_READ_DONE, dma_next_status := DMAC_STAT_READ_DONE\<rparr>, m2)"
    "view_word ?m1 a = Some v" "mem_view m2 = mem_view ?m1" "accessed ?d1 a DATALOAD m2 ?m1"
    using serve_read [OF e1 r(3), of L t "t + L"] p1 r(4) by (auto simp: port_last_used wait_time_def)
  let ?d2 = "?d1\<lparr>dma_buffer := (dma_buffer ?d1)[0 := v], dma_word_counter := 1,
        dma_status := DMAC_STAT_READ_DONE, dma_next_status := DMAC_STAT_READ_DONE\<rparr>"
  have "goes t (1 + ((unat L - 1) + 1)) (d, m) (?d2, m2)"
    using s(1) by (intro goes_append [OF r(1) goes_append]) (use w(1) last_wait [OF L, of t] in \<open>simp_all add: add.assoc\<close>)
  moreover have "1 + ((unat L - 1) + 1) = unat L + 1" using L by simp
  moreover have "engine c DMAC_STAT_READ_DONE ?d2 m2" by (rule engine_next(2) [OF e1 s(4)])
  moreover have "view_word m a = Some v"
    using s(2) r(6,7) view_word_cong [of m1 m a] by (simp add: view_word_last_used same_ram_def)
  moreover have "0 < length (dma_buffer d)" using e by (simp add: engine_def)
  moreover have "same_ram m2 m"
  proof -
    have "same_ram m2 ?m1" using s(4) by (simp add: accessed_def)
    then show ?thesis by (rule same_ram_trans [OF same_ram_trans [OF _ same_ram_fields(1)] r(7)])
  qed
  moreover have "access_requests_time m2 = access_requests_time m"
    using s(4) r(8) requests_restored [of "access_requests_time m", OF n, of t] by (simp add: accessed_def)
  ultimately show ?thesis
    using s(3,4) r(5,6) by (intro exI [of _ v] exI [of _ ?d2] exI [of _ m2]) (simp add: same_dma_def accessed_def mem_view_fields)
qed

lemma write_phase:
  assumes e: "engine c DMAC_STAT_WRITE_REQ d m" and acq: "fst (mem_acquire_bus t (dma_client d) m)"
    and p: "port L DATASTORE b m" and L: "0 < unat L" and b: "b = q_dst (dma_query d) + 4 * dma_counter d"
    and n: "access_requests_time m (request_key b DATASTORE (dma_client d)) = None"
  shows "\<exists>d' m'. goes t (unat L + 1) (d, m) (d', m') \<and> engine c DMAC_STAT_WRITE_DONE d' m' \<and> same_dma d' d \<and>
    (\<forall>q. mem_view m' q = (if unat (q - b) < 4
        then Some (word_byte (opt_bigendian m) (dma_buffer d ! 0) (unat (q - b))) else mem_view m q)) \<and> same_ram m' m \<and>
    bus_holder (bus_arbiter m') = Some (dma_client d) \<and>
    last_released_cycle (bus_arbiter m') = last_released_cycle (bus_arbiter m) \<and>
    access_requests_time m' = access_requests_time m"
proof -
  let ?d1 = "d\<lparr>dma_word_counter := 0, dma_status := DMAC_STAT_WRITING, dma_next_status := DMAC_STAT_WRITING\<rparr>"
  obtain m1 where r: "goes t 1 (d, m) (?d1, m1)" "engine c DMAC_STAT_WRITING ?d1 m1"
    "io_state DMAC_STAT_WRITING DATASTORE ?d1 b" "wait_time t b DATASTORE ?d1 m1"
    "bus_holder (bus_arbiter m1) = Some (dma_client d)" "mem_view m1 = mem_view m" "same_ram m1 m"
    "last_released_cycle (bus_arbiter m1) = last_released_cycle (bus_arbiter m)"
    "access_requests_time m1 = (access_requests_time m)(request_key b DATASTORE (dma_client d) := Some t)"
    using request_take [OF e _ acq, of DMAC_STAT_WRITING DATASTORE "q_dst (dma_query d)"] n b by auto
  have p1: "port L DATASTORE b m1" using r(7) p by (simp add: same_ram_def)
  obtain l where w: "goes (t + 1) (unat L - 1) (?d1, m1) (?d1, m1\<lparr>last_used_mapping := l\<rparr>)"
    "mapper_wf (m1\<lparr>last_used_mapping := l\<rparr>)"
    using wait_cycles [OF r(2,3) p1 r(4), of "unat L - 1"] L by auto
  let ?m1 = "m1\<lparr>last_used_mapping := l\<rparr>"
  note e1 = engine_last_used [OF w(2) r(2)]
  let ?d2 = "?d1\<lparr>dma_word_counter := 1, dma_status := DMAC_STAT_WRITE_DONE, dma_next_status := DMAC_STAT_WRITE_DONE\<rparr>"
  obtain m2 where s: "goes (t + L) 1 (?d1, ?m1) (?d2, m2)" "accessed ?d1 b DATASTORE m2 ?m1"
    "\<forall>q. mem_view m2 q = (if unat (q - b) < 4
        then Some (word_byte (opt_bigendian ?m1) (dma_buffer ?d1 ! 0) (unat (q - b))) else mem_view ?m1 q)"
    using serve_write [OF e1 r(3), of L t "t + L"] p1 r(4) by (auto simp: port_last_used wait_time_def)
  have "goes t (1 + ((unat L - 1) + 1)) (d, m) (?d2, m2)"
    using s(1) by (intro goes_append [OF r(1) goes_append]) (use w(1) last_wait [OF L, of t] in \<open>simp_all add: add.assoc\<close>)
  moreover have "1 + ((unat L - 1) + 1) = unat L + 1" using L by simp
  moreover have "engine c DMAC_STAT_WRITE_DONE ?d2 m2" by (rule engine_next(1) [OF e1 s(2)])
  moreover have "same_ram m2 m"
  proof -
    have "same_ram m2 ?m1" using s(2) by (simp add: accessed_def)
    then show ?thesis by (rule same_ram_trans [OF same_ram_trans [OF _ same_ram_fields(1)] r(7)])
  qed
  moreover have "access_requests_time m2 = access_requests_time m"
    using s(2) r(9) requests_restored [of "access_requests_time m", OF n, of t] by (simp add: accessed_def)
  moreover have "opt_bigendian m1 = opt_bigendian m" using r(7) by (simp add: same_ram_def)
  ultimately show ?thesis
    using s(2,3) r(5,6,8) by (intro exI [of _ ?d2] exI [of _ m2]) (simp add: same_dma_def accessed_def mem_view_fields)
qed

text \<open>
  From the request of a word at cycle \<open>t\<close> to the state after its write: the two latencies and four cycles.
\<close>

lemma word_copied:
  assumes e: "engine c DMAC_STAT_READ_REQ d m" and acq: "fst (mem_acquire_bus t (dma_client d) m)"
    and pa: "port Ls DATALOAD a m" and pb: "port Ld DATASTORE b m" and L: "0 < unat Ls" "0 < unat Ld"
    and a: "a = q_src (dma_query d) + 4 * dma_counter d" and b: "b = q_dst (dma_query d) + 4 * dma_counter d"
    and al: "unat (q_dst (dma_query d)) mod 4 = 0"
    and na: "access_requests_time m (request_key a DATALOAD (dma_client d)) = None"
    and nb: "access_requests_time m (request_key b DATASTORE (dma_client d)) = None"
  shows "\<exists>d' m'. goes t (unat Ls + unat Ld + 4) (d, m) (d', m') \<and>
    engine (c\<lparr>dc_end_stat := True\<rparr>)
      (if dma_counter d + 1 = q_len (dma_query d) then DMAC_STAT_EXIT else DMAC_STAT_READ_REQ) d' m' \<and>
    dma_counter d' = dma_counter d + 1 \<and> dma_query d' = dma_query d \<and> dma_client d' = dma_client d \<and>
    same_ram m' m \<and> bus_holder (bus_arbiter m') = Some (dma_client d) \<and>
    last_released_cycle (bus_arbiter m') = t + Ls + 1 \<and> access_requests_time m' = access_requests_time m \<and>
    (\<forall>x. unat x mod 4 = 0 \<longrightarrow> view_word m' x = (if x = b then view_word m a else view_word m x))"
proof -
  obtain v d1 m1 where 1: "goes t (unat Ls + 1) (d, m) (d1, m1)" "engine c DMAC_STAT_READ_DONE d1 m1" "same_dma d1 d"
    "view_word m a = Some v" "dma_buffer d1 ! 0 = v" "mem_view m1 = mem_view m" "same_ram m1 m"
    "bus_holder (bus_arbiter m1) = Some (dma_client d)" "access_requests_time m1 = access_requests_time m"
    using read_phase [OF e acq pa L(1) a na] by blast
  let ?t1 = "t + Ls + 1" and ?d2 = "d1\<lparr>dma_status := DMAC_STAT_WRITE_REQ, dma_next_status := DMAC_STAT_WRITE_REQ\<rparr>"
  obtain m2 where 2: "goes ?t1 1 (d1, m1) (?d2, m2)" "engine (c\<lparr>dc_end_stat := False\<rparr>) DMAC_STAT_WRITE_REQ ?d2 m2"
    "bus_holder (bus_arbiter m2) = None" "last_released_cycle (bus_arbiter m2) = ?t1" "mem_view m2 = mem_view m1"
    "same_ram m2 m1" "access_requests_time m2 = access_requests_time m1"
    using read_done [OF 1(2), of ?t1] al 1(3,8) by (auto simp: same_dma_def)
  let ?t2 = "?t1 + 1"
  have acq2: "fst (mem_acquire_bus ?t2 (dma_client ?d2) m2)"
    using 2(3,4) by (simp add: mem_acquire_bus_def acquire_bus_def)
  have sd2: "same_dma ?d2 d" using 1(3) by (simp add: same_dma_def)
  have ram2: "same_ram m2 m" by (rule same_ram_trans [OF 2(6) 1(7)])
  have p2: "port Ld DATASTORE b m2" using pb ram2 by (simp add: same_ram_def)
  have b2: "b = q_dst (dma_query ?d2) + 4 * dma_counter ?d2" using b sd2 by (simp add: same_dma_def)
  have n2: "access_requests_time m2 (request_key b DATASTORE (dma_client ?d2)) = None"
    using nb sd2 1(9) 2(7) by (simp add: same_dma_def)
  obtain d3 m3 where 3: "goes ?t2 (unat Ld + 1) (?d2, m2) (d3, m3)"
    "engine (c\<lparr>dc_end_stat := False\<rparr>) DMAC_STAT_WRITE_DONE d3 m3" "same_dma d3 ?d2"
    "\<forall>q. mem_view m3 q = (if unat (q - b) < 4
        then Some (word_byte (opt_bigendian m2) (dma_buffer ?d2 ! 0) (unat (q - b))) else mem_view m2 q)"
    "same_ram m3 m2" "bus_holder (bus_arbiter m3) = Some (dma_client ?d2)"
    "last_released_cycle (bus_arbiter m3) = last_released_cycle (bus_arbiter m2)"
    "access_requests_time m3 = access_requests_time m2"
    using write_phase [OF 2(2) acq2 p2 L(2) b2 n2] by blast
  have sd3: "same_dma d3 d" using 3(3) sd2 by (simp add: same_dma_def)
  let ?st = "if dma_counter d3 + 1 = q_len (dma_query d3) then DMAC_STAT_EXIT else DMAC_STAT_READ_REQ"
  let ?d4 = "d3\<lparr>dma_counter := dma_counter d3 + 1, dma_status := ?st, dma_next_status := ?st\<rparr>"
  let ?t3 = "?t2 + (Ld + 1)"
  obtain m4 where 4: "goes ?t3 1 (d3, m3) (?d4, m4)"
    "engine (c\<lparr>dc_end_stat := False, dc_end_stat := True\<rparr>) ?st ?d4 m4" "bus_arbiter m4 = bus_arbiter m3"
    "mem_view m4 = mem_view m3" "same_ram m4 m3" "access_requests_time m4 = access_requests_time m3"
    using write_done [OF 3(2)] by blast
  have "goes t ((unat Ls + 1) + (1 + ((unat Ld + 1) + 1))) (d, m) (?d4, m4)"
    using 4(1) by (intro goes_append [OF 1(1) goes_append [OF _ goes_append]])
      (use 2(1) 3(1) in \<open>simp_all add: ac_simps\<close>)
  then have go: "goes t (unat Ls + unat Ld + 4) (d, m) (?d4, m4)"
    by (rule back_subst [where P = "\<lambda>n. goes t n (d, m) (?d4, m4)"]) simp
  have ram4: "same_ram m4 m" by (rule same_ram_trans [OF 4(5) same_ram_trans [OF 3(5) ram2]])
  have v1: "mem_view m4 q = (if unat (q - b) < 4 then Some (word_byte (opt_bigendian m) v (unat (q - b))) else mem_view m q)" for q
    using 3(4) 1(5,6) 2(5) 4(4) ram2 by (simp add: same_ram_def)
  have "unat b mod 4 = 0" using pb by (simp add: port_def)
  then have "view_word m4 x = (if x = b then view_word m a else view_word m x)" if "unat x mod 4 = 0" for x
    using view_word_store [of m4 b "opt_bigendian m" v m x] v1 ram4 that 1(4) by (simp add: same_ram_def mod4_unat)
  then show ?thesis
    using go 4(2,3,6) 3(6-8) 2(4,7) 1(3,9) ram4 sd3
    by (intro exI [of _ ?d4] exI [of _ m4]) (simp add: same_dma_def)
qed

section \<open>A whole transfer\<close>

definition word_at :: "u32 \<Rightarrow> u32 \<Rightarrow> nat \<Rightarrow> u32" where
  "word_at base k j = base + 4 * (k + of_nat j)"

lemma word_at_simps: "word_at base k 0 = base + 4 * k" "word_at base k (Suc j) = word_at base (k + 1) j"
  by (simp_all add: word_at_def algebra_simps)

lemma word_at_inj:
  assumes "word_at base k i = word_at base k j" "i < 2 ^ 30" "j < 2 ^ 30"
  shows "i = j"
proof -
  have "(of_nat (4 * i) :: u32) = of_nat (4 * j)" using assms(1) by (simp add: word_at_def)
  then have "unat (of_nat (4 * i) :: u32) = unat (of_nat (4 * j) :: u32)" by (rule arg_cong)
  then have "4 * i mod 2 ^ 32 = 4 * j mod 2 ^ 32" unfolding unat_of_nat by simp
  then show ?thesis using assms(2,3) by simp
qed

text \<open>The words of a transfer are memory with nothing pending, and no word is overwritten before it is read.\<close>

definition transfer_ok :: "nat \<Rightarrow> u32 \<Rightarrow> u32 \<Rightarrow> u32 \<Rightarrow> u32 \<Rightarrow> u32 \<Rightarrow> client \<Rightarrow> mapper \<Rightarrow> bool" where
  "transfer_ok n Ls Ld src dst k cl m \<longleftrightarrow>
     (\<forall>j < n. port Ls DATALOAD (word_at src k j) m \<and> port Ld DATASTORE (word_at dst k j) m \<and>
        access_requests_time m (request_key (word_at src k j) DATALOAD cl) = None \<and>
        access_requests_time m (request_key (word_at dst k j) DATASTORE cl) = None \<and>
        (\<forall>i < j. word_at dst k i \<noteq> word_at src k j))"

definition copied :: "nat \<Rightarrow> u32 \<Rightarrow> u32 \<Rightarrow> u32 \<Rightarrow> mapper \<Rightarrow> mapper \<Rightarrow> bool" where
  "copied n src dst k m' m \<longleftrightarrow>
     (\<forall>j < n. view_word m' (word_at dst k j) = view_word m (word_at src k j)) \<and>
     (\<forall>x. unat x mod 4 = 0 \<longrightarrow> (\<forall>j < n. x \<noteq> word_at dst k j) \<longrightarrow> view_word m' x = view_word m x)"

lemma transfer_ok_rest:
  assumes "transfer_ok (Suc n) Ls Ld src dst k cl m" "same_ram m' m" "access_requests_time m' = access_requests_time m"
  shows "transfer_ok n Ls Ld src dst (k + 1) cl m'"
  unfolding transfer_ok_def
proof (intro allI impI)
  fix j assume "j < n"
  then have "Suc j < Suc n" by simp
  with assms(1) have h: "port Ls DATALOAD (word_at src k (Suc j)) m \<and> port Ld DATASTORE (word_at dst k (Suc j)) m \<and>
      access_requests_time m (request_key (word_at src k (Suc j)) DATALOAD cl) = None \<and>
      access_requests_time m (request_key (word_at dst k (Suc j)) DATASTORE cl) = None \<and>
      (\<forall>i < Suc j. word_at dst k i \<noteq> word_at src k (Suc j))"
    unfolding transfer_ok_def by blast
  then have "word_at dst (k + 1) i \<noteq> word_at src (k + 1) j" if "i < j" for i
    using that by (metis Suc_less_eq word_at_simps(2))
  with h assms(2,3) show "port Ls DATALOAD (word_at src (k + 1) j) m' \<and> port Ld DATASTORE (word_at dst (k + 1) j) m' \<and>
      access_requests_time m' (request_key (word_at src (k + 1) j) DATALOAD cl) = None \<and>
      access_requests_time m' (request_key (word_at dst (k + 1) j) DATASTORE cl) = None \<and>
      (\<forall>i < j. word_at dst (k + 1) i \<noteq> word_at src (k + 1) j)"
    by (simp add: word_at_simps(2) same_ram_def)
qed

lemma copied_Suc:
  assumes n: "Suc n \<le> 2 ^ 30" and al: "\<forall>j < Suc n. unat (word_at dst k j) mod 4 = 0 \<and> unat (word_at src k j) mod 4 = 0"
    and first: "\<forall>x. unat x mod 4 = 0 \<longrightarrow>
        view_word m1 x = (if x = word_at dst k 0 then view_word m (word_at src k 0) else view_word m x)"
    and rest: "copied n src dst (k + 1) m' m1" and dis: "\<forall>j < Suc n. \<forall>i < j. word_at dst k i \<noteq> word_at src k j"
  shows "copied (Suc n) src dst k m' m"
  unfolding copied_def
proof (intro conjI allI impI)
  have later: "word_at dst k 0 \<noteq> word_at dst k (Suc i)" if "i < n" for i
    using word_at_inj [of dst k 0 "Suc i"] that n by auto
  fix j assume j: "j < Suc n"
  show "view_word m' (word_at dst k j) = view_word m (word_at src k j)"
  proof (cases j)
    case 0
    have "\<forall>i < n. word_at dst k 0 \<noteq> word_at dst (k + 1) i" using later word_at_simps(2) by metis
    then have "view_word m' (word_at dst k 0) = view_word m1 (word_at dst k 0)"
      using rest al by (simp add: copied_def)
    then show ?thesis using first al 0 by simp
  next
    case (Suc i)
    then have "view_word m' (word_at dst (k + 1) i) = view_word m1 (word_at src (k + 1) i)"
      using rest j by (simp add: copied_def)
    moreover have "word_at dst k 0 \<noteq> word_at src k j" using dis j Suc by blast
    ultimately show ?thesis using first al j Suc by (simp add: word_at_simps(2) [symmetric])
  qed
next
  fix x assume x: "unat x mod 4 = 0" and ne: "\<forall>j < Suc n. x \<noteq> word_at dst k j"
  then have "\<forall>i < n. x \<noteq> word_at dst (k + 1) i" using word_at_simps(2) by (metis Suc_less_eq)
  then have "view_word m' x = view_word m1 x" using rest x by (simp add: copied_def)
  then show "view_word m' x = view_word m x" using first x ne by simp
qed

lemma words_copied:
  assumes "engine c DMAC_STAT_READ_REQ d m" "fst (mem_acquire_bus t (dma_client d) m)" "0 < n" "n \<le> 2 ^ 30"
    "dma_counter d + of_nat n = q_len (dma_query d)" "0 < unat Ls" "0 < unat Ld" "unat Ld < 2 ^ 31"
    "unat (q_dst (dma_query d)) mod 4 = 0"
    "transfer_ok n Ls Ld (q_src (dma_query d)) (q_dst (dma_query d)) (dma_counter d) (dma_client d) m"
  shows "\<exists>d' m'. goes t (n * (unat Ls + unat Ld + 4)) (d, m) (d', m') \<and> engine (c\<lparr>dc_end_stat := True\<rparr>) DMAC_STAT_EXIT d' m' \<and>
    dma_counter d' = q_len (dma_query d) \<and> dma_client d' = dma_client d \<and>
    bus_holder (bus_arbiter m') = Some (dma_client d) \<and> same_ram m' m \<and> access_requests_time m' = access_requests_time m \<and>
    copied n (q_src (dma_query d)) (q_dst (dma_query d)) (dma_counter d) m' m"
  using assms
proof (induction n arbitrary: t c d m)
  case (Suc n)
  let ?src = "q_src (dma_query d)" and ?dst = "q_dst (dma_query d)" and ?k = "dma_counter d"
  note ok = Suc.prems(10)
  have p0: "port Ls DATALOAD (word_at ?src ?k 0) m" "port Ld DATASTORE (word_at ?dst ?k 0) m"
    "access_requests_time m (request_key (word_at ?src ?k 0) DATALOAD (dma_client d)) = None"
    "access_requests_time m (request_key (word_at ?dst ?k 0) DATASTORE (dma_client d)) = None"
    using ok unfolding transfer_ok_def by blast+
  let ?W = "unat Ls + unat Ld + 4"
  let ?st = "if dma_counter d + 1 = q_len (dma_query d) then DMAC_STAT_EXIT else DMAC_STAT_READ_REQ"
  obtain d1 m1 where 1: "goes t ?W (d, m) (d1, m1)" "engine (c\<lparr>dc_end_stat := True\<rparr>) ?st d1 m1"
    "dma_counter d1 = ?k + 1" "dma_query d1 = dma_query d" "dma_client d1 = dma_client d" "same_ram m1 m"
    "bus_holder (bus_arbiter m1) = Some (dma_client d)" "last_released_cycle (bus_arbiter m1) = t + Ls + 1"
    "access_requests_time m1 = access_requests_time m"
    "\<forall>x. unat x mod 4 = 0 \<longrightarrow>
      view_word m1 x = (if x = word_at ?dst ?k 0 then view_word m (word_at ?src ?k 0) else view_word m x)"
    using word_copied [OF Suc.prems(1,2) p0(1,2) Suc.prems(6,7) word_at_simps(1) word_at_simps(1) Suc.prems(9) p0(3,4)]
    by blast
  have al: "\<forall>j < Suc n. unat (word_at ?dst ?k j) mod 4 = 0 \<and> unat (word_at ?src ?k j) mod 4 = 0"
    using ok unfolding transfer_ok_def port_def by blast
  have dis: "\<forall>j < Suc n. \<forall>i < j. word_at ?dst ?k i \<noteq> word_at ?src ?k j"
    using ok unfolding transfer_ok_def by blast
  show ?case
  proof (cases "n = 0")
    case True
    then have "?k + 1 = q_len (dma_query d)" using Suc.prems(5) by simp
    moreover have "copied (Suc n) ?src ?dst ?k m1 m"
      using 1(10) al True by (simp add: copied_def)
    ultimately show ?thesis using 1 True by (intro exI [of _ d1] exI [of _ m1]) simp
  next
    case False
    have "?k + 1 \<noteq> q_len (dma_query d)"
    proof
      assume "?k + 1 = q_len (dma_query d)"
      with Suc.prems(5) have "?k + of_nat (Suc n) = ?k + 1" by (rule trans [OF _ sym])
      then have "(of_nat n :: u32) = 0" by simp
      then show False using False Suc.prems(4) by (auto simp: word_of_nat_eq_0_iff dest!: dvd_imp_le)
    qed
    then have e1: "engine (c\<lparr>dc_end_stat := True\<rparr>) DMAC_STAT_READ_REQ d1 m1" using 1(2) by simp
    have "t + Ls + 1 \<noteq> t + of_nat ?W"
    proof
      assume "t + Ls + 1 = t + of_nat ?W"
      then have "(of_nat (unat Ld + 3) :: u32) = 0" by (simp add: algebra_simps)
      then have "2 ^ 32 dvd unat Ld + 3" unfolding word_of_nat_eq_0_iff by simp
      then show False using Suc.prems(8) by (auto dest!: dvd_imp_le)
    qed
    then have acq1: "fst (mem_acquire_bus (t + of_nat ?W) (dma_client d1) m1)"
      using 1(5,7,8) by (simp add: mem_acquire_bus_def acquire_bus_def)
    have ok1: "transfer_ok n Ls Ld (q_src (dma_query d1)) (q_dst (dma_query d1)) (dma_counter d1) (dma_client d1) m1"
      using transfer_ok_rest [OF ok 1(6) 1(9)] 1(3-5) by simp
    obtain d2 m2 where 2: "goes (t + of_nat ?W) (n * ?W) (d1, m1) (d2, m2)"
      "engine (c\<lparr>dc_end_stat := True, dc_end_stat := True\<rparr>) DMAC_STAT_EXIT d2 m2"
      "dma_counter d2 = q_len (dma_query d1)" "dma_client d2 = dma_client d1"
      "bus_holder (bus_arbiter m2) = Some (dma_client d1)" "same_ram m2 m1"
      "access_requests_time m2 = access_requests_time m1"
      "copied n (q_src (dma_query d1)) (q_dst (dma_query d1)) (dma_counter d1) m2 m1"
      using Suc.IH [OF e1 acq1 _ _ _ Suc.prems(6-8) _ ok1] False Suc.prems(4,5,9) 1(3,4) by (auto simp: algebra_simps)
    have "copied (Suc n) ?src ?dst ?k m2 m"
      using copied_Suc [OF Suc.prems(4) al 1(10) _ dis] 2(8) 1(3,4) by simp
    moreover have "goes t (?W + n * ?W) (d, m) (d2, m2)" by (rule goes_append [OF 1(1) 2(1)])
    ultimately show ?thesis
      using 2 1(4,5,9) same_ram_trans [OF 2(6) 1(6)] by (intro exI [of _ d2] exI [of _ m2]) simp
  qed
qed simp

lemma goto_config: "dma_config (goto st d) m = dma_config d m" "upd_config (goto st d) f m = upd_config d f m"
  by (cases "ranges m ! dma_cfg d"; simp add: dma_config_def upd_config_def goto_def)+

text \<open>The first cycle takes the query, the last reports what was done.\<close>

lemma dma_kicked:
  assumes "dma_status d = DMAC_STAT_IDLE" "\<not> dma_exception_pending d" "0 < dma_bandwidth d" "0 < length (dma_buffer d)"
    "mapper_wf m" "\<not> debug_mode m" "dma_cfg d < length (ranges m)" "dma_config d m = Some c"
    "dc_enabled c" "dc_kicked c" "\<not> dc_abort c" "\<not> dc_burst c" "\<not> dc_zero_write c" "unat (dc_dma_src c) mod 4 = 0"
  shows "\<exists>d' m'. goes t 1 (d, m) (d', m') \<and> engine (c\<lparr>dc_busy := True, dc_kicked := False\<rparr>) DMAC_STAT_READ_REQ d' m' \<and>
    dma_query d' = getQuery c \<and> dma_counter d' = 0 \<and> dma_client d' = dma_client d \<and> bus_arbiter m' = bus_arbiter m \<and>
    mem_view m' = mem_view m \<and> same_ram m' m \<and> access_requests_time m' = access_requests_time m"
proof -
  let ?m = "upd_config d (\<lambda>c. c\<lparr>dc_busy := True, dc_kicked := False\<rparr>) m"
  note u = config_upd [OF assms(8,7), of "\<lambda>c. c\<lparr>dc_busy := True, dc_kicked := False\<rparr>"]
  let ?d = "d\<lparr>dma_query := getQuery c, dma_counter := 0, dma_word_counter := 0, dma_next_status := DMAC_STAT_READ_REQ\<rparr>"
  have cfg: "dma_config ?d ?m = Some (c\<lparr>dc_busy := True, dc_kicked := False\<rparr>)" using u(1) by (simp add: dma_config_def)
  have "dma_state_step t m (goto (dma_status d) d) = Some (?d, ?m)"
    unfolding dma_state_step_def dma_idle_def goto_config
    using assms by (simp add: goto_def Let_def address_valid_def getQuery_def mod4_unat)
  then have go: "goes t 1 (d, m) (?d\<lparr>dma_status := dma_next_status ?d\<rparr>, ?m)"
    using assms(2) cfg by (intro goes_step [OF assms(8,9)]) simp_all
  have "engine (c\<lparr>dc_busy := True, dc_kicked := False\<rparr>) DMAC_STAT_READ_REQ (?d\<lparr>dma_status := dma_next_status ?d\<rparr>) ?m"
    using assms u cfg by (simp add: engine_def getQuery_def same_ram_def dma_config_def)
  then show ?thesis using go u(3-6) by (intro exI [of _ "?d\<lparr>dma_status := dma_next_status ?d\<rparr>"] exI [of _ ?m]) simp
qed

lemma dma_exits:
  assumes e: "engine c DMAC_STAT_EXIT d m" and own: "bus_holder (bus_arbiter m) = Some (dma_client d)"
  shows "\<exists>m'. goes t 1 (d, m) (d\<lparr>dma_status := DMAC_STAT_IDLE, dma_next_status := DMAC_STAT_IDLE\<rparr>, m') \<and>
    dma_config d m' = Some (c\<lparr>dc_done := True, dc_busy := False, dc_success_len := dma_counter d\<rparr>) \<and>
    bus_holder (bus_arbiter m') = None \<and> mapper_wf m' \<and>
    mem_view m' = mem_view m \<and> same_ram m' m \<and> access_requests_time m' = access_requests_time m"
proof -
  have cfg: "dma_config d m = Some c" "dc_enabled c" "dma_cfg d < length (ranges m)" and wf: "mapper_wf m"
    and ne: "\<not> dma_exception_pending d" using e by (simp_all add: engine_def)
  let ?f = "\<lambda>c. c\<lparr>dc_done := True, dc_busy := False, dc_success_len := dma_counter d\<rparr>"
  let ?m1 = "mem_release_bus t (dma_client d) m"
  let ?m = "upd_config d ?f ?m1"
  have m1: "?m1 = m\<lparr>bus_arbiter := \<lparr>last_released_cycle = t, bus_holder = None\<rparr>\<rparr>"
    using own by (simp add: mem_release_bus_def release_bus_def)
  have c1: "dma_config d ?m1 = Some c" "dma_cfg d < length (ranges ?m1)" using cfg by (simp_all add: m1 dma_config_def)
  note u = config_upd [OF c1, of ?f]
  have "dma_state_step t m (goto (dma_status d) d) = Some (goto DMAC_STAT_IDLE d, ?m)"
    unfolding engine_goto [OF e] using engine_status [OF e] by (simp add: dma_state_step_def dma_exit_def)
  then have "goes t 1 (d, m) ((goto DMAC_STAT_IDLE d)\<lparr>dma_status := dma_next_status (goto DMAC_STAT_IDLE d)\<rparr>, ?m)"
    using ne u(1) by (intro goes_step [OF cfg(1,2)]) (simp_all add: goto_def dma_config_def)
  then have go: "goes t 1 (d, m) (d\<lparr>dma_status := DMAC_STAT_IDLE, dma_next_status := DMAC_STAT_IDLE\<rparr>, ?m)"
    by (simp add: goto_def status_order)
  have "same_ram ?m m" by (rule same_ram_trans [OF u(6)]) (simp add: m1 same_ram_fields)
  then show ?thesis using go u(1,3,4,5,7) wf by (intro exI [of _ ?m]) (simp add: m1 mem_view_fields)
qed

lemma dma_transfers:
  assumes idle: "dma_status d = DMAC_STAT_IDLE" "\<not> dma_exception_pending d" "0 < dma_bandwidth d" "0 < length (dma_buffer d)"
    "mapper_wf m" "\<not> debug_mode m" "dma_cfg d < length (ranges m)" "dma_config d m = Some c"
    and cfg: "dc_enabled c" "dc_kicked c" "\<not> dc_abort c" "\<not> dc_burst c" "\<not> dc_zero_write c"
    and n: "n = unat (dc_dma_len c)" "0 < n" "n \<le> 2 ^ 30"
    and al: "unat (dc_dma_src c) mod 4 = 0" "unat (dc_dma_dst c) mod 4 = 0"
    and L: "0 < unat Ls" "0 < unat Ld" "unat Ld < 2 ^ 31"
    and ok: "transfer_ok n Ls Ld (dc_dma_src c) (dc_dma_dst c) 0 (dma_client d) m"
    and free: "bus_holder (bus_arbiter m) = None" "last_released_cycle (bus_arbiter m) \<noteq> t + 1"
  shows "\<exists>d' m'. goes t (n * (unat Ls + unat Ld + 4) + 2) (d, m) (d', m') \<and> dma_status d' = DMAC_STAT_IDLE \<and>
    dma_config d' m' = Some (c\<lparr>dc_kicked := False, dc_busy := False, dc_done := True, dc_end_stat := True,
      dc_success_len := dc_dma_len c\<rparr>) \<and>
    bus_holder (bus_arbiter m') = None \<and> copied n (dc_dma_src c) (dc_dma_dst c) 0 m' m"
proof -
  obtain d1 m1 where 1: "goes t 1 (d, m) (d1, m1)" "engine (c\<lparr>dc_busy := True, dc_kicked := False\<rparr>) DMAC_STAT_READ_REQ d1 m1"
    "dma_query d1 = getQuery c" "dma_counter d1 = 0" "dma_client d1 = dma_client d" "bus_arbiter m1 = bus_arbiter m"
    "mem_view m1 = mem_view m" "same_ram m1 m" "access_requests_time m1 = access_requests_time m"
    using dma_kicked [OF idle cfg al(1)] by blast
  have q: "q_src (dma_query d1) = dc_dma_src c" "q_dst (dma_query d1) = dc_dma_dst c" "q_len (dma_query d1) = dc_dma_len c"
    using 1(3) by (simp_all add: getQuery_def)
  have acq: "fst (mem_acquire_bus (t + 1) (dma_client d1) m1)"
    using free 1(6) by (simp add: mem_acquire_bus_def acquire_bus_def)
  have ok1: "transfer_ok n Ls Ld (q_src (dma_query d1)) (q_dst (dma_query d1)) (dma_counter d1) (dma_client d1) m1"
    using ok 1(4,5,8,9) q by (simp add: transfer_ok_def same_ram_def)
  have len: "dma_counter d1 + of_nat n = q_len (dma_query d1)" using 1(4) q n(1) by simp
  have ald: "unat (q_dst (dma_query d1)) mod 4 = 0" using al(2) q by simp
  obtain d2 m2 where 2: "goes (t + 1) (n * (unat Ls + unat Ld + 4)) (d1, m1) (d2, m2)"
    "engine (c\<lparr>dc_busy := True, dc_kicked := False, dc_end_stat := True\<rparr>) DMAC_STAT_EXIT d2 m2"
    "dma_counter d2 = q_len (dma_query d1)" "dma_client d2 = dma_client d1"
    "bus_holder (bus_arbiter m2) = Some (dma_client d1)" "same_ram m2 m1"
    "copied n (q_src (dma_query d1)) (q_dst (dma_query d1)) (dma_counter d1) m2 m1"
    using words_copied [OF 1(2) acq n(2,3) len L ald ok1] by blast
  let ?t = "t + 1 + of_nat (n * (unat Ls + unat Ld + 4))"
  let ?d3 = "d2\<lparr>dma_status := DMAC_STAT_IDLE, dma_next_status := DMAC_STAT_IDLE\<rparr>"
  obtain m3 where 3: "goes ?t 1 (d2, m2) (?d3, m3)"
    "dma_config d2 m3 = Some (c\<lparr>dc_busy := True, dc_kicked := False, dc_end_stat := True,
      dc_done := True, dc_busy := False, dc_success_len := dma_counter d2\<rparr>)"
    "bus_holder (bus_arbiter m3) = None" "mem_view m3 = mem_view m2" "same_ram m3 m2"
    using dma_exits [OF 2(2), of ?t] 2(4,5) by auto
  have "goes t (1 + (n * (unat Ls + unat Ld + 4) + 1)) (d, m) (?d3, m3)"
    by (rule goes_append [OF 1(1) goes_append]) (use 2(1) 3(1) in \<open>simp_all add: ac_simps\<close>)
  then have go: "goes t (n * (unat Ls + unat Ld + 4) + 2) (d, m) (?d3, m3)"
    by (rule back_subst [where P = "\<lambda>n. goes t n (d, m) (?d3, m3)"]) simp
  have "view_word m1 x = view_word m x" "view_word m3 x = view_word m2 x" for x
    using view_word_cong [OF 1(7)] view_word_cong [OF 3(4)] 1(8) 3(5) by (simp_all add: same_ram_def)
  then have "copied n (dc_dma_src c) (dc_dma_dst c) 0 m3 m" using 2(7) 1(4) q by (simp add: copied_def)
  moreover have "c\<lparr>dc_busy := True, dc_kicked := False, dc_end_stat := True, dc_done := True, dc_busy := False,
      dc_success_len := dma_counter d2\<rparr> = c\<lparr>dc_kicked := False, dc_busy := False, dc_done := True, dc_end_stat := True,
      dc_success_len := dc_dma_len c\<rparr>" using 2(3) q by (cases c) simp
  ultimately show ?thesis
    using go 3(2,3) by (intro exI [of _ ?d3] exI [of _ m3]) (simp add: dma_config_def)
qed

end
