(* ===== verification/Dmac_Props.thy ===== *)
theory Dmac_Props
  imports Dmac_Copy
begin

unbundle bit_operations_syntax

text \<open>The property of the DMA controller, and a machine with memory and a controller for its witness.\<close>

text \<open>The program writes length, source and destination, enables the controller and starts it.\<close>

definition demo_dma_regs :: dmac_config where
  "demo_dma_regs = foldl (\<lambda>c (off, d). DMACConfig_store_word c off d) (DMACConfig_new True False)
     [(DMAC_LEN_OFFSET, 2), (DMAC_SRC_OFFSET, 0x1000), (DMAC_DST_OFFSET, 0x1008), (DMAC_ENABLE_OFFSET, 1), (DMAC_CTRL_OFFSET, 1)]"

definition demo_dma_mapper :: mapper where
  "demo_dma_mapper =
     snd (map_at_physical_address (DMACConfig (Range_new 0 DMAC_CONF_SIZE [] MEM_READ_WRITE) demo_dma_regs) DMAC_ADDR_BASE
       (snd (map_at_physical_address (MemoryModule (Range_new 0 16 ([1, 2, 3, 4, 5, 6, 7, 8] @ replicate 8 0) MEM_READ_WRITE) 2) 0x1000
         (Mapper_new True False 1))))"

definition demo_dmac :: dmac where
  "demo_dmac = \<lparr>dma_client = 2, dma_cfg = 1, dma_dev = 0, dma_buffer = replicate 4 0, dma_status = DMAC_STAT_IDLE,
     dma_next_status = DMAC_STAT_IDLE, dma_block_words = 4,
     dma_query = \<lparr>q_src = 0, q_dst = 0, q_len = 0, q_zero_write = False, q_burst = False\<rparr>,
     dma_counter = 0, dma_word_counter = 0, dma_bandwidth = 1, dma_exception_pending = False\<rparr>"

lemma demo_dma_ranges:
  "ranges demo_dma_mapper =
     [MemoryModule (Range_new 0x1000 16 ([1, 2, 3, 4, 5, 6, 7, 8] @ replicate 8 0) MEM_READ_WRITE) 2,
      DMACConfig (Range_new DMAC_ADDR_BASE DMAC_CONF_SIZE [] MEM_READ_WRITE) demo_dma_regs]"
  "access_requests_time demo_dma_mapper = (\<lambda>k. None)" "bus_latency demo_dma_mapper = 1"
  "bus_arbiter demo_dma_mapper = BusArbiter_new" "\<not> debug_mode demo_dma_mapper"
  "last_used_mapping demo_dma_mapper = None" "opt_bigendian demo_dma_mapper" "\<not> host_bigendian demo_dma_mapper"
  "byteswapped demo_dma_mapper"
  by (simp_all add: demo_dma_mapper_def map_at_physical_address_def add_range_def overlaps_def Range_new_def Mapper_new_def)

lemma demo_dma_wf: "mapper_wf demo_dma_mapper"
  by (simp add: mapper_wf_def demo_dma_ranges) (simp add: proper_range_def mem_range_wf_def overlaps_def Range_new_def)

lemma demo_dma_regs:
  "dc_enabled demo_dma_regs" "dc_kicked demo_dma_regs" "\<not> dc_abort demo_dma_regs" "\<not> dc_burst demo_dma_regs"
  "\<not> dc_zero_write demo_dma_regs" "dc_dma_len demo_dma_regs = 2" "dc_dma_src demo_dma_regs = 0x1000"
  "dc_dma_dst demo_dma_regs = 0x1008"
  by (simp_all add: demo_dma_regs_def DMACConfig_store_word_def DMACConfig_new_def)

lemma demo_dma_port:
  assumes "a \<in> {0x1000, 0x1004, 0x1008, 0x100C}" "md \<in> {DATALOAD, DATASTORE}"
  shows "port 3 md a demo_dma_mapper"
proof -
  have "unat a mod 4 = 0" "first_mapping (ranges demo_dma_mapper) a = Some 0"
    using assms(1) by (auto simp: demo_dma_ranges incorporates_def Range_new_def)
  then show ?thesis
    using assms(2) by (auto simp: port_def ram_at_def demo_dma_ranges canRead_def canWrite_def Range_new_def)
qed

lemma demo_dma_transfer: "transfer_ok 2 3 3 0x1000 0x1008 0 2 demo_dma_mapper"
  using demo_dma_port
  by (simp add: transfer_ok_def word_at_def all_less_numeral All_less_Suc demo_dma_ranges(2))

text \<open>
  C6. A transfer of single words: an idle controller that a program has set up and started copies the \<open>n\<close>
  words of the source to the destination, leaves every other word of memory as it was, and is back
  in its idle state after \<open>n\<close> times the latencies of the two words and four cycles, and two cycles
  for start and end; it then reports done and the length, no error, and has given up the bus. No
  other master uses the bus meanwhile, and no source word lies where an earlier word goes.
\<close>
theorem dma_transfer_copies:
  assumes "dma_status d = DMAC_STAT_IDLE" "\<not> dma_exception_pending d" "0 < dma_bandwidth d" "0 < length (dma_buffer d)"
    "mapper_wf m" "\<not> debug_mode m" "dma_cfg d < length (ranges m)" "dma_config d m = Some c"
    "dc_enabled c" "dc_kicked c" "\<not> dc_abort c" "\<not> dc_burst c" "\<not> dc_zero_write c"
    "n = unat (dc_dma_len c)" "0 < n" "n \<le> 2 ^ 30"
    "unat (dc_dma_src c) mod 4 = 0" "unat (dc_dma_dst c) mod 4 = 0" "0 < unat Ls" "0 < unat Ld" "unat Ld < 2 ^ 31"
    "transfer_ok n Ls Ld (dc_dma_src c) (dc_dma_dst c) 0 (dma_client d) m"
    "bus_holder (bus_arbiter m) = None" "last_released_cycle (bus_arbiter m) \<noteq> t + 1"
  shows "\<exists>d' m'. goes t (n * (unat Ls + unat Ld + 4) + 2) (d, m) (d', m') \<and> dma_status d' = DMAC_STAT_IDLE \<and>
    dma_config d' m' = Some (c\<lparr>dc_kicked := False, dc_busy := False, dc_done := True, dc_end_stat := True,
      dc_success_len := dc_dma_len c\<rparr>) \<and>
    bus_holder (bus_arbiter m') = None \<and> copied n (dc_dma_src c) (dc_dma_dst c) 0 m' m"
  by (rule dma_transfers) (rule assms)+

theorem dma_transfer_copies_witness:
  "\<exists>d' m'. goes 7 22 (demo_dmac, demo_dma_mapper) (d', m') \<and> dma_status d' = DMAC_STAT_IDLE \<and>
     view_word m' 0x1008 = view_word demo_dma_mapper 0x1000 \<and> view_word m' 0x100C = view_word demo_dma_mapper 0x1004"
proof -
  have cfg: "dma_config demo_dmac demo_dma_mapper = Some demo_dma_regs" "dma_cfg demo_dmac < length (ranges demo_dma_mapper)"
    by (simp_all add: dma_config_def demo_dmac_def demo_dma_ranges)
  have st: "dma_status demo_dmac = DMAC_STAT_IDLE" "\<not> dma_exception_pending demo_dmac" "0 < dma_bandwidth demo_dmac"
    "0 < length (dma_buffer demo_dmac)" "dma_client demo_dmac = 2" by (simp_all add: demo_dmac_def)
  have al: "unat (dc_dma_src demo_dma_regs) mod 4 = 0" "unat (dc_dma_dst demo_dma_regs) mod 4 = 0"
    "2 = unat (dc_dma_len demo_dma_regs)" by (simp_all add: demo_dma_regs)
  have ok: "transfer_ok 2 3 3 (dc_dma_src demo_dma_regs) (dc_dma_dst demo_dma_regs) 0 (dma_client demo_dmac) demo_dma_mapper"
    using demo_dma_transfer by (simp add: demo_dma_regs st)
  have bus: "bus_holder (bus_arbiter demo_dma_mapper) = None" "last_released_cycle (bus_arbiter demo_dma_mapper) \<noteq> 7 + 1"
    by (simp_all add: demo_dma_ranges BusArbiter_new_def)
  obtain d' m' where "goes 7 (2 * (unat (3 :: u32) + unat (3 :: u32) + 4) + 2) (demo_dmac, demo_dma_mapper) (d', m')"
    "dma_status d' = DMAC_STAT_IDLE" "copied 2 (dc_dma_src demo_dma_regs) (dc_dma_dst demo_dma_regs) 0 m' demo_dma_mapper"
    using dma_transfer_copies [OF st(1-4) demo_dma_wf demo_dma_ranges(5) cfg(2,1) demo_dma_regs(1-5) al(3) _ _ al(1,2) _ _ _ ok bus]
    by auto
  then show ?thesis
    by (intro exI [of _ d'] exI [of _ m']) (simp add: copied_def demo_dma_regs word_at_def all_less_numeral All_less_Suc)
qed

end
