(* ===== verification/Router_Interface.thy ===== *)
theory Router_Interface
  imports Router Int_Ctrl
begin

unbundle bit_operations_syntax

text \<open>
  \<open>routerinterface.h\<close> and \<open>routerinterface.cc\<close>: how the processor reaches the other chips. Its
  registers (\<open>RouterIOReg\<close>) hold the configuration and the status bits; an access to the window of
  the other chips (\<open>RouterRange\<close>) starts the interface, which builds the packets, hands them to the
  router of the processor chip and collects the answer.

  The configuration is shared by pointer between registers and interface, and the two ranges of
  the window refer to the one interface: one record holds them all. The interface has no upper
  router, so a cycle returns the flits its router sends down. \<^const>\<open>None\<close> is the access to an
  empty queue or outside an array.
\<close>

abbreviation (input) REMOTE_NODE_COUNT :: nat where "REMOTE_NODE_COUNT \<equiv> 3"
abbreviation (input) ROUTER_ID_OFFSET :: u32 where "ROUTER_ID_OFFSET \<equiv> 0x00"
abbreviation (input) ROUTER_DVCH_NODE0_OFFSET :: u32 where "ROUTER_DVCH_NODE0_OFFSET \<equiv> 0x04"
abbreviation (input) ROUTER_DVCH_NODE1_OFFSET :: u32 where "ROUTER_DVCH_NODE1_OFFSET \<equiv> 0x08"
abbreviation (input) ROUTER_DVCH_NODE2_OFFSET :: u32 where "ROUTER_DVCH_NODE2_OFFSET \<equiv> 0x0C"
abbreviation (input) ROUTER_IREADY_OFFSET :: u32 where "ROUTER_IREADY_OFFSET \<equiv> 0x10"
abbreviation (input) ROUTER_INTVCH_NODE0_OFFSET :: u32 where "ROUTER_INTVCH_NODE0_OFFSET \<equiv> 0x14"
abbreviation (input) ROUTER_INTVCH_NODE1_OFFSET :: u32 where "ROUTER_INTVCH_NODE1_OFFSET \<equiv> 0x18"
abbreviation (input) ROUTER_INTVCH_NODE2_OFFSET :: u32 where "ROUTER_INTVCH_NODE2_OFFSET \<equiv> 0x1C"
abbreviation (input) ROUTER_DONE_STAT_OFFSET :: u32 where "ROUTER_DONE_STAT_OFFSET \<equiv> 0x20"
abbreviation (input) ROUTER_DONE_MASK_OFFSET :: u32 where "ROUTER_DONE_MASK_OFFSET \<equiv> 0x24"
abbreviation (input) ROUTER_DMAC_STAT_OFFSET :: u32 where "ROUTER_DMAC_STAT_OFFSET \<equiv> 0x28"
abbreviation (input) ROUTER_DMAC_MASK_OFFSET :: u32 where "ROUTER_DMAC_MASK_OFFSET \<equiv> 0x2C"
abbreviation (input) ROUTER_ABORT_OFFSET :: u32 where "ROUTER_ABORT_OFFSET \<equiv> 0x30"
abbreviation (input) ROUTER_RESET_BIT :: u32 where "ROUTER_RESET_BIT \<equiv> 0x1"
abbreviation (input) ROUTER_NODE1_OFFSET :: u32 where "ROUTER_NODE1_OFFSET \<equiv> 0x400000"
abbreviation (input) ROUTER_NODE2_OFFSET :: u32 where "ROUTER_NODE2_OFFSET \<equiv> 0x800000"
abbreviation (input) DONE_NOTIF_ADDR :: u32 where "DONE_NOTIF_ADDR \<equiv> 0"
abbreviation (input) DMAC_NOTIF_ADDR :: u32 where "DMAC_NOTIF_ADDR \<equiv> 1"

datatype rt_state =
    RT_STATE_IDLE | RT_STATE_SW_SETUP | RT_STATE_BW_SETUP | RT_STATE_SR_HEAD | RT_STATE_SW_HEAD
  | RT_STATE_BR_HEAD | RT_STATE_BW_HEAD | RT_STATE_SW_DATA | RT_STATE_BW_DATA | RT_STATE_SR_WAIT
  | RT_STATE_BR_WAIT | RT_STATE_DATA_RDY

record rt_config =
  rc_router_id :: u32
  rc_data_vch :: "u32 list"
  rc_iready :: "bool list"
  rc_int_vch :: "u32 list"
  rc_done_status :: "bool list"
  rc_dmac_status :: "bool list"
  rc_done_mask :: "bool list"
  rc_dmac_mask :: "bool list"

record router_if =
  ri_registed_router_id :: u32
  ri_packet_size :: nat
  ri_bandwidth :: nat
  ri_send_fifo :: "u32 list"
  ri_recv_fifo :: "u32 list"
  ri_req_addr :: u32
  ri_use_vch :: u32
  ri_state :: rt_state
  ri_next_state :: rt_state
  ri_rx :: "flit_entry list"
  ri_router :: router
  ri_config :: rt_config
  ri_abort :: u32
  ri_dev :: nat

section \<open>Registers (RouterIOReg)\<close>

definition clear_reg :: "router_if \<Rightarrow> router_if" where
  "clear_reg s = s\<lparr>ri_abort := 0, ri_config :=
     \<lparr>rc_router_id = 0, rc_data_vch = replicate 3 0, rc_iready = replicate VCH_SIZE False, rc_int_vch = replicate 3 0,
      rc_done_status = replicate REMOTE_NODE_COUNT False, rc_dmac_status = replicate REMOTE_NODE_COUNT False,
      rc_done_mask = replicate REMOTE_NODE_COUNT False, rc_dmac_mask = replicate REMOTE_NODE_COUNT False\<rparr>\<rparr>"

definition bin2bool :: "u32 \<Rightarrow> nat \<Rightarrow> bool list" where
  "bin2bool w n = map (\<lambda>i. push_bit i 1 AND w \<noteq> 0) [0..<n]"

definition bool2bin :: "bool list \<Rightarrow> nat \<Rightarrow> u32" where
  "bool2bin bs n = foldl (\<lambda>w i. if bs ! i then w + push_bit i 1 else w) 0 [0..<n]"

definition clear_bits :: "u32 \<Rightarrow> bool list \<Rightarrow> bool list" where
  "clear_bits data bs =
     foldl (\<lambda>bs i. if bin2bool (data AND 7) REMOTE_NODE_COUNT ! i then bs[i := False] else bs) bs [0..<REMOTE_NODE_COUNT]"

definition isBusy :: "router_if \<Rightarrow> bool" where
  "isBusy s \<longleftrightarrow> ri_next_state s \<noteq> RT_STATE_IDLE"

definition isDataArrived :: "router_if \<Rightarrow> bool" where
  "isDataArrived s \<longleftrightarrow> ri_state s = RT_STATE_DATA_RDY"

definition isUnderSetup :: "router_if \<Rightarrow> bool" where
  "isUnderSetup s \<longleftrightarrow> ri_state s = RT_STATE_SW_SETUP \<or> ri_state s = RT_STATE_BW_SETUP \<or>
     ri_next_state s = RT_STATE_SW_SETUP \<or> ri_next_state s = RT_STATE_BW_SETUP"

definition RouterIOReg_ready :: "u32 \<Rightarrow> router_if \<Rightarrow> bool" where
  "RouterIOReg_ready offset s \<longleftrightarrow> offset = ROUTER_ABORT_OFFSET \<or> \<not> isBusy s"

definition RouterIOReg_fetch_word :: "u32 \<Rightarrow> router_if \<Rightarrow> u32 \<times> exc_info list" where
  "RouterIOReg_fetch_word offset s =
     (let c = ri_config s in
      if offset = ROUTER_ID_OFFSET then (rc_router_id c, [])
      else if offset = ROUTER_DVCH_NODE0_OFFSET then (rc_data_vch c ! 0, [])
      else if offset = ROUTER_DVCH_NODE1_OFFSET then (rc_data_vch c ! 1, [])
      else if offset = ROUTER_DVCH_NODE2_OFFSET then (rc_data_vch c ! 2, [])
      else if offset = ROUTER_IREADY_OFFSET then (bool2bin (rc_iready c) VCH_SIZE, [])
      else if offset = ROUTER_INTVCH_NODE0_OFFSET then (rc_int_vch c ! 0, [])
      else if offset = ROUTER_INTVCH_NODE1_OFFSET then (rc_int_vch c ! 1, [])
      else if offset = ROUTER_INTVCH_NODE2_OFFSET then (rc_int_vch c ! 2, [])
      else if offset = ROUTER_DONE_STAT_OFFSET then (bool2bin (rc_done_status c) REMOTE_NODE_COUNT, [])
      else if offset = ROUTER_DONE_MASK_OFFSET then (bool2bin (rc_done_mask c) REMOTE_NODE_COUNT, [])
      else if offset = ROUTER_DMAC_STAT_OFFSET then (bool2bin (rc_dmac_status c) REMOTE_NODE_COUNT, [])
      else if offset = ROUTER_DMAC_MASK_OFFSET then (bool2bin (rc_dmac_mask c) REMOTE_NODE_COUNT, [])
      else if offset = ROUTER_ABORT_OFFSET then (ri_abort s, [])
      else (0xFFFFFFFF, [exc_req Exc_DBE DATALOAD]))"

definition rtif_abort :: "router_if \<Rightarrow> router_if" where
  "rtif_abort s = s\<lparr>ri_next_state := RT_STATE_IDLE, ri_state := RT_STATE_IDLE\<rparr>"

definition rtif_reset :: "u32 \<Rightarrow> router_if \<Rightarrow> router_if" where
  "rtif_reset now s =
     s\<lparr>ri_next_state := RT_STATE_IDLE, ri_state := RT_STATE_IDLE, ri_router := Router_reset now (ri_router s),
       ri_send_fifo := [], ri_recv_fifo := []\<rparr>"

text \<open>
  In the condition for a reset \<open>==\<close> binds tighter than \<open>&\<close>: the last operand is the comparison of the
  reset bit with zero, a constant.
\<close>

definition store_abort :: "u32 \<Rightarrow> u32 \<Rightarrow> router_if \<Rightarrow> router_if" where
  "store_abort now data s =
     (let s1 =
        (if ri_abort s AND ROUTER_RESET_BIT \<noteq> 0 \<and> data AND 7 AND (if ROUTER_RESET_BIT = 0 then 1 else 0) \<noteq> 0
         then rtif_reset now s
         else if ri_abort s AND ROUTER_RESET_BIT \<noteq> 0 \<and> data AND 7 AND ROUTER_RESET_BIT = 0
         then rtif_abort s
         else s)
      in s1\<lparr>ri_abort := data AND 7\<rparr>)"

definition upd_rt_config :: "(rt_config \<Rightarrow> rt_config) \<Rightarrow> router_if \<Rightarrow> router_if" where
  "upd_rt_config f s = s\<lparr>ri_config := f (ri_config s)\<rparr>"

definition RouterIOReg_store_word :: "u32 \<Rightarrow> u32 \<Rightarrow> u32 \<Rightarrow> router_if \<Rightarrow> router_if \<times> exc_info list" where
  "RouterIOReg_store_word now offset data s =
     (if offset = ROUTER_ID_OFFSET then (upd_rt_config (\<lambda>c. c\<lparr>rc_router_id := data AND 3\<rparr>) s, [])
      else if offset = ROUTER_DVCH_NODE0_OFFSET then (upd_rt_config (\<lambda>c. c\<lparr>rc_data_vch := (rc_data_vch c)[0 := data AND 7]\<rparr>) s, [])
      else if offset = ROUTER_DVCH_NODE1_OFFSET then (upd_rt_config (\<lambda>c. c\<lparr>rc_data_vch := (rc_data_vch c)[1 := data AND 7]\<rparr>) s, [])
      else if offset = ROUTER_DVCH_NODE2_OFFSET then (upd_rt_config (\<lambda>c. c\<lparr>rc_data_vch := (rc_data_vch c)[2 := data AND 7]\<rparr>) s, [])
      else if offset = ROUTER_IREADY_OFFSET then (upd_rt_config (\<lambda>c. c\<lparr>rc_iready := bin2bool (data AND 0xFF) VCH_SIZE\<rparr>) s, [])
      else if offset = ROUTER_INTVCH_NODE0_OFFSET then (upd_rt_config (\<lambda>c. c\<lparr>rc_int_vch := (rc_int_vch c)[0 := data AND 7]\<rparr>) s, [])
      else if offset = ROUTER_INTVCH_NODE1_OFFSET then (upd_rt_config (\<lambda>c. c\<lparr>rc_int_vch := (rc_int_vch c)[1 := data AND 7]\<rparr>) s, [])
      else if offset = ROUTER_INTVCH_NODE2_OFFSET then (upd_rt_config (\<lambda>c. c\<lparr>rc_int_vch := (rc_int_vch c)[2 := data AND 7]\<rparr>) s, [])
      else if offset = ROUTER_DONE_STAT_OFFSET then (upd_rt_config (\<lambda>c. c\<lparr>rc_done_status := clear_bits data (rc_done_status c)\<rparr>) s, [])
      else if offset = ROUTER_DONE_MASK_OFFSET then (upd_rt_config (\<lambda>c. c\<lparr>rc_done_mask := bin2bool (data AND 7) REMOTE_NODE_COUNT\<rparr>) s, [])
      else if offset = ROUTER_DMAC_STAT_OFFSET then (upd_rt_config (\<lambda>c. c\<lparr>rc_dmac_status := clear_bits data (rc_dmac_status c)\<rparr>) s, [])
      else if offset = ROUTER_DMAC_MASK_OFFSET then (upd_rt_config (\<lambda>c. c\<lparr>rc_dmac_mask := bin2bool (data AND 7) REMOTE_NODE_COUNT\<rparr>) s, [])
      else if offset = ROUTER_ABORT_OFFSET then (store_abort now data s, [])
      else (s, [exc_req Exc_DBE DATASTORE]))"

section \<open>The interface (RouterInterface)\<close>

definition RouterInterface_new :: "nat \<Rightarrow> nat \<Rightarrow> int \<Rightarrow> nat \<Rightarrow> router_if \<Rightarrow> router_if" where
  "RouterInterface_new dcachebsize bandwidth vcbufsize dev s =
     s\<lparr>ri_next_state := RT_STATE_IDLE, ri_state := RT_STATE_IDLE, ri_packet_size := dcachebsize div 4,
       ri_registed_router_id := 0, ri_rx := [], ri_send_fifo := [], ri_recv_fifo := [],
       ri_router := Router_new vcbufsize (int dcachebsize) 0 (ri_router s), ri_bandwidth := bandwidth, ri_dev := dev\<rparr>"

definition getNodeID :: "u32 \<Rightarrow> nat" where
  "getNodeID addr = (if addr < ROUTER_NODE1_OFFSET then 1 else if addr < ROUTER_NODE2_OFFSET then 2 else 3)"

definition rtif_start :: "u32 \<Rightarrow> int \<Rightarrow> bool \<Rightarrow> router_if \<Rightarrow> router_if" where
  "rtif_start offset md block_mode s =
     (let s1 = s\<lparr>ri_req_addr := offset\<rparr> in
      if md = DATALOAD \<and> block_mode then s1\<lparr>ri_next_state := RT_STATE_BR_HEAD, ri_recv_fifo := []\<rparr>
      else if md = DATALOAD \<and> \<not> block_mode then s1\<lparr>ri_next_state := RT_STATE_SR_HEAD, ri_recv_fifo := []\<rparr>
      else if md = DATASTORE \<and> block_mode then s1\<lparr>ri_next_state := RT_STATE_BW_SETUP, ri_send_fifo := []\<rparr>
      else if md = DATASTORE \<and> \<not> block_mode then s1\<lparr>ri_next_state := RT_STATE_SW_SETUP, ri_send_fifo := []\<rparr>
      else s1)"

definition rtif_enqueue :: "u32 \<Rightarrow> router_if \<Rightarrow> router_if" where
  "rtif_enqueue data s = s\<lparr>ri_send_fifo := ri_send_fifo s @ [data]\<rparr>"

fun rtif_dequeue :: "router_if \<Rightarrow> (u32 \<times> router_if) option" where
  "rtif_dequeue s = (case ri_recv_fifo s of [] \<Rightarrow> None | w # q \<Rightarrow> Some (w, s\<lparr>ri_recv_fifo := q\<rparr>))"

definition checkHWint :: "router_if \<Rightarrow> bool" where
  "checkHWint s \<longleftrightarrow> (\<exists>i \<in> set [0..<REMOTE_NODE_COUNT].
     rc_done_status (ri_config s) ! i \<and> rc_done_mask (ri_config s) ! i \<or>
     rc_dmac_status (ri_config s) ! i \<and> rc_dmac_mask (ri_config s) ! i)"

text \<open>The window of the other chips (\<open>RouterRange\<close>), with its base and its mode.\<close>

definition RouterRange_ready :: "u32 \<Rightarrow> bool \<Rightarrow> u32 \<Rightarrow> int \<Rightarrow> router_if \<Rightarrow> bool \<times> router_if \<times> exc_info list" where
  "RouterRange_ready base block_mode offset md s =
     (if md = DATALOAD then
        (if \<not> isBusy s then (False, rtif_start (offset - base) md block_mode s, [])
         else (isDataArrived s, s, []))
      else if md = DATASTORE then
        (if \<not> isBusy s then (True, rtif_start (offset - base) md block_mode s, [])
         else (isUnderSetup s, s, []))
      else (False, s, [exc_req (if md = INSTFETCH then Exc_IBE else Exc_DBE) md]))"

definition RouterRange_fetch_word :: "router_if \<Rightarrow> (u32 \<times> router_if) option" where
  "RouterRange_fetch_word s = rtif_dequeue s"

definition RouterRange_store_word :: "u32 \<Rightarrow> router_if \<Rightarrow> router_if" where
  "RouterRange_store_word data s = rtif_enqueue data s"

section \<open>A cycle\<close>

definition rtif_send :: "flit \<Rightarrow> u32 \<Rightarrow> router_if \<Rightarrow> router_if" where
  "rtif_send f vch s =
     s\<lparr>ri_router := (ri_router s)\<lparr>rx := (rx (ri_router s))(Local := port_pushData f (unat vch) (rx (ri_router s) Local))\<rparr>\<rparr>"

definition set_bit_at :: "nat \<Rightarrow> bool list \<Rightarrow> bool list option" where
  "set_bit_at src bs = (if 1 \<le> src \<and> src - 1 < length bs then Some (bs[src - 1 := True]) else None)"

definition rtif_receive :: "router_if \<Rightarrow> router_if option" where
  "rtif_receive s =
     (case port_getData (ri_rx s) of
        None \<Rightarrow> Some s
      | Some (f, v, q) \<Rightarrow>
          let s1 = s\<lparr>ri_rx := q\<rparr>; c = ri_config s in
          if ftype f = FTYPE_DATA \<or> ftype f = FTYPE_TAIL then Some (s1\<lparr>ri_recv_fifo := ri_recv_fifo s1 @ [fdata f]\<rparr>)
          else if ftype f = FTYPE_HEADTAIL then
            let (addr, mtype, vch, src, dst) = decode_headflit f in
            if mtype = MTYPE_DONE then
              if addr = DONE_NOTIF_ADDR then do {
                bs \<leftarrow> set_bit_at (unat src) (rc_done_status c);
                Some (s1\<lparr>ri_config := c\<lparr>rc_done_status := bs\<rparr>\<rparr>)
              }
              else if addr = DMAC_NOTIF_ADDR then do {
                bs \<leftarrow> set_bit_at (unat src) (rc_dmac_status c);
                Some (s1\<lparr>ri_config := c\<lparr>rc_dmac_status := bs\<rparr>\<rparr>)
              }
              else Some s1
            else Some s1
          else Some s1)"

text \<open>The router is stepped as often as the memory is wide; the flits it sends down are collected.\<close>

primrec rtif_router :: "u32 \<Rightarrow> nat \<Rightarrow> router_if \<Rightarrow> (flit_entry list \<times> router_if) option" where
  "rtif_router now 0 s = Some ([], s)"
| "rtif_router now (Suc n) s = do {
     (out, r) \<leftarrow> Router_step now (ri_router s);
     s1 \<leftarrow> rtif_receive (s\<lparr>ri_router := r, ri_rx := ri_rx s @ out Local\<rparr>);
     (down, s2) \<leftarrow> rtif_router now n s1;
     Some (out Lower @ down, s2)
   }"

definition goto_rt :: "rt_state \<Rightarrow> router_if \<Rightarrow> router_if" where
  "goto_rt st s = s\<lparr>ri_next_state := st\<rparr>"

text \<open>The head of a packet of message type \<open>mtype\<close>; \<open>tail\<close> when nothing follows it.\<close>

definition rtif_head :: "u32 \<Rightarrow> bool \<Rightarrow> rt_state \<Rightarrow> router_if \<Rightarrow> router_if option" where
  "rtif_head mtype tail st s =
     (let node_id = getNodeID (ri_req_addr s);
          vch = rc_data_vch (ri_config s) ! (node_id - 1);
          s1 = s\<lparr>ri_use_vch := vch\<rparr>
      in do {
        rdy \<leftarrow> port_isReady (Some (icLocalRdy (ri_router s))) (unat vch);
        Some (if rdy then
            goto_rt st (rtif_send (make_head_flit (ri_req_addr s) mtype vch (rc_router_id (ri_config s)) (of_nat node_id) tail) vch s1)
          else s1)
      })"

definition rtif_send_data :: "bool \<Rightarrow> router_if \<Rightarrow> router_if option" where
  "rtif_send_data single s =
     (case ri_send_fifo s of
        [] \<Rightarrow> None
      | w # q \<Rightarrow> Some (rtif_send (make_data_flit w (single \<or> q = [])) (ri_use_vch s) (s\<lparr>ri_send_fifo := q\<rparr>)))"

primrec rtif_block_data :: "nat \<Rightarrow> router_if \<Rightarrow> router_if option" where
  "rtif_block_data 0 s = Some s"
| "rtif_block_data (Suc n) s = do {
     s1 \<leftarrow> rtif_send_data False s;
     if ri_send_fifo s1 = [] then Some (goto_rt RT_STATE_IDLE s1) else rtif_block_data n s1
   }"

fun rtif_state_step :: "rt_state \<Rightarrow> router_if \<Rightarrow> router_if option" where
  "rtif_state_step RT_STATE_IDLE s = Some s"
| "rtif_state_step RT_STATE_SW_SETUP s =
     Some (if length (ri_send_fifo s) = 1 then goto_rt RT_STATE_SW_HEAD s else s)"
| "rtif_state_step RT_STATE_BW_SETUP s =
     Some (if length (ri_send_fifo s) = ri_packet_size s then goto_rt RT_STATE_BW_HEAD s else s)"
| "rtif_state_step RT_STATE_SR_HEAD s = rtif_head MTYPE_SR True RT_STATE_SR_WAIT s"
| "rtif_state_step RT_STATE_SW_HEAD s = rtif_head MTYPE_SW False RT_STATE_SW_DATA s"
| "rtif_state_step RT_STATE_BR_HEAD s = rtif_head MTYPE_BR True RT_STATE_BR_WAIT s"
| "rtif_state_step RT_STATE_BW_HEAD s = rtif_head MTYPE_BW False RT_STATE_BW_DATA s"
| "rtif_state_step RT_STATE_SW_DATA s = map_option (goto_rt RT_STATE_IDLE) (rtif_send_data True s)"
| "rtif_state_step RT_STATE_BW_DATA s = rtif_block_data (ri_bandwidth s) s"
| "rtif_state_step RT_STATE_SR_WAIT s =
     Some (if length (ri_recv_fifo s) = 1 then goto_rt RT_STATE_DATA_RDY s else s)"
| "rtif_state_step RT_STATE_BR_WAIT s =
     Some (if length (ri_recv_fifo s) = ri_packet_size s then goto_rt RT_STATE_DATA_RDY s else s)"
| "rtif_state_step RT_STATE_DATA_RDY s =
     Some (if ri_recv_fifo s = [] then goto_rt RT_STATE_IDLE s else s)"

definition rtif_update :: "router_if \<Rightarrow> router_if option" where
  "rtif_update s = rtif_state_step (ri_next_state s) (s\<lparr>ri_state := ri_next_state s\<rparr>)"

definition RouterInterface_step :: "u32 \<Rightarrow> router_if \<Rightarrow> int_ctrl \<Rightarrow> (flit_entry list \<times> router_if \<times> int_ctrl) option" where
  "RouterInterface_step now s irq = do {
     let s1 = (if ri_registed_router_id s \<noteq> rc_router_id (ri_config s)
       then s\<lparr>ri_router := setID (rc_router_id (ri_config s)) (ri_router s)\<rparr> else s);
     (down, s2) \<leftarrow> rtif_router now (ri_bandwidth s1) s1;
     let irq1 = (if checkHWint s2 then dev_assert IRQ7 (ri_dev s2) irq else dev_deassert IRQ7 (ri_dev s2) irq);
     s3 \<leftarrow> rtif_update s2;
     Some (down, s3, irq1)
   }"

lemmas router_if_defs [cube_defs] =
  clear_reg_def bin2bool_def bool2bin_def clear_bits_def isBusy_def isDataArrived_def isUnderSetup_def
  RouterIOReg_ready_def RouterIOReg_fetch_word_def rtif_abort_def rtif_reset_def store_abort_def upd_rt_config_def
  RouterIOReg_store_word_def RouterInterface_new_def getNodeID_def rtif_start_def rtif_enqueue_def checkHWint_def
  RouterRange_ready_def RouterRange_fetch_word_def RouterRange_store_word_def rtif_send_def set_bit_at_def
  rtif_receive_def goto_rt_def rtif_head_def rtif_send_data_def rtif_update_def RouterInterface_step_def

end
