(* ===== verification/Packets.thy ===== *)
theory Packets
  imports Router
begin

text \<open>
  When a sequence of flits handed to a router is made of whole packets: what the router interface
  of the processor and the network interface of an accelerator promise the network.
\<close>

text \<open>
  \<open>packet_step\<close> reads one flit: outside a packet (\<^const>\<open>None\<close>) only a head may come, inside a packet on
  channel \<open>v\<close> only a data or tail flit on \<open>v\<close>. \<open>packets\<close> reads a sequence; it is undefined when the
  sequence is not made of packets.
\<close>

fun packet_step :: "nat option \<Rightarrow> flit_entry \<Rightarrow> nat option option" where
  "packet_step None e =
     (if ftype (e_flit e) = FTYPE_HEAD then Some (Some (e_vch e))
      else if ftype (e_flit e) = FTYPE_HEADTAIL then Some None else None)"
| "packet_step (Some v) e =
     (if e_vch e \<noteq> v then None
      else if ftype (e_flit e) = FTYPE_DATA then Some (Some v)
      else if ftype (e_flit e) = FTYPE_TAIL then Some None else None)"

primrec packets :: "nat option \<Rightarrow> flit_entry list \<Rightarrow> nat option option" where
  "packets st [] = Some st"
| "packets st (e # es) = do { st' \<leftarrow> packet_step st e; packets st' es }"

lemma packets_append: "packets st (xs @ ys) = do { st' \<leftarrow> packets st xs; packets st' ys }"
  by (induction xs arbitrary: st) (auto split: Option.bind_splits)

end
