(* ===== verification/Router_If_Props.thy ===== *)
theory Router_If_Props
  imports Router_Interface Packets
begin

unbundle bit_operations_syntax

text \<open>
  What the router interface promises: whatever the processor does at its window and its registers,
  the flits it hands to the router are whole packets, one after the other, each on one virtual
  channel, except that the abort register cuts a packet short.
\<close>

text \<open>What the interface is doing: the channel of the packet it is in the middle of.\<close>

definition in_packet :: "router_if \<Rightarrow> nat option" where
  "in_packet s = (if ri_next_state s = RT_STATE_SW_DATA \<or> ri_next_state s = RT_STATE_BW_DATA
     then Some (unat (ri_use_vch s)) else None)"

definition local_rx :: "router_if \<Rightarrow> flit_entry list" where
  "local_rx s = rx (ri_router s) Local"

section \<open>What one cycle hands over\<close>

lemma head_sends:
  assumes "rtif_head mtype tail st s = Some s'" "in_packet s = None"
    "st = (if tail then RT_STATE_SR_WAIT else RT_STATE_SW_DATA) \<or> st = (if tail then RT_STATE_BR_WAIT else RT_STATE_BW_DATA)"
  shows "\<exists>es. local_rx s' = local_rx s @ es \<and> packets None es = Some (in_packet s')"
proof -
  let ?n = "getNodeID (ri_req_addr s)"
  let ?v = "rc_data_vch (ri_config s) ! (?n - 1)"
  let ?f = "make_head_flit (ri_req_addr s) mtype ?v (rc_router_id (ri_config s)) (of_nat ?n) tail"
  let ?e = "\<lparr>e_flit = ?f, e_vch = unat ?v\<rparr>"
  obtain b where "port_isReady (Some (icLocalRdy (ri_router s))) (unat ?v) = Some b"
    using assms(1) by (auto simp: rtif_head_def Let_def)
  then have s': "s' = (if b then goto_rt st (rtif_send ?f ?v (s\<lparr>ri_use_vch := ?v\<rparr>)) else s\<lparr>ri_use_vch := ?v\<rparr>)"
    using assms(1) by (cases b) (simp_all add: rtif_head_def Let_def)
  show ?thesis
  proof (cases b)
    case True
    then have "local_rx s' = local_rx s @ [?e]" "ri_next_state s' = st" "ri_use_vch s' = ?v"
      unfolding s' by (simp_all add: goto_rt_def rtif_send_def local_rx_def port_pushData_def)
    moreover have "packet_step None ?e = Some (if tail then None else Some (unat ?v))"
      by (simp add: make_head_flit_def)
    ultimately show ?thesis
      using assms(3) by (intro exI [of _ "[?e]"]) (auto simp: in_packet_def simp del: packet_step.simps split: if_splits)
  next
    case False
    then show ?thesis using assms(2) unfolding s' by (intro exI [of _ "[]"]) (auto simp: local_rx_def in_packet_def split: if_splits)
  qed
qed

lemma data_sends:
  assumes "rtif_send_data single s = Some s'"
  shows "\<exists>e. local_rx s' = local_rx s @ [e] \<and> ri_use_vch s' = ri_use_vch s \<and> ri_next_state s' = ri_next_state s \<and>
    packet_step (Some (unat (ri_use_vch s))) e =
      Some (if single \<or> ri_send_fifo s' = [] then None else Some (unat (ri_use_vch s)))"
proof (cases "ri_send_fifo s")
  case (Cons w q)
  let ?e = "\<lparr>e_flit = make_data_flit w (single \<or> q = []), e_vch = unat (ri_use_vch s)\<rparr>"
  show ?thesis
    using assms Cons
    by (intro exI [of _ ?e]) (auto simp: rtif_send_data_def rtif_send_def local_rx_def port_pushData_def make_data_flit_def)
qed (use assms in \<open>simp add: rtif_send_data_def\<close>)

lemma block_data_sends:
  assumes "rtif_block_data n s = Some s'" "ri_next_state s = RT_STATE_BW_DATA"
  shows "\<exists>es. local_rx s' = local_rx s @ es \<and> packets (Some (unat (ri_use_vch s))) es = Some (in_packet s')"
  using assms
proof (induction n arbitrary: s)
  case 0
  then show ?case by (simp add: in_packet_def)
next
  case (Suc n)
  obtain s1 where s1: "rtif_send_data False s = Some s1" using Suc.prems(1) by auto
  obtain e where e: "local_rx s1 = local_rx s @ [e]" "ri_use_vch s1 = ri_use_vch s" "ri_next_state s1 = ri_next_state s"
    "packet_step (Some (unat (ri_use_vch s))) e = Some (if ri_send_fifo s1 = [] then None else Some (unat (ri_use_vch s)))"
    using data_sends [OF s1] by auto
  show ?case
  proof (cases "ri_send_fifo s1 = []")
    case True
    then have "s' = goto_rt RT_STATE_IDLE s1" using Suc.prems(1) s1 by simp
    then show ?thesis using e True by (intro exI [of _ "[e]"]) (simp add: goto_rt_def local_rx_def in_packet_def del: packet_step.simps)
  next
    case False
    then have "rtif_block_data n s1 = Some s'" using Suc.prems(1) s1 by simp
    from Suc.IH [OF this] e Suc.prems(2) obtain es where
      "local_rx s' = local_rx s1 @ es" "packets (Some (unat (ri_use_vch s))) es = Some (in_packet s')" by auto
    then show ?thesis using e False by (intro exI [of _ "e # es"]) (simp del: packet_step.simps)
  qed
qed

lemma update_sends:
  assumes "rtif_update s = Some s'"
  shows "\<exists>es. local_rx s' = local_rx s @ es \<and> packets (in_packet s) es = Some (in_packet s')"
proof -
  let ?s = "s\<lparr>ri_state := ri_next_state s\<rparr>"
  have st: "rtif_state_step (ri_next_state s) ?s = Some s'" using assms by (simp add: rtif_update_def)
  have eq: "in_packet ?s = in_packet s" "local_rx ?s = local_rx s" "ri_use_vch ?s = ri_use_vch s"
    by (simp_all add: in_packet_def local_rx_def)
  note head = head_sends [where s = ?s and s' = s', unfolded eq]
  show ?thesis
  proof (cases "ri_next_state s")
    case RT_STATE_SW_DATA
    then obtain s1 where s1: "rtif_send_data True ?s = Some s1" "s' = goto_rt RT_STATE_IDLE s1" using st by auto
    from data_sends [OF s1(1)] obtain e where "local_rx s1 = local_rx s @ [e]"
      "packet_step (Some (unat (ri_use_vch s))) e = Some None" unfolding eq by auto
    then show ?thesis using s1(2) RT_STATE_SW_DATA
      by (intro exI [of _ "[e]"]) (simp add: goto_rt_def local_rx_def in_packet_def del: packet_step.simps)
  next
    case RT_STATE_BW_DATA
    then have "rtif_block_data (ri_bandwidth s) ?s = Some s'" using st by simp
    from block_data_sends [OF this] RT_STATE_BW_DATA show ?thesis unfolding eq by (simp add: in_packet_def)
  next
    case RT_STATE_SR_HEAD
    then show ?thesis using head [of MTYPE_SR True RT_STATE_SR_WAIT] st by (simp add: in_packet_def)
  next
    case RT_STATE_SW_HEAD
    then show ?thesis using head [of MTYPE_SW False RT_STATE_SW_DATA] st by (simp add: in_packet_def)
  next
    case RT_STATE_BR_HEAD
    then show ?thesis using head [of MTYPE_BR True RT_STATE_BR_WAIT] st by (simp add: in_packet_def)
  next
    case RT_STATE_BW_HEAD
    then show ?thesis using head [of MTYPE_BW False RT_STATE_BW_DATA] st by (simp add: in_packet_def)
  qed (use st in \<open>auto split: if_splits simp: in_packet_def goto_rt_def local_rx_def\<close>)
qed

section \<open>The abort register\<close>


section \<open>The runs of the interface\<close>

text \<open>
  \<open>rtif_run s aborted tr\<close>: from an idle interface on, the processor loads from and stores to the window when it
  is ready, writes any register, and the cycles pass. \<open>tr\<close> are the flits handed to the router since the
  last abort, \<open>aborted\<close> those between the aborts before. A write to the abort register is an abort when it
  stops a transaction.
\<close>

inductive rtif_run :: "router_if \<Rightarrow> flit_entry list list \<Rightarrow> flit_entry list \<Rightarrow> bool" where
  init: "ri_state s = RT_STATE_IDLE \<Longrightarrow> ri_next_state s = RT_STATE_IDLE \<Longrightarrow> rtif_run s [] []"
| load: "rtif_run s aborted tr \<Longrightarrow> RouterRange_ready base block off DATALOAD s = (b, s', es) \<Longrightarrow> rtif_run s' aborted tr"
| word: "rtif_run s aborted tr \<Longrightarrow> RouterRange_fetch_word s = Some (w, s') \<Longrightarrow> rtif_run s' aborted tr"
| store: "rtif_run s aborted tr \<Longrightarrow> RouterRange_ready base block off DATASTORE s = (True, s', es) \<Longrightarrow>
    rtif_run (RouterRange_store_word w s') aborted tr"
| config: "rtif_run s aborted tr \<Longrightarrow> off \<noteq> ROUTER_ABORT_OFFSET \<Longrightarrow>
    rtif_run (fst (RouterIOReg_store_word now off w s)) aborted tr"
| no_abort: "rtif_run s aborted tr \<Longrightarrow> s' = fst (RouterIOReg_store_word now ROUTER_ABORT_OFFSET w s) \<Longrightarrow>
    ri_next_state s' = ri_next_state s \<Longrightarrow> rtif_run s' aborted tr"
| abort: "rtif_run s aborted tr \<Longrightarrow> s' = fst (RouterIOReg_store_word now ROUTER_ABORT_OFFSET w s) \<Longrightarrow>
    ri_next_state s' \<noteq> ri_next_state s \<Longrightarrow> rtif_run s' (aborted @ [tr]) []"
| cycle: "rtif_run s aborted tr \<Longrightarrow>
    rtif_router now (ri_bandwidth s) (s\<lparr>ri_router := setID k (ri_router s)\<rparr>) = Some (down, s1) \<Longrightarrow>
    rtif_update s1 = Some s2 \<Longrightarrow> local_rx s2 = local_rx s1 @ es \<Longrightarrow> rtif_run s2 aborted (tr @ es)"





text \<open>A cycle of the interface is a \<open>cycle\<close> of a run.\<close>

lemma RouterInterface_step_run:
  assumes "rtif_run s aborted tr" "RouterInterface_step now s irq = Some (down, s', irq')"
  shows "\<exists>es. rtif_run s' aborted (tr @ es)"
proof -
  obtain k s1 where "rtif_router now (ri_bandwidth s) (s\<lparr>ri_router := setID k (ri_router s)\<rparr>) = Some (down, s1)"
    "rtif_update s1 = Some s'"
  proof (cases "ri_registed_router_id s \<noteq> rc_router_id (ri_config s)")
    case True
    then show ?thesis using assms(2) that [of "rc_router_id (ri_config s)"] by (auto simp: RouterInterface_step_def Let_def)
  next
    case False
    have "s\<lparr>ri_router := setID (router_id (ri_router s)) (ri_router s)\<rparr> = s" by (simp add: setID_def)
    then show ?thesis using assms(2) False that [of "router_id (ri_router s)"]
      by (auto simp: RouterInterface_step_def Let_def)
  qed
  moreover from update_sends [OF this(2)] obtain es where "local_rx s' = local_rx s1 @ es" by blast
  ultimately show ?thesis using rtif_run.cycle [OF assms(1)] by blast
qed

section \<open>Properties\<close>





end
