(* ===== verification/Accelerator.thy ===== *)
theory Accelerator
  imports Router Range_Memory
begin

unbundle bit_operations_syntax

text \<open>
  \<open>accelerator.h\<close>, \<open>accelerator.cc\<close>, \<open>remoteram.h\<close> and \<open>remoteram.cc\<close>: the stacked accelerators. A
  chip has a router, a network interface that serves the read and write packets of other chips and
  sends its own blocks (DMA), a local bus of ranges and a core behind it.

  The base class \<open>CubeAccelerator\<close> is abstract: what it asks of its core is the record \<open>core_if\<close>, the
  virtual methods of the objects on the local bus (\<open>'k\<close> names them, their state is part of the
  core \<open>'c\<close>) and \<open>core_step\<close>, \<open>core_reset\<close>; \<open>RemoteRam\<close> is one instance. A \<open>Range *\<close> of the local bus is its
  base and extent with the name of the object; the object \<open>nif_config\<close> belongs to the base class.
\<close>

abbreviation (input) LOCAL_MEMA_MSB :: nat where "LOCAL_MEMA_MSB \<equiv> 22"
abbreviation (input) LOCAL_MEMA_MASK :: u32 where "LOCAL_MEMA_MASK \<equiv> 0x3FFFFF"
abbreviation (input) NIF_CONFIG_BASE :: u32 where "NIF_CONFIG_BASE \<equiv> 0x04100"
abbreviation (input) NIF_CONFIG_SIZE :: u32 where "NIF_CONFIG_SIZE \<equiv> 0x900"
abbreviation (input) DMA_KICK_OFFSET :: u32 where "DMA_KICK_OFFSET \<equiv> 0"
abbreviation (input) DMA_DST_OFFSET :: u32 where "DMA_DST_OFFSET \<equiv> 0x100"
abbreviation (input) DMA_SRC_OFFSET :: u32 where "DMA_SRC_OFFSET \<equiv> 0x200"
abbreviation (input) DMA_LEN_OFFSET :: u32 where "DMA_LEN_OFFSET \<equiv> 0x300"
abbreviation (input) VC_LIST_OFFSET :: u32 where "VC_LIST_OFFSET \<equiv> 0x400"
abbreviation (input) DMA_DST_MASK :: u32 where "DMA_DST_MASK \<equiv> 0xFFFFFF"
abbreviation (input) DMA_SRC_MASK :: u32 where "DMA_SRC_MASK \<equiv> 0x3FFFFF"
abbreviation (input) DMA_LEN_MASK :: u32 where "DMA_LEN_MASK \<equiv> 0xF"
abbreviation (input) DONE_NOTIF :: u32 where "DONE_NOTIF \<equiv> 0"
abbreviation (input) DMAC_NOTIF :: u32 where "DMAC_NOTIF \<equiv> 1"

datatype cnif_state =
    CNIF_IDLE | CNIF_ERROR | CNIF_SR_HEAD | CNIF_BR_HEAD | CNIF_SR_DATA | CNIF_BR_DATA | CNIF_SW_DATA
  | CNIF_BW_DATA | CNIF_DMA_HEAD | CNIF_DMA_DATA | CNIF_DMA_DONE | CNIF_DONE

section \<open>The configuration registers (NetworkInterfaceConfig)\<close>

record nif_config =
  nc_dma_dst :: u32
  nc_dma_src :: u32
  nc_dma_len :: u32
  nc_vc_normal :: u32
  nc_vc_dma :: u32
  nc_vc_dmadone :: u32
  nc_vc_done :: u32
  nc_dmaKicked :: bool
  nc_dma_en :: bool

definition nif_clearReg :: "nif_config \<Rightarrow> nif_config" where
  "nif_clearReg c = c\<lparr>nc_dma_dst := 0, nc_dma_src := 0, nc_dma_len := 0, nc_vc_normal := 0, nc_vc_dma := 0,
     nc_vc_dmadone := 0, nc_vc_done := 0, nc_dmaKicked := False\<rparr>"

definition NetworkInterfaceConfig_new :: "bool \<Rightarrow> nif_config" where
  "NetworkInterfaceConfig_new dma_en =
     \<lparr>nc_dma_dst = 0, nc_dma_src = 0, nc_dma_len = 0, nc_vc_normal = 0, nc_vc_dma = 0,
      nc_vc_dmadone = 0, nc_vc_done = 0, nc_dmaKicked = False, nc_dma_en = dma_en\<rparr>"

definition getDMADstAddr :: "nif_config \<Rightarrow> u32" where
  "getDMADstAddr c = nc_dma_dst c AND LOCAL_MEMA_MASK"

definition getDMADstID :: "nif_config \<Rightarrow> u32" where
  "getDMADstID c = drop_bit LOCAL_MEMA_MSB (nc_dma_dst c)"

definition isDMAKicked :: "nif_config \<Rightarrow> bool" where
  "isDMAKicked c \<longleftrightarrow> nc_dmaKicked c \<and> nc_dma_en c"

definition nif_fetch_word :: "u32 \<Rightarrow> nif_config \<Rightarrow> u32" where
  "nif_fetch_word off c =
     (if off = DMA_KICK_OFFSET then 0
      else if off = DMA_DST_OFFSET then nc_dma_dst c
      else if off = DMA_SRC_OFFSET then nc_dma_src c
      else if off = DMA_LEN_OFFSET then nc_dma_len c
      else if off = VC_LIST_OFFSET then
        push_bit 9 (nc_vc_normal c) OR push_bit 6 (nc_vc_dma c) OR push_bit 3 (nc_vc_dmadone c) OR nc_vc_done c
      else 0xffffffff)"

definition nif_store_word :: "u32 \<Rightarrow> u32 \<Rightarrow> nif_config \<Rightarrow> nif_config" where
  "nif_store_word off data c =
     (if off = DMA_KICK_OFFSET then c\<lparr>nc_dmaKicked := True\<rparr>
      else if off = DMA_DST_OFFSET then c\<lparr>nc_dma_dst := data AND DMA_DST_MASK\<rparr>
      else if off = DMA_SRC_OFFSET then c\<lparr>nc_dma_src := data AND DMA_SRC_MASK\<rparr>
      else if off = DMA_LEN_OFFSET then c\<lparr>nc_dma_len := data AND DMA_LEN_MASK\<rparr>
      else if off = VC_LIST_OFFSET then
        c\<lparr>nc_vc_normal := drop_bit 9 (data AND 0xE00), nc_vc_dma := drop_bit 6 (data AND 0x1C0),
          nc_vc_dmadone := drop_bit 3 (data AND 0x38), nc_vc_done := data AND 7\<rparr>
      else c)"

section \<open>The local bus (LocalMapper)\<close>

datatype 'k local_ref = NifConfig | CoreObj 'k

record 'k local_mapper =
  lm_ranges :: "(range_t \<times> 'k local_ref) list"
  lm_last :: "nat option"

definition LocalMapper_new :: "'k local_mapper" where
  "LocalMapper_new = \<lparr>lm_ranges = [], lm_last = None\<rparr>"

definition lm_add_range :: "range_t \<Rightarrow> 'k local_ref \<Rightarrow> 'k local_mapper \<Rightarrow> int \<times> 'k local_mapper" where
  "lm_add_range r k lm =
     (if \<exists>i \<in> set (lm_ranges lm). overlaps r (fst i) then (-1, lm)
      else (0, lm\<lparr>lm_ranges := lm_ranges lm @ [(r, k)]\<rparr>))"

definition map_at_local_address :: "range_t \<Rightarrow> 'k local_ref \<Rightarrow> u32 \<Rightarrow> 'k local_mapper \<Rightarrow> int \<times> 'k local_mapper" where
  "map_at_local_address r k laddr lm = lm_add_range (r\<lparr>r_base := laddr\<rparr>) k lm"

primrec first_local :: "(range_t \<times> 'k local_ref) list \<Rightarrow> u32 \<Rightarrow> nat option" where
  "first_local [] a = None"
| "first_local (r # rs) a = (if incorporates (fst r) a then Some 0 else map_option Suc (first_local rs a))"

definition lm_find :: "u32 \<Rightarrow> 'k local_mapper \<Rightarrow> nat option \<times> 'k local_mapper" where
  "lm_find laddr lm =
     (case lm_last lm of
        Some i \<Rightarrow> if incorporates (fst (lm_ranges lm ! i)) laddr then (Some i, lm)
          else (case first_local (lm_ranges lm) laddr of Some j \<Rightarrow> (Some j, lm\<lparr>lm_last := Some j\<rparr>) | None \<Rightarrow> (None, lm))
      | None \<Rightarrow>
          (case first_local (lm_ranges lm) laddr of Some j \<Rightarrow> (Some j, lm\<lparr>lm_last := Some j\<rparr>) | None \<Rightarrow> (None, lm)))"

section \<open>The accelerator (AcceleratorBase, CubeAccelerator)\<close>

text \<open>
  What the base class asks of a core. \<open>core_step\<close> returns the argument of the call of \<open>done_signal\<close> it
  made, if it made one.
\<close>

record ('k, 'c) core_if =
  ci_fetch :: "'k \<Rightarrow> u32 \<Rightarrow> 'c \<Rightarrow> (u32 \<times> 'c) option"
  ci_store :: "'k \<Rightarrow> u32 \<Rightarrow> u32 \<Rightarrow> 'c \<Rightarrow> 'c option"
  ci_step :: "'c \<Rightarrow> (bool option \<times> 'c) option"
  ci_reset :: "'c \<Rightarrow> 'c"

record ('k, 'c) accel =
  ac_bus :: "'k local_mapper"
  ac_core :: 'c
  ac_iready :: "bool list"
  ac_rx :: "flit_entry list"
  ac_router :: router
  ac_node_ID :: u32
  ac_nif :: nif_config
  reg_mema :: u32
  reg_mtype :: u32
  reg_vch :: u32
  reg_src :: u32
  reg_dst :: u32
  ac_dcount :: int
  ac_packetMaxSize :: int
  nif_state :: cnif_state
  nif_next_state :: cnif_state
  ac_dmac_en :: bool
  ac_bandwidth :: nat
  remain_dma_len :: int
  done_pending :: bool
  dma_after_done_en :: bool

definition local_fetch_word :: "('k, 'c) core_if \<Rightarrow> u32 \<Rightarrow> ('k, 'c) accel \<Rightarrow> (u32 \<times> ('k, 'c) accel) option" where
  "local_fetch_word m laddr a =
     (let (l, lm) = lm_find laddr (ac_bus a); a1 = a\<lparr>ac_bus := lm\<rparr> in
      case l of None \<Rightarrow> Some (0xffffffff, a1)
      | Some i \<Rightarrow>
          let (r, k) = lm_ranges lm ! i; off = laddr - r_base r in
          case k of NifConfig \<Rightarrow> Some (nif_fetch_word off (ac_nif a1), a1)
          | CoreObj k \<Rightarrow> map_option (apsnd (\<lambda>c. a1\<lparr>ac_core := c\<rparr>)) (ci_fetch m k off (ac_core a1)))"

definition local_store_word :: "('k, 'c) core_if \<Rightarrow> u32 \<Rightarrow> u32 \<Rightarrow> ('k, 'c) accel \<Rightarrow> ('k, 'c) accel option" where
  "local_store_word m laddr data a =
     (let (l, lm) = lm_find laddr (ac_bus a); a1 = a\<lparr>ac_bus := lm\<rparr> in
      case l of None \<Rightarrow> Some a1
      | Some i \<Rightarrow>
          let (r, k) = lm_ranges lm ! i; off = laddr - r_base r in
          case k of NifConfig \<Rightarrow> Some (a1\<lparr>ac_nif := nif_store_word off data (ac_nif a1)\<rparr>)
          | CoreObj k \<Rightarrow> map_option (\<lambda>c. a1\<lparr>ac_core := c\<rparr>) (ci_store m k off data (ac_core a1)))"

text \<open>The fields the constructor does not set keep the values of the object it starts from.\<close>

definition CubeAccelerator_new :: "u32 \<Rightarrow> nat \<Rightarrow> nat \<Rightarrow> int \<Rightarrow> u32 \<Rightarrow> bool \<Rightarrow> ('k, 'c) accel \<Rightarrow> ('k, 'c) accel" where
  "CubeAccelerator_new node_ID dcachebsize bandwidth vcbufsize config_addr_base dmac_en a =
     a\<lparr>ac_node_ID := node_ID, ac_dmac_en := dmac_en, ac_rx := [],
       ac_router := Router_new vcbufsize (int dcachebsize) node_ID (ac_router a),
       nif_state := CNIF_IDLE, nif_next_state := CNIF_IDLE, ac_packetMaxSize := int (dcachebsize div 4),
       ac_bandwidth := bandwidth, ac_nif := NetworkInterfaceConfig_new dmac_en,
       ac_bus := snd (map_at_local_address (Range_new config_addr_base NIF_CONFIG_SIZE [] MEM_READ_WRITE) NifConfig
         config_addr_base LocalMapper_new)\<rparr>"

definition nif_slaveReady :: "u32 \<Rightarrow> ('k, 'c) accel \<Rightarrow> bool option" where
  "nif_slaveReady vch a = port_isReady (Some (icLocalRdy (ac_router a))) (unat vch)"

definition nif_send :: "flit \<Rightarrow> u32 \<Rightarrow> ('k, 'c) accel \<Rightarrow> ('k, 'c) accel" where
  "nif_send f vch a =
     a\<lparr>ac_router := (ac_router a)\<lparr>rx := (rx (ac_router a))(Local := port_pushData f (unat vch) (rx (ac_router a) Local))\<rparr>\<rparr>"

definition nif_goto :: "cnif_state \<Rightarrow> ('k, 'c) accel \<Rightarrow> ('k, 'c) accel" where
  "nif_goto st a = a\<lparr>nif_next_state := st\<rparr>"


definition after_store :: "('k, 'c) accel \<Rightarrow> ('k, 'c) accel" where
  "after_store a =
     (if isDMAKicked (ac_nif a) \<and> nc_dma_len (ac_nif a) > 0
      then nif_goto CNIF_DMA_HEAD (a\<lparr>remain_dma_len := uint (nc_dma_len (ac_nif a))\<rparr>)
      else nif_goto CNIF_IDLE a)"

definition nif_idle :: "('k, 'c) accel \<Rightarrow> ('k, 'c) accel" where
  "nif_idle a =
     (case port_getData (ac_rx a) of
        None \<Rightarrow> a
      | Some (f, v, q) \<Rightarrow>
          let a1 = a\<lparr>ac_rx := q\<rparr> in
          if ftype f = FTYPE_HEAD \<or> ftype f = FTYPE_HEADTAIL then
            let (mema, mtype, vch, src, dst) = decode_headflit f;
                a2 = a1\<lparr>reg_mema := mema, reg_mtype := mtype, reg_vch := vch, reg_src := src, reg_dst := dst\<rparr>
            in if mtype = MTYPE_SW then nif_goto CNIF_SW_DATA a2
               else if mtype = MTYPE_BW then nif_goto CNIF_BW_DATA (a2\<lparr>ac_dcount := ac_packetMaxSize a2\<rparr>)
               else if mtype = MTYPE_SR then nif_goto CNIF_SR_HEAD a2
               else if mtype = MTYPE_BR then nif_goto CNIF_BR_HEAD (a2\<lparr>ac_dcount := ac_packetMaxSize a2\<rparr>)
               else a2
          else a1)"

definition nif_reply_head :: "('k, 'c) accel \<Rightarrow> ('k, 'c) accel option" where
  "nif_reply_head a = do {
     let vch = nc_vc_normal (ac_nif a);
     rdy \<leftarrow> nif_slaveReady vch a;
     Some (if rdy then
         nif_send (make_head_flit (reg_mema a) (if nif_state a = CNIF_BR_HEAD then MTYPE_BW else MTYPE_SW) vch (reg_dst a) (reg_src a) False) vch
           (nif_goto (if nif_state a = CNIF_SR_HEAD then CNIF_SR_DATA else CNIF_BR_DATA) a)
       else a)
   }"

definition nif_read_single :: "('k, 'c) core_if \<Rightarrow> ('k, 'c) accel \<Rightarrow> ('k, 'c) accel option" where
  "nif_read_single m a = do {
     (w, a1) \<leftarrow> local_fetch_word m (reg_mema a) a;
     Some (nif_goto CNIF_IDLE (nif_send (make_data_flit w True) (nc_vc_normal (ac_nif a1)) a1))
   }"

primrec nif_read_block :: "('k, 'c) core_if \<Rightarrow> nat \<Rightarrow> ('k, 'c) accel \<Rightarrow> ('k, 'c) accel option" where
  "nif_read_block m 0 a = Some a"
| "nif_read_block m (Suc n) a = do {
     let read_addr = reg_mema a + of_int ((ac_packetMaxSize a - ac_dcount a) * 4);
     (w, a1) \<leftarrow> local_fetch_word m read_addr (a\<lparr>ac_dcount := ac_dcount a - 1\<rparr>);
     let a2 = nif_send (make_data_flit w (ac_dcount a1 = 0)) (nc_vc_normal (ac_nif a1)) a1;
     if ac_dcount a2 = 0 then Some (nif_goto CNIF_IDLE a2) else nif_read_block m n a2
   }"

definition nif_write_single :: "('k, 'c) core_if \<Rightarrow> ('k, 'c) accel \<Rightarrow> ('k, 'c) accel option" where
  "nif_write_single m a =
     (case port_getData (ac_rx a) of
        None \<Rightarrow> Some a
      | Some (f, v, q) \<Rightarrow> map_option after_store (local_store_word m (reg_mema a) (fdata f) (a\<lparr>ac_rx := q\<rparr>)))"

primrec nif_write_block :: "('k, 'c) core_if \<Rightarrow> nat \<Rightarrow> ('k, 'c) accel \<Rightarrow> ('k, 'c) accel option" where
  "nif_write_block m 0 a = Some a"
| "nif_write_block m (Suc n) a =
     (case port_getData (ac_rx a) of
        None \<Rightarrow> nif_write_block m n a
      | Some (f, v, q) \<Rightarrow> do {
          let write_addr = reg_mema a + of_int ((ac_packetMaxSize a - ac_dcount a) * 4);
          a1 \<leftarrow> local_store_word m write_addr (fdata f) (a\<lparr>ac_rx := q\<rparr>);
          let a2 = a1\<lparr>ac_dcount := ac_dcount a1 - 1\<rparr>;
          if ac_dcount a2 = 0 then Some (after_store a2) else nif_write_block m n a2
        })"

text \<open>The offset of the current block of a DMA transfer.\<close>

definition dma_block_off :: "('k, 'c) accel \<Rightarrow> u32" where
  "dma_block_off a = of_int (ac_packetMaxSize a * 4) * (nc_dma_len (ac_nif a) - of_int (remain_dma_len a))"

definition nif_dma_head :: "('k, 'c) accel \<Rightarrow> ('k, 'c) accel option" where
  "nif_dma_head a = do {
     let vch = nc_vc_dma (ac_nif a);
     rdy \<leftarrow> nif_slaveReady vch a;
     Some (if rdy then
         (nif_goto CNIF_DMA_DATA (nif_send
           (make_head_flit (getDMADstAddr (ac_nif a) + dma_block_off a) MTYPE_BW vch (reg_dst a) (getDMADstID (ac_nif a)) False)
           vch a))\<lparr>ac_dcount := ac_packetMaxSize a\<rparr>
       else a)
   }"

primrec nif_dma_data :: "('k, 'c) core_if \<Rightarrow> nat \<Rightarrow> ('k, 'c) accel \<Rightarrow> ('k, 'c) accel option" where
  "nif_dma_data m 0 a = Some a"
| "nif_dma_data m (Suc n) a = do {
     let read_addr = nc_dma_src (ac_nif a) + dma_block_off a + of_int ((ac_packetMaxSize a - ac_dcount a) * 4);
     (w, a1) \<leftarrow> local_fetch_word m read_addr (a\<lparr>ac_dcount := ac_dcount a - 1\<rparr>);
     let a2 = nif_send (make_data_flit w (ac_dcount a1 = 0)) (nc_vc_dma (ac_nif a1)) a1;
     if ac_dcount a2 = 0 then
       (let a3 = a2\<lparr>remain_dma_len := remain_dma_len a2 - 1\<rparr> in
        Some (if remain_dma_len a3 = 0
          then (nif_goto CNIF_DMA_DONE a3)\<lparr>ac_nif := (ac_nif a3)\<lparr>nc_dmaKicked := False\<rparr>\<rparr>
          else nif_goto CNIF_DMA_HEAD a3))
     else nif_dma_data m n a2
   }"

definition nif_dma_done :: "('k, 'c) accel \<Rightarrow> ('k, 'c) accel option" where
  "nif_dma_done a = do {
     let vch = nc_vc_dmadone (ac_nif a);
     rdy \<leftarrow> nif_slaveReady vch a;
     Some (if rdy then
         nif_goto CNIF_IDLE (nif_send (make_head_flit DMAC_NOTIF MTYPE_DONE vch (reg_dst a) (reg_src a) True) vch a)
       else a)
   }"

definition nif_done :: "('k, 'c) accel \<Rightarrow> ('k, 'c) accel option" where
  "nif_done a = do {
     let vch = nc_vc_done (ac_nif a);
     rdy \<leftarrow> nif_slaveReady vch a;
     Some (if rdy then
         let a1 = nif_send (make_head_flit DONE_NOTIF MTYPE_DONE vch (ac_node_ID a) 0 True) vch a;
             a2 = (if dma_after_done_en a1 \<and> nc_dma_len (ac_nif a1) > 0
               then nif_goto CNIF_DMA_HEAD (a1\<lparr>remain_dma_len := uint (nc_dma_len (ac_nif a1))\<rparr>)
               else nif_goto CNIF_IDLE a1)
         in a2\<lparr>done_pending := False, dma_after_done_en := False\<rparr>
       else a)
   }"

fun nif_state_step :: "('k, 'c) core_if \<Rightarrow> cnif_state \<Rightarrow> ('k, 'c) accel \<Rightarrow> ('k, 'c) accel option" where
  "nif_state_step m CNIF_IDLE a = Some (nif_idle a)"
| "nif_state_step m CNIF_SR_HEAD a = nif_reply_head a"
| "nif_state_step m CNIF_BR_HEAD a = nif_reply_head a"
| "nif_state_step m CNIF_SR_DATA a = nif_read_single m a"
| "nif_state_step m CNIF_BR_DATA a = nif_read_block m (ac_bandwidth a) a"
| "nif_state_step m CNIF_SW_DATA a = nif_write_single m a"
| "nif_state_step m CNIF_BW_DATA a = nif_write_block m (ac_bandwidth a) a"
| "nif_state_step m CNIF_DMA_HEAD a = nif_dma_head a"
| "nif_state_step m CNIF_DMA_DATA a = nif_dma_data m (ac_bandwidth a) a"
| "nif_state_step m CNIF_DMA_DONE a = nif_dma_done a"
| "nif_state_step m CNIF_DONE a = nif_done a"
| "nif_state_step m CNIF_ERROR a = Some a"

definition nif_update :: "('k, 'c) accel \<Rightarrow> ('k, 'c) accel" where
  "nif_update a =
     (let a1 = a\<lparr>ac_iready := replicate VCH_SIZE (nif_next_state a = CNIF_IDLE)\<rparr>;
          a2 = (if nif_next_state a1 = CNIF_IDLE \<and> done_pending a1 then nif_goto CNIF_DONE a1 else a1)
      in a2\<lparr>nif_state := nif_next_state a2\<rparr>)"

definition nif_step :: "('k, 'c) core_if \<Rightarrow> ('k, 'c) accel \<Rightarrow> ('k, 'c) accel option" where
  "nif_step m a =
     (if nif_state a = CNIF_ERROR then Some a else map_option nif_update (nif_state_step m (nif_state a) a))"

definition done_signal :: "bool \<Rightarrow> ('k, 'c) accel \<Rightarrow> ('k, 'c) accel" where
  "done_signal dma_enable a = a\<lparr>done_pending := True, dma_after_done_en := dma_enable\<rparr>"

text \<open>The router is stepped as often as the memory is wide; what it sends up and down is returned.\<close>

primrec accel_router :: "u32 \<Rightarrow> nat \<Rightarrow> ('k, 'c) accel \<Rightarrow> (flit_entry list \<times> flit_entry list \<times> ('k, 'c) accel) option" where
  "accel_router now 0 a = Some ([], [], a)"
| "accel_router now (Suc n) a = do {
     (out, r) \<leftarrow> Router_step now (ac_router a);
     (up, down, a1) \<leftarrow> accel_router now n (a\<lparr>ac_router := r, ac_rx := ac_rx a @ out Local\<rparr>);
     Some (out Upper @ up, out Lower @ down, a1)
   }"

definition CubeAccelerator_step ::
  "('k, 'c) core_if \<Rightarrow> u32 \<Rightarrow> ('k, 'c) accel \<Rightarrow> (flit_entry list \<times> flit_entry list \<times> ('k, 'c) accel) option" where
  "CubeAccelerator_step m now a = do {
     (up, down, a1) \<leftarrow> accel_router now (ac_bandwidth a) a;
     a2 \<leftarrow> nif_step m a1;
     (sig, c) \<leftarrow> ci_step m (ac_core a2);
     let a3 = a2\<lparr>ac_core := c\<rparr>;
     Some (up, down, case sig of None \<Rightarrow> a3 | Some d \<Rightarrow> done_signal d a3)
   }"

definition CubeAccelerator_reset :: "('k, 'c) core_if \<Rightarrow> u32 \<Rightarrow> ('k, 'c) accel \<Rightarrow> ('k, 'c) accel" where
  "CubeAccelerator_reset m now a =
     a\<lparr>ac_iready := replicate VCH_SIZE False, ac_router := Router_reset now (ac_router a),
       ac_core := ci_reset m (ac_core a), nif_state := CNIF_IDLE, nif_next_state := CNIF_IDLE,
       ac_nif := nif_clearReg (ac_nif a), done_pending := False, dma_after_done_en := False\<rparr>"

section \<open>An accelerator on the system bus (BusConAccelerator, SysBusInterface)\<close>

text \<open>
  Word accesses of the system bus reach the local bus; halfword and byte accesses read 0 and are
  not written. There is no network: a step is a step of the core.
\<close>

definition SysBus_fetch_word :: "('k, 'c) core_if \<Rightarrow> u32 \<Rightarrow> ('k, 'c) accel \<Rightarrow> (u32 \<times> ('k, 'c) accel) option" where
  "SysBus_fetch_word m off a = local_fetch_word m off a"

definition SysBus_store_word :: "('k, 'c) core_if \<Rightarrow> u32 \<Rightarrow> u32 \<Rightarrow> ('k, 'c) accel \<Rightarrow> ('k, 'c) accel option" where
  "SysBus_store_word m off data a = local_store_word m off data a"

definition SysBus_fetch_halfword :: "u32 \<Rightarrow> u16" where
  "SysBus_fetch_halfword off = 0"

definition SysBus_fetch_byte :: "u32 \<Rightarrow> u8" where
  "SysBus_fetch_byte off = 0"

definition SysBus_store_halfword :: "u32 \<Rightarrow> u16 \<Rightarrow> ('k, 'c) accel \<Rightarrow> ('k, 'c) accel" where
  "SysBus_store_halfword off data a = a"

definition SysBus_store_byte :: "u32 \<Rightarrow> u8 \<Rightarrow> ('k, 'c) accel \<Rightarrow> ('k, 'c) accel" where
  "SysBus_store_byte off data a = a"

definition BusConAccelerator_step :: "('k, 'c) core_if \<Rightarrow> ('k, 'c) accel \<Rightarrow> ('k, 'c) accel option" where
  "BusConAccelerator_step m a = do {
     (sig, c) \<leftarrow> ci_step m (ac_core a);
     let a1 = a\<lparr>ac_core := c\<rparr>;
     Some (case sig of None \<Rightarrow> a1 | Some d \<Rightarrow> done_signal d a1)
   }"

definition BusConAccelerator_reset :: "('k, 'c) core_if \<Rightarrow> ('k, 'c) accel \<Rightarrow> ('k, 'c) accel" where
  "BusConAccelerator_reset m a = a\<lparr>ac_core := ci_reset m (ac_core a)\<rparr>"

section \<open>A chip of memory (RemoteRam)\<close>

datatype rram_obj = RRamMem

definition RemoteRam_core :: "bool \<Rightarrow> (rram_obj, range_t) core_if" where
  "RemoteRam_core hb =
     \<lparr>ci_fetch = (\<lambda>k off r. Range_fetch_word hb r off),
      ci_store = (\<lambda>k off data r. Range_store_word hb r off data),
      ci_step = (\<lambda>r. Some (None, r)), ci_reset = (\<lambda>r. r)\<rparr>"

definition RemoteRam_new ::
  "u32 \<Rightarrow> nat \<Rightarrow> nat \<Rightarrow> int \<Rightarrow> nat \<Rightarrow> (rram_obj, range_t) accel \<Rightarrow> (rram_obj, range_t) accel option" where
  "RemoteRam_new node_ID dcachebsize bandwidth vcbufsize mem_size a = do {
     mem \<leftarrow> MemoryModule_new mem_size None;
     Some ((CubeAccelerator_new node_ID dcachebsize bandwidth vcbufsize NIF_CONFIG_BASE True a)\<lparr>ac_core := mem\<rparr>)
   }"

definition RemoteRam_setup :: "(rram_obj, range_t) accel \<Rightarrow> (rram_obj, range_t) accel" where
  "RemoteRam_setup a = a\<lparr>ac_bus := snd (map_at_local_address (ac_core a) (CoreObj RRamMem) 0 (ac_bus a)),
     ac_core := (ac_core a)\<lparr>r_base := 0\<rparr>\<rparr>"

lemmas accel_defs [cube_defs] =
  nif_clearReg_def NetworkInterfaceConfig_new_def getDMADstAddr_def getDMADstID_def isDMAKicked_def
  nif_fetch_word_def nif_store_word_def LocalMapper_new_def lm_add_range_def map_at_local_address_def lm_find_def
  local_fetch_word_def local_store_word_def CubeAccelerator_new_def nif_slaveReady_def nif_send_def nif_goto_def
  after_store_def nif_idle_def nif_reply_head_def nif_read_single_def nif_write_single_def dma_block_off_def
  nif_dma_head_def nif_dma_done_def nif_done_def nif_update_def nif_step_def done_signal_def
  CubeAccelerator_step_def CubeAccelerator_reset_def RemoteRam_core_def RemoteRam_new_def RemoteRam_setup_def

end
