(* ===== verification/Accel_Facts.thy ===== *)
theory Accel_Facts
  imports Accelerator Packets
begin

unbundle bit_operations_syntax

text \<open>
  The local bus of an accelerator as a memory of words. The locale \<open>word_objects\<close> is what the network
  interface relies on when it reads and writes the objects of a core: each object is an array of
  words, a store changes the word it addresses and no other, a fetch changes none. From it follow
  the facts on the bus and on the block transfers of the network interface; \<open>RemoteRam\<close> provides it.
\<close>

section \<open>Finding a range\<close>

definition local_wf :: "'k local_mapper \<Rightarrow> bool" where
  "local_wf lm \<longleftrightarrow>
     (\<forall>i < length (lm_ranges lm). \<forall>j < length (lm_ranges lm). \<forall>a.
        incorporates (fst (lm_ranges lm ! i)) a \<and> incorporates (fst (lm_ranges lm ! j)) a \<longrightarrow> i = j) \<and>
     distinct (map snd (lm_ranges lm)) \<and> (\<forall>i. lm_last lm = Some i \<longrightarrow> i < length (lm_ranges lm))"

lemma first_local_Some:
  "first_local rs x = Some i \<Longrightarrow> i < length rs \<and> incorporates (fst (rs ! i)) x"
  by (induction rs arbitrary: i) (auto split: if_splits)

lemma first_local_hit:
  "i < length rs \<Longrightarrow> incorporates (fst (rs ! i)) x \<Longrightarrow> \<exists>j. first_local rs x = Some j"
  by (induction rs arbitrary: i) (auto simp: nth_Cons split: nat.splits)

text \<open>The cache of the last range used never changes what is found.\<close>

lemma lm_find_first:
  assumes "local_wf lm"
  shows "fst (lm_find x lm) = first_local (lm_ranges lm) x" "local_wf (snd (lm_find x lm))"
    "lm_ranges (snd (lm_find x lm)) = lm_ranges lm"
proof -
  have "first_local (lm_ranges lm) x = Some i" if l: "lm_last lm = Some i" and c: "incorporates (fst (lm_ranges lm ! i)) x" for i
  proof -
    have i: "i < length (lm_ranges lm)" using assms l by (simp add: local_wf_def)
    obtain j where j: "first_local (lm_ranges lm) x = Some j" using first_local_hit [OF i c] by blast
    moreover have "j = i" using first_local_Some [OF j] assms i c unfolding local_wf_def by blast
    ultimately show ?thesis by simp
  qed
  then show "fst (lm_find x lm) = first_local (lm_ranges lm) x"
    by (auto simp: lm_find_def split: option.splits)
  show "local_wf (snd (lm_find x lm))" "lm_ranges (snd (lm_find x lm)) = lm_ranges lm"
    using assms first_local_Some by (auto simp: lm_find_def local_wf_def split: option.splits)
qed

lemma local_wf_new: "local_wf LocalMapper_new"
  by (simp add: local_wf_def LocalMapper_new_def)

lemma local_wf_map:
  assumes "local_wf lm" "k \<notin> snd ` set (lm_ranges lm)" "proper_range (r\<lparr>r_base := b\<rparr>)"
    "\<forall>p \<in> set (lm_ranges lm). proper_range (fst p)"
  shows "local_wf (snd (map_at_local_address r k b lm))"
proof (cases "\<exists>p \<in> set (lm_ranges lm). overlaps (r\<lparr>r_base := b\<rparr>) (fst p)")
  case True
  then show ?thesis using assms(1) by (simp add: map_at_local_address_def lm_add_range_def)
next
  case False
  let ?r = "r\<lparr>r_base := b\<rparr>"
  have "\<not> (incorporates ?r a \<and> incorporates (fst (lm_ranges lm ! i)) a)" if "i < length (lm_ranges lm)" for i a
    using False assms(3,4) that overlaps_iff_common_address [of ?r "fst (lm_ranges lm ! i)"] nth_mem by blast
  then show ?thesis
    using assms(1,2) False
    by (auto simp: map_at_local_address_def lm_add_range_def local_wf_def nth_append less_Suc_eq)
qed

section \<open>Objects of words\<close>

type_synonym ('k, 'c) bus_view = "'k local_mapper \<times> 'c"

definition bus_rd :: "('k \<Rightarrow> u32 \<Rightarrow> 'c \<Rightarrow> u32) \<Rightarrow> ('k, 'c) bus_view \<Rightarrow> u32 \<Rightarrow> u32 option" where
  "bus_rd word s x =
     (case first_local (lm_ranges (fst s)) x of None \<Rightarrow> None
      | Some i \<Rightarrow> (case lm_ranges (fst s) ! i of
          (r, CoreObj k) \<Rightarrow> Some (word k (x - r_base r) (snd s)) | _ \<Rightarrow> None))"

definition bus_wr :: "('k, 'c) core_if \<Rightarrow> ('k, 'c) bus_view \<Rightarrow> u32 \<Rightarrow> u32 \<Rightarrow> ('k, 'c) bus_view option" where
  "bus_wr m s x d =
     (case first_local (lm_ranges (fst s)) x of None \<Rightarrow> None
      | Some i \<Rightarrow> (case lm_ranges (fst s) ! i of
          (r, CoreObj k) \<Rightarrow> map_option (Pair (snd (lm_find x (fst s)))) (ci_store m k (x - r_base r) d (snd s))
        | _ \<Rightarrow> None))"

definition bus_ok :: "('k \<Rightarrow> u32 \<Rightarrow> 'c \<Rightarrow> bool) \<Rightarrow> ('k, 'c) bus_view \<Rightarrow> u32 \<Rightarrow> bool" where
  "bus_ok ok s x \<longleftrightarrow> local_wf (fst s) \<and>
     (\<exists>i r k. first_local (lm_ranges (fst s)) x = Some i \<and> lm_ranges (fst s) ! i = (r, CoreObj k) \<and>
        ok k (x - r_base r) (snd s))"

definition acc_view :: "('k, 'c) accel \<Rightarrow> ('k, 'c) bus_view" where
  "acc_view a = (ac_bus a, ac_core a)"

definition put_view :: "('k, 'c) bus_view \<Rightarrow> ('k, 'c) accel \<Rightarrow> ('k, 'c) accel" where
  "put_view s a = a\<lparr>ac_bus := fst s, ac_core := snd s\<rparr>"

text \<open>Two states of the bus with the same words.\<close>

definition same_words :: "('k \<Rightarrow> u32 \<Rightarrow> 'c \<Rightarrow> bool) \<Rightarrow> ('k \<Rightarrow> u32 \<Rightarrow> 'c \<Rightarrow> u32) \<Rightarrow>
    ('k, 'c) bus_view \<Rightarrow> ('k, 'c) bus_view \<Rightarrow> bool" where
  "same_words ok word s' s \<longleftrightarrow>
     (\<forall>x. bus_ok ok s x \<longrightarrow> bus_ok ok s' x \<and> bus_rd word s' x = bus_rd word s x)"

lemma same_words_trans: "same_words ok word s2 s1 \<Longrightarrow> same_words ok word s1 s \<Longrightarrow> same_words ok word s2 s"
  by (simp add: same_words_def)

lemma same_words_block:
  assumes "same_words ok word s' s" "\<forall>x \<in> set (slots a n). bus_ok ok s x"
  shows "fetch_block (bus_rd word) s' a n = fetch_block (bus_rd word) s a n"
  using assms(2)
proof (induction n arbitrary: a)
  case (Suc n)
  then show ?case using assms(1) by (simp add: same_words_def split: option.split)
qed simp

locale word_objects =
  fixes m :: "('k, 'c) core_if"
    and ok :: "'k \<Rightarrow> u32 \<Rightarrow> 'c \<Rightarrow> bool"
    and word :: "'k \<Rightarrow> u32 \<Rightarrow> 'c \<Rightarrow> u32"
  assumes fetch_law: "ok k off c \<Longrightarrow> \<exists>c'. ci_fetch m k off c = Some (word k off c, c') \<and>
      (\<forall>k' off'. ok k' off' c \<longrightarrow> ok k' off' c' \<and> word k' off' c' = word k' off' c)"
    and store_law: "ok k off c \<Longrightarrow> \<exists>c'. ci_store m k off d c = Some c' \<and>
      (\<forall>k' off'. ok k' off' c' = ok k' off' c \<and>
        (ok k' off' c \<longrightarrow> word k' off' c' = (if k' = k \<and> off' = off then d else word k' off' c)))"
begin

lemma bus_fetch:
  assumes "bus_ok ok (acc_view a) x"
  shows "\<exists>s w. local_fetch_word m x a = Some (w, put_view s a) \<and> bus_rd word (acc_view a) x = Some w \<and>
    same_words ok word s (acc_view a)"
proof -
  obtain i r k where f: "first_local (lm_ranges (ac_bus a)) x = Some i" "lm_ranges (ac_bus a) ! i = (r, CoreObj k)"
    "ok k (x - r_base r) (ac_core a)" and wf: "local_wf (ac_bus a)"
    using assms by (auto simp: bus_ok_def acc_view_def)
  obtain c' where c': "ci_fetch m k (x - r_base r) (ac_core a) = Some (word k (x - r_base r) (ac_core a), c')"
    "\<forall>k' off'. ok k' off' (ac_core a) \<longrightarrow> ok k' off' c' \<and> word k' off' c' = word k' off' (ac_core a)"
    using fetch_law [OF f(3)] by blast
  define lm where "lm = snd (lm_find x (ac_bus a))"
  have l: "lm_find x (ac_bus a) = (Some i, lm)" using lm_find_first(1) [OF wf, of x] f(1) by (simp add: prod_eq_iff lm_def)
  have same: "lm_ranges lm = lm_ranges (ac_bus a)" "local_wf lm" using lm_find_first(2,3) [OF wf, of x] by (simp_all add: lm_def)
  have "local_fetch_word m x a = Some (word k (x - r_base r) (ac_core a), put_view (lm, c') a)"
    by (simp add: local_fetch_word_def l same(1) f(2) c'(1) put_view_def)
  moreover have "same_words ok word (lm, c') (acc_view a)"
    using c'(2) same by (auto simp: same_words_def bus_ok_def bus_rd_def acc_view_def)
  ultimately show ?thesis using f by (auto simp: bus_rd_def acc_view_def)
qed

lemma bus_store:
  assumes "bus_ok ok (acc_view a) x"
  shows "\<exists>s. bus_wr m (acc_view a) x d = Some s \<and> local_store_word m x d a = Some (put_view s a)"
proof -
  obtain i r k where f: "first_local (lm_ranges (ac_bus a)) x = Some i" "lm_ranges (ac_bus a) ! i = (r, CoreObj k)"
    "ok k (x - r_base r) (ac_core a)" and wf: "local_wf (ac_bus a)"
    using assms by (auto simp: bus_ok_def acc_view_def)
  obtain c' where c': "ci_store m k (x - r_base r) d (ac_core a) = Some c'" using store_law [OF f(3)] by blast
  define lm where "lm = snd (lm_find x (ac_bus a))"
  have l: "lm_find x (ac_bus a) = (Some i, lm)" using lm_find_first(1) [OF wf, of x] f(1) by (simp add: prod_eq_iff lm_def)
  have same: "lm_ranges lm = lm_ranges (ac_bus a)" "local_wf lm" using lm_find_first(2,3) [OF wf, of x] by (simp_all add: lm_def)
  have "local_store_word m x d a = Some (put_view (lm, c') a)"
    by (simp add: local_store_word_def l same(1) f(2) c'(1) put_view_def)
  moreover have "bus_wr m (acc_view a) x d = Some (lm, c')" by (simp add: bus_wr_def acc_view_def f c'(1) l)
  ultimately show ?thesis by blast
qed

end

text \<open>An address names one word of one object, so the bus is a memory of words.\<close>

lemma one_word_per_address:
  assumes "local_wf lm" "first_local (lm_ranges lm) x = Some i" "lm_ranges lm ! i = (r, k)"
    "first_local (lm_ranges lm) y = Some j" "lm_ranges lm ! j = (q, k)" "x - r_base r = y - r_base q"
  shows "x = y"
proof -
  have "i < length (lm_ranges lm)" "j < length (lm_ranges lm)" using assms(2,4) first_local_Some by auto
  moreover have "map snd (lm_ranges lm) ! i = map snd (lm_ranges lm) ! j" using calculation assms(3,5) by simp
  ultimately have "i = j" using assms(1) nth_eq_iff_index_eq [of "map snd (lm_ranges lm)" i j] by (simp add: local_wf_def)
  then show ?thesis using assms(3,5,6) by simp
qed

sublocale word_objects \<subseteq> bus: word_store "bus_rd word" "bus_wr m" "bus_ok ok"
proof
  show "bus_ok ok s a \<Longrightarrow> bus_rd word s a \<noteq> None" for s a
    by (auto simp: bus_ok_def bus_rd_def)
  show "bus_ok ok s a \<Longrightarrow> bus_wr m s a v \<noteq> None" for s a v
    using store_law by (fastforce simp: bus_ok_def bus_wr_def)
  fix s a v s' b
  assume wr: "bus_wr m s a v = Some s'" and oa: "bus_ok ok s a"
  obtain i r k where f: "first_local (lm_ranges (fst s)) a = Some i" "lm_ranges (fst s) ! i = (r, CoreObj k)"
    "ok k (a - r_base r) (snd s)" and wf: "local_wf (fst s)" using oa by (auto simp: bus_ok_def)
  obtain c' where c': "ci_store m k (a - r_base r) v (snd s) = Some c'"
    "\<forall>k' off'. ok k' off' c' = ok k' off' (snd s) \<and>
      (ok k' off' (snd s) \<longrightarrow> word k' off' c' = (if k' = k \<and> off' = a - r_base r then v else word k' off' (snd s)))"
    using store_law [OF f(3)] by blast
  have s': "s' = (snd (lm_find a (fst s)), c')" using wr by (simp add: bus_wr_def f c'(1))
  show "bus_ok ok s' b = bus_ok ok s b"
    using c'(2) lm_find_first [OF wf, of a] wf by (auto simp: s' bus_ok_def)
  assume ob: "bus_ok ok s b"
  then obtain j q k' where g: "first_local (lm_ranges (fst s)) b = Some j" "lm_ranges (fst s) ! j = (q, CoreObj k')"
    "ok k' (b - r_base q) (snd s)" by (auto simp: bus_ok_def)
  have "k' = k \<and> b - r_base q = a - r_base r \<longleftrightarrow> b = a"
    using one_word_per_address [OF wf g(1) _ f(1), of q "CoreObj k" r] f g by auto
  then show "bus_rd word s' b = (if b = a then Some v else bus_rd word s b)"
    using c'(2) g lm_find_first(3) [OF wf, of a] by (simp add: s' bus_rd_def)
qed

end
