(* ===== verification/Accel_Transfer.thy ===== *)
theory Accel_Transfer
  imports Accel_Facts
begin

unbundle bit_operations_syntax

text \<open>
  The block transfers of the network interface: a block write packet stores its words at consecutive
  addresses of the local bus, a block read packet is answered with them, however many words the
  interface moves per cycle.
\<close>

section \<open>Steps of the interface\<close>

primrec nif_cycles :: "('k, 'c) core_if \<Rightarrow> nat \<Rightarrow> ('k, 'c) accel \<Rightarrow> ('k, 'c) accel option" where
  "nif_cycles m 0 a = Some a"
| "nif_cycles m (Suc n) a = do { a1 \<leftarrow> nif_step m a; nif_cycles m n a1 }"

lemma nif_cycles_add:
  "nif_cycles m n a = Some a1 \<Longrightarrow> nif_cycles m k a1 = Some a2 \<Longrightarrow> nif_cycles m (n + k) a = Some a2"
  by (induction n arbitrary: a) auto

text \<open>How many cycles \<open>n\<close> words take when \<open>b\<close> of them move per cycle.\<close>

definition burst_cycles :: "nat \<Rightarrow> nat \<Rightarrow> nat" where
  "burst_cycles n b = (n + b - 1) div b"

lemma burst_cycles_last: "0 < n \<Longrightarrow> n \<le> b \<Longrightarrow> burst_cycles n b = 1"
  by (simp add: burst_cycles_def div_nat_eqI)

lemma burst_cycles_more:
  assumes "b < n" "0 < b"
  shows "burst_cycles n b = Suc (burst_cycles (n - b) b)"
proof -
  have "n + b - 1 = (n - b + b - 1) + b" using assms by simp
  then have "burst_cycles n b = (n - b + b - 1 + b) div b" unfolding burst_cycles_def by (rule arg_cong)
  also have "\<dots> = Suc ((n - b + b - 1) div b)" using assms(2) by (rule div_add_self2 [THEN trans, OF less_imp_neq [THEN not_sym]]) simp
  finally show ?thesis unfolding burst_cycles_def .
qed

text \<open>What a transfer changes: the bus and core, the received and handed flits, and the word count.\<close>

definition moved :: "('k, 'c) bus_view \<Rightarrow> flit_entry list \<Rightarrow> flit_entry list \<Rightarrow> int \<Rightarrow> ('k, 'c) accel \<Rightarrow> ('k, 'c) accel" where
  "moved s q es d a = (put_view s a)\<lparr>ac_rx := q, ac_dcount := d,
     ac_router := (ac_router a)\<lparr>rx := (rx (ac_router a))(Local := rx (ac_router a) Local @ es)\<rparr>\<rparr>"

lemma moved_simps [simp]:
  "ac_bus (moved s q es d a) = fst s" "ac_core (moved s q es d a) = snd s" "acc_view (moved s q es d a) = s"
  "ac_rx (moved s q es d a) = q" "ac_dcount (moved s q es d a) = d"
  "ac_nif (moved s q es d a) = ac_nif a" "ac_packetMaxSize (moved s q es d a) = ac_packetMaxSize a"
  "reg_mema (moved s q es d a) = reg_mema a" "reg_src (moved s q es d a) = reg_src a" "reg_dst (moved s q es d a) = reg_dst a"
  "nif_state (moved s q es d a) = nif_state a" "nif_next_state (moved s q es d a) = nif_next_state a"
  "ac_bandwidth (moved s q es d a) = ac_bandwidth a" "done_pending (moved s q es d a) = done_pending a"
  "remain_dma_len (moved s q es d a) = remain_dma_len a" "ac_node_ID (moved s q es d a) = ac_node_ID a"
  "rx (ac_router (moved s q es d a)) Local = rx (ac_router a) Local @ es"
  "icLocalRdy (ac_router (moved s q es d a)) = icLocalRdy (ac_router a)"
  by (simp_all add: moved_def put_view_def acc_view_def)

lemma moved_moved [simp]: "moved s' q' es' d' (moved s q es d a) = moved s' q' (es @ es') d' a"
  by (cases a) (simp add: moved_def put_view_def)

lemma moved_same: "moved (acc_view a) (ac_rx a) [] (ac_dcount a) a = a"
  by (cases a) (simp add: moved_def put_view_def acc_view_def)

lemma moved_next:
  "moved s q es d (nif_goto st a) = nif_goto st (moved s q es d a)"
  by (cases a) (simp add: moved_def put_view_def nif_goto_def)

lemma one_store:
  "put_view s (a\<lparr>ac_rx := q\<rparr>)\<lparr>ac_dcount := d\<rparr> = moved s q [] d a"
  by (cases a) (simp add: moved_def put_view_def)

lemma one_fetch:
  "nif_send f v (put_view s (a\<lparr>ac_dcount := d\<rparr>)) = moved s (ac_rx a) [\<lparr>e_flit = f, e_vch = unat v\<rparr>] d a"
  by (cases a) (simp add: moved_def put_view_def nif_send_def port_pushData_def)

text \<open>The address of the word \<open>packetMaxSize - dcount\<close> of the block.\<close>

definition block_addr :: "('k, 'c) accel \<Rightarrow> u32" where
  "block_addr a = reg_mema a + of_int ((ac_packetMaxSize a - ac_dcount a) * 4)"

lemma block_addr_next: "block_addr (moved s q es (ac_dcount a - 1) a) = block_addr a + 4"
  by (simp add: block_addr_def algebra_simps)

context word_objects
begin

lemma write_words:
  assumes "map (\<lambda>e. fdata (e_flit e)) es = ws" "ac_rx a = es @ rest" "ac_dcount a = int (length ws)" "ws \<noteq> []"
    "\<forall>x \<in> set (slots (block_addr a) (length ws)). bus_ok ok (acc_view a) x"
  shows "\<exists>s. store_block (bus_wr m) (acc_view a) (block_addr a) (take n ws) = Some s \<and>
    nif_write_block m n a = Some (if length ws \<le> n then after_store (moved s rest [] 0 a)
      else moved s (drop n es @ rest) [] (int (length ws - n)) a)"
  using assms
proof (induction n arbitrary: a es ws)
  case 0
  then show ?case using moved_same [of a] by simp
next
  case (Suc n)
  obtain e es' where es: "es = e # es'" using Suc.prems(1,4) by (cases es) auto
  obtain w ws' where ws: "ws = w # ws'" "w = fdata (e_flit e)" "map (\<lambda>e. fdata (e_flit e)) es' = ws'"
    using Suc.prems(1) es by auto
  have ok: "bus_ok ok (acc_view a) (block_addr a)" using Suc.prems(5) ws(1) by simp
  let ?a0 = "a\<lparr>ac_rx := es' @ rest\<rparr>"
  have v: "acc_view ?a0 = acc_view a" by (simp add: acc_view_def)
  obtain s where s: "bus_wr m (acc_view a) (block_addr a) w = Some s" "local_store_word m (block_addr a) w ?a0 = Some (put_view s ?a0)"
    using bus_store [of ?a0 "block_addr a" w] ok v by auto
  let ?a1 = "moved s (es' @ rest) [] (ac_dcount a - 1) a"
  have d: "ac_dcount a - 1 = int (length ws')" using Suc.prems(3) ws(1) by simp
  have a1: "(put_view s ?a0)\<lparr>ac_dcount := ac_dcount (put_view s ?a0) - 1\<rparr> = ?a1"
    using one_store [where s = s and a = a and q = "es' @ rest" and d = "ac_dcount a - 1"] by (simp add: put_view_def)
  have get: "port_getData (ac_rx a) = Some (e_flit e, e_vch e, es' @ rest)" using Suc.prems(2) es by simp
  have step: "nif_write_block m (Suc n) a = (if ac_dcount ?a1 = 0 then Some (after_store ?a1) else nif_write_block m n ?a1)"
    by (simp only: nif_write_block.simps get option.case prod.case Let_def block_addr_def [symmetric] s(2) [unfolded ws(2)]
        Option.bind.simps a1)
  show ?case
  proof (cases "ws' = []")
    case True
    then show ?thesis using step s(1) d ws Suc.prems(3) es by simp
  next
    case False
    have p: "ac_rx ?a1 = es' @ rest" "ac_dcount ?a1 = int (length ws')"
      "\<forall>x \<in> set (slots (block_addr ?a1) (length ws')). bus_ok ok (acc_view ?a1) x"
      using d Suc.prems(5) ws(1) bus.ok_wr [OF s(1) ok] unfolding block_addr_next by simp_all
    obtain s' where "store_block (bus_wr m) s (block_addr a + 4) (take n ws') = Some s'"
      "nif_write_block m n ?a1 = Some (if length ws' \<le> n then after_store (moved s' rest [] 0 a)
        else moved s' (drop n es' @ rest) [] (int (length ws' - n)) a)"
      using Suc.IH [OF ws(3) p(1,2) False p(3), unfolded moved_moved moved_simps append_Nil block_addr_next] by blast
    then show ?thesis using step s(1) False d ws(1) es by simp
  qed
qed

lemma read_words:
  assumes "length ws = nat (ac_dcount a)" "0 < ac_dcount a"
    "\<forall>x \<in> set (slots (block_addr a) (length ws)). bus_ok ok (acc_view a) x"
    "fetch_block (bus_rd word) (acc_view a) (block_addr a) (length ws) = Some ws"
  shows "\<exists>s. same_words ok word s (acc_view a) \<and>
    nif_read_block m n a = Some (let es = map (\<lambda>i. \<lparr>e_flit = make_data_flit (ws ! i) (i + 1 = length ws), e_vch = unat (nc_vc_normal (ac_nif a))\<rparr>)
        [0..<min n (length ws)];
      a1 = moved s (ac_rx a) es (ac_dcount a - int (min n (length ws))) a
      in if length ws \<le> n then nif_goto CNIF_IDLE a1 else a1)"
  using assms
proof (induction n arbitrary: a ws)
  case 0
  then show ?case using moved_same [of a] by (intro exI [of _ "acc_view a"]) (simp add: same_words_def)
next
  case (Suc n)
  obtain w ws' where ws: "ws = w # ws'" using Suc.prems(1,2) by (cases ws) auto
  have ok: "bus_ok ok (acc_view a) (block_addr a)" using Suc.prems(3) ws by simp
  let ?a0 = "a\<lparr>ac_dcount := ac_dcount a - 1\<rparr>"
  have v: "acc_view ?a0 = acc_view a" by (simp add: acc_view_def)
  have rd: "bus_rd word (acc_view a) (block_addr a) = Some w"
    "fetch_block (bus_rd word) (acc_view a) (block_addr a + 4) (length ws') = Some ws'"
    using Suc.prems(4) ws by (auto split: option.splits)
  obtain s where s: "local_fetch_word m (block_addr a) ?a0 = Some (w, put_view s ?a0)" "same_words ok word s (acc_view a)"
    using bus_fetch [of ?a0 "block_addr a"] ok v rd(1) by auto
  let ?e = "\<lambda>l. \<lparr>e_flit = make_data_flit w l, e_vch = unat (nc_vc_normal (ac_nif a))\<rparr>"
  let ?a1 = "moved s (ac_rx a) [?e (ac_dcount a - 1 = 0)] (ac_dcount a - 1) a"
  have d: "ac_dcount a - 1 = int (length ws')" using Suc.prems(1,2) ws by simp
  have a1: "nif_send (make_data_flit w (ac_dcount a - 1 = 0)) (nc_vc_normal (ac_nif a)) (put_view s ?a0) = ?a1"
    by (rule one_fetch)
  have eqs: "ac_dcount (put_view s ?a0) = ac_dcount a - 1" "ac_nif (put_view s ?a0) = ac_nif a" by (simp_all add: put_view_def)
  have step: "nif_read_block m (Suc n) a = (if ac_dcount ?a1 = 0 then Some (nif_goto CNIF_IDLE ?a1) else nif_read_block m n ?a1)"
    by (simp only: nif_read_block.simps Let_def block_addr_def [symmetric] s(1) Option.bind.simps prod.case eqs a1)
  show ?case
  proof (cases "ws' = []")
    case True
    then show ?thesis using step s(2) d ws by (intro exI [of _ s]) simp
  next
    case False
    have sl: "\<forall>x \<in> set (slots (block_addr a + 4) (length ws')). bus_ok ok (acc_view a) x" using Suc.prems(3) ws by simp
    have p: "length ws' = nat (ac_dcount ?a1)" "0 < ac_dcount ?a1" using d False by simp_all
    have p3: "\<forall>x \<in> set (slots (block_addr ?a1) (length ws')). bus_ok ok (acc_view ?a1) x"
      using sl s(2) unfolding block_addr_next by (simp add: same_words_def)
    have p4: "fetch_block (bus_rd word) (acc_view ?a1) (block_addr ?a1) (length ws') = Some ws'"
      using same_words_block [OF s(2) sl] rd(2) unfolding block_addr_next by simp
    have eF: "(ac_dcount a - 1 = 0) = False" using d False by simp
    obtain s' where s': "same_words ok word s' s"
      "nif_read_block m n ?a1 = Some (let es = map (\<lambda>i. \<lparr>e_flit = make_data_flit (ws' ! i) (i + 1 = length ws'), e_vch = unat (nc_vc_normal (ac_nif a))\<rparr>)
          [0..<min n (length ws')];
        a2 = moved s' (ac_rx a) ([?e (ac_dcount a - 1 = 0)] @ es) (ac_dcount a - 1 - int (min n (length ws'))) a
        in if length ws' \<le> n then nif_goto CNIF_IDLE a2 else a2)"
      using Suc.IH [OF p p3 p4, unfolded moved_moved moved_simps] by blast
    have esq: "map (\<lambda>i. \<lparr>e_flit = make_data_flit (ws ! i) (i + 1 = length ws), e_vch = unat (nc_vc_normal (ac_nif a))\<rparr>) [0..<min (Suc n) (length ws)] =
      [?e False] @ map (\<lambda>i. \<lparr>e_flit = make_data_flit (ws' ! i) (i + 1 = length ws'), e_vch = unat (nc_vc_normal (ac_nif a))\<rparr>) [0..<min n (length ws')]"
      using False ws by (simp add: upt_conv_Cons map_Suc_upt [symmetric] o_def del: upt_Suc)
    have dq: "ac_dcount a - int (min (Suc n) (length ws)) = ac_dcount a - 1 - int (min n (length ws'))"
      "(length ws \<le> Suc n) = (length ws' \<le> n)" using ws by simp_all
    have step': "nif_read_block m (Suc n) a = nif_read_block m n ?a1" using step d False by simp
    show ?thesis
    proof (intro exI conjI)
      show "same_words ok word s' (acc_view a)" by (rule same_words_trans [OF s'(1) s(2)])
    qed (unfold step' s'(2), simp only: Let_def esq dq eF)
  qed
qed

end

end
