(* ===== verification/Accel_Remote.thy ===== *)
theory Accel_Remote
  imports Accel_Transfer
begin

unbundle bit_operations_syntax

text \<open>
  The cycles of a block write and of a block read, and the two of them in a row: what one chip writes
  into another is what it reads back. Stated for every core whose objects are arrays of words
  (\<open>word_objects\<close>), and interpreted for \<open>RemoteRam\<close>.
\<close>

section \<open>Blocks in pieces\<close>

lemma slots_append: "slots a (i + j) = slots a i @ slots (a + 4 * of_nat i) j"
  by (induction i arbitrary: a) (simp_all add: algebra_simps)

lemma store_block_append:
  "store_block wr s a (xs @ ys) =
     (case store_block wr s a xs of None \<Rightarrow> None | Some s' \<Rightarrow> store_block wr s' (a + 4 * of_nat (length xs)) ys)"
  by (induction xs arbitrary: s a) (simp_all add: algebra_simps split: option.split)

lemma fetch_block_drop:
  assumes "fetch_block rd s a n = Some ws" "k \<le> n"
  shows "fetch_block rd s (a + 4 * of_nat k) (n - k) = Some (drop k ws)"
  using assms
proof (induction k arbitrary: a n ws)
  case (Suc k)
  obtain n' where n: "n = Suc n'" using Suc.prems(2) by (cases n) auto
  obtain v vs where "rd s a = Some v" "fetch_block rd s (a + 4) n' = Some vs" "ws = v # vs"
    using Suc.prems(1) n by (auto split: option.splits)
  with Suc.IH [of "a + 4" n' vs] Suc.prems(2) n show ?case by (simp add: algebra_simps)
qed simp

lemma fetch_block_length: "fetch_block rd s a n = Some ws \<Longrightarrow> length ws = n"
  by (induction n arbitrary: a ws) (auto split: option.splits)

section \<open>What a transfer leaves alone\<close>

definition same_chip :: "('k, 'c) accel \<Rightarrow> ('k, 'c) accel \<Rightarrow> bool" where
  "same_chip a' a \<longleftrightarrow> ac_nif a' = ac_nif a \<and> ac_packetMaxSize a' = ac_packetMaxSize a \<and> ac_bandwidth a' = ac_bandwidth a \<and>
     done_pending a' = done_pending a \<and> icLocalRdy (ac_router a') = icLocalRdy (ac_router a)"

lemma same_chip_trans: "same_chip a2 a1 \<Longrightarrow> same_chip a1 a \<Longrightarrow> same_chip a2 a"
  by (simp add: same_chip_def)

definition chip_idle :: "('k, 'c) accel \<Rightarrow> bool" where
  "chip_idle a \<longleftrightarrow> nif_state a = CNIF_IDLE \<and> nif_next_state a = CNIF_IDLE \<and> \<not> done_pending a \<and>
     \<not> (isDMAKicked (ac_nif a) \<and> nc_dma_len (ac_nif a) > 0)"

definition handed :: "('k, 'c) accel \<Rightarrow> flit_entry list" where
  "handed a = rx (ac_router a) Local"

definition entry :: "flit \<Rightarrow> u32 \<Rightarrow> flit_entry" where
  "entry f v = \<lparr>e_flit = f, e_vch = unat v\<rparr>"

text \<open>The data flits of a block from word \<open>i\<close> on.\<close>

definition block_flits :: "u32 \<Rightarrow> u32 list \<Rightarrow> flit_entry list" where
  "block_flits v ws = map (\<lambda>i. entry (make_data_flit (ws ! i) (i + 1 = length ws)) v) [0..<length ws]"

lemma block_flits_drop:
  assumes "k < length ws"
  shows "block_flits v ws = map (\<lambda>i. entry (make_data_flit (ws ! i) (i + 1 = length ws)) v) [0..<k] @ block_flits v (drop k ws)"
proof -
  have "[0..<length ws] = [0..<k] @ map (\<lambda>i. i + k) [0..<length ws - k]"
    using assms upt_add_eq_append [of 0 k "length ws - k"] by (simp add: map_add_upt)
  then have "block_flits v ws = map (\<lambda>i. entry (make_data_flit (ws ! i) (i + 1 = length ws)) v) [0..<k] @
      map (\<lambda>i. entry (make_data_flit (ws ! (i + k)) (i + k + 1 = length ws)) v) [0..<length ws - k]"
    by (simp add: block_flits_def)
  also have "(i + k + 1 = length ws) = (i + 1 = length ws - k)" for i using assms by arith
  then have "map (\<lambda>i. entry (make_data_flit (ws ! (i + k)) (i + k + 1 = length ws)) v) [0..<length ws - k] = block_flits v (drop k ws)"
    using assms by (simp add: block_flits_def add.commute)
  finally show ?thesis .
qed

lemma update_simps [simp]:
  "acc_view (nif_update a) = acc_view a" "ac_rx (nif_update a) = ac_rx a" "ac_dcount (nif_update a) = ac_dcount a"
  "reg_mema (nif_update a) = reg_mema a" "reg_src (nif_update a) = reg_src a" "reg_dst (nif_update a) = reg_dst a"
  "handed (nif_update a) = handed a" "same_chip (nif_update a) b = same_chip a b" "block_addr (nif_update a) = block_addr a"
  "ac_bandwidth (nif_update a) = ac_bandwidth a" "ac_packetMaxSize (nif_update a) = ac_packetMaxSize a"
  "ac_nif (nif_update a) = ac_nif a" "ac_router (nif_update a) = ac_router a"
  by (simp_all add: nif_update_def nif_goto_def acc_view_def handed_def same_chip_def block_addr_def Let_def)

lemma goto_simps [simp]:
  "acc_view (nif_goto st a) = acc_view a" "ac_rx (nif_goto st a) = ac_rx a" "handed (nif_goto st a) = handed a"
  "same_chip (nif_goto st a) b = same_chip a b" "nif_next_state (nif_goto st a) = st" "done_pending (nif_goto st a) = done_pending a"
  "ac_nif (nif_goto st a) = ac_nif a" "reg_mema (nif_goto st a) = reg_mema a" "reg_src (nif_goto st a) = reg_src a"
  "reg_dst (nif_goto st a) = reg_dst a" "ac_dcount (nif_goto st a) = ac_dcount a"
  by (simp_all add: nif_goto_def acc_view_def handed_def same_chip_def)

lemma block_addr_goto [simp]: "block_addr (nif_goto st a) = block_addr a"
  by (simp add: block_addr_def nif_goto_def)

lemma send_simps [simp]:
  "acc_view (nif_send f v a) = acc_view a" "ac_rx (nif_send f v a) = ac_rx a" "handed (nif_send f v a) = handed a @ [entry f v]"
  "same_chip (nif_send f v a) b = same_chip a b" "ac_dcount (nif_send f v a) = ac_dcount a"
  "block_addr (nif_send f v a) = block_addr a" "nif_next_state (nif_send f v a) = nif_next_state a"
  "done_pending (nif_send f v a) = done_pending a" "ac_nif (nif_send f v a) = ac_nif a"
  by (simp_all add: nif_send_def acc_view_def handed_def same_chip_def block_addr_def port_pushData_def entry_def)

lemma moved_more [simp]:
  "handed (moved s q es d a) = handed a @ es" "same_chip (moved s q es d a) b = same_chip a b"
  by (simp_all add: handed_def same_chip_def)

lemma same_chip_refl [simp]: "same_chip a a"
  by (simp add: same_chip_def)

lemma update_state:
  "\<not> done_pending a \<Longrightarrow> nif_state (nif_update a) = nif_next_state a \<and> nif_next_state (nif_update a) = nif_next_state a"
  "nif_next_state a \<noteq> CNIF_IDLE \<Longrightarrow> nif_state (nif_update a) = nif_next_state a \<and> nif_next_state (nif_update a) = nif_next_state a"
  "done_pending (nif_update a) = done_pending a"
  by (simp_all add: nif_update_def nif_goto_def Let_def)

lemma after_store_idle:
  "\<not> (isDMAKicked (ac_nif a) \<and> nc_dma_len (ac_nif a) > 0) \<Longrightarrow> after_store a = nif_goto CNIF_IDLE a"
  by (auto simp: after_store_def)

lemma cycle_first:
  "nif_state a \<noteq> CNIF_ERROR \<Longrightarrow> nif_state_step m (nif_state a) a = Some a1 \<Longrightarrow>
    nif_cycles m (Suc n) a = nif_cycles m n (nif_update a1)"
  by (simp add: nif_step_def)

context word_objects
begin

lemma write_burst:
  assumes "nif_state a = CNIF_BW_DATA" "nif_next_state a = CNIF_BW_DATA" "\<not> done_pending a"
    "\<not> (isDMAKicked (ac_nif a) \<and> nc_dma_len (ac_nif a) > 0)" "0 < ac_bandwidth a"
    "map (\<lambda>e. fdata (e_flit e)) es = ws" "ac_rx a = es @ rest" "ac_dcount a = int (length ws)" "ws \<noteq> []"
    "\<forall>x \<in> set (slots (block_addr a) (length ws)). bus_ok ok (acc_view a) x"
  shows "\<exists>s a'. store_block (bus_wr m) (acc_view a) (block_addr a) ws = Some s \<and>
    nif_cycles m (burst_cycles (length ws) (ac_bandwidth a)) a = Some a' \<and> acc_view a' = s \<and> ac_rx a' = rest \<and>
    handed a' = handed a \<and> same_chip a' a \<and> chip_idle a'"
  using assms
proof (induction "length ws" arbitrary: a es ws rule: less_induct)
  case less
  let ?b = "ac_bandwidth a"
  obtain s where s: "store_block (bus_wr m) (acc_view a) (block_addr a) (take ?b ws) = Some s"
    "nif_write_block m ?b a = Some (if length ws \<le> ?b then after_store (moved s rest [] 0 a)
      else moved s (drop ?b es @ rest) [] (int (length ws - ?b)) a)"
    using write_words [OF less.prems(6-10), of ?b] by blast
  have step: "nif_state_step m (nif_state a) a = nif_write_block m ?b a" by (simp add: less.prems(1))
  have ne: "nif_state a \<noteq> CNIF_ERROR" by (simp add: less.prems(1))
  show ?case
  proof (cases "length ws \<le> ?b")
    case True
    let ?a1 = "nif_goto CNIF_IDLE (moved s rest [] 0 a)"
    have "nif_state_step m (nif_state a) a = Some ?a1"
      using step s(2) True less.prems(4) by (simp add: after_store_idle)
    from cycle_first [OF ne this, of 0] have "nif_cycles m (burst_cycles (length ws) ?b) a = Some (nif_update ?a1)"
      using less.prems(9) True by (simp add: burst_cycles_last)
    moreover have "chip_idle (nif_update ?a1)"
      using less.prems(3,4) update_state [of ?a1] by (simp add: chip_idle_def)
    ultimately show ?thesis using s(1) True by (intro exI [of _ s] exI [of _ "nif_update ?a1"]) simp
  next
    case False
    let ?a1 = "nif_update (moved s (drop ?b es @ rest) [] (int (length ws - ?b)) a)"
    let ?ws = "drop ?b ws"
    have c: "nif_cycles m (burst_cycles (length ws) ?b) a = nif_cycles m (burst_cycles (length ?ws) ?b) ?a1"
      using cycle_first [OF ne, of m "moved s (drop ?b es @ rest) [] (int (length ws - ?b)) a"] step s(2) False less.prems(5)
      by (simp add: burst_cycles_more)
    have st: "nif_state ?a1 = CNIF_BW_DATA" "nif_next_state ?a1 = CNIF_BW_DATA" "\<not> done_pending ?a1"
      using less.prems(2,3) by (simp_all add: update_state)
    have addr: "block_addr ?a1 = block_addr a + 4 * of_nat ?b"
      using False less.prems(8) by (simp add: block_addr_def algebra_simps)
    have ok: "\<forall>x \<in> set (slots (block_addr a) (length (take ?b ws))). bus_ok ok (acc_view a) x"
      "\<forall>x \<in> set (slots (block_addr ?a1) (length ?ws)). bus_ok ok (acc_view a) x"
      using less.prems(10) False slots_append [of "block_addr a" ?b "length ws - ?b"] unfolding addr by auto
    then have "\<forall>x \<in> set (slots (block_addr ?a1) (length ?ws)). bus_ok ok (acc_view ?a1) x"
      using bus.store_block_frame [OF s(1)] by simp
    moreover have "map (\<lambda>e. fdata (e_flit e)) (drop ?b es) = ?ws" by (simp add: less.prems(6) [symmetric] drop_map)
    moreover have "length ?ws < length ws" "\<not> (isDMAKicked (ac_nif ?a1) \<and> nc_dma_len (ac_nif ?a1) > 0)" "0 < ac_bandwidth ?a1"
      "ac_rx ?a1 = drop ?b es @ rest" "ac_dcount ?a1 = int (length ?ws)" "?ws \<noteq> []" using less.prems(4,5) False by simp_all
    ultimately obtain s' a' where a': "store_block (bus_wr m) (acc_view ?a1) (block_addr ?a1) ?ws = Some s'"
      "nif_cycles m (burst_cycles (length ?ws) (ac_bandwidth ?a1)) ?a1 = Some a'" "acc_view a' = s'" "ac_rx a' = rest"
      "handed a' = handed ?a1" "same_chip a' ?a1" "chip_idle a'"
      using less.hyps [of ?ws ?a1 "drop ?b es"] st by blast
    have "store_block (bus_wr m) (acc_view a) (block_addr a) (take ?b ws @ ?ws) =
        store_block (bus_wr m) s (block_addr ?a1) ?ws"
      using s(1) False unfolding store_block_append addr by simp
    moreover have "same_chip a' a" using same_chip_trans [OF a'(6)] by simp
    ultimately show ?thesis using a' c by (intro exI [of _ s'] exI [of _ a']) simp
  qed
qed

lemma read_burst:
  assumes "nif_state a = CNIF_BR_DATA" "nif_next_state a = CNIF_BR_DATA" "\<not> done_pending a"
    "\<not> (isDMAKicked (ac_nif a) \<and> nc_dma_len (ac_nif a) > 0)" "0 < ac_bandwidth a"
    "ac_dcount a = int (length ws)" "ws \<noteq> []"
    "\<forall>x \<in> set (slots (block_addr a) (length ws)). bus_ok ok (acc_view a) x"
    "fetch_block (bus_rd word) (acc_view a) (block_addr a) (length ws) = Some ws"
  shows "\<exists>a'. nif_cycles m (burst_cycles (length ws) (ac_bandwidth a)) a = Some a' \<and>
    same_words ok word (acc_view a') (acc_view a) \<and> ac_rx a' = ac_rx a \<and>
    handed a' = handed a @ block_flits (nc_vc_normal (ac_nif a)) ws \<and> same_chip a' a \<and> chip_idle a'"
  using assms
proof (induction "length ws" arbitrary: a ws rule: less_induct)
  case less
  let ?b = "ac_bandwidth a"
  let ?v = "nc_vc_normal (ac_nif a)"
  let ?es = "map (\<lambda>i. entry (make_data_flit (ws ! i) (i + 1 = length ws)) ?v) [0..<min ?b (length ws)]"
  obtain s where s: "same_words ok word s (acc_view a)"
    "nif_read_block m ?b a = Some (let a1 = moved s (ac_rx a) ?es (ac_dcount a - int (min ?b (length ws))) a
      in if length ws \<le> ?b then nif_goto CNIF_IDLE a1 else a1)"
    using read_words [of ws a ?b] less.prems by (auto simp: entry_def Let_def)
  have step: "nif_state_step m (nif_state a) a = nif_read_block m ?b a" by (simp add: less.prems(1))
  have ne: "nif_state a \<noteq> CNIF_ERROR" by (simp add: less.prems(1))
  show ?case
  proof (cases "length ws \<le> ?b")
    case True
    let ?a1 = "nif_goto CNIF_IDLE (moved s (ac_rx a) (block_flits ?v ws) 0 a)"
    have "nif_state_step m (nif_state a) a = Some ?a1"
      using step s(2) True less.prems(6) by (simp add: block_flits_def min_absorb2)
    from cycle_first [OF ne this, of 0] have "nif_cycles m (burst_cycles (length ws) ?b) a = Some (nif_update ?a1)"
      using less.prems(7) True by (simp add: burst_cycles_last)
    moreover have "chip_idle (nif_update ?a1)"
      using less.prems(3,4) update_state [of ?a1] by (simp add: chip_idle_def)
    ultimately show ?thesis using s(1) by (intro exI [of _ "nif_update ?a1"]) simp
  next
    case False
    let ?m1 = "moved s (ac_rx a) ?es (int (length ws - ?b)) a"
    let ?a1 = "nif_update ?m1"
    let ?ws = "drop ?b ws"
    have "nif_state_step m (nif_state a) a = Some ?m1"
      using step s(2) False less.prems(6) by (simp add: of_nat_diff)
    from cycle_first [OF ne this] have c: "nif_cycles m (burst_cycles (length ws) ?b) a = nif_cycles m (burst_cycles (length ?ws) ?b) ?a1"
      using False less.prems(5) by (simp add: burst_cycles_more)
    have st: "nif_state ?a1 = CNIF_BR_DATA" "nif_next_state ?a1 = CNIF_BR_DATA" "\<not> done_pending ?a1"
      using less.prems(2,3) by (simp_all add: update_state)
    have addr: "block_addr ?a1 = block_addr a + 4 * of_nat ?b"
      using False less.prems(6) by (simp add: block_addr_def algebra_simps)
    have sl: "\<forall>x \<in> set (slots (block_addr ?a1) (length ?ws)). bus_ok ok (acc_view a) x"
      using less.prems(8) False slots_append [of "block_addr a" ?b "length ws - ?b"] unfolding addr by auto
    then have "\<forall>x \<in> set (slots (block_addr ?a1) (length ?ws)). bus_ok ok (acc_view ?a1) x"
      using s(1) by (simp add: same_words_def)
    moreover have "fetch_block (bus_rd word) (acc_view ?a1) (block_addr ?a1) (length ?ws) = Some ?ws"
      using same_words_block [OF s(1) sl] fetch_block_drop [OF less.prems(9), of ?b] False addr by simp
    moreover have "length ?ws < length ws" "\<not> (isDMAKicked (ac_nif ?a1) \<and> nc_dma_len (ac_nif ?a1) > 0)" "0 < ac_bandwidth ?a1"
      "ac_dcount ?a1 = int (length ?ws)" "?ws \<noteq> []" using less.prems(4,5) False by simp_all
    ultimately obtain a' where a': "nif_cycles m (burst_cycles (length ?ws) (ac_bandwidth ?a1)) ?a1 = Some a'"
      "same_words ok word (acc_view a') (acc_view ?a1)" "ac_rx a' = ac_rx ?a1"
      "handed a' = handed ?a1 @ block_flits (nc_vc_normal (ac_nif ?a1)) ?ws" "same_chip a' ?a1" "chip_idle a'"
      using less.hyps [of ?ws ?a1] st by blast
    have "handed a' = handed a @ block_flits ?v ws"
      using a'(4) block_flits_drop [of ?b ws ?v] False by simp
    moreover have "same_words ok word (acc_view a') (acc_view a)" using same_words_trans [OF a'(2)] s(1) by simp
    moreover have "same_chip a' a" using same_chip_trans [OF a'(5)] by simp
    ultimately show ?thesis using a' c by (intro exI [of _ a']) simp
  qed
qed

end

section \<open>Heads\<close>

lemma idle_takes_head:
  assumes "chip_idle a" "ac_rx a = e # q" "ftype (e_flit e) = FTYPE_HEAD \<or> ftype (e_flit e) = FTYPE_HEADTAIL"
    "decode_headflit (e_flit e) = (x, mt, v, src, dst)" "mt = MTYPE_BW \<or> mt = MTYPE_BR"
    "a1 = nif_update (nif_idle a)"
  shows "nif_cycles m (Suc n) a = nif_cycles m n a1"
    "nif_state a1 = (if mt = MTYPE_BW then CNIF_BW_DATA else CNIF_BR_HEAD)" "nif_next_state a1 = nif_state a1"
    "acc_view a1 = acc_view a" "ac_rx a1 = q" "handed a1 = handed a" "same_chip a1 a"
    "ac_dcount a1 = ac_packetMaxSize a" "reg_mema a1 = x" "reg_src a1 = src" "reg_dst a1 = dst"
proof -
  have st: "nif_state a = CNIF_IDLE" "\<not> done_pending a" using assms(1) by (simp_all add: chip_idle_def)
  show "nif_cycles m (Suc n) a = nif_cycles m n a1"
    unfolding assms(6) by (rule cycle_first) (simp_all add: st)
  let ?a2 = "a\<lparr>ac_rx := q, reg_mema := x, reg_mtype := mt, reg_vch := v, reg_src := src, reg_dst := dst, ac_dcount := ac_packetMaxSize a\<rparr>"
  have idle: "nif_idle a = nif_goto (if mt = MTYPE_BW then CNIF_BW_DATA else CNIF_BR_HEAD) ?a2"
    using assms(2-5) by (auto simp: nif_idle_def)
  have eqs: "acc_view ?a2 = acc_view a" "handed ?a2 = handed a" "same_chip ?a2 a"
    by (simp_all add: acc_view_def handed_def same_chip_def)
  show "nif_state a1 = (if mt = MTYPE_BW then CNIF_BW_DATA else CNIF_BR_HEAD)" "nif_next_state a1 = nif_state a1"
    unfolding assms(6) idle using st by (simp_all add: nif_update_def nif_goto_def)
  show "acc_view a1 = acc_view a" "ac_rx a1 = q" "handed a1 = handed a" "same_chip a1 a"
    "ac_dcount a1 = ac_packetMaxSize a" "reg_mema a1 = x" "reg_src a1 = src" "reg_dst a1 = dst"
    using eqs unfolding assms(6) idle by simp_all
qed

lemma reply_head:
  assumes "nif_state a = CNIF_BR_HEAD" "nif_slaveReady (nc_vc_normal (ac_nif a)) a = Some True" "\<not> done_pending a"
    "a1 = nif_update (nif_send (make_head_flit (reg_mema a) MTYPE_BW (nc_vc_normal (ac_nif a)) (reg_dst a) (reg_src a) False)
      (nc_vc_normal (ac_nif a)) (nif_goto CNIF_BR_DATA a))"
  shows "nif_cycles m (Suc n) a = nif_cycles m n a1"
    "nif_state a1 = CNIF_BR_DATA" "nif_next_state a1 = CNIF_BR_DATA"
    "acc_view a1 = acc_view a" "ac_rx a1 = ac_rx a" "same_chip a1 a" "ac_dcount a1 = ac_dcount a" "block_addr a1 = block_addr a"
    "handed a1 = handed a @ [entry (make_head_flit (reg_mema a) MTYPE_BW (nc_vc_normal (ac_nif a)) (reg_dst a) (reg_src a) False)
      (nc_vc_normal (ac_nif a))]"
proof -
  show "nif_cycles m (Suc n) a = nif_cycles m n a1"
    unfolding assms(4) by (rule cycle_first) (simp_all add: assms(1,2) nif_reply_head_def Let_def)
  show "nif_state a1 = CNIF_BR_DATA" "nif_next_state a1 = CNIF_BR_DATA"
    unfolding assms(4) using assms(3) by (simp_all add: update_state)
  show "acc_view a1 = acc_view a" "ac_rx a1 = ac_rx a" "same_chip a1 a" "ac_dcount a1 = ac_dcount a" "block_addr a1 = block_addr a"
    "handed a1 = handed a @ [entry (make_head_flit (reg_mema a) MTYPE_BW (nc_vc_normal (ac_nif a)) (reg_dst a) (reg_src a) False)
      (nc_vc_normal (ac_nif a))]"
    unfolding assms(4) by simp_all
qed

section \<open>Written and read back\<close>

context word_objects
begin

lemma block_roundtrip:
  assumes "chip_idle a" "0 < ac_bandwidth a" "ac_packetMaxSize a = int (length ws)" "ws \<noteq> []" "length ws \<le> 2 ^ 30"
    "ac_rx a = e0 # es @ [e1]" "map (\<lambda>e. fdata (e_flit e)) es = ws"
    "ftype (e_flit e0) = FTYPE_HEAD \<or> ftype (e_flit e0) = FTYPE_HEADTAIL" "decode_headflit (e_flit e0) = (x, MTYPE_BW, v0, s0, d0)"
    "ftype (e_flit e1) = FTYPE_HEAD \<or> ftype (e_flit e1) = FTYPE_HEADTAIL" "decode_headflit (e_flit e1) = (x, MTYPE_BR, v1, s1, d1)"
    "v = nc_vc_normal (ac_nif a)" "nif_slaveReady v a = Some True"
    "\<forall>y \<in> set (slots x (length ws)). bus_ok ok (acc_view a) y"
  shows "\<exists>a'. nif_cycles m (2 * burst_cycles (length ws) (ac_bandwidth a) + 3) a = Some a' \<and> chip_idle a' \<and> ac_rx a' = [] \<and>
    handed a' = handed a @ entry (make_head_flit x MTYPE_BW v d1 s1 False) v # block_flits v ws \<and>
    fetch_block (bus_rd word) (acc_view a') x (length ws) = Some ws \<and>
    (\<forall>y. bus_ok ok (acc_view a) y \<and> y \<notin> set (slots x (length ws)) \<longrightarrow> bus_rd word (acc_view a') y = bus_rd word (acc_view a) y)"
proof -
  let ?n = "length ws" and ?k = "burst_cycles (length ws) (ac_bandwidth a)"
  define a1 where "a1 = nif_update (nif_idle a)"
  have c1: "nif_cycles m (Suc n) a = nif_cycles m n a1" for n
    by (rule idle_takes_head(1) [OF assms(1,6,8,9) disjI1 [OF refl] a1_def])
  note h1 = idle_takes_head [OF assms(1,6,8,9) _ a1_def, simplified]
  have i: "\<not> done_pending a" "\<not> (isDMAKicked (ac_nif a) \<and> nc_dma_len (ac_nif a) > 0)" using assms(1) by (auto simp: chip_idle_def)
  note sc1 = h1(7) [unfolded same_chip_def]
  have addr1: "block_addr a1 = x" using h1(8,9) sc1 by (simp add: block_addr_def)
  have "\<exists>s a2. store_block (bus_wr m) (acc_view a1) (block_addr a1) ws = Some s \<and>
    nif_cycles m (burst_cycles ?n (ac_bandwidth a1)) a1 = Some a2 \<and> acc_view a2 = s \<and> ac_rx a2 = [e1] \<and>
    handed a2 = handed a1 \<and> same_chip a2 a1 \<and> chip_idle a2"
    using h1 sc1 i assms(2-4,7,14) by (intro write_burst [where es = es]) (simp_all add: addr1)
  then obtain s a2 where st: "store_block (bus_wr m) (acc_view a) x ws = Some s" and a2: "nif_cycles m ?k a1 = Some a2"
    "acc_view a2 = s" "ac_rx a2 = [e1]" "handed a2 = handed a" "same_chip a2 a" "chip_idle a2"
    using h1(4,6,7) sc1 addr1 by (auto dest: same_chip_trans)
  define a3 where "a3 = nif_update (nif_idle a2)"
  have c3: "nif_cycles m (Suc n) a2 = nif_cycles m n a3" for n
    by (rule idle_takes_head(1) [OF a2(6,3) assms(10,11) disjI2 [OF refl] a3_def])
  note h3 = idle_takes_head [OF a2(6,3) assms(10,11) _ a3_def, simplified]
  have sc3: "same_chip a3 a" using same_chip_trans [OF h3(7) a2(5)] .
  note sc3' = sc3 [unfolded same_chip_def]
  have rdy: "nif_slaveReady (nc_vc_normal (ac_nif a3)) a3 = Some True" "\<not> done_pending a3" "nc_vc_normal (ac_nif a3) = v"
    using assms(12,13) sc3' i by (simp_all add: nif_slaveReady_def)
  define a4 where "a4 = nif_update (nif_send (make_head_flit (reg_mema a3) MTYPE_BW (nc_vc_normal (ac_nif a3)) (reg_dst a3) (reg_src a3) False)
      (nc_vc_normal (ac_nif a3)) (nif_goto CNIF_BR_DATA a3))"
  note h4 = reply_head [OF h3(2) rdy(1,2) a4_def]
  have sc4: "same_chip a4 a" using same_chip_trans [OF h4(6) sc3] .
  note sc4' = sc4 [unfolded same_chip_def]
  have addr4: "block_addr a4 = x" using h4(8) h3(8,9) sc3' a2(5) by (simp add: block_addr_def same_chip_def)
  have ok2: "\<forall>y. bus_ok ok (acc_view a) y \<longrightarrow> bus_ok ok s y \<and> (y \<notin> set (slots x ?n) \<longrightarrow> bus_rd word s y = bus_rd word (acc_view a) y)"
    using bus.store_block_frame [OF st assms(14)] by blast
  have rd: "fetch_block (bus_rd word) s x ?n = Some ws"
    by (rule bus.fetch_block_store_block [OF st distinct_slots [OF assms(5)] assms(14)])
  have v4: "acc_view a4 = s" using h4(4) h3(4) a2(2) by simp
  have "\<exists>a5. nif_cycles m (burst_cycles ?n (ac_bandwidth a4)) a4 = Some a5 \<and>
    same_words ok word (acc_view a5) (acc_view a4) \<and> ac_rx a5 = ac_rx a4 \<and>
    handed a5 = handed a4 @ block_flits (nc_vc_normal (ac_nif a4)) ws \<and> same_chip a5 a4 \<and> chip_idle a5"
    using h4(2,3,7) h3(8) a2(5) sc4' i assms(2-4,14) ok2 rd
    by (intro read_burst) (simp_all add: addr4 v4 same_chip_def)
  then obtain a5 where a5: "nif_cycles m ?k a4 = Some a5" "same_words ok word (acc_view a5) s" "ac_rx a5 = ac_rx a4"
    "handed a5 = handed a4 @ block_flits v ws" "chip_idle a5" using sc4' assms(12) v4 by auto
  have c: "2 * ?k + 3 = Suc (?k + Suc (Suc ?k))" by simp
  have "nif_cycles m (Suc (Suc ?k)) a2 = Some a5" unfolding c3 h4(1) by (rule a5(1))
  then have "nif_cycles m (2 * ?k + 3) a = Some a5" unfolding c c1 by (rule nif_cycles_add [OF a2(1)])
  moreover have "fetch_block (bus_rd word) (acc_view a5) x ?n = Some ws"
    using same_words_block [OF a5(2), of x ?n] ok2 assms(14) rd by simp
  moreover have "\<forall>y. bus_ok ok (acc_view a) y \<and> y \<notin> set (slots x ?n) \<longrightarrow> bus_rd word (acc_view a5) y = bus_rd word (acc_view a) y"
    using a5(2) ok2 by (simp add: same_words_def)
  moreover have "handed a5 = handed a @ entry (make_head_flit x MTYPE_BW v d1 s1 False) v # block_flits v ws"
    using a5(4) h4(9) h3(6,9-11) a2(4) rdy(3) by simp
  moreover have "ac_rx a5 = []" using a5(3) h4(5) h3(5) by simp
  ultimately show ?thesis using a5(5) by blast
qed

end

end
