(* ===== verification/Accel_Props.thy ===== *)
theory Accel_Props
  imports Accel_Remote
begin

unbundle bit_operations_syntax

text \<open>
  What the network interface of an accelerator promises: blocks written to a chip of memory read back
  over the network, and the flits it hands to the router are whole packets whatever it serves.
\<close>

section \<open>RemoteRam is an array of words\<close>

definition rram_ok :: "rram_obj \<Rightarrow> u32 \<Rightarrow> range_t \<Rightarrow> bool" where
  "rram_ok k off r \<longleftrightarrow> range_ok r off"

definition rram_word :: "bool \<Rightarrow> rram_obj \<Rightarrow> u32 \<Rightarrow> range_t \<Rightarrow> u32" where
  "rram_word hb k off r = load32 hb (r_address r) (4 * (unat off div 4))"

interpretation rram: word_objects "RemoteRam_core hb" rram_ok "rram_word hb" for hb
proof
  fix k off c assume ok: "rram_ok k off c"
  show "\<exists>c'. ci_fetch (RemoteRam_core hb) k off c = Some (rram_word hb k off c, c') \<and>
      (\<forall>k' off'. rram_ok k' off' c \<longrightarrow> rram_ok k' off' c' \<and> rram_word hb k' off' c' = rram_word hb k' off' c)"
    using ok by (auto simp: RemoteRam_core_def rram_ok_def rram_word_def range_ok_def Range_fetch_word_def Let_def)
next
  fix k off c d assume ok: "rram_ok k off c"
  then obtain c' where c': "Range_store_word hb c off d = Some c'"
    using range_words.wr_ok [of c off hb d] by (auto simp: rram_ok_def)
  have w: "range_rd hb r x = Some (rram_word hb k' x r)" if "range_ok r x" for r x k'
    using that by (auto simp: range_rd_def rram_word_def Range_fetch_word_def range_ok_def Let_def)
  have "rram_ok k' off' c' = rram_ok k' off' c \<and>
      (rram_ok k' off' c \<longrightarrow> rram_word hb k' off' c' = (if k' = k \<and> off' = off then d else rram_word hb k' off' c))" for k' off'
    using range_words.ok_wr [OF c', of off'] range_words.rd_wr [OF c', of off'] ok w [of c off' RRamMem] w [of c' off' RRamMem]
    by (cases k; cases k') (auto simp: rram_ok_def)
  then show "\<exists>c'. ci_store (RemoteRam_core hb) k off d c = Some c' \<and>
      (\<forall>k' off'. rram_ok k' off' c' = rram_ok k' off' c \<and>
        (rram_ok k' off' c \<longrightarrow> rram_word hb k' off' c' = (if k' = k \<and> off' = off then d else rram_word hb k' off' c)))"
    using c' by (simp add: RemoteRam_core_def)
qed

section \<open>Whole packets\<close>

text \<open>The channel of the packet the interface is in the middle of.\<close>

definition nif_packet :: "('k, 'c) accel \<Rightarrow> nat option" where
  "nif_packet a =
     (if nif_next_state a = CNIF_SR_DATA \<or> nif_next_state a = CNIF_BR_DATA then Some (unat (nc_vc_normal (ac_nif a)))
      else if nif_next_state a = CNIF_DMA_DATA then Some (unat (nc_vc_dma (ac_nif a)))
      else None)"

lemma handed_upd [simp]:
  "handed (a\<lparr>ac_dcount := d\<rparr>) = handed a" "handed (a\<lparr>ac_rx := q\<rparr>) = handed a" "handed (a\<lparr>remain_dma_len := n\<rparr>) = handed a"
  by (simp_all add: handed_def)

text \<open>What an access of the local bus leaves alone.\<close>

lemma local_frame:
  "local_fetch_word m x a = Some (w, a1) \<Longrightarrow> handed a1 = handed a \<and> nif_next_state a1 = nif_next_state a \<and>
     ac_nif a1 = ac_nif a \<and> ac_dcount a1 = ac_dcount a"
  by (auto simp: local_fetch_word_def handed_def Let_def split: prod.splits option.splits local_ref.splits)

lemma store_frame:
  "local_store_word m x d a = Some a1 \<Longrightarrow> handed a1 = handed a \<and> nif_next_state a1 = nif_next_state a"
  by (auto simp: local_store_word_def handed_def Let_def split: prod.splits option.splits local_ref.splits)

lemma after_store_packet: "handed (after_store a) = handed a" "nif_packet (after_store a) = None"
  by (simp_all add: after_store_def nif_packet_def nif_goto_def handed_def)

lemma head_packet: "packet_step None (entry (make_head_flit x mt vch src dst tail) v) = Some (if tail then None else Some (unat v))"
  by (simp add: entry_def make_head_flit_def)

lemma data_packet: "packet_step (Some (unat v)) (entry (make_data_flit w tail) v) = Some (if tail then None else Some (unat v))"
  by (simp add: entry_def make_data_flit_def)

lemma packets_one: "packets st [e] = packet_step st e"
  by (simp del: packet_step.simps split: Option.bind_splits)

lemma head_step:
  assumes "do { rdy \<leftarrow> nif_slaveReady vch a;
      Some (if rdy then f (nif_send (make_head_flit x mt vch src dst tail) vch a) else a) } = Some a'"
    "nif_packet a = None" "\<And>b. handed (f b) = handed b"
    "\<And>b. ac_nif b = ac_nif a \<Longrightarrow> nif_packet (f b) = (if tail then None else Some (unat vch))"
  shows "\<exists>es. handed a' = handed a @ es \<and> packets (nif_packet a) es = Some (nif_packet a')"
proof -
  obtain rdy where "a' = (if rdy then f (nif_send (make_head_flit x mt vch src dst tail) vch a) else a)" using assms(1) by auto
  then show ?thesis
    using assms(2-4) head_packet [of x mt vch src dst tail vch]
    by (cases rdy) (auto intro!: exI [of _ "[]"] exI [of _ "[entry (make_head_flit x mt vch src dst tail) vch]"]
        simp: packets_one simp del: packets.simps(2) packet_step.simps)
qed

text \<open>The words of a packet: \<open>f\<close> is what the interface does after the last one.\<close>

lemma read_block_packets:
  assumes "nif_read_block m n a = Some a'" "nif_next_state a = CNIF_BR_DATA"
  shows "\<exists>es. handed a' = handed a @ es \<and> packets (nif_packet a) es = Some (nif_packet a')"
  using assms
proof (induction n arbitrary: a)
  case 0
  then show ?case by (intro exI [of _ "[]"]) simp
next
  case (Suc n)
  let ?v = "nc_vc_normal (ac_nif a)" and ?a0 = "a\<lparr>ac_dcount := ac_dcount a - 1\<rparr>"
  obtain w a1 where 1: "local_fetch_word m (reg_mema a + of_int ((ac_packetMaxSize a - ac_dcount a) * 4)) ?a0 = Some (w, a1)"
    using Suc.prems(1) by (auto simp: Let_def)
  note fr = local_frame [OF 1, simplified]
  let ?e = "entry (make_data_flit w (ac_dcount a1 = 0)) ?v"
  let ?a2 = "nif_send (make_data_flit w (ac_dcount a1 = 0)) ?v a1"
  have a': "(if ac_dcount ?a2 = 0 then Some (nif_goto CNIF_IDLE ?a2) else nif_read_block m n ?a2) = Some a'"
    using Suc.prems(1) 1 fr by (simp only: nif_read_block.simps Let_def Option.bind.simps prod.case)
  have h: "handed ?a2 = handed a @ [?e]" using fr by simp
  have p: "nif_packet a = Some (unat ?v)" using Suc.prems(2) by (simp add: nif_packet_def)
  show ?case
  proof (cases "ac_dcount a1 = 0")
    case True
    then have "a' = nif_goto CNIF_IDLE ?a2" using a' by simp
    then show ?thesis using h p data_packet [of ?v w True] True
      by (intro exI [of _ "[?e]"]) (simp add: packets_one nif_packet_def del: packets.simps(2) packet_step.simps)
  next
    case False
    then have "nif_read_block m n ?a2 = Some a'" "nif_next_state ?a2 = CNIF_BR_DATA" "nif_packet ?a2 = Some (unat ?v)"
      using a' fr Suc.prems(2) by (simp_all add: nif_packet_def)
    with Suc.IH [of ?a2] obtain es where "handed a' = handed ?a2 @ es" "packets (Some (unat ?v)) es = Some (nif_packet a')" by auto
    then show ?thesis using h p data_packet [of ?v w False] False
      by (intro exI [of _ "?e # es"]) (simp del: packet_step.simps)
  qed
qed

lemma dma_data_packets:
  assumes "nif_dma_data m n a = Some a'" "nif_next_state a = CNIF_DMA_DATA"
  shows "\<exists>es. handed a' = handed a @ es \<and> packets (nif_packet a) es = Some (nif_packet a')"
  using assms
proof (induction n arbitrary: a)
  case 0
  then show ?case by (intro exI [of _ "[]"]) simp
next
  case (Suc n)
  let ?v = "nc_vc_dma (ac_nif a)" and ?a0 = "a\<lparr>ac_dcount := ac_dcount a - 1\<rparr>"
  obtain w a1 where 1: "local_fetch_word m (nc_dma_src (ac_nif a) + dma_block_off a +
      of_int ((ac_packetMaxSize a - ac_dcount a) * 4)) ?a0 = Some (w, a1)"
    using Suc.prems(1) by (auto simp: Let_def)
  note fr = local_frame [OF 1, simplified]
  let ?e = "entry (make_data_flit w (ac_dcount a1 = 0)) ?v"
  let ?a2 = "nif_send (make_data_flit w (ac_dcount a1 = 0)) ?v a1"
  have h: "handed ?a2 = handed a @ [?e]" using fr by simp
  have p: "nif_packet a = Some (unat ?v)" using Suc.prems(2) by (simp add: nif_packet_def)
  show ?case
  proof (cases "ac_dcount a1 = 0")
    case True
    then have "handed a' = handed ?a2" "nif_packet a' = None"
      using Suc.prems(1) 1 fr by (auto simp: Let_def nif_packet_def nif_goto_def handed_def split: if_splits)
    then show ?thesis using h p data_packet [of ?v w True] True
      by (intro exI [of _ "[?e]"]) (simp add: packets_one del: packets.simps(2) packet_step.simps)
  next
    case False
    then have "nif_dma_data m n ?a2 = Some a'" "nif_next_state ?a2 = CNIF_DMA_DATA" "nif_packet ?a2 = Some (unat ?v)"
      using Suc.prems 1 fr by (simp_all add: Let_def nif_packet_def)
    with Suc.IH [of ?a2] obtain es where "handed a' = handed ?a2 @ es" "packets (Some (unat ?v)) es = Some (nif_packet a')" by auto
    then show ?thesis using h p data_packet [of ?v w False] False
      by (intro exI [of _ "?e # es"]) (simp del: packet_step.simps)
  qed
qed

lemma write_block_packets:
  "nif_write_block m n a = Some a' \<Longrightarrow> nif_next_state a = CNIF_BW_DATA \<Longrightarrow> handed a' = handed a \<and> nif_packet a' = None"
proof (induction n arbitrary: a)
  case (Suc n)
  show ?case
  proof (cases "port_getData (ac_rx a)")
    case None
    with Suc show ?thesis by simp
  next
    case (Some t)
    obtain f v q where t: "t = (f, v, q)" by (cases t)
    obtain a1 where 1: "local_store_word m (reg_mema a + of_int ((ac_packetMaxSize a - ac_dcount a) * 4)) (fdata f) (a\<lparr>ac_rx := q\<rparr>) = Some a1"
      using Suc.prems(1) Some t by (auto simp: Let_def)
    let ?a2 = "a1\<lparr>ac_dcount := ac_dcount a1 - 1\<rparr>"
    have fr: "handed ?a2 = handed a" "nif_next_state ?a2 = CNIF_BW_DATA"
      using store_frame [OF 1] Suc.prems(2) by (simp_all add: handed_def)
    have "(if ac_dcount ?a2 = 0 then Some (after_store ?a2) else nif_write_block m n ?a2) = Some a'"
      using Suc.prems(1) Some t 1 by (simp only: nif_write_block.simps option.case prod.case Let_def Option.bind.simps)
    then show ?thesis using Suc.IH [of ?a2] fr after_store_packet [of ?a2] by (auto split: if_splits)
  qed
qed (simp add: nif_packet_def)

lemma nif_idle_packet: "nif_packet (nif_idle a) = None" "handed (nif_idle a) = handed a"
  if "nif_next_state a = CNIF_IDLE"
  using that by (auto simp: nif_idle_def nif_packet_def nif_goto_def handed_def Let_def split: option.splits prod.splits)

lemma send_goto: "nif_send f v (nif_goto st a) = nif_goto st (nif_send f v a)"
  by (cases a) (simp add: nif_send_def nif_goto_def)

lemma reply_head_eq:
  "nif_state a = CNIF_SR_HEAD \<Longrightarrow> nif_reply_head a =
     do { rdy \<leftarrow> nif_slaveReady (nc_vc_normal (ac_nif a)) a;
       Some (if rdy then nif_goto CNIF_SR_DATA (nif_send (make_head_flit (reg_mema a) MTYPE_SW
             (nc_vc_normal (ac_nif a)) (reg_dst a) (reg_src a) False) (nc_vc_normal (ac_nif a)) a)
         else a) }"
  "nif_state a = CNIF_BR_HEAD \<Longrightarrow> nif_reply_head a =
     do { rdy \<leftarrow> nif_slaveReady (nc_vc_normal (ac_nif a)) a;
       Some (if rdy then nif_goto CNIF_BR_DATA (nif_send (make_head_flit (reg_mema a) MTYPE_BW
             (nc_vc_normal (ac_nif a)) (reg_dst a) (reg_src a) False) (nc_vc_normal (ac_nif a)) a)
         else a) }"
  by (simp_all add: nif_reply_head_def Let_def send_goto cong: if_cong)

definition after_done :: "('k, 'c) accel \<Rightarrow> ('k, 'c) accel" where
  "after_done b = (if dma_after_done_en b \<and> nc_dma_len (ac_nif b) > 0
     then nif_goto CNIF_DMA_HEAD (b\<lparr>remain_dma_len := uint (nc_dma_len (ac_nif b))\<rparr>)
     else nif_goto CNIF_IDLE b)\<lparr>done_pending := False, dma_after_done_en := False\<rparr>"

lemma nif_done_eq:
  "nif_done a = do {
     rdy \<leftarrow> nif_slaveReady (nc_vc_done (ac_nif a)) a;
     Some (if rdy then after_done (nif_send (make_head_flit DONE_NOTIF MTYPE_DONE (nc_vc_done (ac_nif a)) (ac_node_ID a) 0 True)
         (nc_vc_done (ac_nif a)) a) else a) }"
  unfolding nif_done_def after_done_def Let_def by (rule refl)

lemma after_done_packet: "handed (after_done b) = handed b" "nif_packet (after_done b) = None"
  by (simp_all add: after_done_def nif_packet_def nif_goto_def handed_def)

lemma state_step_packets:
  assumes "nif_state_step m (nif_state a) a = Some a'" "nif_next_state a = nif_state a"
  shows "\<exists>es. handed a' = handed a @ es \<and> packets (nif_packet a) es = Some (nif_packet a')"
proof (cases "nif_state a")
  case CNIF_IDLE
  then show ?thesis using assms nif_idle_packet [of a] by (intro exI [of _ "[]"]) (auto simp: nif_packet_def)
next
  case CNIF_ERROR
  then show ?thesis using assms by (intro exI [of _ "[]"]) simp
next
  case CNIF_SR_HEAD
  then show ?thesis using assms
    by (intro head_step [where f = "nif_goto CNIF_SR_DATA" and vch = "nc_vc_normal (ac_nif a)" and x = "reg_mema a" and
          mt = MTYPE_SW and src = "reg_dst a" and dst = "reg_src a" and tail = False])
      (simp_all add: reply_head_eq nif_packet_def)
next
  case CNIF_BR_HEAD
  then show ?thesis using assms
    by (intro head_step [where f = "nif_goto CNIF_BR_DATA" and vch = "nc_vc_normal (ac_nif a)" and x = "reg_mema a" and
          mt = MTYPE_BW and src = "reg_dst a" and dst = "reg_src a" and tail = False])
      (simp_all add: reply_head_eq nif_packet_def)
next
  case CNIF_SR_DATA
  then obtain w a1 where 1: "local_fetch_word m (reg_mema a) a = Some (w, a1)"
    "a' = nif_goto CNIF_IDLE (nif_send (make_data_flit w True) (nc_vc_normal (ac_nif a1)) a1)"
    using assms by (auto simp: nif_read_single_def)
  then show ?thesis using local_frame [OF 1(1)] CNIF_SR_DATA assms(2) data_packet [of "nc_vc_normal (ac_nif a)" w True]
    by (intro exI [of _ "[entry (make_data_flit w True) (nc_vc_normal (ac_nif a))]"])
      (simp add: packets_one nif_packet_def del: packets.simps(2) packet_step.simps)
next
  case CNIF_BR_DATA
  then show ?thesis using assms read_block_packets [of m "ac_bandwidth a" a a'] by simp
next
  case CNIF_SW_DATA
  have "handed a' = handed a \<and> nif_packet a' = None"
  proof (cases "port_getData (ac_rx a)")
    case None
    then show ?thesis using assms CNIF_SW_DATA by (simp add: nif_write_single_def nif_packet_def)
  next
    case (Some t)
    obtain f v q where t: "t = (f, v, q)" by (cases t)
    then obtain a1 where "local_store_word m (reg_mema a) (fdata f) (a\<lparr>ac_rx := q\<rparr>) = Some a1" "a' = after_store a1"
      using assms Some CNIF_SW_DATA by (auto simp: nif_write_single_def)
    then show ?thesis using store_frame [of m _ _ "a\<lparr>ac_rx := q\<rparr>" a1] after_store_packet [of a1] by simp
  qed
  then show ?thesis using CNIF_SW_DATA assms(2) by (intro exI [of _ "[]"]) (simp add: nif_packet_def)
next
  case CNIF_BW_DATA
  then show ?thesis using assms write_block_packets [of m "ac_bandwidth a" a a'] by (intro exI [of _ "[]"]) (simp add: nif_packet_def)
next
  case CNIF_DMA_HEAD
  then show ?thesis using assms
    by (intro head_step [where f = "\<lambda>b. (nif_goto CNIF_DMA_DATA b)\<lparr>ac_dcount := ac_packetMaxSize a\<rparr>" and
          vch = "nc_vc_dma (ac_nif a)" and x = "getDMADstAddr (ac_nif a) + dma_block_off a" and
          mt = MTYPE_BW and src = "reg_dst a" and dst = "getDMADstID (ac_nif a)" and tail = False])
      (simp_all add: nif_dma_head_def Let_def nif_packet_def)
next
  case CNIF_DMA_DATA
  then show ?thesis using assms dma_data_packets [of m "ac_bandwidth a" a a'] by simp
next
  case CNIF_DMA_DONE
  then show ?thesis using assms
    by (intro head_step [where f = "nif_goto CNIF_IDLE" and vch = "nc_vc_dmadone (ac_nif a)" and x = DMAC_NOTIF and
          mt = MTYPE_DONE and src = "reg_dst a" and dst = "reg_src a" and tail = True])
      (simp_all add: nif_dma_done_def Let_def nif_packet_def)
next
  case CNIF_DONE
  then show ?thesis using assms
    by (intro head_step [where f = after_done and vch = "nc_vc_done (ac_nif a)" and x = DONE_NOTIF and
          mt = MTYPE_DONE and src = "ac_node_ID a" and dst = 0 and tail = True])
      (simp_all add: nif_done_eq after_done_packet, simp add: nif_packet_def)
qed

lemma update_packet: "nif_packet (nif_update a) = nif_packet a" "nif_next_state (nif_update a) = nif_state (nif_update a)"
  by (simp_all add: nif_update_def nif_packet_def nif_goto_def Let_def)

lemma nif_step_packets:
  assumes "nif_step m a = Some a'" "nif_next_state a = nif_state a"
  shows "\<exists>es. handed a' = handed a @ es \<and> packets (nif_packet a) es = Some (nif_packet a')"
    "nif_next_state a' = nif_state a'"
proof -
  have "(a' = a \<and> nif_state a = CNIF_ERROR) \<or> (\<exists>a1. nif_state_step m (nif_state a) a = Some a1 \<and> a' = nif_update a1)"
    using assms(1) by (auto simp: nif_step_def split: if_splits)
  then show "\<exists>es. handed a' = handed a @ es \<and> packets (nif_packet a) es = Some (nif_packet a')"
    "nif_next_state a' = nif_state a'"
    using state_step_packets [of m a] assms(2) by (auto simp: update_packet intro: exI [of _ "[]"])
qed

section \<open>Runs of an accelerator\<close>

text \<open>
  From an idle interface on, the router delivers and forwards flits as it likes (\<open>net\<close>), the interface
  makes its steps, the core changes its own state and signals that it is done; \<open>tr\<close> are the flits
  handed to the router.
\<close>

inductive accel_run :: "('k, 'c) core_if \<Rightarrow> ('k, 'c) accel \<Rightarrow> flit_entry list \<Rightarrow> bool" for m where
  init: "nif_state a = CNIF_IDLE \<Longrightarrow> nif_next_state a = CNIF_IDLE \<Longrightarrow> accel_run m a []"
| net: "accel_run m a tr \<Longrightarrow> accel_run m (a\<lparr>ac_router := r, ac_rx := q\<rparr>) tr"
| nif: "accel_run m a tr \<Longrightarrow> nif_step m a = Some a' \<Longrightarrow> handed a' = handed a @ es \<Longrightarrow> accel_run m a' (tr @ es)"
| core: "accel_run m a tr \<Longrightarrow> accel_run m (a\<lparr>ac_core := c\<rparr>) tr"
| sig: "accel_run m a tr \<Longrightarrow> accel_run m (done_signal d a) tr"

lemma accel_run_packets:
  "accel_run m a tr \<Longrightarrow> nif_next_state a = nif_state a \<and> packets None tr = Some (nif_packet a)"
proof (induction rule: accel_run.induct)
  case (nif a tr a' es)
  then obtain es' where "handed a' = handed a @ es'" "packets (nif_packet a) es' = Some (nif_packet a')"
    "nif_next_state a' = nif_state a'" using nif_step_packets [of m a a'] by auto
  with nif show ?case by (simp add: packets_append)
qed (auto simp: nif_packet_def done_signal_def)

text \<open>A step of the accelerator is a piece of a run.\<close>

lemma accel_router_run:
  "accel_run m a tr \<Longrightarrow> accel_router now n a = Some (up, down, a') \<Longrightarrow> accel_run m a' tr"
proof (induction n arbitrary: a up down)
  case (Suc n)
  obtain out r where r: "Router_step now (ac_router a) = Some (out, r)" using Suc.prems(2) by auto
  then obtain up' down' where "accel_router now n (a\<lparr>ac_router := r, ac_rx := ac_rx a @ out Local\<rparr>) = Some (up', down', a')"
    using Suc.prems(2) by auto
  with Suc.IH [OF accel_run.net [OF Suc.prems(1)]] show ?case by blast
qed simp

lemma CubeAccelerator_step_run:
  assumes "accel_run m a tr" "CubeAccelerator_step m now a = Some (up, down, a')"
  shows "\<exists>es. accel_run m a' (tr @ es)"
proof -
  obtain u1 d1 a1 a2 sig c where 1: "accel_router now (ac_bandwidth a) a = Some (u1, d1, a1)" "nif_step m a1 = Some a2"
    "a' = (case sig of None \<Rightarrow> a2\<lparr>ac_core := c\<rparr> | Some d \<Rightarrow> done_signal d (a2\<lparr>ac_core := c\<rparr>))"
    using assms(2) by (auto simp: CubeAccelerator_step_def Let_def)
  have r: "accel_run m a1 tr" by (rule accel_router_run [OF assms(1) 1(1)])
  obtain es where "handed a2 = handed a1 @ es" using nif_step_packets [OF 1(2)] accel_run_packets [OF r] by auto
  then have "accel_run m a2 (tr @ es)" by (rule accel_run.nif [OF r 1(2)])
  then show ?thesis using 1(3) by (cases sig) (auto intro: accel_run.core accel_run.sig)
qed

section \<open>Properties\<close>

text \<open>A chip of 16 bytes of memory; a block of two words is written to it and read back.\<close>

definition demo_ram :: "(rram_obj, range_t) accel" where
  "demo_ram = \<lparr>
     ac_bus = snd (map_at_local_address (Range_new 0 16 [] MEM_READ_WRITE) (CoreObj RRamMem) 0
       (snd (map_at_local_address (Range_new NIF_CONFIG_BASE NIF_CONFIG_SIZE [] MEM_READ_WRITE) NifConfig NIF_CONFIG_BASE LocalMapper_new))),
     ac_core = Range_new 0 16 (replicate 16 0) MEM_READ_WRITE, ac_iready = replicate 8 False,
     ac_rx = [entry (make_head_flit 8 MTYPE_BW 0 0 1 False) 0, entry (make_data_flit 0xCAFE False) 0,
       entry (make_data_flit 0xBEEF True) 0, entry (make_head_flit 8 MTYPE_BR 0 0 1 True) 0],
     ac_router = \<lparr>router_id = 1, ic = \<lambda>d. undefined, oc = \<lambda>d. undefined, rx = \<lambda>d. [], icLocalRdy = replicate 8 True,
       oc_last_sender = \<lambda>d. None, close_pending = \<lambda>d. False, sender_update_time = 0\<rparr>,
     ac_node_ID = 1, ac_nif = NetworkInterfaceConfig_new True, reg_mema = 0, reg_mtype = 0, reg_vch = 0, reg_src = 0, reg_dst = 0,
     ac_dcount = 0, ac_packetMaxSize = 2, nif_state = CNIF_IDLE, nif_next_state = CNIF_IDLE, ac_dmac_en = True, ac_bandwidth = 1,
     remain_dma_len = 0, done_pending = False, dma_after_done_en = False\<rparr>"

lemma demo_ram_bus:
  "lm_ranges (ac_bus demo_ram) = [(Range_new NIF_CONFIG_BASE NIF_CONFIG_SIZE [] MEM_READ_WRITE, NifConfig),
     (Range_new 0 16 [] MEM_READ_WRITE, CoreObj RRamMem)]"
  "lm_last (ac_bus demo_ram) = None"
  by (simp_all add: demo_ram_def map_at_local_address_def lm_add_range_def LocalMapper_new_def Range_new_def overlaps_def)

lemma demo_ram_wf: "local_wf (ac_bus demo_ram)"
proof -
  have "\<not> (incorporates (Range_new NIF_CONFIG_BASE NIF_CONFIG_SIZE [] MEM_READ_WRITE) a \<and> incorporates (Range_new 0 16 [] MEM_READ_WRITE) a)" for a
    by (auto simp: incorporates_def Range_new_def word_le_nat_alt word_less_nat_alt)
  then show ?thesis by (auto simp: local_wf_def demo_ram_bus less_Suc_eq)
qed

lemma demo_ram_ok: "\<forall>y \<in> set (slots 8 2). bus_ok rram_ok (acc_view demo_ram) y"
  using demo_ram_wf
  by (simp add: eval_nat_numeral bus_ok_def acc_view_def demo_ram_bus)
    (simp add: incorporates_def Range_new_def demo_ram_def rram_ok_def range_ok_def)

text \<open>
  C8. A chip of memory with an idle interface receives a packet that writes a block of words and a
  packet that reads a block at the same address. After two bursts and three cycles it has handed
  the router one packet: a block write addressed to the sender of the read, on the configured
  channel, whose words are the ones written; the memory holds them, and no other word has
  changed. The number of words moved per cycle plays no role.
\<close>
theorem remote_block_roundtrip:
  assumes "chip_idle a" "0 < ac_bandwidth a" "ac_packetMaxSize a = int (length ws)" "ws \<noteq> []" "length ws \<le> 2 ^ 30"
    "ac_rx a = e0 # es @ [e1]" "map (\<lambda>e. fdata (e_flit e)) es = ws"
    "ftype (e_flit e0) = FTYPE_HEAD" "decode_headflit (e_flit e0) = (x, MTYPE_BW, v0, s0, d0)"
    "ftype (e_flit e1) = FTYPE_HEADTAIL" "decode_headflit (e_flit e1) = (x, MTYPE_BR, v1, s1, d1)"
    "v = nc_vc_normal (ac_nif a)" "nif_slaveReady v a = Some True"
    "\<forall>y \<in> set (slots x (length ws)). bus_ok rram_ok (acc_view a) y"
  shows "\<exists>a'. nif_cycles (RemoteRam_core hb) (2 * burst_cycles (length ws) (ac_bandwidth a) + 3) a = Some a' \<and>
    chip_idle a' \<and> ac_rx a' = [] \<and>
    handed a' = handed a @ entry (make_head_flit x MTYPE_BW v d1 s1 False) v # block_flits v ws \<and>
    fetch_block (bus_rd (rram_word hb)) (acc_view a') x (length ws) = Some ws \<and>
    (\<forall>y. bus_ok rram_ok (acc_view a) y \<and> y \<notin> set (slots x (length ws)) \<longrightarrow>
      bus_rd (rram_word hb) (acc_view a') y = bus_rd (rram_word hb) (acc_view a) y)"
  by (rule rram.block_roundtrip [OF assms(1-7) disjI1 [OF assms(8)] assms(9) disjI2 [OF assms(10)] assms(11-14)])

theorem remote_block_roundtrip_witness:
  "\<exists>a'. nif_cycles (RemoteRam_core False) 7 demo_ram = Some a' \<and>
    handed a' = [entry (make_head_flit 8 MTYPE_BW 0 1 0 False) 0, entry (make_data_flit 0xCAFE False) 0, entry (make_data_flit 0xBEEF True) 0]"
proof -
  have f: "ac_rx demo_ram = entry (make_head_flit 8 MTYPE_BW 0 0 1 False) 0 #
      [entry (make_data_flit 0xCAFE False) 0, entry (make_data_flit 0xBEEF True) 0] @ [entry (make_head_flit 8 MTYPE_BR 0 0 1 True) 0]"
    "ac_packetMaxSize demo_ram = int (length [0xCAFE, 0xBEEF :: u32])" "ac_bandwidth demo_ram = 1" "chip_idle demo_ram" "handed demo_ram = []"
    "nc_vc_normal (ac_nif demo_ram) = 0" "nif_slaveReady 0 demo_ram = Some True"
    by (simp_all add: demo_ram_def chip_idle_def NetworkInterfaceConfig_new_def isDMAKicked_def handed_def nif_slaveReady_def port_isReady_def)
  have d: "decode_headflit (make_head_flit 8 MTYPE_BW 0 0 1 False) = (8, MTYPE_BW, 0, 0, 1)"
    "decode_headflit (make_head_flit 8 MTYPE_BR 0 0 1 True) = (8, MTYPE_BR, 0, 0, 1)"
    by (simp_all add: decode_headflit_def make_head_flit_def)
  have b: "burst_cycles 2 1 = 2" by (simp add: burst_cycles_def)
  have "\<exists>a'. nif_cycles (RemoteRam_core False) (2 * burst_cycles (length [0xCAFE, 0xBEEF :: u32]) (ac_bandwidth demo_ram) + 3) demo_ram = Some a' \<and>
    chip_idle a' \<and> ac_rx a' = [] \<and>
    handed a' = handed demo_ram @ entry (make_head_flit 8 MTYPE_BW 0 1 0 False) 0 # block_flits 0 [0xCAFE, 0xBEEF] \<and>
    fetch_block (bus_rd (rram_word False)) (acc_view a') 8 (length [0xCAFE, 0xBEEF :: u32]) = Some [0xCAFE, 0xBEEF] \<and>
    (\<forall>y. bus_ok rram_ok (acc_view demo_ram) y \<and> y \<notin> set (slots 8 (length [0xCAFE, 0xBEEF :: u32])) \<longrightarrow>
      bus_rd (rram_word False) (acc_view a') y = bus_rd (rram_word False) (acc_view demo_ram) y)"
  proof (rule remote_block_roundtrip)
    show "ac_rx demo_ram = entry (make_head_flit 8 MTYPE_BW 0 0 1 False) 0 #
      [entry (make_data_flit 0xCAFE False) 0, entry (make_data_flit 0xBEEF True) 0] @ [entry (make_head_flit 8 MTYPE_BR 0 0 1 True) 0]"
      by (rule f(1))
    show "\<forall>y \<in> set (slots 8 (length [0xCAFE, 0xBEEF :: u32])). bus_ok rram_ok (acc_view demo_ram) y" using demo_ram_ok by (simp add: eval_nat_numeral)
    show "decode_headflit (e_flit (entry (make_head_flit 8 MTYPE_BW 0 0 1 False) 0)) = (8, MTYPE_BW, 0, 0, 1)"
      "decode_headflit (e_flit (entry (make_head_flit 8 MTYPE_BR 0 0 1 True) 0)) = (8, MTYPE_BR, 0, 0, 1)"
      using d by (simp_all add: entry_def)
  qed (use f in \<open>simp_all add: entry_def make_data_flit_def make_head_flit_def\<close>)
  then show ?thesis using f(3,5) b by (auto simp: block_flits_def eval_nat_numeral)
qed

text \<open>
  C9. Whatever packets an accelerator receives, whatever its core does and whenever it signals that
  it is done, the flits its interface has handed to the router are whole packets, one after the
  other, each on one virtual channel, and the packet it is in the middle of, if any, is on the
  channel its state says.
\<close>
theorem accelerator_sends_packets:
  assumes "accel_run m a tr"
  shows "packets None tr = Some (nif_packet a)"
  using accel_run_packets [OF assms] by blast

lemma demo_ram_run:
  "\<exists>a. accel_run (RemoteRam_core False) a [entry (make_head_flit 0 MTYPE_DONE 0 1 0 True) 0]"
proof -
  have i: "nif_state demo_ram = CNIF_IDLE" "nif_next_state demo_ram = CNIF_IDLE" by (simp_all add: demo_ram_def)
  let ?a0 = "(done_signal False demo_ram)\<lparr>ac_router := ac_router demo_ram, ac_rx := []\<rparr>"
  have r: "accel_run (RemoteRam_core False) ?a0 []" by (intro accel_run.net accel_run.sig accel_run.init i)
  have 1: "nif_step (RemoteRam_core False) ?a0 = Some (nif_update ?a0)"
    by (simp add: nif_step_def done_signal_def nif_idle_def demo_ram_def)
  have "accel_run (RemoteRam_core False) (nif_update ?a0) ([] @ [])"
    by (rule accel_run.nif [OF r 1]) simp
  moreover have "\<exists>a2. nif_step (RemoteRam_core False) (nif_update ?a0) = Some a2 \<and>
      handed a2 = handed (nif_update ?a0) @ [entry (make_head_flit 0 MTYPE_DONE 0 1 0 True) 0]"
    by (simp add: nif_step_def nif_update_def done_signal_def demo_ram_def nif_goto_def nif_done_def nif_slaveReady_def
        port_isReady_def nif_send_def handed_def port_pushData_def entry_def NetworkInterfaceConfig_new_def Let_def)
  ultimately show ?thesis using accel_run.nif [of "RemoteRam_core False" "nif_update ?a0" "[] @ []"] by force
qed

theorem accelerator_sends_packets_witness:
  "\<exists>a. nif_packet a = None \<and> accel_run (RemoteRam_core False) a [entry (make_head_flit 0 MTYPE_DONE 0 1 0 True) 0]"
proof -
  obtain a where a: "accel_run (RemoteRam_core False) a [entry (make_head_flit 0 MTYPE_DONE 0 1 0 True) 0]" using demo_ram_run by blast
  from accelerator_sends_packets [OF a] have "nif_packet a = None" by (simp add: entry_def make_head_flit_def)
  with a show ?thesis by blast
qed

end
