(* ===== verification/Toposort.thy ===== *)
theory Toposort
  imports Prelude
begin

text \<open>
  The topological sort of \<open>PEArray::analyze_dataflow\<close> (\<open>cmamodules.cc\<close>), over any type of nodes.

  \<open>in_degrees\<close> is the \<open>std::map\<close> from nodes to the number of inputs still missing. The map is walked
  in the order of its keys, which are pointers, so the order is a parameter: \<open>order\<close> lists every
  node once. A node whose count is 0 goes to \<open>del_list\<close>, and to the sorted list if some successor
  uses it; the counts of these successors are decremented at once, and \<open>operator[]\<close> puts a node back
  into the map that is no longer there. After a walk everything on \<open>del_list\<close> is erased; the walks
  end when the map did not become smaller.
\<close>

record 'n sorting =
  in_degrees :: "'n \<Rightarrow> int option"
  del_list :: "'n list"
  sorted_list :: "'n list"

definition decrement :: "('n \<Rightarrow> int option) \<Rightarrow> 'n \<Rightarrow> ('n \<Rightarrow> int option)" where
  "decrement m q = m(q \<mapsto> (case m q of None \<Rightarrow> 0 | Some d \<Rightarrow> d) - 1)"

definition sort_visit :: "('n \<Rightarrow> 'n list) \<Rightarrow> 'n sorting \<Rightarrow> 'n \<Rightarrow> 'n sorting" where
  "sort_visit succs s p =
     (if in_degrees s p = Some 0 then
        let s1 = s\<lparr>del_list := del_list s @ [p]\<rparr> in
        if succs p \<noteq> [] then
          s1\<lparr>sorted_list := sorted_list s1 @ [p], in_degrees := foldl decrement (in_degrees s1) (succs p)\<rparr>
        else s1
      else s)"

definition sort_pass :: "'n list \<Rightarrow> ('n \<Rightarrow> 'n list) \<Rightarrow> 'n sorting \<Rightarrow> 'n sorting" where
  "sort_pass order succs s =
     (let s1 = foldl (sort_visit succs) s order in
      s1\<lparr>in_degrees := foldl (\<lambda>m p. m(p := None)) (in_degrees s1) (del_list s1)\<rparr>)"

definition map_size :: "'n list \<Rightarrow> ('n \<Rightarrow> int option) \<Rightarrow> nat" where
  "map_size order m = length (filter (\<lambda>p. m p \<noteq> None) order)"

function sort_loop :: "'n list \<Rightarrow> ('n \<Rightarrow> 'n list) \<Rightarrow> 'n sorting \<Rightarrow> 'n sorting" where
  "sort_loop order succs s =
     (let s1 = sort_pass order succs s in
      if map_size order (in_degrees s1) < map_size order (in_degrees s) then sort_loop order succs s1 else s1)"
  by pat_completeness auto
termination
  by (relation "measure (\<lambda>(order, succs, s). map_size order (in_degrees s))") auto

declare sort_loop.simps [simp del]

section \<open>Counting edges\<close>

definition edges_from :: "('n \<Rightarrow> 'n list) \<Rightarrow> 'n set \<Rightarrow> 'n \<Rightarrow> int" where
  "edges_from succs A q = (\<Sum>p \<in> A. int (count_list (succs p) q))"

lemma decrement_other: "q \<notin> set qs \<Longrightarrow> foldl decrement m qs q = m q"
  by (induction qs arbitrary: m) (auto simp: decrement_def)

lemma decrement_count:
  "m q = Some d \<Longrightarrow> foldl decrement m qs q = Some (d - int (count_list qs q))"
  by (induction qs arbitrary: m d) (auto simp: decrement_def)

lemma erase_all: "foldl (\<lambda>m p. m(p := None)) m ps q = (if q \<in> set ps then None else m q)"
  by (induction ps arbitrary: m) auto

lemma edges_from_mono: "finite B \<Longrightarrow> A \<subseteq> B \<Longrightarrow> edges_from succs A q \<le> edges_from succs B q"
  by (simp add: edges_from_def sum_mono2)

lemma edges_from_insert:
  "finite A \<Longrightarrow> p \<notin> A \<Longrightarrow> edges_from succs (insert p A) q = edges_from succs A q + int (count_list (succs p) q)"
  by (simp add: edges_from_def)

text \<open>Every node of the list got all its inputs from nodes before it.\<close>

definition supplied :: "('n \<Rightarrow> 'n list) \<Rightarrow> ('n \<Rightarrow> int) \<Rightarrow> 'n list \<Rightarrow> bool" where
  "supplied succs need ps \<longleftrightarrow> (\<forall>xs p ys. ps = xs @ p # ys \<longrightarrow> edges_from succs (set xs) p = need p)"

lemma supplied_snoc:
  assumes "supplied succs need ps" "edges_from succs (set ps) p = need p"
  shows "supplied succs need (ps @ [p])"
  unfolding supplied_def
proof (intro allI impI)
  fix xs q ys
  assume "ps @ [p] = xs @ q # ys"
  then consider "ys = []" "xs = ps" "q = p" | zs where "ps = xs @ q # zs"
    by (cases ys rule: rev_cases) auto
  then show "edges_from succs (set xs) q = need q"
    using assms by cases (auto simp: supplied_def)
qed

section \<open>The sort\<close>

text \<open>
  The contract of a graph to be sorted: \<open>need\<close> is the count a node starts with, no node has more
  incoming edges than that.
\<close>

locale degree_graph =
  fixes order :: "'n list" and succs :: "'n \<Rightarrow> 'n list" and need :: "'n \<Rightarrow> int"
  assumes order_distinct: "distinct order"
    and succs_in: "p \<in> set order \<Longrightarrow> set (succs p) \<subseteq> set order"
    and need_bound: "q \<in> set order \<Longrightarrow> edges_from succs (set order) q \<le> need q"
begin

definition sorting_inv :: "'n set \<Rightarrow> 'n sorting \<Rightarrow> bool" where
  "sorting_inv E s \<longleftrightarrow> distinct (del_list s) \<and> set (del_list s) \<subseteq> set order \<and> E \<subseteq> set (del_list s) \<and>
     sorted_list s = filter (\<lambda>p. succs p \<noteq> []) (del_list s) \<and>
     (\<forall>q. in_degrees s q = (if q \<in> set order - E then Some (need q - edges_from succs (set (del_list s)) q) else None)) \<and>
     supplied succs need (del_list s)"

lemma no_more_edges:
  assumes "supplied succs need ps" "set ps \<subseteq> set order" "p \<in> set order" "p \<notin> set ps" "q \<in> set ps"
  shows "q \<notin> set (succs p)"
proof
  assume q: "q \<in> set (succs p)"
  obtain xs ys where ps: "ps = xs @ q # ys" using assms(5) by (meson split_list)
  have full: "edges_from succs (set xs) q = need q" using assms(1) ps by (simp add: supplied_def)
  have "edges_from succs (insert p (set xs)) q \<le> edges_from succs (set order) q"
    by (rule edges_from_mono) (use assms ps in auto)
  moreover have "edges_from succs (insert p (set xs)) q = need q + int (count_list (succs p) q)"
    using assms(4) ps full by (simp add: edges_from_insert)
  moreover have "count_list (succs p) q \<noteq> 0" using q by (simp add: count_list_0_iff)
  ultimately show False using need_bound [of q] assms(2) ps by simp
qed

lemma visit_keeps:
  assumes i: "sorting_inv E s" and p: "p \<in> set order" "p \<in> set (del_list s) \<Longrightarrow> p \<in> E"
  shows "sorting_inv E (sort_visit succs s p) \<and> set (del_list (sort_visit succs s p)) \<subseteq> insert p (set (del_list s)) \<and>
    (in_degrees s p = Some 0 \<longrightarrow> p \<in> set (del_list (sort_visit succs s p))) \<and>
    set (del_list s) \<subseteq> set (del_list (sort_visit succs s p))"
proof (cases "in_degrees s p = Some 0")
  case True
  then have new: "p \<notin> E" "p \<notin> set (del_list s)" "need p = edges_from succs (set (del_list s)) p"
    using i p by (auto simp: sorting_inv_def split: if_splits)
  have kept: "q \<notin> set (succs p)" if "q \<in> E" for q
    using no_more_edges [of "del_list s" p q] i p(1) new(2) that by (auto simp: sorting_inv_def)
  have out: "q \<in> set order" if "q \<in> set (succs p)" for q using succs_in [OF p(1)] that by auto
  have deg: "foldl decrement (in_degrees s) (succs p) q =
      (if q \<in> set order - E then Some (need q - edges_from succs (insert p (set (del_list s))) q) else None)" for q
  proof (cases "q \<in> set order - E")
    case True
    then have "in_degrees s q = Some (need q - edges_from succs (set (del_list s)) q)"
      using i by (simp add: sorting_inv_def)
    from decrement_count [of "in_degrees s" q _ "succs p", OF this] True new(2) show ?thesis
      by (simp add: edges_from_insert algebra_simps)
  next
    case False
    then have "q \<notin> set (succs p)" using kept out by blast
    with False i show ?thesis by (auto simp: decrement_other sorting_inv_def)
  qed
  have sup: "supplied succs need (del_list s @ [p])"
    using i new(3) by (simp add: sorting_inv_def supplied_snoc)
  have "edges_from succs (insert p (set (del_list s))) q = edges_from succs (set (del_list s)) q" if "succs p = []" for q
    using that new(2) by (simp add: edges_from_insert)
  with True i p(1) new(2) sup deg show ?thesis
    by (auto simp: sort_visit_def sorting_inv_def Let_def)
next
  case False
  with i show ?thesis by (auto simp: sort_visit_def)
qed

lemma walk_keeps:
  assumes "distinct ps" "set ps \<subseteq> set order" "sorting_inv E s" "set (del_list s) \<inter> set ps \<subseteq> E"
  shows "sorting_inv E (foldl (sort_visit succs) s ps) \<and>
    set (del_list s) \<subseteq> set (del_list (foldl (sort_visit succs) s ps)) \<and>
    (set (del_list (foldl (sort_visit succs) s ps)) = set (del_list s) \<longrightarrow> (\<forall>p \<in> set ps. in_degrees s p \<noteq> Some 0 \<or> p \<in> set (del_list s)))"
  using assms
proof (induction ps arbitrary: s)
  case (Cons p ps)
  let ?s = "sort_visit succs s p"
  have v: "sorting_inv E ?s" "set (del_list ?s) \<subseteq> insert p (set (del_list s))"
    "in_degrees s p = Some 0 \<longrightarrow> p \<in> set (del_list ?s)" "set (del_list s) \<subseteq> set (del_list ?s)"
    using visit_keeps [of E s p] Cons.prems by auto
  have "set (del_list ?s) \<inter> set ps \<subseteq> E" using v(2) Cons.prems(1,4) by auto
  from Cons.IH [OF _ _ v(1) this] Cons.prems(1,2)
  have h: "sorting_inv E (foldl (sort_visit succs) ?s ps)"
    "set (del_list ?s) \<subseteq> set (del_list (foldl (sort_visit succs) ?s ps))"
    "set (del_list (foldl (sort_visit succs) ?s ps)) = set (del_list ?s) \<longrightarrow> (\<forall>p \<in> set ps. in_degrees ?s p \<noteq> Some 0 \<or> p \<in> set (del_list ?s))"
    by auto
  have same: "?s = s" if "in_degrees s p \<noteq> Some 0" using that by (simp add: sort_visit_def)
  have "p \<notin> set (del_list s)" if "in_degrees s p = Some 0"
    using that Cons.prems by (auto simp: sorting_inv_def)
  with h v same show ?case by (cases "in_degrees s p = Some 0") auto
qed simp

lemma pass_keeps:
  assumes "sorting_inv (set (del_list s)) s"
  shows "sorting_inv (set (del_list (sort_pass order succs s))) (sort_pass order succs s) \<and>
    set (del_list s) \<subseteq> set (del_list (sort_pass order succs s)) \<and>
    (set (del_list (sort_pass order succs s)) = set (del_list s) \<longrightarrow> (\<forall>p \<in> set order. in_degrees s p \<noteq> Some 0))"
proof -
  let ?s = "foldl (sort_visit succs) s order"
  have w: "sorting_inv (set (del_list s)) ?s" "set (del_list s) \<subseteq> set (del_list ?s)"
    "set (del_list ?s) = set (del_list s) \<longrightarrow> (\<forall>p \<in> set order. in_degrees s p \<noteq> Some 0 \<or> p \<in> set (del_list s))"
    using walk_keeps [OF order_distinct subset_refl assms] by auto
  have d: "del_list (sort_pass order succs s) = del_list ?s" "sorted_list (sort_pass order succs s) = sorted_list ?s"
    by (simp_all add: sort_pass_def Let_def)
  have m: "in_degrees (sort_pass order succs s) q = (if q \<in> set (del_list ?s) then None else in_degrees ?s q)" for q
    by (simp add: sort_pass_def Let_def erase_all)
  have "in_degrees s p = None" if "p \<in> set (del_list s)" for p
    using assms that by (simp add: sorting_inv_def)
  with w d m show ?thesis by (auto simp: sorting_inv_def)
qed

lemma size_left:
  assumes "sorting_inv (set (del_list s)) s"
  shows "map_size order (in_degrees s) = length order - length (del_list s)"
proof -
  have "map_size order (in_degrees s) = length (filter (\<lambda>p. p \<notin> set (del_list s)) order)"
    using assms by (auto simp: map_size_def sorting_inv_def intro!: arg_cong [where f = length] filter_cong)
  also have "\<dots> = card (set order - set (del_list s))"
    using order_distinct by (metis distinct_card distinct_filter set_diff_eq set_filter)
  finally show ?thesis
    using assms order_distinct by (simp add: sorting_inv_def card_Diff_subset distinct_card)
qed

lemma loop_keeps:
  assumes "sorting_inv (set (del_list s)) s"
  shows "sorting_inv (set (del_list (sort_loop order succs s))) (sort_loop order succs s) \<and>
    (\<forall>p \<in> set order. in_degrees (sort_loop order succs s) p \<noteq> Some 0)"
  using assms
proof (induction "map_size order (in_degrees s)" arbitrary: s rule: less_induct)
  case less
  let ?s = "sort_pass order succs s"
  have k: "sorting_inv (set (del_list ?s)) ?s" "set (del_list s) \<subseteq> set (del_list ?s)"
    "set (del_list ?s) = set (del_list s) \<longrightarrow> (\<forall>p \<in> set order. in_degrees s p \<noteq> Some 0)"
    using pass_keeps [OF less.prems] by auto
  show ?case
  proof (cases "map_size order (in_degrees ?s) < map_size order (in_degrees s)")
    case True
    with less.hyps [OF True k(1)] show ?thesis by (simp add: sort_loop.simps [of order succs s] Let_def)
  next
    case False
    have d: "distinct (del_list s)" "distinct (del_list ?s)" "set (del_list ?s) \<subseteq> set order"
      using less.prems k(1) by (auto simp: sorting_inv_def)
    have "length (del_list ?s) \<le> length order" using d(2,3) order_distinct
      by (metis List.finite_set card_mono distinct_card)
    then have "length (del_list ?s) \<le> length (del_list s)"
      using False size_left [OF less.prems] size_left [OF k(1)] by linarith
    then have eq: "set (del_list ?s) = set (del_list s)"
      using k(2) d by (metis List.finite_set card_seteq distinct_card)
    with k(3) have "\<forall>p \<in> set order. in_degrees s p \<noteq> Some 0" by simp
    moreover have "in_degrees ?s p = in_degrees s p" for p
      using less.prems k(1) eq by (simp add: sorting_inv_def)
    ultimately show ?thesis using k(1) False by (simp add: sort_loop.simps [of order succs s] Let_def)
  qed
qed

text \<open>
  The sort of all nodes ends with the nodes whose inputs can all be supplied, in an order in which
  every node comes after its inputs; the sorted list holds the used ones among them.
\<close>

definition start :: "'n sorting" where
  "start = \<lparr>in_degrees = (\<lambda>q. if q \<in> set order then Some (need q) else None), del_list = [], sorted_list = []\<rparr>"

lemma sorted:
  defines "s \<equiv> sort_loop order succs start"
  shows "distinct (del_list s)" "set (del_list s) \<subseteq> set order"
    "sorted_list s = filter (\<lambda>p. succs p \<noteq> []) (del_list s)" "supplied succs need (del_list s)"
    "q \<in> set order \<Longrightarrow> edges_from succs (set (del_list s)) q = need q \<Longrightarrow> q \<in> set (del_list s)"
proof -
  have "sorting_inv (set (del_list start)) start"
    by (auto simp: start_def sorting_inv_def supplied_def edges_from_def)
  from loop_keeps [OF this] have l: "sorting_inv (set (del_list s)) s" "\<forall>p \<in> set order. in_degrees s p \<noteq> Some 0"
    by (simp_all add: s_def)
  then show "distinct (del_list s)" "set (del_list s) \<subseteq> set order"
    "sorted_list s = filter (\<lambda>p. succs p \<noteq> []) (del_list s)" "supplied succs need (del_list s)"
    by (simp_all add: sorting_inv_def)
  assume q: "q \<in> set order" "edges_from succs (set (del_list s)) q = need q"
  with l(2) have "in_degrees s q \<noteq> Some 0" by blast
  with q l(1) show "q \<in> set (del_list s)" by (auto simp: sorting_inv_def split: if_splits)
qed

end

end
