(* ===== verification/CMA_PE.thy ===== *)
theory CMA_PE
  imports Toposort "HOL-Library.Word"
begin

unbundle bit_operations_syntax

text \<open>
  \<open>cmamodules.h\<close> and \<open>cmamodules.cc\<close>, classes \<open>PENodeBase\<close> to \<open>CCSOTB2_PEArray\<close>: the array of processing
  elements of the CMA accelerator.

  A node of the array is named by the place the code keeps its object at: \<open>ALU x y\<close> is
  \<open>alus[x][y]\<close>, \<open>SEL x y i\<close> is \<open>alu_sels[x][y][i]\<close>, \<open>CH x y c\<close> is \<open>channels[x][y][0][c]\<close>
  (\<open>se_count\<close> is 1 and \<open>se_channels\<close> 4), \<open>PREG x y i\<close> is \<open>pregs[x][y][i]\<close>, and so on. \<open>SEL\<close> and
  \<open>CH\<close> are the objects of class \<open>MUX\<close>. The fields of the objects are functions of the node in
  the record of the array. \<open>obuf\<close> is the queue of the values a node offers, the front first.
  \<^const>\<open>None\<close> as a result is undefined behaviour of the code: a null pointer followed, the
  front of an empty queue taken, an array indexed outside, a shift by 32 or more.
\<close>

definition CMA_DWORD_MASK :: u32 where "CMA_DWORD_MASK = 0x1FFFFFF"
definition CMA_CARRY_MASK :: u32 where "CMA_CARRY_MASK = 0x1000000"
definition CMA_DATA_MASK :: u32 where "CMA_DATA_MASK = CMA_DWORD_MASK XOR CMA_CARRY_MASK"
definition CMA_CARYY_LSB :: nat where "CMA_CARYY_LSB = 24"
definition CMA_CONST_MASK :: u32 where "CMA_CONST_MASK = 0x001FFFF"

section \<open>The operations of an ALU\<close>

definition exec_nop :: "u32 \<Rightarrow> u32 \<Rightarrow> u32 option" where
  "exec_nop inA inB = Some 0"

definition exec_add :: "u32 \<Rightarrow> u32 \<Rightarrow> u32 option" where
  "exec_add inA inB = Some (CMA_DWORD_MASK AND (inA + inB))"

definition exec_sub :: "u32 \<Rightarrow> u32 \<Rightarrow> u32 option" where
  "exec_sub inA inB =
     (let tmpA = inA AND CMA_DWORD_MASK; tmpB = NOT (inB AND CMA_DWORD_MASK) AND CMA_DWORD_MASK in
      Some ((tmpA + tmpB + 1) AND CMA_DATA_MASK))"

definition exec_mult :: "u32 \<Rightarrow> u32 \<Rightarrow> u32 option" where
  "exec_mult inA inB =
     (let tmpA = inA AND CMA_DATA_MASK; carryA = inA AND CMA_CARRY_MASK;
          tmpB = inB AND CMA_DATA_MASK; carryB = inB AND CMA_CARRY_MASK in
      Some ((carryA XOR carryB) OR ((tmpA * tmpB) AND CMA_DATA_MASK)))"

definition exec_sl :: "u32 \<Rightarrow> u32 \<Rightarrow> u32 option" where
  "exec_sl inA inB = (if unat inB < 32 then Some (CMA_DWORD_MASK AND push_bit (unat inB) inA) else None)"

definition exec_sr :: "u32 \<Rightarrow> u32 \<Rightarrow> u32 option" where
  "exec_sr inA inB = (if unat inB < 32 then Some (CMA_DWORD_MASK AND drop_bit (unat inB) inA) else None)"

definition exec_sra :: "u32 \<Rightarrow> u32 \<Rightarrow> u32 option" where
  "exec_sra inA inB =
     (if inA AND CMA_CARRY_MASK \<noteq> 0 then
        if unat inB > CMA_CARYY_LSB then Some 0
        else
          let tmp = drop_bit (unat inB) inA;
              tmp = tmp OR push_bit (CMA_CARYY_LSB - unat inB) (push_bit (unat inB) 1 - 1)
          in Some (tmp OR push_bit CMA_CARYY_LSB 1)
      else exec_sr inA inB)"

definition exec_sel :: "u32 \<Rightarrow> u32 \<Rightarrow> u32 option" where
  "exec_sel inA inB = Some (if inA AND CMA_CARRY_MASK = 0 then inA else inB)"

definition exec_cat :: "u32 \<Rightarrow> u32 \<Rightarrow> u32 option" where
  "exec_cat inA inB = Some inA"

definition exec_not :: "u32 \<Rightarrow> u32 \<Rightarrow> u32 option" where
  "exec_not inA inB = Some (NOT inA)"

definition exec_and :: "u32 \<Rightarrow> u32 \<Rightarrow> u32 option" where
  "exec_and inA inB = Some (inA AND inB)"

definition exec_or :: "u32 \<Rightarrow> u32 \<Rightarrow> u32 option" where
  "exec_or inA inB = Some (inA OR inB)"

definition exec_xor :: "u32 \<Rightarrow> u32 \<Rightarrow> u32 option" where
  "exec_xor inA inB = Some (inA XOR inB)"

definition exec_eql :: "u32 \<Rightarrow> u32 \<Rightarrow> u32 option" where
  "exec_eql inA inB =
     (let tmpA = inA AND CMA_DATA_MASK; tmpB = inB AND CMA_DATA_MASK in
      Some (if tmpA = tmpB then push_bit CMA_CARYY_LSB 1 OR tmpA else 0))"

definition gt_flag :: "u32 \<Rightarrow> u32 \<Rightarrow> u32" where
  "gt_flag inA inB =
     (let tmpA = inA AND CMA_DATA_MASK; carryA = (inA AND CMA_CARRY_MASK \<noteq> 0);
          tmpB = inB AND CMA_DATA_MASK; carryB = (inB AND CMA_CARRY_MASK \<noteq> 0) in
      if (\<not> carryA \<and> \<not> carryB \<and> tmpA > tmpB) \<or> (\<not> carryA \<and> carryB) \<or> (carryA \<and> carryB \<and> tmpA < tmpB)
      then push_bit CMA_CARYY_LSB 1 else 0)"

definition exec_gt :: "u32 \<Rightarrow> u32 \<Rightarrow> u32 option" where
  "exec_gt inA inB = Some (gt_flag inA inB)"

definition exec_lt :: "u32 \<Rightarrow> u32 \<Rightarrow> u32 option" where
  "exec_lt inA inB = Some (if gt_flag inA inB \<noteq> 0 then 0 else push_bit CMA_CARYY_LSB 1)"

definition PE_op_table :: "(u32 \<Rightarrow> u32 \<Rightarrow> u32 option) list" where
  "PE_op_table =
     [exec_nop, exec_add, exec_sub, exec_mult, exec_sl, exec_sr, exec_sra, exec_sel,
      exec_cat, exec_not, exec_and, exec_or, exec_xor, exec_eql, exec_gt, exec_lt]"

definition CMA_OP_SIZE :: nat where "CMA_OP_SIZE = 16"

section \<open>The nodes and their connections\<close>

datatype pe_node =
    ALU nat nat
  | SEL nat nat nat
  | CH nat nat nat
  | CREG nat
  | PREG nat nat nat
  | LAUNCH nat
  | GATHER nat

fun is_mux :: "pe_node \<Rightarrow> bool" where
  "is_mux (SEL x y i) = True"
| "is_mux (CH x y c) = True"
| "is_mux _ = False"

definition IN_SE_NORTH :: nat where "IN_SE_NORTH = 0"
definition IN_SE_SOUTH :: nat where "IN_SE_SOUTH = 1"
definition IN_SE_EAST :: nat where "IN_SE_EAST = 2"
definition IN_SE_WEST :: nat where "IN_SE_WEST = 3"
definition IN_DL_S :: nat where "IN_DL_S = 4"
definition IN_DL_SE :: nat where "IN_DL_SE = 5"
definition IN_DL_SW :: nat where "IN_DL_SW = 6"
definition OUT_SE_NORTH :: nat where "OUT_SE_NORTH = 0"
definition OUT_SE_SOUTH :: nat where "OUT_SE_SOUTH = 1"
definition OUT_SE_EAST :: nat where "OUT_SE_EAST = 2"
definition OUT_SE_WEST :: nat where "OUT_SE_WEST = 3"

definition OPPOSITE_CHANNEL :: "nat list" where
  "OPPOSITE_CHANNEL = [OUT_SE_SOUTH, OUT_SE_NORTH, OUT_SE_WEST, OUT_SE_EAST]"

definition CONNECT_COORD :: "(int \<times> int) list" where
  "CONNECT_COORD = [(0, 1), (0, -1), (1, 0), (-1, 0), (0, -1), (1, -1), (-1, -1)]"

lemmas direction_defs [cube_defs] =
  IN_SE_NORTH_def IN_SE_SOUTH_def IN_SE_EAST_def IN_SE_WEST_def IN_DL_S_def IN_DL_SE_def IN_DL_SW_def
  OUT_SE_NORTH_def OUT_SE_SOUTH_def OUT_SE_EAST_def OUT_SE_WEST_def OPPOSITE_CHANNEL_def CONNECT_COORD_def

text \<open>
  \<open>graph\<close> holds the vectors \<open>predecessors\<close> and \<open>successors\<close> of all nodes; \<open>connect (n, p)\<close> is the
  call \<open>n->connect(p)\<close>. \<^const>\<open>None\<close> is the null pointer.
\<close>

record graph =
  predecessors :: "pe_node \<Rightarrow> pe_node option list"
  successors :: "pe_node \<Rightarrow> pe_node list"

definition connect :: "graph \<Rightarrow> pe_node \<times> pe_node option \<Rightarrow> graph" where
  "connect g c =
     (case c of (n, pred) \<Rightarrow>
        let g1 = g\<lparr>predecessors := (predecessors g)(n := predecessors g n @ [pred])\<rparr> in
        case pred of None \<Rightarrow> g1
        | Some p \<Rightarrow> g1\<lparr>successors := (successors g1)(p := successors g1 p @ [n])\<rparr>)"

text \<open>The calls of \<open>connect\<close> that \<open>make_ALUs\<close> and \<open>make_connection\<close> make, in their order.\<close>

definition alu_connections :: "nat \<Rightarrow> nat \<Rightarrow> (pe_node \<times> pe_node option) list" where
  "alu_connections w h =
     concat (map (\<lambda>x. concat (map (\<lambda>y. [(ALU x y, Some (SEL x y 0)), (ALU x y, Some (SEL x y 1))]) [0..<h])) [0..<w])"

definition se_to_alu :: "nat \<Rightarrow> nat \<Rightarrow> nat \<Rightarrow> nat \<Rightarrow> nat \<Rightarrow> pe_node option" where
  "se_to_alu w h x y ch =
     (let pred_x = fst (CONNECT_COORD ! ch) + int x; pred_y = snd (CONNECT_COORD ! ch) + int y in
      if pred_x \<ge> 0 \<and> pred_x < int w \<and> pred_y \<ge> 0 \<and> pred_y < int h then
        (if ch = IN_SE_SOUTH then Some (PREG (nat pred_x) (nat pred_y) 1)
         else Some (CH (nat pred_x) (nat pred_y) (OPPOSITE_CHANNEL ! ch)))
      else if pred_y = -1 then Some (LAUNCH x)
      else None)"

definition dl_to_alu :: "nat \<Rightarrow> nat \<Rightarrow> nat \<Rightarrow> nat \<Rightarrow> nat \<Rightarrow> pe_node option" where
  "dl_to_alu w h x y ch =
     (let pred_x = fst (CONNECT_COORD ! ch) + int x; pred_y = snd (CONNECT_COORD ! ch) + int y in
      if pred_x \<ge> 0 \<and> pred_x < int w \<and> pred_y \<ge> 0 \<and> pred_y < int h
      then Some (PREG (nat pred_x) (nat pred_y) 0) else None)"

definition alu_inputs :: "nat \<Rightarrow> nat \<Rightarrow> nat \<Rightarrow> nat \<Rightarrow> (pe_node \<times> pe_node option) list" where
  "alu_inputs w h x y =
     concat (map (\<lambda>ch. let node_ptr = se_to_alu w h x y ch in [(SEL x y 0, node_ptr), (SEL x y 1, node_ptr)])
       [IN_SE_SOUTH..<Suc IN_SE_WEST]) @
     (if y < h - 1 then [(PREG x y 0, Some (ALU x y))] else []) @
     concat (map (\<lambda>ch. [(SEL x y 0, dl_to_alu w h x y ch), (SEL x y 1, dl_to_alu w h x y ch)])
       [IN_DL_S..<Suc IN_DL_SW]) @
     [(SEL x y 0, Some (CREG y)), (SEL x y 0, Some (CREG (y + h))),
      (SEL x y 1, Some (CREG y)), (SEL x y 1, Some (CREG (y + h)))]"

definition se_inputs :: "nat \<Rightarrow> nat \<Rightarrow> nat \<Rightarrow> nat \<Rightarrow> (pe_node \<times> pe_node option) list" where
  "se_inputs w h x y =
     (let own = Some (ALU x y);
          south = (if y > 0 then Some (PREG x (y - 1) 1) else Some (LAUNCH x));
          north = (if y < h - 1 then Some (CH x (y + 1) (OPPOSITE_CHANNEL ! IN_SE_NORTH)) else None);
          east = (if x < w - 1 then Some (CH (x + 1) y (OPPOSITE_CHANNEL ! IN_SE_EAST)) else None);
          west = (if x > 0 then Some (CH (x - 1) y (OPPOSITE_CHANNEL ! IN_SE_WEST)) else None);
          dl_s = (if y > 0 then Some (PREG x (y - 1) 0) else None);
          dl_se = (if y > 0 \<and> x < w - 1 then Some (PREG (x + 1) (y - 1) 0) else None);
          dl_sw = (if y > 0 \<and> x > 0 then Some (PREG (x - 1) (y - 1) 0) else None)
      in [(CH x y OUT_SE_NORTH, own), (CH x y OUT_SE_SOUTH, own), (CH x y OUT_SE_EAST, own),
          (CH x y OUT_SE_NORTH, south), (CH x y OUT_SE_EAST, south), (CH x y OUT_SE_WEST, south),
          (CH x y OUT_SE_SOUTH, north),
          (CH x y OUT_SE_NORTH, east), (CH x y OUT_SE_SOUTH, east), (CH x y OUT_SE_WEST, east),
          (CH x y OUT_SE_NORTH, west), (CH x y OUT_SE_SOUTH, west), (CH x y OUT_SE_EAST, west),
          (CH x y OUT_SE_NORTH, dl_s), (CH x y OUT_SE_EAST, dl_s), (CH x y OUT_SE_WEST, dl_s),
          (CH x y OUT_SE_NORTH, dl_se), (CH x y OUT_SE_EAST, dl_se), (CH x y OUT_SE_WEST, dl_se),
          (CH x y OUT_SE_NORTH, dl_sw), (CH x y OUT_SE_EAST, dl_sw),
          (CH x y OUT_SE_NORTH, Some (CREG y))] @
         (if y < h - 1 then [(PREG x y 1, Some (CH x y OUT_SE_NORTH))] else []))"

definition make_connection :: "nat \<Rightarrow> nat \<Rightarrow> (pe_node \<times> pe_node option) list" where
  "make_connection w h =
     concat (map (\<lambda>x. concat (map (\<lambda>y. alu_inputs w h x y @ se_inputs w h x y) [0..<h]) @
       [(GATHER x, Some (CH x 0 OUT_SE_SOUTH))]) [0..<w])"

definition PE_graph :: "nat \<Rightarrow> nat \<Rightarrow> graph" where
  "PE_graph w h =
     foldl connect \<lparr>predecessors = \<lambda>n. [], successors = \<lambda>n. []\<rparr> (alu_connections w h @ make_connection w h)"

section \<open>The array\<close>

text \<open>\<open>pa_order\<close> lists the nodes by the addresses of their objects, the order of the keys of a \<open>std::map\<close>.\<close>

record pe_array =
  pa_width :: nat
  pa_height :: nat
  pa_graph :: graph
  pa_order :: "pe_node list"
  obuf :: "pe_node \<Rightarrow> u32 list"
  config_data :: "pe_node \<Rightarrow> u32"
  opcode :: "pe_node \<Rightarrow> u32"
  activated :: "pe_node \<Rightarrow> bool"
  latch :: "pe_node \<Rightarrow> u32"
  const_data :: "pe_node \<Rightarrow> u32"
  config_changed :: bool
  tsorted_list :: "pe_node list"

definition PE_nodes :: "nat \<Rightarrow> nat \<Rightarrow> pe_node list" where
  "PE_nodes w h =
     concat (map (\<lambda>x. concat (map (\<lambda>y. [ALU x y, SEL x y 0, SEL x y 1] @ map (CH x y) [0..<4]) [0..<h]) @
       [LAUNCH x, GATHER x]) [0..<w]) @
     concat (map (\<lambda>y. [CREG y, CREG (y + h)]) [0..<h]) @
     concat (map (\<lambda>x. concat (map (\<lambda>y. map (PREG x y) [0..<2]) [0..<h - 1])) [0..<w])"

definition PEArray_new :: "nat \<Rightarrow> nat \<Rightarrow> pe_node list \<Rightarrow> pe_array" where
  "PEArray_new h w order =
     \<lparr>pa_width = w, pa_height = h, pa_graph = PE_graph w h, pa_order = order,
      obuf = (\<lambda>n. case n of LAUNCH x \<Rightarrow> [0] | GATHER x \<Rightarrow> [0] | _ \<Rightarrow> []),
      config_data = (\<lambda>n. 1), opcode = (\<lambda>n. 0), activated = (\<lambda>n. False), latch = (\<lambda>n. 0),
      const_data = (\<lambda>n. 0), config_changed = False, tsorted_list = []\<rparr>"

abbreviation preds :: "pe_array \<Rightarrow> pe_node \<Rightarrow> pe_node option list" where
  "preds a \<equiv> predecessors (pa_graph a)"

abbreviation succs :: "pe_array \<Rightarrow> pe_node \<Rightarrow> pe_node list" where
  "succs a \<equiv> successors (pa_graph a)"

text \<open>\<open>deref_pred a n i\<close> is \<open>n->predecessors[i]\<close> where it is followed.\<close>

definition deref_pred :: "pe_array \<Rightarrow> pe_node \<Rightarrow> nat \<Rightarrow> pe_node option" where
  "deref_pred a n i = (if i < length (preds a n) then preds a n ! i else None)"

fun getData :: "pe_array \<Rightarrow> pe_node \<Rightarrow> u32" where
  "getData a (CREG i) =
     (if const_data a (CREG i) > drop_bit 1 CMA_CONST_MASK
      then (CMA_DWORD_MASK XOR CMA_CONST_MASK) OR const_data a (CREG i) else const_data a (CREG i))"
| "getData a n = (case obuf a n of [] \<Rightarrow> 0 | v # q \<Rightarrow> v)"

definition push_obuf :: "pe_node \<Rightarrow> u32 \<Rightarrow> pe_array \<Rightarrow> pe_array" where
  "push_obuf n v a = a\<lparr>obuf := (obuf a)(n := obuf a n @ [v])\<rparr>"

definition pop_obuf :: "pe_node \<Rightarrow> pe_array \<Rightarrow> pe_array option" where
  "pop_obuf n a = (if obuf a n = [] then None else Some (a\<lparr>obuf := (obuf a)(n := tl (obuf a n))\<rparr>))"

section \<open>Execution\<close>

text \<open>
  \<open>MUX::isUse\<close> compares pointers, and a null pointer never equals the node asking. The successors
  of a register \<open>PREG\<close> are multiplexers.
\<close>

definition MUX_isUse :: "pe_array \<Rightarrow> pe_node \<Rightarrow> pe_node \<Rightarrow> bool" where
  "MUX_isUse a n p \<longleftrightarrow> unat (config_data a n) < length (preds a n) \<and> preds a n ! unat (config_data a n) = Some p"

fun isUse :: "pe_array \<Rightarrow> pe_node \<Rightarrow> pe_node \<Rightarrow> bool" where
  "isUse a (ALU x y) p = (opcode a (ALU x y) \<noteq> 0)"
| "isUse a (SEL x y i) p = MUX_isUse a (SEL x y i) p"
| "isUse a (CH x y c) p = MUX_isUse a (CH x y c) p"
| "isUse a (PREG x y i) p = (\<exists>s \<in> set (succs a (PREG x y i)). MUX_isUse a s (PREG x y i))"
| "isUse a (CREG i) p = False"
| "isUse a (LAUNCH x) p = False"
| "isUse a (GATHER x) p = True"

definition use_successors :: "pe_array \<Rightarrow> pe_node \<Rightarrow> pe_node list" where
  "use_successors a p = filter (\<lambda>n. isUse a n p) (succs a p)"

fun in_degree :: "pe_node \<Rightarrow> int" where
  "in_degree (ALU x y) = 2"
| "in_degree (SEL x y i) = 1"
| "in_degree (CH x y c) = 1"
| "in_degree (PREG x y i) = 1"
| "in_degree (GATHER x) = 1"
| "in_degree (CREG i) = 0"
| "in_degree (LAUNCH x) = 0"

definition analyze_dataflow :: "pe_array \<Rightarrow> pe_array" where
  "analyze_dataflow a =
     (let m = (\<lambda>n. if n \<in> set (PE_nodes (pa_width a) (pa_height a)) then Some (in_degree n) else None);
          s = sort_loop (pa_order a) (use_successors a) \<lparr>in_degrees = m, del_list = [], sorted_list = []\<rparr>
      in a\<lparr>tsorted_list := sorted_list s, config_changed := False\<rparr>)"

definition MUX_exec :: "pe_node \<Rightarrow> pe_array \<Rightarrow> pe_array option" where
  "MUX_exec n a = do {
     p \<leftarrow> deref_pred a n (unat (config_data a n));
     Some (push_obuf n (getData a p) a)
   }"

definition ALU_exec :: "pe_node \<Rightarrow> pe_array \<Rightarrow> pe_array option" where
  "ALU_exec n a = do {
     pA \<leftarrow> deref_pred a n 0;
     pB \<leftarrow> deref_pred a n 1;
     v \<leftarrow> (PE_op_table ! unat (opcode a n)) (getData a pA) (getData a pB);
     Some (push_obuf n v a)
   }"

definition PREG_exec :: "pe_node \<Rightarrow> pe_array \<Rightarrow> pe_array option" where
  "PREG_exec n a = do {
     p \<leftarrow> deref_pred a n 0;
     Some (if activated a n
       then (push_obuf n (latch a n) a)\<lparr>latch := (latch a)(n := getData a p)\<rparr>
       else push_obuf n (getData a p) a)
   }"

definition MemStoreUnit_exec :: "pe_node \<Rightarrow> pe_array \<Rightarrow> pe_array option" where
  "MemStoreUnit_exec n a = do {
     a1 \<leftarrow> pop_obuf n a;
     p \<leftarrow> deref_pred a1 n 0;
     Some (push_obuf n (getData a1 p) a1)
   }"

fun exec_node :: "pe_node \<Rightarrow> pe_array \<Rightarrow> pe_array option" where
  "exec_node (SEL x y i) a = MUX_exec (SEL x y i) a"
| "exec_node (CH x y c) a = MUX_exec (CH x y c) a"
| "exec_node (ALU x y) a = ALU_exec (ALU x y) a"
| "exec_node (PREG x y i) a = PREG_exec (PREG x y i) a"
| "exec_node (GATHER x) a = MemStoreUnit_exec (GATHER x) a"
| "exec_node (CREG i) a = Some a"
| "exec_node (LAUNCH x) a = Some a"

declare ALU_exec_def [simp] PREG_exec_def [simp] MemStoreUnit_exec_def [simp]

fun update_node :: "pe_node \<Rightarrow> pe_array \<Rightarrow> pe_array option" where
  "update_node (CREG i) a = Some a"
| "update_node (LAUNCH x) a = (if length (obuf a (LAUNCH x)) > 1 then pop_obuf (LAUNCH x) a else Some a)"
| "update_node n a = pop_obuf n a"

primrec each_node :: "(pe_node \<Rightarrow> pe_array \<Rightarrow> pe_array option) \<Rightarrow> pe_node list \<Rightarrow> pe_array \<Rightarrow> pe_array option" where
  "each_node f [] a = Some a"
| "each_node f (n # ns) a = (case f n a of None \<Rightarrow> None | Some a1 \<Rightarrow> each_node f ns a1)"

definition PEArray_exec :: "pe_array \<Rightarrow> pe_array option" where
  "PEArray_exec a = do {
     let a0 = (if config_changed a then analyze_dataflow a else a);
     a1 \<leftarrow> each_node exec_node (tsorted_list a0) a0;
     a2 \<leftarrow> each_node exec_node (map GATHER [0..<pa_width a0]) a1;
     each_node update_node (tsorted_list a0) a2
   }"

section \<open>Configuration, constants and the ports to the memory\<close>

definition MUX_config :: "pe_node \<Rightarrow> u32 \<Rightarrow> pe_array \<Rightarrow> pe_array" where
  "MUX_config n d a = (if unat d < length (preds a n) then a\<lparr>config_data := (config_data a)(n := d)\<rparr> else a)"

definition ALU_config :: "pe_node \<Rightarrow> u32 \<Rightarrow> pe_array \<Rightarrow> pe_array" where
  "ALU_config n d a = (if unat d < CMA_OP_SIZE then a\<lparr>opcode := (opcode a)(n := d)\<rparr> else a)"

definition load_const :: "u32 \<Rightarrow> pe_array \<Rightarrow> u32" where
  "load_const addr a =
     (let index = unat (drop_bit 2 addr) in if index \<ge> pa_height a * 2 then 0 else getData a (CREG index))"

definition store_const :: "u32 \<Rightarrow> u32 \<Rightarrow> pe_array \<Rightarrow> pe_array" where
  "store_const addr data a =
     (let index = unat (drop_bit 2 addr) in
      if index < pa_height a * 2
      then a\<lparr>const_data := (const_data a)(CREG index := data AND CMA_CONST_MASK)\<rparr> else a)"

definition config_PREG :: "u32 \<Rightarrow> pe_array \<Rightarrow> pe_array" where
  "config_PREG data a =
     (foldl (\<lambda>a y. foldl (\<lambda>a x. foldl (\<lambda>a i. a\<lparr>activated := (activated a)(PREG x y i := bit data y)\<rparr>) a [0..<2])
        a [0..<pa_width a]) a [0..<pa_height a - 1])\<lparr>config_changed := True\<rparr>"

definition decode_alu_conf :: "u32 \<Rightarrow> u32 \<times> u32 \<times> u32" where
  "decode_alu_conf data = (drop_bit 6 (data AND 0x3C0), drop_bit 3 (data AND 0x038), data AND 0x007)"

definition decode_se_conf :: "u32 \<Rightarrow> u32 \<times> u32 \<times> u32 \<times> u32" where
  "decode_se_conf data =
     (drop_bit 7 (data AND 0x380), drop_bit 5 (data AND 0x060), drop_bit 2 (data AND 0x01C), data AND 0x003)"

definition config_ALU_at :: "u32 \<times> u32 \<times> u32 \<Rightarrow> nat \<Rightarrow> nat \<Rightarrow> pe_array \<Rightarrow> pe_array" where
  "config_ALU_at conf x y a =
     (case conf of (op, sel_a, sel_b) \<Rightarrow>
        MUX_config (SEL x y 1) sel_b (MUX_config (SEL x y 0) sel_a (ALU_config (ALU x y) op a)))"

definition config_SE_at :: "u32 \<times> u32 \<times> u32 \<times> u32 \<Rightarrow> nat \<Rightarrow> nat \<Rightarrow> pe_array \<Rightarrow> pe_array" where
  "config_SE_at conf x y a =
     (case conf of (n, s, e, w) \<Rightarrow>
        MUX_config (CH x y 3) w (MUX_config (CH x y 2) e (MUX_config (CH x y 1) s (MUX_config (CH x y 0) n a))))"

definition multicast :: "(nat \<Rightarrow> nat \<Rightarrow> pe_array \<Rightarrow> pe_array) \<Rightarrow> u32 \<Rightarrow> u32 \<Rightarrow> pe_array \<Rightarrow> pe_array" where
  "multicast f col_bitmap row_bitmap a =
     foldl (\<lambda>a x. foldl (\<lambda>a y. if bit col_bitmap x \<and> bit row_bitmap y then f x y a else a) a [0..<pa_height a]) a [0..<pa_width a]"

definition config_ALU_RMC :: "u32 \<Rightarrow> u32 \<Rightarrow> u32 \<Rightarrow> pe_array \<Rightarrow> pe_array" where
  "config_ALU_RMC col_bitmap row_bitmap data a =
     (multicast (config_ALU_at (decode_alu_conf data)) col_bitmap row_bitmap a)\<lparr>config_changed := True\<rparr>"

definition config_SE_RMC :: "u32 \<Rightarrow> u32 \<Rightarrow> u32 \<Rightarrow> pe_array \<Rightarrow> pe_array" where
  "config_SE_RMC col_bitmap row_bitmap data a =
     (multicast (config_SE_at (decode_se_conf data)) col_bitmap row_bitmap a)\<lparr>config_changed := True\<rparr>"

definition config_PE :: "nat \<Rightarrow> u32 \<Rightarrow> pe_array \<Rightarrow> pe_array option" where
  "config_PE pe_addr data a =
     (let x = pe_addr mod pa_width a; y = pe_addr div pa_width a;
          alu = decode_alu_conf (data AND 0x000003FF); se = decode_se_conf (drop_bit 10 (data AND 0x000FFC00)) in
      if pa_width a = 0 \<or> y \<ge> pa_height a then None
      else Some ((config_SE_at se x y (config_ALU_at alu x y a))\<lparr>config_changed := True\<rparr>))"

definition launch :: "u32 list \<Rightarrow> pe_array \<Rightarrow> pe_array option" where
  "launch ws a =
     (if length ws < pa_width a then None
      else Some (foldl (\<lambda>a i. push_obuf (LAUNCH i) (ws ! i) a) a [0..<pa_width a]))"

definition gather :: "pe_array \<Rightarrow> u32 list option" where
  "gather a =
     (if \<exists>i < pa_width a. obuf a (GATHER i) = [] then None
      else Some (map (\<lambda>i. hd (obuf a (GATHER i))) [0..<pa_width a]))"

section \<open>Access of the debugger\<close>

text \<open>The loop of \<open>debug_push_data\<close> removes nothing from the queue it waits for to become empty.\<close>

partial_function (option) debug_drain :: "u32 list \<Rightarrow> u32 list \<Rightarrow> u32 list option" where
  "debug_drain tmp q = (case q of [] \<Rightarrow> Some tmp | v # r \<Rightarrow> debug_drain (tl (tmp @ [v])) q)"

definition debug_push_data :: "pe_node \<Rightarrow> u32 \<Rightarrow> pe_array \<Rightarrow> pe_array option" where
  "debug_push_data n data a = do {
     a1 \<leftarrow> pop_obuf n a;
     q \<leftarrow> debug_drain [data] (obuf a1 n);
     Some (a1\<lparr>obuf := (obuf a1)(n := q)\<rparr>)
   }"

definition debug_fetch_launch :: "u32 \<Rightarrow> pe_array \<Rightarrow> u32" where
  "debug_fetch_launch col a = (if unat col < pa_width a then getData a (LAUNCH (unat col)) else 0)"

definition debug_store_launch :: "u32 \<Rightarrow> u32 \<Rightarrow> pe_array \<Rightarrow> pe_array option" where
  "debug_store_launch col data a =
     (if unat col < pa_width a then debug_push_data (LAUNCH (unat col)) (data AND CMA_DWORD_MASK) a else Some a)"

definition debug_fetch_gather :: "u32 \<Rightarrow> pe_array \<Rightarrow> u32" where
  "debug_fetch_gather col a = (if unat col < pa_width a then getData a (GATHER (unat col)) else 0)"

definition debug_store_gather :: "u32 \<Rightarrow> u32 \<Rightarrow> pe_array \<Rightarrow> pe_array option" where
  "debug_store_gather col data a =
     (if unat col < pa_width a then debug_push_data (GATHER (unat col)) (data AND CMA_DWORD_MASK) a else Some a)"

definition CMA_DEBUG_MOD_ALU_L :: u8 where "CMA_DEBUG_MOD_ALU_L = 4"
definition CMA_DEBUG_MOD_ALU_R :: u8 where "CMA_DEBUG_MOD_ALU_R = 5"
definition CMA_DEBUG_MOD_ALU_O :: u8 where "CMA_DEBUG_MOD_ALU_O = 6"

definition debug_ALU_node :: "u8 \<Rightarrow> u8 \<Rightarrow> pe_array \<Rightarrow> pe_node option" where
  "debug_ALU_node pe_addr type a =
     (let x = unat pe_addr mod pa_width a; y = unat pe_addr div pa_width a in
      if y \<ge> pa_height a then None
      else if type = CMA_DEBUG_MOD_ALU_L then Some (SEL x y 0)
      else if type = CMA_DEBUG_MOD_ALU_R then Some (SEL x y 1)
      else if type = CMA_DEBUG_MOD_ALU_O then Some (ALU x y)
      else None)"

definition debug_fetch_ALU :: "u8 \<Rightarrow> u8 \<Rightarrow> pe_array \<Rightarrow> u32" where
  "debug_fetch_ALU pe_addr type a = (case debug_ALU_node pe_addr type a of None \<Rightarrow> 0 | Some n \<Rightarrow> getData a n)"

definition debug_store_ALU :: "u8 \<Rightarrow> u8 \<Rightarrow> u32 \<Rightarrow> pe_array \<Rightarrow> pe_array option" where
  "debug_store_ALU pe_addr type data a =
     (case debug_ALU_node pe_addr type a of None \<Rightarrow> Some a
      | Some n \<Rightarrow> debug_push_data n (data AND CMA_DWORD_MASK) a)"

end
