(* ===== verification/Dbuf.thy ===== *)
theory Dbuf
  imports Range_Memory
begin

unbundle bit_operations_syntax

text \<open>
  \<open>dbuf.h\<close> and \<open>dbuf.cc\<close>: the double buffer of an accelerator. The bus reads and writes one bank
  (\<open>address\<close> of the base class points to it), the core the other one; \<open>buf_switch\<close> exchanges them.

  \<open>front\<close> and \<open>back\<close> are arrays of host words, kept as their bytes; \<open>address\<close> is the bank
  \<open>front_connected\<close> names. \<^const>\<open>None\<close> is an access outside the arrays. The base address and the
  profile counters of the base class are not part of the state.
\<close>

record dbuf =
  db_extent :: u32
  db_mask :: u32
  db_front :: "u8 list"
  db_back :: "u8 list"
  db_front_connected :: bool

definition DoubleBuffer_new :: "nat \<Rightarrow> u32 \<Rightarrow> u8 list option \<Rightarrow> dbuf option" where
  "DoubleBuffer_new sz msk init =
     (let n = 4 * (sz div 4); dat = (case init of None \<Rightarrow> [] | Some x \<Rightarrow> x) in
      if length dat > n then None
      else Some \<lparr>db_extent = of_nat sz, db_mask = msk, db_front = dat @ replicate (n - length dat) 0,
                 db_back = replicate n 0, db_front_connected = True\<rparr>)"

definition db_outer :: "dbuf \<Rightarrow> u8 list" where
  "db_outer d = (if db_front_connected d then db_front d else db_back d)"

definition db_inner :: "dbuf \<Rightarrow> u8 list" where
  "db_inner d = (if db_front_connected d then db_back d else db_front d)"

definition set_outer :: "u8 list \<Rightarrow> dbuf \<Rightarrow> dbuf" where
  "set_outer m d = (if db_front_connected d then d\<lparr>db_front := m\<rparr> else d\<lparr>db_back := m\<rparr>)"

definition set_inner :: "u8 list \<Rightarrow> dbuf \<Rightarrow> dbuf" where
  "set_inner m d = (if db_front_connected d then d\<lparr>db_back := m\<rparr> else d\<lparr>db_front := m\<rparr>)"

definition buf_switch :: "dbuf \<Rightarrow> dbuf" where
  "buf_switch d = d\<lparr>db_front_connected := \<not> db_front_connected d\<rparr>"

section \<open>The side of the bus\<close>

definition dbuf_fetch_word :: "bool \<Rightarrow> dbuf \<Rightarrow> u32 \<Rightarrow> u32 option" where
  "dbuf_fetch_word hb d off =
     (let i = 4 * (unat off div 4) in
      if i + 4 \<le> length (db_outer d) then Some (load32 hb (db_outer d) i) else None)"

definition dbuf_store_word :: "bool \<Rightarrow> dbuf \<Rightarrow> u32 \<Rightarrow> u32 \<Rightarrow> dbuf option" where
  "dbuf_store_word hb d off data =
     (let i = 4 * (unat off div 4) in
      if i + 4 \<le> length (db_outer d)
      then Some (set_outer (store32 hb (db_outer d) i (data AND db_mask d)) d) else None)"

section \<open>The side of the core\<close>

text \<open>The test of the code compares the word index with the extent, which is in bytes.\<close>

definition inner_exceeds :: "dbuf \<Rightarrow> u32 \<Rightarrow> bool" where
  "inner_exceeds d off \<longleftrightarrow> unat off div 4 \<ge> unat (db_extent d)"

definition fetch_word_from_inner :: "bool \<Rightarrow> u32 \<Rightarrow> dbuf \<Rightarrow> u32 option" where
  "fetch_word_from_inner hb off d =
     (let i = 4 * (unat off div 4) in
      if inner_exceeds d off then Some 0
      else if i + 4 \<le> length (db_inner d) then Some (load32 hb (db_inner d) i) else None)"

definition store_word_from_inner :: "bool \<Rightarrow> u32 \<Rightarrow> u32 \<Rightarrow> dbuf \<Rightarrow> dbuf option" where
  "store_word_from_inner hb off data d =
     (let i = 4 * (unat off div 4) in
      if inner_exceeds d off then Some d
      else if i + 4 \<le> length (db_inner d)
      then Some (set_inner (store32 hb (db_inner d) i (data AND db_mask d)) d) else None)"

definition fetch_half_from_inner :: "bool \<Rightarrow> u32 \<Rightarrow> dbuf \<Rightarrow> u16 option" where
  "fetch_half_from_inner hb off d =
     (let i = 2 * (unat off div 2) in
      if inner_exceeds d off then Some 0
      else if i + 2 \<le> length (db_inner d) then Some (load16 hb (db_inner d) i) else None)"

definition store_half_from_inner :: "bool \<Rightarrow> u32 \<Rightarrow> u16 \<Rightarrow> dbuf \<Rightarrow> dbuf option" where
  "store_half_from_inner hb off data d =
     (let i = 2 * (unat off div 2) in
      if inner_exceeds d off then Some d
      else if i + 2 \<le> length (db_inner d)
      then Some (set_inner (store16 hb (db_inner d) i (ucast (ucast data AND db_mask d))) d) else None)"

definition fetch_byte_from_inner :: "u32 \<Rightarrow> dbuf \<Rightarrow> u8 option" where
  "fetch_byte_from_inner off d =
     (if inner_exceeds d off then Some 0
      else if unat off < length (db_inner d) then Some (db_inner d ! unat off) else None)"

definition store_byte_from_inner :: "u32 \<Rightarrow> u8 \<Rightarrow> dbuf \<Rightarrow> dbuf option" where
  "store_byte_from_inner off data d =
     (if inner_exceeds d off then Some d
      else if unat off < length (db_inner d)
      then Some (set_inner ((db_inner d)[unat off := ucast (ucast data AND db_mask d)]) d) else None)"

lemmas dbuf_defs [cube_defs] =
  DoubleBuffer_new_def db_outer_def db_inner_def set_outer_def set_inner_def buf_switch_def
  dbuf_fetch_word_def dbuf_store_word_def inner_exceeds_def fetch_word_from_inner_def
  store_word_from_inner_def fetch_half_from_inner_def store_half_from_inner_def
  fetch_byte_from_inner_def store_byte_from_inner_def

section \<open>The two sides\<close>

lemma bank_simps [simp]:
  "db_outer (set_outer m d) = m" "db_inner (set_outer m d) = db_inner d"
  "db_inner (set_inner m d) = m" "db_outer (set_inner m d) = db_outer d"
  "db_mask (set_outer m d) = db_mask d" "db_mask (set_inner m d) = db_mask d"
  "db_extent (set_outer m d) = db_extent d" "db_extent (set_inner m d) = db_extent d"
  "db_outer (buf_switch d) = db_inner d" "db_inner (buf_switch d) = db_outer d"
  "db_mask (buf_switch d) = db_mask d" "db_extent (buf_switch d) = db_extent d"
  "buf_switch (buf_switch d) = d"
  by (simp_all add: dbuf_defs)

definition dbuf_ok :: "dbuf \<Rightarrow> u32 \<Rightarrow> bool" where
  "dbuf_ok d a \<longleftrightarrow> unat a mod 4 = 0 \<and> unat a + 4 \<le> length (db_outer d)"

text \<open>
  Both banks have the size of the buffer, the one invariant of a double buffer: it holds after
  construction and every operation keeps it.
\<close>

definition dbuf_wf :: "dbuf \<Rightarrow> bool" where
  "dbuf_wf d \<longleftrightarrow> length (db_outer d) = 4 * (unat (db_extent d) div 4) \<and> length (db_inner d) = length (db_outer d)"

lemma dbuf_wf_new:
  "sz < 2 ^ 32 \<Longrightarrow> DoubleBuffer_new sz msk init = Some d \<Longrightarrow> dbuf_wf d"
  by (auto simp: DoubleBuffer_new_def dbuf_wf_def db_outer_def db_inner_def unat_of_nat Let_def split: if_splits)

lemma dbuf_wf_keep:
  "dbuf_wf d \<Longrightarrow> dbuf_wf (buf_switch d)"
  "dbuf_wf d \<Longrightarrow> length m = length (db_outer d) \<Longrightarrow> dbuf_wf (set_outer m d)"
  "dbuf_wf d \<Longrightarrow> length m = length (db_inner d) \<Longrightarrow> dbuf_wf (set_inner m d)"
  by (simp_all add: dbuf_wf_def)

text \<open>What the bus stores is what the core reads after the switch, and the other way round.\<close>

lemma inner_after_switch:
  "dbuf_wf d \<Longrightarrow> dbuf_ok d a \<Longrightarrow> fetch_word_from_inner hb a (buf_switch d) = dbuf_fetch_word hb d a"
  by (auto simp: fetch_word_from_inner_def dbuf_fetch_word_def inner_exceeds_def dbuf_wf_def dbuf_ok_def Let_def)

text \<open>
  A store through the mask is a store of the masked word, so the contract of a word memory holds
  for the bus side with unmasked stores, and block facts carry over to masked ones.
\<close>

definition dbuf_put :: "bool \<Rightarrow> dbuf \<Rightarrow> u32 \<Rightarrow> u32 \<Rightarrow> dbuf option" where
  "dbuf_put hb d off data =
     (let i = 4 * (unat off div 4) in
      if i + 4 \<le> length (db_outer d) then Some (set_outer (store32 hb (db_outer d) i data) d) else None)"

lemma dbuf_store_put: "dbuf_store_word hb d off data = dbuf_put hb d off (data AND db_mask d)"
  by (simp add: dbuf_store_word_def dbuf_put_def)

lemma aligned_index: "unat a mod 4 = 0 \<Longrightarrow> 4 * (unat a div 4) = unat a"
  by (metis mult_div_mod_eq add.right_neutral)

lemma aligned_apart:
  assumes "unat (a :: u32) mod 4 = 0" "unat (b :: u32) mod 4 = 0" "a \<noteq> b"
  shows "unat a + 4 \<le> unat b \<or> unat b + 4 \<le> unat a"
proof -
  have "unat a \<noteq> unat b" using assms(3) by (simp add: word_unat_eq_iff)
  with assms(1,2) show ?thesis by presburger
qed

interpretation dbuf_words: word_store "dbuf_fetch_word hb" "dbuf_put hb" dbuf_ok for hb
proof
  show "dbuf_ok s a \<Longrightarrow> dbuf_fetch_word hb s a \<noteq> None" for s a
    by (simp add: dbuf_ok_def dbuf_fetch_word_def aligned_index)
  show "dbuf_ok s a \<Longrightarrow> dbuf_put hb s a v \<noteq> None" for s a v
    by (simp add: dbuf_ok_def dbuf_put_def aligned_index)
  show "dbuf_put hb s a v = Some s' \<Longrightarrow> dbuf_ok s a \<Longrightarrow> dbuf_ok s' b = dbuf_ok s b" for s a v s' b
    by (auto simp: dbuf_ok_def dbuf_put_def Let_def split: if_splits)
  fix s a v s' b
  assume st: "dbuf_put hb s a v = Some s'" and oa: "dbuf_ok s a" and ob: "dbuf_ok s b"
  have s': "s' = set_outer (store32 hb (db_outer s) (unat a) v) s"
    using st oa by (simp add: dbuf_put_def dbuf_ok_def aligned_index)
  show "dbuf_fetch_word hb s' b = (if b = a then Some v else dbuf_fetch_word hb s b)"
    using oa ob aligned_apart [of a b] unfolding s'
    by (auto simp: dbuf_fetch_word_def dbuf_ok_def aligned_index load32_store32_same load32_store32_other)
qed

lemma dbuf_put_keeps:
  "dbuf_put hb d a v = Some d' \<Longrightarrow> db_mask d' = db_mask d \<and> db_inner d' = db_inner d \<and> (dbuf_wf d \<longrightarrow> dbuf_wf d')"
  by (auto simp: dbuf_put_def Let_def dbuf_wf_def split: if_splits)

lemma store_block_masked:
  "store_block (dbuf_store_word hb) d a vs = store_block (dbuf_put hb) d a (map (\<lambda>v. v AND db_mask d) vs)"
proof (induction vs arbitrary: d a)
  case (Cons v vs)
  show ?case
  proof (cases "dbuf_put hb d a (v AND db_mask d)")
    case (Some d1)
    then show ?thesis using Cons.IH [of d1] dbuf_put_keeps [OF Some] by (simp add: dbuf_store_put)
  qed (simp add: dbuf_store_put)
qed simp

lemma store_block_keeps:
  "store_block (dbuf_put hb) d a vs = Some d' \<Longrightarrow> db_inner d' = db_inner d \<and> (dbuf_wf d \<longrightarrow> dbuf_wf d')"
proof (induction vs arbitrary: d a)
  case (Cons v vs)
  then obtain d1 where 1: "dbuf_put hb d a v = Some d1" "store_block (dbuf_put hb) d1 (a + 4) vs = Some d'"
    by (auto split: option.splits)
  from Cons.IH [OF this(2)] dbuf_put_keeps [OF this(1)] show ?case by auto
qed simp

text \<open>
  A block handed over: the words the bus stores, under the mask, are what the core reads at the same
  places once the banks are switched.
\<close>

lemma handover:
  assumes "dbuf_wf d" "length vs \<le> 2 ^ 30" "\<forall>b \<in> set (slots a (length vs)). dbuf_ok d b"
  shows "\<exists>d'. store_block (dbuf_store_word hb) d a vs = Some d' \<and> db_inner d' = db_inner d \<and>
    fetch_block (\<lambda>d a. fetch_word_from_inner hb a d) (buf_switch d') a (length vs) = Some (map (\<lambda>v. v AND db_mask d) vs)"
proof -
  let ?ws = "map (\<lambda>v. v AND db_mask d) vs"
  have ok: "\<forall>b \<in> set (slots a (length ?ws)). dbuf_ok d b" using assms(3) by simp
  obtain d' where d': "store_block (dbuf_put hb) d a ?ws = Some d'"
    using dbuf_words.store_block_total [OF ok] by blast
  have f: "fetch_block (dbuf_fetch_word hb) d' a (length ?ws) = Some ?ws"
    using dbuf_words.fetch_block_store_block [OF d' distinct_slots ok] assms(2) by simp
  have k: "db_inner d' = db_inner d" "dbuf_wf d'" using store_block_keeps [OF d'] assms(1) by auto
  have ok': "\<forall>b \<in> set (slots a (length vs)). dbuf_ok d' b"
    using dbuf_words.store_block_frame [OF d' ok] assms(3) by blast
  have "fetch_block (\<lambda>d a. fetch_word_from_inner hb a d) (buf_switch d') b n = fetch_block (dbuf_fetch_word hb) d' b n"
    if "\<forall>c \<in> set (slots b n). dbuf_ok d' c" for b n
    using that by (induction n arbitrary: b) (simp_all add: inner_after_switch [OF k(2)] split: option.split)
  with f ok' k(1) d' show ?thesis by (simp add: store_block_masked)
qed

text \<open>Where the bound check of the core side fails to stop an access outside the buffer.\<close>

lemma inner_bounds:
  assumes "dbuf_wf d"
  shows "fetch_word_from_inner hb off d = None \<longleftrightarrow>
    unat (db_extent d) div 4 \<le> unat off div 4 \<and> unat off div 4 < unat (db_extent d)"
  using assms by (auto simp: fetch_word_from_inner_def inner_exceeds_def dbuf_wf_def Let_def)

section \<open>Properties\<close>

definition demo_dbuf :: dbuf where
  "demo_dbuf = \<lparr>db_extent = 8, db_mask = 0xFFFF, db_front = replicate 8 0, db_back = replicate 8 1, db_front_connected = True\<rparr>"

text \<open>
  C34. A block of words that the bus stores into a double buffer does not disturb the bank the core
  works on, and after the switch the core reads exactly that block, each word under the mask of
  the buffer.
\<close>
theorem buffer_handover:
  assumes "dbuf_wf d" "length vs \<le> 2 ^ 30" "\<forall>b \<in> set (slots a (length vs)). dbuf_ok d b"
  shows "\<exists>d'. store_block (dbuf_store_word hb) d a vs = Some d' \<and> db_inner d' = db_inner d \<and>
    fetch_block (\<lambda>d a. fetch_word_from_inner hb a d) (buf_switch d') a (length vs) = Some (map (\<lambda>v. v AND db_mask d) vs)"
  by (rule handover [OF assms])

theorem buffer_handover_witness:
  "\<exists>d'. store_block (dbuf_store_word False) demo_dbuf 0 [0x12345, 7] = Some d' \<and>
    fetch_word_from_inner False 0 (buf_switch d') = Some 0x2345 \<and> fetch_word_from_inner False 4 (buf_switch d') = Some 7"
proof -
  have w: "dbuf_wf demo_dbuf" "db_mask demo_dbuf = 0xFFFF"
    by (simp_all add: demo_dbuf_def dbuf_wf_def db_outer_def db_inner_def)
  have l: "length [0x12345, 7 :: u32] \<le> 2 ^ 30" by simp
  have ok: "\<forall>b \<in> set (slots 0 (length [0x12345, 7 :: u32])). dbuf_ok demo_dbuf b"
    by (simp add: dbuf_ok_def demo_dbuf_def db_outer_def)
  from buffer_handover [OF w(1) l ok, of False] w(2) show ?thesis
    by (auto split: option.splits)
qed

text \<open>
  The core's bound check compares the word index with the size in bytes, so it lets accesses
  through that lie beyond the end of the buffer: a fetch leaves the array exactly for the words
  from the end up to four times the size.
\<close>
lemma inner_check_too_weak:
  assumes "dbuf_wf d"
  shows "fetch_word_from_inner hb off d = None \<longleftrightarrow>
    unat (db_extent d) div 4 \<le> unat off div 4 \<and> unat off div 4 < unat (db_extent d)"
  by (rule inner_bounds [OF assms])

end
