(* ===== verification/CMA.thy ===== *)
theory CMA
  imports CMA_PE Accelerator Dbuf
begin

unbundle bit_operations_syntax

text \<open>
  \<open>cma.h\<close>, \<open>cma.cc\<close> and the classes of \<open>cmamodules.cc\<close> around the array: the CMA accelerator. Its
  microcontroller runs a program from the instruction memory; the load unit brings words of the
  data bank in use to the launch registers through a permutation table, the array computes, and the
  store unit writes the gathered words back, \<open>delay + 1\<close> cycles after their issue.

  \<open>dbank_front\<close> says which bank \<open>dbank\<close> points to. The tables, whose arrays the constructor leaves
  uninitialised, and the fields it does not set keep the values of the object it starts from.
  \<^const>\<open>None\<close> is undefined behaviour of the code, as in the array. \<open>hb\<close> is the byte order of the
  host, as in the memories.
\<close>

abbreviation (input) CMA_TABLE_ENTRY_SIZE :: nat where "CMA_TABLE_ENTRY_SIZE \<equiv> 16"
abbreviation (input) CMA_INTERLEAVE_SIZE :: nat where "CMA_INTERLEAVE_SIZE \<equiv> 12"
abbreviation (input) CMA_PE_ARRAY_WIDTH :: nat where "CMA_PE_ARRAY_WIDTH \<equiv> 12"
abbreviation (input) CMA_PE_ARRAY_HEIGHT :: nat where "CMA_PE_ARRAY_HEIGHT \<equiv> 8"
abbreviation (input) CMA_MC_REG_SIZE :: nat where "CMA_MC_REG_SIZE \<equiv> 16"

section \<open>The permutation tables (DataManipulator)\<close>

record data_manip =
  dm_bitmap :: "bool list list"
  dm_table :: "nat list list"

definition setBitmap :: "nat \<Rightarrow> nat \<Rightarrow> bool \<Rightarrow> data_manip \<Rightarrow> data_manip" where
  "setBitmap index pos flag d =
     (if index < CMA_TABLE_ENTRY_SIZE
      then d\<lparr>dm_bitmap := (dm_bitmap d)[index := (dm_bitmap d ! index)[pos := flag]]\<rparr> else d)"

definition setTable :: "nat \<Rightarrow> nat \<Rightarrow> nat \<Rightarrow> data_manip \<Rightarrow> data_manip" where
  "setTable index pos data d =
     (if index < CMA_TABLE_ENTRY_SIZE
      then d\<lparr>dm_table := (dm_table d)[index := (dm_table d ! index)[pos := data]]\<rparr> else d)"

definition getBitmap :: "nat \<Rightarrow> nat \<Rightarrow> data_manip \<Rightarrow> bool" where
  "getBitmap index pos d = (if index < CMA_TABLE_ENTRY_SIZE then dm_bitmap d ! index ! pos else False)"

definition getTable :: "nat \<Rightarrow> nat \<Rightarrow> data_manip \<Rightarrow> nat" where
  "getTable index pos d = (if index < CMA_TABLE_ENTRY_SIZE then dm_table d ! index ! pos else 0)"

text \<open>The words of one launch, loaded from the inner side of the bank.\<close>

primrec load_words :: "bool \<Rightarrow> dbuf \<Rightarrow> u32 \<Rightarrow> bool list \<Rightarrow> nat list \<Rightarrow> nat \<Rightarrow> u32 list option" where
  "load_words hb bank load_addr bm tb 0 = Some []"
| "load_words hb bank load_addr bm tb (Suc i) = do {
     ws \<leftarrow> load_words hb bank load_addr bm tb i;
     w \<leftarrow> (if bm ! i then fetch_word_from_inner hb (load_addr + of_nat (tb ! i * 4)) bank else Some 0);
     Some (ws @ [w])
   }"

definition toPEArray :: "bool \<Rightarrow> u32 \<Rightarrow> nat \<Rightarrow> data_manip \<Rightarrow> dbuf \<Rightarrow> pe_array \<Rightarrow> pe_array option" where
  "toPEArray hb load_addr table_index d bank pe =
     (if table_index < CMA_TABLE_ENTRY_SIZE then do {
        ws \<leftarrow> load_words hb bank load_addr (dm_bitmap d ! table_index) (dm_table d ! table_index) CMA_INTERLEAVE_SIZE;
        launch ws pe
      } else Some pe)"

primrec store_words :: "bool \<Rightarrow> u32 list \<Rightarrow> u32 \<Rightarrow> bool list \<Rightarrow> nat list \<Rightarrow> nat \<Rightarrow> dbuf \<Rightarrow> dbuf option" where
  "store_words hb ws store_addr bm tb 0 bank = Some bank"
| "store_words hb ws store_addr bm tb (Suc i) bank = do {
     b \<leftarrow> store_words hb ws store_addr bm tb i bank;
     if bm ! i then
       if tb ! i < length ws then store_word_from_inner hb (store_addr + of_nat (i * 4)) (ws ! (tb ! i)) b else None
     else Some b
   }"

definition fromPEArray :: "bool \<Rightarrow> u32 \<Rightarrow> nat \<Rightarrow> data_manip \<Rightarrow> pe_array \<Rightarrow> dbuf \<Rightarrow> dbuf option" where
  "fromPEArray hb store_addr table_index d pe bank =
     (if table_index < CMA_TABLE_ENTRY_SIZE then do {
        ws \<leftarrow> gather pe;
        store_words hb ws store_addr (dm_bitmap d ! table_index) (dm_table d ! table_index) CMA_INTERLEAVE_SIZE bank
      } else Some bank)"

section \<open>The registers of a table on the bus (DManuTableCtrl)\<close>

definition CMA_TABLE_SEL_MASK :: u32 where "CMA_TABLE_SEL_MASK = 0x0C"
definition CMA_TABLE_INDEX_MASK :: u32 where "CMA_TABLE_INDEX_MASK = 0xF0"
definition CMA_TABLE_SEL_LSB :: nat where "CMA_TABLE_SEL_LSB = 2"
definition CMA_TABLE_INDEX_LSB :: nat where "CMA_TABLE_INDEX_LSB = 4"

definition table_fetch_word :: "u32 \<Rightarrow> data_manip \<Rightarrow> u32" where
  "table_fetch_word offset d =
     (let table_index = unat (drop_bit CMA_TABLE_INDEX_LSB (offset AND CMA_TABLE_SEL_MASK));
          table_sel = drop_bit CMA_TABLE_INDEX_LSB (offset AND CMA_TABLE_SEL_MASK) in
      if table_sel = 3 then
        foldl (\<lambda>r i. r OR push_bit i (if getBitmap table_index i d then 1 else 0)) 0 [0..<CMA_INTERLEAVE_SIZE]
      else if table_sel = 1 then
        foldl (\<lambda>r i. r OR push_bit (i * 4) (of_nat (getTable table_index i d))) 0 [0..<CMA_INTERLEAVE_SIZE div 2]
      else if table_sel = 2 then
        foldl (\<lambda>r i. r OR push_bit (i * 4) (of_nat (getTable table_index (i + CMA_INTERLEAVE_SIZE div 2) d))) 0
          [0..<CMA_INTERLEAVE_SIZE div 2]
      else 0)"

definition table_store_word :: "u32 \<Rightarrow> u32 \<Rightarrow> data_manip \<Rightarrow> data_manip" where
  "table_store_word offset data d =
     (let table_index = unat (drop_bit CMA_TABLE_INDEX_LSB (offset AND CMA_TABLE_INDEX_MASK));
          table_sel = drop_bit CMA_TABLE_SEL_LSB (offset AND CMA_TABLE_SEL_MASK);
          element = (\<lambda>i. unat (drop_bit (i * 4) data AND 0xF)) in
      if table_sel = 3 then
        foldl (\<lambda>d i. setBitmap table_index i (drop_bit i data AND 1 \<noteq> 0) d) d [0..<CMA_INTERLEAVE_SIZE]
      else if table_sel = 1 then
        foldl (\<lambda>d i. setTable table_index i (element i) d) d [0..<CMA_INTERLEAVE_SIZE div 2]
      else if table_sel = 2 then
        foldl (\<lambda>d i. setTable table_index (i + CMA_INTERLEAVE_SIZE div 2) (element i) d) d [0..<CMA_INTERLEAVE_SIZE div 2]
      else d)"

section \<open>The store unit (STUnit)\<close>

record st_signal =
  sg_enable :: bool
  sg_table_sel :: u32
  sg_store_addr :: u32

record st_unit =
  st_dm :: data_manip
  max_delay :: nat
  late_signal :: "st_signal list"
  pending_count :: int
  st_delay :: nat

definition STUnit_new :: "data_manip \<Rightarrow> nat \<Rightarrow> st_unit" where
  "STUnit_new d m =
     \<lparr>st_dm = d, max_delay = m, late_signal = replicate m \<lparr>sg_enable = False, sg_table_sel = 0, sg_store_addr = 0\<rparr>,
      pending_count = 0, st_delay = 0\<rparr>"

definition STUnit_issue :: "u32 \<Rightarrow> u32 \<Rightarrow> st_unit \<Rightarrow> st_unit" where
  "STUnit_issue store_addr table_index u =
     u\<lparr>late_signal := \<lparr>sg_enable = True, sg_table_sel = table_index, sg_store_addr = store_addr\<rparr> # late_signal u,
       pending_count := pending_count u + 1\<rparr>"

definition setDelay :: "nat \<Rightarrow> st_unit \<Rightarrow> st_unit" where
  "setDelay d u = u\<lparr>st_delay := d\<rparr>"

definition isWorking :: "st_unit \<Rightarrow> bool" where
  "isWorking u \<longleftrightarrow> pending_count u > 0"

definition shift_signals :: "st_unit \<Rightarrow> st_unit option" where
  "shift_signals u =
     (if late_signal u = [] then None else
      let q = butlast (late_signal u) in
      Some (u\<lparr>late_signal := (if length q < max_delay u
        then \<lparr>sg_enable = False, sg_table_sel = 0, sg_store_addr = 0\<rparr> # q else q)\<rparr>))"

definition STUnit_step :: "bool \<Rightarrow> pe_array \<Rightarrow> st_unit \<Rightarrow> dbuf \<Rightarrow> (st_unit \<times> dbuf) option" where
  "STUnit_step hb pe u bank = do {
     u1 \<leftarrow> shift_signals u;
     current_signal \<leftarrow> (if st_delay u1 + 1 < length (late_signal u1) then Some (late_signal u1 ! (st_delay u1 + 1)) else None);
     if sg_enable current_signal then do {
       b \<leftarrow> fromPEArray hb (sg_store_addr current_signal) (unat (sg_table_sel current_signal)) (st_dm u1) pe bank;
       Some (u1\<lparr>pending_count := pending_count u1 - 1\<rparr>, b)
     } else Some (u1, bank)
   }"

section \<open>The control register (ControlReg)\<close>

record cma_ctrl =
  cr_donedma :: bool
  cr_run :: bool
  cr_bank_sel :: u32
  cr_done :: bool

definition ControlReg_new :: "bool \<Rightarrow> cma_ctrl" where
  "ControlReg_new done = \<lparr>cr_donedma = False, cr_run = False, cr_bank_sel = 0, cr_done = done\<rparr>"

definition ctrl_store_word :: "u32 \<Rightarrow> cma_ctrl \<Rightarrow> cma_ctrl" where
  "ctrl_store_word data c =
     c\<lparr>cr_donedma := (data AND 0x10 \<noteq> 0), cr_run := (data AND 0x02 \<noteq> 0),
       cr_bank_sel := drop_bit 2 (data AND 0x04), cr_done := (data AND 0x01 \<noteq> 0)\<rparr>"

definition ctrl_fetch_word :: "cma_ctrl \<Rightarrow> u32" where
  "ctrl_fetch_word c =
     push_bit 4 (if cr_donedma c then 1 else 0) OR push_bit 2 (cr_bank_sel c) OR
     push_bit 1 (if cr_run c then 1 else 0) OR (if cr_done c then 1 else 0)"

section \<open>The state of the core\<close>

record micro_controller =
  mc_regfile :: "u16 list"
  mc_pc :: u32
  launch_addr :: u32
  launch_incr :: u32
  gather_addr :: u32
  gather_incr :: u32

record cma =
  dmem_front :: dbuf
  dmem_back :: dbuf
  imem :: dbuf
  dbank_front :: bool
  ld_unit :: data_manip
  cma_st_unit :: st_unit
  pearray :: pe_array
  ctrl_reg :: cma_ctrl
  mc :: micro_controller
  mc_done :: bool
  mc_working :: bool
  done_notif :: bool
  trgr_cnd :: u8
  trgr_mod :: u8
  trgr_offset :: u8
  debug_op :: u8
  trgr_arg :: u32
  resp_data :: u32

definition dbank :: "cma \<Rightarrow> dbuf" where
  "dbank c = (if dbank_front c then dmem_front c else dmem_back c)"

definition set_dbank :: "dbuf \<Rightarrow> cma \<Rightarrow> cma" where
  "set_dbank b c = (if dbank_front c then c\<lparr>dmem_front := b\<rparr> else c\<lparr>dmem_back := b\<rparr>)"

section \<open>The microcontroller\<close>

definition mc_opcode :: "u16 \<Rightarrow> nat" where "mc_opcode i = unat (drop_bit 12 (i AND 0xF000))"
definition reg_dst :: "u16 \<Rightarrow> nat" where "reg_dst i = unat (drop_bit 8 (i AND 0x0F00))"
definition reg_src_of :: "u16 \<Rightarrow> nat" where "reg_src_of i = unat (drop_bit 4 (i AND 0x00F0))"
definition mc_func :: "u16 \<Rightarrow> nat" where "mc_func i = unat (i AND 0x000F)"
definition mc_imm :: "u16 \<Rightarrow> u8" where "mc_imm i = ucast (i AND 0x00FF)"
definition mc_addr :: "u16 \<Rightarrow> u8" where "mc_addr i = ucast (drop_bit 4 (i AND 0x0FF0))"

definition mc_branch :: "u16 \<Rightarrow> u32 \<Rightarrow> u32" where
  "mc_branch instr pc = scast (ucast pc :: u16) + 4 + scast (mc_imm instr) * 4"

definition MicroController_reset :: "micro_controller \<Rightarrow> micro_controller" where
  "MicroController_reset m =
     \<lparr>mc_regfile = replicate CMA_MC_REG_SIZE 0, mc_pc = 0, launch_addr = 0, launch_incr = 0, gather_addr = 0, gather_incr = 0\<rparr>"

definition set_mc_reg :: "nat \<Rightarrow> u16 \<Rightarrow> cma \<Rightarrow> cma" where
  "set_mc_reg r v c = c\<lparr>mc := (mc c)\<lparr>mc_regfile := (mc_regfile (mc c))[r := v]\<rparr>\<rparr>"

definition mc_exec_reg :: "u16 \<Rightarrow> cma \<Rightarrow> u32 \<times> cma" where
  "mc_exec_reg instr c =
     (let src = reg_src_of instr; dst = reg_dst instr; rf = mc_regfile (mc c); f = mc_func instr;
          next_pc = mc_pc (mc c) + 4 in
      if f = 0x1 then (next_pc, set_mc_reg dst (rf ! dst + rf ! src) c)
      else if f = 0x2 then (next_pc, set_mc_reg dst (rf ! dst - rf ! src) c)
      else if f = 0x3 then (next_pc, set_mc_reg dst (rf ! src) c)
      else if f = 0xE then
        (if isWorking (cma_st_unit c) then (mc_pc (mc c), c) else (next_pc, c\<lparr>mc_done := True\<rparr>))
      else if f = 0xF then (next_pc, c\<lparr>cma_st_unit := setDelay dst (cma_st_unit c)\<rparr>)
      else (next_pc, c))"

definition mc_ld_st_add :: "bool \<Rightarrow> u16 \<Rightarrow> cma \<Rightarrow> cma option" where
  "mc_ld_st_add hb instr c = do {
     let m = mc c;
     pe \<leftarrow> toPEArray hb (push_bit 2 (launch_addr m)) (reg_src_of instr) (ld_unit c) (dbank c) (pearray c);
     Some (c\<lparr>pearray := pe,
       cma_st_unit := STUnit_issue (push_bit 2 (gather_addr m)) (of_nat (mc_func instr)) (cma_st_unit c),
       mc := m\<lparr>launch_addr := launch_addr m + launch_incr m, gather_addr := gather_addr m + gather_incr m\<rparr>\<rparr>)
   }"

definition mc_exec :: "bool \<Rightarrow> u16 \<Rightarrow> cma \<Rightarrow> (u32 \<times> cma) option" where
  "mc_exec hb instr c =
     (let dst = reg_dst instr; r = mc_regfile (mc c) ! dst; pc = mc_pc (mc c); next_pc = pc + 4; op = mc_opcode instr in
      if op = 0x0 then Some (mc_exec_reg instr c)
      else if op = 0x3 then Some (next_pc, set_mc_reg dst (ucast (mc_imm instr)) c)
      else if op = 0x4 then Some (next_pc, set_mc_reg dst (r + scast (mc_imm instr)) c)
      else if op = 0x7 then map_option (Pair next_pc) (mc_ld_st_add hb instr c)
      else if op = 0x8 then Some (if r = 0 then mc_branch instr pc else next_pc, c)
      else if op = 0x9 then Some (if r = 0 then (mc_branch instr pc, set_mc_reg dst (r - 1) c) else (next_pc, c))
      else if op = 0xA then Some (if r \<noteq> 0 then mc_branch instr pc else next_pc, c)
      else if op = 0xB then Some (if r \<noteq> 0 then (mc_branch instr pc, set_mc_reg dst (r - 1) c) else (next_pc, c))
      else if op = 0xC then
        Some (next_pc, c\<lparr>mc := (mc c)\<lparr>launch_incr := of_nat (mc_func instr), launch_addr := ucast (mc_addr instr)\<rparr>\<rparr>)
      else if op = 0xD then
        Some (next_pc, c\<lparr>mc := (mc c)\<lparr>gather_incr := of_nat (mc_func instr), gather_addr := ucast (mc_addr instr)\<rparr>\<rparr>)
      else Some (next_pc, c))"

definition MicroController_step :: "bool \<Rightarrow> cma \<Rightarrow> cma option" where
  "MicroController_step hb c = do {
     w \<leftarrow> fetch_word_from_inner hb (mc_pc (mc c)) (imem c);
     (next_pc, c1) \<leftarrow> mc_exec hb (ucast w) c;
     Some (c1\<lparr>mc := (mc c1)\<lparr>mc_pc := next_pc\<rparr>\<rparr>)
   }"

section \<open>The core (CMA)\<close>

definition CMA_core_reset :: "cma \<Rightarrow> cma" where
  "CMA_core_reset c = c\<lparr>mc_working := False, mc := MicroController_reset (mc c)\<rparr>"

definition CMA_kick :: "cma \<Rightarrow> cma" where
  "CMA_kick c =
     (let c1 = c\<lparr>imem := buf_switch (imem c)\<rparr>;
          c2 = (if cr_bank_sel (ctrl_reg c1) = 0
                then c1\<lparr>dmem_front := buf_switch (dmem_front c1), dbank_front := True\<rparr>
                else c1\<lparr>dmem_back := buf_switch (dmem_back c1), dbank_front := False\<rparr>)
      in c2\<lparr>mc_working := True, done_notif := False, ctrl_reg := (ctrl_reg c2)\<lparr>cr_done := False\<rparr>\<rparr>)"

definition CMA_finish :: "cma \<Rightarrow> cma" where
  "CMA_finish c =
     (let c1 = (if cr_bank_sel (ctrl_reg c) = 0 then c\<lparr>dmem_front := buf_switch (dmem_front c)\<rparr>
                else c\<lparr>dmem_back := buf_switch (dmem_back c)\<rparr>)
      in c1\<lparr>imem := buf_switch (imem c1), ctrl_reg := (ctrl_reg c1)\<lparr>cr_done := True\<rparr>, done_notif := True\<rparr>)"

definition CMA_cycle :: "bool \<Rightarrow> cma \<Rightarrow> cma option" where
  "CMA_cycle hb c = do {
     c1 \<leftarrow> MicroController_step hb c;
     pe \<leftarrow> PEArray_exec (pearray c1);
     (st, bank) \<leftarrow> STUnit_step hb pe (cma_st_unit c1) (dbank c1);
     Some (set_dbank bank (c1\<lparr>pearray := pe, cma_st_unit := st\<rparr>))
   }"

definition CMA_core_step :: "bool \<Rightarrow> cma \<Rightarrow> (bool option \<times> cma) option" where
  "CMA_core_step hb c =
     (if cr_run (ctrl_reg c) then
        let c1 = (if mc_working c then c else CMA_kick c) in
        if \<not> mc_done c1 then map_option (Pair None) (CMA_cycle hb c1)
        else if \<not> done_notif c1 then Some (Some (cr_donedma (ctrl_reg c1)), CMA_finish c1)
        else Some (None, c1)
      else Some (None, c\<lparr>mc_done := False, mc_working := False, mc := MicroController_reset (mc c)\<rparr>))"

section \<open>The objects on the local bus\<close>

datatype cma_part =
    DMEM_FRONT | DMEM_BACK | IMEM | CONST_REG | LD_TBL | ST_TBL | CTRL_REG | RMC_ALU | RMC_SE | PE_CONFIG | PREG_CONFIG

definition RMC_row :: "u32 \<Rightarrow> u32" where "RMC_row data = drop_bit 22 (data AND 0x3FC00000)"
definition RMC_col :: "u32 \<Rightarrow> u32" where "RMC_col data = drop_bit 10 (data AND 0x003FFC00)"
definition RMC_config :: "u32 \<Rightarrow> u32" where "RMC_config data = data AND 0x000003FF"

fun CMA_store_word :: "bool \<Rightarrow> cma_part \<Rightarrow> u32 \<Rightarrow> u32 \<Rightarrow> cma \<Rightarrow> cma option" where
  "CMA_store_word hb DMEM_FRONT off data c = map_option (\<lambda>b. c\<lparr>dmem_front := b\<rparr>) (dbuf_store_word hb (dmem_front c) off data)"
| "CMA_store_word hb DMEM_BACK off data c = map_option (\<lambda>b. c\<lparr>dmem_back := b\<rparr>) (dbuf_store_word hb (dmem_back c) off data)"
| "CMA_store_word hb IMEM off data c = map_option (\<lambda>b. c\<lparr>imem := b\<rparr>) (dbuf_store_word hb (imem c) off data)"
| "CMA_store_word hb CONST_REG off data c = Some (c\<lparr>pearray := store_const off data (pearray c)\<rparr>)"
| "CMA_store_word hb LD_TBL off data c = Some (c\<lparr>ld_unit := table_store_word off data (ld_unit c)\<rparr>)"
| "CMA_store_word hb ST_TBL off data c =
     Some (c\<lparr>cma_st_unit := (cma_st_unit c)\<lparr>st_dm := table_store_word off data (st_dm (cma_st_unit c))\<rparr>\<rparr>)"
| "CMA_store_word hb CTRL_REG off data c = Some (c\<lparr>ctrl_reg := ctrl_store_word data (ctrl_reg c)\<rparr>)"
| "CMA_store_word hb RMC_ALU off data c =
     Some (c\<lparr>pearray := config_ALU_RMC (RMC_col data) (RMC_row data) (RMC_config data) (pearray c)\<rparr>)"
| "CMA_store_word hb RMC_SE off data c =
     Some (c\<lparr>pearray := config_SE_RMC (RMC_col data) (RMC_row data) (RMC_config data) (pearray c)\<rparr>)"
| "CMA_store_word hb PE_CONFIG off data c =
     map_option (\<lambda>pe. c\<lparr>pearray := pe\<rparr>) (config_PE (unat (drop_bit 9 off)) data (pearray c))"
| "CMA_store_word hb PREG_CONFIG off data c = Some (c\<lparr>pearray := config_PREG data (pearray c)\<rparr>)"

fun CMA_fetch_word :: "bool \<Rightarrow> cma_part \<Rightarrow> u32 \<Rightarrow> cma \<Rightarrow> (u32 \<times> cma) option" where
  "CMA_fetch_word hb DMEM_FRONT off c = map_option (\<lambda>w. (w, c)) (dbuf_fetch_word hb (dmem_front c) off)"
| "CMA_fetch_word hb DMEM_BACK off c = map_option (\<lambda>w. (w, c)) (dbuf_fetch_word hb (dmem_back c) off)"
| "CMA_fetch_word hb IMEM off c = map_option (\<lambda>w. (w, c)) (dbuf_fetch_word hb (imem c) off)"
| "CMA_fetch_word hb CONST_REG off c = Some (load_const off (pearray c), c)"
| "CMA_fetch_word hb LD_TBL off c = Some (table_fetch_word off (ld_unit c), c)"
| "CMA_fetch_word hb ST_TBL off c = Some (table_fetch_word off (st_dm (cma_st_unit c)), c)"
| "CMA_fetch_word hb CTRL_REG off c = Some (ctrl_fetch_word (ctrl_reg c), c)"
| "CMA_fetch_word hb _ off c = Some (0, c)"

definition CMA_core :: "bool \<Rightarrow> (cma_part, cma) core_if" where
  "CMA_core hb =
     \<lparr>ci_fetch = CMA_fetch_word hb, ci_store = CMA_store_word hb, ci_step = CMA_core_step hb, ci_reset = CMA_core_reset\<rparr>"

text \<open>\<open>CMA::setup\<close>: the objects of the core and their places on the local bus.\<close>

definition CMA_map :: "(cma_part \<times> u32 \<times> u32) list" where
  "CMA_map =
     [(DMEM_FRONT, 0x000000, 0x1000), (DMEM_BACK, 0x001000, 0x1000), (IMEM, 0x002000, 0x400),
      (CONST_REG, 0x003000, 0x80), (LD_TBL, 0x005000, 0x100), (ST_TBL, 0x006000, 0x100), (CTRL_REG, 0x004000, 0x4),
      (RMC_ALU, 0x200000, 0x100), (RMC_SE, 0x210000, 0x100), (PE_CONFIG, 0x280000, 0xC000), (PREG_CONFIG, 0x260000, 0x4)]"

definition CMA_setup_bus :: "cma_part local_mapper \<Rightarrow> cma_part local_mapper" where
  "CMA_setup_bus lm =
     foldl (\<lambda>lm (k, a, sz). snd (map_at_local_address (Range_new 0 sz [] MEM_READ_WRITE) (CoreObj k) a lm)) lm CMA_map"

definition CMA_setup :: "pe_node list \<Rightarrow> data_manip \<Rightarrow> data_manip \<Rightarrow> cma \<Rightarrow> cma option" where
  "CMA_setup order ld st c = do {
     front \<leftarrow> DoubleBuffer_new 0x1000 CMA_DWORD_MASK None;
     back \<leftarrow> DoubleBuffer_new 0x1000 CMA_DWORD_MASK None;
     im \<leftarrow> DoubleBuffer_new 0x400 0xFFFF None;
     Some (c\<lparr>pearray := PEArray_new CMA_PE_ARRAY_HEIGHT CMA_PE_ARRAY_WIDTH order,
       dmem_front := front, dmem_back := back, dbank_front := True, imem := im,
       ld_unit := ld, cma_st_unit := STUnit_new st 16, ctrl_reg := ControlReg_new (cr_done (ctrl_reg c)),
       debug_op := 0, resp_data := 0\<rparr>)
   }"

section \<open>Access of the debugger\<close>

definition debug_fetch_regfile :: "u32 \<Rightarrow> micro_controller \<Rightarrow> u32" where
  "debug_fetch_regfile sel m = (if unat sel < CMA_MC_REG_SIZE then ucast (mc_regfile m ! unat sel) else 0)"

definition debug_store_regfile :: "u32 \<Rightarrow> u32 \<Rightarrow> micro_controller \<Rightarrow> micro_controller" where
  "debug_store_regfile sel data m =
     (if unat sel < CMA_MC_REG_SIZE then m\<lparr>mc_regfile := (mc_regfile m)[unat sel := ucast data]\<rparr> else m)"

definition CMA_debug_fetch :: "u8 \<Rightarrow> u8 \<Rightarrow> cma \<Rightarrow> u32" where
  "CMA_debug_fetch md off c =
     (if md = 0 then mc_pc (mc c)
      else if md = 1 then debug_fetch_regfile (ucast off) (mc c)
      else if md = 2 then debug_fetch_launch (ucast off) (pearray c)
      else if md = 3 then debug_fetch_gather (ucast off) (pearray c)
      else if md = CMA_DEBUG_MOD_ALU_L \<or> md = CMA_DEBUG_MOD_ALU_R \<or> md = CMA_DEBUG_MOD_ALU_O
      then debug_fetch_ALU off md (pearray c)
      else 0)"

definition CMA_debug_store :: "u8 \<Rightarrow> u8 \<Rightarrow> u32 \<Rightarrow> cma \<Rightarrow> cma option" where
  "CMA_debug_store md off data c =
     (if md = 0 then Some (c\<lparr>mc := (mc c)\<lparr>mc_pc := data\<rparr>\<rparr>)
      else if md = 1 then Some (c\<lparr>mc := debug_store_regfile (ucast off) data (mc c)\<rparr>)
      else if md = 2 then map_option (\<lambda>pe. c\<lparr>pearray := pe\<rparr>) (debug_store_launch (ucast off) data (pearray c))
      else if md = 3 then map_option (\<lambda>pe. c\<lparr>pearray := pe\<rparr>) (debug_store_gather (ucast off) data (pearray c))
      else if md = CMA_DEBUG_MOD_ALU_L \<or> md = CMA_DEBUG_MOD_ALU_R \<or> md = CMA_DEBUG_MOD_ALU_O
      then map_option (\<lambda>pe. c\<lparr>pearray := pe\<rparr>) (debug_store_ALU off md data (pearray c))
      else Some c)"

definition cmd_parser :: "u32 \<Rightarrow> u8 \<times> u8 \<times> u8 \<times> u8" where
  "cmd_parser cmd = (ucast (drop_bit 24 cmd AND 0xFF), ucast (drop_bit 16 cmd AND 0xFF), ucast (drop_bit 8 cmd AND 0xFF), ucast (cmd AND 0xFF))"

definition dbg_compare :: "u32 \<Rightarrow> u32 \<Rightarrow> u8 \<Rightarrow> bool" where
  "dbg_compare a b comparator =
     (if comparator = 0 then a = b else if comparator = 1 then a \<noteq> b else if comparator = 2 then a > b
      else if comparator = 3 then a < b else if comparator = 4 then a \<ge> b else if comparator = 5 then a \<le> b else False)"

definition CMA_send_command :: "u32 \<Rightarrow> u32 \<Rightarrow> cma \<Rightarrow> cma option" where
  "CMA_send_command cmd arg c =
     (case cmd_parser cmd of (op, f, md, off) \<Rightarrow>
        let c1 = c\<lparr>debug_op := op\<rparr> in
        if op = 1 then Some (c1\<lparr>trgr_arg := arg, trgr_cnd := f, trgr_mod := md, trgr_offset := off\<rparr>)
        else if op = 2 then CMA_debug_store md off arg c1
        else if op = 3 then Some (c1\<lparr>resp_data := CMA_debug_fetch md off c1\<rparr>)
        else Some (c1\<lparr>debug_op := 0\<rparr>))"

definition CMA_isTriggered :: "cma \<Rightarrow> bool" where
  "CMA_isTriggered c = dbg_compare (CMA_debug_fetch (trgr_mod c) (trgr_offset c) c) (trgr_arg c) (trgr_cnd c)"

end
