(* ===== verification/CMA_Graph.thy ===== *)
theory CMA_Graph
  imports CMA_PE
begin

text \<open>
  The connections of the array in closed form: the vector \<open>predecessors\<close> of every node, in the order
  the multiplexers number their inputs by, and \<open>successors\<close> as its converse.
\<close>

section \<open>Sequences of connect\<close>

definition inputs_in :: "pe_node \<Rightarrow> (pe_node \<times> pe_node option) list \<Rightarrow> pe_node option list" where
  "inputs_in n cs = map snd (filter (\<lambda>c. fst c = n) cs)"

lemma inputs_in_simps [simp]:
  "inputs_in n [] = []"
  "inputs_in n (c # cs) = (if fst c = n then [snd c] else []) @ inputs_in n cs"
  "inputs_in n (cs @ ds) = inputs_in n cs @ inputs_in n ds"
  by (simp_all add: inputs_in_def)

lemma inputs_in_none: "(\<And>j. j \<in> set js \<Longrightarrow> inputs_in n (f j) = []) \<Longrightarrow> inputs_in n (concat (map f js)) = []"
  by (induction js) auto

lemma inputs_in_one:
  assumes "k < m" "\<And>j. j \<noteq> k \<Longrightarrow> inputs_in n (f j) = []"
  shows "inputs_in n (concat (map f [0..<m])) = inputs_in n (f k)"
proof -
  have "[0..<m] = [0..<k] @ k # [Suc k..<m]"
    using assms(1) upt_add_eq_append [of 0 k "m - k"] by (simp add: upt_conv_Cons)
  moreover have "inputs_in n (concat (map f [0..<k])) = []" "inputs_in n (concat (map f [Suc k..<m])) = []"
    by (auto intro!: inputs_in_none assms(2))
  ultimately show ?thesis by simp
qed

lemma predecessors_connect:
  "predecessors (foldl connect g cs) n = predecessors g n @ inputs_in n cs"
proof (induction cs arbitrary: g)
  case (Cons c cs)
  have "predecessors (connect g c) n = predecessors g n @ (if fst c = n then [snd c] else [])"
    by (simp add: connect_def Let_def split: prod.split option.split)
  with Cons show ?case by simp
qed simp

lemma successors_connect:
  "successors (foldl connect g cs) p = successors g p @ map fst (filter (\<lambda>c. snd c = Some p) cs)"
proof (induction cs arbitrary: g)
  case (Cons c cs)
  have "successors (connect g c) p = successors g p @ (if snd c = Some p then [fst c] else [])"
    by (simp add: connect_def Let_def split: prod.split option.split)
  with Cons show ?case by simp
qed simp

lemma count_converse:
  "count_list (map fst (filter (\<lambda>c. snd c = p) cs)) n = count_list (map snd (filter (\<lambda>c. fst c = n) cs)) p"
  by (induction cs) auto

lemma successors_count:
  "count_list (successors (PE_graph w h) p) n = count_list (predecessors (PE_graph w h) n) (Some p)"
  by (simp add: PE_graph_def predecessors_connect successors_connect count_converse inputs_in_def)

lemma in_successors: "n \<in> set (successors (PE_graph w h) p) \<longleftrightarrow> Some p \<in> set (predecessors (PE_graph w h) n)"
  by (metis successors_count count_list_0_iff)

section \<open>The inputs of every node\<close>

fun pe_inputs :: "nat \<Rightarrow> nat \<Rightarrow> pe_node \<Rightarrow> pe_node option list" where
  "pe_inputs w h (ALU x y) = (if x < w \<and> y < h then [Some (SEL x y 0), Some (SEL x y 1)] else [])"
| "pe_inputs w h (SEL x y i) =
     (if x < w \<and> y < h \<and> i < 2 then
        [if y = 0 then Some (LAUNCH x) else Some (PREG x (y - 1) 1),
         if x + 1 < w then Some (CH (x + 1) y OUT_SE_WEST) else None,
         if x > 0 then Some (CH (x - 1) y OUT_SE_EAST) else None,
         if y > 0 then Some (PREG x (y - 1) 0) else None,
         if y > 0 \<and> x + 1 < w then Some (PREG (x + 1) (y - 1) 0) else None,
         if y > 0 \<and> x > 0 then Some (PREG (x - 1) (y - 1) 0) else None,
         Some (CREG y), Some (CREG (y + h))]
      else [])"
| "pe_inputs w h (CH x y c) =
     (if x < w \<and> y < h \<and> c < 4 then
        let own = Some (ALU x y);
            south = (if y > 0 then Some (PREG x (y - 1) 1) else Some (LAUNCH x));
            north = (if y < h - 1 then Some (CH x (y + 1) OUT_SE_SOUTH) else None);
            east = (if x < w - 1 then Some (CH (x + 1) y OUT_SE_WEST) else None);
            west = (if x > 0 then Some (CH (x - 1) y OUT_SE_EAST) else None);
            dl_s = (if y > 0 then Some (PREG x (y - 1) 0) else None);
            dl_se = (if y > 0 \<and> x < w - 1 then Some (PREG (x + 1) (y - 1) 0) else None);
            dl_sw = (if y > 0 \<and> x > 0 then Some (PREG (x - 1) (y - 1) 0) else None)
        in if c = OUT_SE_NORTH then [own, south, east, west, dl_s, dl_se, dl_sw, Some (CREG y)]
           else if c = OUT_SE_SOUTH then [own, north, east, west]
           else if c = OUT_SE_EAST then [own, south, west, dl_s, dl_se, dl_sw]
           else [south, east, dl_s, dl_se]
      else [])"
| "pe_inputs w h (PREG x y i) =
     (if x < w \<and> y < h - 1 \<and> i < 2 then [if i = 0 then Some (ALU x y) else Some (CH x y OUT_SE_NORTH)] else [])"
| "pe_inputs w h (GATHER x) = (if x < w then [Some (CH x 0 OUT_SE_SOUTH)] else [])"
| "pe_inputs w h (CREG i) = []"
| "pe_inputs w h (LAUNCH x) = []"

definition cell :: "nat \<Rightarrow> nat \<Rightarrow> nat \<Rightarrow> nat \<Rightarrow> (pe_node \<times> pe_node option) list" where
  "cell w h x y = alu_inputs w h x y @ se_inputs w h x y"

fun at_cell :: "nat \<Rightarrow> nat \<Rightarrow> pe_node \<Rightarrow> bool" where
  "at_cell x y (SEL a b i) = (a = x \<and> b = y)"
| "at_cell x y (CH a b c) = (a = x \<and> b = y)"
| "at_cell x y (PREG a b i) = (a = x \<and> b = y)"
| "at_cell x y _ = False"

lemma cell_other: "\<not> at_cell x y n \<Longrightarrow> inputs_in n (cell w h x y) = []"
  by (cases n) (auto simp: cell_def alu_inputs_def se_inputs_def Let_def direction_defs upt_rec)

lemma connection_other:
  "(\<And>x y. \<not> at_cell x y n) \<Longrightarrow> (\<And>x. n \<noteq> GATHER x) \<Longrightarrow> inputs_in n (make_connection w h) = []"
  unfolding make_connection_def cell_def [symmetric]
  by (intro inputs_in_none) (auto intro!: inputs_in_none simp: cell_other)

lemma connection_cell:
  assumes "at_cell x y n"
  shows "inputs_in n (make_connection w h) = (if x < w \<and> y < h then inputs_in n (cell w h x y) else [])"
proof -
  have u: "at_cell a b n \<Longrightarrow> a = x \<and> b = y" for a b using assms by (cases n) auto
  have g: "n \<noteq> GATHER a" for a using assms by (cases n) auto
  have out: "inputs_in n (concat (map (cell w h a) [0..<h])) = []" if "a \<noteq> x \<or> h \<le> y" for a
    using that u by (intro inputs_in_none cell_other) auto
  have inn: "inputs_in n (concat (map (cell w h x) [0..<h])) = inputs_in n (cell w h x y)" if "y < h"
    using that u by (intro inputs_in_one cell_other) blast+
  show ?thesis
  proof (cases "x < w")
    case True
    have "inputs_in n (make_connection w h) =
        inputs_in n (concat (map (cell w h x) [0..<h]) @ [(GATHER x, Some (CH x 0 OUT_SE_SOUTH))])"
      unfolding make_connection_def cell_def [symmetric]
      using True out g by (intro inputs_in_one) (simp_all add: not_sym [OF g])
    with out inn g True show ?thesis by (auto simp: not_sym [OF g])
  next
    case False
    with out g show ?thesis
      unfolding make_connection_def cell_def [symmetric]
      by (auto intro!: inputs_in_none simp: not_sym [OF g])
  qed
qed

lemma alu_connections_in:
  "inputs_in n (alu_connections w h) =
     (case n of ALU x y \<Rightarrow> if x < w \<and> y < h then [Some (SEL x y 0), Some (SEL x y 1)] else [] | _ \<Rightarrow> [])"
proof (cases n)
  case (ALU x y)
  let ?c = "\<lambda>x y. [(ALU x y, Some (SEL x y 0)), (ALU x y, Some (SEL x y 1))]"
  have out: "inputs_in n (concat (map (?c a) [0..<h])) = []" if "a \<noteq> x \<or> h \<le> y" for a
    using that ALU by (intro inputs_in_none) auto
  have inn: "inputs_in n (concat (map (?c x) [0..<h])) = inputs_in n (?c x y)" if "y < h"
    using that ALU by (intro inputs_in_one) auto
  show ?thesis
  proof (cases "x < w")
    case True
    have "inputs_in n (alu_connections w h) = inputs_in n (concat (map (?c x) [0..<h]))"
      unfolding alu_connections_def using True out by (intro inputs_in_one) simp_all
    with out inn ALU True show ?thesis by auto
  next
    case False
    with out ALU show ?thesis unfolding alu_connections_def by (auto intro!: inputs_in_none)
  qed
qed (auto simp: alu_connections_def intro!: inputs_in_none)

lemma gather_connection: "inputs_in (GATHER x) (make_connection w h) = (if x < w then [Some (CH x 0 OUT_SE_SOUTH)] else [])"
proof -
  let ?f = "\<lambda>x. concat (map (cell w h x) [0..<h]) @ [(GATHER x, Some (CH x 0 OUT_SE_SOUTH))]"
  have c: "inputs_in (GATHER x) (concat (map (cell w h a) [0..<h])) = []" for a
    by (intro inputs_in_none) (simp add: cell_other)
  have "inputs_in (GATHER x) (concat (map ?f [0..<w])) = inputs_in (GATHER x) (?f x)" if "x < w"
    by (rule inputs_in_one [OF that]) (simp add: c)
  moreover have "inputs_in (GATHER x) (concat (map ?f [0..<w])) = []" if "\<not> x < w"
    by (rule inputs_in_none) (use that in \<open>auto simp: c\<close>)
  ultimately show ?thesis using c unfolding make_connection_def cell_def [symmetric] by simp
qed

lemma cell_in:
  assumes "x < w" "y < h" "at_cell x y n"
  shows "inputs_in n (cell w h x y) = pe_inputs w h n"
proof (cases n)
  case (SEL a b i)
  consider "i = 0" | "i = 1" | "i \<ge> 2" by linarith
  then show ?thesis
    using assms SEL
    by cases (auto simp: cell_def alu_inputs_def se_inputs_def se_to_alu_def dl_to_alu_def Let_def direction_defs upt_rec
        nat_diff_distrib nat_add_distrib)
next
  case (CH a b c)
  consider "c = 0" | "c = 1" | "c = 2" | "c = 3" | "c \<ge> 4" by linarith
  then show ?thesis
    using assms CH
    by cases (auto simp: cell_def alu_inputs_def se_inputs_def Let_def direction_defs upt_rec)
next
  case (PREG a b i)
  consider "i = 0" | "i = 1" | "i \<ge> 2" by linarith
  then show ?thesis
    using assms PREG
    by cases (auto simp: cell_def alu_inputs_def se_inputs_def Let_def direction_defs upt_rec)
qed (use assms in auto)

lemma PE_graph_inputs: "predecessors (PE_graph w h) n = pe_inputs w h n"
proof -
  have g: "predecessors (PE_graph w h) n = inputs_in n (alu_connections w h) @ inputs_in n (make_connection w h)"
    by (simp add: PE_graph_def predecessors_connect)
  show ?thesis
  proof (cases "\<exists>x y. at_cell x y n")
    case True
    then obtain x y where xy: "at_cell x y n" by blast
    moreover have "pe_inputs w h n = []" if "\<not> (x < w \<and> y < h)" using xy that by (cases n) auto
    moreover have "inputs_in n (alu_connections w h) = []" using xy by (cases n) (simp_all add: alu_connections_in)
    ultimately show ?thesis using g by (auto simp: connection_cell [OF xy] cell_in)
  next
    case False
    have p: "inputs_in n (make_connection w h) = []" if "\<And>x. n \<noteq> GATHER x"
      by (rule connection_other) (use False that in auto)
    from False p g show ?thesis
      by (cases n) (auto simp: alu_connections_in gather_connection)
  qed
qed

section \<open>Consequences\<close>

fun on_array :: "nat \<Rightarrow> nat \<Rightarrow> pe_node \<Rightarrow> bool" where
  "on_array w h (ALU x y) = (x < w \<and> y < h)"
| "on_array w h (SEL x y i) = (x < w \<and> y < h \<and> i < 2)"
| "on_array w h (CH x y c) = (x < w \<and> y < h \<and> c < 4)"
| "on_array w h (CREG i) = (i < 2 * h)"
| "on_array w h (PREG x y i) = (x < w \<and> y < h - 1 \<and> i < 2)"
| "on_array w h (LAUNCH x) = (x < w)"
| "on_array w h (GATHER x) = (x < w)"

lemma set_PE_nodes: "n \<in> set (PE_nodes w h) \<longleftrightarrow> on_array w h n"
proof (cases n)
  case (CREG i)
  have "i < 2 * h \<longleftrightarrow> (\<exists>y < h. i = y \<or> i = y + h)"
    by (cases "i < h") (auto intro: exI [of _ "i - h"])
  with CREG show ?thesis by (auto simp: PE_nodes_def)
qed (auto simp: PE_nodes_def less_2_cases_iff, fastforce+)

lemma inputs_on_array:
  "0 < h \<Longrightarrow> on_array w h n \<Longrightarrow> Some p \<in> set (pe_inputs w h n) \<Longrightarrow> on_array w h p"
  by (cases n) (auto simp: direction_defs Let_def split: if_splits)

lemma inputs_of_array: "Some p \<in> set (pe_inputs w h n) \<Longrightarrow> on_array w h n"
  by (cases n) (auto split: if_splits)

lemma preg_feeds_mux: "Some (PREG x y i) \<in> set (pe_inputs w h n) \<Longrightarrow> is_mux n"
  by (cases n) (auto split: if_splits)

lemma count_distinct: "distinct (filter (\<lambda>x. x \<noteq> None) xs) \<Longrightarrow> count_list xs (Some p) \<le> 1"
proof (induction xs)
  case (Cons x xs)
  then show ?case by (cases "x = Some p") (auto simp: count_list_0_iff split: if_splits)
qed simp

lemma mux_inputs_distinct:
  assumes "is_mux n"
  shows "count_list (pe_inputs w h n) (Some p) \<le> 1"
proof (rule count_distinct, cases n)
  case (SEL x y i)
  then show "distinct (filter (\<lambda>x. x \<noteq> None) (pe_inputs w h n))"
    by (cases "y = 0"; cases "x = 0"; cases "x + 1 < w") (auto simp: direction_defs)
next
  case (CH x y c)
  then show "distinct (filter (\<lambda>x. x \<noteq> None) (pe_inputs w h n))"
    by (cases "y = 0"; cases "x = 0"; cases "x < w - 1"; cases "y < h - 1") (auto simp: direction_defs Let_def)
qed (use assms in simp_all)

lemma mux_inputs_length: "is_mux n \<Longrightarrow> on_array w h n \<Longrightarrow> 4 \<le> length (pe_inputs w h n) \<and> length (pe_inputs w h n) \<le> 8"
  by (cases n) (auto simp: direction_defs Let_def)

end
