(* ===== verification/CMA_Exec.thy ===== *)
theory CMA_Exec
  imports CMA_Flow
begin

text \<open>
  One cycle of the array, \<^const>\<open>PEArray_exec\<close>, against the values of \<^const>\<open>computes\<close>: the nodes on
  the sorted list are executed when their inputs are there, the gather registers take the values
  of their channels, and the update leaves the queues as they were before.
\<close>

section \<open>What the steps keep\<close>

declare getData.simps [simp del]

text \<open>Everything but the queues and the latches of the registers.\<close>

definition same_conf :: "pe_array \<Rightarrow> pe_array \<Rightarrow> bool" where
  "same_conf a b \<longleftrightarrow> b = a\<lparr>obuf := obuf b, latch := latch b\<rparr>"

lemma same_conf_refl [simp]: "same_conf a a"
  by (simp add: same_conf_def)

lemma same_conf_trans: "same_conf a b \<Longrightarrow> same_conf b c \<Longrightarrow> same_conf a c"
  by (cases a; cases b; cases c) (simp add: same_conf_def)

lemma same_conf_fields:
  assumes "same_conf a b"
  shows "pa_width b = pa_width a" "pa_height b = pa_height a" "pa_graph b = pa_graph a" "pa_order b = pa_order a"
    "config_data b = config_data a" "opcode b = opcode a" "activated b = activated a" "const_data b = const_data a"
    "config_changed b = config_changed a" "tsorted_list b = tsorted_list a"
    "deref_pred b n i = deref_pred a n i" "MUX_isUse b n p = MUX_isUse a n p"
  using assms by (cases a; cases b; simp add: same_conf_def deref_pred_def MUX_isUse_def)+

lemma push_obuf_simps [simp]:
  "same_conf a (push_obuf n v a)" "obuf (push_obuf n v a) = (obuf a)(n := obuf a n @ [v])"
  "latch (push_obuf n v a) = latch a"
  by (simp_all add: same_conf_def push_obuf_def)

lemma pop_obuf_SomeD:
  "pop_obuf n a = Some b \<Longrightarrow> obuf a n \<noteq> [] \<and> same_conf a b \<and> obuf b = (obuf a)(n := tl (obuf a n)) \<and> latch b = latch a"
  by (auto simp: pop_obuf_def same_conf_def split: if_splits)

lemma getData_cong: "const_data b = const_data a \<Longrightarrow> obuf b n = obuf a n \<Longrightarrow> getData b n = getData a n"
  by (cases n) (simp_all add: getData.simps)

lemma getData_single: "inner_node n \<Longrightarrow> obuf a n = [v] \<Longrightarrow> getData a n = v"
  by (cases n) (simp_all add: getData.simps)

lemma getData_empty: "inner_node n \<Longrightarrow> obuf a n = [] \<Longrightarrow> getData a n = 0"
  by (cases n) (simp_all add: getData.simps)

lemma each_node_append:
  "each_node f (ms @ ns) a = (case each_node f ms a of None \<Rightarrow> None | Some b \<Rightarrow> each_node f ns b)"
  by (induction ms arbitrary: a) (simp_all split: option.split)

text \<open>What the values depend on.\<close>

definition same_view :: "pe_array \<Rightarrow> pe_array \<Rightarrow> bool" where
  "same_view a b \<longleftrightarrow> pa_width b = pa_width a \<and> pa_height b = pa_height a \<and> pa_graph b = pa_graph a \<and>
     obuf b = obuf a \<and> config_data b = config_data a \<and> opcode b = opcode a \<and> activated b = activated a \<and>
     latch b = latch a \<and> const_data b = const_data a"

lemma same_view_sym: "same_view a b \<Longrightarrow> same_view b a"
  by (simp add: same_view_def)

lemma isUse_view: "same_view a b \<Longrightarrow> isUse b n p = isUse a n p"
  by (cases n) (simp_all add: same_view_def MUX_isUse_def)

lemma deref_view: "same_view a b \<Longrightarrow> deref_pred b n i = deref_pred a n i"
  by (simp add: same_view_def deref_pred_def)

lemma computes_view_mono: "computes a n v \<Longrightarrow> same_view a b \<Longrightarrow> computes b n v"
proof (induction rule: computes.induct)
  case (computes_const i)
  then have "computes b (CREG i) (getData b (CREG i))" by (intro computes.computes_const) (simp add: same_view_def)
  with computes_const show ?case by (simp add: same_view_def getData_cong [of b a])
next
  case (computes_launch x)
  then have "computes b (LAUNCH x) (getData b (LAUNCH x))" by (intro computes.computes_launch) (simp add: same_view_def)
  with computes_launch show ?case by (simp add: same_view_def getData_cong [of b a])
next
  case (computes_mux n p v)
  moreover have "config_data b = config_data a" using computes_mux.prems by (simp add: same_view_def)
  ultimately show ?case by (intro computes.computes_mux [of n b p]) (simp_all add: deref_view)
next
  case (computes_alu x y p q u v r)
  moreover have "opcode b = opcode a" using computes_alu.prems by (simp add: same_view_def)
  ultimately show ?case by (intro computes.computes_alu [of b x y p q u v]) (simp_all add: deref_view)
next
  case (computes_preg x y i p v)
  have "computes b (PREG x y i) (if activated b (PREG x y i) then latch b (PREG x y i) else v)"
    using computes_preg by (intro computes.computes_preg [of b x y i p]) (simp_all add: deref_view isUse_view del: isUse.simps)
  moreover have "activated b = activated a" "latch b = latch a" using computes_preg.prems by (simp_all add: same_view_def)
  ultimately show ?case by (simp cong: if_cong)
qed

lemma computes_view: "same_view a b \<Longrightarrow> computes b n v = computes a n v"
  using computes_view_mono same_view_sym by blast

section \<open>The inputs of a node on the list\<close>

definition listed :: "pe_array \<Rightarrow> pe_node \<Rightarrow> bool" where
  "listed a n \<longleftrightarrow> use_successors a n \<noteq> []"

lemma used_is_listed: "pe_wf a \<Longrightarrow> p \<in> used_inputs a n \<Longrightarrow> listed a p"
  by (metis listed_def used_inputs_eq empty_iff empty_set)

lemma used_in: "p \<in> used_inputs a n \<Longrightarrow> Some p \<in> set (preds a n)"
  by (cases n) (auto simp: mux_input_in split: if_splits)

lemma no_gather_input: "Some (GATHER x) \<notin> set (pe_inputs w h n)"
  by (cases n) (simp_all add: Let_def)

lemma gather_not_listed: "pe_wf a \<Longrightarrow> \<not> listed a (GATHER x)"
proof -
  assume w: "pe_wf a"
  have "n \<notin> set (use_successors a (GATHER x))" for n
  proof
    assume "n \<in> set (use_successors a (GATHER x))"
    then have "GATHER x \<in> used_inputs a n" by (simp add: used_inputs_eq [OF w])
    from used_in [OF this] show False by (simp add: preds_eq [OF w] no_gather_input)
  qed
  then show ?thesis by (cases "use_successors a (GATHER x)") (auto simp: listed_def)
qed

lemma isUse_deref: "MUX_isUse a n p \<longleftrightarrow> deref_pred a n (unat (config_data a n)) = Some p"
  by (simp add: MUX_isUse_def deref_pred_def)

lemma mux_used: "is_mux n \<Longrightarrow> used_inputs a n = {p. MUX_isUse a n p}"
  by (cases n) simp_all

text \<open>The inputs the node reads when it executes, by its class.\<close>

fun reads :: "pe_array \<Rightarrow> pe_node \<Rightarrow> pe_node list" where
  "reads a (ALU x y) = [SEL x y 0, SEL x y 1]"
| "reads a (PREG x y i) = [if i = 0 then ALU x y else CH x y OUT_SE_NORTH]"
| "reads a (GATHER x) = [CH x 0 OUT_SE_SOUTH]"
| "reads a (CREG i) = []"
| "reads a (LAUNCH x) = []"
| "reads a n = (case preds a n ! unat (config_data a n) of None \<Rightarrow> [] | Some p \<Rightarrow> [p])"

lemma mux_reads: "is_mux n \<Longrightarrow> MUX_isUse a n p \<Longrightarrow> reads a n = [p]"
  by (cases n) (simp_all add: MUX_isUse_def)

lemma input_before:
  assumes w: "pe_wf a" and s: "supplied_nodes a = xs @ n # ys"
  shows "set (reads a n) \<subseteq> set xs" "set (reads a n) \<subseteq> {p. listed a p}"
    "is_mux n \<Longrightarrow> \<exists>p. deref_pred a n (unat (config_data a n)) = Some p \<and> reads a n = [p]"
    "n = ALU x y \<Longrightarrow> opcode a n \<noteq> 0 \<and> deref_pred a n 0 = Some (SEL x y 0) \<and> deref_pred a n 1 = Some (SEL x y 1)"
    "n = PREG x y i \<Longrightarrow> \<exists>p. isUse a n p \<and> deref_pred a n 0 = Some p \<and> reads a n = [p]"
proof -
  have n: "on_array (pa_width a) (pa_height a) n" using supplied_facts(2) [OF w, of n] s by simp
  have f: "used_inputs a n \<subseteq> set xs" "int (card (used_inputs a n)) = in_degree n"
    using supplied_facts(4) [OF w s] by auto
  have m: "\<exists>p. MUX_isUse a n p \<and> used_inputs a n = {p} \<and> deref_pred a n (unat (config_data a n)) = Some p \<and> reads a n = [p]"
    if mx: "is_mux n"
  proof -
    have "card (used_inputs a n) = 1" using f(2) mx by (cases n) auto
    then obtain p where p: "used_inputs a n = {p}" by (auto simp: card_1_singleton_iff)
    with mx have "MUX_isUse a n p" by (auto simp: mux_used)
    with p mux_reads [OF mx this] show ?thesis by (auto simp: isUse_deref)
  qed
  have al: "opcode a n \<noteq> 0 \<and> used_inputs a n = {SEL x y 0, SEL x y 1}" if "n = ALU x y" for x y
    using f(2) n that w by (auto simp: preds_eq split: if_splits)
  have pr: "\<exists>p. isUse a n p \<and> used_inputs a n = {p} \<and> deref_pred a n 0 = Some p \<and> reads a n = [p]" if "n = PREG x y i" for x y i
  proof -
    have "card (used_inputs a n) = 1" using f(2) that by simp
    then obtain p where p: "used_inputs a n = {p}" by (auto simp: card_1_singleton_iff)
    have q: "preds a n = [Some (if i = 0 then ALU x y else CH x y OUT_SE_NORTH)]"
      using n that by (simp add: preds_eq [OF w])
    with used_in [of p a n] p have e: "p = (if i = 0 then ALU x y else CH x y OUT_SE_NORTH)" by simp
    have "isUse a n p" using p that by auto
    moreover have "deref_pred a n 0 = Some p" using q e by (simp add: deref_pred_def)
    moreover have "reads a n = [p]" using that e by simp
    ultimately show ?thesis using p by (intro exI [of _ p] conjI)
  qed
  have r: "set (reads a n) \<subseteq> used_inputs a n"
  proof (cases "is_mux n")
    case True
    then obtain p where "used_inputs a n = {p}" "reads a n = [p]" using m by blast
    then show ?thesis by (simp only: list.set subset_refl)
  next
    case False
    show ?thesis
    proof (cases n)
      case (ALU x y)
      have "used_inputs a n = {SEL x y 0, SEL x y 1}" using al [OF ALU] by (rule conjunct2)
      moreover have "reads a n = [SEL x y 0, SEL x y 1]" using ALU by simp
      ultimately show ?thesis by (simp only: list.set subset_refl)
    next
      case (PREG x y i)
      then obtain p where "used_inputs a n = {p}" "reads a n = [p]" using pr by blast
      then show ?thesis by (simp only: list.set subset_refl)
    next
      case (GATHER x)
      with w n show ?thesis by (auto simp: preds_eq)
    qed (use False in auto)
  qed
  with f(1) show "set (reads a n) \<subseteq> set xs" by blast
  from r used_is_listed [OF w] show "set (reads a n) \<subseteq> {p. listed a p}" by blast
  show "is_mux n \<Longrightarrow> \<exists>p. deref_pred a n (unat (config_data a n)) = Some p \<and> reads a n = [p]" using m by blast
  show "n = ALU x y \<Longrightarrow> opcode a n \<noteq> 0 \<and> deref_pred a n 0 = Some (SEL x y 0) \<and> deref_pred a n 1 = Some (SEL x y 1)"
    using al n w by (auto simp: deref_pred_def preds_eq)
  show "n = PREG x y i \<Longrightarrow> \<exists>p. isUse a n p \<and> deref_pred a n 0 = Some p \<and> reads a n = [p]" using pr by blast
qed

section \<open>Executing the list\<close>

text \<open>An ALU on the list whose operation is undefined for the values it gets: a shift by 32 or more.\<close>

definition alu_fault :: "pe_array \<Rightarrow> bool" where
  "alu_fault a \<longleftrightarrow> (\<exists>x y u v. opcode a (ALU x y) \<noteq> 0 \<and> computes a (SEL x y 0) u \<and> computes a (SEL x y 1) v \<and>
     (PE_op_table ! unat (opcode a (ALU x y))) u v = None)"

definition new_latch :: "pe_array \<Rightarrow> pe_node \<Rightarrow> u32 \<Rightarrow> bool" where
  "new_latch a n v \<longleftrightarrow> (\<exists>p. deref_pred a n 0 = Some p \<and> computes a p v)"

fun is_preg :: "pe_node \<Rightarrow> bool" where
  "is_preg (PREG x y i) = True"
| "is_preg _ = False"

definition ran :: "pe_array \<Rightarrow> pe_node set \<Rightarrow> pe_array \<Rightarrow> bool" where
  "ran a A b \<longleftrightarrow> same_conf a b \<and>
     (\<forall>n \<in> A. listed a n \<longrightarrow> computes a n (getData b n)) \<and>
     (\<forall>n. obuf b n = (if inner_node n \<and> n \<in> A \<and> listed a n then [getData b n] else obuf a n)) \<and>
     (\<forall>n. if is_preg n \<and> activated a n \<and> n \<in> A \<and> listed a n then new_latch a n (latch b n) else latch b n = latch a n)"

lemma ran_push:
  assumes r: "ran a A b" and n: "inner_node n" "n \<notin> A" "listed a n" "obuf a n = []" and c: "computes a n v"
    and l: "if is_preg n \<and> activated a n then new_latch a n l else l = latch a n"
  shows "ran a (insert n A) ((push_obuf n v b)\<lparr>latch := (latch b)(n := l)\<rparr>)"
proof -
  let ?b = "(push_obuf n v b)\<lparr>latch := (latch b)(n := l)\<rparr>"
  have s: "same_conf a ?b" using r by (cases a; cases b) (simp add: ran_def same_conf_def push_obuf_def)
  have e: "obuf b n = []" using r n by (simp add: ran_def)
  have gn: "getData ?b n = v" by (rule getData_single [OF n(1)]) (simp add: e)
  have go: "getData ?b m = getData b m" if "m \<noteq> n" for m
    by (rule getData_cong) (use that in \<open>simp_all add: push_obuf_def\<close>)
  have c': "\<forall>m \<in> insert n A. listed a m \<longrightarrow> computes a m (getData ?b m)"
    using r c gn go n(2) unfolding ran_def by (metis insert_iff)
  have o: "obuf ?b m = (if inner_node m \<and> m \<in> insert n A \<and> listed a m then [getData ?b m] else obuf a m)" for m
    using r n gn go [of m] by (auto simp: ran_def e)
  have l': "if is_preg m \<and> activated a m \<and> m \<in> insert n A \<and> listed a m then new_latch a m (latch ?b m) else latch ?b m = latch a m" for m
    using r n l by (auto simp: ran_def)
  show ?thesis using s c' o l' unfolding ran_def by blast
qed

lemma exec_next:
  assumes w: "pe_wf a" and s: "supplied_nodes a = xs @ n # ys" and r: "ran a (set xs) b" and n: "listed a n"
  shows "case exec_node n b of None \<Rightarrow> alu_fault a | Some c \<Rightarrow> ran a (insert n (set xs)) c"
proof -
  have c: "same_conf a b" using r by (simp add: ran_def)
  note cf = same_conf_fields [OF c]
  have new: "n \<notin> set xs" using supplied_facts(1) [OF w] s by simp
  have v: "computes a p (getData b p)" if "p \<in> set (reads a n)" for p
    using input_before(1,2) [OF w s] that r by (auto simp: ran_def)
  have e: "inner_node n \<Longrightarrow> obuf a n = []" using w by (simp add: pe_wf_def)
  have on: "on_array (pa_width a) (pa_height a) n" using supplied_facts(2) [OF w, of n] s by simp
  have src: "getData b n = getData a n" if "\<not> inner_node n"
    by (rule getData_cong) (use r cf that in \<open>simp_all add: ran_def\<close>)
  have lb: "latch b n = latch a n" using r new by (auto simp: ran_def split: if_splits)
  have same: "(push_obuf n u b)\<lparr>latch := (latch b)(n := latch a n)\<rparr> = push_obuf n u b" for u
    using lb by (simp add: push_obuf_def fun_upd_idem)
  have mux: "case MUX_exec n b of None \<Rightarrow> alu_fault a | Some c \<Rightarrow> ran a (insert n (set xs)) c" if m: "is_mux n"
  proof -
    obtain p where p: "deref_pred a n (unat (config_data a n)) = Some p" "reads a n = [p]"
      using input_before(3) [OF w s m] by blast
    have i: "inner_node n" "\<not> is_preg n" using m by (cases n; simp)+
    have "computes a n (getData b p)" using computes_mux [OF m p(1) v] p(2) by simp
    from ran_push [OF r i(1) new n e this, of "latch a n"] i p(1) show ?thesis
      by (simp add: MUX_exec_def cf same)
  qed
  show ?thesis
  proof (cases n)
    case (ALU x y)
    have o: "opcode a n \<noteq> 0" "deref_pred a n 0 = Some (SEL x y 0)" "deref_pred a n 1 = Some (SEL x y 1)"
      using input_before(4) [OF w s ALU] by auto
    have ab: "computes a (SEL x y 0) (getData b (SEL x y 0))" "computes a (SEL x y 1) (getData b (SEL x y 1))"
      using v ALU by simp_all
    show ?thesis
    proof (cases "(PE_op_table ! unat (opcode a n)) (getData b (SEL x y 0)) (getData b (SEL x y 1))")
      case None
      with o ab ALU have "alu_fault a" unfolding alu_fault_def by blast
      with None o ALU show ?thesis by (simp add: cf)
    next
      case (Some u)
      have "computes a n u" using computes_alu o ab Some ALU by blast
      from ran_push [OF r _ new n e this, of "latch a n"] Some o ALU show ?thesis
        by (simp add: cf same [unfolded ALU])
    qed
  next
    case (PREG x y i)
    obtain p where p: "isUse a n p" "deref_pred a n 0 = Some p" "reads a n = [p]"
      using input_before(5) [OF w s PREG] by blast
    have vp: "computes a p (getData b p)" using v p(3) by simp
    have g: "computes a n (if activated a n then latch a n else getData b p)"
      unfolding PREG by (rule computes_preg [OF _ _ vp]) (use p PREG in \<open>simp_all del: isUse.simps\<close>)
    have nl: "new_latch a n (getData b p)" using p(2) vp by (auto simp: new_latch_def)
    show ?thesis
    proof (cases "activated a n")
      case True
      from ran_push [OF r _ new n e, of "latch a n" "getData b p"] True g nl lb p(2) PREG show ?thesis
        by (simp add: cf)
    next
      case False
      from ran_push [OF r _ new n e, of "getData b p" "latch a n"] False g p(2) PREG show ?thesis
        by (simp add: cf same [unfolded PREG])
    qed
  next
    case (GATHER x)
    with w have "\<not> listed a n" by (simp add: gather_not_listed)
    with n show ?thesis by simp
  next
    case (CREG i)
    have "computes a n (getData a n)" using computes_const on CREG by simp
    then show ?thesis using r CREG src by (auto simp: ran_def)
  next
    case (LAUNCH x)
    have "computes a n (getData a n)" using computes_launch on LAUNCH by simp
    then show ?thesis using r LAUNCH src by (auto simp: ran_def)
  qed (use mux in simp_all)
qed

lemma exec_list:
  assumes w: "pe_wf a" and s: "supplied_nodes a = xs @ ys"
  shows "case each_node exec_node (filter (listed a) xs) a of None \<Rightarrow> alu_fault a | Some b \<Rightarrow> ran a (set xs) b"
  using s
proof (induction xs arbitrary: ys rule: rev_induct)
  case Nil
  have "ran a {} a" by (simp add: ran_def)
  then show ?case by simp
next
  case (snoc n xs)
  have s: "supplied_nodes a = xs @ n # ys" using snoc.prems by simp
  note ih = snoc.IH [OF s]
  show ?case
  proof (cases "each_node exec_node (filter (listed a) xs) a")
    case None
    with ih show ?thesis by (simp add: each_node_append)
  next
    case (Some b)
    with ih have r: "ran a (set xs) b" by simp
    show ?thesis
    proof (cases "listed a n")
      case True
      with exec_next [OF w s r True] Some show ?thesis
        by (auto simp: each_node_append split: option.splits)
    next
      case False
      with r Some show ?thesis by (auto simp: each_node_append ran_def)
    qed
  qed
qed

lemma pred_on_array:
  assumes "pe_wf a" "on_array (pa_width a) (pa_height a) n" "Some p \<in> set (preds a n)"
  shows "on_array (pa_width a) (pa_height a) p"
proof -
  have "0 < pa_height a" using assms(1) by (simp add: pe_wf_def)
  from inputs_on_array [OF this assms(2)] assms(3) show ?thesis by (simp add: preds_eq [OF assms(1)])
qed

text \<open>A node with a value gets all its inputs.\<close>

lemma computes_supplied: "computes a n v \<Longrightarrow> pe_wf a \<Longrightarrow> on_array (pa_width a) (pa_height a) n \<Longrightarrow> n \<in> set (supplied_nodes a)"
proof (induction rule: computes.induct)
  case (computes_const i)
  then show ?case using supplied_facts(5) [of a "CREG i"] by simp
next
  case (computes_launch x)
  then show ?case using supplied_facts(5) [of a "LAUNCH x"] by simp
next
  case (computes_mux n p v)
  have u: "used_inputs a n = {p}" "Some p \<in> set (preds a n)"
    using computes_mux.hyps by (simp_all add: mux_used isUse_deref mux_input_in)
  have "on_array (pa_width a) (pa_height a) p"
    using pred_on_array u(2) computes_mux.prems by blast
  then have "p \<in> set (supplied_nodes a)" using computes_mux by blast
  with u computes_mux show ?case using supplied_facts(5) [of a n] by (cases n) auto
next
  case (computes_alu x y p q u v r)
  have i: "p = SEL x y 0" "q = SEL x y 1" using computes_alu.hyps computes_alu.prems
    by (auto simp: deref_pred_def preds_eq split: if_splits)
  have "p \<in> set (supplied_nodes a)" "q \<in> set (supplied_nodes a)" using computes_alu i by simp_all
  moreover have "used_inputs a (ALU x y) = {p, q}" using computes_alu i by (auto simp: preds_eq)
  moreover have "p \<noteq> q" using i by simp
  ultimately show ?case using supplied_facts(5) [of a "ALU x y"] computes_alu.prems by simp
next
  case (computes_preg x y i p v)
  have u: "used_inputs a (PREG x y i) = {p}" "Some p \<in> set (preds a (PREG x y i))"
    using computes_preg.hyps computes_preg.prems by (auto simp: deref_pred_def preds_eq split: if_splits)
  have "on_array (pa_width a) (pa_height a) p"
    using pred_on_array u(2) computes_preg.prems by blast
  then have "p \<in> set (supplied_nodes a)" using computes_preg by blast
  with u computes_preg show ?case using supplied_facts(5) [of a "PREG x y i"] by simp
qed

end
