(* ===== verification/CMA_Cycle.thy ===== *)
theory CMA_Cycle
  imports CMA_Exec
begin

text \<open>
  The whole cycle of the array: the sorted list, the gather registers, the update. The last section
  shows that configuration and the ports keep the array well formed.
\<close>

section \<open>The gather registers\<close>

lemma gather_node:
  assumes w: "pe_wf a" and c: "same_conf a b" and l: "length (obuf b (GATHER x)) = 1" and x: "x < pa_width a"
  shows "exec_node (GATHER x) b = Some (b\<lparr>obuf := (obuf b)(GATHER x := [getData b (CH x 0 OUT_SE_SOUTH)])\<rparr>)"
proof -
  obtain v where v: "obuf b (GATHER x) = [v]" using l by (cases "obuf b (GATHER x)") auto
  let ?c = "b\<lparr>obuf := (obuf b)(GATHER x := [])\<rparr>"
  have p: "preds a (GATHER x) = [Some (CH x 0 OUT_SE_SOUTH)]" using x by (simp add: preds_eq [OF w])
  have "deref_pred ?c (GATHER x) 0 = Some (CH x 0 OUT_SE_SOUTH)"
    using p by (simp add: deref_pred_def same_conf_fields [OF c])
  moreover have "getData ?c (CH x 0 OUT_SE_SOUTH) = getData b (CH x 0 OUT_SE_SOUTH)"
    by (rule getData_cong) simp_all
  ultimately show ?thesis using v by (simp add: pop_obuf_def push_obuf_def)
qed

lemma gather_all:
  assumes w: "pe_wf a" and c: "same_conf a b" and l: "\<And>x. length (obuf b (GATHER x)) = 1" and k: "k \<le> pa_width a"
  shows "each_node exec_node (map GATHER [0..<k]) b =
    Some (b\<lparr>obuf := (\<lambda>n. case n of GATHER x \<Rightarrow> if x < k then [getData b (CH x 0 OUT_SE_SOUTH)] else obuf b n | _ \<Rightarrow> obuf b n)\<rparr>)"
  using k
proof (induction k)
  case 0
  have "(\<lambda>n. case n of GATHER x \<Rightarrow> if x < 0 then [getData b (CH x 0 OUT_SE_SOUTH)] else obuf b n | _ \<Rightarrow> obuf b n) = obuf b"
    by (rule ext) (simp split: pe_node.split)
  then show ?case by simp
next
  case (Suc k)
  let ?o = "\<lambda>k n. case n of GATHER x \<Rightarrow> if x < k then [getData b (CH x 0 OUT_SE_SOUTH)] else obuf b n | _ \<Rightarrow> obuf b n"
  let ?c = "b\<lparr>obuf := ?o k\<rparr>"
  have s: "same_conf a ?c" using c by (cases a; cases b) (simp add: same_conf_def)
  have g: "getData ?c (CH k 0 OUT_SE_SOUTH) = getData b (CH k 0 OUT_SE_SOUTH)" by (rule getData_cong) simp_all
  have "exec_node (GATHER k) ?c = Some (?c\<lparr>obuf := (obuf ?c)(GATHER k := [getData ?c (CH k 0 OUT_SE_SOUTH)])\<rparr>)"
    by (rule gather_node [OF w s]) (use l Suc.prems in simp_all)
  also have "?c\<lparr>obuf := (obuf ?c)(GATHER k := [getData ?c (CH k 0 OUT_SE_SOUTH)])\<rparr> = b\<lparr>obuf := ?o (Suc k)\<rparr>"
    by (simp add: g fun_eq_iff split: pe_node.split)
  finally have step: "exec_node (GATHER k) ?c = Some (b\<lparr>obuf := ?o (Suc k)\<rparr>)" .
  have "each_node exec_node (map GATHER [0..<k]) b = Some ?c" using Suc by simp
  with step show ?case by (simp add: each_node_append del: exec_node.simps)
qed

section \<open>The update\<close>

fun updated :: "pe_node \<Rightarrow> u32 list \<Rightarrow> u32 list" where
  "updated (CREG i) q = q"
| "updated (LAUNCH x) q = (if length q > 1 then tl q else q)"
| "updated n q = tl q"

lemma update_one:
  "inner_node n \<longrightarrow> obuf b n \<noteq> [] \<Longrightarrow> (\<And>x. n \<noteq> GATHER x) \<Longrightarrow>
    update_node n b = Some (b\<lparr>obuf := (obuf b)(n := updated n (obuf b n))\<rparr>)"
proof (cases n)
  case (LAUNCH x)
  have e: "b\<lparr>obuf := obuf b\<rparr> = b" by simp
  show ?thesis using LAUNCH by (cases "obuf b (LAUNCH x)") (simp_all add: pop_obuf_def fun_upd_idem)
next
  case (GATHER x)
  assume "\<And>x. n \<noteq> GATHER x"
  with GATHER show ?thesis by blast
qed (simp_all add: pop_obuf_def fun_upd_idem)

lemma update_all:
  assumes "distinct ns" "\<And>n. n \<in> set ns \<Longrightarrow> inner_node n \<Longrightarrow> obuf b n \<noteq> []" "\<And>n x. n \<in> set ns \<Longrightarrow> n \<noteq> GATHER x"
  shows "each_node update_node ns b = Some (b\<lparr>obuf := (\<lambda>n. if n \<in> set ns then updated n (obuf b n) else obuf b n)\<rparr>)"
  using assms
proof (induction ns arbitrary: b)
  case (Cons n ns)
  let ?b = "b\<lparr>obuf := (obuf b)(n := updated n (obuf b n))\<rparr>"
  have u: "update_node n b = Some ?b" using Cons.prems by (intro update_one) auto
  have "each_node update_node ns ?b = Some (?b\<lparr>obuf := (\<lambda>m. if m \<in> set ns then updated m (obuf ?b m) else obuf ?b m)\<rparr>)"
    using Cons.prems by (intro Cons.IH) auto
  moreover have "(\<lambda>m. if m \<in> set ns then updated m (obuf ?b m) else obuf ?b m) =
      (\<lambda>m. if m \<in> set (n # ns) then updated m (obuf b m) else obuf b m)"
    using Cons.prems(1) by (auto simp: fun_eq_iff)
  ultimately show ?case using u by simp
qed simp

section \<open>One cycle\<close>

text \<open>
  The value port \<open>x\<close> offers to the gather register, and the outcome of a cycle: the registers take
  these values, the registers inside the array their inputs, and the launch registers in use
  move on to the next value stored.
\<close>

definition port_value :: "pe_array \<Rightarrow> nat \<Rightarrow> u32 \<Rightarrow> bool" where
  "port_value a x v \<longleftrightarrow> computes a (CH x 0 OUT_SE_SOUTH) v \<or> (\<nexists>u. computes a (CH x 0 OUT_SE_SOUTH) u) \<and> v = 0"

definition cycle_result :: "pe_array \<Rightarrow> pe_array \<Rightarrow> bool" where
  "cycle_result a b \<longleftrightarrow>
     (\<forall>x < pa_width a. \<exists>v. obuf b (GATHER x) = [v] \<and> port_value a x v) \<and>
     (\<forall>x. obuf b (LAUNCH x) = (if listed a (LAUNCH x) then updated (LAUNCH x) (obuf a (LAUNCH x)) else obuf a (LAUNCH x))) \<and>
     (\<forall>n. if is_preg n \<and> activated a n \<and> n \<in> set (supplied_nodes a) \<and> listed a n
        then new_latch a n (latch b n) else latch b n = latch a n)"

lemma use_successors_view: "same_view a b \<Longrightarrow> use_successors b = use_successors a"
  by (rule ext) (simp add: use_successors_def isUse_view, simp add: same_view_def)

lemma isUse_conf: "same_conf a b \<Longrightarrow> isUse b n p = isUse a n p"
  by (cases n) (simp_all add: same_conf_fields)

lemma use_successors_conf: "same_conf a b \<Longrightarrow> use_successors b = use_successors a"
  by (rule ext) (simp add: use_successors_def isUse_conf same_conf_fields)

lemma analysed_conf: "same_conf a b \<Longrightarrow> analysed a \<Longrightarrow> analysed b"
  by (simp add: analysed_def analyze_dataflow_def Let_def use_successors_conf same_conf_fields)

lemma port_listed:
  assumes w: "pe_wf a" and x: "x < pa_width a"
  shows "listed a (CH x 0 OUT_SE_SOUTH)"
proof -
  have "CH x 0 OUT_SE_SOUTH \<in> used_inputs a (GATHER x)" using x by (simp add: preds_eq [OF w])
  then show ?thesis by (rule used_is_listed [OF w])
qed

lemma cycle:
  assumes w: "pe_wf a" and l: "tsorted_list a = tsorted_list (analyze_dataflow a)" and c: "\<not> config_changed a"
  shows "case PEArray_exec a of None \<Rightarrow> alu_fault a | Some b \<Rightarrow> cycle_result a b \<and> pe_wf b \<and> same_conf a b"
proof -
  have t: "tsorted_list a = filter (listed a) (supplied_nodes a)"
    using supplied_facts(3) [OF w] l by (simp add: listed_def [abs_def])
  have ex: "case each_node exec_node (tsorted_list a) a of None \<Rightarrow> alu_fault a | Some b \<Rightarrow> ran a (set (supplied_nodes a)) b"
    using exec_list [OF w, of "supplied_nodes a" "[]"] by (simp add: t)
  show ?thesis
  proof (cases "each_node exec_node (tsorted_list a) a")
    case None
    with ex c show ?thesis by (simp add: PEArray_exec_def)
  next
    case (Some b)
    with ex have r: "ran a (set (supplied_nodes a)) b" by simp
    have cb: "same_conf a b" using r by (simp add: ran_def)
    have ob: "obuf b n = (if inner_node n \<and> n \<in> set (supplied_nodes a) \<and> listed a n then [getData b n] else obuf a n)" for n
      using r by (simp add: ran_def)
    have lg: "length (obuf b (GATHER x)) = 1" for x using w by (simp add: ob pe_wf_def)
    let ?o = "\<lambda>n. case n of GATHER x \<Rightarrow> if x < pa_width a then [getData b (CH x 0 OUT_SE_SOUTH)] else obuf b n | _ \<Rightarrow> obuf b n"
    let ?c = "b\<lparr>obuf := ?o\<rparr>"
    have g: "each_node exec_node (map GATHER [0..<pa_width a]) b = Some ?c"
      using gather_all [OF w cb lg order_refl] .
    let ?p = "\<lambda>n. if n \<in> set (tsorted_list a) then updated n (obuf ?c n) else obuf ?c n"
    have u: "each_node update_node (tsorted_list a) ?c = Some (?c\<lparr>obuf := ?p\<rparr>)"
    proof (rule update_all)
      show "distinct (tsorted_list a)" using supplied_facts(1) [OF w] by (simp add: t)
      show "obuf ?c n \<noteq> []" if "n \<in> set (tsorted_list a)" "inner_node n" for n
        using that by (auto simp: t ob split: pe_node.split)
      show "n \<noteq> GATHER x" if "n \<in> set (tsorted_list a)" for n x
        using that gather_not_listed [OF w] by (auto simp: t)
    qed
    let ?d = "?c\<lparr>obuf := ?p\<rparr>"
    have d: "PEArray_exec a = Some ?d" using c Some g u by (simp add: PEArray_exec_def)
    have cd: "same_conf a ?d" using cb by (cases a; cases b) (simp add: same_conf_def)
    have inner: "obuf ?d n = []" if i: "inner_node n" for n
    proof -
      have "obuf ?c n = obuf b n" using i by (cases n) simp_all
      moreover have "obuf a n = []" using w i by (simp add: pe_wf_def)
      ultimately show ?thesis using i by (cases n) (auto simp: t ob)
    qed
    have gat: "obuf ?d (GATHER x) = (if x < pa_width a then [getData b (CH x 0 OUT_SE_SOUTH)] else obuf a (GATHER x))" for x
      using gather_not_listed [OF w, of x] by (simp add: t ob)
    have port: "port_value a x (getData b (CH x 0 OUT_SE_SOUTH))" if x: "x < pa_width a" for x
    proof (cases "CH x 0 OUT_SE_SOUTH \<in> set (supplied_nodes a)")
      case True
      with r port_listed [OF w x] show ?thesis by (auto simp: ran_def port_value_def)
    next
      case False
      have "on_array (pa_width a) (pa_height a) (CH x 0 OUT_SE_SOUTH)" using w x by (simp add: pe_wf_def direction_defs)
      with False computes_supplied [OF _ w] have "\<nexists>u. computes a (CH x 0 OUT_SE_SOUTH) u" by blast
      moreover have "getData b (CH x 0 OUT_SE_SOUTH) = 0"
        using False w by (intro getData_empty) (simp_all add: ob pe_wf_def)
      ultimately show ?thesis by (simp add: port_value_def)
    qed
    have lau: "obuf ?d (LAUNCH x) = (if listed a (LAUNCH x) then updated (LAUNCH x) (obuf a (LAUNCH x)) else obuf a (LAUNCH x))" for x
    proof -
      have "LAUNCH x \<in> set (supplied_nodes a)" if l: "listed a (LAUNCH x)"
      proof -
        obtain n where "n \<in> set (use_successors a (LAUNCH x))"
          using l unfolding listed_def by (cases "use_successors a (LAUNCH x)") auto
        then have "Some (LAUNCH x) \<in> set (preds a n)" using used_inputs_eq [OF w] used_in by blast
        moreover from this have "on_array (pa_width a) (pa_height a) n" by (simp add: preds_eq [OF w] inputs_of_array)
        ultimately have "on_array (pa_width a) (pa_height a) (LAUNCH x)" using pred_on_array [OF w] by blast
        then show ?thesis using supplied_facts(5) [OF w, of "LAUNCH x"] by simp
      qed
      then show ?thesis by (simp add: t ob)
    qed
    have "cycle_result a ?d"
      unfolding cycle_result_def using gat port lau r by (simp add: ran_def)
    moreover have "pe_wf ?d"
    proof -
      have "obuf ?d (LAUNCH x) \<noteq> []" for x
        unfolding lau using w by (cases "obuf a (LAUNCH x)" rule: rev_cases; cases "tl (obuf a (LAUNCH x))") (auto simp: pe_wf_def)
      moreover have "length (obuf ?d (GATHER x)) = 1" for x unfolding gat using w by (simp add: pe_wf_def)
      ultimately show ?thesis
        using w inner unfolding pe_wf_def by (simp only: same_conf_fields [OF cd]) blast
    qed
    ultimately show ?thesis using d cd by simp
  qed
qed

text \<open>With the analysis of a changed configuration before it.\<close>

lemma analyze_view: "same_view a (analyze_dataflow a)"
  by (simp add: same_view_def analyze_dataflow_def Let_def)

lemma pe_wf_view:
  assumes "same_view a b" "pa_order b = pa_order a" "pe_wf a"
  shows "pe_wf b"
proof -
  have e: "pa_width b = pa_width a" "pa_height b = pa_height a" "pa_graph b = pa_graph a" "obuf b = obuf a"
    "config_data b = config_data a" "opcode b = opcode a"
    using assms(1) by (simp_all add: same_view_def)
  show ?thesis using assms(3) unfolding pe_wf_def e assms(2) .
qed

lemma analyze_wf: "pe_wf a \<Longrightarrow> pe_wf (analyze_dataflow a)"
  by (rule pe_wf_view [OF analyze_view]) (simp_all add: analyze_dataflow_def Let_def)

lemma analyze_analysed: "analysed (analyze_dataflow a)"
proof -
  have "use_successors (analyze_dataflow a) = use_successors a" by (rule use_successors_view [OF analyze_view])
  then show ?thesis by (simp add: analysed_def) (simp add: analyze_dataflow_def Let_def)
qed

lemma supplied_view: "same_view a b \<Longrightarrow> pa_order b = pa_order a \<Longrightarrow> supplied_nodes b = supplied_nodes a"
  using use_successors_view [of a b] by (simp add: supplied_nodes_def same_view_def)

lemma cycle_result_view:
  assumes "same_view a b" "pa_order b = pa_order a" "cycle_result b c"
  shows "cycle_result a c"
proof -
  have e: "new_latch b = new_latch a" "port_value b = port_value a"
    by (rule ext; rule ext; simp add: new_latch_def deref_view [OF assms(1)] computes_view [OF assms(1)])
      (intro ext, simp add: port_value_def computes_view [OF assms(1)])
  have f: "listed b = listed a" by (rule ext) (simp add: listed_def use_successors_view [OF assms(1)])
  have g: "pa_width b = pa_width a" "obuf b = obuf a" "activated b = activated a" "latch b = latch a"
    using assms(1) by (simp_all add: same_view_def)
  show ?thesis using assms(3) unfolding cycle_result_def e f g supplied_view [OF assms(1,2)] .
qed

lemma alu_fault_view: "same_view a b \<Longrightarrow> alu_fault b = alu_fault a"
  by (simp add: alu_fault_def computes_view) (simp add: same_view_def)

lemma exec_cycle:
  assumes w: "pe_wf a" and l: "config_changed a \<or> analysed a"
  shows "case PEArray_exec a of None \<Rightarrow> alu_fault a
    | Some b \<Rightarrow> cycle_result a b \<and> pe_wf b \<and> analysed b \<and> \<not> config_changed b"
proof -
  let ?a = "if config_changed a then analyze_dataflow a else a"
  have v: "same_view a ?a" "pa_order ?a = pa_order a"
    using analyze_view [of a] by (auto simp: same_view_def analyze_dataflow_def Let_def)
  have w': "pe_wf ?a" using w analyze_wf by simp
  have a': "analysed ?a" using l analyze_analysed by auto
  have c': "\<not> config_changed ?a" by (simp add: analyze_dataflow_def Let_def)
  have e: "PEArray_exec a = PEArray_exec ?a" by (simp add: PEArray_exec_def analyze_dataflow_def Let_def)
  have k: "case PEArray_exec ?a of None \<Rightarrow> alu_fault ?a | Some b \<Rightarrow> cycle_result ?a b \<and> pe_wf b \<and> same_conf ?a b"
    using cycle [OF w' _ c'] a' unfolding analysed_def by blast
  show ?thesis
  proof (cases "PEArray_exec ?a")
    case None
    with k alu_fault_view [OF v(1)] show ?thesis unfolding e by simp
  next
    case (Some b)
    with k have b: "cycle_result ?a b" "pe_wf b" "same_conf ?a b" by auto
    have "analysed b" using analysed_conf [OF b(3) a'] .
    moreover have "\<not> config_changed b" using c' same_conf_fields(9) [OF b(3)] by simp
    ultimately show ?thesis using Some b cycle_result_view [OF v b(1)] unfolding e by simp
  qed
qed

section \<open>Configuration and ports\<close>

text \<open>
  The state of the array between cycles: before the first configuration the sorted list is empty,
  afterwards it belongs to the configuration or the next cycle makes it.
\<close>

definition array_ok :: "pe_array \<Rightarrow> bool" where
  "array_ok a \<longleftrightarrow> pe_wf a \<and> (config_changed a \<or> analysed a \<or> tsorted_list a = [])"

text \<open>What the list depends on.\<close>

definition same_uses :: "pe_array \<Rightarrow> pe_array \<Rightarrow> bool" where
  "same_uses a b \<longleftrightarrow> pa_width b = pa_width a \<and> pa_height b = pa_height a \<and> pa_graph b = pa_graph a \<and>
     pa_order b = pa_order a \<and> config_data b = config_data a \<and> opcode b = opcode a \<and>
     config_changed b = config_changed a \<and> tsorted_list b = tsorted_list a"

lemma array_ok_uses:
  assumes "same_uses a b" "array_ok a" "pe_wf b"
  shows "array_ok b"
proof -
  have "isUse b n p = isUse a n p" for n p using assms(1) by (cases n) (simp_all add: same_uses_def MUX_isUse_def)
  then have "use_successors b = use_successors a" using assms(1) by (intro ext) (simp add: use_successors_def same_uses_def)
  then have "analysed b = analysed a" using assms(1) by (simp add: analysed_def analyze_dataflow_def Let_def same_uses_def)
  with assms show ?thesis by (simp add: array_ok_def same_uses_def)
qed

lemma wf_changed [intro]: "pe_wf a \<Longrightarrow> array_ok (a\<lparr>config_changed := True\<rparr>)"
  by (simp add: array_ok_def pe_wf_def)

lemma MUX_config_wf [intro]: "pe_wf a \<Longrightarrow> pe_wf (MUX_config n d a)"
  by (auto simp: pe_wf_def MUX_config_def PE_graph_inputs)

lemma ALU_config_wf [intro]: "pe_wf a \<Longrightarrow> pe_wf (ALU_config n d a)"
  by (simp add: pe_wf_def ALU_config_def)

lemma config_ALU_at_wf [intro]: "pe_wf a \<Longrightarrow> pe_wf (config_ALU_at c x y a)"
  by (auto simp: config_ALU_at_def split: prod.split)

lemma config_SE_at_wf [intro]: "pe_wf a \<Longrightarrow> pe_wf (config_SE_at c x y a)"
  by (auto simp: config_SE_at_def split: prod.split)

lemma foldl_keeps: "P a \<Longrightarrow> (\<And>a x. P a \<Longrightarrow> P (f a x)) \<Longrightarrow> P (foldl f a xs)"
  by (induction xs arbitrary: a) auto

lemma multicast_wf: "pe_wf a \<Longrightarrow> (\<And>x y a. pe_wf a \<Longrightarrow> pe_wf (f x y a)) \<Longrightarrow> pe_wf (multicast f c r a)"
  unfolding multicast_def by (intro foldl_keeps [where P = pe_wf]) simp_all

lemma activated_wf: "pe_wf a \<Longrightarrow> pe_wf (a\<lparr>activated := f\<rparr>)"
  by (simp add: pe_wf_def)

lemma config_PREG_wf: "pe_wf a \<Longrightarrow> array_ok (config_PREG d a)"
  unfolding config_PREG_def by (intro wf_changed foldl_keeps [where P = pe_wf] activated_wf)

lemma configs_ok:
  assumes "array_ok a"
  shows "array_ok (config_PREG d a)" "array_ok (config_ALU_RMC c r d a)" "array_ok (config_SE_RMC c r d a)"
    "config_PE n d a = Some b \<Longrightarrow> array_ok b" "array_ok (store_const ad d a)"
proof -
  have w: "pe_wf a" using assms by (simp add: array_ok_def)
  show "array_ok (config_PREG d a)" using w by (rule config_PREG_wf)
  show "array_ok (config_ALU_RMC c r d a)" "array_ok (config_SE_RMC c r d a)"
    unfolding config_ALU_RMC_def config_SE_RMC_def using w by (auto intro!: multicast_wf)
  show "array_ok b" if "config_PE n d a = Some b"
    using that w by (auto simp: config_PE_def Let_def split: if_splits)
  have "same_uses a (store_const ad d a)" by (simp add: same_uses_def store_const_def Let_def)
  moreover have "pe_wf (store_const ad d a)" using w by (simp add: pe_wf_def store_const_def Let_def)
  ultimately show "array_ok (store_const ad d a)" using assms array_ok_uses by blast
qed

lemma push_launch:
  assumes "pe_wf a"
  shows "pe_wf (push_obuf (LAUNCH x) v a)" "same_uses a (push_obuf (LAUNCH x) v a)"
  using assms by (simp_all add: pe_wf_def push_obuf_def same_uses_def)

lemma same_uses_trans: "same_uses a b \<Longrightarrow> same_uses b c \<Longrightarrow> same_uses a c"
  by (simp add: same_uses_def)

lemma launch_ok:
  assumes "array_ok a" "launch ws a = Some b"
  shows "array_ok b" "same_uses a b" "pe_wf b"
proof -
  let ?b = "foldl (\<lambda>a i. push_obuf (LAUNCH i) (ws ! i) a) a [0..<pa_width a]"
  have "pe_wf ?b \<and> same_uses a ?b"
  proof (rule foldl_keeps [where P = "\<lambda>b. pe_wf b \<and> same_uses a b"])
    show "pe_wf a \<and> same_uses a a" using assms(1) by (simp add: array_ok_def same_uses_def)
    show "pe_wf b \<and> same_uses a b \<Longrightarrow> pe_wf (push_obuf (LAUNCH i) (ws ! i) b) \<and> same_uses a (push_obuf (LAUNCH i) (ws ! i) b)" for b i
      using push_launch same_uses_trans by blast
  qed
  moreover have "b = ?b" using assms(2) by (simp add: launch_def split: if_splits)
  ultimately show "same_uses a b" "pe_wf b" by simp_all
  with assms(1) show "array_ok b" using array_ok_uses by blast
qed

lemma launched:
  assumes "launch ws a = Some b"
  shows "obuf b n = (case n of LAUNCH x \<Rightarrow> if x < pa_width a then obuf a n @ [ws ! x] else obuf a n | _ \<Rightarrow> obuf a n)"
proof -
  have "obuf (foldl (\<lambda>a i. push_obuf (LAUNCH i) (ws ! i) a) a [0..<k]) n =
      (case n of LAUNCH x \<Rightarrow> if x < k then obuf a n @ [ws ! x] else obuf a n | _ \<Rightarrow> obuf a n)" for k
    by (induction k) (auto simp: less_Suc_eq split: pe_node.split)
  with assms show ?thesis by (auto simp: launch_def split: if_splits)
qed

lemma gather_total: "pe_wf a \<Longrightarrow> \<exists>ws. gather a = Some ws \<and> length ws = pa_width a"
proof -
  assume "pe_wf a"
  then have "length (obuf a (GATHER x)) = 1" for x by (simp add: pe_wf_def)
  then have "obuf a (GATHER x) \<noteq> []" for x by (metis list.size(3) zero_neq_one)
  then show ?thesis by (simp add: gather_def)
qed

text \<open>An array without a sorted list only gathers.\<close>

lemma exec_unsorted:
  assumes w: "pe_wf a" and t: "tsorted_list a = []" "\<not> config_changed a"
  shows "\<exists>b. PEArray_exec a = Some b \<and> array_ok b"
proof -
  have l: "length (obuf a (GATHER x)) = 1" for x using w by (simp add: pe_wf_def)
  from gather_all [OF w same_conf_refl l order_refl] obtain o'
    where b: "each_node exec_node (map GATHER [0..<pa_width a]) a = Some (a\<lparr>obuf := o'\<rparr>)"
      and o': "o' = (\<lambda>n. case n of GATHER x \<Rightarrow> if x < pa_width a then [getData a (CH x 0 OUT_SE_SOUTH)] else obuf a n | _ \<Rightarrow> obuf a n)"
    by blast
  have "o' n = obuf a n" if "inner_node n \<or> (\<exists>x. n = LAUNCH x)" for n using that by (cases n) (auto simp: o')
  moreover have "length (o' (GATHER x)) = 1" for x using l by (simp add: o')
  ultimately have "pe_wf (a\<lparr>obuf := o'\<rparr>)" using w by (auto simp: pe_wf_def)
  with b t show ?thesis by (auto simp: PEArray_exec_def array_ok_def)
qed

lemma exec_ok:
  assumes "array_ok a"
  shows "case PEArray_exec a of None \<Rightarrow> alu_fault a | Some b \<Rightarrow> array_ok b"
proof (cases "config_changed a \<or> analysed a")
  case True
  with assms exec_cycle [of a] show ?thesis by (auto simp: array_ok_def split: option.splits)
next
  case False
  with assms exec_unsorted [of a] show ?thesis by (auto simp: array_ok_def)
qed

lemma PEArray_new_wf:
  assumes "0 < h" "distinct ord" "set ord = set (PE_nodes w h)"
  shows "array_ok (PEArray_new h w ord)"
proof -
  have "1 < length (pe_inputs w h n)" if "is_mux n" "on_array w h n" for n
    using mux_inputs_length [OF that] by linarith
  then have "pe_wf (PEArray_new h w ord)"
    using assms by (auto simp: pe_wf_def PEArray_new_def PE_graph_inputs CMA_OP_SIZE_def split: pe_node.split)
  then show ?thesis by (simp add: array_ok_def PEArray_new_def)
qed

end
