(* ===== verification/CMA_Facts.thy ===== *)
theory CMA_Facts
  imports CMA CMA_Cycle
begin

unbundle bit_operations_syntax

text \<open>
  Facts about the core of the CMA: the schedule of the store unit, the table registers, the sides of
  the double buffers a cycle touches, and the invariant of the core.
\<close>

section \<open>The schedule of the store unit\<close>

text \<open>
  A run of the unit: in every cycle the microcontroller may issue a store, then the unit steps. The
  reference: the stores issued, each \<open>delay + 1\<close> cycles later, with the array as it is then.
\<close>

type_synonym st_issue = "(u32 \<times> u32) option"

definition st_cycle :: "bool \<Rightarrow> st_issue \<Rightarrow> pe_array \<Rightarrow> st_unit \<times> dbuf \<Rightarrow> (st_unit \<times> dbuf) option" where
  "st_cycle hb i pe s =
     (let u = (case i of None \<Rightarrow> fst s | Some (a, t) \<Rightarrow> STUnit_issue a t (fst s)) in STUnit_step hb pe u (snd s))"

primrec st_run :: "bool \<Rightarrow> (st_issue \<times> pe_array) list \<Rightarrow> st_unit \<times> dbuf \<Rightarrow> (st_unit \<times> dbuf) option" where
  "st_run hb [] s = Some s"
| "st_run hb (x # xs) s = (case st_cycle hb (fst x) (snd x) s of None \<Rightarrow> None | Some s1 \<Rightarrow> st_run hb xs s1)"

primrec st_reference :: "bool \<Rightarrow> data_manip \<Rightarrow> st_issue list \<Rightarrow> pe_array list \<Rightarrow> dbuf \<Rightarrow> dbuf option" where
  "st_reference hb d due [] bank = Some bank"
| "st_reference hb d due (pe # pes) bank =
     (case (case hd due of None \<Rightarrow> Some bank | Some (a, t) \<Rightarrow> fromPEArray hb a (unat t) d pe bank) of
        None \<Rightarrow> None | Some b \<Rightarrow> st_reference hb d (tl due) pes b)"

definition as_issue :: "st_signal \<Rightarrow> st_issue" where
  "as_issue s = (if sg_enable s then Some (sg_store_addr s, sg_table_sel s) else None)"

definition no_signal :: st_signal where
  "no_signal = \<lparr>sg_enable = False, sg_table_sel = 0, sg_store_addr = 0\<rparr>"

definition to_signal :: "st_issue \<Rightarrow> st_signal" where
  "to_signal i = (case i of None \<Rightarrow> no_signal | Some (a, t) \<Rightarrow> \<lparr>sg_enable = True, sg_table_sel = t, sg_store_addr = a\<rparr>)"

lemma as_to_signal [simp]: "as_issue (to_signal i) = i"
  by (simp add: as_issue_def to_signal_def no_signal_def split: option.split)

text \<open>The stores still to come, the next one first.\<close>

definition waiting :: "st_unit \<Rightarrow> st_issue list" where
  "waiting u = map as_issue (rev (take (st_delay u + 1) (late_signal u)))"

definition outstanding :: "st_issue list \<Rightarrow> int" where
  "outstanding is = int (length (filter (\<lambda>i. i \<noteq> None) is))"

definition st_ok :: "st_unit \<Rightarrow> bool" where
  "st_ok u \<longleftrightarrow> length (late_signal u) = max_delay u \<and> st_delay u + 1 < max_delay u \<and>
     pending_count u = outstanding (waiting u)"

lemma shifted:
  assumes "length (late_signal u) = max_delay u" "0 < max_delay u"
  shows "shift_signals (case i of None \<Rightarrow> u | Some (a, t) \<Rightarrow> STUnit_issue a t u) =
    Some (u\<lparr>late_signal := to_signal i # butlast (late_signal u),
      pending_count := pending_count u + (if i = None then 0 else 1)\<rparr>)"
proof (cases i)
  case None
  then show ?thesis using assms by (auto simp: shift_signals_def to_signal_def no_signal_def)
next
  case (Some x)
  then show ?thesis using assms
    by (cases x) (auto simp: shift_signals_def to_signal_def STUnit_issue_def)
qed

lemma st_cycle_step:
  assumes "st_ok u"
  shows "st_cycle hb i pe (u, bank) =
    (case (case hd (waiting u) of None \<Rightarrow> Some bank | Some (a, t) \<Rightarrow> fromPEArray hb a (unat t) (st_dm u) pe bank) of
       None \<Rightarrow> None
     | Some b \<Rightarrow> Some (u\<lparr>late_signal := to_signal i # butlast (late_signal u),
         pending_count := pending_count u + (if i = None then 0 else 1) - (if hd (waiting u) = None then 0 else 1)\<rparr>, b))"
proof -
  let ?d = "st_delay u" let ?l = "late_signal u"
  have l: "length ?l = max_delay u" "?d + 1 < max_delay u" using assms by (auto simp: st_ok_def)
  have nth: "(to_signal i # butlast ?l) ! (?d + 1) = ?l ! ?d" using l by (simp add: nth_butlast)
  have h: "hd (waiting u) = as_issue (?l ! ?d)"
  proof -
    have "rev (take (?d + 1) ?l) \<noteq> []" using l by auto
    moreover have "last (take (?d + 1) ?l) = ?l ! ?d" using l by (simp add: take_Suc_conv_app_nth)
    ultimately show ?thesis by (simp add: waiting_def hd_map hd_rev)
  qed
  have s: "shift_signals (case i of None \<Rightarrow> u | Some (a, t) \<Rightarrow> STUnit_issue a t u) =
      Some (u\<lparr>late_signal := to_signal i # butlast ?l, pending_count := pending_count u + (if i = None then 0 else 1)\<rparr>)"
    using l by (intro shifted) simp_all
  show ?thesis
    using l nth unfolding st_cycle_def STUnit_step_def fst_conv snd_conv Let_def s h
    by (cases "?l ! ?d") (auto simp: as_issue_def split: option.splits)
qed

lemma waiting_step:
  assumes "st_ok u"
  shows "waiting (u\<lparr>late_signal := to_signal i # butlast (late_signal u), pending_count := p\<rparr>) = tl (waiting u) @ [i]"
proof -
  let ?d = "st_delay u" let ?l = "late_signal u"
  have l: "?d + 1 < length ?l" using assms by (auto simp: st_ok_def)
  have "take (?d + 1) ?l = take ?d ?l @ [?l ! ?d]" using l by (simp add: take_Suc_conv_app_nth)
  moreover have "take (?d + 1) (to_signal i # butlast ?l) = to_signal i # take ?d ?l" using l by (simp add: take_butlast)
  ultimately show ?thesis by (simp add: waiting_def)
qed

lemma outstanding_simps [simp]:
  "outstanding [] = 0" "outstanding (i # is') = (if i = None then 0 else 1) + outstanding is'"
  "outstanding (js @ ks) = outstanding js + outstanding ks"
  by (simp_all add: outstanding_def)

lemma waiting_length: "st_ok u \<Longrightarrow> length (waiting u) = st_delay u + 1"
  by (simp add: st_ok_def waiting_def)

lemma st_run_reference:
  assumes "st_ok u"
  shows "map_option snd (st_run hb xs (u, bank)) = st_reference hb (st_dm u) (waiting u @ map fst xs) (map snd xs) bank \<and>
    (\<forall>v b. st_run hb xs (u, bank) = Some (v, b) \<longrightarrow>
       st_ok v \<and> st_dm v = st_dm u \<and> st_delay v = st_delay u \<and> waiting v = drop (length xs) (waiting u @ map fst xs))"
  using assms
proof (induction xs arbitrary: u bank)
  case (Cons x xs)
  obtain i pe where x: "x = (i, pe)" by (cases x)
  obtain h r where w: "waiting u = h # r" using waiting_length [OF Cons.prems] by (cases "waiting u") auto
  define v where "v = u\<lparr>late_signal := to_signal i # butlast (late_signal u),
    pending_count := pending_count u + (if i = None then 0 else 1) - (if h = None then 0 else 1)\<rparr>"
  have ws: "waiting v = r @ [i]" using waiting_step [OF Cons.prems] w by (simp add: v_def)
  have v: "st_dm v = st_dm u" "st_delay v = st_delay u" by (simp_all add: v_def)
  have ok: "st_ok v" unfolding st_ok_def ws
    using Cons.prems w by (auto simp: st_ok_def v_def)
  show ?case
  proof (cases "case h of None \<Rightarrow> Some bank | Some (a, t) \<Rightarrow> fromPEArray hb a (unat t) (st_dm u) pe bank")
    case None
    then show ?thesis by (simp add: x st_cycle_step [OF Cons.prems] w)
  next
    case (Some b)
    have c: "st_cycle hb i pe (u, bank) = Some (v, b)"
      using Some by (simp add: st_cycle_step [OF Cons.prems] w v_def)
    have d: "waiting u @ map fst (x # xs) = h # (waiting v @ map fst xs)" by (simp add: w ws x)
    have l: "drop (length (x # xs)) (waiting u @ map fst (x # xs)) = drop (length xs) (waiting v @ map fst xs)"
      unfolding d by simp
    have r: "st_reference hb (st_dm u) (waiting u @ map fst (x # xs)) (map snd (x # xs)) bank =
        st_reference hb (st_dm v) (waiting v @ map fst xs) (map snd xs) b"
      unfolding d by (simp add: x Some v)
    have e: "st_run hb (x # xs) (u, bank) = st_run hb xs (v, b)" by (simp add: x c)
    show ?thesis unfolding e r l unfolding v [symmetric] by (rule Cons.IH [OF ok])
  qed
qed simp

section \<open>Reading a table register\<close>

lemma table_fetch_zero: "table_fetch_word offset d = 0"
proof -
  have "drop_bit CMA_TABLE_INDEX_LSB (offset AND CMA_TABLE_SEL_MASK) = 0"
    by (simp add: CMA_TABLE_INDEX_LSB_def CMA_TABLE_SEL_MASK_def bit_blast)
  then show ?thesis by (simp add: table_fetch_word_def)
qed

section \<open>The arithmetic right shift\<close>

text \<open>On the 25 bits of a data word \<open>exec_sra\<close> is the arithmetic shift.\<close>

lemma sra_signed:
  assumes "inA AND CMA_DWORD_MASK = inA" "unat inB \<le> 24"
  shows "exec_sra inA inB = Some (ucast (signed_drop_bit (unat inB) (ucast inA :: 25 word)))"
proof -
  have top: "\<not> bit inA i" if "25 \<le> i" for i
  proof -
    have "\<not> bit CMA_DWORD_MASK i"
    proof -
      have m: "CMA_DWORD_MASK = mask 25" by (simp add: CMA_DWORD_MASK_def mask_eq_exp_minus_1)
      show ?thesis using that by (simp add: m bit_simps)
    qed
    then show ?thesis using assms(1) by (metis bit_and_iff)
  qed
  have carry: "inA AND CMA_CARRY_MASK \<noteq> 0 \<longleftrightarrow> bit inA 24"
  proof -
    have m: "CMA_CARRY_MASK = 2 ^ 24" by (simp add: CMA_CARRY_MASK_def)
    show ?thesis unfolding m by (rule word_and_mask_nonzero)
  qed
  have m: "CMA_DWORD_MASK = mask 25" by (simp add: CMA_DWORD_MASK_def mask_eq_exp_minus_1)
  have b24: "bit (16777216 :: u32) i \<longleftrightarrow> i = 24" for i
  proof -
    have p: "(16777216 :: u32) = 2 ^ 24" by simp
    show ?thesis unfolding p bit_exp_iff by (auto simp: possible_bit_word)
  qed
  define n where "n = unat inB"
  have n: "n \<le> 24" using assms(2) by (simp add: n_def)
  show ?thesis
  proof (cases "bit inA 24")
    case True
    have "drop_bit n inA OR push_bit (24 - n) (mask n) OR push_bit 24 1 =
        (ucast (signed_drop_bit n (ucast inA :: 25 word)) :: u32)"
    proof (rule bit_word_eqI)
      fix i assume i: "i < LENGTH(32)"
      show "bit (drop_bit n inA OR push_bit (24 - n) (mask n) OR push_bit 24 1) i =
          bit (ucast (signed_drop_bit n (ucast inA :: 25 word)) :: u32) i"
      proof (cases "n + i = 24")
        case True
        then show ?thesis using i n \<open>bit inA 24\<close> b24 [of i] by (auto simp: bit_simps bit_signed_drop_bit_iff)
      next
        case False
        then show ?thesis using i n \<open>bit inA 24\<close> top [of "n + i"] b24 [of i] by (auto simp: bit_simps bit_signed_drop_bit_iff)
      qed
    qed
    then show ?thesis
      using assms(2) carry True by (simp add: exec_sra_def Let_def CMA_CARYY_LSB_def mask_eq_exp_minus_1 or.assoc flip: n_def)
  next
    case False
    have "CMA_DWORD_MASK AND drop_bit n inA = (ucast (signed_drop_bit n (ucast inA :: 25 word)) :: u32)"
    proof (rule bit_word_eqI)
      fix i assume i: "i < LENGTH(32)"
      show "bit (CMA_DWORD_MASK AND drop_bit n inA) i = bit (ucast (signed_drop_bit n (ucast inA :: 25 word)) :: u32) i"
        using i n False top [of "n + i"] by (cases "25 \<le> n + i") (auto simp: m bit_simps bit_signed_drop_bit_iff)
    qed
    then show ?thesis
      using assms(2) carry False by (simp add: exec_sra_def exec_sr_def flip: n_def)
  qed
qed

section \<open>The invariant of the core\<close>

definition dm_wf :: "data_manip \<Rightarrow> bool" where
  "dm_wf d \<longleftrightarrow> length (dm_bitmap d) = 16 \<and> length (dm_table d) = 16 \<and>
     (\<forall>b \<in> set (dm_bitmap d). length b = 12) \<and> (\<forall>t \<in> set (dm_table d). length t = 12)"

definition cma_wf :: "cma \<Rightarrow> bool" where
  "cma_wf c \<longleftrightarrow> dbuf_wf (dmem_front c) \<and> dbuf_wf (dmem_back c) \<and> dbuf_wf (imem c) \<and>
     array_ok (pearray c) \<and> dm_wf (ld_unit c) \<and> dm_wf (st_dm (cma_st_unit c)) \<and>
     max_delay (cma_st_unit c) = 16 \<and> length (late_signal (cma_st_unit c)) = 16 \<and> length (mc_regfile (mc c)) = 16"

lemma set_table_wf: "dm_wf d \<Longrightarrow> dm_wf (setBitmap i p f d)" "dm_wf d \<Longrightarrow> dm_wf (setTable i p v d)"
  by (auto simp: dm_wf_def setBitmap_def setTable_def dest!: subsetD [OF set_update_subset_insert])

lemma table_store_wf: "dm_wf d \<Longrightarrow> dm_wf (table_store_word off data d)"
  unfolding table_store_word_def Let_def
  by (auto intro!: foldl_keeps [where P = dm_wf] set_table_wf)

lemma inner_store_keeps:
  "store_word_from_inner hb off data d = Some d' \<Longrightarrow> db_outer d' = db_outer d \<and> (dbuf_wf d \<longrightarrow> dbuf_wf d')"
  by (auto simp: store_word_from_inner_def Let_def dbuf_wf_def split: if_splits)

lemma store_words_keeps:
  "store_words hb ws a bm tb k d = Some d' \<Longrightarrow> db_outer d' = db_outer d \<and> (dbuf_wf d \<longrightarrow> dbuf_wf d')"
proof (induction k arbitrary: d')
  case (Suc k)
  from Suc.prems obtain b where b: "store_words hb ws a bm tb k d = Some b"
    and r: "(if bm ! k then if tb ! k < length ws then store_word_from_inner hb (a + of_nat (k * 4)) (ws ! (tb ! k)) b else None else Some b) = Some d'"
    by auto
  from r have "db_outer d' = db_outer b \<and> (dbuf_wf b \<longrightarrow> dbuf_wf d')"
    using inner_store_keeps [of hb _ _ b d'] by (auto split: if_splits)
  with Suc.IH [OF b] show ?case by auto
qed simp

lemma fromPEArray_keeps:
  "fromPEArray hb a t d pe b = Some b' \<Longrightarrow> db_outer b' = db_outer b \<and> (dbuf_wf b \<longrightarrow> dbuf_wf b')"
  using store_words_keeps by (auto simp: fromPEArray_def split: if_splits)

lemma STUnit_step_keeps:
  assumes "STUnit_step hb pe u b = Some (u', b')"
  shows "db_outer b' = db_outer b \<and> (dbuf_wf b \<longrightarrow> dbuf_wf b') \<and> st_dm u' = st_dm u \<and> max_delay u' = max_delay u \<and>
    (max_delay u \<le> length (late_signal u) \<and> length (late_signal u) \<le> max_delay u + 1 \<longrightarrow> length (late_signal u') = max_delay u)"
proof -
  from assms obtain u1 where s: "shift_signals u = Some u1"
    and r: "(b' = b \<and> u' = u1) \<or> (\<exists>a t. fromPEArray hb a t (st_dm u1) pe b = Some b' \<and> u' = u1\<lparr>pending_count := pending_count u1 - 1\<rparr>)"
    by (auto simp: STUnit_step_def split: if_splits)
  have 1: "st_dm u1 = st_dm u" "max_delay u1 = max_delay u"
    "max_delay u \<le> length (late_signal u) \<and> length (late_signal u) \<le> max_delay u + 1 \<Longrightarrow> length (late_signal u1) = max_delay u"
    using s by (auto simp: shift_signals_def Let_def split: if_splits)
  from r show ?thesis using 1 fromPEArray_keeps by (auto; blast)
qed

text \<open>An instruction touches no memory and no table.\<close>

definition same_stores :: "cma \<Rightarrow> cma \<Rightarrow> bool" where
  "same_stores c d \<longleftrightarrow> dmem_front d = dmem_front c \<and> dmem_back d = dmem_back c \<and> imem d = imem c \<and>
     dbank_front d = dbank_front c \<and> ld_unit d = ld_unit c \<and> st_dm (cma_st_unit d) = st_dm (cma_st_unit c) \<and>
     ctrl_reg d = ctrl_reg c \<and> mc_working d = mc_working c \<and> done_notif d = done_notif c"

lemma mc_exec_reg_same: "mc_exec_reg instr c = (n, d) \<Longrightarrow>
    same_stores c d \<and> pearray d = pearray c \<and> length (mc_regfile (mc d)) = length (mc_regfile (mc c)) \<and>
    late_signal (cma_st_unit d) = late_signal (cma_st_unit c) \<and> max_delay (cma_st_unit d) = max_delay (cma_st_unit c) \<and>
    (mc_done d \<longrightarrow> mc_done c \<or> \<not> isWorking (cma_st_unit c))"
  by (auto simp: mc_exec_reg_def same_stores_def set_mc_reg_def setDelay_def Let_def split: if_splits)

lemma mc_ld_st_add_same:
  assumes "mc_ld_st_add hb instr c = Some d"
  shows "same_stores c d \<and> (array_ok (pearray c) \<longrightarrow> array_ok (pearray d)) \<and> mc_regfile (mc d) = mc_regfile (mc c) \<and>
    max_delay (cma_st_unit d) = max_delay (cma_st_unit c) \<and> mc_done d = mc_done c \<and>
    length (late_signal (cma_st_unit d)) = length (late_signal (cma_st_unit c)) + 1"
proof -
  from assms obtain pe where pe: "toPEArray hb (push_bit 2 (launch_addr (mc c))) (reg_src_of instr) (ld_unit c) (dbank c) (pearray c) = Some pe"
    and d: "d = c\<lparr>pearray := pe,
       cma_st_unit := STUnit_issue (push_bit 2 (gather_addr (mc c))) (of_nat (mc_func instr)) (cma_st_unit c),
       mc := (mc c)\<lparr>launch_addr := launch_addr (mc c) + launch_incr (mc c), gather_addr := gather_addr (mc c) + gather_incr (mc c)\<rparr>\<rparr>"
    by (auto simp: mc_ld_st_add_def Let_def)
  have "array_ok (pearray c) \<longrightarrow> array_ok pe"
    using pe launch_ok(1) by (auto simp: toPEArray_def split: if_splits)
  then show ?thesis by (simp add: d same_stores_def STUnit_issue_def)
qed

lemma mc_exec_same:
  assumes "mc_exec hb instr c = Some (n, d)"
  shows "same_stores c d" "array_ok (pearray c) \<Longrightarrow> array_ok (pearray d)"
    "length (mc_regfile (mc d)) = length (mc_regfile (mc c))" "max_delay (cma_st_unit d) = max_delay (cma_st_unit c)"
    "length (late_signal (cma_st_unit c)) \<le> length (late_signal (cma_st_unit d)) \<and>
     length (late_signal (cma_st_unit d)) \<le> length (late_signal (cma_st_unit c)) + 1"
    "mc_done d \<Longrightarrow> mc_done c \<or> \<not> isWorking (cma_st_unit c)"
proof -
  have r: "same_stores c (set_mc_reg i v c)" for i v by (simp add: same_stores_def set_mc_reg_def)
  consider "mc_opcode instr = 0" | "mc_opcode instr = 7" | "mc_opcode instr \<noteq> 0" "mc_opcode instr \<noteq> 7" by blast
  then have "same_stores c d \<and> (array_ok (pearray c) \<longrightarrow> array_ok (pearray d)) \<and>
    length (mc_regfile (mc d)) = length (mc_regfile (mc c)) \<and> max_delay (cma_st_unit d) = max_delay (cma_st_unit c) \<and>
    length (late_signal (cma_st_unit c)) \<le> length (late_signal (cma_st_unit d)) \<and>
     length (late_signal (cma_st_unit d)) \<le> length (late_signal (cma_st_unit c)) + 1 \<and>
    (mc_done d \<longrightarrow> mc_done c \<or> \<not> isWorking (cma_st_unit c))"
  proof cases
    case 1
    then have "mc_exec_reg instr c = (n, d)" using assms by (simp add: mc_exec_def Let_def)
    from mc_exec_reg_same [OF this] show ?thesis by simp
  next
    case 2
    then have "mc_ld_st_add hb instr c = Some d" using assms by (auto simp: mc_exec_def Let_def)
    from mc_ld_st_add_same [OF this] show ?thesis by simp
  next
    case 3
    with assms show ?thesis
      by (auto simp: mc_exec_def Let_def r same_stores_def set_mc_reg_def split: if_splits)
  qed
  then show "same_stores c d" "array_ok (pearray c) \<Longrightarrow> array_ok (pearray d)"
    "length (mc_regfile (mc d)) = length (mc_regfile (mc c))" "max_delay (cma_st_unit d) = max_delay (cma_st_unit c)"
    "length (late_signal (cma_st_unit c)) \<le> length (late_signal (cma_st_unit d)) \<and>
     length (late_signal (cma_st_unit d)) \<le> length (late_signal (cma_st_unit c)) + 1"
    "mc_done d \<Longrightarrow> mc_done c \<or> \<not> isWorking (cma_st_unit c)"
    by auto
qed

lemma MicroController_step_same:
  assumes "MicroController_step hb c = Some d"
  shows "same_stores c d" "array_ok (pearray c) \<Longrightarrow> array_ok (pearray d)"
    "length (mc_regfile (mc d)) = length (mc_regfile (mc c))" "max_delay (cma_st_unit d) = max_delay (cma_st_unit c)"
    "length (late_signal (cma_st_unit c)) \<le> length (late_signal (cma_st_unit d)) \<and>
     length (late_signal (cma_st_unit d)) \<le> length (late_signal (cma_st_unit c)) + 1"
    "mc_done d \<Longrightarrow> mc_done c \<or> \<not> isWorking (cma_st_unit c)"
proof -
  from assms obtain w n e where e: "mc_exec hb (ucast (w :: u32)) c = Some (n, e)" and d: "d = e\<lparr>mc := (mc e)\<lparr>mc_pc := n\<rparr>\<rparr>"
    by (auto simp: MicroController_step_def)
  note s = mc_exec_same [OF e]
  show "same_stores c d" using s(1) by (simp add: d same_stores_def)
  show "array_ok (pearray c) \<Longrightarrow> array_ok (pearray d)" using s(2) by (simp add: d)
  show "length (mc_regfile (mc d)) = length (mc_regfile (mc c))" "max_delay (cma_st_unit d) = max_delay (cma_st_unit c)"
    "length (late_signal (cma_st_unit c)) \<le> length (late_signal (cma_st_unit d)) \<and>
     length (late_signal (cma_st_unit d)) \<le> length (late_signal (cma_st_unit c)) + 1"
    using s(3-5) by (simp_all add: d)
  show "mc_done d \<Longrightarrow> mc_done c \<or> \<not> isWorking (cma_st_unit c)" using s(6) by (simp add: d)
qed

lemma same_stores_fields:
  assumes "same_stores c d"
  shows "dmem_front d = dmem_front c" "dmem_back d = dmem_back c" "imem d = imem c" "dbank_front d = dbank_front c"
    "ld_unit d = ld_unit c" "st_dm (cma_st_unit d) = st_dm (cma_st_unit c)" "ctrl_reg d = ctrl_reg c"
    "mc_working d = mc_working c" "done_notif d = done_notif c"
  using assms by (simp_all add: same_stores_def)

text \<open>What a cycle leaves alone: the instruction memory, the bank not in use and the side of the bus.\<close>

definition bus_side_kept :: "cma \<Rightarrow> cma \<Rightarrow> bool" where
  "bus_side_kept c d \<longleftrightarrow> imem d = imem c \<and> dbank_front d = dbank_front c \<and> ctrl_reg d = ctrl_reg c \<and>
     db_outer (dmem_front d) = db_outer (dmem_front c) \<and> db_outer (dmem_back d) = db_outer (dmem_back c) \<and>
     (if dbank_front c then dmem_back d = dmem_back c else dmem_front d = dmem_front c)"

lemma CMA_cycle_keeps:
  assumes "CMA_cycle hb c = Some d"
  shows "bus_side_kept c d" "cma_wf c \<Longrightarrow> cma_wf d" "mc_working d = mc_working c" "done_notif d = done_notif c"
    "mc_done d \<Longrightarrow> mc_done c \<or> \<not> isWorking (cma_st_unit c)"
proof -
  from assms obtain c1 pe st b where m: "MicroController_step hb c = Some c1" and p: "PEArray_exec (pearray c1) = Some pe"
    and s: "STUnit_step hb pe (cma_st_unit c1) (dbank c1) = Some (st, b)"
    and d: "d = set_dbank b (c1\<lparr>pearray := pe, cma_st_unit := st\<rparr>)"
    by (auto simp: CMA_cycle_def)
  note ms = MicroController_step_same [OF m] and f = same_stores_fields [OF MicroController_step_same(1) [OF m]]
  note u = STUnit_step_keeps [OF s]
  have bk: "dbank c1 = dbank c" using f by (simp add: dbank_def)
  show "bus_side_kept c d" using u bk f by (auto simp: bus_side_kept_def d set_dbank_def dbank_def)
  show "mc_working d = mc_working c" "done_notif d = done_notif c" using f by (simp_all add: d set_dbank_def)
  show "mc_done d \<Longrightarrow> mc_done c \<or> \<not> isWorking (cma_st_unit c)" using ms(6) by (simp add: d set_dbank_def split: if_splits)
  show "cma_wf d" if w: "cma_wf c"
  proof -
    have "array_ok (pearray c1)" using w ms(2) by (simp add: cma_wf_def)
    with exec_ok [OF this] p have "array_ok pe" by simp
    moreover have "dbuf_wf b" using u w bk by (auto simp: cma_wf_def dbank_def split: if_splits)
    moreover have "length (late_signal st) = 16" "max_delay st = 16" "dm_wf (st_dm st)"
      using u w f ms(4,5) by (auto simp: cma_wf_def)
    ultimately show ?thesis using w f ms(3) by (simp add: cma_wf_def d set_dbank_def)
  qed
qed

lemma kick_wf: "cma_wf c \<Longrightarrow> cma_wf (CMA_kick c)"
  by (simp add: cma_wf_def CMA_kick_def Let_def dbuf_wf_keep)

lemma finish_wf: "cma_wf c \<Longrightarrow> cma_wf (CMA_finish c)"
  by (simp add: cma_wf_def CMA_finish_def Let_def dbuf_wf_keep)

lemma reset_wf: "cma_wf c \<Longrightarrow> cma_wf (CMA_core_reset c)"
  by (simp add: cma_wf_def CMA_core_reset_def MicroController_reset_def)

lemma core_step_wf:
  assumes w: "cma_wf c" and s: "CMA_core_step hb c = Some (sig, d)"
  shows "cma_wf d"
proof (cases "cr_run (ctrl_reg c)")
  case True
  let ?c = "if mc_working c then c else CMA_kick c"
  have w': "cma_wf ?c" using w kick_wf by simp
  from True s consider "CMA_cycle hb ?c = Some d" | "d = CMA_finish ?c" | "d = ?c"
    by (auto simp: CMA_core_step_def Let_def split: if_splits)
  then show ?thesis using w' CMA_cycle_keeps(2) finish_wf by cases blast+
next
  case False
  with w s show ?thesis by (auto simp: CMA_core_step_def cma_wf_def MicroController_reset_def)
qed

lemma dbuf_store_wf: "dbuf_store_word hb d off v = Some d' \<Longrightarrow> dbuf_wf d \<Longrightarrow> dbuf_wf d'"
  using dbuf_put_keeps by (auto simp: dbuf_store_put)

lemma store_word_wf:
  assumes w: "cma_wf c" and s: "CMA_store_word hb k off data c = Some d"
  shows "cma_wf d"
proof (cases k)
  case PE_CONFIG
  with w s configs_ok(4) show ?thesis by (auto simp: cma_wf_def)
qed (use w s in \<open>auto simp: cma_wf_def configs_ok table_store_wf dest: dbuf_store_wf\<close>)

lemma setup_wf:
  assumes "distinct ord" "set ord = set (PE_nodes 12 8)" "dm_wf ld" "dm_wf st" "length (mc_regfile (mc c)) = 16"
    and s: "CMA_setup ord ld st c = Some d"
  shows "cma_wf d"
proof -
  from s obtain f b i where "DoubleBuffer_new 0x1000 CMA_DWORD_MASK None = Some f"
    "DoubleBuffer_new 0x1000 CMA_DWORD_MASK None = Some b" "DoubleBuffer_new 0x400 0xFFFF None = Some i"
    and d: "d = c\<lparr>pearray := PEArray_new 8 12 ord, dmem_front := f, dmem_back := b, dbank_front := True, imem := i,
       ld_unit := ld, cma_st_unit := STUnit_new st 16, ctrl_reg := ControlReg_new (cr_done (ctrl_reg c)), debug_op := 0, resp_data := 0\<rparr>"
    by (auto simp: CMA_setup_def)
  then have "dbuf_wf f" "dbuf_wf b" "dbuf_wf i"
    using dbuf_wf_new [of 4096] dbuf_wf_new [of 1024] by auto
  moreover have "array_ok (PEArray_new 8 12 ord)" by (rule PEArray_new_wf) (use assms in simp_all)
  ultimately show ?thesis using assms by (simp add: cma_wf_def d STUnit_new_def)
qed

section \<open>The run of the core\<close>

text \<open>
  \<open>core_steps hb n c\<close>: \<open>n\<close> cycles of the core during which the bus stays away from it, with the signals
  to the network interface.
\<close>

primrec core_steps :: "bool \<Rightarrow> nat \<Rightarrow> cma \<Rightarrow> (bool option list \<times> cma) option" where
  "core_steps hb 0 c = Some ([], c)"
| "core_steps hb (Suc n) c = do {
     (sigs, d) \<leftarrow> core_steps hb n c;
     (s, e) \<leftarrow> CMA_core_step hb d;
     Some (sigs @ [s], e)
   }"

text \<open>The data bank the control register selects, and the other one.\<close>

definition sel_bank :: "cma \<Rightarrow> cma \<Rightarrow> dbuf" where
  "sel_bank c d = (if cr_bank_sel (ctrl_reg c) = 0 then dmem_front d else dmem_back d)"

definition other_bank :: "cma \<Rightarrow> cma \<Rightarrow> dbuf" where
  "other_bank c d = (if cr_bank_sel (ctrl_reg c) = 0 then dmem_back d else dmem_front d)"

definition core_running :: "cma \<Rightarrow> cma \<Rightarrow> bool" where
  "core_running c d \<longleftrightarrow> mc_working d \<and> \<not> done_notif d \<and>
     ctrl_reg d = (ctrl_reg c)\<lparr>cr_done := False\<rparr> \<and> imem d = buf_switch (imem c) \<and>
     db_outer (sel_bank c d) = db_inner (sel_bank c c) \<and> other_bank c d = other_bank c c \<and>
     dbank_front d = (cr_bank_sel (ctrl_reg c) = 0)"

lemma kick_running: "core_running c (CMA_kick c)"
  by (simp add: core_running_def CMA_kick_def sel_bank_def other_bank_def)

lemma cycle_running:
  assumes "core_running c d" and "CMA_cycle hb d = Some e"
  shows "core_running c e"
  using CMA_cycle_keeps(1,3,4) [OF assms(2)] assms(1)
  by (auto simp: core_running_def bus_side_kept_def sel_bank_def other_bank_def)

lemma kick_same: "mc_done (CMA_kick c) = mc_done c" "cma_st_unit (CMA_kick c) = cma_st_unit c"
  by (simp_all add: CMA_kick_def Let_def)

text \<open>The first cycle switches the banks and runs, a cycle in a run runs, the cycle after its end switches back.\<close>

lemma core_first_step:
  assumes "cr_run (ctrl_reg c)" "\<not> mc_working c" "\<not> mc_done c" "CMA_core_step hb c = Some (s, e)"
  shows "s = None \<and> core_running c e \<and> (mc_done e \<longrightarrow> \<not> isWorking (cma_st_unit c))"
proof -
  have "CMA_cycle hb (CMA_kick c) = Some e" "s = None"
    using assms by (auto simp: CMA_core_step_def Let_def kick_same)
  with cycle_running [OF kick_running] CMA_cycle_keeps(5) [OF this(1)] assms(3) show ?thesis by (simp add: kick_same)
qed

lemma core_next_step:
  assumes "core_running c d" "cr_run (ctrl_reg c)" "\<not> mc_done d" "CMA_core_step hb d = Some (s, e)"
  shows "s = None \<and> core_running c e \<and> (mc_done e \<longrightarrow> \<not> isWorking (cma_st_unit d))"
proof -
  have "CMA_cycle hb d = Some e" "s = None"
    using assms by (auto simp: CMA_core_step_def Let_def core_running_def)
  with cycle_running [OF assms(1)] CMA_cycle_keeps(5) [OF this(1)] assms(3) show ?thesis by blast
qed

lemma core_last_step:
  assumes "core_running c d" "cr_run (ctrl_reg c)" "mc_done d"
  shows "CMA_core_step hb d = Some (Some (cr_donedma (ctrl_reg c)), CMA_finish d)"
  using assms by (simp add: CMA_core_step_def core_running_def)

lemma core_idle_step:
  assumes "cr_run (ctrl_reg d)" "mc_working d" "mc_done d" "done_notif d"
  shows "CMA_core_step hb d = Some (None, d)"
  using assms by (simp add: CMA_core_step_def)

text \<open>
  \<open>core_ended hb c k sigs d\<close>: the program ended with cycle \<open>k\<close>, when no store was pending any more, the
  cycle after it switched the banks back, and nothing happened since.
\<close>

definition core_ended :: "bool \<Rightarrow> cma \<Rightarrow> nat \<Rightarrow> nat \<Rightarrow> bool option list \<Rightarrow> cma \<Rightarrow> bool" where
  "core_ended hb c n k sigs d \<longleftrightarrow> k + 1 < n \<and>
     sigs = replicate (Suc k) None @ Some (cr_donedma (ctrl_reg c)) # replicate (n - k - 2) None \<and>
     (\<exists>e f. core_steps hb k c = Some (replicate k None, e) \<and> \<not> mc_done e \<and> \<not> isWorking (cma_st_unit e) \<and>
        core_steps hb (Suc k) c = Some (replicate (Suc k) None, f) \<and> mc_done f \<and> core_running c f \<and> d = CMA_finish f)"

lemma core_run:
  assumes "cr_run (ctrl_reg c)" "\<not> mc_working c" "\<not> mc_done c" "core_steps hb (Suc n) c = Some (sigs, d)"
  shows "core_running c d \<and> sigs = replicate (Suc n) None \<and>
      (mc_done d \<longrightarrow> (\<exists>e. core_steps hb n c = Some (replicate n None, e) \<and> \<not> mc_done e \<and> \<not> isWorking (cma_st_unit e))) \<or>
    (\<exists>k. core_ended hb c (Suc n) k sigs d)"
  using assms(4)
proof (induction n arbitrary: sigs d)
  case 0
  then obtain s where "CMA_core_step hb c = Some (s, d)" "sigs = [s]" by auto
  with core_first_step [OF assms(1-3)] assms(3) show ?case by auto
next
  case (Suc n)
  then obtain sigs0 d0 s where d0: "core_steps hb (Suc n) c = Some (sigs0, d0)"
    and s: "CMA_core_step hb d0 = Some (s, d)" "sigs = sigs0 @ [s]" by (auto simp del: core_steps.simps(2) simp: core_steps.simps(2) [of hb "Suc n"])
  from Suc.IH [OF d0] show ?case
  proof (elim disjE exE conjE)
    fix k
    assume e: "core_ended hb c (Suc n) k sigs0 d0"
    then obtain f where f: "core_running c f" "mc_done f" "d0 = CMA_finish f" by (auto simp: core_ended_def)
    then have "CMA_core_step hb d0 = Some (None, d0)"
      using assms(1) by (intro core_idle_step) (auto simp: CMA_finish_def core_running_def Let_def)
    then have "s = None" "d = d0" using s(1) by auto
    moreover have "Suc (Suc n) - k - 2 = Suc (Suc n - k - 2)" using e by (auto simp: core_ended_def)
    then have "replicate (Suc (Suc n) - k - 2) None = replicate (Suc n - k - 2) None @ [None]"
      by (simp add: replicate_append_same)
    ultimately have "core_ended hb c (Suc (Suc n)) k sigs d"
      using e s(2) unfolding core_ended_def by (metis append.assoc append_Cons less_SucI)
    then show ?thesis by blast
  next
    assume r: "core_running c d0" "sigs0 = replicate (Suc n) None"
      "mc_done d0 \<longrightarrow> (\<exists>e. core_steps hb n c = Some (replicate n None, e) \<and> \<not> mc_done e \<and> \<not> isWorking (cma_st_unit e))"
    show ?thesis
    proof (cases "mc_done d0")
      case True
      then have "s = Some (cr_donedma (ctrl_reg c))" "d = CMA_finish d0"
        using core_last_step [OF r(1) assms(1)] s(1) by simp_all
      with True r d0 s(2) have "core_ended hb c (Suc (Suc n)) n sigs d" by (fastforce simp: core_ended_def)
      then show ?thesis by blast
    next
      case False
      with core_next_step [OF r(1) assms(1) _ s(1)] have k: "s = None" "core_running c d"
        "mc_done d \<longrightarrow> \<not> isWorking (cma_st_unit d0)" by auto
      with False r(2) d0 s(2) show ?thesis by (auto simp: replicate_append_same simp del: core_steps.simps)
    qed
  qed
qed

lemma finish_banks:
  assumes "core_running c f"
  shows "imem (CMA_finish f) = imem c" "other_bank c (CMA_finish f) = other_bank c c"
    "db_outer (sel_bank c (CMA_finish f)) = db_inner (sel_bank c f)"
    "db_inner (sel_bank c (CMA_finish f)) = db_inner (sel_bank c c)"
    "cr_done (ctrl_reg (CMA_finish f))" "done_notif (CMA_finish f)"
  using assms by (auto simp: CMA_finish_def Let_def core_running_def sel_bank_def other_bank_def)

end
