(* ===== verification/CMA_Props.thy ===== *)
theory CMA_Props
  imports CMA_Facts
begin

unbundle bit_operations_syntax

text \<open>
  The properties of the CMA accelerator and its array.
\<close>

declare getData.simps [simp del]

section \<open>The array\<close>

text \<open>
  An array of one element for the examples: the ALU adds the launch register and the first constant
  register, which holds 5, and its sum goes to the gather register.
\<close>

definition demo_pe :: "pe_node list \<Rightarrow> pe_array" where
  "demo_pe ord = (config_SE_at (0, 0, 0, 0) 0 0 (config_ALU_at (1, 0, 6) 0 0 (store_const 0 5 (PEArray_new 1 1 ord))))\<lparr>config_changed := True\<rparr>"

lemma demo_pe_fields:
  "pa_width (demo_pe ord) = 1" "pa_height (demo_pe ord) = 1" "config_changed (demo_pe ord)"
  "preds (demo_pe ord) n = pe_inputs 1 1 n" "opcode (demo_pe ord) = (\<lambda>n. 0)(ALU 0 0 := 1)"
  "config_data (demo_pe ord) (SEL 0 0 0) = 0" "config_data (demo_pe ord) (SEL 0 0 (Suc 0)) = 6" "config_data (demo_pe ord) (CH 0 0 (Suc 0)) = 0"
  "pe_array.obuf (demo_pe ord) (LAUNCH 0) = [0]" "getData (demo_pe ord) (CREG 0) = 5" "same_view (demo_pe ord) (demo_pe ord')"
  by (simp_all add: demo_pe_def config_SE_at_def config_ALU_at_def store_const_def PEArray_new_def ALU_config_def MUX_config_def
      PE_graph_inputs CMA_OP_SIZE_def Let_def direction_defs getData.simps CMA_CONST_MASK_def same_view_def)

lemma demo_pe_wf:
  assumes "distinct ord" "set ord = set (PE_nodes 1 1)"
  shows "pe_wf (demo_pe ord)"
proof -
  have "pe_wf (PEArray_new 1 1 ord)" using PEArray_new_wf [of 1 ord 1] assms by (simp add: array_ok_def)
  moreover have "array_ok (store_const 0 5 (PEArray_new 1 1 ord))"
    using configs_ok(5) PEArray_new_wf [of 1 ord 1] assms by simp
  ultimately have "pe_wf (config_SE_at (0, 0, 0, 0) 0 0 (config_ALU_at (1, 0, 6) 0 0 (store_const 0 5 (PEArray_new 1 1 ord))))"
    by (intro config_SE_at_wf config_ALU_at_wf) (simp add: array_ok_def)
  from wf_changed [OF this] show ?thesis by (simp add: demo_pe_def array_ok_def)
qed

lemma demo_pe_computes: "computes (demo_pe ord) (CH 0 0 OUT_SE_SOUTH) 5"
proof -
  let ?a = "demo_pe ord"
  note f = demo_pe_fields [of ord]
  have l: "computes ?a (LAUNCH 0) 0"
    using computes_launch [of 0 ?a] by (simp add: f getData.simps)
  have c: "computes ?a (CREG 0) 5" using computes_const [of 0 ?a] by (simp add: f)
  have "computes ?a (SEL 0 0 0) 0"
    by (rule computes_mux [OF _ _ l]) (simp_all add: f deref_pred_def)
  moreover have "computes ?a (SEL 0 0 1) 5"
    by (rule computes_mux [OF _ _ c]) (simp_all add: f deref_pred_def)
  ultimately have "computes ?a (ALU 0 0) 5"
    by (rule computes_alu [rotated 3])
      (simp_all add: f deref_pred_def PE_op_table_def exec_add_def CMA_DWORD_MASK_def)
  then show ?thesis
    by (rule computes_mux [rotated 2]) (simp_all add: f deref_pred_def direction_defs)
qed

lemma demo_pe_no_fault: "\<not> alu_fault (demo_pe ord)"
  by (auto simp: alu_fault_def demo_pe_fields PE_op_table_def exec_add_def split: if_splits)

text \<open>
  C10. One cycle of the array is the dataflow its configuration describes: every gather register takes
  the value its channel computes from the launch, constant and pipeline registers, or 0 where the
  channel has no complete path to a source, every register of the pipeline in use latches its input,
  and the array is well formed again. No null pointer is followed and no empty queue popped:
  the only thing that can go wrong is a shift by 32 or more in an ALU.
\<close>
theorem array_computes_dataflow:
  assumes "pe_wf a" "config_changed a \<or> analysed a"
  shows "case PEArray_exec a of None \<Rightarrow> alu_fault a
    | Some b \<Rightarrow> cycle_result a b \<and> pe_wf b \<and> analysed b \<and> \<not> config_changed b"
  by (rule exec_cycle [OF assms])

theorem array_computes_dataflow_witness:
  "\<exists>b. PEArray_exec (demo_pe (PE_nodes 1 1)) = Some b \<and> pe_array.obuf b (GATHER 0) = [5]"
proof -
  have "distinct (PE_nodes 1 1)" by (simp add: PE_nodes_def upt_rec)
  then have w: "pe_wf (demo_pe (PE_nodes 1 1))" by (rule demo_pe_wf) simp
  have c: "config_changed (demo_pe (PE_nodes 1 1)) \<or> analysed (demo_pe (PE_nodes 1 1))" by (simp add: demo_pe_fields)
  show ?thesis
    using array_computes_dataflow [OF w c] demo_pe_no_fault demo_pe_computes computes_unique
    by (auto simp: cycle_result_def port_value_def demo_pe_fields split: option.splits) blast
qed

text \<open>
  What the array computes does not depend on where its objects lie in memory, although the
  sort visits the nodes in the order of their addresses: two arrays that differ only in the
  addresses gather the same values.
\<close>
lemma pointer_order_irrelevant:
  assumes "pe_wf a" "pe_wf b" "same_view a b" "config_changed a \<or> analysed a" "config_changed b \<or> analysed b"
    and "PEArray_exec a = Some a'" "PEArray_exec b = Some b'" "x < pa_width a"
  shows "pe_array.obuf a' (GATHER x) = pe_array.obuf b' (GATHER x)"
proof -
  have "cycle_result a a'" "cycle_result b b'"
    using exec_cycle [OF assms(1,4)] exec_cycle [OF assms(2,5)] assms(6,7) by simp_all
  moreover have "x < pa_width b" using assms(3,8) by (simp add: same_view_def)
  ultimately obtain u v where "pe_array.obuf a' (GATHER x) = [u]" "port_value a x u" "pe_array.obuf b' (GATHER x) = [v]" "port_value b x v"
    using assms(8) unfolding cycle_result_def by blast
  moreover from this have "u = v"
    using computes_unique by (auto simp: port_value_def computes_view [OF assms(3)])
  ultimately show ?thesis by simp
qed

section \<open>The store unit\<close>

definition fresh_unit :: "data_manip \<Rightarrow> nat \<Rightarrow> st_unit" where
  "fresh_unit dm d = setDelay d (STUnit_new dm 16)"

lemma fresh_unit_facts:
  assumes "d \<le> 14"
  shows "st_ok (fresh_unit dm d)" "waiting (fresh_unit dm d) = replicate (d + 1) None" "st_dm (fresh_unit dm d) = dm"
proof -
  have w: "waiting (fresh_unit dm d) = replicate (d + 1) None"
    using assms by (simp add: waiting_def fresh_unit_def setDelay_def STUnit_new_def as_issue_def map_replicate_const replicate_append_same)
  show "waiting (fresh_unit dm d) = replicate (d + 1) None" by (rule w)
  have "outstanding (replicate (d + 1) None) = 0" by (simp add: outstanding_def)
  with w assms show "st_ok (fresh_unit dm d)"
    by (simp add: st_ok_def fresh_unit_def setDelay_def STUnit_new_def)
qed (simp add: fresh_unit_def setDelay_def STUnit_new_def)

text \<open>
  C11. With a delay of at most 14 the store unit executes every store exactly once, in the order of
  issue and exactly \<open>delay + 1\<close> cycles after it was issued, and \<open>isWorking\<close>, which holds the
  microcontroller at its end, is true exactly as long as a store is still to come.
\<close>
theorem store_schedule:
  assumes "d \<le> 14"
  shows "map_option snd (st_run hb xs (fresh_unit dm d, bank)) =
      st_reference hb dm (replicate (d + 1) None @ map fst xs) (map snd xs) bank \<and>
    (\<forall>u b. st_run hb xs (fresh_unit dm d, bank) = Some (u, b) \<longrightarrow>
       (isWorking u \<longleftrightarrow> (\<exists>i \<in> set (drop (length xs) (replicate (d + 1) None @ map fst xs)). i \<noteq> None)))"
proof -
  note f = fresh_unit_facts [OF assms, of dm]
  have "isWorking u \<longleftrightarrow> (\<exists>i \<in> set (waiting u). i \<noteq> None)" if "st_ok u" for u
    using that by (auto simp: st_ok_def isWorking_def outstanding_def filter_empty_conv)
  with st_run_reference [OF f(1), of hb xs bank] show ?thesis unfolding f(2,3) by metis
qed

theorem store_schedule_witness:
  "map_option snd (st_run False [(Some (0, 0), demo_pe []), (None, demo_pe [])]
      (fresh_unit \<lparr>dm_bitmap = replicate 16 (True # replicate 11 False), dm_table = replicate 16 (replicate 12 0)\<rparr> 0, demo_dbuf)) =
    fromPEArray False 0 0 \<lparr>dm_bitmap = replicate 16 (True # replicate 11 False), dm_table = replicate 16 (replicate 12 0)\<rparr>
      (demo_pe []) demo_dbuf"
  using store_schedule [of 0 False "[(Some (0, 0), demo_pe []), (None, demo_pe [])]"
      "\<lparr>dm_bitmap = replicate 16 (True # replicate 11 False), dm_table = replicate 16 (replicate 12 0)\<rparr>" demo_dbuf]
  by (simp split: option.split)

section \<open>The core\<close>

definition demo_tables :: data_manip where
  "demo_tables = \<lparr>dm_bitmap = replicate 16 (replicate 12 False), dm_table = replicate 16 (replicate 12 0)\<rparr>"

definition demo_cma :: cma where
  "demo_cma = \<lparr>dmem_front = demo_dbuf, dmem_back = demo_dbuf, imem = demo_dbuf, dbank_front = True, ld_unit = demo_tables,
     cma_st_unit = STUnit_new demo_tables 16, pearray = PEArray_new 1 1 [], ctrl_reg = ControlReg_new False,
     mc = \<lparr>mc_regfile = replicate 16 0, mc_pc = 0, launch_addr = 0, launch_incr = 0, gather_addr = 0, gather_incr = 0\<rparr>,
     mc_done = False, mc_working = False, done_notif = False,
     trgr_cnd = 0, trgr_mod = 0, trgr_offset = 0, debug_op = 0, trgr_arg = 0, resp_data = 0\<rparr>"

text \<open>What happens to the core: accesses of the bus, its own steps, resets.\<close>

inductive cma_reaches :: "bool \<Rightarrow> cma \<Rightarrow> cma \<Rightarrow> bool" for hb where
  start: "cma_reaches hb c c"
| stored: "cma_reaches hb c d \<Longrightarrow> CMA_store_word hb k off data d = Some e \<Longrightarrow> cma_reaches hb c e"
| fetched: "cma_reaches hb c d \<Longrightarrow> CMA_fetch_word hb k off d = Some (w, e) \<Longrightarrow> cma_reaches hb c e"
| stepped: "cma_reaches hb c d \<Longrightarrow> CMA_core_step hb d = Some (sig, e) \<Longrightarrow> cma_reaches hb c e"
| reset: "cma_reaches hb c d \<Longrightarrow> cma_reaches hb c (CMA_core_reset d)"

lemma fetch_word_same: "CMA_fetch_word hb k off c = Some (w, d) \<Longrightarrow> d = c"
  by (cases k) auto

text \<open>
  C13. The invariant of the core holds after its setup and in every state it reaches by accesses of
  the bus, steps and resets: both banks of every buffer keep their size, the tables and the queue
  of the store unit their lengths, and the array is well formed, with a sorted list that belongs to its
  configuration or is about to be made again.
\<close>
theorem core_invariant:
  assumes "distinct ord" "set ord = set (PE_nodes 12 8)" "dm_wf ld" "dm_wf st" "length (mc_regfile (mc c0)) = 16"
    and "CMA_setup ord ld st c0 = Some c" and "cma_reaches hb c d"
  shows "cma_wf d"
  using assms(7,1-6)
proof (induction rule: cma_reaches.induct)
  case (start c)
  then show ?case using setup_wf by blast
next
  case (stored c d k off data e)
  then show ?case using store_word_wf by blast
next
  case (fetched c d k off w e)
  then show ?case using fetch_word_same by blast
next
  case (stepped c d sig e)
  then show ?case using core_step_wf by blast
next
  case (reset c d)
  then show ?case using reset_wf by blast
qed

theorem core_invariant_witness:
  "\<exists>c. CMA_setup (remdups (PE_nodes 12 8)) demo_tables demo_tables demo_cma = Some c \<and> cma_wf (CMA_core_reset c)"
proof -
  have t: "dm_wf demo_tables" by (simp add: dm_wf_def demo_tables_def)
  have o: "distinct (remdups (PE_nodes 12 8))" "set (remdups (PE_nodes 12 8)) = set (PE_nodes 12 8)" by simp_all
  have l: "length (mc_regfile (mc demo_cma)) = 16" by (simp add: demo_cma_def)
  obtain c where c: "CMA_setup (remdups (PE_nodes 12 8)) demo_tables demo_tables demo_cma = Some c"
    by (simp add: CMA_setup_def DoubleBuffer_new_def Let_def)
  have "cma_reaches False c (CMA_core_reset c)" by (rule cma_reaches.reset [OF cma_reaches.start])
  from core_invariant [OF o t t l c this] c show ?thesis by blast
qed

text \<open>
  C12. A run of the core, from the cycle in which it finds the run bit set. In every number of cycles during
  which the bus leaves the core alone: as long as the run has not ended there is no signal, the done
  bit is clear, instruction memory and selected data bank are switched exactly once, the
  side of the bus of the selected bank and all of the other bank keep their contents. The run ends
  once, by one signal to the network interface that says whether to start the transfer, two
  cycles after one in which no store was pending; then the done bit is set, the instruction memory and the other bank
  are what they were at the start, and the bus sees in the selected bank what the core left
  there, and it stays so.
\<close>
theorem core_protocol:
  assumes "cr_run (ctrl_reg c)" "\<not> mc_working c" "\<not> mc_done c" "core_steps hb n c = Some (sigs, d)" "0 < n"
  shows "(\<not> done_notif d \<longrightarrow> sigs = replicate n None \<and> \<not> cr_done (ctrl_reg d) \<and> imem d = buf_switch (imem c) \<and>
      db_outer (sel_bank c d) = db_inner (sel_bank c c) \<and> other_bank c d = other_bank c c) \<and>
    (done_notif d \<longrightarrow> (\<exists>k e f. k + 1 < n \<and>
      core_steps hb k c = Some (replicate k None, e) \<and> \<not> mc_done e \<and> \<not> isWorking (cma_st_unit e) \<and>
      core_steps hb (Suc k) c = Some (replicate (Suc k) None, f) \<and> mc_done f \<and>
      sigs = replicate (Suc k) None @ Some (cr_donedma (ctrl_reg c)) # replicate (n - k - 2) None \<and>
      cr_done (ctrl_reg d) \<and> imem d = imem c \<and> other_bank c d = other_bank c c \<and>
      db_outer (sel_bank c d) = db_inner (sel_bank c f) \<and> db_inner (sel_bank c d) = db_inner (sel_bank c c)))"
proof -
  obtain m where n: "n = Suc m" using assms(5) gr0_implies_Suc by blast
  from core_run [OF assms(1-3) assms(4) [unfolded n]] show ?thesis
  proof (elim disjE exE conjE)
    assume "core_running c d" "sigs = replicate (Suc m) None"
    then show ?thesis by (simp add: core_running_def n)
  next
    fix k
    assume "core_ended hb c (Suc m) k sigs d"
    then obtain e f where r: "k + 1 < n" "sigs = replicate (Suc k) None @ Some (cr_donedma (ctrl_reg c)) # replicate (n - k - 2) None"
      "core_steps hb k c = Some (replicate k None, e)" "\<not> mc_done e" "\<not> isWorking (cma_st_unit e)"
      "core_steps hb (Suc k) c = Some (replicate (Suc k) None, f)" "mc_done f" and f: "core_running c f" "d = CMA_finish f"
      unfolding core_ended_def n by blast
    show ?thesis
      unfolding f(2) using r(1,3-7) r(2) finish_banks [OF f(1)] by blast
  qed
qed

text \<open>A core whose program is the one instruction that ends it, with an array of no elements.\<close>

definition short_run :: cma where
  "short_run = demo_cma\<lparr>ctrl_reg := ctrl_store_word 2 (ctrl_reg demo_cma),
     imem := demo_dbuf\<lparr>db_front := [0x0E, 0, 0, 0, 0, 0, 0, 0]\<rparr>,
     pearray := (PEArray_new 0 0 [])\<lparr>config_changed := False, tsorted_list := []\<rparr>\<rparr>"

definition short_end :: cma where
  "short_end = the (CMA_cycle False (CMA_kick short_run))"

lemma short_run_facts:
  "cr_run (ctrl_reg short_run)" "\<not> mc_working short_run" "\<not> mc_done short_run"
  "CMA_cycle False (CMA_kick short_run) = Some short_end" "mc_done short_end"
proof -
  show "cr_run (ctrl_reg short_run)" "\<not> mc_working short_run" "\<not> mc_done short_run"
    by (simp_all add: short_run_def demo_cma_def ctrl_store_word_def ControlReg_new_def)
  let ?k = "CMA_kick short_run"
  have k: "mc_pc (mc ?k) = 0" "cma_st_unit ?k = STUnit_new demo_tables 16"
    "pearray ?k = (PEArray_new 0 0 [])\<lparr>config_changed := False, tsorted_list := []\<rparr>"
    "imem ?k = buf_switch (demo_dbuf\<lparr>db_front := [0x0E, 0, 0, 0, 0, 0, 0, 0]\<rparr>)"
    by (simp_all add: short_run_def demo_cma_def CMA_kick_def Let_def)
  have w: "fetch_word_from_inner False 0 (imem ?k) = Some 0x0E"
    unfolding k by (simp add: demo_dbuf_def fetch_word_from_inner_def inner_exceeds_def load32_def word_of_bytes_def
        db_outer_def Let_def)
  have m: "MicroController_step False ?k = Some (?k\<lparr>mc_done := True, mc := (mc ?k)\<lparr>mc_pc := 4\<rparr>\<rparr>)"
    by (simp add: MicroController_step_def k(1) w mc_exec_def mc_opcode_def mc_exec_reg_def mc_func_def k(2)
        STUnit_new_def isWorking_def Let_def)
  have pe: "PEArray_exec (pearray ?k) = Some (pearray ?k)"
    by (simp add: k(3) PEArray_exec_def PEArray_new_def Let_def)
  have "STUnit_step False (pearray ?k) (cma_st_unit ?k) b = Some (cma_st_unit ?k, b)" for b
    unfolding k(2) by (simp add: STUnit_step_def shift_signals_def STUnit_new_def eval_nat_numeral)
  then have "\<exists>d. CMA_cycle False ?k = Some d \<and> mc_done d"
    by (simp add: CMA_cycle_def m pe set_dbank_def)
  then show "CMA_cycle False (CMA_kick short_run) = Some short_end" "mc_done short_end"
    by (auto simp: short_end_def)
qed

theorem core_protocol_witness:
  "\<exists>d. core_steps False 2 short_run = Some ([None, Some False], d) \<and> cr_done (ctrl_reg d) \<and> imem d = imem short_run"
proof -
  note f = short_run_facts
  have 1: "CMA_core_step False short_run = Some (None, short_end)"
    using f by (simp add: CMA_core_step_def kick_same)
  have r: "core_running short_run short_end" by (rule cycle_running [OF kick_running f(4)])
  have "\<not> cr_donedma (ctrl_reg short_run)"
    by (simp add: short_run_def demo_cma_def ctrl_store_word_def)
  then have s: "core_steps False 2 short_run = Some ([None, Some False], CMA_finish short_end)"
    using 1 core_last_step [OF r f(1,5)] by (simp add: numeral_2_eq_2)
  from core_protocol [OF f(1-3) s] finish_banks(6) [OF r] s show ?thesis by auto
qed

text \<open>
  Reading a table register of the CMA yields 0 whatever was stored: the register number is taken
  with the mask of the selector and shifted by the distance of the index.
\<close>
lemma table_registers_read_zero:
  "CMA_fetch_word hb LD_TBL off c = Some (0, c) \<and> CMA_fetch_word hb ST_TBL off c = Some (0, c)"
  by (simp add: table_fetch_zero)

end
