(* ===== verification/SNACC_Mad.thy ===== *)
theory SNACC_Mad
  imports Dbuf
begin

unbundle bit_operations_syntax

text \<open>
  \<open>snaccmodules.h\<close> and \<open>snaccmodules.cc\<close>: the fixed-point numbers and the multiply-and-add unit of a
  core of the SNACC accelerator.

  A number is its field \<open>num_\<close>, the two's complement bits of an \<open>int16\<close> or \<open>int32\<close>; the signed sum
  of the overflow test wraps around, as the test presumes. The registers \<open>TR0\<close>, \<open>TR1\<close>, \<open>FR0\<close> and
  \<open>FR1\<close>, pointers into the register file of the core, and the mask, a pointer to the array
  \<open>simd_mask\<close> of the core, are arguments. \<^const>\<open>None\<close> is an access outside a buffer. Printing
  is left out; the conversions from and to floating point are not used by the simulator.
\<close>

section \<open>Fixed-point numbers\<close>

type_synonym fixed16 = u16
type_synonym fixed32 = u32

definition Fixed16_of_u8 :: "u8 \<Rightarrow> fixed16" where
  "Fixed16_of_u8 num = push_bit 8 (ucast num)"

definition Fixed16_of_u16 :: "u16 \<Rightarrow> fixed16" where
  "Fixed16_of_u16 num = num"

definition Fixed16_ToRegisterFormat :: "fixed16 \<Rightarrow> u32" where
  "Fixed16_ToRegisterFormat num = push_bit 16 (scast num)"

definition ToFixed32 :: "fixed16 \<Rightarrow> fixed32" where
  "ToFixed32 num = signed_drop_bit 4 (push_bit 16 (scast num))"

definition fixed_mul :: "fixed16 \<Rightarrow> fixed16 \<Rightarrow> fixed32" where
  "fixed_mul lhs rhs = scast lhs * scast rhs"

definition fixed_add :: "fixed32 \<Rightarrow> fixed32 \<Rightarrow> fixed32" where
  "fixed_add lhs rhs =
     (let result = lhs + rhs;
          result = (if sint lhs > 0 \<and> sint rhs > 0 \<and> sint result < 0 then 0x7FFFFFFF else result)
      in if sint lhs < 0 \<and> sint rhs < 0 \<and> sint result > 0 then 0x80000000 else result)"

definition fixed_less :: "fixed32 \<Rightarrow> fixed32 \<Rightarrow> bool" where
  "fixed_less lhs rhs \<longleftrightarrow> sint lhs < sint rhs"

definition SignedClipMostSignificant4Bits :: "u32 \<Rightarrow> u32" where
  "SignedClipMostSignificant4Bits before =
     (if before AND 0xF8000000 = 0 \<or> before AND 0xF8000000 = 0xF8000000 then push_bit 4 before
      else if before AND 0x80000000 \<noteq> 0 then 0x80000000
      else 0x7FFFFFFF)"

definition FromRegisterFormat :: "u32 \<Rightarrow> fixed32" where
  "FromRegisterFormat prev = signed_drop_bit 4 prev"

definition ToRegisterFormat :: "fixed32 \<Rightarrow> u32" where
  "ToRegisterFormat num = SignedClipMostSignificant4Bits num"

definition ToLutIndex :: "fixed32 \<Rightarrow> u32" where
  "ToLutIndex num = push_bit 1 (drop_bit 22 (SignedClipMostSignificant4Bits num))"

section \<open>The multiply-and-add unit (MadUnit)\<close>

abbreviation (input) SNACC_SIMD_LANE_SIZE :: nat where "SNACC_SIMD_LANE_SIZE \<equiv> 8"

datatype mad_state = MAD_IDLE | MAD_DSTALL | MAD_EX | MAD_WB | MAD_LUTSTALL | MAD_FU

text \<open>The buffers of a core; the unit reads all of them but the instruction memory.\<close>

record snacc_bufs =
  sb_dmem_u :: dbuf
  sb_dmem_l :: dbuf
  sb_rbuf_u :: dbuf
  sb_rbuf_l :: dbuf
  sb_lut :: dbuf
  sb_imem :: dbuf

record mad_unit =
  mad_state :: mad_state
  mad_next :: mad_state
  mad_mode :: nat
  eight_bit_mode :: bool
  loop_count :: u32
  mask_count :: nat
  simd_data_width :: nat
  sram_latency :: u32
  wait_data_cycle :: u32
  mad_dmem_step :: u32
  mad_rbuf_step :: u32
  second_lut_done :: bool
  data_addr :: u32
  rbuf_addr :: u32
  tr0_fp :: fixed32
  tr1_fp :: fixed32
  fr0_fp :: fixed32
  fr1_fp :: fixed32

record mad_regs =
  TR0 :: u32
  TR1 :: u32
  FR0 :: u32
  FR1 :: u32

definition mad_reset :: "mad_unit \<Rightarrow> mad_unit" where
  "mad_reset u = u\<lparr>mad_state := MAD_IDLE, mad_next := MAD_IDLE\<rparr>"

definition set_addr :: "u32 \<Rightarrow> u32 \<Rightarrow> mad_unit \<Rightarrow> mad_unit" where
  "set_addr d r u = u\<lparr>data_addr := d AND 0xFFFF, rbuf_addr := r AND 0xFFFF, wait_data_cycle := sram_latency u\<rparr>"

definition overDmemBoundary :: "mad_unit \<Rightarrow> bool" where
  "overDmemBoundary u \<longleftrightarrow> unat (data_addr u) mod 8 + simd_data_width u > 8"

definition overRbufBoundary :: "mad_unit \<Rightarrow> bool" where
  "overRbufBoundary u \<longleftrightarrow> unat (rbuf_addr u) mod 8 + simd_data_width u > 8"

text \<open>The number of the last lane in use plus 1, or 0: the loop that counts \<open>mask_count\<close> down.\<close>

primrec last_lane :: "bool list \<Rightarrow> nat \<Rightarrow> nat" where
  "last_lane msk 0 = 0"
| "last_lane msk (Suc n) = (if msk ! n then Suc n else last_lane msk n)"

definition mad_start :: "u8 \<Rightarrow> bool list \<Rightarrow> u32 \<Rightarrow> u32 \<Rightarrow> bool \<Rightarrow> u32 \<Rightarrow> mad_regs \<Rightarrow> mad_unit \<Rightarrow> mad_unit" where
  "mad_start md msk d_step r_step eight loops regs u =
     (if unat md \<ge> 4 then u else
      let u1 = u\<lparr>mad_mode := unat md, eight_bit_mode := eight, loop_count := loops,
                mad_dmem_step := d_step, mad_rbuf_step := r_step\<rparr>;
          n = last_lane msk SNACC_SIMD_LANE_SIZE;
          u2 = (if \<not> eight then
                  u1\<lparr>mask_count := n mod (SNACC_SIMD_LANE_SIZE div 2), simd_data_width := n mod (SNACC_SIMD_LANE_SIZE div 2) * 2\<rparr>
                else u1\<lparr>mask_count := n, simd_data_width := n\<rparr>);
          u3 = (if wait_data_cycle u2 > 0 then u2\<lparr>mad_next := MAD_DSTALL\<rparr>
                else if overDmemBoundary u2 \<or> overRbufBoundary u2
                then u2\<lparr>mad_next := MAD_DSTALL, wait_data_cycle := 1\<rparr>
                else u2\<lparr>mad_next := MAD_EX\<rparr>)
      in u3\<lparr>tr0_fp := FromRegisterFormat (TR0 regs), tr1_fp := FromRegisterFormat (TR1 regs),
           fr0_fp := FromRegisterFormat (FR0 regs), fr1_fp := FromRegisterFormat (FR1 regs)\<rparr>)"

definition updataAddress :: "mad_unit \<Rightarrow> mad_unit" where
  "updataAddress u = u\<lparr>data_addr := data_addr u + mad_dmem_step u, rbuf_addr := rbuf_addr u + mad_rbuf_step u\<rparr>"

text \<open>
  The place of a byte address in the interleaved pair of buffers. The loops of the code hold the
  address in an \<open>int\<close>; addresses that are negative there lie outside every buffer and read as 0.
\<close>

definition sram_addr :: "u32 \<Rightarrow> u32" where
  "sram_addr addr = (push_bit 2 (drop_bit 3 addr) + (addr AND 0x3)) XOR 0x3"

definition in_upper :: "u32 \<Rightarrow> bool" where
  "in_upper addr \<longleftrightarrow> unat addr div 4 mod 2 = 0"

definition load_half :: "bool \<Rightarrow> dbuf \<Rightarrow> dbuf \<Rightarrow> u32 \<Rightarrow> fixed16 option" where
  "load_half hb up lo addr = map_option Fixed16_of_u16 (fetch_half_from_inner hb (sram_addr addr) (if in_upper addr then up else lo))"

definition load_byte :: "dbuf \<Rightarrow> dbuf \<Rightarrow> u32 \<Rightarrow> fixed16 option" where
  "load_byte up lo addr = map_option Fixed16_of_u8 (fetch_byte_from_inner (sram_addr addr) (if in_upper addr then up else lo))"

primrec load_lanes :: "(u32 \<Rightarrow> fixed16 option) \<Rightarrow> u32 \<Rightarrow> u32 \<Rightarrow> nat \<Rightarrow> fixed16 list option" where
  "load_lanes f addr stride 0 = Some []"
| "load_lanes f addr stride (Suc n) = do {
     x \<leftarrow> f addr;
     xs \<leftarrow> load_lanes f (addr + stride) stride n;
     Some (x # xs)
   }"

definition loadWeight :: "bool \<Rightarrow> snacc_bufs \<Rightarrow> mad_unit \<Rightarrow> fixed16 list option" where
  "loadWeight hb m u = load_lanes (load_half hb (sb_rbuf_u m) (sb_rbuf_l m)) (rbuf_addr u) 2 (SNACC_SIMD_LANE_SIZE div 2)"

definition loadData :: "bool \<Rightarrow> snacc_bufs \<Rightarrow> mad_unit \<Rightarrow> fixed16 list option" where
  "loadData hb m u =
     (if eight_bit_mode u then load_lanes (load_byte (sb_dmem_u m) (sb_dmem_l m)) (data_addr u) 1 SNACC_SIMD_LANE_SIZE
      else load_lanes (load_half hb (sb_dmem_u m) (sb_dmem_l m)) (data_addr u) 2 (SNACC_SIMD_LANE_SIZE div 2))"

text \<open>The lanes \<open>ls\<close> whose mask is set, accumulated into one register.\<close>

definition mad_lanes :: "bool list \<Rightarrow> (nat \<Rightarrow> fixed16) \<Rightarrow> (nat \<Rightarrow> fixed16) \<Rightarrow> nat list \<Rightarrow> fixed32 \<Rightarrow> fixed32" where
  "mad_lanes msk w d ls acc = foldl (\<lambda>acc i. if msk ! i then fixed_add acc (fixed_mul (w i) (d i)) else acc) acc ls"

definition max_lanes :: "bool list \<Rightarrow> (nat \<Rightarrow> fixed16) \<Rightarrow> nat list \<Rightarrow> fixed32 \<Rightarrow> fixed32" where
  "max_lanes msk d ls acc =
     foldl (\<lambda>acc i. if msk ! i then (if fixed_less acc (ToFixed32 (d i)) then ToFixed32 (d i) else acc) else acc) acc ls"

definition lower_lanes :: "nat list" where "lower_lanes = [0..<SNACC_SIMD_LANE_SIZE div 2]"
definition upper_lanes :: "nat list" where "upper_lanes = [SNACC_SIMD_LANE_SIZE div 2..<SNACC_SIMD_LANE_SIZE]"

definition doMad :: "bool \<Rightarrow> bool list \<Rightarrow> snacc_bufs \<Rightarrow> mad_unit \<Rightarrow> mad_unit option" where
  "doMad hb msk m u = do {
     weight \<leftarrow> loadWeight hb m u;
     data \<leftarrow> loadData hb m u;
     let tr0 = mad_lanes msk ((!) weight) ((!) data) lower_lanes (tr0_fp u);
     Some (if eight_bit_mode u then
         u\<lparr>tr0_fp := tr0,
           tr1_fp := mad_lanes msk (\<lambda>i. weight ! (i - SNACC_SIMD_LANE_SIZE div 2)) ((!) data) upper_lanes (tr1_fp u)\<rparr>
       else u\<lparr>tr0_fp := tr0\<rparr>)
   }"

definition doMaxPool :: "bool \<Rightarrow> bool list \<Rightarrow> snacc_bufs \<Rightarrow> mad_unit \<Rightarrow> mad_unit option" where
  "doMaxPool hb msk m u = do {
     data \<leftarrow> loadData hb m u;
     let tr0 = max_lanes msk ((!) data) lower_lanes (tr0_fp u);
     Some (if eight_bit_mode u then u\<lparr>tr0_fp := tr0, tr1_fp := max_lanes msk ((!) data) upper_lanes (tr1_fp u)\<rparr>
       else u\<lparr>tr0_fp := tr0\<rparr>)
   }"

definition doAvgPool :: "mad_unit \<Rightarrow> mad_unit option" where
  "doAvgPool u = Some u"

definition mad_mode_exec :: "bool \<Rightarrow> bool list \<Rightarrow> snacc_bufs \<Rightarrow> mad_unit \<Rightarrow> mad_unit option" where
  "mad_mode_exec hb msk m u =
     (if mad_mode u = 0 \<or> mad_mode u = 1 then doMad hb msk m u
      else if mad_mode u = 2 then doMaxPool hb msk m u
      else if mad_mode u = 3 then doAvgPool u
      else None)"

definition applyFU :: "bool \<Rightarrow> snacc_bufs \<Rightarrow> fixed32 \<Rightarrow> fixed32 option" where
  "applyFU hb m input =
     map_option (\<lambda>h. ToFixed32 (Fixed16_of_u16 h)) (fetch_half_from_inner hb (ToLutIndex input XOR 0x3) (sb_lut m))"

definition mad_ex :: "bool \<Rightarrow> bool list \<Rightarrow> snacc_bufs \<Rightarrow> mad_unit \<Rightarrow> mad_unit option" where
  "mad_ex hb msk m u = do {
     u1 \<leftarrow> mad_mode_exec hb msk m u;
     let u2 = u1\<lparr>loop_count := loop_count u1 - 1\<rparr>;
     Some (if sint (loop_count u2) > 0 then
         let u3 = updataAddress u2 in
         if sram_latency u3 > 1 then
           u3\<lparr>wait_data_cycle := (if overDmemBoundary u3 \<or> overRbufBoundary u3 then sram_latency u3 - 1 + 1 else sram_latency u3 - 1),
             mad_next := MAD_DSTALL\<rparr>
         else u3
       else if mad_mode u2 = 1 then
         u2\<lparr>second_lut_done := False, mad_next := MAD_LUTSTALL, wait_data_cycle := sram_latency u2\<rparr>
       else u2\<lparr>mad_next := MAD_WB\<rparr>)
   }"

definition mad_fu :: "bool \<Rightarrow> snacc_bufs \<Rightarrow> mad_unit \<Rightarrow> mad_unit option" where
  "mad_fu hb m u =
     (if eight_bit_mode u \<and> \<not> second_lut_done u then
        map_option (\<lambda>v. u\<lparr>wait_data_cycle := sram_latency u - 1, mad_next := MAD_LUTSTALL, second_lut_done := True, fr0_fp := v\<rparr>)
          (applyFU hb m (tr0_fp u))
      else if eight_bit_mode u then
        map_option (\<lambda>v. u\<lparr>fr1_fp := v, mad_next := MAD_WB\<rparr>) (applyFU hb m (tr1_fp u))
      else map_option (\<lambda>v. u\<lparr>fr0_fp := v, mad_next := MAD_WB\<rparr>) (applyFU hb m (tr0_fp u)))"

definition mad_wb :: "mad_unit \<Rightarrow> mad_regs \<Rightarrow> mad_regs" where
  "mad_wb u r =
     (let r1 = (if eight_bit_mode u then r\<lparr>TR1 := ToRegisterFormat (tr1_fp u), FR1 := ToRegisterFormat (fr1_fp u)\<rparr> else r)
      in r1\<lparr>TR0 := ToRegisterFormat (tr0_fp u), FR0 := ToRegisterFormat (fr0_fp u)\<rparr>)"

fun mad_state_step :: "bool \<Rightarrow> bool list \<Rightarrow> snacc_bufs \<Rightarrow> mad_state \<Rightarrow> mad_unit \<times> mad_regs \<Rightarrow> (mad_unit \<times> mad_regs) option" where
  "mad_state_step hb msk m MAD_DSTALL (u, r) = Some (if wait_data_cycle u = 0 then u\<lparr>mad_next := MAD_EX\<rparr> else u, r)"
| "mad_state_step hb msk m MAD_LUTSTALL (u, r) = Some (if wait_data_cycle u = 0 then u\<lparr>mad_next := MAD_FU\<rparr> else u, r)"
| "mad_state_step hb msk m MAD_EX (u, r) = map_option (\<lambda>u. (u, r)) (mad_ex hb msk m u)"
| "mad_state_step hb msk m MAD_FU (u, r) = map_option (\<lambda>u. (u, r)) (mad_fu hb m u)"
| "mad_state_step hb msk m MAD_WB (u, r) = Some (u\<lparr>mad_next := MAD_IDLE\<rparr>, mad_wb u r)"
| "mad_state_step hb msk m MAD_IDLE (u, r) = Some (u, r)"

definition mad_tick :: "mad_unit \<Rightarrow> mad_unit" where
  "mad_tick u =
     (let u1 = (if wait_data_cycle u > 0 then u\<lparr>wait_data_cycle := wait_data_cycle u - 1\<rparr> else u)
      in u1\<lparr>mad_state := mad_next u1\<rparr>)"

definition MadUnit_step :: "bool \<Rightarrow> bool list \<Rightarrow> snacc_bufs \<Rightarrow> mad_unit \<times> mad_regs \<Rightarrow> (mad_unit \<times> mad_regs) option" where
  "MadUnit_step hb msk m s = map_option (apfst mad_tick) (mad_state_step hb msk m (mad_state (fst s)) s)"

definition mad_running :: "mad_unit \<Rightarrow> bool" where
  "mad_running u \<longleftrightarrow> mad_state u \<noteq> MAD_IDLE \<or> (mad_state u = MAD_IDLE \<and> mad_next u \<noteq> MAD_IDLE)"

end
