(* ===== verification/SNACC_Core.thy ===== *)
theory SNACC_Core
  imports SNACC_Mad
begin

unbundle bit_operations_syntax

text \<open>
  \<open>snacccore.h\<close> and \<open>snacccore.cc\<close>, with the arbiter \<open>WbufArb\<close> of \<open>snaccmodules.cc\<close>: one core of the
  SNACC accelerator, a multi-cycle processor of four stages with its multiply-and-add unit.

  The buffers a core reaches through pointers are part of its state (\<open>sc_bufs\<close>), the write buffer
  shared by all cores and the counter of the arbiter are passed along. A pointer to one of the
  buffers is its name (\<open>sram\<close>). \<^const>\<open>None\<close> is an access outside a buffer or a shift by more than
  the width of the register. The messages and the instruction dump are left out.
\<close>

section \<open>The arbiter of the write buffer (WbufArb)\<close>

datatype wbuf_access = WBUF_LOAD | WBUF_STORE

definition WbufArb_step :: "u8 \<Rightarrow> u8" where
  "WbufArb_step counter = counter + 1"

definition isAcquired :: "u8 \<Rightarrow> nat \<Rightarrow> u8 \<Rightarrow> wbuf_access \<Rightarrow> bool" where
  "isAcquired counter core_id arb_mode access =
     (if arb_mode = 1 then True
      else
        (let load_acquire = bit counter 0;
             core_acquire =
               (if arb_mode = 0 then core_id = unat (drop_bit 1 counter AND 0x3)
                else if arb_mode = 2 then core_id = unat (drop_bit 1 counter AND 0x1)
                else False)
         in case access of WBUF_LOAD \<Rightarrow> core_acquire \<and> load_acquire | WBUF_STORE \<Rightarrow> core_acquire))"

section \<open>The state of a core\<close>

datatype sram = DMEM_U | DMEM_L | RBUF_U | RBUF_L | LUT | IMEM | WBUF

datatype core_stat = STAT_IF | STAT_ID | STAT_EX | STAT_WB

datatype core_stall = NO_STALL | WBUF_STALL | MAD_STALL | DBCHANGE_STALL | DMA_REQ_STALL | DMA_EX_STALL

record snacc_core =
  sc_id :: nat
  sc_regs :: "u32 list"
  sc_pc :: u32
  halt_issued :: bool
  sc_done :: bool
  fetch_instr :: u16
  dec_opcode :: nat
  dec_rd :: nat
  dec_rs :: nat
  dec_func :: nat
  dec_imm :: u32
  reg_write :: bool
  isBranch :: bool
  reg_write_data :: u32
  sc_status :: core_stat
  stall_cause :: core_stall
  access_address :: u32
  access_mem :: "sram option"
  sc_bufs :: snacc_bufs
  sc_mad :: mad_unit
  mad_mode_reg :: u8
  access_mode :: u8
  wbuf_arb_mode :: u8
  fp_pos :: u8
  dmem_step :: u32
  rbuf_step :: u32
  simd_mask :: "bool list"

abbreviation (input) SNACC_REG_FR0_INDEX :: nat where "SNACC_REG_FR0_INDEX \<equiv> 11"
abbreviation (input) SNACC_REG_FR1_INDEX :: nat where "SNACC_REG_FR1_INDEX \<equiv> 12"
abbreviation (input) SNACC_REG_TR0_INDEX :: nat where "SNACC_REG_TR0_INDEX \<equiv> 13"
abbreviation (input) SNACC_REG_TR1_INDEX :: nat where "SNACC_REG_TR1_INDEX \<equiv> 14"
abbreviation (input) SNACC_REG_PC_INDEX :: nat where "SNACC_REG_PC_INDEX \<equiv> 15"

abbreviation (input) SNACC_DMEM_INTERNAL_ADDR :: u32 where "SNACC_DMEM_INTERNAL_ADDR \<equiv> 0x01000000"
abbreviation (input) SNACC_RBUF_INTERNAL_ADDR :: u32 where "SNACC_RBUF_INTERNAL_ADDR \<equiv> 0x05000000"
abbreviation (input) SNACC_LUT_INTERNAL_ADDR :: u32 where "SNACC_LUT_INTERNAL_ADDR \<equiv> 0x07000000"
abbreviation (input) SNACC_WBUF_INTERNAL_ADDR :: u32 where "SNACC_WBUF_INTERNAL_ADDR \<equiv> 0x09000000"
abbreviation (input) SNACC_SRAM_SIZE :: u32 where "SNACC_SRAM_SIZE \<equiv> 0x800"

text \<open>The multiply-and-add unit holds pointers to four registers of the file.\<close>

definition mad_view :: "u32 list \<Rightarrow> mad_regs" where
  "mad_view r = \<lparr>TR0 = r ! SNACC_REG_TR0_INDEX, TR1 = r ! SNACC_REG_TR1_INDEX,
     FR0 = r ! SNACC_REG_FR0_INDEX, FR1 = r ! SNACC_REG_FR1_INDEX\<rparr>"

definition mad_put :: "mad_regs \<Rightarrow> u32 list \<Rightarrow> u32 list" where
  "mad_put m r = r[SNACC_REG_TR0_INDEX := TR0 m, SNACC_REG_TR1_INDEX := TR1 m,
     SNACC_REG_FR0_INDEX := FR0 m, SNACC_REG_FR1_INDEX := FR1 m]"

text \<open>The buffer a name stands for, in a core and the write buffer.\<close>

fun sram_get :: "sram \<Rightarrow> snacc_core \<times> dbuf \<Rightarrow> dbuf" where
  "sram_get DMEM_U (c, w) = sb_dmem_u (sc_bufs c)"
| "sram_get DMEM_L (c, w) = sb_dmem_l (sc_bufs c)"
| "sram_get RBUF_U (c, w) = sb_rbuf_u (sc_bufs c)"
| "sram_get RBUF_L (c, w) = sb_rbuf_l (sc_bufs c)"
| "sram_get LUT (c, w) = sb_lut (sc_bufs c)"
| "sram_get IMEM (c, w) = sb_imem (sc_bufs c)"
| "sram_get WBUF (c, w) = w"

fun sram_put :: "sram \<Rightarrow> dbuf \<Rightarrow> snacc_core \<times> dbuf \<Rightarrow> snacc_core \<times> dbuf" where
  "sram_put DMEM_U d (c, w) = (c\<lparr>sc_bufs := (sc_bufs c)\<lparr>sb_dmem_u := d\<rparr>\<rparr>, w)"
| "sram_put DMEM_L d (c, w) = (c\<lparr>sc_bufs := (sc_bufs c)\<lparr>sb_dmem_l := d\<rparr>\<rparr>, w)"
| "sram_put RBUF_U d (c, w) = (c\<lparr>sc_bufs := (sc_bufs c)\<lparr>sb_rbuf_u := d\<rparr>\<rparr>, w)"
| "sram_put RBUF_L d (c, w) = (c\<lparr>sc_bufs := (sc_bufs c)\<lparr>sb_rbuf_l := d\<rparr>\<rparr>, w)"
| "sram_put LUT d (c, w) = (c\<lparr>sc_bufs := (sc_bufs c)\<lparr>sb_lut := d\<rparr>\<rparr>, w)"
| "sram_put IMEM d (c, w) = (c\<lparr>sc_bufs := (sc_bufs c)\<lparr>sb_imem := d\<rparr>\<rparr>, w)"
| "sram_put WBUF d (c, w) = (c, d)"

section \<open>Fetch and decode\<close>

definition snacc_opcode :: "u16 \<Rightarrow> nat" where
  "snacc_opcode i = unat (drop_bit 12 (i AND 0xF000))"

definition snacc_reg_dst :: "u16 \<Rightarrow> nat" where
  "snacc_reg_dst i = unat (drop_bit 8 (i AND 0x0F00))"

definition snacc_reg_src :: "u16 \<Rightarrow> nat" where
  "snacc_reg_src i = unat (drop_bit 4 (i AND 0x00F0))"

definition snacc_func :: "u16 \<Rightarrow> nat" where
  "snacc_func i = unat (i AND 0x000F)"

definition snacc_imm :: "u16 \<Rightarrow> u8" where
  "snacc_imm i = ucast (i AND 0x00FF)"

definition if_stage :: "bool \<Rightarrow> snacc_core \<Rightarrow> snacc_core option" where
  "if_stage hb c =
     map_option (\<lambda>h. c\<lparr>fetch_instr := h\<rparr>) (fetch_half_from_inner hb (sc_pc c XOR 0x3) (sb_imem (sc_bufs c)))"

text \<open>
  The address decoder of the loads and stores: the buffer and the offset in it. The two halves of the
  data memory and of the row buffer interleave by words.
\<close>

definition interleaved :: "u32 \<Rightarrow> u32" where
  "interleaved a = push_bit 2 (drop_bit 3 a) + (a AND 0x3)"

definition sram_decode :: "u32 \<Rightarrow> (sram \<times> u32) option" where
  "sram_decode a =
     (if a < SNACC_SRAM_SIZE then Some (IMEM, a)
      else if a \<ge> SNACC_DMEM_INTERNAL_ADDR \<and> a < SNACC_DMEM_INTERNAL_ADDR + SNACC_SRAM_SIZE * 2 then
        Some (if a AND 0x4 = 0 then DMEM_L else DMEM_U, interleaved (a - SNACC_DMEM_INTERNAL_ADDR))
      else if a \<ge> SNACC_RBUF_INTERNAL_ADDR \<and> a < SNACC_RBUF_INTERNAL_ADDR + SNACC_SRAM_SIZE * 2 then
        Some (if a AND 0x4 = 0 then RBUF_L else RBUF_U, interleaved (a - SNACC_RBUF_INTERNAL_ADDR))
      else if a \<ge> SNACC_LUT_INTERNAL_ADDR \<and> a < SNACC_LUT_INTERNAL_ADDR + SNACC_SRAM_SIZE then
        Some (LUT, a - SNACC_LUT_INTERNAL_ADDR)
      else if a \<ge> SNACC_WBUF_INTERNAL_ADDR \<and> a < SNACC_WBUF_INTERNAL_ADDR + SNACC_SRAM_SIZE then
        Some (WBUF, a - SNACC_WBUF_INTERNAL_ADDR)
      else None)"

definition decode_access :: "snacc_core \<Rightarrow> snacc_core" where
  "decode_access c =
     (case sram_decode (sc_regs c ! dec_rs c) of
        None \<Rightarrow> c\<lparr>access_mem := None\<rparr>
      | Some (s, a) \<Rightarrow>
          (let c1 = c\<lparr>access_address := a, access_mem := Some s\<rparr> in
           if s = WBUF then c1\<lparr>stall_cause := WBUF_STALL\<rparr> else c1))"

definition wbuf_stall :: "u8 \<Rightarrow> wbuf_access \<Rightarrow> snacc_core \<Rightarrow> snacc_core" where
  "wbuf_stall arb access c =
     c\<lparr>stall_cause := (if access_mem c = Some WBUF \<and> \<not> isAcquired arb (sc_id c) (wbuf_arb_mode c) access
       then WBUF_STALL else NO_STALL)\<rparr>"

definition stall_handle :: "u8 \<Rightarrow> snacc_core \<Rightarrow> snacc_core" where
  "stall_handle arb c =
     (case stall_cause c of
        NO_STALL \<Rightarrow> c
      | WBUF_STALL \<Rightarrow>
          (if dec_func c = 1 \<or> dec_func c = 3 then wbuf_stall arb WBUF_LOAD c
           else if dec_func c = 2 \<or> dec_func c = 4 then wbuf_stall arb WBUF_STORE c
           else c\<lparr>stall_cause := NO_STALL\<rparr>)
      | MAD_STALL \<Rightarrow> (if \<not> mad_running (sc_mad c) then c\<lparr>stall_cause := NO_STALL\<rparr> else c)
      | _ \<Rightarrow> c\<lparr>stall_cause := NO_STALL\<rparr>)"

definition decode_fields :: "snacc_core \<Rightarrow> snacc_core" where
  "decode_fields c =
     (let i = fetch_instr c in
      c\<lparr>dec_opcode := snacc_opcode i, dec_rd := snacc_reg_dst i, dec_rs := snacc_reg_src i, dec_func := snacc_func i,
        dec_imm := (if snacc_opcode i = 4 \<or> snacc_opcode i = 5 then scast (snacc_imm i) else ucast (snacc_imm i))\<rparr>)"

definition id_stage :: "u8 \<Rightarrow> snacc_core \<Rightarrow> snacc_core" where
  "id_stage arb c =
     (let c1 = decode_fields c;
          c2 = (if dec_opcode c1 = 1 then
                  (if dec_func c1 \<in> {1, 2, 3, 4} then decode_access c1 else c1)
                else c1\<lparr>access_mem := None\<rparr>)
      in stall_handle arb c2)"

definition core_isStall :: "snacc_core \<Rightarrow> bool" where
  "core_isStall c \<longleftrightarrow> sc_done c \<or> stall_cause c \<noteq> NO_STALL"

section \<open>Execution\<close>

text \<open>The members of the class that execute an instruction, and the tables that choose among them.\<close>

datatype snacc_op =
    Op_Unknown | Op_RTypeMemory | Op_RTypeArithmetic | Op_RTypeSimd | Op_Loadi | Op_Bneq | Op_Jump | Op_Mad
  | Op_Madlp | Op_Setcr | Op_Addi | Op_Subi | Op_Sll | Op_Srl | Op_Sra
  | Op_Nop | Op_Mov | Op_Add | Op_Sub | Op_Mul | Op_And | Op_Or | Op_Xor | Op_Neg
  | Op_Halt | Op_Loadw | Op_Storew | Op_Loadh | Op_Storeh | Op_Readcr | Op_Dbchange | Op_Dma | Op_Loadv

definition kOpcodeTable :: "snacc_op list" where
  "kOpcodeTable =
     [Op_RTypeArithmetic, Op_RTypeMemory, Op_RTypeSimd, Op_Loadi, Op_Bneq, Op_Jump, Op_Mad, Op_Madlp,
      Op_Setcr, Op_Addi, Op_Subi, Op_Sll, Op_Srl, Op_Sra, Op_Unknown, Op_Unknown]"

definition kRTypeArithmeticTable :: "snacc_op list" where
  "kRTypeArithmeticTable =
     [Op_Nop, Op_Mov, Op_Add, Op_Sub, Op_Mul, Op_And, Op_Or, Op_Xor, Op_Neg,
      Op_Unknown, Op_Unknown, Op_Unknown, Op_Unknown, Op_Unknown, Op_Unknown, Op_Unknown]"

definition kRTypeMemoryTable :: "snacc_op list" where
  "kRTypeMemoryTable =
     [Op_Halt, Op_Loadw, Op_Storew, Op_Loadh, Op_Storeh, Op_Unknown, Op_Unknown, Op_Readcr,
      Op_Unknown, Op_Unknown, Op_Dbchange, Op_Dma, Op_Unknown, Op_Unknown, Op_Unknown, Op_Unknown]"

definition kRTypeSimdTable :: "snacc_op list" where
  "kRTypeSimdTable =
     [Op_Nop, Op_Loadv, Op_Unknown, Op_Unknown, Op_Unknown, Op_Unknown, Op_Unknown, Op_Unknown,
      Op_Unknown, Op_Unknown, Op_Unknown, Op_Unknown, Op_Unknown, Op_Unknown, Op_Unknown, Op_Unknown]"

definition result :: "u32 \<Rightarrow> snacc_core \<Rightarrow> snacc_core" where
  "result v c = c\<lparr>reg_write_data := v, reg_write := True\<rparr>"

definition reg_d :: "snacc_core \<Rightarrow> u32" where "reg_d c = sc_regs c ! dec_rd c"
definition reg_s :: "snacc_core \<Rightarrow> u32" where "reg_s c = sc_regs c ! dec_rs c"

definition snacc_shift :: "(nat \<Rightarrow> u32 \<Rightarrow> u32) \<Rightarrow> snacc_core \<Rightarrow> snacc_core option" where
  "snacc_shift f c =
     (if unat (dec_imm c) < 32 then Some (result (f (unat (dec_imm c)) (reg_d c)) c) else None)"

definition Mad_op :: "u32 \<Rightarrow> snacc_core \<Rightarrow> snacc_core" where
  "Mad_op loops c =
     c\<lparr>sc_mad := mad_start (ucast (dec_imm c)) (simd_mask c) (dmem_step c) (rbuf_step c) (mad_mode_reg c = 0xF) loops
         (mad_view (sc_regs c)) (sc_mad c),
       stall_cause := MAD_STALL\<rparr>"

definition mask_of_bits :: "u32 \<Rightarrow> bool list" where
  "mask_of_bits v = map (bit v) [0..<SNACC_SIMD_LANE_SIZE]"

definition bits_of_mask :: "bool list \<Rightarrow> u32" where
  "bits_of_mask m = foldl (\<lambda>v i. if m ! i then v + push_bit i 1 else v) 0 [0..<SNACC_SIMD_LANE_SIZE]"

definition Setcr_op :: "snacc_core \<Rightarrow> snacc_core" where
  "Setcr_op c =
     (let v = dec_imm c in
      if dec_rd c = 1 then c\<lparr>simd_mask := mask_of_bits v\<rparr>
      else if dec_rd c = 2 then c\<lparr>dmem_step := v\<rparr>
      else if dec_rd c = 3 then c\<lparr>rbuf_step := v\<rparr>
      else if dec_rd c = 4 then c\<lparr>fp_pos := ucast v\<rparr>
      else if dec_rd c = 5 then c\<lparr>wbuf_arb_mode := ucast v\<rparr>
      else if dec_rd c = 6 then c\<lparr>mad_mode_reg := ucast (v AND 0xF), access_mode := ucast (drop_bit 4 (v AND 0xF0))\<rparr>
      else c)"

definition creg_value :: "snacc_core \<Rightarrow> nat \<Rightarrow> u32" where
  "creg_value c n =
     (if n = 0 then of_nat (sc_id c)
      else if n = 1 then bits_of_mask (simd_mask c)
      else if n = 2 then dmem_step c
      else if n = 3 then rbuf_step c
      else if n = 4 then ucast (fp_pos c)
      else if n = 5 then ucast (wbuf_arb_mode c)
      else if n = 6 then ucast (mad_mode_reg c) + push_bit 4 (ucast (access_mode c))
      else 0)"

definition Loadw_op :: "bool \<Rightarrow> snacc_core \<times> dbuf \<Rightarrow> snacc_core option" where
  "Loadw_op hb s =
     (case access_mem (fst s) of
        None \<Rightarrow> Some ((fst s)\<lparr>reg_write := True\<rparr>)
      | Some m \<Rightarrow> map_option (\<lambda>v. result v (fst s)) (fetch_word_from_inner hb (access_address (fst s)) (sram_get m s)))"

definition Storew_op :: "bool \<Rightarrow> snacc_core \<times> dbuf \<Rightarrow> (snacc_core \<times> dbuf) option" where
  "Storew_op hb s =
     (case access_mem (fst s) of
        None \<Rightarrow> Some s
      | Some m \<Rightarrow> map_option (\<lambda>d. sram_put m d s)
          (store_word_from_inner hb (access_address (fst s)) (reg_d (fst s)) (sram_get m s)))"

definition Loadh_op :: "bool \<Rightarrow> snacc_core \<times> dbuf \<Rightarrow> snacc_core option" where
  "Loadh_op hb s =
     (case access_mem (fst s) of
        None \<Rightarrow> Some ((fst s)\<lparr>reg_write := True\<rparr>)
      | Some m \<Rightarrow> map_option
          (\<lambda>h. result (if access_mode (fst s) = 0 then push_bit 16 (ucast h) else ucast h) (fst s))
          (fetch_half_from_inner hb (access_address (fst s) XOR 0x2) (sram_get m s)))"

definition Storeh_op :: "bool \<Rightarrow> snacc_core \<times> dbuf \<Rightarrow> (snacc_core \<times> dbuf) option" where
  "Storeh_op hb s =
     (case access_mem (fst s) of
        None \<Rightarrow> Some s
      | Some m \<Rightarrow>
          (let half = ucast (if access_mode (fst s) = 0 then drop_bit 16 (reg_d (fst s)) AND 0xFFFF
                       else reg_d (fst s) AND 0xFFFF)
           in map_option (\<lambda>d. sram_put m d s)
             (store_half_from_inner hb (access_address (fst s) XOR 0x2) half (sram_get m s))))"

text \<open>The instructions that work on the core alone.\<close>

fun core_op :: "snacc_op \<Rightarrow> snacc_core \<Rightarrow> snacc_core option" where
  "core_op Op_Loadi c = Some (result (push_bit 8 (reg_d c AND 0x00FFFFFF) + dec_imm c) c)"
| "core_op Op_Bneq c = Some (if reg_d c \<noteq> 0 then c\<lparr>isBranch := True\<rparr> else c)"
| "core_op Op_Jump c = Some (c\<lparr>isBranch := True\<rparr>)"
| "core_op Op_Mad c = Some (Mad_op 0 c)"
| "core_op Op_Madlp c = Some (Mad_op (reg_d c) c)"
| "core_op Op_Setcr c = Some (Setcr_op c)"
| "core_op Op_Addi c = Some (result (reg_d c + dec_imm c) c)"
| "core_op Op_Subi c = Some (result (reg_d c - dec_imm c) c)"
| "core_op Op_Sll c = snacc_shift push_bit c"
| "core_op Op_Srl c = snacc_shift drop_bit c"
| "core_op Op_Sra c = snacc_shift signed_drop_bit c"
| "core_op Op_Mov c = Some (result (reg_s c) c)"
| "core_op Op_Add c = Some (result (reg_d c + reg_s c) c)"
| "core_op Op_Sub c = Some (result (reg_d c - reg_s c) c)"
| "core_op Op_Mul c = Some (result (reg_d c * reg_s c) c)"
| "core_op Op_And c = Some (result (reg_d c AND reg_s c) c)"
| "core_op Op_Or c = Some (result (reg_d c OR reg_s c) c)"
| "core_op Op_Xor c = Some (result (reg_d c XOR reg_s c) c)"
| "core_op Op_Neg c = Some (result (NOT (reg_s c)) c)"
| "core_op Op_Halt c = Some (c\<lparr>halt_issued := True\<rparr>)"
| "core_op Op_Readcr c = Some (result (creg_value c (dec_rs c)) c)"
| "core_op Op_Loadv c = Some (c\<lparr>sc_mad := set_addr (reg_d c) (reg_s c) (sc_mad c)\<rparr>)"
| "core_op _ c = Some c"

fun mem_op :: "bool \<Rightarrow> snacc_op \<Rightarrow> snacc_core \<times> dbuf \<Rightarrow> (snacc_core \<times> dbuf) option" where
  "mem_op hb Op_Loadw s = map_option (\<lambda>c. (c, snd s)) (Loadw_op hb s)"
| "mem_op hb Op_Storew s = Storew_op hb s"
| "mem_op hb Op_Loadh s = map_option (\<lambda>c. (c, snd s)) (Loadh_op hb s)"
| "mem_op hb Op_Storeh s = Storeh_op hb s"
| "mem_op hb f s = map_option (\<lambda>c. (c, snd s)) (core_op f (fst s))"

text \<open>\<open>RTypeMemory\<close>, \<open>RTypeArithmetic\<close> and \<open>RTypeSimd\<close> look the function code up in a table of their own.\<close>

definition ex_op :: "snacc_core \<Rightarrow> snacc_op" where
  "ex_op c =
     (case kOpcodeTable ! dec_opcode c of
        Op_RTypeMemory \<Rightarrow> kRTypeMemoryTable ! dec_func c
      | Op_RTypeArithmetic \<Rightarrow> kRTypeArithmeticTable ! dec_func c
      | Op_RTypeSimd \<Rightarrow> kRTypeSimdTable ! dec_func c
      | f \<Rightarrow> f)"

definition ex_stage :: "bool \<Rightarrow> snacc_core \<times> dbuf \<Rightarrow> (snacc_core \<times> dbuf) option" where
  "ex_stage hb s = mem_op hb (ex_op (fst s)) s"

section \<open>Write back and the cycle\<close>

definition wb_stage :: "snacc_core \<Rightarrow> snacc_core" where
  "wb_stage c =
     (let c1 = (if reg_write c \<and> dec_rd c \<noteq> SNACC_REG_PC_INDEX
                then c\<lparr>sc_regs := (sc_regs c)[dec_rd c := reg_write_data c]\<rparr> else c);
          c2 = (if reg_write c1 \<and> dec_rd c1 = SNACC_REG_PC_INDEX then c1\<lparr>sc_pc := reg_write_data c1\<rparr>
                else if isBranch c1 then c1\<lparr>sc_pc := sc_pc c1 + 2 + 2 * dec_imm c1\<rparr>
                else c1\<lparr>sc_pc := sc_pc c1 + 2\<rparr>)
      in c2\<lparr>isBranch := False, reg_write := False\<rparr>)"

definition finish_wb :: "snacc_core \<Rightarrow> snacc_core" where
  "finish_wb c = (if halt_issued c then c\<lparr>sc_done := True, halt_issued := False\<rparr> else c)"

definition core_stage :: "bool \<Rightarrow> u8 \<Rightarrow> snacc_core \<times> dbuf \<Rightarrow> (snacc_core \<times> dbuf) option" where
  "core_stage hb arb s =
     (case sc_status (fst s) of
        STAT_IF \<Rightarrow> map_option (\<lambda>c. (c\<lparr>sc_status := STAT_ID\<rparr>, snd s)) (if_stage hb (fst s))
      | STAT_ID \<Rightarrow> Some ((id_stage arb (fst s))\<lparr>sc_status := STAT_EX\<rparr>, snd s)
      | STAT_EX \<Rightarrow> map_option (apfst (\<lambda>c. c\<lparr>sc_status := STAT_WB\<rparr>)) (ex_stage hb s)
      | STAT_WB \<Rightarrow> Some (finish_wb ((wb_stage (fst s))\<lparr>sc_status := STAT_IF\<rparr>), snd s))"

text \<open>\<open>mad_unit->step()\<close>, on the registers and the buffers the unit points to.\<close>

definition mad_step_of :: "bool \<Rightarrow> snacc_core \<Rightarrow> snacc_core option" where
  "mad_step_of hb c =
     map_option (\<lambda>(u, r). c\<lparr>sc_mad := u, sc_regs := mad_put r (sc_regs c)\<rparr>)
       (MadUnit_step hb (simd_mask c) (sc_bufs c) (sc_mad c, mad_view (sc_regs c)))"

definition SNACCCore_step :: "bool \<Rightarrow> u8 \<Rightarrow> snacc_core \<times> dbuf \<Rightarrow> (snacc_core \<times> dbuf) option" where
  "SNACCCore_step hb arb s = do {
     (c, w) \<leftarrow> (if \<not> core_isStall (fst s) then core_stage hb arb s else Some (stall_handle arb (fst s), snd s));
     d \<leftarrow> mad_step_of hb c;
     Some (d, w)
   }"

text \<open>\<open>reset\<close> leaves the stall and the latches of the stages as they are.\<close>

definition SNACCCore_reset :: "snacc_core \<Rightarrow> snacc_core" where
  "SNACCCore_reset c =
     c\<lparr>sc_pc := 0, sc_regs := replicate 16 0, sc_done := False, sc_status := STAT_IF,
       reg_write := False, isBranch := False, halt_issued := False, mad_mode_reg := 0, access_mode := 0, wbuf_arb_mode := 0,
       dmem_step := 0, rbuf_step := 0, fp_pos := 4, simd_mask := replicate SNACC_SIMD_LANE_SIZE True,
       sc_mad := mad_reset (sc_mad c)\<rparr>"

text \<open>The constructor; the members it does not set keep those of the object it starts from.\<close>

definition SNACCCore_new :: "nat \<Rightarrow> u32 \<Rightarrow> snacc_bufs \<Rightarrow> snacc_core \<Rightarrow> snacc_core" where
  "SNACCCore_new core_id lat bufs c =
     c\<lparr>sc_id := core_id, sc_bufs := bufs, sc_mad := (sc_mad c)\<lparr>sram_latency := lat\<rparr>\<rparr>"

end
