(* ===== verification/SNACC.thy ===== *)
theory SNACC
  imports SNACC_Core Accelerator
begin

unbundle bit_operations_syntax

text \<open>
  \<open>snacc.cc\<close>, with \<open>BCastRange\<close> and \<open>ConfRegCtrl\<close> of \<open>snaccmodules.cc\<close>: the SNACC accelerator, its cores with
  their double buffers, the shared write buffer and its arbiter, the broadcast ranges and the
  configuration registers that start the cores and exchange the banks of the buffers.

  The object is the core of a \<open>CubeAccelerator\<close> (\<open>SNACC_core\<close>). Its registers are \<open>int\<close>s of which only the
  low \<open>core_count\<close> bits are ever written; the array \<open>dma_info\<close> is never written at all.
\<close>

section \<open>State\<close>

record snacc_conf =
  bitmap_mask :: u32
  cf_start :: u32
  cf_done :: u32
  cf_donemask :: u32
  data_db_sel :: u32
  wbuf_db_sel :: u32
  inst_mux_sel :: u32
  lut_mux_sel :: u32
  rbuf_mux_sel :: u32
  data_query :: u32
  rbuf_query :: u32
  data_status :: u32
  rbuf_status :: u32
  dma_done_clear :: u32
  dma_request :: u32
  pending_clr :: "bool list"
  dma_info :: "(u32 \<times> u32) list"

record snacc =
  sn_cores :: "snacc_core list"
  sn_wbuf :: dbuf
  sn_arb :: u8
  sn_conf :: snacc_conf

definition core_count :: "snacc \<Rightarrow> nat" where
  "core_count s = length (sn_cores s)"

text \<open>\<open>getFlag\<close>, \<open>assertFlag\<close> and \<open>negateFlag\<close>.\<close>

definition getFlag :: "u32 \<Rightarrow> nat \<Rightarrow> bool" where
  "getFlag data idx \<longleftrightarrow> drop_bit idx data AND 0x1 \<noteq> 0"

definition assertFlag :: "nat \<Rightarrow> u32 \<Rightarrow> u32" where
  "assertFlag idx data = data OR push_bit idx 0x1"

definition negateFlag :: "nat \<Rightarrow> u32 \<Rightarrow> u32" where
  "negateFlag idx data = data AND NOT (push_bit idx 0x1)"

section \<open>The configuration registers (ConfRegCtrl)\<close>

definition ConfRegCtrl_new :: "nat \<Rightarrow> (u32 \<times> u32) list \<Rightarrow> snacc_conf" where
  "ConfRegCtrl_new n info =
     \<lparr>bitmap_mask = push_bit n 1 - 1, cf_start = 0, cf_done = 0, cf_donemask = 0, data_db_sel = 0, wbuf_db_sel = 0,
      inst_mux_sel = 0, lut_mux_sel = 0, rbuf_mux_sel = 0, data_query = 0, rbuf_query = 0, data_status = 0,
      rbuf_status = 0, dma_done_clear = 0, dma_request = 0, pending_clr = replicate n False, dma_info = info\<rparr>"

definition conf_fetch_word :: "u32 \<Rightarrow> snacc_conf \<Rightarrow> u32" where
  "conf_fetch_word offset r =
     (if offset = 0x00 then cf_start r
      else if offset = 0x04 then cf_done r
      else if offset = 0x08 then cf_donemask r
      else if offset = 0x0C then 0
      else if offset = 0x10 then data_db_sel r
      else if offset = 0x14 then wbuf_db_sel r
      else if offset = 0x18 then inst_mux_sel r
      else if offset = 0x1C then lut_mux_sel r
      else if offset = 0x20 then rbuf_mux_sel r
      else if offset = 0x28 then data_query r
      else if offset = 0x2C then rbuf_query r
      else if offset = 0x30 then data_status r
      else if offset = 0x34 then rbuf_status r
      else if offset = 0x38 then dma_done_clear r
      else if offset = 0x3C then dma_request r
      else
        (let o' = unat (offset - 0x40) in
         if o' < 8 * length (dma_info r) then
           (if o' mod 8 = 0 then fst (dma_info r ! (o' div 8))
            else if o' mod 8 = 4 then snd (dma_info r ! (o' div 8))
            else 0)
         else 0))"

text \<open>\<open>dbuf_switch\<close> on the buffer of each core that \<open>upd\<close> changes.\<close>

definition switch_banks :: "((dbuf \<Rightarrow> dbuf) \<Rightarrow> snacc_bufs \<Rightarrow> snacc_bufs) \<Rightarrow> u32 \<Rightarrow> snacc \<Rightarrow> snacc" where
  "switch_banks upd bitmap s =
     s\<lparr>sn_cores := map (\<lambda>(i, c). if getFlag bitmap i then c\<lparr>sc_bufs := upd buf_switch (sc_bufs c)\<rparr> else c)
       (enumerate 0 (sn_cores s))\<rparr>"

definition set_conf :: "(snacc_conf \<Rightarrow> snacc_conf) \<Rightarrow> snacc \<Rightarrow> snacc" where
  "set_conf f s = s\<lparr>sn_conf := f (sn_conf s)\<rparr>"

definition conf_store_word :: "u32 \<Rightarrow> u32 \<Rightarrow> snacc \<Rightarrow> snacc" where
  "conf_store_word offset data s =
     (let r = sn_conf s; wdata = data AND bitmap_mask r in
      if offset = 0x00 then set_conf (\<lambda>r. r\<lparr>cf_start := wdata\<rparr>) s
      else if offset = 0x04 then set_conf (\<lambda>r. r\<lparr>cf_done := wdata\<rparr>) s
      else if offset = 0x08 then set_conf (\<lambda>r. r\<lparr>cf_donemask := wdata\<rparr>) s
      else if offset = 0x0C then set_conf (\<lambda>r. r\<lparr>pending_clr := map (getFlag wdata) [0..<core_count s]\<rparr>) s
      else if offset = 0x10 then
        set_conf (\<lambda>r. r\<lparr>data_db_sel := wdata\<rparr>)
          (switch_banks sb_dmem_l_update (data_db_sel r XOR wdata)
            (switch_banks sb_dmem_u_update (data_db_sel r XOR wdata) s))
      else if offset = 0x14 then
        set_conf (\<lambda>r. r\<lparr>wbuf_db_sel := wdata\<rparr>)
          (if wbuf_db_sel r XOR wdata \<noteq> 0 then s\<lparr>sn_wbuf := buf_switch (sn_wbuf s)\<rparr> else s)
      else if offset = 0x18 then
        set_conf (\<lambda>r. r\<lparr>inst_mux_sel := wdata\<rparr>) (switch_banks sb_imem_update (inst_mux_sel r XOR wdata) s)
      else if offset = 0x1C then
        set_conf (\<lambda>r. r\<lparr>lut_mux_sel := wdata\<rparr>) (switch_banks sb_lut_update (lut_mux_sel r XOR wdata) s)
      else if offset = 0x20 then
        set_conf (\<lambda>r. r\<lparr>rbuf_mux_sel := wdata\<rparr>)
          (switch_banks sb_rbuf_l_update (rbuf_mux_sel r XOR wdata)
            (switch_banks sb_rbuf_u_update (rbuf_mux_sel r XOR wdata) s))
      else if offset = 0x30 then set_conf (\<lambda>r. r\<lparr>data_status := wdata\<rparr>) s
      else if offset = 0x34 then set_conf (\<lambda>r. r\<lparr>rbuf_status := wdata\<rparr>) s
      else if offset = 0x38 then set_conf (\<lambda>r. r\<lparr>dma_done_clear := wdata\<rparr>) s
      else s)"

definition isStart :: "nat \<Rightarrow> snacc_conf \<Rightarrow> bool" where
  "isStart i r \<longleftrightarrow> getFlag (cf_start r) i"

definition isDoneClr :: "nat \<Rightarrow> snacc_conf \<Rightarrow> bool" where
  "isDoneClr i r \<longleftrightarrow> pending_clr r ! i"

definition negateDoneClr :: "nat \<Rightarrow> snacc_conf \<Rightarrow> snacc_conf" where
  "negateDoneClr i r = r\<lparr>pending_clr := (pending_clr r)[i := False], cf_done := negateFlag i (cf_done r)\<rparr>"

definition setDone :: "nat \<Rightarrow> snacc_conf \<Rightarrow> snacc_conf" where
  "setDone i r = r\<lparr>cf_done := assertFlag i (cf_done r)\<rparr>"

section \<open>The cycle of the accelerator\<close>

definition step_core :: "bool \<Rightarrow> nat \<Rightarrow> snacc \<Rightarrow> snacc option" where
  "step_core hb i s =
     (if isStart i (sn_conf s) then do {
        (c, w) \<leftarrow> SNACCCore_step hb (sn_arb s) (sn_cores s ! i, sn_wbuf s);
        let s1 = s\<lparr>sn_cores := (sn_cores s)[i := c], sn_wbuf := w\<rparr>;
        Some (if sc_done c then set_conf (setDone i) s1 else s1)
      }
      else if isDoneClr i (sn_conf s) then
        Some (set_conf (negateDoneClr i) (s\<lparr>sn_cores := (sn_cores s)[i := SNACCCore_reset (sn_cores s ! i)]\<rparr>))
      else Some s)"

primrec step_cores :: "bool \<Rightarrow> nat list \<Rightarrow> snacc \<Rightarrow> snacc option" where
  "step_cores hb [] s = Some s"
| "step_cores hb (i # l) s = do { t \<leftarrow> step_core hb i s; step_cores hb l t }"

definition SNACC_core_step :: "bool \<Rightarrow> snacc \<Rightarrow> snacc option" where
  "SNACC_core_step hb s =
     map_option (\<lambda>t. t\<lparr>sn_arb := WbufArb_step (sn_arb t)\<rparr>) (step_cores hb [0..<core_count s] s)"

definition SNACC_core_reset :: "snacc \<Rightarrow> snacc" where
  "SNACC_core_reset s = s\<lparr>sn_cores := map SNACCCore_reset (sn_cores s)\<rparr>"

section \<open>The objects on the local bus\<close>

datatype snacc_part = Core_buf nat sram | Shared_wbuf | Conf_reg | Bcast sram

definition buf_of :: "sram \<Rightarrow> snacc_bufs \<Rightarrow> dbuf" where
  "buf_of m b =
     (case m of DMEM_U \<Rightarrow> sb_dmem_u b | DMEM_L \<Rightarrow> sb_dmem_l b | RBUF_U \<Rightarrow> sb_rbuf_u b | RBUF_L \<Rightarrow> sb_rbuf_l b
      | LUT \<Rightarrow> sb_lut b | _ \<Rightarrow> sb_imem b)"

definition put_buf :: "sram \<Rightarrow> dbuf \<Rightarrow> snacc_bufs \<Rightarrow> snacc_bufs" where
  "put_buf m d b =
     (case m of DMEM_U \<Rightarrow> b\<lparr>sb_dmem_u := d\<rparr> | DMEM_L \<Rightarrow> b\<lparr>sb_dmem_l := d\<rparr> | RBUF_U \<Rightarrow> b\<lparr>sb_rbuf_u := d\<rparr>
      | RBUF_L \<Rightarrow> b\<lparr>sb_rbuf_l := d\<rparr> | LUT \<Rightarrow> b\<lparr>sb_lut := d\<rparr> | _ \<Rightarrow> b\<lparr>sb_imem := d\<rparr>)"

definition store_in_core :: "bool \<Rightarrow> sram \<Rightarrow> u32 \<Rightarrow> u32 \<Rightarrow> snacc_core \<Rightarrow> snacc_core option" where
  "store_in_core hb m off data c =
     map_option (\<lambda>d. c\<lparr>sc_bufs := put_buf m d (sc_bufs c)\<rparr>) (dbuf_store_word hb (buf_of m (sc_bufs c)) off data)"

text \<open>\<open>BCastRange::store_word\<close>: the same store in the buffer of every core.\<close>

primrec bcast_store :: "bool \<Rightarrow> sram \<Rightarrow> u32 \<Rightarrow> u32 \<Rightarrow> snacc_core list \<Rightarrow> snacc_core list option" where
  "bcast_store hb m off data [] = Some []"
| "bcast_store hb m off data (c # cs) = do {
     d \<leftarrow> store_in_core hb m off data c;
     ds \<leftarrow> bcast_store hb m off data cs;
     Some (d # ds)
   }"

fun SNACC_store_word :: "bool \<Rightarrow> snacc_part \<Rightarrow> u32 \<Rightarrow> u32 \<Rightarrow> snacc \<Rightarrow> snacc option" where
  "SNACC_store_word hb (Core_buf i m) off data s =
     map_option (\<lambda>c. s\<lparr>sn_cores := (sn_cores s)[i := c]\<rparr>) (store_in_core hb m off data (sn_cores s ! i))"
| "SNACC_store_word hb Shared_wbuf off data s =
     map_option (\<lambda>d. s\<lparr>sn_wbuf := d\<rparr>) (dbuf_store_word hb (sn_wbuf s) off data)"
| "SNACC_store_word hb Conf_reg off data s = Some (conf_store_word off data s)"
| "SNACC_store_word hb (Bcast m) off data s =
     map_option (\<lambda>cs. s\<lparr>sn_cores := cs\<rparr>) (bcast_store hb m off data (sn_cores s))"

fun SNACC_fetch_word :: "bool \<Rightarrow> snacc_part \<Rightarrow> u32 \<Rightarrow> snacc \<Rightarrow> (u32 \<times> snacc) option" where
  "SNACC_fetch_word hb (Core_buf i m) off s =
     map_option (\<lambda>v. (v, s)) (dbuf_fetch_word hb (buf_of m (sc_bufs (sn_cores s ! i))) off)"
| "SNACC_fetch_word hb Shared_wbuf off s = map_option (\<lambda>v. (v, s)) (dbuf_fetch_word hb (sn_wbuf s) off)"
| "SNACC_fetch_word hb Conf_reg off s = Some (conf_fetch_word off (sn_conf s), s)"
| "SNACC_fetch_word hb (Bcast m) off s = Some (0, s)"

definition SNACC_core :: "bool \<Rightarrow> (snacc_part, snacc) core_if" where
  "SNACC_core hb =
     \<lparr>ci_fetch = SNACC_fetch_word hb, ci_store = SNACC_store_word hb,
      ci_step = (\<lambda>s. map_option (Pair None) (SNACC_core_step hb s)), ci_reset = SNACC_core_reset\<rparr>"

section \<open>Setup\<close>

definition snacc_bufs_new :: "snacc_bufs option" where
  "snacc_bufs_new = do {
     d \<leftarrow> DoubleBuffer_new 0x800 0xFFFFFFFF None;
     Some \<lparr>sb_dmem_u = d, sb_dmem_l = d, sb_rbuf_u = d, sb_rbuf_l = d, sb_lut = d, sb_imem = d\<rparr>
   }"

definition SNACC_setup :: "u32 \<Rightarrow> snacc_core list \<Rightarrow> (u32 \<times> u32) list \<Rightarrow> snacc option" where
  "SNACC_setup lat raw info = do {
     b \<leftarrow> snacc_bufs_new;
     w \<leftarrow> DoubleBuffer_new 0x800 0xFFFFFFFF None;
     Some \<lparr>sn_cores = map (\<lambda>(i, c). SNACCCore_new i lat b c) (enumerate 0 raw), sn_wbuf = w, sn_arb = 0,
           sn_conf = ConfRegCtrl_new (length raw) info\<rparr>
   }"

definition core_map :: "nat \<Rightarrow> (snacc_part \<times> u32 \<times> u32) list" where
  "core_map i =
     (let top = 0x4000 * of_nat i in
      [(Core_buf i DMEM_U, top + 0x1000, 0x800), (Core_buf i DMEM_L, top + 0x1800, 0x800),
       (Core_buf i RBUF_U, top + 0x3000, 0x800), (Core_buf i RBUF_L, top + 0x3800, 0x800),
       (Core_buf i IMEM, top, 0x800), (Core_buf i LUT, top + 0x800, 0x800)])"

definition SNACC_map :: "nat \<Rightarrow> (snacc_part \<times> u32 \<times> u32) list" where
  "SNACC_map n =
     concat (map core_map [0..<n]) @
     [(Shared_wbuf, 0x14000, 0x800), (Conf_reg, 0x18000, 0x40 + 8 * of_nat n),
      (Bcast DMEM_L, 0x11800, 0x800), (Bcast DMEM_U, 0x11000, 0x800),
      (Bcast RBUF_L, 0x13800, 0x800), (Bcast RBUF_U, 0x13000, 0x800),
      (Bcast IMEM, 0x10000, 0x800), (Bcast LUT, 0x10800, 0x800)]"

definition SNACC_setup_bus :: "nat \<Rightarrow> snacc_part local_mapper \<Rightarrow> snacc_part local_mapper" where
  "SNACC_setup_bus n lm =
     foldl (\<lambda>lm (k, a, sz).
         snd (map_at_local_address (Range_new 0 sz [] (if k = Conf_reg then MEM_WRITE else MEM_READ_WRITE)) (CoreObj k) a lm))
       lm (SNACC_map n)"

end
