(* ===== verification/SNACC_ISA.thy ===== *)
theory SNACC_ISA
  imports SNACC_Core
begin

unbundle bit_operations_syntax

text \<open>
  The instruction set of a SNACC core as its programmer sees it: registers, program counter, control
  registers, the addresses latched by \<open>Loadv\<close>, and the banks the core side of the buffers shows. One
  call of \<open>isa_step\<close> is one instruction. The instructions of the multiply-and-add unit are left out;
  they have a reference of their own.

  The fields of an instruction, the address map and the shifts are given by arithmetic on naturals
  and integers. \<open>ar_latch\<close> is the result of the last instruction that had one: a load from an address
  that nothing is mapped at writes it to its register once more.
\<close>

record snacc_arch =
  ar_regs :: "u32 list"
  ar_pc :: u32
  ar_halted :: bool
  ar_latch :: u32
  ar_mem :: "sram \<Rightarrow> u8 list"
  ar_id :: nat
  ar_mask :: "bool list"
  ar_dstep :: u32
  ar_rstep :: u32
  ar_fp_pos :: u8
  ar_arb :: u8
  ar_mad_mode :: u8
  ar_half_mode :: u8
  ar_data_addr :: u32
  ar_rbuf_addr :: u32

definition arch_of :: "snacc_core \<times> dbuf \<Rightarrow> snacc_arch" where
  "arch_of s =
     (let c = fst s in
      \<lparr>ar_regs = sc_regs c, ar_pc = sc_pc c, ar_halted = sc_done c, ar_latch = reg_write_data c,
       ar_mem = (\<lambda>m. db_inner (sram_get m s)), ar_id = sc_id c, ar_mask = simd_mask c, ar_dstep = dmem_step c,
       ar_rstep = rbuf_step c, ar_fp_pos = fp_pos c, ar_arb = wbuf_arb_mode c, ar_mad_mode = mad_mode_reg c,
       ar_half_mode = access_mode c, ar_data_addr = data_addr (sc_mad c), ar_rbuf_addr = rbuf_addr (sc_mad c)\<rparr>)"

section \<open>Fields and addresses\<close>

definition isa_op :: "u16 \<Rightarrow> nat" where "isa_op i = unat i div 4096"
definition isa_rd :: "u16 \<Rightarrow> nat" where "isa_rd i = unat i div 256 mod 16"
definition isa_rs :: "u16 \<Rightarrow> nat" where "isa_rs i = unat i div 16 mod 16"
definition isa_fn :: "u16 \<Rightarrow> nat" where "isa_fn i = unat i mod 16"
definition isa_byte :: "u16 \<Rightarrow> nat" where "isa_byte i = unat i mod 256"

text \<open>The displacement of a branch counts instructions, relative to the next one.\<close>

definition isa_disp :: "u16 \<Rightarrow> int" where
  "isa_disp i = (if isa_byte i < 128 then int (isa_byte i) else int (isa_byte i) - 256)"

definition isa_place :: "u32 \<Rightarrow> (sram \<times> nat) option" where
  "isa_place a =
     (let n = unat a in
      if n < 0x800 then Some (IMEM, n)
      else if 0x1000000 \<le> n \<and> n < 0x1001000 then
        Some (if n div 4 mod 2 = 0 then DMEM_L else DMEM_U, 4 * ((n - 0x1000000) div 8) + n mod 4)
      else if 0x5000000 \<le> n \<and> n < 0x5001000 then
        Some (if n div 4 mod 2 = 0 then RBUF_L else RBUF_U, 4 * ((n - 0x5000000) div 8) + n mod 4)
      else if 0x7000000 \<le> n \<and> n < 0x7000800 then Some (LUT, n - 0x7000000)
      else if 0x9000000 \<le> n \<and> n < 0x9000800 then Some (WBUF, n - 0x9000000)
      else None)"

text \<open>A word access ignores the low two bits; the halves of a word are in the other order.\<close>

definition word_place :: "nat \<Rightarrow> nat" where "word_place n = 4 * (n div 4)"

definition half_place :: "nat \<Rightarrow> nat" where
  "half_place n = (if n div 2 mod 2 = 0 then 2 * (n div 2) + 2 else 2 * (n div 2) - 2)"

section \<open>The effect of an instruction\<close>

definition isa_creg :: "snacc_arch \<Rightarrow> nat \<Rightarrow> u32" where
  "isa_creg s n =
     (if n = 0 then of_nat (ar_id s)
      else if n = 1 then bits_of_mask (ar_mask s)
      else if n = 2 then ar_dstep s
      else if n = 3 then ar_rstep s
      else if n = 4 then ucast (ar_fp_pos s)
      else if n = 5 then ucast (ar_arb s)
      else if n = 6 then of_nat (unat (ar_mad_mode s) + 16 * unat (ar_half_mode s))
      else 0)"

definition isa_load :: "bool \<Rightarrow> nat \<Rightarrow> u32 \<Rightarrow> snacc_arch \<Rightarrow> u32" where
  "isa_load hb fn a s =
     (case isa_place a of
        None \<Rightarrow> ar_latch s
      | Some (m, n) \<Rightarrow>
          if fn = 1 then load32 hb (ar_mem s m) (word_place n)
          else if ar_half_mode s = 0 then of_nat (65536 * unat (load16 hb (ar_mem s m) (half_place n)))
          else of_nat (unat (load16 hb (ar_mem s m) (half_place n))))"

definition isa_store :: "bool \<Rightarrow> nat \<Rightarrow> u32 \<Rightarrow> u32 \<Rightarrow> snacc_arch \<Rightarrow> sram \<Rightarrow> u8 list" where
  "isa_store hb fn a v s =
     (case isa_place a of
        None \<Rightarrow> ar_mem s
      | Some (m, n) \<Rightarrow>
          (ar_mem s)(m :=
             if fn = 2 then store32 hb (ar_mem s m) (word_place n) v
             else store16 hb (ar_mem s m) (half_place n)
               (if ar_half_mode s = 0 then of_nat (unat v div 65536) else of_nat (unat v mod 65536))))"

text \<open>The value an instruction writes to its register.\<close>

definition isa_value :: "bool \<Rightarrow> u16 \<Rightarrow> snacc_arch \<Rightarrow> u32 option" where
  "isa_value hb i s =
     (let opc = isa_op i; fn = isa_fn i; d = ar_regs s ! isa_rd i; x = ar_regs s ! isa_rs i; k = isa_byte i in
      if opc = 0 then
        (if fn = 1 then Some x
         else if fn = 2 then Some (d + x)
         else if fn = 3 then Some (d - x)
         else if fn = 4 then Some (d * x)
         else if fn = 5 then Some (d AND x)
         else if fn = 6 then Some (d OR x)
         else if fn = 7 then Some (d XOR x)
         else if fn = 8 then Some (NOT x)
         else None)
      else if opc = 1 then
        (if fn = 1 \<or> fn = 3 then Some (isa_load hb fn x s)
         else if fn = 7 then Some (isa_creg s (isa_rs i))
         else None)
      else if opc = 3 then Some (of_nat (256 * unat d + k))
      else if opc = 9 then Some (of_nat (unat d + k))
      else if opc = 10 then Some (of_int (int (unat d) - int k))
      else if opc = 11 then Some (of_nat (unat d * 2 ^ k))
      else if opc = 12 then Some (of_nat (unat d div 2 ^ k))
      else if opc = 13 then Some (of_int (sint d div 2 ^ k))
      else None)"

definition isa_setcr :: "nat \<Rightarrow> nat \<Rightarrow> snacc_arch \<Rightarrow> snacc_arch" where
  "isa_setcr n k s =
     (if n = 1 then s\<lparr>ar_mask := map (\<lambda>j. k div 2 ^ j mod 2 = 1) [0..<8]\<rparr>
      else if n = 2 then s\<lparr>ar_dstep := of_nat k\<rparr>
      else if n = 3 then s\<lparr>ar_rstep := of_nat k\<rparr>
      else if n = 4 then s\<lparr>ar_fp_pos := of_nat k\<rparr>
      else if n = 5 then s\<lparr>ar_arb := of_nat k\<rparr>
      else if n = 6 then s\<lparr>ar_mad_mode := of_nat (k mod 16), ar_half_mode := of_nat (k div 16)\<rparr>
      else s)"

text \<open>What else it does: stores, control registers, \<open>Loadv\<close> and \<open>Halt\<close>.\<close>

definition isa_effect :: "bool \<Rightarrow> u16 \<Rightarrow> snacc_arch \<Rightarrow> snacc_arch" where
  "isa_effect hb i s =
     (let opc = isa_op i; fn = isa_fn i; d = ar_regs s ! isa_rd i; x = ar_regs s ! isa_rs i in
      if opc = 1 \<and> fn = 0 then s\<lparr>ar_halted := True\<rparr>
      else if opc = 1 \<and> (fn = 2 \<or> fn = 4) then s\<lparr>ar_mem := isa_store hb fn x d s\<rparr>
      else if opc = 2 \<and> fn = 1 then
        s\<lparr>ar_data_addr := of_nat (unat d mod 65536), ar_rbuf_addr := of_nat (unat x mod 65536)\<rparr>
      else if opc = 8 then isa_setcr (isa_rd i) (isa_byte i) s
      else s)"

definition isa_next :: "u16 \<Rightarrow> snacc_arch \<Rightarrow> u32" where
  "isa_next i s =
     (if isa_op i = 5 \<or> (isa_op i = 4 \<and> ar_regs s ! isa_rd i \<noteq> 0) then ar_pc s + 2 + of_int (2 * isa_disp i)
      else ar_pc s + 2)"

text \<open>Register 15 is the program counter when written to, and an ordinary zero when read.\<close>

definition isa_step :: "bool \<Rightarrow> u16 \<Rightarrow> snacc_arch \<Rightarrow> snacc_arch" where
  "isa_step hb i s =
     (let t = isa_effect hb i s in
      case isa_value hb i s of
        None \<Rightarrow> t\<lparr>ar_pc := isa_next i s\<rparr>
      | Some v \<Rightarrow>
          if isa_rd i = 15 then t\<lparr>ar_pc := v, ar_latch := v\<rparr>
          else t\<lparr>ar_regs := (ar_regs s)[isa_rd i := v], ar_pc := isa_next i s, ar_latch := v\<rparr>)"

section \<open>Cycles of one core\<close>

primrec core_cycles :: "bool \<Rightarrow> u8 \<Rightarrow> nat \<Rightarrow> snacc_core \<times> dbuf \<Rightarrow> (snacc_core \<times> dbuf) option" where
  "core_cycles hb arb 0 s = Some s"
| "core_cycles hb arb (Suc n) s = do { t \<leftarrow> SNACCCore_step hb arb s; core_cycles hb (WbufArb_step arb) n t }"

text \<open>Between two instructions, with the multiply-and-add unit at rest.\<close>

definition core_ready :: "snacc_core \<Rightarrow> bool" where
  "core_ready c \<longleftrightarrow> sc_status c = STAT_IF \<and> \<not> core_isStall c \<and> \<not> halt_issued c \<and> \<not> reg_write c \<and> \<not> isBranch c \<and>
     mad_state (sc_mad c) = MAD_IDLE \<and> mad_next (sc_mad c) = MAD_IDLE \<and> length (sc_regs c) = 16"

definition buf_wf :: "dbuf \<Rightarrow> bool" where
  "buf_wf d \<longleftrightarrow> dbuf_wf d \<and> db_extent d = 0x800 \<and> db_mask d = 0xFFFFFFFF"

definition bufs_wf :: "snacc_core \<times> dbuf \<Rightarrow> bool" where
  "bufs_wf s \<longleftrightarrow> (\<forall>m. buf_wf (sram_get m s))"

text \<open>The core gets its turn at the write buffer in the arbitration mode it has chosen.\<close>

definition arb_ok :: "snacc_core \<Rightarrow> bool" where
  "arb_ok c \<longleftrightarrow> wbuf_arb_mode c = 1 \<or> (wbuf_arb_mode c = 0 \<and> sc_id c < 4) \<or> (wbuf_arb_mode c = 2 \<and> sc_id c < 2)"

end
