(* ===== verification/SNACC_Exec.thy ===== *)
theory SNACC_Exec
  imports SNACC_ISA
begin

unbundle bit_operations_syntax

text \<open>
  The refinement of \<open>SNACC_ISA\<close> by the stages of \<open>SNACC_Core\<close>: what the fields and addresses of the
  decoder are as numbers, what each stage leaves in the latches, and how the four cycles of an
  instruction, with the wait for the write buffer, add up to one step of the instruction set.
\<close>

section \<open>Fields and addresses as numbers\<close>

lemma unat_u16: "unat (i :: u16) < 65536"
  using unsigned_less [of i] by simp

lemma snacc_fields:
  fixes i :: u16
  shows
  "snacc_opcode i = isa_op i" "snacc_reg_dst i = isa_rd i" "snacc_reg_src i = isa_rs i" "snacc_func i = isa_fn i"
  "unat (snacc_imm i) = isa_byte i"
proof -
  have 1: "drop_bit 12 (i AND 0xF000) = take_bit 4 (drop_bit 12 i)" by (simp add: bit_blast)
  have 2: "drop_bit 8 (i AND 0x0F00) = take_bit 4 (drop_bit 8 i)" by (simp add: bit_blast)
  have 3: "drop_bit 4 (i AND 0x00F0) = take_bit 4 (drop_bit 4 i)" by (simp add: bit_blast)
  have 4: "i AND 0x000F = take_bit 4 i" by (simp add: bit_blast)
  have 5: "i AND 0x00FF = take_bit 8 i" by (simp add: bit_blast)
  show "snacc_opcode i = isa_op i" unfolding snacc_opcode_def 1 isa_op_def
    using less_mult_imp_div_less [of "unat i" 16 4096] unat_u16 [of i]
    by (simp only: unsigned_take_bit_eq unat_drop_bit_eq) (simp add: take_bit_eq_mod drop_bit_eq_div)
  show "snacc_reg_dst i = isa_rd i" unfolding snacc_reg_dst_def 2 isa_rd_def
    by (simp only: unsigned_take_bit_eq unat_drop_bit_eq) (simp add: take_bit_eq_mod drop_bit_eq_div)
  show "snacc_reg_src i = isa_rs i" unfolding snacc_reg_src_def 3 isa_rs_def
    by (simp only: unsigned_take_bit_eq unat_drop_bit_eq) (simp add: take_bit_eq_mod drop_bit_eq_div)
  show "snacc_func i = isa_fn i" unfolding snacc_func_def 4 isa_fn_def
    by (simp only: unsigned_take_bit_eq) (simp add: take_bit_eq_mod)
  show "unat (snacc_imm i) = isa_byte i" unfolding snacc_imm_def 5 isa_byte_def
    by (simp only: unsigned_ucast_eq unsigned_take_bit_eq) (simp add: take_bit_eq_mod)
qed

lemma isa_field_less: "isa_op i < 16" "isa_rd i < 16" "isa_rs i < 16" "isa_fn i < 16" "isa_byte i < 256"
  using unat_u16 [of i] by (simp_all add: isa_op_def isa_rd_def isa_rs_def isa_fn_def isa_byte_def)

lemma imm_value: "ucast (snacc_imm i) = (of_nat (isa_byte i) :: u32)"
  by (simp add: snacc_fields(5) [symmetric] unsigned_of_nat) 

lemma sint_u8: "sint (k :: u8) = (if unat k < 128 then int (unat k) else int (unat k) - 256)"
proof (cases "unat k < 128")
  case True
  then have "uint k < 128" by (metis of_nat_less_iff of_nat_numeral uint_nat)
  then have "signed_take_bit 7 (uint k) = uint k" 
    using order_trans [of "- 128" 0, OF _ uint_ge_0 [of k]] by (intro signed_take_bit_int_eq_self) simp_all
  then show ?thesis using True by (simp add: sint_uint)
next
  case False
  then have f: "128 \<le> uint k" by (metis not_less of_nat_less_iff of_nat_numeral uint_nat)
  have b: "uint k < 256" using uint_bounded [of k] by simp
  have "signed_take_bit 7 (uint k) = signed_take_bit 7 (uint k - 256)"
    unfolding signed_take_bit_eq_iff_take_bit_eq by (simp add: take_bit_eq_mod)
  also have "\<dots> = uint k - 256"
    using f b by (intro signed_take_bit_int_eq_self) simp_all
  finally show ?thesis using False by (simp add: sint_uint)
qed

lemma imm_signed: "scast (snacc_imm i) = (of_int (isa_disp i) :: u32)"
proof -
  have "sint (snacc_imm i) = (if isa_byte i < 128 then int (isa_byte i) else int (isa_byte i) - 256)"
    unfolding snacc_fields(5) [symmetric] by (rule sint_u8)
  then show ?thesis by (simp add: isa_disp_def scast_eq)
qed

lemma unat_mask4: "unat (a AND 0x3 :: u32) = unat a mod 4"
proof -
  have e: "a AND 0x3 = take_bit 2 a" by (simp add: bit_blast)
  show ?thesis unfolding e by (simp add: unsigned_take_bit_eq take_bit_eq_mod [where ?'a = nat])
qed

lemma bit4_zero: "(a AND 0x4 = (0 :: u32)) \<longleftrightarrow> unat a div 4 mod 2 = 0"
proof -
  have "a AND 0x4 = 0 \<longleftrightarrow> \<not> bit a 2" by (simp add: bit_blast)
  also have "bit a 2 \<longleftrightarrow> bit (unat a) 2" by (simp add: bit_unsigned_iff)
  also have "\<dots> \<longleftrightarrow> odd (unat a div 4)" by (simp add: bit_iff_odd)
  finally show ?thesis by presburger
qed

lemma unat_interleaved:
  assumes "unat a < 0x1000"
  shows "unat (interleaved a) = 4 * (unat a div 8) + unat a mod 4"
  using assms
  by (simp add: interleaved_def unat_word_ariths unat_mask4 unat_drop_bit_eq drop_bit_eq_div push_bit_eq_mult)

lemma interleaved_place:
  assumes "unat b \<le> unat a" "unat a < unat b + 0x1000" "unat b mod 8 = 0"
  shows "unat (interleaved (a - b)) = 4 * ((unat a - unat b) div 8) + unat a mod 4"
    and "unat (interleaved (a - b)) < 0x800"
proof -
  have u: "unat (a - b) = unat a - unat b" using assms(1) by (simp add: unat_sub_if_size)
  obtain d where d: "unat a = unat b + d" "d < 0x1000" using assms(1,2) by (metis add_less_cancel_left le_Suc_ex)
  obtain k where k: "unat b = 8 * k" using assms(3) by (metis mod_0_imp_dvd dvdE)
  have m: "unat a mod 4 = d mod 4" unfolding d(1) k by presburger
  have b: "4 * (d div 8) + d mod 4 < 0x800"
    using d(2) less_mult_imp_div_less [of d 512 8] mod_less_divisor [of 4 d] by simp
  have e: "unat (interleaved (a - b)) = 4 * (d div 8) + d mod 4" using unat_interleaved [of "a - b"] u d by simp
  show "unat (interleaved (a - b)) = 4 * ((unat a - unat b) div 8) + unat a mod 4" using e m d(1) by simp
  show "unat (interleaved (a - b)) < 0x800" using e b by simp
qed

lemma sram_decode_place:
  "sram_decode a = None \<longleftrightarrow> isa_place a = None"
  "sram_decode a = Some (m, x) \<Longrightarrow> isa_place a = Some (m, unat x) \<and> unat x < 0x800"
  using interleaved_place [of "0x1000000" a] interleaved_place [of "0x5000000" a]
  by (auto simp: sram_decode_def isa_place_def Let_def word_less_nat_alt word_le_nat_alt bit4_zero unat_sub_if_size
      split: if_splits)

section \<open>What the cycles around the execution leave alone\<close>

definition mad_rest :: "mad_unit \<Rightarrow> bool" where
  "mad_rest u \<longleftrightarrow> mad_state u = MAD_IDLE \<and> mad_next u = MAD_IDLE"

lemma mad_rest_tick [simp]:
  "mad_rest u \<Longrightarrow> mad_rest (mad_tick u)" "data_addr (mad_tick u) = data_addr u" "rbuf_addr (mad_tick u) = rbuf_addr u"
  by (simp_all add: mad_rest_def mad_tick_def Let_def)

lemma mad_put_view [simp]: "mad_put (mad_view r) r = r"
  by (simp add: mad_put_def mad_view_def list_update_swap)

lemma mad_step_rest:
  "mad_rest (sc_mad c) \<Longrightarrow> mad_step_of hb c = Some (c\<lparr>sc_mad := mad_tick (sc_mad c)\<rparr>)"
  by (simp add: mad_step_of_def MadUnit_step_def mad_rest_def)

lemma sram_get_cong: "sc_bufs c = sc_bufs d \<Longrightarrow> sram_get m (c, w) = sram_get m (d, w)"
  by (cases m) simp_all

text \<open>Two cores that differ in the latches of the stages only are one to the programmer.\<close>

definition same_arch :: "snacc_core \<Rightarrow> snacc_core \<Rightarrow> bool" where
  "same_arch c d \<longleftrightarrow> sc_regs d = sc_regs c \<and> sc_pc d = sc_pc c \<and> sc_done d = sc_done c \<and> reg_write_data d = reg_write_data c \<and>
     sc_bufs d = sc_bufs c \<and> sc_id d = sc_id c \<and> simd_mask d = simd_mask c \<and> dmem_step d = dmem_step c \<and>
     rbuf_step d = rbuf_step c \<and> fp_pos d = fp_pos c \<and> wbuf_arb_mode d = wbuf_arb_mode c \<and> mad_mode_reg d = mad_mode_reg c \<and>
     access_mode d = access_mode c \<and> data_addr (sc_mad d) = data_addr (sc_mad c) \<and> rbuf_addr (sc_mad d) = rbuf_addr (sc_mad c)"

lemma same_arch_of: "same_arch c d \<Longrightarrow> arch_of (d, w) = arch_of (c, w)"
  using sram_get_cong [of c d] by (simp add: same_arch_def arch_of_def Let_def)

lemma same_arch_bufs: "same_arch c d \<Longrightarrow> bufs_wf (d, w) = bufs_wf (c, w)"
  using sram_get_cong [of c d] by (simp add: same_arch_def bufs_wf_def)

section \<open>Fetch and decode\<close>

text \<open>The latches after the decode of an instruction \<open>i\<close>, before its execution.\<close>

definition decoded :: "u16 \<Rightarrow> snacc_core \<Rightarrow> bool" where
  "decoded i c \<longleftrightarrow> dec_opcode c = isa_op i \<and> dec_rd c = isa_rd i \<and> dec_rs c = isa_rs i \<and> dec_func c = isa_fn i \<and>
     dec_imm c = (if isa_op i = 4 \<or> isa_op i = 5 then of_int (isa_disp i) else of_nat (isa_byte i)) \<and>
     sc_status c = STAT_EX \<and> \<not> sc_done c \<and> \<not> halt_issued c \<and> \<not> reg_write c \<and> \<not> isBranch c \<and> mad_rest (sc_mad c) \<and>
     length (sc_regs c) = 16 \<and>
     (isa_op i = 1 \<and> isa_fn i \<in> {1, 2, 3, 4} \<longrightarrow>
        (case isa_place (sc_regs c ! isa_rs i) of
           None \<Rightarrow> access_mem c = None
         | Some (m, n) \<Rightarrow> access_mem c = Some m \<and> unat (access_address c) = n \<and> n < 0x800)) \<and>
     (stall_cause c = NO_STALL \<or>
      stall_cause c = WBUF_STALL \<and> isa_op i = 1 \<and> isa_fn i \<in> {1, 2, 3, 4} \<and> access_mem c = Some WBUF)"

lemma stall_handle_only:
  "\<exists>st. stall_handle arb c = c\<lparr>stall_cause := st\<rparr> \<and> (st = NO_STALL \<or> st = stall_cause c)"
proof (intro exI)
  show "stall_handle arb c = c\<lparr>stall_cause := stall_cause (stall_handle arb c)\<rparr> \<and>
      (stall_cause (stall_handle arb c) = NO_STALL \<or> stall_cause (stall_handle arb c) = stall_cause c)"
    by (simp add: stall_handle_def wbuf_stall_def split: core_stall.split)
qed

lemma decode_cycle:
  assumes "sc_status c = STAT_ID" "\<not> core_isStall c" "\<not> halt_issued c" "\<not> reg_write c" "\<not> isBranch c" "mad_rest (sc_mad c)"
    "length (sc_regs c) = 16"
  shows "\<exists>d. SNACCCore_step hb arb (c, w) = Some (d, w) \<and> same_arch c d \<and> decoded (fetch_instr c) d"
proof -
  let ?i = "fetch_instr c"
  let ?c1 = "decode_fields c"
  define c2 where "c2 = (if dec_opcode ?c1 = 1 then (if dec_func ?c1 \<in> {1, 2, 3, 4} then decode_access ?c1 else ?c1)
    else ?c1\<lparr>access_mem := None\<rparr>)"
  define c3 where "c3 = stall_handle arb c2"
  have f1: "dec_opcode ?c1 = isa_op ?i" "dec_rd ?c1 = isa_rd ?i" "dec_rs ?c1 = isa_rs ?i" "dec_func ?c1 = isa_fn ?i"
    "dec_imm ?c1 = (if isa_op ?i = 4 \<or> isa_op ?i = 5 then of_int (isa_disp ?i) else of_nat (isa_byte ?i))"
    by (simp_all add: decode_fields_def Let_def snacc_fields imm_value imm_signed)
  have s1: "same_arch c ?c1" "stall_cause ?c1 = NO_STALL" "sc_mad ?c1 = sc_mad c" "halt_issued ?c1 = halt_issued c"
    "reg_write ?c1 = reg_write c" "isBranch ?c1 = isBranch c" "sc_regs ?c1 = sc_regs c"
    using assms(2) by (simp_all add: decode_fields_def Let_def same_arch_def core_isStall_def)
  have "\<exists>am aa st. c2 = ?c1\<lparr>access_mem := am, access_address := aa, stall_cause := st\<rparr>"
  proof (intro exI)
    show "c2 = ?c1\<lparr>access_mem := access_mem c2, access_address := access_address c2, stall_cause := stall_cause c2\<rparr>"
      by (simp add: c2_def decode_access_def Let_def split: option.splits prod.splits)
  qed
  then obtain am aa st where d2: "c2 = ?c1\<lparr>access_mem := am, access_address := aa, stall_cause := st\<rparr>" by blast
  have a2: "isa_op ?i = 1 \<and> isa_fn ?i \<in> {1, 2, 3, 4} \<longrightarrow>
      (case isa_place (sc_regs c ! isa_rs ?i) of None \<Rightarrow> access_mem c2 = None
       | Some (m, n) \<Rightarrow> access_mem c2 = Some m \<and> unat (access_address c2) = n \<and> n < 0x800)"
    using sram_decode_place [of "sc_regs c ! isa_rs ?i"]
    by (auto simp: c2_def f1 s1(7) decode_access_def Let_def split: option.splits prod.splits)
  have l2: "stall_cause c2 = NO_STALL \<or>
      stall_cause c2 = WBUF_STALL \<and> isa_op ?i = 1 \<and> isa_fn ?i \<in> {1, 2, 3, 4} \<and> access_mem c2 = Some WBUF"
    using s1(2) by (auto simp: c2_def f1 decode_access_def Let_def split: option.splits prod.splits)
  obtain st' where d3: "stall_handle arb c2 = c2\<lparr>stall_cause := st'\<rparr>" and l3: "st' = NO_STALL \<or> st' = WBUF_STALL \<and> st = WBUF_STALL"
    using stall_handle_only [of arb c2] l2 d2 by auto
  have id3: "id_stage arb c = stall_handle arb c2"
    unfolding id_stage_def c2_def Let_def by (rule refl)
  have st: "core_stage hb arb (c, w) = Some (c2\<lparr>stall_cause := st', sc_status := STAT_EX\<rparr>, w)"
    using assms(1) d3 id3 by (simp add: core_stage_def)
  let ?d = "c2\<lparr>stall_cause := st', sc_status := STAT_EX\<rparr>"
  have r: "mad_rest (sc_mad ?d)" using d2 s1(3) assms(6) by simp
  have "SNACCCore_step hb arb (c, w) = Some (?d\<lparr>sc_mad := mad_tick (sc_mad c)\<rparr>, w)"
    using assms(2) st mad_step_rest [OF r, of hb] d2 s1(3) by (simp add: SNACCCore_step_def)
  moreover have "same_arch c (?d\<lparr>sc_mad := mad_tick (sc_mad c)\<rparr>)"
    using s1(1) by (simp add: d2 same_arch_def)
  moreover have "decoded ?i (?d\<lparr>sc_mad := mad_tick (sc_mad c)\<rparr>)"
    unfolding decoded_def
  proof (intro conjI)
    have am: "access_mem c2 = am" "access_address c2 = aa" "stall_cause c2 = st" by (simp_all add: d2)
    have sel: "access_mem (?d\<lparr>sc_mad := mad_tick (sc_mad c)\<rparr>) = am"
      "access_address (?d\<lparr>sc_mad := mad_tick (sc_mad c)\<rparr>) = aa"
      "sc_regs (?d\<lparr>sc_mad := mad_tick (sc_mad c)\<rparr>) = sc_regs c"
      by (simp_all add: d2 s1(7))
    show "isa_op ?i = 1 \<and> isa_fn ?i \<in> {1, 2, 3, 4} \<longrightarrow>
        (case isa_place (sc_regs (?d\<lparr>sc_mad := mad_tick (sc_mad c)\<rparr>) ! isa_rs ?i) of
           None \<Rightarrow> access_mem (?d\<lparr>sc_mad := mad_tick (sc_mad c)\<rparr>) = None
         | Some (m, n) \<Rightarrow> access_mem (?d\<lparr>sc_mad := mad_tick (sc_mad c)\<rparr>) = Some m \<and>
             unat (access_address (?d\<lparr>sc_mad := mad_tick (sc_mad c)\<rparr>)) = n \<and> n < 0x800)"
      using a2 unfolding am sel .
    show "stall_cause (?d\<lparr>sc_mad := mad_tick (sc_mad c)\<rparr>) = NO_STALL \<or>
        stall_cause (?d\<lparr>sc_mad := mad_tick (sc_mad c)\<rparr>) = WBUF_STALL \<and> isa_op ?i = 1 \<and> isa_fn ?i \<in> {1, 2, 3, 4} \<and>
          access_mem (?d\<lparr>sc_mad := mad_tick (sc_mad c)\<rparr>) = Some WBUF"
      using l2 l3 unfolding am by (auto simp: d2)
  qed (use assms s1 f1 in \<open>simp_all add: d2 core_isStall_def same_arch_def\<close>)
  ultimately show ?thesis by blast
qed

section \<open>Execution\<close>

text \<open>
  After the execution of instruction \<open>i\<close> in the state \<open>A\<close>, before the write back: the effects are
  there, the value waits in the latch.
\<close>

definition executed :: "bool \<Rightarrow> u16 \<Rightarrow> snacc_arch \<Rightarrow> snacc_core \<times> dbuf \<Rightarrow> bool" where
  "executed hb i A s \<longleftrightarrow>
     arch_of s = (isa_effect hb i A)\<lparr>ar_halted := False, ar_latch := (case isa_value hb i A of None \<Rightarrow> ar_latch A | Some v \<Rightarrow> v)\<rparr> \<and>
     halt_issued (fst s) = ar_halted (isa_effect hb i A) \<and>
     (reg_write (fst s) \<longleftrightarrow> isa_value hb i A \<noteq> None) \<and>
     (isBranch (fst s) \<longleftrightarrow> isa_op i = 5 \<or> (isa_op i = 4 \<and> ar_regs A ! isa_rd i \<noteq> 0)) \<and>
     dec_rd (fst s) = isa_rd i \<and> (isa_op i = 4 \<or> isa_op i = 5 \<longrightarrow> dec_imm (fst s) = of_int (isa_disp i)) \<and>
     stall_cause (fst s) = NO_STALL \<and> mad_rest (sc_mad (fst s)) \<and> length (sc_regs (fst s)) = 16 \<and> \<not> sc_done (fst s) \<and> bufs_wf s"

lemma decoded_fields:
  "decoded i c \<Longrightarrow> dec_opcode c = isa_op i" "decoded i c \<Longrightarrow> dec_rd c = isa_rd i" "decoded i c \<Longrightarrow> dec_rs c = isa_rs i"
  "decoded i c \<Longrightarrow> dec_func c = isa_fn i" "decoded i c \<Longrightarrow> reg_d c = sc_regs c ! isa_rd i"
  "decoded i c \<Longrightarrow> reg_s c = sc_regs c ! isa_rs i"
  "decoded i c \<Longrightarrow> isa_op i \<noteq> 4 \<Longrightarrow> isa_op i \<noteq> 5 \<Longrightarrow> dec_imm c = of_nat (isa_byte i)"
  by (simp_all add: decoded_def reg_d_def reg_s_def)

lemma ar_sel:
  "ar_regs (arch_of (c, w)) = sc_regs c" "ar_halted (arch_of (c, w)) = sc_done c" "ar_latch (arch_of (c, w)) = reg_write_data c"
  "ar_pc (arch_of (c, w)) = sc_pc c" "ar_mem (arch_of (c, w)) m = db_inner (sram_get m (c, w))"
  "ar_half_mode (arch_of (c, w)) = access_mode c"
  by (simp_all add: arch_of_def Let_def)

lemma arch_result: "arch_of (result v c, w) = (arch_of (c, w))\<lparr>ar_latch := v\<rparr>"
  using sram_get_cong [of "result v c" c] by (simp add: arch_of_def Let_def result_def)

lemma arch_running: "\<not> sc_done c \<Longrightarrow> (arch_of (c, w))\<lparr>ar_halted := False\<rparr> = arch_of (c, w)"
  by (simp add: arch_of_def Let_def)

lemma arch_latched: "(arch_of (c, w))\<lparr>ar_latch := reg_write_data c\<rparr> = arch_of (c, w)"
  by (simp add: arch_of_def Let_def)

lemma bufs_result: "bufs_wf (result v c, w) = bufs_wf (c, w)"
  using sram_get_cong [of "result v c" c] by (simp add: bufs_wf_def result_def)

lemma executed_result:
  assumes "decoded i d" "stall_cause d = NO_STALL" "bufs_wf (d, w)" "isa_op i \<noteq> 4" "isa_op i \<noteq> 5"
    and "isa_value hb i (arch_of (d, w)) = Some v" "isa_effect hb i (arch_of (d, w)) = arch_of (d, w)"
  shows "executed hb i (arch_of (d, w)) (result v d, w)"
  using assms by (simp add: executed_def bufs_result arch_result ar_sel decoded_def arch_running)
    (simp add: result_def)

lemma executed_nothing:
  assumes "decoded i d" "stall_cause d = NO_STALL" "bufs_wf (d, w)" "isa_op i \<noteq> 4" "isa_op i \<noteq> 5"
    and "isa_value hb i (arch_of (d, w)) = None" "isa_effect hb i (arch_of (d, w)) = arch_of (d, w)"
  shows "executed hb i (arch_of (d, w)) (d, w)"
  using assms by (simp add: executed_def ar_sel decoded_def arch_running arch_latched)

lemma less16:
  "(n :: nat) < 16 \<Longrightarrow> n = 15 \<or> n = 14 \<or> n = 13 \<or> n = 12 \<or> n = 11 \<or> n = 10 \<or> n = 9 \<or> n = 8 \<or>
    n = 7 \<or> n = 6 \<or> n = 5 \<or> n = 4 \<or> n = 3 \<or> n = 2 \<or> n = 1 \<or> n = 0"
  by presburger

lemmas op_tables = ex_stage_def ex_op_def kOpcodeTable_def kRTypeArithmeticTable_def kRTypeMemoryTable_def kRTypeSimdTable_def

lemma exec_arith:
  assumes d: "decoded i d" "stall_cause d = NO_STALL" "bufs_wf (d, w)" and o: "isa_op i = 0"
  shows "\<exists>s. ex_stage hb (d, w) = Some s \<and> executed hb i (arch_of (d, w)) s"
proof -
  have eff: "isa_effect hb i (arch_of (d, w)) = arch_of (d, w)" by (simp add: isa_effect_def Let_def o)
  have n45: "isa_op i \<noteq> 4" "isa_op i \<noteq> 5" using o by simp_all
  have "(\<exists>v. ex_stage hb (d, w) = Some (result v d, w) \<and> isa_value hb i (arch_of (d, w)) = Some v) \<or>
      (ex_stage hb (d, w) = Some (d, w) \<and> isa_value hb i (arch_of (d, w)) = None)"
    using less16 [OF isa_field_less(4) [of i]]
    by (elim disjE) (simp_all add: op_tables decoded_fields [OF d(1)] o isa_value_def ar_sel Let_def)
  then show ?thesis using executed_result [OF d n45 _ eff] executed_nothing [OF d n45 _ eff] by blast
qed

text \<open>The buffers under the accesses of a core.\<close>

lemma half_index:
  "2 * (unat (a XOR 0x2 :: u32) div 2) = half_place (unat a)" "2 * (unat (a XOR 0x3 :: u32) div 2) = half_place (unat a)"
proof -
  have x: "drop_bit 1 (n XOR 2) = drop_bit 1 n XOR 1" "drop_bit 1 (n XOR 3) = drop_bit 1 n XOR 1" for n :: nat
    by (simp_all add: drop_bit_xor)
  have h: "2 * ((n div 2) XOR 1) = half_place n" for n :: nat
  proof (cases "even (n div 2)")
    case False
    then obtain k where "n div 2 = Suc (2 * k)" by (metis oddE Suc_eq_plus1)
    then show ?thesis by (simp add: half_place_def xor_Suc_0_eq)
  qed (simp add: half_place_def xor_Suc_0_eq)
  have "unat (a XOR 0x2) div 2 = unat a div 2 XOR 1" "unat (a XOR 0x3) div 2 = unat a div 2 XOR 1"
    using x [of "unat a"] by (simp_all add: unsigned_xor_eq drop_bit_eq_div)
  then show "2 * (unat (a XOR 0x2 :: u32) div 2) = half_place (unat a)" "2 * (unat (a XOR 0x3 :: u32) div 2) = half_place (unat a)"
    using h [of "unat a"] by simp_all
qed

lemma half_place_less: "n < 0x800 \<Longrightarrow> half_place n + 2 \<le> 0x800"
  by (auto simp: half_place_def)

lemma word_place_less: "n < 0x800 \<Longrightarrow> word_place n + 4 \<le> 0x800"
  by (simp add: word_place_def)

lemma half_word_index: "unat (a XOR 0x2 :: u32) div 4 = unat a div 4" "unat (a XOR 0x3 :: u32) div 4 = unat a div 4"
proof -
  have "drop_bit 2 (n XOR 2) = drop_bit 2 n" "drop_bit 2 (n XOR 3) = drop_bit 2 n" for n :: nat
    by (simp_all add: drop_bit_xor)
  from this [of "unat a"] show "unat (a XOR 0x2 :: u32) div 4 = unat a div 4" "unat (a XOR 0x3 :: u32) div 4 = unat a div 4"
    by (simp_all add: unsigned_xor_eq drop_bit_eq_div)
qed

lemma buf_wf_facts:
  assumes "buf_wf d"
  shows "unat (db_extent d) = 0x800" "length (db_inner d) = 0x800" "(v :: u32) AND db_mask d = v"
  using assms by (simp_all add: buf_wf_def dbuf_wf_def) (simp add: bit_blast)

lemma buf_fetch:
  assumes "buf_wf d" "unat a < 0x800"
  shows "fetch_word_from_inner hb a d = Some (load32 hb (db_inner d) (word_place (unat a)))"
    and "fetch_half_from_inner hb (a XOR 0x2) d = Some (load16 hb (db_inner d) (half_place (unat a)))"
    and "fetch_half_from_inner hb (a XOR 0x3) d = Some (load16 hb (db_inner d) (half_place (unat a)))"
  using buf_wf_facts [OF assms(1)] assms(2) word_place_less [OF assms(2)] half_place_less [OF assms(2)]
  by (simp_all add: fetch_word_from_inner_def fetch_half_from_inner_def inner_exceeds_def half_index half_word_index
      word_place_def Let_def div_le_dividend le_less_trans [OF div_le_dividend] not_le)

lemma buf_store:
  assumes "buf_wf d" "unat a < 0x800"
  shows "store_word_from_inner hb a v d = Some (set_inner (store32 hb (db_inner d) (word_place (unat a)) v) d)"
    and "store_half_from_inner hb (a XOR 0x2) h d = Some (set_inner (store16 hb (db_inner d) (half_place (unat a)) h) d)"
proof -
  have m: "(ucast (ucast h AND db_mask d :: u32) :: u16) = h"
    unfolding buf_wf_facts(3) [OF assms(1), of "ucast h"] by (rule bit_word_eqI) (simp add: bit_simps)
  show "store_word_from_inner hb a v d = Some (set_inner (store32 hb (db_inner d) (word_place (unat a)) v) d)"
    "store_half_from_inner hb (a XOR 0x2) h d = Some (set_inner (store16 hb (db_inner d) (half_place (unat a)) h) d)"
    using buf_wf_facts [OF assms(1)] assms(2) word_place_less [OF assms(2)] half_place_less [OF assms(2)] m
    by (simp_all add: store_word_from_inner_def store_half_from_inner_def inner_exceeds_def half_index half_word_index
        word_place_def Let_def le_less_trans [OF div_le_dividend] not_le)
qed

lemma buf_wf_set_inner: "buf_wf d \<Longrightarrow> length x = length (db_inner d) \<Longrightarrow> buf_wf (set_inner x d)"
  by (simp add: buf_wf_def dbuf_wf_keep)

lemma sram_put_get: "sram_get n (sram_put m d s) = (if n = m then d else sram_get n s)"
  by (cases s; cases m; cases n) simp_all

lemma sram_put_core:
  "\<exists>b. fst (sram_put m d (c, w)) = c\<lparr>sc_bufs := b\<rparr>"
  by (cases m) (auto intro: exI [of _ "sc_bufs c"])

lemma arch_put: "arch_of (sram_put m d (c, w)) = (arch_of (c, w))\<lparr>ar_mem := (ar_mem (arch_of (c, w)))(m := db_inner d)\<rparr>"
proof -
  obtain b where b: "fst (sram_put m d (c, w)) = c\<lparr>sc_bufs := b\<rparr>" using sram_put_core by blast
  show ?thesis by (simp add: arch_of_def Let_def b sram_put_get fun_eq_iff)
qed

lemma bufs_put: "bufs_wf s \<Longrightarrow> buf_wf d \<Longrightarrow> bufs_wf (sram_put m d s)"
  by (simp add: bufs_wf_def sram_put_get)

lemma bufs_get: "bufs_wf s \<Longrightarrow> buf_wf (sram_get m s)"
  by (simp add: bufs_wf_def)

lemma half_values:
  "(ucast (drop_bit 16 (v :: u32) AND 0xFFFF) :: u16) = of_nat (unat v div 65536)"
  "(ucast (v AND 0xFFFF) :: u16) = of_nat (unat v mod 65536)"
proof -
  have m: "(ucast (x AND 0xFFFF) :: u16) = ucast x" for x :: u32 by (simp add: bit_blast)
  have u: "(ucast x :: u16) = of_nat (unat x)" for x :: u32 by simp
  show "(ucast (drop_bit 16 v AND 0xFFFF) :: u16) = of_nat (unat v div 65536)"
    unfolding m unfolding u by (simp only: unat_drop_bit_eq) (simp add: drop_bit_eq_div)
  show "(ucast (v AND 0xFFFF) :: u16) = of_nat (unat v mod 65536)"
    unfolding m word_unat_eq_iff by (simp add: unsigned_ucast_eq unat_of_nat take_bit_eq_mod)
qed

lemma decoded_place:
  assumes "decoded i d" "isa_op i = 1" "isa_fn i \<in> {1, 2, 3, 4}"
  obtains "isa_place (sc_regs d ! isa_rs i) = None" "access_mem d = None"
  | m where "isa_place (sc_regs d ! isa_rs i) = Some (m, unat (access_address d))" "access_mem d = Some m"
      "unat (access_address d) < 0x800"
proof -
  have c: "case isa_place (sc_regs d ! isa_rs i) of None \<Rightarrow> access_mem d = None
      | Some (m, n) \<Rightarrow> access_mem d = Some m \<and> unat (access_address d) = n \<and> n < 0x800"
    using assms unfolding decoded_def by blast
  show ?thesis using c that by (auto split: option.splits)
qed

lemma exec_load:
  assumes d: "decoded i d" "stall_cause d = NO_STALL" "bufs_wf (d, w)" and o: "isa_op i = 1" "isa_fn i = 1 \<or> isa_fn i = 3"
  shows "\<exists>s. ex_stage hb (d, w) = Some s \<and> executed hb i (arch_of (d, w)) s"
proof -
  let ?A = "arch_of (d, w)"
  have eff: "isa_effect hb i ?A = ?A" using o by (auto simp: isa_effect_def Let_def)
  have n45: "isa_op i \<noteq> 4" "isa_op i \<noteq> 5" using o(1) by simp_all
  have fn: "isa_fn i \<in> {1, 2, 3, 4}" using o(2) by auto
  have ex: "ex_stage hb (d, w) = map_option (\<lambda>c. (c, w)) (if isa_fn i = 1 then Loadw_op hb (d, w) else Loadh_op hb (d, w))"
    using o by (auto simp: op_tables decoded_fields [OF d(1)])
  have val: "isa_value hb i ?A = Some (isa_load hb (isa_fn i) (sc_regs d ! isa_rs i) ?A)"
    using o by (auto simp: isa_value_def ar_sel Let_def)
  show ?thesis
  proof (rule decoded_place [OF d(1) o(1) fn])
    assume p: "isa_place (sc_regs d ! isa_rs i) = None" and a: "access_mem d = None"
    have v: "isa_value hb i ?A = Some (reg_write_data d)" using val by (simp add: isa_load_def p ar_sel)
    have "result (reg_write_data d) d = d\<lparr>reg_write := True\<rparr>" by (simp add: result_def)
    then have "ex_stage hb (d, w) = Some (result (reg_write_data d) d, w)"
      unfolding ex by (simp add: Loadw_op_def Loadh_op_def a)
    with executed_result [OF d n45 v eff] show ?thesis by blast
  next
    fix m assume p: "isa_place (sc_regs d ! isa_rs i) = Some (m, unat (access_address d))"
      and a: "access_mem d = Some m" and l: "unat (access_address d) < 0x800"
    note f = buf_fetch [OF bufs_get [OF d(3), of m] l, of hb]
    obtain v where v: "isa_value hb i ?A = Some v" and e: "ex_stage hb (d, w) = Some (result v d, w)"
      using o(2) unfolding ex val
      by (auto simp: Loadw_op_def Loadh_op_def a f isa_load_def p ar_sel push_bit_eq_mult mult.commute [of 65536] cong: if_cong)
    from executed_result [OF d n45 v eff] e show ?thesis by blast
  qed
qed

lemma executed_store:
  assumes d: "decoded i d" "stall_cause d = NO_STALL" "bufs_wf (d, w)" and o: "isa_op i = 1" "isa_fn i = 2 \<or> isa_fn i = 4"
    and p: "isa_place (sc_regs d ! isa_rs i) = Some (m, n)"
    and e: "isa_store hb (isa_fn i) (sc_regs d ! isa_rs i) (sc_regs d ! isa_rd i) (arch_of (d, w)) =
      (ar_mem (arch_of (d, w)))(m := x)" "length x = length (db_inner (sram_get m (d, w)))"
  shows "executed hb i (arch_of (d, w)) (sram_put m (set_inner x (sram_get m (d, w))) (d, w))"
proof -
  let ?s = "sram_put m (set_inner x (sram_get m (d, w))) (d, w)"
  obtain b where b: "fst ?s = d\<lparr>sc_bufs := b\<rparr>" using sram_put_core by blast
  have val: "isa_value hb i (arch_of (d, w)) = None" using o by (auto simp: isa_value_def Let_def)
  have eff: "isa_effect hb i (arch_of (d, w)) = (arch_of (d, w))\<lparr>ar_mem := (ar_mem (arch_of (d, w)))(m := x)\<rparr>"
    using o by (auto simp: isa_effect_def Let_def ar_sel e(1))
  have wf: "bufs_wf ?s" using bufs_put [OF d(3) buf_wf_set_inner [OF bufs_get [OF d(3)] e(2)]] .
  have "arch_of ?s = (arch_of (d, w))\<lparr>ar_mem := (ar_mem (arch_of (d, w)))(m := x), ar_halted := False,
      ar_latch := ar_latch (arch_of (d, w))\<rparr>"
    using d(1) by (simp add: arch_put) (simp add: arch_of_def Let_def decoded_def)
  then show ?thesis using d(1,2) wf o(1) unfolding executed_def val eff b
    by (simp add: decoded_def ar_sel)
qed

lemma exec_store:
  assumes d: "decoded i d" "stall_cause d = NO_STALL" "bufs_wf (d, w)" and o: "isa_op i = 1" "isa_fn i = 2 \<or> isa_fn i = 4"
  shows "\<exists>s. ex_stage hb (d, w) = Some s \<and> executed hb i (arch_of (d, w)) s"
proof -
  let ?A = "arch_of (d, w)"
  have n45: "isa_op i \<noteq> 4" "isa_op i \<noteq> 5" using o(1) by simp_all
  have fn: "isa_fn i \<in> {1, 2, 3, 4}" using o(2) by auto
  have ex: "ex_stage hb (d, w) = (if isa_fn i = 2 then Storew_op hb (d, w) else Storeh_op hb (d, w))"
    using o by (auto simp: op_tables decoded_fields [OF d(1)])
  have val: "isa_value hb i ?A = None" using o by (auto simp: isa_value_def Let_def)
  show ?thesis
  proof (rule decoded_place [OF d(1) o(1) fn])
    assume p: "isa_place (sc_regs d ! isa_rs i) = None" and a: "access_mem d = None"
    have eff: "isa_effect hb i ?A = ?A" using o by (auto simp: isa_effect_def Let_def isa_store_def p ar_sel)
    have "ex_stage hb (d, w) = Some (d, w)" unfolding ex by (simp add: Storew_op_def Storeh_op_def a)
    with executed_nothing [OF d n45 val eff] show ?thesis by blast
  next
    fix m assume p: "isa_place (sc_regs d ! isa_rs i) = Some (m, unat (access_address d))"
      and a: "access_mem d = Some m" and l: "unat (access_address d) < 0x800"
    note f = buf_store [OF bufs_get [OF d(3), of m] l, of hb]
    define x where "x = (if isa_fn i = 2 then store32 hb (db_inner (sram_get m (d, w))) (word_place (unat (access_address d))) (sc_regs d ! isa_rd i)
      else store16 hb (db_inner (sram_get m (d, w))) (half_place (unat (access_address d)))
        (if access_mode d = 0 then of_nat (unat (sc_regs d ! isa_rd i) div 65536) else of_nat (unat (sc_regs d ! isa_rd i) mod 65536)))"
    have st: "isa_store hb (isa_fn i) (sc_regs d ! isa_rs i) (sc_regs d ! isa_rd i) ?A = (ar_mem ?A)(m := x)"
      unfolding isa_store_def p by (simp add: ar_sel x_def)
    have len: "length x = length (db_inner (sram_get m (d, w)))" by (simp add: x_def length_store)
    have "ex_stage hb (d, w) = Some (sram_put m (set_inner x (sram_get m (d, w))) (d, w))"
    proof (cases "access_mode d = 0")
      case True
      then show ?thesis unfolding ex using o(2)
        by (auto simp: Storew_op_def Storeh_op_def a f x_def decoded_fields [OF d(1)] half_values(1) Let_def)
    next
      case False
      then show ?thesis unfolding ex using o(2)
        by (auto simp: Storew_op_def Storeh_op_def a f x_def decoded_fields [OF d(1)] half_values(2) Let_def)
    qed
    with executed_store [OF d o p st len] show ?thesis by blast
  qed
qed

text \<open>An instruction that changes nothing but what its effect on the state of the programmer says.\<close>

lemma executed_effect:
  assumes d: "decoded i d" "stall_cause d = NO_STALL" "bufs_wf (d, w)" and n45: "isa_op i \<noteq> 4" "isa_op i \<noteq> 5"
    and v: "isa_value hb i (arch_of (d, w)) = None"
    and e: "arch_of (e, w) = isa_effect hb i (arch_of (d, w))" "e = d\<lparr>simd_mask := sm, dmem_step := ds, rbuf_step := rs', fp_pos := fp,
      wbuf_arb_mode := am, mad_mode_reg := mm, access_mode := ac, sc_mad := md\<rparr>" "mad_rest md"
  shows "executed hb i (arch_of (d, w)) (e, w)"
proof -
  have h: "\<not> ar_halted (isa_effect hb i (arch_of (d, w)))" "ar_latch (isa_effect hb i (arch_of (d, w))) = reg_write_data d"
    using d(1) by (simp_all add: e(1) [symmetric] ar_sel e(2) decoded_def)
  have same: "(isa_effect hb i (arch_of (d, w)))\<lparr>ar_halted := False, ar_latch := ar_latch (arch_of (d, w))\<rparr> = arch_of (e, w)"
    using h by (simp add: e(1) ar_sel)
  have b: "bufs_wf (e, w)" using d(3) sram_get_cong [of e d] by (simp add: bufs_wf_def e(2))
  show ?thesis unfolding executed_def v using d n45 h(1) b e(3) same
    by (simp add: decoded_def e(2))
qed

lemmas executed_update = executed_effect [where sm = "simd_mask e" and ds = "dmem_step e" and rs' = "rbuf_step e" and fp = "fp_pos e"
    and am = "wbuf_arb_mode e" and mm = "mad_mode_reg e" and ac = "access_mode e" and md = "sc_mad e" and e = e for e]

lemma exec_memory:
  assumes d: "decoded i d" "stall_cause d = NO_STALL" "bufs_wf (d, w)" and o: "isa_op i = 1"
  shows "\<exists>s. ex_stage hb (d, w) = Some s \<and> executed hb i (arch_of (d, w)) s"
proof -
  let ?A = "arch_of (d, w)"
  have n45: "isa_op i \<noteq> 4" "isa_op i \<noteq> 5" using o by simp_all
  consider "isa_fn i = 0" | "isa_fn i = 7" | "isa_fn i = 1 \<or> isa_fn i = 3" | "isa_fn i = 2 \<or> isa_fn i = 4"
    | "isa_fn i \<notin> {0, 1, 2, 3, 4, 7}" by auto
  then show ?thesis
  proof cases
    case 1
    have "ex_stage hb (d, w) = Some (d\<lparr>halt_issued := True\<rparr>, w)" by (simp add: op_tables decoded_fields [OF d(1)] o 1)
    moreover have "executed hb i ?A (d\<lparr>halt_issued := True\<rparr>, w)"
      using d sram_get_cong [of "d\<lparr>halt_issued := True\<rparr>" d] o
      by (simp add: executed_def isa_effect_def isa_value_def Let_def 1 decoded_def ar_sel bufs_wf_def) (simp add: arch_of_def Let_def)
    ultimately show ?thesis by blast
  next
    case 2
    have v: "isa_value hb i ?A = Some (creg_value d (isa_rs i))"
      by (simp add: isa_value_def Let_def o 2 isa_creg_def creg_value_def arch_of_def push_bit_eq_mult)
    have eff: "isa_effect hb i ?A = ?A" by (simp add: isa_effect_def Let_def o 2)
    have "ex_stage hb (d, w) = Some (result (creg_value d (isa_rs i)) d, w)"
      by (simp add: op_tables decoded_fields [OF d(1)] o 2)
    with executed_result [OF d n45 v eff] show ?thesis by blast
  next
    case 3
    from exec_load [OF d o 3] show ?thesis .
  next
    case 4
    from exec_store [OF d o 4] show ?thesis .
  next
    case 5
    have v: "isa_value hb i ?A = None" "isa_effect hb i ?A = ?A" using 5 o by (auto simp: isa_value_def isa_effect_def Let_def)
    have "ex_stage hb (d, w) = Some (d, w)"
      using less16 [OF isa_field_less(4) [of i]] 5
      by (elim disjE) (simp_all add: op_tables decoded_fields [OF d(1)] o)
    with executed_nothing [OF d n45 v] show ?thesis by blast
  qed
qed

lemma exec_simd:
  assumes d: "decoded i d" "stall_cause d = NO_STALL" "bufs_wf (d, w)" and o: "isa_op i = 2"
  shows "\<exists>s. ex_stage hb (d, w) = Some s \<and> executed hb i (arch_of (d, w)) s"
proof -
  let ?A = "arch_of (d, w)"
  have n45: "isa_op i \<noteq> 4" "isa_op i \<noteq> 5" using o by simp_all
  have v: "isa_value hb i ?A = None" by (simp add: isa_value_def Let_def o)
  show ?thesis
  proof (cases "isa_fn i = 1")
    case True
    let ?m = "set_addr (sc_regs d ! isa_rd i) (sc_regs d ! isa_rs i) (sc_mad d)"
    have low: "x AND 0xFFFF = of_nat (unat x mod 65536)" for x :: u32
    proof -
      have e: "x AND 0xFFFF = take_bit 16 x" by (simp add: bit_blast)
      show ?thesis unfolding e word_unat_eq_iff
        by (simp only: unsigned_take_bit_eq) (simp add: unat_of_nat take_bit_eq_mod)
    qed
    have x: "ex_stage hb (d, w) = Some (d\<lparr>sc_mad := ?m\<rparr>, w)" by (simp add: op_tables decoded_fields [OF d(1)] o True)
    have a: "arch_of (d\<lparr>sc_mad := ?m\<rparr>, w) = isa_effect hb i ?A"
      using sram_get_cong [of "d\<lparr>sc_mad := ?m\<rparr>" d]
      by (simp add: isa_effect_def Let_def o True arch_of_def set_addr_def low)
    have r: "mad_rest (sc_mad (d\<lparr>sc_mad := ?m\<rparr>))" using d(1) by (simp add: decoded_def mad_rest_def set_addr_def)
    have "executed hb i ?A (d\<lparr>sc_mad := ?m\<rparr>, w)" by (rule executed_update [OF d n45 v a _ r]) simp
    with x show ?thesis by blast
  next
    case False
    have eff: "isa_effect hb i ?A = ?A" using False by (simp add: isa_effect_def Let_def o)
    have "ex_stage hb (d, w) = Some (d, w)"
      using less16 [OF isa_field_less(4) [of i]] False
      by (elim disjE) (simp_all add: op_tables decoded_fields [OF d(1)] o)
    with executed_nothing [OF d n45 v eff] show ?thesis by blast
  qed
qed

lemma exec_branch:
  assumes d: "decoded i d" "stall_cause d = NO_STALL" "bufs_wf (d, w)" and o: "isa_op i = 4 \<or> isa_op i = 5"
  shows "\<exists>s. ex_stage hb (d, w) = Some s \<and> executed hb i (arch_of (d, w)) s"
proof -
  let ?A = "arch_of (d, w)"
  define b where "b = (isa_op i = 5 \<or> sc_regs d ! isa_rd i \<noteq> 0)"
  have v: "isa_value hb i ?A = None" "isa_effect hb i ?A = ?A"
    using o by (elim disjE; simp add: isa_value_def isa_effect_def Let_def)+
  have x: "ex_stage hb (d, w) = Some (d\<lparr>isBranch := b\<rparr>, w)"
  proof -
    have "\<not> isBranch d" using d(1) by (simp add: decoded_def)
    then have z: "d\<lparr>isBranch := False\<rparr> = d" by (cases d) simp
    from o show ?thesis
      by (elim disjE) (simp_all add: op_tables decoded_fields(1-6) [OF d(1)] b_def z)
  qed
  have "arch_of (d\<lparr>isBranch := b\<rparr>, w) = ?A" "bufs_wf (d\<lparr>isBranch := b\<rparr>, w)"
    using sram_get_cong [of "d\<lparr>isBranch := b\<rparr>" d] d(3) by (simp_all add: arch_of_def bufs_wf_def Let_def)
  then have "executed hb i ?A (d\<lparr>isBranch := b\<rparr>, w)"
    using d(1,2) o unfolding executed_def v
    by (auto simp: arch_running arch_latched ar_sel decoded_def b_def)
  with x show ?thesis by blast
qed

lemma exec_setcr:
  assumes d: "decoded i d" "stall_cause d = NO_STALL" "bufs_wf (d, w)" and o: "isa_op i = 8"
  shows "\<exists>s. ex_stage hb (d, w) = Some s \<and> executed hb i (arch_of (d, w)) s"
proof -
  let ?A = "arch_of (d, w)" and ?e = "Setcr_op d"
  have n45: "isa_op i \<noteq> 4" "isa_op i \<noteq> 5" using o by simp_all
  have v: "isa_value hb i ?A = None" by (simp add: isa_value_def Let_def o)
  have x: "ex_stage hb (d, w) = Some (?e, w)" by (simp add: op_tables decoded_fields [OF d(1)] o)
  have imm: "dec_imm d = of_nat (isa_byte i)" using decoded_fields(7) [OF d(1)] n45 by simp
  have k: "unat (of_nat (isa_byte i) :: u32) = isa_byte i" using isa_field_less(5) [of i] by (simp add: unat_of_nat)
  have only: "?e = d\<lparr>simd_mask := simd_mask ?e, dmem_step := dmem_step ?e, rbuf_step := rbuf_step ?e, fp_pos := fp_pos ?e,
      wbuf_arb_mode := wbuf_arb_mode ?e, mad_mode_reg := mad_mode_reg ?e, access_mode := access_mode ?e, sc_mad := sc_mad ?e\<rparr>"
    by (simp add: Setcr_op_def Let_def)
  have r: "mad_rest (sc_mad ?e)" using d(1) by (simp add: Setcr_op_def Let_def decoded_def)
  have m: "mask_of_bits (of_nat (isa_byte i)) = map (\<lambda>j. isa_byte i div 2 ^ j mod 2 = 1) [0..<8]"
  proof -
    have "bit (of_nat (isa_byte i) :: u32) j \<longleftrightarrow> isa_byte i div 2 ^ j mod 2 = 1" if "j < 8" for j
      using that by (simp only: bit_of_nat_iff bit_iff_odd [where ?'a = nat]) (simp add: odd_iff_mod_2_eq_one)
    then show ?thesis by (simp add: mask_of_bits_def)
  qed
  have nib: "(ucast (of_nat (isa_byte i) AND 0xF :: u32) :: u8) = of_nat (isa_byte i mod 16)"
    "(ucast (drop_bit 4 (of_nat (isa_byte i)) AND 0xF :: u32) :: u8) = of_nat (isa_byte i div 16)"
    "(ucast (of_nat (isa_byte i) :: u32) :: u8) = of_nat (isa_byte i)"
  proof -
    let ?x = "of_nat (isa_byte i) :: u32"
    have e: "y AND 0xF = take_bit 4 y" for y :: u32 by (simp add: bit_blast)
    show "(ucast (?x AND 0xF) :: u8) = of_nat (isa_byte i mod 16)"
      unfolding e word_unat_eq_iff
      by (simp only: unsigned_ucast_eq unsigned_take_bit_eq k unat_of_nat)
        (use isa_field_less(5) [of i] in \<open>simp add: take_bit_eq_mod\<close>)
    show "(ucast (drop_bit 4 ?x AND 0xF) :: u8) = of_nat (isa_byte i div 16)"
      unfolding e word_unat_eq_iff
      by (simp only: unsigned_ucast_eq unsigned_take_bit_eq unat_drop_bit_eq k unat_of_nat)
        (use isa_field_less(5) [of i] in \<open>simp add: take_bit_eq_mod drop_bit_eq_div less_mult_imp_div_less\<close>)
    show "(ucast ?x :: u8) = of_nat (isa_byte i)"
      unfolding word_unat_eq_iff 
      by (simp only: unsigned_ucast_eq k unat_of_nat) (use isa_field_less(5) [of i] in \<open>simp add: take_bit_eq_mod\<close>)
  qed
  have a: "arch_of (?e, w) = isa_effect hb i ?A"
    using sram_get_cong [of ?e d] isa_field_less(5) [of i]
    by (simp add: isa_effect_def Let_def o isa_setcr_def arch_of_def Setcr_op_def imm m decoded_fields(2) [OF d(1)] nib)
  have "executed hb i ?A (?e, w)" by (rule executed_update [OF d n45 v a only r])
  with x show ?thesis by blast
qed

lemma exec_immediate:
  assumes d: "decoded i d" "stall_cause d = NO_STALL" "bufs_wf (d, w)" and o: "isa_op i \<in> {3, 9, 10, 11, 12, 13}"
    and sh: "isa_op i \<in> {11, 12, 13} \<Longrightarrow> isa_byte i < 32"
  shows "\<exists>s. ex_stage hb (d, w) = Some s \<and> executed hb i (arch_of (d, w)) s"
proof -
  let ?A = "arch_of (d, w)" and ?r = "sc_regs d ! isa_rd i" and ?k = "isa_byte i"
  have n45: "isa_op i \<noteq> 4" "isa_op i \<noteq> 5" using o by auto
  from o have o': "isa_op i = 3 \<or> isa_op i = 9 \<or> isa_op i = 10 \<or> isa_op i = 11 \<or> isa_op i = 12 \<or> isa_op i = 13" by simp
  have eff: "isa_effect hb i ?A = ?A" using o' by (elim disjE) (simp_all add: isa_effect_def Let_def)
  have imm: "dec_imm d = of_nat ?k" using decoded_fields(7) [OF d(1)] n45 by simp
  have k: "unat (of_nat ?k :: u32) = ?k" using isa_field_less(5) [of i] by (simp add: unat_of_nat)
  have li: "(x AND 0x00FFFFFF) * 256 = 256 * x" for x :: u32
  proof -
    have "push_bit 8 (x AND 0x00FFFFFF) = push_bit 8 x" by (simp add: bit_blast)
    then show ?thesis by (simp add: push_bit_eq_mult)
  qed
  have sl: "push_bit n x = of_nat (unat x * 2 ^ n)" for x :: u32 and n by (simp add: push_bit_eq_mult)
  have sr: "drop_bit n x = of_nat (unat x div 2 ^ n)" for x :: u32 and n
  proof -
    have "unat x div 2 ^ n = unat (drop_bit n x)" by (simp add: unat_drop_bit_eq drop_bit_eq_div [where ?'a = nat])
    then show ?thesis by (simp only: of_nat_unat ucast_id)
  qed
  have sa: "signed_drop_bit n x = of_int (sint x div 2 ^ n)" for x :: u32 and n
  proof -
    have "sint x div 2 ^ n = sint (signed_drop_bit n x)" by (simp add: sint_signed_drop_bit_eq drop_bit_eq_div [where ?'a = int])
    then show ?thesis by simp
  qed
  obtain v where "ex_stage hb (d, w) = Some (result v d, w)" "isa_value hb i ?A = Some v"
  proof -
    from o consider "isa_op i = 3" | "isa_op i = 9" | "isa_op i = 10" | "isa_op i = 11" | "isa_op i = 12" | "isa_op i = 13" by auto
    then have "ex_stage hb (d, w) = Some (result (the (isa_value hb i ?A)) d, w) \<and> isa_value hb i ?A \<noteq> None"
      by cases (simp_all add: op_tables decoded_fields(1-6) [OF d(1)] imm k sh isa_value_def ar_sel Let_def
        snacc_shift_def li sl sr sa)
    then show ?thesis using that by auto
  qed
  with executed_result [OF d n45 _ eff] show ?thesis by blast
qed

text \<open>The execution stage on any instruction but those of the multiply-and-add unit.\<close>

definition plain_instr :: "u16 \<Rightarrow> bool" where
  "plain_instr i \<longleftrightarrow> isa_op i \<noteq> 6 \<and> isa_op i \<noteq> 7 \<and> (isa_op i \<in> {11, 12, 13} \<longrightarrow> isa_byte i < 32)"

lemma exec_plain:
  assumes d: "decoded i d" "stall_cause d = NO_STALL" "bufs_wf (d, w)" and p: "plain_instr i"
  shows "\<exists>s. ex_stage hb (d, w) = Some s \<and> executed hb i (arch_of (d, w)) s"
proof -
  consider "isa_op i = 0" | "isa_op i = 1" | "isa_op i = 2" | "isa_op i = 4 \<or> isa_op i = 5" | "isa_op i = 8"
    | "isa_op i \<in> {3, 9, 10, 11, 12, 13}" | "isa_op i = 14 \<or> isa_op i = 15"
    using less16 [OF isa_field_less(1) [of i]] p by (auto simp: plain_instr_def)
  then show ?thesis
  proof cases
    case 7
    have v: "isa_value hb i (arch_of (d, w)) = None" "isa_effect hb i (arch_of (d, w)) = arch_of (d, w)"
      using 7 by (elim disjE; simp add: isa_value_def isa_effect_def Let_def)+
    have "ex_stage hb (d, w) = Some (d, w)"
      using 7 by (elim disjE) (simp_all add: op_tables decoded_fields(1-6) [OF d(1)])
    with executed_nothing [OF d _ _ v] 7 show ?thesis by auto
  qed (use exec_arith [OF d] exec_memory [OF d] exec_simd [OF d] exec_branch [OF d] exec_setcr [OF d] exec_immediate [OF d]
      p in \<open>auto simp: plain_instr_def\<close>)
qed

section \<open>The cycles\<close>

lemma fetch_cycle:
  assumes r: "core_ready c" and b: "bufs_wf (c, w)" and pc: "unat (sc_pc c) < 0x800"
    and i: "i = load16 hb (db_inner (sb_imem (sc_bufs c))) (half_place (unat (sc_pc c)))"
  shows "\<exists>d. SNACCCore_step hb arb (c, w) = Some (d, w) \<and> same_arch c d \<and> sc_status d = STAT_ID \<and> fetch_instr d = i \<and>
    \<not> core_isStall d \<and> \<not> halt_issued d \<and> \<not> reg_write d \<and> \<not> isBranch d \<and> mad_rest (sc_mad d) \<and> length (sc_regs d) = 16"
proof -
  have wf: "buf_wf (sb_imem (sc_bufs c))" using bufs_get [OF b, of IMEM] by simp
  let ?d = "c\<lparr>fetch_instr := i, sc_status := STAT_ID\<rparr>"
  have rest: "mad_rest (sc_mad ?d)" using r by (simp add: core_ready_def mad_rest_def)
  have "SNACCCore_step hb arb (c, w) = Some (?d\<lparr>sc_mad := mad_tick (sc_mad c)\<rparr>, w)"
    using r mad_step_rest [OF rest, of hb]
    by (simp add: SNACCCore_step_def core_ready_def core_stage_def if_stage_def buf_fetch(3) [OF wf pc] i [symmetric])
  moreover have "same_arch c (?d\<lparr>sc_mad := mad_tick (sc_mad c)\<rparr>)" by (simp add: same_arch_def)
  ultimately show ?thesis
    using r rest by (intro exI [of _ "?d\<lparr>sc_mad := mad_tick (sc_mad c)\<rparr>"]) (simp add: core_ready_def core_isStall_def)
qed

text \<open>Waiting for the write buffer, the core only looks at the arbiter.\<close>

lemma decoded_tick:
  "decoded i d \<Longrightarrow> st = NO_STALL \<or> st = stall_cause d \<Longrightarrow> decoded i (d\<lparr>stall_cause := st, sc_mad := mad_tick (sc_mad d)\<rparr>)"
  by (auto simp: decoded_def cong: option.case_cong prod.case_cong)

lemma core_wait_cycle:
  assumes d: "decoded i d" "stall_cause d = WBUF_STALL"
  shows "\<exists>e. SNACCCore_step hb arb (d, w) = Some (e, w) \<and> same_arch d e \<and> decoded i e \<and>
    (stall_cause e = NO_STALL \<longleftrightarrow> isAcquired arb (sc_id d) (wbuf_arb_mode d) (if isa_fn i = 1 \<or> isa_fn i = 3 then WBUF_LOAD else WBUF_STORE))"
proof -
  define st where "st = stall_cause (stall_handle arb d)"
  have f: "isa_op i = 1" "isa_fn i \<in> {1, 2, 3, 4}" "access_mem d = Some WBUF" "dec_func d = isa_fn i"
    using d by (auto simp: decoded_def)
  have h: "stall_handle arb d = d\<lparr>stall_cause := st\<rparr>" using stall_handle_only [of arb d] by (auto simp: st_def)
  have st: "st = NO_STALL \<longleftrightarrow> isAcquired arb (sc_id d) (wbuf_arb_mode d) (if isa_fn i = 1 \<or> isa_fn i = 3 then WBUF_LOAD else WBUF_STORE)"
    "st = NO_STALL \<or> st = WBUF_STALL"
    using f by (auto simp: st_def stall_handle_def d(2) wbuf_stall_def)
  have rest: "mad_rest (sc_mad (d\<lparr>stall_cause := st\<rparr>))" using d(1) by (simp add: decoded_def)
  have s: "SNACCCore_step hb arb (d, w) = Some (d\<lparr>stall_cause := st, sc_mad := mad_tick (sc_mad d)\<rparr>, w)"
    using d(2) mad_step_rest [OF rest, of hb] by (simp add: SNACCCore_step_def core_isStall_def h)
  have "decoded i (d\<lparr>stall_cause := st, sc_mad := mad_tick (sc_mad d)\<rparr>)"
    using decoded_tick [OF d(1)] st(2) d(2) by auto
  moreover have "same_arch d (d\<lparr>stall_cause := st, sc_mad := mad_tick (sc_mad d)\<rparr>)" by (simp add: same_arch_def)
  ultimately show ?thesis using s st(1) by auto
qed

lemma core_exec_cycle:
  assumes d: "decoded i d" "stall_cause d = NO_STALL" "bufs_wf (d, w)" and p: "plain_instr i"
  shows "\<exists>e w'. SNACCCore_step hb arb (d, w) = Some (e, w') \<and> executed hb i (arch_of (d, w)) (e, w') \<and> sc_status e = STAT_WB"
proof -
  obtain e w' where e: "ex_stage hb (d, w) = Some (e, w')" "executed hb i (arch_of (d, w)) (e, w')"
    using exec_plain [OF d p] by fastforce
  let ?e = "e\<lparr>sc_status := STAT_WB\<rparr>"
  have rest: "mad_rest (sc_mad ?e)" using e(2) by (simp add: executed_def)
  have "SNACCCore_step hb arb (d, w) = Some (?e\<lparr>sc_mad := mad_tick (sc_mad e)\<rparr>, w')"
    using d(1,2) mad_step_rest [OF rest, of hb]
    by (simp add: SNACCCore_step_def core_isStall_def core_stage_def e(1) decoded_def)
  moreover have sa: "same_arch e (?e\<lparr>sc_mad := mad_tick (sc_mad e)\<rparr>)" by (simp add: same_arch_def)
  moreover have "executed hb i (arch_of (d, w)) (?e\<lparr>sc_mad := mad_tick (sc_mad e)\<rparr>, w')"
    using e(2) rest unfolding executed_def same_arch_of [OF sa] same_arch_bufs [OF sa] by simp
  ultimately show ?thesis by auto
qed

lemma write_cycle:
  assumes x: "executed hb i A (e, w)" "sc_status e = STAT_WB" and A: "\<not> ar_halted A" "length (ar_regs A) = 16"
  shows "\<exists>c. SNACCCore_step hb arb (e, w) = Some (c, w) \<and> arch_of (c, w) = isa_step hb i A \<and> bufs_wf (c, w) \<and>
    (ar_halted (isa_step hb i A) \<or> core_ready c)"
proof -
  note ex = x(1) [unfolded executed_def fst_conv]
  define E where "E = isa_effect hb i A"
  have E: "ar_regs E = ar_regs A" "ar_pc E = ar_pc A" "ar_latch E = ar_latch A"
    by (simp_all add: E_def isa_effect_def isa_setcr_def Let_def)
  let ?v = "case isa_value hb i A of None \<Rightarrow> ar_latch A | Some v \<Rightarrow> v"
  have a: "arch_of (e, w) = E\<lparr>ar_halted := False, ar_latch := ?v\<rparr>" using ex by (simp add: E_def)
  have f: "sc_regs e = ar_regs A" "sc_pc e = ar_pc A" "reg_write_data e = ?v"
    using arg_cong [OF a, of ar_regs] arg_cong [OF a, of ar_pc] arg_cong [OF a, of ar_latch] by (simp_all add: ar_sel E)
  define c where "c = finish_wb ((wb_stage e)\<lparr>sc_status := STAT_IF\<rparr>)"
  have c: "sc_mad c = sc_mad e" "sc_bufs c = sc_bufs e" "stall_cause c = NO_STALL" "sc_status c = STAT_IF" "\<not> reg_write c"
    "\<not> isBranch c" "\<not> halt_issued c" "sc_done c = ar_halted E" "length (sc_regs c) = 16" "reg_write_data c = ?v"
    using ex f(3) by (simp_all add: c_def finish_wb_def wb_stage_def Let_def E_def)
  have rest: "mad_rest (sc_mad c)" using ex c(1) by simp
  let ?c = "c\<lparr>sc_mad := mad_tick (sc_mad c)\<rparr>"
  have "core_stage hb arb (e, w) = Some (c, w)" by (simp add: core_stage_def x(2) c_def)
  then have s: "SNACCCore_step hb arb (e, w) = Some (?c, w)"
    using ex mad_step_rest [OF rest, of hb] by (simp add: SNACCCore_step_def core_isStall_def)
  have sa: "same_arch c ?c" by (simp add: same_arch_def)
  have n: "isa_next i A = (if isBranch e then ar_pc A + 2 + 2 * dec_imm e else ar_pc A + 2)"
    using ex by (auto simp: isa_next_def)
  have regs: "sc_regs c = (case isa_value hb i A of None \<Rightarrow> ar_regs A
      | Some v \<Rightarrow> if isa_rd i = 15 then ar_regs A else (ar_regs A)[isa_rd i := v])"
    and pc: "sc_pc c = (case isa_value hb i A of None \<Rightarrow> isa_next i A
      | Some v \<Rightarrow> if isa_rd i = 15 then v else isa_next i A)"
    using ex f by (auto simp: c_def finish_wb_def wb_stage_def Let_def n split: option.splits)
  have rec: "arch_of (c, w) = (arch_of (e, w))\<lparr>ar_regs := sc_regs c, ar_pc := sc_pc c, ar_halted := sc_done c, ar_latch := ?v\<rparr>"
    using sram_get_cong [of c e] c(2)
    by (simp add: arch_of_def Let_def c(1,10)) (simp add: c_def finish_wb_def wb_stage_def Let_def)
  have "arch_of (c, w) = isa_step hb i A"
    unfolding rec a c(8) regs pc using E
    by (cases "isa_value hb i A") (simp_all add: isa_step_def Let_def E_def [symmetric])
  moreover have "bufs_wf (c, w)" using ex sram_get_cong [of c e] c(2) by (simp add: bufs_wf_def)
  moreover have "ar_halted (isa_step hb i A) \<or> core_ready ?c"
  proof -
    have "ar_halted (isa_step hb i A) = ar_halted E" by (simp add: isa_step_def Let_def E_def split: option.split)
    then show ?thesis using c rest by (simp add: core_ready_def core_isStall_def mad_rest_def mad_tick_def Let_def)
  qed
  ultimately show ?thesis using s same_arch_of [OF sa, of w] same_arch_bufs [OF sa, of w] by auto
qed

text \<open>The arbiter comes round within eight cycles.\<close>

lemma slot_acquired:
  assumes "unat a mod 8 = 2 * n + 1" and "m = 1 \<or> (m = 0 \<and> n < 4) \<or> (m = 2 \<and> n < 2)"
  shows "isAcquired a n m access"
proof -
  have e: "drop_bit 1 a AND 0x3 = take_bit 2 (drop_bit 1 a)" "drop_bit 1 a AND 0x1 = take_bit 1 (drop_bit 1 a)" for a :: u8
    by (simp_all add: take_bit_eq_mask mask_numeral)
  have t: "unat (drop_bit 1 a AND 0x3) = unat a div 2 mod 4" "unat (drop_bit 1 a AND 0x1) = unat a div 2 mod 2"
    unfolding e by (simp_all only: unsigned_take_bit_eq unat_drop_bit_eq) (simp_all add: take_bit_eq_mod drop_bit_eq_div)
  obtain q where q: "unat a = 8 * q + 2 * n + 1" using assms(1) by (metis add.assoc mult_div_mod_eq)
  have d: "unat a div 2 = 4 * q + n" using q by simp
  have b: "bit a 0"
  proof -
    have "odd (unat a)" using q by simp
    then have "bit (unat a) 0" by (rule bit_0 [THEN iffD2])
    then show ?thesis by (simp only: bit_unsigned_iff)
  qed
  have "unat a div 2 mod 2 = n mod 2" unfolding d by presburger
  then show ?thesis using assms(2) b d
    by (auto simp: isAcquired_def t [unfolded One_nat_def] Let_def split: wbuf_access.split)
qed

lemma arb_turn:
  assumes "arb_ok c"
  shows "\<exists>k < 8. isAcquired (arb + of_nat k) (sc_id c) (wbuf_arb_mode c) access"
proof (cases "wbuf_arb_mode c = 1")
  case True
  then show ?thesis by (intro exI [of _ 0]) (simp add: isAcquired_def)
next
  case False
  then have n: "sc_id c < 4" using assms by (auto simp: arb_ok_def)
  define k where "k = (2 * sc_id c + 1 + 8 - unat arb mod 8) mod 8"
  have "(unat arb + k) mod 8 = 2 * sc_id c + 1"
  proof -
    have m: "(9 + 2 * m) mod 8 = Suc (2 * m)" if "m < 4" for m :: nat using that by presburger
    have "unat arb mod 8 < 8" by simp
    then have "(unat arb mod 8 + k) mod 8 = 2 * sc_id c + 1" using m [OF n] unfolding k_def by (simp add: mod_add_right_eq)
    then show ?thesis by (simp add: mod_add_left_eq)
  qed
  moreover have "unat (arb + of_nat k) mod 8 = (unat arb + k) mod 8"
    by (simp add: unat_word_ariths unat_of_nat mod_mod_cancel mod_add_right_eq)
  ultimately have "isAcquired (arb + of_nat k) (sc_id c) (wbuf_arb_mode c) access"
    using slot_acquired [of "arb + of_nat k" "sc_id c" "wbuf_arb_mode c" access] assms by (simp add: arb_ok_def)
  moreover have "k < 8" by (simp add: k_def)
  ultimately show ?thesis by blast
qed

section \<open>One instruction\<close>

lemma core_cycles_add:
  "core_cycles hb arb (m + n) s = Option.bind (core_cycles hb arb m s) (core_cycles hb (arb + of_nat m) n)"
  by (induction m arbitrary: arb s) (simp_all add: WbufArb_step_def add.assoc split: Option.bind_split)

lemma same_arch_trans: "same_arch a b \<Longrightarrow> same_arch b c \<Longrightarrow> same_arch a c"
  by (simp add: same_arch_def)

text \<open>
  From the decode on, the core waits until its turn: the first cycle at which it is granted the write
  buffer is the \<open>k\<close>-th from now.
\<close>

lemma waits:
  assumes "decoded i d" "arb_ok d" "stall_cause d = NO_STALL \<or> k < 8 \<and>
    isAcquired (arb + of_nat k) (sc_id d) (wbuf_arb_mode d) (if isa_fn i = 1 \<or> isa_fn i = 3 then WBUF_LOAD else WBUF_STORE)"
  shows "\<exists>n e. n \<le> Suc k \<and> core_cycles hb arb n (d, w) = Some (e, w) \<and> same_arch d e \<and> decoded i e \<and> stall_cause e = NO_STALL"
  using assms
proof (induction k arbitrary: d arb)
  case (0 d arb)
  show ?case
  proof (cases "stall_cause d = NO_STALL")
    case True
    then show ?thesis using 0(1) by (intro exI [of _ 0]) (auto simp: same_arch_def)
  next
    case False
    then have st: "stall_cause d = WBUF_STALL" using 0(1) by (auto simp: decoded_def)
    from core_wait_cycle [OF 0(1) st, of hb arb w] 0(3) False show ?thesis
      by (intro exI [of _ "Suc 0"]) auto
  qed
next
  case (Suc k d arb)
  show ?case
  proof (cases "stall_cause d = NO_STALL")
    case True
    then show ?thesis using Suc.prems(1) by (intro exI [of _ 0]) (auto simp: same_arch_def)
  next
    case False
    then have st: "stall_cause d = WBUF_STALL" using Suc.prems(1) by (auto simp: decoded_def)
    from core_wait_cycle [OF Suc.prems(1) st, of hb arb w] obtain e where
      e: "SNACCCore_step hb arb (d, w) = Some (e, w)" "same_arch d e" "decoded i e" by blast
    have ok: "arb_ok e" using Suc.prems(2) e(2) by (simp add: arb_ok_def same_arch_def)
    have "stall_cause e = NO_STALL \<or> k < 8 \<and>
        isAcquired (WbufArb_step arb + of_nat k) (sc_id e) (wbuf_arb_mode e) (if isa_fn i = 1 \<or> isa_fn i = 3 then WBUF_LOAD else WBUF_STORE)"
      using Suc.prems(3) False e(2) by (simp add: WbufArb_step_def same_arch_def add.assoc)
    from Suc.IH [OF e(3) ok this] obtain n f where
      "n \<le> Suc k" "core_cycles hb (WbufArb_step arb) n (e, w) = Some (f, w)" "same_arch e f" "decoded i f" "stall_cause f = NO_STALL"
      by blast
    then show ?thesis using e same_arch_trans [OF e(2)]
      by (intro exI [of _ "Suc n"] exI [of _ f]) simp
  qed
qed

lemma instruction_executed:
  assumes r: "core_ready c" and b: "bufs_wf (c, w)" and ok: "arb_ok c" and pc: "unat (sc_pc c) < 0x800"
    and i: "i = load16 hb (db_inner (sb_imem (sc_bufs c))) (half_place (unat (sc_pc c)))" and p: "plain_instr i"
  shows "\<exists>n c' w'. 4 \<le> n \<and> n \<le> 12 \<and> core_cycles hb arb n (c, w) = Some (c', w') \<and>
    arch_of (c', w') = isa_step hb i (arch_of (c, w)) \<and> bufs_wf (c', w') \<and>
    (ar_halted (isa_step hb i (arch_of (c, w))) \<or> core_ready c')"
proof -
  obtain c1 where 1: "SNACCCore_step hb arb (c, w) = Some (c1, w)" "same_arch c c1" "sc_status c1 = STAT_ID" "fetch_instr c1 = i"
    "\<not> core_isStall c1" "\<not> halt_issued c1" "\<not> reg_write c1" "\<not> isBranch c1" "mad_rest (sc_mad c1)" "length (sc_regs c1) = 16"
    using fetch_cycle [OF r b pc i] by blast
  obtain c2 where 2: "SNACCCore_step hb (arb + 1) (c1, w) = Some (c2, w)" "same_arch c1 c2" "decoded i c2"
    using decode_cycle [OF 1(3,5,6,7,8,9,10), of hb "arb + 1" w] 1(4) by blast
  have ok2: "arb_ok c2" using ok 1(2) 2(2) by (simp add: arb_ok_def same_arch_def)
  obtain k where k: "k < 8" "isAcquired (arb + 2 + of_nat k) (sc_id c2) (wbuf_arb_mode c2)
      (if isa_fn i = 1 \<or> isa_fn i = 3 then WBUF_LOAD else WBUF_STORE)"
    using arb_turn [OF ok2] by blast
  obtain n c3 where 3: "n \<le> 8" "core_cycles hb (arb + 2) n (c2, w) = Some (c3, w)" "same_arch c2 c3" "decoded i c3"
    "stall_cause c3 = NO_STALL"
  proof -
    have "stall_cause c2 = NO_STALL \<or> k < 8 \<and> isAcquired (arb + 2 + of_nat k) (sc_id c2) (wbuf_arb_mode c2)
        (if isa_fn i = 1 \<or> isa_fn i = 3 then WBUF_LOAD else WBUF_STORE)" using k by blast
    from waits [OF 2(3) ok2 this, of hb w] obtain n c3 where f: "n \<le> Suc k" "core_cycles hb (arb + 2) n (c2, w) = Some (c3, w)"
      "same_arch c2 c3" "decoded i c3" "stall_cause c3 = NO_STALL" by blast
    have "n \<le> 8" using f(1) k(1) by simp
    then show ?thesis by (rule that [OF _ f(2-5)])
  qed
  have s: "same_arch c c3" using same_arch_trans [OF same_arch_trans [OF 1(2) 2(2)] 3(3)] .
  have b3: "bufs_wf (c3, w)" using b same_arch_bufs [OF s] by simp
  obtain c4 w4 where 4: "SNACCCore_step hb (arb + 2 + of_nat n) (c3, w) = Some (c4, w4)"
    "executed hb i (arch_of (c3, w)) (c4, w4)" "sc_status c4 = STAT_WB"
    using core_exec_cycle [OF 3(4,5) b3 p] by blast
  have A: "\<not> ar_halted (arch_of (c3, w))" "length (ar_regs (arch_of (c3, w))) = 16"
    using 3(4) by (simp_all add: ar_sel decoded_def)
  obtain c5 where 5: "SNACCCore_step hb (arb + 2 + of_nat n + 1) (c4, w4) = Some (c5, w4)"
    "arch_of (c5, w4) = isa_step hb i (arch_of (c3, w))" "bufs_wf (c5, w4)"
    "ar_halted (isa_step hb i (arch_of (c3, w))) \<or> core_ready c5"
    using write_cycle [OF 4(2,3) A] by blast
  have "core_cycles hb arb (2 + (n + 2)) (c, w) = Some (c5, w4)"
    using 1(1) 2(1) 3(2) 4(1) 5(1) unfolding core_cycles_add
    by (simp add: numeral_2_eq_2 WbufArb_step_def add.assoc)
  then show ?thesis using 3(1) 5 same_arch_of [OF s, of w]
    by (intro exI [of _ "2 + (n + 2)"] exI [of _ c5] exI [of _ w4]) simp
qed

end
