(* ===== verification/SNACC_Facts.thy ===== *)
theory SNACC_Facts
  imports SNACC SNACC_Exec
begin

unbundle bit_operations_syntax

text \<open>
  What holds of the whole SNACC accelerator in every state that it reaches from reset by cycles and by
  stores of the bus: the grants of the write buffer, and the connection of the banks.
\<close>

section \<open>Runs of the accelerator\<close>

text \<open>The next cycle of the core makes its access to the write buffer.\<close>

definition uses_wbuf :: "snacc_core \<Rightarrow> bool" where
  "uses_wbuf c \<longleftrightarrow> \<not> core_isStall c \<and> sc_status c = STAT_EX \<and> dec_opcode c = 1 \<and> dec_func c \<in> {1, 2, 3, 4} \<and>
     access_mem c = Some WBUF"

text \<open>
  States reached from reset by cycles and any stores of the bus; and those reached by stores that do not
  start a core that was stopped between the grant and the access.
\<close>

inductive snacc_run :: "bool \<Rightarrow> snacc \<Rightarrow> bool" for hb where
  run_reset: "SNACC_setup lat raw info = Some s \<Longrightarrow> snacc_run hb (SNACC_core_reset s)"
| run_cycle: "snacc_run hb s \<Longrightarrow> SNACC_core_step hb s = Some t \<Longrightarrow> snacc_run hb t"
| run_store: "snacc_run hb s \<Longrightarrow> SNACC_store_word hb k off data s = Some t \<Longrightarrow> snacc_run hb t"

inductive snacc_reach :: "bool \<Rightarrow> snacc \<Rightarrow> bool" for hb where
  reach_reset: "SNACC_setup lat raw info = Some s \<Longrightarrow> snacc_reach hb (SNACC_core_reset s)"
| reach_cycle: "snacc_reach hb s \<Longrightarrow> SNACC_core_step hb s = Some t \<Longrightarrow> snacc_reach hb t"
| reach_store: "snacc_reach hb s \<Longrightarrow> SNACC_store_word hb k off data s = Some t \<Longrightarrow>
    (\<forall>i < core_count s. isStart i (sn_conf t) \<and> uses_wbuf (sn_cores s ! i) \<longrightarrow> isStart i (sn_conf s)) \<Longrightarrow> snacc_reach hb t"

section \<open>Frames\<close>

lemma step_core_cases:
  assumes "step_core hb i s = Some t"
  obtains c w where "isStart i (sn_conf s)" "SNACCCore_step hb (sn_arb s) (sn_cores s ! i, sn_wbuf s) = Some (c, w)"
      "sn_cores t = (sn_cores s)[i := c]" "sn_wbuf t = w" "sn_arb t = sn_arb s" "cf_start (sn_conf t) = cf_start (sn_conf s)"
      "sn_conf t = (if sc_done c then setDone i (sn_conf s) else sn_conf s)"
  | "\<not> isStart i (sn_conf s)" "sn_cores t = (sn_cores s)[i := SNACCCore_reset (sn_cores s ! i)]" "sn_wbuf t = sn_wbuf s"
      "sn_arb t = sn_arb s" "sn_conf t = negateDoneClr i (sn_conf s)"
  | "\<not> isStart i (sn_conf s)" "t = s"
proof (cases "isStart i (sn_conf s)")
  case True
  then obtain c w where cw: "SNACCCore_step hb (sn_arb s) (sn_cores s ! i, sn_wbuf s) = Some (c, w)"
    "t = (if sc_done c then set_conf (setDone i) (s\<lparr>sn_cores := (sn_cores s)[i := c], sn_wbuf := w\<rparr>)
      else s\<lparr>sn_cores := (sn_cores s)[i := c], sn_wbuf := w\<rparr>)"
    using assms by (auto simp: step_core_def Let_def split: Option.bind_splits)
  show ?thesis by (rule that(1) [OF True cw(1)]) (simp_all add: cw(2) set_conf_def setDone_def)
next
  case False
  show ?thesis
  proof (cases "isDoneClr i (sn_conf s)")
    case True
    then have "t = set_conf (negateDoneClr i) (s\<lparr>sn_cores := (sn_cores s)[i := SNACCCore_reset (sn_cores s ! i)]\<rparr>)"
      using assms False by (simp add: step_core_def)
    then show ?thesis using that(2) [OF False] by (simp add: set_conf_def)
  next
    case d: False
    then show ?thesis using that(3) [OF False] assms False by (simp add: step_core_def)
  qed
qed

text \<open>The write back and the registers of the multiply-and-add unit do not touch the latches of the decoder.\<close>

lemma mad_step_of_frame:
  "mad_step_of hb c = Some d \<Longrightarrow> \<exists>u r. d = c\<lparr>sc_mad := u, sc_regs := r\<rparr>"
  by (auto simp: mad_step_of_def)

lemma SNACCCore_step_cases:
  assumes "SNACCCore_step hb arb (c, w) = Some (d, w')"
  obtains e u r where "d = e\<lparr>sc_mad := u, sc_regs := r\<rparr>"
    "(\<not> core_isStall c \<and> core_stage hb arb (c, w) = Some (e, w')) \<or> (core_isStall c \<and> e = stall_handle arb c \<and> w' = w)"
proof -
  obtain e where e: "(if \<not> core_isStall c then core_stage hb arb (c, w) else Some (stall_handle arb c, w)) = Some (e, w')"
    "mad_step_of hb e = Some d"
    using assms unfolding SNACCCore_step_def fst_conv snd_conv by (auto split: Option.bind_splits)
  from mad_step_of_frame [OF e(2)] obtain u r where "d = e\<lparr>sc_mad := u, sc_regs := r\<rparr>" by blast
  then show ?thesis using that e(1) by (auto split: if_splits)
qed

section \<open>The grants of the write buffer\<close>

definition stall_ok :: "snacc_core \<Rightarrow> bool" where
  "stall_ok c \<longleftrightarrow> (sc_status c = STAT_EX \<longrightarrow> stall_cause c = NO_STALL \<or> stall_cause c = WBUF_STALL)"

definition granted :: "u8 \<Rightarrow> snacc_core \<Rightarrow> bool" where
  "granted arb c \<longleftrightarrow> (uses_wbuf c \<longrightarrow> (\<exists>access. isAcquired arb (sc_id c) (wbuf_arb_mode c) access))"

lemma uses_frame:
  "uses_wbuf (c\<lparr>sc_mad := u, sc_regs := r\<rparr>) = uses_wbuf c" "stall_ok (c\<lparr>sc_mad := u, sc_regs := r\<rparr>) = stall_ok c"
  "granted arb (c\<lparr>sc_mad := u, sc_regs := r\<rparr>) = granted arb c" "uses_wbuf (c\<lparr>sc_bufs := b\<rparr>) = uses_wbuf c"
  "stall_ok (c\<lparr>sc_bufs := b\<rparr>) = stall_ok c" "granted arb (c\<lparr>sc_bufs := b\<rparr>) = granted arb c"
  by (simp_all add: uses_wbuf_def stall_ok_def granted_def core_isStall_def)

lemma core_op_frame:
  "core_op f c = Some e \<Longrightarrow> sc_id e = sc_id c \<and> sc_bufs e = sc_bufs c"
  by (cases f) (auto simp: result_def snacc_shift_def Mad_op_def Setcr_op_def Let_def split: if_splits)

text \<open>A run of the execution stage neither renames the core nor exchanges banks.\<close>

definition same_banks :: "snacc_core \<times> dbuf \<Rightarrow> snacc_core \<times> dbuf \<Rightarrow> bool" where
  "same_banks s t \<longleftrightarrow> (\<forall>m. db_front_connected (sram_get m t) = db_front_connected (sram_get m s))"

lemma same_banks_bufs: "sc_bufs d = sc_bufs c \<Longrightarrow> same_banks (c, w) (d, w)"
  using sram_get_cong [of d c] by (simp add: same_banks_def)

lemma store_inner_bank:
  "store_word_from_inner hb a v d = Some d' \<Longrightarrow> db_front_connected d' = db_front_connected d"
  "store_half_from_inner hb a h d = Some d' \<Longrightarrow> db_front_connected d' = db_front_connected d"
  by (auto simp: store_word_from_inner_def store_half_from_inner_def set_inner_def Let_def split: if_splits)

lemma put_banks: "db_front_connected d = db_front_connected (sram_get m s) \<Longrightarrow> same_banks s (sram_put m d s)"
  by (simp add: same_banks_def sram_put_get)

lemma put_id: "sc_id (fst (sram_put m d s)) = sc_id (fst s)"
  by (cases s; cases m) simp_all

lemma mem_op_frame:
  assumes "mem_op hb f s = Some t"
  shows "sc_id (fst t) = sc_id (fst s) \<and> same_banks s t"
proof -
  obtain c w where s: "s = (c, w)" by (cases s)
  have op: "sc_id (fst t) = sc_id c \<and> same_banks s t" if "map_option (\<lambda>c. (c, w)) (core_op f c) = Some t"
    using that core_op_frame same_banks_bufs [of _ c w] by (auto simp: s)
  consider "f = Op_Loadw" | "f = Op_Storew" | "f = Op_Loadh" | "f = Op_Storeh"
    | "mem_op hb f s = map_option (\<lambda>c. (c, w)) (core_op f c)"
    by (cases f) (auto simp: s)
  then show ?thesis
  proof cases
    case 1
    with assms show ?thesis
      by (auto simp: s Loadw_op_def result_def split: option.splits intro!: same_banks_bufs)
  next
    case 2
    with assms show ?thesis
      by (auto simp: s Storew_op_def put_id put_banks store_inner_bank same_banks_def [of "(c, w)" "(c, w)"] split: option.splits)
  next
    case 3
    with assms show ?thesis
      by (auto simp: s Loadh_op_def result_def split: option.splits intro!: same_banks_bufs)
  next
    case 4
    with assms show ?thesis
      by (auto simp: s Storeh_op_def Let_def put_id put_banks store_inner_bank same_banks_def [of "(c, w)" "(c, w)"] split: option.splits)
  next
    case 5
    with assms have "map_option (\<lambda>c. (c, w)) (core_op f c) = Some t" by (simp only: s)
    from op [OF this] show ?thesis by (simp only: s fst_conv)
  qed
qed

lemma stall_grants:
  assumes "stall_ok c" "stall_cause c \<noteq> NO_STALL \<or> access_mem c \<noteq> Some WBUF \<or> dec_opcode c \<noteq> 1 \<or> dec_func c \<notin> {1, 2, 3, 4}"
    "sc_status c = STAT_EX"
  shows "granted arb (stall_handle arb c)"
  using assms
  by (auto simp: granted_def uses_wbuf_def stall_ok_def stall_handle_def wbuf_stall_def core_isStall_def split: if_splits)

lemma id_stage_grants:
  assumes "stall_cause c = NO_STALL"
  shows "granted arb ((id_stage arb c)\<lparr>sc_status := STAT_EX\<rparr>)" "stall_ok ((id_stage arb c)\<lparr>sc_status := STAT_EX\<rparr>)"
    "sc_id (id_stage arb c) = sc_id c" "sc_bufs (id_stage arb c) = sc_bufs c"
proof -
  let ?c1 = "decode_fields c"
  define c2 where "c2 = (if dec_opcode ?c1 = 1 then (if dec_func ?c1 \<in> {1, 2, 3, 4} then decode_access ?c1 else ?c1)
    else ?c1\<lparr>access_mem := None\<rparr>)"
  have id: "id_stage arb c = stall_handle arb c2" unfolding id_stage_def c2_def Let_def by (rule refl)
  have s1: "stall_cause ?c1 = NO_STALL" "sc_id ?c1 = sc_id c" "sc_bufs ?c1 = sc_bufs c" using assms by (simp_all add: decode_fields_def Let_def)
  have s2: "stall_cause c2 = NO_STALL \<or> stall_cause c2 = WBUF_STALL" "sc_id c2 = sc_id c" "sc_bufs c2 = sc_bufs c"
    using s1 by (auto simp: c2_def decode_access_def Let_def split: option.splits prod.splits)
  have u: "stall_cause c2 = WBUF_STALL" if "dec_opcode c2 = 1" "dec_func c2 \<in> {1, 2, 3, 4}" "access_mem c2 = Some WBUF"
    using that by (auto simp: c2_def decode_access_def Let_def split: option.splits prod.splits if_splits)
  let ?d = "c2\<lparr>sc_status := STAT_EX\<rparr>"
  have sw: "(stall_handle arb c2)\<lparr>sc_status := STAT_EX\<rparr> = stall_handle arb ?d"
    by (simp add: stall_handle_def wbuf_stall_def split: core_stall.split)
  have "granted arb (stall_handle arb ?d)"
    using u s2(1) by (intro stall_grants) (auto simp: stall_ok_def)
  then show "granted arb ((id_stage arb c)\<lparr>sc_status := STAT_EX\<rparr>)" unfolding id sw .
  obtain st where st: "stall_handle arb c2 = c2\<lparr>stall_cause := st\<rparr>" "st = NO_STALL \<or> st = stall_cause c2"
    using stall_handle_only by blast
  show "stall_ok ((id_stage arb c)\<lparr>sc_status := STAT_EX\<rparr>)" "sc_id (id_stage arb c) = sc_id c" "sc_bufs (id_stage arb c) = sc_bufs c"
    using st s2 unfolding id by (auto simp: stall_ok_def)
qed

text \<open>One cycle of a core: what it accesses next it was granted in this cycle.\<close>

lemma core_step_frame:
  assumes "SNACCCore_step hb arb (c, w) = Some (d, w')" "stall_ok c"
  shows "granted arb d" "stall_ok d" "sc_id d = sc_id c" "same_banks (c, w) (d, w')"
proof -
  have *: "granted arb d \<and> stall_ok d \<and> sc_id d = sc_id c \<and> same_banks (c, w) (d, w')"
  proof (rule SNACCCore_step_cases [OF assms(1)])
    fix e u r assume d: "d = e\<lparr>sc_mad := u, sc_regs := r\<rparr>"
      and e: "(\<not> core_isStall c \<and> core_stage hb arb (c, w) = Some (e, w')) \<or> (core_isStall c \<and> e = stall_handle arb c \<and> w' = w)"
    have sb: "same_banks s (d, w')" if "same_banks s (e, w')" for s
      using that sram_get_cong [of d e] by (simp add: same_banks_def d)
    have "granted arb e \<and> stall_ok e \<and> sc_id e = sc_id c \<and> same_banks (c, w) (e, w')"
    proof (cases "core_isStall c")
      case True
      with e have e': "e = stall_handle arb c" "w' = w" by simp_all
      obtain st where st: "e = c\<lparr>stall_cause := st\<rparr>" "st = NO_STALL \<or> st = stall_cause c"
        using stall_handle_only [of arb c] e'(1) by blast
      have "granted arb e"
      proof (cases "sc_done c \<or> sc_status c \<noteq> STAT_EX")
        case True
        then show ?thesis by (auto simp: st(1) granted_def uses_wbuf_def core_isStall_def)
      next
        case False
        then have "stall_cause c \<noteq> NO_STALL" using \<open>core_isStall c\<close> by (simp add: core_isStall_def)
        with stall_grants [OF assms(2), of arb] False show ?thesis by (simp add: e')
      qed
      moreover have "stall_ok e" using assms(2) st by (auto simp: stall_ok_def)
      ultimately show ?thesis using st(1) e'(2) by (simp add: same_banks_bufs)
    next
      case False
      with e have g: "core_stage hb arb (c, w) = Some (e, w')" by simp
      show ?thesis
      proof (cases "sc_status c")
        case STAT_IF
        with g have "sc_status e = STAT_ID \<and> sc_id e = sc_id c \<and> sc_bufs e = sc_bufs c \<and> w' = w"
          by (auto simp: core_stage_def if_stage_def)
        then show ?thesis by (simp add: granted_def uses_wbuf_def stall_ok_def same_banks_bufs)
      next
        case STAT_ID
        with g have e': "e = (id_stage arb c)\<lparr>sc_status := STAT_EX\<rparr>" "w' = w" by (simp_all add: core_stage_def)
        have n: "stall_cause c = NO_STALL" using False by (simp add: core_isStall_def)
        show ?thesis using id_stage_grants [OF n, of arb] by (simp add: e' same_banks_bufs)
      next
        case STAT_EX
        with g obtain x where x: "ex_stage hb (c, w) = Some (x, w')" "e = x\<lparr>sc_status := STAT_WB\<rparr>"
          by (auto simp: core_stage_def)
        have "same_banks (c, w) (e, w')" "sc_id e = sc_id c"
          using mem_op_frame [OF x(1) [unfolded ex_stage_def]] sram_get_cong [of e x] by (simp_all add: same_banks_def x(2))
        then show ?thesis by (simp add: x(2) granted_def uses_wbuf_def stall_ok_def)
      next
        case STAT_WB
        with g have "sc_status e = STAT_IF \<and> sc_id e = sc_id c \<and> sc_bufs e = sc_bufs c \<and> w' = w"
          by (auto simp: core_stage_def finish_wb_def wb_stage_def Let_def)
        then show ?thesis by (simp add: granted_def uses_wbuf_def stall_ok_def same_banks_bufs)
      qed
    qed
    then show ?thesis using sb by (simp add: d uses_frame)
  qed
  then show "granted arb d" "stall_ok d" "sc_id d = sc_id c" "same_banks (c, w) (d, w')" by simp_all
qed

section \<open>The accelerator\<close>

text \<open>
  Every core has its own index; a started core about to use the write buffer was granted it in the
  cycle before.
\<close>

definition grants_ok :: "snacc \<Rightarrow> bool" where
  "grants_ok s \<longleftrightarrow> (\<forall>i < core_count s. sc_id (sn_cores s ! i) = i \<and> stall_ok (sn_cores s ! i) \<and>
     (isStart i (sn_conf s) \<longrightarrow> granted (sn_arb s - 1) (sn_cores s ! i)))"

text \<open>The same in the middle of a cycle: the cores before \<open>k\<close> have been stepped.\<close>

definition grants_upto :: "nat \<Rightarrow> snacc \<Rightarrow> bool" where
  "grants_upto k s \<longleftrightarrow> (\<forall>i < core_count s. sc_id (sn_cores s ! i) = i \<and> stall_ok (sn_cores s ! i) \<and>
     (i < k \<longrightarrow> isStart i (sn_conf s) \<longrightarrow> granted (sn_arb s) (sn_cores s ! i)))"

text \<open>The bank each select register names is the bank the bus sees.\<close>

definition bank_of :: "sram \<Rightarrow> snacc_conf \<Rightarrow> u32" where
  "bank_of m r =
     (case m of DMEM_U \<Rightarrow> data_db_sel r | DMEM_L \<Rightarrow> data_db_sel r | RBUF_U \<Rightarrow> rbuf_mux_sel r | RBUF_L \<Rightarrow> rbuf_mux_sel r
      | LUT \<Rightarrow> lut_mux_sel r | _ \<Rightarrow> inst_mux_sel r)"

definition banks_ok :: "snacc \<Rightarrow> bool" where
  "banks_ok s \<longleftrightarrow> (\<forall>i < core_count s. \<forall>m. m \<noteq> WBUF \<longrightarrow>
     db_front_connected (buf_of m (sc_bufs (sn_cores s ! i))) = (\<not> getFlag (bank_of m (sn_conf s)) i))"

lemma flag_bit: "getFlag x i = bit x i"
  by (simp add: getFlag_def bit_iff_odd_drop_bit and_one_eq odd_iff_mod_2_eq_one)

lemma flag_xor: "getFlag (x XOR y) i = (getFlag x i \<noteq> getFlag y i)"
  by (simp add: flag_bit bit_xor_iff)

lemma reset_frame:
  "sc_id (SNACCCore_reset c) = sc_id c" "sc_bufs (SNACCCore_reset c) = sc_bufs c" "sc_status (SNACCCore_reset c) = STAT_IF"
  "stall_ok (SNACCCore_reset c)" "granted arb (SNACCCore_reset c)"
  by (simp_all add: SNACCCore_reset_def stall_ok_def granted_def uses_wbuf_def)

lemma banks_get: "m \<noteq> WBUF \<Longrightarrow> sram_get m (c, w) = buf_of m (sc_bufs c)"
  by (cases m) (simp_all add: buf_of_def)

definition cores_ok :: "snacc \<Rightarrow> bool" where
  "cores_ok s \<longleftrightarrow> (\<forall>i < core_count s. stall_ok (sn_cores s ! i))"

lemma step_core_banks:
  assumes "step_core hb k s = Some t" "k < core_count s" "cores_ok s" "banks_ok s"
  shows "cores_ok t \<and> banks_ok t \<and> core_count t = core_count s \<and> sn_arb t = sn_arb s"
proof (rule step_core_cases [OF assms(1)])
  fix c w assume a: "isStart k (sn_conf s)" "SNACCCore_step hb (sn_arb s) (sn_cores s ! k, sn_wbuf s) = Some (c, w)"
      "sn_cores t = (sn_cores s)[k := c]" "sn_wbuf t = w" "sn_arb t = sn_arb s" "cf_start (sn_conf t) = cf_start (sn_conf s)"
      "sn_conf t = (if sc_done c then setDone k (sn_conf s) else sn_conf s)"
  have k: "stall_ok (sn_cores s ! k)" using assms(2,3) by (simp add: cores_ok_def)
  note f = core_step_frame [OF a(2) k(1)]
  have "cores_ok t"
    using assms(2,3) a(3) f by (auto simp: cores_ok_def core_count_def nth_list_update)
  moreover have "bank_of m (sn_conf t) = bank_of m (sn_conf s)" for m by (simp add: a(7) bank_of_def setDone_def split: sram.split)
  moreover have "db_front_connected (buf_of m (sc_bufs c)) = db_front_connected (buf_of m (sc_bufs (sn_cores s ! k)))"
    if "m \<noteq> WBUF" for m
    using f(4) banks_get [OF that] by (simp add: same_banks_def) (metis banks_get that)
  ultimately show ?thesis using assms(2,4) a(3,5)
    by (auto simp: banks_ok_def core_count_def nth_list_update)
next
  assume a: "\<not> isStart k (sn_conf s)" "sn_cores t = (sn_cores s)[k := SNACCCore_reset (sn_cores s ! k)]" "sn_wbuf t = sn_wbuf s"
      "sn_arb t = sn_arb s" "sn_conf t = negateDoneClr k (sn_conf s)"
  then show ?thesis using assms(2,3,4)
    by (auto simp: cores_ok_def banks_ok_def core_count_def nth_list_update negateDoneClr_def
        reset_frame bank_of_def split: sram.splits)
next
  assume "\<not> isStart k (sn_conf s)" "t = s"
  then show ?thesis using assms by simp
qed

lemma step_core_grants:
  assumes "step_core hb k s = Some t" "k < core_count s" "grants_upto k s"
  shows "grants_upto (Suc k) t"
proof (rule step_core_cases [OF assms(1)])
  fix c w assume a: "isStart k (sn_conf s)" "SNACCCore_step hb (sn_arb s) (sn_cores s ! k, sn_wbuf s) = Some (c, w)"
      "sn_cores t = (sn_cores s)[k := c]" "sn_wbuf t = w" "sn_arb t = sn_arb s" "cf_start (sn_conf t) = cf_start (sn_conf s)"
  have k: "stall_ok (sn_cores s ! k)" "sc_id (sn_cores s ! k) = k" using assms(2,3) by (simp_all add: grants_upto_def)
  note f = core_step_frame [OF a(2) k(1)]
  show ?thesis
    using assms(2,3) a(3,5,6) f k(2) by (auto simp: grants_upto_def core_count_def nth_list_update less_Suc_eq isStart_def)
next
  assume a: "\<not> isStart k (sn_conf s)" "sn_cores t = (sn_cores s)[k := SNACCCore_reset (sn_cores s ! k)]" "sn_wbuf t = sn_wbuf s"
      "sn_arb t = sn_arb s" "sn_conf t = negateDoneClr k (sn_conf s)"
  then show ?thesis using assms(2,3)
    by (auto simp: grants_upto_def core_count_def nth_list_update less_Suc_eq isStart_def negateDoneClr_def reset_frame)
next
  assume "\<not> isStart k (sn_conf s)" "t = s"
  then show ?thesis using assms by (auto simp: grants_upto_def less_Suc_eq)
qed

lemma step_cores_same: "step_cores hb ks s = Some u \<Longrightarrow> core_count u = core_count s \<and> sn_arb u = sn_arb s"
proof (induction ks arbitrary: s)
  case (Cons k ks)
  then obtain v where v: "step_core hb k s = Some v" "step_cores hb ks v = Some u"
    by (auto split: Option.bind_splits)
  have "core_count v = core_count s \<and> sn_arb v = sn_arb s"
    using v(1) by (rule step_core_cases) (simp_all add: core_count_def)
  with Cons.IH [OF v(2)] show ?case by simp
qed simp

lemma step_cores_banks:
  assumes "step_cores hb ks s = Some t" "\<forall>k \<in> set ks. k < core_count s" "cores_ok s" "banks_ok s"
  shows "cores_ok t \<and> banks_ok t \<and> core_count t = core_count s \<and> sn_arb t = sn_arb s"
  using assms
proof (induction ks arbitrary: s)
  case (Cons k ks)
  then obtain u where u: "step_core hb k s = Some u" "step_cores hb ks u = Some t"
    by (auto split: Option.bind_splits)
  from step_core_banks [OF u(1) _ Cons.prems(3,4)] Cons.prems(2)
  have f: "cores_ok u" "banks_ok u" "core_count u = core_count s" "sn_arb u = sn_arb s" by simp_all
  show ?case using Cons.IH [OF u(2)] Cons.prems(2) f by simp
qed simp

lemma grants_cores: "grants_upto k s \<Longrightarrow> cores_ok s"
  by (simp add: grants_upto_def cores_ok_def)

lemma step_cores_grants:
  assumes "step_cores hb [k..<n] s = Some t" "k \<le> n" "n = core_count s" "grants_upto k s"
  shows "grants_upto n t"
  using assms
proof (induction "n - k" arbitrary: k s)
  case 0
  then show ?case by simp
next
  case (Suc m)
  then have "[k..<n] = k # [Suc k..<n]" by (simp add: upt_conv_Cons)
  with Suc.prems(1) obtain u where u: "step_core hb k s = Some u" "step_cores hb [Suc k..<n] u = Some t"
    by (auto split: Option.bind_splits)
  have kn: "k < core_count s" using Suc.hyps(2) Suc.prems(3) by simp
  have "core_count u = core_count s" using u(1) by (rule step_core_cases) (simp_all add: core_count_def)
  then show ?case
    using Suc.hyps(1) [of "Suc k" u] Suc.hyps(2) Suc.prems(3) u(2) step_core_grants [OF u(1) kn Suc.prems(4)] by simp
qed

lemma cycle_banks:
  assumes "SNACC_core_step hb s = Some t" "cores_ok s" "banks_ok s"
  shows "cores_ok t \<and> banks_ok t"
proof -
  obtain u where u: "step_cores hb [0..<core_count s] s = Some u" "t = u\<lparr>sn_arb := sn_arb u + 1\<rparr>"
    using assms(1) by (auto simp: SNACC_core_step_def WbufArb_step_def)
  from step_cores_banks [OF u(1) _ assms(2,3)] show ?thesis
    by (auto simp: u(2) cores_ok_def banks_ok_def core_count_def)
qed

lemma cycle_grants:
  assumes "SNACC_core_step hb s = Some t" "grants_ok s"
  shows "grants_ok t"
proof -
  obtain u where u: "step_cores hb [0..<core_count s] s = Some u" "t = u\<lparr>sn_arb := sn_arb u + 1\<rparr>"
    using assms(1) by (auto simp: SNACC_core_step_def WbufArb_step_def)
  have g: "grants_upto 0 s" using assms(2) by (simp add: grants_ok_def grants_upto_def)
  have "core_count u = core_count s \<and> sn_arb u = sn_arb s" by (rule step_cores_same [OF u(1)])
  with step_cores_grants [OF u(1) _ refl g] show ?thesis
    by (auto simp: u(2) grants_ok_def grants_upto_def core_count_def)
qed

lemma store_in_core_frame:
  assumes "store_in_core hb m off data c = Some d"
  shows "\<exists>b. d = c\<lparr>sc_bufs := b\<rparr> \<and> (\<forall>n. n \<noteq> WBUF \<longrightarrow> db_front_connected (buf_of n b) = db_front_connected (buf_of n (sc_bufs c)))"
proof -
  obtain x where x: "dbuf_store_word hb (buf_of m (sc_bufs c)) off data = Some x" "d = c\<lparr>sc_bufs := put_buf m x (sc_bufs c)\<rparr>"
    using assms by (auto simp: store_in_core_def)
  have "db_front_connected x = db_front_connected (buf_of m (sc_bufs c))"
    using x(1) by (auto simp: dbuf_store_word_def set_outer_def Let_def split: if_splits)
  then have "db_front_connected (buf_of n (put_buf m x (sc_bufs c))) = db_front_connected (buf_of n (sc_bufs c))" if "n \<noteq> WBUF" for n
    using that by (cases m; cases n) (simp_all add: put_buf_def buf_of_def)
  with x(2) show ?thesis by blast
qed

text \<open>Stores of the bus change no core beyond its buffers.\<close>

definition same_cores :: "snacc \<Rightarrow> snacc \<Rightarrow> bool" where
  "same_cores s t \<longleftrightarrow> core_count t = core_count s \<and> sn_arb t = sn_arb s \<and>
     (\<forall>i < core_count s. \<exists>b. sn_cores t ! i = (sn_cores s ! i)\<lparr>sc_bufs := b\<rparr>)"

lemma same_cores_refl: "same_cores s s"
  unfolding same_cores_def
proof (intro conjI allI impI refl)
  show "\<exists>b. sn_cores s ! i = (sn_cores s ! i)\<lparr>sc_bufs := b\<rparr>" for i
    by (rule exI [of _ "sc_bufs (sn_cores s ! i)"]) simp
qed

lemma bcast_store_frame:
  assumes "bcast_store hb m off data cs = Some ds"
  shows "length ds = length cs \<and> (\<forall>i < length cs. \<exists>b. ds ! i = (cs ! i)\<lparr>sc_bufs := b\<rparr> \<and>
    (\<forall>n. n \<noteq> WBUF \<longrightarrow> db_front_connected (buf_of n b) = db_front_connected (buf_of n (sc_bufs (cs ! i)))))"
  using assms
proof (induction cs arbitrary: ds)
  case (Cons c cs)
  then obtain d es where d: "store_in_core hb m off data c = Some d" "bcast_store hb m off data cs = Some es" "ds = d # es"
    by (auto split: Option.bind_splits)
  show ?case
  proof (intro conjI allI impI)
    show "length ds = length (c # cs)" using Cons.IH [OF d(2)] d(3) by simp
    fix i assume "i < length (c # cs)"
    then show "\<exists>b. ds ! i = ((c # cs) ! i)\<lparr>sc_bufs := b\<rparr> \<and>
        (\<forall>n. n \<noteq> WBUF \<longrightarrow> db_front_connected (buf_of n b) = db_front_connected (buf_of n (sc_bufs ((c # cs) ! i))))"
      using Cons.IH [OF d(2)] store_in_core_frame [OF d(1)] d(3) by (cases i) simp_all
  qed
qed simp

lemma switch_banks_simps [simp]:
  "core_count (switch_banks upd bm s) = core_count s" "sn_arb (switch_banks upd bm s) = sn_arb s"
  "sn_conf (switch_banks upd bm s) = sn_conf s" "sn_wbuf (switch_banks upd bm s) = sn_wbuf s"
  "i < core_count s \<Longrightarrow> sn_cores (switch_banks upd bm s) ! i =
    (if getFlag bm i then (sn_cores s ! i)\<lparr>sc_bufs := upd buf_switch (sc_bufs (sn_cores s ! i))\<rparr> else sn_cores s ! i)"
  by (simp_all add: switch_banks_def core_count_def nth_enumerate_eq)

lemma set_conf_simps [simp]:
  "core_count (set_conf f s) = core_count s" "sn_arb (set_conf f s) = sn_arb s" "sn_cores (set_conf f s) = sn_cores s"
  "sn_conf (set_conf f s) = f (sn_conf s)" "sn_wbuf (set_conf f s) = sn_wbuf s"
  by (simp_all add: set_conf_def core_count_def)

lemma switch_same_cores: "same_cores s t \<Longrightarrow> same_cores s (switch_banks upd bm t)"
  by (fastforce simp: same_cores_def)

lemma conf_store_same_cores: "same_cores s (conf_store_word off data s)"
proof -
  have 0: "same_cores s s" by (rule same_cores_refl)
  have 1: "same_cores s (set_conf f t)" if "same_cores s t" for f t using that by (simp add: same_cores_def)
  have 2: "same_cores s (s\<lparr>sn_wbuf := d\<rparr>)" for d using 0 by (simp add: same_cores_def core_count_def)
  show ?thesis unfolding conf_store_word_def Let_def
    by (simp add: 0 1 2 switch_same_cores)
qed

lemma banks_ok_same:
  assumes "banks_ok s" "sn_cores t = sn_cores s" "\<And>m. bank_of m (sn_conf t) = bank_of m (sn_conf s)"
  shows "banks_ok t"
  using assms by (simp add: banks_ok_def core_count_def)

lemma conf_store_banks:
  assumes "banks_ok s"
  shows "banks_ok (conf_store_word off data s)"
proof -
  let ?w = "data AND bitmap_mask (sn_conf s)"
  consider "off = 0x10" | "off = 0x18" | "off = 0x1C" | "off = 0x20" | "off = 0x14"
    | "off \<notin> {0x10, 0x14, 0x18, 0x1C, 0x20}" by auto
  then show ?thesis
  proof cases
    case 5
    show ?thesis by (rule banks_ok_same [OF assms]) (simp_all add: 5 conf_store_word_def Let_def bank_of_def split: sram.split)
  next
    case 6
    show ?thesis
      by (rule banks_ok_same [OF assms]; use 6 in \<open>simp add: conf_store_word_def Let_def bank_of_def split: sram.split\<close>)
  qed (use assms in \<open>auto simp: banks_ok_def conf_store_word_def Let_def bank_of_def buf_of_def flag_xor buf_switch_def
      split: sram.splits if_splits\<close>)
qed

lemma store_ok:
  assumes "SNACC_store_word hb k off data s = Some t" "banks_ok s"
  shows "same_cores s t \<and> banks_ok t"
proof (cases k)
  case (Core_buf i m)
  with assms(1) obtain c where c: "store_in_core hb m off data (sn_cores s ! i) = Some c" "t = s\<lparr>sn_cores := (sn_cores s)[i := c]\<rparr>"
    by auto
  from store_in_core_frame [OF c(1)] obtain b where b: "c = (sn_cores s ! i)\<lparr>sc_bufs := b\<rparr>"
    "\<forall>n. n \<noteq> WBUF \<longrightarrow> db_front_connected (buf_of n b) = db_front_connected (buf_of n (sc_bufs (sn_cores s ! i)))" by blast
  have "\<exists>b'. sn_cores t ! j = (sn_cores s ! j)\<lparr>sc_bufs := b'\<rparr>" if j: "j < core_count s" for j
  proof (cases "j = i")
    case True
    then show ?thesis using b(1) j by (auto simp: c(2) core_count_def)
  next
    case False
    then show ?thesis using same_cores_refl [of s] j by (simp add: same_cores_def c(2))
  qed
  then have "same_cores s t" by (simp add: same_cores_def c(2) core_count_def)
  moreover have "banks_ok t" unfolding banks_ok_def
  proof (intro allI impI)
    fix j n assume j: "j < core_count t" and n: "n \<noteq> WBUF"
    have "sn_cores t ! j = (if j = i then c else sn_cores s ! j)" "j < core_count s" "sn_conf t = sn_conf s"
      using j by (auto simp: c(2) core_count_def)
    with assms(2) b n show "db_front_connected (buf_of n (sc_bufs (sn_cores t ! j))) = (\<not> getFlag (bank_of n (sn_conf t)) j)"
      by (simp add: banks_ok_def)
  qed
  ultimately show ?thesis by blast
next
  case Shared_wbuf
  with assms same_cores_refl [of s] show ?thesis
    by (auto simp: same_cores_def core_count_def banks_ok_def)
next
  case Conf_reg
  with assms conf_store_same_cores conf_store_banks show ?thesis by auto
next
  case (Bcast m)
  with assms(1) obtain cs where c: "bcast_store hb m off data (sn_cores s) = Some cs" "t = s\<lparr>sn_cores := cs\<rparr>" by auto
  note f = bcast_store_frame [OF c(1)]
  have "same_cores s t" using f by (auto simp: same_cores_def c(2) core_count_def)
  moreover have "banks_ok t" unfolding banks_ok_def
  proof (intro allI impI)
    fix i n assume "i < core_count t" "n \<noteq> WBUF"
    with f assms(2) show "db_front_connected (buf_of n (sc_bufs (sn_cores t ! i))) = (\<not> getFlag (bank_of n (sn_conf t)) i)"
      by (fastforce simp: c(2) core_count_def banks_ok_def)
  qed
  ultimately show ?thesis by blast
qed

lemma same_cores_grants:
  assumes "same_cores s t" "grants_ok s"
    and "\<forall>i < core_count s. isStart i (sn_conf t) \<and> uses_wbuf (sn_cores s ! i) \<longrightarrow> isStart i (sn_conf s)"
  shows "grants_ok t"
  unfolding grants_ok_def
proof (intro allI impI conjI)
  fix i assume "i < core_count t"
  then have i: "i < core_count s" using assms(1) by (simp add: same_cores_def)
  obtain b where b: "sn_cores t ! i = (sn_cores s ! i)\<lparr>sc_bufs := b\<rparr>" using assms(1) i by (auto simp: same_cores_def)
  show "sc_id (sn_cores t ! i) = i" "stall_ok (sn_cores t ! i)" using assms(2) i by (simp_all add: grants_ok_def b uses_frame)
  assume st: "isStart i (sn_conf t)"
  have "granted (sn_arb s - 1) (sn_cores s ! i)"
  proof (cases "uses_wbuf (sn_cores s ! i)")
    case True
    then have "isStart i (sn_conf s)" using assms(3) i st by blast
    then show ?thesis using assms(2) i by (simp add: grants_ok_def)
  qed (simp add: granted_def)
  then show "granted (sn_arb t - 1) (sn_cores t ! i)" using assms(1) by (simp add: b uses_frame same_cores_def)
qed

lemma same_cores_cores:
  assumes "same_cores s t" "cores_ok s"
  shows "cores_ok t"
  unfolding cores_ok_def
proof (intro allI impI)
  fix i assume "i < core_count t"
  then have i: "i < core_count s" using assms(1) by (simp add: same_cores_def)
  obtain b where b: "sn_cores t ! i = (sn_cores s ! i)\<lparr>sc_bufs := b\<rparr>" using assms(1) i by (auto simp: same_cores_def)
  show "stall_ok (sn_cores t ! i)" using assms(2) i by (simp add: cores_ok_def b uses_frame)
qed

lemma setup_ok:
  assumes "SNACC_setup lat raw info = Some s"
  shows "grants_ok (SNACC_core_reset s) \<and> banks_ok (SNACC_core_reset s)"
proof -
  obtain d where d: "DoubleBuffer_new 0x800 0xFFFFFFFF None = Some d" by (simp add: DoubleBuffer_new_def Let_def)
  then have fd: "db_front_connected d" by (auto simp: DoubleBuffer_new_def Let_def)
  have s: "sn_cores s = map (\<lambda>(i, c). SNACCCore_new i lat \<lparr>sb_dmem_u = d, sb_dmem_l = d, sb_rbuf_u = d, sb_rbuf_l = d, sb_lut = d,
      sb_imem = d\<rparr> c) (enumerate 0 raw)" "sn_conf s = ConfRegCtrl_new (length raw) info"
    using assms by (auto simp: SNACC_setup_def snacc_bufs_new_def d)
  have z: "getFlag 0 i = False" for i by (simp add: getFlag_def)
  show ?thesis using fd
    by (auto simp: grants_ok_def banks_ok_def SNACC_core_reset_def core_count_def s reset_frame nth_enumerate_eq SNACCCore_new_def
        ConfRegCtrl_new_def isStart_def z bank_of_def buf_of_def split: sram.split)
qed

lemma run_ok: "snacc_run hb s \<Longrightarrow> cores_ok s \<and> banks_ok s"
proof (induction rule: snacc_run.induct)
  case (run_reset lat raw info s)
  then show ?case using setup_ok by (auto simp: grants_ok_def cores_ok_def)
next
  case (run_cycle s t)
  then show ?case using cycle_banks by blast
next
  case (run_store s k off data t)
  then show ?case using store_ok same_cores_cores by blast
qed

lemma reach_run: "snacc_reach hb s \<Longrightarrow> snacc_run hb s"
  by (induction rule: snacc_reach.induct) (auto intro: snacc_run.intros)

lemma reach_ok: "snacc_reach hb s \<Longrightarrow> grants_ok s"
proof (induction rule: snacc_reach.induct)
  case (reach_reset lat raw info s)
  then show ?case using setup_ok by blast
next
  case (reach_cycle s t)
  then show ?case using cycle_grants by blast
next
  case (reach_store s k off data t)
  have "banks_ok s" using run_ok reach_run [OF reach_store.hyps(1)] by blast
  with reach_store show ?case using store_ok same_cores_grants by blast
qed

lemma acquired_once:
  "isAcquired a n m x \<Longrightarrow> isAcquired a n' m x' \<Longrightarrow> m \<noteq> 1 \<Longrightarrow> n = n'"
  by (auto simp: isAcquired_def Let_def split: if_splits wbuf_access.splits)

lemma access_once:
  assumes "snacc_reach hb s" "i < core_count s" "j < core_count s" "isStart i (sn_conf s)" "isStart j (sn_conf s)"
    "uses_wbuf (sn_cores s ! i)" "uses_wbuf (sn_cores s ! j)"
    "wbuf_arb_mode (sn_cores s ! i) = wbuf_arb_mode (sn_cores s ! j)" "wbuf_arb_mode (sn_cores s ! j) \<noteq> 1"
  shows "i = j"
proof -
  have g: "grants_ok s" by (rule reach_ok [OF assms(1)])
  obtain x where x: "isAcquired (sn_arb s - 1) i (wbuf_arb_mode (sn_cores s ! j)) x"
    using g assms(2,4,6,8) unfolding grants_ok_def granted_def by metis
  obtain y where y: "isAcquired (sn_arb s - 1) j (wbuf_arb_mode (sn_cores s ! j)) y"
    using g assms(3,5,7) unfolding grants_ok_def granted_def by metis
  show ?thesis by (rule acquired_once [OF x y assms(9)])
qed

end
