(* ===== verification/SNACC_MadFacts.thy ===== *)
theory SNACC_MadFacts
  imports SNACC_Mad ALU_Facts
begin

unbundle bit_operations_syntax

text \<open>
  The arithmetic of the fixed-point numbers as integers, and the runs of the multiply-and-add unit: a loop
  over rows of four lanes in 16-bit mode leaves the dot product in its register, as long as no partial sum
  saturates, after a number of cycles bounded by the latency of the memories.
\<close>

section \<open>Fixed-point numbers as integers\<close>

lemma sint16_range: "- (2 ^ 15) \<le> sint (x :: u16)" "sint (x :: u16) < 2 ^ 15"
  using sint_range_size [of x] by (simp_all add: word_size)

lemma sint_of_int32: "- (2 ^ 31) \<le> k \<Longrightarrow> k < 2 ^ 31 \<Longrightarrow> sint (word_of_int k :: u32) = k"
  using signed_wrap [of k] by (simp add: signed_of_int)

lemma fixed_add_value:
  "sint (fixed_add a b) =
     (if sint a + sint b \<ge> 2 ^ 31 then 2 ^ 31 - 1
      else if sint a + sint b = - (2 ^ 32) then 0
      else if sint a + sint b < - (2 ^ 31) then - (2 ^ 31)
      else sint a + sint b)"
proof -
  define p where "p = sint a"
  define q where "q = sint b"
  define s where "s = sint (a + b)"
  have c: "sint (0x7FFFFFFF :: u32) = 2147483647" "sint (0x80000000 :: u32) = - 2147483648"
    by (simp_all add: sint_uint)
  have f: "sint (fixed_add a b) = (if p < 0 \<and> q < 0 \<and> (if p > 0 \<and> q > 0 \<and> s < 0 then 2147483647 else s) > 0 then - 2147483648
      else if p > 0 \<and> q > 0 \<and> s < 0 then 2147483647 else s)"
    by (simp add: fixed_add_def Let_def c p_def q_def s_def)
  have s: "s = (if p + q < - 2147483648 then p + q + 4294967296 else if 2147483648 \<le> p + q then p + q - 4294967296 else p + q)"
    using signed_wrap [of "p + q"] sint_u32_range [of a] sint_u32_range [of b]
    by (simp add: s_def sint_add_wrap p_def q_def)
  have r: "- 2147483648 \<le> p" "p < 2147483648" "- 2147483648 \<le> q" "q < 2147483648"
    using sint_u32_range [of a] sint_u32_range [of b] by (simp_all add: p_def q_def)
  show ?thesis unfolding f p_def [symmetric] q_def [symmetric] s using r by simp
qed

lemma fixed_mul_value: "sint (fixed_mul a b) = sint a * sint b"
proof -
  have "fixed_mul a b = word_of_int (sint a * sint b)" 
    unfolding fixed_mul_def scast_eq by (simp only: of_int_mult)
  moreover have "\<bar>sint a * sint b\<bar> \<le> 2 ^ 15 * 2 ^ 15"
    unfolding abs_mult using sint16_range [of a] sint16_range [of b] by (intro mult_mono) auto
  ultimately show ?thesis using sint_of_int32 [of "sint a * sint b"] by (simp add: abs_le_iff)
qed

lemma from_register_value: "sint (FromRegisterFormat x) = sint x div 16"
  by (simp add: FromRegisterFormat_def sint_signed_drop_bit_eq drop_bit_eq_div)

lemma clip_value:
  "sint (ToRegisterFormat x) =
     (if sint x < - (2 ^ 27) then - (2 ^ 31) else if sint x \<ge> 2 ^ 27 then 2 ^ 31 - 1 else 16 * sint x)"
proof -
  have top: "x AND 0xF8000000 = push_bit 27 (drop_bit 27 x)" by (simp add: bit_blast)
  have u: "unat (x AND 0xF8000000) = 2 ^ 27 * (unat x div 2 ^ 27)"
  proof -
    have "unat x < 2 ^ 32" using unsigned_less [of x] by simp
    then have l: "unat x div 2 ^ 27 < 32" by (intro less_mult_imp_div_less) simp
    show ?thesis unfolding top
      by (simp only: push_bit_eq_mult unat_word_ariths unat_drop_bit_eq drop_bit_eq_div [where ?'a = nat])
        (use l in simp)
  qed
  have n: "unat x < 4294967296" using unsigned_less [of x] by simp
  have sx: "sint x = (if unat x < 2147483648 then int (unat x) else int (unat x) - 4294967296)"
  proof -
    have l: "uint x < 4294967296" using uint_bounded [of x] by simp
    have g: "- 4294967296 \<le> uint x" by (rule order_trans [OF _ uint_ge_0]) simp
    have h: "unat x < 2147483648 \<longleftrightarrow> uint x < 2147483648" unfolding uint_nat by linarith
    have w: "signed_take_bit 31 (uint x) = (if uint x < 2147483648 then uint x else uint x - 4294967296)"
      using signed_wrap [of "uint x"] l g uint_ge_0 [of x] by (simp add: not_le)
    show ?thesis unfolding h using w by (simp add: sint_uint)
  qed
  have z: "x AND 0xF8000000 = 0 \<longleftrightarrow> unat x < 134217728"
    unfolding word_unat_eq_iff u by (simp add: div_eq_0_iff)
  have o: "x AND 0xF8000000 = 0xF8000000 \<longleftrightarrow> unat x \<ge> 4160749568"
  proof -
    have "x AND 0xF8000000 = 0xF8000000 \<longleftrightarrow> unat x div 134217728 = 31" unfolding word_unat_eq_iff u by simp
    also have "\<dots> \<longleftrightarrow> unat x \<ge> 4160749568" using n by linarith
    finally show ?thesis .
  qed
  have m: "x AND 0x80000000 = 0 \<longleftrightarrow> unat x < 2147483648"
  proof -
    have "x AND 0x80000000 = 0 \<longleftrightarrow> \<not> bit x 31" by (simp add: bit_blast)
    also have "bit x 31 \<longleftrightarrow> bit (unat x) 31" by (simp add: bit_unsigned_iff)
    also have "\<dots> \<longleftrightarrow> odd (unat x div 2147483648)" by (simp add: bit_iff_odd)
    also have "(\<not> odd (unat x div 2147483648)) \<longleftrightarrow> unat x < 2147483648"
    proof -
      have "unat x div 2147483648 = 0 \<or> unat x div 2147483648 = 1" using n by linarith
      then show ?thesis by (auto simp: div_eq_0_iff)
    qed
    finally show ?thesis .
  qed
  have sh: "push_bit 4 x = word_of_int (16 * sint x)" by (simp add: push_bit_eq_mult mult.commute)
  have c: "sint (0x7FFFFFFF :: u32) = 2147483647" "sint (0x80000000 :: u32) = - 2147483648"
    by (simp_all add: sint_uint)
  define v where "v = sint x"
  have v: "v = (if unat x < 2147483648 then int (unat x) else int (unat x) - 4294967296)" by (simp only: v_def sx)
  have z': "unat x < 134217728 \<longleftrightarrow> 0 \<le> v \<and> v < 134217728" and o': "unat x \<ge> 4160749568 \<longleftrightarrow> - 134217728 \<le> v \<and> v < 0"
    and m': "unat x < 2147483648 \<longleftrightarrow> 0 \<le> v"
  proof -
    consider "unat x < 2147483648" "v = int (unat x)" | "\<not> unat x < 2147483648" "v = int (unat x) - 4294967296"
      using v by argo
    then show "unat x < 134217728 \<longleftrightarrow> 0 \<le> v \<and> v < 134217728" "unat x \<ge> 4160749568 \<longleftrightarrow> - 134217728 \<le> v \<and> v < 0"
      "unat x < 2147483648 \<longleftrightarrow> 0 \<le> v"
      using n by (cases; linarith)+
  qed
  show ?thesis
    unfolding ToRegisterFormat_def SignedClipMostSignificant4Bits_def z o m sh z' o' m' v_def [symmetric]
    using sint_of_int32 [of "16 * v"] by (auto simp: c)
qed

section \<open>Dot products\<close>

text \<open>The products of one row, and of \<open>n\<close> rows: the lanes in use, in order.\<close>

definition row_products :: "bool list \<Rightarrow> fixed16 list \<Rightarrow> fixed16 list \<Rightarrow> int list" where
  "row_products msk w x = map (\<lambda>i. sint (w ! i) * sint (x ! i)) (filter (\<lambda>i. msk ! i) [0..<4])"

primrec products :: "bool \<Rightarrow> bool list \<Rightarrow> snacc_bufs \<Rightarrow> u32 \<Rightarrow> u32 \<Rightarrow> nat \<Rightarrow> u32 \<Rightarrow> u32 \<Rightarrow> int list option" where
  "products hb msk m dstep rstep 0 d r = Some []"
| "products hb msk m dstep rstep (Suc n) d r = do {
     w \<leftarrow> load_lanes (load_half hb (sb_rbuf_u m) (sb_rbuf_l m)) r 2 4;
     x \<leftarrow> load_lanes (load_half hb (sb_dmem_u m) (sb_dmem_l m)) d 2 4;
     ps \<leftarrow> products hb msk m dstep rstep n (d + dstep) (r + rstep);
     Some (row_products msk w x @ ps)
   }"

lemma abs_sum_list_le: "\<bar>sum_list ps\<bar> \<le> sum_list (map abs (ps :: int list))"
  by (induction ps) auto

text \<open>Without saturation the lanes add up.\<close>

lemma mad_lanes_sum:
  assumes "\<bar>sint acc\<bar> + (\<Sum>i\<leftarrow>filter (\<lambda>i. msk ! i) ls. \<bar>sint (w i) * sint (x i)\<bar>) < 2 ^ 31"
  shows "sint (mad_lanes msk w x ls acc) = sint acc + (\<Sum>i\<leftarrow>filter (\<lambda>i. msk ! i) ls. sint (w i) * sint (x i))"
  using assms
proof (induction ls arbitrary: acc)
  case (Cons i ls)
  show ?case
  proof (cases "msk ! i")
    case True
    have nn: "0 \<le> (\<Sum>i\<leftarrow>filter (\<lambda>i. msk ! i) ls. \<bar>sint (w i) * sint (x i)\<bar>)" by (rule sum_list_nonneg) auto
    have s: "sint (fixed_add acc (fixed_mul (w i) (x i))) = sint acc + sint (w i) * sint (x i)"
      using Cons.prems True nn by (simp add: fixed_add_value fixed_mul_value abs_if split: if_splits)
    have b: "\<bar>sint (fixed_add acc (fixed_mul (w i) (x i)))\<bar> + (\<Sum>i\<leftarrow>filter (\<lambda>i. msk ! i) ls. \<bar>sint (w i) * sint (x i)\<bar>) < 2 ^ 31"
      using Cons.prems True abs_triangle_ineq [of "sint acc" "sint (w i) * sint (x i)"] by (simp add: s)
    from Cons.IH [OF b] True s show ?thesis by (simp add: mad_lanes_def)
  next
    case False
    with Cons.IH [of acc] Cons.prems show ?thesis by (simp add: mad_lanes_def)
  qed
qed (simp add: mad_lanes_def)

lemma lower_lanes_upt: "lower_lanes = [0..<4]"
  by (simp add: lower_lanes_def)

section \<open>Cycles of the unit\<close>

primrec mad_cycles :: "bool \<Rightarrow> bool list \<Rightarrow> snacc_bufs \<Rightarrow> nat \<Rightarrow> mad_unit \<times> mad_regs \<Rightarrow> (mad_unit \<times> mad_regs) option" where
  "mad_cycles hb msk m 0 s = Some s"
| "mad_cycles hb msk m (Suc n) s = Option.bind (MadUnit_step hb msk m s) (mad_cycles hb msk m n)"

lemma mad_cycles_add: "mad_cycles hb msk m (a + b) s = Option.bind (mad_cycles hb msk m a s) (mad_cycles hb msk m b)"
  by (induction a arbitrary: s) (simp_all split: Option.bind_split)

text \<open>A stall lasts one cycle longer than the memories still take.\<close>

lemma stall_cycles:
  assumes "mad_state u = MAD_DSTALL" "mad_next u = MAD_DSTALL" "unat (wait_data_cycle u) = k"
  shows "mad_cycles hb msk m (Suc k) (u, r) = Some (u\<lparr>mad_state := MAD_EX, mad_next := MAD_EX, wait_data_cycle := 0\<rparr>, r)"
  using assms
proof (induction k arbitrary: u)
  case 0
  then have "wait_data_cycle u = 0" by (simp add: unat_eq_0)
  with 0 show ?case by (simp add: MadUnit_step_def mad_tick_def Let_def)
next
  case (Suc k)
  then have w: "wait_data_cycle u \<noteq> 0" by auto
  have "unat (wait_data_cycle u - 1) = k" using Suc.prems(3) w by (simp add: unat_minus_one)
  with Suc.IH [of "u\<lparr>wait_data_cycle := wait_data_cycle u - 1\<rparr>"] Suc.prems(1,2) w
  have "mad_cycles hb msk m (Suc k) (u\<lparr>wait_data_cycle := wait_data_cycle u - 1\<rparr>, r) =
      Some (u\<lparr>mad_state := MAD_EX, mad_next := MAD_EX, wait_data_cycle := 0\<rparr>, r)" by simp
  moreover have "MadUnit_step hb msk m (u, r) = Some (u\<lparr>wait_data_cycle := wait_data_cycle u - 1\<rparr>, r)"
    using Suc.prems(1,2) w by (simp add: MadUnit_step_def mad_tick_def Let_def word_gt_0)
  ultimately show ?case by simp
qed

text \<open>At the beginning of a row.\<close>

definition at_row :: "nat \<Rightarrow> mad_unit \<Rightarrow> bool" where
  "at_row n u \<longleftrightarrow> mad_state u = MAD_EX \<and> mad_next u = MAD_EX \<and> wait_data_cycle u = 0 \<and> mad_mode u = 0 \<and>
     \<not> eight_bit_mode u \<and> loop_count u = of_nat n"

text \<open>What a row leaves alone.\<close>

definition same_setup :: "mad_unit \<Rightarrow> mad_unit \<Rightarrow> bool" where
  "same_setup u v \<longleftrightarrow> sram_latency v = sram_latency u \<and> mad_dmem_step v = mad_dmem_step u \<and> mad_rbuf_step v = mad_rbuf_step u \<and>
     eight_bit_mode v = eight_bit_mode u \<and> tr1_fp v = tr1_fp u \<and> fr0_fp v = fr0_fp u \<and> fr1_fp v = fr1_fp u"

lemma sint_of_nat32: "n < 2 ^ 31 \<Longrightarrow> sint (of_nat n :: u32) = int n"
  using sint_of_int32 [of "int n"] by simp

lemma row_step:
  assumes a: "at_row (Suc n) u" and n: "Suc n < 2 ^ 31"
    and w: "load_lanes (load_half hb (sb_rbuf_u m) (sb_rbuf_l m)) (rbuf_addr u) 2 4 = Some w"
    and x: "load_lanes (load_half hb (sb_dmem_u m) (sb_dmem_l m)) (data_addr u) 2 4 = Some x"
  obtains v where "MadUnit_step hb msk m (u, r) = Some (v, r)" "same_setup u v"
    "tr0_fp v = mad_lanes msk ((!) w) ((!) x) lower_lanes (tr0_fp u)"
    "n = 0 \<Longrightarrow> mad_state v = MAD_WB \<and> mad_next v = MAD_WB"
    "n \<noteq> 0 \<Longrightarrow> data_addr v = data_addr u + mad_dmem_step u \<and> rbuf_addr v = rbuf_addr u + mad_rbuf_step u \<and>
      (at_row n v \<or> mad_state v = MAD_DSTALL \<and> mad_next v = MAD_DSTALL \<and> unat (wait_data_cycle v) < unat (sram_latency u) \<and>
        at_row n (v\<lparr>mad_state := MAD_EX, mad_next := MAD_EX, wait_data_cycle := 0\<rparr>))"
proof -
  let ?u1 = "u\<lparr>tr0_fp := mad_lanes msk ((!) w) ((!) x) lower_lanes (tr0_fp u), loop_count := of_nat n\<rparr>"
  have d: "map_option (\<lambda>v. v\<lparr>loop_count := loop_count v - 1\<rparr>) (mad_mode_exec hb msk m u) = Some ?u1"
    using a w x by (simp add: at_row_def mad_mode_exec_def doMad_def loadWeight_def loadData_def)
  then obtain u0 where u0: "mad_mode_exec hb msk m u = Some u0" "u0\<lparr>loop_count := loop_count u0 - 1\<rparr> = ?u1" by auto
  have pos: "sint (of_nat n :: u32) > 0 \<longleftrightarrow> n \<noteq> 0" using sint_of_nat32 [of n] n by simp
  have e: "mad_ex hb msk m u = Some (if n \<noteq> 0 then
         let u3 = updataAddress ?u1 in
         if sram_latency u3 > 1 then
           u3\<lparr>wait_data_cycle := (if overDmemBoundary u3 \<or> overRbufBoundary u3 then sram_latency u3 - 1 + 1 else sram_latency u3 - 1),
             mad_next := MAD_DSTALL\<rparr>
         else u3
       else ?u1\<lparr>mad_next := MAD_WB\<rparr>)"
    using a unfolding mad_ex_def u0(1) by (simp only: Option.bind.simps u0(2) Let_def) (simp add: at_row_def pos)
  show ?thesis
  proof (cases "n = 0")
    case True
    show ?thesis
      by (rule that [of "mad_tick (?u1\<lparr>mad_next := MAD_WB\<rparr>)"];
        use a True e in \<open>simp add: MadUnit_step_def at_row_def mad_tick_def same_setup_def Let_def\<close>)
  next
    case False
    let ?u3 = "updataAddress ?u1"
    show ?thesis
    proof (cases "sram_latency u > 1")
      case l: True
      define wt where "wt = (if overDmemBoundary ?u3 \<or> overRbufBoundary ?u3 then sram_latency u else sram_latency u - 1)"
      have wt: "wt \<noteq> 0" "unat (wt - 1) < unat (sram_latency u)"
        using l by (auto simp: wt_def unat_minus_one word_less_nat_alt unat_sub_if_size split: if_splits) 
      let ?v = "?u3\<lparr>wait_data_cycle := wt - 1, mad_next := MAD_DSTALL, mad_state := MAD_DSTALL\<rparr>"
      have s: "MadUnit_step hb msk m (u, r) = Some (?v, r)"
      proof -
        have "mad_ex hb msk m u = Some (?u3\<lparr>wait_data_cycle := wt, mad_next := MAD_DSTALL\<rparr>)"
          using e False l by (simp add: wt_def Let_def updataAddress_def cong: if_cong)
        then show ?thesis using a wt(1) by (simp add: MadUnit_step_def at_row_def mad_tick_def Let_def word_gt_0)
      qed
      show ?thesis
        by (rule that [OF s]; use a False wt(2) in \<open>simp add: at_row_def same_setup_def updataAddress_def\<close>)
    next
      case l: False
      have s: "MadUnit_step hb msk m (u, r) = Some (?u3, r)"
        using a False e l by (simp add: MadUnit_step_def at_row_def mad_tick_def updataAddress_def Let_def)
      show ?thesis
        by (rule that [OF s]; use a False in \<open>simp add: at_row_def same_setup_def updataAddress_def\<close>)
    qed
  qed
qed

lemma same_setup_trans: "same_setup u v \<Longrightarrow> same_setup v x \<Longrightarrow> same_setup u x"
  by (simp add: same_setup_def)

lemma row_sum:
  assumes "\<bar>sint acc\<bar> + sum_list (map abs (row_products msk w x)) < 2 ^ 31"
  shows "sint (mad_lanes msk ((!) w) ((!) x) lower_lanes acc) = sint acc + sum_list (row_products msk w x)"
  using mad_lanes_sum [where acc = acc and msk = msk and ls = lower_lanes and w = "(!) w" and x = "(!) x"] assms
  by (simp add: row_products_def lower_lanes_upt o_def)

lemma rows_run:
  assumes "at_row n u" "1 \<le> n" "n < 2 ^ 31"
    "products hb msk m (mad_dmem_step u) (mad_rbuf_step u) n (data_addr u) (rbuf_addr u) = Some ps"
    "\<bar>sint (tr0_fp u)\<bar> + sum_list (map abs ps) < 2 ^ 31"
  shows "\<exists>T v. T \<le> n * (unat (sram_latency u) + 1) \<and> mad_cycles hb msk m T (u, r) = Some (v, r) \<and> same_setup u v \<and>
    mad_state v = MAD_WB \<and> mad_next v = MAD_WB \<and> sint (tr0_fp v) = sint (tr0_fp u) + sum_list ps"
  using assms
proof (induction n arbitrary: u ps)
  case (Suc n u ps)
  obtain w x qs where wx: "load_lanes (load_half hb (sb_rbuf_u m) (sb_rbuf_l m)) (rbuf_addr u) 2 4 = Some w"
    "load_lanes (load_half hb (sb_dmem_u m) (sb_dmem_l m)) (data_addr u) 2 4 = Some x"
    "products hb msk m (mad_dmem_step u) (mad_rbuf_step u) n (data_addr u + mad_dmem_step u) (rbuf_addr u + mad_rbuf_step u) = Some qs"
    "ps = row_products msk w x @ qs"
    using Suc.prems(4) by (auto split: Option.bind_splits)
  have nn: "0 \<le> sum_list (map abs qs)" "\<bar>sum_list (row_products msk w x)\<bar> \<le> sum_list (map abs (row_products msk w x))"
    using abs_sum_list_le [of qs] abs_sum_list_le [of "row_products msk w x"] by linarith+
  have sum: "sint (mad_lanes msk ((!) w) ((!) x) lower_lanes (tr0_fp u)) = sint (tr0_fp u) + sum_list (row_products msk w x)"
    by (rule row_sum) (use Suc.prems(5) nn(1) wx(4) in simp)
  obtain v where v: "MadUnit_step hb msk m (u, r) = Some (v, r)" "same_setup u v"
    "tr0_fp v = mad_lanes msk ((!) w) ((!) x) lower_lanes (tr0_fp u)"
    "n = 0 \<Longrightarrow> mad_state v = MAD_WB \<and> mad_next v = MAD_WB"
    "n \<noteq> 0 \<Longrightarrow> data_addr v = data_addr u + mad_dmem_step u \<and> rbuf_addr v = rbuf_addr u + mad_rbuf_step u \<and>
      (at_row n v \<or> mad_state v = MAD_DSTALL \<and> mad_next v = MAD_DSTALL \<and> unat (wait_data_cycle v) < unat (sram_latency u) \<and>
        at_row n (v\<lparr>mad_state := MAD_EX, mad_next := MAD_EX, wait_data_cycle := 0\<rparr>))"
    using row_step [OF Suc.prems(1,3) wx(1,2)] by blast
  show ?case
  proof (cases "n = 0")
    case True
    with v wx(3,4) sum show ?thesis
      by (intro exI [of _ 1] exI [of _ v]) simp
  next
    case False
    obtain z k where z: "mad_cycles hb msk m k (v, r) = Some (z, r)" "k \<le> unat (sram_latency u)" "at_row n z" "same_setup v z"
      "data_addr z = data_addr v" "rbuf_addr z = rbuf_addr v" "tr0_fp z = tr0_fp v"
    proof (cases "at_row n v")
      case True
      then show ?thesis by (intro that [of 0 v]) (simp_all add: same_setup_def)
    next
      case f: False
      with v(5) [OF False] have d: "mad_state v = MAD_DSTALL" "mad_next v = MAD_DSTALL" "unat (wait_data_cycle v) < unat (sram_latency u)"
        "at_row n (v\<lparr>mad_state := MAD_EX, mad_next := MAD_EX, wait_data_cycle := 0\<rparr>)" by simp_all
      show ?thesis
        by (rule that [OF stall_cycles [OF d(1,2) refl]]) (use d(3,4) in \<open>simp_all add: same_setup_def\<close>)
    qed
    have p: "products hb msk m (mad_dmem_step z) (mad_rbuf_step z) n (data_addr z) (rbuf_addr z) = Some qs"
      using wx(3) v(2) v(5) [OF False] z(4-6) by (simp add: same_setup_def)
    have t: "sint (tr0_fp z) = sint (tr0_fp u) + sum_list (row_products msk w x)" using z(7) v(3) sum by simp
    have b: "\<bar>sint (tr0_fp z)\<bar> + sum_list (map abs qs) < 2 ^ 31"
      using Suc.prems(5) nn(2) abs_triangle_ineq [of "sint (tr0_fp u)" "sum_list (row_products msk w x)"]
      by (simp add: t wx(4))
    obtain T y where y: "T \<le> n * (unat (sram_latency z) + 1)" "mad_cycles hb msk m T (z, r) = Some (y, r)" "same_setup z y"
      "mad_state y = MAD_WB" "mad_next y = MAD_WB" "sint (tr0_fp y) = sint (tr0_fp z) + sum_list qs"
      using Suc.IH [OF z(3) _ _ p b] False Suc.prems(3) by auto
    have c: "mad_cycles hb msk m (Suc (k + T)) (u, r) = Some (y, r)"
      by (simp add: v(1) mad_cycles_add z(1) y(2))
    have l: "sram_latency z = sram_latency u" using v(2) z(4) by (simp add: same_setup_def)
    have "Suc (k + T) \<le> Suc n * (unat (sram_latency u) + 1)" using z(2) y(1) l by simp
    with c y same_setup_trans [OF same_setup_trans [OF v(2) z(4)] y(3)] t wx(4) show ?thesis
      by (intro exI [of _ "Suc (k + T)"] exI [of _ y]) simp
  qed
qed simp

text \<open>From the start of a loop in 16-bit mode to the write back.\<close>

lemma mad_loop:
  assumes idle: "mad_state u = MAD_IDLE" and n: "1 \<le> n" "n < 2 ^ 31"
    and ps: "products hb msk m ds rs n (data_addr u) (rbuf_addr u) = Some ps"
    and b: "\<bar>sint (TR0 r) div 16\<bar> + sum_list (map abs ps) < 2 ^ 31"
  defines "v \<equiv> sint (TR0 r) div 16 + sum_list ps"
  shows "\<exists>T u' r'. T \<le> unat (wait_data_cycle u) + n * (unat (sram_latency u) + 1) + 4 \<and>
    mad_cycles hb msk m T (mad_start 0 msk ds rs False (of_nat n) r u, r) = Some (u', r') \<and> \<not> mad_running u' \<and>
    sint (TR0 r') = (if v < - (2 ^ 27) then - (2 ^ 31) else if v \<ge> 2 ^ 27 then 2 ^ 31 - 1 else 16 * v) \<and>
    TR1 r' = TR1 r \<and> FR1 r' = FR1 r"
proof -
  define s where "s = mad_start 0 msk ds rs False (of_nat n) r u"
  have f: "mad_state s = MAD_IDLE" "mad_mode s = 0" "\<not> eight_bit_mode s" "loop_count s = of_nat n" "mad_dmem_step s = ds"
    "mad_rbuf_step s = rs" "data_addr s = data_addr u" "rbuf_addr s = rbuf_addr u" "sram_latency s = sram_latency u"
    "tr0_fp s = FromRegisterFormat (TR0 r)"
    "mad_next s = MAD_EX \<and> wait_data_cycle s = 0 \<or> mad_next s = MAD_DSTALL \<and> wait_data_cycle s \<noteq> 0 \<and>
      unat (wait_data_cycle s) \<le> unat (wait_data_cycle u) + 1"
    using idle by (auto simp: s_def mad_start_def Let_def word_gt_0)
  obtain k y where y: "mad_cycles hb msk m k (s, r) = Some (y, r)" "k \<le> unat (wait_data_cycle u) + 3"
    "y = s\<lparr>mad_state := MAD_EX, mad_next := MAD_EX, wait_data_cycle := 0\<rparr>"
  proof (cases "mad_next s = MAD_EX")
    case True
    then have w: "wait_data_cycle s = 0" using f(11) by auto
    show ?thesis
      by (rule that [of 1]) (use True w f(1) in \<open>simp_all add: MadUnit_step_def mad_tick_def Let_def\<close>)
  next
    case False
    then have w: "mad_next s = MAD_DSTALL" "wait_data_cycle s \<noteq> 0" "unat (wait_data_cycle s) \<le> unat (wait_data_cycle u) + 1"
      using f(11) by auto
    let ?t = "s\<lparr>wait_data_cycle := wait_data_cycle s - 1, mad_state := MAD_DSTALL\<rparr>"
    have s1: "MadUnit_step hb msk m (s, r) = Some (?t, r)"
      using f(1) w by (simp add: MadUnit_step_def mad_tick_def Let_def word_gt_0)
    have s2: "mad_cycles hb msk m (Suc (unat (wait_data_cycle ?t))) (?t, r) = Some (?t\<lparr>mad_state := MAD_EX, mad_next := MAD_EX, wait_data_cycle := 0\<rparr>, r)"
      by (rule stall_cycles) (simp_all add: w(1))
    have "mad_cycles hb msk m (Suc (Suc (unat (wait_data_cycle ?t)))) (s, r) =
        Some (s\<lparr>mad_state := MAD_EX, mad_next := MAD_EX, wait_data_cycle := 0\<rparr>, r)"
      using s2 by (simp add: s1)
    moreover have "unat (wait_data_cycle ?t) \<le> unat (wait_data_cycle u)" using w(2,3) by (simp add: unat_minus_one)
    ultimately show ?thesis by (intro that [OF _ _ refl, where k = "Suc (Suc (unat (wait_data_cycle ?t)))"]) simp_all
  qed
  have row: "at_row n y" using f by (simp add: y(3) at_row_def)
  have "sint (tr0_fp y) = sint (TR0 r) div 16" by (simp add: y(3) f(10) from_register_value)
  then obtain T x where x: "T \<le> n * (unat (sram_latency y) + 1)" "mad_cycles hb msk m T (y, r) = Some (x, r)" "same_setup y x"
    "mad_state x = MAD_WB" "sint (tr0_fp x) = v"
    using rows_run [OF row n, of hb msk m ps r] ps b f by (auto simp: y(3) v_def)
  have e: "\<not> eight_bit_mode x" using x(3) f(3) by (simp add: same_setup_def y(3))
  have wb: "MadUnit_step hb msk m (x, r) = Some (mad_tick (x\<lparr>mad_next := MAD_IDLE\<rparr>), mad_wb x r)"
    by (simp add: MadUnit_step_def x(4))
  have c: "mad_cycles hb msk m (k + (T + 1)) (s, r) = Some (mad_tick (x\<lparr>mad_next := MAD_IDLE\<rparr>), mad_wb x r)"
    unfolding mad_cycles_add y(1) by (simp add: mad_cycles_add x(2) wb)
  have "\<not> mad_running (mad_tick (x\<lparr>mad_next := MAD_IDLE\<rparr>))" by (simp add: mad_running_def mad_tick_def Let_def)
  moreover have "k + (T + 1) \<le> unat (wait_data_cycle u) + n * (unat (sram_latency u) + 1) + 4"
    using y(2) x(1) f(9) by (simp add: y(3))
  moreover have "sint (TR0 (mad_wb x r)) = (if v < - (2 ^ 27) then - (2 ^ 31) else if v \<ge> 2 ^ 27 then 2 ^ 31 - 1 else 16 * v)"
    "TR1 (mad_wb x r) = TR1 r" "FR1 (mad_wb x r) = FR1 r"
    using clip_value [of "tr0_fp x"] e by (simp_all add: mad_wb_def Let_def x(5))
  ultimately show ?thesis using c unfolding s_def by blast
qed

end
