(* ===== verification/SNACC_Props.thy ===== *)
theory SNACC_Props
  imports SNACC_Facts SNACC_MadFacts
begin

unbundle bit_operations_syntax

text \<open>
  The properties of the SNACC accelerator: a core executes its instruction set, cores share the write
  buffer one at a time, the select registers connect the banks, and the multiply-and-add unit computes dot
  products.
\<close>

section \<open>A core with a program\<close>

definition demo_imem :: dbuf where
  "demo_imem = \<lparr>db_extent = 0x800, db_mask = 0xFFFFFFFF, db_front = replicate 2048 0,
     db_back = (replicate 2048 0)[2 := 0x05, 3 := 0x91], db_front_connected = True\<rparr>"

definition demo_sram :: dbuf where
  "demo_sram = \<lparr>db_extent = 0x800, db_mask = 0xFFFFFFFF, db_front = replicate 2048 0, db_back = replicate 2048 0,
     db_front_connected = True\<rparr>"

definition demo_mad :: mad_unit where
  "demo_mad = \<lparr>mad_state = MAD_IDLE, mad_next = MAD_IDLE, mad_mode = 0, eight_bit_mode = False, loop_count = 0, mask_count = 0,
     simd_data_width = 0, sram_latency = 2, wait_data_cycle = 0, mad_dmem_step = 0, mad_rbuf_step = 0, second_lut_done = False,
     data_addr = 0, rbuf_addr = 0, tr0_fp = 0, tr1_fp = 0, fr0_fp = 0, fr1_fp = 0\<rparr>"

definition demo_core :: snacc_core where
  "demo_core = \<lparr>sc_id = 0, sc_regs = replicate 16 0, sc_pc = 0, halt_issued = False, sc_done = False, fetch_instr = 0,
     dec_opcode = 0, dec_rd = 0, dec_rs = 0, dec_func = 0, dec_imm = 0, reg_write = False, isBranch = False, reg_write_data = 0,
     sc_status = STAT_IF, stall_cause = NO_STALL, access_address = 0, access_mem = None,
     sc_bufs = \<lparr>sb_dmem_u = demo_sram, sb_dmem_l = demo_sram, sb_rbuf_u = demo_sram, sb_rbuf_l = demo_sram, sb_lut = demo_sram,
       sb_imem = demo_imem\<rparr>,
     sc_mad = demo_mad, mad_mode_reg = 0, access_mode = 0, wbuf_arb_mode = 0, fp_pos = 4, dmem_step = 0, rbuf_step = 0,
     simd_mask = replicate 8 True\<rparr>"

lemma demo_core_facts:
  "core_ready demo_core" "bufs_wf (demo_core, demo_sram)" "arb_ok demo_core" "unat (sc_pc demo_core) < 0x800"
proof -
  have b: "buf_wf demo_sram" "buf_wf demo_imem"
    by (simp_all add: demo_sram_def demo_imem_def buf_wf_def dbuf_wf_def db_outer_def db_inner_def)
  show "bufs_wf (demo_core, demo_sram)" unfolding bufs_wf_def
  proof
    show "buf_wf (sram_get m (demo_core, demo_sram))" for m by (cases m) (simp_all add: demo_core_def b)
  qed
qed (simp_all add: demo_core_def demo_mad_def core_ready_def core_isStall_def arb_ok_def)

lemma demo_instr:
  "load16 False (db_inner (sb_imem (sc_bufs demo_core))) (half_place (unat (sc_pc demo_core))) = 0x9105" "plain_instr 0x9105"
  by (simp_all add: demo_core_def demo_imem_def db_inner_def half_place_def load16_def half_of_bytes_def nth_list_update
      plain_instr_def isa_op_def)

text \<open>
  C14. A core executes its instruction set: from an instruction boundary with the multiply-and-add
  unit at rest, and with every buffer of its full size, 4 to 12 cycles (the rest is the wait for the shared write
  buffer) carry out exactly the one instruction at the program counter, given arithmetically by
  \<open>isa_step\<close>, on registers, memories, control registers and program counter, and leave the core at the next boundary or
  halted. The program counter is below the 2 KB of the instruction memory, the arbitration
  mode of the core is one that serves it (one core; two cores and a number below 2; four
  cores and a number below 4; in the others an access of the write buffer stalls for ever), and the
  instruction is not one of the two that start the unit, nor a shift by 32 or more.
\<close>
theorem snacc_instruction_refines:
  assumes "core_ready c" "bufs_wf (c, w)" "arb_ok c" "unat (sc_pc c) < 0x800"
    and "i = load16 hb (db_inner (sb_imem (sc_bufs c))) (half_place (unat (sc_pc c)))" "plain_instr i"
  shows "\<exists>n c' w'. 4 \<le> n \<and> n \<le> 12 \<and> core_cycles hb arb n (c, w) = Some (c', w') \<and>
    arch_of (c', w') = isa_step hb i (arch_of (c, w)) \<and> bufs_wf (c', w') \<and>
    (ar_halted (isa_step hb i (arch_of (c, w))) \<or> core_ready c')"
  by (rule instruction_executed [OF assms])

theorem snacc_instruction_refines_witness:
  "\<exists>n c' w'. core_cycles False 0 n (demo_core, demo_sram) = Some (c', w') \<and> sc_regs c' ! 1 = 5 \<and> sc_pc c' = 2"
proof -
  obtain n c' w' where c: "core_cycles False 0 n (demo_core, demo_sram) = Some (c', w')"
    "arch_of (c', w') = isa_step False 0x9105 (arch_of (demo_core, demo_sram))"
    using snacc_instruction_refines [OF demo_core_facts demo_instr(1) [symmetric] demo_instr(2)] by blast
  have "ar_regs (arch_of (c', w')) ! 1 = 5" "ar_pc (arch_of (c', w')) = 2"
    unfolding c(2)
    by (simp_all add: isa_step_def isa_value_def isa_effect_def isa_next_def isa_op_def isa_rd_def isa_rs_def isa_fn_def isa_byte_def
        ar_sel demo_core_def)
  then show ?thesis using c(1) by (auto simp: ar_sel)
qed

section \<open>The accelerator\<close>

text \<open>
  C15. The write buffer is shared one core at a time, as long as the bus does not start a core that it had
  stopped between the grant and the access: in every state reached from reset by cycles and by such
  stores of the bus, two different started cores in the same arbitration mode, other than the
  one-core mode, are never both about to access the write buffer in the next cycle. (A store that does
  start such a core lets it use its old grant next to the core that has the grant by then.)
\<close>
theorem wbuf_access_exclusive:
  assumes "snacc_reach hb s" "i < core_count s" "j < core_count s" "i \<noteq> j" "isStart i (sn_conf s)" "isStart j (sn_conf s)"
    and "wbuf_arb_mode (sn_cores s ! i) = wbuf_arb_mode (sn_cores s ! j)" "wbuf_arb_mode (sn_cores s ! j) \<noteq> 1"
  shows "\<not> (uses_wbuf (sn_cores s ! i) \<and> uses_wbuf (sn_cores s ! j))"
  using access_once [OF assms(1,2,3,5,6) _ _ assms(7,8)] assms(4) by blast

definition demo_reset :: snacc where
  "demo_reset = SNACC_core_reset (the (SNACC_setup 2 [demo_core, demo_core] [(0, 0), (0, 0)]))"

definition demo_chip :: snacc where
  "demo_chip = conf_store_word 0x10 1 (conf_store_word 0 3 demo_reset)"

lemma demo_reset_facts:
  "snacc_reach hb demo_reset" "core_count demo_reset = 2" "sn_conf demo_reset = ConfRegCtrl_new 2 [(0, 0), (0, 0)]"
  "i < 2 \<Longrightarrow> sc_status (sn_cores demo_reset ! i) = STAT_IF \<and> wbuf_arb_mode (sn_cores demo_reset ! i) = 0"
proof -
  obtain s where s: "SNACC_setup 2 [demo_core, demo_core] [(0, 0), (0, 0)] = Some s"
    by (simp add: SNACC_setup_def snacc_bufs_new_def DoubleBuffer_new_def Let_def)
  then have d: "demo_reset = SNACC_core_reset s" by (simp add: demo_reset_def)
  show "snacc_reach hb demo_reset" unfolding d by (rule reach_reset [OF s])
  have l: "length (sn_cores s) = 2" "sn_conf s = ConfRegCtrl_new 2 [(0, 0), (0, 0)]"
    using s by (auto simp: SNACC_setup_def numeral_2_eq_2 split: Option.bind_splits)
  then show "core_count demo_reset = 2" "sn_conf demo_reset = ConfRegCtrl_new 2 [(0, 0), (0, 0)]"
    "i < 2 \<Longrightarrow> sc_status (sn_cores demo_reset ! i) = STAT_IF \<and> wbuf_arb_mode (sn_cores demo_reset ! i) = 0"
    by (simp_all add: d core_count_def SNACC_core_reset_def SNACCCore_reset_def)
qed

lemma demo_chip_facts:
  "snacc_reach False demo_chip" "core_count demo_chip = 2" "isStart 0 (sn_conf demo_chip)" "isStart 1 (sn_conf demo_chip)"
  "i < 2 \<Longrightarrow> wbuf_arb_mode (sn_cores demo_chip ! i) = 0" "bit (data_db_sel (sn_conf demo_chip)) 0"
proof -
  let ?s = "conf_store_word 0 3 demo_reset"
  have c1: "core_count ?s = 2" using conf_store_same_cores [of demo_reset 0 3] demo_reset_facts(2) by (simp add: same_cores_def)
  then show c2: "core_count demo_chip = 2" using conf_store_same_cores [of ?s 16 1] by (simp add: same_cores_def demo_chip_def)
  have u: "\<not> uses_wbuf (sn_cores demo_reset ! i)" if "i < 2" for i
    using demo_reset_facts(4) [OF that] by (simp add: uses_wbuf_def)
  have r1: "snacc_reach False ?s"
    by (rule reach_store [OF demo_reset_facts(1), of False Conf_reg 0 3]) (use u demo_reset_facts(2) in simp_all)
  have st: "cf_start (sn_conf demo_chip) = cf_start (sn_conf ?s)"
    by (simp add: demo_chip_def conf_store_word_def [of 16] Let_def)
  show "snacc_reach False demo_chip"
    by (rule reach_store [OF r1, of Conf_reg 16 1]) (simp_all add: demo_chip_def [symmetric] isStart_def st)
  have m: "bitmap_mask (sn_conf demo_reset) = 3" "bitmap_mask (sn_conf ?s) = 3" "cf_start (sn_conf ?s) = 3"
    by (simp_all add: conf_store_word_def Let_def demo_reset_facts(3) ConfRegCtrl_new_def push_bit_eq_mult)
  show "isStart 0 (sn_conf demo_chip)" "isStart 1 (sn_conf demo_chip)" by (simp_all add: isStart_def st m getFlag_def)
  show "bit (data_db_sel (sn_conf demo_chip)) 0" by (simp add: demo_chip_def conf_store_word_def [of 16] Let_def m)
  assume i: "i < 2"
  from conf_store_same_cores [of demo_reset 0 3] demo_reset_facts(2) i obtain b where
    b: "sn_cores ?s ! i = (sn_cores demo_reset ! i)\<lparr>sc_bufs := b\<rparr>" by (auto simp: same_cores_def)
  from conf_store_same_cores [of ?s 16 1] c1 i obtain b' where
    b': "sn_cores demo_chip ! i = (sn_cores ?s ! i)\<lparr>sc_bufs := b'\<rparr>" by (auto simp: same_cores_def demo_chip_def)
  show "wbuf_arb_mode (sn_cores demo_chip ! i) = 0" using demo_reset_facts(4) [OF i] by (simp add: b b')
qed

theorem wbuf_access_exclusive_witness:
  "\<not> (uses_wbuf (sn_cores demo_chip ! 0) \<and> uses_wbuf (sn_cores demo_chip ! 1))"
  using wbuf_access_exclusive [OF demo_chip_facts(1), of 0 1] demo_chip_facts by simp

text \<open>
  C17. The select registers of the cores' own memories are their banks: in every state reached from reset
  by cycles and any stores of the bus, the bus sees the back bank of a core's data, row, table or
  instruction memory exactly when the bit of that core in the register that selects it is set, and
  the core sees the other bank. The shared write buffer is not among them: its register switches the
  bank when it changes and does not name it.
\<close>
theorem selected_bank_connected:
  assumes "snacc_run hb s" "i < core_count s" "m \<noteq> WBUF"
  defines "d \<equiv> buf_of m (sc_bufs (sn_cores s ! i))"
  shows "(db_outer d, db_inner d) = (if bit (bank_of m (sn_conf s)) i then (db_back d, db_front d) else (db_front d, db_back d))"
  using run_ok [OF assms(1)] assms(2,3) by (simp add: banks_ok_def flag_bit d_def db_outer_def db_inner_def)

theorem selected_bank_connected_witness:
  "db_outer (sb_dmem_u (sc_bufs (sn_cores demo_chip ! 0))) = db_back (sb_dmem_u (sc_bufs (sn_cores demo_chip ! 0)))"
  using selected_bank_connected [OF reach_run [OF demo_chip_facts(1)], of 0 DMEM_U] demo_chip_facts by (simp add: bank_of_def buf_of_def)

section \<open>The multiply-and-add unit\<close>

definition demo_half :: dbuf where
  "demo_half = \<lparr>db_extent = 8, db_mask = 0xFFFFFFFF, db_front = replicate 8 0, db_back = [2, 0, 1, 0, 4, 0, 3, 0], db_front_connected = True\<rparr>"

definition demo_bufs :: snacc_bufs where
  "demo_bufs = \<lparr>sb_dmem_u = demo_half, sb_dmem_l = demo_half, sb_rbuf_u = demo_half, sb_rbuf_l = demo_half, sb_lut = demo_half,
     sb_imem = demo_half\<rparr>"

text \<open>
  C16. A multiply-and-add loop in 16-bit mode computes a dot product: over \<open>n\<close> rows of four lanes, at addresses
  that advance by the two steps, the register ends up with its old value (in the internal
  format) plus the sum of the products of the lanes in use, clipped to its range, and the unit is at rest again, within
  a number of cycles that grows with the latency of the memories. It holds as long as the magnitudes
  together stay in the range of the accumulator.
\<close>
theorem mad_computes_dot_product:
  assumes "mad_state u = MAD_IDLE" "1 \<le> n" "n < 2 ^ 31"
    and "products hb msk m ds rs n (data_addr u) (rbuf_addr u) = Some ps"
    and "\<bar>sint (TR0 r) div 16\<bar> + sum_list (map abs ps) < 2 ^ 31"
  defines "v \<equiv> sint (TR0 r) div 16 + sum_list ps"
  shows "\<exists>T u' r'. T \<le> unat (wait_data_cycle u) + n * (unat (sram_latency u) + 1) + 4 \<and>
    mad_cycles hb msk m T (mad_start 0 msk ds rs False (of_nat n) r u, r) = Some (u', r') \<and> \<not> mad_running u' \<and>
    sint (TR0 r') = (if v < - (2 ^ 27) then - (2 ^ 31) else if v \<ge> 2 ^ 27 then 2 ^ 31 - 1 else 16 * v) \<and>
    TR1 r' = TR1 r \<and> FR1 r' = FR1 r"
  unfolding v_def by (rule mad_loop [OF assms(1-5)])

theorem mad_computes_dot_product_witness:
  "\<exists>T u' r'. mad_cycles False (replicate 8 True) demo_bufs T
      (mad_start 0 (replicate 8 True) 0 0 False 1 \<lparr>TR0 = 32, TR1 = 0, FR0 = 0, FR1 = 0\<rparr> demo_mad, \<lparr>TR0 = 32, TR1 = 0, FR0 = 0, FR1 = 0\<rparr>) =
      Some (u', r') \<and> \<not> mad_running u' \<and> sint (TR0 r') = 192"
proof -
  let ?r = "\<lparr>TR0 = 32, TR1 = 0, FR0 = 0, FR1 = 0\<rparr>"
  have i: "mad_state demo_mad = MAD_IDLE" by (simp add: demo_mad_def)
  have h: "load_half False demo_half demo_half 0 = Some 1" "load_half False demo_half demo_half 2 = Some 2"
    "load_half False demo_half demo_half 4 = Some 1" "load_half False demo_half demo_half 6 = Some 2"
    by (simp_all add: load_half_def sram_addr_def in_upper_def fetch_half_from_inner_def inner_exceeds_def demo_half_def db_inner_def
        load16_def half_of_bytes_def Fixed16_of_u16_def Let_def)
  have l: "load_lanes (load_half False demo_half demo_half) 0 2 4 = Some [1, 2, 1, 2]"
  proof -
    have four: "(4 :: nat) = Suc (Suc (Suc (Suc 0)))" by simp
    show ?thesis unfolding four by (simp add: h)
  qed
  have p: "products False (replicate 8 True) demo_bufs 0 0 1 (data_addr demo_mad) (rbuf_addr demo_mad) = Some [1, 4, 1, 4]"
  proof -
    have t: "[0..<4] = [0, 1, 2, 3 :: nat]" by (simp add: upt_rec)
    have r: "row_products (replicate 8 True) [1, 2, 1, 2] [1, 2, 1, 2] = [1, 4, 1, 4]" by (simp add: row_products_def t)
    show ?thesis by (simp add: demo_mad_def demo_bufs_def l r)
  qed
  have b: "\<bar>sint (TR0 ?r) div 16\<bar> + sum_list (map abs [1, 4, 1, 4]) < 2 ^ 31" by (simp add: sint_uint)
  show ?thesis
    using mad_computes_dot_product [OF i _ _ p b] by (auto simp: sint_uint)
qed

end
