(* ===== verification/Clock.thy ===== *)
theory Clock
  imports Prelude
begin

text \<open>
  \<open>clock.h\<close>, \<open>clock.cc\<close> and \<open>task.h\<close>: the simulated time of the machine and the queue of
  deferred tasks the devices put on it. The queue is the list \<open>deferred_tasks\<close>: each entry holds
  the nanoseconds left after the entry before it has come due, and the tasks that come due then,
  in the order they were added.

  A task may change its device, read the time and queue further tasks, and nothing else of the
  clock; \<open>exec t tm e\<close> is what the task object \<open>t\<close> does at time \<open>tm\<close> in the environment \<open>e\<close> of the
  devices: the new environment and its calls of \<open>add_deferred_task\<close>, in order. The host's
  \<open>gettimeofday\<close> is an argument of the operations that read it. A \<open>long\<close> is an \<open>int\<close>: the amounts
  are sums of a few \<open>uint32\<close> values, far below \<open>2 ^ 63\<close>. A failed assertion is \<^const>\<open>None\<close>.
\<close>

section \<open>Times\<close>

record timespec =
  tv_sec :: int
  tv_nsec :: int

record timeval =
  tvl_sec :: int
  tvl_usec :: int

definition timespecadd :: "timespec \<Rightarrow> timespec \<Rightarrow> timespec" where
  "timespecadd v u =
     (let s = tv_sec v + tv_sec u; n = tv_nsec v + tv_nsec u
      in if 1000000000 \<le> n then \<lparr>tv_sec = s + 1, tv_nsec = n - 1000000000\<rparr>
         else \<lparr>tv_sec = s, tv_nsec = n\<rparr>)"

definition timespecsub :: "timespec \<Rightarrow> timespec \<Rightarrow> timespec" where
  "timespecsub v u =
     (let s = tv_sec v - tv_sec u; n = tv_nsec v - tv_nsec u
      in if n < 0 then \<lparr>tv_sec = s - 1, tv_nsec = n + 1000000000\<rparr>
         else \<lparr>tv_sec = s, tv_nsec = n\<rparr>)"

definition TIMEVAL_TO_TIMESPEC :: "timeval \<Rightarrow> timespec" where
  "TIMEVAL_TO_TIMESPEC tv = \<lparr>tv_sec = tvl_sec tv, tv_nsec = tvl_usec tv * 1000\<rparr>"

section \<open>The queue of deferred tasks\<close>

record 't deferred_tasks =
  nanoseconds_left :: int
  dt_tasks :: "'t list"

definition DeferredTasks_new :: "int \<Rightarrow> 't \<Rightarrow> 't deferred_tasks option" where
  "DeferredTasks_new ns t = do {
     check (0 < ns);
     Some \<lparr>nanoseconds_left = ns, dt_tasks = [t]\<rparr> }"

definition add_task :: "'t \<Rightarrow> 't deferred_tasks \<Rightarrow> 't deferred_tasks" where
  "add_task t d = d\<lparr>dt_tasks := dt_tasks d @ [t]\<rparr>"

text \<open>\<open>pass_time\<close> returns the entry with its new count, and the tasks its loop runs.\<close>

definition pass_time :: "int \<Rightarrow> 't deferred_tasks \<Rightarrow> ('t deferred_tasks \<times> 't list) option" where
  "pass_time ns d = do {
     check (0 < ns);
     check (0 < nanoseconds_left d);
     let d' = d\<lparr>nanoseconds_left := nanoseconds_left d - ns\<rparr>;
     Some (d', if nanoseconds_left d' \<le> 0 then dt_tasks d' else []) }"

text \<open>
  The loop of \<open>add_deferred_task\<close>: \<open>ns\<close> is the time still to wait after the entries passed so far.
  An entry the new one is put in front of keeps a positive count, so its \<open>pass_time\<close> runs no task.
\<close>

fun add_loop :: "'t \<Rightarrow> int \<Rightarrow> 't deferred_tasks list \<Rightarrow> 't deferred_tasks list option" where
  "add_loop t ns [] = do { d \<leftarrow> DeferredTasks_new ns t; Some [d] }"
| "add_loop t wait_time (d # ds) =
     (let ns = wait_time - nanoseconds_left d
      in if ns < 0 then do {
           tasks \<leftarrow> DeferredTasks_new wait_time t;
           (d', _) \<leftarrow> pass_time wait_time d;
           Some (tasks # d' # ds) }
         else if ns = 0 then Some (add_task t d # ds)
         else do { ds' \<leftarrow> add_loop t ns ds; Some (d # ds') })"

section \<open>The clock\<close>

record 't clock =
  clk_time :: timespec
  clk_then :: timespec
  spill_ns :: int
  deferred :: "'t deferred_tasks list"

definition Clock_new :: "timespec \<Rightarrow> 't clock option" where
  "Clock_new start = do {
     check (0 \<le> tv_sec start);
     check (0 \<le> tv_nsec start);
     Some \<lparr>clk_time = start, clk_then = \<lparr>tv_sec = -1, tv_nsec = 0\<rparr>, spill_ns = 0, deferred = []\<rparr> }"

definition add_deferred_task :: "'t \<Rightarrow> int \<Rightarrow> 't clock \<Rightarrow> 't clock option" where
  "add_deferred_task t ns c = do {
     check (0 < ns);
     if deferred c = [] then do {
       d \<leftarrow> DeferredTasks_new ns t;
       Some (c\<lparr>deferred := [d]\<rparr>) }
     else do {
       q \<leftarrow> add_loop t ns (deferred c);
       Some (c\<lparr>deferred := q\<rparr>) } }"

definition get_time :: "'t clock \<Rightarrow> timespec" where
  "get_time c = clk_time c"

definition set_time :: "timespec \<Rightarrow> 't clock \<Rightarrow> 't clock option" where
  "set_time t c = do { check (0 \<le> tv_sec t \<and> 0 \<le> tv_nsec t); Some (c\<lparr>clk_time := t\<rparr>) }"

fun add_all :: "(int \<times> 't) list \<Rightarrow> 't clock \<Rightarrow> 't clock option" where
  "add_all [] c = Some c"
| "add_all ((ns, t) # ts) c = do { c' \<leftarrow> add_deferred_task t ns c; add_all ts c' }"

type_synonym ('t, 'e) exec = "'t \<Rightarrow> timespec \<Rightarrow> 'e \<Rightarrow> ('e \<times> (int \<times> 't) list) option"

text \<open>The loop of \<open>pass_time\<close> over the tasks that come due.\<close>

fun run_tasks :: "('t, 'e) exec \<Rightarrow> 't list \<Rightarrow> 'e \<Rightarrow> 't clock \<Rightarrow> ('e \<times> 't clock) option" where
  "run_tasks exec [] e c = Some (e, c)"
| "run_tasks exec (t # ts) e c = do {
     (e', adds) \<leftarrow> exec t (get_time c) e;
     c' \<leftarrow> add_all adds c;
     run_tasks exec ts e' c' }"

text \<open>
  The loop of \<open>increment_time\<close>. When the last entry has come due with time left over, the loop
  reads \<open>front()\<close> of the empty list before its test ends it; the value is not used. While the tasks
  of the front entry run it is still in the queue, and no new entry is put in front of it
  (\<open>run_tasks_front\<close> below), so it is the entry that \<open>pop_front\<close> removes.
\<close>

function increment_loop :: "('t, 'e) exec \<Rightarrow> int \<Rightarrow> 'e \<Rightarrow> 't clock \<Rightarrow> ('e \<times> 't clock) option" where
  "increment_loop exec ns e c =
     (case deferred c of
        [] \<Rightarrow> Some (e, c)
      | d # ds \<Rightarrow>
          Option.bind (pass_time ns d) (\<lambda>(d', due).
          Option.bind (run_tasks exec due e (c\<lparr>deferred := d' # ds\<rparr>)) (\<lambda>(e1, c1).
            let ns' = nanoseconds_left d';
                c2 = (if ns' \<le> 0 then c1\<lparr>deferred := tl (deferred c1)\<rparr> else c1)
            in if 0 \<le> ns' then Some (e1, c2) else increment_loop exec (- ns') e1 c2)))"
  by pat_completeness auto
termination
  by (relation "measure (\<lambda>(exec, ns, e, c). nat ns)") (auto simp: pass_time_def Let_def)

declare increment_loop.simps [simp del]

definition increment_time :: "('t, 'e) exec \<Rightarrow> int \<Rightarrow> 'e \<Rightarrow> 't clock \<Rightarrow> ('e \<times> 't clock) option" where
  "increment_time exec ns e c = do {
     check (0 < ns);
     let c1 = c\<lparr>clk_time := timespecadd (clk_time c) \<lparr>tv_sec = 0, tv_nsec = ns\<rparr>\<rparr>;
     if deferred c1 = [] then Some (e, c1) else increment_loop exec ns e c1 }"

text \<open>
  \<open>pass_realtime\<close>: \<open>first\<close> is what \<open>gettimeofday\<close> returns in the first call of the routine,
  \<open>current\<close> what it returns afterwards.
\<close>

fun increment_seconds ::
  "('t, 'e) exec \<Rightarrow> u32 \<Rightarrow> nat \<Rightarrow> 'e \<Rightarrow> 't clock \<Rightarrow> ('e \<times> 't clock) option" where
  "increment_seconds exec ratio 0 e c = Some (e, c)"
| "increment_seconds exec ratio (Suc n) e c = do {
     (e', c') \<leftarrow> increment_time exec (uint (1000000000 div ratio)) e c;
     increment_seconds exec ratio n e' c' }"

definition pass_realtime ::
  "('t, 'e) exec \<Rightarrow> u32 \<Rightarrow> timeval \<Rightarrow> timeval \<Rightarrow> 'e \<Rightarrow> 't clock \<Rightarrow> ('e \<times> 't clock) option" where
  "pass_realtime exec ratio first current e c = do {
     check (ratio > 0);
     let c0 = (if tv_sec (clk_then c) = -1 then c\<lparr>clk_then := TIMEVAL_TO_TIMESPEC first\<rparr> else c);
     let now = timespecsub (TIMEVAL_TO_TIMESPEC current) (clk_then c0);
     (e1, c1) \<leftarrow> increment_seconds exec ratio (nat (tv_sec now)) e c0;
     let increase = (tv_nsec now + spill_ns c1) div uint ratio;
     (e2, c2) \<leftarrow> (if increase = 0
        then Some (e1, c1\<lparr>spill_ns := tv_nsec now + spill_ns c1\<rparr>)
        else increment_time exec increase e1 (c1\<lparr>spill_ns := 0\<rparr>));
     Some (e2, c2\<lparr>clk_then := TIMEVAL_TO_TIMESPEC current\<rparr>) }"

lemmas clock_defs [cube_defs] =
  timespecadd_def timespecsub_def TIMEVAL_TO_TIMESPEC_def DeferredTasks_new_def add_task_def
  pass_time_def Clock_new_def add_deferred_task_def get_time_def set_time_def increment_time_def
  pass_realtime_def

end
