(* ===== verification/Devices.thy ===== *)
theory Devices
  imports Clock Mapper Int_Ctrl
begin

unbundle bit_operations_syntax

text \<open>
  The memory-mapped devices without a terminal: \<open>devicemap.cc\<close> (how a device that only implements
  words answers halfwords and bytes), \<open>clockdev.cc\<close>, \<open>decrtc.cc\<close>, \<open>deccsr.cc\<close>, \<open>decstat.cc\<close>,
  \<open>haltdev.cc\<close>, \<open>testdev.cc\<close> and \<open>rs232c.cc\<close>. A device that inherits \<open>DeviceInt\<close> holds its interrupt
  lines as a field. \<open>fetch_word\<close> returns the word and the new device, \<open>store_word\<close> the new device;
  a device that queues tasks also returns its calls of \<open>add_deferred_task\<close>, in order, as pairs of a
  delay and a job. The byte order of the processor and of the mapper is the same option.
\<close>

abbreviation (input) CTL_IE :: u32 where "CTL_IE \<equiv> 2"
abbreviation (input) CTL_RDY :: u32 where "CTL_RDY \<equiv> 1"

section \<open>Halfwords and bytes of a device (devicemap.cc)\<close>

definition DeviceMap_fetch_halfword ::
  "mapper \<Rightarrow> (u32 \<Rightarrow> 'd \<Rightarrow> (u32 \<times> 'd) option) \<Rightarrow> u32 \<Rightarrow> 'd \<Rightarrow> (u16 \<times> 'd) option" where
  "DeviceMap_fetch_halfword m fetch_word offset d = do {
     (w, d') \<leftarrow> fetch_word (offset AND NOT 3) d;
     let word_data = host_to_mips_word m w;
     let h = drop_bit 1 (offset AND 2);
     let h = (if \<not> opt_bigendian m then 1 - h else h);
     rv \<leftarrow> (if h = 0 then Some (ucast (drop_bit 16 word_data AND 0xffff) :: u16)
           else if h = 1 then Some (ucast (word_data AND 0xffff))
           else None);
     Some (mips_to_host_halfword m rv, d') }"

definition DeviceMap_fetch_byte ::
  "mapper \<Rightarrow> (u32 \<Rightarrow> 'd \<Rightarrow> (u32 \<times> 'd) option) \<Rightarrow> u32 \<Rightarrow> 'd \<Rightarrow> (u8 \<times> 'd) option" where
  "DeviceMap_fetch_byte m fetch_word offset d = do {
     (w, d') \<leftarrow> fetch_word (offset AND NOT 3) d;
     let word_data = host_to_mips_word m w;
     let b = offset AND 3;
     let b = (if \<not> opt_bigendian m then 3 - b else b);
     rv \<leftarrow> (if b = 0 then Some (ucast (drop_bit 24 word_data AND 0xff) :: u8)
           else if b = 1 then Some (ucast (drop_bit 16 word_data AND 0xff))
           else if b = 2 then Some (ucast (drop_bit 8 word_data AND 0xff))
           else if b = 3 then Some (ucast (word_data AND 0xff))
           else None);
     Some (rv, d') }"

definition DeviceMap_store_halfword ::
  "mapper \<Rightarrow> (u32 \<Rightarrow> u32 \<Rightarrow> 'd \<Rightarrow> 'r option) \<Rightarrow> u32 \<Rightarrow> u16 \<Rightarrow> 'd \<Rightarrow> 'r option" where
  "DeviceMap_store_halfword m store_word offset data d = do {
     let word_offset = offset AND 0xfffffffc;
     let h = drop_bit 1 (offset AND 2);
     let h = (if \<not> opt_bigendian m then 1 - h else h);
     let data' = host_to_mips_halfword m data;
     word_data \<leftarrow> (if h = 0 then Some (push_bit 16 (ucast data') AND 0xffff0000 :: u32)
                  else if h = 1 then Some (ucast data' AND 0x0000ffff)
                  else None);
     store_word word_offset (mips_to_host_word m word_data) d }"

definition DeviceMap_store_byte ::
  "mapper \<Rightarrow> (u32 \<Rightarrow> u32 \<Rightarrow> 'd \<Rightarrow> 'r option) \<Rightarrow> u32 \<Rightarrow> u8 \<Rightarrow> 'd \<Rightarrow> 'r option" where
  "DeviceMap_store_byte m store_word offset data d = do {
     let word_offset = offset AND 0xfffffffc;
     let b = offset AND 3;
     let b = (if \<not> opt_bigendian m then 3 - b else b);
     word_data \<leftarrow> (if b = 0 then Some (push_bit 24 (ucast data) AND 0xff000000 :: u32)
                  else if b = 1 then Some (push_bit 16 (ucast data) AND 0x00ff0000)
                  else if b = 2 then Some (push_bit 8 (ucast data) AND 0x0000ff00)
                  else if b = 3 then Some (ucast data AND 0x000000ff)
                  else None);
     store_word word_offset (mips_to_host_word m word_data) d }"

section \<open>The clock device (clockdev.cc)\<close>

text \<open>A task object: \<open>task()\<close> does nothing once the task is cancelled (\<open>task.h\<close>).\<close>

definition CancelableTask_task :: "bool \<Rightarrow> ('e \<Rightarrow> ('e \<times> 'a list) option) \<Rightarrow> 'e \<Rightarrow> ('e \<times> 'a list) option" where
  "CancelableTask_task needed real_task e = (if needed then real_task e else Some (e, []))"

datatype clockdev_job = Clock_Trigger

record clock_device =
  cd_int :: device_int
  cd_irq :: u32
  frequency_ns :: int
  cd_ready :: bool
  cd_interrupt_enabled :: bool

definition ClockDevice_new :: "u32 \<Rightarrow> int \<Rightarrow> (clock_device \<times> (int \<times> clockdev_job) list) option" where
  "ClockDevice_new irq freq = do {
     check (0 < freq);
     check (irq \<noteq> IRQ0 \<and> irq \<noteq> IRQ1);
     Some (\<lparr>cd_int = DeviceInt_new, cd_irq = irq, frequency_ns = freq, cd_ready = False,
             cd_interrupt_enabled = False\<rparr>, [(freq, Clock_Trigger)]) }"

definition cd_drive :: "(u32 \<Rightarrow> device_int \<Rightarrow> device_int) \<Rightarrow> clock_device \<Rightarrow> clock_device" where
  "cd_drive f d = d\<lparr>cd_int := f (cd_irq d) (cd_int d)\<rparr>"

definition ready_clock :: "clock_device \<Rightarrow> clock_device \<times> (int \<times> clockdev_job) list" where
  "ready_clock d =
     (let d1 = d\<lparr>cd_ready := True\<rparr>;
          d2 = (if cd_interrupt_enabled d1 then cd_drive assertInt d1 else d1)
      in (d2, [(frequency_ns d2, Clock_Trigger)]))"

definition unready_clock :: "clock_device \<Rightarrow> clock_device" where
  "unready_clock d = cd_drive deassertInt (d\<lparr>cd_ready := False\<rparr>)"

definition ClockDevice_fetch_word ::
  "timeval \<Rightarrow> 't clock \<Rightarrow> u32 \<Rightarrow> clock_device \<Rightarrow> (u32 \<times> clock_device) option" where
  "ClockDevice_fetch_word real_time c offset d =
     (let n = offset div 4
      in if n = 0 then Some (word_of_int (tvl_sec real_time), d)
         else if n = 1 then Some (word_of_int (tvl_usec real_time), d)
         else if n = 2 then Some (word_of_int (tv_sec (get_time c)), d)
         else if n = 3 then Some (word_of_int (tv_nsec (get_time c) div 1000), d)
         else if n = 4 then
           (let w = (if cd_interrupt_enabled d then CTL_RDY else 0);
                w = w OR (if cd_ready d then CTL_RDY else 0)
            in Some (w, unready_clock d))
         else None)"

definition ClockDevice_store_word ::
  "u32 \<Rightarrow> u32 \<Rightarrow> clock_device \<times> 't clock \<Rightarrow> (clock_device \<times> 't clock) option" where
  "ClockDevice_store_word offset data dc =
     (let (d, c) = dc; n = offset div 4
      in if n = 0 \<or> n = 1 then Some (d, c)
         else if n = 2 then
           (if neg32 data then Some (d, c)
            else do { c' \<leftarrow> set_time \<lparr>tv_sec = uint data, tv_nsec = tv_nsec (get_time c)\<rparr> c; Some (d, c') })
         else if n = 3 then
           (if neg32 data then Some (d, c)
            else do { c' \<leftarrow> set_time \<lparr>tv_sec = tv_sec (get_time c), tv_nsec = uint data\<rparr> c; Some (d, c') })
         else if n = 4 then
           (let d1 = d\<lparr>cd_interrupt_enabled := (data AND CTL_IE \<noteq> 0)\<rparr>
            in Some (if cd_interrupt_enabled d1 \<and> cd_ready d1 then cd_drive assertInt d1 else d1, c))
         else None)"

section \<open>The DECstation real-time clock (decrtc.cc)\<close>

text \<open>The part of \<open>gmtime\<close> the device reads: days are counted from 1 January 1970, a Thursday.\<close>

record host_tm =
  tm_sec :: nat
  tm_min :: nat
  tm_hour :: nat
  tm_wday :: nat
  tm_mon :: nat
  tm_year :: nat

definition leap_year :: "nat \<Rightarrow> bool" where
  "leap_year y \<longleftrightarrow> (4 dvd y \<and> \<not> 100 dvd y) \<or> 400 dvd y"

definition year_days :: "nat \<Rightarrow> nat" where
  "year_days y = (if leap_year y then 366 else 365)"

definition month_days :: "nat \<Rightarrow> nat list" where
  "month_days y = [31, if leap_year y then 29 else 28, 31, 30, 31, 30, 31, 31, 30, 31, 30, 31]"

function civil_year :: "nat \<Rightarrow> nat \<Rightarrow> nat \<times> nat" where
  "civil_year y days = (if days < year_days y then (y, days) else civil_year (y + 1) (days - year_days y))"
  by pat_completeness auto
termination
  by (relation "measure snd") (auto simp: year_days_def split: if_splits)

fun civil_month :: "nat list \<Rightarrow> nat \<Rightarrow> nat" where
  "civil_month [] days = 0"
| "civil_month (n # ns) days = (if days < n then 0 else Suc (civil_month ns (days - n)))"

definition gmtime :: "int \<Rightarrow> host_tm" where
  "gmtime t =
     (let s = nat t; days = s div 86400; r = s mod 86400; (y, yday) = civil_year 1970 days
      in \<lparr>tm_sec = r mod 60, tm_min = r div 60 mod 60, tm_hour = r div 3600,
          tm_wday = (days + 4) mod 7, tm_mon = civil_month (month_days y) yday, tm_year = y - 1900\<rparr>)"

definition int_freqs :: "u32 list" where
  "int_freqs = [0, 3906250, 7812500, 122070, 244141, 488281, 976562, 1953125,
     3906250, 7812500, 15625000, 31250000, 62500000, 125000000, 250000000, 500000000]"

abbreviation (input) RTC_SEC :: nat where "RTC_SEC \<equiv> 0"
abbreviation (input) RTC_MIN :: nat where "RTC_MIN \<equiv> 2"
abbreviation (input) RTC_HOUR :: nat where "RTC_HOUR \<equiv> 4"
abbreviation (input) RTC_DOW :: nat where "RTC_DOW \<equiv> 6"
abbreviation (input) RTC_MON :: nat where "RTC_MON \<equiv> 8"
abbreviation (input) RTC_YEAR :: nat where "RTC_YEAR \<equiv> 9"
abbreviation (input) RTC_REGA :: nat where "RTC_REGA \<equiv> 10"
abbreviation (input) RTC_REGB :: nat where "RTC_REGB \<equiv> 11"
abbreviation (input) RTC_REGC :: nat where "RTC_REGC \<equiv> 12"
abbreviation (input) RTC_REGD :: nat where "RTC_REGD \<equiv> 13"
abbreviation (input) REGA_UIP :: u8 where "REGA_UIP \<equiv> 0x80"
abbreviation (input) REGA_RSX :: u8 where "REGA_RSX \<equiv> 0x0f"
abbreviation (input) REGB_PIE :: u8 where "REGB_PIE \<equiv> 0x40"

datatype rtc_job = RTC_Trigger

record decrtc =
  rtc_int :: device_int
  rtc_irq :: u32
  rtc_reg :: "u8 list"
  write_masks :: "u8 list"
  rtc_frequency_ns :: u32
  rtc_interrupt_enable :: bool

definition DECRTCDevice_new :: "u32 \<Rightarrow> decrtc" where
  "DECRTCDevice_new irq =
     \<lparr>rtc_int = DeviceInt_new, rtc_irq = irq,
      rtc_reg = (replicate 64 0)[RTC_REGA := 0x20],
      write_masks = (replicate 64 0xff)[RTC_REGA := 0x7f, RTC_REGB := 0xd7, RTC_REGC := 0, RTC_REGD := 0],
      rtc_frequency_ns = 0, rtc_interrupt_enable = False\<rparr>"

definition update_host_time :: "int \<Rightarrow> decrtc \<Rightarrow> decrtc" where
  "update_host_time real_time d =
     (let h = gmtime real_time
      in d\<lparr>rtc_reg := (rtc_reg d)
            [RTC_SEC := of_nat (tm_sec h), RTC_MIN := of_nat (tm_min h), RTC_HOUR := of_nat (tm_hour h),
             RTC_DOW := of_nat (1 + tm_wday h), RTC_MON := of_nat (1 + tm_mon h),
             RTC_YEAR := of_nat (tm_year h mod 100)]\<rparr>)"

definition rtc_ready_clock :: "decrtc \<Rightarrow> decrtc \<times> (int \<times> rtc_job) list" where
  "rtc_ready_clock d =
     (let d1 = (if rtc_interrupt_enable d then d\<lparr>rtc_int := assertInt (rtc_irq d) (rtc_int d)\<rparr> else d)
      in (d1, if rtc_frequency_ns d1 > 0 then [(uint (rtc_frequency_ns d1), RTC_Trigger)] else []))"

definition rtc_unready_clock :: "decrtc \<Rightarrow> decrtc" where
  "rtc_unready_clock d = d\<lparr>rtc_int := deassertInt (rtc_irq d) (rtc_int d)\<rparr>"

definition DECRTCDevice_fetch_word :: "mapper \<Rightarrow> 't clock \<Rightarrow> u32 \<Rightarrow> decrtc \<Rightarrow> (u32 \<times> decrtc) option" where
  "DECRTCDevice_fetch_word m c offset d =
     (let n = unat (offset div 4);
          d1 = (if n = RTC_REGA then
                  (if 1000000000 < tv_nsec (get_time c) + (244 + 1948) * 1000
                   then d\<lparr>rtc_reg := (rtc_reg d)[n := rtc_reg d ! n OR REGA_UIP]\<rparr>
                   else d\<lparr>rtc_reg := (rtc_reg d)[n := rtc_reg d ! n AND NOT REGA_UIP]\<rparr>)
                else d);
          d2 = (if n < 10 then update_host_time (tv_sec (get_time c)) d1 else d1);
          rv = (if n < 64 then ucast (rtc_reg d2 ! n) else 0);
          d3 = (if n = RTC_REGC then rtc_unready_clock d2 else d2)
      in Some (mips_to_host_word m rv, d3))"

definition DECRTCDevice_store_word ::
  "mapper \<Rightarrow> u32 \<Rightarrow> u32 \<Rightarrow> decrtc \<Rightarrow> (decrtc \<times> (int \<times> rtc_job) list) option" where
  "DECRTCDevice_store_word m offset odata d =
     (let data = host_to_mips_word m odata;
          old = rtc_reg d ! RTC_REGB AND REGB_PIE \<noteq> 0;
          n = unat (offset div 4);
          d1 = (if n < 64 then d\<lparr>rtc_reg := (rtc_reg d)
                 [n := (rtc_reg d ! n AND NOT (write_masks d ! n)) OR (ucast data AND write_masks d ! n)]\<rparr>
                else d)
      in if n = RTC_REGA then
           Some (d1\<lparr>rtc_frequency_ns := int_freqs ! unat (rtc_reg d1 ! RTC_REGA AND REGA_RSX)\<rparr>, [])
         else if n = RTC_REGB then
           (let new = rtc_reg d1 ! RTC_REGB AND REGB_PIE \<noteq> 0;
                (d2, adds) = (if \<not> old \<and> new then rtc_ready_clock d1
                              else if old \<and> \<not> new then (rtc_unready_clock d1, [])
                              else (d1, []))
            in Some (d2\<lparr>rtc_interrupt_enable := new\<rparr>, adds))
         else Some (d1, []))"

section \<open>The DECstation control and status register (deccsr.cc)\<close>

text \<open>The constructor sets only the line: the registers start with arbitrary values.\<close>

abbreviation (input) CSR_IOINTEN :: u32 where "CSR_IOINTEN \<equiv> 0x00ff0000"
abbreviation (input) CSR_RW_BITS :: u32 where "CSR_RW_BITS \<equiv> 0x00ffff00"
abbreviation (input) CSR_LEDS :: u32 where "CSR_LEDS \<equiv> 0x000000ff"

record deccsr =
  csr_int :: device_int
  robits :: u32
  rwbits :: u32
  ioint :: u8
  leds :: u32
  csr_irq :: u32

definition DECCSRDevice_new :: "u32 \<Rightarrow> u32 \<Rightarrow> u32 \<Rightarrow> u8 \<Rightarrow> u32 \<Rightarrow> deccsr" where
  "DECCSRDevice_new irq robits0 rwbits0 ioint0 leds0 =
     \<lparr>csr_int = DeviceInt_new, robits = robits0, rwbits = rwbits0, ioint = ioint0, leds = leds0, csr_irq = irq\<rparr>"

definition update_status_reg :: "deccsr \<Rightarrow> u32" where
  "update_status_reg d = robits d OR rwbits d OR ucast (ioint d)"

definition CSR_INTERRUPT_PENDING :: "deccsr \<Rightarrow> bool" where
  "CSR_INTERRUPT_PENDING d \<longleftrightarrow> drop_bit 16 (rwbits d AND CSR_IOINTEN) AND ucast (ioint d) \<noteq> 0"

definition CSR_INTERRUPT_CHECK :: "deccsr \<Rightarrow> deccsr" where
  "CSR_INTERRUPT_CHECK d =
     d\<lparr>csr_int := (if CSR_INTERRUPT_PENDING d then assertInt else deassertInt) (csr_irq d) (csr_int d)\<rparr>"

definition update_control_reg :: "u32 \<Rightarrow> deccsr \<Rightarrow> deccsr" where
  "update_control_reg data d =
     CSR_INTERRUPT_CHECK (d\<lparr>rwbits := data AND CSR_RW_BITS, leds := data AND CSR_LEDS\<rparr>)"

definition DECCSRDevice_fetch_word :: "u32 \<Rightarrow> deccsr \<Rightarrow> (u32 \<times> deccsr) option" where
  "DECCSRDevice_fetch_word offset d = Some (update_status_reg d, d)"

definition DECCSRDevice_store_word :: "u32 \<Rightarrow> u32 \<Rightarrow> deccsr \<Rightarrow> deccsr option" where
  "DECCSRDevice_store_word offset data d = Some (update_control_reg data d)"

definition DECCSRDevice_assertInt :: "u8 \<Rightarrow> deccsr \<Rightarrow> deccsr" where
  "DECCSRDevice_assertInt line d = CSR_INTERRUPT_CHECK (d\<lparr>ioint := ioint d OR line\<rparr>)"

definition DECCSRDevice_deassertInt :: "u8 \<Rightarrow> deccsr \<Rightarrow> deccsr" where
  "DECCSRDevice_deassertInt line d = CSR_INTERRUPT_CHECK (d\<lparr>ioint := ioint d AND NOT line\<rparr>)"

section \<open>The DECstation error registers (decstat.cc)\<close>

text \<open>
  Both registers start with arbitrary values, and so does the mapper's record of the last bus
  error: reading it before the first bus error is \<^const>\<open>None\<close>.
\<close>

abbreviation (input) ERRADR_VALID :: u32 where "ERRADR_VALID \<equiv> 0x80000000"
abbreviation (input) ERRADR_CPU :: u32 where "ERRADR_CPU \<equiv> 0x40000000"
abbreviation (input) ERRADR_WRITE :: u32 where "ERRADR_WRITE \<equiv> 0x20000000"
abbreviation (input) ERRADR_ADDRESS :: u32 where "ERRADR_ADDRESS \<equiv> 0x07FFFFFF"

record decstat =
  chksyn_reg :: u32
  erradr_reg :: u32

definition erradr_of :: "client \<Rightarrow> bus_error_info \<Rightarrow> u32" where
  "erradr_of cpu berr =
     (let r = ERRADR_VALID;
          r = (if berr_mode berr = DATASTORE then r OR ERRADR_WRITE else r);
          r = (if berr_client berr = cpu then r OR ERRADR_CPU else r);
          a = drop_bit 2 (berr_addr berr);
          a = (a AND NOT 0x0fff) OR ((a AND 0x0fff) + 5);
          a = a AND ERRADR_ADDRESS
      in r OR a)"

definition DECStatDevice_fetch_word :: "mapper \<Rightarrow> client \<Rightarrow> u32 \<Rightarrow> decstat \<Rightarrow> (u32 \<times> decstat) option" where
  "DECStatDevice_fetch_word m cpu offset d =
     (if offset AND 0x80000 = 0 then Some (mips_to_host_word m (chksyn_reg d), d)
      else do {
        berr \<leftarrow> last_berr_info m;
        let d' = d\<lparr>erradr_reg := (if berr_valid berr then erradr_of cpu berr
                                 else erradr_reg d AND NOT ERRADR_VALID)\<rparr>;
        Some (mips_to_host_word m (erradr_reg d'), d') })"

definition DECStatDevice_store_word :: "u32 \<Rightarrow> u32 \<Rightarrow> decstat \<Rightarrow> decstat option" where
  "DECStatDevice_store_word offset data d =
     Some (if offset AND 0x80000 = 0 then d\<lparr>chksyn_reg := 0\<rparr> else d\<lparr>erradr_reg := 0\<rparr>)"

section \<open>The halt device, the test device and the serial output\<close>

text \<open>A store to the halt device returns whether it halts the machine.\<close>

definition HaltDevice_fetch_word :: "u32 \<Rightarrow> u32 option" where
  "HaltDevice_fetch_word offset = (if offset div 4 = 0 then Some 0 else None)"

definition HaltDevice_store_word :: "u32 \<Rightarrow> u32 \<Rightarrow> bool option" where
  "HaltDevice_store_word offset data = (if offset div 4 = 0 then Some (data \<noteq> 0) else None)"

definition TestDev_new :: "u32 list" where
  "TestDev_new = replicate 64 0"

definition TestDev_fetch_word :: "mapper \<Rightarrow> u32 \<Rightarrow> u32 list \<Rightarrow> (u32 \<times> u32 list) option" where
  "TestDev_fetch_word m offset ws = do {
     check (unat (offset div 4) < length ws);
     Some (mips_to_host_word m (ws ! unat (offset div 4)), ws) }"

definition TestDev_store_word :: "mapper \<Rightarrow> u32 \<Rightarrow> u32 \<Rightarrow> u32 list \<Rightarrow> u32 list option" where
  "TestDev_store_word m offset odata ws = do {
     check (unat (offset div 4) < length ws);
     Some (ws[unat (offset div 4) := host_to_mips_word m odata]) }"

definition Rs232c_fetch_word :: "u32 \<Rightarrow> u32" where
  "Rs232c_fetch_word offset = 2"

text \<open>A store returns the characters written to the output.\<close>

definition Rs232c_store_word :: "u32 \<Rightarrow> u32 \<Rightarrow> u8 list" where
  "Rs232c_store_word offset data =
     (if offset = 0 \<and> (data AND 0x00FF0000) > 0 then [ucast (drop_bit 16 (data AND 0x00FF0000))] else [])"

lemmas device_defs [cube_defs] =
  DeviceMap_fetch_halfword_def DeviceMap_fetch_byte_def DeviceMap_store_halfword_def
  DeviceMap_store_byte_def ClockDevice_new_def cd_drive_def ready_clock_def unready_clock_def
  ClockDevice_fetch_word_def ClockDevice_store_word_def DECRTCDevice_new_def update_host_time_def
  rtc_ready_clock_def rtc_unready_clock_def DECRTCDevice_fetch_word_def DECRTCDevice_store_word_def
  DECCSRDevice_new_def update_status_reg_def CSR_INTERRUPT_PENDING_def CSR_INTERRUPT_CHECK_def
  update_control_reg_def DECCSRDevice_fetch_word_def DECCSRDevice_store_word_def
  DECCSRDevice_assertInt_def DECCSRDevice_deassertInt_def erradr_of_def DECStatDevice_fetch_word_def
  DECStatDevice_store_word_def HaltDevice_fetch_word_def HaltDevice_store_word_def TestDev_new_def
  TestDev_fetch_word_def TestDev_store_word_def Rs232c_fetch_word_def Rs232c_store_word_def

end
