(* ===== verification/Terminal.thy ===== *)
theory Terminal
  imports Devices
begin

unbundle bit_operations_syntax

text \<open>
  \<open>terminalcontroller.cc\<close>: the keyboards and displays of up to 16 terminal lines, with their polling
  tasks. A device derived from the controller is a record that extends \<open>terminal\<close>; a virtual method
  the controller calls is an argument. A task object is a pair of the number it was allocated with
  and what it does; a pointer to one is that number, and \<open>cancelled\<close> holds the numbers of the
  cancelled ones. The host's file descriptors are the argument \<open>h\<close>: which are terminals, whether
  \<open>tcgetattr\<close>, \<open>tcsetattr\<close> and \<open>write\<close> succeed, which descriptors \<open>select\<close> reports, and the byte a
  \<open>read\<close> returns, if any. Characters written to the host are kept in \<open>written\<close>; saving and restoring
  the modes of a terminal and closing descriptors has no other effect here. \<open>select\<close> itself does not
  fail.
\<close>

record tty_host =
  is_tty :: "int \<Rightarrow> bool"
  tcgetattr_ok :: "int \<Rightarrow> bool"
  tcsetattr_ok :: "int \<Rightarrow> bool"
  fd_readable :: "int \<Rightarrow> bool"
  fd_read :: "int \<Rightarrow> u8 option"
  fd_write_ok :: "int \<Rightarrow> bool"

datatype term_job = Keyboard_Poll | Keyboard_Repoll nat | Display_Delay nat

type_synonym term_task = "nat \<times> term_job"

record line_state =
  tty_fd :: int
  keyboard_repoll :: "nat option"
  display_delay :: "nat option"
  keyboard_char :: u8
  keyboard_ready :: bool
  display_ready :: bool

record terminal =
  keyboard_poll_ns :: int
  keyboard_repoll_ns :: int
  display_ready_delay_ns :: int
  keyboard_poll :: "nat option"
  max_fd :: int
  unready_keyboards :: "int list"
  lines :: "line_state list"
  next_task :: nat
  cancelled :: "nat list"
  written :: "(int \<times> u8) list"
  attn :: bool

abbreviation (input) MAX_TERMINALS :: nat where "MAX_TERMINALS \<equiv> 16"

definition line_new :: line_state where
  "line_new = \<lparr>tty_fd = -1, keyboard_repoll = None, display_delay = None, keyboard_char = 0,
     keyboard_ready = False, display_ready = True\<rparr>"

definition TerminalController_new ::
  "int \<Rightarrow> int \<Rightarrow> int \<Rightarrow> (terminal \<times> (int \<times> term_task) list) option" where
  "TerminalController_new poll_ns repoll_ns delay_ns = do {
     check (0 < poll_ns);
     check (0 < repoll_ns);
     check (0 < delay_ns);
     Some (\<lparr>keyboard_poll_ns = poll_ns, keyboard_repoll_ns = repoll_ns, display_ready_delay_ns = delay_ns,
             keyboard_poll = Some 0, max_fd = -1, unready_keyboards = [],
             lines = replicate MAX_TERMINALS line_new, next_task = 1, cancelled = [], written = [],
             attn = False\<rparr>, [(poll_ns, (0, Keyboard_Poll))]) }"

definition line_connected :: "nat \<Rightarrow> 'a terminal_scheme \<Rightarrow> bool" where
  "line_connected line t \<longleftrightarrow> line < MAX_TERMINALS \<and> tty_fd (lines t ! line) \<noteq> -1"

definition set_line :: "nat \<Rightarrow> (line_state \<Rightarrow> line_state) \<Rightarrow> 'a terminal_scheme \<Rightarrow> 'a terminal_scheme" where
  "set_line line f t = t\<lparr>lines := (lines t)[line := f (lines t ! line)]\<rparr>"

definition FD_SET :: "int \<Rightarrow> 'a terminal_scheme \<Rightarrow> 'a terminal_scheme" where
  "FD_SET fd t = t\<lparr>unready_keyboards := List.insert fd (unready_keyboards t)\<rparr>"

definition FD_CLR :: "int \<Rightarrow> 'a terminal_scheme \<Rightarrow> 'a terminal_scheme" where
  "FD_CLR fd t = t\<lparr>unready_keyboards := removeAll fd (unready_keyboards t)\<rparr>"

definition cancel_task :: "nat \<Rightarrow> 'a terminal_scheme \<Rightarrow> 'a terminal_scheme" where
  "cancel_task tid t = t\<lparr>cancelled := tid # cancelled t\<rparr>"

definition new_task :: "'a terminal_scheme \<Rightarrow> nat \<times> 'a terminal_scheme" where
  "new_task t = (next_task t, t\<lparr>next_task := Suc (next_task t)\<rparr>)"

section \<open>Connecting and removing lines\<close>

definition prepare_tty :: "tty_host \<Rightarrow> nat \<Rightarrow> 'a terminal_scheme \<Rightarrow> bool option" where
  "prepare_tty h line t = do {
     check (line_connected line t);
     let fd = tty_fd (lines t ! line);
     Some (if \<not> is_tty h fd then True else tcsetattr_ok h fd) }"

definition connect_terminal ::
  "tty_host \<Rightarrow> int \<Rightarrow> nat \<Rightarrow> 'a terminal_scheme \<Rightarrow> (bool \<times> 'a terminal_scheme) option" where
  "connect_terminal h fd line t =
     (if line_connected line t then Some (False, t)
      else do {
        check (line < MAX_TERMINALS);
        check (keyboard_repoll (lines t ! line) = None);
        check (display_delay (lines t ! line) = None);
        if is_tty h fd \<and> \<not> tcgetattr_ok h fd then Some (False, t)
        else do {
          let t1 = set_line line (tty_fd_update (\<lambda>_. fd)) t;
          ok \<leftarrow> prepare_tty h line t1;
          if \<not> ok then Some (False, set_line line (tty_fd_update (\<lambda>_. -1)) t1)
          else do {
            let t2 = set_line line (\<lambda>l. l\<lparr>keyboard_char := 0, keyboard_ready := False,
                       display_ready := True\<rparr>) t1;
            let t3 = FD_SET fd t2;
            let t4 = (if max_fd t3 < fd + 1 then t3\<lparr>max_fd := fd + 1\<rparr> else t3);
            check (line_connected line t4);
            Some (True, t4) } } })"

text \<open>The largest descriptor of the connected lines, one more; -1 when there is none.\<close>

definition recompute_max_fd :: "'a terminal_scheme \<Rightarrow> int" where
  "recompute_max_fd t =
     (let m = foldl (\<lambda>m l. if m < tty_fd l then tty_fd l else m) (-1) (lines t)
      in if m \<noteq> -1 then m + 1 else m)"

definition remove_terminal :: "nat \<Rightarrow> 'a terminal_scheme \<Rightarrow> 'a terminal_scheme option" where
  "remove_terminal line t = do {
     check (line < MAX_TERMINALS);
     let l = lines t ! line;
     let fd = tty_fd l;
     if fd = -1 then do {
       check (keyboard_repoll l = None);
       check (display_delay l = None);
       Some t }
     else do {
       let t1 = FD_CLR fd (set_line line (tty_fd_update (\<lambda>_. -1)) t);
       let t2 = (case keyboard_repoll l of None \<Rightarrow> t1
                 | Some tid \<Rightarrow> set_line line (keyboard_repoll_update (\<lambda>_. None)) (cancel_task tid t1));
       let t3 = (case display_delay l of None \<Rightarrow> t2
                 | Some tid \<Rightarrow> set_line line (display_delay_update (\<lambda>_. None)) (cancel_task tid t2));
       Some (t3\<lparr>max_fd := recompute_max_fd t3\<rparr>) } }"

definition reinitialize_line :: "tty_host \<Rightarrow> nat \<Rightarrow> 'a terminal_scheme \<Rightarrow> 'a terminal_scheme option" where
  "reinitialize_line h i t =
     (if \<not> line_connected i t then Some t
      else do {
        ok \<leftarrow> prepare_tty h i t;
        if \<not> ok then remove_terminal i t else Some t })"

fun for_lines :: "(nat \<Rightarrow> 's \<Rightarrow> 's option) \<Rightarrow> nat list \<Rightarrow> 's \<Rightarrow> 's option" where
  "for_lines f [] s = Some s"
| "for_lines f (i # js) s = do { s' \<leftarrow> f i s; for_lines f js s' }"

definition reinitialize_terminals :: "tty_host \<Rightarrow> 'a terminal_scheme \<Rightarrow> 'a terminal_scheme option" where
  "reinitialize_terminals h t = for_lines (reinitialize_line h) [0..<MAX_TERMINALS] t"

section \<open>Displays\<close>

definition TC_ready_display :: "nat \<Rightarrow> 'a terminal_scheme \<Rightarrow> 'a terminal_scheme option" where
  "TC_ready_display line t = do {
     check (line_connected line t);
     check (\<not> display_ready (lines t ! line));
     check (display_delay (lines t ! line) \<noteq> None);
     Some (set_line line (\<lambda>l. l\<lparr>display_delay := None, display_ready := True\<rparr>) t) }"

definition TC_unready_display ::
  "tty_host \<Rightarrow> nat \<Rightarrow> u8 \<Rightarrow> 'a terminal_scheme \<Rightarrow> ('a terminal_scheme \<times> (int \<times> term_task) list) option" where
  "TC_unready_display h line data t = do {
     check (line_connected line t);
     if \<not> display_ready (lines t ! line) then Some (t, [])
     else do {
       let fd = tty_fd (lines t ! line);
       check (fd_write_ok h fd);
       let t1 = t\<lparr>written := written t @ [(fd, data)]\<rparr>;
       check (display_delay (lines t1 ! line) = None);
       let (tid, t2) = new_task t1;
       let t3 = set_line line (\<lambda>l. l\<lparr>display_ready := False, display_delay := Some tid\<rparr>) t2;
       Some (t3, [(display_ready_delay_ns t3, (tid, Display_Delay line))]) } }"

section \<open>Keyboards\<close>

definition TC_unready_keyboard :: "nat \<Rightarrow> 'a terminal_scheme \<Rightarrow> 'a terminal_scheme option" where
  "TC_unready_keyboard line t = do {
     check (line_connected line t);
     check (keyboard_ready (lines t ! line));
     tid \<leftarrow> keyboard_repoll (lines t ! line);
     let t1 = FD_SET (tty_fd (lines t ! line)) t;
     let t2 = set_line line (keyboard_ready_update (\<lambda>_. False)) t1;
     Some (set_line line (keyboard_repoll_update (\<lambda>_. None)) (cancel_task tid t2)) }"

definition TC_ready_keyboard :: "tty_host \<Rightarrow> nat \<Rightarrow> 'a terminal_scheme \<Rightarrow> 'a terminal_scheme option" where
  "TC_ready_keyboard h line t = do {
     check (line_connected line t);
     let fd = tty_fd (lines t ! line);
     let t1 = FD_CLR fd (set_line line (keyboard_ready_update (\<lambda>_. True)) t);
     let t2 = (case fd_read h fd of None \<Rightarrow> t1
               | Some c \<Rightarrow> set_line line (keyboard_char_update (\<lambda>_. c)) t1);
     Some (if keyboard_char (lines t2 ! line) = 0x1f
           then (set_line line (keyboard_char_update (\<lambda>_. 0)) t2)\<lparr>attn := True\<rparr>
           else t2) }"

definition new_repoll :: "nat \<Rightarrow> 'a terminal_scheme \<Rightarrow> 'a terminal_scheme \<times> (int \<times> term_task) list" where
  "new_repoll line t =
     (let (tid, t1) = new_task t;
          t2 = set_line line (keyboard_repoll_update (\<lambda>_. Some tid)) t1
      in (t2, [(keyboard_repoll_ns t2, (tid, Keyboard_Repoll line))]))"

definition repoll_keyboard ::
  "(nat \<Rightarrow> 'a terminal_scheme \<Rightarrow> 'a terminal_scheme option) \<Rightarrow> nat \<Rightarrow> 'a terminal_scheme \<Rightarrow>
     ('a terminal_scheme \<times> (int \<times> term_task) list) option" where
  "repoll_keyboard ready_keyboard line t = do {
     check (line_connected line t);
     check (keyboard_ready (lines t ! line));
     t1 \<leftarrow> ready_keyboard line t;
     Some (new_repoll line t1) }"

definition poll_line ::
  "(nat \<Rightarrow> 'a terminal_scheme \<Rightarrow> 'a terminal_scheme option) \<Rightarrow> int list \<Rightarrow> nat \<Rightarrow>
     'a terminal_scheme \<times> (int \<times> term_task) list \<Rightarrow> ('a terminal_scheme \<times> (int \<times> term_task) list) option" where
  "poll_line ready_keyboard to_read i s =
     (let (t, adds) = s; fd = tty_fd (lines t ! i)
      in if fd \<noteq> -1 \<and> fd \<in> set to_read then do {
           check (keyboard_repoll (lines t ! i) = None);
           check (\<not> keyboard_ready (lines t ! i));
           let (t1, add) = new_repoll i t;
           t2 \<leftarrow> ready_keyboard i t1;
           Some (t2, adds @ add) }
         else Some (t, adds))"

definition poll_keyboards ::
  "tty_host \<Rightarrow> (nat \<Rightarrow> 'a terminal_scheme \<Rightarrow> 'a terminal_scheme option) \<Rightarrow> 'a terminal_scheme \<Rightarrow>
     ('a terminal_scheme \<times> (int \<times> term_task) list) option" where
  "poll_keyboards h ready_keyboard t =
     (let (tid, t1) = new_task t;
          t2 = t1\<lparr>keyboard_poll := Some tid\<rparr>;
          adds = [(keyboard_poll_ns t2, (tid, Keyboard_Poll))]
      in if max_fd t2 = -1 then Some (t2, adds)
         else let to_read = filter (\<lambda>fd. fd < max_fd t2 \<and> fd_readable h fd) (unready_keyboards t2)
              in if to_read = [] then Some (t2, adds)
                 else for_lines (poll_line ready_keyboard to_read) [0..<MAX_TERMINALS] (t2, adds))"

text \<open>What a task of the controller does when the clock runs it, unless it has been cancelled.\<close>

definition term_task ::
  "(nat \<Rightarrow> 'a terminal_scheme \<Rightarrow> 'a terminal_scheme option) \<Rightarrow>
   (nat \<Rightarrow> 'a terminal_scheme \<Rightarrow> 'a terminal_scheme option) \<Rightarrow> tty_host \<Rightarrow>
   term_task \<Rightarrow> 'a terminal_scheme \<Rightarrow> ('a terminal_scheme \<times> (int \<times> term_task) list) option" where
  "term_task ready_keyboard ready_display h tk t =
     CancelableTask_task (fst tk \<notin> set (cancelled t))
       (\<lambda>t. case snd tk of
          Keyboard_Poll \<Rightarrow> poll_keyboards h ready_keyboard t
        | Keyboard_Repoll line \<Rightarrow> repoll_keyboard ready_keyboard line t
        | Display_Delay line \<Rightarrow> do { t' \<leftarrow> ready_display line t; Some (t', []) }) t"

lemmas terminal_defs [cube_defs] =
  line_new_def TerminalController_new_def line_connected_def set_line_def FD_SET_def FD_CLR_def
  cancel_task_def new_task_def prepare_tty_def connect_terminal_def recompute_max_fd_def
  remove_terminal_def reinitialize_line_def reinitialize_terminals_def TC_ready_display_def
  TC_unready_display_def TC_unready_keyboard_def TC_ready_keyboard_def new_repoll_def
  repoll_keyboard_def poll_line_def poll_keyboards_def term_task_def CancelableTask_task_def

end
