(* ===== verification/Serial.thy ===== *)
theory Serial
  imports Terminal
begin

unbundle bit_operations_syntax

text \<open>
  \<open>decserial.cc\<close>, the DZ11 serial device of the DECstation, and \<open>spimconsole.cc\<close>, the console of SPIM:
  two devices derived from the terminal controller. The control and status register that the serial
  device interrupts through is the field \<open>deccsr_device\<close> of the machine (\<^const>\<open>None\<close> when the machine
  has none); it is kept with the device. The constructor leaves some registers as they happen to be.
  A \<open>char\<close> is signed: the received character is sign-extended when it is put in a word.
\<close>

section \<open>The DZ11 serial device\<close>

abbreviation (input) DZ_CSR_TRDY :: u32 where "DZ_CSR_TRDY \<equiv> 0x8000"
abbreviation (input) DZ_CSR_TIE :: u32 where "DZ_CSR_TIE \<equiv> 0x4000"
abbreviation (input) DZ_CSR_TLINE :: u32 where "DZ_CSR_TLINE \<equiv> 0x0300"
abbreviation (input) DZ_CSR_RDONE :: u32 where "DZ_CSR_RDONE \<equiv> 0x0080"
abbreviation (input) DZ_CSR_RIE :: u32 where "DZ_CSR_RIE \<equiv> 0x0040"
abbreviation (input) DZ_CSR_MSE :: u32 where "DZ_CSR_MSE \<equiv> 0x0020"
abbreviation (input) DZ_CSR_CLR :: u32 where "DZ_CSR_CLR \<equiv> 0x0010"
abbreviation (input) DZ_RBUF_DVAL :: u32 where "DZ_RBUF_DVAL \<equiv> 0x8000"
abbreviation (input) SystemInterfaceCSRInt :: u8 where "SystemInterfaceCSRInt \<equiv> 0x80"

record serial = terminal +
  dz_csr :: u32
  dz_rbuf :: u32
  dz_lpr :: u32
  dz_tcr :: u32
  dz_msr :: u32
  deccsr_irq :: u8
  dz_keyboard_ie :: bool
  dz_display_ie :: bool
  deccsr_device :: "deccsr option"

definition master_clear :: "serial \<Rightarrow> serial" where
  "master_clear s = s\<lparr>dz_csr := 0, dz_rbuf := dz_rbuf s AND NOT DZ_RBUF_DVAL, dz_lpr := 0, dz_tcr := 0\<rparr>"

definition DECSerialDevice_new ::
  "u8 \<Rightarrow> u32 \<Rightarrow> u32 \<Rightarrow> bool \<Rightarrow> bool \<Rightarrow> deccsr option \<Rightarrow> (serial \<times> (int \<times> term_task) list) option" where
  "DECSerialDevice_new irq rbuf0 msr0 kie0 die0 csr = do {
     (t, adds) \<leftarrow> TerminalController_new 100 100 100;
     Some (master_clear (terminal.extend t (serial.fields 0 rbuf0 0 0 msr0 irq kie0 die0 csr)), adds) }"

definition TCR_LINE_ENABLED :: "u32 \<Rightarrow> nat \<Rightarrow> bool" where
  "TCR_LINE_ENABLED tcr line \<longleftrightarrow> tcr AND push_bit line 1 \<noteq> 0"

definition CSR_TLINE :: "nat \<Rightarrow> u32" where
  "CSR_TLINE line = push_bit 8 (of_nat line AND 3)"

definition RBUF_RLINE :: "nat \<Rightarrow> u32" where
  "RBUF_RLINE line = push_bit 8 (of_nat line AND 3)"

definition receiver_done :: "nat \<Rightarrow> serial \<Rightarrow> bool" where
  "receiver_done line s \<longleftrightarrow> line_connected line s \<and> keyboard_ready (lines s ! line)"

definition transmitter_ready :: "nat \<Rightarrow> serial \<Rightarrow> bool" where
  "transmitter_ready line s \<longleftrightarrow>
     line_connected line s \<and> display_ready (lines s ! line) \<and> TCR_LINE_ENABLED (dz_tcr s) line"

definition keyboardInterruptReadyForLine :: "nat \<Rightarrow> serial \<Rightarrow> bool" where
  "keyboardInterruptReadyForLine line s \<longleftrightarrow> dz_keyboard_ie s \<and> receiver_done line s"

definition displayInterruptReadyForLine :: "nat \<Rightarrow> serial \<Rightarrow> bool" where
  "displayInterruptReadyForLine line s \<longleftrightarrow> dz_display_ie s \<and> transmitter_ready line s"

definition assertCSRInt :: "serial \<Rightarrow> serial option" where
  "assertCSRInt s = do {
     d \<leftarrow> deccsr_device s;
     Some (s\<lparr>deccsr_device := Some (DECCSRDevice_assertInt (deccsr_irq s) d)\<rparr>) }"

definition deassertCSRInt :: "serial \<Rightarrow> serial option" where
  "deassertCSRInt s = do {
     d \<leftarrow> deccsr_device s;
     Some (s\<lparr>deccsr_device := Some (DECCSRDevice_deassertInt (deccsr_irq s) d)\<rparr>) }"

definition dz_unready_display ::
  "tty_host \<Rightarrow> nat \<Rightarrow> u8 \<Rightarrow> serial \<Rightarrow> (serial \<times> (int \<times> term_task) list) option" where
  "dz_unready_display h line data s = do {
     (s1, adds) \<leftarrow> TC_unready_display h line data s;
     s2 \<leftarrow> deassertCSRInt s1;
     Some (s2, adds) }"

definition dz_ready_display :: "nat \<Rightarrow> serial \<Rightarrow> serial option" where
  "dz_ready_display line s = do {
     s1 \<leftarrow> TC_ready_display line s;
     if displayInterruptReadyForLine line s1 then assertCSRInt s1 else Some s1 }"

definition dz_unready_keyboard :: "nat \<Rightarrow> serial \<Rightarrow> serial option" where
  "dz_unready_keyboard line s = do { s1 \<leftarrow> TC_unready_keyboard line s; deassertCSRInt s1 }"

definition dz_ready_keyboard :: "tty_host \<Rightarrow> nat \<Rightarrow> serial \<Rightarrow> serial option" where
  "dz_ready_keyboard h line s = do {
     s1 \<leftarrow> TC_ready_keyboard h line s;
     if keyboardInterruptReadyForLine line s1 then assertCSRInt s1 else Some s1 }"

definition dz_task :: "tty_host \<Rightarrow> term_task \<Rightarrow> serial \<Rightarrow> (serial \<times> (int \<times> term_task) list) option" where
  "dz_task h = term_task (dz_ready_keyboard h) dz_ready_display h"

definition scan_line :: "serial \<Rightarrow> u32 \<Rightarrow> nat \<Rightarrow> u32" where
  "scan_line s csr line =
     (let c1 = (if receiver_done line s then csr OR DZ_CSR_RDONE else csr)
      in if transmitter_ready line s then (c1 OR DZ_CSR_TRDY) OR CSR_TLINE line else c1)"

fun receive_line :: "nat list \<Rightarrow> serial \<Rightarrow> serial option" where
  "receive_line [] s = Some s"
| "receive_line (line # ls) s =
     (if receiver_done line s then do {
        s1 \<leftarrow> dz_unready_keyboard line s;
        let s2 = s1\<lparr>dz_rbuf := scast (keyboard_char (lines s1 ! line)) OR DZ_RBUF_DVAL\<rparr>;
        Some (s2\<lparr>dz_rbuf := dz_rbuf s2 OR RBUF_RLINE line\<rparr>) }
      else receive_line ls s)"

definition DECSerialDevice_fetch_word :: "mapper \<Rightarrow> u32 \<Rightarrow> serial \<Rightarrow> (u32 \<times> serial) option" where
  "DECSerialDevice_fetch_word m offset s = do {
     (rv, s') \<leftarrow>
       (if offset AND 0x18 = 0 then
          (let csr = dz_csr s AND NOT (DZ_CSR_RDONE OR DZ_CSR_TRDY OR DZ_CSR_TLINE);
               s1 = s\<lparr>dz_csr := csr\<rparr>;
               csr' = (if csr AND DZ_CSR_MSE \<noteq> 0 then foldl (scan_line s1) csr [0..<4] else csr)
           in Some (csr', s\<lparr>dz_csr := csr'\<rparr>))
        else if offset AND 0x18 = 0x08 then do {
          s1 \<leftarrow> receive_line [0..<4] (s\<lparr>dz_rbuf := dz_rbuf s AND NOT DZ_RBUF_DVAL\<rparr>);
          Some (dz_rbuf s1, s1) }
        else if offset AND 0x18 = 0x10 then Some (dz_tcr s, s)
        else Some (dz_msr s, s));
     let rv' = (if opt_bigendian m then push_bit 16 rv else rv);
     Some (mips_to_host_word m rv', s') }"

definition dz_store :: "tty_host \<Rightarrow> u32 \<Rightarrow> u32 \<Rightarrow> serial \<Rightarrow> (serial \<times> (int \<times> term_task) list) option" where
  "dz_store h reg data16 s =
     (if reg = 0 then
        (let s1 = s\<lparr>dz_csr := data16\<rparr>;
             s2 = (if dz_csr s1 AND DZ_CSR_CLR \<noteq> 0 then master_clear s1 else s1)
         in Some (s2\<lparr>dz_display_ie := (dz_csr s2 AND DZ_CSR_TIE \<noteq> 0),
                     dz_keyboard_ie := (dz_csr s2 AND DZ_CSR_RIE \<noteq> 0)\<rparr>, []))
      else if reg = 0x08 then Some (s\<lparr>dz_lpr := data16\<rparr>, [])
      else if reg = 0x10 then Some (s\<lparr>dz_tcr := data16\<rparr>, [])
      else if line_connected 3 s then dz_unready_display h 3 (ucast (data16 AND 0xff)) s
      else Some (s, []))"

definition dz_update_interrupt :: "serial \<Rightarrow> serial option" where
  "dz_update_interrupt s =
     (if dz_csr s AND (DZ_CSR_RIE OR DZ_CSR_TIE) = 0 then deassertCSRInt s
      else if list_ex (\<lambda>line. displayInterruptReadyForLine line s \<or> keyboardInterruptReadyForLine line s) [0..<4]
      then assertCSRInt s else deassertCSRInt s)"

definition DECSerialDevice_store_word ::
  "tty_host \<Rightarrow> mapper \<Rightarrow> u32 \<Rightarrow> u32 \<Rightarrow> serial \<Rightarrow> (serial \<times> (int \<times> term_task) list) option" where
  "DECSerialDevice_store_word h m offset odata s = do {
     let data = host_to_mips_word m odata;
     let data = (if opt_bigendian m then drop_bit 16 data else data);
     let data16 = data AND 0x0ffff;
     (s1, adds) \<leftarrow> dz_store h (offset AND 0x18) data16 s;
     s2 \<leftarrow> dz_update_interrupt s1;
     Some (s2, adds) }"

section \<open>The console of SPIM\<close>

abbreviation (input) CLOCK_TRIGGER_NS :: int where "CLOCK_TRIGGER_NS \<equiv> 1000000000"

record spim_console = terminal +
  sp_int :: device_int
  sp_display_ie :: "bool list"
  sp_keyboard_ie :: "bool list"
  sp_clock_interrupt :: bool
  sp_clock_ready :: bool

datatype spim_job = Spim_Term term_task | Spim_Clock

definition spim_tasks :: "(int \<times> term_task) list \<Rightarrow> (int \<times> spim_job) list" where
  "spim_tasks adds = map (\<lambda>(ns, tk). (ns, Spim_Term tk)) adds"

definition sp_drive :: "(u32 \<Rightarrow> device_int \<Rightarrow> device_int) \<Rightarrow> u32 \<Rightarrow> spim_console \<Rightarrow> spim_console" where
  "sp_drive f line s = s\<lparr>sp_int := f line (sp_int s)\<rparr>"

definition SpimConsoleDevice_new :: "(spim_console \<times> (int \<times> spim_job) list) option" where
  "SpimConsoleDevice_new = do {
     (t, adds) \<leftarrow> TerminalController_new (400 * 1000) (40 * 1000 * 1000) (40 * 1000 * 1000);
     Some (terminal.extend t (spim_console.fields DeviceInt_new [False, False] [False, False] False False),
       spim_tasks adds @ [(CLOCK_TRIGGER_NS, Spim_Clock)]) }"

definition display_irq :: "nat \<Rightarrow> u32" where
  "display_irq line = (if line = 0 then IRQ4 else IRQ6)"

definition keyboard_irq :: "nat \<Rightarrow> u32" where
  "keyboard_irq line = (if line = 0 then IRQ3 else IRQ5)"

definition spim_unready_display ::
  "tty_host \<Rightarrow> nat \<Rightarrow> u8 \<Rightarrow> spim_console \<Rightarrow> (spim_console \<times> (int \<times> term_task) list) option" where
  "spim_unready_display h line data s = do {
     (s1, adds) \<leftarrow> TC_unready_display h line data s;
     Some (sp_drive deassertInt (display_irq line) s1, adds) }"

definition spim_ready_display :: "nat \<Rightarrow> spim_console \<Rightarrow> spim_console option" where
  "spim_ready_display line s = do {
     s1 \<leftarrow> TC_ready_display line s;
     check (line < 2);
     Some (if sp_display_ie s1 ! line then sp_drive assertInt (display_irq line) s1 else s1) }"

definition spim_unready_keyboard :: "nat \<Rightarrow> spim_console \<Rightarrow> spim_console option" where
  "spim_unready_keyboard line s = do {
     s1 \<leftarrow> TC_unready_keyboard line s;
     Some (sp_drive deassertInt (keyboard_irq line) s1) }"

definition spim_ready_keyboard :: "tty_host \<Rightarrow> nat \<Rightarrow> spim_console \<Rightarrow> spim_console option" where
  "spim_ready_keyboard h line s = do {
     s1 \<leftarrow> TC_ready_keyboard h line s;
     check (line < 2);
     Some (if sp_keyboard_ie s1 ! line then sp_drive assertInt (keyboard_irq line) s1 else s1) }"

definition spim_unready_clock :: "spim_console \<Rightarrow> spim_console" where
  "spim_unready_clock s = sp_drive deassertInt IRQ2 (s\<lparr>sp_clock_ready := False\<rparr>)"

definition spim_ready_clock :: "spim_console \<Rightarrow> spim_console \<times> (int \<times> spim_job) list" where
  "spim_ready_clock s =
     (let s1 = s\<lparr>sp_clock_ready := True\<rparr>
      in (if sp_clock_interrupt s1 then sp_drive assertInt IRQ2 s1 else s1, [(CLOCK_TRIGGER_NS, Spim_Clock)]))"

fun spim_task :: "tty_host \<Rightarrow> spim_job \<Rightarrow> spim_console \<Rightarrow> (spim_console \<times> (int \<times> spim_job) list) option" where
  "spim_task h (Spim_Term tk) s = do {
     (s', adds) \<leftarrow> term_task (spim_ready_keyboard h) spim_ready_display h tk s;
     Some (s', spim_tasks adds) }"
| "spim_task h Spim_Clock s = Some (spim_ready_clock s)"

definition keyboard_control :: "nat \<Rightarrow> spim_console \<Rightarrow> u32 \<times> spim_console" where
  "keyboard_control line s =
     (let w = (if sp_keyboard_ie s ! line then CTL_IE else 0);
          w = (if line_connected line s then w OR (if keyboard_ready (lines s ! line) then CTL_RDY else 0) else w)
      in (w, if \<not> sp_keyboard_ie s ! line then sp_drive deassertInt (keyboard_irq line) s else s))"

definition display_control :: "nat \<Rightarrow> spim_console \<Rightarrow> u32 \<times> spim_console" where
  "display_control line s =
     (let w = (if sp_display_ie s ! line then CTL_IE else 0);
          w = w OR (if line_connected line s then (if display_ready (lines s ! line) then CTL_RDY else 0) else CTL_RDY)
      in (w, if \<not> sp_display_ie s ! line then sp_drive deassertInt (display_irq line) s else s))"

definition keyboard_data :: "nat \<Rightarrow> spim_console \<Rightarrow> (u32 \<times> spim_console) option" where
  "keyboard_data line s =
     (if line_connected line s then do {
        s1 \<leftarrow> spim_unready_keyboard line s;
        Some (scast (keyboard_char (lines s1 ! line)), s1) }
      else Some (0, s))"

definition SpimConsoleDevice_fetch_word :: "mapper \<Rightarrow> u32 \<Rightarrow> spim_console \<Rightarrow> (u32 \<times> spim_console) option" where
  "SpimConsoleDevice_fetch_word m offset s = do {
     let n = offset div 4;
     (w, s') \<leftarrow>
       (if n = 0 then Some (keyboard_control 0 s)
        else if n = 1 then keyboard_data 0 s
        else if n = 2 then Some (display_control 0 s)
        else if n = 3 then Some (0, s)
        else if n = 4 then Some (keyboard_control 1 s)
        else if n = 5 then keyboard_data 1 s
        else if n = 6 then Some (display_control 1 s)
        else if n = 7 then Some (0, s)
        else if n = 8 then
          Some ((if sp_clock_interrupt s then CTL_IE else 0) OR (if sp_clock_ready s then CTL_RDY else 0),
                spim_unready_clock s)
        else None);
     Some (mips_to_host_word m w, s') }"

text \<open>
  The store of the first keyboard's control word tests the display of its line, that of the second
  keyboard's the keyboard.
\<close>

definition SpimConsoleDevice_store_word ::
  "tty_host \<Rightarrow> mapper \<Rightarrow> u32 \<Rightarrow> u32 \<Rightarrow> spim_console \<Rightarrow> (spim_console \<times> (int \<times> spim_job) list) option" where
  "SpimConsoleDevice_store_word h m offset odata s =
     (let data = host_to_mips_word m odata; ie = data AND CTL_IE \<noteq> 0; n = offset div 4
      in if n = 0 then
           (let s1 = s\<lparr>sp_keyboard_ie := (sp_keyboard_ie s)[0 := ie]\<rparr>
            in Some (if line_connected 0 s1 \<and> ie \<and> display_ready (lines s1 ! 0)
                     then sp_drive assertInt IRQ3 s1 else s1, []))
         else if n = 1 then Some (s, [])
         else if n = 2 then
           (let s1 = s\<lparr>sp_display_ie := (sp_display_ie s)[0 := ie]\<rparr>
            in Some (if line_connected 0 s1 \<and> ie \<and> display_ready (lines s1 ! 0)
                     then sp_drive assertInt IRQ4 s1 else s1, []))
         else if n = 3 then
           (if line_connected 0 s then do {
              (s1, adds) \<leftarrow> spim_unready_display h 0 (ucast data) s; Some (s1, spim_tasks adds) }
            else Some (s, []))
         else if n = 4 then
           (let s1 = s\<lparr>sp_keyboard_ie := (sp_keyboard_ie s)[1 := ie]\<rparr>
            in Some (if line_connected 1 s1 \<and> ie \<and> keyboard_ready (lines s1 ! 1)
                     then sp_drive assertInt IRQ5 s1 else s1, []))
         else if n = 5 then Some (s, [])
         else if n = 6 then
           (let s1 = s\<lparr>sp_display_ie := (sp_display_ie s)[1 := ie]\<rparr>
            in Some (if line_connected 1 s1 \<and> ie \<and> display_ready (lines s1 ! 1)
                     then sp_drive assertInt IRQ6 s1 else s1, []))
         else if n = 7 then
           (if line_connected 1 s then do {
              (s1, adds) \<leftarrow> spim_unready_display h 1 (ucast data) s; Some (s1, spim_tasks adds) }
            else Some (s, []))
         else if n = 8 then
           (let s1 = s\<lparr>sp_clock_interrupt := ie\<rparr>
            in Some (if ie \<and> sp_clock_ready s1 then sp_drive assertInt IRQ2 s1 else s1, []))
         else None)"

lemmas serial_defs [cube_defs] =
  master_clear_def DECSerialDevice_new_def TCR_LINE_ENABLED_def CSR_TLINE_def RBUF_RLINE_def
  receiver_done_def transmitter_ready_def keyboardInterruptReadyForLine_def
  displayInterruptReadyForLine_def assertCSRInt_def deassertCSRInt_def dz_unready_display_def
  dz_ready_display_def dz_unready_keyboard_def dz_ready_keyboard_def dz_task_def scan_line_def
  DECSerialDevice_fetch_word_def dz_store_def dz_update_interrupt_def DECSerialDevice_store_word_def

lemmas spim_defs [cube_defs] =
  spim_tasks_def sp_drive_def SpimConsoleDevice_new_def display_irq_def keyboard_irq_def
  spim_unready_display_def spim_ready_display_def spim_unready_keyboard_def spim_ready_keyboard_def
  spim_unready_clock_def spim_ready_clock_def keyboard_control_def display_control_def keyboard_data_def
  SpimConsoleDevice_fetch_word_def SpimConsoleDevice_store_word_def

end
