(* ===== verification/Board.thy ===== *)
theory Board
  imports Serial
begin

unbundle bit_operations_syntax

text \<open>
  The timed devices of the machine together: the clock, the clock device, the real-time clock, the
  control and status register and the serial device on line 3, set up in the order of
  \<open>vmips::run\<close> (\<open>setup_clock\<close>, \<open>setup_clockdevice\<close>, \<open>setup_decrtc\<close>, \<open>setup_deccsr\<close>, \<open>setup_decserial\<close>
  of \<open>vmips.cc\<close>), with all of them configured. The processor accesses the registers, the clock passes
  time and runs the tasks of all devices. The control and status register is the field
  \<open>deccsr_device\<close> of the serial device, which interrupts through it.
\<close>

datatype board_job = Job_Clock clockdev_job | Job_RTC rtc_job | Job_Serial term_task

record board =
  bd_clock :: clock_device
  bd_rtc :: decrtc
  bd_serial :: serial

type_synonym board_state = "board \<times> board_job clock"

definition jobs :: "('a \<Rightarrow> board_job) \<Rightarrow> (int \<times> 'a) list \<Rightarrow> (int \<times> board_job) list" where
  "jobs f adds = map (\<lambda>(ns, j). (ns, f j)) adds"

text \<open>The tasks that the clock runs.\<close>

fun board_exec :: "tty_host \<Rightarrow> board_job \<Rightarrow> timespec \<Rightarrow> board \<Rightarrow> (board \<times> (int \<times> board_job) list) option" where
  "board_exec h (Job_Clock Clock_Trigger) tm b =
     (let (d, adds) = ready_clock (bd_clock b) in Some (b\<lparr>bd_clock := d\<rparr>, jobs Job_Clock adds))"
| "board_exec h (Job_RTC RTC_Trigger) tm b =
     (let (d, adds) = rtc_ready_clock (bd_rtc b) in Some (b\<lparr>bd_rtc := d\<rparr>, jobs Job_RTC adds))"
| "board_exec h (Job_Serial tk) tm b = do {
     (s, adds) \<leftarrow> dz_task h tk (bd_serial b);
     Some (b\<lparr>bd_serial := s\<rparr>, jobs Job_Serial adds) }"

section \<open>Setting up\<close>

text \<open>\<open>IntCtrl::connectLine\<close> on the device: the line is added to those the device drives.\<close>

definition connect_line :: "u32 \<Rightarrow> device_int \<Rightarrow> device_int" where
  "connect_line line d = d\<lparr>lines_connected := lines_connected d OR line\<rparr>"

definition setup_clock :: "timeval \<Rightarrow> 't clock option" where
  "setup_clock start = Clock_new (TIMEVAL_TO_TIMESPEC start)"

definition setup_clockdevice :: "u32 \<Rightarrow> u32 \<Rightarrow> (bool \<times> (clock_device \<times> (int \<times> clockdev_job) list) option) option" where
  "setup_clockdevice opt_irq opt_clockintr =
     (let irq = num2irq opt_irq
      in if irq = 0 then Some (False, None)
         else do {
           (d, adds) \<leftarrow> ClockDevice_new irq (uint opt_clockintr);
           Some (True, Some (d\<lparr>cd_int := connect_line irq (cd_int d)\<rparr>, adds)) })"

definition setup_decrtc :: decrtc where
  "setup_decrtc =
     (let irq = num2irq 3; d = DECRTCDevice_new irq in d\<lparr>rtc_int := connect_line irq (rtc_int d)\<rparr>)"

definition setup_deccsr :: "u32 \<Rightarrow> u32 \<Rightarrow> u8 \<Rightarrow> u32 \<Rightarrow> deccsr" where
  "setup_deccsr robits0 rwbits0 ioint0 leds0 =
     (let irq = num2irq 2; d = DECCSRDevice_new irq robits0 rwbits0 ioint0 leds0
      in d\<lparr>csr_int := connect_line irq (csr_int d)\<rparr>)"

text \<open>\<open>setup_console_line\<close>: the terminal is off, or a descriptor the host has opened.\<close>

definition setup_console_line :: "tty_host \<Rightarrow> nat \<Rightarrow> int option \<Rightarrow> 'a terminal_scheme \<Rightarrow> 'a terminal_scheme option" where
  "setup_console_line h l ttyfd t =
     (case ttyfd of None \<Rightarrow> Some t
      | Some fd \<Rightarrow> do { (_, t') \<leftarrow> connect_terminal h fd l t; Some t' })"

definition setup_decserial ::
  "tty_host \<Rightarrow> int option \<Rightarrow> u32 \<Rightarrow> u32 \<Rightarrow> bool \<Rightarrow> bool \<Rightarrow> deccsr \<Rightarrow> (serial \<times> (int \<times> term_task) list) option" where
  "setup_decserial h ttyfd rbuf0 msr0 kie0 die0 csr = do {
     (s, adds) \<leftarrow> DECSerialDevice_new SystemInterfaceCSRInt rbuf0 msr0 kie0 die0 (Some csr);
     s' \<leftarrow> setup_console_line h 3 ttyfd s;
     Some (s', adds) }"

definition board_setup ::
  "tty_host \<Rightarrow> timeval \<Rightarrow> u32 \<Rightarrow> u32 \<Rightarrow> int option \<Rightarrow> deccsr \<Rightarrow> u32 \<Rightarrow> u32 \<Rightarrow> bool \<Rightarrow> bool \<Rightarrow> board_state option" where
  "board_setup h start opt_irq opt_clockintr ttyfd csr rbuf0 msr0 kie0 die0 = do {
     c0 \<leftarrow> setup_clock start;
     (_, cd) \<leftarrow> setup_clockdevice opt_irq opt_clockintr;
     (d, adds1) \<leftarrow> cd;
     c1 \<leftarrow> add_all (jobs Job_Clock adds1) c0;
     (s, adds2) \<leftarrow> setup_decserial h ttyfd rbuf0 msr0 kie0 die0 csr;
     c2 \<leftarrow> add_all (jobs Job_Serial adds2) c1;
     Some (\<lparr>bd_clock = d, bd_rtc = setup_decrtc, bd_serial = s\<rparr>, c2) }"

section \<open>Running\<close>

datatype board_op =
  Pass_Time tty_host int
| Pass_Realtime tty_host u32 timeval timeval
| Clock_Fetch timeval u32
| Clock_Store u32 u32
| RTC_Fetch u32
| RTC_Store u32 u32
| CSR_Fetch u32
| CSR_Store u32 u32
| Serial_Fetch u32
| Serial_Store tty_host u32 u32

fun board_step :: "mapper \<Rightarrow> board_op \<Rightarrow> board_state \<Rightarrow> board_state option" where
  "board_step m (Pass_Time h ns) (b, c) = increment_time (board_exec h) ns b c"
| "board_step m (Pass_Realtime h ratio first current) (b, c) =
     pass_realtime (board_exec h) ratio first current b c"
| "board_step m (Clock_Fetch real off) (b, c) = do {
     (_, d) \<leftarrow> ClockDevice_fetch_word real c off (bd_clock b);
     Some (b\<lparr>bd_clock := d\<rparr>, c) }"
| "board_step m (Clock_Store off data) (b, c) = do {
     (d, c') \<leftarrow> ClockDevice_store_word off data (bd_clock b, c);
     Some (b\<lparr>bd_clock := d\<rparr>, c') }"
| "board_step m (RTC_Fetch off) (b, c) = do {
     (_, d) \<leftarrow> DECRTCDevice_fetch_word m c off (bd_rtc b);
     Some (b\<lparr>bd_rtc := d\<rparr>, c) }"
| "board_step m (RTC_Store off data) (b, c) = do {
     (d, adds) \<leftarrow> DECRTCDevice_store_word m off data (bd_rtc b);
     c' \<leftarrow> add_all (jobs Job_RTC adds) c;
     Some (b\<lparr>bd_rtc := d\<rparr>, c') }"
| "board_step m (CSR_Fetch off) (b, c) = do {
     csr \<leftarrow> deccsr_device (bd_serial b);
     (_, csr') \<leftarrow> DECCSRDevice_fetch_word off csr;
     Some (b\<lparr>bd_serial := (bd_serial b)\<lparr>deccsr_device := Some csr'\<rparr>\<rparr>, c) }"
| "board_step m (CSR_Store off data) (b, c) = do {
     csr \<leftarrow> deccsr_device (bd_serial b);
     csr' \<leftarrow> DECCSRDevice_store_word off data csr;
     Some (b\<lparr>bd_serial := (bd_serial b)\<lparr>deccsr_device := Some csr'\<rparr>\<rparr>, c) }"
| "board_step m (Serial_Fetch off) (b, c) = do {
     (_, s) \<leftarrow> DECSerialDevice_fetch_word m off (bd_serial b);
     Some (b\<lparr>bd_serial := s\<rparr>, c) }"
| "board_step m (Serial_Store h off data) (b, c) = do {
     (s, adds) \<leftarrow> DECSerialDevice_store_word h m off data (bd_serial b);
     c' \<leftarrow> add_all (jobs Job_Serial adds) c;
     Some (b\<lparr>bd_serial := s\<rparr>, c') }"

text \<open>
  What the rest of the machine does to the board: it passes a positive time, accesses registers
  inside the range of the device, and the host accepts the characters written to it.
\<close>

fun op_ok :: "board_op \<Rightarrow> bool" where
  "op_ok (Pass_Time h ns) \<longleftrightarrow> 0 < ns"
| "op_ok (Clock_Fetch real off) \<longleftrightarrow> off < 20"
| "op_ok (Clock_Store off data) \<longleftrightarrow> off < 20"
| "op_ok (Serial_Store h off data) \<longleftrightarrow> (\<forall>fd. fd_write_ok h fd)"
| "op_ok (Pass_Realtime h ratio first current) \<longleftrightarrow>
     0 < ratio \<and> ratio \<le> 1000000000 \<and> 0 \<le> tvl_usec first \<and> tvl_usec first < 1000000 \<and>
     0 \<le> tvl_usec current \<and> tvl_usec current < 1000000"
| "op_ok _ \<longleftrightarrow> True"

inductive board_reach :: "mapper \<Rightarrow> board_state \<Rightarrow> bool" for m where
  reach_setup: "board_setup h start opt_irq opt_clockintr ttyfd csr rbuf0 msr0 kie0 die0 = Some s \<Longrightarrow>
    board_reach m s"
| reach_step: "board_reach m s \<Longrightarrow> op_ok op \<Longrightarrow> board_step m op s = Some s' \<Longrightarrow> board_reach m s'"

text \<open>The interrupt controller sees the lines of the three devices that are connected to it.\<close>

definition board_ic :: "board \<Rightarrow> int_ctrl" where
  "board_ic b =
     \<lparr>ic_devs = [0, 1, 2],
      ic_devices = (\<lambda>i. if i = 0 then cd_int (bd_clock b) else if i = 1 then rtc_int (bd_rtc b)
        else case deccsr_device (bd_serial b) of Some d \<Rightarrow> csr_int d | None \<Rightarrow> DeviceInt_new)\<rparr>"

lemmas board_defs [cube_defs] =
  jobs_def connect_line_def setup_clock_def setup_clockdevice_def setup_decrtc_def setup_deccsr_def
  setup_console_line_def setup_decserial_def board_setup_def board_ic_def

inductive_cases board_reachE: "board_reach m s"

end
