(* ===== verification/Clock_Facts.thy ===== *)
theory Clock_Facts
  imports Clock "HOL-Library.Multiset"
begin

text \<open>
  What the queue of the clock means: an agenda of tasks at absolute times, in the order they run.
  \<open>add_deferred_task\<close> puts a task behind those that come due no later, and \<open>increment_time\<close> runs
  exactly the tasks that have come due, in the order of the agenda, whatever its steps; tasks they
  queue are measured from the new time.
\<close>

section \<open>Agendas\<close>

fun agenda :: "int \<Rightarrow> 't deferred_tasks list \<Rightarrow> (int \<times> 't) list" where
  "agenda T [] = []"
| "agenda T (d # ds) =
     map (\<lambda>t. (T + nanoseconds_left d, t)) (dt_tasks d) @ agenda (T + nanoseconds_left d) ds"

fun insort_due :: "int \<times> 't \<Rightarrow> (int \<times> 't) list \<Rightarrow> (int \<times> 't) list" where
  "insort_due x [] = [x]"
| "insort_due x (y # ys) = (if fst x < fst y then x # y # ys else y # insort_due x ys)"

definition schedule :: "int \<Rightarrow> (int \<times> 't) list \<Rightarrow> (int \<times> 't) list \<Rightarrow> (int \<times> 't) list" where
  "schedule T adds ag = foldl (\<lambda>ag (k, t). insort_due (T + k, t) ag) ag adds"

definition due_tasks :: "int \<Rightarrow> (int \<times> 't) list \<Rightarrow> 't list" where
  "due_tasks T ag = map snd (filter (\<lambda>x. fst x \<le> T) ag)"

definition later_tasks :: "int \<Rightarrow> (int \<times> 't) list \<Rightarrow> (int \<times> 't) list" where
  "later_tasks T ag = filter (\<lambda>x. T < fst x) ag"

text \<open>Running a list of tasks at one time, collecting what they queue.\<close>

fun perform :: "('t, 'e) exec \<Rightarrow> timespec \<Rightarrow> 't list \<Rightarrow> 'e \<Rightarrow> ('e \<times> (int \<times> 't) list) option" where
  "perform exec tm [] e = Some (e, [])"
| "perform exec tm (t # ts) e = do {
     (e1, adds) \<leftarrow> exec t tm e;
     (e2, more) \<leftarrow> perform exec tm ts e1;
     Some (e2, adds @ more) }"

definition queue_wf :: "'t deferred_tasks list \<Rightarrow> bool" where
  "queue_wf q \<longleftrightarrow> (\<forall>d \<in> set q. 0 < nanoseconds_left d \<and> dt_tasks d \<noteq> [])"

lemma queue_wf_simps [simp]:
  "queue_wf []"
  "queue_wf (d # ds) \<longleftrightarrow> 0 < nanoseconds_left d \<and> dt_tasks d \<noteq> [] \<and> queue_wf ds"
  by (auto simp: queue_wf_def)

lemma schedule_simps [simp]:
  "schedule T [] ag = ag"
  "schedule T ((k, t) # adds) ag = schedule T adds (insort_due (T + k, t) ag)"
  "schedule T (a @ b) ag = schedule T b (schedule T a ag)"
  by (simp_all add: schedule_def)

lemma agenda_after: "queue_wf q \<Longrightarrow> x \<in> set (agenda T q) \<Longrightarrow> T < fst x"
  by (induction q arbitrary: T) (auto, fastforce)

lemma insort_due_append:
  "(\<And>y. y \<in> set xs \<Longrightarrow> fst y \<le> fst x) \<Longrightarrow> insort_due x (xs @ ys) = xs @ insort_due x ys"
proof (induction xs)
  case (Cons a xs)
  have "\<not> fst x < fst a"
    using Cons.prems [of a] by simp
  moreover have "insort_due x (xs @ ys) = xs @ insort_due x ys"
    by (rule Cons.IH) (use Cons.prems in simp)
  ultimately show ?case
    by simp
qed simp

lemma insort_due_first:
  "(\<And>y. y \<in> set ys \<Longrightarrow> fst x < fst y) \<Longrightarrow> insort_due x ys = x # ys"
  by (cases ys) auto

lemma due_insort_due: "T < fst x \<Longrightarrow> due_tasks T (insort_due x ag) = due_tasks T ag"
  by (induction ag) (auto simp: due_tasks_def)

lemma later_insort_due: "T < fst x \<Longrightarrow> later_tasks T (insort_due x ag) = insort_due x (later_tasks T ag)"
  by (induction ag) (auto simp: later_tasks_def)

lemma due_schedule:
  "\<forall>(k, t) \<in> set adds. 0 < k \<Longrightarrow> due_tasks T (schedule T adds ag) = due_tasks T ag"
  by (induction adds arbitrary: ag) (auto simp: due_insort_due)

lemma later_schedule:
  "\<forall>(k, t) \<in> set adds. 0 < k \<Longrightarrow> later_tasks T (schedule T adds ag) = schedule T adds (later_tasks T ag)"
  by (induction adds arbitrary: ag) (auto simp: later_insort_due)

lemma due_append: "due_tasks T (xs @ ys) = due_tasks T xs @ due_tasks T ys"
  by (simp add: due_tasks_def)

lemma later_append: "later_tasks T (xs @ ys) = later_tasks T xs @ later_tasks T ys"
  by (simp add: later_tasks_def)

lemma due_group:
  "due_tasks T (map (\<lambda>t. (a, t)) ts) = (if a \<le> T then ts else [])"
  "later_tasks T (map (\<lambda>t. (a, t)) ts) = (if a \<le> T then [] else map (\<lambda>t. (a, t)) ts)"
  by (induction ts) (auto simp: due_tasks_def later_tasks_def)

lemma due_none: "(\<And>x. x \<in> set ag \<Longrightarrow> T < fst x) \<Longrightarrow> due_tasks T ag = [] \<and> later_tasks T ag = ag"
  by (auto simp: due_tasks_def later_tasks_def filter_empty_conv not_le filter_id_conv)

lemma agenda_split: "mset (map snd ag) = mset (due_tasks N ag @ map snd (later_tasks N ag))"
  by (induction ag) (auto simp: due_tasks_def later_tasks_def)

lemma mset_insort_due: "mset (insort_due x ag) = add_mset x (mset ag)"
  by (induction ag) auto

lemma mset_schedule: "mset (map snd (schedule T adds ag)) = mset (map snd ag @ map snd adds)"
  by (induction adds arbitrary: ag) (auto simp: mset_insort_due)

lemma perform_append:
  "perform exec tm (xs @ ys) e =
     Option.bind (perform exec tm xs e) (\<lambda>(e1, a).
       Option.bind (perform exec tm ys e1) (\<lambda>(e2, b). Some (e2, a @ b)))"
  by (induction xs arbitrary: e)
    (auto simp: Option.bind_eq_Some_conv split: Option.bind_split prod.splits option.splits)

section \<open>Queueing a task\<close>

lemma deferred_same: "deferred c = q \<Longrightarrow> c\<lparr>deferred := q\<rparr> = c"
  by auto

lemma add_loop_agenda:
  "queue_wf q \<Longrightarrow> 0 < ns \<Longrightarrow>
     \<exists>q'. add_loop t ns q = Some q' \<and> queue_wf q' \<and> agenda T q' = insort_due (T + ns, t) (agenda T q)"
proof (induction q arbitrary: ns T)
  case Nil
  then show ?case
    by (simp add: DeferredTasks_new_def)
next
  case (Cons d ds)
  let ?l = "nanoseconds_left d"
  have l: "0 < ?l" "dt_tasks d \<noteq> []" "queue_wf ds"
    using Cons.prems by auto
  have front_le: "fst y \<le> fst (T + ns, t)" if "y \<in> set (map (\<lambda>u. (T + ?l, u)) (dt_tasks d))" "?l \<le> ns" for y
    using that by auto
  consider "ns < ?l" | "ns = ?l" | "?l < ns"
    by linarith
  then show ?case
  proof cases
    case 1
    have "T + ns < fst y" if "y \<in> set (agenda T (d # ds))" for y
      using that agenda_after [OF l(3), of y "T + ?l"] 1 by auto
    then have "insort_due (T + ns, t) (agenda T (d # ds)) = (T + ns, t) # agenda T (d # ds)"
      by (intro insort_due_first) simp
    with 1 l Cons.prems show ?thesis
      by (auto simp: DeferredTasks_new_def pass_time_def)
  next
    case 2
    have "T + ns < fst y" if "y \<in> set (agenda (T + ?l) ds)" for y
      using that agenda_after [OF l(3), of y "T + ?l"] 2 by auto
    then have "insort_due (T + ns, t) (agenda (T + ?l) ds) = (T + ns, t) # agenda (T + ?l) ds"
      by (intro insort_due_first) simp
    then have "insort_due (T + ns, t) (agenda T (d # ds)) =
        map (\<lambda>u. (T + ?l, u)) (dt_tasks d) @ (T + ns, t) # agenda (T + ?l) ds"
      using insort_due_append [of "map (\<lambda>u. (T + ?l, u)) (dt_tasks d)" "(T + ns, t)", OF front_le] 2 by simp
    with 2 l show ?thesis
      by (simp add: add_task_def)
  next
    case 3
    then obtain q' where q': "add_loop t (ns - ?l) ds = Some q'" "queue_wf q'"
        "agenda (T + ?l) q' = insort_due (T + ns, t) (agenda (T + ?l) ds)"
      using Cons.IH [OF l(3), of "ns - ?l" "T + ?l"] by auto
    have "insort_due (T + ns, t) (agenda T (d # ds)) =
        map (\<lambda>u. (T + ?l, u)) (dt_tasks d) @ insort_due (T + ns, t) (agenda (T + ?l) ds)"
      using insort_due_append [of "map (\<lambda>u. (T + ?l, u)) (dt_tasks d)" "(T + ns, t)", OF front_le] 3 by simp
    with 3 l q' show ?thesis
      by simp
  qed
qed

lemma add_deferred_task_eq:
  "0 < ns \<Longrightarrow> add_deferred_task t ns c = map_option (\<lambda>q. c\<lparr>deferred := q\<rparr>) (add_loop t ns (deferred c))"
  by (cases "add_loop t ns (deferred c)") (auto simp: add_deferred_task_def DeferredTasks_new_def)

lemma add_deferred_task_agenda:
  assumes "queue_wf (deferred c)" "0 < ns"
  shows "\<exists>q. add_deferred_task t ns c = Some (c\<lparr>deferred := q\<rparr>) \<and> queue_wf q \<and>
    agenda T q = insort_due (T + ns, t) (agenda T (deferred c))"
  using add_loop_agenda [OF assms, of t T] assms(2) by (auto simp: add_deferred_task_eq)

text \<open>While the tasks of an entry run, the entry stays in front with its count of time used up.\<close>

lemma add_front_agenda:
  assumes "deferred c = d # ds" "nanoseconds_left d \<le> 0" "queue_wf ds" "0 < ns"
  shows "\<exists>ds'. add_deferred_task t ns c = Some (c\<lparr>deferred := d # ds'\<rparr>) \<and> queue_wf ds' \<and>
    agenda (N + nanoseconds_left d) ds' = insort_due (N + ns, t) (agenda (N + nanoseconds_left d) ds)"
  using add_loop_agenda [of ds "ns - nanoseconds_left d" t "N + nanoseconds_left d"] assms
  by (auto simp: add_deferred_task_eq)

lemma add_all_front:
  "deferred c = d # ds \<Longrightarrow> nanoseconds_left d \<le> 0 \<Longrightarrow> queue_wf ds \<Longrightarrow> \<forall>(k, t) \<in> set adds. 0 < k \<Longrightarrow>
    \<exists>ds'. add_all adds c = Some (c\<lparr>deferred := d # ds'\<rparr>) \<and> queue_wf ds' \<and>
      agenda (N + nanoseconds_left d) ds' = schedule N adds (agenda (N + nanoseconds_left d) ds)"
proof (induction adds arbitrary: c ds)
  case Nil
  then show ?case
    by (intro exI [of _ ds]) (simp add: deferred_same)
next
  case (Cons a adds)
  obtain k t where a: "a = (k, t)"
    by fastforce
  obtain ds1 where 1: "add_deferred_task t k c = Some (c\<lparr>deferred := d # ds1\<rparr>)" "queue_wf ds1"
      "agenda (N + nanoseconds_left d) ds1 = insort_due (N + k, t) (agenda (N + nanoseconds_left d) ds)"
    using add_front_agenda [OF Cons.prems(1-3), of k t N] Cons.prems(4) a by auto
  with Cons.IH [of "c\<lparr>deferred := d # ds1\<rparr>" ds1] Cons.prems a show ?case
    by auto
qed

section \<open>Passing time\<close>

text \<open>
  What the clock asks of the devices: \<open>good e P\<close> is their invariant with the tasks \<open>P\<close> in the queue, in
  any order. Running a task never fails, queues tasks after a positive time only, and leaves the
  invariant with the task gone and the new ones in the queue.
\<close>

definition pending :: "'t deferred_tasks list \<Rightarrow> 't list" where
  "pending q = concat (map dt_tasks q)"

lemma agenda_pending: "map snd (agenda T q) = pending q"
  by (induction q arbitrary: T) (simp_all add: pending_def comp_def)

definition clock_wf :: "'t clock \<Rightarrow> bool" where
  "clock_wf c \<longleftrightarrow> queue_wf (deferred c) \<and> 0 \<le> tv_sec (clk_time c) \<and> 0 \<le> tv_nsec (clk_time c) \<and>
     0 \<le> spill_ns c \<and> 0 \<le> tv_nsec (clk_then c) \<and> tv_nsec (clk_then c) < 1000000000"

lemma clock_wf_more [simp]:
  "clock_wf (c\<lparr>spill_ns := n\<rparr>) \<longleftrightarrow> queue_wf (deferred c) \<and> 0 \<le> tv_sec (clk_time c) \<and>
     0 \<le> tv_nsec (clk_time c) \<and> 0 \<le> n \<and> 0 \<le> tv_nsec (clk_then c) \<and> tv_nsec (clk_then c) < 1000000000"
  "clock_wf (c\<lparr>clk_then := t\<rparr>) \<longleftrightarrow> queue_wf (deferred c) \<and> 0 \<le> tv_sec (clk_time c) \<and>
     0 \<le> tv_nsec (clk_time c) \<and> 0 \<le> spill_ns c \<and> 0 \<le> tv_nsec t \<and> tv_nsec t < 1000000000"
  by (auto simp: clock_wf_def)

lemma add_all_wf:
  "clock_wf c \<Longrightarrow> \<forall>(k, t) \<in> set adds. 0 < k \<Longrightarrow>
    \<exists>c'. add_all adds c = Some c' \<and> clock_wf c' \<and> clk_time c' = clk_time c \<and>
      agenda T (deferred c') = schedule T adds (agenda T (deferred c))"
proof (induction adds arbitrary: c)
  case (Cons a adds)
  obtain k t where a: "a = (k, t)"
    by fastforce
  obtain q where 1: "add_deferred_task t k c = Some (c\<lparr>deferred := q\<rparr>)" "queue_wf q"
      "agenda T q = insort_due (T + k, t) (agenda T (deferred c))"
    using add_deferred_task_agenda [of c k t T] Cons.prems a by (auto simp: clock_wf_def)
  then have "clock_wf (c\<lparr>deferred := q\<rparr>)"
    using Cons.prems(1) by (simp add: clock_wf_def)
  from Cons.IH [OF this] Cons.prems(2) a 1 show ?case
    by auto
qed simp

locale timed_tasks =
  fixes exec :: "'t \<Rightarrow> timespec \<Rightarrow> 'e \<Rightarrow> ('e \<times> (int \<times> 't) list) option"
    and good :: "'e \<Rightarrow> 't list \<Rightarrow> bool"
  assumes good_perm: "good e P \<Longrightarrow> mset P = mset R \<Longrightarrow> good e R"
    and exec_good: "good e (t # P) \<Longrightarrow>
      \<exists>e' adds. exec t tm e = Some (e', adds) \<and> good e' (P @ map snd adds) \<and> (\<forall>(k, u) \<in> set adds. 0 < k)"
begin

lemma perform_good:
  "good e (ts @ P) \<Longrightarrow>
     \<exists>e' adds. perform exec tm ts e = Some (e', adds) \<and> good e' (P @ map snd adds) \<and> (\<forall>(k, t) \<in> set adds. 0 < k)"
proof (induction ts arbitrary: e P)
  case (Cons t ts)
  from exec_good [of e t "ts @ P" tm] Cons.prems obtain e1 a where
    1: "exec t tm e = Some (e1, a)" "good e1 ((ts @ P) @ map snd a)" "\<forall>(k, t) \<in> set a. 0 < k"
    by auto
  with Cons.IH [of e1 "P @ map snd a"] obtain e2 b where
    "perform exec tm ts e1 = Some (e2, b)" "good e2 ((P @ map snd a) @ map snd b)" "\<forall>(k, t) \<in> set b. 0 < k"
    by auto
  with 1 show ?case
    by auto
qed simp

lemma run_tasks_front:
  "deferred c = d # ds \<Longrightarrow> nanoseconds_left d \<le> 0 \<Longrightarrow> queue_wf ds \<Longrightarrow> good e (ts @ P) \<Longrightarrow>
    perform exec (clk_time c) ts e = Some (e', adds) \<Longrightarrow>
    \<exists>ds'. run_tasks exec ts e c = Some (e', c\<lparr>deferred := d # ds'\<rparr>) \<and> queue_wf ds' \<and>
      agenda (N + nanoseconds_left d) ds' = schedule N adds (agenda (N + nanoseconds_left d) ds)"
proof (induction ts arbitrary: c e ds adds P)
  case Nil
  then show ?case
    by (intro exI [of _ ds]) (simp add: deferred_same)
next
  case (Cons t ts)
  from exec_good [of e t "ts @ P" "clk_time c"] Cons.prems(4) obtain e1 a where
    1: "exec t (clk_time c) e = Some (e1, a)" "good e1 (ts @ (P @ map snd a))" "\<forall>(k, t) \<in> set a. 0 < k"
    by auto
  with Cons.prems(5) obtain b where 2: "perform exec (clk_time c) ts e1 = Some (e', b)" "adds = a @ b"
    by auto
  from add_all_front [OF Cons.prems(1-3) 1(3), of N] obtain ds1 where
    3: "add_all a c = Some (c\<lparr>deferred := d # ds1\<rparr>)" "queue_wf ds1"
      "agenda (N + nanoseconds_left d) ds1 = schedule N a (agenda (N + nanoseconds_left d) ds)"
    by auto
  from Cons.IH [of "c\<lparr>deferred := d # ds1\<rparr>" ds1 e1 "P @ map snd a" b] Cons.prems(2) 1 2 3 show ?case
    by (auto simp: get_time_def)
qed

lemma increment_loop_agenda:
  "0 < ns \<Longrightarrow> queue_wf (deferred c) \<Longrightarrow> good e (map snd (agenda (N - ns) (deferred c))) \<Longrightarrow>
    \<exists>e' adds q. perform exec (clk_time c) (due_tasks N (agenda (N - ns) (deferred c))) e = Some (e', adds) \<and>
      increment_loop exec ns e c = Some (e', c\<lparr>deferred := q\<rparr>) \<and> queue_wf q \<and>
      agenda N q = schedule N adds (later_tasks N (agenda (N - ns) (deferred c)))"
proof (induction "nat ns" arbitrary: ns e c rule: less_induct)
  case less
  show ?case
  proof (cases "deferred c")
    case Nil
    then show ?thesis
      by (subst increment_loop.simps)
        (auto simp: due_tasks_def later_tasks_def deferred_same intro!: exI [of _ "[]"])
  next
    case (Cons d ds)
    let ?l = "nanoseconds_left d"
    let ?d = "d\<lparr>nanoseconds_left := ?l - ns\<rparr>"
    have l: "0 < ?l" "dt_tasks d \<noteq> []" "queue_wf ds"
      using less.prems Cons by auto
    have p: "pass_time ns d = Some (?d, if ?l \<le> ns then dt_tasks d else [])"
      using less.prems l by (simp add: pass_time_def)
    show ?thesis
    proof (cases "?l \<le> ns")
      case False
      have "N < fst x" if "x \<in> set (agenda (N - ns) (d # ds))" for x
        using that agenda_after [OF l(3), of x "N - ns + ?l"] False by auto
      then have none: "due_tasks N (agenda (N - ns) (d # ds)) = []"
          "later_tasks N (agenda (N - ns) (d # ds)) = agenda (N - ns) (d # ds)"
        using due_none [of "agenda (N - ns) (d # ds)" N] by auto
      have "increment_loop exec ns e c = Some (e, c\<lparr>deferred := ?d # ds\<rparr>)"
        using Cons p False by (subst increment_loop.simps) simp
      moreover have "agenda N (?d # ds) = agenda (N - ns) (d # ds)"
        by (simp add: algebra_simps)
      moreover have "queue_wf (?d # ds)"
        using l False by simp
      ultimately have "\<exists>q. increment_loop exec ns e c = Some (e, c\<lparr>deferred := q\<rparr>) \<and> queue_wf q \<and>
          agenda N q = schedule N [] (agenda (N - ns) (d # ds))"
        by (metis schedule_simps(1))
      then show ?thesis
        by (simp only: none Cons perform.simps) blast
    next
      case True
      let ?c = "c\<lparr>deferred := ?d # ds\<rparr>"
      let ?ag = "agenda (N - (ns - ?l)) ds"
      have due: "due_tasks N (agenda (N - ns) (d # ds)) = dt_tasks d @ due_tasks N ?ag"
          "later_tasks N (agenda (N - ns) (d # ds)) = later_tasks N ?ag"
        using True by (simp_all add: due_append later_append due_group algebra_simps)
      have g: "good e (dt_tasks d @ map snd ?ag)"
        using less.prems(3) Cons by (simp add: comp_def algebra_simps)
      from perform_good [OF g, of "clk_time c"] obtain e1 a where
        1: "perform exec (clk_time c) (dt_tasks d) e = Some (e1, a)" "good e1 (map snd ?ag @ map snd a)"
          "\<forall>(k, t) \<in> set a. 0 < k"
        by auto
      have "\<exists>ds'. run_tasks exec (dt_tasks d) e ?c = Some (e1, ?c\<lparr>deferred := ?d # ds'\<rparr>) \<and> queue_wf ds' \<and>
          agenda (N + nanoseconds_left ?d) ds' = schedule N a (agenda (N + nanoseconds_left ?d) ds)"
        by (rule run_tasks_front [OF _ _ l(3) g]) (use True 1(1) in simp_all)
      then obtain ds1 where
        2: "run_tasks exec (dt_tasks d) e ?c = Some (e1, c\<lparr>deferred := ?d # ds1\<rparr>)" "queue_wf ds1"
          "agenda (N - (ns - ?l)) ds1 = schedule N a ?ag"
        by (auto simp: algebra_simps)
      let ?c1 = "c\<lparr>deferred := ds1\<rparr>"
      have step: "increment_loop exec ns e c =
          (if ns = ?l then Some (e1, ?c1) else increment_loop exec (ns - ?l) e1 ?c1)"
        using Cons p True 2 by (subst increment_loop.simps) simp
      show ?thesis
      proof (cases "ns = ?l")
        case True
        have "N < fst x" if "x \<in> set (agenda N ds)" for x
          using that agenda_after [OF l(3), of x N] by auto
        then have "due_tasks N (agenda N ds) = []" "later_tasks N (agenda N ds) = agenda N ds"
          using due_none [of "agenda N ds" N] by auto
        with True step 1 2 show ?thesis
          unfolding Cons due by (auto intro!: exI [of _ ds1])
      next
        case False
        with True have lt: "0 < ns - ?l" "nat (ns - ?l) < nat ns"
          using l by auto
        have "good e1 (map snd (agenda (N - (ns - ?l)) ds1))"
          unfolding 2(3) by (rule good_perm [OF 1(2) mset_schedule [symmetric]])
        with less.hyps [OF lt(2) lt(1), of ?c1 e1] 2(2) obtain e2 b q where
          3: "perform exec (clk_time c) (due_tasks N (schedule N a ?ag)) e1 = Some (e2, b)"
            "increment_loop exec (ns - ?l) e1 ?c1 = Some (e2, c\<lparr>deferred := q\<rparr>)" "queue_wf q"
            "agenda N q = schedule N b (later_tasks N (schedule N a ?ag))"
          by (auto simp: 2(3))
        with step False 1 show ?thesis
          unfolding Cons due
          by (auto simp: perform_append due_schedule later_schedule intro!: exI [of _ q])
      qed
    qed
  qed
qed

lemma increment_time_agenda:
  assumes "0 < ns" "queue_wf (deferred c)" "good e (map snd (agenda T (deferred c)))"
  shows "\<exists>e' adds c'.
    perform exec (timespecadd (clk_time c) \<lparr>tv_sec = 0, tv_nsec = ns\<rparr>)
      (due_tasks (T + ns) (agenda T (deferred c))) e = Some (e', adds) \<and>
    increment_time exec ns e c = Some (e', c') \<and> queue_wf (deferred c') \<and>
    clk_time c' = timespecadd (clk_time c) \<lparr>tv_sec = 0, tv_nsec = ns\<rparr> \<and>
    spill_ns c' = spill_ns c \<and> clk_then c' = clk_then c \<and>
    agenda (T + ns) (deferred c') = schedule (T + ns) adds (later_tasks (T + ns) (agenda T (deferred c))) \<and>
    good e' (map snd (agenda (T + ns) (deferred c'))) \<and> (\<forall>(k, t) \<in> set adds. 0 < k)"
proof -
  let ?tm = "timespecadd (clk_time c) \<lparr>tv_sec = 0, tv_nsec = ns\<rparr>"
  let ?c = "c\<lparr>clk_time := ?tm\<rparr>"
  let ?ag = "agenda T (deferred c)"
  obtain e' adds where 1: "perform exec ?tm (due_tasks (T + ns) ?ag) e = Some (e', adds)"
      "good e' (map snd (later_tasks (T + ns) ?ag) @ map snd adds)" "\<forall>(k, t) \<in> set adds. 0 < k"
    using perform_good [OF good_perm [OF assms(3) agenda_split [of _ "T + ns"]], of ?tm] by blast
  have "\<exists>q. increment_time exec ns e c = Some (e', ?c\<lparr>deferred := q\<rparr>) \<and> queue_wf q \<and>
      agenda (T + ns) q = schedule (T + ns) adds (later_tasks (T + ns) ?ag)"
  proof (cases "deferred c = []")
    case True
    with assms 1(1) show ?thesis
      by (intro exI [of _ "[]"]) (simp add: increment_time_def due_tasks_def later_tasks_def deferred_same)
  next
    case False
    with increment_loop_agenda [of ns ?c e "T + ns"] assms 1(1) show ?thesis
      by (auto simp: increment_time_def)
  qed
  then obtain q where q: "increment_time exec ns e c = Some (e', ?c\<lparr>deferred := q\<rparr>)" "queue_wf q"
      "agenda (T + ns) q = schedule (T + ns) adds (later_tasks (T + ns) ?ag)"
    by blast
  have "good e' (map snd (agenda (T + ns) q))"
    unfolding q(3) by (rule good_perm [OF 1(2) mset_schedule [symmetric]])
  with 1 q show ?thesis
    by (intro exI [of _ e'] exI [of _ adds] exI [of _ "?c\<lparr>deferred := q\<rparr>"]) simp
qed

text \<open>So passing time keeps the invariants of the clock and of the devices.\<close>

lemma increment_time_good:
  assumes "0 < ns" "clock_wf c" "good e (pending (deferred c))"
  shows "\<exists>e' c'. increment_time exec ns e c = Some (e', c') \<and> clock_wf c' \<and> good e' (pending (deferred c')) \<and>
    spill_ns c' = spill_ns c \<and> clk_then c' = clk_then c"
proof -
  have q: "queue_wf (deferred c)"
    using assms(2) by (simp add: clock_wf_def)
  from increment_time_agenda [OF assms(1) q, of e 0] assms(3) obtain e' c' where
    1: "increment_time exec ns e c = Some (e', c')" "queue_wf (deferred c')"
      "clk_time c' = timespecadd (clk_time c) \<lparr>tv_sec = 0, tv_nsec = ns\<rparr>" "spill_ns c' = spill_ns c"
      "clk_then c' = clk_then c" "good e' (pending (deferred c'))"
    by (auto simp: agenda_pending)
  have "clock_wf c'"
    using assms(1,2) 1(2-5) by (auto simp: clock_wf_def timespecadd_def Let_def)
  with 1 show ?thesis
    by blast
qed

lemma increment_seconds_good:
  assumes "0 < ratio" "ratio \<le> 1000000000"
  shows "clock_wf c \<Longrightarrow> good e (pending (deferred c)) \<Longrightarrow>
    \<exists>e' c'. increment_seconds exec ratio n e c = Some (e', c') \<and> clock_wf c' \<and> good e' (pending (deferred c')) \<and>
      spill_ns c' = spill_ns c \<and> clk_then c' = clk_then c"
proof (induction n arbitrary: e c)
  case (Suc n)
  have "0 < uint (1000000000 div ratio)"
    using assms by (simp add: uint_div word_less_def word_le_def pos_imp_zdiv_pos_iff)
  from increment_time_good [OF this Suc.prems] obtain e1 c1 where
    "increment_time exec (uint (1000000000 div ratio)) e c = Some (e1, c1)" "clock_wf c1"
    "good e1 (pending (deferred c1))" "spill_ns c1 = spill_ns c" "clk_then c1 = clk_then c"
    by blast
  with Suc.IH [of c1 e1] show ?case
    by auto
qed simp

lemma pass_realtime_good:
  assumes "clock_wf c" "good e (pending (deferred c))" "0 < ratio" "ratio \<le> 1000000000"
    and "0 \<le> tvl_usec first" "tvl_usec first < 1000000" "0 \<le> tvl_usec current" "tvl_usec current < 1000000"
  shows "\<exists>e' c'. pass_realtime exec ratio first current e c = Some (e', c') \<and> clock_wf c' \<and>
    good e' (pending (deferred c'))"
proof -
  let ?c0 = "if tv_sec (clk_then c) = -1 then c\<lparr>clk_then := TIMEVAL_TO_TIMESPEC first\<rparr> else c"
  let ?now = "timespecsub (TIMEVAL_TO_TIMESPEC current) (clk_then ?c0)"
  have c0: "clock_wf ?c0" "good e (pending (deferred ?c0))"
    using assms by (auto simp: TIMEVAL_TO_TIMESPEC_def) (simp_all add: clock_wf_def)
  have now: "0 \<le> tv_nsec ?now"
    using c0(1) assms(7,8) by (auto simp: timespecsub_def TIMEVAL_TO_TIMESPEC_def Let_def clock_wf_def)
  obtain e1 c1 where 1: "increment_seconds exec ratio (nat (tv_sec ?now)) e ?c0 = Some (e1, c1)" "clock_wf c1"
      "good e1 (pending (deferred c1))"
    using increment_seconds_good [OF assms(3,4) c0] by blast
  let ?inc = "(tv_nsec ?now + spill_ns c1) div uint ratio"
  have sp: "0 \<le> tv_nsec ?now + spill_ns c1"
    using now 1(2) by (simp add: clock_wf_def)
  have cur: "0 \<le> tv_nsec (TIMEVAL_TO_TIMESPEC current)" "tv_nsec (TIMEVAL_TO_TIMESPEC current) < 1000000000"
    using assms(7,8) by (simp_all add: TIMEVAL_TO_TIMESPEC_def)
  have "\<exists>e2 c2. (if ?inc = 0 then Some (e1, c1\<lparr>spill_ns := tv_nsec ?now + spill_ns c1\<rparr>)
      else increment_time exec ?inc e1 (c1\<lparr>spill_ns := 0\<rparr>)) = Some (e2, c2) \<and> clock_wf c2 \<and>
      good e2 (pending (deferred c2))"
  proof (cases "?inc = 0")
    case True
    with 1 sp show ?thesis
      by (simp add: clock_wf_def)
  next
    case False
    have "0 < uint ratio"
      using assms(3) by (simp add: word_less_def)
    with sp have "0 \<le> ?inc"
      by (simp only: pos_imp_zdiv_nonneg_iff)
    with False have "0 < ?inc"
      by (simp only: le_less) argo
    moreover have "clock_wf (c1\<lparr>spill_ns := 0\<rparr>)"
      using 1(2) by (simp add: clock_wf_def)
    ultimately show ?thesis
      using increment_time_good [of ?inc "c1\<lparr>spill_ns := 0\<rparr>" e1] 1(3) False by auto
  qed
  then obtain e2 c2 where "(if ?inc = 0 then Some (e1, c1\<lparr>spill_ns := tv_nsec ?now + spill_ns c1\<rparr>)
      else increment_time exec ?inc e1 (c1\<lparr>spill_ns := 0\<rparr>)) = Some (e2, c2)" "clock_wf c2"
      "good e2 (pending (deferred c2))"
    by blast
  then have "pass_realtime exec ratio first current e c = Some (e2, c2\<lparr>clk_then := TIMEVAL_TO_TIMESPEC current\<rparr>)"
    using assms(3) 1(1) by (simp add: pass_realtime_def Let_def)
  with \<open>clock_wf c2\<close> \<open>good e2 _\<close> cur show ?thesis
    by (simp add: clock_wf_def)
qed

end

text \<open>The time stays a proper time of day as long as less than a second passes at once.\<close>

definition timespec_wf :: "timespec \<Rightarrow> bool" where
  "timespec_wf t \<longleftrightarrow> 0 \<le> tv_sec t \<and> 0 \<le> tv_nsec t \<and> tv_nsec t < 1000000000"

definition nanos :: "timespec \<Rightarrow> int" where
  "nanos t = tv_sec t * 1000000000 + tv_nsec t"

lemma timespecadd_nanos: "nanos (timespecadd v u) = nanos v + nanos u"
  by (simp add: timespecadd_def nanos_def Let_def algebra_simps)

lemma timespecsub_nanos: "nanos (timespecsub v u) = nanos v - nanos u"
  by (simp add: timespecsub_def nanos_def Let_def algebra_simps)

lemma timespecadd_wf:
  "timespec_wf t \<Longrightarrow> 0 \<le> ns \<Longrightarrow> ns \<le> 1000000000 \<Longrightarrow> timespec_wf (timespecadd t \<lparr>tv_sec = 0, tv_nsec = ns\<rparr>)"
  by (auto simp: timespec_wf_def timespecadd_def Let_def)

end
