(* ===== verification/Terminal_Facts.thy ===== *)
theory Terminal_Facts
  imports Serial Clock_Facts "HOL-Library.Multiset"
begin

text \<open>
  The invariant of the terminal controller against the tasks \<open>P\<close> it has in the queue of the clock:
  a keyboard is ready exactly when it has a repoll task, a display is busy exactly when it has a
  delay task, each of these tasks is in the queue once and not cancelled, a task in the queue that
  is not cancelled is the one its line points to, and exactly one polling task is in the queue.
  Under it no assertion of the controller fails.
\<close>

definition line_wf :: "line_state \<Rightarrow> bool" where
  "line_wf l \<longleftrightarrow>
     (if tty_fd l = -1 then keyboard_repoll l = None \<and> display_delay l = None
      else (keyboard_ready l \<longleftrightarrow> keyboard_repoll l \<noteq> None) \<and> (display_ready l \<longleftrightarrow> display_delay l = None))"

definition lines_wf :: "'a terminal_scheme \<Rightarrow> bool" where
  "lines_wf t \<longleftrightarrow>
     length (lines t) = 16 \<and> (\<forall>i < 16. line_wf (lines t ! i)) \<and>
     (\<forall>i < 16. \<forall>j < 16. tty_fd (lines t ! i) \<noteq> -1 \<longrightarrow> tty_fd (lines t ! i) = tty_fd (lines t ! j) \<longrightarrow> i = j) \<and>
     (\<forall>i < 16. tty_fd (lines t ! i) \<noteq> -1 \<longrightarrow> keyboard_ready (lines t ! i) \<longrightarrow>
        tty_fd (lines t ! i) \<notin> set (unready_keyboards t))"

definition delays_wf :: "'a terminal_scheme \<Rightarrow> bool" where
  "delays_wf t \<longleftrightarrow> 0 < keyboard_poll_ns t \<and> 0 < keyboard_repoll_ns t \<and> 0 < display_ready_delay_ns t"

definition job_wf :: "'a terminal_scheme \<Rightarrow> term_task \<Rightarrow> bool" where
  "job_wf t tk \<longleftrightarrow> fst tk < next_task t \<and>
     (case snd tk of
        Keyboard_Poll \<Rightarrow> fst tk \<notin> set (cancelled t)
      | Keyboard_Repoll i \<Rightarrow> fst tk \<notin> set (cancelled t) \<longrightarrow> i < 16 \<and> keyboard_repoll (lines t ! i) = Some (fst tk)
      | Display_Delay i \<Rightarrow> fst tk \<notin> set (cancelled t) \<longrightarrow> i < 16 \<and> display_delay (lines t ! i) = Some (fst tk))"

definition pointers_wf :: "'a terminal_scheme \<Rightarrow> term_task list \<Rightarrow> bool" where
  "pointers_wf t P \<longleftrightarrow>
     (\<forall>i < 16. \<forall>tid. keyboard_repoll (lines t ! i) = Some tid \<longrightarrow>
        tid \<notin> set (cancelled t) \<and> (tid, Keyboard_Repoll i) \<in> set P) \<and>
     (\<forall>i < 16. \<forall>tid. display_delay (lines t ! i) = Some tid \<longrightarrow>
        tid \<notin> set (cancelled t) \<and> (tid, Display_Delay i) \<in> set P)"

definition terminal_wf :: "'a terminal_scheme \<Rightarrow> term_task list \<Rightarrow> bool" where
  "terminal_wf t P \<longleftrightarrow>
     lines_wf t \<and> delays_wf t \<and> distinct (map fst P) \<and> (\<forall>tk \<in> set P. job_wf t tk) \<and> pointers_wf t P \<and>
     length (filter (\<lambda>tk. snd tk = Keyboard_Poll) P) = 1 \<and> (\<forall>tid \<in> set (cancelled t). tid < next_task t)"

lemmas wf_defs = terminal_wf_def lines_wf_def delays_wf_def job_wf_def pointers_wf_def line_wf_def

text \<open>The invariant reads only the fields of the controller, and the queued tasks in any order.\<close>

lemma truncate_fields:
  assumes "terminal.truncate t = terminal.truncate t'"
  shows "lines t = lines t'" "unready_keyboards t = unready_keyboards t'" "next_task t = next_task t'"
    "cancelled t = cancelled t'" "keyboard_poll_ns t = keyboard_poll_ns t'"
    "keyboard_repoll_ns t = keyboard_repoll_ns t'" "display_ready_delay_ns t = display_ready_delay_ns t'"
    "max_fd t = max_fd t'"
  using assms by (simp_all add: terminal.truncate_def)

lemma terminal_wf_truncate:
  assumes "terminal.truncate t = terminal.truncate t'"
  shows "terminal_wf t P = terminal_wf t' P"
  unfolding wf_defs by (simp only: truncate_fields [OF assms])

lemma terminal_wf_mset:
  assumes "mset P = mset Q"
  shows "terminal_wf t P = terminal_wf t Q"
proof -
  have "set P = set Q"
    using assms by (rule mset_eq_setD)
  moreover have "distinct (map fst P) = distinct (map fst Q)"
    using assms by (intro mset_eq_imp_distinct_iff) (simp add: mset_map)
  moreover have "length (filter (\<lambda>tk. snd tk = Keyboard_Poll) P) = length (filter (\<lambda>tk. snd tk = Keyboard_Poll) Q)"
    using assms by (metis mset_filter size_mset)
  ultimately show ?thesis
    by (simp add: terminal_wf_def pointers_wf_def)
qed

section \<open>The operations of a line\<close>

lemma line_field_simps [simp]:
  "lines (set_line i f t) = (lines t)[i := f (lines t ! i)]"
  "unready_keyboards (set_line i f t) = unready_keyboards t" "next_task (set_line i f t) = next_task t"
  "cancelled (set_line i f t) = cancelled t" "max_fd (set_line i f t) = max_fd t"
  "keyboard_poll_ns (set_line i f t) = keyboard_poll_ns t"
  "keyboard_repoll_ns (set_line i f t) = keyboard_repoll_ns t"
  "display_ready_delay_ns (set_line i f t) = display_ready_delay_ns t"
  "terminal.more (set_line i f t) = terminal.more t"
  by (simp_all add: set_line_def)

lemma connectedD: "line_connected i t \<Longrightarrow> i < 16 \<and> tty_fd (lines t ! i) \<noteq> -1"
  by (simp add: line_connected_def)

text \<open>
  A step at line \<open>i\<close> keeps the invariant when it keeps the descriptor of the line and the tasks of the
  other lines, cancels at most the repoll task of the line, and leaves the line itself in order.
\<close>

definition own_job :: "nat \<Rightarrow> term_job \<Rightarrow> bool" where
  "own_job i j \<longleftrightarrow> j = Keyboard_Repoll i \<or> j = Display_Delay i"

lemma terminal_wf_step:
  assumes wf: "terminal_wf t P" and i: "i < 16"
    and lines: "lines t' = (lines t)[i := x]" "tty_fd x = tty_fd (lines t ! i)" "tty_fd x \<noteq> -1"
    and fds: "\<And>fd. fd \<in> set (unready_keyboards t') \<Longrightarrow> fd \<noteq> tty_fd x \<Longrightarrow> fd \<in> set (unready_keyboards t)"
    and nxt: "next_task t \<le> next_task t'" and delays: "delays_wf t'"
    and canc: "set (cancelled t) \<subseteq> set (cancelled t')"
      "\<And>tid. tid \<in> set (cancelled t') \<Longrightarrow> tid \<in> set (cancelled t) \<or> keyboard_repoll (lines t ! i) = Some tid"
    and x: "line_wf x" "keyboard_ready x \<Longrightarrow> tty_fd x \<notin> set (unready_keyboards t')"
      "\<And>tid. keyboard_repoll x = Some tid \<Longrightarrow> tid \<notin> set (cancelled t') \<and> (tid, Keyboard_Repoll i) \<in> set P'"
      "\<And>tid. display_delay x = Some tid \<Longrightarrow> tid \<notin> set (cancelled t') \<and> (tid, Display_Delay i) \<in> set P'"
    and P': "distinct (map fst P')" "length (filter (\<lambda>tk. snd tk = Keyboard_Poll) P') = 1"
      "\<And>tid. (tid, Keyboard_Repoll i) \<in> set P' \<Longrightarrow> job_wf t' (tid, Keyboard_Repoll i)"
      "\<And>tid. (tid, Display_Delay i) \<in> set P' \<Longrightarrow> job_wf t' (tid, Display_Delay i)"
      "\<And>tk. \<not> own_job i (snd tk) \<Longrightarrow> tk \<in> set P' \<longleftrightarrow> tk \<in> set P"
  shows "terminal_wf t' P'"
proof -
  have w: "lines_wf t" "distinct (map fst P)" "\<And>tk. tk \<in> set P \<Longrightarrow> job_wf t tk" "pointers_wf t P"
    using wf by (auto simp: terminal_wf_def)
  have len: "length (lines t) = 16"
    using w(1) by (simp add: lines_wf_def)
  have nth: "lines t' ! j = (if j = i then x else lines t ! j)" for j
    using lines(1) i len by (simp add: nth_list_update)
  have fd: "tty_fd (lines t' ! j) = tty_fd (lines t ! j)" for j
    using lines(2) by (simp add: nth)
  have uniq: "a = b" if "(tid, a) \<in> set P" "(tid, b) \<in> set P" for tid a b
    using that w(2) by (auto dest: eq_key_imp_eq_value)
  have canc': "tid \<in> set (cancelled t) \<or> (tid, Keyboard_Repoll i) \<in> set P" if "tid \<in> set (cancelled t')" for tid
    using canc(2) [OF that] w(4) i by (auto simp: pointers_wf_def)
  have "lines_wf t'"
    unfolding lines_wf_def
  proof (intro conjI allI impI)
    show "length (lines t') = 16"
      using lines(1) len by simp
    show "line_wf (lines t' ! j)" if "j < 16" for j
      using w(1) x(1) that by (simp add: nth lines_wf_def)
    show "j = k" if "j < 16" "k < 16" "tty_fd (lines t' ! j) \<noteq> -1" "tty_fd (lines t' ! j) = tty_fd (lines t' ! k)" for j k
      using w(1) that unfolding fd lines_wf_def by blast
    show "tty_fd (lines t' ! j) \<notin> set (unready_keyboards t')"
      if j: "j < 16" "tty_fd (lines t' ! j) \<noteq> -1" "keyboard_ready (lines t' ! j)" for j
    proof (cases "j = i")
      case True
      then show ?thesis
        using x(2) j(3) by (simp add: nth)
    next
      case False
      then have "tty_fd (lines t ! j) \<noteq> tty_fd x" "tty_fd (lines t ! j) \<notin> set (unready_keyboards t)"
        using w(1) j i lines(2) unfolding fd lines_wf_def by (auto simp: nth)
      with fds show ?thesis
        unfolding fd by blast
    qed
  qed
  moreover have "job_wf t' tk" if tkP: "tk \<in> set P'" for tk
  proof -
    obtain tid j where tk: "tk = (tid, j)"
      by fastforce
    show ?thesis
    proof (cases "own_job i j")
      case True
      then show ?thesis
        using P'(3,4) tkP tk by (auto simp: own_job_def)
    next
      case False
      then have 2: "tk \<in> set P" "\<not> own_job i j"
        using P'(5) [of tk] tkP tk by auto
      have old: "job_wf t (tid, j)"
        using w(3) 2(1) tk by blast
      have "tid \<notin> set (cancelled t')" if "j = Keyboard_Poll"
        using canc' [of tid] uniq [of tid j "Keyboard_Repoll i"] 2(1) tk old that by (auto simp: job_wf_def)
      then show ?thesis
        using old 2(2) canc(1) nxt tk
        by (cases j) (auto simp: job_wf_def nth own_job_def)
    qed
  qed
  moreover have "pointers_wf t' P'"
    unfolding pointers_wf_def
  proof (intro conjI allI impI)
    fix j tid
    assume j: "j < 16" "keyboard_repoll (lines t' ! j) = Some tid"
    show "tid \<notin> set (cancelled t')"
    proof (cases "j = i")
      case False
      then have "tid \<notin> set (cancelled t)" "(tid, Keyboard_Repoll j) \<in> set P"
        using w(4) j by (auto simp: pointers_wf_def nth)
      with canc' [of tid] uniq [of tid "Keyboard_Repoll j" "Keyboard_Repoll i"] False show ?thesis
        by auto
    qed (use x(3) j in \<open>simp add: nth\<close>)
    show "(tid, Keyboard_Repoll j) \<in> set P'"
    proof (cases "j = i")
      case False
      then have "(tid, Keyboard_Repoll j) \<in> set P"
        using w(4) j by (auto simp: pointers_wf_def nth)
      then show ?thesis
        using P'(5) [of "(tid, Keyboard_Repoll j)"] False by (auto simp: own_job_def)
    qed (use x(3) j in \<open>simp add: nth\<close>)
  next
    fix j tid
    assume j: "j < 16" "display_delay (lines t' ! j) = Some tid"
    show "tid \<notin> set (cancelled t')"
    proof (cases "j = i")
      case False
      then have "tid \<notin> set (cancelled t)" "(tid, Display_Delay j) \<in> set P"
        using w(4) j by (auto simp: pointers_wf_def nth)
      with canc' [of tid] uniq [of tid "Display_Delay j" "Keyboard_Repoll i"] show ?thesis
        by auto
    qed (use x(4) j in \<open>simp add: nth\<close>)
    show "(tid, Display_Delay j) \<in> set P'"
    proof (cases "j = i")
      case False
      then have "(tid, Display_Delay j) \<in> set P"
        using w(4) j by (auto simp: pointers_wf_def nth)
      then show ?thesis
        using P'(5) [of "(tid, Display_Delay j)"] False by (auto simp: own_job_def)
    qed (use x(4) j in \<open>simp add: nth\<close>)
  qed
  moreover have "tid < next_task t'" if "tid \<in> set (cancelled t')" for tid
    using canc' [OF that] w(3) wf nxt by (force simp: terminal_wf_def job_wf_def)
  ultimately show ?thesis
    using delays P'(1,2) by (simp add: terminal_wf_def)
qed

text \<open>A cancelled task can be dropped from the queue.\<close>

lemma terminal_wf_cancelled:
  assumes "terminal_wf t (tk # P)" "fst tk \<in> set (cancelled t)"
  shows "terminal_wf t P"
proof -
  have "snd tk \<noteq> Keyboard_Poll"
    using assms by (auto simp: terminal_wf_def job_wf_def)
  moreover have "tk \<noteq> (tid, j)" if "tid \<notin> set (cancelled t)" for tid j
    using assms(2) that by auto
  then have "pointers_wf t P"
    using assms(1) unfolding terminal_wf_def pointers_wf_def by (metis set_ConsD)
  ultimately show ?thesis
    using assms by (simp add: terminal_wf_def)
qed

lemma job_new: "terminal_wf t P \<Longrightarrow> next_task t \<notin> fst ` set P"
  by (force simp: terminal_wf_def job_wf_def)

lemma terminal_wfD:
  assumes "terminal_wf t P"
  shows "length (lines t) = 16" "i < 16 \<Longrightarrow> line_wf (lines t ! i)" "delays_wf t" "distinct (map fst P)"
    "tk \<in> set P \<Longrightarrow> job_wf t tk" "length (filter (\<lambda>tk. snd tk = Keyboard_Poll) P) = 1"
    "i < 16 \<Longrightarrow> keyboard_repoll (lines t ! i) = Some tid \<Longrightarrow> tid \<notin> set (cancelled t) \<and> (tid, Keyboard_Repoll i) \<in> set P"
    "i < 16 \<Longrightarrow> display_delay (lines t ! i) = Some tid \<Longrightarrow> tid \<notin> set (cancelled t) \<and> (tid, Display_Delay i) \<in> set P"
    "i < 16 \<Longrightarrow> tty_fd (lines t ! i) \<noteq> -1 \<Longrightarrow> keyboard_ready (lines t ! i) \<Longrightarrow>
       tty_fd (lines t ! i) \<notin> set (unready_keyboards t)"
    "next_task t \<notin> set (cancelled t)"
  using assms by (auto simp: terminal_wf_def lines_wf_def pointers_wf_def)

lemma filter_poll_append [simp]:
  "filter (\<lambda>tk. snd tk = Keyboard_Poll) (P @ [(a, Keyboard_Repoll i)]) = filter (\<lambda>tk. snd tk = Keyboard_Poll) P"
  "filter (\<lambda>tk. snd tk = Keyboard_Poll) (P @ [(a, Display_Delay i)]) = filter (\<lambda>tk. snd tk = Keyboard_Poll) P"
  by simp_all

lemma unready_display_wf:
  assumes wf: "terminal_wf t P" and c: "line_connected i t" and h: "\<And>fd. fd_write_ok h fd"
  shows "\<exists>t' adds. TC_unready_display h i ch t = Some (t', adds) \<and> terminal_wf t' (P @ map snd adds) \<and>
    terminal.more t' = terminal.more t \<and> (\<forall>(k, tk) \<in> set adds. 0 < k)"
proof (cases "display_ready (lines t ! i)")
  case False
  with c wf show ?thesis
    by (simp add: TC_unready_display_def)
next
  case True
  let ?x = "(lines t ! i)\<lparr>display_ready := False, display_delay := Some (next_task t)\<rparr>"
  let ?t = "set_line i (\<lambda>l. l\<lparr>display_ready := False, display_delay := Some (next_task t)\<rparr>)
    (t\<lparr>written := written t @ [(tty_fd (lines t ! i), ch)], next_task := Suc (next_task t)\<rparr>)"
  let ?P = "P @ [(next_task t, Display_Delay i)]"
  note i = connectedD [OF c] and w = terminal_wfD [OF wf]
  have l: "line_wf (lines t ! i)" "length (lines t) = 16" and d: "display_delay (lines t ! i) = None"
    using i True w(1) w(2) [of i] by (auto simp: line_wf_def)
  have "terminal_wf ?t ?P"
  proof (rule terminal_wf_step [OF wf, where i = i and x = ?x])
    show "job_wf ?t (tid, Keyboard_Repoll i)" if "(tid, Keyboard_Repoll i) \<in> set ?P" for tid
      using that w(5) [of "(tid, Keyboard_Repoll i)"] l i by (simp add: job_wf_def)
    show "job_wf ?t (tid, Display_Delay i)" if "(tid, Display_Delay i) \<in> set ?P" for tid
      using that w(5) [of "(tid, Display_Delay i)"] l i d by (auto simp: job_wf_def)
  qed (use i l d w job_new [OF wf] in \<open>auto simp: line_wf_def delays_wf_def own_job_def\<close>)
  with c h d True w(3) show ?thesis
    by (auto simp: TC_unready_display_def new_task_def delays_wf_def)
qed

lemma ready_display_wf:
  assumes wf: "terminal_wf t ((tid, Display_Delay i) # P)" and u: "tid \<notin> set (cancelled t)"
  shows "\<exists>t'. TC_ready_display i t = Some t' \<and> terminal_wf t' P \<and> line_connected i t"
proof -
  note w = terminal_wfD [OF wf]
  have i: "i < 16" "display_delay (lines t ! i) = Some tid"
    using w(5) [of "(tid, Display_Delay i)"] u by (auto simp: job_wf_def)
  with w(2) [of i] have l: "tty_fd (lines t ! i) \<noteq> -1" "\<not> display_ready (lines t ! i)" "line_wf (lines t ! i)"
    by (auto simp: line_wf_def split: if_splits)
  let ?x = "(lines t ! i)\<lparr>display_delay := None, display_ready := True\<rparr>"
  let ?t = "set_line i (\<lambda>l. l\<lparr>display_delay := None, display_ready := True\<rparr>) t"
  have "terminal_wf ?t P"
  proof (rule terminal_wf_step [OF wf, where i = i and x = ?x])
    show "job_wf ?t (tid', Keyboard_Repoll i)" if "(tid', Keyboard_Repoll i) \<in> set P" for tid'
      using that w(5) [of "(tid', Keyboard_Repoll i)"] i w(1) by (simp add: job_wf_def)
    show "job_wf ?t (tid', Display_Delay i)" if "(tid', Display_Delay i) \<in> set P" for tid'
      using that w(4) w(5) [of "(tid', Display_Delay i)"] i w(1) by (force simp: job_wf_def)
  qed (use i l w in \<open>auto simp: line_wf_def delays_wf_def own_job_def\<close>)
  with i l show ?thesis
    by (simp add: TC_ready_display_def line_connected_def)
qed

lemma unready_keyboard_wf:
  assumes wf: "terminal_wf t P" and c: "line_connected i t" "keyboard_ready (lines t ! i)"
  shows "\<exists>t'. TC_unready_keyboard i t = Some t' \<and> terminal_wf t' P \<and> terminal.more t' = terminal.more t"
proof -
  note i = connectedD [OF c(1)] and w = terminal_wfD [OF wf]
  from w(2) [of i] i c obtain tid where l: "keyboard_repoll (lines t ! i) = Some tid" "line_wf (lines t ! i)"
    by (auto simp: line_wf_def)
  let ?x = "(lines t ! i)\<lparr>keyboard_ready := False, keyboard_repoll := None\<rparr>"
  let ?t = "set_line i (keyboard_repoll_update (\<lambda>_. None))
    (cancel_task tid (set_line i (keyboard_ready_update (\<lambda>_. False)) (FD_SET (tty_fd (lines t ! i)) t)))"
  have t: "lines ?t = (lines t)[i := ?x]" "unready_keyboards ?t = List.insert (tty_fd (lines t ! i)) (unready_keyboards t)"
      "cancelled ?t = tid # cancelled t" "next_task ?t = next_task t" "delays_wf ?t" "terminal.more ?t = terminal.more t"
    using i w(1,3) by (simp_all add: cancel_task_def FD_SET_def delays_wf_def)
  have "terminal_wf ?t P"
  proof (rule terminal_wf_step [OF wf, where i = i and x = ?x])
    show "job_wf ?t (tid', Keyboard_Repoll i)" if "(tid', Keyboard_Repoll i) \<in> set P" for tid'
      unfolding job_wf_def t using that w(5) [of "(tid', Keyboard_Repoll i)"] i l by (auto simp: job_wf_def)
    show "job_wf ?t (tid', Display_Delay i)" if "(tid', Display_Delay i) \<in> set P" for tid'
      unfolding job_wf_def t using that w(1) w(5) [of "(tid', Display_Delay i)"] i l by (auto simp: job_wf_def)
    show "tid' \<notin> set (cancelled ?t) \<and> (tid', Display_Delay i) \<in> set P" if "display_delay ?x = Some tid'" for tid'
      using that w(8) [of i tid'] w(4) w(7) [of i tid] l i unfolding t by (auto dest: eq_key_imp_eq_value)
  qed (use i l w t in \<open>auto simp: line_wf_def own_job_def\<close>)
  with c l t(6) show ?thesis
    by (simp add: TC_unready_keyboard_def)
qed

lemma ready_keyboard_effect:
  assumes "line_connected i t" "length (lines t) = 16"
  shows "\<exists>t' ch. TC_ready_keyboard h i t = Some t' \<and>
    lines t' = (lines t)[i := (lines t ! i)\<lparr>keyboard_ready := True, keyboard_char := ch\<rparr>] \<and>
    unready_keyboards t' = removeAll (tty_fd (lines t ! i)) (unready_keyboards t) \<and>
    next_task t' = next_task t \<and> cancelled t' = cancelled t \<and> max_fd t' = max_fd t \<and>
    (delays_wf t \<longrightarrow> delays_wf t') \<and> terminal.more t' = terminal.more t"
proof -
  let ?c = "case fd_read h (tty_fd (lines t ! i)) of None \<Rightarrow> keyboard_char (lines t ! i) | Some c \<Rightarrow> c"
  let ?ch = "if ?c = 0x1f then 0 else ?c"
  obtain t' where t': "TC_ready_keyboard h i t = Some t'"
    using assms by (simp add: TC_ready_keyboard_def Let_def)
  have "lines t' = (lines t)[i := (lines t ! i)\<lparr>keyboard_ready := True, keyboard_char := ?ch\<rparr>]"
    using t' assms connectedD [OF assms(1)]
    by (auto simp: TC_ready_keyboard_def FD_CLR_def Let_def split: option.splits if_splits)
  moreover have "unready_keyboards t' = removeAll (tty_fd (lines t ! i)) (unready_keyboards t) \<and>
    next_task t' = next_task t \<and> cancelled t' = cancelled t \<and> max_fd t' = max_fd t \<and>
    (delays_wf t \<longrightarrow> delays_wf t') \<and> terminal.more t' = terminal.more t"
    using t' assms
    by (auto simp: TC_ready_keyboard_def FD_CLR_def Let_def delays_wf_def split: option.splits if_splits)
  ultimately show ?thesis
    using t' by blast
qed

text \<open>Connecting a descriptor no other line has.\<close>

lemma connect_terminal_wf:
  assumes wf: "terminal_wf t P" and free: "\<And>i. i < 16 \<Longrightarrow> tty_fd (lines t ! i) \<noteq> -1 \<Longrightarrow> tty_fd (lines t ! i) \<noteq> fd"
    and c: "connect_terminal h fd line t = Some (ok, t')"
  shows "terminal_wf t' P \<and> terminal.more t' = terminal.more t"
proof (cases "line_connected line t \<or> (is_tty h fd \<and> \<not> tcgetattr_ok h fd)")
  case True
  with c wf show ?thesis
    by (auto simp: connect_terminal_def split: if_splits)
next
  case False
  note w = terminal_wfD [OF wf]
  have l: "line < 16" "tty_fd (lines t ! line) = -1" "keyboard_repoll (lines t ! line) = None"
      "display_delay (lines t ! line) = None"
    using c False by (auto simp: connect_terminal_def line_connected_def split: if_splits)
  let ?x = "(lines t ! line)\<lparr>tty_fd := fd, keyboard_char := 0, keyboard_ready := False, display_ready := True\<rparr>"
  show ?thesis
  proof (cases ok)
    case True
    then have t': "lines t' = (lines t)[line := ?x]" "unready_keyboards t' = List.insert fd (unready_keyboards t)"
        "next_task t' = next_task t" "cancelled t' = cancelled t" "delays_wf t' = delays_wf t"
        "terminal.more t' = terminal.more t" "fd \<noteq> -1"
      using c False l w(1) unfolding connect_terminal_def prepare_tty_def FD_SET_def delays_wf_def Let_def
      by (auto simp: line_connected_def split: if_splits)
    have nth: "lines t' ! j = (if j = line then ?x else lines t ! j)" for j
      using t'(1) l(1) w(1) by (simp add: nth_list_update)
    have "lines_wf t'"
      using wf free l t' unfolding terminal_wf_def lines_wf_def nth
      by (auto simp: line_wf_def nth)
    moreover have "job_wf t' tk" if "tk \<in> set P" for tk
      using w(5) [OF that] l unfolding job_wf_def nth t'(3,4) by (auto split: term_job.splits)
    moreover have "pointers_wf t' P"
      using wf l unfolding terminal_wf_def pointers_wf_def nth t'(3,4) by auto
    ultimately show ?thesis
      using wf t' by (simp add: terminal_wf_def)
  next
    case False
    with \<open>\<not> (line_connected line t \<or> _)\<close> have t': "t' = set_line line (tty_fd_update (\<lambda>_. -1)) (set_line line (tty_fd_update (\<lambda>_. fd)) t)"
      using c by (auto simp: connect_terminal_def Let_def split: if_splits)
    have "(lines t ! line)\<lparr>tty_fd := -1\<rparr> = lines t ! line"
      using l(2) by (cases "lines t ! line") simp
    then have "(lines t)[line := (lines t ! line)\<lparr>tty_fd := -1\<rparr>] = lines t"
      by (simp only: list_update_id)
    then have "t' = t\<lparr>lines := lines t\<rparr>"
      using l(1) w(1) unfolding t' by (simp add: set_line_def)
    then have "t' = t"
      by simp
    with wf show ?thesis
      by simp
  qed
qed

section \<open>The tasks of a controller\<close>

text \<open>
  A device derived from the controller overrides the two methods the tasks call: each does what the
  controller's method does to the lines and keeps a condition \<open>Q\<close> of the device's own fields.
\<close>

locale virtual_lines =
  fixes rk :: "tty_host \<Rightarrow> nat \<Rightarrow> 'a terminal_scheme \<Rightarrow> 'a terminal_scheme option"
    and rd :: "nat \<Rightarrow> 'a terminal_scheme \<Rightarrow> 'a terminal_scheme option"
    and Q :: "'a \<Rightarrow> bool"
  assumes rk: "Q (terminal.more t) \<Longrightarrow> TC_ready_keyboard h i t = Some t1 \<Longrightarrow>
      \<exists>t'. rk h i t = Some t' \<and> terminal.truncate t' = terminal.truncate t1 \<and> Q (terminal.more t')"
    and rd: "Q (terminal.more t) \<Longrightarrow> TC_ready_display i t = Some t1 \<Longrightarrow>
      \<exists>t'. rd i t = Some t' \<and> terminal.truncate t' = terminal.truncate t1 \<and> Q (terminal.more t')"
begin

lemma rk_effect:
  assumes "line_connected i t" "length (lines t) = 16" "Q (terminal.more t)"
  shows "\<exists>t' ch. rk h i t = Some t' \<and>
    lines t' = (lines t)[i := (lines t ! i)\<lparr>keyboard_ready := True, keyboard_char := ch\<rparr>] \<and>
    unready_keyboards t' = removeAll (tty_fd (lines t ! i)) (unready_keyboards t) \<and>
    next_task t' = next_task t \<and> cancelled t' = cancelled t \<and> max_fd t' = max_fd t \<and>
    (delays_wf t \<longrightarrow> delays_wf t') \<and> Q (terminal.more t')"
proof -
  obtain t1 ch where 1: "TC_ready_keyboard h i t = Some t1"
    "lines t1 = (lines t)[i := (lines t ! i)\<lparr>keyboard_ready := True, keyboard_char := ch\<rparr>]"
    "unready_keyboards t1 = removeAll (tty_fd (lines t ! i)) (unready_keyboards t)"
    "next_task t1 = next_task t" "cancelled t1 = cancelled t" "max_fd t1 = max_fd t"
    "delays_wf t \<longrightarrow> delays_wf t1"
    using ready_keyboard_effect [OF assms(1,2), of h] by blast
  from rk [OF assms(3) 1(1)] obtain t' where
    2: "rk h i t = Some t'" "terminal.truncate t' = terminal.truncate t1" "Q (terminal.more t')"
    by blast
  have "delays_wf t' = delays_wf t1"
    unfolding delays_wf_def by (simp only: truncate_fields [OF 2(2)])
  with 1 2(1,3) show ?thesis
    by (intro exI [of _ t'] exI [of _ ch]) (simp add: truncate_fields [OF 2(2)])
qed

lemma new_repoll_fields:
  "lines (fst (new_repoll i t)) = (lines t)[i := (lines t ! i)\<lparr>keyboard_repoll := Some (next_task t)\<rparr>]"
  "unready_keyboards (fst (new_repoll i t)) = unready_keyboards t" "max_fd (fst (new_repoll i t)) = max_fd t"
  "next_task (fst (new_repoll i t)) = Suc (next_task t)" "cancelled (fst (new_repoll i t)) = cancelled t"
  "delays_wf (fst (new_repoll i t)) = delays_wf t" "terminal.more (fst (new_repoll i t)) = terminal.more t"
  "snd (new_repoll i t) = [(keyboard_repoll_ns t, (next_task t, Keyboard_Repoll i))]"
  by (simp_all add: new_repoll_def new_task_def delays_wf_def)

text \<open>A line whose keyboard has just been read and given a new repoll task.\<close>

lemma repolled_wf:
  assumes wf: "terminal_wf t P0" and i: "i < 16" "tty_fd (lines t ! i) \<noteq> -1"
    and P0: "P0 = P \<or> (\<exists>tid. P0 = (tid, Keyboard_Repoll i) # P \<and> keyboard_repoll (lines t ! i) = Some tid)"
    and none: "P0 = P \<Longrightarrow> keyboard_repoll (lines t ! i) = None"
    and t': "lines t' = (lines t)[i := (lines t ! i)\<lparr>keyboard_ready := True, keyboard_char := ch,
        keyboard_repoll := Some (next_task t)\<rparr>]"
      "unready_keyboards t' = removeAll (tty_fd (lines t ! i)) (unready_keyboards t)"
      "next_task t' = Suc (next_task t)" "cancelled t' = cancelled t" "delays_wf t'"
  shows "terminal_wf t' (P @ [(next_task t, Keyboard_Repoll i)])"
proof (rule terminal_wf_step [OF wf, where i = i and x = "(lines t ! i)\<lparr>keyboard_ready := True,
      keyboard_char := ch, keyboard_repoll := Some (next_task t)\<rparr>"])
  note w = terminal_wfD [OF wf]
  let ?P = "P @ [(next_task t, Keyboard_Repoll i)]"
  have sub: "set P \<subseteq> set P0" "distinct (map fst P)"
    using P0 w(4) by auto
  have gone: "tid \<in> set (cancelled t)" if "(tid, Keyboard_Repoll i) \<in> set P" for tid
    using that w(4) w(5) [of "(tid, Keyboard_Repoll i)"] P0 none by (force simp: job_wf_def)
  show "job_wf t' (tid, Keyboard_Repoll i)" if "(tid, Keyboard_Repoll i) \<in> set ?P" for tid
    using that gone [of tid] w(5) [of "(tid, Keyboard_Repoll i)"] sub i w(1) t' by (auto simp: job_wf_def)
  show "job_wf t' (tid, Display_Delay i)" if "(tid, Display_Delay i) \<in> set ?P" for tid
    using that w(5) [of "(tid, Display_Delay i)"] sub i w(1) t' by (auto simp: job_wf_def)
  show "length (filter (\<lambda>tk. snd tk = Keyboard_Poll) ?P) = 1"
    using w(6) P0 by auto
  show "distinct (map fst ?P)"
    using sub job_new [OF wf] by auto
  show "(tk \<in> set ?P) = (tk \<in> set P0)" if "\<not> own_job i (snd tk)" for tk
    using that P0 by (auto simp: own_job_def)
  show "tid \<notin> set (cancelled t') \<and> (tid, Display_Delay i) \<in> set ?P"
    if "display_delay ((lines t ! i)\<lparr>keyboard_ready := True, keyboard_char := ch,
      keyboard_repoll := Some (next_task t)\<rparr>) = Some tid" for tid
    using that w(8) [of i tid] i P0 t' by auto
qed (use i t' terminal_wfD [OF wf] in \<open>auto simp: line_wf_def\<close>)

lemma repoll_wf:
  assumes wf: "terminal_wf t ((tid, Keyboard_Repoll i) # P)" and u: "tid \<notin> set (cancelled t)"
    and q: "Q (terminal.more t)"
  shows "\<exists>t' adds. repoll_keyboard (rk h) i t = Some (t', adds) \<and> terminal_wf t' (P @ map snd adds) \<and>
    Q (terminal.more t') \<and> (\<forall>(k, tk) \<in> set adds. 0 < k)"
proof -
  note w = terminal_wfD [OF wf]
  have i: "i < 16" "keyboard_repoll (lines t ! i) = Some tid"
    using w(5) [of "(tid, Keyboard_Repoll i)"] u by (auto simp: job_wf_def)
  with w(2) [of i] have l: "tty_fd (lines t ! i) \<noteq> -1" "keyboard_ready (lines t ! i)"
    by (auto simp: line_wf_def split: if_splits)
  then have c: "line_connected i t"
    using i by (simp add: line_connected_def)
  obtain t1 ch where 1: "rk h i t = Some t1"
    "lines t1 = (lines t)[i := (lines t ! i)\<lparr>keyboard_ready := True, keyboard_char := ch\<rparr>]"
    "unready_keyboards t1 = removeAll (tty_fd (lines t ! i)) (unready_keyboards t)"
    "next_task t1 = next_task t" "cancelled t1 = cancelled t" "delays_wf t1" "Q (terminal.more t1)"
    using rk_effect [OF c w(1) q, of h] w(3) by blast
  have "terminal_wf (fst (new_repoll i t1)) (P @ [(next_task t, Keyboard_Repoll i)])"
    by (rule repolled_wf [OF wf i(1) l(1), where ch = ch]) (use i 1 w(1) in \<open>auto simp: new_repoll_fields\<close>)
  with c l 1 show ?thesis
    by (cases "new_repoll i t1")
      (use new_repoll_fields [of i t1] in \<open>auto simp: repoll_keyboard_def delays_wf_def\<close>)
qed

lemma update_order:
  "l\<lparr>keyboard_repoll := a, keyboard_ready := b, keyboard_char := c\<rparr> =
   l\<lparr>keyboard_ready := b, keyboard_char := c, keyboard_repoll := a\<rparr>"
  by simp

lemma poll_line_wf:
  assumes wf: "terminal_wf t P" and q: "Q (terminal.more t)" and i: "i < 16"
    and ready: "tty_fd (lines t ! i) \<in> set fds \<Longrightarrow> tty_fd (lines t ! i) \<noteq> -1 \<Longrightarrow> \<not> keyboard_ready (lines t ! i)"
  shows "\<exists>t' more. poll_line (rk h) fds i (t, adds) = Some (t', adds @ more) \<and> terminal_wf t' (P @ map snd more) \<and>
    Q (terminal.more t') \<and> (\<forall>(k, tk) \<in> set more. 0 < k) \<and>
    (\<forall>j. j \<noteq> i \<longrightarrow> lines t' ! j = lines t ! j)"
proof (cases "tty_fd (lines t ! i) \<noteq> -1 \<and> tty_fd (lines t ! i) \<in> set fds")
  case False
  with wf q show ?thesis
    by (intro exI [of _ t] exI [of _ "[]"]) (auto simp: poll_line_def Let_def)
next
  case True
  note w = terminal_wfD [OF wf]
  have l: "\<not> keyboard_ready (lines t ! i)" "keyboard_repoll (lines t ! i) = None"
    using True ready w(2) [OF i] by (auto simp: line_wf_def)
  let ?t = "fst (new_repoll i t)"
  have c: "line_connected i ?t" "length (lines ?t) = 16"
    using True i w(1) by (simp_all add: line_connected_def new_repoll_fields)
  obtain t' ch where 1: "rk h i ?t = Some t'"
    "lines t' = (lines ?t)[i := (lines ?t ! i)\<lparr>keyboard_ready := True, keyboard_char := ch\<rparr>]"
    "unready_keyboards t' = removeAll (tty_fd (lines ?t ! i)) (unready_keyboards ?t)"
    "next_task t' = next_task ?t" "cancelled t' = cancelled ?t" "delays_wf t'" "Q (terminal.more t')"
    using rk_effect [OF c, of h] w(3) q by (auto simp: new_repoll_fields)
  have "terminal_wf t' (P @ [(next_task t, Keyboard_Repoll i)])"
    by (rule repolled_wf [OF wf i, where ch = ch]) (use True l 1 i w(1) in \<open>auto simp: new_repoll_fields update_order\<close>)
  moreover have "poll_line (rk h) fds i (t, adds) = Some (t', adds @ snd (new_repoll i t))"
    using True l 1(1) by (cases "new_repoll i t") (simp add: poll_line_def)
  ultimately show ?thesis
    using 1 w(3) by (intro exI [of _ t'] exI [of _ "snd (new_repoll i t)"]) (auto simp: new_repoll_fields delays_wf_def)
qed

lemma poll_lines_wf:
  "terminal_wf t P \<Longrightarrow> Q (terminal.more t) \<Longrightarrow> \<forall>i \<in> set js. i < 16 \<Longrightarrow> distinct js \<Longrightarrow>
   \<forall>i \<in> set js. tty_fd (lines t ! i) \<in> set fds \<longrightarrow> tty_fd (lines t ! i) \<noteq> -1 \<longrightarrow> \<not> keyboard_ready (lines t ! i) \<Longrightarrow>
   \<exists>t' more. for_lines (poll_line (rk h) fds) js (t, adds) = Some (t', adds @ more) \<and>
     terminal_wf t' (P @ map snd more) \<and> Q (terminal.more t') \<and> (\<forall>(k, tk) \<in> set more. 0 < k)"
proof (induction js arbitrary: t P adds)
  case Nil
  then show ?case
    by (intro exI [of _ t] exI [of _ "[]"]) simp
next
  case (Cons i js)
  obtain t1 m where 1: "poll_line (rk h) fds i (t, adds) = Some (t1, adds @ m)" "terminal_wf t1 (P @ map snd m)"
    "Q (terminal.more t1)" "\<forall>(k, tk) \<in> set m. 0 < k" "\<forall>j. j \<noteq> i \<longrightarrow> lines t1 ! j = lines t ! j"
    using poll_line_wf [OF Cons.prems(1,2), of i fds h adds] Cons.prems(3,5) by auto
  have "\<forall>j \<in> set js. tty_fd (lines t1 ! j) \<in> set fds \<longrightarrow> tty_fd (lines t1 ! j) \<noteq> -1 \<longrightarrow> \<not> keyboard_ready (lines t1 ! j)"
    using Cons.prems(4,5) 1(5) by auto
  then obtain t2 n where 2: "for_lines (poll_line (rk h) fds) js (t1, adds @ m) = Some (t2, (adds @ m) @ n)"
    "terminal_wf t2 ((P @ map snd m) @ map snd n)" "Q (terminal.more t2)" "\<forall>(k, tk) \<in> set n. 0 < k"
    using Cons.IH [OF 1(2,3), of "adds @ m"] Cons.prems(3,4) by auto
  with 1 show ?case
    by (intro exI [of _ t2] exI [of _ "m @ n"]) auto
qed

lemma poll_wf:
  assumes wf: "terminal_wf t ((tid, Keyboard_Poll) # P)" and q: "Q (terminal.more t)"
  shows "\<exists>t' adds. poll_keyboards h (rk h) t = Some (t', adds) \<and> terminal_wf t' (P @ map snd adds) \<and>
    Q (terminal.more t') \<and> (\<forall>(k, tk) \<in> set adds. 0 < k)"
proof -
  note w = terminal_wfD [OF wf]
  let ?t = "t\<lparr>next_task := Suc (next_task t), keyboard_poll := Some (next_task t)\<rparr>"
  let ?add = "[(keyboard_poll_ns t, (next_task t, Keyboard_Poll))]"
  let ?P = "P @ map snd ?add"
  have wf1: "terminal_wf ?t ?P"
    unfolding terminal_wf_def
  proof (intro conjI)
    show "lines_wf ?t" "delays_wf ?t"
      using wf by (simp_all add: terminal_wf_def lines_wf_def delays_wf_def)
    show "distinct (map fst ?P)"
      using wf job_new [OF wf] by (auto simp: terminal_wf_def)
    show "\<forall>tk \<in> set ?P. job_wf ?t tk"
    proof
      fix tk assume "tk \<in> set ?P"
      then show "job_wf ?t tk"
        using w(5) [of tk] w(10) by (cases "snd tk") (auto simp: job_wf_def)
    qed
    show "pointers_wf ?t ?P"
      using w(7,8) by (force simp: pointers_wf_def)
    show "length (filter (\<lambda>tk. snd tk = Keyboard_Poll) ?P) = 1"
      using w(6) by simp
    show "\<forall>tid \<in> set (cancelled ?t). tid < next_task ?t"
      using wf by (auto simp: terminal_wf_def)
  qed
  let ?r = "filter (\<lambda>fd. fd < max_fd ?t \<and> fd_readable h fd) (unready_keyboards ?t)"
  have "\<forall>i \<in> set [0..<16]. tty_fd (lines ?t ! i) \<in> set ?r \<longrightarrow> tty_fd (lines ?t ! i) \<noteq> -1 \<longrightarrow> \<not> keyboard_ready (lines ?t ! i)"
    using w(9) by auto
  then obtain t' more where
    2: "for_lines (poll_line (rk h) ?r) [0..<16] (?t, ?add) = Some (t', ?add @ more)"
      "terminal_wf t' (?P @ map snd more)" "Q (terminal.more t')" "\<forall>(k, tk) \<in> set more. 0 < k"
    using poll_lines_wf [OF wf1, of "[0..<16]" ?r h ?add] q by auto
  have pos: "0 < keyboard_poll_ns t"
    using w(3) by (simp add: delays_wf_def)
  have poll: "poll_keyboards h (rk h) t =
      (if max_fd t = -1 \<or> ?r = [] then Some (?t, ?add) else Some (t', ?add @ more))"
    using 2(1) by (simp add: poll_keyboards_def new_task_def Let_def del: filter.simps)
  show ?thesis
  proof (cases "max_fd t = -1 \<or> ?r = []")
    case True
    then show ?thesis
      using wf1 q pos poll by (intro exI [of _ ?t] exI [of _ ?add]) auto
  next
    case False
    then show ?thesis
      using 2 pos poll by (intro exI [of _ t'] exI [of _ "?add @ more"]) auto
  qed
qed

text \<open>The clock runs a task of the queue: no assertion fails, and the invariant holds of what is left.\<close>

lemma task_wf:
  assumes wf: "terminal_wf t (tk # P)" and q: "Q (terminal.more t)"
  shows "\<exists>t' adds. term_task (rk h) rd h tk t = Some (t', adds) \<and> terminal_wf t' (P @ map snd adds) \<and>
    Q (terminal.more t') \<and> (\<forall>(k, tk) \<in> set adds. 0 < k)"
proof (cases "fst tk \<in> set (cancelled t)")
  case True
  with terminal_wf_cancelled [OF wf] q show ?thesis
    by (simp add: term_task_def CancelableTask_task_def)
next
  case False
  obtain tid j where tk: "tk = (tid, j)"
    by fastforce
  show ?thesis
  proof (cases j)
    case Keyboard_Poll
    with poll_wf [of t tid P h] wf q tk False show ?thesis
      by (simp add: term_task_def CancelableTask_task_def)
  next
    case (Keyboard_Repoll i)
    with repoll_wf [of t tid i P h] wf q tk False show ?thesis
      by (simp add: term_task_def CancelableTask_task_def)
  next
    case (Display_Delay i)
    with ready_display_wf [of t tid i P] wf tk False obtain t1 where
      1: "TC_ready_display i t = Some t1" "terminal_wf t1 P"
      by auto
    from rd [OF q 1(1)] obtain t' where "rd i t = Some t'" "terminal.truncate t' = terminal.truncate t1"
        "Q (terminal.more t')"
      by blast
    with 1 terminal_wf_truncate [of t' t1 P] tk Display_Delay False show ?thesis
      by (simp add: term_task_def CancelableTask_task_def)
  qed
qed

end

end
