(* ===== verification/Board_Facts.thy ===== *)
theory Board_Facts
  imports Board Terminal_Facts
begin

text \<open>
  The board is safe: in every state reached by accesses of its registers and by passing time, no
  assertion of a device, of the terminal controller or of the clock fails. The invariant relates the
  devices to the tasks they have in the queue.
\<close>

section \<open>The serial device overrides the controller's methods\<close>

definition has_csr :: "unit serial_ext \<Rightarrow> bool" where
  "has_csr m \<longleftrightarrow> (\<forall>t. deccsr_device (terminal.extend t m) \<noteq> None)"

lemma has_csr_more: "has_csr (terminal.more s) \<longleftrightarrow> deccsr_device s \<noteq> None"
proof -
  have "deccsr_device (terminal.extend t (terminal.more s)) = deccsr_device s" for t
    by (cases s) (simp add: terminal.extend_def)
  then show ?thesis
    by (simp add: has_csr_def)
qed

lemma TC_ready_more:
  "TC_ready_keyboard h i t = Some t1 \<Longrightarrow> terminal.more t1 = terminal.more t"
  "TC_ready_display i t = Some t2 \<Longrightarrow> terminal.more t2 = terminal.more t"
  by (auto simp: TC_ready_keyboard_def TC_ready_display_def FD_CLR_def set_line_def Let_def
      split: option.splits if_splits)

lemma csr_int_more:
  "deccsr_device s \<noteq> None \<Longrightarrow> \<exists>s'. assertCSRInt s = Some s' \<and> terminal.truncate s' = terminal.truncate s \<and>
     deccsr_device s' \<noteq> None"
  "deccsr_device s \<noteq> None \<Longrightarrow> \<exists>s'. deassertCSRInt s = Some s' \<and> terminal.truncate s' = terminal.truncate s \<and>
     deccsr_device s' \<noteq> None"
  by (auto simp: assertCSRInt_def deassertCSRInt_def terminal.truncate_def)

interpretation dz: virtual_lines dz_ready_keyboard dz_ready_display has_csr
proof
  fix t t1 :: serial and h i
  assume q: "has_csr (terminal.more t)" and r: "TC_ready_keyboard h i t = Some t1"
  have "deccsr_device t1 \<noteq> None"
    using q has_csr_more [of t] has_csr_more [of t1] TC_ready_more(1) [OF r] by simp
  with csr_int_more(1) [of t1] show "\<exists>t'. dz_ready_keyboard h i t = Some t' \<and>
      terminal.truncate t' = terminal.truncate t1 \<and> has_csr (terminal.more t')"
    using r by (auto simp: dz_ready_keyboard_def has_csr_more)
next
  fix t t1 :: serial and i
  assume q: "has_csr (terminal.more t)" and r: "TC_ready_display i t = Some t1"
  have "deccsr_device t1 \<noteq> None"
    using q has_csr_more [of t] has_csr_more [of t1] TC_ready_more(2) [OF r] by simp
  with csr_int_more(1) [of t1] show "\<exists>t'. dz_ready_display i t = Some t' \<and>
      terminal.truncate t' = terminal.truncate t1 \<and> has_csr (terminal.more t')"
    using r by (auto simp: dz_ready_display_def has_csr_more)
qed

section \<open>The invariant of the board\<close>

definition serial_jobs :: "board_job list \<Rightarrow> term_task list" where
  "serial_jobs P = concat (map (\<lambda>j. case j of Job_Serial tk \<Rightarrow> [tk] | _ \<Rightarrow> []) P)"

lemma serial_jobs_simps [simp]:
  "serial_jobs [] = []" "serial_jobs (Job_Serial tk # P) = tk # serial_jobs P"
  "serial_jobs (Job_Clock j # P) = serial_jobs P" "serial_jobs (Job_RTC r # P) = serial_jobs P"
  "serial_jobs (P @ R) = serial_jobs P @ serial_jobs R"
  by (simp_all add: serial_jobs_def)

lemma serial_jobs_map [simp]: "serial_jobs (map snd (jobs Job_Serial adds)) = map snd adds"
  by (induction adds) (auto simp: jobs_def)

lemma no_serial_jobs [simp]:
  "serial_jobs (map snd (jobs Job_Clock adds)) = []" "serial_jobs (map snd (jobs Job_RTC adds')) = []"
  by (auto simp: jobs_def serial_jobs_def)

lemma mset_serial_jobs: "mset P = mset R \<Longrightarrow> mset (serial_jobs P) = mset (serial_jobs R)"
proof -
  have "mset (serial_jobs Q) = (\<Sum>j \<in># mset Q. mset (case j of Job_Serial tk \<Rightarrow> [tk] | _ \<Rightarrow> []))" for Q
    by (induction Q) (auto simp: serial_jobs_def)
  then show "mset P = mset R \<Longrightarrow> ?thesis"
    by simp
qed

definition clock_jobs :: "board_job list \<Rightarrow> board_job list" where
  "clock_jobs P = filter (\<lambda>j. j = Job_Clock Clock_Trigger) P"

definition board_good :: "board \<Rightarrow> board_job list \<Rightarrow> bool" where
  "board_good b P \<longleftrightarrow>
     0 < frequency_ns (bd_clock b) \<and> length (clock_jobs P) = 1 \<and>
     deccsr_device (bd_serial b) \<noteq> None \<and> terminal_wf (bd_serial b) (serial_jobs P)"

lemma clock_jobs_simps [simp]:
  "clock_jobs [] = []" "clock_jobs (P @ R) = clock_jobs P @ clock_jobs R"
  "clock_jobs (Job_Serial tk # P) = clock_jobs P" "clock_jobs (Job_RTC r # P) = clock_jobs P"
  "clock_jobs (Job_Clock j # P) = Job_Clock j # clock_jobs P"
  by (simp_all add: clock_jobs_def) (cases j; simp)

lemma clock_jobs_map [simp]:
  "clock_jobs (map snd (jobs Job_Serial adds)) = []" "clock_jobs (map snd (jobs Job_RTC adds')) = []"
  by (auto simp: jobs_def clock_jobs_def filter_empty_conv)

lemma jobs_positive: "\<forall>(k, t) \<in> set adds. 0 < k \<Longrightarrow> \<forall>(k, t) \<in> set (jobs f adds). 0 < k"
  by (auto simp: jobs_def)

interpretation board_tasks: timed_tasks "board_exec h" board_good
proof
  fix b P R
  assume "board_good b P" "mset P = mset R"
  moreover from this(2) have "length (clock_jobs P) = length (clock_jobs R)"
    unfolding clock_jobs_def by (metis mset_filter size_mset)
  ultimately show "board_good b R"
    using terminal_wf_mset [OF mset_serial_jobs [of P R], where t = "bd_serial b"]
    by (simp add: board_good_def)
next
  fix b j P tm
  assume g: "board_good b (j # P)"
  show "\<exists>b' adds. board_exec h j tm b = Some (b', adds) \<and> board_good b' (P @ map snd adds) \<and>
      (\<forall>(k, u) \<in> set adds. 0 < k)"
  proof (cases j)
    case (Job_Clock k)
    with g show ?thesis
      by (cases k; cases "cd_interrupt_enabled (bd_clock b)")
        (auto simp: board_good_def ready_clock_def cd_drive_def jobs_def Let_def)
  next
    case (Job_RTC k)
    with g show ?thesis
      by (cases k; cases "rtc_interrupt_enable (bd_rtc b)")
        (auto simp: board_good_def rtc_ready_clock_def jobs_def word_less_def Let_def)
  next
    case (Job_Serial tk)
    with g dz.task_wf [of "bd_serial b" tk "serial_jobs P" h] obtain s adds where
      1: "dz_task h tk (bd_serial b) = Some (s, adds)" "terminal_wf s (serial_jobs P @ map snd adds)"
        "deccsr_device s \<noteq> None" "\<forall>(k, tk) \<in> set adds. 0 < k"
      by (auto simp: board_good_def has_csr_more dz_task_def)
    with g Job_Serial jobs_positive [OF 1(4), of Job_Serial] show ?thesis
      by (auto simp: board_good_def)
  qed
qed

text \<open>What the whole state keeps.\<close>

definition board_inv :: "board_state \<Rightarrow> bool" where
  "board_inv s \<longleftrightarrow> board_good (fst s) (pending (deferred (snd s))) \<and> clock_wf (snd s)"

lemma add_all_pending:
  assumes "clock_wf c" "\<forall>(k, t) \<in> set adds. 0 < k"
  shows "\<exists>c'. add_all adds c = Some c' \<and> clock_wf c' \<and>
    mset (pending (deferred c')) = mset (pending (deferred c) @ map snd adds)"
proof -
  obtain c' where c': "add_all adds c = Some c'" "clock_wf c'"
      "agenda 0 (deferred c') = schedule 0 adds (agenda 0 (deferred c))"
    using add_all_wf [OF assms, of 0] by blast
  have "mset (pending (deferred c')) = mset (map snd (schedule 0 adds (agenda 0 (deferred c))))"
    using agenda_pending [of 0 "deferred c'"] c'(3) by simp
  also have "\<dots> = mset (pending (deferred c) @ map snd adds)"
    unfolding mset_schedule by (simp only: agenda_pending)
  finally show ?thesis
    using c' by blast
qed

text \<open>An access that leaves the device in order and queues its tasks keeps the invariant.\<close>

lemma board_inv_add:
  assumes "clock_wf c" "board_good b (pending (deferred c) @ map snd adds)" "\<forall>(k, t) \<in> set adds. 0 < k"
  shows "\<exists>c'. add_all adds c = Some c' \<and> board_inv (b, c')"
  using add_all_pending [OF assms(1,3)] board_tasks.good_perm [OF assms(2)] by (force simp: board_inv_def)

lemma board_inv_serial:
  assumes "board_inv (b, c)" "terminal_wf s (serial_jobs (pending (deferred c)) @ map snd adds)"
    and "deccsr_device s \<noteq> None" "\<forall>(k, t) \<in> set adds. 0 < k"
  shows "\<exists>c'. add_all (jobs Job_Serial adds) c = Some c' \<and> board_inv (b\<lparr>bd_serial := s\<rparr>, c')"
  by (rule board_inv_add)
    (use assms jobs_positive [OF assms(4), of Job_Serial] in \<open>auto simp: board_inv_def board_good_def\<close>)

section \<open>Accesses of the registers\<close>

lemma dz_same:
  assumes "terminal_wf s P" "terminal.truncate s' = terminal.truncate s"
  shows "terminal_wf s' P"
  using assms terminal_wf_truncate [of s' s P] by simp

lemma receive_line_wf:
  "terminal_wf s P \<Longrightarrow> deccsr_device s \<noteq> None \<Longrightarrow>
    \<exists>s'. receive_line ls s = Some s' \<and> terminal_wf s' P \<and> deccsr_device s' \<noteq> None"
proof (induction ls)
  case (Cons line ls)
  show ?case
  proof (cases "receiver_done line s")
    case False
    with Cons show ?thesis
      by simp
  next
    case True
    then obtain s1 where 1: "TC_unready_keyboard line s = Some s1" "terminal_wf s1 P"
        "terminal.more s1 = terminal.more s"
      using unready_keyboard_wf [OF Cons.prems(1), of line] by (auto simp: receiver_done_def)
    have "deccsr_device s1 \<noteq> None"
      using Cons.prems(2) has_csr_more [of s] has_csr_more [of s1] 1(3) by simp
    then obtain s2 where 2: "deassertCSRInt s1 = Some s2" "terminal.truncate s2 = terminal.truncate s1"
        "deccsr_device s2 \<noteq> None"
      using csr_int_more(2) by blast
    have "terminal_wf (s2\<lparr>dz_rbuf := v\<rparr>) P" for v
      by (rule dz_same [OF 1(2)]) (use 2(2) in \<open>simp add: terminal.truncate_def\<close>)
    with True 1(1) 2 show ?thesis
      by (simp add: dz_unready_keyboard_def)
  qed
qed simp

lemma serial_fetch_wf:
  assumes wf: "terminal_wf s P" and csr: "deccsr_device s \<noteq> None"
  shows "\<exists>w s'. DECSerialDevice_fetch_word m off s = Some (w, s') \<and> terminal_wf s' P \<and> deccsr_device s' \<noteq> None"
proof -
  have same: "terminal_wf (s\<lparr>dz_csr := v\<rparr>) P" "terminal_wf (s\<lparr>dz_rbuf := v\<rparr>) P" for v
    by (rule dz_same [OF wf], simp add: terminal.truncate_def)+
  obtain s1 where "receive_line [0..<4] (s\<lparr>dz_rbuf := dz_rbuf s AND NOT DZ_RBUF_DVAL\<rparr>) = Some s1"
      "terminal_wf s1 P" "deccsr_device s1 \<noteq> None"
    using receive_line_wf [OF same(2)] csr by fastforce
  with same wf csr show ?thesis
    unfolding DECSerialDevice_fetch_word_def by (auto simp: Let_def simp del: receive_line.simps)
qed

lemma dz_update_interrupt_wf:
  assumes "terminal_wf s P" "deccsr_device s \<noteq> None"
  shows "\<exists>s'. dz_update_interrupt s = Some s' \<and> terminal_wf s' P \<and> deccsr_device s' \<noteq> None"
  using csr_int_more [OF assms(2)] dz_same [OF assms(1)] by (auto simp: dz_update_interrupt_def)

lemma dz_store_wf:
  assumes wf: "terminal_wf s P" and csr: "deccsr_device s \<noteq> None" and h: "\<And>fd. fd_write_ok h fd"
  shows "\<exists>s' adds. dz_store h r d s = Some (s', adds) \<and> terminal_wf s' (P @ map snd adds) \<and>
    deccsr_device s' \<noteq> None \<and> (\<forall>(k, t) \<in> set adds. 0 < k)"
proof (cases "r = 0 \<or> r = 0x08 \<or> r = 0x10 \<or> \<not> line_connected 3 s")
  case True
  then have "\<exists>s'. dz_store h r d s = Some (s', []) \<and> terminal.truncate s' = terminal.truncate s \<and>
      deccsr_device s' = deccsr_device s"
    by (elim disjE) (simp_all add: dz_store_def master_clear_def Let_def terminal.truncate_def)
  with dz_same [OF wf] csr show ?thesis
    by fastforce
next
  case False
  then obtain s1 adds where 1: "TC_unready_display h 3 (ucast (d AND 0xff)) s = Some (s1, adds)"
      "terminal_wf s1 (P @ map snd adds)" "terminal.more s1 = terminal.more s" "\<forall>(k, t) \<in> set adds. 0 < k"
    using unready_display_wf [OF wf _ h] by blast
  have "deccsr_device s1 \<noteq> None"
    using csr has_csr_more [of s] has_csr_more [of s1] 1(3) by simp
  then obtain s2 where 2: "deassertCSRInt s1 = Some s2" "terminal.truncate s2 = terminal.truncate s1"
      "deccsr_device s2 \<noteq> None"
    using csr_int_more(2) by blast
  with False 1 dz_same [OF 1(2)] show ?thesis
    by (auto simp: dz_store_def dz_unready_display_def)
qed

lemma serial_store_wf:
  assumes "terminal_wf s P" "deccsr_device s \<noteq> None" "\<And>fd. fd_write_ok h fd"
  shows "\<exists>s' adds. DECSerialDevice_store_word h m off data s = Some (s', adds) \<and>
    terminal_wf s' (P @ map snd adds) \<and> deccsr_device s' \<noteq> None \<and> (\<forall>(k, t) \<in> set adds. 0 < k)"
proof -
  let ?d = "(let d = host_to_mips_word m data in if opt_bigendian m then drop_bit 16 d else d) AND 0x0ffff"
  obtain s1 adds where 1: "dz_store h (off AND 0x18) ?d s = Some (s1, adds)"
      "terminal_wf s1 (P @ map snd adds)" "deccsr_device s1 \<noteq> None" "\<forall>(k, t) \<in> set adds. 0 < k"
    using dz_store_wf [OF assms, of "off AND 0x18" ?d] by blast
  with dz_update_interrupt_wf [OF 1(2,3)] show ?thesis
    unfolding DECSerialDevice_store_word_def by (auto simp: Let_def)
qed

lemma clock_offset: "off < 20 \<Longrightarrow> off div 4 = (0 :: u32) \<or> off div 4 = 1 \<or> off div 4 = 2 \<or> off div 4 = 3 \<or> off div 4 = 4"
proof -
  assume "off < 20"
  then have "unat (off div 4) < 5"
    by (simp add: word_less_nat_alt unat_div)
  then have "unat (off div 4) = 0 \<or> unat (off div 4) = 1 \<or> unat (off div 4) = 2 \<or> unat (off div 4) = 3 \<or> unat (off div 4) = 4"
    by linarith
  then show ?thesis
    by (elim disjE) (simp_all only: word_unat_eq_iff, simp_all)
qed

lemma rtc_ready_positive: "\<forall>(k, t) \<in> set (snd (rtc_ready_clock d)). 0 < k"
  by (simp add: rtc_ready_clock_def Let_def word_less_def)

lemma rtc_store_positive:
  "\<exists>d' adds. DECRTCDevice_store_word m off data d = Some (d', adds) \<and> (\<forall>(k, t) \<in> set adds. 0 < k)"
  using rtc_ready_positive unfolding DECRTCDevice_store_word_def Let_def split_beta
  by (cases "unat (off div 4) = RTC_REGA"; cases "unat (off div 4) = RTC_REGB") auto

section \<open>Every state that is reached\<close>

lemma board_step_inv:
  assumes inv: "board_inv s" and ok: "op_ok op"
  shows "\<exists>s'. board_step m op s = Some s' \<and> board_inv s'"
proof -
  obtain b c where s: "s = (b, c)"
    by fastforce
  have g: "board_good b (pending (deferred c))" and cw: "clock_wf c"
    using inv s by (auto simp: board_inv_def)
  have ser: "terminal_wf (bd_serial b) (serial_jobs (pending (deferred c)))" "deccsr_device (bd_serial b) \<noteq> None"
    using g by (auto simp: board_good_def)
  show ?thesis
  proof (cases op)
    case (Pass_Time h ns)
    with board_tasks.increment_time_good [OF _ cw g, of ns h] ok s show ?thesis
      by (auto simp: board_inv_def)
  next
    case (Pass_Realtime h ratio first current)
    with board_tasks.pass_realtime_good [OF cw g, of ratio first current h] ok s show ?thesis
      by (auto simp: board_inv_def)
  next
    case (Clock_Fetch real off)
    with clock_offset [of off] ok s g cw show ?thesis
      by (auto simp: ClockDevice_fetch_word_def unready_clock_def cd_drive_def board_inv_def board_good_def)
  next
    case (Clock_Store off data)
    have tm: "0 \<le> tv_sec (clk_time c)" "0 \<le> tv_nsec (clk_time c)"
      using cw by (simp_all add: clock_wf_def)
    with Clock_Store clock_offset [of off] ok s g cw show ?thesis
      by (auto simp: ClockDevice_store_word_def cd_drive_def board_inv_def board_good_def set_time_def
          get_time_def clock_wf_def Let_def)
  next
    case (RTC_Fetch off)
    with s g cw show ?thesis
      by (simp add: DECRTCDevice_fetch_word_def Let_def board_inv_def board_good_def)
  next
    case (RTC_Store off data)
    obtain d adds where d: "DECRTCDevice_store_word m off data (bd_rtc b) = Some (d, adds)"
        "\<forall>(k, t) \<in> set adds. 0 < k"
      using rtc_store_positive by blast
    have "board_good (b\<lparr>bd_rtc := d\<rparr>) (pending (deferred c) @ map snd (jobs Job_RTC adds))"
      using g by (simp add: board_good_def)
    with board_inv_add [OF cw this jobs_positive [OF d(2)]] RTC_Store d s show ?thesis
      by auto
  next
    case (CSR_Fetch off)
    have "terminal_wf ((bd_serial b)\<lparr>deccsr_device := x\<rparr>) (serial_jobs (pending (deferred c)))" for x
      by (rule dz_same [OF ser(1)]) (simp add: terminal.truncate_def)
    with CSR_Fetch s g cw show ?thesis
      by (auto simp: DECCSRDevice_fetch_word_def board_inv_def board_good_def)
  next
    case (CSR_Store off data)
    have "terminal_wf ((bd_serial b)\<lparr>deccsr_device := x\<rparr>) (serial_jobs (pending (deferred c)))" for x
      by (rule dz_same [OF ser(1)]) (simp add: terminal.truncate_def)
    with CSR_Store s g cw show ?thesis
      by (auto simp: DECCSRDevice_store_word_def board_inv_def board_good_def)
  next
    case (Serial_Fetch off)
    with serial_fetch_wf [OF ser, of m off] s g cw show ?thesis
      by (auto simp: board_inv_def board_good_def)
  next
    case (Serial_Store h off data)
    then obtain s' adds where 1: "DECSerialDevice_store_word h m off data (bd_serial b) = Some (s', adds)"
        "terminal_wf s' (serial_jobs (pending (deferred c)) @ map snd adds)" "deccsr_device s' \<noteq> None"
        "\<forall>(k, t) \<in> set adds. 0 < k"
      using serial_store_wf [OF ser, of h m off data] ok by auto
    with board_inv_serial [of b c s' adds] inv Serial_Store s show ?thesis
      by auto
  qed
qed

lemma fresh_terminal:
  assumes "TerminalController_new p r d = Some (t, adds)"
  shows "terminal_wf (terminal.extend t x) (map snd adds)" "\<forall>(k, tk) \<in> set adds. 0 < k"
    "i < 16 \<Longrightarrow> tty_fd (lines (terminal.extend t x) ! i) = -1"
proof -
  have pos: "0 < p" "0 < r" "0 < d" and adds: "adds = [(p, (0, Keyboard_Poll))]"
    using assms by (auto simp: TerminalController_new_def)
  have t: "lines (terminal.extend t x) = replicate 16 line_new" "next_task (terminal.extend t x) = 1"
      "cancelled (terminal.extend t x) = []" "unready_keyboards (terminal.extend t x) = []"
      "keyboard_poll_ns (terminal.extend t x) = p" "keyboard_repoll_ns (terminal.extend t x) = r"
      "display_ready_delay_ns (terminal.extend t x) = d"
    using assms by (auto simp: TerminalController_new_def terminal.extend_def)
  have n: "tty_fd (lines (terminal.extend t x) ! i) = -1 \<and> keyboard_repoll (lines (terminal.extend t x) ! i) = None \<and>
      display_delay (lines (terminal.extend t x) ! i) = None" if "i < 16" for i
    unfolding t(1) nth_replicate [OF that] by (simp add: line_new_def)
  have len: "length (lines (terminal.extend t x)) = 16"
    unfolding t(1) by (rule length_replicate)
  show "terminal_wf (terminal.extend t x) (map snd adds)"
    unfolding terminal_wf_def
  proof (intro conjI)
    show "lines_wf (terminal.extend t x)"
      unfolding lines_wf_def line_wf_def using len n by (intro conjI allI impI) auto
    show "delays_wf (terminal.extend t x)"
      using pos t by (simp add: delays_wf_def)
    show "pointers_wf (terminal.extend t x) (map snd adds)"
      unfolding pointers_wf_def using n by (intro conjI allI impI) auto
  qed (use t(2-4) adds in \<open>simp_all add: job_wf_def\<close>)
  show "\<forall>(k, tk) \<in> set adds. 0 < k"
    using pos adds by simp
  show "tty_fd (lines (terminal.extend t x) ! i) = -1" if "i < 16"
    using n [OF that] by simp
qed

lemma setup_decserial_wf:
  assumes "setup_decserial h ttyfd rbuf0 msr0 kie0 die0 csr = Some (s, adds)"
  shows "terminal_wf s (map snd adds) \<and> deccsr_device s \<noteq> None \<and> (\<forall>(k, tk) \<in> set adds. 0 < k)"
proof -
  obtain t where t: "TerminalController_new 100 100 100 = Some (t, adds)"
    and line: "setup_console_line h 3 ttyfd (master_clear (terminal.extend t
      (serial.fields 0 rbuf0 0 0 msr0 SystemInterfaceCSRInt kie0 die0 (Some csr)))) = Some s"
    using assms by (auto simp: setup_decserial_def DECSerialDevice_new_def)
  let ?s0 = "terminal.extend t (serial.fields 0 rbuf0 0 0 msr0 SystemInterfaceCSRInt kie0 die0 (Some csr))"
  have same: "terminal.truncate (master_clear ?s0) = terminal.truncate ?s0"
      "deccsr_device (master_clear ?s0) = Some csr" "lines (master_clear ?s0) = lines ?s0"
    by (simp_all add: master_clear_def terminal.truncate_def terminal.extend_def serial.fields_def)
  have wf: "terminal_wf (master_clear ?s0) (map snd adds)"
    by (rule dz_same [OF fresh_terminal(1) [OF t] same(1)])
  show ?thesis
  proof (cases ttyfd)
    case None
    with line wf same fresh_terminal(2) [OF t] show ?thesis
      by (auto simp: setup_console_line_def)
  next
    case (Some fd)
    with line obtain ok where c: "connect_terminal h fd 3 (master_clear ?s0) = Some (ok, s)"
      by (auto simp: setup_console_line_def)
    have "terminal_wf s (map snd adds) \<and> terminal.more s = terminal.more (master_clear ?s0)"
      by (rule connect_terminal_wf [OF wf _ c]) (use same(3) in \<open>simp add: fresh_terminal(3) [OF t]\<close>)
    with has_csr_more [of s] has_csr_more [of "master_clear ?s0"] same(2) fresh_terminal(2) [OF t]
    show ?thesis
      by auto
  qed
qed

lemma board_setup_inv:
  assumes "board_setup h start opt_irq opt_clockintr ttyfd csr rbuf0 msr0 kie0 die0 = Some s"
  shows "board_inv s"
proof -
  obtain c0 d adds1 c1 ser adds2 c2 where
    1: "setup_clock start = Some c0" "add_all (jobs Job_Clock adds1) c0 = Some c1"
      "setup_decserial h ttyfd rbuf0 msr0 kie0 die0 csr = Some (ser, adds2)"
      "add_all (jobs Job_Serial adds2) c1 = Some c2" "setup_clockdevice opt_irq opt_clockintr = Some (True, Some (d, adds1))"
      "s = (\<lparr>bd_clock = d, bd_rtc = setup_decrtc, bd_serial = ser\<rparr>, c2)"
    using assms by (auto simp: board_setup_def setup_clockdevice_def Let_def split: if_splits)
  have c0: "clock_wf c0" "deferred c0 = []"
    using 1(1) by (auto simp: setup_clock_def Clock_new_def clock_wf_def)
  have d: "0 < frequency_ns d" "adds1 = [(frequency_ns d, Clock_Trigger)]"
    using 1(5) by (auto simp: setup_clockdevice_def ClockDevice_new_def Let_def split: if_splits)
  have "\<forall>(k, t) \<in> set (jobs Job_Clock adds1). 0 < k"
    using d by (simp add: jobs_def)
  from add_all_pending [OF c0(1) this] 1(2) c0(2) have
    c1: "clock_wf c1" "mset (pending (deferred c1)) = mset (map snd (jobs Job_Clock adds1))"
    by (auto simp: pending_def)
  note ser = setup_decserial_wf [OF 1(3)]
  from add_all_pending [OF c1(1) jobs_positive, of adds2 Job_Serial] ser 1(4) have
    c2: "clock_wf c2" "mset (pending (deferred c2)) = mset (pending (deferred c1) @ map snd (jobs Job_Serial adds2))"
    by auto
  have "mset (map snd (jobs Job_Clock adds1) @ map snd (jobs Job_Serial adds2)) = mset (pending (deferred c2))"
    using c1(2) c2(2) by simp
  moreover have "board_good (fst s) (map snd (jobs Job_Clock adds1) @ map snd (jobs Job_Serial adds2))"
    using ser d 1(6) by (simp add: board_good_def) (simp add: jobs_def)
  ultimately have "board_good (fst s) (pending (deferred c2))"
    using board_tasks.good_perm by blast
  with c2(1) 1(6) show ?thesis
    by (simp add: board_inv_def)
qed

lemma board_reach_inv: "board_reach m s \<Longrightarrow> board_inv s"
proof (induction rule: board_reach.induct)
  case (reach_step s op s')
  with board_step_inv [of s op m] show ?case
    by auto
qed (rule board_setup_inv)

end
