(* ===== verification/Board_Props.thy ===== *)
theory Board_Props
  imports Board_Facts
begin

text \<open>The properties of the timed devices, with the concrete machine their witnesses run.\<close>

section \<open>When the clock device becomes ready\<close>

abbreviation (input) clock_job :: board_job where "clock_job \<equiv> Job_Clock Clock_Trigger"

definition clock_entries :: "(int \<times> board_job) list \<Rightarrow> (int \<times> board_job) list" where
  "clock_entries ag = filter (\<lambda>x. snd x = clock_job) ag"

definition clock_due :: "int \<Rightarrow> board_job deferred_tasks list \<Rightarrow> int" where
  "clock_due T q = fst (hd (clock_entries (agenda T q)))"

lemma clock_entries_map: "map snd (clock_entries ag) = clock_jobs (map snd ag)"
  by (induction ag) (auto simp: clock_entries_def clock_jobs_def)

lemma clock_entries_simps [simp]:
  "clock_entries [] = []" "clock_entries (a @ b) = clock_entries a @ clock_entries b"
  "clock_entries (x # ag) = (if snd x = clock_job then x # clock_entries ag else clock_entries ag)"
  by (simp_all add: clock_entries_def)

lemma clock_entries_jobs [simp]:
  "clock_entries (jobs Job_Serial adds) = []" "clock_entries (jobs Job_RTC adds') = []"
  "clock_entries (jobs Job_Clock [(k, Clock_Trigger)]) = [(k, clock_job)]"
  by (auto simp: clock_entries_def jobs_def filter_empty_conv)

lemma clock_entries_insort:
  "snd x \<noteq> clock_job \<Longrightarrow> clock_entries (insort_due x ag) = clock_entries ag"
  "snd x = clock_job \<Longrightarrow> clock_entries ag = [] \<Longrightarrow> clock_entries (insort_due x ag) = [x]"
  by (induction ag) (auto split: if_splits)

lemma clock_entries_schedule:
  "clock_entries adds = [] \<Longrightarrow> clock_entries (schedule N adds ag) = clock_entries ag"
  "clock_entries ag = [] \<Longrightarrow> clock_entries adds = [(k, clock_job)] \<Longrightarrow>
     clock_entries (schedule N adds ag) = [(N + k, clock_job)]"
proof (induction adds arbitrary: ag)
  case (Cons a adds)
  {
    case 1
    with Cons.IH(1) show ?case
      by (cases a) (auto simp: clock_entries_insort split: if_splits)
  next
    case 2
    obtain n j where a: "a = (n, j)"
      by fastforce
    show ?case
    proof (cases "j = clock_job")
      case True
      with 2 a have "clock_entries adds = []" "n = k"
        by auto
      with Cons.IH(1) [of "insort_due (N + n, j) ag"] True a 2(1) show ?thesis
        by (simp add: clock_entries_insort)
    next
      case False
      with Cons.IH(2) [of "insort_due (N + n, j) ag"] a 2 show ?thesis
        by (simp add: clock_entries_insort)
    qed
  }
qed simp_all

lemma board_exec_clock:
  assumes "board_exec h j tm b = Some (b', adds)"
  shows "if j = clock_job then bd_clock b' = fst (ready_clock (bd_clock b)) \<and>
      clock_entries adds = [(frequency_ns (bd_clock b), clock_job)]
    else bd_clock b' = bd_clock b \<and> clock_entries adds = []"
proof (cases j)
  case (Job_Clock k)
  have "snd (ready_clock (bd_clock b)) = [(frequency_ns (bd_clock b), Clock_Trigger)]"
    by (simp add: ready_clock_def cd_drive_def Let_def)
  then show ?thesis
    using assms Job_Clock by (cases k) (auto simp: split_beta)
next
  case (Job_RTC k)
  with assms show ?thesis
    by (cases k) (auto simp: split_beta)
next
  case (Job_Serial tk)
  with assms show ?thesis
    by auto
qed

lemma perform_clock:
  "perform (board_exec h) tm ts b = Some (b', adds) \<Longrightarrow> clock_jobs ts = [] \<Longrightarrow>
     bd_clock b' = bd_clock b \<and> clock_entries adds = []"
  "perform (board_exec h) tm ts b = Some (b', adds) \<Longrightarrow> clock_jobs ts = [clock_job] \<Longrightarrow>
     bd_clock b' = fst (ready_clock (bd_clock b)) \<and> clock_entries adds = [(frequency_ns (bd_clock b), clock_job)]"
proof (induction ts arbitrary: b adds)
  case (Cons t ts)
  {
    case 1
    then obtain b1 a c where 2: "board_exec h t tm b = Some (b1, a)" "perform (board_exec h) tm ts b1 = Some (b', c)"
        "adds = a @ c"
      by auto
    have "t \<noteq> clock_job" "clock_jobs ts = []"
      using 1(2) by (auto simp: clock_jobs_def split: if_splits)
    with board_exec_clock [OF 2(1)] Cons.IH(1) [OF 2(2)] 2(3) show ?case
      by auto
  next
    case 2
    then obtain b1 a c where 3: "board_exec h t tm b = Some (b1, a)" "perform (board_exec h) tm ts b1 = Some (b', c)"
        "adds = a @ c"
      by auto
    show ?case
    proof (cases "t = clock_job")
      case True
      then have "clock_jobs ts = []"
        using 2(2) by (simp add: clock_jobs_def)
      with board_exec_clock [OF 3(1)] Cons.IH(1) [OF 3(2)] 3(3) True show ?thesis
        by auto
    next
      case False
      then have "clock_jobs ts = [clock_job]"
        using 2(2) by (simp add: clock_jobs_def)
      with board_exec_clock [OF 3(1)] Cons.IH(2) [OF 3(2)] 3(3) False show ?thesis
        by auto
    qed
  }
qed (simp_all add: clock_jobs_def)

lemma clock_trigger_once:
  assumes "board_inv (b, c)"
  shows "clock_entries (agenda T (deferred c)) = [(clock_due T (deferred c), clock_job)]" "T < clock_due T (deferred c)"
proof -
  have "length (map snd (clock_entries (agenda T (deferred c)))) = 1"
    unfolding clock_entries_map agenda_pending using assms by (simp add: board_inv_def board_good_def)
  then obtain x where x: "clock_entries (agenda T (deferred c)) = [x]"
    by (cases "clock_entries (agenda T (deferred c))") auto
  then have "x \<in> set (clock_entries (agenda T (deferred c)))"
    by simp
  then have "snd x = clock_job" "x \<in> set (agenda T (deferred c))"
    by (auto simp: clock_entries_def)
  moreover have "queue_wf (deferred c)"
    using assms by (simp add: board_inv_def clock_wf_def)
  ultimately show "clock_entries (agenda T (deferred c)) = [(clock_due T (deferred c), clock_job)]"
      "T < clock_due T (deferred c)"
    using x agenda_after [of "deferred c" x T] by (cases x; simp add: clock_due_def)+
qed

text \<open>One cycle of the machine: the trigger runs when its time has come, and is queued again.\<close>

lemma clock_cycle:
  assumes inv: "board_inv (b, c)" and ns: "0 < ns"
  shows "\<exists>b' c'. board_step m (Pass_Time h ns) (b, c) = Some (b', c') \<and> board_inv (b', c') \<and>
    (if clock_due T (deferred c) \<le> T + ns
     then bd_clock b' = fst (ready_clock (bd_clock b)) \<and>
       clock_due (T + ns) (deferred c') = T + ns + frequency_ns (bd_clock b)
     else bd_clock b' = bd_clock b \<and> clock_due (T + ns) (deferred c') = clock_due T (deferred c))"
proof -
  let ?N = "T + ns" and ?ag = "agenda T (deferred c)" and ?D = "clock_due T (deferred c)"
  have w: "queue_wf (deferred c)" "board_good b (map snd ?ag)"
    using inv by (auto simp: board_inv_def clock_wf_def agenda_pending)
  obtain b' adds c' where 1: "perform (board_exec h) (timespecadd (clk_time c) \<lparr>tv_sec = 0, tv_nsec = ns\<rparr>)
        (due_tasks ?N ?ag) b = Some (b', adds)" "increment_time (board_exec h) ns b c = Some (b', c')"
      "agenda ?N (deferred c') = schedule ?N adds (later_tasks ?N ?ag)"
    using board_tasks.increment_time_agenda [OF ns w, of h] by blast
  have inv': "board_inv (b', c')"
    using board_step_inv [OF inv, of "Pass_Time h ns" m] ns 1(2) by simp
  have e: "clock_entries ?ag = [(?D, clock_job)]"
    by (rule clock_trigger_once [OF inv])
  have due: "clock_jobs (due_tasks ?N ?ag) = map snd (filter (\<lambda>x. fst x \<le> ?N) (clock_entries ?ag))"
    unfolding due_tasks_def clock_entries_map [symmetric] clock_entries_def by (simp add: conj_commute)
  have later: "clock_entries (later_tasks ?N ?ag) = filter (\<lambda>x. ?N < fst x) (clock_entries ?ag)"
    by (simp add: later_tasks_def clock_entries_def conj_commute)
  show ?thesis
  proof (cases "?D \<le> ?N")
    case True
    have p: "bd_clock b' = fst (ready_clock (bd_clock b)) \<and> clock_entries adds = [(frequency_ns (bd_clock b), clock_job)]"
      by (rule perform_clock(2) [OF 1(1)]) (simp add: due e True)
    then have "clock_entries (agenda ?N (deferred c')) = [(?N + frequency_ns (bd_clock b), clock_job)]"
      unfolding 1(3) by (intro clock_entries_schedule(2)) (use True in \<open>simp_all add: later e not_less\<close>)
    with p True 1(2) inv' show ?thesis
      by (simp add: clock_due_def)
  next
    case False
    have p: "bd_clock b' = bd_clock b \<and> clock_entries adds = []"
      by (rule perform_clock(1) [OF 1(1)]) (simp add: due e False)
    then have "clock_entries (agenda ?N (deferred c')) = [(?D, clock_job)]"
      unfolding 1(3) using False by (subst clock_entries_schedule(1)) (simp_all add: later e)
    with p False 1(2) inv' show ?thesis
      by (simp add: clock_due_def)
  qed
qed

fun cycles :: "mapper \<Rightarrow> tty_host \<Rightarrow> int \<Rightarrow> nat \<Rightarrow> board_state \<Rightarrow> board_state option" where
  "cycles m h ns 0 s = Some s"
| "cycles m h ns (Suc k) s = do { s' \<leftarrow> cycles m h ns k s; board_step m (Pass_Time h ns) s' }"

lemma cycles_waiting:
  assumes "board_inv (b, c)" "0 < ns"
  shows "of_nat k * ns < clock_due T (deferred c) - T \<Longrightarrow>
    \<exists>b' c'. cycles m h ns k (b, c) = Some (b', c') \<and> board_inv (b', c') \<and> bd_clock b' = bd_clock b \<and>
      clock_due (T + of_nat k * ns) (deferred c') = clock_due T (deferred c)"
proof (induction k)
  case 0
  with assms show ?case
    by simp
next
  case (Suc k)
  have "of_nat k * ns < clock_due T (deferred c) - T" and lt: "T + of_nat k * ns + ns < clock_due T (deferred c)"
    using Suc.prems assms(2) by (auto simp: distrib_right)
  then obtain b1 c1 where 1: "cycles m h ns k (b, c) = Some (b1, c1)" "board_inv (b1, c1)" "bd_clock b1 = bd_clock b"
      "clock_due (T + of_nat k * ns) (deferred c1) = clock_due T (deferred c)"
    using Suc.IH by blast
  from clock_cycle [OF 1(2) assms(2), of m h "T + of_nat k * ns"] 1 lt show ?case
    by (auto simp: algebra_simps)
qed

section \<open>A machine to run\<close>

text \<open>A terminal on descriptor 0 whose keyboard has an \<open>a\<close> waiting, and a clock device every 50 ns.\<close>

definition ex_host :: tty_host where
  "ex_host = \<lparr>is_tty = (\<lambda>_. True), tcgetattr_ok = (\<lambda>_. True), tcsetattr_ok = (\<lambda>_. True),
     fd_readable = (\<lambda>_. True), fd_read = (\<lambda>_. Some 0x61), fd_write_ok = (\<lambda>_. True)\<rparr>"

definition ex_board :: "board_state option" where
  "ex_board = board_setup ex_host \<lparr>tvl_sec = 10, tvl_usec = 0\<rparr> 7 50 (Some 0) (setup_deccsr 0 0 0 0) 0 0 False False"

lemma ex_board_set_up: "\<exists>b c. ex_board = Some (b, c) \<and> clock_due 0 (deferred c) = 50"
  by (simp add: ex_board_def ex_host_def board_defs serial_defs terminal_defs device_defs clock_defs int_ctrl_defs
      Let_def clock_due_def terminal.extend_def serial.fields_def)

abbreviation (input) ex_map :: mapper where "ex_map \<equiv> Mapper_new False False 0"

lemma ex_reach: "\<exists>b c. ex_board = Some (b, c) \<and> board_reach ex_map (b, c) \<and> clock_due 0 (deferred c) = 50"
  using ex_board_set_up unfolding ex_board_def by (blast intro: reach_setup)

lemma ex_host_writes: "fd_write_ok ex_host fd"
  by (simp add: ex_host_def)

section \<open>The properties\<close>

text \<open>
  C18. Passing time is the agenda of the clock: in every state the board reaches, letting \<open>ns\<close> nanoseconds
  pass runs exactly the tasks that have come due, in the order of their times and, at equal times, in
  the order they were queued, all at the new time; the tasks they queue are measured from the new time
  and put behind those that come due no later, and every other task keeps its time.
\<close>
theorem time_runs_due_tasks:
  assumes "board_reach m (b, c)" "0 < ns"
  shows "\<exists>b' c' adds. board_step m (Pass_Time h ns) (b, c) = Some (b', c') \<and>
    perform (board_exec h) (timespecadd (clk_time c) \<lparr>tv_sec = 0, tv_nsec = ns\<rparr>)
      (due_tasks (T + ns) (agenda T (deferred c))) b = Some (b', adds) \<and>
    agenda (T + ns) (deferred c') = schedule (T + ns) adds (later_tasks (T + ns) (agenda T (deferred c)))"
proof -
  have "queue_wf (deferred c)" "board_good b (map snd (agenda T (deferred c)))"
    using board_reach_inv [OF assms(1)] by (auto simp: board_inv_def clock_wf_def agenda_pending)
  from board_tasks.increment_time_agenda [OF assms(2) this, of h] show ?thesis
    by auto
qed

theorem time_runs_due_tasks_witness:
  "\<exists>b c b' c' adds. ex_board = Some (b, c) \<and> board_step ex_map (Pass_Time ex_host 100) (b, c) = Some (b', c') \<and>
    agenda 100 (deferred c') = schedule 100 adds (later_tasks 100 (agenda 0 (deferred c)))"
proof -
  obtain b c where s: "ex_board = Some (b, c)" "board_reach ex_map (b, c)"
    using ex_reach by blast
  have "0 < (100 :: int)" "0 + 100 = (100 :: int)"
    by simp_all
  with time_runs_due_tasks [OF s(2), of 100 ex_host 0] s(1) show ?thesis
    by metis
qed

text \<open>
  C19. The board never aborts: in every state reached from a set-up by register accesses inside the
  devices' ranges and by passing simulated or real time, the next such step succeeds. No assertion of
  the clock, the terminal controller, the serial device or the clock device fails, whatever the
  order in which tasks are queued, run and cancelled, as long as the host accepts written characters.
\<close>
theorem board_never_aborts:
  assumes "board_reach m s" "op_ok op"
  shows "\<exists>s'. board_step m op s = Some s' \<and> board_reach m s'"
  using board_step_inv [OF board_reach_inv [OF assms(1)] assms(2), of m] reach_step [OF assms] by blast

theorem board_never_aborts_witness:
  "\<exists>s s1 s2. ex_board = Some s \<and> board_step ex_map (Pass_Time ex_host 250) s = Some s1 \<and>
    board_step ex_map (Serial_Fetch 8) s1 = Some s2"
proof -
  obtain s where s: "ex_board = Some s" "board_reach ex_map s"
    using ex_reach by blast
  obtain s1 where 1: "board_step ex_map (Pass_Time ex_host 250) s = Some s1" "board_reach ex_map s1"
    using board_never_aborts [OF s(2), of "Pass_Time ex_host 250"] by auto
  have "op_ok (Serial_Fetch 8)"
    by simp
  from board_never_aborts [OF 1(2) this] s(1) 1(1) show ?thesis
    by blast
qed

text \<open>
  C20. The clock device is periodic: with cycles of \<open>ns\<close> nanoseconds it stays as it is until the first
  cycle whose end reaches the time of its trigger, becomes ready in that cycle, and its next trigger is
  due one period after the end of that cycle, whatever the other devices have queued.
\<close>
theorem clock_device_period:
  assumes "board_reach m (b, c)" "0 < ns" and "of_nat k * ns < clock_due T (deferred c) - T"
    and "clock_due T (deferred c) - T \<le> of_nat (Suc k) * ns"
  shows "\<exists>b1 c1 b' c'. cycles m h ns k (b, c) = Some (b1, c1) \<and> bd_clock b1 = bd_clock b \<and>
    cycles m h ns (Suc k) (b, c) = Some (b', c') \<and> cd_ready (bd_clock b') \<and>
    clock_due (T + of_nat (Suc k) * ns) (deferred c') = T + of_nat (Suc k) * ns + frequency_ns (bd_clock b)"
proof -
  obtain b1 c1 where 1: "cycles m h ns k (b, c) = Some (b1, c1)" "board_inv (b1, c1)" "bd_clock b1 = bd_clock b"
      "clock_due (T + of_nat k * ns) (deferred c1) = clock_due T (deferred c)"
    using cycles_waiting [OF board_reach_inv [OF assms(1)] assms(2,3)] by blast
  have N: "T + of_nat (Suc k) * ns = T + of_nat k * ns + ns"
    by (simp add: distrib_right)
  have "cd_ready (fst (ready_clock (bd_clock b)))"
    by (simp add: ready_clock_def cd_drive_def Let_def)
  with clock_cycle [OF 1(2) assms(2), of m h "T + of_nat k * ns"] 1 assms(4) show ?thesis
    unfolding N by (auto simp: algebra_simps)
qed

theorem clock_device_period_witness:
  "\<exists>b c b' c'. ex_board = Some (b, c) \<and> cycles ex_map ex_host 20 3 (b, c) = Some (b', c') \<and> cd_ready (bd_clock b')"
proof -
  obtain b c where s: "ex_board = Some (b, c)" "board_reach ex_map (b, c)" "clock_due 0 (deferred c) = 50"
    using ex_reach by blast
  have "Suc 2 = 3" "0 < (20 :: int)" "of_nat 2 * 20 < clock_due 0 (deferred c) - 0"
      "clock_due 0 (deferred c) - 0 \<le> of_nat (Suc 2) * 20"
    using s(3) by simp_all
  with clock_device_period [OF s(2), of 20 2 0 ex_host] s(1) show ?thesis
    by metis
qed

end
