(* ===== verification/Device_Facts.thy ===== *)
theory Device_Facts
  imports Board Mapper_Facts
begin

unbundle bit_operations_syntax

text \<open>
  The registers of the devices: loads narrower than a word, the interrupt line of the control and
  status register, and where the devices do not do what their registers promise.
\<close>

section \<open>Bytes and halfwords of a device\<close>

lemma and3_cases: "(x :: u32) AND 3 = 0 \<or> x AND 3 = 1 \<or> x AND 3 = 2 \<or> x AND 3 = 3"
proof -
  have "x AND 3 = take_bit 2 x"
    by (simp add: bit_blast)
  moreover have "unat (take_bit 2 x :: u32) < 4"
    by (simp add: take_bit_eq_mod unat_mod)
  then have "unat (take_bit 2 x :: u32) = 0 \<or> unat (take_bit 2 x) = 1 \<or> unat (take_bit 2 x) = 2 \<or> unat (take_bit 2 x) = 3"
    by linarith
  ultimately show ?thesis
    by (elim disjE) (simp_all only: word_unat_eq_iff, simp_all)
qed

lemma and2_cases: "(x :: u32) AND 2 = 0 \<or> x AND 2 = 2"
  by (cases "bit x 1") (auto simp: bit_blast)

lemma device_byte:
  assumes "fetch (off AND NOT 3) d = Some (w, d')"
  shows "DeviceMap_fetch_byte m fetch off d =
    Some (word_byte (opt_bigendian m) (host_to_mips_word m w) (unat (off AND 3)), d')"
  using and3_cases [of off] assms
  by (elim disjE; cases "opt_bigendian m"; simp add: DeviceMap_fetch_byte_def word_byte_def Let_def)
    (simp_all add: bit_blast)

lemma device_halfword:
  assumes "fetch (off AND NOT 3) d = Some (w, d')"
  shows "\<exists>h. DeviceMap_fetch_halfword m fetch off d = Some (h, d') \<and> host_to_mips_halfword m h =
    half_of_bytes (opt_bigendian m) (word_byte (opt_bigendian m) (host_to_mips_word m w) (unat (off AND 2)))
      (word_byte (opt_bigendian m) (host_to_mips_word m w) (unat (off AND 2) + 1))"
proof -
  have inv: "host_to_mips_halfword m (mips_to_host_halfword m h) = h" for h
    by (simp add: host_to_mips_halfword_def mips_to_host_halfword_def swap_halfword_invol)
  show ?thesis
    using and2_cases [of off] assms
    by (elim disjE; cases "opt_bigendian m"; simp add: DeviceMap_fetch_halfword_def Let_def inv)
      (simp_all add: half_of_bytes_def word_byte_def bit_blast)
qed

section \<open>The control and status register\<close>

text \<open>
  After every access and every change of a source, the line of the register is asserted exactly when
  an enabled source is pending, if it is connected.
\<close>

lemma csr_line_tracks_sources:
  assumes "csr_irq d = 2 ^ k" "bit (lines_connected (csr_int d)) k"
  shows "bit (lines_asserted (csr_int (CSR_INTERRUPT_CHECK d))) k = CSR_INTERRUPT_PENDING d"
proof -
  have "(2 ^ k :: u32) AND lines_connected (csr_int d) \<noteq> 0"
    using assms(2) by (simp add: single_bit_and)
  moreover have "k < 32"
    using bit_imp_le_length [OF assms(2)] by simp
  ultimately show ?thesis
    using assms by (simp add: CSR_INTERRUPT_CHECK_def assertInt_def deassertInt_def bit_simps)
qed

lemma csr_operations_check:
  "\<exists>d'. update_control_reg data d = CSR_INTERRUPT_CHECK d' \<and> csr_irq d' = csr_irq d \<and> csr_int d' = csr_int d"
  "\<exists>d'. DECCSRDevice_assertInt line d = CSR_INTERRUPT_CHECK d' \<and> csr_irq d' = csr_irq d \<and> csr_int d' = csr_int d"
  "\<exists>d'. DECCSRDevice_deassertInt line d = CSR_INTERRUPT_CHECK d' \<and> csr_irq d' = csr_irq d \<and> csr_int d' = csr_int d"
  by (auto simp: update_control_reg_def DECCSRDevice_assertInt_def DECCSRDevice_deassertInt_def)

section \<open>What the registers do not promise\<close>

text \<open>The control word of the clock device reports an enabled interrupt as a ready clock.\<close>

lemma clock_control_misreports:
  assumes "cd_interrupt_enabled d" "\<not> cd_ready d"
  shows "ClockDevice_fetch_word real c 16 d = Some (CTL_RDY, unready_clock d)"
  using assms by (simp add: ClockDevice_fetch_word_def)

text \<open>The microseconds stored into the clock device are taken as nanoseconds, but read as microseconds.\<close>

lemma clock_microseconds_stored_as_nanoseconds:
  assumes "0 \<le> tv_sec (clk_time c)"
  shows "\<exists>c'. ClockDevice_store_word 12 5000 (d, c) = Some (d, c') \<and>
    ClockDevice_fetch_word real c' 12 d = Some (5, d)"
  using assms by (simp add: ClockDevice_store_word_def ClockDevice_fetch_word_def set_time_def get_time_def neg32_def)

text \<open>
  Turning the periodic interrupt of the real-time clock off and on again queues a second trigger,
  while the first is still in the queue: from then on the clock interrupts twice per period.
\<close>

lemma rtc_second_trigger:
  "\<exists>d1 d2 d3 d4 a. DECRTCDevice_store_word m 40 (mips_to_host_word m 0x2f) (DECRTCDevice_new 0x800) = Some (d1, []) \<and>
    DECRTCDevice_store_word m 44 (mips_to_host_word m 0x40) d1 = Some (d2, [a]) \<and>
    DECRTCDevice_store_word m 44 (mips_to_host_word m 0) d2 = Some (d3, []) \<and>
    DECRTCDevice_store_word m 44 (mips_to_host_word m 0x40) d3 = Some (d4, [a])"
proof -
  have "host_to_mips_word m (mips_to_host_word m w) = w" for w
    by (simp add: host_to_mips_word_def mips_to_host_word_def swap_word_invol)
  then show ?thesis
    by (simp add: DECRTCDevice_store_word_def DECRTCDevice_new_def rtc_ready_clock_def rtc_unready_clock_def
        int_freqs_def Let_def)
qed

end
