(* ===== verification/Machine.thy ===== *)
theory Machine
  imports CPU Dmac Router_Net Router_Interface CMA SNACC Board
begin

unbundle bit_operations_syntax

text \<open>
  The machine of \<open>vmips.cc\<close>: the parts it has built and the loop of \<open>run\<close> that steps them. One cycle
  steps the processor, the DMA controller and, by the mode of the system, the router interface and the
  accelerators of the stack, or all masters of the bus in turn; then time passes on the clock.

  The address space is that of the processor's mapper, with memory and the DMA registers; the
  registers of the other devices are reached by their own operations. A flit that a chip sends up
  or down enters the port of its neighbour, as the constructors of the accelerators connect them. Pointers
  to parts that were not built are null. The value of an uninitialised variable of the processor
  (\<open>junk\<close>), the terminals and the time of the host are arguments of a cycle.
\<close>

datatype system_mode = Mode_Cube | Mode_CPU_Only | Mode_Bus_Conn

datatype run_state = VM_HALT | VM_RUN | VM_DEBUG | VM_INTERACT

datatype bus_master = Master_CPU | Master_DMAC | Master_Acc nat

datatype chip =
  Chip_CMA "(cma_part, cma) accel"
| Chip_SNACC "(snacc_part, snacc) accel"
| Chip_RAM "(rram_obj, range_t) accel"

record machine =
  vm_cpu :: cpu
  vm_dmac :: "dmac option"
  vm_intc :: int_ctrl
  vm_rtif :: "router_if option"
  vm_chips :: "chip list"
  vm_board :: board_state
  vm_state :: run_state
  vm_mode :: system_mode
  vm_realtime :: bool
  vm_nanos :: u32
  vm_timeratio :: u32
  num_cycles :: u32
  bus_masters :: "bus_master list"
  master_start :: nat

definition check_mode :: "string \<Rightarrow> system_mode option" where
  "check_mode s =
     (if s = ''cube'' then Some Mode_Cube
      else if s = ''cpu_only'' then Some Mode_CPU_Only
      else if s = ''bus_conn'' then Some Mode_Bus_Conn
      else None)"

text \<open>\<open>clock_nanos\<close>, whose division traps on a speed of 0.\<close>

definition clock_nanos :: "u32 \<Rightarrow> u32 option" where
  "clock_nanos opt_clockspeed = (if opt_clockspeed = 0 then None else Some (1000000000 div opt_clockspeed))"

text \<open>\<open>setup_dmac\<close>: the controller is built on the mapper and its line connected.\<close>

definition setup_dmac :: "bool \<Rightarrow> client \<Rightarrow> nat \<Rightarrow> nat \<Rightarrow> nat \<Rightarrow> dmac \<Rightarrow> machine \<Rightarrow> machine" where
  "setup_dmac opt_dmac cl dev dcachebsize bandwidth d0 vm =
     (if opt_dmac then
        let (d, m) = DMAC_new cl dev dcachebsize bandwidth (memsys (vm_cpu vm)) d0
        in vm\<lparr>vm_dmac := Some d, vm_cpu := (vm_cpu vm)\<lparr>memsys := m\<rparr>, vm_intc := connectLine IRQ5 dev (vm_intc vm)\<rparr>
      else vm)"

text \<open>\<open>setup_bus_master\<close>: the processor, the controller if there is one, and the accelerators.\<close>

definition setup_bus_master :: "machine \<Rightarrow> machine" where
  "setup_bus_master vm =
     vm\<lparr>bus_masters := bus_masters vm @ Master_CPU # (if vm_dmac vm = None then [] else [Master_DMAC]) @
          map Master_Acc [0..<length (vm_chips vm)], master_start := 0\<rparr>"

definition halt :: "machine \<Rightarrow> machine" where
  "halt vm = vm\<lparr>vm_state := VM_HALT\<rparr>"

definition attn_key :: "machine \<Rightarrow> machine" where
  "attn_key vm = vm\<lparr>vm_state := VM_INTERACT\<rparr>"

section \<open>The parts in a cycle\<close>

text \<open>The lines that the interrupt controller reports: those of the timed devices and of the others.\<close>

definition machine_ip :: "machine \<Rightarrow> u32" where
  "machine_ip vm = calculateIP (vm_intc vm) OR calculateIP (board_ic (fst (vm_board vm)))"

definition cpu_cycle :: "bool \<Rightarrow> machine \<Rightarrow> machine option" where
  "cpu_cycle junk vm = do {
     c \<leftarrow> step junk (num_cycles vm) (machine_ip vm) (vm_cpu vm);
     let vm1 = vm\<lparr>vm_cpu := c\<rparr>;
     Some (if halted c then halt vm1 else vm1) }"

definition dmac_cycle :: "machine \<Rightarrow> machine option" where
  "dmac_cycle vm =
     (case vm_dmac vm of
        None \<Rightarrow> Some vm
      | Some d \<Rightarrow> do {
          (d', m, ic) \<leftarrow> DMAC_step (num_cycles vm) (memsys (vm_cpu vm)) (vm_intc vm) d;
          Some (vm\<lparr>vm_dmac := Some d', vm_cpu := (vm_cpu vm)\<lparr>memsys := m\<rparr>, vm_intc := ic\<rparr>) })"

fun chip_receive :: "dir \<Rightarrow> flit_entry list \<Rightarrow> chip \<Rightarrow> chip" where
  "chip_receive d es (Chip_CMA a) = Chip_CMA (a\<lparr>ac_router := slave_receive d es (ac_router a)\<rparr>)"
| "chip_receive d es (Chip_SNACC a) = Chip_SNACC (a\<lparr>ac_router := slave_receive d es (ac_router a)\<rparr>)"
| "chip_receive d es (Chip_RAM a) = Chip_RAM (a\<lparr>ac_router := slave_receive d es (ac_router a)\<rparr>)"

fun chip_step :: "bool \<Rightarrow> u32 \<Rightarrow> chip \<Rightarrow> (flit_entry list \<times> flit_entry list \<times> chip) option" where
  "chip_step hb now (Chip_CMA a) =
     map_option (\<lambda>(up, down, a'). (up, down, Chip_CMA a')) (CubeAccelerator_step (CMA_core hb) now a)"
| "chip_step hb now (Chip_SNACC a) =
     map_option (\<lambda>(up, down, a'). (up, down, Chip_SNACC a')) (CubeAccelerator_step (SNACC_core hb) now a)"
| "chip_step hb now (Chip_RAM a) =
     map_option (\<lambda>(up, down, a'). (up, down, Chip_RAM a')) (CubeAccelerator_step (RemoteRam_core hb) now a)"

text \<open>In bus mode an accelerator has no network; a chip of memory is refused there.\<close>

fun bus_acc_step :: "bool \<Rightarrow> chip \<Rightarrow> chip option" where
  "bus_acc_step hb (Chip_CMA a) = map_option Chip_CMA (BusConAccelerator_step (CMA_core hb) a)"
| "bus_acc_step hb (Chip_SNACC a) = map_option Chip_SNACC (BusConAccelerator_step (SNACC_core hb) a)"
| "bus_acc_step hb (Chip_RAM a) = None"

definition rtif_cycle :: "machine \<Rightarrow> machine option" where
  "rtif_cycle vm = do {
     r \<leftarrow> vm_rtif vm;
     (down, r', ic) \<leftarrow> RouterInterface_step (num_cycles vm) r (vm_intc vm);
     let chips = (case vm_chips vm of [] \<Rightarrow> [] | c # cs \<Rightarrow> chip_receive Upper down c # cs);
     Some (vm\<lparr>vm_rtif := Some r', vm_intc := ic, vm_chips := chips\<rparr>) }"

text \<open>What chip \<open>i\<close> sends up goes to the chip before it, for the first chip to the processor's.\<close>

definition send_up :: "nat \<Rightarrow> flit_entry list \<Rightarrow> machine \<Rightarrow> machine" where
  "send_up i es vm =
     (if i = 0 then vm\<lparr>vm_rtif := map_option (\<lambda>r. r\<lparr>ri_router := slave_receive Lower es (ri_router r)\<rparr>) (vm_rtif vm)\<rparr>
      else vm\<lparr>vm_chips := (vm_chips vm)[i - 1 := chip_receive Lower es (vm_chips vm ! (i - 1))]\<rparr>)"

definition send_down :: "nat \<Rightarrow> flit_entry list \<Rightarrow> machine \<Rightarrow> machine" where
  "send_down i es vm =
     (if i + 1 < length (vm_chips vm)
      then vm\<lparr>vm_chips := (vm_chips vm)[i + 1 := chip_receive Upper es (vm_chips vm ! (i + 1))]\<rparr> else vm)"

definition chip_cycle :: "bool \<Rightarrow> nat \<Rightarrow> machine \<Rightarrow> machine option" where
  "chip_cycle hb i vm = do {
     (up, down, c) \<leftarrow> chip_step hb (num_cycles vm) (vm_chips vm ! i);
     Some (send_down i down (send_up i up (vm\<lparr>vm_chips := (vm_chips vm)[i := c]\<rparr>))) }"

fun in_turn :: "('a \<Rightarrow> 's \<Rightarrow> 's option) \<Rightarrow> 'a list \<Rightarrow> 's \<Rightarrow> 's option" where
  "in_turn f [] s = Some s"
| "in_turn f (x # xs) s = Option.bind (f x s) (in_turn f xs)"

section \<open>A cycle\<close>

text \<open>What the host gives a cycle: its terminals and the two readings of its time.\<close>

record cycle_host =
  cy_junk :: bool
  cy_tty :: tty_host
  cy_first :: timeval
  cy_current :: timeval

definition pass_time_on :: "cycle_host \<Rightarrow> machine \<Rightarrow> machine option" where
  "pass_time_on h vm = (case vm_board vm of (b, c) \<Rightarrow> do {
     b' \<leftarrow> (if \<not> vm_realtime vm then increment_time (board_exec (cy_tty h)) (uint (vm_nanos vm)) b c
           else pass_realtime (board_exec (cy_tty h)) (vm_timeratio vm) (cy_first h) (cy_current h) b c);
     Some (vm\<lparr>vm_board := b', num_cycles := num_cycles vm + 1\<rparr>) })"

definition step_cpu_only :: "cycle_host \<Rightarrow> machine \<Rightarrow> machine option" where
  "step_cpu_only h vm = do {
     vm1 \<leftarrow> cpu_cycle (cy_junk h) vm;
     vm2 \<leftarrow> dmac_cycle vm1;
     pass_time_on h vm2 }"

definition step_cube :: "bool \<Rightarrow> cycle_host \<Rightarrow> machine \<Rightarrow> machine option" where
  "step_cube hb h vm = do {
     vm1 \<leftarrow> cpu_cycle (cy_junk h) vm;
     vm2 \<leftarrow> dmac_cycle vm1;
     vm3 \<leftarrow> rtif_cycle vm2;
     vm4 \<leftarrow> in_turn (chip_cycle hb) [0..<length (vm_chips vm3)] vm3;
     pass_time_on h vm4 }"

definition bus_acc_cycle :: "bool \<Rightarrow> nat \<Rightarrow> machine \<Rightarrow> machine option" where
  "bus_acc_cycle hb i vm =
     map_option (\<lambda>c. vm\<lparr>vm_chips := (vm_chips vm)[i := c]\<rparr>) (bus_acc_step hb (vm_chips vm ! i))"

fun master_step :: "bool \<Rightarrow> cycle_host \<Rightarrow> bus_master \<Rightarrow> machine \<Rightarrow> machine option" where
  "master_step hb h Master_CPU vm = cpu_cycle (cy_junk h) vm"
| "master_step hb h Master_DMAC vm = dmac_cycle vm"
| "master_step hb h (Master_Acc i) vm = bus_acc_cycle hb i vm"

text \<open>The masters from \<open>master_start\<close> on, around the list.\<close>

definition master_order :: "nat \<Rightarrow> 'a list \<Rightarrow> 'a list" where
  "master_order start ms = map (\<lambda>i. ms ! ((start + i) mod length ms)) [0..<length ms]"

definition step_bus_conn :: "bool \<Rightarrow> cycle_host \<Rightarrow> machine \<Rightarrow> machine option" where
  "step_bus_conn hb h vm = do {
     check (bus_masters vm \<noteq> []);
     vm1 \<leftarrow> in_turn (master_step hb h) (master_order (master_start vm) (bus_masters vm)) vm;
     pass_time_on h (vm1\<lparr>master_start := Suc (master_start vm1) mod length (bus_masters vm1)\<rparr>) }"

definition vm_step :: "bool \<Rightarrow> cycle_host \<Rightarrow> machine \<Rightarrow> machine option" where
  "vm_step hb h vm =
     (case vm_mode vm of
        Mode_Cube \<Rightarrow> step_cube hb h vm
      | Mode_CPU_Only \<Rightarrow> step_cpu_only h vm
      | Mode_Bus_Conn \<Rightarrow> step_bus_conn hb h vm)"

text \<open>The inner loop of \<open>run\<close>, for the cycles the host gives.\<close>

fun run_cycles :: "bool \<Rightarrow> cycle_host list \<Rightarrow> machine \<Rightarrow> machine option" where
  "run_cycles hb [] vm = Some vm"
| "run_cycles hb (h # hs) vm =
     (if vm_state vm = VM_RUN then Option.bind (vm_step hb h vm) (run_cycles hb hs) else Some vm)"

lemmas machine_defs [cube_defs] =
  check_mode_def clock_nanos_def setup_dmac_def setup_bus_master_def halt_def attn_key_def machine_ip_def
  cpu_cycle_def dmac_cycle_def rtif_cycle_def send_up_def send_down_def chip_cycle_def
  pass_time_on_def step_cpu_only_def step_cube_def bus_acc_cycle_def master_order_def step_bus_conn_def
  vm_step_def

end
