(* ===== verification/Machine_Facts.thy ===== *)
theory Machine_Facts
  imports Machine CPU_Step Board_Facts
begin

unbundle bit_operations_syntax

text \<open>
  The machine as a whole. The masters of the bus take turns: the order of a cycle is the list of the
  masters rotated by \<open>master_start\<close>, so in as many cycles as there are masters each of them is the
  first exactly once. In every mode a cycle keeps the invariants of the pipeline and of the timed devices, whatever
  the DMA controller, the router interface and the accelerators do in it, and simulated time is the number
  of cycles times the length of one.
\<close>

section \<open>Taking turns\<close>

lemma master_order_rotate: "master_order start ms = rotate start ms"
  by (rule nth_equalityI) (simp_all add: master_order_def nth_rotate)

lemma master_order_all: "mset (master_order start ms) = mset ms"
proof -
  have "mset (rotate1 xs) = mset xs" for xs :: "'a list" by (cases xs) simp_all
  then have "mset (rotate n ms) = mset ms" for n by (induction n) simp_all
  then show ?thesis by (simp add: master_order_rotate)
qed

lemma master_first: "ms \<noteq> [] \<Longrightarrow> hd (master_order start ms) = ms ! (start mod length ms)"
  unfolding master_order_rotate by (rule hd_rotate_conv_nth)

lemma round_robin: "ms \<noteq> [] \<Longrightarrow> map (\<lambda>k. hd (master_order (start + k) ms)) [0..<length ms] = master_order start ms"
proof (rule nth_equalityI)
  fix i assume "ms \<noteq> []" "i < length (map (\<lambda>k. hd (master_order (start + k) ms)) [0..<length ms])"
  then show "map (\<lambda>k. hd (master_order (start + k) ms)) [0..<length ms] ! i = master_order start ms ! i"
    by (simp add: master_first) (simp add: master_order_def)
qed (simp add: master_order_def)

lemma round_robin_position:
  assumes "j < length ms"
  shows "mset (map (\<lambda>k. master_order (start + k) ms ! j) [0..<length ms]) = mset ms"
proof -
  have "map (\<lambda>k. master_order (start + k) ms ! j) [0..<length ms] = master_order (start + j) ms"
    using assms by (intro nth_equalityI) (simp_all add: master_order_def ac_simps)
  then show ?thesis by (simp add: master_order_all)
qed

section \<open>The invariants of the parts\<close>

definition machine_ok :: "machine \<Rightarrow> bool" where
  "machine_ok vm \<longleftrightarrow> safe_state (vm_cpu vm) \<and> board_inv (vm_board vm)"

text \<open>What a part that is not the clock leaves alone.\<close>

definition same_setting :: "machine \<Rightarrow> machine \<Rightarrow> bool" where
  "same_setting vm' vm \<longleftrightarrow> vm_board vm' = vm_board vm \<and> num_cycles vm' = num_cycles vm \<and>
     vm_realtime vm' = vm_realtime vm \<and> vm_nanos vm' = vm_nanos vm \<and> vm_timeratio vm' = vm_timeratio vm \<and>
     vm_mode vm' = vm_mode vm \<and> bus_masters vm' = bus_masters vm \<and> master_start vm' = master_start vm"

definition keeps_parts :: "machine \<Rightarrow> machine \<Rightarrow> bool" where
  "keeps_parts vm' vm \<longleftrightarrow> same_setting vm' vm \<and> (safe_state (vm_cpu vm) \<longrightarrow> safe_state (vm_cpu vm'))"

lemma keeps_parts_refl: "keeps_parts vm vm"
  by (simp add: keeps_parts_def same_setting_def)

lemma keeps_parts_trans: "keeps_parts vm1 vm \<Longrightarrow> keeps_parts vm2 vm1 \<Longrightarrow> keeps_parts vm2 vm"
  by (simp add: keeps_parts_def same_setting_def)

lemma safe_state_memsys: "safe_state (c\<lparr>memsys := m\<rparr>) = safe_state c"
proof -
  have k: "same_skel (c\<lparr>memsys := m\<rparr>) c" by (rule same_skelI) simp_all
  show ?thesis unfolding safe_state_def pipe_wf_skel(1) [OF k] by simp
qed

lemma cpu_cycle_keeps: "cpu_cycle junk vm = Some vm' \<Longrightarrow> keeps_parts vm' vm"
  by (cases "step junk (num_cycles vm) (machine_ip vm) (vm_cpu vm)")
    (simp_all add: cpu_cycle_def halt_def keeps_parts_def same_setting_def Let_def split: if_splits,
      use safe_state_step in \<open>auto split: if_splits\<close>)

lemma dmac_cycle_keeps: "dmac_cycle vm = Some vm' \<Longrightarrow> keeps_parts vm' vm"
  by (auto simp: dmac_cycle_def keeps_parts_def same_setting_def bind_eq_Some_conv safe_state_memsys
      split: option.splits prod.splits)

lemma rtif_cycle_keeps: "rtif_cycle vm = Some vm' \<Longrightarrow> keeps_parts vm' vm"
  by (auto simp: rtif_cycle_def keeps_parts_def same_setting_def bind_eq_Some_conv Let_def split: prod.splits)

lemma send_keeps: "keeps_parts (send_up i es vm) vm" "keeps_parts (send_down i es vm) vm"
  by (simp_all add: send_up_def send_down_def keeps_parts_def same_setting_def)

lemma chip_cycle_keeps: "chip_cycle hb i vm = Some vm' \<Longrightarrow> keeps_parts vm' vm"
proof -
  assume "chip_cycle hb i vm = Some vm'"
  then obtain up down c where "vm' = send_down i down (send_up i up (vm\<lparr>vm_chips := (vm_chips vm)[i := c]\<rparr>))"
    by (auto simp: chip_cycle_def bind_eq_Some_conv)
  moreover have "keeps_parts (vm\<lparr>vm_chips := (vm_chips vm)[i := c]\<rparr>) vm"
    by (simp add: keeps_parts_def same_setting_def)
  ultimately show ?thesis using send_keeps keeps_parts_trans by metis
qed

lemma master_step_keeps: "master_step hb h x vm = Some vm' \<Longrightarrow> keeps_parts vm' vm"
  by (cases x) (auto simp: bus_acc_cycle_def keeps_parts_def same_setting_def
      dest: cpu_cycle_keeps [unfolded keeps_parts_def same_setting_def] dmac_cycle_keeps [unfolded keeps_parts_def same_setting_def])

lemma in_turn_keeps:
  assumes "\<And>x s s'. f x s = Some s' \<Longrightarrow> keeps_parts s' s" "in_turn f xs s = Some s'"
  shows "keeps_parts s' s"
  using assms(2) by (induction xs arbitrary: s) (auto simp: bind_eq_Some_conv keeps_parts_refl intro: keeps_parts_trans dest!: assms(1))

lemma in_turn_chips: "in_turn (chip_cycle hb) xs vm = Some vm' \<Longrightarrow> keeps_parts vm' vm"
  by (rule in_turn_keeps [OF chip_cycle_keeps])

lemma in_turn_masters: "in_turn (master_step hb h) xs vm = Some vm' \<Longrightarrow> keeps_parts vm' vm"
  by (rule in_turn_keeps [OF master_step_keeps])

section \<open>A cycle of the machine\<close>

text \<open>The host's time of a cycle: the option \<open>timeratio\<close> and the readings are proper.\<close>

definition time_ok :: "machine \<Rightarrow> cycle_host \<Rightarrow> bool" where
  "time_ok vm h \<longleftrightarrow>
     (if vm_realtime vm then op_ok (Pass_Realtime (cy_tty h) (vm_timeratio vm) (cy_first h) (cy_current h))
      else 0 < vm_nanos vm)"

lemma time_ok_cong:
  "vm_realtime vm' = vm_realtime vm \<Longrightarrow> vm_nanos vm' = vm_nanos vm \<Longrightarrow> vm_timeratio vm' = vm_timeratio vm \<Longrightarrow>
    time_ok vm' h = time_ok vm h"
  by (simp add: time_ok_def)

lemma pass_time_keeps:
  assumes "machine_ok vm" "time_ok vm h"
  shows "\<exists>vm'. pass_time_on h vm = Some vm' \<and> machine_ok vm' \<and> num_cycles vm' = num_cycles vm + 1 \<and>
    vm_realtime vm' = vm_realtime vm \<and> vm_nanos vm' = vm_nanos vm \<and> vm_timeratio vm' = vm_timeratio vm"
proof -
  obtain b c where b: "vm_board vm = (b, c)" by fastforce
  let ?op = "if vm_realtime vm then Pass_Realtime (cy_tty h) (vm_timeratio vm) (cy_first h) (cy_current h)
    else Pass_Time (cy_tty h) (uint (vm_nanos vm))"
  have "op_ok ?op" using assms(2) by (auto simp: time_ok_def word_less_def)
  with board_step_inv [of "(b, c)" ?op] assms(1) b obtain s where
    s: "board_step (memsys (vm_cpu vm)) ?op (b, c) = Some s" "board_inv s"
    unfolding machine_ok_def by metis
  then have "pass_time_on h vm = Some (vm\<lparr>vm_board := s, num_cycles := num_cycles vm + 1\<rparr>)"
    by (cases "vm_realtime vm") (simp_all add: pass_time_on_def b)
  with s(2) assms(1) show ?thesis by (simp add: machine_ok_def)
qed

text \<open>
  The only way a cycle fails is that a part of it does: when the parts have made their steps, the rest of the cycle
  succeeds and the machine is in order again.
\<close>

lemma cycle_cases:
  assumes "vm_step hb h vm = Some vm'"
  obtains vm1 where "keeps_parts (vm1\<lparr>master_start := master_start vm\<rparr>) vm" "pass_time_on h vm1 = Some vm'"
proof (cases "vm_mode vm")
  case Mode_Cube
  then obtain vm1 vm2 vm3 vm4 where "cpu_cycle (cy_junk h) vm = Some vm1" "dmac_cycle vm1 = Some vm2"
    "rtif_cycle vm2 = Some vm3" "in_turn (chip_cycle hb) [0..<length (vm_chips vm3)] vm3 = Some vm4"
    and p: "pass_time_on h vm4 = Some vm'"
    using assms by (auto simp: vm_step_def step_cube_def bind_eq_Some_conv)
  then have "keeps_parts vm4 vm"
    by (meson cpu_cycle_keeps dmac_cycle_keeps rtif_cycle_keeps in_turn_chips keeps_parts_trans)
  then have "keeps_parts (vm4\<lparr>master_start := master_start vm\<rparr>) vm"
    by (simp add: keeps_parts_def same_setting_def)
  then show thesis using p by (rule that)
next
  case Mode_CPU_Only
  then obtain vm1 vm2 where "cpu_cycle (cy_junk h) vm = Some vm1" "dmac_cycle vm1 = Some vm2"
    and p: "pass_time_on h vm2 = Some vm'"
    using assms by (auto simp: vm_step_def step_cpu_only_def bind_eq_Some_conv)
  then have "keeps_parts vm2 vm"
    by (meson cpu_cycle_keeps dmac_cycle_keeps keeps_parts_trans)
  then have "keeps_parts (vm2\<lparr>master_start := master_start vm\<rparr>) vm"
    by (simp add: keeps_parts_def same_setting_def)
  then show thesis using p by (rule that)
next
  case Mode_Bus_Conn
  then obtain vm1 where t: "in_turn (master_step hb h) (master_order (master_start vm) (bus_masters vm)) vm = Some vm1"
    and p: "pass_time_on h (vm1\<lparr>master_start := Suc (master_start vm1) mod length (bus_masters vm1)\<rparr>) = Some vm'"
    using assms by (auto simp: vm_step_def step_bus_conn_def bind_eq_Some_conv)
  from in_turn_masters [OF t] have "keeps_parts (vm1\<lparr>master_start := Suc (master_start vm1) mod length (bus_masters vm1),
      master_start := master_start vm\<rparr>) vm"
    by (simp add: keeps_parts_def same_setting_def)
  then show thesis using p by (rule that)
qed

lemma vm_step_keeps:
  assumes "machine_ok vm" "time_ok vm h" "vm_step hb h vm = Some vm'"
  shows "machine_ok vm' \<and> num_cycles vm' = num_cycles vm + 1 \<and>
    vm_realtime vm' = vm_realtime vm \<and> vm_nanos vm' = vm_nanos vm \<and> vm_timeratio vm' = vm_timeratio vm"
proof -
  obtain vm1 where k: "keeps_parts (vm1\<lparr>master_start := master_start vm\<rparr>) vm" and p: "pass_time_on h vm1 = Some vm'"
    using assms(3) by (rule cycle_cases)
  have "machine_ok vm1" "time_ok vm1 h"
    using k assms(1,2) by (auto simp: keeps_parts_def same_setting_def machine_ok_def time_ok_def)
  from pass_time_keeps [OF this] p k show ?thesis
    by (auto simp: keeps_parts_def same_setting_def)
qed

text \<open>So every state that the loop of \<open>run\<close> reaches has live pointers and safe devices.\<close>

lemma run_cycles_ok:
  "machine_ok vm \<Longrightarrow> \<forall>h \<in> set hs. time_ok vm h \<Longrightarrow> run_cycles hb hs vm = Some vm' \<Longrightarrow> machine_ok vm'"
proof (induction hs arbitrary: vm)
  case (Cons h hs)
  show ?case
  proof (cases "vm_state vm = VM_RUN")
    case True
    with Cons.prems(3) obtain vm1 where 1: "vm_step hb h vm = Some vm1" "run_cycles hb hs vm1 = Some vm'"
      by (auto simp: bind_eq_Some_conv)
    note k = vm_step_keeps [OF Cons.prems(1) _ 1(1)]
    have t: "time_ok vm h" "\<forall>h' \<in> set hs. time_ok vm h'" using Cons.prems(2) by simp_all
    have "machine_ok vm1" "\<forall>h' \<in> set hs. time_ok vm1 h'"
      using k [OF t(1)] t(2) time_ok_cong [of vm1 vm] by simp_all
    with Cons.IH 1(2) show ?thesis by blast
  next
    case False
    with Cons.prems show ?thesis by simp
  qed
qed simp

section \<open>Simulated time\<close>

definition machine_time :: "machine \<Rightarrow> int" where
  "machine_time vm = nanos (clk_time (snd (vm_board vm)))"

lemma pass_time_exact:
  assumes "machine_ok vm" "\<not> vm_realtime vm" "0 < vm_nanos vm" "pass_time_on h vm = Some vm'"
  shows "machine_time vm' = machine_time vm + uint (vm_nanos vm)"
proof -
  obtain b c where b: "vm_board vm = (b, c)" by fastforce
  have ns: "0 < uint (vm_nanos vm)" using assms(3) by (simp add: word_less_def)
  have "queue_wf (deferred c)" "board_good b (map snd (agenda 0 (deferred c)))"
    using assms(1) b by (auto simp: machine_ok_def board_inv_def clock_wf_def agenda_pending)
  from board_tasks.increment_time_agenda [OF ns this, of "cy_tty h"] obtain b' c' where
    1: "increment_time (board_exec (cy_tty h)) (uint (vm_nanos vm)) b c = Some (b', c')"
      "clk_time c' = timespecadd (clk_time c) \<lparr>tv_sec = 0, tv_nsec = uint (vm_nanos vm)\<rparr>"
    by blast
  then have "vm' = vm\<lparr>vm_board := (b', c'), num_cycles := num_cycles vm + 1\<rparr>"
    using assms(2,4) by (simp add: pass_time_on_def b)
  with 1(2) b show ?thesis by (simp add: machine_time_def timespecadd_nanos) (simp add: nanos_def)
qed

lemma vm_step_time:
  assumes "machine_ok vm" "\<not> vm_realtime vm" "0 < vm_nanos vm" "vm_step hb h vm = Some vm'"
  shows "machine_time vm' = machine_time vm + uint (vm_nanos vm)"
proof -
  obtain vm1 where k: "keeps_parts (vm1\<lparr>master_start := master_start vm\<rparr>) vm" and p: "pass_time_on h vm1 = Some vm'"
    using assms(4) by (rule cycle_cases)
  have "machine_ok vm1" "\<not> vm_realtime vm1" "0 < vm_nanos vm1"
    using k assms(1-3) by (auto simp: keeps_parts_def same_setting_def machine_ok_def)
  from pass_time_exact [OF this p] k show ?thesis
    by (simp add: keeps_parts_def same_setting_def machine_time_def)
qed

text \<open>As long as the machine runs, every cycle of simulated time takes \<open>clock_nanos\<close> nanoseconds.\<close>

lemma run_cycles_time:
  "machine_ok vm \<Longrightarrow> \<not> vm_realtime vm \<Longrightarrow> 0 < vm_nanos vm \<Longrightarrow> run_cycles hb hs vm = Some vm' \<Longrightarrow>
    \<exists>n \<le> length hs. machine_time vm' = machine_time vm + int n * uint (vm_nanos vm) \<and>
      num_cycles vm' = num_cycles vm + of_nat n \<and> (vm_state vm' = VM_RUN \<longrightarrow> n = length hs)"
proof (induction hs arbitrary: vm)
  case (Cons h hs)
  show ?case
  proof (cases "vm_state vm = VM_RUN")
    case True
    with Cons.prems(4) obtain vm1 where 1: "vm_step hb h vm = Some vm1" "run_cycles hb hs vm1 = Some vm'"
      by (auto simp: bind_eq_Some_conv)
    have t: "time_ok vm h" using Cons.prems(2,3) by (simp add: time_ok_def)
    note k = vm_step_keeps [OF Cons.prems(1) t 1(1)] vm_step_time [OF Cons.prems(1-3) 1(1)]
    from Cons.IH [OF _ _ _ 1(2)] k Cons.prems(2,3) obtain n where
      "n \<le> length hs" "machine_time vm' = machine_time vm1 + int n * uint (vm_nanos vm)"
      "num_cycles vm' = num_cycles vm1 + of_nat n" "vm_state vm' = VM_RUN \<longrightarrow> n = length hs"
      by auto
    with k show ?thesis by (intro exI [of _ "Suc n"]) (simp add: algebra_simps)
  next
    case False
    with Cons.prems show ?thesis by (intro exI [of _ 0]) simp
  qed
qed simp

end
