(* ===== verification/C_Strings.thy ===== *)
theory C_Strings
  imports Prelude
begin

text \<open>
  The functions of the C library that the option processor calls: \<open>isspace\<close>, \<open>isdigit\<close>, \<open>strtoul\<close> and
  \<open>fgets\<close>, on the strings up to the terminating null character. The host has 64-bit \<open>long\<close>.
\<close>

definition isspace :: "char \<Rightarrow> bool" where
  "isspace c \<longleftrightarrow> c = CHR '' '' \<or> 9 \<le> (of_char c :: nat) \<and> (of_char c :: nat) \<le> 13"

definition isdigit :: "char \<Rightarrow> bool" where
  "isdigit c \<longleftrightarrow> 48 \<le> (of_char c :: nat) \<and> (of_char c :: nat) \<le> 57"

text \<open>The string that a buffer holds: the characters before the first null.\<close>

definition c_string :: "string \<Rightarrow> string" where
  "c_string s = takeWhile (\<lambda>c. c \<noteq> CHR 0x00) s"

definition digit_value :: "char \<Rightarrow> nat" where
  "digit_value c =
     (let n = of_char c :: nat
      in if 48 \<le> n \<and> n \<le> 57 then n - 48
         else if 97 \<le> n \<and> n \<le> 122 then n - 87
         else if 65 \<le> n \<and> n \<le> 90 then n - 55
         else 36)"

definition digits :: "nat \<Rightarrow> string \<Rightarrow> string" where
  "digits base s = takeWhile (\<lambda>c. digit_value c < base) s"

definition digits_value :: "nat \<Rightarrow> string \<Rightarrow> nat" where
  "digits_value base s = foldl (\<lambda>v c. v * base + digit_value c) 0 s"

text \<open>The sign and the prefix of a number: whether it is negative, its base and the digits.\<close>

definition number_sign :: "string \<Rightarrow> bool \<times> string" where
  "number_sign s =
     (case dropWhile isspace s of
        [] \<Rightarrow> (False, [])
      | c # t \<Rightarrow> if c = CHR ''-'' then (True, t) else if c = CHR ''+'' then (False, t) else (False, c # t))"

definition hex_prefix :: "string \<Rightarrow> bool" where
  "hex_prefix s \<longleftrightarrow>
     (case s of c # x # d # _ \<Rightarrow> c = CHR ''0'' \<and> (x = CHR ''x'' \<or> x = CHR ''X'') \<and> digit_value d < 16
      | _ \<Rightarrow> False)"

definition number_base :: "nat \<Rightarrow> string \<Rightarrow> nat \<times> string" where
  "number_base base s =
     (if (base = 0 \<or> base = 16) \<and> hex_prefix s then (16, drop 2 s)
      else if base = 0 then (if take 1 s = ''0'' then 8 else 10, s)
      else (base, s))"

text \<open>
  \<open>strtoul (s, &endptr, base)\<close>: the value, the rest of the string at \<open>endptr\<close>, and whether \<open>errno\<close>
  became \<open>ERANGE\<close>.
\<close>

definition ULONG_MAX :: nat where
  "ULONG_MAX = 2 ^ 64 - 1"

definition strtoul :: "nat \<Rightarrow> string \<Rightarrow> nat \<times> string \<times> bool" where
  "strtoul base s =
     (let (neg, s1) = number_sign s; (b, s2) = number_base base s1; ds = digits b s2; v = digits_value b ds
      in if ds = [] then (0, s, False)
         else if ULONG_MAX < v then (ULONG_MAX, drop (length ds) s2, True)
         else (if neg then (2 ^ 64 - v) mod 2 ^ 64 else v, drop (length ds) s2, False))"

text \<open>\<open>fgets\<close> with a buffer of \<open>Suc k\<close> characters: at most \<open>k\<close>, up to and with the newline.\<close>

fun fgets :: "nat \<Rightarrow> string \<Rightarrow> string \<times> string" where
  "fgets k [] = ([], [])"
| "fgets 0 s = ([], s)"
| "fgets (Suc k) (c # s) =
     (if c = CHR 0x0A then ([c], s) else let (a, b) = fgets k s in (c # a, b))"

lemma fgets_append: "fst (fgets k s) @ snd (fgets k s) = s"
  by (induction k s rule: fgets.induct) (auto simp: Let_def split: prod.splits)

lemma fgets_length: "length (fst (fgets k s)) \<le> k"
  by (induction k s rule: fgets.induct) (auto simp: Let_def split: prod.splits)

lemma fgets_progress: "s \<noteq> [] \<Longrightarrow> length (snd (fgets (Suc k) s)) < length s"
  using arg_cong [OF fgets_append [of "Suc k" s], of length]
  by (cases s) (auto simp: Let_def split: prod.splits if_splits)

text \<open>A line without newline inside is read whole when it fits.\<close>

lemma fgets_line:
  "CHR 0x0A \<notin> set l \<Longrightarrow> length l < k \<Longrightarrow> fgets k (l @ CHR 0x0A # s) = (l @ [CHR 0x0A], s)"
proof (induction l arbitrary: k)
  case Nil
  then show ?case by (cases k) simp_all
next
  case (Cons c l)
  then show ?case by (cases k) auto
qed

text \<open>Numbers without sign or prefix.\<close>

lemma digit_not_space: "digit_value c < 36 \<Longrightarrow> \<not> isspace c"
  by (auto simp: digit_value_def isspace_def Let_def split: if_splits)

lemma digit_not_sign: "digit_value c < 36 \<Longrightarrow> c \<noteq> CHR ''-'' \<and> c \<noteq> CHR ''+''"
  by (auto simp: digit_value_def Let_def)

lemma number_sign_digit: "s \<noteq> [] \<Longrightarrow> digit_value (hd s) < 36 \<Longrightarrow> number_sign s = (False, s)"
  by (cases s) (auto simp: number_sign_def digit_not_space dest: digit_not_sign)

end
