(* ===== verification/Options.thy ===== *)
theory Options
  imports C_Strings
begin

unbundle bit_operations_syntax

text \<open>
  \<open>options.cc\<close>, \<open>options.h\<close> and \<open>optiontbl.h\<close>: the options of the simulator, from the compiled-in
  defaults, the configuration files and the command line. \<open>opt_table\<close> is the map \<open>table\<close>; the
  messages of \<open>error\<close> and the warning of an unterminated quote are collected in \<open>opt_errors\<close>. The
  result \<^const>\<open>None\<close> is a failed assertion, \<open>fatal_error\<close>, or an access outside a buffer. The host
  (files, home directories, the terminal's name) is an argument.
\<close>

datatype opt_type = FLAG | NUM | STRING

datatype opt_value = Flag_Value bool | Num_Value u32 | Str_Value string

datatype opt_error =
  Unknown_Option string | Value_Missing string | Bogus_Suffix | Unterminated_Quote nat | Cannot_Open string

record option_rec =
  o_name :: string
  o_type :: opt_type
  o_value :: opt_value

record options =
  opt_table :: "string \<rightharpoonup> option_rec"
  opt_errors :: "opt_error list"

definition Options_new :: options where
  "Options_new = \<lparr>opt_table = (\<lambda>_. None), opt_errors = []\<rparr>"

section \<open>The tables\<close>

definition nametable :: "(string \<times> opt_type) list" where
  "nametable = [
    (''haltdumpcpu'', FLAG), (''haltdumpcp0'', FLAG), (''excpriomsg'', FLAG), (''excmsg'', FLAG),
    (''bootmsg'', FLAG), (''instdump'', FLAG), (''dumpcpu'', FLAG), (''dumpcp0'', FLAG),
    (''haltibe'', FLAG), (''haltbreak'', FLAG), (''haltdevice'', FLAG), (''instcounts'', FLAG),
    (''romfile'', STRING), (''bootfile'', STRING), (''bootaddr'', NUM), (''loadaddr'', NUM),
    (''memsize'', NUM), (''progmemsize'', NUM), (''memdump'', FLAG), (''memdumpfile'', STRING),
    (''reportirq'', FLAG), (''spimconsole'', FLAG), (''ttydev'', STRING), (''ttydev2'', STRING),
    (''debug'', FLAG), (''debugport'', NUM), (''debuggeraddr'', NUM), (''realtime'', FLAG),
    (''timeratio'', NUM), (''clockspeed'', NUM), (''clockintr'', NUM), (''clockdeviceirq'', NUM),
    (''clockdevice'', FLAG), (''dbemsg'', FLAG), (''decrtc'', FLAG), (''deccsr'', FLAG),
    (''decstat'', FLAG), (''decserial'', FLAG), (''tracing'', FLAG), (''tracesize'', NUM),
    (''bigendian'', FLAG), (''tracestartpc'', NUM), (''traceendpc'', NUM),
    (''execname'', STRING), (''fpu'', FLAG), (''testdev'', FLAG),
    (''system_mode'', STRING), (''dmac'', FLAG), (''cacheprof'', FLAG), (''routerprof'', FLAG),
    (''exmemprof'', FLAG), (''icacheway'', NUM), (''icachebsize'', NUM), (''icachebnum'', NUM),
    (''dcacheway'', NUM), (''dcachebsize'', NUM), (''dcachebnum'', NUM), (''mem_bandwidth'', NUM),
    (''bus_latency'', NUM), (''exmem_latency'', NUM), (''vcbufsize'', NUM), (''routermsg'', FLAG),
    (''accelerator0'', STRING), (''accelerator1'', STRING), (''accelerator2'', STRING),
    (''snacc_sram_latency'', NUM), (''snacc_inst_dump'', STRING), (''snacc_mad_debug'', STRING)]"

definition defaults_table :: "string list" where
  "defaults_table = [
    ''nohaltdumpcpu'', ''nohaltdumpcp0'', ''noexcpriomsg'', ''noexcmsg'', ''bootmsg'',
    ''noinstdump'', ''nodumpcpu'', ''nodumpcp0'', ''haltibe'', ''haltbreak'', ''haltdevice'',
    ''romfile=romfile.rom'', ''bootfile=boot.bin'', ''bootaddr=0xbfc00000'',
    ''loadaddr=0x81000000'', ''noinstcounts'', ''progmemsize=0x2000000'', ''memsize=0x100000'',
    ''nomemdump'', ''memdumpfile=memdump.bin'', ''noreportirq'', ''ttydev=/dev/tty'',
    ''ttydev2=off'', ''nodebug'', ''debugport=0'', ''debuggeraddr=0xBC000000'', ''norealtime'',
    ''timeratio=1'', ''clockspeed=250000'', ''clockintr=200000000'', ''clockdeviceirq=7'',
    ''clockdevice'', ''nodbemsg'', ''nodecrtc'', ''nodeccsr'', ''nodecstat'', ''nodecserial'',
    ''spimconsole'', ''notracing'', ''tracesize=100000'', ''nobigendian'', ''tracestartpc=0'',
    ''traceendpc=0'', ''execname=none'', ''nofpu'', ''notestdev'', ''nocacheprof'',
    ''norouterprof'', ''noexmemprof'', ''dmac'', ''icacheway=2'', ''dcacheway=2'',
    ''icachebsize=64'', ''dcachebsize=64'', ''icachebnum=64'', ''dcachebnum=64'',
    ''mem_bandwidth=1'', ''bus_latency=8'', ''exmem_latency=3'', ''vcbufsize=24'', ''noroutermsg'',
    ''accelerator0=none'', ''accelerator1=none'', ''accelerator2=none'', ''snacc_sram_latency=1'',
    ''snacc_inst_dump=disabled'', ''snacc_mad_debug=disabled'', ''system_mode=cube'']"

text \<open>\<open>find_option_type\<close>: \<^const>\<open>None\<close> is the 0 of a name that is not in the table.\<close>

definition find_option_type :: "string \<Rightarrow> opt_type option" where
  "find_option_type name = map_of nametable name"

section \<open>Setting and reading\<close>

definition report :: "opt_error \<Rightarrow> options \<Rightarrow> options" where
  "report e t = t\<lparr>opt_errors := opt_errors t @ [e]\<rparr>"

definition optstruct :: "string \<Rightarrow> options \<Rightarrow> option_rec option" where
  "optstruct name t = opt_table t name"

definition install :: "string \<Rightarrow> opt_type \<Rightarrow> opt_value \<Rightarrow> options \<Rightarrow> options" where
  "install key ty v t = t\<lparr>opt_table := (opt_table t)(key \<mapsto> \<lparr>o_name = key, o_type = ty, o_value = v\<rparr>)\<rparr>"

definition set_str_option :: "string \<Rightarrow> string \<Rightarrow> options \<Rightarrow> options option" where
  "set_str_option key v t =
     (if find_option_type key = Some STRING then Some (install key STRING (Str_Value v) t) else None)"

definition set_num_option :: "string \<Rightarrow> u32 \<Rightarrow> options \<Rightarrow> options option" where
  "set_num_option key v t =
     (if find_option_type key = Some NUM then Some (install key NUM (Num_Value v) t) else None)"

definition set_flag_option :: "string \<Rightarrow> bool \<Rightarrow> options \<Rightarrow> options option" where
  "set_flag_option key v t =
     (if find_option_type key = Some FLAG then Some (install key FLAG (Flag_Value v) t) else None)"

text \<open>\<open>option (name)\<close>, and the member of the union that the caller reads.\<close>

definition option_value :: "string \<Rightarrow> options \<Rightarrow> opt_value option" where
  "option_value name t = map_option o_value (optstruct name t)"

definition option_flag :: "string \<Rightarrow> options \<Rightarrow> bool option" where
  "option_flag name t = (case option_value name t of Some (Flag_Value b) \<Rightarrow> Some b | _ \<Rightarrow> None)"

definition option_num :: "string \<Rightarrow> options \<Rightarrow> u32 option" where
  "option_num name t = (case option_value name t of Some (Num_Value n) \<Rightarrow> Some n | _ \<Rightarrow> None)"

definition option_str :: "string \<Rightarrow> options \<Rightarrow> string option" where
  "option_str name t = (case option_value name t of Some (Str_Value s) \<Rightarrow> Some s | _ \<Rightarrow> None)"

section \<open>One option\<close>

text \<open>
  \<open>strprefix\<close>: the rest after the prefix, the null pointer (\<open>Some None\<close>) when it is not one. The loop
  compares before it looks for the end, so on two equal strings it runs past both terminators.
\<close>

fun strprefix :: "string \<Rightarrow> string \<Rightarrow> string option option" where
  "strprefix (a # s) (c # p) = (if a = c then strprefix s p else Some None)"
| "strprefix [] (c # p) = Some None"
| "strprefix (a # s) [] = Some (Some (a # s))"
| "strprefix [] [] = None"

definition suffix_factor :: "char \<Rightarrow> u32 option" where
  "suffix_factor c =
     (if c = CHR ''k'' \<or> c = CHR ''K'' then Some 1024
      else if c = CHR ''m'' \<or> c = CHR ''M'' then Some (1024 * 1024)
      else if c = CHR ''g'' \<or> c = CHR ''G'' then Some (1024 * 1024 * 1024)
      else None)"

definition number_option :: "string \<Rightarrow> u32 \<times> bool" where
  "number_option s =
     (let (v, rest, _) = strtoul 0 s; num = of_nat v
      in case rest of
           [] \<Rightarrow> (num, True)
         | c # _ \<Rightarrow> (case suffix_factor c of Some f \<Rightarrow> (num * f, True) | None \<Rightarrow> (num, False)))"

text \<open>An option without \<open>=\<close> is a flag, one with it sets a string or a number.\<close>

definition process_flag :: "string \<Rightarrow> options \<Rightarrow> options option" where
  "process_flag option t =
     (case strprefix option ''no'' of
        None \<Rightarrow> None
      | Some trailer \<Rightarrow>
          let (name, v) = (case trailer of None \<Rightarrow> (option, True) | Some r \<Rightarrow> (r, False))
          in if find_option_type name = Some FLAG then set_flag_option name v t
             else Some (report (Unknown_Option name) t))"

definition process_value :: "string \<Rightarrow> string \<Rightarrow> options \<Rightarrow> options option" where
  "process_value name equals t =
     (if equals = [] then Some (report (Value_Missing name) t)
      else if find_option_type name = Some STRING then set_str_option name equals t
      else if find_option_type name = Some NUM then
        let (num, ok) = number_option equals
        in set_num_option name num (if ok then t else report Bogus_Suffix t)
      else Some (report (Unknown_Option (name @ ''='' @ equals)) t))"

definition process_one_option :: "string \<Rightarrow> options \<Rightarrow> options option" where
  "process_one_option option t =
     (let name = takeWhile (\<lambda>c. c \<noteq> CHR ''='') option
      in if name = option then process_flag option t
         else process_value name (drop (Suc (length name)) option) t)"

section \<open>Configuration files\<close>

abbreviation (input) OPTBUFSIZ :: nat where "OPTBUFSIZ \<equiv> 1024"

text \<open>
  The loop of \<open>process_first_option\<close>: the characters copied to \<open>copybuf\<close>, the rest of the line,
  \<open>string_done\<close> and \<open>quoting\<close>.
\<close>

definition copy_char :: "char \<Rightarrow> string \<times> 'a \<Rightarrow> string \<times> 'a" where
  "copy_char c p = (case p of (a, r) \<Rightarrow> (c # a, r))"

fun first_option :: "bool \<Rightarrow> bool \<Rightarrow> string \<Rightarrow> string \<times> string \<times> bool \<times> bool" where
  "first_option quoting quotenext [] = ([], [], True, quoting)"
| "first_option quoting quotenext (c # out) =
     (if quoting then
        if c = CHR 0x27 then first_option False quotenext out
        else copy_char c (first_option True quotenext out)
      else if quotenext then copy_char c (first_option False False out)
      else if c = CHR 0x27 then first_option True False out
      else if c = CHR 0x5C then first_option False True out
      else if c = CHR ''#'' then ([], out, True, False)
      else if \<not> isspace c then copy_char c (first_option False False out)
      else ([], out, out = [], False))"

definition process_first_option :: "nat \<Rightarrow> string \<Rightarrow> options \<Rightarrow> (bool \<times> string \<times> options) option" where
  "process_first_option lineno line t =
     (let (copybuf, out, string_done, quoting) = first_option False False (dropWhile isspace line);
          t1 = (if quoting then report (Unterminated_Quote lineno) t else t)
      in if OPTBUFSIZ \<le> length copybuf then None
         else do {
           t2 \<leftarrow> if c_string copybuf = [] then Some t1 else process_one_option (c_string copybuf) t1;
           Some (\<not> string_done, out, t2) })"

lemma first_option_rest:
  "first_option q n s = (a, r, d, q') \<Longrightarrow>
   length a + length r \<le> length s \<and> (\<not> d \<longrightarrow> length a + length r < length s)"
proof (induction s arbitrary: q n a r d q')
  case (Cons c s)
  show ?case
    using Cons.prems by (fastforce simp: copy_char_def split: if_splits prod.splits dest: Cons.IH)
qed simp

lemma process_first_option_rest:
  assumes "process_first_option lineno line t = Some (True, r, t')" shows "length r < length line"
proof -
  obtain a r' d q where o: "first_option False False (dropWhile isspace line) = (a, r', d, q)"
    by (metis prod_cases4)
  have "r' = r" "\<not> d"
    using assms by (auto simp: process_first_option_def o Let_def bind_eq_Some_conv split: if_splits)
  moreover have "length (dropWhile isspace line) \<le> length line" by (simp add: length_dropWhile_le)
  ultimately show ?thesis using first_option_rest [OF o] by simp
qed

function process_line :: "nat \<Rightarrow> string \<Rightarrow> options \<Rightarrow> options option" where
  "process_line lineno line t =
     (case process_first_option lineno line t of
        None \<Rightarrow> None
      | Some (again, rest, t') \<Rightarrow> if again then process_line lineno rest t' else Some t')"
  by pat_completeness auto
termination
  by (relation "measure (\<lambda>(_, line, _). length line)") (auto dest: process_first_option_rest)

declare process_line.simps [simp del]

function file_lines :: "string \<Rightarrow> string list" where
  "file_lines s = (if s = [] then [] else c_string (fst (fgets (OPTBUFSIZ - 1) s)) # file_lines (snd (fgets (OPTBUFSIZ - 1) s)))"
  by pat_completeness auto
termination
  by (relation "measure length") (auto simp: fgets_progress [of _ 1022, simplified])

declare file_lines.simps [simp del]

datatype file_result = Missing | Unreadable | Contents string

record opt_host =
  h_file :: "string \<Rightarrow> file_result"
  h_home :: "string option"
  h_user_home :: "string \<Rightarrow> string option"
  h_ttyname :: "string option"
  h_sysconf :: string
  h_path_max :: nat

fun process_lines :: "nat \<Rightarrow> string list \<Rightarrow> options \<Rightarrow> options option" where
  "process_lines lineno [] t = Some t"
| "process_lines lineno (l # ls) t = Option.bind (process_line lineno l t) (process_lines (Suc lineno) ls)"

definition process_options_from_file :: "opt_host \<Rightarrow> string \<Rightarrow> options \<Rightarrow> options option" where
  "process_options_from_file h filename t =
     (case h_file h filename of
        Missing \<Rightarrow> Some t
      | Unreadable \<Rightarrow> Some (report (Cannot_Open filename) t)
      | Contents s \<Rightarrow> process_lines 1 (file_lines s) t)"

definition can_read_file :: "opt_host \<Rightarrow> string \<Rightarrow> bool" where
  "can_read_file h filename \<longleftrightarrow> (case h_file h filename of Contents _ \<Rightarrow> True | _ \<Rightarrow> False)"

text \<open>\<open>tilde_expand\<close>: the result and what is left in the buffer of \<open>PATH_MAX\<close> characters.\<close>

definition tilde_expand :: "opt_host \<Rightarrow> string \<Rightarrow> (bool \<times> string) option" where
  "tilde_expand h filename =
     (if take 1 filename \<noteq> ''~'' then Some (True, filename)
      else
        let user = takeWhile (\<lambda>c. c \<noteq> CHR ''/'') (tl filename); trailer = drop (length user) (tl filename)
        in case (if user = [] then h_home h else h_user_home h user) of
             None \<Rightarrow> Some (False, [])
           | Some dir \<Rightarrow> if h_path_max h \<le> length (dir @ trailer) then None else Some (True, dir @ trailer))"

section \<open>All sources\<close>

fun fold_options :: "string list \<Rightarrow> options \<Rightarrow> options option" where
  "fold_options [] t = Some t"
| "fold_options (o1 # os) t = Option.bind (process_one_option o1 t) (fold_options os)"

text \<open>
  \<open>process_defaults\<close>: the final loop calls \<open>option\<close>, which aborts when a default is missing.
\<close>

definition have_values :: "(string \<times> opt_type) list \<Rightarrow> options \<Rightarrow> bool" where
  "have_values names t \<longleftrightarrow> list_all (\<lambda>(name, _). option_value name t \<noteq> None) names"

definition process_defaults :: "opt_host \<Rightarrow> options \<Rightarrow> options option" where
  "process_defaults h t = do {
     t1 \<leftarrow> fold_options defaults_table t;
     t2 \<leftarrow> (case h_ttyname h of Some tty \<Rightarrow> set_str_option ''ttydev'' tty t1 | None \<Rightarrow> Some t1);
     if have_values nametable t2 then Some t2 else None }"

datatype cmd_exit = Exit_Success | Error_Exit

record cmd_line =
  read_system_config_file :: bool
  user_config_filename :: string
  command_line_options :: "string list"

fun parse_args :: "opt_host \<Rightarrow> string list \<Rightarrow> cmd_line \<times> options \<Rightarrow> (cmd_exit + cmd_line \<times> options) option" where
  "parse_args h [] s = Some (Inr s)"
| "parse_args h (a # as) (c, t) =
     (if a = ''--version'' \<or> a = ''--help'' \<or> a = ''--print-config'' then Some (Inl Exit_Success)
      else if a = ''-o'' then
        (case as of [] \<Rightarrow> Some (Inl Error_Exit)
         | v # as' \<Rightarrow> parse_args h as' (c\<lparr>command_line_options := command_line_options c @ [v]\<rparr>, t))
      else if a = ''-F'' then
        (case as of [] \<Rightarrow> Some (Inl Error_Exit)
         | v # as' \<Rightarrow> if h_path_max h \<le> length v then None
                      else parse_args h as' (c\<lparr>user_config_filename := v\<rparr>, t))
      else if a = ''-n'' then parse_args h as (c\<lparr>read_system_config_file := False\<rparr>, t)
      else if as = [] then
        if \<not> can_read_file h a \<and> take 1 a = ''-'' then Some (Inl Error_Exit)
        else map_option (\<lambda>t'. Inr (c, t')) (set_str_option ''romfile'' a t)
      else Some (Inl Error_Exit))"

definition process_options :: "opt_host \<Rightarrow> string list \<Rightarrow> (cmd_exit + options) option" where
  "process_options h args = do {
     t0 \<leftarrow> process_defaults h Options_new;
     r \<leftarrow> parse_args h args
            (\<lparr>read_system_config_file = True, user_config_filename = ''~/.vmipsrc'', command_line_options = []\<rparr>, t0);
     (case r of
        Inl e \<Rightarrow> Some (Inl e)
      | Inr (c, t1) \<Rightarrow> do {
          t2 \<leftarrow> if read_system_config_file c then process_options_from_file h (h_sysconf h) t1 else Some t1;
          (_, f) \<leftarrow> tilde_expand h (user_config_filename c);
          t3 \<leftarrow> process_options_from_file h f t2;
          t4 \<leftarrow> fold_options (command_line_options c) t3;
          Some (Inr t4) }) }"

section \<open>Tuples\<close>

text \<open>
  \<open>get_tuple\<close>: the string must match the regular expression of \<open>len\<close> numbers in parentheses; then
  \<open>regex_search\<close> takes one run of digits after the other, and \<open>std::stoi\<close> throws when it does not
  fit an \<open>int\<close>.
\<close>

definition match_item :: "string \<Rightarrow> string option" where
  "match_item s =
     (let s1 = dropWhile isspace s
      in if takeWhile isdigit s1 = [] then None else Some (dropWhile isspace (dropWhile isdigit s1)))"

fun match_items :: "nat \<Rightarrow> string \<Rightarrow> bool" where
  "match_items 0 s = False"
| "match_items (Suc n) s =
     (case match_item s of
        None \<Rightarrow> False
      | Some r \<Rightarrow> if n = 0 then r = '')''
                  else (case r of [] \<Rightarrow> False | c # r' \<Rightarrow> c = CHR '','' \<and> match_items n r'))"

fun search_numbers :: "nat \<Rightarrow> string \<Rightarrow> int list option" where
  "search_numbers 0 s = Some []"
| "search_numbers (Suc n) s =
     (let s1 = dropWhile (\<lambda>c. \<not> isdigit c) s; v = digits_value 10 (takeWhile isdigit s1)
      in if v < 2 ^ 31 then map_option ((#) (int v)) (search_numbers n (dropWhile isdigit s1)) else None)"

definition get_tuple :: "string \<Rightarrow> nat \<Rightarrow> int list option" where
  "get_tuple option len =
     (if take 1 option = ''('' \<and> match_items len (tl option) then search_numbers len option else None)"

lemmas option_defs [cube_defs] =
  Options_new_def find_option_type_def report_def optstruct_def install_def set_str_option_def
  set_num_option_def set_flag_option_def option_value_def option_flag_def option_num_def option_str_def
  suffix_factor_def number_option_def process_options_from_file_def can_read_file_def tilde_expand_def
  match_item_def get_tuple_def

end
