(* ===== verification/Options_Facts.thy ===== *)
theory Options_Facts
  imports Options
begin

text \<open>
  What the option processor keeps: every entry of the table has the type the list of options gives
  its name, whatever the command line and the configuration files contain, and every option has a
  value after the defaults. A configuration file in which the special characters are escaped is read
  as exactly the options that were written to it.
\<close>

section \<open>Typed tables\<close>

fun value_type :: "opt_value \<Rightarrow> opt_type" where
  "value_type (Flag_Value _) = FLAG"
| "value_type (Num_Value _) = NUM"
| "value_type (Str_Value _) = STRING"

definition options_typed :: "options \<Rightarrow> bool" where
  "options_typed t \<longleftrightarrow>
     (\<forall>n r. opt_table t n = Some r \<longrightarrow>
        o_name r = n \<and> find_option_type n = Some (o_type r) \<and> value_type (o_value r) = o_type r)"

definition options_complete :: "options \<Rightarrow> bool" where
  "options_complete t \<longleftrightarrow> (\<forall>(n, ty) \<in> set nametable. opt_table t n \<noteq> None)"

text \<open>A step of the processor keeps the types and never removes an entry.\<close>

definition extends :: "options \<Rightarrow> options \<Rightarrow> bool" where
  "extends t' t \<longleftrightarrow> (options_typed t \<longrightarrow> options_typed t') \<and> dom (opt_table t) \<subseteq> dom (opt_table t')"

lemma extends_refl [simp]: "extends t t"
  by (simp add: extends_def)

lemma extends_trans: "extends t1 t \<Longrightarrow> extends t2 t1 \<Longrightarrow> extends t2 t"
  by (auto simp: extends_def)

lemma extends_report [simp]: "extends (report e t) t"
  by (simp add: extends_def options_typed_def report_def)

lemma extends_install:
  "find_option_type k = Some ty \<Longrightarrow> value_type v = ty \<Longrightarrow> extends (install k ty v t) t"
  by (auto simp: extends_def options_typed_def install_def)

lemma extends_set:
  "set_str_option k s t = Some t' \<Longrightarrow> extends t' t"
  "set_num_option k n t = Some t' \<Longrightarrow> extends t' t"
  "set_flag_option k b t = Some t' \<Longrightarrow> extends t' t"
  by (auto simp: set_str_option_def set_num_option_def set_flag_option_def extends_install split: if_splits)

lemma extends_flag: "process_flag opt t = Some t' \<Longrightarrow> extends t' t"
  by (simp add: process_flag_def Let_def split: option.splits if_splits; use extends_set(3) extends_report in blast)

lemma extends_value: "process_value n e t = Some t' \<Longrightarrow> extends t' t"
  by (simp add: process_value_def Let_def split: prod.splits if_splits;
      use extends_set(1,2) extends_report extends_trans in blast)

lemma extends_one: "process_one_option opt t = Some t' \<Longrightarrow> extends t' t"
  unfolding process_one_option_def Let_def by (metis (no_types) extends_flag extends_value)

lemma extends_first: "process_first_option n l t = Some (m, r, t') \<Longrightarrow> extends t' t"
  by (auto simp: process_first_option_def Let_def bind_eq_Some_conv
        dest!: extends_one intro: extends_trans [OF extends_report]
        split: if_splits prod.splits)

lemma extends_line: "process_line n l t = Some t' \<Longrightarrow> extends t' t"
proof (induction n l t rule: process_line.induct)
  case (1 n l t)
  obtain m r t1 where f: "process_first_option n l t = Some (m, r, t1)"
    using "1.prems" by (cases "process_first_option n l t") (auto simp: process_line.simps [of n l t])
  show ?case
  proof (cases m)
    case True
    with "1.prems" have "process_line n r t1 = Some t'" by (simp add: process_line.simps [of n l t] f)
    with "1.IH" [OF f refl refl True] show ?thesis using extends_first [OF f] extends_trans by blast
  next
    case False
    with "1.prems" show ?thesis using extends_first [OF f] by (simp add: process_line.simps [of n l t] f)
  qed
qed

lemma extends_lines: "process_lines n ls t = Some t' \<Longrightarrow> extends t' t"
  by (induction ls arbitrary: n t) (auto simp: bind_eq_Some_conv dest: extends_line intro: extends_trans)

lemma extends_fold: "fold_options os t = Some t' \<Longrightarrow> extends t' t"
  by (induction os arbitrary: t) (auto simp: bind_eq_Some_conv dest: extends_one intro: extends_trans)

lemma extends_file: "process_options_from_file h f t = Some t' \<Longrightarrow> extends t' t"
  by (auto simp: process_options_from_file_def dest: extends_lines split: file_result.splits)

lemma extends_args: "parse_args h as s = Some (Inr s') \<Longrightarrow> extends (snd s') (snd s)"
proof (induction h as s rule: parse_args.induct)
  case (2 h a as c t)
  show ?case
  proof (cases as)
    case Nil
    with 2 show ?thesis by (simp split: if_splits; use extends_set(1) in fastforce)
  next
    case (Cons v vs)
    with 2 show ?thesis by (simp split: if_splits)
  qed
qed simp

lemma extends_defaults: "process_defaults h t = Some t' \<Longrightarrow> extends t' t"
  by (simp add: process_defaults_def bind_eq_Some_conv split: option.splits if_splits;
      use extends_fold extends_set(1) extends_trans in blast)

lemma process_options_extends:
  assumes "process_options h args = Some (Inr t)"
  obtains t0 where "process_defaults h Options_new = Some t0" and "extends t t0"
proof -
  obtain t0 r where d: "process_defaults h Options_new = Some t0" and
    a: "parse_args h args
          (\<lparr>read_system_config_file = True, user_config_filename = ''~/.vmipsrc'', command_line_options = []\<rparr>, t0) = Some r" and
    r: "(case r of Inl e \<Rightarrow> Some (Inl e)
      | Inr (c, t1) \<Rightarrow> do {
          t2 \<leftarrow> if read_system_config_file c then process_options_from_file h (h_sysconf h) t1 else Some t1;
          (_, f) \<leftarrow> tilde_expand h (user_config_filename c);
          t3 \<leftarrow> process_options_from_file h f t2;
          t4 \<leftarrow> fold_options (command_line_options c) t3;
          Some (Inr t4) }) = Some (Inr t)"
    using assms by (auto simp: process_options_def bind_eq_Some_conv)
  obtain c t1 where c: "r = Inr (c, t1)" using r by (cases r) auto
  obtain t2 f t3 where 2: "(if read_system_config_file c then process_options_from_file h (h_sysconf h) t1 else Some t1) = Some t2"
    and 3: "process_options_from_file h f t2 = Some t3" and 4: "fold_options (command_line_options c) t3 = Some t"
    using r unfolding c by (auto simp: bind_eq_Some_conv)
  have "extends t1 t0" using extends_args [OF a [unfolded c]] by simp
  moreover have "extends t2 t1" using 2 extends_file by (cases "read_system_config_file c") auto
  ultimately have "extends t t0"
    using extends_file [OF 3] extends_fold [OF 4] by (meson extends_trans)
  with d show thesis by (rule that)
qed

section \<open>The only option that is not processed\<close>

lemma strprefix_None: "strprefix s p = None \<longleftrightarrow> s = p"
  by (induction s p rule: strprefix.induct) auto

lemma strprefix_Some: "strprefix s p = Some (Some r) \<longleftrightarrow> s = p @ r \<and> r \<noteq> []"
  by (induction s p rule: strprefix.induct) auto

lemma process_one_option_undefined: "process_one_option opt t = None \<longleftrightarrow> opt = ''no''"
proof -
  have "process_flag opt t = None \<longleftrightarrow> opt = ''no''"
    unfolding strprefix_None [of opt "''no''", symmetric]
    by (cases "strprefix opt ''no''")
      (simp_all add: process_flag_def Let_def set_flag_option_def split: option.split)
  moreover have "process_value n e t \<noteq> None" for n e
    by (simp add: process_value_def Let_def set_str_option_def set_num_option_def split: prod.split)
  moreover have "takeWhile (\<lambda>c. c \<noteq> CHR ''='') opt \<noteq> opt \<Longrightarrow> opt \<noteq> ''no''" by auto
  ultimately show ?thesis
    unfolding process_one_option_def Let_def
    by (cases "takeWhile (\<lambda>c. c \<noteq> CHR ''='') opt = opt") (simp_all only: if_True if_False simp_thms)
qed

lemma fold_options_defined: "''no'' \<notin> set os \<Longrightarrow> \<exists>t'. fold_options os t = Some t'"
proof (induction os arbitrary: t)
  case (Cons o1 os)
  have "process_one_option o1 t \<noteq> None"
    unfolding process_one_option_undefined using Cons.prems by (metis list.set_intros(1))
  then obtain t1 where "process_one_option o1 t = Some t1" by blast
  with Cons show ?case by simp
qed simp

section \<open>Configuration files\<close>

text \<open>How an option is written to a configuration file: one per line, special characters escaped.\<close>

definition escape_char :: "char \<Rightarrow> string" where
  "escape_char c = (if isspace c \<or> c = CHR 0x27 \<or> c = CHR 0x5C \<or> c = CHR ''#'' then [CHR 0x5C, c] else [c])"

definition config_line :: "string \<Rightarrow> string" where
  "config_line opt = concat (map escape_char opt) @ [CHR 0x0A]"

definition writable :: "string \<Rightarrow> bool" where
  "writable opt \<longleftrightarrow> opt \<noteq> [] \<and> CHR 0x0A \<notin> set opt \<and> CHR 0x00 \<notin> set opt \<and> length (config_line opt) < OPTBUFSIZ"

lemma isspace_chars [simp]:
  "isspace CHR 0x0A" "\<not> isspace CHR 0x27" "\<not> isspace CHR 0x5C" "\<not> isspace CHR ''#''" "\<not> isspace CHR 0x00"
  by (simp_all add: isspace_def)

lemma first_option_escaped:
  "first_option False False (concat (map escape_char opt) @ [CHR 0x0A]) = (opt, [], True, False)"
  by (induction opt) (auto simp: escape_char_def copy_char_def)

lemma set_escaped: "set (concat (map escape_char opt)) \<subseteq> insert CHR 0x5C (set opt)"
  by (induction opt) (auto simp: escape_char_def)

lemma escaped_not_space: "opt \<noteq> [] \<Longrightarrow> dropWhile isspace (config_line opt) = config_line opt"
  by (cases opt) (auto simp: config_line_def escape_char_def)

lemma c_string_id [simp]: "CHR 0x00 \<notin> set s \<Longrightarrow> c_string s = s"
  unfolding c_string_def takeWhile_eq_all_conv by metis

lemma length_escaped: "length opt \<le> length (concat (map escape_char opt))"
  by (induction opt) (auto simp: escape_char_def)

lemma process_first_config_line:
  assumes "writable opt"
  shows "process_first_option n (config_line opt) t = map_option (\<lambda>t'. (False, [], t')) (process_one_option opt t)"
proof -
  have "length opt < OPTBUFSIZ" "opt \<noteq> []" "c_string opt = opt"
    using assms length_escaped [of opt] by (auto simp: writable_def config_line_def)
  moreover have "first_option False False (dropWhile isspace (config_line opt)) = (opt, [], True, False)"
    unfolding escaped_not_space [OF \<open>opt \<noteq> []\<close>] by (simp add: config_line_def first_option_escaped)
  ultimately show ?thesis
    by (cases "process_one_option opt t") (simp_all add: process_first_option_def)
qed

lemma process_config_line: "writable opt \<Longrightarrow> process_line n (config_line opt) t = process_one_option opt t"
  by (simp add: process_line.simps [of n "config_line opt"] process_first_config_line split: option.split)

lemma file_lines_config:
  "\<forall>opt \<in> set os. writable opt \<Longrightarrow> file_lines (concat (map config_line os)) = map config_line os"
proof (induction os)
  case Nil
  then show ?case by (simp add: file_lines.simps)
next
  case (Cons opt os)
  let ?l = "concat (map escape_char opt)" and ?r = "concat (map config_line os)"
  have w: "writable opt" using Cons.prems by simp
  have "set ?l \<subseteq> insert CHR 0x5C (set opt)" by (rule set_escaped)
  then have n: "CHR 0x0A \<notin> set ?l" "CHR 0x00 \<notin> set ?l" using w by (auto simp: writable_def)
  have "length ?l < 1023" using w by (simp add: writable_def config_line_def)
  then have f: "fgets 1023 (config_line opt @ ?r) = (config_line opt, ?r)"
    using fgets_line [OF n(1)] by (simp add: config_line_def)
  have "c_string (config_line opt) = config_line opt"
    using n by (intro c_string_id) (simp add: config_line_def)
  moreover have "config_line opt @ ?r \<noteq> []" by (simp add: config_line_def)
  moreover have "file_lines ?r = map config_line os" using Cons by simp
  ultimately show ?case
    using file_lines.simps [of "config_line opt @ ?r"] f by simp
qed

lemma process_config_lines:
  "\<forall>opt \<in> set os. writable opt \<Longrightarrow> process_lines n (map config_line os) t = fold_options os t"
  by (induction os arbitrary: n t) (simp_all add: process_config_line cong: Option.bind_cong)

section \<open>The last setting wins\<close>

text \<open>What an option means, apart from the table: the entry it sets and the value.\<close>

definition option_effect :: "string \<Rightarrow> (string \<times> opt_value) option" where
  "option_effect opt =
     (let name = takeWhile (\<lambda>c. c \<noteq> CHR ''='') opt; v = drop (Suc (length name)) opt
      in if name = opt then
           let flag = (if take 2 opt = ''no'' then drop 2 opt else opt)
           in if find_option_type flag = Some FLAG then Some (flag, Flag_Value (take 2 opt \<noteq> ''no'')) else None
         else if v = [] then None
         else case find_option_type name of
             Some STRING \<Rightarrow> Some (name, Str_Value v)
           | Some NUM \<Rightarrow> Some (name, Num_Value (fst (number_option v)))
           | _ \<Rightarrow> None)"

fun set_effect :: "(string \<times> opt_value) option \<Rightarrow> (string \<rightharpoonup> option_rec) \<Rightarrow> (string \<rightharpoonup> option_rec)" where
  "set_effect None m = m"
| "set_effect (Some (k, v)) m = m(k \<mapsto> \<lparr>o_name = k, o_type = value_type v, o_value = v\<rparr>)"

lemma strprefix_no:
  "opt \<noteq> ''no'' \<Longrightarrow> strprefix opt ''no'' = Some (if take 2 opt = ''no'' then Some (drop 2 opt) else None)"
proof (cases "strprefix opt ''no''")
  case (Some p)
  show "opt \<noteq> ''no'' \<Longrightarrow> ?thesis"
  proof (cases p)
    case None
    have "take 2 opt \<noteq> ''no''"
    proof
      assume "take 2 opt = ''no''"
      then have "opt = ''no'' @ drop 2 opt" by (metis append_take_drop_id)
      moreover have "drop 2 opt \<noteq> []" using Some strprefix_None [of opt "''no''"] calculation by force
      ultimately have "strprefix opt ''no'' = Some (Some (drop 2 opt))"
        using strprefix_Some [of opt "''no''" "drop 2 opt"] by blast
      with Some None show False by simp
    qed
    with Some None show ?thesis by simp
  next
    case (Some r)
    with \<open>strprefix opt ''no'' = Some p\<close> have "opt = ''no'' @ r" using strprefix_Some [of opt "''no''" r] by simp
    with Some \<open>strprefix opt ''no'' = Some p\<close> show ?thesis by simp
  qed
qed (simp add: strprefix_None)

lemma process_flag_effect:
  assumes "takeWhile (\<lambda>c. c \<noteq> CHR ''='') opt = opt" and "process_flag opt t = Some t'"
  shows "opt_table t' = set_effect (option_effect opt) (opt_table t)"
proof -
  have "opt \<noteq> ''no''"
    using assms(2) strprefix_None [of opt "''no''"] by (auto simp: process_flag_def)
  from strprefix_no [OF this] assms(2) show ?thesis
    unfolding option_effect_def Let_def assms(1)
    by (cases "take 2 opt = ''no''")
      (auto simp: process_flag_def set_flag_option_def install_def report_def split: if_splits)
qed

lemma process_value_effect:
  assumes "takeWhile (\<lambda>c. c \<noteq> CHR ''='') opt = name" and "name \<noteq> opt" and
    "process_value name (drop (Suc (length name)) opt) t = Some t'"
  shows "opt_table t' = set_effect (option_effect opt) (opt_table t)"
  using assms(2, 3) unfolding option_effect_def Let_def assms(1)
  by (auto simp: process_value_def set_str_option_def set_num_option_def install_def report_def
      split: if_splits prod.splits option.splits opt_type.splits)

lemma process_one_effect:
  assumes "process_one_option opt t = Some t'"
  shows "opt_table t' = set_effect (option_effect opt) (opt_table t)"
  using assms process_flag_effect process_value_effect [OF refl]
  unfolding process_one_option_def Let_def by metis

lemma last_setting_wins:
  assumes "fold_options os t = Some t'"
  shows "option_value k t' =
    (case map_of (rev (List.map_filter option_effect os)) k of Some v \<Rightarrow> Some v | None \<Rightarrow> option_value k t)"
  using assms
proof (induction os arbitrary: t)
  case Nil
  then show ?case by (simp add: map_filter_def)
next
  case (Cons opt os)
  then obtain t1 where o: "process_one_option opt t = Some t1" and f: "fold_options os t1 = Some t'"
    by (auto simp: bind_eq_Some_conv)
  show ?case
    using Cons.IH [OF f] process_one_effect [OF o]
    by (cases "option_effect opt")
      (auto simp: map_filter_def option_value_def optstruct_def map_add_def split: option.splits)
qed

section \<open>The defaults\<close>

text \<open>The entry that an option sets, without its value.\<close>

definition option_target :: "string \<Rightarrow> string option" where
  "option_target opt =
     (let name = takeWhile (\<lambda>c. c \<noteq> CHR ''='') opt
      in if name = opt then
           let flag = (if take 2 opt = ''no'' then drop 2 opt else opt)
           in if find_option_type flag = Some FLAG then Some flag else None
         else if length opt = Suc (length name) then None
         else case find_option_type name of Some FLAG \<Rightarrow> None | Some _ \<Rightarrow> Some name | None \<Rightarrow> None)"

lemma option_target_effect: "option_target opt = map_option fst (option_effect opt)"
proof (cases "takeWhile (\<lambda>c. c \<noteq> CHR ''='') opt = opt")
  case True
  then show ?thesis unfolding option_target_def option_effect_def Let_def by simp
next
  case False
  let ?n = "takeWhile (\<lambda>c. c \<noteq> CHR ''='') opt"
  have "length ?n < length opt"
    using False length_takeWhile_le [of "\<lambda>c. c \<noteq> CHR ''=''" opt] takeWhile_eq_take [of "\<lambda>c. c \<noteq> CHR ''=''" opt]
    by (metis le_neq_implies_less take_all_iff order_refl)
  then have "drop (Suc (length ?n)) opt = [] \<longleftrightarrow> length opt = Suc (length ?n)" by auto
  with False show ?thesis
    unfolding option_target_def option_effect_def Let_def
    by (auto split: option.split opt_type.split)
qed

lemma map_of_effects:
  "map_of (rev (List.map_filter option_effect os)) k \<noteq> None \<longleftrightarrow> Some k \<in> set (map option_target os)"
proof -
  have t: "option_target opt = Some k \<longleftrightarrow> (\<exists>v. option_effect opt = Some (k, v))" for opt
    by (auto simp: option_target_effect)
  have "p \<in> set (List.map_filter option_effect os) \<longleftrightarrow> (\<exists>opt \<in> set os. option_effect opt = Some p)" for p
    by (force simp: map_filter_def)
  then show ?thesis by (force simp: map_of_eq_None_iff image_iff t eq_commute [of "Some k"])
qed

lemma default_targets: "list_all (\<lambda>(k, _). Some k \<in> set (map option_target defaults_table)) nametable"
  by code_simp

lemma no_not_default: "''no'' \<notin> set defaults_table"
  by code_simp

lemma defaults_complete: "\<exists>t. process_defaults h Options_new = Some t"
proof -
  obtain t1 where f: "fold_options defaults_table Options_new = Some t1"
    using fold_options_defined [OF no_not_default] by blast
  have v: "option_value k t1 \<noteq> None" if "(k, ty) \<in> set nametable" for k ty
  proof -
    have "Some k \<in> set (map option_target defaults_table)"
      using default_targets that unfolding list_all_iff by fast
    then have "map_of (rev (List.map_filter option_effect defaults_table)) k \<noteq> None"
      unfolding map_of_effects .
    then show ?thesis unfolding last_setting_wins [OF f] by (auto split: option.split)
  qed
  have tty: "find_option_type ''ttydev'' = Some STRING" by code_simp
  obtain t2 where 2: "(case h_ttyname h of Some tty \<Rightarrow> set_str_option ''ttydev'' tty t1 | None \<Rightarrow> Some t1) = Some t2"
    by (cases "h_ttyname h") (simp_all add: set_str_option_def tty)
  then have "extends t2 t1" by (auto split: option.splits dest: extends_set(1))
  then have "have_values nametable t2"
    using v unfolding have_values_def list_all_iff extends_def
    by (fastforce simp: option_value_def optstruct_def)
  with f 2 show ?thesis by (simp add: process_defaults_def)
qed

text \<open>The value of a default: no later default sets the same entry.\<close>

lemma default_value:
  assumes "fold_options (os @ opt # os') t = Some t'" and "option_effect opt = Some (k, v)"
    and "list_all (\<lambda>opt. option_target opt \<noteq> Some k) os'"
  shows "option_value k t' = Some v"
proof -
  have "map_of (rev (List.map_filter option_effect os')) k = None"
    using assms(3) map_of_effects [of os' k] by (auto simp: list_all_iff)
  then show ?thesis
    using last_setting_wins [OF assms(1), of k] assms(2)
    by (simp add: map_filter_def map_add_def split: option.splits)
qed

section \<open>Properties\<close>

text \<open>A host without configuration files, and one whose file \<open>f\<close> sets two options.\<close>

definition bare_host :: opt_host where
  "bare_host = \<lparr>h_file = (\<lambda>f. Missing), h_home = None, h_user_home = (\<lambda>u. None), h_ttyname = None,
     h_sysconf = ''vmipsrc'', h_path_max = 4096\<rparr>"

definition file_host :: opt_host where
  "file_host = bare_host\<lparr>h_file := (\<lambda>f. Contents (concat (map config_line [''nodmac'', ''romfile=a b#c''])))\<rparr>"

text \<open>
  C39. The table of options is typed and complete: whatever the command line, the configuration files and
  the host are, when \<open>process_options\<close> returns, every option of the official list has an entry, every entry
  belongs to an option of the list and has its name and its type, and the value is the member of
  the union for that type. So reading an option by its name never aborts and never reads the
  wrong member.
\<close>
theorem options_typed_complete:
  assumes "process_options h args = Some (Inr t)"
  shows "options_typed t \<and> options_complete t"
proof -
  obtain t0 where d: "process_defaults h Options_new = Some t0" and e: "extends t t0"
    using assms by (rule process_options_extends)
  have "options_typed Options_new" by (simp add: options_typed_def Options_new_def)
  then have "options_typed t" using extends_defaults [OF d] e by (simp add: extends_def)
  moreover have "have_values nametable t0"
    using d by (auto simp: process_defaults_def bind_eq_Some_conv split: if_splits)
  then have "options_complete t0"
    unfolding options_complete_def have_values_def list_all_iff by (fastforce simp: option_value_def optstruct_def)
  then have "options_complete t" using e unfolding options_complete_def extends_def by fast
  ultimately show ?thesis ..
qed

lemma bare_run: "\<exists>t. process_options bare_host [''-n''] = Some (Inr t)"
proof -
  obtain t where "process_defaults bare_host Options_new = Some t" using defaults_complete by blast
  then show ?thesis
    by (simp add: process_options_def process_options_from_file_def tilde_expand_def bare_host_def)
qed

theorem options_typed_complete_witness:
  "\<exists>t. process_options bare_host [''-n''] = Some (Inr t) \<and> options_typed t \<and> options_complete t"
  using bare_run options_typed_complete by blast

text \<open>
  C40. Configuration files round-trip: a file with one option per line, in which white space, quotes,
  backslashes and hash signs are escaped with a backslash, is processed as exactly the list of the
  options, in order, character for character. The options are not empty, have no newline, and their
  lines fit the buffer of 1024 characters.
\<close>
theorem config_file_roundtrip:
  assumes "h_file h f = Contents (concat (map config_line os))" and "\<forall>opt \<in> set os. writable opt"
  shows "process_options_from_file h f t = fold_options os t"
  using assms by (simp add: process_options_from_file_def file_lines_config process_config_lines)

theorem config_file_roundtrip_witness:
  "process_options_from_file file_host ''f'' Options_new = fold_options [''nodmac'', ''romfile=a b#c''] Options_new"
proof -
  have "\<forall>opt \<in> set [''nodmac'', ''romfile=a b#c'']. writable opt"
    by (simp add: writable_def config_line_def escape_char_def isspace_def)
  moreover have "h_file file_host ''f'' = Contents (concat (map config_line [''nodmac'', ''romfile=a b#c'']))"
    by (simp add: file_host_def)
  ultimately show ?thesis using config_file_roundtrip by blast
qed

end
