(* ===== verification/Spec2Isabelle.thy ===== *)
theory Spec2Isabelle
  imports Flat_Memory Int_Ctrl CPZero_Props Cache_Props ISA ALU_Facts CPU_Props Router_Props Dmac_Props Router_If_Props Accel_Props CMA_Props SNACC_Props Board_Props Device_Facts Machine_Facts Options_Facts
begin

unbundle bit_operations_syntax

text \<open>
  A verification development for CubeSim, a cycle-accurate simulator of a stack of chips that
  talk through routers: a MIPS R3000 processor below, up to three accelerators above it.

  \<^bold>\<open>The program and its model.\<close> \<open>vmips.cc\<close> builds the machine from the options and, in every cycle, steps
  the processor, the DMA controller, the router interface and the accelerators, and then lets time
  pass on the clock. The parts share the physical memory system, whose bus is granted to one client
  at a time. Every part is a record with one field per member of its class and one definition per
  method, with the method's name. A method returns the new state; the result \<^const>\<open>None\<close> is a failed
  assertion, \<open>abort\<close>, \<open>fatal_error\<close>, a null or deleted pointer or an access outside an array. A shared object is
  passed to the definitions that use it (the mapper to the cache, the DMA controller and the
  processor, the clock's tasks to the devices). Integers have the width of the code. Objects that point to each
  other have numbers: the latches of the pipeline, the nodes of the CMA array, the clients of the bus.
  The byte order of the host (\<open>hb\<close>), the time of the host, its terminals and its files are arguments.

  \<^bold>\<open>Memory.\<close> \<open>Range_Memory\<close> (\<open>range.cc\<close>, \<open>memorymodule.h\<close>): a range is a list of bytes.
  \<open>Bus_Arbiter\<close> (\<open>busarbiter.cc\<close>), \<open>Dmac_Config\<close> (the registers of \<open>dmac.cc\<close>) and \<open>Mapper\<close> (\<open>mapper.cc\<close>): the address space,
  the lookup cache, the table of requested accesses with their latencies, byte swapping. \<open>Mapper_Facts\<close>
  shows that ranges stay disjoint, that the lookup cache is transparent and the bus exclusive; \<open>Flat_Memory\<close> relates it
  all to a map from addresses to bytes. The locales \<open>word_store\<close> (what a load returns after a
  store) and \<open>bus_grant\<close> (who may hold the bus) are the interfaces of memories and of arbiters; they are
  interpreted on ranges, the mapper, the cache, double buffers and the local bus of an accelerator.

  \<^bold>\<open>Processor.\<close> \<open>ISA\<close> (tables of \<open>ISA.h\<close>), \<open>ALU\<close>, \<open>CPU_State\<close> (latches on a heap, exceptions), \<open>CPU_Exec\<close>
  (instruction routines), \<open>CPU\<close> (the five stages and \<open>step\<close>) model \<open>cpu.cc\<close>; \<open>CPZero\<close> models \<open>cpzero.cc\<close> with
  the TLB, \<open>Int_Ctrl\<close> the interrupt lines, \<open>Cache\<close> the caches of \<open>cache.cc\<close>. \<open>CPU_Wf\<close>, \<open>CPU_Frame\<close>, \<open>CPU_Pipe\<close> and \<open>CPU_Step\<close>
  prove the invariant of the pipeline: latches are freed while younger instructions still point into
  them, and the pointers a stage follows are live all the same. \<open>ALU_Facts\<close>, \<open>CPU_Facts\<close> and \<open>CPU_Exec_Facts\<close> relate the
  routines to the MIPS I functions; \<open>Cache_Facts\<close>, \<open>Cache_Fill\<close> and \<open>Cache_Miss\<close> follow a miss from request to hit.
  A deleted request of the cache keeps its values until the next one is made, which is what the code
  relies on when it reads the client after \<open>delete\<close>; deleting it twice is an error.

  \<^bold>\<open>DMA.\<close> \<open>Dmac\<close> is the controller of \<open>dmac.cc\<close> as a state machine on the bus; \<open>Dmac_Copy\<close> follows a transfer of
  single words in closed form, with its exact number of cycles.

  \<^bold>\<open>Network.\<close> \<open>Router\<close> (\<open>router.cc\<close>): input channels with virtual channels, crossbar, output channels
  with credits; \<open>Router_Net\<close>: the routers of a stack, with the steps of sending, receiving and of routers in
  any order as events. \<open>Router_Flow\<close> and \<open>Router_Excl\<close> hold the two invariants (credits and flits; ownership of
  outputs). \<open>Router_Interface\<close> (\<open>routerinterface.cc\<close>) is the processor's side and \<open>Accelerator\<close> (\<open>accelerator.cc\<close>,
  \<open>remoteram.cc\<close>) the accelerators' side; \<open>Packets\<close> says what both promise the network. \<open>Accel_Facts\<close>, \<open>Accel_Transfer\<close>
  and \<open>Accel_Remote\<close> follow blocks through the network interface, for every core that gives the laws of
  the locale \<open>word_objects\<close>.

  \<^bold>\<open>Accelerators.\<close> \<open>Dbuf\<close> is the double buffer of \<open>dbuf.cc\<close>. \<open>CMA_PE\<close> and \<open>CMA\<close> model \<open>cmamodules.cc\<close> and \<open>cma.cc\<close>: \<open>Toposort\<close>
  is the sort of the array, for any graph with in-degrees (locale \<open>degree_graph\<close>), \<open>CMA_Flow\<close> defines
  without any order of execution what the array computes, and \<open>CMA_Graph\<close>, \<open>CMA_Exec\<close> and \<open>CMA_Cycle\<close> show that a cycle
  computes it. \<open>SNACC_Mad\<close>, \<open>SNACC_Core\<close> and \<open>SNACC\<close> model \<open>snaccmodules.cc\<close>, \<open>snacccore.cc\<close> and \<open>snacc.cc\<close>; \<open>SNACC_ISA\<close> is the
  instruction set written independently of the stages, \<open>SNACC_Exec\<close> the refinement, \<open>SNACC_MadFacts\<close> the
  fixed-point arithmetic, \<open>SNACC_Facts\<close> the invariants of the whole chip.

  \<^bold>\<open>Devices and time.\<close> \<open>Clock\<close> (\<open>clock.cc\<close>), \<open>Devices\<close> (the clock devices, control and status registers, RS-232C,
  halt and test devices), \<open>Terminal\<close> and \<open>Serial\<close> (terminal lines, DZ11 and SPIM consoles); \<open>Board\<close> puts the devices
  that use the clock on one clock as \<open>vmips.cc\<close> does. \<open>Clock_Facts\<close> gives the queue of relative times its meaning in
  absolute times and proves once, in the locale \<open>timed_tasks\<close>, that tasks that run keep an invariant;
  \<open>Terminal_Facts\<close> does it for the lines (locale \<open>virtual_lines\<close>), \<open>Board_Facts\<close> for all devices together.

  \<^bold>\<open>Machine.\<close> \<open>Machine\<close> composes the parts as the step functions of \<open>vmips.cc\<close> do in the three modes of the system, with
  the flits that pass between neighbouring chips and the turns of the bus masters; \<open>Machine_Facts\<close> shows that the
  turns are fair, that every cycle keeps the invariants of the pipeline and of the timed devices, and that simulated
  time is exactly the number of cycles times their length.

  \<^bold>\<open>Options.\<close> \<open>C_Strings\<close> (what is used of the C library) and \<open>Options\<close> (\<open>options.cc\<close>, \<open>optiontbl.h\<close>); \<open>Options_Facts\<close> shows that the table
  stays typed, that the last setting wins and that the defaults are complete.

  The theories \<open>_Props\<close>, and this one for memory, hold the properties, each followed by
  a witness at a concrete state. In the texts before them is what they leave out: no claim holds for
  more states or instructions than its text says.

  \<^bold>\<open>Loops.\<close> Loops of the code are structural recursions or have a termination proof; there is no
  fuel. The loops of the clock and of the topological sort that could fail to end in the code are total here, with the reason
  in their theories. Bounds such as the 16 entries of the store unit's queue, the 5 stages, 8 virtual channels or
  32-bit time are those of the code, and are hypotheses where a claim needs them.

  \<^bold>\<open>Not modelled.\<close> Of the processor: the trace file, dumps and the packet routines of the remote debugger. Of the
  machine: its construction from the options, signals, loading of files and shutdown, which only connect modelled parts to
  the host; in the composed machine the processor reaches memory and the DMA registers, while the
  windows of the router interface and of the devices are operations of those parts. The debugger's stub and prompt (sockets and terminals), the stand-alone tool and the
  vendored disassembler are left out, and everywhere messages, profile counters and destructors.
\<close>

section \<open>The physical memory system\<close>

text \<open>
  A small machine for the witnesses: 16 bytes of memory with latency 2 at address \<open>0x1000\<close>, on a
  bus with latency 1, a big-endian target on a little-endian host.
\<close>

definition demo_mapper :: mapper where
  "demo_mapper = snd (map_at_physical_address
     (MemoryModule (Range_new 0 16 (replicate 16 0) MEM_READ_WRITE) 2) 0x1000 (Mapper_new True False 1))"

lemma demo_mapper_wf: "mapper_wf demo_mapper" "mapper_wf (request_word t a md c demo_mapper)"
  by (simp_all add: demo_mapper_def cube_defs mapper_wf_def proper_range_def mem_range_wf_def)

lemma demo_mapper_ram:
  "ram_at demo_mapper 0x1004 0" "ram_at (request_word t a md c demo_mapper) 0x1004 0"
  "ram_at (enable_debug_mode demo_mapper) 0x1004 0"
  by (simp_all add: ram_at_def demo_mapper_def cube_defs enable_debug_mode_def)

text \<open>
  (C2) An aligned word load of readable memory whose latency has passed returns the four bytes of
  the flat memory in the byte order of the target, raises no exception, consumes the request, and
  changes neither the memory nor the layout of the address space.
\<close>

theorem mem_fetch_word_flat:
  assumes "mapper_wf m" and "addr mod 4 = 0" and "ram_at m addr i"
    and "canRead (obj_range (ranges m ! i))" and "access_ready now addr md c m i"
  shows "\<exists>w m'. mem_fetch_word now addr md c m = Some (w, m', []) \<and> view_word m addr = Some w \<and>
    mem_view m' = mem_view m \<and> mapper_wf m' \<and> same_layout m' m \<and>
    access_requests_time m' = (access_requests_time m)(request_key addr md c := None)"
  using assms by (rule mem_fetch_word_ram)

theorem mem_fetch_word_flat_witness:
  "\<exists>w m'. mem_fetch_word 13 0x1004 DATALOAD 7 (request_word 10 0x1004 DATALOAD 7 demo_mapper) =
     Some (w, m', []) \<and> mapper_wf m'"
proof -
  let ?m = "request_word 10 0x1004 DATALOAD 7 demo_mapper"
  have "canRead (obj_range (ranges ?m ! 0))" "access_ready 13 0x1004 DATALOAD 7 ?m 0"
    by (simp_all add: demo_mapper_def cube_defs access_ready_def)
  with mem_fetch_word_flat [OF demo_mapper_wf(2) _ demo_mapper_ram(2),
      where now = 13 and md = DATALOAD and c = 7] show ?thesis by fastforce
qed

text \<open>
  (C3) An aligned word store to writable memory whose latency has passed changes exactly the four
  bytes at the address, to the bytes of the word in the byte order of the target, whatever the byte
  order of the host.
\<close>

theorem mem_store_word_flat:
  assumes "mapper_wf m" and "addr mod 4 = 0" and "ram_at m addr i"
    and "canWrite (obj_range (ranges m ! i))" and "access_ready now addr DATASTORE c m i"
  shows "\<exists>m'. mem_store_word now addr d c m = Some (m', []) \<and> mapper_wf m' \<and> same_layout m' m \<and>
    (\<forall>p. mem_view m' p = (if unat (p - addr) < 4
        then Some (word_byte (opt_bigendian m) d (unat (p - addr))) else mem_view m p))"
  using assms by (rule mem_store_word_ram)

theorem mem_store_word_flat_witness:
  "\<exists>m'. mem_store_word 13 0x1004 0xAABBCCDD 7 (request_word 10 0x1004 DATASTORE 7 demo_mapper) =
     Some (m', []) \<and> mem_view m' 0x1005 = Some 0xBB"
proof -
  let ?m = "request_word 10 0x1004 DATASTORE 7 demo_mapper"
  have "canWrite (obj_range (ranges ?m ! 0))" "access_ready 13 0x1004 DATASTORE 7 ?m 0"
    "opt_bigendian ?m" "word_byte True 0xAABBCCDD 1 = 0xBB"
    by (simp_all add: demo_mapper_def cube_defs access_ready_def word_byte_def)
  with mem_store_word_flat [OF demo_mapper_wf(2) _ demo_mapper_ram(2) this(1,2), where d = "0xAABBCCDD"]
  obtain m' where "mem_store_word 13 0x1004 0xAABBCCDD 7 ?m = Some (m', [])"
    "mem_view m' 0x1005 = Some (word_byte True 0xAABBCCDD 1)"
    by fastforce
  with \<open>word_byte True 0xAABBCCDD 1 = 0xBB\<close> show ?thesis by simp
qed

text \<open>
  A block of words written through the mapper and read back is the block written, as the
  program loader and the debugger use it: with the debug mode on, every store succeeds and the
  loads return the words in order.
\<close>

lemma mem_block_roundtrip:
  assumes "length vs \<le> 2 ^ 30" and "\<forall>b \<in> set (slots a (length vs)). ram_ok m b"
  shows "\<exists>m'. store_block (mem_wr now c) m a vs = Some m' \<and>
    fetch_block (mem_rd now c) m' a (length vs) = Some vs"
  using ram_words.store_block_total [OF assms(2)]
    ram_words.fetch_block_store_block [OF _ distinct_slots [OF assms(1)] assms(2)] by blast

text \<open>
  (C29) Mapping a range either refuses it, exactly when it shares an address with a range already
  mapped, or appends it; in both cases the ranges of the mapper stay pairwise disjoint and in
  bounds.
\<close>

theorem add_range_disjoint:
  assumes "mapper_wf m" and "proper_range (obj_range r)" and "obj_wf r"
  shows "mapper_wf (snd (add_range r m)) \<and>
    (fst (add_range r m) = -1 \<longleftrightarrow>
      (\<exists>x \<in> set (ranges m). \<exists>a. incorporates (obj_range r) a \<and> incorporates (obj_range x) a))"
proof -
  have "overlaps (obj_range r) (obj_range x) \<longleftrightarrow>
      (\<exists>a. incorporates (obj_range r) a \<and> incorporates (obj_range x) a)" if "x \<in> set (ranges m)" for x
    using that assms by (intro overlaps_iff_common_address) (auto simp: mapper_wf_def)
  with add_range_wf [OF assms] show ?thesis by (auto simp: add_range_def)
qed

theorem add_range_disjoint_witness:
  "fst (add_range (PlainRange (Range_new 0x100C 8 (replicate 8 0) MEM_READ)) demo_mapper) = -1"
proof -
  let ?r = "PlainRange (Range_new 0x100C 8 (replicate 8 0) MEM_READ)"
  have "proper_range (obj_range ?r)" "obj_wf ?r"
    by (simp_all add: cube_defs proper_range_def mem_range_wf_def)
  moreover have "\<exists>x \<in> set (ranges demo_mapper). \<exists>a. incorporates (obj_range ?r) a \<and> incorporates (obj_range x) a"
    by (simp add: demo_mapper_def cube_defs) (rule exI [of _ "0x100C"], simp)
  ultimately show ?thesis using add_range_disjoint [OF demo_mapper_wf(1), of ?r] by blast
qed

text \<open>
  The one-entry lookup cache of \<open>find_mapping_range\<close> is transparent: the range found is the
  first (and only) mapped range that incorporates the address, cached or not.
\<close>

lemma find_mapping_range_transparent:
  assumes "mapper_wf m"
  shows "fst (find_mapping_range p m) = first_mapping (ranges m) p \<and>
    (\<forall>i < length (ranges m). incorporates (obj_range (ranges m ! i)) p \<longrightarrow>
       fst (find_mapping_range p m) = Some i)"
  using find_mapping_range_wf [OF assms] first_mapping_wf [OF assms] by simp

text \<open>
  The latency model: an access requested at cycle \<open>t\<close> is ready at cycle \<open>now\<close> exactly when
  \<open>now - t\<close> (in 32-bit arithmetic) has reached the bus latency plus the latency of the range.
\<close>

lemma request_latency:
  assumes "mapper_wf m" and "first_mapping (ranges m) addr = Some i" and "\<not> debug_mode m"
    and "access_requests_time m (request_key addr md c) = None"
  shows "map_option fst (mem_ready now addr md c (request_word t addr md c m)) =
    Some (bus_latency m + obj_extra_latency (ranges m ! i) \<le> now - t)"
  using request_then_ready [OF assms, of now t] by auto

text \<open>
  (C30) The system bus is exclusive: once a master was granted the bus through the mapper, no other
  master is granted it, at any cycle and whatever requests and releases of other masters happen in
  between, until the holder releases it.
\<close>

theorem mapper_bus_exclusive:
  assumes "mem_acquire_bus t c m = (True, m')" and "\<forall>u. Release u c \<notin> set ops" and "d \<noteq> c"
  shows "\<not> fst (mem_acquire_bus u d (bus_run mem_acquire_bus mem_release_bus m' ops))"
  using mapper_bus.exclusive [OF assms(1) _ assms(3)] assms(2) by blast

theorem mapper_bus_exclusive_witness:
  "\<not> fst (mem_acquire_bus 9 2 (bus_run mem_acquire_bus mem_release_bus
      (snd (mem_acquire_bus 5 1 demo_mapper)) [Acquire 6 2, Release 7 2, Acquire 8 3]))"
  using mapper_bus_exclusive [of 5 1 demo_mapper "snd (mem_acquire_bus 5 1 demo_mapper)"
      "[Acquire 6 2, Release 7 2, Acquire 8 3]" 2 9]
  by (simp add: demo_mapper_def cube_defs)

text \<open>
  (C37) An access to an unmapped address: a byte load raises a data bus error in the client, but an
  aligned word load or store dereferences the null pointer \<open>find_mapping_range\<close> returned, so the
  simulator itself stops.
\<close>

theorem unmapped_access:
  assumes "mapper_wf m" and "addr mod 4 = 0" and "first_mapping (ranges m) addr = None"
  shows "mem_fetch_word now addr md c m = None \<and> mem_store_word now addr d c m = None \<and>
    (\<exists>m'. mem_fetch_byte now addr c m = Some (0xff, m', [exc_req Exc_DBE DATALOAD]))"
  using mem_access_unmapped [OF assms] by blast

theorem unmapped_access_witness: "mem_fetch_word 13 0x2000 DATALOAD 7 demo_mapper = None"
  using unmapped_access [OF demo_mapper_wf(1), of "0x2000" 13 DATALOAD 7]
  by (simp add: demo_mapper_def cube_defs)

end
